(* ===== verification/Prelude.thy ===== *)
theory Prelude
  imports Complex_Main "HOL-Library.Word"
begin

text \<open>
  Shared vocabulary of the development: the machine-integer types of the program, the
  fact collections the component theories extend, generic lemmas about lists and words,
  and two small interfaces. The locale \<open>inv_system\<close> lifts a one-step invariant to every
  finite sequence of calls; it is interpreted by each stateful component on its own step
  function. The locale \<open>frame_system\<close> extends it with a quantity no step changes.
\<close>

unbundle bit_operations_syntax

type_synonym u8 = "8 word"
type_synonym u16 = "16 word"
type_synonym u32 = "32 word"
type_synonym u64 = "64 word"
type_synonym bytes = "8 word list"

named_theorems seq_simps
named_theorems wire_simps
named_theorems step_defs

subsection \<open>Runs of a step function\<close>

definition run :: "('s \<Rightarrow> 'e \<Rightarrow> 's) \<Rightarrow> 's \<Rightarrow> 'e list \<Rightarrow> 's" where
  "run step s es = foldl step s es"

lemma run_Nil [simp]: "run step s [] = s"
  by (simp add: run_def)

lemma run_Cons [simp]: "run step s (e # es) = run step (step s e) es"
  by (simp add: run_def)

lemma run_append: "run step s (es @ fs) = run step (run step s es) fs"
  by (simp add: run_def)

locale inv_system =
  fixes step :: "'s \<Rightarrow> 'e \<Rightarrow> 's"
    and inv :: "'s \<Rightarrow> bool"
  assumes inv_step: "inv s \<Longrightarrow> inv (step s e)"
begin

lemma inv_run: "inv s \<Longrightarrow> inv (run step s es)"
  by (induction es arbitrary: s) (simp_all add: inv_step)

end

locale frame_system = inv_system step inv
  for step :: "'s \<Rightarrow> 'e \<Rightarrow> 's" and inv :: "'s \<Rightarrow> bool" +
  fixes frame :: "'s \<Rightarrow> 'f"
  assumes frame_step: "inv s \<Longrightarrow> frame (step s e) = frame s"
begin

lemma frame_run: "inv s \<Longrightarrow> frame (run step s es) = frame s"
  by (induction es arbitrary: s) (simp_all add: inv_step frame_step)

end

subsection \<open>Fallible operations\<close>

text \<open>
  An operation that can fault returns a sum, the fault on the left. \<open>wp r Q\<close>: no fault, and the
  result satisfies \<open>Q\<close>.
\<close>

fun and_then :: "'e + 'a \<Rightarrow> ('a \<Rightarrow> 'e + 'b) \<Rightarrow> 'e + 'b" where
  "and_then (Inl e) f = Inl e"
| "and_then (Inr a) f = f a"

fun each :: "('a \<Rightarrow> 'b \<Rightarrow> 'e + 'b) \<Rightarrow> 'a list \<Rightarrow> 'b \<Rightarrow> 'e + 'b" where
  "each f [] b = Inr b"
| "each f (x # xs) b = and_then (f x b) (each f xs)"

definition wp :: "'e + 'a \<Rightarrow> ('a \<Rightarrow> bool) \<Rightarrow> bool" where
  "wp r Q = (case r of Inl _ \<Rightarrow> False | Inr a \<Rightarrow> Q a)"

lemma wp_Inr [simp]: "wp (Inr a) Q = Q a"
  by (simp add: wp_def)

lemma wp_Inl [simp]: "\<not> wp (Inl e) Q"
  by (simp add: wp_def)

lemma wp_and_then [simp]: "wp (and_then r f) Q = wp r (\<lambda>a. wp (f a) Q)"
  by (cases r) simp_all

lemma and_then_Inr: "and_then r f = Inr b \<longleftrightarrow> (\<exists>a. r = Inr a \<and> f a = Inr b)"
  by (cases r) simp_all

lemma wp_if [simp]: "wp (if b then r else s) Q = (if b then wp r Q else wp s Q)"
  by simp

lemma wp_mono: "wp r P \<Longrightarrow> (\<And>a. P a \<Longrightarrow> Q a) \<Longrightarrow> wp r Q"
  by (cases r) simp_all

lemma wp_conj: "wp r (\<lambda>a. P a \<and> Q a) \<longleftrightarrow> wp r P \<and> wp r Q"
  by (cases r) simp_all

lemma wpD: "wp r Q \<Longrightarrow> \<exists>a. r = Inr a \<and> Q a"
  by (cases r) simp_all

lemma each_append: "each f (xs @ ys) b = and_then (each f xs b) (each f ys)"
proof (induction xs arbitrary: b)
  case (Cons x xs)
  then show ?case by (cases "f x b") auto
qed simp

lemma each_then: "each f xs b = Inr c \<Longrightarrow> each f ys c = r \<Longrightarrow> each f (xs @ ys) b = r"
  by (simp add: each_append)

lemma wp_each:
  assumes "Q b" "\<And>x b. x \<in> set xs \<Longrightarrow> Q b \<Longrightarrow> wp (f x b) Q"
  shows "wp (each f xs b) Q"
  using assms
proof (induction xs arbitrary: b)
  case (Cons x xs)
  have "wp (f x b) Q" using Cons.prems by simp
  then show ?case
    using Cons by (auto intro: wp_mono)
qed simp

subsection \<open>Lists\<close>

lemma takeWhile_all: "(\<And>x. x \<in> set xs \<Longrightarrow> P x) \<Longrightarrow> takeWhile P xs = xs"
  by (simp add: takeWhile_eq_all_conv)

lemma sorted_wrt_dropWhile: "sorted_wrt R xs \<Longrightarrow> sorted_wrt R (dropWhile P xs)"
  by (induction xs) auto

lemma sorted_wrt_takeWhile: "sorted_wrt R xs \<Longrightarrow> sorted_wrt R (takeWhile P xs)"
  by (induction xs) (auto dest: set_takeWhileD)

lemma length_takeWhile_dropWhile:
  "length (takeWhile P xs) + length (dropWhile P xs) = length xs"
  by (metis length_append takeWhile_dropWhile_id)

lemma surjective_pairing3: "t = (fst t, fst (snd t), snd (snd t))"
  by simp

subsection \<open>Integers\<close>

text \<open>Integer division of C++: truncation towards zero.\<close>

definition c_div :: "int \<Rightarrow> int \<Rightarrow> int" where
  "c_div a b = sgn a * sgn b * (\<bar>a\<bar> div \<bar>b\<bar>)"

lemma c_div_nonneg: "0 \<le> a \<Longrightarrow> 0 < b \<Longrightarrow> c_div a b = a div b"
  by (cases "a = 0") (simp_all add: c_div_def)

subsection \<open>Words\<close>

lemma unat_u16_less [simp]: "unat (x :: u16) < 65536"
  using unsigned_less[of x, where ?'a = nat] by simp

lemma unat_u8_less [simp]: "unat (x :: u8) < 256"
  using unsigned_less[of x, where ?'a = nat] by simp

lemma unat_u32_less [simp]: "unat (x :: u32) < 4294967296"
  using unsigned_less[of x, where ?'a = nat] by simp

lemma unat_sub_u16:
  "unat (a - b :: u16) = (if unat b \<le> unat a then unat a - unat b else 65536 + unat a - unat b)"
  by (auto simp: unat_sub_if')

lemma unat_of_nat_u16: "unat (of_nat n :: u16) = n mod 65536"
  by (simp add: unat_of_nat)

end
