(* ===== verification/OrdMap.thy ===== *)
theory OrdMap
  imports Prelude
begin

text \<open>
  The ordered containers of the C++ standard library with a user comparator:
  \<open>std::map<K, V, Cmp>\<close> as an association list in comparator order and
  \<open>std::set<K, Cmp>\<close> as a list. \<open>lower_bound\<close> splits the sequence at the first key that
  is not less than the probe, the lookup and insertion follow from it as in the library.
  The comparator has to be a strict linear order on the keys in play (the library's
  precondition); \<open>omap_wf lt S m\<close> says so for the key universe \<open>S\<close>. The locale \<open>std_map\<close>
  is the contract the clients use; it is interpreted on these operations and on plain
  HOL maps (the \<open>std::map\<close> with the default order of the other components).
\<close>

type_synonym ('k, 'v) omap = "('k \<times> 'v) list"

definition om_before :: "('k \<Rightarrow> 'k \<Rightarrow> bool) \<Rightarrow> 'k \<Rightarrow> ('k, 'v) omap \<Rightarrow> ('k, 'v) omap" where
  "om_before lt k m = takeWhile (\<lambda>p. lt (fst p) k) m"

definition om_lower_bound :: "('k \<Rightarrow> 'k \<Rightarrow> bool) \<Rightarrow> 'k \<Rightarrow> ('k, 'v) omap \<Rightarrow> ('k, 'v) omap" where
  "om_lower_bound lt k m = dropWhile (\<lambda>p. lt (fst p) k) m"

definition om_find :: "('k \<Rightarrow> 'k \<Rightarrow> bool) \<Rightarrow> ('k, 'v) omap \<Rightarrow> 'k \<Rightarrow> 'v option" where
  "om_find lt m k =
     (case om_lower_bound lt k m of
        [] \<Rightarrow> None
      | p # _ \<Rightarrow> if lt k (fst p) then None else Some (snd p))"

definition om_put :: "('k \<Rightarrow> 'k \<Rightarrow> bool) \<Rightarrow> 'k \<Rightarrow> 'v \<Rightarrow> ('k, 'v) omap \<Rightarrow> ('k, 'v) omap" where
  "om_put lt k v m =
     om_before lt k m @
     (case om_lower_bound lt k m of
        [] \<Rightarrow> [(k, v)]
      | p # ps \<Rightarrow> if lt k (fst p) then (k, v) # p # ps else (fst p, v) # ps)"

definition om_erase :: "('k \<Rightarrow> 'k \<Rightarrow> bool) \<Rightarrow> 'k \<Rightarrow> ('k, 'v) omap \<Rightarrow> ('k, 'v) omap" where
  "om_erase lt k m =
     om_before lt k m @
     (case om_lower_bound lt k m of
        [] \<Rightarrow> []
      | p # ps \<Rightarrow> if lt k (fst p) then p # ps else ps)"

definition strict_on :: "('k \<Rightarrow> 'k \<Rightarrow> bool) \<Rightarrow> 'k set \<Rightarrow> bool" where
  "strict_on lt S \<longleftrightarrow>
     (\<forall>x\<in>S. \<not> lt x x) \<and>
     (\<forall>x\<in>S. \<forall>y\<in>S. \<forall>z\<in>S. lt x y \<longrightarrow> lt y z \<longrightarrow> lt x z) \<and>
     (\<forall>x\<in>S. \<forall>y\<in>S. x \<noteq> y \<longrightarrow> lt x y \<or> lt y x)"

definition omap_wf :: "('k \<Rightarrow> 'k \<Rightarrow> bool) \<Rightarrow> 'k set \<Rightarrow> ('k, 'v) omap \<Rightarrow> bool" where
  "omap_wf lt S m \<longleftrightarrow> strict_on lt S \<and> fst ` set m \<subseteq> S \<and>
     sorted_wrt lt (map fst m)"

lemma om_split: "om_before lt k m @ om_lower_bound lt k m = m"
  by (simp add: om_before_def om_lower_bound_def)

lemma om_simps_Cons:
  "om_find lt (p # m) k =
     (if lt (fst p) k then om_find lt m k
      else if lt k (fst p) then None else Some (snd p))"
  "om_put lt k v (p # m) =
     (if lt (fst p) k then p # om_put lt k v m
      else if lt k (fst p) then (k, v) # p # m else (fst p, v) # m)"
  "om_erase lt k (p # m) =
     (if lt (fst p) k then p # om_erase lt k m
      else if lt k (fst p) then p # m else m)"
  by (simp_all add: om_find_def om_put_def om_erase_def om_before_def om_lower_bound_def)

lemma om_simps_Nil:
  "om_find lt [] k = None" "om_put lt k v [] = [(k, v)]" "om_erase lt k [] = []"
  by (simp_all add: om_find_def om_put_def om_erase_def om_before_def om_lower_bound_def)

lemma length_om_erase: "length (om_erase lt k m) \<le> length m"
  by (induction m) (auto simp: om_simps_Cons om_simps_Nil)

lemma om_erase_absent: "om_find lt m k = None \<Longrightarrow> om_erase lt k m = m"
  by (induction m) (auto simp: om_simps_Cons om_simps_Nil split: if_splits)

lemma length_om_put: "length (om_put lt k v m) \<le> Suc (length m)"
  by (induction m) (auto simp: om_simps_Cons om_simps_Nil)

lemma set_om_erase: "set (om_erase lt k m) \<subseteq> set m"
  by (induction m) (auto simp: om_simps_Cons om_simps_Nil)

lemma omap_wf_Nil [simp]: "omap_wf lt S [] \<longleftrightarrow> strict_on lt S"
  by (simp add: omap_wf_def)

lemma omap_wf_Cons:
  "omap_wf lt S (p # m) \<longleftrightarrow>
     fst p \<in> S \<and> (\<forall>q\<in>set m. lt (fst p) (fst q)) \<and> omap_wf lt S m"
  by (auto simp: omap_wf_def)

lemma strict_on_irrefl: "strict_on lt S \<Longrightarrow> x \<in> S \<Longrightarrow> \<not> lt x x"
  by (simp add: strict_on_def)

lemma strict_on_trans:
  "strict_on lt S \<Longrightarrow> x \<in> S \<Longrightarrow> y \<in> S \<Longrightarrow> z \<in> S \<Longrightarrow> lt x y \<Longrightarrow> lt y z \<Longrightarrow> lt x z"
  unfolding strict_on_def by blast

lemma strict_on_total: "strict_on lt S \<Longrightarrow> x \<in> S \<Longrightarrow> y \<in> S \<Longrightarrow> x \<noteq> y \<Longrightarrow> lt x y \<or> lt y x"
  unfolding strict_on_def by blast

lemma strict_on_asym: "strict_on lt S \<Longrightarrow> x \<in> S \<Longrightarrow> y \<in> S \<Longrightarrow> lt x y \<Longrightarrow> \<not> lt y x"
  using strict_on_trans[of lt S x y x] strict_on_irrefl[of lt S x] by blast

lemmas strict_onD = strict_on_irrefl strict_on_trans strict_on_total strict_on_asym

lemma omap_wf_keys: "omap_wf lt S m \<Longrightarrow> p \<in> set m \<Longrightarrow> fst p \<in> S"
  by (auto simp: omap_wf_def)

lemma omap_wf_distinct: "omap_wf lt S m \<Longrightarrow> distinct (map fst m)"
proof (induction m)
  case (Cons p m)
  then show ?case
    using strict_on_irrefl by (fastforce simp: omap_wf_Cons omap_wf_def)
qed simp

lemma om_find_map_of:
  assumes "omap_wf lt S m" "k \<in> S"
  shows "om_find lt m k = map_of m k"
  using assms
proof (induction m)
  case (Cons p m)
  obtain a b where p: "p = (a, b)" by (cases p)
  from Cons.prems have S: "strict_on lt S" "a \<in> S" "k \<in> S" "omap_wf lt S m"
    and less: "\<forall>q\<in>set m. lt a (fst q)"
    by (auto simp: omap_wf_Cons p omap_wf_def)
  have "map_of m k = None" if "lt k a"
  proof -
    have "fst q \<noteq> k" if "q \<in> set m" for q
      using less that \<open>lt k a\<close> strict_on_asym[OF S(1-3)] S by auto
    then show ?thesis by (force simp: map_of_eq_None_iff)
  qed
  then show ?case
    using Cons.IH[OF S(4,3)] strict_on_irrefl[OF S(1)] strict_on_total[OF S(1)] S
    by (auto simp: om_simps_Cons p)
qed (simp add: om_simps_Nil)

lemma set_om_put:
  assumes "omap_wf lt S m" "k \<in> S"
  shows "set (om_put lt k v m) = insert (k, v) {p \<in> set m. fst p \<noteq> k}"
  using assms
proof (induction m)
  case (Cons p m)
  from Cons.prems have S: "strict_on lt S" "fst p \<in> S" "k \<in> S" "omap_wf lt S m"
    and less: "\<forall>q\<in>set m. lt (fst p) (fst q)"
    by (auto simp: omap_wf_Cons omap_wf_def)
  have sub: "fst q \<in> S" if "q \<in> set m" for q
    using S(4) that by (rule omap_wf_keys)
  show ?case
  proof (cases "lt (fst p) k")
    case True
    then have "fst p \<noteq> k" using strict_on_irrefl[OF S(1)] S by auto
    with True Cons.IH[OF S(4,3)] show ?thesis
      by (auto simp: om_simps_Cons)
  next
    case F: False
    have ne: "fst q \<noteq> k" if "q \<in> set m" for q
      using F less that by auto
    show ?thesis
    proof (cases "lt k (fst p)")
      case True
      then have "fst p \<noteq> k" using strict_on_irrefl[OF S(1)] S by auto
      with True F ne show ?thesis by (auto simp: om_simps_Cons)
    next
      case False
      with F S have "fst p = k" using strict_on_total[OF S(1)] by blast
      with False F ne show ?thesis by (auto simp: om_simps_Cons)
    qed
  qed
qed (simp add: om_simps_Nil)

lemma set_om_erase_wf:
  assumes "omap_wf lt S m" "k \<in> S"
  shows "set (om_erase lt k m) = {p \<in> set m. fst p \<noteq> k}"
  using assms
proof (induction m)
  case (Cons p m)
  from Cons.prems have S: "strict_on lt S" "fst p \<in> S" "k \<in> S" "omap_wf lt S m"
    and less: "\<forall>q\<in>set m. lt (fst p) (fst q)"
    by (auto simp: omap_wf_Cons omap_wf_def)
  show ?case
  proof (cases "lt (fst p) k")
    case True
    then have "fst p \<noteq> k" using strict_on_irrefl[OF S(1)] S by auto
    with True Cons.IH[OF S(4,3)] show ?thesis by (auto simp: om_simps_Cons)
  next
    case F: False
    have ne: "fst q \<noteq> k" if "q \<in> set m" for q
      using F less that by auto
    have "lt k (fst p) \<or> fst p = k"
      using F S strict_on_total[OF S(1)] by blast
    then show ?thesis
      using F ne strict_on_irrefl[OF S(1)] S by (auto simp: om_simps_Cons)
  qed
qed (simp add: om_simps_Nil)

lemma om_put_wf:
  assumes "omap_wf lt S m" "k \<in> S"
  shows "omap_wf lt S (om_put lt k v m)"
  using assms
proof (induction m)
  case (Cons p m)
  from Cons.prems have S: "strict_on lt S" "fst p \<in> S" "k \<in> S" "omap_wf lt S m"
    and less: "\<forall>q\<in>set m. lt (fst p) (fst q)"
    by (auto simp: omap_wf_Cons omap_wf_def)
  have trans: "lt k (fst q)" if "lt k (fst p)" "q \<in> set m" for q
    using strict_on_trans[OF S(1) S(3) S(2)] omap_wf_keys[OF S(4)] less that by blast
  show ?case
    using Cons.IH[OF S(4,3)] S less trans
    by (auto simp: om_simps_Cons omap_wf_Cons set_om_put[OF S(4,3)])
qed (simp add: om_simps_Nil omap_wf_def)

lemma om_erase_wf:
  assumes "omap_wf lt S m"
  shows "omap_wf lt S (om_erase lt k m)"
  using assms
proof (induction m)
  case (Cons p m)
  then show ?case
    using set_om_erase[of lt k m] by (auto simp: om_simps_Cons omap_wf_Cons)
qed (simp add: om_simps_Nil)

lemma om_lower_bound_wf: "omap_wf lt S m \<Longrightarrow> omap_wf lt S (om_lower_bound lt k m)"
  by (induction m) (auto simp: om_lower_bound_def omap_wf_Cons)

lemma om_lower_bound_subset: "set (om_lower_bound lt k m) \<subseteq> set m"
  by (auto simp: om_lower_bound_def dest: set_dropWhileD)

lemma length_om_lower_bound: "length (om_lower_bound lt k m) \<le> length m"
  by (simp add: om_lower_bound_def length_dropWhile_le)

lemma omap_wf_filter: "omap_wf lt S m \<Longrightarrow> omap_wf lt S (filter P m)"
  by (induction m) (auto simp: omap_wf_Cons)

lemma map_of_set_eq:
  "distinct (map fst m) \<Longrightarrow> distinct (map fst m') \<Longrightarrow> set m = set m' \<Longrightarrow> map_of m = map_of m'"
  by (simp add: map_of_inject_set)

lemma map_of_filter_ne: "map_of (filter (\<lambda>p. fst p \<noteq> k) m) j = (if j = k then None else map_of m j)"
  by (induction m) auto

lemma om_find_put:
  assumes "omap_wf lt S m" "k \<in> S" "j \<in> S"
  shows "om_find lt (om_put lt k v m) j = (if j = k then Some v else om_find lt m j)"
proof -
  have "map_of (om_put lt k v m) = map_of ((k, v) # filter (\<lambda>p. fst p \<noteq> k) m)"
  proof (rule map_of_set_eq)
    show "distinct (map fst (om_put lt k v m))"
      using om_put_wf[OF assms(1,2)] by (rule omap_wf_distinct)
    show "distinct (map fst ((k, v) # filter (\<lambda>p. fst p \<noteq> k) m))"
      using omap_wf_distinct[OF assms(1)] by (auto simp: distinct_map_filter)
    show "set (om_put lt k v m) = set ((k, v) # filter (\<lambda>p. fst p \<noteq> k) m)"
      using set_om_put[OF assms(1,2)] by auto
  qed
  then show ?thesis
    using om_find_map_of[OF om_put_wf[OF assms(1,2)] assms(3)] om_find_map_of[OF assms(1,3)]
    by (auto simp: map_of_filter_ne)
qed

lemma om_find_erase:
  assumes "omap_wf lt S m" "k \<in> S" "j \<in> S"
  shows "om_find lt (om_erase lt k m) j = (if j = k then None else om_find lt m j)"
proof -
  have "map_of (om_erase lt k m) = map_of (filter (\<lambda>p. fst p \<noteq> k) m)"
  proof (rule map_of_set_eq)
    show "distinct (map fst (om_erase lt k m))"
      using om_erase_wf[OF assms(1)] by (rule omap_wf_distinct)
    show "distinct (map fst (filter (\<lambda>p. fst p \<noteq> k) m))"
      using omap_wf_distinct[OF assms(1)] by (auto simp: distinct_map_filter)
    show "set (om_erase lt k m) = set (filter (\<lambda>p. fst p \<noteq> k) m)"
      using set_om_erase_wf[OF assms(1,2)] by auto
  qed
  then show ?thesis
    using om_find_map_of[OF om_erase_wf[OF assms(1)] assms(3)] om_find_map_of[OF assms(1,3)]
    by (simp add: map_of_filter_ne)
qed

subsection \<open>The contract\<close>

locale std_map =
  fixes look :: "'m \<Rightarrow> 'k \<Rightarrow> 'v option"
    and put :: "'k \<Rightarrow> 'v \<Rightarrow> 'm \<Rightarrow> 'm"
    and del :: "'k \<Rightarrow> 'm \<Rightarrow> 'm"
    and adm :: "'k \<Rightarrow> 'm \<Rightarrow> bool"
  assumes look_put: "adm k m \<Longrightarrow> adm j m \<Longrightarrow> look (put k v m) j = (if j = k then Some v else look m j)"
    and look_del: "adm k m \<Longrightarrow> adm j m \<Longrightarrow> look (del k m) j = (if j = k then None else look m j)"
    and adm_put: "adm k m \<Longrightarrow> adm j m \<Longrightarrow> adm j (put k v m)"
    and adm_del: "adm j m \<Longrightarrow> adm j (del k m)"
begin

lemma look_put_same: "adm k m \<Longrightarrow> look (put k v m) k = Some v"
  by (simp add: look_put)

lemma look_del_same: "adm k m \<Longrightarrow> look (del k m) k = None"
  by (simp add: look_del)

lemma del_put: "adm k m \<Longrightarrow> adm j m \<Longrightarrow> look (del k (put k v m)) j = look (del k m) j"
  by (simp add: look_del look_put adm_put)

lemma put_put: "adm k m \<Longrightarrow> adm j m \<Longrightarrow> look (put k v (put k w m)) j = look (put k v m) j"
  by (simp add: look_put adm_put)

lemma adm_fold_put:
  "\<forall>k\<in>set ks. adm k m \<Longrightarrow> adm j m \<Longrightarrow> adm j (fold (\<lambda>k. put k (f k)) ks m)"
  by (induction ks arbitrary: m) (simp_all add: adm_put)

lemma look_fold_put:
  "\<forall>k\<in>set ks. adm k m \<Longrightarrow> adm j m \<Longrightarrow>
   look (fold (\<lambda>k. put k (f k)) ks m) j = (if j \<in> set ks then Some (f j) else look m j)"
  by (induction ks arbitrary: m) (auto simp: adm_put look_put)

end

definition om_adm :: "('k \<Rightarrow> 'k \<Rightarrow> bool) \<Rightarrow> 'k set \<Rightarrow> 'k \<Rightarrow> ('k, 'v) omap \<Rightarrow> bool" where
  "om_adm lt S k m \<longleftrightarrow> omap_wf lt S m \<and> k \<in> S"

interpretation om: std_map "om_find lt" "om_put lt" "om_erase lt" "om_adm lt S" for lt S
  by unfold_locales (auto simp: om_adm_def om_find_put om_find_erase om_put_wf om_erase_wf)

definition hm_put :: "'k \<Rightarrow> 'v \<Rightarrow> ('k \<rightharpoonup> 'v) \<Rightarrow> ('k \<rightharpoonup> 'v)" where
  "hm_put k v m = m(k \<mapsto> v)"

definition hm_del :: "'k \<Rightarrow> ('k \<rightharpoonup> 'v) \<Rightarrow> ('k \<rightharpoonup> 'v)" where
  "hm_del k m = m(k := None)"

interpretation hm: std_map "\<lambda>m. m" hm_put hm_del "\<lambda>_ _. True"
  by unfold_locales (auto simp: hm_put_def hm_del_def)

end
