(* ===== verification/SeqNum.thy ===== *)
theory SeqNum
  imports OrdMap
begin

text \<open>
  The wrap-aware sequence-number operations of libwebrtc (\<open>sequence_number_util.h\<close>) that
  the program calls. They are not part of the repository, so they are a parameter: the
  record \<open>seq_lib\<close> holds the five operations and \<open>seq_lib_ok\<close> states their documented
  behaviour on 16-bit numbers: differences modulo \<open>2 ^ 16\<close>, \<open>AheadOrAt a b\<close> when \<open>a\<close> is at
  most half the range in front of \<open>b\<close> (the larger number wins at exactly half), \<open>AheadOf\<close>
  its strict part and \<open>DescendingSeqNumComp\<close> the comparator that puts older numbers first.
  The comparator is no order on all 65536 numbers, but it is one on every window of 32768
  numbers that ends at a front; \<open>age front k\<close> is the distance of \<open>k\<close> behind the front.
\<close>

record seq_lib =
  AheadOf :: "u16 \<Rightarrow> u16 \<Rightarrow> bool"
  AheadOrAt :: "u16 \<Rightarrow> u16 \<Rightarrow> bool"
  ForwardDiff :: "u16 \<Rightarrow> u16 \<Rightarrow> u16"
  ReverseDiff :: "u16 \<Rightarrow> u16 \<Rightarrow> u16"
  DescendingSeqNumComp :: "u16 \<Rightarrow> u16 \<Rightarrow> bool"

definition ahead_or_at_spec :: "u16 \<Rightarrow> u16 \<Rightarrow> bool" where
  "ahead_or_at_spec a b \<longleftrightarrow>
     (if a - b = 32768 then b < a else unat (a - b) < 32768)"

definition seq_lib_ok :: "seq_lib \<Rightarrow> bool" where
  "seq_lib_ok L \<longleftrightarrow>
     (\<forall>a b. AheadOrAt L a b = ahead_or_at_spec a b) \<and>
     (\<forall>a b. AheadOf L a b = (a \<noteq> b \<and> AheadOrAt L a b)) \<and>
     (\<forall>a b. ForwardDiff L a b = b - a) \<and>
     (\<forall>a b. ReverseDiff L a b = a - b) \<and>
     (\<forall>a b. DescendingSeqNumComp L a b = AheadOf L b a)"

text \<open>The instance used by the witnesses.\<close>

definition webrtc_seq :: seq_lib where
  "webrtc_seq = \<lparr>AheadOf = (\<lambda>a b. a \<noteq> b \<and> ahead_or_at_spec a b),
     AheadOrAt = ahead_or_at_spec,
     ForwardDiff = (\<lambda>a b. b - a),
     ReverseDiff = (\<lambda>a b. a - b),
     DescendingSeqNumComp = (\<lambda>a b. b \<noteq> a \<and> ahead_or_at_spec b a)\<rparr>"

lemma webrtc_seq_ok: "seq_lib_ok webrtc_seq"
  by (simp add: seq_lib_ok_def webrtc_seq_def)

lemma seq_lib_okD [seq_simps]:
  assumes "seq_lib_ok L"
  shows "AheadOrAt L a b = ahead_or_at_spec a b"
    and "AheadOf L a b = (a \<noteq> b \<and> ahead_or_at_spec a b)"
    and "ForwardDiff L a b = b - a"
    and "ReverseDiff L a b = a - b"
    and "DescendingSeqNumComp L a b = (b \<noteq> a \<and> ahead_or_at_spec b a)"
  using assms by (auto simp: seq_lib_ok_def)

definition age :: "u16 \<Rightarrow> u16 \<Rightarrow> nat" where
  "age front k = unat (front - k)"

lemma age_less [simp]: "age f k < 65536"
  by (simp add: age_def)

lemma age_0_iff: "age f k = 0 \<longleftrightarrow> k = f"
  by (auto simp: age_def unat_eq_0)

lemma age_self [simp]: "age f f = 0"
  by (simp add: age_0_iff)

lemma age_inject [simp]: "age f a = age f b \<longleftrightarrow> a = b"
  by (simp add: age_def word_unat_eq_iff [symmetric])

lemma diff_age:
  "unat (b - a) = (if age f b \<le> age f a then age f a - age f b else 65536 + age f a - age f b)"
proof -
  have "b - a = (f - a) - (f - b)" by simp
  then show ?thesis
    by (simp only: age_def unat_sub_u16 [of "f - a" "f - b"])
qed

lemma age_shift: "age g k = (age g f + age f k) mod 65536"
proof -
  have "unat ((g - f) + (f - k)) = (unat (g - f) + unat (f - k)) mod 65536"
    by (subst unat_word_ariths(1)) simp
  then show ?thesis
    by (simp add: age_def)
qed

lemma age_sub_of_nat: "n < 65536 \<Longrightarrow> age f (f - of_nat n) = n"
  by (simp add: age_def unat_of_nat_u16)

text \<open>Inside a window the comparator compares ages, so it is a strict linear order there.\<close>

definition window :: "u16 \<Rightarrow> u16 set" where
  "window f = {k. age f k < 32768}"

lemma ahead_or_at_window:
  assumes "age f a < 32768" "age f b < 32768"
  shows "ahead_or_at_spec a b \<longleftrightarrow> age f a \<le> age f b"
proof -
  have d: "unat (a - b) = (if age f a \<le> age f b then age f b - age f a
            else 65536 + age f b - age f a)"
    by (rule diff_age)
  have "a - b = 32768 \<longleftrightarrow> unat (a - b) = 32768"
    by (simp add: word_unat_eq_iff)
  with d assms show ?thesis
    by (auto simp: ahead_or_at_spec_def)
qed

lemma comp_window:
  assumes "seq_lib_ok L" "a \<in> window f" "b \<in> window f"
  shows "DescendingSeqNumComp L a b \<longleftrightarrow> age f b < age f a"
proof -
  have "ahead_or_at_spec b a \<longleftrightarrow> age f b \<le> age f a"
    using assms(2,3) by (intro ahead_or_at_window) (simp_all add: window_def)
  then show ?thesis
    by (auto simp: seq_lib_okD[OF assms(1)] order.order_iff_strict)
qed

lemma strict_on_window:
  assumes "seq_lib_ok L"
  shows "strict_on (DescendingSeqNumComp L) (window f)"
  unfolding strict_on_def
proof (intro conjI ballI impI)
  fix x y z assume "x \<in> window f" "y \<in> window f" "z \<in> window f"
    and "DescendingSeqNumComp L x y" "DescendingSeqNumComp L y z"
  then show "DescendingSeqNumComp L x z"
    by (simp add: comp_window[OF assms])
next
  fix x y assume "x \<in> window f" "y \<in> window f" "x \<noteq> y"
  then show "DescendingSeqNumComp L x y \<or> DescendingSeqNumComp L y x"
    using age_inject[of f x y] by (auto simp: comp_window[OF assms] simp del: age_inject)
qed (simp add: comp_window[OF assms])

lemma sorted_window:
  assumes "seq_lib_ok L" "set ks \<subseteq> window f"
  shows "sorted_wrt (DescendingSeqNumComp L) ks \<longleftrightarrow> sorted_wrt (\<lambda>a b. age f b < age f a) ks"
  using assms(2)
proof (induction ks)
  case (Cons k ks)
  then have "DescendingSeqNumComp L k j = (age f j < age f k)" if "j \<in> set ks" for j
    using that by (intro comp_window[OF assms(1)]) auto
  with Cons show ?case by simp
qed simp

end
