(* ===== verification/Histogram.thy ===== *)
theory Histogram
  imports Prelude
begin

text \<open>
  \<open>modules/video_coding/histogram.cpp\<close>: the reordering-distance histogram, a ring buffer of
  the latest samples with a counting bucket per distance. \<open>hist_abs\<close> reads the ring buffer
  from the oldest sample to the newest; \<open>Hist_Add\<close> refines "append the clamped sample and
  keep the last \<open>capacity\<close>". \<open>f32\<close> is the rounding of IEEE binary32 (nearest, ties to
  even) on the non-negative normal range, which is where the quotients of the sample
  counts lie; \<open>InverseCdf\<close> accumulates with it as the loop of the source does.
\<close>

record histogram =
  hvalues :: "nat list"
  hbuckets :: "nat list"
  hindex :: nat
  hcapacity :: nat

definition Hist_new :: "nat \<Rightarrow> nat \<Rightarrow> histogram" where
  "Hist_new num_buckets max_num_packets =
     \<lparr>hvalues = [], hbuckets = replicate num_buckets 0, hindex = 0,
      hcapacity = max_num_packets\<rparr>"

definition hclamp :: "histogram \<Rightarrow> nat \<Rightarrow> nat" where
  "hclamp h v = min v (length (hbuckets h) - 1)"

definition Hist_Add :: "nat \<Rightarrow> histogram \<Rightarrow> histogram" where
  "Hist_Add v h =
     (let value = hclamp h v;
          old = hvalues h ! hindex h;
          h1 = (if hindex h < length (hvalues h)
                then h\<lparr>hbuckets := (hbuckets h)[old := hbuckets h ! old - 1],
                       hvalues := (hvalues h)[hindex h := value]\<rparr>
                else h\<lparr>hvalues := hvalues h @ [value]\<rparr>)
      in h1\<lparr>hbuckets := (hbuckets h1)[value := hbuckets h1 ! value + 1],
            hindex := (hindex h1 + 1) mod hcapacity h1\<rparr>)"

definition Hist_NumValues :: "histogram \<Rightarrow> nat" where
  "Hist_NumValues h = length (hvalues h)"

subsection \<open>binary32 arithmetic of the inverse distribution function\<close>

fun lg2 :: "nat \<Rightarrow> nat" where
  "lg2 n = (if n < 2 then 0 else Suc (lg2 (n div 2)))"

declare lg2.simps [simp del]

definition exp32 :: "rat \<Rightarrow> int" where
  "exp32 x = (if 1 \<le> x then int (lg2 (nat \<lfloor>x\<rfloor>))
     else let n = nat \<lceil>1 / x\<rceil> in if n \<le> 1 then 0 else - int (Suc (lg2 (n - 1))))"

definition round_even :: "rat \<Rightarrow> int" where
  "round_even x = (let f = \<lfloor>x\<rfloor>; d = x - of_int f in
     if d < 1 / 2 then f else if 1 / 2 < d then f + 1 else if even f then f else f + 1)"

definition f32 :: "rat \<Rightarrow> rat" where
  "f32 x = (if x \<le> 0 then 0 else
     let e = exp32 x - 23;
         ulp = (if 0 \<le> e then 2 ^ nat e else 1 / 2 ^ nat (- e))
     in of_int (round_even (x / ulp)) * ulp)"

definition fl_step :: "nat \<Rightarrow> rat \<Rightarrow> nat \<Rightarrow> rat" where
  "fl_step n acc c = f32 (acc + f32 (f32 (of_nat c) / f32 (of_nat n)))"

fun inverse_cdf_loop :: "nat \<Rightarrow> rat \<Rightarrow> nat list \<Rightarrow> rat \<Rightarrow> nat \<Rightarrow> nat" where
  "inverse_cdf_loop n p [] acc bucket = bucket"
| "inverse_cdf_loop n p (c # cs) acc bucket =
     (if acc < p then inverse_cdf_loop n p cs (fl_step n acc c) (Suc bucket) else bucket)"

text \<open>Without samples the first quotient is \<open>0 / 0\<close>, a NaN that ends the loop.\<close>

definition InverseCdf :: "rat \<Rightarrow> histogram \<Rightarrow> nat" where
  "InverseCdf p h =
     (if hvalues h = [] then (if 0 < p \<and> hbuckets h \<noteq> [] then 1 else 0)
      else inverse_cdf_loop (length (hvalues h)) p (hbuckets h) 0 0)"

subsection \<open>Invariant\<close>

definition hist_ok :: "histogram \<Rightarrow> bool" where
  "hist_ok h \<longleftrightarrow>
     0 < length (hbuckets h) \<and> 0 < hcapacity h \<and>
     length (hvalues h) \<le> hcapacity h \<and>
     (if length (hvalues h) < hcapacity h then hindex h = length (hvalues h)
      else hindex h < hcapacity h) \<and>
     (\<forall>v\<in>set (hvalues h). v < length (hbuckets h)) \<and>
     (\<forall>i<length (hbuckets h). hbuckets h ! i = count_list (hvalues h) i)"

lemma count_list_update:
  "k < length xs \<Longrightarrow>
   count_list (xs[k := v]) i + (if xs ! k = i then 1 else 0) = count_list xs i + (if v = i then 1 else 0)"
proof (induction xs arbitrary: k)
  case (Cons x xs)
  show ?case
  proof (cases k)
    case (Suc j)
    with Cons.prems Cons.IH[of j] show ?thesis by (auto split: if_splits)
  qed simp
qed simp

lemma hist_ok_new: "0 < n \<Longrightarrow> 0 < m \<Longrightarrow> hist_ok (Hist_new n m)"
  by (simp add: hist_ok_def Hist_new_def)

lemma Hist_Add_frame [simp]:
  "hcapacity (Hist_Add v h) = hcapacity h"
  "length (hbuckets (Hist_Add v h)) = length (hbuckets h)"
  by (simp_all add: Hist_Add_def Let_def)

lemma hclamp_less: "hist_ok h \<Longrightarrow> hclamp h v < length (hbuckets h)"
  by (simp add: hist_ok_def hclamp_def min_less_iff_disj)

lemma Hist_Add_full:
  assumes "hist_ok h" "hindex h < length (hvalues h)"
  shows "hvalues (Hist_Add v h) = (hvalues h)[hindex h := hclamp h v]"
    and "length (hvalues h) = hcapacity h"
  using assms by (auto simp: Hist_Add_def Let_def hist_ok_def split: if_splits)

lemma Hist_Add_append:
  assumes "hist_ok h" "\<not> hindex h < length (hvalues h)"
  shows "hvalues (Hist_Add v h) = hvalues h @ [hclamp h v]"
    and "hindex h = length (hvalues h)" "length (hvalues h) < hcapacity h"
  using assms by (auto simp: Hist_Add_def Let_def hist_ok_def split: if_splits)

lemma Hist_Add_index: "hindex (Hist_Add v h) = (hindex h + 1) mod hcapacity h"
  by (simp add: Hist_Add_def Let_def)

lemma Hist_Add_buckets:
  assumes "hist_ok h" "i < length (hbuckets h)"
  shows "hbuckets (Hist_Add v h) ! i = count_list (hvalues (Hist_Add v h)) i"
proof (cases "hindex h < length (hvalues h)")
  case True
  let ?old = "hvalues h ! hindex h"
  have old: "?old < length (hbuckets h)" "?old \<in> set (hvalues h)"
    using assms True by (auto simp: hist_ok_def)
  have cnt: "hbuckets h ! j = count_list (hvalues h) j" if "j < length (hbuckets h)" for j
    using assms that by (simp add: hist_ok_def)
  have pos: "0 < count_list (hvalues h) ?old"
    using old(2) by (simp add: count_list_0_iff neq0_conv [symmetric] del: neq0_conv)
  have c: "hclamp h v < length (hbuckets h)"
    using assms(1) by (rule hclamp_less)
  have "hbuckets (Hist_Add v h) ! i =
      (hbuckets h)[?old := hbuckets h ! ?old - 1] ! i + (if hclamp h v = i then 1 else 0)"
    using True assms(2) c by (auto simp: Hist_Add_def Let_def nth_list_update)
  also have "\<dots> = count_list ((hvalues h)[hindex h := hclamp h v]) i"
    using count_list_update[OF True, of "hclamp h v" i] pos old(1) assms(2)
    by (auto simp: nth_list_update cnt split: if_splits)
  finally show ?thesis
    using Hist_Add_full[OF assms(1) True] by simp
next
  case False
  have "hbuckets (Hist_Add v h) ! i = hbuckets h ! i + (if hclamp h v = i then 1 else 0)"
    using False hclamp_less[OF assms(1), of v] assms(2)
    by (auto simp: Hist_Add_def Let_def nth_list_update)
  then show ?thesis
    using assms Hist_Add_append(1)[OF assms(1) False] by (auto simp: hist_ok_def)
qed

lemma Hist_Add_ok: "hist_ok h \<Longrightarrow> hist_ok (Hist_Add v h)"
proof -
  assume h: "hist_ok h"
  have b: "\<forall>i<length (hbuckets h). hbuckets (Hist_Add v h) ! i = count_list (hvalues (Hist_Add v h)) i"
    using Hist_Add_buckets[OF h] by blast
  have c: "hclamp h v < length (hbuckets h)"
    using h by (rule hclamp_less)
  show ?thesis
  proof (cases "hindex h < length (hvalues h)")
    case True
    have "set ((hvalues h)[hindex h := hclamp h v]) \<subseteq> insert (hclamp h v) (set (hvalues h))"
      by (rule set_update_subset_insert)
    with True b c h show ?thesis
      using Hist_Add_full[OF h True] by (auto simp: hist_ok_def Hist_Add_index)
  next
    case False
    with b c h show ?thesis
      using Hist_Add_append[OF h False]
      by (auto simp: hist_ok_def Hist_Add_index mod_if split: if_splits)
  qed
qed

interpretation hist: frame_system "\<lambda>h v. Hist_Add v h" hist_ok "\<lambda>h. (hcapacity h, length (hbuckets h))"
  by unfold_locales (simp_all add: Hist_Add_ok)

subsection \<open>Refinement of the sliding window\<close>

definition hist_abs :: "histogram \<Rightarrow> nat list" where
  "hist_abs h = drop (hindex h) (hvalues h) @ take (hindex h) (hvalues h)"

definition last_n :: "nat \<Rightarrow> 'a list \<Rightarrow> 'a list" where
  "last_n n xs = drop (length xs - n) xs"

lemma hist_abs_Add:
  assumes "hist_ok h"
  shows "hist_abs (Hist_Add v h) = last_n (hcapacity h) (hist_abs h @ [hclamp h v])"
proof (cases "hindex h < length (hvalues h)")
  case True
  note f = Hist_Add_full[OF assms True]
  let ?k = "hindex h" and ?c = "hclamp h v"
  have "hvalues h = take ?k (hvalues h) @ hvalues h ! ?k # drop (Suc ?k) (hvalues h)"
    using True by (rule id_take_nth_drop)
  then have upd: "(hvalues h)[?k := ?c] = take ?k (hvalues h) @ ?c # drop (Suc ?k) (hvalues h)"
    using True by (simp add: upd_conv_take_nth_drop)
  have rhs: "last_n (hcapacity h) (hist_abs h @ [?c])
      = drop (Suc ?k) (hvalues h) @ take ?k (hvalues h) @ [?c]"
    using True f(2) by (simp add: last_n_def hist_abs_def Cons_nth_drop_Suc [symmetric])
  show ?thesis
  proof (cases "Suc ?k = hcapacity h")
    case eq: True
    then have "hist_abs (Hist_Add v h) = take ?k (hvalues h) @ [?c]"
      using f upd by (simp add: hist_abs_def Hist_Add_index)
    with rhs eq f(2) show ?thesis by simp
  next
    case False
    with True f(2) have lt: "Suc ?k < hcapacity h" by simp
    then have "hist_abs (Hist_Add v h) = drop (Suc ?k) (hvalues h) @ take ?k (hvalues h) @ [?c]"
      using f upd True by (simp add: hist_abs_def Hist_Add_index)
    with rhs show ?thesis by simp
  qed
next
  case False
  note a = Hist_Add_append[OF assms False]
  then show ?thesis
    by (cases "Suc (length (hvalues h)) = hcapacity h")
       (auto simp: hist_abs_def last_n_def Hist_Add_index)
qed

lemma last_n_append_last_n: "last_n n (last_n n xs @ ys) = last_n n (xs @ ys)"
proof (cases "length xs \<le> n")
  case False
  then have "length xs + length ys - (length xs - n + n) + (length xs - n) = length xs + length ys - n"
    "length xs - n + n = length xs" by simp_all
  with False show ?thesis by (simp add: last_n_def add.commute)
qed (simp add: last_n_def)

lemma hist_abs_run:
  assumes "hist_ok h"
  shows "hist_abs (run (\<lambda>h v. Hist_Add v h) h vs)
       = last_n (hcapacity h) (hist_abs h @ map (hclamp h) vs)"
  using assms
proof (induction vs arbitrary: h)
  case Nil
  have "length (hist_abs h) = length (hvalues h)"
    by (simp add: hist_abs_def)
  then have "length (hist_abs h) \<le> hcapacity h"
    using Nil by (simp add: hist_ok_def)
  then show ?case by (simp add: last_n_def)
next
  case (Cons v vs)
  have "hclamp (Hist_Add v h) = hclamp h"
    by (simp add: hclamp_def fun_eq_iff)
  with Cons.IH[OF Hist_Add_ok[OF Cons.prems]] show ?case
    by (simp add: hist_abs_Add[OF Cons.prems] last_n_append_last_n)
qed

subsection \<open>The quantile\<close>

text \<open>\<open>cdf32 n p bs j\<close>: the accumulator after the first \<open>j\<close> buckets.\<close>

definition cdf32 :: "nat \<Rightarrow> nat list \<Rightarrow> nat \<Rightarrow> rat" where
  "cdf32 n bs j = foldl (fl_step n) 0 (take j bs)"

lemma inverse_cdf_loop_spec:
  assumes "inverse_cdf_loop n p bs acc b = r"
  shows "b \<le> r \<and> r \<le> b + length bs \<and>
    (\<forall>j<r - b. foldl (fl_step n) acc (take j bs) < p) \<and>
    (r < b + length bs \<longrightarrow> p \<le> foldl (fl_step n) acc (take (r - b) bs))"
  using assms
proof (induction bs arbitrary: acc b)
  case (Cons c cs)
  show ?case
  proof (cases "acc < p")
    case True
    with Cons.prems have "inverse_cdf_loop n p cs (fl_step n acc c) (Suc b) = r" by simp
    note IH = Cons.IH[OF this]
    have "foldl (fl_step n) acc (take j (c # cs)) < p" if "j < r - b" for j
      using IH True that by (cases j) (auto simp: less_diff_conv)
    moreover from IH have "Suc b \<le> r" by blast
    then have "r - b = Suc (r - Suc b)" by simp
    ultimately show ?thesis
      using IH by auto
  next
    case False
    with Cons.prems show ?thesis by auto
  qed
qed simp

text \<open>
  The quantile the loop returns is the least bucket count whose accumulated share
  reaches \<open>probability\<close> (or the number of buckets when none does), so a packet waits for
  at most as many positions as there are buckets.
\<close>

theorem inverse_cdf_least:
  assumes "hist_ok h" "hvalues h \<noteq> []"
  shows "InverseCdf p h \<le> length (hbuckets h) \<and>
    (\<forall>j<InverseCdf p h. cdf32 (length (hvalues h)) (hbuckets h) j < p) \<and>
    (InverseCdf p h < length (hbuckets h) \<longrightarrow>
       p \<le> cdf32 (length (hvalues h)) (hbuckets h) (InverseCdf p h))"
  using inverse_cdf_loop_spec[of "length (hvalues h)" p "hbuckets h" 0 0] assms
  by (simp add: InverseCdf_def cdf32_def)

lemma InverseCdf_le: "hist_ok h \<Longrightarrow> InverseCdf p h \<le> length (hbuckets h)"
  using inverse_cdf_loop_spec[of "length (hvalues h)" p "hbuckets h" 0 0]
  by (auto simp: InverseCdf_def hist_ok_def Suc_le_eq)

theorem inverse_cdf_least_witness:
  "InverseCdf (1/2) (Hist_Add 3 (Hist_new 10 128)) \<le> 10 \<and>
   hvalues (Hist_Add 3 (Hist_new 10 128)) \<noteq> []"
proof -
  have ok: "hist_ok (Hist_Add 3 (Hist_new 10 128))"
    by (intro Hist_Add_ok hist_ok_new) simp_all
  have ne: "hvalues (Hist_Add 3 (Hist_new 10 128)) \<noteq> []"
    by (simp add: Hist_Add_def Hist_new_def Let_def)
  show ?thesis
    using inverse_cdf_least[OF ok ne, of "1/2"] ne by (simp add: Hist_new_def)
qed

text \<open>
  After any number of samples, each bucket counts exactly the occurrences of its
  distance among the latest \<open>max_num_packets\<close> samples, distances beyond the last bucket
  counted in the last one.
\<close>

theorem histogram_counts_latest:
  assumes "0 < n" "0 < m" "i < n"
  shows "hbuckets (run (\<lambda>h v. Hist_Add v h) (Hist_new n m) vs) ! i
       = count_list (last_n m (map (\<lambda>v. min v (n - 1)) vs)) i"
proof -
  let ?h = "run (\<lambda>h v. Hist_Add v h) (Hist_new n m) vs"
  have ok0: "hist_ok (Hist_new n m)" using assms by (intro hist_ok_new)
  have ok: "hist_ok ?h" using ok0 by (rule hist.inv_run)
  have frame: "hcapacity ?h = m" "length (hbuckets ?h) = n"
    using hist.frame_run[OF ok0, of vs] by (simp_all add: Hist_new_def)
  have abs: "hist_abs ?h = last_n m (map (\<lambda>v. min v (n - 1)) vs)"
    using hist_abs_run[OF ok0, of vs]
    by (simp add: Hist_new_def hist_abs_def hclamp_def cong: map_cong)
  have "count_list (hist_abs ?h) i = count_list (hvalues ?h) i"
    unfolding hist_abs_def count_list_append
    by (metis add.commute append_take_drop_id count_list_append)
  then show ?thesis
    using ok frame assms(3) abs by (simp add: hist_ok_def)
qed

theorem histogram_counts_latest_witness:
  "hbuckets (run (\<lambda>h v. Hist_Add v h) (Hist_new 3 2) [0, 7, 1, 9]) ! 2 = 1"
  using histogram_counts_latest[of 3 2 2 "[0, 7, 1, 9]"] by (simp add: last_n_def)

end
