(* ===== verification/Nack.thy ===== *)
theory Nack
  imports SeqNum Histogram
begin

text \<open>
  \<open>modules/video_coding/nack_requester.cpp\<close>: loss detection and retransmission requests.
  The clock reading is an argument of each operation and the batches handed to
  \<open>SignalNackSend\<close> are part of its result. \<open>nack_list_\<close> and \<open>keyframe_list_\<close> are the
  comparator-ordered containers of \<open>OrdMap\<close> over the sequence-number library \<open>L\<close>.
\<close>

subsection \<open>State\<close>

record nack_info =
  ni_seq_num :: u16
  ni_send_at_seq_num :: u16
  ni_created_time :: int
  ni_send_at_time :: int
  ni_retries :: nat

definition NackInfo :: "u16 \<Rightarrow> u16 \<Rightarrow> int \<Rightarrow> nack_info" where
  "NackInfo seq_num send_at_seq_num created_time =
     \<lparr>ni_seq_num = seq_num, ni_send_at_seq_num = send_at_seq_num,
      ni_created_time = created_time, ni_send_at_time = -1, ni_retries = 0\<rparr>"

datatype nack_filter = kSeqNumOnly | kTimeOnly | kSeqNumAndTime

record nack_requester =
  nk_initialized :: bool
  nk_newest_seq_num :: u16
  nack_list :: "(u16, nack_info) omap"
  keyframe_list :: "(u16, unit) omap"
  nk_rtt_ms :: int
  send_nack_delay_ms :: int
  reordering_histogram :: histogram

definition kMaxNackRetries :: nat where "kMaxNackRetries = 10"
definition kUpdateIntervalMs :: nat where "kUpdateIntervalMs = 20"
definition kDefaultRttMs :: int where "kDefaultRttMs = 100"
definition kMaxPacketAge :: u16 where "kMaxPacketAge = 10000"
definition kMaxNackPackets :: nat where "kMaxNackPackets = 1000"
definition kMaxReorderingPackets :: nat where "kMaxReorderingPackets = 128"
definition kNumReoderingBuckets :: nat where "kNumReoderingBuckets = 10"

definition NackRequester :: nack_requester where
  "NackRequester =
     \<lparr>nk_initialized = False, nk_newest_seq_num = 0, nack_list = [], keyframe_list = [],
      nk_rtt_ms = kDefaultRttMs, send_nack_delay_ms = 0,
      reordering_histogram = Hist_new kNumReoderingBuckets kMaxReorderingPackets\<rparr>"

subsection \<open>Operations\<close>

definition UpdateRtt :: "int \<Rightarrow> nack_requester \<Rightarrow> nack_requester" where
  "UpdateRtt rtt r = r\<lparr>nk_rtt_ms := rtt\<rparr>"

definition UpdateReorderingStat :: "seq_lib \<Rightarrow> u16 \<Rightarrow> nack_requester \<Rightarrow> nack_requester" where
  "UpdateReorderingStat L seq r =
     (let diff = unat (ReverseDiff L (nk_newest_seq_num r) seq)
      in r\<lparr>reordering_histogram := Hist_Add diff (reordering_histogram r)\<rparr>)"

definition WaitNumberOfPackets :: "rat \<Rightarrow> nack_requester \<Rightarrow> nat" where
  "WaitNumberOfPackets p r =
     (if Hist_NumValues (reordering_histogram r) = 0 then 0
      else InverseCdf p (reordering_histogram r))"

text \<open>The pass of \<open>GetNackBatch\<close> over the list: the kept entries and the batch.\<close>

definition nack_due :: "seq_lib \<Rightarrow> nack_filter \<Rightarrow> int \<Rightarrow> nack_requester \<Rightarrow> nack_info \<Rightarrow> bool" where
  "nack_due L option now r i =
     (let consider_seq_num = (option \<noteq> kTimeOnly);
          consider_timestamp = (option \<noteq> kSeqNumOnly);
          delay_timeout = (now - ni_created_time i \<ge> send_nack_delay_ms r);
          can_nack_seq_num_passed = (ni_send_at_time i = -1 \<and>
             AheadOrAt L (nk_newest_seq_num r) (ni_send_at_seq_num i));
          can_nack_timestamp_passed = (now - ni_send_at_time i > nk_rtt_ms r)
      in delay_timeout \<and> (consider_seq_num \<and> can_nack_seq_num_passed \<or>
           consider_timestamp \<and> can_nack_timestamp_passed))"

fun nack_scan :: "(nack_info \<Rightarrow> bool) \<Rightarrow> int \<Rightarrow> (u16, nack_info) omap \<Rightarrow>
    (u16, nack_info) omap \<times> u16 list" where
  "nack_scan due now [] = ([], [])"
| "nack_scan due now ((k, i) # m) =
     (let (m', batch) = nack_scan due now m in
      if due i then
        let i' = i\<lparr>ni_retries := ni_retries i + 1, ni_send_at_time := now\<rparr>
        in (if ni_retries i' \<ge> kMaxNackRetries then m' else (k, i') # m', ni_seq_num i # batch)
      else ((k, i) # m', batch))"

definition GetNackBatch :: "seq_lib \<Rightarrow> nack_filter \<Rightarrow> int \<Rightarrow> nack_requester \<Rightarrow>
    nack_requester \<times> u16 list" where
  "GetNackBatch L option now r =
     (let (m, batch) = nack_scan (nack_due L option now r) now (nack_list r)
      in (r\<lparr>nack_list := m\<rparr>, batch))"

text \<open>The boolean is the return value: whether a prefix of the list was dropped.\<close>

fun remove_until_key :: "seq_lib \<Rightarrow> (u16, unit) omap \<Rightarrow> (u16, nack_info) omap \<Rightarrow>
    (u16, unit) omap \<times> (u16, nack_info) omap \<times> bool" where
  "remove_until_key L [] m = ([], m, False)"
| "remove_until_key L (k # ks) m =
     (let it = om_lower_bound (DescendingSeqNumComp L) (fst k) m in
      if length it \<noteq> length m then (k # ks, it, True)
      else remove_until_key L ks m)"

definition RemovePacketsUntilKeyFrame :: "seq_lib \<Rightarrow> nack_requester \<Rightarrow> nack_requester \<times> bool" where
  "RemovePacketsUntilKeyFrame L r =
     (let (ks, m, b) = remove_until_key L (keyframe_list r) (nack_list r)
      in (r\<lparr>keyframe_list := ks, nack_list := m\<rparr>, b))"

lemma remove_until_key_length:
  "remove_until_key L ks m = (ks', m', b) \<Longrightarrow>
   length ks' \<le> length ks \<and> length m' \<le> length m \<and> (b \<longrightarrow> length m' < length m)"
proof (induction ks arbitrary: ks')
  case (Cons k ks)
  let ?it = "om_lower_bound (DescendingSeqNumComp L) (fst k) m"
  show ?case
  proof (cases "length ?it = length m")
    case True
    with Cons show ?thesis by (auto simp: Let_def)
  next
    case False
    with Cons.prems length_om_lower_bound[of "DescendingSeqNumComp L" "fst k" m]
    show ?thesis by (auto simp: Let_def)
  qed
qed simp

text \<open>
  The loop \<open>while (RemovePacketsUntilKeyFrame() && size + new > kMaxNackPackets)\<close>: each
  round that goes on has dropped an entry, so the list length is the measure.
\<close>

function shrink_loop :: "seq_lib \<Rightarrow> nat \<Rightarrow> nack_requester \<Rightarrow> nack_requester" where
  "shrink_loop L new_num r =
     (let (r', b) = RemovePacketsUntilKeyFrame L r in
      if b \<and> length (nack_list r') + new_num > kMaxNackPackets
      then shrink_loop L new_num r' else r')"
  by pat_completeness auto
termination
  by (relation "measure (\<lambda>(L, n, r). length (nack_list r))")
     (auto simp: RemovePacketsUntilKeyFrame_def split: prod.splits dest: remove_until_key_length)

declare shrink_loop.simps [simp del]

text \<open>The sequence numbers from \<open>start\<close> up to, not including, \<open>end\<close>, as the \<open>for\<close> loop visits them.\<close>

definition seq_range :: "u16 \<Rightarrow> u16 \<Rightarrow> u16 list" where
  "seq_range s e = map (\<lambda>i. s + of_nat i) [0..<unat (e - s)]"

definition AddPacketsToNack :: "seq_lib \<Rightarrow> int \<Rightarrow> u16 \<Rightarrow> u16 \<Rightarrow> nack_requester \<Rightarrow> nack_requester" where
  "AddPacketsToNack L now seq_num_start seq_num_end r =
     (let lt = DescendingSeqNumComp L;
          r1 = r\<lparr>nack_list := om_lower_bound lt (seq_num_end - kMaxPacketAge) (nack_list r)\<rparr>;
          new_nack_num = unat (ForwardDiff L seq_num_start seq_num_end);
          r2 = (if length (nack_list r1) + new_nack_num > kMaxNackPackets
                then shrink_loop L new_nack_num r1 else r1)
      in if length (nack_list r1) + new_nack_num > kMaxNackPackets \<and>
            length (nack_list r2) + new_nack_num > kMaxNackPackets
         then r2\<lparr>nack_list := []\<rparr>
         else r2\<lparr>nack_list := fold (\<lambda>s. om_put lt s
                  (NackInfo s (s + of_nat (WaitNumberOfPackets (1/2) r2)) now))
                  (seq_range seq_num_start seq_num_end) (nack_list r2)\<rparr>)"

text \<open>Result: the new state, the return value (\<open>times_nacked\<close>) and the batches signalled.\<close>

definition OnReceivedPacket :: "seq_lib \<Rightarrow> int \<Rightarrow> u16 \<Rightarrow> bool \<Rightarrow> bool \<Rightarrow> nack_requester \<Rightarrow>
    nack_requester \<times> nat \<times> u16 list list" where
  "OnReceivedPacket L now seq_num is_keyframe is_retransmitted r =
     (let lt = DescendingSeqNumComp L in
      if \<not> nk_initialized r then
        (r\<lparr>nk_newest_seq_num := seq_num,
           keyframe_list := (if is_keyframe then om_put lt seq_num () (keyframe_list r)
                             else keyframe_list r),
           nk_initialized := True\<rparr>, 0, [])
      else if seq_num = nk_newest_seq_num r then (r, 0, [])
      else if AheadOf L (nk_newest_seq_num r) seq_num then
        (let found = om_find lt (nack_list r) seq_num;
             nacks = (case found of None \<Rightarrow> 0 | Some i \<Rightarrow> ni_retries i);
             r1 = (case found of None \<Rightarrow> r
                   | Some _ \<Rightarrow> r\<lparr>nack_list := om_erase lt seq_num (nack_list r)\<rparr>);
             r2 = (if \<not> is_retransmitted then UpdateReorderingStat L seq_num r1 else r1)
         in (r2, nacks, []))
      else
        (let ks = (if is_keyframe then om_put lt seq_num () (keyframe_list r) else keyframe_list r);
             r1 = r\<lparr>keyframe_list := om_lower_bound lt (seq_num - kMaxPacketAge) ks\<rparr>;
             r2 = AddPacketsToNack L now (nk_newest_seq_num r1 + 1) seq_num r1;
             r3 = r2\<lparr>nk_newest_seq_num := seq_num\<rparr>;
             (r4, batch) = GetNackBatch L kSeqNumOnly now r3
         in (r4, 0, if batch = [] then [] else [batch])))"

definition ProcessNacks :: "seq_lib \<Rightarrow> int \<Rightarrow> nack_requester \<Rightarrow> nack_requester \<times> u16 list list" where
  "ProcessNacks L now r =
     (let (r', batch) = GetNackBatch L kTimeOnly now r
      in (r', if batch = [] then [] else [batch]))"

subsection \<open>The component as a machine\<close>

datatype nack_event =
    RtpIn int u16 bool bool
  | NackTimer int
  | RttIn int

fun nack_step :: "seq_lib \<Rightarrow> nack_requester \<Rightarrow> nack_event \<Rightarrow> nack_requester" where
  "nack_step L r (RtpIn now seq key retrans) = fst (OnReceivedPacket L now seq key retrans r)"
| "nack_step L r (NackTimer now) = fst (ProcessNacks L now r)"
| "nack_step L r (RttIn rtt) = UpdateRtt rtt r"

end
