(* ===== verification/NackInv.thy ===== *)
theory NackInv
  imports Nack
begin

text \<open>
  Correctness of the NACK requester: the representation invariant \<open>nack_inv\<close> (order,
  window, age, retry and size bounds) holds in every reachable state, the gap in front of
  a new packet is recorded, an arrived packet leaves the list, and the batches name
  recorded packets only, each at most \<open>kMaxNackRetries\<close> times.
\<close>

subsection \<open>Ages of the entries\<close>

definition entry_ok :: "u16 \<Rightarrow> u16 \<times> nack_info \<Rightarrow> bool" where
  "entry_ok front p \<longleftrightarrow> ni_seq_num (snd p) = fst p \<and> ni_retries (snd p) < kMaxNackRetries \<and>
     1 \<le> age front (fst p) \<and> age front (fst p) \<le> 10000"

definition list_ok :: "seq_lib \<Rightarrow> u16 \<Rightarrow> (u16, nack_info) omap \<Rightarrow> bool" where
  "list_ok L front m \<longleftrightarrow> (\<forall>p\<in>set m. entry_ok front p) \<and>
     omap_wf (DescendingSeqNumComp L) (window front) m"

definition nack_inv :: "seq_lib \<Rightarrow> nack_requester \<Rightarrow> bool" where
  "nack_inv L r \<longleftrightarrow> hist_ok (reordering_histogram r) \<and>
     length (hbuckets (reordering_histogram r)) = kNumReoderingBuckets \<and>
     length (nack_list r) \<le> kMaxNackPackets \<and>
     (\<not> nk_initialized r \<longrightarrow> nack_list r = []) \<and>
     list_ok L (nk_newest_seq_num r) (nack_list r)"

lemmas nack_consts = kMaxNackRetries_def kMaxNackPackets_def kMaxPacketAge_def
  kNumReoderingBuckets_def kMaxReorderingPackets_def

lemma age_add_small: "age g f + age f k < 65536 \<Longrightarrow> age g k = age g f + age f k"
  by (simp add: age_shift[of g k f])

lemma list_ok_Nil: "seq_lib_ok L \<Longrightarrow> list_ok L f []"
  by (simp add: list_ok_def strict_on_window)

lemma nack_inv_init: "seq_lib_ok L \<Longrightarrow> nack_inv L NackRequester"
  by (simp add: nack_inv_def NackRequester_def hist_ok_new nack_consts list_ok_Nil)
     (simp add: Hist_new_def)

text \<open>Moving the front forward by at most 1001 keeps the order of the entries.\<close>

lemma omap_wf_shift:
  assumes L: "seq_lib_ok L" and "omap_wf (DescendingSeqNumComp L) (window f) m"
    and ages: "\<forall>p\<in>set m. age f (fst p) \<le> 10000" and "age g f \<le> 1001"
  shows "omap_wf (DescendingSeqNumComp L) (window g) m"
proof -
  have ag: "age g k = age g f + age f k" if "k \<in> fst ` set m" for k
    using ages that assms(4) by (intro age_add_small) fastforce
  have "age g (fst p) < 32768" if "p \<in> set m" for p
    using ag[of "fst p"] ages assms(4) that by fastforce
  then have sub: "set (map fst m) \<subseteq> window f" "set (map fst m) \<subseteq> window g"
    using assms(2) by (auto simp: omap_wf_def window_def)
  have "sorted_wrt (\<lambda>a b. age f b < age f a) (map fst m)"
    using assms(2) sorted_window[OF L sub(1)] by (simp add: omap_wf_def)
  then have "sorted_wrt (\<lambda>a b. age g b < age g a) (map fst m)"
    by (rule sorted_wrt_mono_rel[rotated]) (use ag in auto)
  then show ?thesis
    using sorted_window[OF L sub(2)] sub strict_on_window[OF L] by (simp add: omap_wf_def)
qed

lemma lower_bound_ages:
  assumes L: "seq_lib_ok L" and wf: "omap_wf (DescendingSeqNumComp L) (window g) m"
    and "p \<in> set (om_lower_bound (DescendingSeqNumComp L) (g - 10000) m)"
  shows "age g (fst p) \<le> 10000"
  using wf assms(3)
proof (induction m)
  case (Cons q m)
  let ?b = "g - 10000 :: u16"
  have b: "age g ?b = 10000"
    using age_sub_of_nat[of 10000 g] by simp
  then have bw: "?b \<in> window g" by (simp add: window_def)
  have qw: "fst q \<in> window g" and less: "\<forall>p\<in>set m. DescendingSeqNumComp L (fst q) (fst p)"
    and wfm: "omap_wf (DescendingSeqNumComp L) (window g) m"
    using Cons.prems(1) by (auto simp: omap_wf_Cons)
  show ?case
  proof (cases "DescendingSeqNumComp L (fst q) ?b")
    case True
    with Cons show ?thesis by (simp add: om_lower_bound_def omap_wf_Cons)
  next
    case False
    then have q: "age g (fst q) \<le> 10000"
      using comp_window[OF L qw bw] b by simp
    have "age g (fst p) < age g (fst q)" if "p \<in> set m"
      using less that comp_window[OF L qw] omap_wf_keys[OF wfm that] by blast
    with False q Cons.prems(2) show ?thesis
      by (auto simp: om_lower_bound_def)
  qed
qed (simp add: om_lower_bound_def)

subsection \<open>Shrinking\<close>

lemma remove_until_key_suffix:
  "remove_until_key L ks m = (ks', m', b) \<Longrightarrow> set m' \<subseteq> set m \<and> length m' \<le> length m \<and>
   (omap_wf lt S m \<longrightarrow> omap_wf lt S m')"
proof (induction ks)
  case (Cons k ks)
  let ?it = "om_lower_bound (DescendingSeqNumComp L) (fst k) m"
  have "omap_wf lt S m \<longrightarrow> omap_wf lt S ?it"
    by (induction m) (auto simp: om_lower_bound_def omap_wf_Cons)
  with Cons om_lower_bound_subset[of "DescendingSeqNumComp L" "fst k" m]
    length_om_lower_bound[of "DescendingSeqNumComp L" "fst k" m]
  show ?case by (auto simp: Let_def split: if_splits)
qed simp

lemma shrink_loop_spec:
  "set (nack_list (shrink_loop L n r)) \<subseteq> set (nack_list r) \<and>
   length (nack_list (shrink_loop L n r)) \<le> length (nack_list r) \<and>
   (omap_wf lt S (nack_list r) \<longrightarrow> omap_wf lt S (nack_list (shrink_loop L n r))) \<and>
   nk_newest_seq_num (shrink_loop L n r) = nk_newest_seq_num r \<and>
   nk_initialized (shrink_loop L n r) = nk_initialized r \<and>
   reordering_histogram (shrink_loop L n r) = reordering_histogram r"
proof (induction L n r rule: shrink_loop.induct)
  case (1 L n r)
  obtain ks' m' b where rm: "remove_until_key L (keyframe_list r) (nack_list r) = (ks', m', b)"
    by (cases "remove_until_key L (keyframe_list r) (nack_list r)") auto
  let ?r' = "r\<lparr>keyframe_list := ks', nack_list := m'\<rparr>"
  have R: "RemovePacketsUntilKeyFrame L r = (?r', b)"
    by (simp add: RemovePacketsUntilKeyFrame_def rm)
  note s = remove_until_key_suffix[OF rm, of lt S]
  show ?case
  proof (cases "b \<and> length m' + n > kMaxNackPackets")
    case True
    then have "shrink_loop L n r = shrink_loop L n ?r'"
      by (subst shrink_loop.simps) (simp add: R)
    with "1.IH"[OF R[symmetric] refl] True s show ?thesis by auto
  next
    case False
    then have "shrink_loop L n r = ?r'"
      by (subst shrink_loop.simps) (auto simp: R)
    with s show ?thesis by simp
  qed
qed

subsection \<open>Adding a gap\<close>

lemma seq_range_set:
  "set (seq_range s e) = {k. unat (k - s) < unat (e - s)}"
proof -
  have "k \<in> set (seq_range s e)" if "unat (k - s) < unat (e - s)" for k
  proof -
    have "k = s + of_nat (unat (k - s))" by simp
    then show ?thesis
      unfolding seq_range_def set_map by (rule image_eqI) (use that in simp)
  qed
  moreover have "unat (k - s) < unat (e - s)" if "k \<in> set (seq_range s e)" for k
  proof -
    from that obtain i where i: "i < unat (e - s)" "k = s + of_nat i"
      by (auto simp: seq_range_def)
    then have "i < 65536" using unat_u16_less[of "e - s"] by linarith
    with i show ?thesis by (simp add: unat_of_nat_u16)
  qed
  ultimately show ?thesis by blast
qed

lemma gap_age:
  assumes "1 \<le> age e f"
  shows "k \<in> set (seq_range (f + 1) e) \<longleftrightarrow> 1 \<le> age e k \<and> age e k < age e f"
proof -
  have A: "unat (k - (f + 1)) = (if age e k \<le> age e (f + 1) then age e (f + 1) - age e k
      else 65536 + age e (f + 1) - age e k)"
    by (rule diff_age)
  have "age e (f + 1) = age e f - 1"
  proof -
    have "e - (f + 1) = (e - f) - 1" by simp
    then show ?thesis
      using assms unfolding age_def by (simp only: unat_sub_u16) simp
  qed
  moreover have "age e k \<le> 65535"
    using age_less[of e k] by linarith
  moreover have "unat (e - (f + 1)) = age e (f + 1)"
    by (simp add: age_def)
  ultimately show ?thesis
    using A assms by (auto simp: seq_range_set split: if_splits)
qed

lemma fold_put_spec:
  assumes "omap_wf lt S m" and "set ks \<subseteq> S"
  shows "omap_wf lt S (fold (\<lambda>s. om_put lt s (f s)) ks m) \<and>
    set (fold (\<lambda>s. om_put lt s (f s)) ks m) \<subseteq> set m \<union> {(k, f k) | k. k \<in> set ks} \<and>
    length (fold (\<lambda>s. om_put lt s (f s)) ks m) \<le> length m + length ks"
  using assms
proof (induction ks arbitrary: m)
  case (Cons k ks)
  let ?m = "om_put lt k (f k) m"
  have k: "omap_wf lt S m" "k \<in> S" using Cons.prems by auto
  have "omap_wf lt S ?m" using k by (rule om_put_wf)
  then have IH: "omap_wf lt S (fold (\<lambda>s. om_put lt s (f s)) ks ?m) \<and>
      set (fold (\<lambda>s. om_put lt s (f s)) ks ?m) \<subseteq> set ?m \<union> {(k, f k) | k. k \<in> set ks} \<and>
      length (fold (\<lambda>s. om_put lt s (f s)) ks ?m) \<le> length ?m + length ks"
    using Cons.prems(2) by (intro Cons.IH) auto
  have "set ?m \<subseteq> insert (k, f k) (set m)"
    by (subst set_om_put[OF k]) auto
  with IH length_om_put[of lt k "f k" m] show ?case by fastforce
qed simp

lemma WaitNumberOfPackets_le:
  "hist_ok (reordering_histogram r) \<Longrightarrow>
   WaitNumberOfPackets p r \<le> length (hbuckets (reordering_histogram r))"
  by (simp add: WaitNumberOfPackets_def InverseCdf_le)

text \<open>The state after the age cut and the gap bookkeeping of \<open>AddPacketsToNack\<close>.\<close>

lemma AddPackets_cases:
  fixes L now s e r
  defines "m1 \<equiv> om_lower_bound (DescendingSeqNumComp L) (e - kMaxPacketAge) (nack_list r)"
  assumes "seq_lib_ok L"
  obtains (cleared) "nack_list (AddPacketsToNack L now s e r) = []"
      "length m1 + unat (e - s) > kMaxNackPackets"
  | (added) r2 where "set (nack_list r2) \<subseteq> set m1"
      "length (nack_list r2) + unat (e - s) \<le> kMaxNackPackets"
      "length m1 + unat (e - s) \<le> kMaxNackPackets \<longrightarrow> nack_list r2 = m1"
      "\<And>lt S. omap_wf lt S m1 \<Longrightarrow> omap_wf lt S (nack_list r2)"
      "nack_list (AddPacketsToNack L now s e r) =
         fold (\<lambda>q. om_put (DescendingSeqNumComp L) q
           (NackInfo q (q + of_nat (WaitNumberOfPackets (1/2) r2)) now)) (seq_range s e) (nack_list r2)"
proof -
  let ?r1 = "r\<lparr>nack_list := m1\<rparr>"
  let ?r2 = "if length m1 + unat (e - s) > kMaxNackPackets
             then shrink_loop L (unat (e - s)) ?r1 else ?r1"
  have F: "unat (ForwardDiff L s e) = unat (e - s)"
    by (simp add: seq_lib_okD[OF assms(2)])
  show thesis
  proof (cases "length m1 + unat (e - s) > kMaxNackPackets \<and>
                length (nack_list ?r2) + unat (e - s) > kMaxNackPackets")
    case True
    then show thesis
      by (intro cleared) (use True in \<open>unfold AddPacketsToNack_def Let_def F m1_def, simp_all\<close>)
  next
    case False
    have "nack_list (AddPacketsToNack L now s e r) =
         fold (\<lambda>q. om_put (DescendingSeqNumComp L) q
           (NackInfo q (q + of_nat (WaitNumberOfPackets (1/2) ?r2)) now)) (seq_range s e) (nack_list ?r2)"
      using False unfolding AddPacketsToNack_def Let_def F m1_def by simp
    with False show thesis
      using shrink_loop_spec[of L "unat (e - s)" ?r1]
      by (intro added[of ?r2]) auto
  qed
qed

lemma AddPackets_frame:
  "nk_newest_seq_num (AddPacketsToNack L now s e r) = nk_newest_seq_num r"
  "nk_initialized (AddPacketsToNack L now s e r) = nk_initialized r"
  "reordering_histogram (AddPacketsToNack L now s e r) = reordering_histogram r"
  using shrink_loop_spec[of L "unat (ForwardDiff L s e)"
      "r\<lparr>nack_list := om_lower_bound (DescendingSeqNumComp L) (e - kMaxPacketAge) (nack_list r)\<rparr>"]
  by (simp_all add: AddPacketsToNack_def Let_def)

lemma newer_age:
  assumes "seq_lib_ok L" "seq \<noteq> front" "\<not> AheadOf L front seq"
  shows "1 \<le> age seq front" "age seq front \<le> 32768"
proof -
  have "age seq front \<noteq> 0" using assms(2) by (simp add: age_0_iff)
  then show "1 \<le> age seq front" by simp
  have "unat (front - seq) = 65536 - age seq front"
    using diff_age[of front seq seq] \<open>age seq front \<noteq> 0\<close> by simp
  moreover have "\<not> unat (front - seq) < 32768"
    using assms(2,3) by (auto simp: seq_lib_okD[OF assms(1)] ahead_or_at_spec_def split: if_splits)
  ultimately show "age seq front \<le> 32768" by linarith
qed

lemma NackInfo_ok: "1 \<le> age g k \<Longrightarrow> age g k \<le> 10000 \<Longrightarrow> entry_ok g (k, NackInfo k w now)"
  by (simp add: entry_ok_def NackInfo_def nack_consts)

lemma length_seq_range: "length (seq_range s e) = unat (e - s)"
  by (simp add: seq_range_def)

text \<open>The list invariant moves from the old front \<open>f\<close> to the new packet \<open>e\<close>.\<close>

lemma AddPackets_ok:
  assumes L: "seq_lib_ok L" and ok: "list_ok L f (nack_list r)"
    and d: "1 \<le> age e f"
  shows "list_ok L e (nack_list (AddPacketsToNack L now (f + 1) e r)) \<and>
    length (nack_list (AddPacketsToNack L now (f + 1) e r)) \<le> kMaxNackPackets"
proof -
  let ?lt = "DescendingSeqNumComp L"
  let ?m1 = "om_lower_bound ?lt (e - kMaxPacketAge) (nack_list r)"
  have gap: "unat (e - (f + 1)) = age e f - 1"
    using gap_age[OF d] d age_def unat_sub_u16[of "e - f" 1]
    by (simp add: algebra_simps)
  show ?thesis
    using L
  proof (cases rule: AddPackets_cases[of L now "f + 1" e r])
    case cleared
    then show ?thesis using list_ok_Nil[OF L] by simp
  next
    case (added r2)
    then have small: "age e f \<le> 1001"
      using gap by (simp add: nack_consts)
    have wf: "omap_wf ?lt (window e) (nack_list r)"
    proof (rule omap_wf_shift[OF L _ _ small])
      show "omap_wf ?lt (window f) (nack_list r)" "\<forall>p\<in>set (nack_list r). age f (fst p) \<le> 10000"
        using ok by (simp_all add: list_ok_def entry_ok_def)
    qed
    have m1: "entry_ok e p" if "p \<in> set ?m1" for p
    proof -
      have p: "p \<in> set (nack_list r)" by (rule subsetD[OF om_lower_bound_subset that])
      then have "entry_ok f p" using ok by (simp add: list_ok_def)
      moreover have "age e (fst p) = age e f + age f (fst p)"
        using \<open>entry_ok f p\<close> small by (intro age_add_small) (simp add: entry_ok_def)
      moreover have "age e (fst p) \<le> 10000"
        using lower_bound_ages[OF L wf] that by (simp add: kMaxPacketAge_def)
      ultimately show ?thesis by (simp add: entry_ok_def)
    qed
    have ks: "1 \<le> age e k \<and> age e k \<le> 1000" if "k \<in> set (seq_range (f + 1) e)" for k
      using gap_age[OF d, of k] that small by simp
    then have sub: "set (seq_range (f + 1) e) \<subseteq> window e"
      by (fastforce simp: window_def)
    have wf2: "omap_wf ?lt (window e) (nack_list r2)"
      using added(4) om_lower_bound_wf[OF wf] by blast
    let ?w = "\<lambda>k. NackInfo k (k + of_nat (WaitNumberOfPackets (1/2) r2)) now"
    note F = fold_put_spec[OF wf2 sub, of ?w]
    have "entry_ok e p" if "p \<in> set (nack_list r2)" for p
      using that m1 added(1) by blast
    moreover have "entry_ok e (k, ?w k)" if "k \<in> set (seq_range (f + 1) e)" for k
      using ks[OF that] by (intro NackInfo_ok) auto
    ultimately have "\<forall>p\<in>set (nack_list r2) \<union> {(k, ?w k) | k. k \<in> set (seq_range (f + 1) e)}. entry_ok e p"
      by blast
    then have "list_ok L e (nack_list (AddPacketsToNack L now (f + 1) e r))"
      using F unfolding list_ok_def added(5) by blast
    moreover have "length (nack_list (AddPacketsToNack L now (f + 1) e r)) \<le> kMaxNackPackets"
      using F added(2) unfolding added(5) length_seq_range by linarith
    ultimately show ?thesis by blast
  qed
qed

subsection \<open>The batch scan\<close>

lemma nack_scan_Cons [simp]:
  "fst (nack_scan due now (p # m)) =
     (if due (snd p)
      then (if ni_retries (snd p) + 1 \<ge> kMaxNackRetries then fst (nack_scan due now m)
            else (fst p, (snd p)\<lparr>ni_retries := ni_retries (snd p) + 1, ni_send_at_time := now\<rparr>)
                 # fst (nack_scan due now m))
      else p # fst (nack_scan due now m))"
  "snd (nack_scan due now (p # m)) =
     (if due (snd p) then ni_seq_num (snd p) # snd (nack_scan due now m)
      else snd (nack_scan due now m))"
  by (cases p; simp add: Let_def split_def)+

lemma nack_scan_keys: "fst ` set (fst (nack_scan due now m)) \<subseteq> fst ` set m"
  by (induction m) auto

lemma nack_scan_wf: "omap_wf lt S m \<Longrightarrow> omap_wf lt S (fst (nack_scan due now m))"
proof (induction m)
  case (Cons p m)
  have "\<forall>q\<in>set (fst (nack_scan due now m)). lt (fst p) (fst q)"
    using Cons.prems nack_scan_keys[of due now m] by (fastforce simp: omap_wf_Cons)
  with Cons show ?case by (auto simp: omap_wf_Cons)
qed simp

lemma entry_ok_asked:
  "entry_ok f p \<Longrightarrow> ni_retries (snd p) + 1 < kMaxNackRetries \<Longrightarrow>
   entry_ok f (fst p, (snd p)\<lparr>ni_retries := ni_retries (snd p) + 1, ni_send_at_time := now\<rparr>)"
  by (simp add: entry_ok_def)

lemma nack_scan_entries:
  "\<forall>p\<in>set m. entry_ok f p \<Longrightarrow> \<forall>p\<in>set (fst (nack_scan due now m)). entry_ok f p"
proof (induction m)
  case (Cons p m)
  then show ?case
    using entry_ok_asked[of f p now] by (cases "due (snd p)") auto
qed simp

lemma nack_scan_length: "length (fst (nack_scan due now m)) \<le> length m"
  by (induction m) auto

lemma nack_scan_list_ok: "list_ok L f m \<Longrightarrow> list_ok L f (fst (nack_scan due now m))"
  unfolding list_ok_def using nack_scan_wf nack_scan_entries by blast

lemma nack_scan_batch:
  "x \<in> set (snd (nack_scan due now m)) \<longleftrightarrow> (\<exists>p\<in>set m. due (snd p) \<and> x = ni_seq_num (snd p))"
proof (induction m)
  case (Cons p m)
  then show ?case by (cases "due (snd p)") (simp_all)
qed simp

lemma nack_scan_kept:
  "p \<in> set m \<Longrightarrow> ni_retries (snd p) + 1 < kMaxNackRetries \<Longrightarrow>
   \<exists>i'. (fst p, i') \<in> set (fst (nack_scan due now m)) \<and> ni_created_time i' = ni_created_time (snd p)"
proof (induction m)
  case (Cons q m)
  then show ?case
    by (cases "p = q") (auto intro: exI[of _ "snd q"] exI[of _ "(snd q)\<lparr>ni_retries := ni_retries (snd q) + 1, ni_send_at_time := now\<rparr>"])
qed simp

lemma GetNackBatch_simps [simp]:
  "nack_list (fst (GetNackBatch L opt now r)) = fst (nack_scan (nack_due L opt now r) now (nack_list r))"
  "snd (GetNackBatch L opt now r) = snd (nack_scan (nack_due L opt now r) now (nack_list r))"
  "nk_newest_seq_num (fst (GetNackBatch L opt now r)) = nk_newest_seq_num r"
  "nk_initialized (fst (GetNackBatch L opt now r)) = nk_initialized r"
  "reordering_histogram (fst (GetNackBatch L opt now r)) = reordering_histogram r"
  by (simp_all add: GetNackBatch_def split: prod.split)

lemma GetNackBatch_inv: "nack_inv L r \<Longrightarrow> nack_inv L (fst (GetNackBatch L opt now r))"
  using nack_scan_length[of "nack_due L opt now r" now "nack_list r"]
  by (auto simp: nack_inv_def nack_scan_list_ok)

subsection \<open>The invariant\<close>

definition keyframes_after :: "seq_lib \<Rightarrow> u16 \<Rightarrow> bool \<Rightarrow> nack_requester \<Rightarrow> nack_requester" where
  "keyframes_after L seq key r = r\<lparr>keyframe_list :=
     om_lower_bound (DescendingSeqNumComp L) (seq - kMaxPacketAge)
       (if key then om_put (DescendingSeqNumComp L) seq () (keyframe_list r) else keyframe_list r)\<rparr>"

lemma keyframes_after_frame [simp]:
  "nack_list (keyframes_after L seq key r) = nack_list r"
  "nk_newest_seq_num (keyframes_after L seq key r) = nk_newest_seq_num r"
  "nk_initialized (keyframes_after L seq key r) = nk_initialized r"
  "reordering_histogram (keyframes_after L seq key r) = reordering_histogram r"
  by (simp_all add: keyframes_after_def)

lemma OnReceivedPacket_new:
  assumes "nk_initialized r" "seq \<noteq> nk_newest_seq_num r" "\<not> AheadOf L (nk_newest_seq_num r) seq"
  shows "fst (OnReceivedPacket L now seq key ret r) =
    fst (GetNackBatch L kSeqNumOnly now
      ((AddPacketsToNack L now (nk_newest_seq_num r + 1) seq (keyframes_after L seq key r))
        \<lparr>nk_newest_seq_num := seq\<rparr>))"
  using assms by (simp add: OnReceivedPacket_def keyframes_after_def Let_def split_def)

lemma OnReceivedPacket_inv:
  assumes L: "seq_lib_ok L" and inv: "nack_inv L r"
  shows "nack_inv L (fst (OnReceivedPacket L now seq key ret r))"
proof (cases "nk_initialized r \<and> seq \<noteq> nk_newest_seq_num r \<and> \<not> AheadOf L (nk_newest_seq_num r) seq")
  case True
  let ?r = "AddPacketsToNack L now (nk_newest_seq_num r + 1) seq (keyframes_after L seq key r)"
  have "1 \<le> age seq (nk_newest_seq_num r)"
    using newer_age[OF L] True by blast
  then have "list_ok L seq (nack_list ?r) \<and> length (nack_list ?r) \<le> kMaxNackPackets"
    using inv by (intro AddPackets_ok[OF L]) (simp_all add: nack_inv_def)
  then have "nack_inv L (?r\<lparr>nk_newest_seq_num := seq\<rparr>)"
    using inv True by (simp add: nack_inv_def AddPackets_frame)
  then show ?thesis using OnReceivedPacket_new True by (simp add: GetNackBatch_inv)
next
  case False
  have "list_ok L (nk_newest_seq_num r) (om_erase (DescendingSeqNumComp L) seq (nack_list r))"
    using inv set_om_erase[of "DescendingSeqNumComp L" seq "nack_list r"]
    by (auto simp: nack_inv_def list_ok_def om_erase_wf)
  with False inv length_om_erase[of "DescendingSeqNumComp L" seq "nack_list r"] list_ok_Nil[OF L]
  show ?thesis
    by (auto simp: OnReceivedPacket_def UpdateReorderingStat_def Let_def nack_inv_def
        Hist_Add_ok om_simps_Nil split: option.splits)
qed

lemma ProcessNacks_fst: "fst (ProcessNacks L now r) = fst (GetNackBatch L kTimeOnly now r)"
  by (simp add: ProcessNacks_def split_def Let_def)

lemma UpdateRtt_inv: "nack_inv L r \<Longrightarrow> nack_inv L (UpdateRtt rtt r)"
  by (simp add: nack_inv_def UpdateRtt_def)

lemma nack_step_inv: "seq_lib_ok L \<Longrightarrow> nack_inv L r \<Longrightarrow> nack_inv L (nack_step L r e)"
  by (cases e) (simp_all add: OnReceivedPacket_inv ProcessNacks_fst GetNackBatch_inv UpdateRtt_inv)

interpretation nk: inv_system "nack_step L" "\<lambda>r. seq_lib_ok L \<and> nack_inv L r" for L
  by unfold_locales (simp add: nack_step_inv)

text \<open>
  C21: whatever packets, timer ticks and RTT updates arrive, the missing-packet list stays
  strictly ordered from oldest to newest inside the comparator's window, holds at most
  1000 entries, every entry is keyed by its own number, is 1 to 10000 positions behind the
  newest packet and was requested fewer than 10 times.
\<close>

theorem nack_reachable_inv:
  assumes "seq_lib_ok L"
  shows "nack_inv L (run (nack_step L) NackRequester es)"
  using nk.inv_run[of L NackRequester es] assms nack_inv_init by blast

theorem nack_reachable_inv_witness:
  "nack_inv webrtc_seq (run (nack_step webrtc_seq) NackRequester
     [RtpIn 0 65534 True False, RtpIn 5 3 False False, NackTimer 200, RtpIn 210 0 False True])"
  by (rule nack_reachable_inv[OF webrtc_seq_ok])

subsection \<open>What one packet does\<close>

lemma list_ok_find:
  assumes "list_ok L f m" "k \<in> window f"
  shows "om_find (DescendingSeqNumComp L) m k = map_of m k"
  using assms by (intro om_find_map_of) (auto simp: list_ok_def)

lemma fold_put_mem:
  assumes "omap_wf lt S m" "set ks \<subseteq> S" "k \<in> set ks"
  shows "(k, f k) \<in> set (fold (\<lambda>s. om_put lt s (f s)) ks m)"
proof -
  have "om_find lt (fold (\<lambda>s. om_put lt s (f s)) ks m) k = Some (f k)"
    using assms by (subst om.look_fold_put[where S = S]) (auto simp: om_adm_def)
  moreover have "om_find lt (fold (\<lambda>s. om_put lt s (f s)) ks m) k
      = map_of (fold (\<lambda>s. om_put lt s (f s)) ks m) k"
    using assms fold_put_spec[OF assms(1,2)] by (intro om_find_map_of) blast+
  ultimately show ?thesis by (simp add: map_of_SomeD)
qed

lemma gap_added:
  assumes L: "seq_lib_ok L" and ok: "list_ok L f (nack_list r)"
    and room: "length (nack_list r) + (age e f - 1) \<le> kMaxNackPackets"
    and k: "1 \<le> age e k" "age e k < age e f"
  shows "\<exists>w. (k, NackInfo k w now) \<in> set (nack_list (AddPacketsToNack L now (f + 1) e r))"
proof -
  let ?lt = "DescendingSeqNumComp L"
  have d: "1 \<le> age e f" using k by linarith
  have gap: "unat (e - (f + 1)) = age e f - 1"
    using gap_age[OF d] d age_def unat_sub_u16[of "e - f" 1] by (simp add: algebra_simps)
  have m1: "length (om_lower_bound ?lt (e - kMaxPacketAge) (nack_list r)) + unat (e - (f + 1)) \<le> kMaxNackPackets"
    using length_om_lower_bound[of ?lt "e - kMaxPacketAge" "nack_list r"] room gap by linarith
  show ?thesis
    using L
  proof (cases rule: AddPackets_cases[of L now "f + 1" e r])
    case cleared
    with m1 show ?thesis by linarith
  next
    case (added r2)
    have small: "age e f \<le> 1001" using added(2) gap by (simp add: nack_consts)
    have wf: "omap_wf ?lt (window e) (nack_list r)"
    proof (rule omap_wf_shift[OF L _ _ small])
      show "omap_wf ?lt (window f) (nack_list r)" "\<forall>p\<in>set (nack_list r). age f (fst p) \<le> 10000"
        using ok by (simp_all add: list_ok_def entry_ok_def)
    qed
    have wf2: "omap_wf ?lt (window e) (nack_list r2)"
      using added(4) om_lower_bound_wf[OF wf] by blast
    have "age e q < 32768" if "q \<in> set (seq_range (f + 1) e)" for q
      using gap_age[OF d, of q] that small by simp
    then have "set (seq_range (f + 1) e) \<subseteq> window e"
      by (auto simp: window_def)
    moreover have "k \<in> set (seq_range (f + 1) e)"
      using gap_age[OF d, of k] k by simp
    ultimately show ?thesis
      using fold_put_mem[OF wf2, of "seq_range (f + 1) e" k] added(5) by fastforce
  qed
qed

text \<open>
  A packet in front of the newest one records every number it skipped: each is in the
  list afterwards, as an entry of its own created now, unless the list had no room.
\<close>

theorem gap_recorded:
  assumes "seq_lib_ok L" "nack_inv L r" "nk_initialized r"
    and "seq \<noteq> nk_newest_seq_num r" "\<not> AheadOf L (nk_newest_seq_num r) seq"
    and "length (nack_list r) + (age seq (nk_newest_seq_num r) - 1) \<le> 1000"
    and "1 \<le> age seq k" "age seq k < age seq (nk_newest_seq_num r)"
  shows "\<exists>i. om_find (DescendingSeqNumComp L) (nack_list (fst (OnReceivedPacket L now seq key ret r))) k
           = Some i \<and> ni_seq_num i = k \<and> ni_created_time i = now"
proof -
  let ?r = "AddPacketsToNack L now (nk_newest_seq_num r + 1) seq (keyframes_after L seq key r)"
  let ?m = "nack_list (fst (OnReceivedPacket L now seq key ret r))"
  note inv = OnReceivedPacket_inv[OF assms(1,2), of now seq key ret]
  have "\<exists>w. (k, NackInfo k w now) \<in> set (nack_list ?r)"
    using assms by (intro gap_added) (auto simp: nack_inv_def nack_consts)
  then obtain i where i: "(k, i) \<in> set ?m" "ni_created_time i = now"
    using nack_scan_kept[of "(k, _)" "nack_list ?r"]
    by (force simp: OnReceivedPacket_new[OF assms(3-5)] NackInfo_def nack_consts)
  have "nk_newest_seq_num (fst (OnReceivedPacket L now seq key ret r)) = seq"
    by (simp add: OnReceivedPacket_new[OF assms(3-5)])
  with inv have ok: "list_ok L seq ?m" by (simp add: nack_inv_def)
  then have "distinct (map fst ?m)" "entry_ok seq (k, i)"
    using i(1) by (auto simp: list_ok_def dest: omap_wf_distinct)
  moreover have "k \<in> window seq"
    using ok i(1) by (auto simp: list_ok_def omap_wf_def)
  ultimately show ?thesis
    using i list_ok_find[OF ok] by (auto simp: entry_ok_def)
qed

theorem gap_recorded_witness:
  "\<exists>i. om_find (DescendingSeqNumComp webrtc_seq) (nack_list (fst (OnReceivedPacket webrtc_seq 7 2 False False
      (run (nack_step webrtc_seq) NackRequester [RtpIn 0 65534 True False])))) 65535
     = Some i \<and> ni_seq_num i = 65535 \<and> ni_created_time i = 7"
  by (rule gap_recorded[OF webrtc_seq_ok nack_reachable_inv[OF webrtc_seq_ok]])
     (simp_all add: OnReceivedPacket_def NackRequester_def webrtc_seq_def ahead_or_at_spec_def age_def)

text \<open>
  A packet from behind the newest one is taken off the list, its return value is the
  number of times it was requested (0 when it was only reordered), nothing is signalled and
  every other entry is untouched.
\<close>

theorem old_packet_settled:
  assumes "seq_lib_ok L" "nack_inv L r" "nk_initialized r"
    and "seq \<in> window (nk_newest_seq_num r)" "seq \<noteq> nk_newest_seq_num r"
    and "OnReceivedPacket L now seq key ret r = (r', nacked, batches)"
  shows "om_find (DescendingSeqNumComp L) (nack_list r') seq = None \<and>
    nacked = (case om_find (DescendingSeqNumComp L) (nack_list r) seq of
                None \<Rightarrow> 0 | Some i \<Rightarrow> ni_retries i) \<and>
    batches = [] \<and>
    set (nack_list r') = {p \<in> set (nack_list r). fst p \<noteq> seq}"
proof -
  let ?lt = "DescendingSeqNumComp L" and ?S = "window (nk_newest_seq_num r)"
  have wf: "omap_wf ?lt ?S (nack_list r)"
    using assms(2) by (simp add: nack_inv_def list_ok_def)
  have ahead: "AheadOf L (nk_newest_seq_num r) seq"
    using ahead_or_at_window[of "nk_newest_seq_num r" "nk_newest_seq_num r" seq] assms(4,5)
    by (simp add: seq_lib_okD[OF assms(1)] window_def)
  have list: "nack_list r' = om_erase ?lt seq (nack_list r)"
  proof (cases "om_find ?lt (nack_list r) seq")
    case None
    then have "om_erase ?lt seq (nack_list r) = nack_list r"
      by (rule om_erase_absent)
    then show ?thesis
      using None assms(3,5,6) ahead
      by (auto simp: OnReceivedPacket_def UpdateReorderingStat_def Let_def)
  next
    case (Some i)
    then show ?thesis
      using assms(3,5,6) ahead
      by (auto simp: OnReceivedPacket_def UpdateReorderingStat_def Let_def)
  qed
  have "om_find ?lt (nack_list r') seq = None"
    unfolding list using om.look_del_same[of ?lt ?S seq "nack_list r"] wf assms(4)
    by (simp add: om_adm_def)
  moreover have "set (nack_list r') = {p \<in> set (nack_list r). fst p \<noteq> seq}"
    unfolding list by (rule set_om_erase_wf[OF wf assms(4)])
  ultimately show ?thesis
    using assms(3,5,6) ahead
    by (auto simp: OnReceivedPacket_def Let_def split: option.splits)
qed

lemmas nack_eval = NackRequester_def OnReceivedPacket_def AddPacketsToNack_def GetNackBatch_def
  UpdateReorderingStat_def WaitNumberOfPackets_def NackInfo_def seq_range_def nack_due_def
  webrtc_seq_def ahead_or_at_spec_def nack_consts kDefaultRttMs_def om_simps_Cons om_simps_Nil
  om_lower_bound_def Hist_new_def Hist_Add_def Hist_NumValues_def hclamp_def upt_rec Let_def

definition nack_demo :: nack_requester where
  "nack_demo = run (nack_step webrtc_seq) NackRequester
     [RtpIn 0 65533 True False, RtpIn 7 2 False False]"

lemma nack_demo_inv: "nack_inv webrtc_seq nack_demo"
  unfolding nack_demo_def by (rule nack_reachable_inv[OF webrtc_seq_ok])

lemma nack_demo_eval:
  "nk_newest_seq_num nack_demo = 2" "nk_initialized nack_demo"
  by (simp_all add: nack_demo_def nack_eval)

theorem old_packet_settled_witness:
  "om_find (DescendingSeqNumComp webrtc_seq)
     (nack_list (fst (OnReceivedPacket webrtc_seq 9 65535 False True nack_demo))) 65535 = None"
  by (rule old_packet_settled[OF webrtc_seq_ok nack_demo_inv nack_demo_eval(2) _ _
        surjective_pairing3, THEN conjunct1])
     (simp_all add: window_def nack_demo_eval age_def)

subsection \<open>How often a number is requested\<close>

fun timer_batches :: "seq_lib \<Rightarrow> int list \<Rightarrow> nack_requester \<Rightarrow> u16 list" where
  "timer_batches L [] r = []"
| "timer_batches L (t # ts) r =
     concat (snd (ProcessNacks L t r)) @ timer_batches L ts (fst (ProcessNacks L t r))"

definition credit :: "(u16, nack_info) omap \<Rightarrow> u16 \<Rightarrow> nat" where
  "credit m k = (case map_of m k of None \<Rightarrow> 0 | Some i \<Rightarrow> kMaxNackRetries - ni_retries i)"

lemma nack_scan_absent:
  "k \<notin> fst ` set m \<Longrightarrow> \<forall>p\<in>set m. ni_seq_num (snd p) = fst p \<Longrightarrow>
   count_list (snd (nack_scan due now m)) k = 0 \<and> credit (fst (nack_scan due now m)) k = 0"
proof -
  assume k: "k \<notin> fst ` set m" and m: "\<forall>p\<in>set m. ni_seq_num (snd p) = fst p"
  have "k \<notin> set (snd (nack_scan due now m))"
    using k m by (force simp: nack_scan_batch)
  moreover have "map_of (fst (nack_scan due now m)) k = None"
    using k nack_scan_keys[of due now m] by (auto simp: map_of_eq_None_iff)
  ultimately show ?thesis
    by (simp add: credit_def count_list_0_iff)
qed

lemma credit_Cons: "credit (p # m) k = (if fst p = k then kMaxNackRetries - ni_retries (snd p) else credit m k)"
  by (cases p) (simp add: credit_def)

lemma nack_scan_credit:
  assumes "distinct (map fst m)" "\<forall>p\<in>set m. ni_seq_num (snd p) = fst p \<and> ni_retries (snd p) < kMaxNackRetries"
  shows "count_list (snd (nack_scan due now m)) k + credit (fst (nack_scan due now m)) k \<le> credit m k"
  using assms
proof (induction m)
  case (Cons p m)
  show ?case
  proof (cases "fst p = k")
    case True
    then have "count_list (snd (nack_scan due now m)) k = 0" "credit (fst (nack_scan due now m)) k = 0"
      using Cons.prems nack_scan_absent[of k m due now] by auto
    with True Cons.prems show ?thesis by (auto simp: credit_Cons)
  next
    case False
    with Cons show ?thesis by (auto simp: credit_Cons)
  qed
qed (simp add: credit_def)

lemma timer_batches_credit:
  assumes "nack_inv L r"
  shows "count_list (timer_batches L ts r) k \<le> credit (nack_list r) k"
  using assms
proof (induction ts arbitrary: r)
  case (Cons t ts)
  let ?r = "fst (ProcessNacks L t r)"
  have "nack_inv L ?r" using Cons.prems by (simp add: ProcessNacks_fst GetNackBatch_inv)
  then have IH: "count_list (timer_batches L ts ?r) k \<le> credit (nack_list ?r) k" by (rule Cons.IH)
  have "concat (snd (ProcessNacks L t r)) = snd (nack_scan (nack_due L kTimeOnly t r) t (nack_list r))"
    by (simp add: ProcessNacks_def split_def Let_def)
  moreover have "count_list (snd (nack_scan (nack_due L kTimeOnly t r) t (nack_list r))) k
      + credit (nack_list ?r) k \<le> credit (nack_list r) k"
    using Cons.prems nack_scan_credit[of "nack_list r"]
    by (auto simp: ProcessNacks_fst nack_inv_def list_ok_def entry_ok_def dest: omap_wf_distinct)
  ultimately show ?case using IH by simp
qed simp



text \<open>
  The periodic timer also requests a number that was never requested before, although
  its waiting position is not reached: with \<open>send_at_time\<close> still -1 the RTT test passes as
  soon as the clock exceeds the RTT, so the reordering wait only delays the first request
  until the next 20 ms tick.
\<close>

theorem timer_skips_reordering_wait:
  assumes "nack_inv L r" "(k, i) \<in> set (nack_list r)" "ni_send_at_time i = -1"
    and "now - ni_created_time i \<ge> send_nack_delay_ms r" "nk_rtt_ms r \<le> now"
    and "\<not> AheadOrAt L (nk_newest_seq_num r) (ni_send_at_seq_num i)"
  shows "\<exists>batch. snd (ProcessNacks L now r) = [batch] \<and> k \<in> set batch"
proof -
  let ?b = "snd (nack_scan (nack_due L kTimeOnly now r) now (nack_list r))"
  have "entry_ok (nk_newest_seq_num r) (k, i)"
    using assms(1,2) by (simp add: nack_inv_def list_ok_def)
  moreover have "nack_due L kTimeOnly now r i"
    using assms(3-5) by (simp add: nack_due_def)
  ultimately have "k \<in> set ?b"
    unfolding nack_scan_batch entry_ok_def using assms(2) by force
  moreover from this have "?b \<noteq> []" by auto
  ultimately show ?thesis
    by (simp add: ProcessNacks_def split_def Let_def)
qed

definition nack_reordered :: nack_requester where
  "nack_reordered = run (nack_step webrtc_seq) NackRequester
     [RtpIn 0 100 False False, RtpIn 1 99 False False, RtpIn 200 102 False False]"

lemma nack_reordered_inv: "nack_inv webrtc_seq nack_reordered"
  unfolding nack_reordered_def by (rule nack_reachable_inv[OF webrtc_seq_ok])

lemma quantile_one_sample:
  "InverseCdf (1 / 2) \<lparr>hvalues = [Suc 0], hbuckets = (replicate 10 0)[Suc 0 := Suc 0],
     hindex = Suc 0, hcapacity = 128\<rparr> = 2"
  by code_simp

lemma nack_reordered_eval:
  "map_of (nack_list nack_reordered) 101 = Some (NackInfo 101 103 200)"
  "nk_newest_seq_num nack_reordered = 102" "send_nack_delay_ms nack_reordered = 0"
  "nk_rtt_ms nack_reordered = 100" "AheadOrAt webrtc_seq 102 103 = False"
  by (simp_all add: nack_reordered_def nack_eval quantile_one_sample unsigned_minus_1_eq_mask
      mask_eq_exp_minus_1)

theorem timer_skips_reordering_wait_witness:
  "\<exists>batch. snd (ProcessNacks webrtc_seq 201 nack_reordered) = [batch] \<and> 101 \<in> set batch"
  by (rule timer_skips_reordering_wait[where i = "NackInfo 101 103 200"])
     (simp_all add: nack_reordered_eval nack_reordered_inv map_of_SomeD NackInfo_def)

end
