(* ===== verification/RecvStat.thy ===== *)
theory RecvStat
  imports OrdMap
begin

text \<open>
  \<open>modules/rtp_rtcp/receive_stat.cpp\<close>: the per-SSRC reception statistics and the round-robin
  production of RTCP report blocks. The record \<open>stat_lib\<close> holds what the code calls of
  libwebrtc: the sequence-number unwrapper and the packet counters, whose representation
  is the type parameter. Sequence numbers are extended to \<open>int\<close> (\<open>int64_t\<close>), the jitter
  arithmetic stays on 32-bit words.
\<close>

subsection \<open>State\<close>

record rtp_packet =
  rp_ssrc :: u32
  rp_sequence_number :: u16
  rp_timestamp :: u32
  rp_payload_type_frequency :: int

record 'c stat_lib =
  UnwrapWithoutUpdate :: "int option \<Rightarrow> u16 \<Rightarrow> int"
  CountersEmpty :: 'c
  CountersAddPacket :: "rtp_packet \<Rightarrow> 'c \<Rightarrow> 'c"
  TransmittedPackets :: "'c \<Rightarrow> u32"
  RetransmittedPackets :: "'c \<Rightarrow> u32"

record 'c stream_stat =
  ss_ssrc :: u32
  receive_counters :: 'c
  max_reordering_threshold :: int
  received_seq_out_of_order :: "u16 option"
  seq_unwrapper_last :: "int option"
  cumulative_loss :: int
  received_seq_first :: int
  received_seq_max :: int
  last_report_seq_max :: int
  last_report_cumulative_loss :: int
  cumulative_loss_rtcp_offset :: int
  cumulative_loss_is_capped :: bool
  last_received_timestamp :: u32
  last_received_time_ms :: int
  jitter_q4 :: u32

definition kMaxReorderingThreshold :: int where "kMaxReorderingThreshold = 450"
definition kStreamStatTimeoutMs :: int where "kStreamStatTimeoutMs = 8000"

definition StreamStat :: "('c, 'z) stat_lib_scheme \<Rightarrow> u32 \<Rightarrow> 'c stream_stat" where
  "StreamStat W ssrc =
     \<lparr>ss_ssrc = ssrc, receive_counters = CountersEmpty W,
      max_reordering_threshold = kMaxReorderingThreshold,
      received_seq_out_of_order = None, seq_unwrapper_last = None,
      cumulative_loss = 0, received_seq_first = -1, received_seq_max = -1,
      last_report_seq_max = -1, last_report_cumulative_loss = 0,
      cumulative_loss_rtcp_offset = 0, cumulative_loss_is_capped = False,
      last_received_timestamp = 0, last_received_time_ms = 0, jitter_q4 = 0\<rparr>"

definition ReceivedRtpPacket :: "'c stream_stat \<Rightarrow> bool" where
  "ReceivedRtpPacket s \<longleftrightarrow> received_seq_first s \<ge> 0"

subsection \<open>Counters\<close>

text \<open>The result's boolean: the packet is out of order (or may start a new sequence).\<close>

definition UpdateOutOfOrder :: "rtp_packet \<Rightarrow> int \<Rightarrow> 'c stream_stat \<Rightarrow> 'c stream_stat \<times> bool" where
  "UpdateOutOfOrder p sequence_number s =
     (let s1 = s\<lparr>received_seq_out_of_order := None\<rparr> in
      if (\<exists>prev. received_seq_out_of_order s = Some prev \<and> rp_sequence_number p = prev + 1)
      then (s1\<lparr>received_seq_max := sequence_number - 2\<rparr>, False)
      else if \<bar>sequence_number - received_seq_max s1\<bar> > max_reordering_threshold s1
      then (s1\<lparr>received_seq_out_of_order := Some (rp_sequence_number p),
               cumulative_loss := cumulative_loss s1 + 1\<rparr>, True)
      else if sequence_number > received_seq_max s1 then (s1, False)
      else (s1, True))"

definition jitter_diff_samples :: "rtp_packet \<Rightarrow> int \<Rightarrow> 'c stream_stat \<Rightarrow> int" where
  "jitter_diff_samples p receive_time s =
     (let receive_time_diff = receive_time - last_received_time_ms s;
          receive_diff_rtp = (word_of_int (c_div (receive_time_diff * rp_payload_type_frequency p) 1000) :: u32)
      in sint (receive_diff_rtp - (rp_timestamp p - last_received_timestamp s)))"

definition UpdateJitter :: "rtp_packet \<Rightarrow> int \<Rightarrow> 'c stream_stat \<Rightarrow> 'c stream_stat" where
  "UpdateJitter p receive_time s =
     (let time_diff_samples = \<bar>jitter_diff_samples p receive_time s\<bar> in
      if time_diff_samples < 450000 then
        let jitter_q4_diff = sint (push_bit 4 (word_of_int time_diff_samples :: u32) - jitter_q4 s)
        in s\<lparr>jitter_q4 := jitter_q4 s + word_of_int ((jitter_q4_diff + 8) div 16)\<rparr>
      else s)"

definition UpdateCounters :: "('c, 'z) stat_lib_scheme \<Rightarrow> int \<Rightarrow> rtp_packet \<Rightarrow> 'c stream_stat \<Rightarrow> 'c stream_stat" where
  "UpdateCounters W now_ms p s =
     (let s1 = s\<lparr>receive_counters := CountersAddPacket W p (receive_counters s),
                 cumulative_loss := cumulative_loss s - 1\<rparr>;
          sequence_number = UnwrapWithoutUpdate W (seq_unwrapper_last s) (rp_sequence_number p);
          (s2, out_of_order) =
            (if \<not> ReceivedRtpPacket s1
             then (s1\<lparr>received_seq_first := sequence_number,
                      received_seq_max := sequence_number - 1\<rparr>, False)
             else UpdateOutOfOrder p sequence_number s1)
      in if out_of_order then s2
         else
           let s3 = s2\<lparr>cumulative_loss := cumulative_loss s2 + (sequence_number - received_seq_max s2),
                       received_seq_max := sequence_number,
                       seq_unwrapper_last := Some sequence_number\<rparr>;
               s4 = (if rp_timestamp p \<noteq> last_received_timestamp s3 \<and>
                        TransmittedPackets W (receive_counters s3)
                          - RetransmittedPackets W (receive_counters s3) > 1
                     then UpdateJitter p now_ms s3 else s3)
           in s4\<lparr>last_received_timestamp := rp_timestamp p, last_received_time_ms := now_ms\<rparr>)"

subsection \<open>Report blocks\<close>

record report_block =
  rb_media_ssrc :: u32
  rb_fraction_lost :: u8
  rb_cumulative_lost :: int
  rb_ext_highest_seq_num :: u32
  rb_jitter :: u32
  rb_last_sr :: u32
  rb_delay_last_sr :: u32

definition MaybeAppendReportBlockAndReset ::
    "int \<Rightarrow> 'c stream_stat \<Rightarrow> report_block list \<Rightarrow> 'c stream_stat \<times> report_block list" where
  "MaybeAppendReportBlockAndReset now_ms s result =
     (if now_ms - last_received_time_ms s > kStreamStatTimeoutMs then (s, result)
      else if \<not> ReceivedRtpPacket s then (s, result)
      else
        let exp_since_last = received_seq_max s - last_report_seq_max s;
            loss_since_last = cumulative_loss s - last_report_cumulative_loss s;
            fraction = (if exp_since_last > 0 \<and> loss_since_last > 0
                        then word_of_int (c_div (255 * loss_since_last) exp_since_last) else 0);
            lost0 = cumulative_loss s + cumulative_loss_rtcp_offset s;
            offset = (if lost0 < 0 then - cumulative_loss s else cumulative_loss_rtcp_offset s);
            lost1 = (if lost0 < 0 then 0 else lost0);
            capped = (cumulative_loss_is_capped s \<or> lost1 > 0x7FFFFF);
            lost2 = (if lost1 > 0x7FFFFF then 0x7FFFFF else lost1)
        in (s\<lparr>cumulative_loss_rtcp_offset := offset, cumulative_loss_is_capped := capped,
              last_report_seq_max := received_seq_max s,
              last_report_cumulative_loss := cumulative_loss s\<rparr>,
            result @ [\<lparr>rb_media_ssrc = ss_ssrc s, rb_fraction_lost = fraction,
              rb_cumulative_lost = lost2, rb_ext_highest_seq_num = word_of_int (received_seq_max s),
              rb_jitter = drop_bit 4 (jitter_q4 s), rb_last_sr = 0, rb_delay_last_sr = 0\<rparr>]))"

subsection \<open>All streams\<close>

record 'c receive_stat =
  rs_stats :: "u32 \<rightharpoonup> 'c stream_stat"
  all_ssrcs :: "u32 list"
  last_returned_ssrc_idx :: nat

definition ReceiveStat :: "'c receive_stat" where
  "ReceiveStat = \<lparr>rs_stats = Map.empty, all_ssrcs = [], last_returned_ssrc_idx = 0\<rparr>"

definition GetOrCreateStat :: "('c, 'z) stat_lib_scheme \<Rightarrow> u32 \<Rightarrow> 'c receive_stat \<Rightarrow>
    'c receive_stat \<times> 'c stream_stat" where
  "GetOrCreateStat W ssrc r =
     (case rs_stats r ssrc of
        Some st \<Rightarrow> (r, st)
      | None \<Rightarrow> let st = StreamStat W ssrc
                in (r\<lparr>rs_stats := hm_put ssrc st (rs_stats r), all_ssrcs := all_ssrcs r @ [ssrc]\<rparr>, st))"

definition OnRtpPacket :: "('c, 'z) stat_lib_scheme \<Rightarrow> int \<Rightarrow> rtp_packet \<Rightarrow> 'c receive_stat \<Rightarrow> 'c receive_stat" where
  "OnRtpPacket W now p r =
     (let (r1, st) = GetOrCreateStat W (rp_ssrc p) r
      in r1\<lparr>rs_stats := hm_put (rp_ssrc p) (UpdateCounters W now p st) (rs_stats r1)\<rparr>)"

text \<open>
  The polling loop. \<open>None\<close> would be the dereference of \<open>stats_.end()\<close>; \<open>k\<close> counts the
  iterations left, \<open>i\<close> the index of the loop.
\<close>

fun report_loop :: "int \<Rightarrow> nat \<Rightarrow> nat \<Rightarrow> nat \<Rightarrow> nat \<Rightarrow> 'c receive_stat \<Rightarrow> report_block list \<Rightarrow>
    ('c receive_stat \<times> nat \<times> report_block list) option" where
  "report_loop now max_blocks 0 i idx r result = Some (r, idx, result)"
| "report_loop now max_blocks (Suc k) i idx r result =
     (if length result < max_blocks then
        let ssrc_idx = (last_returned_ssrc_idx r + 1 + i) mod length (all_ssrcs r);
            media_ssrc = all_ssrcs r ! ssrc_idx
        in case rs_stats r media_ssrc of
             None \<Rightarrow> None
           | Some st \<Rightarrow>
               let (st', result') = MaybeAppendReportBlockAndReset now st result
               in report_loop now max_blocks k (i + 1) ssrc_idx
                    (r\<lparr>rs_stats := hm_put media_ssrc st' (rs_stats r)\<rparr>) result'
      else Some (r, idx, result))"

definition RtcpReportBlocks :: "int \<Rightarrow> nat \<Rightarrow> 'c receive_stat \<Rightarrow>
    ('c receive_stat \<times> report_block list) option" where
  "RtcpReportBlocks now max_blocks r =
     (case report_loop now max_blocks (length (all_ssrcs r)) 0 0 r [] of
        None \<Rightarrow> None
      | Some (r', idx, result) \<Rightarrow> Some (r'\<lparr>last_returned_ssrc_idx := idx\<rparr>, result))"

end
