(* ===== verification/RecvStatProps.thy ===== *)
theory RecvStatProps
  imports RecvStat
begin

text \<open>
  Correctness of the reception statistics: the loss ledger equals "expected minus received"
  (RFC 3550) while the sequence does not restart, the fraction-lost field follows from it
  without truncation, the reported cumulative loss keeps differences, the jitter estimate
  is the rounded moving average and never wraps, and the polling of many streams is a fair
  round robin that never leaves the table.
\<close>

subsection \<open>The ledger\<close>

definition unwrap_first :: "('c, 'z) stat_lib_scheme \<Rightarrow> bool" where
  "unwrap_first W \<longleftrightarrow> (\<forall>v. UnwrapWithoutUpdate W None v = uint v)"

fun stat_run :: "('c, 'z) stat_lib_scheme \<Rightarrow> 'c stream_stat \<Rightarrow> (int \<times> rtp_packet) list \<Rightarrow> 'c stream_stat" where
  "stat_run W s [] = s"
| "stat_run W s ((now, p) # ps) = stat_run W (UpdateCounters W now p s) ps"

definition in_sequence :: "('c, 'z) stat_lib_scheme \<Rightarrow> rtp_packet \<Rightarrow> 'c stream_stat \<Rightarrow> bool" where
  "in_sequence W p s \<longleftrightarrow> received_seq_out_of_order s = None \<and>
     (ReceivedRtpPacket s \<longrightarrow>
      \<bar>UnwrapWithoutUpdate W (seq_unwrapper_last s) (rp_sequence_number p) - received_seq_max s\<bar>
        \<le> max_reordering_threshold s)"

fun regular_run :: "('c, 'z) stat_lib_scheme \<Rightarrow> 'c stream_stat \<Rightarrow> (int \<times> rtp_packet) list \<Rightarrow> bool" where
  "regular_run W s [] \<longleftrightarrow> True"
| "regular_run W s ((now, p) # ps) \<longleftrightarrow> in_sequence W p s \<and> regular_run W (UpdateCounters W now p s) ps"

lemma UpdateJitter_frame [simp]:
  "cumulative_loss (UpdateJitter p t s) = cumulative_loss s"
  "received_seq_first (UpdateJitter p t s) = received_seq_first s"
  "received_seq_max (UpdateJitter p t s) = received_seq_max s"
  "received_seq_out_of_order (UpdateJitter p t s) = received_seq_out_of_order s"
  "seq_unwrapper_last (UpdateJitter p t s) = seq_unwrapper_last s"
  "last_report_seq_max (UpdateJitter p t s) = last_report_seq_max s"
  "last_report_cumulative_loss (UpdateJitter p t s) = last_report_cumulative_loss s"
  "cumulative_loss_rtcp_offset (UpdateJitter p t s) = cumulative_loss_rtcp_offset s"
  "max_reordering_threshold (UpdateJitter p t s) = max_reordering_threshold s"
  "ss_ssrc (UpdateJitter p t s) = ss_ssrc s"
  by (simp_all add: UpdateJitter_def Let_def)

lemma UpdateCounters_frame [simp]:
  "last_report_seq_max (UpdateCounters W now p s) = last_report_seq_max s"
  "last_report_cumulative_loss (UpdateCounters W now p s) = last_report_cumulative_loss s"
  "cumulative_loss_rtcp_offset (UpdateCounters W now p s) = cumulative_loss_rtcp_offset s"
  "max_reordering_threshold (UpdateCounters W now p s) = max_reordering_threshold s"
  "ss_ssrc (UpdateCounters W now p s) = ss_ssrc s"
  by (auto simp: UpdateCounters_def UpdateOutOfOrder_def Let_def)

lemma UpdateCounters_first:
  assumes "\<not> ReceivedRtpPacket s" "received_seq_out_of_order s = None"
  shows "cumulative_loss (UpdateCounters W now p s) = cumulative_loss s"
    and "received_seq_max (UpdateCounters W now p s) = UnwrapWithoutUpdate W (seq_unwrapper_last s) (rp_sequence_number p)"
    and "received_seq_first (UpdateCounters W now p s) = UnwrapWithoutUpdate W (seq_unwrapper_last s) (rp_sequence_number p)"
    and "received_seq_out_of_order (UpdateCounters W now p s) = None"
  using assms by (simp_all add: UpdateCounters_def ReceivedRtpPacket_def Let_def)

lemma UpdateCounters_next:
  assumes "ReceivedRtpPacket s" "in_sequence W p s"
  shows "cumulative_loss (UpdateCounters W now p s) - received_seq_max (UpdateCounters W now p s)
        = cumulative_loss s - received_seq_max s - 1"
    and "received_seq_max s \<le> received_seq_max (UpdateCounters W now p s)"
    and "received_seq_first (UpdateCounters W now p s) = received_seq_first s"
    and "received_seq_out_of_order (UpdateCounters W now p s) = None"
  using assms
  by (simp_all add: UpdateCounters_def UpdateOutOfOrder_def ReceivedRtpPacket_def in_sequence_def Let_def)

lemma ReceivedRtpPacket_next:
  "ReceivedRtpPacket s \<Longrightarrow> in_sequence W p s \<Longrightarrow> ReceivedRtpPacket (UpdateCounters W now p s)"
  using UpdateCounters_next(3)[of s W p now] by (simp add: ReceivedRtpPacket_def)

lemma regular_run_ledger:
  assumes "ReceivedRtpPacket s" "regular_run W s ps"
  shows "cumulative_loss (stat_run W s ps) - received_seq_max (stat_run W s ps)
       = cumulative_loss s - received_seq_max s - int (length ps) \<and>
     received_seq_max s \<le> received_seq_max (stat_run W s ps) \<and>
     received_seq_first (stat_run W s ps) = received_seq_first s \<and>
     ReceivedRtpPacket (stat_run W s ps)"
  using assms
proof (induction W s ps rule: stat_run.induct)
  case (2 W s now p ps)
  then have seq: "in_sequence W p s" "regular_run W (UpdateCounters W now p s) ps" by simp_all
  note IH = "2.IH"[OF ReceivedRtpPacket_next[OF "2.prems"(1) seq(1)] seq(2)]
  show ?case
    using IH UpdateCounters_next[OF "2.prems"(1) seq(1), of now] by simp
qed simp


subsection \<open>Fraction lost\<close>

lemma fraction_word:
  assumes "0 < lost" "lost \<le> expected"
  shows "uint (word_of_int (c_div (255 * lost) expected) :: u8) = 255 * lost div expected"
proof -
  have "255 * lost div expected \<le> 255 * expected div expected"
    using assms by (intro zdiv_mono1) auto
  then have "255 * lost div expected \<le> 255" using assms by simp
  moreover have "0 \<le> 255 * lost div expected"
    using assms by (simp add: pos_imp_zdiv_nonneg_iff)
  ultimately show ?thesis
    using assms by (simp add: c_div_nonneg uint_word_of_int)
qed

text \<open>
  A report that follows a report after packets without a restart carries the fraction
  \<open>255 * lost / expected\<close> of exactly this period, rounded down; the 8-bit field never
  truncates it.
\<close>

theorem fraction_lost_of_period:
  assumes "ReceivedRtpPacket s" "regular_run W s ps"
    and "last_report_seq_max s = received_seq_max s"
    and "last_report_cumulative_loss s = cumulative_loss s"
    and "now - last_received_time_ms (stat_run W s ps) \<le> 8000"
    and "expected = received_seq_max (stat_run W s ps) - received_seq_max s"
    and "0 < expected"
  shows "\<exists>b s'. MaybeAppendReportBlockAndReset now (stat_run W s ps) [] = (s', [b]) \<and>
    uint (rb_fraction_lost b) = max 0 (255 * (expected - int (length ps)) div expected) \<and>
    rb_ext_highest_seq_num b = word_of_int (received_seq_max s + expected)"
proof -
  let ?s = "stat_run W s ps"
  note L = regular_run_ledger[OF assms(1,2)]
  have frame: "last_report_seq_max ?s = last_report_seq_max s"
    "last_report_cumulative_loss ?s = last_report_cumulative_loss s"
    by (induction W s ps rule: stat_run.induct) simp_all
  have exp: "received_seq_max ?s - last_report_seq_max ?s = expected"
    using assms(3,6) frame by simp
  have lost: "cumulative_loss ?s - last_report_cumulative_loss ?s = expected - int (length ps)"
    using L assms(4,6) frame by linarith
  have neg: "255 * (expected - int (length ps)) div expected \<le> 0"
    if "\<not> 0 < expected - int (length ps)"
    using that assms(7) by (intro div_nonpos_pos_le0) simp_all
  have frac: "uint (word_of_int (c_div (255 * (expected - int (length ps))) expected) :: u8)
      = 255 * (expected - int (length ps)) div expected"
    if "0 < expected - int (length ps)"
    using that by (intro fraction_word) simp_all
  have "0 \<le> 255 * (expected - int (length ps)) div expected" if "0 < expected - int (length ps)"
    using that assms(7) by (simp add: pos_imp_zdiv_nonneg_iff)
  then show ?thesis
    using L assms(5-7) exp lost neg frac
    by (auto simp: MaybeAppendReportBlockAndReset_def Let_def kStreamStatTimeoutMs_def max_def)
qed

subsection \<open>A restart of the sequence\<close>

text \<open>
  When the sender restarts its numbering (a packet more than 450 away from the front,
  followed by its successor) both packets have arrived, yet the ledger ends one higher than
  before: the restart is reported as one lost packet.
\<close>

theorem restart_counts_one_loss:
  assumes "ReceivedRtpPacket s" "received_seq_out_of_order s = None"
    and "\<bar>UnwrapWithoutUpdate W (seq_unwrapper_last s) (rp_sequence_number p1) - received_seq_max s\<bar>
           > max_reordering_threshold s"
    and "rp_sequence_number p2 = rp_sequence_number p1 + 1"
  shows "cumulative_loss (UpdateCounters W t2 p2 (UpdateCounters W t1 p1 s)) = cumulative_loss s + 1 \<and>
    received_seq_max (UpdateCounters W t2 p2 (UpdateCounters W t1 p1 s))
      = UnwrapWithoutUpdate W (seq_unwrapper_last s) (rp_sequence_number p2)"
proof -
  let ?s1 = "UpdateCounters W t1 p1 s"
  have s1: "cumulative_loss ?s1 = cumulative_loss s" "received_seq_first ?s1 = received_seq_first s"
    "received_seq_out_of_order ?s1 = Some (rp_sequence_number p1)"
    "seq_unwrapper_last ?s1 = seq_unwrapper_last s"
    using assms(1-3)
    by (simp_all add: UpdateCounters_def UpdateOutOfOrder_def ReceivedRtpPacket_def Let_def)
  show ?thesis
    using assms(1,4) s1
    by (simp add: UpdateCounters_def[of W t2] UpdateOutOfOrder_def ReceivedRtpPacket_def Let_def)
qed

subsection \<open>Cumulative lost\<close>

lemma report_fields:
  assumes "MaybeAppendReportBlockAndReset now s [] = (s', [b])"
  shows "rb_cumulative_lost b = min 8388607 (max 0 (cumulative_loss s + cumulative_loss_rtcp_offset s))"
    and "cumulative_loss_rtcp_offset s' = (if cumulative_loss s + cumulative_loss_rtcp_offset s < 0
           then - cumulative_loss s else cumulative_loss_rtcp_offset s)"
    and "cumulative_loss s' = cumulative_loss s"
  using assms
  by (auto simp: MaybeAppendReportBlockAndReset_def Let_def min_def max_def split: if_splits)

lemma stat_run_offset: "cumulative_loss_rtcp_offset (stat_run W s ps) = cumulative_loss_rtcp_offset s"
  by (induction W s ps rule: stat_run.induct) simp_all

text \<open>
  The reported cumulative loss fits the 24-bit field, and its change from one report
  to the next is the change of the internal ledger, unless the ledger falls to a new
  minimum (or the value is capped), even when the ledger is negative.
\<close>

theorem reported_loss_keeps_differences:
  assumes "MaybeAppendReportBlockAndReset t1 s [] = (s1, [b1])"
    and "MaybeAppendReportBlockAndReset t2 (stat_run W s1 ps) [] = (s2, [b2])"
    and "0 \<le> cumulative_loss (stat_run W s1 ps) + cumulative_loss_rtcp_offset s1"
    and "rb_cumulative_lost b1 < 8388607" "rb_cumulative_lost b2 < 8388607"
  shows "rb_cumulative_lost b2 - rb_cumulative_lost b1
      = cumulative_loss (stat_run W s1 ps) - cumulative_loss s \<and>
    0 \<le> rb_cumulative_lost b1 \<and> 0 \<le> rb_cumulative_lost b2"
proof -
  note r1 = report_fields[OF assms(1)] and r2 = report_fields[OF assms(2)]
  have "rb_cumulative_lost b1 = cumulative_loss s + cumulative_loss_rtcp_offset s1"
    using r1 assms(4) by (auto simp: min_def max_def split: if_splits)
  moreover have "rb_cumulative_lost b2 = cumulative_loss (stat_run W s1 ps) + cumulative_loss_rtcp_offset s1"
    using r2(1) assms(3,5) by (simp add: stat_run_offset min_def max_def split: if_splits)
  moreover have "0 \<le> rb_cumulative_lost b1" "0 \<le> rb_cumulative_lost b2"
    using r1(1) r2(1) by (simp_all add: min_def max_def)
  ultimately show ?thesis by simp
qed

subsection \<open>Jitter\<close>

definition jitter_ok :: "'c stream_stat \<Rightarrow> bool" where
  "jitter_ok s \<longleftrightarrow> uint (jitter_q4 s) \<le> 7200000"

lemma sint_small: "- 2147483648 \<le> i \<Longrightarrow> i < 2147483648 \<Longrightarrow> sint (word_of_int i :: u32) = i"
  by (simp add: sint_sbintrunc' signed_take_bit_int_eq_self)

lemma jitter_average:
  assumes "uint (j :: u32) \<le> 7200000" "0 \<le> d" "d < 450000"
  defines "j' \<equiv> j + word_of_int ((sint (push_bit 4 (word_of_int d :: u32) - j) + 8) div 16)"
  shows "uint j' = uint j + (16 * d - uint j + 8) div 16 \<and> uint j' \<le> 7200000"
proof -
  have "push_bit 4 (word_of_int d :: u32) = word_of_int (16 * d)"
    by (simp add: push_bit_eq_mult)
  then have "push_bit 4 (word_of_int d :: u32) - j = word_of_int (16 * d - uint j)"
    by simp
  moreover have "- 2147483648 \<le> 16 * d - uint j" "16 * d - uint j < 2147483648"
    using assms uint_ge_0[of j] by linarith+
  ultimately have S: "sint (push_bit 4 (word_of_int d :: u32) - j) = 16 * d - uint j"
    by (simp only: sint_small)
  let ?v = "uint j + (16 * d - uint j + 8) div 16"
  have J: "j' = word_of_int ?v"
    unfolding j'_def S by simp
  have "0 \<le> ?v" "?v \<le> 7200000"
    using assms(1-3) uint_ge_0[of j] by linarith+
  then have "uint (word_of_int ?v :: u32) = ?v"
    by (simp only: uint_word_of_int) (simp add: mod_pos_pos_trivial)
  with \<open>?v \<le> 7200000\<close> show ?thesis
    unfolding J by (simp only:)
qed

text \<open>
  From the first packet on the Q4 estimate stays below 7200000 (16 times the 5 s
  cut-off at 90 kHz), and each sample moves it by the rounded sixteenth of its distance to
  16 times the sample, or not at all for a sample beyond the cut-off: no step wraps.
\<close>

theorem jitter_moving_average:
  assumes "jitter_ok s"
  shows "uint (jitter_q4 (UpdateJitter p t s)) =
      (if \<bar>jitter_diff_samples p t s\<bar> < 450000
       then uint (jitter_q4 s) + (16 * \<bar>jitter_diff_samples p t s\<bar> - uint (jitter_q4 s) + 8) div 16
       else uint (jitter_q4 s)) \<and>
    jitter_ok (UpdateJitter p t s)"
  using jitter_average[of "jitter_q4 s" "\<bar>jitter_diff_samples p t s\<bar>"] assms
  by (auto simp: jitter_ok_def UpdateJitter_def Let_def)

lemma UpdateJitter_le:
  "uint (jitter_q4 s) \<le> 7200000 \<Longrightarrow> uint (jitter_q4 (UpdateJitter p t s)) \<le> 7200000"
  using jitter_average[of "jitter_q4 s" "\<bar>jitter_diff_samples p t s\<bar>"]
  by (auto simp: UpdateJitter_def Let_def)

lemma UpdateCounters_jitter_ok: "jitter_ok s \<Longrightarrow> jitter_ok (UpdateCounters W now p s)"
  unfolding UpdateCounters_def UpdateOutOfOrder_def Let_def jitter_ok_def
  by (auto intro!: UpdateJitter_le)

interpretation jit: inv_system "\<lambda>s (now, p). UpdateCounters W now p s" jitter_ok for W
  by unfold_locales (auto simp: UpdateCounters_jitter_ok split: prod.splits)

subsection \<open>Round robin\<close>

definition stat_active :: "int \<Rightarrow> 'c stream_stat \<Rightarrow> bool" where
  "stat_active now s \<longleftrightarrow> ReceivedRtpPacket s \<and> now - last_received_time_ms s \<le> kStreamStatTimeoutMs"

definition rs_ok :: "'c receive_stat \<Rightarrow> bool" where
  "rs_ok r \<longleftrightarrow> dom (rs_stats r) = set (all_ssrcs r) \<and> distinct (all_ssrcs r) \<and>
     (\<forall>k st. rs_stats r k = Some st \<longrightarrow> ss_ssrc st = k)"

lemma report_frame [simp]:
  "ss_ssrc (fst (MaybeAppendReportBlockAndReset now s res)) = ss_ssrc s"
  "received_seq_first (fst (MaybeAppendReportBlockAndReset now s res)) = received_seq_first s"
  "last_received_time_ms (fst (MaybeAppendReportBlockAndReset now s res)) = last_received_time_ms s"
  by (simp_all add: MaybeAppendReportBlockAndReset_def Let_def)

lemma stat_active_report [simp]:
  "stat_active t (fst (MaybeAppendReportBlockAndReset now s res)) = stat_active t s"
  by (simp add: stat_active_def ReceivedRtpPacket_def)

lemma report_active:
  "stat_active now s \<Longrightarrow> \<exists>b. snd (MaybeAppendReportBlockAndReset now s res) = res @ [b] \<and> rb_media_ssrc b = ss_ssrc s"
  by (simp add: stat_active_def MaybeAppendReportBlockAndReset_def Let_def)

lemma rs_ok_put:
  assumes "rs_ok r" "rs_stats r k = Some st"
  shows "rs_ok (r\<lparr>rs_stats := hm_put k (fst (MaybeAppendReportBlockAndReset now st res)) (rs_stats r)\<rparr>)"
  using assms by (auto simp: rs_ok_def hm_put_def)

lemma rs_ok_UpdateCounters:
  "rs_ok r \<Longrightarrow> rs_ok (OnRtpPacket W now p r)"
  by (auto simp: rs_ok_def OnRtpPacket_def GetOrCreateStat_def hm_put_def StreamStat_def Let_def
      split: option.splits)

interpretation rs: inv_system "\<lambda>r (now, p). OnRtpPacket W now p r" rs_ok for W
  by unfold_locales (auto simp: rs_ok_UpdateCounters split: prod.splits)

lemma rs_ok_init: "rs_ok ReceiveStat"
  by (simp add: rs_ok_def ReceiveStat_def)

lemma report_loop_safe:
  assumes "rs_ok r" "k \<le> length (all_ssrcs r)"
  shows "\<exists>r' idx' res'. report_loop now m k i idx r res = Some (r', idx', res') \<and> rs_ok r' \<and>
    all_ssrcs r' = all_ssrcs r \<and> last_returned_ssrc_idx r' = last_returned_ssrc_idx r \<and>
    length res' \<le> max m (length res)"
  using assms
proof (induction k arbitrary: i idx r res)
  case (Suc k)
  let ?j = "(last_returned_ssrc_idx r + 1 + i) mod length (all_ssrcs r)"
  let ?ssrc = "all_ssrcs r ! ?j"
  have "?j < length (all_ssrcs r)" by (rule mod_less_divisor) (use Suc.prems(2) in linarith)
  then have "?ssrc \<in> dom (rs_stats r)" using Suc.prems(1) by (simp add: rs_ok_def)
  then obtain st where st: "rs_stats r ?ssrc = Some st" by blast
  let ?m = "MaybeAppendReportBlockAndReset now st res"
  let ?r = "r\<lparr>rs_stats := hm_put ?ssrc (fst ?m) (rs_stats r)\<rparr>"
  have "length (snd ?m) \<le> Suc (length res)"
    by (simp add: MaybeAppendReportBlockAndReset_def Let_def)
  moreover have "rs_ok ?r" using Suc.prems(1) st by (rule rs_ok_put)
  ultimately show ?case
    using Suc.IH[of ?r "i + 1" ?j "snd ?m"] Suc.prems st
    by (auto simp: Let_def split_def)
qed simp

lemma report_loop_active:
  assumes "rs_ok r" "\<forall>st\<in>ran (rs_stats r). stat_active now st"
    and "i + k = length (all_ssrcs r)" "length res = i" "i \<le> m"
  shows "\<exists>r' bs. report_loop now m k i idx r res =
      Some (r', if k = 0 \<or> m \<le> i then idx
        else (last_returned_ssrc_idx r + min m (length (all_ssrcs r))) mod length (all_ssrcs r), res @ bs) \<and>
    rs_ok r' \<and> all_ssrcs r' = all_ssrcs r \<and> last_returned_ssrc_idx r' = last_returned_ssrc_idx r \<and>
    (\<forall>t. (\<forall>st\<in>ran (rs_stats r). stat_active t st) \<longrightarrow> (\<forall>st\<in>ran (rs_stats r'). stat_active t st)) \<and>
    map rb_media_ssrc bs = map (\<lambda>j. all_ssrcs r ! ((last_returned_ssrc_idx r + 1 + j) mod length (all_ssrcs r)))
      [i..<min m (length (all_ssrcs r))]"
  using assms
proof (induction k arbitrary: i idx r res)
  case (Suc k)
  let ?n = "length (all_ssrcs r)" and ?l = "last_returned_ssrc_idx r"
  show ?case
  proof (cases "m \<le> i")
    case True
    with Suc.prems(4) show ?thesis
      using Suc.prems(1) by auto
  next
    case False
    let ?j = "(?l + 1 + i) mod ?n"
    let ?ssrc = "all_ssrcs r ! ?j"
    have "?j < ?n" by (rule mod_less_divisor) (use Suc.prems(3) in linarith)
    then have "?ssrc \<in> dom (rs_stats r)" using Suc.prems(1) by (simp add: rs_ok_def)
    then obtain st where st: "rs_stats r ?ssrc = Some st" by blast
    then have act: "stat_active now st" "ss_ssrc st = ?ssrc"
      using Suc.prems(1,2) by (auto simp: rs_ok_def ran_def)
    let ?m = "MaybeAppendReportBlockAndReset now st res"
    let ?r = "r\<lparr>rs_stats := hm_put ?ssrc (fst ?m) (rs_stats r)\<rparr>"
    obtain b where b: "snd ?m = res @ [b]" "rb_media_ssrc b = ?ssrc"
      using report_active[OF act(1), of res] act(2) by auto
    have ran: "\<forall>u\<in>ran (rs_stats ?r). stat_active t u" if "\<forall>u\<in>ran (rs_stats r). stat_active t u" for t
      using that st by (auto simp: ran_def hm_put_def)
    have ok: "rs_ok ?r" using Suc.prems(1) st by (rule rs_ok_put)
    obtain r' bs where IH: "report_loop now m k (i + 1) ?j ?r (res @ [b]) = Some (r',
        if k = 0 \<or> m \<le> i + 1 then ?j else (?l + min m ?n) mod ?n, (res @ [b]) @ bs)"
      "rs_ok r'" "all_ssrcs r' = all_ssrcs r" "last_returned_ssrc_idx r' = ?l"
      "\<forall>t. (\<forall>st\<in>ran (rs_stats ?r). stat_active t st) \<longrightarrow> (\<forall>st\<in>ran (rs_stats r'). stat_active t st)"
      "map rb_media_ssrc bs = map (\<lambda>j. all_ssrcs r ! ((?l + 1 + j) mod ?n)) [i + 1..<min m ?n]"
      using Suc.IH[of ?r "i + 1" "res @ [b]" ?j] ok ran[OF Suc.prems(2)] Suc.prems(3,4) False
      by auto
    have idx: "(if k = 0 \<or> m \<le> i + 1 then ?j else (?l + min m ?n) mod ?n) = (?l + min m ?n) mod ?n"
    proof (cases "k = 0 \<or> m \<le> i + 1")
      case True
      then have "?l + 1 + i = ?l + min m ?n" using Suc.prems(3) False by linarith
      then have "?j = (?l + min m ?n) mod ?n" by (rule arg_cong)
      with True show ?thesis by (simp only: if_True)
    qed simp
    have step: "report_loop now m (Suc k) i idx r res = report_loop now m k (i + 1) ?j ?r (res @ [b])"
      using False Suc.prems(4) st b(1) by (simp add: Let_def split_def)
    have upt: "[i..<min m ?n] = i # [i + 1..<min m ?n]"
      using False Suc.prems(3) by (simp add: upt_conv_Cons)
    have "report_loop now m (Suc k) i idx r res = Some (r', (?l + min m ?n) mod ?n, res @ b # bs)"
      unfolding step IH(1) idx by simp
    moreover have "map rb_media_ssrc (b # bs)
        = map (\<lambda>j. all_ssrcs r ! ((?l + 1 + j) mod ?n)) [i..<min m ?n]"
      unfolding upt using IH(6) b(2) by simp
    moreover have "(\<forall>st\<in>ran (rs_stats r). stat_active t st) \<longrightarrow> (\<forall>st\<in>ran (rs_stats r'). stat_active t st)" for t
      using IH(5) ran by blast
    ultimately show ?thesis
      using IH(2-4) False by (intro exI[of _ r'] exI[of _ "b # bs"]) simp
  qed
qed (auto simp: min_def)

text \<open>
  Producing report blocks never dereferences a missing stream and never exceeds the
  requested number of blocks, whatever packets have arrived.
\<close>

theorem report_blocks_safe:
  "\<exists>r' blocks. RtcpReportBlocks t m (run (\<lambda>r (now, p). OnRtpPacket W now p r) ReceiveStat ps)
      = Some (r', blocks) \<and> rs_ok r' \<and> length blocks \<le> m"
proof -
  let ?r = "run (\<lambda>r (now, p). OnRtpPacket W now p r) ReceiveStat ps"
  have "rs_ok ?r" by (rule rs.inv_run[OF rs_ok_init])
  then show ?thesis
    using report_loop_safe[of ?r "length (all_ssrcs ?r)" t m 0 0 "[]"]
    by (auto simp: RtcpReportBlocks_def rs_ok_def)
qed

lemma map_add_upt_left: "map ((+) k) [0..<n] = [k..<k + n]"
  by (induction n) simp_all

fun polls :: "int list \<Rightarrow> nat \<Rightarrow> 'c receive_stat \<Rightarrow> (u32 list) option" where
  "polls [] m r = Some []"
| "polls (t # ts) m r =
     (case RtcpReportBlocks t m r of
        None \<Rightarrow> None
      | Some (r', blocks) \<Rightarrow> map_option (\<lambda>rest. map rb_media_ssrc blocks @ rest) (polls ts m r'))"

lemma polls_window:
  assumes "rs_ok r" "\<forall>t\<in>set ts. \<forall>st\<in>ran (rs_stats r). stat_active t st"
    and "0 < m" "all_ssrcs r \<noteq> []"
  shows "polls ts m r = Some (map (\<lambda>j. all_ssrcs r ! ((last_returned_ssrc_idx r + 1 + j) mod length (all_ssrcs r)))
    [0..<length ts * min m (length (all_ssrcs r))])"
  using assms
proof (induction ts arbitrary: r)
  case (Cons t ts)
  let ?n = "length (all_ssrcs r)" and ?l = "last_returned_ssrc_idx r"
  let ?k = "min m ?n"
  let ?f = "\<lambda>j. all_ssrcs r ! ((?l + 1 + j) mod ?n)"
  obtain r' bs where r': "report_loop t m ?n 0 0 r [] = Some (r', (?l + ?k) mod ?n, bs)"
    "rs_ok r'" "all_ssrcs r' = all_ssrcs r"
    "\<forall>t. (\<forall>st\<in>ran (rs_stats r). stat_active t st) \<longrightarrow> (\<forall>st\<in>ran (rs_stats r'). stat_active t st)"
    "map rb_media_ssrc bs = map ?f [0..<?k]"
    using report_loop_active[of r t 0 ?n "[]" m 0] Cons.prems by auto
  let ?r = "r'\<lparr>last_returned_ssrc_idx := (?l + ?k) mod ?n\<rparr>"
  have "rs_ok ?r" using r'(2) by (simp add: rs_ok_def)
  then have IH: "polls ts m ?r = Some (map (\<lambda>j. all_ssrcs r ! (((?l + ?k) mod ?n + 1 + j) mod ?n)) [0..<length ts * ?k])"
    using Cons.IH[of ?r] r'(3,4) Cons.prems by simp
  have "((?l + ?k) mod ?n + 1 + j) mod ?n = (?l + 1 + (?k + j)) mod ?n" for j
    by (metis (no_types, lifting) add.assoc add.left_commute mod_add_left_eq)
  then have "map (\<lambda>j. all_ssrcs r ! (((?l + ?k) mod ?n + 1 + j) mod ?n)) [0..<length ts * ?k]
      = map ?f (map ((+) ?k) [0..<length ts * ?k])"
    by simp
  also have "map ((+) ?k) [0..<length ts * ?k] = [?k..<?k + length ts * ?k]"
    by (rule map_add_upt_left)
  finally show ?case
    using IH r'(1,5) by (simp add: RtcpReportBlocks_def upt_add_eq_append[of 0 ?k])
qed simp

text \<open>
  C39: the rotation is fair: with all streams active, after enough polls for the block limit
  to cover the number of streams every stream has been reported.
\<close>

theorem report_round_robin_fair:
  assumes "rs_ok r" "\<forall>t\<in>set ts. \<forall>st\<in>ran (rs_stats r). stat_active t st"
    and "0 < m" "length (all_ssrcs r) \<le> length ts * min m (length (all_ssrcs r))"
    and "ssrc \<in> set (all_ssrcs r)"
  shows "\<exists>reported. polls ts m r = Some reported \<and> ssrc \<in> set reported"
proof -
  let ?n = "length (all_ssrcs r)" and ?l = "last_returned_ssrc_idx r"
  obtain t where t: "t < ?n" "all_ssrcs r ! t = ssrc"
    using assms(5) by (auto simp: in_set_conv_nth)
  define j where "j = (t + ?n * (?l + 1) - (?l + 1)) mod ?n"
  have n: "0 < ?n" using t by linarith
  then have "?l + 1 \<le> t + ?n * (?l + 1)"
    by (cases ?n) simp_all
  then have "(?l + 1 + j) mod ?n = (t + ?n * (?l + 1)) mod ?n"
    unfolding j_def by (metis le_add_diff_inverse mod_add_right_eq)
  also have "\<dots> = t"
    using t(1) by (simp only: mod_mult_self2 mod_less)
  finally have j: "(?l + 1 + j) mod ?n = t" .
  have "j < length ts * min m ?n"
    using n assms(4) unfolding j_def by (meson less_le_trans mod_less_divisor)
  moreover have "all_ssrcs r \<noteq> []" using n by auto
  ultimately show ?thesis
    using polls_window[OF assms(1-3)] t(2) j by force
qed

subsection \<open>Concrete streams\<close>

text \<open>
  A concrete library: the unwrapper extends a 16-bit number to the value nearest to the last
  one, the counters count packets.
\<close>

definition demo_lib :: "u32 stat_lib" where
  "demo_lib = \<lparr>UnwrapWithoutUpdate = (\<lambda>last v. case last of None \<Rightarrow> uint v
      | Some l \<Rightarrow> l + sint (v - word_of_int l)),
    CountersEmpty = 0, CountersAddPacket = (\<lambda>p c. c + 1),
    TransmittedPackets = id, RetransmittedPackets = (\<lambda>c. 0)\<rparr>"

definition demo_packet :: "u16 \<Rightarrow> rtp_packet" where
  "demo_packet n = \<lparr>rp_ssrc = 7, rp_sequence_number = n, rp_timestamp = 0, rp_payload_type_frequency = 90000\<rparr>"

lemmas demo_simps = demo_lib_def demo_packet_def StreamStat_def UpdateCounters_def UpdateOutOfOrder_def
  ReceivedRtpPacket_def in_sequence_def kMaxReorderingThreshold_def MaybeAppendReportBlockAndReset_def
  kStreamStatTimeoutMs_def c_div_def Let_def

definition demo_stat :: "u32 stream_stat" where
  "demo_stat = UpdateCounters demo_lib 10 (demo_packet 5) (StreamStat demo_lib 7)"


theorem restart_counts_one_loss_witness:
  "cumulative_loss (UpdateCounters demo_lib 40 (demo_packet 1001) (UpdateCounters demo_lib 30 (demo_packet 1000) demo_stat))
     = cumulative_loss demo_stat + 1"
  using restart_counts_one_loss[of demo_stat demo_lib "demo_packet 1000" "demo_packet 1001" 40 30]
  by (simp add: demo_stat_def demo_simps)


text \<open>The state right after a report.\<close>

definition demo_reported :: "u32 stream_stat" where
  "demo_reported = fst (MaybeAppendReportBlockAndReset 15 demo_stat [])"

lemmas demo_states = demo_stat_def demo_reported_def

lemma demo_reported_eval:
  "demo_reported = \<lparr>ss_ssrc = 7, receive_counters = 1, max_reordering_threshold = 450,
     received_seq_out_of_order = None, seq_unwrapper_last = Some 5, cumulative_loss = 0,
     received_seq_first = 5, received_seq_max = 5, last_report_seq_max = 5,
     last_report_cumulative_loss = 0, cumulative_loss_rtcp_offset = 0,
     cumulative_loss_is_capped = False, last_received_timestamp = 0, last_received_time_ms = 10,
     jitter_q4 = 0\<rparr>"
  by (simp add: demo_simps demo_states)

theorem fraction_lost_of_period_witness:
  "\<exists>b s'. MaybeAppendReportBlockAndReset 35 (stat_run demo_lib demo_reported
      [(20, demo_packet 7), (30, demo_packet 9)]) [] = (s', [b]) \<and>
    uint (rb_fraction_lost b) = 127 \<and> rb_ext_highest_seq_num b = 9"
proof -
  let ?ps = "[(20::int, demo_packet 7), (30, demo_packet 9)]"
  have "regular_run demo_lib demo_reported ?ps" "ReceivedRtpPacket demo_reported"
    "last_received_time_ms (stat_run demo_lib demo_reported ?ps) = 30"
    "received_seq_max (stat_run demo_lib demo_reported ?ps) = 9"
    by (simp_all add: demo_simps demo_reported_eval)
  then show ?thesis
    using fraction_lost_of_period[of demo_reported demo_lib ?ps 35 4]
    by (simp add: demo_reported_eval)
qed

theorem reported_loss_keeps_differences_witness:
  "rb_cumulative_lost (hd (snd (MaybeAppendReportBlockAndReset 35 (stat_run demo_lib demo_reported
      [(20, demo_packet 7), (30, demo_packet 9)]) []))) = 2"
proof -
  let ?r1 = "MaybeAppendReportBlockAndReset 15 demo_stat []"
  let ?r2 = "MaybeAppendReportBlockAndReset 35 (stat_run demo_lib demo_reported
      [(20, demo_packet 7), (30, demo_packet 9)]) []"
  have "?r1 = (fst ?r1, [hd (snd ?r1)])" "?r2 = (fst ?r2, [hd (snd ?r2)])"
    by (simp_all add: demo_simps demo_states)
  moreover have "rb_cumulative_lost (hd (snd ?r1)) = 0" "rb_cumulative_lost (hd (snd ?r2)) < 8388607"
    "cumulative_loss (stat_run demo_lib (fst ?r1) [(20, demo_packet 7), (30, demo_packet 9)]) = 2"
    "cumulative_loss_rtcp_offset (fst ?r1) = 0" "cumulative_loss demo_stat = 0"
    by (simp_all add: demo_simps demo_states)
  ultimately show ?thesis
    using reported_loss_keeps_differences[of 15 demo_stat "fst ?r1" "hd (snd ?r1)" 35 demo_lib
      "[(20, demo_packet 7), (30, demo_packet 9)]" "fst ?r2" "hd (snd ?r2)"]
    by (simp add: demo_reported_def)
qed

theorem jitter_moving_average_witness:
  "uint (jitter_q4 (UpdateJitter (demo_packet 6) 20 demo_stat)) = 900"
  using jitter_moving_average[of demo_stat "demo_packet 6" 20]
  by (simp add: demo_simps demo_states jitter_ok_def jitter_diff_samples_def)

definition demo_streams :: "u32 receive_stat" where
  "demo_streams = OnRtpPacket demo_lib 10 (demo_packet 5)
     (OnRtpPacket demo_lib 10 ((demo_packet 5)\<lparr>rp_ssrc := 9\<rparr>) ReceiveStat)"

theorem report_round_robin_fair_witness:
  "\<exists>reported. polls [20, 30] 1 demo_streams = Some reported \<and> 7 \<in> set reported"
proof -
  have "rs_ok demo_streams"
    unfolding demo_streams_def by (intro rs_ok_UpdateCounters rs_ok_init)
  moreover have "all_ssrcs demo_streams = [9, 7]"
    by (simp add: demo_streams_def OnRtpPacket_def GetOrCreateStat_def ReceiveStat_def demo_simps hm_put_def)
  moreover have "\<forall>t\<in>set [20, 30]. \<forall>st\<in>ran (rs_stats demo_streams). stat_active t st"
    by (auto simp: demo_streams_def OnRtpPacket_def GetOrCreateStat_def ReceiveStat_def demo_simps
        hm_put_def stat_active_def ran_def split: if_splits)
  ultimately show ?thesis
    using report_round_robin_fair[of demo_streams "[20, 30]" 1 7] by simp
qed

end
