(* ===== verification/Wire.thy ===== *)
theory Wire
  imports Prelude
begin

text \<open>
  The byte-level services the STUN code takes from libwebrtc (\<open>rtc_base/byte_buffer.h\<close>,
  \<open>byte_order.h\<close>, \<open>crc32.h\<close>, \<open>message_digest.h\<close>). They are not part of the repository, so
  they are a parameter, the record \<open>wire_lib\<close>: the bytes the writer appends for an integer,
  the reader's operations on the bytes left (\<open>None\<close> is its \<open>false\<close>), the checksum and the
  keyed digest. \<open>wire_ok\<close> states what the code relies on: fixed widths, reading inverts
  writing, reading fails exactly when too few bytes are left. The instance
  \<open>network_order\<close> (big-endian) satisfies it.
\<close>

record wire_lib =
  Enc16 :: "u16 \<Rightarrow> bytes"
  Enc32 :: "u32 \<Rightarrow> bytes"
  Enc64 :: "u64 \<Rightarrow> bytes"
  ReadUInt16 :: "bytes \<Rightarrow> (u16 \<times> bytes) option"
  ReadUInt32 :: "bytes \<Rightarrow> (u32 \<times> bytes) option"
  ReadBytes :: "nat \<Rightarrow> bytes \<Rightarrow> (bytes \<times> bytes) option"
  Consume :: "nat \<Rightarrow> bytes \<Rightarrow> bytes option"
  ComputeCrc32 :: "bytes \<Rightarrow> u32"
  ComputeHmac :: "bytes \<Rightarrow> bytes \<Rightarrow> bytes"

definition int_codec :: "nat \<Rightarrow> ('a \<Rightarrow> bytes) \<Rightarrow> (bytes \<Rightarrow> ('a \<times> bytes) option) \<Rightarrow> bool" where
  "int_codec n enc dec \<longleftrightarrow>
     (\<forall>v. length (enc v) = n) \<and> (\<forall>v r. dec (enc v @ r) = Some (v, r)) \<and>
     (\<forall>b. length b < n \<longrightarrow> dec b = None) \<and>
     (\<forall>b v r. dec b = Some (v, r) \<longrightarrow> b = enc v @ r) \<and>
     (\<forall>b. n \<le> length b \<longrightarrow> dec b \<noteq> None)"

definition wire_ok :: "wire_lib \<Rightarrow> bool" where
  "wire_ok W \<longleftrightarrow>
     int_codec 2 (Enc16 W) (ReadUInt16 W) \<and> int_codec 4 (Enc32 W) (ReadUInt32 W) \<and>
     (\<forall>v. length (Enc64 W v) = 8) \<and>
     (\<forall>n b. ReadBytes W n b = (if n \<le> length b then Some (take n b, drop n b) else None)) \<and>
     (\<forall>n b. Consume W n b = (if n \<le> length b then Some (drop n b) else None)) \<and>
     (\<forall>k m. length (ComputeHmac W k m) = 20)"

lemma int_codecD:
  assumes "int_codec n enc dec"
  shows "length (enc v) = n" "dec (enc v @ r) = Some (v, r)" "length b < n \<Longrightarrow> dec b = None"
    "dec b = Some (v, r) \<Longrightarrow> b = enc v @ r" "n \<le> length b \<Longrightarrow> \<exists>v r. dec b = Some (v, r)"
  using assms by (auto simp: int_codec_def)

lemma wire_okD:
  assumes "wire_ok W"
  shows "int_codec 2 (Enc16 W) (ReadUInt16 W)" "int_codec 4 (Enc32 W) (ReadUInt32 W)"
    "length (Enc64 W v64) = 8"
    "ReadBytes W n b = (if n \<le> length b then Some (take n b, drop n b) else None)"
    "Consume W n b = (if n \<le> length b then Some (drop n b) else None)"
    "length (ComputeHmac W key msg) = 20"
  using assms by (simp_all add: wire_ok_def)

lemma wire_simps' [wire_simps]:
  assumes "wire_ok W"
  shows "length (Enc16 W v16) = 2" "length (Enc32 W v32) = 4" "length (Enc64 W v64) = 8"
    "ReadUInt16 W (Enc16 W v16 @ r) = Some (v16, r)"
    "ReadUInt32 W (Enc32 W v32 @ r) = Some (v32, r)"
    "ReadUInt16 W (Enc16 W v16) = Some (v16, [])"
    "ReadUInt32 W (Enc32 W v32) = Some (v32, [])"
    "ReadBytes W n b = (if n \<le> length b then Some (take n b, drop n b) else None)"
    "Consume W n b = (if n \<le> length b then Some (drop n b) else None)"
    "length (ComputeHmac W key msg) = 20"
  using wire_okD[OF assms] int_codecD(1,2)[OF wire_okD(1)[OF assms]] int_codecD(1,2)[OF wire_okD(2)[OF assms]]
    int_codecD(2)[OF wire_okD(1)[OF assms], of v16 "[]"] int_codecD(2)[OF wire_okD(2)[OF assms], of v32 "[]"]
  by simp_all

lemma ReadUInt16_Some:
  assumes "wire_ok W" "ReadUInt16 W b = Some (v, r)"
  shows "length b = 2 + length r"
  using int_codecD(1,4)[OF wire_okD(1)[OF assms(1)]] assms(2) by fastforce

lemma ReadUInt32_Some:
  assumes "wire_ok W" "ReadUInt32 W b = Some (v, r)"
  shows "length b = 4 + length r"
  using int_codecD(1,4)[OF wire_okD(2)[OF assms(1)]] assms(2) by fastforce

text \<open>\<open>GetBE16\<close> and \<open>GetBE32\<close> read memory without a bound: \<open>None\<close> is a read past its end.\<close>

definition GetBE16 :: "wire_lib \<Rightarrow> bytes \<Rightarrow> nat \<Rightarrow> u16 option" where
  "GetBE16 W data pos = map_option fst (ReadUInt16 W (drop pos data))"

definition GetBE32 :: "wire_lib \<Rightarrow> bytes \<Rightarrow> nat \<Rightarrow> u32 option" where
  "GetBE32 W data pos = map_option fst (ReadUInt32 W (drop pos data))"

definition SetBE16 :: "wire_lib \<Rightarrow> nat \<Rightarrow> u16 \<Rightarrow> bytes \<Rightarrow> bytes" where
  "SetBE16 W pos v data = take pos data @ Enc16 W v @ drop (pos + 2) data"

lemma GetBE16_bound: "wire_ok W \<Longrightarrow> pos + 2 \<le> length data \<Longrightarrow> GetBE16 W data pos \<noteq> None"
  using int_codecD(5)[OF wire_okD(1), of W "drop pos data"] by (auto simp: GetBE16_def)

lemma GetBE16_at [wire_simps]:
  "wire_ok W \<Longrightarrow> length xs = pos \<Longrightarrow> GetBE16 W (xs @ Enc16 W v @ r) pos = Some v"
  by (simp add: GetBE16_def wire_simps)

lemma GetBE32_at [wire_simps]:
  "wire_ok W \<Longrightarrow> length xs = pos \<Longrightarrow> GetBE32 W (xs @ Enc32 W v @ r) pos = Some v"
  by (simp add: GetBE32_def wire_simps)

subsection \<open>Network byte order\<close>

definition be16 :: "u16 \<Rightarrow> bytes" where
  "be16 v = [ucast (drop_bit 8 v), ucast v]"

definition be32 :: "u32 \<Rightarrow> bytes" where
  "be32 v = [ucast (drop_bit 24 v), ucast (drop_bit 16 v), ucast (drop_bit 8 v), ucast v]"

definition be64 :: "u64 \<Rightarrow> bytes" where
  "be64 v = be32 (ucast (drop_bit 32 v)) @ be32 (ucast v)"

fun rd16 :: "bytes \<Rightarrow> (u16 \<times> bytes) option" where
  "rd16 (a # b # r) = Some (push_bit 8 (ucast a) OR ucast b, r)"
| "rd16 _ = None"

fun rd32 :: "bytes \<Rightarrow> (u32 \<times> bytes) option" where
  "rd32 (a # b # c # d # r) =
     Some (push_bit 24 (ucast a) OR push_bit 16 (ucast b) OR push_bit 8 (ucast c) OR ucast d, r)"
| "rd32 _ = None"

definition network_order :: wire_lib where
  "network_order = \<lparr>Enc16 = be16, Enc32 = be32, Enc64 = be64, ReadUInt16 = rd16, ReadUInt32 = rd32,
     ReadBytes = (\<lambda>n b. if n \<le> length b then Some (take n b, drop n b) else None),
     Consume = (\<lambda>n b. if n \<le> length b then Some (drop n b) else None),
     ComputeCrc32 = (\<lambda>b. of_nat (length b)),
     ComputeHmac = (\<lambda>k m. replicate 20 (of_nat (length k + length m)))\<rparr>"

lemma rd16_be16: "rd16 (be16 v @ r) = Some (v, r)"
  unfolding be16_def
  by (simp, intro bit_word_eqI) (auto simp: bit_simps)

lemma be16_rd16: "be16 (push_bit 8 (ucast a) OR ucast b) = [a, b]"
  unfolding be16_def
  by (simp, intro conjI bit_word_eqI) (auto simp: bit_simps dest: bit_imp_le_length)

lemma rd32_be32: "rd32 (be32 v @ r) = Some (v, r)"
  unfolding be32_def
proof (simp, intro bit_word_eqI)
  fix n assume n: "n < LENGTH(32)"
  consider "n < 8" | "8 \<le> n" "n < 16" | "16 \<le> n" "n < 24" | "24 \<le> n" by linarith
  then show "bit (push_bit 24 (ucast (ucast (drop_bit 24 v) :: u8)) OR push_bit 16 (ucast (ucast (drop_bit 16 v) :: u8))
      OR push_bit 8 (ucast (ucast (drop_bit 8 v) :: u8)) OR ucast (ucast v :: u8) :: u32) n = bit v n"
    using n by cases (auto simp: bit_simps)
qed

lemma be32_rd32:
  "be32 (push_bit 24 (ucast a) OR push_bit 16 (ucast b) OR push_bit 8 (ucast c) OR ucast d) = [a, b, c, d]"
  unfolding be32_def
  by (simp, intro conjI bit_word_eqI) (auto simp: bit_simps dest: bit_imp_le_length)

lemma int_codec16: "int_codec 2 be16 rd16"
  unfolding int_codec_def
proof (intro conjI allI impI)
  fix b v r assume "rd16 b = Some (v, r)"
  then show "b = be16 v @ r" by (cases b rule: rd16.cases) (auto simp: be16_rd16)
next
  fix b :: bytes assume "length b < 2"
  then show "rd16 b = None" by (cases b rule: rd16.cases) auto
next
  fix b :: bytes assume "2 \<le> length b"
  then show "rd16 b \<noteq> None" by (cases b rule: rd16.cases) auto
qed (simp add: be16_def, rule rd16_be16)

lemma int_codec32: "int_codec 4 be32 rd32"
  unfolding int_codec_def
proof (intro conjI allI impI)
  fix b v r assume "rd32 b = Some (v, r)"
  then show "b = be32 v @ r" by (cases b rule: rd32.cases) (auto simp: be32_rd32)
next
  fix b :: bytes assume "length b < 4"
  then show "rd32 b = None" by (cases b rule: rd32.cases) auto
next
  fix b :: bytes assume "4 \<le> length b"
  then show "rd32 b \<noteq> None" by (cases b rule: rd32.cases) auto
qed (simp add: be32_def, rule rd32_be32)

lemma network_order_ok: "wire_ok network_order"
  by (simp add: wire_ok_def network_order_def int_codec16 int_codec32 be64_def be32_def)

subsection \<open>Sequences of items\<close>

text \<open>
  A parser that reads one item at a time, keeping some and skipping others:
  \<open>parses get b xs\<close> says that reading to the end of \<open>b\<close> succeeds and keeps \<open>xs\<close>. The
  interface \<open>item_codec\<close> is what a format promises of one item; its lemma lifts it to
  sequences.
\<close>

inductive parses :: "(bytes \<Rightarrow> ('a option \<times> bytes) option) \<Rightarrow> bytes \<Rightarrow> 'a list \<Rightarrow> bool" for get where
  parses_Nil: "parses get [] []"
| parses_skip: "b \<noteq> [] \<Longrightarrow> get b = Some (None, r) \<Longrightarrow> parses get r xs \<Longrightarrow> parses get b xs"
| parses_keep: "b \<noteq> [] \<Longrightarrow> get b = Some (Some x, r) \<Longrightarrow> parses get r xs \<Longrightarrow> parses get b (x # xs)"

inductive_simps parses_empty: "parses get [] xs"

locale item_codec =
  fixes adm :: "'a \<Rightarrow> bool"
    and keep :: "'a \<Rightarrow> bool"
    and put :: "'a \<Rightarrow> bytes"
    and get :: "bytes \<Rightarrow> ('a option \<times> bytes) option"
  assumes put_nonempty: "adm a \<Longrightarrow> put a \<noteq> []"
    and get_put: "adm a \<Longrightarrow> get (put a @ r) = Some (if keep a then Some a else None, r)"
begin

lemma parses_concat:
  assumes "\<forall>a\<in>set as. adm a"
  shows "parses get (concat (map put as)) (filter keep as)"
  using assms
proof (induction as)
  case (Cons a as)
  then have "put a @ concat (map put as) \<noteq> []"
    using put_nonempty by simp
  then show ?case
    using Cons get_put[of a "concat (map put as)"]
    by (auto intro: parses_skip parses_keep)
qed (simp add: parses_Nil)

end

end
