(* ===== verification/Stun.thy ===== *)
theory Stun
  imports Wire
begin

text \<open>
  \<open>ice/stun.h\<close> and \<open>ice/stun.cpp\<close>: STUN attributes and messages, their serialisation and
  parsing, message integrity and fingerprint. A byte buffer is a list of bytes. A method
  that returns \<open>false\<close> while it writes a scratch buffer is \<open>None\<close>; a method of the message
  that returns \<open>false\<close> returns the message as it left it. \<open>validate_result\<close> is \<open>None\<close> when
  the code reads past the end of the received bytes.
\<close>

subsection \<open>Constants\<close>

definition kStunHeaderSize :: nat where "kStunHeaderSize = 20"
definition kStunAttributeHeaderSize :: nat where "kStunAttributeHeaderSize = 4"
definition kStunTransactionIdOffset :: nat where "kStunTransactionIdOffset = 8"
definition kStunTransactionIdLength :: nat where "kStunTransactionIdLength = 12"
definition kStunMagicCookie :: u32 where "kStunMagicCookie = 0x2112A442"
definition kStunMagicCookieLength :: nat where "kStunMagicCookieLength = 4"
definition kStunMessageIntegritySize :: nat where "kStunMessageIntegritySize = 20"
definition kStunTypeMask :: u32 where "kStunTypeMask = 0x0110"
definition STUN_FINGERPRINT_XOR_VALUE :: u32 where "STUN_FINGERPRINT_XOR_VALUE = 0x5354554e"

definition STUN_BINDING_REQUEST :: u16 where "STUN_BINDING_REQUEST = 0x0001"
definition STUN_BINDING_RESPONSE :: u16 where "STUN_BINDING_RESPONSE = 0x0101"
definition STUN_BINDING_ERROR_RESPONSE :: u16 where "STUN_BINDING_ERROR_RESPONSE = 0x0111"

definition STUN_ATTR_USERNAME :: u16 where "STUN_ATTR_USERNAME = 0x0006"
definition STUN_ATTR_MESSAGE_INTEGRITY :: u16 where "STUN_ATTR_MESSAGE_INTEGRITY = 0x0008"
definition STUN_ATTR_ERROR_CODE :: u16 where "STUN_ATTR_ERROR_CODE = 0x0009"
definition STUN_ATTR_XOR_MAPPED_ADDRESS :: u16 where "STUN_ATTR_XOR_MAPPED_ADDRESS = 0x0020"
definition STUN_ATTR_PRIORITY :: u16 where "STUN_ATTR_PRIORITY = 0x0024"
definition STUN_ATTR_USE_CANDIDATE :: u16 where "STUN_ATTR_USE_CANDIDATE = 0x0025"
definition STUN_ATTR_FINGERPRINT :: u16 where "STUN_ATTR_FINGERPRINT = 0x8028"
definition STUN_ATTR_ICE_CONTROLLING :: u16 where "STUN_ATTR_ICE_CONTROLLING = 0x802A"

definition STUN_ERROR_BAD_REQUEST :: int where "STUN_ERROR_BAD_REQUEST = 400"
definition STUN_ERROR_UNAUTHORIZED :: int where "STUN_ERROR_UNAUTHORIZED = 401"
definition STUN_ERROR_UNKNOWN_ATTRIBUTE :: int where "STUN_ERROR_UNKNOWN_ATTRIBUTE = 420"
definition STUN_ERROR_SERVER_ERROR :: int where "STUN_ERROR_SERVER_ERROR = 500"
definition STUN_ERROR_GLOBAL_FAIL :: int where "STUN_ERROR_GLOBAL_FAIL = 600"

lemmas stun_consts = kStunHeaderSize_def kStunAttributeHeaderSize_def kStunTransactionIdOffset_def
  kStunTransactionIdLength_def kStunMagicCookieLength_def kStunMessageIntegritySize_def

lemmas stun_types = STUN_ATTR_USERNAME_def STUN_ATTR_MESSAGE_INTEGRITY_def STUN_ATTR_ERROR_CODE_def
  STUN_ATTR_XOR_MAPPED_ADDRESS_def STUN_ATTR_PRIORITY_def STUN_ATTR_USE_CANDIDATE_def
  STUN_ATTR_FINGERPRINT_def STUN_ATTR_ICE_CONTROLLING_def

subsection \<open>Data\<close>

text \<open>Addresses: an IPv4 address in host order, the 16 bytes of an IPv6 address, or no family.\<close>

datatype ip_addr = IPv4 u32 | IPv6 bytes | IPUnspec

record sock_addr =
  sa_ip :: ip_addr
  sa_port :: u16

datatype attr_value =
    VAddress sock_addr
  | VXorAddress sock_addr
  | VUInt32 u32
  | VUInt64 u64
  | VByteString bytes
  | VErrorCode u8 u8 bytes

record stun_attr =
  at_type :: u16
  at_length :: u16
  at_value :: attr_value

datatype value_type = STUN_VALUE_UNKNOWN | STUN_VALUE_UINT32 | STUN_VALUE_BYTE_STRING

datatype integrity_status = kNotSet | kNoIntegrity | kIntegrityOk | kIntegrityBad

record stun_message =
  sm_type :: u16
  sm_length :: u16
  sm_transaction_id :: bytes
  sm_attrs :: "stun_attr list"
  sm_integrity :: integrity_status
  sm_password :: bytes
  sm_buffer :: bytes

definition StunMessage :: stun_message where
  "StunMessage = \<lparr>sm_type = 0, sm_length = 0, sm_transaction_id = replicate 12 48, sm_attrs = [],
     sm_integrity = kNotSet, sm_password = [], sm_buffer = []\<rparr>"

subsection \<open>Attributes\<close>

datatype stun_family = STUN_ADDRESS_UNDEF | STUN_ADDRESS_IPV4 | STUN_ADDRESS_IPV6

fun address_family :: "sock_addr \<Rightarrow> stun_family" where
  "address_family a = (case sa_ip a of IPv4 _ \<Rightarrow> STUN_ADDRESS_IPV4 | IPv6 _ \<Rightarrow> STUN_ADDRESS_IPV6
     | IPUnspec \<Rightarrow> STUN_ADDRESS_UNDEF)"

fun family_code :: "stun_family \<Rightarrow> u8" where
  "family_code STUN_ADDRESS_UNDEF = 0"
| "family_code STUN_ADDRESS_IPV4 = 1"
| "family_code STUN_ADDRESS_IPV6 = 2"

fun address_length :: "sock_addr \<Rightarrow> u16" where
  "address_length a = (case address_family a of STUN_ADDRESS_IPV4 \<Rightarrow> 8 | STUN_ADDRESS_IPV6 \<Rightarrow> 20
     | STUN_ADDRESS_UNDEF \<Rightarrow> 0)"

definition StunAddressAttribute :: "u16 \<Rightarrow> sock_addr \<Rightarrow> stun_attr" where
  "StunAddressAttribute t a = \<lparr>at_type = t, at_length = address_length a, at_value = VAddress a\<rparr>"

definition StunXorAddressAttribute :: "u16 \<Rightarrow> sock_addr \<Rightarrow> stun_attr" where
  "StunXorAddressAttribute t a = \<lparr>at_type = t, at_length = address_length a, at_value = VXorAddress a\<rparr>"

definition StunUInt32Attribute :: "u16 \<Rightarrow> u32 \<Rightarrow> stun_attr" where
  "StunUInt32Attribute t v = \<lparr>at_type = t, at_length = 4, at_value = VUInt32 v\<rparr>"

definition StunUInt64Attribute :: "u16 \<Rightarrow> u64 \<Rightarrow> stun_attr" where
  "StunUInt64Attribute t v = \<lparr>at_type = t, at_length = 8, at_value = VUInt64 v\<rparr>"

definition CopyBytes :: "bytes \<Rightarrow> stun_attr \<Rightarrow> stun_attr" where
  "CopyBytes bs a = a\<lparr>at_value := VByteString bs, at_length := of_nat (length bs)\<rparr>"

definition StunByteStringAttribute :: "u16 \<Rightarrow> bytes \<Rightarrow> stun_attr" where
  "StunByteStringAttribute t bs =
     CopyBytes bs \<lparr>at_type = t, at_length = 0, at_value = VByteString []\<rparr>"

definition CreateErrorCode :: stun_attr where
  "CreateErrorCode = \<lparr>at_type = STUN_ATTR_ERROR_CODE, at_length = 4, at_value = VErrorCode 0 0 []\<rparr>"

fun set_code :: "int \<Rightarrow> stun_attr \<Rightarrow> stun_attr" where
  "set_code c a = (case at_value a of
     VErrorCode _ _ reason \<Rightarrow>
       a\<lparr>at_value := VErrorCode (word_of_int (c_div c 100)) (word_of_int (c - 100 * c_div c 100)) reason\<rparr>
   | _ \<Rightarrow> a)"

fun set_reason :: "bytes \<Rightarrow> stun_attr \<Rightarrow> stun_attr" where
  "set_reason r a = (case at_value a of
     VErrorCode c n _ \<Rightarrow> a\<lparr>at_value := VErrorCode c n r, at_length := of_nat (4 + length r)\<rparr>
   | _ \<Rightarrow> a)"

fun attr_code :: "stun_attr \<Rightarrow> int" where
  "attr_code a = (case at_value a of VErrorCode c n _ \<Rightarrow> uint c * 100 + uint n | _ \<Rightarrow> 0)"

text \<open>Padding to a multiple of four; \<open>padded\<close> is the rounded size on \<open>size_t\<close>.\<close>

definition padded :: "nat \<Rightarrow> nat" where
  "padded n = (if n mod 4 \<noteq> 0 then n + (4 - n mod 4) else n)"

definition WritePadding :: "u16 \<Rightarrow> bytes" where
  "WritePadding len = (let remain = unat len mod 4 in if remain > 0 then replicate (4 - remain) 0 else [])"

definition ConsumePadding :: "wire_lib \<Rightarrow> u16 \<Rightarrow> bytes \<Rightarrow> bytes" where
  "ConsumePadding W len buf =
     (let remain = unat len mod 4 in
      if remain > 0 then (case Consume W (4 - remain) buf of Some r \<Rightarrow> r | None \<Rightarrow> buf) else buf)"

definition GetXoredIP :: "sock_addr \<Rightarrow> ip_addr" where
  "GetXoredIP a = (case sa_ip a of IPv4 v \<Rightarrow> IPv4 (v XOR kStunMagicCookie) | _ \<Rightarrow> IPUnspec)"

fun write_ip :: "wire_lib \<Rightarrow> ip_addr \<Rightarrow> bytes option" where
  "write_ip W (IPv4 v) = Some (Enc32 W v)"
| "write_ip W (IPv6 bs) = Some bs"
| "write_ip W IPUnspec = None"

fun write_attr :: "wire_lib \<Rightarrow> stun_attr \<Rightarrow> bytes option" where
  "write_attr W a = (case at_value a of
     VAddress s \<Rightarrow>
       (if address_family s = STUN_ADDRESS_UNDEF then None
        else map_option (\<lambda>ip. [0, family_code (address_family s)] @ Enc16 W (sa_port s) @ ip)
               (write_ip W (sa_ip s)))
   | VXorAddress s \<Rightarrow>
       (if address_family s = STUN_ADDRESS_UNDEF then None
        else if GetXoredIP s = IPUnspec then None
        else map_option (\<lambda>ip. [0, family_code (address_family s)] @
                 Enc16 W (sa_port s XOR ucast (drop_bit 16 kStunMagicCookie)) @ ip)
               (write_ip W (GetXoredIP s)))
   | VUInt32 v \<Rightarrow> Some (Enc32 W v)
   | VUInt64 v \<Rightarrow> Some (Enc64 W v)
   | VByteString bs \<Rightarrow> Some (take (unat (at_length a)) bs @ WritePadding (at_length a))
   | VErrorCode c n reason \<Rightarrow>
       Some (Enc32 W (push_bit 8 (ucast c) OR ucast n) @ reason @ WritePadding (at_length a)))"

text \<open>
  \<open>StunAttribute::Create\<close> and the virtual \<open>Read\<close>. A 32-bit attribute is created with the
  length 4, whatever length the header gave.
\<close>

fun GetAttributeValueType :: "u16 \<Rightarrow> value_type" where
  "GetAttributeValueType t =
     (if t = STUN_ATTR_USERNAME then STUN_VALUE_BYTE_STRING
      else if t = STUN_ATTR_MESSAGE_INTEGRITY then STUN_VALUE_BYTE_STRING
      else if t = STUN_ATTR_PRIORITY then STUN_VALUE_UINT32
      else STUN_VALUE_UNKNOWN)"

fun CreateAttribute :: "u16 \<Rightarrow> u16 \<Rightarrow> stun_attr option" where
  "CreateAttribute t len = (case GetAttributeValueType t of
     STUN_VALUE_UNKNOWN \<Rightarrow> None
   | STUN_VALUE_BYTE_STRING \<Rightarrow> Some \<lparr>at_type = t, at_length = len, at_value = VByteString []\<rparr>
   | STUN_VALUE_UINT32 \<Rightarrow> Some \<lparr>at_type = t, at_length = 4, at_value = VUInt32 0\<rparr>)"

fun read_attr :: "wire_lib \<Rightarrow> stun_attr \<Rightarrow> bytes \<Rightarrow> (stun_attr \<times> bytes) option" where
  "read_attr W a buf = (case at_value a of
     VUInt32 _ \<Rightarrow>
       (if at_length a \<noteq> 4 then None
        else map_option (\<lambda>(v, r). (a\<lparr>at_value := VUInt32 v\<rparr>, r)) (ReadUInt32 W buf))
   | VByteString _ \<Rightarrow>
       map_option (\<lambda>(bs, r). (a\<lparr>at_value := VByteString bs\<rparr>, ConsumePadding W (at_length a) r))
         (ReadBytes W (unat (at_length a)) buf)
   | VErrorCode _ _ _ \<Rightarrow> None
   | _ \<Rightarrow> Some (a, buf))"

subsection \<open>Messages\<close>

definition AddAttribute :: "stun_attr \<Rightarrow> stun_message \<Rightarrow> stun_message" where
  "AddAttribute a m = m\<lparr>sm_length := sm_length m + of_nat (padded (unat (at_length a)) + kStunAttributeHeaderSize),
     sm_attrs := sm_attrs m @ [a]\<rparr>"

fun write_attrs :: "wire_lib \<Rightarrow> stun_attr list \<Rightarrow> bytes option" where
  "write_attrs W [] = Some []"
| "write_attrs W (a # as) = (case write_attr W a of
     None \<Rightarrow> None
   | Some v \<Rightarrow> map_option (\<lambda>r. Enc16 W (at_type a) @ Enc16 W (at_length a) @ v @ r) (write_attrs W as))"

definition write_header :: "wire_lib \<Rightarrow> u16 \<Rightarrow> u16 \<Rightarrow> bytes \<Rightarrow> bytes" where
  "write_header W t len tid = Enc16 W t @ Enc16 W len @ Enc32 W kStunMagicCookie @ tid"

definition Write :: "wire_lib \<Rightarrow> stun_message \<Rightarrow> bytes option" where
  "Write W m = map_option (\<lambda>r. write_header W (sm_type m) (sm_length m) (sm_transaction_id m) @ r)
     (write_attrs W (sm_attrs m))"

text \<open>
  One round of the parsing loop: \<open>Some (None, r)\<close> skips an attribute of unknown type. The
  padded length of a skipped attribute is computed on 16 bits.
\<close>

definition read_one :: "wire_lib \<Rightarrow> bytes \<Rightarrow> (stun_attr option \<times> bytes) option" where
  "read_one W buf = (case ReadUInt16 W buf of
     None \<Rightarrow> None
   | Some (attr_type, b1) \<Rightarrow> (case ReadUInt16 W b1 of
       None \<Rightarrow> None
     | Some (attr_length, b2) \<Rightarrow> (case CreateAttribute attr_type attr_length of
         None \<Rightarrow>
           let len = (if attr_length mod 4 \<noteq> 0 then attr_length + (4 - attr_length mod 4) else attr_length)
           in map_option (\<lambda>r. (None, r)) (Consume W (unat len) b2)
       | Some a \<Rightarrow> map_option (\<lambda>(a', r). (Some a', r)) (read_attr W a b2))))"

text \<open>
  The loop itself: \<open>None\<close> means the fuel ran out, otherwise the result of the loop (\<open>False\<close>
  for a return from inside it), the attributes collected and the bytes left.
\<close>

fun read_attrs :: "wire_lib \<Rightarrow> nat \<Rightarrow> bytes \<Rightarrow> stun_attr list \<Rightarrow> (bool \<times> stun_attr list \<times> bytes) option" where
  "read_attrs W fuel buf as =
     (if buf = [] then Some (True, as, buf)
      else (case fuel of
         0 \<Rightarrow> None
       | Suc k \<Rightarrow> (case read_one W buf of
           None \<Rightarrow> Some (False, as, buf)
         | Some (None, r) \<Rightarrow> read_attrs W k r as
         | Some (Some a, r) \<Rightarrow> read_attrs W k r (as @ [a]))))"

declare read_attrs.simps [simp del]

definition Read :: "wire_lib \<Rightarrow> bytes \<Rightarrow> stun_message \<Rightarrow> (bool \<times> stun_message \<times> bytes) option" where
  "Read W buf m =
     (let m0 = m\<lparr>sm_buffer := buf\<rparr> in
      case ReadUInt16 W buf of
        None \<Rightarrow> Some (False, m0, buf)
      | Some (t, b1) \<Rightarrow>
        let m1 = m0\<lparr>sm_type := t\<rparr> in
        if t AND 0x8000 \<noteq> 0 then Some (False, m1, b1)
        else (case ReadUInt16 W b1 of
          None \<Rightarrow> Some (False, m1, b1)
        | Some (len, b2) \<Rightarrow>
          let m2 = m1\<lparr>sm_length := len\<rparr> in
          (case ReadBytes W kStunMagicCookieLength b2 of
            None \<Rightarrow> Some (False, m2, b2)
          | Some (magic_cookie, b3) \<Rightarrow>
            (case ReadBytes W kStunTransactionIdLength b3 of
              None \<Rightarrow> Some (False, m2, b3)
            | Some (transaction_id, b4) \<Rightarrow>
              let tid = (if GetBE32 W magic_cookie 0 \<noteq> Some kStunMagicCookie
                         then magic_cookie @ transaction_id else transaction_id);
                  m3 = m2\<lparr>sm_transaction_id := tid\<rparr>
              in if length b4 \<noteq> unat len then Some (False, m3, b4)
                 else map_option (\<lambda>(ok, as, r). (ok, m3\<lparr>sm_attrs := as\<rparr>, r))
                        (read_attrs W (length b4) b4 [])))))"

fun GetAttribute :: "u16 \<Rightarrow> stun_attr list \<Rightarrow> stun_attr option" where
  "GetAttribute t [] = None"
| "GetAttribute t (a # as) = (if at_type a = t then Some a else GetAttribute t as)"

definition GetUInt32 :: "u16 \<Rightarrow> stun_message \<Rightarrow> stun_attr option" where
  "GetUInt32 t m = GetAttribute t (sm_attrs m)"

definition GetByteString :: "u16 \<Rightarrow> stun_message \<Rightarrow> stun_attr option" where
  "GetByteString t m = GetAttribute t (sm_attrs m)"

definition GetErrorCodeValue :: "stun_message \<Rightarrow> int" where
  "GetErrorCodeValue m = (case GetAttribute STUN_ATTR_ERROR_CODE (sm_attrs m) of
     Some a \<Rightarrow> attr_code a
   | None \<Rightarrow> STUN_ERROR_GLOBAL_FAIL)"

definition IsStunRequestType :: "u32 \<Rightarrow> bool" where
  "IsStunRequestType t \<longleftrightarrow> t AND kStunTypeMask = 0"

definition GetStunSuccessResponse :: "u32 \<Rightarrow> u32" where
  "GetStunSuccessResponse t = (if IsStunRequestType t then t OR 0x100 else - 1)"

definition GetStunErrorResponse :: "u32 \<Rightarrow> u32" where
  "GetStunErrorResponse t = (if IsStunRequestType t then t OR 0x110 else - 1)"

subsection \<open>Fingerprint\<close>

definition ValidateFingerprint :: "wire_lib \<Rightarrow> bytes \<Rightarrow> bool" where
  "ValidateFingerprint W data =
     (let len = length data; fingerprint_attr_size = kStunAttributeHeaderSize + 4 in
      if len mod 4 \<noteq> 0 \<or> len < kStunHeaderSize + fingerprint_attr_size then False
      else if GetBE32 W data (kStunTransactionIdOffset - kStunMagicCookieLength) \<noteq> Some kStunMagicCookie
      then False
      else
        let attr_pos = len - fingerprint_attr_size in
        if GetBE16 W data attr_pos \<noteq> Some STUN_ATTR_FINGERPRINT \<or> GetBE16 W data (attr_pos + 2) \<noteq> Some 4
        then False
        else map_option (\<lambda>fp. fp XOR STUN_FINGERPRINT_XOR_VALUE) (GetBE32 W data (attr_pos + kStunAttributeHeaderSize))
               = Some (ComputeCrc32 W (take attr_pos data)))"

text \<open>The methods that add an attribute and fill it in write through a pointer to the last one.\<close>

definition update_last :: "('a \<Rightarrow> 'a) \<Rightarrow> 'a list \<Rightarrow> 'a list" where
  "update_last f xs = (if xs = [] then [] else butlast xs @ [f (last xs)])"

definition AddFingerprint :: "wire_lib \<Rightarrow> stun_message \<Rightarrow> bool \<times> stun_message" where
  "AddFingerprint W m =
     (let m1 = AddAttribute (StunUInt32Attribute STUN_ATTR_FINGERPRINT 0) m in
      case Write W m1 of
        None \<Rightarrow> (False, m1)
      | Some buf \<Rightarrow>
          let c = ComputeCrc32 W (take (length buf - kStunAttributeHeaderSize - 4) buf)
          in (True, m1\<lparr>sm_attrs := update_last (\<lambda>a. a\<lparr>at_value := VUInt32 (c XOR STUN_FINGERPRINT_XOR_VALUE)\<rparr>)
                         (sm_attrs m1)\<rparr>))"

subsection \<open>Message integrity\<close>

definition AddMessageIntegrity :: "wire_lib \<Rightarrow> bytes \<Rightarrow> stun_message \<Rightarrow> bool \<times> stun_message" where
  "AddMessageIntegrity W key m =
     (let mi = StunByteStringAttribute STUN_ATTR_MESSAGE_INTEGRITY (replicate kStunMessageIntegritySize 48);
          m1 = AddAttribute mi m in
      case Write W m1 of
        None \<Rightarrow> (False, m1)
      | Some buf \<Rightarrow>
          let msg_len_for_hmac = length buf - kStunAttributeHeaderSize - unat (at_length mi);
              hmac = ComputeHmac W key (take msg_len_for_hmac buf)
          in if length hmac \<noteq> kStunMessageIntegritySize then (False, m1)
             else (True, m1\<lparr>sm_attrs := update_last (CopyBytes hmac) (sm_attrs m1), sm_password := key,
                            sm_integrity := kIntegrityOk\<rparr>))"

text \<open>
  The search for the attribute: the result's boolean says whether it was found, at the
  position returned; \<open>None\<close> is a read past the end.
\<close>

function find_attr :: "wire_lib \<Rightarrow> u16 \<Rightarrow> bytes \<Rightarrow> nat \<Rightarrow> (bool \<times> nat) option" where
  "find_attr W t data pos =
     (if pos + kStunAttributeHeaderSize \<le> length data then
        (case GetBE16 W data pos of
           None \<Rightarrow> None
         | Some attr_type \<Rightarrow> (case GetBE16 W data (pos + 2) of
             None \<Rightarrow> None
           | Some attr_length \<Rightarrow>
               if attr_type = t then Some (True, pos)
               else find_attr W t data (pos + kStunAttributeHeaderSize + padded (unat attr_length))))
      else Some (False, pos))"
  by pat_completeness auto
termination
  by (relation "measure (\<lambda>(W, t, data, pos). length data - pos)")
    (auto simp: kStunAttributeHeaderSize_def padded_def)

declare find_attr.simps [simp del]

definition ValidateMessageIntegrityOfType :: "wire_lib \<Rightarrow> u16 \<Rightarrow> nat \<Rightarrow> bytes \<Rightarrow> bytes \<Rightarrow> bool option" where
  "ValidateMessageIntegrityOfType W mi_type mi_size data password =
     (let size = length data in
      if size mod 4 \<noteq> 0 \<or> size < kStunHeaderSize then Some False
      else (case GetBE16 W data 2 of
        None \<Rightarrow> None
      | Some len \<Rightarrow>
        if unat len + kStunHeaderSize \<noteq> size then Some False
        else (case find_attr W mi_type data kStunHeaderSize of
          None \<Rightarrow> None
        | Some (False, _) \<Rightarrow> Some False
        | Some (True, mi_pos) \<Rightarrow>
          let attr_end = mi_pos + kStunAttributeHeaderSize + mi_size;
              temp = take mi_pos data;
              temp' = (if size > attr_end
                       then SetBE16 W 2 (of_nat (size - (size - attr_end) - kStunHeaderSize)) temp
                       else temp);
              hmac = ComputeHmac W password temp'
          in if length hmac \<noteq> kStunMessageIntegritySize then Some False
             else if size < attr_end then None
             else Some (take mi_size (drop (mi_pos + kStunAttributeHeaderSize) data) = take mi_size hmac))))"

definition ValidateMessageIntegrity :: "wire_lib \<Rightarrow> bytes \<Rightarrow> stun_message \<Rightarrow> stun_message option" where
  "ValidateMessageIntegrity W password m =
     (let m1 = m\<lparr>sm_password := password\<rparr> in
      case GetByteString STUN_ATTR_MESSAGE_INTEGRITY m1 of
        None \<Rightarrow> Some (m1\<lparr>sm_integrity := kNoIntegrity\<rparr>)
      | Some _ \<Rightarrow>
          map_option (\<lambda>ok. m1\<lparr>sm_integrity := if ok then kIntegrityOk else kIntegrityBad\<rparr>)
            (ValidateMessageIntegrityOfType W STUN_ATTR_MESSAGE_INTEGRITY kStunMessageIntegritySize
               (sm_buffer m1) password))"

end
