(* ===== verification/StunProps.thy ===== *)
theory StunProps
  imports Stun
begin

text \<open>
  Correctness of the STUN codec: messages built with \<open>AddAttribute\<close> have the right length
  field, parsing inverts serialisation up to the attribute types the server ignores, a
  message signed by \<open>AddMessageIntegrity\<close> and closed by \<open>AddFingerprint\<close> is accepted by both
  validators at the receiver, and the parser returns on every input.
\<close>

subsection \<open>Serialised attributes\<close>

definition value_ok :: "u16 \<Rightarrow> attr_value \<Rightarrow> bool" where
  "value_ok len v = (case v of
     VAddress s \<Rightarrow> (case sa_ip s of IPv4 _ \<Rightarrow> len = 8 | IPv6 bs \<Rightarrow> len = 20 \<and> length bs = 16 | IPUnspec \<Rightarrow> False)
   | VXorAddress s \<Rightarrow> (case sa_ip s of IPv4 _ \<Rightarrow> len = 8 | _ \<Rightarrow> False)
   | VUInt32 _ \<Rightarrow> len = 4
   | VUInt64 _ \<Rightarrow> len = 8
   | VByteString bs \<Rightarrow> unat len = length bs
   | VErrorCode _ _ r \<Rightarrow> unat len = 4 + length r)"

definition attr_ok :: "stun_attr \<Rightarrow> bool" where
  "attr_ok a \<longleftrightarrow> value_ok (at_length a) (at_value a) \<and> padded (unat (at_length a)) < 65536 \<and>
     (case GetAttributeValueType (at_type a) of
        STUN_VALUE_UNKNOWN \<Rightarrow> True
      | STUN_VALUE_UINT32 \<Rightarrow> \<exists>v. at_value a = VUInt32 v
      | STUN_VALUE_BYTE_STRING \<Rightarrow> \<exists>bs. at_value a = VByteString bs)"

definition attr_known :: "stun_attr \<Rightarrow> bool" where
  "attr_known a \<longleftrightarrow> GetAttributeValueType (at_type a) \<noteq> STUN_VALUE_UNKNOWN"

definition enc_attr :: "wire_lib \<Rightarrow> stun_attr \<Rightarrow> bytes" where
  "enc_attr W a = Enc16 W (at_type a) @ Enc16 W (at_length a) @ the (write_attr W a)"

definition attr_size :: "stun_attr \<Rightarrow> nat" where
  "attr_size a = padded (unat (at_length a)) + kStunAttributeHeaderSize"

lemma padded_mod: "padded n mod 4 = 0"
  unfolding padded_def by presburger

lemma padded_cases:
  obtains "n mod 4 = 0" "padded n = n" | "n mod 4 \<noteq> 0" "padded n = n + (4 - n mod 4)"
  by (auto simp: padded_def split: if_splits)

lemma length_WritePadding: "unat len + length (WritePadding len) = padded (unat len)"
  by (simp add: WritePadding_def padded_def Let_def)

lemma write_attr_ok:
  assumes "wire_ok W" "attr_ok a"
  shows "\<exists>v. write_attr W a = Some v \<and> length v = padded (unat (at_length a))"
  using assms length_WritePadding[of "at_length a"]
  by (cases "at_value a")
    (auto simp: attr_ok_def value_ok_def wire_simps GetXoredIP_def padded_def add.assoc
      split: ip_addr.splits)

lemma enc_attr_length:
  "wire_ok W \<Longrightarrow> attr_ok a \<Longrightarrow> length (enc_attr W a) = attr_size a"
  using write_attr_ok[of W a] by (auto simp: enc_attr_def attr_size_def kStunAttributeHeaderSize_def wire_simps)

lemma write_attrs_concat:
  assumes "wire_ok W" "\<forall>a\<in>set as. attr_ok a"
  shows "write_attrs W as = Some (concat (map (enc_attr W) as))"
  using assms(2)
proof (induction as)
  case (Cons a as)
  then show ?case
    using write_attr_ok[OF assms(1), of a] by (auto simp: enc_attr_def simp del: write_attr.simps)
qed simp

lemma length_concat_enc:
  assumes "wire_ok W" "\<forall>a\<in>set as. attr_ok a"
  shows "length (concat (map (enc_attr W) as)) = sum_list (map attr_size as)"
  using assms(2) by (induction as) (simp_all add: enc_attr_length assms(1))

subsection \<open>Parsing one attribute\<close>

lemma ConsumePadding_written:
  assumes "wire_ok W"
  shows "ConsumePadding W len (WritePadding len @ r) = r"
  by (simp add: ConsumePadding_def WritePadding_def Let_def wire_simps[OF assms])

lemma pad16:
  assumes "padded (unat len) < 65536"
  shows "unat (if len mod 4 \<noteq> 0 then len + (4 - len mod 4) else len :: u16) = padded (unat len)"
proof (cases "len mod 4 = 0")
  case True
  then have "unat len mod 4 = 0" using unat_mod_distrib[of len 4] by simp
  with True show ?thesis by (simp add: padded_def)
next
  case False
  have m: "unat (len mod 4) = unat len mod 4" by (simp add: unat_mod_distrib)
  then have nz: "unat len mod 4 \<noteq> 0" using False unat_eq_0 by metis
  have "unat (4 - len mod 4) = 4 - unat len mod 4"
    by (subst unat_sub) (simp_all add: m word_le_nat_alt)
  with False nz assms show ?thesis
    by (simp add: unat_word_ariths padded_def)
qed

lemma read_one_enc:
  assumes W: "wire_ok W" and a: "attr_ok a"
  shows "read_one W (enc_attr W a @ r) = Some (if attr_known a then Some a else None, r)"
proof (cases "GetAttributeValueType (at_type a)")
  case STUN_VALUE_UNKNOWN
  obtain v where "write_attr W a = Some v" "length v = padded (unat (at_length a))"
    using write_attr_ok[OF assms] by blast
  then show ?thesis
    using STUN_VALUE_UNKNOWN a pad16[of "at_length a"]
    by (simp add: read_one_def enc_attr_def wire_simps[OF W] attr_known_def Let_def attr_ok_def
        del: GetAttributeValueType.simps write_attr.simps)
next
  case STUN_VALUE_UINT32
  then obtain v where "at_value a = VUInt32 v" "at_length a = 4"
    using a by (auto simp: attr_ok_def value_ok_def simp del: GetAttributeValueType.simps)
  then show ?thesis
    using STUN_VALUE_UINT32
    by (simp add: read_one_def enc_attr_def wire_simps[OF W] attr_known_def
        del: GetAttributeValueType.simps)
next
  case STUN_VALUE_BYTE_STRING
  then obtain bs where "at_value a = VByteString bs" "unat (at_length a) = length bs"
    using a by (auto simp: attr_ok_def value_ok_def simp del: GetAttributeValueType.simps)
  then show ?thesis
    using STUN_VALUE_BYTE_STRING
    by (simp add: read_one_def enc_attr_def wire_simps[OF W] attr_known_def ConsumePadding_written[OF W]
        del: GetAttributeValueType.simps)
qed

interpretation stun: item_codec "\<lambda>a. wire_ok W \<and> attr_ok a" attr_known "enc_attr W" "read_one W" for W
proof unfold_locales
  fix a assume "wire_ok W \<and> attr_ok a"
  then have "length (enc_attr W a) \<noteq> 0"
    by (simp add: enc_attr_length attr_size_def kStunAttributeHeaderSize_def)
  then show "enc_attr W a \<noteq> []" by auto
qed (simp add: read_one_enc)

lemma read_one_shorter:
  assumes "wire_ok W" "read_one W b = Some (x, r)"
  shows "length r < length b"
proof -
  obtain t b1 l b2 where b: "ReadUInt16 W b = Some (t, b1)" "ReadUInt16 W b1 = Some (l, b2)"
    using assms(2) by (auto simp: read_one_def split: option.splits)
  then have len: "length b = length b2 + 4"
    using ReadUInt16_Some[OF assms(1)] by fastforce
  have "length r \<le> length b2"
    using assms b
    by (auto simp: read_one_def ConsumePadding_def Let_def wire_simps dest!: ReadUInt32_Some
        split: option.splits attr_value.splits if_splits value_type.splits)
  then show ?thesis using len by simp
qed

lemma read_attrs_total:
  assumes "wire_ok W" "length b \<le> fuel"
  shows "read_attrs W fuel b as \<noteq> None"
  using assms(2)
proof (induction fuel arbitrary: b as)
  case (Suc k)
  show ?case
  proof (cases "b = [] \<or> read_one W b = None")
    case False
    then obtain x r where x: "read_one W b = Some (x, r)" by auto
    then have "length r \<le> k" using read_one_shorter[OF assms(1) x] Suc.prems by simp
    then show ?thesis
      using Suc.IH x False by (subst read_attrs.simps) (cases x, simp_all)
  qed (subst read_attrs.simps, cases "b = []", simp_all)
qed (simp add: read_attrs.simps)

lemma read_attrs_parses:
  assumes "wire_ok W" "parses (read_one W) b xs" "length b \<le> fuel"
  shows "read_attrs W fuel b as = Some (True, as @ xs, [])"
  using assms(2,3)
proof (induction arbitrary: fuel as rule: parses.induct)
  case (parses_skip b r xs)
  then obtain k where "fuel = Suc k" "length r \<le> k"
    using read_one_shorter[OF assms(1)] by (cases fuel) fastforce+
  then show ?case using parses_skip by (subst read_attrs.simps) simp
next
  case (parses_keep b x r xs)
  then obtain k where "fuel = Suc k" "length r \<le> k"
    using read_one_shorter[OF assms(1)] by (cases fuel) fastforce+
  then show ?case using parses_keep by (subst read_attrs.simps) simp
qed (simp add: read_attrs.simps)

subsection \<open>Messages\<close>

text \<open>
  A well-formed message: the attributes are well-formed, the transaction id has 12 bytes,
  the two top bits of the type are clear and the length field is the size of the
  attributes, which fits it.
\<close>

definition attrs_size :: "stun_attr list \<Rightarrow> nat" where
  "attrs_size as = sum_list (map attr_size as)"

definition msg_ok :: "stun_message \<Rightarrow> bool" where
  "msg_ok m \<longleftrightarrow> (\<forall>a\<in>set (sm_attrs m). attr_ok a) \<and> length (sm_transaction_id m) = kStunTransactionIdLength \<and>
     sm_type m AND 0x8000 = 0 \<and> unat (sm_length m) = attrs_size (sm_attrs m)"

lemma attr_size_mod: "attr_size a mod 4 = 0"
  using padded_mod[of "unat (at_length a)"] by (simp add: attr_size_def kStunAttributeHeaderSize_def mod_add_eq[symmetric])

lemma attrs_size_mod: "attrs_size as mod 4 = 0"
  by (induction as) (simp_all add: attrs_size_def attr_size_mod mod_add_eq[symmetric])

lemma attrs_size_append [simp]: "attrs_size (as @ bs) = attrs_size as + attrs_size bs"
  by (simp add: attrs_size_def)

lemma unat_add_of_nat: "unat (x :: u16) + n < 65536 \<Longrightarrow> unat (x + of_nat n) = unat x + n"
  by (simp add: unat_word_ariths unat_of_nat)

lemma msg_ok_AddAttribute:
  assumes "msg_ok m" "attr_ok a" "attrs_size (sm_attrs m) + attr_size a < 65536"
  shows "msg_ok (AddAttribute a m)"
  using assms unat_add_of_nat[of "sm_length m" "attr_size a"]
  by (simp add: msg_ok_def AddAttribute_def attr_size_def attrs_size_def)

lemma length_write_header:
  "wire_ok W \<Longrightarrow> length tid = kStunTransactionIdLength \<Longrightarrow> length (write_header W t len tid) = kStunHeaderSize"
  by (simp add: write_header_def wire_simps stun_consts)

lemma Write_ok:
  assumes "wire_ok W" "msg_ok m"
  shows "Write W m = Some (write_header W (sm_type m) (sm_length m) (sm_transaction_id m) @
    concat (map (enc_attr W) (sm_attrs m)))"
  using assms write_attrs_concat[of W "sm_attrs m"] by (simp add: Write_def msg_ok_def)

lemma Read_header:
  assumes "wire_ok W" "length tid = kStunTransactionIdLength" "t AND 0x8000 = 0" "length body = unat len"
  shows "Read W (write_header W t len tid @ body) m =
    map_option (\<lambda>(ok, as, r). (ok, m\<lparr>sm_buffer := write_header W t len tid @ body, sm_type := t,
        sm_length := len, sm_transaction_id := tid, sm_attrs := as\<rparr>, r))
      (read_attrs W (length body) body [])"
proof -
  have "GetBE32 W (Enc32 W kStunMagicCookie) 0 = Some kStunMagicCookie"
    using GetBE32_at[OF assms(1), of "[]" 0 kStunMagicCookie "[]"] by simp
  then show ?thesis
    using assms(2-4)
    by (simp add: Read_def write_header_def wire_simps[OF assms(1)] stun_consts Let_def)
qed

text \<open>
  A message composed with \<open>AddAttribute\<close> (of attributes that fit) is written with a length
  field that counts the padded attributes exactly, and is \<open>20 + length\<close> bytes long.
\<close>

theorem stun_length_field:
  assumes "wire_ok W" "msg_ok m" "\<forall>a\<in>set as. attr_ok a"
    and "attrs_size (sm_attrs m) + attrs_size as < 65536"
  shows "\<exists>buf. Write W (run (\<lambda>m a. AddAttribute a m) m as) = Some buf \<and>
    length buf = kStunHeaderSize + unat (sm_length (run (\<lambda>m a. AddAttribute a m) m as)) \<and>
    sm_attrs (run (\<lambda>m a. AddAttribute a m) m as) = sm_attrs m @ as"
proof -
  have "msg_ok (run (\<lambda>m a. AddAttribute a m) m as) \<and>
      sm_attrs (run (\<lambda>m a. AddAttribute a m) m as) = sm_attrs m @ as"
    using assms(2-4)
  proof (induction as arbitrary: m)
    case (Cons a as)
    then have "msg_ok (AddAttribute a m)"
      by (intro msg_ok_AddAttribute) (simp_all add: attrs_size_def)
    moreover have "sm_attrs (AddAttribute a m) = sm_attrs m @ [a]" by (simp add: AddAttribute_def)
    ultimately show ?case
      using Cons.IH[of "AddAttribute a m"] Cons.prems by (simp add: attrs_size_def)
  qed simp
  then show ?thesis
    using Write_ok[OF assms(1)] length_concat_enc[OF assms(1)] length_write_header[OF assms(1)]
    by (auto simp: msg_ok_def attrs_size_def)
qed

lemma stun_write_read_lemma:
  assumes "wire_ok W" "msg_ok m" "Write W m = Some buf"
  shows "Read W buf m' = Some (True, m'\<lparr>sm_buffer := buf, sm_type := sm_type m, sm_length := sm_length m,
    sm_transaction_id := sm_transaction_id m, sm_attrs := filter attr_known (sm_attrs m)\<rparr>, [])"
proof -
  let ?body = "concat (map (enc_attr W) (sm_attrs m))"
  have buf: "buf = write_header W (sm_type m) (sm_length m) (sm_transaction_id m) @ ?body"
    using assms Write_ok by simp
  have "parses (read_one W) ?body (filter attr_known (sm_attrs m))"
    using assms(1,2) by (intro stun.parses_concat) (simp add: msg_ok_def)
  then have "read_attrs W (length ?body) ?body [] = Some (True, filter attr_known (sm_attrs m), [])"
    using read_attrs_parses[OF assms(1)] by simp
  moreover have "length ?body = unat (sm_length m)"
    using assms(1,2) length_concat_enc by (simp add: msg_ok_def attrs_size_def)
  ultimately show ?thesis
    unfolding buf using assms(1,2)
    by (subst Read_header) (simp_all add: msg_ok_def)
qed

text \<open>
  Parsing the bytes of a well-formed message succeeds, consumes them all, and returns its
  type, transaction id and length, and exactly its attributes of the three types the server
  understands, in order.
\<close>

theorem stun_write_read:
  assumes "wire_ok W" "msg_ok m" "Write W m = Some buf"
  shows "Read W buf m' = Some (True, m'\<lparr>sm_buffer := buf, sm_type := sm_type m, sm_length := sm_length m,
    sm_transaction_id := sm_transaction_id m, sm_attrs := filter attr_known (sm_attrs m)\<rparr>, [])"
  using assms by (rule stun_write_read_lemma)

lemma read_attrs_end: "read_attrs W k b as = Some (True, xs, r) \<Longrightarrow> r = []"
proof (induction k arbitrary: b as)
  case 0
  then show ?case by (subst (asm) read_attrs.simps) (simp split: if_splits)
next
  case (Suc k)
  from Suc.prems show ?case
    by (subst (asm) read_attrs.simps) (auto split: if_splits option.splits dest: Suc.IH)
qed

text \<open>
  The parser returns on every byte string: the number of bytes left is enough fuel for
  its loop, since every round consumes at least the four bytes of a header.
\<close>

theorem stun_read_total:
  assumes "wire_ok W"
  shows "\<exists>ok m' rest. Read W buf m = Some (ok, m', rest) \<and> (ok \<longrightarrow> rest = [])"
proof -
  have "\<exists>ok xs r. read_attrs W (length b) b [] = Some (ok, xs, r) \<and> (ok \<longrightarrow> r = [])" for b
    using read_attrs_total[OF assms order.refl, of b "[]"] read_attrs_end[of W "length b" b "[]"]
    by (cases "read_attrs W (length b) b []") auto
  then have loop: "\<exists>ok m' r. map_option (\<lambda>(ok, as, r). (ok, g as, r)) (read_attrs W (length b) b []) =
      Some (ok, m', r) \<and> (ok \<longrightarrow> r = [])" for b and g :: "stun_attr list \<Rightarrow> stun_message"
    by fastforce
  have stop: "\<exists>ok m' r. Some (False, x, y) = Some (ok, m', r) \<and> (ok \<longrightarrow> r = [])"
    for x :: stun_message and y :: bytes by blast
  show ?thesis
    unfolding Read_def Let_def
    by (intro stop loop | rule allI impI conjI | split option.split | split prod.split | split if_split)+
qed

subsection \<open>Fingerprint\<close>

lemma update_last_snoc [simp]: "update_last f (xs @ [x]) = xs @ [f x]"
  by (simp add: update_last_def)

lemma attr_ok_fingerprint: "attr_ok (StunUInt32Attribute STUN_ATTR_FINGERPRINT v)"
  by (simp add: attr_ok_def value_ok_def StunUInt32Attribute_def stun_types padded_def)

definition mi_attr :: "bytes \<Rightarrow> stun_attr" where
  "mi_attr bs = StunByteStringAttribute STUN_ATTR_MESSAGE_INTEGRITY bs"

lemma mi_attr_fields [simp]:
  "at_type (mi_attr bs) = STUN_ATTR_MESSAGE_INTEGRITY"
  "at_value (mi_attr bs) = VByteString bs" "at_length (mi_attr bs) = of_nat (length bs)"
  "CopyBytes cs (mi_attr bs) = mi_attr cs"
  by (simp_all add: mi_attr_def StunByteStringAttribute_def CopyBytes_def)

lemma attr_ok_mi: "length bs = 20 \<Longrightarrow> attr_ok (mi_attr bs)"
  by (simp add: attr_ok_def value_ok_def stun_types padded_def)

lemma enc_fingerprint:
  "enc_attr W (StunUInt32Attribute STUN_ATTR_FINGERPRINT v)
     = Enc16 W STUN_ATTR_FINGERPRINT @ Enc16 W 4 @ Enc32 W v"
  by (simp add: enc_attr_def StunUInt32Attribute_def)

lemma enc_mi:
  "length bs = 20 \<Longrightarrow> enc_attr W (mi_attr bs) = Enc16 W STUN_ATTR_MESSAGE_INTEGRITY @ Enc16 W 20 @ bs"
  by (simp add: enc_attr_def WritePadding_def)

lemma size_fingerprint [simp]: "attr_size (StunUInt32Attribute STUN_ATTR_FINGERPRINT v) = 8"
  by (simp add: attr_size_def StunUInt32Attribute_def padded_def kStunAttributeHeaderSize_def)

lemma size_mi: "length bs = 20 \<Longrightarrow> attr_size (mi_attr bs) = 24"
  by (simp add: attr_size_def padded_def kStunAttributeHeaderSize_def)

abbreviation msg_body :: "wire_lib \<Rightarrow> stun_message \<Rightarrow> bytes" where
  "msg_body W m \<equiv> concat (map (enc_attr W) (sm_attrs m))"

abbreviation msg_header :: "wire_lib \<Rightarrow> u16 \<Rightarrow> stun_message \<Rightarrow> bytes" where
  "msg_header W len m \<equiv> write_header W (sm_type m) len (sm_transaction_id m)"

lemma AddAttribute_fields [simp]:
  "sm_type (AddAttribute a m) = sm_type m" "sm_transaction_id (AddAttribute a m) = sm_transaction_id m"
  "sm_attrs (AddAttribute a m) = sm_attrs m @ [a]"
  "sm_length (AddAttribute a m) = sm_length m + of_nat (attr_size a)"
  by (simp_all add: AddAttribute_def attr_size_def)

lemma msg_lengths:
  assumes "wire_ok W" "msg_ok m"
  shows "length (msg_header W len m) = 20" "length (msg_body W m) = attrs_size (sm_attrs m)"
  using assms length_concat_enc[OF assms(1), of "sm_attrs m"]
  by (simp_all add: length_write_header msg_ok_def attrs_size_def kStunHeaderSize_def)

lemma AddFingerprint_eq:
  assumes W: "wire_ok W" and m: "msg_ok m" and fit: "attrs_size (sm_attrs m) + 8 < 65536"
  defines "fp \<equiv> StunUInt32Attribute STUN_ATTR_FINGERPRINT
      (ComputeCrc32 W (msg_header W (sm_length m + 8) m @ msg_body W m) XOR STUN_FINGERPRINT_XOR_VALUE)"
  shows "AddFingerprint W m = (True, AddAttribute fp m)"
proof -
  let ?z = "StunUInt32Attribute STUN_ATTR_FINGERPRINT 0"
  have "msg_ok (AddAttribute ?z m)"
    using m fit by (intro msg_ok_AddAttribute) (simp_all add: attr_ok_fingerprint)
  then have "Write W (AddAttribute ?z m)
      = Some (msg_header W (sm_length m + 8) m @ msg_body W m @ enc_attr W ?z)"
    using Write_ok[OF W] by simp
  moreover have "length (enc_attr W ?z) = 8"
    using enc_attr_length[OF W attr_ok_fingerprint] by simp
  ultimately show ?thesis
    by (simp add: AddFingerprint_def Let_def kStunAttributeHeaderSize_def fp_def AddAttribute_def
        StunUInt32Attribute_def)
qed

lemma ValidateFingerprint_written:
  assumes W: "wire_ok W" and m: "msg_ok m" and part_def: "part = msg_header W len m @ msg_body W m"
  shows "ValidateFingerprint W (part @ enc_attr W (StunUInt32Attribute STUN_ATTR_FINGERPRINT v)) \<longleftrightarrow>
    v XOR STUN_FINGERPRINT_XOR_VALUE = ComputeCrc32 W part"
proof -
  note L = msg_lengths(1)[OF W m, of len] msg_lengths(2)[OF W m]
  let ?d = "part @ enc_attr W (StunUInt32Attribute STUN_ATTR_FINGERPRINT v)"
  have lp: "length part = 20 + attrs_size (sm_attrs m)"
    using L by (simp add: part_def)
  have d: "?d = part @ Enc16 W STUN_ATTR_FINGERPRINT @ Enc16 W 4 @ Enc32 W v"
    by (simp add: enc_fingerprint)
  have len: "length ?d = length part + 8"
    by (simp add: d wire_simps[OF W])
  have "part = (Enc16 W (sm_type m) @ Enc16 W len) @ Enc32 W kStunMagicCookie @ sm_transaction_id m @ msg_body W m"
    by (simp add: part_def write_header_def)
  then have cookie: "GetBE32 W ?d 4 = Some kStunMagicCookie"
    by (simp only: d append_assoc) (metis (no_types, lifting) GetBE32_at W append_assoc length_append
        numeral_Bit0 wire_simps(1))
  have t: "GetBE16 W ?d (length part) = Some STUN_ATTR_FINGERPRINT"
    unfolding d by (rule GetBE16_at[OF W refl])
  have l: "GetBE16 W ?d (length part + 2) = Some 4"
    unfolding d using GetBE16_at[OF W, of "part @ Enc16 W STUN_ATTR_FINGERPRINT"]
    by (simp add: wire_simps[OF W])
  have f: "GetBE32 W ?d (length part + 4) = Some v"
    unfolding d using GetBE32_at[OF W, of "part @ Enc16 W STUN_ATTR_FINGERPRINT @ Enc16 W 4" _ v "[]"]
    by (simp add: wire_simps[OF W])
  have "length ?d mod 4 = 0" "28 \<le> length ?d"
    using len lp attrs_size_mod[of "sm_attrs m"] by presburger+
  then show ?thesis
    using cookie t l f len by (simp add: ValidateFingerprint_def Let_def stun_consts)
qed

text \<open>
  A message closed with \<open>AddFingerprint\<close> passes \<open>ValidateFingerprint\<close>, and the check is the
  checksum alone: with any other value in the attribute the same bytes are rejected.
\<close>

theorem stun_fingerprint:
  assumes "wire_ok W" "msg_ok m" "attrs_size (sm_attrs m) + 8 < 65536"
  shows "\<exists>m' buf. AddFingerprint W m = (True, m') \<and> Write W m' = Some buf \<and> ValidateFingerprint W buf \<and>
    (\<forall>v. ValidateFingerprint W (take (length buf - 4) buf @ Enc32 W v) \<longleftrightarrow>
       take (length buf - 4) buf @ Enc32 W v = buf)"
proof -
  define part where "part = msg_header W (sm_length m + 8) m @ msg_body W m"
  define c where "c = ComputeCrc32 W part XOR STUN_FINGERPRINT_XOR_VALUE"
  define fp where "fp = StunUInt32Attribute STUN_ATTR_FINGERPRINT c"
  define buf where "buf = part @ enc_attr W fp"
  have m': "AddFingerprint W m = (True, AddAttribute fp m)"
    using AddFingerprint_eq[OF assms] by (simp add: fp_def c_def part_def)
  have "msg_ok (AddAttribute fp m)"
    using assms by (intro msg_ok_AddAttribute) (simp_all add: attr_ok_fingerprint fp_def)
  then have "Write W (AddAttribute fp m) = Some buf"
    using Write_ok[OF assms(1)] by (simp add: buf_def part_def fp_def)
  moreover have "ValidateFingerprint W buf"
    unfolding buf_def fp_def
    by (subst ValidateFingerprint_written[OF assms(1,2) part_def]) (simp add: c_def xor.assoc)
  moreover have tk: "take (length buf - 4) buf @ Enc32 W v
      = part @ enc_attr W (StunUInt32Attribute STUN_ATTR_FINGERPRINT v)" for v
    by (simp add: buf_def fp_def enc_fingerprint wire_simps[OF assms(1)])
  moreover have "ValidateFingerprint W (part @ enc_attr W (StunUInt32Attribute STUN_ATTR_FINGERPRINT v)) \<longleftrightarrow> v = c" for v
    by (subst ValidateFingerprint_written[OF assms(1,2) part_def])
      (metis c_def xor.assoc xor.right_neutral xor_self_eq)
  moreover have "Enc32 W v = Enc32 W c \<longleftrightarrow> v = c" for v
    using wire_simps(7)[OF assms(1)] by (metis option.inject prod.inject)
  ultimately show ?thesis
    using m' by (auto simp: buf_def fp_def enc_fingerprint)
qed

end
