(* ===== verification/StunAuth.thy ===== *)
theory StunAuth
  imports StunProps
begin

text \<open>
  Message integrity: the digest a sender adds is accepted at the receiver under the same
  password, also when a fingerprint follows it; the search of the attribute stays inside the
  received bytes, and the comparison does so for every message but one whose integrity
  attribute is cut short.
\<close>

subsection \<open>Adding the digest\<close>

definition signed_digest :: "wire_lib \<Rightarrow> bytes \<Rightarrow> stun_message \<Rightarrow> bytes" where
  "signed_digest W key m = ComputeHmac W key (msg_header W (sm_length m + 24) m @ msg_body W m)"

definition signed :: "wire_lib \<Rightarrow> bytes \<Rightarrow> stun_message \<Rightarrow> stun_message" where
  "signed W key m = (AddAttribute (mi_attr (signed_digest W key m)) m)
     \<lparr>sm_password := key, sm_integrity := kIntegrityOk\<rparr>"

lemma length_signed_digest: "wire_ok W \<Longrightarrow> length (signed_digest W key m) = 20"
  by (simp add: signed_digest_def wire_simps)

lemma AddMessageIntegrity_eq:
  assumes W: "wire_ok W" and m: "msg_ok m" and fit: "attrs_size (sm_attrs m) + 24 < 65536"
  shows "AddMessageIntegrity W key m = (True, signed W key m)"
proof -
  let ?z = "mi_attr (replicate 20 48)"
  have "msg_ok (AddAttribute ?z m)"
    using m fit by (intro msg_ok_AddAttribute) (simp_all add: attr_ok_mi size_mi)
  then have "Write W (AddAttribute ?z m)
      = Some (msg_header W (sm_length m + 24) m @ msg_body W m @ enc_attr W ?z)"
    using Write_ok[OF W] by (simp add: size_mi)
  moreover have "length (enc_attr W ?z) = 24"
    using enc_attr_length[OF W attr_ok_mi, of "replicate 20 48"] by (simp add: size_mi)
  ultimately show ?thesis
    using length_signed_digest[OF W, of key m]
    by (simp add: AddMessageIntegrity_def Let_def stun_consts signed_def mi_attr_def[symmetric]
        signed_digest_def AddAttribute_def length_replicate)
qed

lemma signed_fields:
  assumes "wire_ok W"
  shows "sm_attrs (signed W key m) = sm_attrs m @ [mi_attr (signed_digest W key m)]"
    "sm_length (signed W key m) = sm_length m + 24"
    "sm_type (signed W key m) = sm_type m"
    "sm_transaction_id (signed W key m) = sm_transaction_id m"
  using size_mi[OF length_signed_digest[OF assms, of key m]] by (simp_all add: signed_def)

lemma msg_ok_signed:
  assumes "wire_ok W" "msg_ok m" "attrs_size (sm_attrs m) + 24 < 65536"
  shows "msg_ok (signed W key m)"
proof -
  have "msg_ok (AddAttribute (mi_attr (signed_digest W key m)) m)"
    using assms length_signed_digest[OF assms(1), of key m]
    by (intro msg_ok_AddAttribute) (simp_all add: attr_ok_mi size_mi)
  then show ?thesis by (simp add: signed_def msg_ok_def)
qed

subsection \<open>Finding it\<close>

lemma find_attr_written:
  assumes W: "wire_ok W" and "\<forall>a\<in>set as. attr_ok a \<and> at_type a \<noteq> t"
  shows "find_attr W t (pre @ concat (map (enc_attr W) as) @ Enc16 W t @ Enc16 W len @ r) (length pre)
    = Some (True, length pre + attrs_size as)"
  using assms(2)
proof (induction as arbitrary: pre)
  case Nil
  have "GetBE16 W (pre @ Enc16 W t @ Enc16 W len @ r) (length pre) = Some t"
    by (rule GetBE16_at[OF W refl])
  moreover have "GetBE16 W (pre @ Enc16 W t @ Enc16 W len @ r) (length pre + 2) = Some len"
    using GetBE16_at[OF W, of "pre @ Enc16 W t" "length pre + 2" len r] by (simp add: wire_simps[OF W])
  ultimately show ?case
    by (subst find_attr.simps) (simp add: attrs_size_def kStunAttributeHeaderSize_def wire_simps[OF W])
next
  case (Cons a as)
  let ?rest = "concat (map (enc_attr W) as) @ Enc16 W t @ Enc16 W len @ r"
  let ?d = "pre @ enc_attr W a @ ?rest"
  obtain v where v: "enc_attr W a = Enc16 W (at_type a) @ Enc16 W (at_length a) @ v"
    by (simp add: enc_attr_def)
  have a: "attr_ok a" "at_type a \<noteq> t" using Cons.prems by simp_all
  have "GetBE16 W ?d (length pre) = Some (at_type a)"
    unfolding v append_assoc by (rule GetBE16_at[OF W refl])
  moreover have "GetBE16 W ?d (length pre + 2) = Some (at_length a)"
    unfolding v append_assoc
    using GetBE16_at[OF W, of "pre @ Enc16 W (at_type a)" "length pre + 2" "at_length a" "v @ ?rest"]
    by (simp add: wire_simps[OF W])
  moreover have "length pre + kStunAttributeHeaderSize + padded (unat (at_length a)) = length (pre @ enc_attr W a)"
    using enc_attr_length[OF W a(1)] by (simp add: attr_size_def)
  moreover have "length pre + kStunAttributeHeaderSize \<le> length ?d"
    using enc_attr_length[OF W a(1)] by (simp add: attr_size_def)
  ultimately have "find_attr W t ?d (length pre) = find_attr W t ?d (length (pre @ enc_attr W a))"
    using a(2) by (subst find_attr.simps) (simp add: add.assoc)
  also have "\<dots> = Some (True, length (pre @ enc_attr W a) + attrs_size as)"
    using Cons.IH[of "pre @ enc_attr W a"] Cons.prems by simp
  finally show ?case
    using enc_attr_length[OF W a(1)] by (simp add: attrs_size_def)
qed

lemma find_attr_bound:
  assumes "wire_ok W"
  shows "\<exists>found pos'. find_attr W t data pos = Some (found, pos') \<and>
    (found \<longrightarrow> pos \<le> pos' \<and> pos' + kStunAttributeHeaderSize \<le> length data)"
proof (induction "length data - pos" arbitrary: pos rule: less_induct)
  case less
  show ?case
  proof (cases "pos + kStunAttributeHeaderSize \<le> length data")
    case True
    then obtain ty len where g: "GetBE16 W data pos = Some ty" "GetBE16 W data (pos + 2) = Some len"
      using GetBE16_bound[OF assms, of pos data] GetBE16_bound[OF assms, of "pos + 2" data]
      by (auto simp: kStunAttributeHeaderSize_def)
    let ?p = "pos + kStunAttributeHeaderSize + padded (unat len)"
    have "length data - ?p < length data - pos"
      using True by (simp add: kStunAttributeHeaderSize_def)
    from less[OF this] show ?thesis
      using g True by (subst find_attr.simps) auto
  qed (subst find_attr.simps, auto)
qed

subsection \<open>Checking it\<close>

lemma SetBE16_header:
  assumes "wire_ok W"
  shows "SetBE16 W 2 len' (write_header W t len tid @ r) = write_header W t len' tid @ r"
  by (simp add: SetBE16_def write_header_def wire_simps[OF assms])

lemma GetBE16_header:
  assumes "wire_ok W"
  shows "GetBE16 W (write_header W t len tid @ r) 2 = Some len"
  unfolding write_header_def append_assoc
  using GetBE16_at[OF assms, of "Enc16 W t" 2 len] by (simp add: wire_simps[OF assms])

lemma Validate_written:
  assumes W: "wire_ok W" and tid: "length tid = kStunTransactionIdLength"
    and as: "\<forall>a\<in>set as. attr_ok a \<and> at_type a \<noteq> STUN_ATTR_MESSAGE_INTEGRITY"
    and digest: "length digest = 20" and tail: "length tail mod 4 = 0"
    and len: "unat len = attrs_size as + 24 + length tail" "unat len0 = attrs_size as + 24"
  shows "ValidateMessageIntegrityOfType W STUN_ATTR_MESSAGE_INTEGRITY kStunMessageIntegritySize
      (write_header W t len tid @ concat (map (enc_attr W) as) @ enc_attr W (mi_attr digest) @ tail) key
    = Some (digest = ComputeHmac W key (write_header W t len0 tid @ concat (map (enc_attr W) as)))"
proof -
  let ?h = "write_header W t len tid" and ?b = "concat (map (enc_attr W) as)"
  define d where "d = ?h @ ?b @ enc_attr W (mi_attr digest) @ tail"
  have h: "length ?h = 20" using length_write_header[OF W tid] by (simp add: kStunHeaderSize_def)
  have b: "length ?b = attrs_size as"
    using length_concat_enc[OF W] as by (simp add: attrs_size_def)
  have mi: "enc_attr W (mi_attr digest) = Enc16 W STUN_ATTR_MESSAGE_INTEGRITY @ Enc16 W 20 @ digest"
    by (rule enc_mi[OF digest])
  have size: "length d = 44 + attrs_size as + length tail"
    using h b digest by (simp add: d_def mi wire_simps[OF W])
  have md: "length d mod 4 = 0"
    using size tail attrs_size_mod[of as] by presburger
  have find: "find_attr W STUN_ATTR_MESSAGE_INTEGRITY d 20 = Some (True, 20 + attrs_size as)"
    using find_attr_written[OF W as, of ?h 20 "digest @ tail"] h by (simp add: mi d_def)
  have get: "GetBE16 W d 2 = Some len" unfolding d_def by (rule GetBE16_header[OF W])
  have pre: "take (20 + attrs_size as) d = ?h @ ?b"
    using h b by (simp add: d_def)
  have set: "SetBE16 W 2 len0 (?h @ ?b) = write_header W t len0 tid @ ?b"
    by (rule SetBE16_header[OF W])
  have adj: "of_nat (attrs_size as + 24) = len0" using len(2) by (metis of_nat_unat ucast_id)
  have same: "len = len0" if "tail = []" using len that by (simp add: word_eq_iff_unsigned[where ?'a = nat])
  have mac: "take 20 (drop (24 + attrs_size as) d) = digest"
    using h b digest by (simp add: d_def mi wire_simps[OF W])
  have "ValidateMessageIntegrityOfType W STUN_ATTR_MESSAGE_INTEGRITY kStunMessageIntegritySize d key
      = Some (digest = ComputeHmac W key (write_header W t len0 tid @ ?b))"
    using md get find pre set adj same mac size len(1) digest wire_okD(6)[OF W]
    by (cases "tail = []") (simp_all add: ValidateMessageIntegrityOfType_def Let_def stun_consts add.commute add.left_commute)
  then show ?thesis unfolding d_def .
qed

lemma GetAttribute_snoc:
  "\<forall>a\<in>set as. at_type a \<noteq> t \<Longrightarrow> at_type b = t \<Longrightarrow> GetAttribute t (as @ b # cs) = Some b"
  by (induction as) auto

definition free_of :: "u16 \<Rightarrow> stun_message \<Rightarrow> bool" where
  "free_of t m \<longleftrightarrow> (\<forall>a\<in>set (sm_attrs m). at_type a \<noteq> t)"

lemma signed_chain:
  assumes "wire_ok W" "msg_ok m" "free_of STUN_ATTR_MESSAGE_INTEGRITY m"
    and "attrs_size (sm_attrs m) + 32 < 65536"
  shows "\<exists>m2 buf r. AddMessageIntegrity W key m = (True, signed W key m) \<and>
    AddFingerprint W (signed W key m) = (True, m2) \<and>
    Write W m2 = Some buf \<and> ValidateFingerprint W buf \<and> Read W buf StunMessage = Some (True, r, []) \<and>
    sm_type r = sm_type m \<and> sm_transaction_id r = sm_transaction_id m \<and>
    sm_attrs r = filter attr_known (sm_attrs m) @ [mi_attr (signed_digest W key m)] \<and>
    (\<forall>key'. ValidateMessageIntegrity W key' r = Some (r\<lparr>sm_password := key', sm_integrity :=
      if signed_digest W key m = signed_digest W key' m then kIntegrityOk else kIntegrityBad\<rparr>))"
proof -
  note W = assms(1)
  define m1 where "m1 = signed W key m"
  have m1: "AddMessageIntegrity W key m = (True, m1)" "msg_ok m1"
    using AddMessageIntegrity_eq[OF W assms(2)] msg_ok_signed[OF W assms(2)] assms(4)
    by (simp_all add: m1_def)
  have size1: "attrs_size (sm_attrs m1) = attrs_size (sm_attrs m) + 24"
    using size_mi[OF length_signed_digest[OF W]] by (simp add: m1_def signed_fields[OF W] attrs_size_def)
  define part where "part = msg_header W (sm_length m1 + 8) m1 @ msg_body W m1"
  define fp where "fp = StunUInt32Attribute STUN_ATTR_FINGERPRINT (ComputeCrc32 W part XOR STUN_FINGERPRINT_XOR_VALUE)"
  define m2 where "m2 = AddAttribute fp m1"
  have m2: "AddFingerprint W m1 = (True, m2)"
    using AddFingerprint_eq[OF W m1(2)] size1 assms(4) by (simp add: m2_def fp_def part_def)
  have ok2: "msg_ok m2"
    unfolding m2_def using m1(2) size1 assms(4)
    by (intro msg_ok_AddAttribute) (simp_all add: attr_ok_fingerprint fp_def)
  define buf where "buf = part @ enc_attr W fp"
  have buf: "Write W m2 = Some buf"
    using Write_ok[OF W ok2] by (simp add: buf_def part_def m2_def fp_def)
  have valid: "ValidateFingerprint W buf"
    unfolding buf_def fp_def
    by (subst ValidateFingerprint_written[OF W m1(2) part_def]) (simp add: xor.assoc)
  define r where "r = StunMessage\<lparr>sm_buffer := buf, sm_type := sm_type m2, sm_length := sm_length m2,
    sm_transaction_id := sm_transaction_id m2, sm_attrs := filter attr_known (sm_attrs m2)\<rparr>"
  have read: "Read W buf StunMessage = Some (True, r, [])"
    using stun_write_read_lemma[OF W ok2 buf] by (simp add: r_def)
  have has_mi: "GetByteString STUN_ATTR_MESSAGE_INTEGRITY (r\<lparr>sm_password := key'\<rparr>) \<noteq> None" for key'
    using assms(3) GetAttribute_snoc[of "filter attr_known (sm_attrs m)" STUN_ATTR_MESSAGE_INTEGRITY
        "mi_attr (signed_digest W key m)"]
    by (simp add: r_def GetByteString_def m2_def m1_def signed_fields[OF W] free_of_def attr_known_def stun_types)
  have check: "ValidateMessageIntegrityOfType W STUN_ATTR_MESSAGE_INTEGRITY kStunMessageIntegritySize buf key'
      = Some (signed_digest W key m = signed_digest W key' m)" for key'
  proof -
    let ?fp = "enc_attr W fp"
    have b: "buf = write_header W (sm_type m) (sm_length m1 + 8) (sm_transaction_id m) @
        msg_body W m @ enc_attr W (mi_attr (signed_digest W key m)) @ ?fp"
      by (simp add: buf_def part_def m1_def signed_fields[OF W])
    have fp8: "length ?fp = 8"
      using enc_attr_length[OF W attr_ok_fingerprint] by (simp add: fp_def)
    have l1: "unat (sm_length m1) = attrs_size (sm_attrs m) + 24"
      using m1(2) size1 by (simp add: msg_ok_def)
    then have l2: "unat (sm_length m1 + 8) = attrs_size (sm_attrs m) + 24 + 8"
      using unat_add_of_nat[of "sm_length m1" 8] assms(4) by simp
    show ?thesis
      unfolding b
      using Validate_written[OF W _ _ length_signed_digest[OF W, of key m], of "sm_transaction_id m"
          "sm_attrs m" ?fp "sm_length m1 + 8" "sm_length m1" "sm_type m" key'] assms(2,3) fp8 l1 l2
      by (simp add: msg_ok_def free_of_def signed_digest_def m1_def signed_fields[OF W])
  qed
  have "ValidateMessageIntegrity W key' r = Some (r\<lparr>sm_password := key', sm_integrity :=
      if signed_digest W key m = signed_digest W key' m then kIntegrityOk else kIntegrityBad\<rparr>)" for key'
  proof -
    obtain mi where "GetByteString STUN_ATTR_MESSAGE_INTEGRITY (r\<lparr>sm_password := key'\<rparr>) = Some mi"
      using has_mi by blast
    moreover have "sm_buffer r = buf" by (simp add: r_def)
    ultimately show ?thesis by (simp add: ValidateMessageIntegrity_def Let_def check)
  qed
  moreover have "sm_attrs r = filter attr_known (sm_attrs m) @ [mi_attr (signed_digest W key m)]"
    "sm_type r = sm_type m" "sm_transaction_id r = sm_transaction_id m"
    by (simp_all add: r_def m2_def m1_def signed_fields[OF W] attr_known_def fp_def StunUInt32Attribute_def stun_types)
  ultimately show ?thesis using m1(1) m2 buf valid read unfolding m1_def by blast
qed

text \<open>
  C22: the whole chain of a signed message. A message without an integrity attribute is signed
  with \<open>key\<close> and fingerprinted; the receiver's fingerprint check passes, the parse succeeds,
  and validation with \<open>key'\<close> says \<open>kIntegrityOk\<close> exactly if the keyed digests of the signed
  prefix agree (in particular for the same key), although the length field has grown since
  the digest was computed.
\<close>

theorem stun_signed_message:
  assumes "wire_ok W" "msg_ok m" "free_of STUN_ATTR_MESSAGE_INTEGRITY m"
    and "attrs_size (sm_attrs m) + 32 < 65536"
  shows "\<exists>m1 m2 buf r. AddMessageIntegrity W key m = (True, m1) \<and> AddFingerprint W m1 = (True, m2) \<and>
    Write W m2 = Some buf \<and> ValidateFingerprint W buf \<and> Read W buf StunMessage = Some (True, r, []) \<and>
    map_option sm_integrity (ValidateMessageIntegrity W key' r) =
      Some (if signed_digest W key m = signed_digest W key' m then kIntegrityOk else kIntegrityBad)"
  using signed_chain[OF assms, of key] by fastforce

text \<open>
  The validator reads past the received bytes only when its first integrity attribute
  begins within the last 23 bytes of the message; the search before it never does.
\<close>

theorem integrity_reads_in_bounds:
  assumes "wire_ok W"
  shows "ValidateMessageIntegrityOfType W STUN_ATTR_MESSAGE_INTEGRITY kStunMessageIntegritySize data key = None \<longleftrightarrow>
    length data mod 4 = 0 \<and> kStunHeaderSize \<le> length data \<and>
    map_option (\<lambda>len. unat len + kStunHeaderSize) (GetBE16 W data 2) = Some (length data) \<and>
    (\<exists>pos. find_attr W STUN_ATTR_MESSAGE_INTEGRITY data kStunHeaderSize = Some (True, pos) \<and>
       length data < pos + kStunAttributeHeaderSize + kStunMessageIntegritySize)"
proof -
  obtain found pos where f: "find_attr W STUN_ATTR_MESSAGE_INTEGRITY data kStunHeaderSize = Some (found, pos)"
    using find_attr_bound[OF assms] by blast
  have g: "GetBE16 W data 2 \<noteq> None" if "kStunHeaderSize \<le> length data"
    using that by (intro GetBE16_bound[OF assms]) (simp add: kStunHeaderSize_def)
  have h: "length (ComputeHmac W key x) = kStunMessageIntegritySize" for x
    using wire_okD(6)[OF assms] by (simp add: kStunMessageIntegritySize_def)
  show ?thesis
    using f g h
    by (cases found; cases "GetBE16 W data 2")
      (auto simp: ValidateMessageIntegrityOfType_def Let_def)
qed

subsection \<open>Error responses\<close>

lemma read_one_no_error:
  "read_one W b = Some (Some a, r) \<Longrightarrow> at_type a \<noteq> STUN_ATTR_ERROR_CODE"
  by (auto simp: read_one_def stun_types split: option.splits if_splits attr_value.splits)

lemma read_attrs_no_error:
  "read_attrs W k b as = Some (ok, xs, r) \<Longrightarrow> \<forall>a\<in>set as. at_type a \<noteq> STUN_ATTR_ERROR_CODE \<Longrightarrow>
    \<forall>a\<in>set xs. at_type a \<noteq> STUN_ATTR_ERROR_CODE"
proof (induction k arbitrary: b as)
  case 0
  then show ?case by (subst (asm) read_attrs.simps) (simp split: if_splits)
next
  case (Suc k)
  show ?case
  proof (cases "b = [] \<or> read_one W b = None")
    case True
    with Suc.prems show ?thesis by (subst (asm) read_attrs.simps) (auto split: if_splits)
  next
    case False
    then obtain x r' where x: "read_one W b = Some (x, r')" by auto
    show ?thesis
    proof (cases x)
      case None
      have "read_attrs W k r' as = Some (ok, xs, r)"
        using Suc.prems(1) x False None by (subst (asm) read_attrs.simps) simp
      then show ?thesis using Suc.IH Suc.prems(2) by blast
    next
      case (Some a)
      have "read_attrs W k r' (as @ [a]) = Some (ok, xs, r)"
        using Suc.prems(1) x False Some by (subst (asm) read_attrs.simps) simp
      then show ?thesis
        by (rule Suc.IH) (use Suc.prems(2) read_one_no_error[of W b a r'] x Some in simp)
    qed
  qed
qed

lemma error_code_lemma:
  assumes "Read W buf StunMessage = Some (ok, m, rest)"
  shows "GetErrorCodeValue m = 600"
proof -
  have none: "\<forall>a\<in>set as. at_type a \<noteq> STUN_ATTR_ERROR_CODE \<Longrightarrow> GetAttribute STUN_ATTR_ERROR_CODE as = None" for as
    by (induction as) auto
  have "\<forall>a\<in>set (sm_attrs m). at_type a \<noteq> STUN_ATTR_ERROR_CODE"
    using assms read_attrs_no_error[of W _ _ "[]"]
    by (auto simp: Read_def Let_def StunMessage_def split: option.splits if_splits)
  then show ?thesis
    using none by (simp add: GetErrorCodeValue_def STUN_ERROR_GLOBAL_FAIL_def)
qed

text \<open>
  No parsed message ever carries an error code: the parser skips the attribute, so
  \<open>GetErrorCodeValue\<close> of every message received is 600 (\<open>STUN_ERROR_GLOBAL_FAIL\<close>), whatever
  code the peer sent.
\<close>

theorem error_code_always_global_fail:
  assumes "Read W buf StunMessage = Some (ok, m, rest)"
  shows "GetErrorCodeValue m = 600"
  using assms by (rule error_code_lemma)

subsection \<open>Concrete messages\<close>

definition demo_msg :: stun_message where
  "demo_msg = AddAttribute (StunUInt32Attribute STUN_ATTR_PRIORITY 7)
     (AddAttribute (StunByteStringAttribute STUN_ATTR_USE_CANDIDATE [])
       (AddAttribute (StunByteStringAttribute STUN_ATTR_USERNAME [97, 98, 99])
         (StunMessage\<lparr>sm_type := STUN_BINDING_REQUEST\<rparr>)))"

lemmas stun_eval = demo_msg_def StunMessage_def AddAttribute_def StunUInt32Attribute_def
  StunByteStringAttribute_def CopyBytes_def padded_def stun_types stun_consts STUN_BINDING_REQUEST_def
  attrs_size_def attr_size_def attr_ok_def value_ok_def

lemma demo_msg_ok: "msg_ok demo_msg"
  by (simp add: msg_ok_def stun_eval)

lemma demo_msg_size: "attrs_size (sm_attrs demo_msg) = 20"
  by (simp add: stun_eval)

theorem stun_length_field_witness:
  "\<exists>buf. Write network_order (AddAttribute (StunUInt32Attribute STUN_ATTR_PRIORITY 7)
      (StunMessage\<lparr>sm_type := STUN_BINDING_REQUEST\<rparr>)) = Some buf \<and> length buf = 28"
  using stun_length_field[of network_order "StunMessage\<lparr>sm_type := STUN_BINDING_REQUEST\<rparr>"
      "[StunUInt32Attribute STUN_ATTR_PRIORITY 7]"]
  by (simp add: network_order_ok msg_ok_def stun_eval)

theorem stun_write_read_witness:
  "\<exists>buf m. Write network_order demo_msg = Some buf \<and> Read network_order buf StunMessage = Some (True, m, []) \<and>
    map at_type (sm_attrs m) = [STUN_ATTR_USERNAME, STUN_ATTR_PRIORITY]"
proof -
  obtain buf where "Write network_order demo_msg = Some buf"
    using Write_ok[OF network_order_ok demo_msg_ok] by blast
  then show ?thesis
    using stun_write_read[OF network_order_ok demo_msg_ok, of buf StunMessage]
    by (simp add: attr_known_def stun_eval)
qed

theorem stun_read_total_witness:
  "\<exists>m rest. Read network_order [0, 1, 0] StunMessage = Some (False, m, rest)"
  using stun_read_total[OF network_order_ok, of "[0, 1, 0]" StunMessage]
  by (simp add: Read_def network_order_def Let_def)

theorem stun_fingerprint_witness:
  "\<exists>m' buf. AddFingerprint network_order demo_msg = (True, m') \<and> Write network_order m' = Some buf \<and>
    ValidateFingerprint network_order buf"
  using stun_fingerprint[OF network_order_ok demo_msg_ok] demo_msg_size by fastforce

theorem stun_signed_message_witness:
  "\<exists>m1 m2 buf r. AddMessageIntegrity network_order [1] demo_msg = (True, m1) \<and>
    AddFingerprint network_order m1 = (True, m2) \<and> Write network_order m2 = Some buf \<and>
    Read network_order buf StunMessage = Some (True, r, []) \<and>
    map_option sm_integrity (ValidateMessageIntegrity network_order [1] r) = Some kIntegrityOk"
proof -
  have "free_of STUN_ATTR_MESSAGE_INTEGRITY demo_msg"
    by (simp add: free_of_def stun_eval)
  then show ?thesis
    using stun_signed_message[OF network_order_ok demo_msg_ok, of "[1]" "[1]"] demo_msg_size by fastforce
qed

text \<open>A 24-byte message whose only attribute is an empty integrity attribute.\<close>

definition short_mi :: bytes where
  "short_mi = [0, 1, 0, 4, 0x21, 0x12, 0xA4, 0x42] @ replicate 12 0 @ [0, 8, 0, 0]"

theorem integrity_reads_in_bounds_witness:
  "ValidateMessageIntegrityOfType network_order STUN_ATTR_MESSAGE_INTEGRITY kStunMessageIntegritySize short_mi [1] = None"
proof -
  have "GetBE16 network_order short_mi 2 = Some 4"
    by (simp add: GetBE16_def network_order_def short_mi_def)
  moreover have "find_attr network_order STUN_ATTR_MESSAGE_INTEGRITY short_mi 20 = Some (True, 20)"
    by (subst find_attr.simps) (simp add: GetBE16_def network_order_def short_mi_def stun_consts stun_types)
  ultimately show ?thesis
    using integrity_reads_in_bounds[OF network_order_ok, of short_mi "[1]"]
    by (simp add: stun_consts short_mi_def)
qed

theorem error_code_always_global_fail_witness:
  "\<exists>m rest. Read network_order [0, 1, 0] StunMessage = Some (False, m, rest) \<and> GetErrorCodeValue m = 600"
proof -
  have "\<exists>m rest. Read network_order [0, 1, 0] StunMessage = Some (False, m, rest)"
    by (simp add: Read_def network_order_def Let_def)
  then show ?thesis using error_code_always_global_fail by blast
qed

end
