(* ===== verification/IceBase.thy ===== *)
theory IceBase
  imports StunAuth
begin

text \<open>
  The data of the ICE subsystem: constants (\<open>ice_def.cpp\<close>), credentials, candidates, ports and
  connections (\<open>ice_connection.h\<close>, \<open>udp_port.h\<close>), with the operations of a connection that
  read its own state only. The services of libwebrtc (moving average, splitting of a string,
  address precedence, foundation) are the parameter \<open>ice_lib\<close>; times are milliseconds.
\<close>

subsection \<open>Constants\<close>

definition WEAK_PING_INTERVAL :: int where "WEAK_PING_INTERVAL = 1000 * (60 * 8) div 10000"
definition STRONG_PING_INTERVAL :: int where "STRONG_PING_INTERVAL = 1000 * (60 * 8) div 1000"
definition STABLING_CONNECTION_PING_INTERVAL :: int where "STABLING_CONNECTION_PING_INTERVAL = 900"
definition STABLE_CONNECTION_PING_INTERVAL :: int where "STABLE_CONNECTION_PING_INTERVAL = 2500"
definition MIN_PINGS_AT_WEAK_PING_INTERVAL :: nat where "MIN_PINGS_AT_WEAK_PING_INTERVAL = 3"
definition WEAK_CONNECTION_RECEIVE_TIMEOUT :: int where "WEAK_CONNECTION_RECEIVE_TIMEOUT = 2500"
definition CONNECTION_WRITE_CONNECT_FAILS :: nat where "CONNECTION_WRITE_CONNECT_FAILS = 5"
definition CONNECTION_WRITE_CONNECT_TIMEOUT :: int where "CONNECTION_WRITE_CONNECT_TIMEOUT = 5000"
definition CONNECTION_WRITE_TIMEOUT :: int where "CONNECTION_WRITE_TIMEOUT = 15000"
definition ICE_TYPE_PREFERENCE_PRFLX :: int where "ICE_TYPE_PREFERENCE_PRFLX = 110"
definition ICE_TYPE_PREFERENCE_HOST :: int where "ICE_TYPE_PREFERENCE_HOST = 126"
definition RTT_RATIO :: int where "RTT_RATIO = 3"
definition MIN_RTT :: int where "MIN_RTT = 100"
definition MAX_RTT :: int where "MAX_RTT = 60000"

lemmas ice_consts = WEAK_PING_INTERVAL_def STRONG_PING_INTERVAL_def STABLING_CONNECTION_PING_INTERVAL_def
  STABLE_CONNECTION_PING_INTERVAL_def MIN_PINGS_AT_WEAK_PING_INTERVAL_def
  WEAK_CONNECTION_RECEIVE_TIMEOUT_def CONNECTION_WRITE_CONNECT_FAILS_def
  CONNECTION_WRITE_CONNECT_TIMEOUT_def CONNECTION_WRITE_TIMEOUT_def RTT_RATIO_def MIN_RTT_def MAX_RTT_def

subsection \<open>Data\<close>

record ice_lib =
  wire :: wire_lib
  GetNextMovingAverage :: "int \<Rightarrow> int \<Rightarrow> int \<Rightarrow> int"
  split_at :: "u8 \<Rightarrow> bytes \<Rightarrow> bytes list"
  IPAddressPrecedence :: "ip_addr \<Rightarrow> int"
  foundation_of :: "string \<Rightarrow> ip_addr \<Rightarrow> string \<Rightarrow> bytes"

record ice_params =
  ice_ufrag :: bytes
  ice_pwd :: bytes

datatype ice_component = RTP | RTCP

fun component_id :: "ice_component \<Rightarrow> int" where
  "component_id RTP = 1"
| "component_id RTCP = 2"

record candidate =
  ca_component :: ice_component
  ca_protocol :: string
  ca_address :: sock_addr
  ca_priority :: u32
  ca_username :: bytes
  ca_password :: bytes
  ca_type :: string
  ca_foundation :: bytes

text \<open>\<open>Candidate::GetPriority\<close>: the local preference is an \<open>int\<close>, the result 32 bits.\<close>

definition GetPriority :: "'a ice_lib_scheme \<Rightarrow> candidate \<Rightarrow> u32 \<Rightarrow> int \<Rightarrow> int \<Rightarrow> u32" where
  "GetPriority I c type_preference network_adapter_preference relay_preference =
     (let addr_ref = IPAddressPrecedence I (sa_ip (ca_address c));
          local_pref = ((push_bit 8 network_adapter_preference) OR addr_ref) + relay_preference
      in push_bit 24 type_preference OR word_of_int (push_bit 8 local_pref)
         OR word_of_int (256 - component_id (ca_component c)))"

datatype pair_state = WAITING | IN_PROGRESS | SUCCEEDED | FAILED

datatype write_state = STATE_WRITABLE | STATE_WRITE_UNRELIABLE | STATE_WRITE_INIT | STATE_WRITE_TIMEOUT

text \<open>The code compares write states as the integers of the enumeration.\<close>

fun write_state_code :: "write_state \<Rightarrow> nat" where
  "write_state_code STATE_WRITABLE = 0"
| "write_state_code STATE_WRITE_UNRELIABLE = 1"
| "write_state_code STATE_WRITE_INIT = 2"
| "write_state_code STATE_WRITE_TIMEOUT = 3"

lemma write_state_code_inject [simp]: "write_state_code a = write_state_code b \<longleftrightarrow> a = b"
  by (cases a; cases b) auto

instantiation write_state :: linorder
begin

definition less_eq_write_state :: "write_state \<Rightarrow> write_state \<Rightarrow> bool" where
  "less_eq_write_state a b \<longleftrightarrow> write_state_code a \<le> write_state_code b"

definition less_write_state :: "write_state \<Rightarrow> write_state \<Rightarrow> bool" where
  "less_write_state a b \<longleftrightarrow> write_state_code a < write_state_code b"

instance
proof
qed (auto simp: less_eq_write_state_def less_write_state_def)

end

lemma writable_least: "STATE_WRITABLE \<le> s"
  by (simp add: less_eq_write_state_def)

text \<open>
  A request under way: its message and the time it was sent. A connection holds its requests
  by transaction id (\<open>StunRequestManager\<close>).
\<close>

record stun_request =
  rq_msg :: stun_message
  rq_ts :: int

record ice_conn =
  cn_port :: nat
  cn_remote :: candidate
  cn_write_state :: write_state
  cn_receiving :: bool
  cn_selected :: bool
  cn_last_ping_sent :: int
  cn_last_ping_received :: int
  cn_last_ping_response_received :: int
  cn_last_data_received :: int
  cn_num_pings_sent :: nat
  cn_pings :: "(bytes \<times> int) list"
  cn_requests :: "bytes \<rightharpoonup> stun_request"
  cn_rtt :: int
  cn_rtt_samples :: int
  cn_state :: pair_state

definition IceConnection :: "nat \<Rightarrow> candidate \<Rightarrow> ice_conn" where
  "IceConnection port remote =
     \<lparr>cn_port = port, cn_remote = remote, cn_write_state = STATE_WRITE_INIT, cn_receiving = False,
      cn_selected = False, cn_last_ping_sent = 0, cn_last_ping_received = 0,
      cn_last_ping_response_received = 0, cn_last_data_received = 0, cn_num_pings_sent = 0,
      cn_pings = [], cn_requests = Map.empty, cn_rtt = 3000, cn_rtt_samples = 0, cn_state = WAITING\<rparr>"

record udp_port =
  po_component :: ice_component
  po_params :: ice_params
  po_open :: bool
  po_candidates :: "candidate list"
  po_connections :: "sock_addr \<rightharpoonup> nat"

definition UDPPort :: "ice_component \<Rightarrow> ice_params \<Rightarrow> udp_port" where
  "UDPPort component ps = \<lparr>po_component = component, po_params = ps, po_open = False, po_candidates = [],
     po_connections = Map.empty\<rparr>"

text \<open>
  \<open>UDPPort::CreateIceCandidate\<close>: \<open>bound\<close> is the outcome of the socket calls, the port number
  the kernel bound (\<open>None\<close> for any of the error returns).
\<close>

definition CreateIceCandidate :: "'a ice_lib_scheme \<Rightarrow> ip_addr \<Rightarrow> u16 option \<Rightarrow> udp_port \<Rightarrow> udp_port \<times> candidate option" where
  "CreateIceCandidate I network_ip bound p =
     (case bound of
        None \<Rightarrow> (p, None)
      | Some port \<Rightarrow>
          let c0 = \<lparr>ca_component = po_component p, ca_protocol = ''udp'',
                    ca_address = \<lparr>sa_ip = network_ip, sa_port = port\<rparr>, ca_priority = 0,
                    ca_username = ice_ufrag (po_params p), ca_password = ice_pwd (po_params p),
                    ca_type = ''host'', ca_foundation = foundation_of I ''host'' network_ip ''udp''\<rparr>;
              c = c0\<lparr>ca_priority := GetPriority I c0 (word_of_int ICE_TYPE_PREFERENCE_HOST) 0 0\<rparr>
          in (p\<lparr>po_open := True, po_candidates := po_candidates p @ [c]\<rparr>, Some c))"

subsection \<open>Reading a connection\<close>

definition cn_writable :: "ice_conn \<Rightarrow> bool" where
  "cn_writable n \<longleftrightarrow> cn_write_state n = STATE_WRITABLE"

definition cn_weak :: "ice_conn \<Rightarrow> bool" where
  "cn_weak n \<longleftrightarrow> \<not> (cn_writable n \<and> cn_receiving n)"

definition cn_active :: "ice_conn \<Rightarrow> bool" where
  "cn_active n \<longleftrightarrow> cn_write_state n \<noteq> STATE_WRITE_TIMEOUT"

definition last_received :: "ice_conn \<Rightarrow> int" where
  "last_received n = max (max (cn_last_ping_received n) (cn_last_ping_response_received n)) (cn_last_data_received n)"

definition compute_receiving :: "int \<Rightarrow> ice_conn \<Rightarrow> bool" where
  "compute_receiving now n \<longleftrightarrow>
     (if cn_last_ping_sent n < cn_last_ping_response_received n then True
      else last_received n > 0 \<and> now < last_received n + WEAK_CONNECTION_RECEIVE_TIMEOUT)"

definition MissResponse :: "int \<Rightarrow> ice_conn \<Rightarrow> bool" where
  "MissResponse now n = (case cn_pings n of
     [] \<Rightarrow> False
   | (_, sent_time) # _ \<Rightarrow> now - sent_time > 2 * cn_rtt n)"

definition stable :: "int \<Rightarrow> ice_conn \<Rightarrow> bool" where
  "stable now n \<longleftrightarrow> cn_rtt_samples n > RTT_RATIO + 1 \<and> \<not> MissResponse now n"

text \<open>\<open>expected_response_time\<close> is an \<open>int\<close>: the 64-bit time is cut to 32 bits.\<close>

definition TooManyPingFails :: "nat \<Rightarrow> int \<Rightarrow> int \<Rightarrow> ice_conn \<Rightarrow> bool" where
  "TooManyPingFails max_pings rtt now n =
     (if length (cn_pings n) < max_pings then False
      else
        let expected_response_time = sint (word_of_int (snd (cn_pings n ! (max_pings - 1)) + rtt) :: u32)
        in now > expected_response_time)"

definition TooLongWithoutResponse :: "int \<Rightarrow> int \<Rightarrow> ice_conn \<Rightarrow> bool" where
  "TooLongWithoutResponse min_time now n = (case cn_pings n of
     [] \<Rightarrow> False
   | (_, sent_time) # _ \<Rightarrow> now > sent_time + min_time)"

definition clamped_rtt :: "ice_conn \<Rightarrow> int" where
  "clamped_rtt n =
     (let rtt = 2 * cn_rtt n in if rtt < MIN_RTT then MIN_RTT else if rtt > MAX_RTT then MAX_RTT else rtt)"

text \<open>\<open>2 * std::max(g, d)\<close> is computed on 32 bits before it is widened.\<close>

definition pair_priority :: "u32 \<Rightarrow> u32 \<Rightarrow> u64" where
  "pair_priority g d = push_bit 32 (ucast (min g d)) + ucast (2 * max g d) + (if g > d then 1 else 0)"

definition MaybeSetRemoteIceParams :: "ice_params \<Rightarrow> ice_conn \<Rightarrow> ice_conn" where
  "MaybeSetRemoteIceParams ps n =
     (if ca_username (cn_remote n) = ice_ufrag ps \<and> ca_password (cn_remote n) = []
      then n\<lparr>cn_remote := (cn_remote n)\<lparr>ca_password := ice_pwd ps\<rparr>\<rparr> else n)"

subsection \<open>Messages of a connection\<close>

definition CreateStunUsername :: "bytes \<Rightarrow> udp_port \<Rightarrow> bytes" where
  "CreateStunUsername remote_username p = remote_username @ [58] @ ice_ufrag (po_params p)"

text \<open>\<open>ConnectionRequest::Prepare\<close>; the booleans of the two last calls are ignored.\<close>

definition Prepare :: "'a ice_lib_scheme \<Rightarrow> udp_port \<Rightarrow> candidate \<Rightarrow> stun_message \<Rightarrow> stun_message" where
  "Prepare I port remote msg0 =
     (let msg1 = msg0\<lparr>sm_type := STUN_BINDING_REQUEST\<rparr>;
          username = CreateStunUsername (ca_username remote) port;
          msg2 = AddAttribute (StunByteStringAttribute STUN_ATTR_USERNAME username) msg1;
          msg3 = AddAttribute (StunUInt64Attribute STUN_ATTR_ICE_CONTROLLING 0) msg2;
          msg4 = AddAttribute (StunByteStringAttribute STUN_ATTR_USE_CANDIDATE []) msg3;
          prflx_priority = push_bit 24 (word_of_int ICE_TYPE_PREFERENCE_PRFLX)
            OR (ca_priority (hd (po_candidates port)) AND 0x00FFFFFF);
          msg5 = AddAttribute (StunUInt32Attribute STUN_ATTR_PRIORITY prflx_priority) msg4;
          msg6 = snd (AddMessageIntegrity (wire I) (ca_password remote) msg5)
      in snd (AddFingerprint (wire I) msg6))"

text \<open>\<open>SendStunBindingResponse\<close> without the sending: \<open>None\<close> when nothing is sent.\<close>

definition binding_response :: "'a ice_lib_scheme \<Rightarrow> udp_port \<Rightarrow> candidate \<Rightarrow> stun_message \<Rightarrow> bytes option" where
  "binding_response I port remote stun_msg =
     (case GetByteString STUN_ATTR_USERNAME stun_msg of
        None \<Rightarrow> None
      | Some _ \<Rightarrow>
          let response0 = StunMessage\<lparr>sm_type := STUN_BINDING_RESPONSE,
                sm_transaction_id := sm_transaction_id stun_msg\<rparr>;
              response1 = AddAttribute (StunXorAddressAttribute STUN_ATTR_XOR_MAPPED_ADDRESS (ca_address remote)) response0;
              response2 = snd (AddMessageIntegrity (wire I) (ice_pwd (po_params port)) response1);
              response3 = snd (AddFingerprint (wire I) response2)
          in Write (wire I) response3)"

text \<open>\<open>UDPPort::SendBindingErrorResponse\<close> likewise.\<close>

definition binding_error_response :: "'a ice_lib_scheme \<Rightarrow> udp_port \<Rightarrow> stun_message \<Rightarrow> int \<Rightarrow> bytes \<Rightarrow> bytes option" where
  "binding_error_response I port stun_msg err_code reason =
     (if \<not> po_open port then None
      else
        let response0 = StunMessage\<lparr>sm_type := STUN_BINDING_ERROR_RESPONSE,
              sm_transaction_id := sm_transaction_id stun_msg\<rparr>;
            error_attr = set_reason reason (set_code err_code CreateErrorCode);
            response1 = AddAttribute error_attr response0;
            response2 = (if err_code \<noteq> STUN_ERROR_BAD_REQUEST \<and> err_code \<noteq> STUN_ERROR_UNAUTHORIZED
              then snd (AddMessageIntegrity (wire I) (ice_pwd (po_params port)) response1) else response1);
            response3 = snd (AddFingerprint (wire I) response2)
        in Write (wire I) response3)"

definition reason_bad_request :: bytes where
  "reason_bad_request = [66, 97, 100, 32, 114, 101, 113, 117, 101, 115, 116]"

definition reason_unauthorized :: bytes where
  "reason_unauthorized = [85, 110, 97, 117, 116, 104, 111, 114, 105, 122, 101, 100]"

definition ParseStunUsername :: "'a ice_lib_scheme \<Rightarrow> stun_message \<Rightarrow> (bytes \<times> bytes) option" where
  "ParseStunUsername I stun_msg =
     (case GetByteString STUN_ATTR_USERNAME stun_msg of
        None \<Rightarrow> None
      | Some attr \<Rightarrow> (case at_value attr of
          VByteString username \<Rightarrow> (case split_at I 58 username of
            [local_ufrag, remote_ufrag] \<Rightarrow> Some (local_ufrag, remote_ufrag)
          | _ \<Rightarrow> None)
        | _ \<Rightarrow> None))"

text \<open>
  \<open>UDPPort::GetStunMessage\<close>: not a STUN packet, a STUN packet answered or dropped here (with
  the error response to send, if any), or a message with the remote user name.
  \<open>GsFault\<close> is the read past the packet in the integrity check.
\<close>

datatype gs_result = GsNotStun | GsHandled "bytes option" | GsMessage stun_message bytes | GsFault

definition GetStunMessage :: "'a ice_lib_scheme \<Rightarrow> udp_port \<Rightarrow> bytes \<Rightarrow> gs_result" where
  "GetStunMessage I port data =
     (if \<not> ValidateFingerprint (wire I) data then GsNotStun
      else (case Read (wire I) data StunMessage of
        Some (True, stun_msg, []) \<Rightarrow>
          if sm_type stun_msg = STUN_BINDING_REQUEST then
            if GetByteString STUN_ATTR_USERNAME stun_msg = None \<or>
               GetByteString STUN_ATTR_MESSAGE_INTEGRITY stun_msg = None
            then GsHandled (binding_error_response I port stun_msg STUN_ERROR_BAD_REQUEST reason_bad_request)
            else (case ParseStunUsername I stun_msg of
              None \<Rightarrow> GsHandled (binding_error_response I port stun_msg STUN_ERROR_UNAUTHORIZED reason_unauthorized)
            | Some (local_ufrag, remote_ufrag) \<Rightarrow>
                if local_ufrag \<noteq> ice_ufrag (po_params port)
                then GsHandled (binding_error_response I port stun_msg STUN_ERROR_UNAUTHORIZED reason_unauthorized)
                else (case ValidateMessageIntegrity (wire I) (ice_pwd (po_params port)) stun_msg of
                  None \<Rightarrow> GsFault
                | Some msg' \<Rightarrow>
                    if sm_integrity msg' \<noteq> kIntegrityOk
                    then GsHandled (binding_error_response I port msg' STUN_ERROR_UNAUTHORIZED reason_unauthorized)
                    else GsMessage msg' remote_ufrag))
          else GsMessage stun_msg []
      | _ \<Rightarrow> GsNotStun))"

end
