(* ===== verification/IceChannel.thy ===== *)
theory IceChannel
  imports IceBase
begin

text \<open>
  \<open>ice_controller.cpp\<close>, \<open>ice_transport_channel.cpp\<close> and the parts of \<open>ice_connection.cpp\<close>,
  \<open>stun_request.cpp\<close> and \<open>udp_port.cpp\<close> that change state. One record \<open>channel\<close> holds the
  transport channel, its controller, its ports and a heap of live connections: a pointer
  to a connection is an address in that heap, \<open>delete\<close> removes the entry, and an access to
  an address that is not live is the value \<open>UseAfterFree\<close>. The signals are synchronous
  calls, as sigslot makes them; what leaves the channel (packets, signals to the agent,
  timer calls) is appended to \<open>ch_out\<close>. \<open>now\<close> is \<open>rtc::TimeMillis()\<close> during the handler.
\<close>

subsection \<open>State and errors\<close>

datatype fault = UseAfterFree nat | DoubleFree bytes | BadRead

datatype ice_state = kNew | kChecking | kConnected | kCompleted | kFailed | kDisconnected | kClosed

datatype ice_out =
    OutSend sock_addr bytes
  | OutWritable bool
  | OutReceiving bool
  | OutIceState ice_state
  | OutData bytes
  | OutCandidates "candidate list"
  | OutStartTimer int
  | OutStopTimer

record channel =
  ch_component :: ice_component
  ch_params :: ice_params
  ch_remote_params :: ice_params
  ch_local_candidates :: "candidate list"
  ch_ports :: "udp_port list"
  ch_heap :: "nat \<rightharpoonup> ice_conn"
  ct_selected :: "nat option"
  ct_connections :: "nat list"
  ct_unpinged :: "nat set"
  ct_pinged :: "nat set"
  ch_start_pinging :: bool
  ch_cur_ping_interval :: int
  ch_last_ping_sent_ms :: int
  ch_selected :: "nat option"
  ch_receiving :: bool
  ch_writable :: bool
  ch_state :: ice_state
  ch_had_connection :: bool
  ch_has_been_connection :: bool
  ch_out :: "ice_out list"

definition IceTransportChannel :: "ice_component \<Rightarrow> channel" where
  "IceTransportChannel component =
     \<lparr>ch_component = component, ch_params = \<lparr>ice_ufrag = [], ice_pwd = []\<rparr>,
      ch_remote_params = \<lparr>ice_ufrag = [], ice_pwd = []\<rparr>, ch_local_candidates = [], ch_ports = [],
      ch_heap = Map.empty, ct_selected = None, ct_connections = [], ct_unpinged = {}, ct_pinged = {},
      ch_start_pinging = False, ch_cur_ping_interval = WEAK_PING_INTERVAL, ch_last_ping_sent_ms = 0,
      ch_selected = None, ch_receiving = False, ch_writable = False, ch_state = kNew,
      ch_had_connection = False, ch_has_been_connection = False, ch_out = []\<rparr>"

type_synonym 'a result = "fault + 'a"

definition deref :: "channel \<Rightarrow> nat \<Rightarrow> ice_conn result" where
  "deref c p = (case ch_heap c p of None \<Rightarrow> Inl (UseAfterFree p) | Some n \<Rightarrow> Inr n)"

definition assign :: "nat \<Rightarrow> (ice_conn \<Rightarrow> ice_conn) \<Rightarrow> channel \<Rightarrow> channel result" where
  "assign p f c = and_then (deref c p) (\<lambda>n. Inr (c\<lparr>ch_heap := (ch_heap c)(p \<mapsto> f n)\<rparr>))"

definition emit :: "ice_out \<Rightarrow> channel \<Rightarrow> channel" where
  "emit e c = c\<lparr>ch_out := ch_out c @ [e]\<rparr>"

text \<open>A search with \<open>break\<close> over a container of connections.\<close>

fun any_conn :: "(nat \<Rightarrow> bool result) \<Rightarrow> nat list \<Rightarrow> bool result" where
  "any_conn P [] = Inr False"
| "any_conn P (p # ps) = and_then (P p) (\<lambda>b. if b then Inr True else any_conn P ps)"

definition port_of :: "channel \<Rightarrow> ice_conn \<Rightarrow> udp_port" where
  "port_of c n = ch_ports c ! cn_port n"

definition SendTo :: "udp_port \<Rightarrow> bytes \<Rightarrow> sock_addr \<Rightarrow> channel \<Rightarrow> channel" where
  "SendTo port data addr c = (if po_open port then emit (OutSend addr data) c else c)"

subsection \<open>The controller\<close>

definition Ctl_AddConnection :: "nat \<Rightarrow> channel \<Rightarrow> channel" where
  "Ctl_AddConnection p c = c\<lparr>ct_connections := ct_connections c @ [p], ct_unpinged := insert p (ct_unpinged c)\<rparr>"

definition Ctl_OnConnectionDestroyed :: "nat \<Rightarrow> channel \<Rightarrow> channel" where
  "Ctl_OnConnectionDestroyed p c = c\<lparr>ct_pinged := ct_pinged c - {p}, ct_unpinged := ct_unpinged c - {p},
     ct_connections := remove1 p (ct_connections c)\<rparr>"

definition ctl_weak :: "channel \<Rightarrow> bool result" where
  "ctl_weak c = (case ct_selected c of
     None \<Rightarrow> Inr True
   | Some s \<Rightarrow> and_then (deref c s) (\<lambda>n. Inr (cn_weak n)))"

definition GetConnectionPingInterval :: "channel \<Rightarrow> int \<Rightarrow> nat \<Rightarrow> int result" where
  "GetConnectionPingInterval c now p =
     and_then (deref c p) (\<lambda>n.
       if cn_num_pings_sent n < MIN_PINGS_AT_WEAK_PING_INTERVAL then Inr WEAK_PING_INTERVAL
       else and_then (ctl_weak c) (\<lambda>w.
         if w \<or> \<not> stable now n then Inr STABLING_CONNECTION_PING_INTERVAL
         else Inr STABLE_CONNECTION_PING_INTERVAL))"

definition IsConnectionPastPingInterval :: "channel \<Rightarrow> int \<Rightarrow> nat \<Rightarrow> bool result" where
  "IsConnectionPastPingInterval c now p =
     and_then (GetConnectionPingInterval c now p) (\<lambda>interval.
       and_then (deref c p) (\<lambda>n. Inr (now \<ge> cn_last_ping_sent n + interval)))"

definition IsPingable :: "channel \<Rightarrow> int \<Rightarrow> nat \<Rightarrow> bool result" where
  "IsPingable c now p =
     and_then (deref c p) (\<lambda>n.
       if ca_username (cn_remote n) = [] \<or> ca_password (cn_remote n) = [] then Inr False
       else and_then (ctl_weak c) (\<lambda>w. if w then Inr True else IsConnectionPastPingInterval c now p))"

definition HasPingableConnection :: "channel \<Rightarrow> int \<Rightarrow> bool result" where
  "HasPingableConnection c now = any_conn (IsPingable c now) (ct_connections c)"

definition MorePingable :: "ice_conn \<Rightarrow> ice_conn option \<Rightarrow> bool" where
  "MorePingable n1 n2 = (case n2 of None \<Rightarrow> True | Some m \<Rightarrow> cn_last_ping_sent n1 < cn_last_ping_sent m)"

fun find_conn :: "channel \<Rightarrow> int \<Rightarrow> nat list \<Rightarrow> nat option \<Rightarrow> nat option result" where
  "find_conn c now [] best = Inr best"
| "find_conn c now (p # ps) best =
     and_then (IsPingable c now p) (\<lambda>ok.
       if \<not> ok then find_conn c now ps best
       else and_then (deref c p) (\<lambda>n.
         and_then (case best of None \<Rightarrow> Inr None | Some q \<Rightarrow> and_then (deref c q) (\<lambda>m. Inr (Some m))) (\<lambda>m.
           find_conn c now ps (if MorePingable n m then Some p else best))))"

text \<open>A \<open>std::set\<close> of pointers is visited in the order of the addresses.\<close>

definition FindNextPingableConnection :: "channel \<Rightarrow> int \<Rightarrow> (nat option \<times> channel) result" where
  "FindNextPingableConnection c now =
     and_then (case ct_selected c of
         None \<Rightarrow> Inr False
       | Some s \<Rightarrow> and_then (deref c s) (\<lambda>n.
           if cn_writable n then IsConnectionPastPingInterval c now s else Inr False)) (\<lambda>use_selected.
     if use_selected then Inr (ct_selected c, c)
     else and_then (any_conn (IsPingable c now) (sorted_list_of_set (ct_unpinged c))) (\<lambda>has_pingable.
       let c1 = (if has_pingable then c
                 else c\<lparr>ct_unpinged := ct_unpinged c \<union> ct_pinged c, ct_pinged := {}\<rparr>)
       in and_then (find_conn c1 now (sorted_list_of_set (ct_unpinged c1)) None) (\<lambda>found. Inr (found, c1))))"

definition SelectConnectionToPing :: "channel \<Rightarrow> int \<Rightarrow> int \<Rightarrow> (nat option \<times> int \<times> channel) result" where
  "SelectConnectionToPing c last_ping_sent_ms now =
     and_then (any_conn (\<lambda>p. and_then (deref c p) (\<lambda>n.
         Inr (cn_num_pings_sent n < MIN_PINGS_AT_WEAK_PING_INTERVAL))) (ct_connections c)) (\<lambda>need_ping_more_at_weak.
     and_then (ctl_weak c) (\<lambda>w.
       let ping_interval = (if w \<or> need_ping_more_at_weak then WEAK_PING_INTERVAL else STRONG_PING_INTERVAL)
       in if now \<ge> last_ping_sent_ms + ping_interval
          then and_then (FindNextPingableConnection c now) (\<lambda>(conn, c1). Inr (conn, ping_interval, c1))
          else Inr (None, ping_interval, c)))"

definition conn_priority :: "channel \<Rightarrow> ice_conn \<Rightarrow> u64" where
  "conn_priority c n =
     pair_priority (ca_priority (hd (po_candidates (port_of c n)))) (ca_priority (cn_remote n))"

definition CompareConnections :: "channel \<Rightarrow> ice_conn \<Rightarrow> ice_conn \<Rightarrow> int" where
  "CompareConnections c a b =
     (if cn_writable a \<and> \<not> cn_writable b then 1
      else if \<not> cn_writable a \<and> cn_writable b then -1
      else if cn_write_state a < cn_write_state b then 1
      else if cn_write_state a > cn_write_state b then -1
      else if cn_receiving a \<and> \<not> cn_receiving b then 1
      else if \<not> cn_receiving a \<and> cn_receiving b then -1
      else if conn_priority c a > conn_priority c b then 1
      else if conn_priority c a < conn_priority c b then -1
      else 0)"

definition conn_before :: "channel \<Rightarrow> ice_conn \<Rightarrow> ice_conn \<Rightarrow> bool" where
  "conn_before c a b =
     (let cmp = CompareConnections c a b in if cmp \<noteq> 0 then cmp > 0 else cn_rtt a < cn_rtt b)"

text \<open>\<open>std::stable_sort\<close>: insertion from the right keeps equal elements in order.\<close>

fun insert_by :: "('a \<Rightarrow> 'a \<Rightarrow> bool) \<Rightarrow> 'a \<Rightarrow> 'a list \<Rightarrow> 'a list" where
  "insert_by lt x [] = [x]"
| "insert_by lt x (y # ys) = (if lt y x then y # insert_by lt x ys else x # y # ys)"

definition stable_sort :: "('a \<Rightarrow> 'a \<Rightarrow> bool) \<Rightarrow> 'a list \<Rightarrow> 'a list" where
  "stable_sort lt xs = foldr (insert_by lt) xs []"

definition conn_at :: "channel \<Rightarrow> nat \<Rightarrow> ice_conn" where
  "conn_at c p = the (ch_heap c p)"

definition ReadyToSend :: "ice_conn \<Rightarrow> bool" where
  "ReadyToSend n \<longleftrightarrow> cn_writable n \<or> cn_write_state n = STATE_WRITE_UNRELIABLE"

definition SortAndSwitchConnection :: "channel \<Rightarrow> (nat option \<times> channel) result" where
  "SortAndSwitchConnection c =
     and_then (each (\<lambda>p _. and_then (deref c p) (\<lambda>_. Inr ())) (ct_connections c) ()) (\<lambda>_.
     let c1 = c\<lparr>ct_connections := stable_sort (\<lambda>p q. conn_before c (conn_at c p) (conn_at c q)) (ct_connections c)\<rparr>
     in case ct_connections c1 of
          [] \<Rightarrow> Inr (None, c1)
        | top_connection # _ \<Rightarrow>
            if \<not> ReadyToSend (conn_at c top_connection) \<or> ct_selected c1 = Some top_connection then Inr (None, c1)
            else (case ct_selected c1 of
                None \<Rightarrow> Inr (Some top_connection, c1)
              | Some s \<Rightarrow> and_then (deref c1 s) (\<lambda>n.
                  if cn_rtt (conn_at c top_connection) \<le> cn_rtt n - 10 then Inr (Some top_connection, c1) else Inr (None, c1))))"

definition MarkConnectionPinged :: "nat \<Rightarrow> channel \<Rightarrow> channel" where
  "MarkConnectionPinged p c = (if p \<in> ct_pinged c then c
     else c\<lparr>ct_pinged := insert p (ct_pinged c), ct_unpinged := ct_unpinged c - {p}\<rparr>)"

subsection \<open>The state of the channel\<close>

definition ComputeIceTransportState :: "channel \<Rightarrow> ice_state result" where
  "ComputeIceTransportState c =
     and_then (any_conn (\<lambda>p. and_then (deref c p) (\<lambda>n. Inr (cn_active n))) (ct_connections c)) (\<lambda>has_connection.
       if ch_had_connection c \<and> \<not> has_connection then Inr kFailed
       else if ch_has_been_connection c \<and> \<not> ch_writable c then Inr kDisconnected
       else if \<not> ch_had_connection c \<and> \<not> has_connection then Inr kNew
       else if has_connection \<and> \<not> ch_writable c then Inr kChecking
       else Inr kConnected)"

definition set_writable :: "bool \<Rightarrow> channel \<Rightarrow> channel" where
  "set_writable writable c =
     (if ch_writable c = writable then c
      else emit (OutWritable writable)
        (c\<lparr>ch_has_been_connection := writable \<or> ch_has_been_connection c, ch_writable := writable\<rparr>))"

definition set_receiving :: "bool \<Rightarrow> channel \<Rightarrow> channel" where
  "set_receiving receiving c =
     (if ch_receiving c = receiving then c
      else emit (OutReceiving receiving) (c\<lparr>ch_receiving := receiving\<rparr>))"

definition selected_writable :: "channel \<Rightarrow> bool result" where
  "selected_writable c = (case ch_selected c of
     None \<Rightarrow> Inr False
   | Some s \<Rightarrow> and_then (deref c s) (\<lambda>n. Inr (cn_writable n)))"

definition UpdateState :: "channel \<Rightarrow> channel result" where
  "UpdateState c =
     and_then (selected_writable c) (\<lambda>writable.
     let c1 = set_writable writable c in
     and_then (any_conn (\<lambda>p. and_then (deref c1 p) (\<lambda>n. Inr (cn_receiving n))) (ct_connections c1)) (\<lambda>receiving.
     let c2 = set_receiving receiving c1 in
     and_then (ComputeIceTransportState c2) (\<lambda>state.
     if state \<noteq> ch_state c2 then Inr (emit (OutIceState state) (c2\<lparr>ch_state := state\<rparr>)) else Inr c2)))"

definition SwitchSelectedConnection :: "nat option \<Rightarrow> channel \<Rightarrow> channel result" where
  "SwitchSelectedConnection conn c =
     (let c1 = c\<lparr>ch_selected := conn\<rparr> in
      and_then (case ch_selected c of
          None \<Rightarrow> Inr c1
        | Some old \<Rightarrow> assign old (\<lambda>n. n\<lparr>cn_selected := False\<rparr>) c1) (\<lambda>c2.
      case conn of
        None \<Rightarrow> Inr c2
      | Some p \<Rightarrow> and_then (assign p (\<lambda>n. n\<lparr>cn_selected := True\<rparr>) c2) (\<lambda>c3.
          Inr (c3\<lparr>ct_selected := Some p\<rparr>))))"

definition MaybeSwitchSelectedConnection :: "nat option \<Rightarrow> channel \<Rightarrow> channel result" where
  "MaybeSwitchSelectedConnection conn c =
     (case conn of None \<Rightarrow> Inr c | Some _ \<Rightarrow> SwitchSelectedConnection conn c)"

definition MaybeStartPinging :: "int \<Rightarrow> channel \<Rightarrow> channel result" where
  "MaybeStartPinging now c =
     (if ch_start_pinging c then Inr c
      else and_then (HasPingableConnection c now) (\<lambda>b.
        if b then Inr (emit (OutStartTimer (ch_cur_ping_interval c * 1000)) c\<lparr>ch_start_pinging := True\<rparr>)
        else Inr c))"

definition SortConnectionsAndUpdateState :: "int \<Rightarrow> channel \<Rightarrow> channel result" where
  "SortConnectionsAndUpdateState now c =
     and_then (SortAndSwitchConnection c) (\<lambda>(conn, c1).
     and_then (MaybeSwitchSelectedConnection conn c1) (\<lambda>c2.
     and_then (UpdateState c2) (MaybeStartPinging now)))"

definition OnConnectionStateChange :: "int \<Rightarrow> channel \<Rightarrow> channel result" where
  "OnConnectionStateChange now c = SortConnectionsAndUpdateState now c"

definition OnConnectionDestroyed :: "int \<Rightarrow> nat \<Rightarrow> channel \<Rightarrow> channel result" where
  "OnConnectionDestroyed now p c =
     (let c1 = Ctl_OnConnectionDestroyed p c in
      if ch_selected c1 = Some p
      then and_then (SwitchSelectedConnection None c1) (SortConnectionsAndUpdateState now)
      else UpdateState c1)"

definition AddConnection :: "nat \<Rightarrow> channel \<Rightarrow> channel" where
  "AddConnection p c = Ctl_AddConnection p (c\<lparr>ch_had_connection := True\<rparr>)"

subsection \<open>A connection changes state\<close>

definition UpdateReceiving :: "int \<Rightarrow> nat \<Rightarrow> channel \<Rightarrow> channel result" where
  "UpdateReceiving now p c =
     and_then (deref c p) (\<lambda>n.
       let receiving = compute_receiving now n in
       if cn_receiving n = receiving then Inr c
       else and_then (assign p (\<lambda>n. n\<lparr>cn_receiving := receiving\<rparr>) c) (OnConnectionStateChange now))"

definition set_write_state :: "int \<Rightarrow> nat \<Rightarrow> write_state \<Rightarrow> channel \<Rightarrow> channel result" where
  "set_write_state now p state c =
     and_then (deref c p) (\<lambda>n.
       and_then (assign p (\<lambda>n. n\<lparr>cn_write_state := state\<rparr>) c) (\<lambda>c1.
         if cn_write_state n \<noteq> state then OnConnectionStateChange now c1 else Inr c1))"

definition set_state :: "nat \<Rightarrow> pair_state \<Rightarrow> channel \<Rightarrow> channel result" where
  "set_state p state = assign p (\<lambda>n. n\<lparr>cn_state := state\<rparr>)"

definition ReceivedPingResponse :: "'a ice_lib_scheme \<Rightarrow> int \<Rightarrow> int \<Rightarrow> nat \<Rightarrow> channel \<Rightarrow> channel result" where
  "ReceivedPingResponse I now rtt p c =
     and_then (assign p (\<lambda>n. n\<lparr>
         cn_rtt := (if cn_rtt_samples n > 0 then GetNextMovingAverage I (cn_rtt n) rtt RTT_RATIO else rtt),
         cn_rtt_samples := cn_rtt_samples n + 1,
         cn_last_ping_response_received := now, cn_pings := []\<rparr>) c) (\<lambda>c1.
     and_then (UpdateReceiving now p c1) (\<lambda>c2.
     and_then (set_write_state now p STATE_WRITABLE c2) (set_state p SUCCEEDED)))"

text \<open>\<open>delete this\<close> frees the connection together with its request manager and requests.\<close>

definition Destroy :: "int \<Rightarrow> nat \<Rightarrow> channel \<Rightarrow> channel result" where
  "Destroy now p c =
     and_then (deref c p) (\<lambda>_.
     and_then (OnConnectionDestroyed now p c) (\<lambda>c1.
       Inr (c1\<lparr>ch_heap := (ch_heap c1)(p := None)\<rparr>)))"

definition FailAndDestroy :: "int \<Rightarrow> nat \<Rightarrow> channel \<Rightarrow> channel result" where
  "FailAndDestroy now p c = and_then (set_state p FAILED c) (Destroy now p)"

definition ConnUpdateState :: "int \<Rightarrow> nat \<Rightarrow> channel \<Rightarrow> channel result" where
  "ConnUpdateState now p c =
     and_then (deref c p) (\<lambda>n.
     and_then (if cn_write_state n = STATE_WRITABLE \<and>
                  TooManyPingFails CONNECTION_WRITE_CONNECT_FAILS (clamped_rtt n) now n \<and>
                  TooLongWithoutResponse CONNECTION_WRITE_CONNECT_TIMEOUT now n
               then set_write_state now p STATE_WRITE_UNRELIABLE c else Inr c) (\<lambda>c1.
     and_then (deref c1 p) (\<lambda>n1.
     and_then (if (cn_write_state n1 = STATE_WRITE_UNRELIABLE \<or> cn_write_state n1 = STATE_WRITE_INIT) \<and>
                  TooLongWithoutResponse CONNECTION_WRITE_TIMEOUT now n1
               then and_then (set_write_state now p STATE_WRITE_TIMEOUT c1) (FailAndDestroy now p)
               else Inr c1) (\<lambda>c2.
     UpdateReceiving now p c2))))"

subsection \<open>Requests\<close>

text \<open>\<open>Ping\<close> with \<open>StunRequestManager::Send\<close>; \<open>tid\<close> is the random transaction id.\<close>

definition Ping :: "'a ice_lib_scheme \<Rightarrow> int \<Rightarrow> bytes \<Rightarrow> nat \<Rightarrow> channel \<Rightarrow> channel result" where
  "Ping I now tid p c =
     and_then (deref c p) (\<lambda>n.
       let msg = Prepare I (port_of c n) (cn_remote n) (StunMessage\<lparr>sm_transaction_id := tid\<rparr>);
           request = \<lparr>rq_msg = msg, rq_ts = now\<rparr>
       in and_then (assign p (\<lambda>n. n\<lparr>cn_last_ping_sent := now, cn_pings := cn_pings n @ [(tid, now)],
              cn_requests := (cn_requests n)(tid \<mapsto> request)\<rparr>) c) (\<lambda>c1.
          let c2 = (case Write (wire I) msg of
                None \<Rightarrow> c1
              | Some buf \<Rightarrow> SendTo (port_of c n) buf (ca_address (cn_remote n)) c1)
          in assign p (\<lambda>n. n\<lparr>cn_state := IN_PROGRESS, cn_num_pings_sent := cn_num_pings_sent n + 1\<rparr>) c2))"

definition OnConnectionRequestResponse :: "'a ice_lib_scheme \<Rightarrow> int \<Rightarrow> stun_request \<Rightarrow> nat \<Rightarrow> channel \<Rightarrow> channel result" where
  "OnConnectionRequestResponse I now request p c = ReceivedPingResponse I now (now - rq_ts request) p c"

definition OnConnectionRequestErrorResponse :: "int \<Rightarrow> stun_message \<Rightarrow> nat \<Rightarrow> channel \<Rightarrow> channel result" where
  "OnConnectionRequestErrorResponse now msg p c =
     (let error_code = GetErrorCodeValue msg in
      if error_code = STUN_ERROR_UNAUTHORIZED \<or> error_code = STUN_ERROR_UNKNOWN_ATTRIBUTE \<or>
         error_code = STUN_ERROR_SERVER_ERROR
      then Inr c else FailAndDestroy now p c)"

text \<open>
  \<open>delete request\<close> at the end of \<open>CheckResponse\<close>: when the connection is gone, the
  destructor of its request manager has freed the request already.
\<close>

definition delete_request :: "bytes \<Rightarrow> nat \<Rightarrow> channel \<Rightarrow> channel result" where
  "delete_request tid p c = (case ch_heap c p of
     None \<Rightarrow> Inl (DoubleFree tid)
   | Some n \<Rightarrow> assign p (\<lambda>n. n\<lparr>cn_requests := (cn_requests n)(tid := None)\<rparr>) c)"

definition CheckResponse :: "'a ice_lib_scheme \<Rightarrow> int \<Rightarrow> stun_message \<Rightarrow> nat \<Rightarrow> channel \<Rightarrow> channel result" where
  "CheckResponse I now msg p c =
     and_then (deref c p) (\<lambda>n.
       case cn_requests n (sm_transaction_id msg) of
         None \<Rightarrow> Inr c
       | Some request \<Rightarrow>
           let rtype = (ucast (sm_type (rq_msg request)) :: u32) in
           and_then (if ucast (sm_type msg) = GetStunSuccessResponse rtype
                     then OnConnectionRequestResponse I now request p c
                     else if ucast (sm_type msg) = GetStunErrorResponse rtype
                     then OnConnectionRequestErrorResponse now msg p c
                     else Inr c)
             (delete_request (sm_transaction_id msg) p))"

subsection \<open>Packets\<close>

definition HandleStunBindingRequest :: "'a ice_lib_scheme \<Rightarrow> stun_message \<Rightarrow> nat \<Rightarrow> channel \<Rightarrow> channel result" where
  "HandleStunBindingRequest I msg p c =
     and_then (deref c p) (\<lambda>n.
       Inr (case binding_response I (port_of c n) (cn_remote n) msg of
              None \<Rightarrow> c
            | Some buf \<Rightarrow> SendTo (port_of c n) buf (ca_address (cn_remote n)) c))"

definition send_error :: "udp_port \<Rightarrow> bytes option \<Rightarrow> sock_addr \<Rightarrow> channel \<Rightarrow> channel" where
  "send_error port response addr c = (case response of None \<Rightarrow> c | Some buf \<Rightarrow> SendTo port buf addr c)"

definition ConnOnReadPacket :: "'a ice_lib_scheme \<Rightarrow> int \<Rightarrow> bytes \<Rightarrow> nat \<Rightarrow> channel \<Rightarrow> channel result" where
  "ConnOnReadPacket I now data p c =
     and_then (deref c p) (\<lambda>n.
       let port = port_of c n; remote = cn_remote n in
       case GetStunMessage I port data of
         GsFault \<Rightarrow> Inl BadRead
       | GsNotStun \<Rightarrow>
           and_then (assign p (\<lambda>n. n\<lparr>cn_last_data_received := now\<rparr>) c) (\<lambda>c1. Inr (emit (OutData data) c1))
       | GsHandled response \<Rightarrow> Inr (send_error port response (ca_address remote) c)
       | GsMessage msg remote_ufrag \<Rightarrow>
           if sm_type msg = STUN_BINDING_REQUEST then
             if remote_ufrag \<noteq> ca_username remote
             then Inr (send_error port (binding_error_response I port msg STUN_ERROR_UNAUTHORIZED reason_unauthorized)
                         (ca_address remote) c)
             else and_then (assign p (\<lambda>n. n\<lparr>cn_last_ping_received := now\<rparr>) c)
                    (HandleStunBindingRequest I msg p)
           else if sm_type msg = STUN_BINDING_RESPONSE \<or> sm_type msg = STUN_BINDING_ERROR_RESPONSE then
             (case ValidateMessageIntegrity (wire I) (ca_password remote) msg of
                None \<Rightarrow> Inl BadRead
              | Some msg' \<Rightarrow>
                  if sm_integrity msg' = kIntegrityOk then CheckResponse I now msg' p c else Inr c)
           else Inr c)"

definition set_port :: "nat \<Rightarrow> (udp_port \<Rightarrow> udp_port) \<Rightarrow> channel \<Rightarrow> channel" where
  "set_port i f c = c\<lparr>ch_ports := (ch_ports c)[i := f (ch_ports c ! i)]\<rparr>"

text \<open>\<open>UDPPort::CreateConnection\<close>: \<open>new_conn\<close> is the address the allocator returned.\<close>

definition CreateConnection :: "int \<Rightarrow> nat \<Rightarrow> candidate \<Rightarrow> nat \<Rightarrow> channel \<Rightarrow> channel result" where
  "CreateConnection now i remote new_conn c =
     (let c1 = c\<lparr>ch_heap := (ch_heap c)(new_conn \<mapsto> IceConnection i remote)\<rparr>;
          bind_addr = set_port i (\<lambda>port. port\<lparr>po_connections := (po_connections port)(ca_address remote \<mapsto> new_conn)\<rparr>)
      in case po_connections (ch_ports c ! i) (ca_address remote) of
           None \<Rightarrow> Inr (bind_addr c1)
         | Some old \<Rightarrow>
             if old = new_conn then Inr c1
             else and_then (Destroy now old c1) (\<lambda>c2. Inr (bind_addr c2)))"

definition OnUnknownAddress ::
    "'a ice_lib_scheme \<Rightarrow> int \<Rightarrow> nat \<Rightarrow> nat \<Rightarrow> sock_addr \<Rightarrow> stun_message \<Rightarrow> bytes \<Rightarrow> channel \<Rightarrow> channel result" where
  "OnUnknownAddress I now new_conn i addr msg remote_ufrag c =
     (case GetUInt32 STUN_ATTR_PRIORITY msg of
        None \<Rightarrow> Inr (send_error (ch_ports c ! i)
          (binding_error_response I (ch_ports c ! i) msg STUN_ERROR_BAD_REQUEST reason_bad_request) addr c)
      | Some priority_attr \<Rightarrow>
          let remote_candidate = \<lparr>ca_component = ch_component c, ca_protocol = ''udp'', ca_address = addr,
                ca_priority = (case at_value priority_attr of VUInt32 v \<Rightarrow> v | _ \<Rightarrow> 0),
                ca_username = remote_ufrag, ca_password = ice_pwd (ch_remote_params c),
                ca_type = ''prflx'', ca_foundation = []\<rparr>
          in and_then (CreateConnection now i remote_candidate new_conn c) (\<lambda>c1.
             and_then (HandleStunBindingRequest I msg new_conn (AddConnection new_conn c1))
               (SortConnectionsAndUpdateState now)))"

definition PortOnReadPacket ::
    "'a ice_lib_scheme \<Rightarrow> int \<Rightarrow> nat \<Rightarrow> nat \<Rightarrow> sock_addr \<Rightarrow> bytes \<Rightarrow> channel \<Rightarrow> channel result" where
  "PortOnReadPacket I now new_conn i addr data c =
     (case po_connections (ch_ports c ! i) addr of
        Some p \<Rightarrow> ConnOnReadPacket I now data p c
      | None \<Rightarrow> (case GetStunMessage I (ch_ports c ! i) data of
          GsFault \<Rightarrow> Inl BadRead
        | GsNotStun \<Rightarrow> Inr c
        | GsHandled response \<Rightarrow> Inr (send_error (ch_ports c ! i) response addr c)
        | GsMessage msg remote_ufrag \<Rightarrow>
            if sm_type msg = STUN_BINDING_REQUEST
            then OnUnknownAddress I now new_conn i addr msg remote_ufrag c else Inr c))"

subsection \<open>Calls of the agent and the timer\<close>

definition set_ice_params :: "ice_params \<Rightarrow> channel \<Rightarrow> channel" where
  "set_ice_params ps c = c\<lparr>ch_params := ps\<rparr>"

definition set_remote_ice_params :: "int \<Rightarrow> ice_params \<Rightarrow> channel \<Rightarrow> channel result" where
  "set_remote_ice_params now ps c =
     and_then (each (\<lambda>p. assign p (MaybeSetRemoteIceParams ps)) (ct_connections c) (c\<lparr>ch_remote_params := ps\<rparr>))
       (SortConnectionsAndUpdateState now)"

text \<open>\<open>networks\<close>: the addresses of the allocator's networks with the outcome of their sockets.\<close>

fun gather :: "'a ice_lib_scheme \<Rightarrow> (ip_addr \<times> u16 option) list \<Rightarrow> channel \<Rightarrow> channel" where
  "gather I [] c = c"
| "gather I ((ip, bound) # ns) c =
     (let (port, cand) = CreateIceCandidate I ip bound (UDPPort (ch_component c) (ch_params c))
      in gather I ns (c\<lparr>ch_ports := ch_ports c @ [port],
           ch_local_candidates := ch_local_candidates c @ (case cand of None \<Rightarrow> [] | Some x \<Rightarrow> [x])\<rparr>))"

definition GatheringCandidate :: "'a ice_lib_scheme \<Rightarrow> (ip_addr \<times> u16 option) list \<Rightarrow> channel \<Rightarrow> channel" where
  "GatheringCandidate I networks c =
     (if ice_ufrag (ch_params c) = [] \<or> ice_pwd (ch_params c) = [] then c
      else if networks = [] then c
      else let c1 = gather I networks c in emit (OutCandidates (ch_local_candidates c1)) c1)"

definition UpdateConnectionStates :: "int \<Rightarrow> channel \<Rightarrow> channel result" where
  "UpdateConnectionStates now c = each (ConnUpdateState now) (ct_connections c) c"

definition PingConnection :: "'a ice_lib_scheme \<Rightarrow> int \<Rightarrow> bytes \<Rightarrow> nat \<Rightarrow> channel \<Rightarrow> channel result" where
  "PingConnection I now tid p c = Ping I now tid p (c\<lparr>ch_last_ping_sent_ms := now\<rparr>)"

definition OnCheckAndPing :: "'a ice_lib_scheme \<Rightarrow> int \<Rightarrow> bytes \<Rightarrow> channel \<Rightarrow> channel result" where
  "OnCheckAndPing I now tid c =
     and_then (UpdateConnectionStates now c) (\<lambda>c1.
     and_then (SelectConnectionToPing c1 (ch_last_ping_sent_ms c1 - 5) now) (\<lambda>(conn, ping_interval, c2).
     and_then (case conn of
         None \<Rightarrow> Inr c2
       | Some p \<Rightarrow> and_then (PingConnection I now tid p c2) (\<lambda>c3. Inr (MarkConnectionPinged p c3))) (\<lambda>c4.
     if ch_cur_ping_interval c4 \<noteq> ping_interval
     then Inr (emit (OutStartTimer (ping_interval * 1000)) (emit OutStopTimer (c4\<lparr>ch_cur_ping_interval := ping_interval\<rparr>)))
     else Inr c4)))"

text \<open>The result's boolean is \<open>false\<close> where the code returns \<open>-1\<close> before sending.\<close>

definition SendPacket :: "bytes \<Rightarrow> channel \<Rightarrow> (bool \<times> channel) result" where
  "SendPacket data c = (case ch_selected c of
     None \<Rightarrow> Inr (False, c)
   | Some s \<Rightarrow> and_then (deref c s) (\<lambda>n.
       if \<not> ReadyToSend n then Inr (False, c)
       else Inr (True, SendTo (port_of c n) data (ca_address (cn_remote n)) c)))"

text \<open>The destructor of the channel destroys its connections, then its ports.\<close>

definition delete_channel :: "int \<Rightarrow> channel \<Rightarrow> channel result" where
  "delete_channel now c =
     and_then (each (Destroy now) (ct_connections c) c) (\<lambda>c1. Inr (c1\<lparr>ch_ports := []\<rparr>))"

end
