(* ===== verification/IceSort.thy ===== *)
theory IceSort
  imports IceChannel "HOL-Library.Product_Lexorder" "HOL-Library.Multiset"
begin

text \<open>
  The access to live connections, the stable sort, and the order of connections: the comparator is the
  strict part of a total preorder, so the first connection is a best one.
\<close>

subsection \<open>Live connections\<close>

lemma wp_deref [simp]: "wp (deref c p) Q \<longleftrightarrow> (\<exists>n. ch_heap c p = Some n \<and> Q n)"
  by (cases "ch_heap c p") (simp_all add: deref_def)

lemma deref_live: "ch_heap c p = Some n \<Longrightarrow> deref c p = Inr n"
  by (simp add: deref_def)

lemma assign_live:
  "ch_heap c p = Some n \<Longrightarrow> assign p f c = Inr (c\<lparr>ch_heap := (ch_heap c)(p \<mapsto> f n)\<rparr>)"
  by (simp add: assign_def deref_live)

lemma wp_assign [simp]:
  "wp (assign p f c) Q \<longleftrightarrow> (\<exists>n. ch_heap c p = Some n \<and> Q (c\<lparr>ch_heap := (ch_heap c)(p \<mapsto> f n)\<rparr>))"
  by (simp add: assign_def)

lemma any_conn_total:
  assumes "\<forall>p\<in>set ps. P p = Inr (B p)"
  shows "any_conn P ps = Inr (\<exists>p\<in>set ps. B p)"
  using assms by (induction ps) auto

lemma live_conns: "set ps \<subseteq> dom (ch_heap c) \<Longrightarrow> p \<in> set ps \<Longrightarrow> deref c p = Inr (conn_at c p)"
  by (auto simp: deref_def conn_at_def)

lemma any_field:
  "set ps \<subseteq> dom (ch_heap c) \<Longrightarrow>
    any_conn (\<lambda>p. and_then (deref c p) (\<lambda>n. Inr (B n))) ps = Inr (\<exists>p\<in>set ps. B (conn_at c p))"
  by (rule any_conn_total) (simp add: live_conns)

subsection \<open>The stable sort\<close>

lemma mset_insert_by [simp]: "mset (insert_by lt x ys) = add_mset x (mset ys)"
  by (induction ys) auto

lemma set_insert_by [simp]: "set (insert_by lt x ys) = insert x (set ys)"
  by (induction ys) auto

lemma mset_stable_sort [simp]: "mset (stable_sort lt xs) = mset xs"
  by (induction xs) (simp_all add: stable_sort_def)

lemma set_stable_sort [simp]: "set (stable_sort lt xs) = set xs"
  using mset_stable_sort by (metis set_mset_mset)

lemma distinct_stable_sort [simp]: "distinct (stable_sort lt xs) = distinct xs"
  using mset_stable_sort by (metis mset_eq_imp_distinct_iff)

lemma length_stable_sort [simp]: "length (stable_sort lt xs) = length xs"
  using mset_stable_sort by (metis size_mset)

text \<open>A comparator given by a key in a linear order sorts by that key.\<close>

lemma sorted_insert_by:
  assumes "\<And>a b. lt a b \<longleftrightarrow> (key a :: 'k :: linorder) < key b" "sorted (map key ys)"
  shows "sorted (map key (insert_by lt x ys))"
  using assms(2)
proof (induction ys)
  case (Cons y ys)
  then show ?case by (auto simp: assms(1))
qed simp

lemma sorted_stable_sort:
  assumes "\<And>a b. lt a b \<longleftrightarrow> (key a :: 'k :: linorder) < key b"
  shows "sorted (map key (stable_sort lt xs))"
proof (induction xs)
  case (Cons x xs)
  then show ?case
    using sorted_insert_by[of lt key "stable_sort lt xs" x, OF assms] by (simp add: stable_sort_def)
qed (simp add: stable_sort_def)

lemma insert_by_filter:
  assumes "\<And>a b. lt a b \<longleftrightarrow> (key a :: 'k :: linorder) < key b"
  shows "filter (\<lambda>y. key y = k) (insert_by lt x ys) = filter (\<lambda>y. key y = k) (x # ys)"
  using assms by (induction ys) auto

lemma stable_sort_stable:
  assumes "\<And>a b. lt a b \<longleftrightarrow> (key a :: 'k :: linorder) < key b"
  shows "filter (\<lambda>y. key y = k) (stable_sort lt xs) = filter (\<lambda>y. key y = k) xs"
  using insert_by_filter[of lt key k, OF assms]
  by (induction xs) (simp_all add: stable_sort_def)

subsection \<open>The order of connections\<close>

text \<open>
  Write state first, then receiving, then the priority of the pair, then the round-trip
  time; smaller is better in every place.
\<close>

definition conn_key :: "channel \<Rightarrow> ice_conn \<Rightarrow> nat \<times> nat \<times> int \<times> int" where
  "conn_key c n = (write_state_code (cn_write_state n), if cn_receiving n then 0 else 1,
     - uint (conn_priority c n), cn_rtt n)"

lemma conn_before_key: "conn_before c a b \<longleftrightarrow> conn_key c a < conn_key c b"
  by (auto simp: conn_before_def CompareConnections_def conn_key_def Let_def cn_writable_def
      less_write_state_def word_less_def less_prod_def' word_uint_eq_iff)

text \<open>
  Sorting permutes the connections, puts them in the order of
  (write state, receiving, pair priority, round-trip time) and keeps the order of equals.
\<close>

theorem sort_connections:
  "mset (stable_sort (\<lambda>p q. conn_before c (conn_at c p) (conn_at c q)) ps) = mset ps \<and>
   sorted (map (\<lambda>p. conn_key c (conn_at c p)) (stable_sort (\<lambda>p q. conn_before c (conn_at c p) (conn_at c q)) ps)) \<and>
   (\<forall>k. filter (\<lambda>p. conn_key c (conn_at c p) = k) (stable_sort (\<lambda>p q. conn_before c (conn_at c p) (conn_at c q)) ps)
      = filter (\<lambda>p. conn_key c (conn_at c p) = k) ps)"
  using sorted_stable_sort[of _ "\<lambda>p. conn_key c (conn_at c p)"]
    stable_sort_stable[of _ "\<lambda>p. conn_key c (conn_at c p)"]
  by (simp add: conn_before_key)

end
