(* ===== verification/IceInv.thy ===== *)
theory IceInv
  imports IceSort
begin

text \<open>
  The invariant of a transport channel. The controller's list, its two ping sets and the heap
  hold the same connections, both selected pointers agree and are live, and the published
  state (writable, receiving, ICE state) is the one computed from the connections. Every
  handler keeps it and frees nothing it still uses, except in the two situations the last
  section isolates: a connection that times out and an error response to a ping.
\<close>

subsection \<open>Liveness of the pointers\<close>

definition chan_live :: "channel \<Rightarrow> bool" where
  "chan_live c \<longleftrightarrow> set (ct_connections c) \<subseteq> dom (ch_heap c) \<and>
     set_option (ct_selected c) \<subseteq> dom (ch_heap c) \<and> set_option (ch_selected c) \<subseteq> dom (ch_heap c)"

text \<open>What \<open>UpdateState\<close> and \<open>MaybeStartPinging\<close> leave alone.\<close>

definition core where
  "core c = (ch_heap c, ct_selected c, ct_connections c, ct_unpinged c, ct_pinged c, ch_selected c,
     ch_ports c, ch_had_connection c)"

definition sel_writable :: "channel \<Rightarrow> bool" where
  "sel_writable c = (case ch_selected c of None \<Rightarrow> False | Some s \<Rightarrow> cn_writable (conn_at c s))"

definition some_conn :: "(ice_conn \<Rightarrow> bool) \<Rightarrow> channel \<Rightarrow> bool" where
  "some_conn B c \<longleftrightarrow> (\<exists>p\<in>set (ct_connections c). B (conn_at c p))"

definition pure_state :: "channel \<Rightarrow> ice_state" where
  "pure_state c =
     (if ch_had_connection c \<and> \<not> some_conn cn_active c then kFailed
      else if ch_has_been_connection c \<and> \<not> ch_writable c then kDisconnected
      else if \<not> ch_had_connection c \<and> \<not> some_conn cn_active c then kNew
      else if some_conn cn_active c \<and> \<not> ch_writable c then kChecking
      else kConnected)"

definition state_ok :: "channel \<Rightarrow> bool" where
  "state_ok c \<longleftrightarrow> ch_writable c = sel_writable c \<and> ch_receiving c = some_conn cn_receiving c \<and>
     ch_state c = pure_state c \<and> (ch_writable c \<longrightarrow> ch_has_been_connection c)"

lemma ComputeIceTransportState_pure:
  "set (ct_connections c) \<subseteq> dom (ch_heap c) \<Longrightarrow> ComputeIceTransportState c = Inr (pure_state c)"
  by (simp add: ComputeIceTransportState_def any_field pure_state_def some_conn_def)

lemma setters_frame [simp]:
  "core (emit e c) = core c" "core (set_writable b c) = core c" "core (set_receiving b c) = core c"
  "core (c\<lparr>ch_state := s\<rparr>) = core c"
  by (simp_all add: core_def emit_def set_writable_def set_receiving_def)

lemma coreD:
  assumes "core c = core d"
  shows "ch_heap c = ch_heap d" "ct_selected c = ct_selected d" "ct_connections c = ct_connections d"
    "ct_unpinged c = ct_unpinged d" "ct_pinged c = ct_pinged d" "ch_selected c = ch_selected d"
    "ch_ports c = ch_ports d" "ch_had_connection c = ch_had_connection d"
    "sel_writable c = sel_writable d" "some_conn B c = some_conn B d" "chan_live c = chan_live d"
    "conn_at c p = conn_at d p"
  using assms
  by (auto simp: core_def sel_writable_def some_conn_def chan_live_def conn_at_def split: option.splits)

lemma pure_state_cong:
  assumes "core c = core d" "ch_has_been_connection c = ch_has_been_connection d" "ch_writable c = ch_writable d"
  shows "pure_state c = pure_state d"
  using coreD(8,10)[OF assms(1)] assms(2,3) by (simp add: pure_state_def)

lemma state_ok_cong:
  assumes "core c = core d" "ch_has_been_connection c = ch_has_been_connection d"
    "ch_writable c = ch_writable d" "ch_receiving c = ch_receiving d" "ch_state c = ch_state d"
  shows "state_ok c = state_ok d"
  using coreD(9,10)[OF assms(1)] pure_state_cong[OF assms(1-3)] assms(2-5) by (simp add: state_ok_def)

text \<open>\<open>UpdateState\<close> does not read the controller's selected pointer.\<close>

definition update_live :: "channel \<Rightarrow> bool" where
  "update_live c \<longleftrightarrow> set (ct_connections c) \<subseteq> dom (ch_heap c) \<and> set_option (ch_selected c) \<subseteq> dom (ch_heap c)"

lemma chan_live_update: "chan_live c \<Longrightarrow> update_live c"
  by (simp add: chan_live_def update_live_def)

lemma selected_writable_live:
  "update_live c \<Longrightarrow> selected_writable c = Inr (sel_writable c)"
  by (auto simp: selected_writable_def sel_writable_def update_live_def conn_at_def deref_def split: option.splits)

lemma writable_fields [simp]:
  "ch_writable (set_writable b c) = b" "ch_receiving (set_receiving b c) = b"
  "ch_writable (set_receiving b c) = ch_writable c"
  "ch_has_been_connection (set_receiving b c) = ch_has_been_connection c"
  "ch_writable (emit e c) = ch_writable c" "ch_receiving (emit e c) = ch_receiving c"
  "ch_has_been_connection (emit e c) = ch_has_been_connection c" "ch_state (emit e c) = ch_state c"
  by (auto simp: set_writable_def set_receiving_def emit_def)

lemma UpdateState_wp:
  assumes "update_live c" "ch_writable c \<longrightarrow> ch_has_been_connection c"
  shows "wp (UpdateState c) (\<lambda>c'. state_ok c' \<and> core c' = core c)"
proof -
  let ?c1 = "set_writable (sel_writable c) c"
  let ?c2 = "set_receiving (some_conn cn_receiving ?c1) ?c1"
  have c1: "core ?c1 = core c" and c2: "core ?c2 = core c" by simp_all
  have sub: "set (ct_connections ?c1) \<subseteq> dom (ch_heap ?c1)" "set (ct_connections ?c2) \<subseteq> dom (ch_heap ?c2)"
    using assms(1) coreD[OF c1] coreD[OF c2] by (simp_all add: update_live_def)
  have been: "ch_writable ?c2 \<longrightarrow> ch_has_been_connection ?c2"
    using assms(2) by (auto simp: set_writable_def emit_def)
  let ?c3 = "emit (OutIceState (pure_state ?c2)) (?c2\<lparr>ch_state := pure_state ?c2\<rparr>)"
  have c3: "core ?c3 = core c" by simp
  have p3: "pure_state ?c3 = pure_state ?c2"
    using c2 c3 by (intro pure_state_cong) simp_all
  have "UpdateState c = Inr (if pure_state ?c2 \<noteq> ch_state ?c2 then ?c3 else ?c2)"
    using any_field[OF sub(1), of cn_receiving] ComputeIceTransportState_pure[OF sub(2)]
    by (simp add: UpdateState_def selected_writable_live[OF assms(1)] Let_def some_conn_def)
  moreover have "state_ok ?c2" if "pure_state ?c2 = ch_state ?c2"
    using that been coreD[OF c1] coreD[OF c2] by (simp add: state_ok_def)
  moreover have "state_ok ?c3"
    using been coreD[OF c1] coreD[OF c2] coreD[OF c3] p3 by (simp add: state_ok_def)
  ultimately show ?thesis using c2 c3 by simp
qed

subsection \<open>Reading never faults\<close>

lemma ctl_weak_live: "chan_live c \<Longrightarrow> \<exists>b. ctl_weak c = Inr b"
  by (auto simp: ctl_weak_def chan_live_def deref_def split: option.splits)

lemma GetConnectionPingInterval_live:
  assumes "chan_live c" "p \<in> dom (ch_heap c)"
  shows "\<exists>i. GetConnectionPingInterval c now p = Inr i"
  using assms ctl_weak_live[OF assms(1)]
  by (auto simp: GetConnectionPingInterval_def deref_live)

lemma PastPingInterval_live:
  assumes "chan_live c" "p \<in> dom (ch_heap c)"
  shows "\<exists>b. IsConnectionPastPingInterval c now p = Inr b"
  using GetConnectionPingInterval_live[OF assms, of now] assms(2)
  by (auto simp: IsConnectionPastPingInterval_def deref_live)

lemma IsPingable_live:
  assumes "chan_live c" "p \<in> dom (ch_heap c)"
  shows "\<exists>b. IsPingable c now p = Inr b"
  using assms ctl_weak_live[OF assms(1)] PastPingInterval_live[OF assms, of now]
  by (auto simp: IsPingable_def deref_live)

lemma any_pingable_live:
  assumes "chan_live c" "set ps \<subseteq> dom (ch_heap c)"
  shows "\<exists>b. any_conn (IsPingable c now) ps = Inr b"
proof -
  have "\<forall>p\<in>set ps. IsPingable c now p = Inr (projr (IsPingable c now p))"
    using IsPingable_live[OF assms(1)] assms(2) by (metis subsetD sum.sel(2))
  from any_conn_total[OF this] show ?thesis by blast
qed

lemma MaybeStartPinging_wp:
  assumes "chan_live c" "state_ok c"
  shows "wp (MaybeStartPinging now c) (\<lambda>c'. state_ok c' \<and> core c' = core c)"
proof -
  obtain b where "HasPingableConnection c now = Inr b"
    using any_pingable_live[OF assms(1), of "ct_connections c" now] assms(1)
    by (auto simp: HasPingableConnection_def chan_live_def)
  moreover let ?c = "emit (OutStartTimer (ch_cur_ping_interval c * 1000)) c\<lparr>ch_start_pinging := True\<rparr>"
  have "core ?c = core c" by (simp add: core_def emit_def)
  moreover from this have "state_ok ?c = state_ok c"
    by (rule state_ok_cong) (simp_all add: emit_def)
  ultimately show ?thesis
    using assms(2) by (simp add: MaybeStartPinging_def)
qed

subsection \<open>Sorting and switching\<close>

definition conn_eq :: "ice_conn \<Rightarrow> ice_conn \<Rightarrow> bool" where
  "conn_eq n m \<longleftrightarrow> n\<lparr>cn_selected := False\<rparr> = m\<lparr>cn_selected := False\<rparr>"

definition heap_eq :: "(nat \<rightharpoonup> ice_conn) \<Rightarrow> (nat \<rightharpoonup> ice_conn) \<Rightarrow> bool" where
  "heap_eq h h' \<longleftrightarrow> (\<forall>q. rel_option conn_eq (h q) (h' q))"

lemma conn_eqD:
  assumes "conn_eq n m"
  shows "cn_port n = cn_port m" "cn_remote n = cn_remote m" "cn_write_state n = cn_write_state m"
    "cn_receiving n = cn_receiving m" "cn_last_ping_sent n = cn_last_ping_sent m"
    "cn_pings n = cn_pings m" "cn_requests n = cn_requests m" "cn_rtt n = cn_rtt m"
    "cn_rtt_samples n = cn_rtt_samples m" "cn_num_pings_sent n = cn_num_pings_sent m"
    "cn_last_ping_received n = cn_last_ping_received m"
    "cn_last_ping_response_received n = cn_last_ping_response_received m"
    "cn_last_data_received n = cn_last_data_received m" "cn_state n = cn_state m"
  using assms unfolding conn_eq_def
  by (metis ice_conn.select_convs ice_conn.surjective ice_conn.update_convs(5))+

lemma conn_eq_refl [simp]: "conn_eq n n"
  by (simp add: conn_eq_def)

lemma conn_eq_selected [simp]: "conn_eq n (n\<lparr>cn_selected := b\<rparr>)" "conn_eq (n\<lparr>cn_selected := b\<rparr>) n"
  by (simp_all add: conn_eq_def)

lemma conn_eq_trans: "conn_eq a b \<Longrightarrow> conn_eq b d \<Longrightarrow> conn_eq a d"
  by (simp add: conn_eq_def)

lemma heap_eq_refl [simp]: "heap_eq h h"
  by (simp add: heap_eq_def option.rel_refl)

lemma heap_eq_trans: "heap_eq h g \<Longrightarrow> heap_eq g k \<Longrightarrow> heap_eq h k"
  unfolding heap_eq_def
  by (metis (full_types) conn_eq_trans option.rel_sel)

lemma heap_eq_dom: "heap_eq h h' \<Longrightarrow> dom h' = dom h"
  unfolding heap_eq_def dom_def
  by (metis option.rel_distinct(1) option.rel_distinct(2) option.exhaust option.rel_sel)

lemma heap_eq_upd: "h p = Some n \<Longrightarrow> heap_eq h (h(p \<mapsto> n\<lparr>cn_selected := b\<rparr>))"
  by (auto simp: heap_eq_def option.rel_refl)

lemma heap_eqD: "heap_eq h h' \<Longrightarrow> h q = Some n \<Longrightarrow> \<exists>m. h' q = Some m \<and> conn_eq n m"
  unfolding heap_eq_def by (metis option_rel_Some1)

lemma heap_eqD': "heap_eq h h' \<Longrightarrow> h' q = Some m \<Longrightarrow> \<exists>n. h q = Some n \<and> conn_eq n m"
  unfolding heap_eq_def by (metis option_rel_Some2)

definition flags_ok :: "channel \<Rightarrow> bool" where
  "flags_ok c \<longleftrightarrow> (\<forall>q n. ch_heap c q = Some n \<longrightarrow> cn_selected n = (ch_selected c = Some q))"

lemma SortAndSwitch_wp:
  assumes "chan_live c"
  shows "wp (SortAndSwitchConnection c) (\<lambda>(r, c1). (\<exists>ps. c1 = c\<lparr>ct_connections := ps\<rparr> \<and>
    mset ps = mset (ct_connections c)) \<and> set_option r \<subseteq> set (ct_connections c))"
proof -
  have "wp (each (\<lambda>p _. and_then (deref c p) (\<lambda>_. Inr ())) (ct_connections c) ()) (\<lambda>_. True)"
    using assms by (intro wp_each) (auto simp: chan_live_def)
  then have E: "each (\<lambda>p _. and_then (deref c p) (\<lambda>_. Inr ())) (ct_connections c) () = Inr ()"
    by (auto dest: wpD)
  let ?ps = "stable_sort (\<lambda>p q. conn_before c (conn_at c p) (conn_at c q)) (ct_connections c)"
  have sel: "\<exists>n. deref (c\<lparr>ct_connections := ps\<rparr>) s = Inr n" if "ct_selected c = Some s" for s ps
    using assms that by (auto simp: chan_live_def deref_def)
  have m: "mset ?ps = mset (ct_connections c)" "set ?ps = set (ct_connections c)" by simp_all
  show ?thesis
  proof (cases ?ps)
    case Nil
    then show ?thesis using m by (simp add: SortAndSwitchConnection_def E Let_def)
  next
    case (Cons t ts)
    then have t: "t \<in> set (ct_connections c)" using m(2) by auto
    have ex: "\<exists>ps. c\<lparr>ct_connections := t # ts\<rparr> = c\<lparr>ct_connections := ps\<rparr> \<and> mset ps = mset (ct_connections c)"
      using m(1) unfolding Cons by blast
    show ?thesis
    proof (cases "ct_selected c")
      case None
      then show ?thesis
        using Cons ex t by (simp add: SortAndSwitchConnection_def E Let_def)
    next
      case (Some s)
      then obtain n where "deref (c\<lparr>ct_connections := t # ts\<rparr>) s = Inr n" using sel by blast
      then show ?thesis
        using Some Cons ex t by (simp add: SortAndSwitchConnection_def E Let_def)
    qed
  qed
qed

definition sort_post :: "channel \<Rightarrow> channel \<Rightarrow> bool" where
  "sort_post c c' \<longleftrightarrow> heap_eq (ch_heap c) (ch_heap c') \<and>
     mset (ct_connections c') = mset (ct_connections c) \<and> ct_unpinged c' = ct_unpinged c \<and>
     ct_pinged c' = ct_pinged c \<and> ch_ports c' = ch_ports c \<and>
     ch_had_connection c' = ch_had_connection c \<and> (flags_ok c \<longrightarrow> flags_ok c') \<and>
     (ch_selected c' = ch_selected c \<and> ct_selected c' = ct_selected c \<or>
      ch_selected c' = ct_selected c' \<and> (\<exists>p\<in>set (ct_connections c). ch_selected c' = Some p))"

lemma sort_post_live: "chan_live c \<Longrightarrow> sort_post c c' \<Longrightarrow> chan_live c'"
proof -
  assume live: "chan_live c" and post: "sort_post c c'"
  have D: "dom (ch_heap c') = dom (ch_heap c)" "set (ct_connections c') = set (ct_connections c)"
    using post heap_eq_dom[of "ch_heap c" "ch_heap c'"] mset_eq_setD[of "ct_connections c'" "ct_connections c"]
    by (simp_all add: sort_post_def)
  have "ch_selected c' = ch_selected c \<and> ct_selected c' = ct_selected c \<or>
      (\<exists>p\<in>set (ct_connections c). ch_selected c' = Some p \<and> ct_selected c' = Some p)"
    using post by (auto simp: sort_post_def)
  then show ?thesis
    using live unfolding chan_live_def D by (elim disjE bexE conjE) (simp_all add: subsetD)
qed

lemma Switch_wp:
  assumes "chan_live c" "p \<in> set (ct_connections c)"
  shows "wp (SwitchSelectedConnection (Some p) c) (\<lambda>c'. sort_post c c' \<and>
    ch_writable c' = ch_writable c \<and> ch_has_been_connection c' = ch_has_been_connection c)"
proof -
  obtain n where n: "ch_heap c p = Some n" using assms by (auto simp: chan_live_def)
  show ?thesis
  proof (cases "ch_selected c")
    case None
    then show ?thesis
      using n assms(2) heap_eq_upd[of "ch_heap c" p n True]
      by (auto simp: SwitchSelectedConnection_def sort_post_def flags_ok_def)
  next
    case (Some q)
    then obtain m where m: "ch_heap c q = Some m" using assms(1) by (auto simp: chan_live_def)
    let ?h = "(ch_heap c)(q \<mapsto> m\<lparr>cn_selected := False\<rparr>)"
    have h1: "heap_eq (ch_heap c) ?h" using m by (rule heap_eq_upd)
    obtain k where k: "?h p = Some k" using n by (cases "p = q") auto
    have "heap_eq (ch_heap c) (?h(p \<mapsto> k\<lparr>cn_selected := True\<rparr>))"
      using heap_eq_trans[OF h1] heap_eq_upd[of ?h p k True] k by blast
    then show ?thesis
      using Some m n k assms(2)
      by (auto simp: SwitchSelectedConnection_def sort_post_def flags_ok_def split: if_splits)
  qed
qed

lemma sort_post_core:
  assumes "sort_post c c'" "core d = core c'"
  shows "sort_post c d"
proof -
  have "flags_ok d = flags_ok c'" using coreD[OF assms(2)] by (simp add: flags_ok_def)
  then show ?thesis using assms(1) coreD[OF assms(2)] by (simp add: sort_post_def)
qed

lemma sort_post_sorted:
  "mset ps = mset (ct_connections c) \<Longrightarrow> sort_post c (c\<lparr>ct_connections := ps\<rparr>)"
  by (auto simp: sort_post_def flags_ok_def)

lemma sort_post_trans:
  assumes "sort_post c d" "sort_post d e"
  shows "sort_post c e"
proof -
  note A = assms[unfolded sort_post_def]
  have H: "heap_eq (ch_heap c) (ch_heap e)" using A heap_eq_trans by blast
  have S: "set (ct_connections d) = set (ct_connections c)"
    using A(1) mset_eq_setD[of "ct_connections d" "ct_connections c"] by simp
  have "ch_selected e = ch_selected d \<and> ct_selected e = ct_selected d \<or>
      ch_selected e = ct_selected e \<and> (\<exists>p\<in>set (ct_connections c). ch_selected e = Some p)"
    using A(2) unfolding S by (elim conjE)
  moreover have "ch_selected d = ch_selected c \<and> ct_selected d = ct_selected c \<or>
      ch_selected d = ct_selected d \<and> (\<exists>p\<in>set (ct_connections c). ch_selected d = Some p)"
    using A(1) by (elim conjE)
  ultimately have "ch_selected e = ch_selected c \<and> ct_selected e = ct_selected c \<or>
      ch_selected e = ct_selected e \<and> (\<exists>p\<in>set (ct_connections c). ch_selected e = Some p)"
    by (elim disjE; metis)
  with A H show ?thesis unfolding sort_post_def by simp
qed

lemma Sort_wp:
  assumes "chan_live c" "ch_writable c \<longrightarrow> ch_has_been_connection c"
  shows "wp (SortConnectionsAndUpdateState now c) (\<lambda>c'. sort_post c c' \<and> state_ok c')"
proof -
  have rest: "wp (and_then (UpdateState d) (MaybeStartPinging now)) (\<lambda>c'. sort_post c c' \<and> state_ok c')"
    if d: "sort_post c d" "ch_writable d \<longrightarrow> ch_has_been_connection d" for d
  proof -
    have live: "chan_live d" using sort_post_live[OF assms(1) d(1)] .
    have "wp (UpdateState d) (\<lambda>e. wp (MaybeStartPinging now e) (\<lambda>c'. sort_post c c' \<and> state_ok c'))"
    proof (rule wp_mono[OF UpdateState_wp[OF chan_live_update[OF live] d(2)]])
      fix e assume e: "state_ok e \<and> core e = core d"
      then have le: "chan_live e" using live coreD(11) by blast
      have se: "state_ok e" using e by simp
      show "wp (MaybeStartPinging now e) (\<lambda>c'. sort_post c c' \<and> state_ok c')"
        by (rule wp_mono[OF MaybeStartPinging_wp[OF le se]]) (simp add: e sort_post_core[OF d(1)])
    qed
    then show ?thesis by simp
  qed
  have "wp (SortAndSwitchConnection c) (\<lambda>(r, c1). wp (MaybeSwitchSelectedConnection r c1)
      (\<lambda>c2. wp (and_then (UpdateState c2) (MaybeStartPinging now)) (\<lambda>c'. sort_post c c' \<and> state_ok c')))"
  proof (rule wp_mono[OF SortAndSwitch_wp[OF assms(1)]], clarify)
    fix r c1 ps
    assume r: "set_option r \<subseteq> set (ct_connections c)" and m: "mset ps = mset (ct_connections c)"
    let ?c1 = "c\<lparr>ct_connections := ps\<rparr>"
    have c1: "sort_post c ?c1" by (rule sort_post_sorted[OF m])
    have live: "chan_live ?c1" by (rule sort_post_live[OF assms(1) c1])
    show "wp (MaybeSwitchSelectedConnection r ?c1)
      (\<lambda>c2. wp (and_then (UpdateState c2) (MaybeStartPinging now)) (\<lambda>c'. sort_post c c' \<and> state_ok c'))"
    proof (cases r)
      case None
      then show ?thesis using rest[OF c1] assms(2) by (simp add: MaybeSwitchSelectedConnection_def)
    next
      case (Some p)
      then have "p \<in> set (ct_connections ?c1)" using r mset_eq_setD[OF m] by simp
      from Switch_wp[OF live this] have
        "wp (SwitchSelectedConnection (Some p) ?c1) (\<lambda>c2. wp (and_then (UpdateState c2) (MaybeStartPinging now))
          (\<lambda>c'. sort_post c c' \<and> state_ok c'))"
        using assms(2) sort_post_trans[OF c1] by (elim wp_mono) (intro rest, auto)
      then show ?thesis using Some by (simp add: MaybeSwitchSelectedConnection_def)
    qed
  qed
  then show ?thesis
    by (simp add: SortConnectionsAndUpdateState_def split_def)
qed

end
