(* ===== verification/IceSafe.thy ===== *)
theory IceSafe
  imports IceInv
begin

text \<open>
  Every handler of the transport channel keeps the invariant and touches live connections
  only, as long as no connection times out and no error response arrives; these two cases
  are shown to free memory that is used afterwards.
\<close>

definition ports_ok :: "channel \<Rightarrow> bool" where
  "ports_ok c \<longleftrightarrow> (\<forall>port\<in>set (ch_ports c). ran (po_connections port) \<subseteq> dom (ch_heap c)) \<and>
     (\<forall>q n. ch_heap c q = Some n \<longrightarrow> cn_port n < length (ch_ports c))"

definition base :: "channel \<Rightarrow> bool" where
  "base c \<longleftrightarrow> set (ct_connections c) = dom (ch_heap c) \<and> distinct (ct_connections c) \<and>
     ct_unpinged c \<union> ct_pinged c = dom (ch_heap c) \<and> ct_unpinged c \<inter> ct_pinged c = {} \<and>
     ct_selected c = ch_selected c \<and> set_option (ch_selected c) \<subseteq> dom (ch_heap c) \<and>
     flags_ok c \<and> ports_ok c \<and> (ct_connections c \<noteq> [] \<longrightarrow> ch_had_connection c)"

definition chan_inv :: "channel \<Rightarrow> bool" where
  "chan_inv c \<longleftrightarrow> base c \<and> state_ok c"

lemma base_live: "base c \<Longrightarrow> chan_live c"
  by (simp add: base_def chan_live_def)

lemma chan_inv_been: "chan_inv c \<Longrightarrow> ch_writable c \<longrightarrow> ch_has_been_connection c"
  by (simp add: chan_inv_def state_ok_def)

lemma base_sort:
  assumes "base c" "sort_post c c'"
  shows "base c'"
proof -
  note A = assms[unfolded base_def sort_post_def]
  have D: "dom (ch_heap c') = dom (ch_heap c)" using A(2) heap_eq_dom by blast
  have S: "set (ct_connections c') = set (ct_connections c)"
    using A(2) mset_eq_setD[of "ct_connections c'" "ct_connections c"] by simp
  have N: "distinct (ct_connections c') = distinct (ct_connections c)"
    using A(2) mset_eq_imp_distinct_iff by blast
  have P: "ports_ok c'"
  proof -
    have "cn_port m < length (ch_ports c')" if m: "ch_heap c' q = Some m" for q m
    proof -
      obtain n where "ch_heap c q = Some n" "conn_eq n m" using heap_eqD' A(2) m by blast
      then show ?thesis using A conn_eqD(1) by (fastforce simp: ports_ok_def)
    qed
    then show ?thesis using A D by (simp add: ports_ok_def)
  qed
  have E: "ct_connections c' = [] \<longleftrightarrow> ct_connections c = []"
    using S by (metis set_empty)
  have sel: "ct_selected c' = ch_selected c' \<and> set_option (ch_selected c') \<subseteq> dom (ch_heap c)"
    using A by (elim conjE disjE) auto
  show ?thesis
    unfolding base_def D S N E using A P sel by simp
qed

definition post :: "channel \<Rightarrow> (nat \<rightharpoonup> ice_conn) \<Rightarrow> channel \<Rightarrow> bool" where
  "post c h c' \<longleftrightarrow> chan_inv c' \<and> heap_eq h (ch_heap c') \<and> ch_ports c' = ch_ports c"

lemma post_heap [simp]: "post (c\<lparr>ch_heap := g\<rparr>) = post c"
  by (intro ext) (simp add: post_def)

lemma base_assign:
  assumes "base c" "ch_heap c p = Some n" "cn_selected (f n) = cn_selected n" "cn_port (f n) = cn_port n"
  shows "base (c\<lparr>ch_heap := (ch_heap c)(p \<mapsto> f n)\<rparr>)"
proof -
  have "insert p (dom (ch_heap c)) = dom (ch_heap c)" using assms(2) by auto
  then show ?thesis
    using assms unfolding base_def flags_ok_def ports_ok_def by (auto split: if_splits)
qed

lemma Sort_base:
  assumes "base c" "ch_writable c \<longrightarrow> ch_has_been_connection c"
  shows "wp (SortConnectionsAndUpdateState now c) (post c (ch_heap c))"
proof (rule wp_mono[OF Sort_wp[OF base_live[OF assms(1)] assms(2)]])
  fix c' assume c': "sort_post c c' \<and> state_ok c'"
  then have "base c'" using base_sort[OF assms(1)] by blast
  then show "post c (ch_heap c) c'" using c' by (simp add: post_def chan_inv_def sort_post_def)
qed

lemma change_wp:
  assumes "chan_inv c" "ch_heap c p = Some n" "cn_selected (f n) = cn_selected n" "cn_port (f n) = cn_port n"
  shows "wp (OnConnectionStateChange now (c\<lparr>ch_heap := (ch_heap c)(p \<mapsto> f n)\<rparr>))
    (post c ((ch_heap c)(p \<mapsto> f n)))"
  using Sort_base[OF base_assign[of c p n f]] assms chan_inv_been[OF assms(1)]
  by (simp add: OnConnectionStateChange_def chan_inv_def)

lemma some_conn_cong:
  "(\<And>q. q \<in> set (ct_connections c) \<Longrightarrow> B (conn_at d q) = B (conn_at c q)) \<Longrightarrow>
    ct_connections d = ct_connections c \<Longrightarrow> some_conn B d = some_conn B c"
  by (simp add: some_conn_def)

lemma inv_assign:
  assumes "chan_inv c" "ch_heap c p = Some n" "cn_selected (f n) = cn_selected n" "cn_port (f n) = cn_port n"
    "cn_write_state (f n) = cn_write_state n" "cn_receiving (f n) = cn_receiving n"
  shows "chan_inv (c\<lparr>ch_heap := (ch_heap c)(p \<mapsto> f n)\<rparr>)"
proof -
  let ?d = "c\<lparr>ch_heap := (ch_heap c)(p \<mapsto> f n)\<rparr>"
  have at: "cn_write_state (conn_at ?d q) = cn_write_state (conn_at c q)"
    "cn_receiving (conn_at ?d q) = cn_receiving (conn_at c q)" for q
    using assms by (simp_all add: conn_at_def)
  have "sel_writable ?d = sel_writable c"
    using at by (simp add: sel_writable_def cn_writable_def split: option.splits)
  moreover have "some_conn cn_receiving ?d = some_conn cn_receiving c"
    "some_conn cn_active ?d = some_conn cn_active c"
    using at by (simp_all add: some_conn_def cn_active_def)
  ultimately show ?thesis
    using assms base_assign[of c p n f]
    by (simp add: chan_inv_def state_ok_def pure_state_def)
qed

lemma inv_emit: "chan_inv (emit e c) = chan_inv c"
proof -
  have "core (emit e c) = core c" by simp
  then have "state_ok (emit e c) = state_ok c" by (rule state_ok_cong) simp_all
  moreover have "base (emit e c) = base c"
    by (simp add: base_def emit_def flags_ok_def ports_ok_def)
  ultimately show ?thesis by (simp add: chan_inv_def)
qed

lemma emit_fields [simp]: "ch_heap (emit e c) = ch_heap c" "ch_ports (emit e c) = ch_ports c"
  by (simp_all add: emit_def)

lemma inv_SendTo [simp]: "chan_inv (SendTo port data addr c) = chan_inv c"
  "ch_heap (SendTo port data addr c) = ch_heap c" "ch_ports (SendTo port data addr c) = ch_ports c"
  by (simp_all add: SendTo_def inv_emit)

lemma post_refl: "chan_inv c \<Longrightarrow> post c (ch_heap c) c"
  by (simp add: post_def)

subsection \<open>The operations of a connection\<close>

lemma UpdateReceiving_wp:
  assumes "chan_inv c" "ch_heap c p = Some n"
  shows "wp (UpdateReceiving now p c) (post c ((ch_heap c)(p \<mapsto> n\<lparr>cn_receiving := compute_receiving now n\<rparr>)))"
  using change_wp[OF assms, of "\<lambda>n. n\<lparr>cn_receiving := compute_receiving now n\<rparr>" now] assms
  by (auto simp: UpdateReceiving_def Let_def post_def fun_upd_idem deref_def)

lemma set_write_state_wp:
  assumes "chan_inv c" "ch_heap c p = Some n"
  shows "wp (set_write_state now p s c) (post c ((ch_heap c)(p \<mapsto> n\<lparr>cn_write_state := s\<rparr>)))"
  using change_wp[OF assms, of "\<lambda>n. n\<lparr>cn_write_state := s\<rparr>" now] assms
  by (auto simp: set_write_state_def post_def fun_upd_idem deref_def)

text \<open>The connections \<open>UpdateState\<close> would destroy at \<open>now\<close>.\<close>

definition timed_out :: "int \<Rightarrow> ice_conn \<Rightarrow> bool" where
  "timed_out now n \<longleftrightarrow> TooLongWithoutResponse CONNECTION_WRITE_TIMEOUT now n \<and>
     (cn_write_state n = STATE_WRITE_UNRELIABLE \<or> cn_write_state n = STATE_WRITE_INIT \<or>
      cn_write_state n = STATE_WRITABLE \<and>
        TooManyPingFails CONNECTION_WRITE_CONNECT_FAILS (clamped_rtt n) now n)"

lemma TooLong_less:
  "TooLongWithoutResponse CONNECTION_WRITE_TIMEOUT now n \<Longrightarrow>
    TooLongWithoutResponse CONNECTION_WRITE_CONNECT_TIMEOUT now n"
  by (auto simp: TooLongWithoutResponse_def ice_consts split: list.splits)

definition quiet :: "int \<Rightarrow> channel \<Rightarrow> bool" where
  "quiet now c \<longleftrightarrow> (\<forall>q n. ch_heap c q = Some n \<longrightarrow> \<not> timed_out now n)"

lemma timed_out_cong:
  assumes "cn_pings m = cn_pings n" "cn_rtt m = cn_rtt n" "cn_write_state m = cn_write_state n"
  shows "timed_out now m = timed_out now n"
  using assms
  by (simp add: timed_out_def TooLongWithoutResponse_def TooManyPingFails_def clamped_rtt_def)

lemma quiet_heap_eq: "heap_eq h (ch_heap c) \<Longrightarrow> \<forall>q n. h q = Some n \<longrightarrow> \<not> timed_out now n \<Longrightarrow> quiet now c"
proof -
  assume eq: "heap_eq h (ch_heap c)" and h: "\<forall>q n. h q = Some n \<longrightarrow> \<not> timed_out now n"
  have "\<not> timed_out now m" if live: "ch_heap c q = Some m" for q m
  proof -
    obtain n where n: "h q = Some n" "conn_eq n m" using heap_eqD'[OF eq live] by blast
    then have "timed_out now m = timed_out now n"
      using conn_eqD[OF n(2)] by (intro timed_out_cong) simp_all
    then show ?thesis using h n(1) by blast
  qed
  then show ?thesis by (simp add: quiet_def)
qed

lemma quiet_upd:
  assumes "quiet now c" "\<not> timed_out now n" "heap_eq ((ch_heap c)(p \<mapsto> n)) (ch_heap c')"
  shows "quiet now c'"
  by (rule quiet_heap_eq[OF assms(3)]) (use assms(1,2) in \<open>simp add: quiet_def\<close>)

lemma ConnUpdateState_wp:
  assumes "chan_inv c" "quiet now c" "p \<in> dom (ch_heap c)"
  shows "wp (ConnUpdateState now p c) (\<lambda>c'. chan_inv c' \<and> quiet now c' \<and> dom (ch_heap c') = dom (ch_heap c) \<and>
    ch_ports c' = ch_ports c)"
proof -
  obtain n where n: "ch_heap c p = Some n" using assms(3) by blast
  let ?to1 = "cn_write_state n = STATE_WRITABLE \<and>
    TooManyPingFails CONNECTION_WRITE_CONNECT_FAILS (clamped_rtt n) now n \<and>
    TooLongWithoutResponse CONNECTION_WRITE_CONNECT_TIMEOUT now n"
  define n1 where "n1 = (if ?to1 then n\<lparr>cn_write_state := STATE_WRITE_UNRELIABLE\<rparr> else n)"
  have quiet1: "\<not> timed_out now n" using assms(2) n by (simp add: quiet_def)
  then have long: "?to1 \<Longrightarrow> \<not> TooLongWithoutResponse CONNECTION_WRITE_TIMEOUT now n"
    by (simp add: timed_out_def)
  have n1: "\<not> timed_out now n1" "cn_pings n1 = cn_pings n"
  proof (cases ?to1)
    case True
    then have "\<not> TooLongWithoutResponse CONNECTION_WRITE_TIMEOUT now n1"
      using long by (simp add: n1_def TooLongWithoutResponse_def)
    then show "\<not> timed_out now n1" by (simp add: timed_out_def)
  next
    case False
    then have "n1 = n" by (simp only: n1_def if_False)
    then show "\<not> timed_out now n1" using quiet1 by simp
  qed (simp add: n1_def)
  have step1: "wp (if ?to1 then set_write_state now p STATE_WRITE_UNRELIABLE c else Inr c)
      (post c ((ch_heap c)(p \<mapsto> n1)))"
  proof (cases ?to1)
    case True
    then show ?thesis
      using set_write_state_wp[OF assms(1) n, of now STATE_WRITE_UNRELIABLE] by (simp add: n1_def)
  next
    case False
    then have "(ch_heap c)(p \<mapsto> n1) = ch_heap c" using n by (auto simp: n1_def fun_upd_idem)
    then show ?thesis using False post_refl[OF assms(1)] by (simp only: if_False wp_Inr)
  qed
  have "wp (if ?to1 then set_write_state now p STATE_WRITE_UNRELIABLE c else Inr c) (\<lambda>c1.
      \<exists>m. ch_heap c1 p = Some m \<and> \<not> ((cn_write_state m = STATE_WRITE_UNRELIABLE \<or> cn_write_state m = STATE_WRITE_INIT) \<and>
        TooLongWithoutResponse CONNECTION_WRITE_TIMEOUT now m) \<and>
      wp (UpdateReceiving now p c1) (\<lambda>c'. chan_inv c' \<and> quiet now c' \<and> dom (ch_heap c') = dom (ch_heap c) \<and>
        ch_ports c' = ch_ports c))"
  proof (rule wp_mono[OF step1])
    fix c1 assume c1: "post c ((ch_heap c)(p \<mapsto> n1)) c1"
    then have inv1: "chan_inv c1" and eq1: "heap_eq ((ch_heap c)(p \<mapsto> n1)) (ch_heap c1)"
      by (simp_all add: post_def)
    obtain m where m: "ch_heap c1 p = Some m" "conn_eq n1 m"
      using heap_eqD[OF eq1, of p n1] by auto
    have tm: "\<not> timed_out now m"
      using n1(1) timed_out_cong[of m n1] conn_eqD[OF m(2)] by simp
    have D1: "dom (ch_heap c1) = dom (ch_heap c)" using heap_eq_dom[OF eq1] n by auto
    have q1: "quiet now c1" by (rule quiet_upd[OF assms(2) n1(1) eq1])
    have "wp (UpdateReceiving now p c1) (\<lambda>c'. chan_inv c' \<and> quiet now c' \<and> dom (ch_heap c') = dom (ch_heap c) \<and>
        ch_ports c' = ch_ports c)"
    proof (rule wp_mono[OF UpdateReceiving_wp[OF inv1 m(1)]])
      fix c2 assume c2: "post c1 ((ch_heap c1)(p \<mapsto> m\<lparr>cn_receiving := compute_receiving now m\<rparr>)) c2"
      then have eq2: "heap_eq ((ch_heap c1)(p \<mapsto> m\<lparr>cn_receiving := compute_receiving now m\<rparr>)) (ch_heap c2)"
        by (simp add: post_def)
      have "\<not> timed_out now (m\<lparr>cn_receiving := compute_receiving now m\<rparr>)"
        using tm timed_out_cong[of "m\<lparr>cn_receiving := compute_receiving now m\<rparr>" m] by simp
      then have "quiet now c2" by (rule quiet_upd[OF q1 _ eq2])
      moreover have "dom (ch_heap c2) = dom (ch_heap c)"
        using heap_eq_dom[OF eq2] m(1) D1 by auto
      ultimately show "chan_inv c2 \<and> quiet now c2 \<and> dom (ch_heap c2) = dom (ch_heap c) \<and> ch_ports c2 = ch_ports c"
        using c1 c2 by (simp add: post_def)
    qed
    then show "\<exists>m. ch_heap c1 p = Some m \<and> \<not> ((cn_write_state m = STATE_WRITE_UNRELIABLE \<or> cn_write_state m = STATE_WRITE_INIT) \<and>
        TooLongWithoutResponse CONNECTION_WRITE_TIMEOUT now m) \<and>
      wp (UpdateReceiving now p c1) (\<lambda>c'. chan_inv c' \<and> quiet now c' \<and> dom (ch_heap c') = dom (ch_heap c) \<and>
        ch_ports c' = ch_ports c)"
      using m(1) tm by (auto simp: timed_out_def)
  qed
  then show ?thesis
    by (auto simp: ConnUpdateState_def deref_live[OF n] elim!: wp_mono)
qed

subsection \<open>The timer\<close>

lemma inv_cong:
  assumes "core c = core d" "ch_has_been_connection c = ch_has_been_connection d"
    "ch_writable c = ch_writable d" "ch_receiving c = ch_receiving d" "ch_state c = ch_state d"
  shows "chan_inv c = chan_inv d"
proof -
  have "base c = base d"
    using coreD[OF assms(1)] by (simp add: base_def flags_ok_def ports_ok_def)
  then show ?thesis using state_ok_cong[OF assms] by (simp add: chan_inv_def)
qed

lemma inv_fields [simp]:
  "chan_inv (c\<lparr>ch_last_ping_sent_ms := t\<rparr>) = chan_inv c"
  "chan_inv (c\<lparr>ch_cur_ping_interval := i\<rparr>) = chan_inv c"
  "chan_inv (c\<lparr>ch_params := ps\<rparr>) = chan_inv c"
  "chan_inv (c\<lparr>ch_remote_params := ps\<rparr>) = chan_inv c"
  "chan_inv (c\<lparr>ch_local_candidates := cs\<rparr>) = chan_inv c"
  by (intro inv_cong; simp add: core_def)+

lemma UpdateConnectionStates_wp:
  assumes "chan_inv c" "quiet now c"
  shows "wp (UpdateConnectionStates now c) (\<lambda>c'. chan_inv c' \<and> quiet now c' \<and>
    dom (ch_heap c') = dom (ch_heap c) \<and> ch_ports c' = ch_ports c)"
  unfolding UpdateConnectionStates_def
proof (rule wp_each)
  fix p d
  assume p: "p \<in> set (ct_connections c)"
    and d: "chan_inv d \<and> quiet now d \<and> dom (ch_heap d) = dom (ch_heap c) \<and> ch_ports d = ch_ports c"
  have "p \<in> dom (ch_heap d)" using p d assms(1) by (simp add: chan_inv_def base_def)
  then show "wp (ConnUpdateState now p d) (\<lambda>c'. chan_inv c' \<and> quiet now c' \<and>
      dom (ch_heap c') = dom (ch_heap c) \<and> ch_ports c' = ch_ports c)"
    using ConnUpdateState_wp[of d now p] d by simp
qed (use assms in simp)

lemma find_conn_live:
  assumes "chan_live c" "set ps \<subseteq> dom (ch_heap c)" "set_option best \<subseteq> dom (ch_heap c)"
  shows "\<exists>r. find_conn c now ps best = Inr r \<and> set_option r \<subseteq> dom (ch_heap c)"
  using assms(2,3)
proof (induction ps arbitrary: best)
  case (Cons p ps)
  then obtain b n where b: "IsPingable c now p = Inr b" and n: "ch_heap c p = Some n"
    using IsPingable_live[OF assms(1), of p now] by auto
  have best: "\<exists>m. (case best of None \<Rightarrow> Inr None | Some q \<Rightarrow> and_then (deref c q) (\<lambda>m. Inr (Some m))) = Inr m"
    using Cons.prems(2) by (cases best) (auto simp: deref_live)
  show ?case
    using Cons.IH[of best] Cons.IH[of "Some p"] Cons.prems b n best by (auto simp: deref_live)
qed simp

lemma unpinged_live: "chan_inv c \<Longrightarrow> finite (ct_unpinged c) \<and> ct_unpinged c \<subseteq> dom (ch_heap c)"
  by (metis chan_inv_def base_def finite_set finite_Un Un_upper1)

lemma inv_pings:
  assumes "chan_inv c" "U \<union> P = dom (ch_heap c)" "U \<inter> P = {}"
  shows "chan_inv (c\<lparr>ct_unpinged := U, ct_pinged := P\<rparr>)"
  using assms
  by (simp add: chan_inv_def base_def state_ok_def sel_writable_def some_conn_def conn_at_def pure_state_def
      flags_ok_def ports_ok_def split: option.splits)

lemma inv_sets: "chan_inv c \<Longrightarrow> ct_unpinged c \<union> ct_pinged c = dom (ch_heap c) \<and> ct_unpinged c \<inter> ct_pinged c = {}"
  by (simp add: chan_inv_def base_def)

lemma inv_merge:
  assumes "chan_inv c"
  shows "chan_inv (c\<lparr>ct_unpinged := ct_unpinged c \<union> ct_pinged c, ct_pinged := {}\<rparr>)"
  using inv_sets[OF assms] by (intro inv_pings[OF assms]) simp_all

lemma live_merge [simp]: "chan_live (c\<lparr>ct_unpinged := U, ct_pinged := P\<rparr>) = chan_live c"
  by (simp add: chan_live_def)

lemma FindNext_wp:
  assumes "chan_inv c"
  shows "wp (FindNextPingableConnection c now) (\<lambda>(r, c'). chan_inv c' \<and> ch_heap c' = ch_heap c \<and>
    ch_ports c' = ch_ports c \<and> set_option r \<subseteq> dom (ch_heap c))"
proof -
  have live: "chan_live c" using assms base_live by (simp add: chan_inv_def)
  obtain b where b: "(case ct_selected c of None \<Rightarrow> Inr False | Some s \<Rightarrow> and_then (deref c s) (\<lambda>n.
      if cn_writable n then IsConnectionPastPingInterval c now s else Inr False)) = Inr b"
    "b \<longrightarrow> set_option (ct_selected c) \<subseteq> dom (ch_heap c)"
  proof (cases "ct_selected c")
    case (Some s)
    then obtain n where "ch_heap c s = Some n" using live by (auto simp: chan_live_def)
    moreover from this obtain b' where "IsConnectionPastPingInterval c now s = Inr b'"
      using PastPingInterval_live[OF live, of s now] by blast
    ultimately show thesis
      using that Some by (cases "cn_writable n") (auto simp: deref_live)
  qed auto
  obtain h where h: "any_conn (IsPingable c now) (sorted_list_of_set (ct_unpinged c)) = Inr h"
    using any_pingable_live[OF live] unpinged_live[OF assms] by force
  let ?c1 = "if h then c else c\<lparr>ct_unpinged := ct_unpinged c \<union> ct_pinged c, ct_pinged := {}\<rparr>"
  have inv1: "chan_inv ?c1" using assms inv_merge by simp
  have live1: "chan_live ?c1" using live by simp
  obtain r where "find_conn ?c1 now (sorted_list_of_set (ct_unpinged ?c1)) None = Inr r"
    "set_option r \<subseteq> dom (ch_heap ?c1)"
    using find_conn_live[OF live1, of "sorted_list_of_set (ct_unpinged ?c1)" None now]
      unpinged_live[OF inv1] by auto
  then show ?thesis
    using b h inv1 assms by (cases h) (simp_all add: FindNextPingableConnection_def Let_def)
qed

lemma SelectConnectionToPing_wp:
  assumes "chan_inv c"
  shows "wp (SelectConnectionToPing c t now) (\<lambda>(r, i, c'). chan_inv c' \<and> ch_heap c' = ch_heap c \<and>
    ch_ports c' = ch_ports c \<and> set_option r \<subseteq> dom (ch_heap c))"
proof -
  have live: "chan_live c" using assms base_live by (simp add: chan_inv_def)
  obtain w where w: "ctl_weak c = Inr w" using ctl_weak_live[OF live] by blast
  have sub: "set (ct_connections c) \<subseteq> dom (ch_heap c)" using live by (simp add: chan_live_def)
  show ?thesis
    using FindNext_wp[OF assms, of now] assms
    by (simp add: SelectConnectionToPing_def any_field[OF sub] w Let_def split_def)
qed

lemma Ping_wp:
  assumes "chan_inv c" "p \<in> dom (ch_heap c)"
  shows "wp (Ping I now tid p c) (\<lambda>c'. chan_inv c' \<and> dom (ch_heap c') = dom (ch_heap c) \<and> ch_ports c' = ch_ports c)"
proof -
  obtain n where n: "ch_heap c p = Some n" using assms(2) by blast
  define msg where "msg = Prepare I (port_of c n) (cn_remote n) (StunMessage\<lparr>sm_transaction_id := tid\<rparr>)"
  define n1 where "n1 = n\<lparr>cn_last_ping_sent := now, cn_pings := cn_pings n @ [(tid, now)],
    cn_requests := (cn_requests n)(tid \<mapsto> \<lparr>rq_msg = msg, rq_ts = now\<rparr>)\<rparr>"
  define c1 where "c1 = c\<lparr>ch_heap := (ch_heap c)(p \<mapsto> n1)\<rparr>"
  define c2 where "c2 = (case Write (wire I) msg of None \<Rightarrow> c1
    | Some buf \<Rightarrow> SendTo (port_of c n) buf (ca_address (cn_remote n)) c1)"
  have eq: "Ping I now tid p c
      = assign p (\<lambda>n. n\<lparr>cn_state := IN_PROGRESS, cn_num_pings_sent := cn_num_pings_sent n + 1\<rparr>) c2"
    unfolding c2_def c1_def n1_def msg_def by (simp add: Ping_def deref_live[OF n] assign_live[OF n] Let_def)
  have "chan_inv c1" unfolding c1_def by (rule inv_assign[OF assms(1) n]) (simp_all add: n1_def)
  then have inv2: "chan_inv c2" and h2: "ch_heap c2 = ch_heap c1" "ch_ports c2 = ch_ports c"
    by (simp_all add: c2_def c1_def split: option.split)
  have n2: "ch_heap c2 p = Some n1" by (simp add: h2 c1_def)
  have "chan_inv (c2\<lparr>ch_heap := (ch_heap c2)(p \<mapsto> n1\<lparr>cn_state := IN_PROGRESS,
      cn_num_pings_sent := cn_num_pings_sent n1 + 1\<rparr>)\<rparr>)"
    by (rule inv_assign[OF inv2 n2]) simp_all
  moreover have "dom ((ch_heap c2)(p \<mapsto> m)) = dom (ch_heap c)" for m
    using assms(2) by (simp add: h2 c1_def insert_absorb)
  ultimately show ?thesis
    unfolding eq by (simp add: n2 h2(2))
qed

lemma ping_fields: "c\<lparr>ct_pinged := P, ct_unpinged := U\<rparr> = c\<lparr>ct_unpinged := U, ct_pinged := P\<rparr>"
  by (cases c) simp

lemma inv_mark:
  assumes "chan_inv c" "p \<in> dom (ch_heap c)"
  shows "chan_inv (MarkConnectionPinged p c)"
proof -
  have "ct_unpinged c - {p} \<union> insert p (ct_pinged c) = dom (ch_heap c)"
    "(ct_unpinged c - {p}) \<inter> insert p (ct_pinged c) = {}"
    using inv_sets[OF assms(1)] assms(2) by blast+
  from inv_pings[OF assms(1) this] show ?thesis
    using assms(1) by (simp add: MarkConnectionPinged_def ping_fields)
qed

lemma OnCheckAndPing_wp:
  assumes "chan_inv c" "quiet now c"
  shows "wp (OnCheckAndPing I now tid c) chan_inv"
proof -
  have ping: "wp (case r of None \<Rightarrow> Inr d
      | Some p \<Rightarrow> and_then (PingConnection I now tid p d) (\<lambda>c3. Inr (MarkConnectionPinged p c3))) chan_inv"
    if d: "chan_inv d" "set_option r \<subseteq> dom (ch_heap d)" for d r
  proof (cases r)
    case (Some p)
    have "wp (Ping I now tid p (d\<lparr>ch_last_ping_sent_ms := now\<rparr>)) (\<lambda>c3. chan_inv (MarkConnectionPinged p c3))"
      by (rule wp_mono[OF Ping_wp]) (use d Some in \<open>simp_all add: inv_mark\<close>)
    then show ?thesis using Some by (simp add: PingConnection_def)
  qed (use d in simp)
  have fin: "chan_inv (emit a (emit b (d\<lparr>ch_cur_ping_interval := i\<rparr>)))" if "chan_inv d" for a b d i
    using that by (simp add: inv_emit)
  show ?thesis
    unfolding OnCheckAndPing_def wp_and_then split_def
    apply (rule wp_mono[OF UpdateConnectionStates_wp[OF assms]])
    apply (rule wp_mono[OF SelectConnectionToPing_wp])
     apply blast
    apply (clarsimp simp del: option.case)
    apply (rule wp_mono[OF ping])
      apply (auto simp: fin)
    done
qed

end
