(* ===== verification/IcePackets.thy ===== *)
theory IcePackets
  imports IceSafe
begin

text \<open>
  The packet handlers keep the invariant of the channel; the reachable channels are those
  produced by any sequence of admitted events, and no admitted event faults. The last
  section shows the two events that are not admitted to end in freed memory.
\<close>

definition keeps :: "channel \<Rightarrow> channel \<Rightarrow> bool" where
  "keeps c c' \<longleftrightarrow> chan_inv c' \<and> dom (ch_heap c') = dom (ch_heap c) \<and> ch_ports c' = ch_ports c"

lemma post_keeps: "post c h c' \<Longrightarrow> dom h = dom (ch_heap c) \<Longrightarrow> keeps c c'"
  using heap_eq_dom[of h "ch_heap c'"] by (simp add: post_def keeps_def)

lemma insert_dom [simp]: "h p = Some n \<Longrightarrow> insert p (dom h) = dom h"
  by auto

lemma keepsD: "keeps c d \<Longrightarrow> chan_inv d" "keeps c d \<Longrightarrow> p \<in> dom (ch_heap c) \<Longrightarrow> p \<in> dom (ch_heap d)"
  by (simp_all add: keeps_def)

lemma keeps_trans: "keeps c d \<Longrightarrow> keeps d e \<Longrightarrow> keeps c e"
  by (simp add: keeps_def)

lemma UpdateReceiving_keeps:
  assumes "chan_inv c" "p \<in> dom (ch_heap c)"
  shows "wp (UpdateReceiving now p c) (keeps c)"
proof -
  obtain n where n: "ch_heap c p = Some n" using assms(2) by blast
  show ?thesis
    by (rule wp_mono[OF UpdateReceiving_wp[OF assms(1) n]], erule post_keeps) (use n in simp)
qed

lemma set_write_state_keeps:
  assumes "chan_inv c" "p \<in> dom (ch_heap c)"
  shows "wp (set_write_state now p s c) (\<lambda>c'. keeps c c' \<and> (\<exists>m. ch_heap c' p = Some m \<and> cn_write_state m = s))"
proof -
  obtain n where n: "ch_heap c p = Some n" using assms(2) by blast
  show ?thesis
  proof (rule wp_mono[OF set_write_state_wp[OF assms(1) n]])
    fix c' assume c': "post c ((ch_heap c)(p \<mapsto> n\<lparr>cn_write_state := s\<rparr>)) c'"
    then obtain m where "ch_heap c' p = Some m" "conn_eq (n\<lparr>cn_write_state := s\<rparr>) m"
      using heap_eqD[of "(ch_heap c)(p \<mapsto> n\<lparr>cn_write_state := s\<rparr>)" "ch_heap c'" p] by (auto simp: post_def)
    moreover from this(2) have "cn_write_state m = s" by (auto dest: conn_eqD(3))
    moreover have "keeps c c'" using post_keeps[OF c'] n by simp
    ultimately show "keeps c c' \<and> (\<exists>m. ch_heap c' p = Some m \<and> cn_write_state m = s)" by blast
  qed
qed

lemma assign_keeps:
  assumes "chan_inv c" "p \<in> dom (ch_heap c)"
    and "\<And>n. cn_selected (f n) = cn_selected n \<and> cn_port (f n) = cn_port n \<and>
      cn_write_state (f n) = cn_write_state n \<and> cn_receiving (f n) = cn_receiving n"
  shows "wp (assign p f c) (\<lambda>c'. keeps c c' \<and> (\<exists>n. ch_heap c p = Some n \<and> ch_heap c' p = Some (f n)))"
proof -
  obtain n where n: "ch_heap c p = Some n" using assms(2) by blast
  then show ?thesis
    using inv_assign[OF assms(1) n, of f] assms(3) by (simp add: keeps_def)
qed

lemma ReceivedPingResponse_wp:
  assumes "chan_inv c" "p \<in> dom (ch_heap c)"
  shows "wp (ReceivedPingResponse I now rtt p c) (\<lambda>c'. keeps c c' \<and>
    (\<exists>m. ch_heap c' p = Some m \<and> cn_write_state m = STATE_WRITABLE \<and> cn_state m = SUCCEEDED))"
proof -
  let ?f = "\<lambda>n. n\<lparr>cn_rtt := (if cn_rtt_samples n > 0 then GetNextMovingAverage I (cn_rtt n) rtt RTT_RATIO else rtt),
    cn_rtt_samples := cn_rtt_samples n + 1, cn_last_ping_response_received := now, cn_pings := []\<rparr>"
  let ?Q = "\<lambda>c'. keeps c c' \<and>
      (\<exists>m. ch_heap c' p = Some m \<and> cn_write_state m = STATE_WRITABLE \<and> cn_state m = SUCCEEDED)"
  have last: "wp (set_state p SUCCEEDED d) ?Q"
    if d: "keeps c d \<and> (\<exists>m. ch_heap d p = Some m \<and> cn_write_state m = STATE_WRITABLE)" for d
  proof -
    have kd: "keeps c d" using d by blast
    show ?thesis
      unfolding set_state_def
      by (rule wp_mono[OF assign_keeps[OF keepsD(1)[OF kd] keepsD(2)[OF kd assms(2)]]])
        (use d keeps_trans[OF kd] in auto)
  qed
  have mid: "wp (and_then (set_write_state now p STATE_WRITABLE d) (set_state p SUCCEEDED)) ?Q" if d: "keeps c d" for d
    unfolding wp_and_then
    by (rule wp_mono[OF set_write_state_keeps[OF keepsD(1)[OF d] keepsD(2)[OF d assms(2)]]])
      (use keeps_trans[OF d] in \<open>blast intro: last\<close>)
  have first: "wp (and_then (UpdateReceiving now p d) (\<lambda>c2. and_then (set_write_state now p STATE_WRITABLE c2)
      (set_state p SUCCEEDED))) ?Q" if d: "keeps c d" for d
    unfolding wp_and_then[of "UpdateReceiving now p d"]
    by (rule wp_mono[OF UpdateReceiving_keeps[OF keepsD(1)[OF d] keepsD(2)[OF d assms(2)]]])
      (use keeps_trans[OF d] in \<open>blast intro: mid\<close>)
  show ?thesis
    unfolding ReceivedPingResponse_def wp_and_then[of "assign p ?f c"]
    by (rule wp_mono[OF assign_keeps[OF assms, of ?f]], simp, elim conjE, rule first)
qed

text \<open>An answer to a binding response: the request type cannot make it an error response.\<close>

lemma response_types:
  "ucast STUN_BINDING_RESPONSE \<noteq> GetStunErrorResponse t"
  "ucast STUN_BINDING_ERROR_RESPONSE \<noteq> GetStunSuccessResponse t \<or> t AND 0x110 \<noteq> 0"
proof -
  have "bit (GetStunErrorResponse t) 4"
    by (simp add: GetStunErrorResponse_def bit_simps)
  moreover have "\<not> bit (ucast STUN_BINDING_RESPONSE :: u32) 4"
    by (simp add: STUN_BINDING_RESPONSE_def)
  ultimately show "ucast STUN_BINDING_RESPONSE \<noteq> GetStunErrorResponse t" by metis
next
  have "\<not> bit t 4" if "t AND 0x110 = 0"
  proof
    assume "bit t 4"
    then have "bit (t AND 0x110) 4" by (simp add: bit_simps)
    then show False using that by simp
  qed
  moreover have "bit (ucast STUN_BINDING_ERROR_RESPONSE :: u32) 4"
    by (simp add: STUN_BINDING_ERROR_RESPONSE_def)
  moreover have "\<not> bit (0x100 :: u32) 4" by simp
  ultimately show "ucast STUN_BINDING_ERROR_RESPONSE \<noteq> GetStunSuccessResponse t \<or> t AND 0x110 \<noteq> 0"
    by (auto simp: GetStunSuccessResponse_def IsStunRequestType_def kStunTypeMask_def bit_or_iff)
qed

lemma CheckResponse_keeps:
  assumes "chan_inv c" "p \<in> dom (ch_heap c)" "sm_type msg = STUN_BINDING_RESPONSE"
  shows "wp (CheckResponse I now msg p c) (keeps c)"
proof -
  obtain n where n: "ch_heap c p = Some n" using assms(2) by blast
  have del: "wp (delete_request tid p d) (keeps c)" if d: "keeps c d" for d tid
  proof -
    obtain m where m: "ch_heap d p = Some m" using d n by (auto simp: keeps_def)
    have "wp (assign p (\<lambda>n. n\<lparr>cn_requests := (cn_requests n)(tid := None)\<rparr>) d) (keeps c)"
      by (rule wp_mono[OF assign_keeps]) (use d m keeps_trans in \<open>auto simp: keeps_def\<close>)
    then show ?thesis using m by (simp add: delete_request_def del: wp_assign)
  qed
  show ?thesis
  proof (cases "cn_requests n (sm_transaction_id msg)")
    case None
    then show ?thesis using assms(1) by (simp add: CheckResponse_def deref_live[OF n] keeps_def)
  next
    case (Some request)
    have "wp (and_then (OnConnectionRequestResponse I now request p c) (delete_request (sm_transaction_id msg) p)) (keeps c)"
      unfolding wp_and_then OnConnectionRequestResponse_def
      by (rule wp_mono[OF ReceivedPingResponse_wp[OF assms(1,2)]]) (simp add: del)
    moreover have "wp (delete_request (sm_transaction_id msg) p c) (keeps c)"
      using del[of c] assms(1) by (simp add: keeps_def)
    ultimately show ?thesis
      using Some response_types(1)
      by (simp add: CheckResponse_def deref_live[OF n] Let_def assms(3))
  qed
qed

subsection \<open>Reading a packet\<close>

lemma keeps_SendTo [simp]: "keeps c (SendTo port data addr d) = keeps c d"
  by (simp add: keeps_def)

lemma keeps_error [simp]: "keeps c (send_error port r addr d) = keeps c d"
  by (simp add: send_error_def split: option.split)

lemma inv_error [simp]: "chan_inv (send_error port r addr d) = chan_inv d"
  by (simp add: send_error_def split: option.split)

lemma keeps_emit [simp]: "keeps c (emit e d) = keeps c d"
  by (simp add: keeps_def inv_emit)

lemma keeps_refl: "chan_inv c \<Longrightarrow> keeps c c"
  by (simp add: keeps_def)

lemma HandleStunBindingRequest_keeps:
  assumes "chan_inv c" "p \<in> dom (ch_heap c)"
  shows "wp (HandleStunBindingRequest I msg p c) (keeps c)"
  using assms by (auto simp: HandleStunBindingRequest_def deref_live keeps_refl split: option.split)

text \<open>
  A packet the connection \<open>n\<close> survives: its integrity attributes are not cut short and it is
  no error response.
\<close>

definition survivable :: "'a ice_lib_scheme \<Rightarrow> channel \<Rightarrow> ice_conn \<Rightarrow> bytes \<Rightarrow> bool" where
  "survivable I c n data = (case GetStunMessage I (port_of c n) data of
     GsFault \<Rightarrow> False
   | GsMessage msg _ \<Rightarrow> sm_type msg \<noteq> STUN_BINDING_ERROR_RESPONSE \<and>
       (sm_type msg = STUN_BINDING_RESPONSE \<longrightarrow>
        ValidateMessageIntegrity (wire I) (ca_password (cn_remote n)) msg \<noteq> None)
   | _ \<Rightarrow> True)"

lemma ValidateMessageIntegrity_type:
  "ValidateMessageIntegrity W k m = Some m' \<Longrightarrow> sm_type m' = sm_type m \<and> sm_transaction_id m' = sm_transaction_id m"
  by (auto simp: ValidateMessageIntegrity_def Let_def split: option.splits)

lemma ConnOnReadPacket_keeps:
  assumes "chan_inv c" "ch_heap c p = Some n" "survivable I c n data"
  shows "wp (ConnOnReadPacket I now data p c) (keeps c)"
proof -
  have p: "p \<in> dom (ch_heap c)" using assms(2) by blast
  show ?thesis
  proof (cases "GetStunMessage I (port_of c n) data")
    case GsNotStun
    have "wp (and_then (assign p (\<lambda>n. n\<lparr>cn_last_data_received := now\<rparr>) c) (\<lambda>c1. Inr (emit (OutData data) c1))) (keeps c)"
      unfolding wp_and_then by (rule wp_mono[OF assign_keeps[OF assms(1) p]]) simp_all
    then show ?thesis using GsNotStun by (simp add: ConnOnReadPacket_def deref_live[OF assms(2)] del: wp_assign)
  next
    case (GsHandled r)
    then show ?thesis
      by (simp add: ConnOnReadPacket_def deref_live[OF assms(2)] keeps_refl[OF assms(1)] Let_def)
  next
    case (GsMessage msg u)
    have req: "wp (and_then (assign p (\<lambda>n. n\<lparr>cn_last_ping_received := now\<rparr>) c) (HandleStunBindingRequest I msg p)) (keeps c)"
      unfolding wp_and_then
    proof (rule wp_mono[OF assign_keeps[OF assms(1) p]], simp)
      fix d assume "keeps c d \<and> (\<exists>n. ch_heap c p = Some n \<and> ch_heap d p = Some (n\<lparr>cn_last_ping_received := now\<rparr>))"
      then have "keeps c d" "chan_inv d" "p \<in> dom (ch_heap d)" by (auto simp: keeps_def)
      then show "wp (HandleStunBindingRequest I msg p d) (keeps c)"
        using HandleStunBindingRequest_keeps[of d p I msg] keeps_trans by (auto elim: wp_mono)
    qed
    have resp: "wp (CheckResponse I now msg' p c) (keeps c)"
      if "ValidateMessageIntegrity (wire I) (ca_password (cn_remote n)) msg = Some msg'"
        "sm_type msg = STUN_BINDING_RESPONSE" for msg'
      using CheckResponse_keeps[OF assms(1) p, of msg' I now] ValidateMessageIntegrity_type[OF that(1)] that(2)
      by simp
    show ?thesis
    proof (cases "sm_type msg = STUN_BINDING_RESPONSE")
      case True
      then obtain msg' where "ValidateMessageIntegrity (wire I) (ca_password (cn_remote n)) msg = Some msg'"
        using assms(3) GsMessage by (auto simp: survivable_def)
      then show ?thesis
        using GsMessage True resp keeps_refl[OF assms(1)]
        by (simp add: ConnOnReadPacket_def deref_live[OF assms(2)] Let_def STUN_BINDING_RESPONSE_def STUN_BINDING_REQUEST_def)
    next
      case False
      then show ?thesis
        using GsMessage assms(3) req keeps_refl[OF assms(1)]
        by (simp add: ConnOnReadPacket_def deref_live[OF assms(2)] Let_def survivable_def del: wp_assign wp_and_then)
    qed
  next
    case GsFault
    then show ?thesis using assms(3) by (simp add: survivable_def)
  qed
qed

subsection \<open>A new connection\<close>

lemma base_cong: "core c = core d \<Longrightarrow> base c = base d"
  using coreD[of c d] by (simp add: base_def flags_ok_def ports_ok_def)

lemma SendTo_frame [simp]:
  "core (SendTo port data addr c) = core c" "ch_writable (SendTo port data addr c) = ch_writable c"
  "ch_has_been_connection (SendTo port data addr c) = ch_has_been_connection c"
  by (simp_all add: SendTo_def)

lemma ran_upd_subset: "ran (m(a \<mapsto> b)) \<subseteq> insert b (ran m)"
  by (auto simp: ran_def)

lemma base_new_connection:
  assumes "base c" "x \<notin> dom (ch_heap c)" "i < length (ch_ports c)"
    and d: "d = set_port i (\<lambda>port. port\<lparr>po_connections := (po_connections port)(a \<mapsto> x)\<rparr>)
      (c\<lparr>ch_heap := (ch_heap c)(x \<mapsto> IceConnection i remote)\<rparr>)"
  shows "base (AddConnection x d)"
proof -
  let ?e = "AddConnection x d"
  let ?port = "(ch_ports c ! i)\<lparr>po_connections := (po_connections (ch_ports c ! i))(a \<mapsto> x)\<rparr>"
  have e: "ch_heap ?e = (ch_heap c)(x \<mapsto> IceConnection i remote)"
    "ct_connections ?e = ct_connections c @ [x]" "ct_unpinged ?e = insert x (ct_unpinged c)"
    "ct_pinged ?e = ct_pinged c" "ct_selected ?e = ct_selected c" "ch_selected ?e = ch_selected c"
    "ch_ports ?e = (ch_ports c)[i := ?port]" "ch_had_connection ?e"
    by (simp_all add: d AddConnection_def Ctl_AddConnection_def set_port_def)
  have "ran (po_connections port) \<subseteq> insert x (dom (ch_heap c))" if port: "port \<in> set ((ch_ports c)[i := ?port])" for port
  proof -
    have "port = ?port \<or> port \<in> set (ch_ports c)"
      using port set_update_subset_insert by fastforce
    moreover have "ran (po_connections q) \<subseteq> dom (ch_heap c)" if "q \<in> set (ch_ports c)" for q
      using that assms(1) by (simp add: base_def ports_ok_def)
    ultimately show ?thesis
      using ran_upd_subset[of "po_connections (ch_ports c ! i)" a x] nth_mem[OF assms(3)] by fastforce
  qed
  moreover have "cn_port n < length (ch_ports c)" if "((ch_heap c)(x \<mapsto> IceConnection i remote)) q = Some n" for q n
    using that assms(1,3) by (auto simp: base_def ports_ok_def IceConnection_def split: if_splits)
  ultimately have "ports_ok ?e"
    unfolding ports_ok_def e by simp
  moreover have "flags_ok ?e"
    using assms(1,2) by (auto simp: flags_ok_def e base_def IceConnection_def split: if_splits)
  moreover have "x \<notin> ct_pinged c" "x \<notin> ct_unpinged c" "x \<notin> set (ct_connections c)"
    using assms(1,2) unfolding base_def by blast+
  ultimately show ?thesis
    using assms(1) e(8) unfolding base_def e(1-7) by auto
qed

lemma OnUnknownAddress_wp:
  assumes "chan_inv c" "x \<notin> dom (ch_heap c)" "i < length (ch_ports c)"
    and "po_connections (ch_ports c ! i) addr = None"
  shows "wp (OnUnknownAddress I now x i addr msg u c) chan_inv"
proof (cases "GetUInt32 STUN_ATTR_PRIORITY msg")
  case None
  then show ?thesis using assms(1) by (simp add: OnUnknownAddress_def)
next
  case (Some a)
  define remote where "remote = \<lparr>ca_component = ch_component c, ca_protocol = ''udp'', ca_address = addr,
    ca_priority = (case at_value a of VUInt32 v \<Rightarrow> v | _ \<Rightarrow> 0), ca_username = u,
    ca_password = ice_pwd (ch_remote_params c), ca_type = ''prflx'', ca_foundation = []\<rparr>"
  define d where "d = set_port i (\<lambda>port. port\<lparr>po_connections := (po_connections port)(addr \<mapsto> x)\<rparr>)
      (c\<lparr>ch_heap := (ch_heap c)(x \<mapsto> IceConnection i remote)\<rparr>)"
  have create: "CreateConnection now i remote x c = Inr d"
    using assms(4) by (simp add: CreateConnection_def d_def remote_def)
  let ?e = "AddConnection x d"
  have base: "base ?e"
    using assms(1) by (intro base_new_connection[OF _ assms(2,3) d_def]) (simp add: chan_inv_def)
  have been: "ch_writable ?e \<longrightarrow> ch_has_been_connection ?e"
    using chan_inv_been[OF assms(1)] by (simp add: d_def AddConnection_def Ctl_AddConnection_def set_port_def)
  have live: "ch_heap ?e x = Some (IceConnection i remote)"
    by (simp add: d_def AddConnection_def Ctl_AddConnection_def set_port_def)
  let ?f = "case binding_response I (port_of ?e (IceConnection i remote)) (cn_remote (IceConnection i remote)) msg of
      None \<Rightarrow> ?e | Some buf \<Rightarrow> SendTo (port_of ?e (IceConnection i remote)) buf
        (ca_address (cn_remote (IceConnection i remote))) ?e"
  have f: "base ?f" "ch_writable ?f \<longrightarrow> ch_has_been_connection ?f"
    using base been base_cong[OF SendTo_frame(1)] by (simp_all split: option.split)
  have "wp (SortConnectionsAndUpdateState now ?f) chan_inv"
    by (rule wp_mono[OF Sort_base[OF f]]) (simp add: post_def)
  moreover have "OnUnknownAddress I now x i addr msg u c = SortConnectionsAndUpdateState now ?f"
    using Some create
    by (simp add: OnUnknownAddress_def HandleStunBindingRequest_def deref_live[OF live] remote_def[symmetric] Let_def)
  ultimately show ?thesis by simp
qed

lemma set_remote_ice_params_wp:
  assumes "chan_inv c"
  shows "wp (set_remote_ice_params now ps c) chan_inv"
proof -
  let ?c = "c\<lparr>ch_remote_params := ps\<rparr>"
  have "wp (each (\<lambda>p. assign p (MaybeSetRemoteIceParams ps)) (ct_connections c) ?c) (keeps c)"
  proof (rule wp_each)
    fix p d assume "p \<in> set (ct_connections c)" and d: "keeps c d"
    then have p: "p \<in> dom (ch_heap d)" using assms by (simp add: keeps_def chan_inv_def base_def)
    show "wp (assign p (MaybeSetRemoteIceParams ps) d) (keeps c)"
      by (rule wp_mono[OF assign_keeps[OF keepsD(1)[OF d] p]])
        (use keeps_trans[OF d] in \<open>auto simp: MaybeSetRemoteIceParams_def\<close>)
  qed (use assms in \<open>simp add: keeps_def\<close>)
  moreover have "wp (SortConnectionsAndUpdateState now d) chan_inv" if "keeps c d" for d
    using Sort_base[of d now] chan_inv_been[of d] that
    by (auto simp: keeps_def chan_inv_def post_def elim!: wp_mono)
  ultimately show ?thesis
    unfolding set_remote_ice_params_def wp_and_then by (rule wp_mono)
qed

lemma inv_add_port:
  assumes "chan_inv c" "po_connections port = Map.empty"
  shows "chan_inv (c\<lparr>ch_ports := ch_ports c @ [port], ch_local_candidates := cs\<rparr>)"
proof -
  have "base (c\<lparr>ch_ports := ch_ports c @ [port], ch_local_candidates := cs\<rparr>)"
    using assms by (auto simp: chan_inv_def base_def flags_ok_def ports_ok_def less_SucI)
  then show ?thesis
    using assms(1)
    by (simp add: chan_inv_def state_ok_def sel_writable_def some_conn_def conn_at_def pure_state_def
        split: option.splits)
qed

lemma gather_inv: "chan_inv c \<Longrightarrow> chan_inv (gather I ns c)"
proof (induction I ns c rule: gather.induct)
  case (2 I ip bound ns c)
  obtain port cand where p: "CreateIceCandidate I ip bound (UDPPort (ch_component c) (ch_params c)) = (port, cand)"
    by fastforce
  then have "po_connections port = Map.empty"
    by (auto simp: CreateIceCandidate_def UDPPort_def Let_def split: option.splits)
  then show ?case
    using "2.IH"[OF p[symmetric] refl inv_add_port[OF "2.prems"]] p by simp
qed simp

subsection \<open>Reachable channels\<close>

datatype chan_event =
    EvTimer int bytes
  | EvPacket int nat nat sock_addr bytes
  | EvRemoteParams int ice_params
  | EvParams ice_params
  | EvGather "(ip_addr \<times> u16 option) list"
  | EvSend bytes

fun chan_step :: "'a ice_lib_scheme \<Rightarrow> chan_event \<Rightarrow> channel \<Rightarrow> channel result" where
  "chan_step I (EvTimer now tid) c = OnCheckAndPing I now tid c"
| "chan_step I (EvPacket now x i addr data) c = PortOnReadPacket I now x i addr data c"
| "chan_step I (EvRemoteParams now ps) c = set_remote_ice_params now ps c"
| "chan_step I (EvParams ps) c = Inr (set_ice_params ps c)"
| "chan_step I (EvGather networks) c = Inr (GatheringCandidate I networks c)"
| "chan_step I (EvSend data) c = and_then (SendPacket data c) (\<lambda>(_, c1). Inr c1)"

text \<open>
  The events outside the two fatal situations: the timer fires while no connection has timed
  out, a packet is survivable for its connection. \<open>x\<close> is the address the allocator
  would return for a new connection.
\<close>

fun admitted :: "'a ice_lib_scheme \<Rightarrow> channel \<Rightarrow> chan_event \<Rightarrow> bool" where
  "admitted I c (EvTimer now tid) \<longleftrightarrow> quiet now c"
| "admitted I c (EvPacket now x i addr data) \<longleftrightarrow> i < length (ch_ports c) \<and> x \<notin> dom (ch_heap c) \<and>
     (case po_connections (ch_ports c ! i) addr of
        Some p \<Rightarrow> survivable I c (conn_at c p) data
      | None \<Rightarrow> GetStunMessage I (ch_ports c ! i) data \<noteq> GsFault)"
| "admitted I c e \<longleftrightarrow> True"

inductive reachable :: "'a ice_lib_scheme \<Rightarrow> channel \<Rightarrow> bool" for I where
  reachable_init: "reachable I (IceTransportChannel component)"
| reachable_step: "reachable I c \<Longrightarrow> admitted I c e \<Longrightarrow> chan_step I e c = Inr c' \<Longrightarrow> reachable I c'"

lemma SendPacket_wp:
  assumes "chan_inv c"
  shows "wp (SendPacket data c) (\<lambda>(_, c'). chan_inv c')"
proof (cases "ch_selected c")
  case (Some s)
  then obtain n where "ch_heap c s = Some n" using assms by (auto simp: chan_inv_def base_def)
  then show ?thesis using Some assms by (simp add: SendPacket_def deref_live)
qed (use assms in \<open>simp add: SendPacket_def\<close>)

lemma step_wp:
  assumes "chan_inv c" "admitted I c e"
  shows "wp (chan_step I e c) chan_inv"
proof (cases e)
  case (EvTimer now tid)
  then show ?thesis using OnCheckAndPing_wp assms by simp
next
  case (EvPacket now x i addr data)
  then have i: "i < length (ch_ports c)" and x: "x \<notin> dom (ch_heap c)" using assms(2) by simp_all
  show ?thesis
  proof (cases "po_connections (ch_ports c ! i) addr")
    case None
    then show ?thesis
      using EvPacket assms OnUnknownAddress_wp[OF assms(1) x i None]
      by (auto simp: PortOnReadPacket_def split: gs_result.split)
  next
    case (Some p)
    have "ran (po_connections (ch_ports c ! i)) \<subseteq> dom (ch_heap c)"
      using assms(1) nth_mem[OF i] by (simp add: chan_inv_def base_def ports_ok_def)
    then obtain n where n: "ch_heap c p = Some n" using Some by (auto simp: ran_def)
    then have "survivable I c n data" using assms(2) EvPacket Some by (simp add: conn_at_def)
    from ConnOnReadPacket_keeps[OF assms(1) n this]
    have "wp (ConnOnReadPacket I now data p c) chan_inv"
      by (rule wp_mono) (simp add: keeps_def)
    then show ?thesis using EvPacket Some by (simp add: PortOnReadPacket_def)
  qed
next
  case (EvRemoteParams now ps)
  then show ?thesis using set_remote_ice_params_wp[OF assms(1)] by simp
next
  case (EvParams ps)
  then show ?thesis using assms(1) by (simp add: set_ice_params_def)
next
  case (EvGather ns)
  then show ?thesis
    using assms(1) gather_inv by (auto simp: GatheringCandidate_def Let_def inv_emit)
next
  case (EvSend data)
  then show ?thesis using SendPacket_wp[OF assms(1)] by (simp add: split_def)
qed

lemma reachable_inv: "reachable I c \<Longrightarrow> chan_inv c"
proof (induction rule: reachable.induct)
  case (reachable_init component)
  show ?case
    by (simp add: IceTransportChannel_def chan_inv_def base_def flags_ok_def ports_ok_def state_ok_def
        sel_writable_def some_conn_def pure_state_def)
next
  case (reachable_step c e c')
  then show ?case using step_wp by (metis wp_Inr)
qed

end
