(* ===== verification/IceDestroy.thy ===== *)
theory IceDestroy
  imports IcePackets
begin

text \<open>
  Destroying connections: the teardown of a channel frees every connection once, while a
  destruction from inside a handler (a timeout, an error response) leaves the handler with
  freed memory and the port with a dangling address.
\<close>

definition tear :: "channel \<Rightarrow> bool" where
  "tear c \<longleftrightarrow> set (ct_connections c) = dom (ch_heap c) \<and> distinct (ct_connections c) \<and>
     set_option (ch_selected c) \<subseteq> dom (ch_heap c) \<and>
     (ch_selected c \<noteq> None \<longrightarrow> ct_selected c = ch_selected c) \<and>
     (ch_writable c \<longrightarrow> ch_has_been_connection c)"

lemma inv_tear: "chan_inv c \<Longrightarrow> tear c"
  by (simp add: chan_inv_def base_def tear_def state_ok_def)

lemma Switch_None_wp:
  assumes "chan_live c"
  shows "wp (SwitchSelectedConnection None c) (\<lambda>d. chan_live d \<and> heap_eq (ch_heap c) (ch_heap d) \<and>
    ch_selected d = None \<and> ct_selected d = ct_selected c \<and> ct_connections d = ct_connections c \<and>
    ch_ports d = ch_ports c \<and> ch_writable d = ch_writable c \<and> ch_has_been_connection d = ch_has_been_connection c)"
proof (cases "ch_selected c")
  case None
  then show ?thesis using assms by (simp add: SwitchSelectedConnection_def chan_live_def)
next
  case (Some s)
  then obtain n where n: "ch_heap c s = Some n" using assms by (auto simp: chan_live_def)
  have h: "heap_eq (ch_heap c) ((ch_heap c)(s \<mapsto> n\<lparr>cn_selected := False\<rparr>))" using n by (rule heap_eq_upd)
  show ?thesis
    using assms Some n h heap_eq_dom[OF h]
    by (simp add: SwitchSelectedConnection_def chan_live_def del: dom_fun_upd)
qed

lemma Destroyed_wp:
  assumes "tear c" "p \<in> dom (ch_heap c)"
  shows "wp (OnConnectionDestroyed now p c) (\<lambda>d. dom (ch_heap d) = dom (ch_heap c) \<and>
    set (ct_connections d) = set (ct_connections c) - {p} \<and> distinct (ct_connections d) \<and>
    set_option (ch_selected d) \<subseteq> dom (ch_heap c) - {p} \<and>
    (ch_selected d \<noteq> None \<longrightarrow> ct_selected d = ch_selected d) \<and>
    (ch_writable d \<longrightarrow> ch_has_been_connection d) \<and> ch_ports d = ch_ports c)"
proof -
  let ?c1 = "Ctl_OnConnectionDestroyed p c"
  have c1: "ch_heap ?c1 = ch_heap c" "ct_connections ?c1 = remove1 p (ct_connections c)"
    "ch_selected ?c1 = ch_selected c" "ct_selected ?c1 = ct_selected c" "ch_ports ?c1 = ch_ports c"
    "ch_writable ?c1 = ch_writable c" "ch_has_been_connection ?c1 = ch_has_been_connection c"
    by (simp_all add: Ctl_OnConnectionDestroyed_def)
  have conns: "set (remove1 p (ct_connections c)) = set (ct_connections c) - {p}"
    "distinct (remove1 p (ct_connections c))"
    using assms(1) by (simp_all add: tear_def)
  show ?thesis
  proof (cases "ch_selected c = Some p")
    case True
    have live: "chan_live ?c1"
      using assms True conns(1) by (auto simp: chan_live_def c1 tear_def)
    have "wp (SwitchSelectedConnection None ?c1) (\<lambda>d. wp (SortConnectionsAndUpdateState now d) (\<lambda>d.
        dom (ch_heap d) = dom (ch_heap c) \<and>
        set (ct_connections d) = set (ct_connections c) - {p} \<and> distinct (ct_connections d) \<and>
        set_option (ch_selected d) \<subseteq> dom (ch_heap c) - {p} \<and>
        (ch_selected d \<noteq> None \<longrightarrow> ct_selected d = ch_selected d) \<and>
        (ch_writable d \<longrightarrow> ch_has_been_connection d) \<and> ch_ports d = ch_ports c))"
    proof (rule wp_mono[OF Switch_None_wp[OF live]], elim conjE)
      fix d
      assume d: "chan_live d" "heap_eq (ch_heap ?c1) (ch_heap d)" "ch_selected d = None"
        "ct_connections d = ct_connections ?c1" "ch_ports d = ch_ports ?c1"
        "ch_writable d = ch_writable ?c1" "ch_has_been_connection d = ch_has_been_connection ?c1"
      have been: "ch_writable d \<longrightarrow> ch_has_been_connection d"
        using assms(1) d(6,7) by (simp add: c1 tear_def)
      show "wp (SortConnectionsAndUpdateState now d) (\<lambda>d.
        dom (ch_heap d) = dom (ch_heap c) \<and>
        set (ct_connections d) = set (ct_connections c) - {p} \<and> distinct (ct_connections d) \<and>
        set_option (ch_selected d) \<subseteq> dom (ch_heap c) - {p} \<and>
        (ch_selected d \<noteq> None \<longrightarrow> ct_selected d = ch_selected d) \<and>
        (ch_writable d \<longrightarrow> ch_has_been_connection d) \<and> ch_ports d = ch_ports c)"
      proof (rule wp_mono[OF Sort_wp[OF d(1) been]], elim conjE)
        fix e assume e: "sort_post d e" "state_ok e"
        have m: "mset (ct_connections e) = mset (remove1 p (ct_connections c))"
          "heap_eq (ch_heap d) (ch_heap e)" "ch_ports e = ch_ports c"
          using e(1) d(4,5) by (simp_all add: sort_post_def c1)
        have D: "dom (ch_heap e) = dom (ch_heap c)"
          using heap_eq_dom[OF m(2)] heap_eq_dom[OF d(2)] by (simp add: c1)
        have S: "set (ct_connections e) = set (ct_connections c) - {p}" "distinct (ct_connections e)"
          using mset_eq_setD[OF m(1)] mset_eq_imp_distinct_iff[OF m(1)] conns by simp_all
        have sel: "ch_selected e = None \<or> ch_selected e = ct_selected e \<and>
            (\<exists>q\<in>set (ct_connections c) - {p}. ch_selected e = Some q)"
          using e(1) d(3,4) conns(1) by (auto simp: sort_post_def c1)
        have "set_option (ch_selected e) \<subseteq> dom (ch_heap c) - {p}"
          using sel assms(1) by (elim disjE conjE bexE) (auto simp: tear_def)
        then show "dom (ch_heap e) = dom (ch_heap c) \<and>
            set (ct_connections e) = set (ct_connections c) - {p} \<and> distinct (ct_connections e) \<and>
            set_option (ch_selected e) \<subseteq> dom (ch_heap c) - {p} \<and>
            (ch_selected e \<noteq> None \<longrightarrow> ct_selected e = ch_selected e) \<and>
            (ch_writable e \<longrightarrow> ch_has_been_connection e) \<and> ch_ports e = ch_ports c"
          using D S sel m(3) e(2) by (auto simp: state_ok_def)
      qed
    qed
    then show ?thesis using True by (simp add: OnConnectionDestroyed_def Let_def c1)
  next
    case False
    have live: "update_live ?c1"
      using assms(1) conns(1) by (auto simp: update_live_def c1 tear_def)
    have been: "ch_writable ?c1 \<longrightarrow> ch_has_been_connection ?c1"
      using assms(1) by (simp add: c1 tear_def)
    have sel: "set_option (ch_selected c) \<subseteq> dom (ch_heap c) - {p}"
      using assms(1) False by (cases "ch_selected c") (auto simp: tear_def)
    have "wp (UpdateState ?c1) (\<lambda>d. dom (ch_heap d) = dom (ch_heap c) \<and>
      set (ct_connections d) = set (ct_connections c) - {p} \<and> distinct (ct_connections d) \<and>
      set_option (ch_selected d) \<subseteq> dom (ch_heap c) - {p} \<and>
      (ch_selected d \<noteq> None \<longrightarrow> ct_selected d = ch_selected d) \<and>
      (ch_writable d \<longrightarrow> ch_has_been_connection d) \<and> ch_ports d = ch_ports c)"
    proof (rule wp_mono[OF UpdateState_wp[OF live been]])
      fix d assume d: "state_ok d \<and> core d = core ?c1"
      then have k: "core d = core ?c1" by blast
      show "dom (ch_heap d) = dom (ch_heap c) \<and>
        set (ct_connections d) = set (ct_connections c) - {p} \<and> distinct (ct_connections d) \<and>
        set_option (ch_selected d) \<subseteq> dom (ch_heap c) - {p} \<and>
        (ch_selected d \<noteq> None \<longrightarrow> ct_selected d = ch_selected d) \<and>
        (ch_writable d \<longrightarrow> ch_has_been_connection d) \<and> ch_ports d = ch_ports c"
        using d coreD(1-7)[OF k] conns sel assms(1) by (simp add: c1 state_ok_def tear_def)
    qed
    then show ?thesis using False by (simp add: OnConnectionDestroyed_def Let_def c1)
  qed
qed

lemma Destroy_wp:
  assumes "tear c" "p \<in> dom (ch_heap c)"
  shows "wp (Destroy now p c) (\<lambda>d. tear d \<and> dom (ch_heap d) = dom (ch_heap c) - {p} \<and> ch_ports d = ch_ports c)"
proof -
  obtain n where n: "ch_heap c p = Some n" using assms(2) by blast
  have "wp (OnConnectionDestroyed now p c) (\<lambda>d. tear (d\<lparr>ch_heap := (ch_heap d)(p := None)\<rparr>) \<and>
      dom (ch_heap d) = dom (ch_heap c) \<and> ch_ports d = ch_ports c)"
    by (rule wp_mono[OF Destroyed_wp[OF assms]]) (use assms in \<open>auto simp: tear_def\<close>)
  then show ?thesis
    by (simp add: Destroy_def deref_live[OF n]) (erule wp_mono, simp)
qed

lemma teardown:
  assumes "tear c" "set ps = dom (ch_heap c)" "distinct ps"
  shows "wp (each (Destroy now) ps c) (\<lambda>d. dom (ch_heap d) = {})"
  using assms
proof (induction ps arbitrary: c)
  case (Cons p ps)
  have "wp (Destroy now p c) (\<lambda>d. wp (each (Destroy now) ps d) (\<lambda>d. dom (ch_heap d) = {}))"
  proof (rule wp_mono[OF Destroy_wp[OF Cons.prems(1)]])
    show "p \<in> dom (ch_heap c)" using Cons.prems(2) by auto
    fix d assume d: "tear d \<and> dom (ch_heap d) = dom (ch_heap c) - {p} \<and> ch_ports d = ch_ports c"
    then have "set ps = dom (ch_heap d)" using Cons.prems(2,3) by auto
    then show "wp (each (Destroy now) ps d) (\<lambda>d. dom (ch_heap d) = {})"
      using Cons.IH[of d] Cons.prems(3) d by simp
  qed
  then show ?case by simp
qed (simp, metis dom_eq_empty_conv)

lemma Destroy_frees:
  assumes "Destroy now p c = Inr d"
  shows "ch_heap d p = None"
  using assms by (auto simp: Destroy_def and_then_Inr)

lemma Destroy_ports:
  assumes "tear c" "p \<in> dom (ch_heap c)" "Destroy now p c = Inr d"
  shows "ch_ports d = ch_ports c"
  using Destroy_wp[OF assms(1,2), of now] assms(3) by simp

subsection \<open>Properties\<close>

text \<open>
  C2: in every reachable channel the controller's list, its two ping sets and the live
  connections agree, the selected pointers are equal and live, and the published state is
  the one the connections have.
\<close>

theorem ice_reachable_inv:
  assumes "reachable I c"
  shows "set (ct_connections c) = dom (ch_heap c) \<and> distinct (ct_connections c) \<and>
    ct_unpinged c \<union> ct_pinged c = dom (ch_heap c) \<and> ct_unpinged c \<inter> ct_pinged c = {} \<and>
    ct_selected c = ch_selected c \<and> set_option (ch_selected c) \<subseteq> dom (ch_heap c) \<and>
    (\<forall>q n. ch_heap c q = Some n \<longrightarrow> cn_selected n = (ch_selected c = Some q)) \<and>
    ch_writable c = sel_writable c \<and> ch_receiving c = some_conn cn_receiving c \<and> ch_state c = pure_state c"
  using reachable_inv[OF assms] by (simp add: chan_inv_def base_def state_ok_def flags_ok_def)


text \<open>
  When a connection times out, \<open>UpdateState\<close> goes on to use the connection it has just
  deleted.
\<close>

theorem timeout_uses_freed_connection:
  assumes "chan_inv c" "ch_heap c p = Some n" "timed_out now n"
  shows "ConnUpdateState now p c = Inl (UseAfterFree p)"
proof -
  note inv = assms(1)
  have tl: "TooLongWithoutResponse CONNECTION_WRITE_TIMEOUT now n" using assms(3) by (simp add: timed_out_def)
  let ?to1 = "cn_write_state n = STATE_WRITABLE \<and>
    TooManyPingFails CONNECTION_WRITE_CONNECT_FAILS (clamped_rtt n) now n \<and>
    TooLongWithoutResponse CONNECTION_WRITE_CONNECT_TIMEOUT now n"
  define n1 where "n1 = (if ?to1 then n\<lparr>cn_write_state := STATE_WRITE_UNRELIABLE\<rparr> else n)"
  have n1: "cn_write_state n1 = STATE_WRITE_UNRELIABLE \<or> cn_write_state n1 = STATE_WRITE_INIT"
    "cn_pings n1 = cn_pings n"
    using assms(3) TooLong_less[OF tl] by (auto simp: n1_def timed_out_def)
  obtain c1 where c1: "(if ?to1 then set_write_state now p STATE_WRITE_UNRELIABLE c else Inr c) = Inr c1"
    "chan_inv c1" "heap_eq ((ch_heap c)(p \<mapsto> n1)) (ch_heap c1)"
  proof (cases ?to1)
    case True
    have "wp (set_write_state now p STATE_WRITE_UNRELIABLE c) (post c ((ch_heap c)(p \<mapsto> n1)))"
      using set_write_state_wp[OF inv assms(2), of now STATE_WRITE_UNRELIABLE] True by (simp add: n1_def)
    then obtain d where "set_write_state now p STATE_WRITE_UNRELIABLE c = Inr d" "post c ((ch_heap c)(p \<mapsto> n1)) d"
      using wpD by blast
    then show ?thesis using that True by (simp add: post_def)
  next
    case False
    then have "(ch_heap c)(p \<mapsto> n1) = ch_heap c" using assms(2) by (auto simp: n1_def fun_upd_idem)
    then show ?thesis using that[of c] False inv by (simp only: if_False) simp
  qed
  obtain m where m: "ch_heap c1 p = Some m" "conn_eq n1 m"
    using heap_eqD[OF c1(3), of p n1] by auto
  have tlm: "TooLongWithoutResponse CONNECTION_WRITE_TIMEOUT now m"
    using tl n1(2) conn_eqD(6)[OF m(2)] by (simp add: TooLongWithoutResponse_def)
  have wm: "cn_write_state m = STATE_WRITE_UNRELIABLE \<or> cn_write_state m = STATE_WRITE_INIT"
    using n1(1) conn_eqD(3)[OF m(2)] by simp
  have "wp (set_write_state now p STATE_WRITE_TIMEOUT c1) (\<lambda>c2. wp (FailAndDestroy now p c2) (\<lambda>d. ch_heap d p = None))"
  proof (rule wp_mono[OF set_write_state_keeps[OF c1(2)]])
    fix c2 assume "keeps c1 c2 \<and> (\<exists>m. ch_heap c2 p = Some m \<and> cn_write_state m = STATE_WRITE_TIMEOUT)"
    then have c2: "chan_inv c2" "p \<in> dom (ch_heap c2)" by (auto simp: keeps_def)
    have "wp (set_state p FAILED c2) (\<lambda>c3. wp (Destroy now p c3) (\<lambda>d. ch_heap d p = None))"
      unfolding set_state_def
    proof (rule wp_mono[OF assign_keeps[OF c2]], simp, elim conjE)
      fix c3 assume "keeps c2 c3"
      then have "tear c3" "p \<in> dom (ch_heap c3)" using c2 inv_tear by (auto simp: keeps_def)
      from Destroy_wp[OF this, of now] show "wp (Destroy now p c3) (\<lambda>d. ch_heap d p = None)"
        by (rule wp_mono) blast
    qed
    then show "wp (FailAndDestroy now p c2) (\<lambda>d. ch_heap d p = None)" by (simp add: FailAndDestroy_def)
  qed (use m in blast)
  then obtain c2 d where "set_write_state now p STATE_WRITE_TIMEOUT c1 = Inr c2"
    "FailAndDestroy now p c2 = Inr d" "ch_heap d p = None"
    by (auto dest!: wpD)
  then show ?thesis
    using c1(1) wm tlm
    by (simp add: ConnUpdateState_def deref_live[OF assms(2)] deref_live[OF m(1)] UpdateReceiving_def deref_def[of d])
qed

text \<open>
  C40: an error response to an outstanding ping (which, as every parsed message, carries no
  error code) destroys the connection, and with it the request that \<open>CheckResponse\<close> deletes
  afterwards.
\<close>

theorem error_response_double_free:
  assumes "chan_inv c" "ch_heap c p = Some n"
    and "cn_requests n (sm_transaction_id msg) = Some request"
    and "sm_type (rq_msg request) = STUN_BINDING_REQUEST" "sm_type msg = STUN_BINDING_ERROR_RESPONSE"
    and "GetAttribute STUN_ATTR_ERROR_CODE (sm_attrs msg) = None"
  shows "CheckResponse I now msg p c = Inl (DoubleFree (sm_transaction_id msg))"
proof -
  note inv = assms(1)
  have p: "p \<in> dom (ch_heap c)" using assms(2) by blast
  have code: "GetErrorCodeValue msg = 600"
    using assms(6) by (simp add: GetErrorCodeValue_def STUN_ERROR_GLOBAL_FAIL_def)
  have "wp (set_state p FAILED c) (\<lambda>d. wp (Destroy now p d) (\<lambda>e. ch_heap e p = None))"
    unfolding set_state_def
  proof (rule wp_mono[OF assign_keeps[OF inv p]], simp, elim conjE)
    fix d assume "keeps c d"
    then have "tear d" "p \<in> dom (ch_heap d)" using p inv_tear by (auto simp: keeps_def)
    from Destroy_wp[OF this, of now] show "wp (Destroy now p d) (\<lambda>e. ch_heap e p = None)"
      by (rule wp_mono) blast
  qed
  then obtain d where "FailAndDestroy now p c = Inr d" "ch_heap d p = None"
    unfolding FailAndDestroy_def by (auto dest!: wpD simp: and_then_Inr)
  then show ?thesis
    using assms(3-5) code
    by (simp add: CheckResponse_def deref_live[OF assms(2)] Let_def OnConnectionRequestErrorResponse_def
        delete_request_def STUN_BINDING_REQUEST_def STUN_BINDING_ERROR_RESPONSE_def GetStunSuccessResponse_def
        GetStunErrorResponse_def IsStunRequestType_def kStunTypeMask_def STUN_ERROR_UNAUTHORIZED_def
        STUN_ERROR_UNKNOWN_ATTRIBUTE_def STUN_ERROR_SERVER_ERROR_def)
qed

text \<open>
  A destroyed connection stays in its port's address table: the next packet from that
  address is handed to the freed object.
\<close>

theorem destroyed_connection_stays_bound:
  assumes "chan_inv c" "i < length (ch_ports c)" "po_connections (ch_ports c ! i) addr = Some p"
    and "Destroy now p c = Inr d"
  shows "PortOnReadPacket I now' x i addr data d = Inl (UseAfterFree p)"
proof -
  note inv = assms(1)
  have "ran (po_connections (ch_ports c ! i)) \<subseteq> dom (ch_heap c)"
    using inv nth_mem[OF assms(2)] by (simp add: chan_inv_def base_def ports_ok_def)
  then have p: "p \<in> dom (ch_heap c)" using assms(3) by (auto simp: ran_def)
  show ?thesis
    using Destroy_ports[OF inv_tear[OF inv] p assms(4)] Destroy_frees[OF assms(4)] assms(3)
    by (simp add: PortOnReadPacket_def ConnOnReadPacket_def deref_def)
qed

text \<open>The destructor of a channel frees each of its connections exactly once.\<close>

theorem channel_teardown:
  assumes "chan_inv c"
  shows "\<exists>d. delete_channel now c = Inr d \<and> dom (ch_heap d) = {}"
proof -
  note inv = assms
  then have "wp (each (Destroy now) (ct_connections c) c) (\<lambda>d. dom (ch_heap d) = {})"
    by (intro teardown inv_tear) (simp_all add: chan_inv_def base_def)
  then show ?thesis by (auto simp: delete_channel_def dest!: wpD)
qed

subsection \<open>A concrete channel\<close>

fun split_bytes :: "u8 \<Rightarrow> bytes \<Rightarrow> bytes list" where
  "split_bytes d [] = [[]]"
| "split_bytes d (b # bs) = (if b = d then [] # split_bytes d bs
     else (case split_bytes d bs of [] \<Rightarrow> [[b]] | f # fs \<Rightarrow> (b # f) # fs))"

definition demo_ice :: ice_lib where
  "demo_ice = \<lparr>wire = network_order, GetNextMovingAverage = (\<lambda>old new ratio. (old * ratio + new) div (ratio + 1)),
     split_at = split_bytes, IPAddressPrecedence = (\<lambda>_. 30), foundation_of = (\<lambda>_ _ _. [])\<rparr>"

definition demo_addr :: sock_addr where
  "demo_addr = \<lparr>sa_ip = IPv4 0x0A000001, sa_port = 5000\<rparr>"

definition demo_candidate :: candidate where
  "demo_candidate = \<lparr>ca_component = RTP, ca_protocol = ''udp'', ca_address = demo_addr, ca_priority = 100,
     ca_username = [1], ca_password = [2], ca_type = ''prflx'', ca_foundation = []\<rparr>"

definition demo_port :: udp_port where
  "demo_port = \<lparr>po_component = RTP, po_params = \<lparr>ice_ufrag = [3], ice_pwd = [4]\<rparr>, po_open = True,
     po_candidates = [demo_candidate], po_connections = [demo_addr \<mapsto> 1]\<rparr>"

definition demo_request :: stun_request where
  "demo_request = \<lparr>rq_msg = StunMessage\<lparr>sm_type := STUN_BINDING_REQUEST\<rparr>, rq_ts = 0\<rparr>"

definition demo_conn :: ice_conn where
  "demo_conn = (IceConnection 0 demo_candidate)
     \<lparr>cn_pings := [(replicate 12 48, 0)], cn_requests := [replicate 12 48 \<mapsto> demo_request]\<rparr>"

text \<open>One connection at address 1, with one ping sent at time 0 and unanswered.\<close>

definition demo_channel :: channel where
  "demo_channel = (IceTransportChannel RTP)\<lparr>ch_ports := [demo_port], ch_heap := [1 \<mapsto> demo_conn],
     ct_connections := [1], ct_unpinged := {1}, ch_had_connection := True, ch_state := kChecking\<rparr>"

lemmas demo_ice_defs = demo_channel_def demo_conn_def demo_port_def demo_candidate_def demo_addr_def
  IceTransportChannel_def IceConnection_def demo_request_def StunMessage_def

lemma demo_channel_inv: "chan_inv demo_channel"
  by (simp add: chan_inv_def base_def flags_ok_def ports_ok_def state_ok_def sel_writable_def some_conn_def
      pure_state_def conn_at_def cn_active_def demo_ice_defs)

lemma demo_channel_conn: "ch_heap demo_channel 1 = Some demo_conn"
  by (simp add: demo_channel_def)

theorem ice_reachable_inv_witness:
  "ct_connections (set_ice_params \<lparr>ice_ufrag = [3], ice_pwd = [4]\<rparr> (IceTransportChannel RTP)) = []"
proof -
  have "reachable demo_ice (set_ice_params \<lparr>ice_ufrag = [3], ice_pwd = [4]\<rparr> (IceTransportChannel RTP))"
    using reachable_step[OF reachable_init, of demo_ice RTP "EvParams \<lparr>ice_ufrag = [3], ice_pwd = [4]\<rparr>"] by simp
  from ice_reachable_inv[OF this] show ?thesis
    by (simp add: set_ice_params_def IceTransportChannel_def)
qed


theorem timeout_uses_freed_connection_witness:
  "ConnUpdateState 16000 1 demo_channel = Inl (UseAfterFree 1)"
proof (rule timeout_uses_freed_connection[OF demo_channel_inv demo_channel_conn])
  show "timed_out 16000 demo_conn"
    by (simp add: timed_out_def TooLongWithoutResponse_def demo_conn_def IceConnection_def ice_consts)
qed

theorem error_response_double_free_witness:
  "CheckResponse demo_ice 50 (StunMessage\<lparr>sm_type := STUN_BINDING_ERROR_RESPONSE\<rparr>) 1 demo_channel
     = Inl (DoubleFree (replicate 12 48))"
  using error_response_double_free[OF demo_channel_inv demo_channel_conn,
      of "StunMessage\<lparr>sm_type := STUN_BINDING_ERROR_RESPONSE\<rparr>" demo_request demo_ice 50]
  by (simp add: demo_conn_def demo_request_def StunMessage_def)

theorem destroyed_connection_stays_bound_witness:
  "\<exists>d. Destroy 50 1 demo_channel = Inr d \<and> PortOnReadPacket demo_ice 60 2 0 demo_addr [] d = Inl (UseAfterFree 1)"
proof -
  have "1 \<in> dom (ch_heap demo_channel)" using demo_channel_conn by blast
  then obtain d where d: "Destroy 50 1 demo_channel = Inr d"
    using wpD[OF Destroy_wp[OF inv_tear[OF demo_channel_inv]]] by blast
  moreover have "PortOnReadPacket demo_ice 60 2 0 demo_addr [] d = Inl (UseAfterFree 1)"
    by (rule destroyed_connection_stays_bound[OF demo_channel_inv _ _ d])
      (simp_all add: demo_channel_def demo_port_def)
  ultimately show ?thesis by blast
qed

theorem channel_teardown_witness:
  "\<exists>d. delete_channel 50 demo_channel = Inr d \<and> dom (ch_heap d) = {}"
  by (rule channel_teardown[OF demo_channel_inv])

end
