(* ===== verification/IceAuth.thy ===== *)
theory IceAuth
  imports IceDestroy
begin

text \<open>
  The exchange of two peers: a ping composed by \<open>ConnectionRequest::Prepare\<close> passes every check
  of \<open>GetStunMessage\<close> at the peer that owns the credentials, the binding response it gets
  back is accepted under the same password, and nothing else than an authenticated request
  reaches the code that creates connections.
\<close>

definition split_ok :: "'a ice_lib_scheme \<Rightarrow> bool" where
  "split_ok I \<longleftrightarrow> (\<forall>d x y. d \<notin> set x \<and> d \<notin> set y \<longrightarrow> split_at I d (x @ [d] @ y) = [x, y])"

lemma padded_le: "padded n \<le> n + 3"
  unfolding padded_def by presburger

lemma attr_ok_bytes:
  assumes "length bs \<le> 1024" "GetAttributeValueType t \<noteq> STUN_VALUE_UINT32"
  shows "attr_ok (StunByteStringAttribute t bs)" "attr_size (StunByteStringAttribute t bs) \<le> 1031"
proof -
  have l: "unat (of_nat (length bs) :: u16) = length bs" using assms(1) by (simp add: unat_of_nat)
  show "attr_ok (StunByteStringAttribute t bs)"
    using assms padded_le[of "length bs"]
    by (auto simp: attr_ok_def value_ok_def StunByteStringAttribute_def CopyBytes_def l
        split: value_type.split simp del: GetAttributeValueType.simps)
  show "attr_size (StunByteStringAttribute t bs) \<le> 1031"
    using assms(1) padded_le[of "length bs"]
    by (simp add: attr_size_def StunByteStringAttribute_def CopyBytes_def l kStunAttributeHeaderSize_def)
qed

lemma attr_ok_u32: "attr_ok (StunUInt32Attribute STUN_ATTR_PRIORITY v)"
  by (simp add: attr_ok_def value_ok_def StunUInt32Attribute_def stun_types padded_def)

lemma attr_ok_controlling: "attr_ok (StunUInt64Attribute STUN_ATTR_ICE_CONTROLLING v)"
  by (simp add: attr_ok_def value_ok_def StunUInt64Attribute_def stun_types padded_def)

lemma attr_sizes [simp]:
  "attr_size (StunUInt32Attribute t v) = 8" "attr_size (StunUInt64Attribute t w) = 12"
  by (simp_all add: attr_size_def StunUInt32Attribute_def StunUInt64Attribute_def padded_def
      kStunAttributeHeaderSize_def)

lemma attr_types [simp]:
  "at_type (StunUInt32Attribute t v) = t" "at_type (StunUInt64Attribute t w) = t"
  "at_type (StunByteStringAttribute t bs) = t" "at_value (StunByteStringAttribute t bs) = VByteString bs"
  by (simp_all add: StunUInt32Attribute_def StunUInt64Attribute_def StunByteStringAttribute_def CopyBytes_def)

lemma empty_msg_ok:
  "length tid = 12 \<Longrightarrow> t AND 0x8000 = 0 \<Longrightarrow>
    msg_ok (StunMessage\<lparr>sm_transaction_id := tid, sm_type := t\<rparr>)"
  by (simp add: msg_ok_def StunMessage_def attrs_size_def kStunTransactionIdLength_def)

subsection \<open>The ping\<close>

definition ping_priority :: "udp_port \<Rightarrow> u32" where
  "ping_priority port = push_bit 24 (word_of_int ICE_TYPE_PREFERENCE_PRFLX)
     OR (ca_priority (hd (po_candidates port)) AND 0x00FFFFFF)"

definition ping_attrs :: "udp_port \<Rightarrow> candidate \<Rightarrow> stun_attr list" where
  "ping_attrs port remote =
     [StunByteStringAttribute STUN_ATTR_USERNAME (CreateStunUsername (ca_username remote) port),
      StunUInt64Attribute STUN_ATTR_ICE_CONTROLLING 0,
      StunByteStringAttribute STUN_ATTR_USE_CANDIDATE [],
      StunUInt32Attribute STUN_ATTR_PRIORITY (ping_priority port)]"

definition unsigned_ping :: "udp_port \<Rightarrow> candidate \<Rightarrow> bytes \<Rightarrow> stun_message" where
  "unsigned_ping port remote tid = run (\<lambda>m a. AddAttribute a m)
     (StunMessage\<lparr>sm_transaction_id := tid, sm_type := STUN_BINDING_REQUEST\<rparr>) (ping_attrs port remote)"

lemma Prepare_unsigned:
  "Prepare I port remote (StunMessage\<lparr>sm_transaction_id := tid\<rparr>) =
    snd (AddFingerprint (wire I) (snd (AddMessageIntegrity (wire I) (ca_password remote) (unsigned_ping port remote tid))))"
  by (simp add: Prepare_def unsigned_ping_def ping_attrs_def ping_priority_def Let_def)

lemma unsigned_ping_ok:
  assumes "length tid = 12" "length (ca_username remote) + length (ice_ufrag (po_params port)) \<le> 1000"
  shows "msg_ok (unsigned_ping port remote tid)" "attrs_size (sm_attrs (unsigned_ping port remote tid)) < 60000"
    "sm_attrs (unsigned_ping port remote tid) = ping_attrs port remote"
    "sm_type (unsigned_ping port remote tid) = STUN_BINDING_REQUEST"
    "sm_transaction_id (unsigned_ping port remote tid) = tid"
proof -
  let ?m = "StunMessage\<lparr>sm_transaction_id := tid, sm_type := STUN_BINDING_REQUEST\<rparr>"
  let ?u = "StunByteStringAttribute STUN_ATTR_USERNAME (CreateStunUsername (ca_username remote) port)"
  let ?c = "StunByteStringAttribute STUN_ATTR_USE_CANDIDATE []"
  have u: "attr_ok ?u" "attr_size ?u \<le> 1031"
    using assms(2) by (intro attr_ok_bytes; simp add: CreateStunUsername_def stun_types)+
  have c: "attr_ok ?c" "attr_size ?c \<le> 1031"
    by (intro attr_ok_bytes; simp add: stun_types)+
  have m0: "msg_ok ?m" "attrs_size (sm_attrs ?m) = 0"
    using empty_msg_ok[OF assms(1)] by (simp_all add: STUN_BINDING_REQUEST_def StunMessage_def attrs_size_def)
  have sz: "attrs_size [] = 0" "attrs_size (a # as) = attr_size a + attrs_size as" for a as
    by (simp_all add: attrs_size_def)
  have e: "sm_attrs StunMessage = []" by (simp add: StunMessage_def)
  have m1: "msg_ok (AddAttribute ?u ?m)" "attrs_size (sm_attrs (AddAttribute ?u ?m)) \<le> 1031"
    using m0 u by (simp_all add: msg_ok_AddAttribute sz e)
  have m2: "msg_ok (AddAttribute (StunUInt64Attribute STUN_ATTR_ICE_CONTROLLING 0) (AddAttribute ?u ?m))"
    by (rule msg_ok_AddAttribute[OF m1(1) attr_ok_controlling]) (use m1 in \<open>simp add: sz e\<close>)
  have m3: "msg_ok (AddAttribute ?c (AddAttribute (StunUInt64Attribute STUN_ATTR_ICE_CONTROLLING 0) (AddAttribute ?u ?m)))"
    by (rule msg_ok_AddAttribute[OF m2 c(1)]) (use m1 c in \<open>simp add: sz e\<close>)
  show ok: "msg_ok (unsigned_ping port remote tid)"
    unfolding unsigned_ping_def ping_attrs_def run_Cons run_Nil
    by (rule msg_ok_AddAttribute[OF m3 attr_ok_u32]) (use m1 c in \<open>simp add: sz e\<close>)
  show "sm_attrs (unsigned_ping port remote tid) = ping_attrs port remote"
    "sm_type (unsigned_ping port remote tid) = STUN_BINDING_REQUEST"
    "sm_transaction_id (unsigned_ping port remote tid) = tid"
    by (simp_all add: unsigned_ping_def ping_attrs_def StunMessage_def)
  show "attrs_size (sm_attrs (unsigned_ping port remote tid)) < 60000"
    using m1 c by (simp add: unsigned_ping_def ping_attrs_def attrs_size_def StunMessage_def)
qed

text \<open>
  The ping a port sends to a remote candidate passes all checks of the port that owns the
  candidate's credentials: fingerprint, parse, user name and integrity. What arrives is a
  binding request of the sender's user name with the peer-reflexive priority.
\<close>

theorem ping_accepted:
  assumes "wire_ok (wire I)" "split_ok I" "length tid = 12"
    and "ca_username remote = ice_ufrag (po_params receiver)" "ca_password remote = ice_pwd (po_params receiver)"
    and "58 \<notin> set (ice_ufrag (po_params receiver))" "58 \<notin> set (ice_ufrag (po_params sender))"
    and "length (ice_ufrag (po_params receiver)) + length (ice_ufrag (po_params sender)) \<le> 1000"
  shows "\<exists>buf msg. Write (wire I) (Prepare I sender remote (StunMessage\<lparr>sm_transaction_id := tid\<rparr>)) = Some buf \<and>
    GetStunMessage I receiver buf = GsMessage msg (ice_ufrag (po_params sender)) \<and>
    sm_type msg = STUN_BINDING_REQUEST \<and> sm_transaction_id msg = tid \<and>
    GetUInt32 STUN_ATTR_PRIORITY msg = Some (StunUInt32Attribute STUN_ATTR_PRIORITY (ping_priority sender))"
proof -
  let ?m = "unsigned_ping sender remote tid" and ?key = "ca_password remote"
  have len: "length (ca_username remote) + length (ice_ufrag (po_params sender)) \<le> 1000"
    using assms(4,8) by simp
  note m = unsigned_ping_ok[OF assms(3) len]
  have free: "free_of STUN_ATTR_MESSAGE_INTEGRITY ?m"
    unfolding free_of_def m(3) by (simp add: ping_attrs_def stun_types)
  obtain m2 buf r where c: "AddMessageIntegrity (wire I) ?key ?m = (True, signed (wire I) ?key ?m)"
    "AddFingerprint (wire I) (signed (wire I) ?key ?m) = (True, m2)" "Write (wire I) m2 = Some buf"
    "ValidateFingerprint (wire I) buf" "Read (wire I) buf StunMessage = Some (True, r, [])"
    "sm_type r = sm_type ?m" "sm_transaction_id r = sm_transaction_id ?m"
    "sm_attrs r = filter attr_known (sm_attrs ?m) @ [mi_attr (signed_digest (wire I) ?key ?m)]"
    "\<forall>key'. ValidateMessageIntegrity (wire I) key' r = Some (r\<lparr>sm_password := key', sm_integrity :=
      if signed_digest (wire I) ?key ?m = signed_digest (wire I) key' ?m then kIntegrityOk else kIntegrityBad\<rparr>)"
    using signed_chain[OF assms(1) m(1) free, of ?key] m(2) by fastforce
  define username where "username = CreateStunUsername (ca_username remote) sender"
  have attrs: "sm_attrs r = [StunByteStringAttribute STUN_ATTR_USERNAME username,
      StunUInt32Attribute STUN_ATTR_PRIORITY (ping_priority sender), mi_attr (signed_digest (wire I) ?key ?m)]"
    unfolding c(8) m(3) by (simp add: ping_attrs_def attr_known_def stun_types username_def)
  have name: "ParseStunUsername I r = Some (ice_ufrag (po_params receiver), ice_ufrag (po_params sender))"
    using assms(2,4,6,7)
    by (simp add: ParseStunUsername_def GetByteString_def attrs username_def CreateStunUsername_def split_ok_def)
  have "GetStunMessage I receiver buf
      = GsMessage (r\<lparr>sm_password := ?key, sm_integrity := kIntegrityOk\<rparr>) (ice_ufrag (po_params sender))"
    using c(4-6) c(9)[rule_format, of ?key] m(4) name assms(5)
    by (simp add: GetStunMessage_def GetByteString_def attrs stun_types)
  moreover have "Write (wire I) (Prepare I sender remote (StunMessage\<lparr>sm_transaction_id := tid\<rparr>)) = Some buf"
    unfolding Prepare_unsigned by (simp add: c(1-3))
  ultimately show ?thesis
    using c(6,7) m(4,5) by (simp add: GetUInt32_def attrs stun_types)
qed

subsection \<open>The response\<close>

definition unsigned_response :: "candidate \<Rightarrow> stun_message \<Rightarrow> stun_message" where
  "unsigned_response remote request =
     AddAttribute (StunXorAddressAttribute STUN_ATTR_XOR_MAPPED_ADDRESS (ca_address remote))
       (StunMessage\<lparr>sm_transaction_id := sm_transaction_id request, sm_type := STUN_BINDING_RESPONSE\<rparr>)"

lemma binding_response_unsigned:
  "GetByteString STUN_ATTR_USERNAME request \<noteq> None \<Longrightarrow> binding_response I port remote request =
    Write (wire I) (snd (AddFingerprint (wire I) (snd (AddMessageIntegrity (wire I) (ice_pwd (po_params port))
      (unsigned_response remote request)))))"
  by (auto simp: binding_response_def unsigned_response_def Let_def StunMessage_def)

text \<open>
  The response to a request from an IPv4 address parses at the requester, carries the
  transaction id of the request and validates under the password the ping was signed with,
  so that \<open>CheckResponse\<close> finds the request it answers.
\<close>

theorem binding_response_accepted:
  assumes "wire_ok (wire I)" "GetByteString STUN_ATTR_USERNAME request \<noteq> None"
    and "length (sm_transaction_id request) = 12" "sa_ip (ca_address remote) = IPv4 v"
  shows "\<exists>buf r r'. binding_response I port remote request = Some buf \<and> GetStunMessage I sender buf = GsMessage r [] \<and>
    sm_type r = STUN_BINDING_RESPONSE \<and> sm_transaction_id r = sm_transaction_id request \<and>
    ValidateMessageIntegrity (wire I) (ice_pwd (po_params port)) r = Some r' \<and> sm_integrity r' = kIntegrityOk"
proof -
  let ?m = "unsigned_response remote request" and ?key = "ice_pwd (po_params port)"
  let ?x = "StunXorAddressAttribute STUN_ATTR_XOR_MAPPED_ADDRESS (ca_address remote)"
  have x: "attr_ok ?x" "attr_size ?x = 12" "at_type ?x = STUN_ATTR_XOR_MAPPED_ADDRESS"
    using assms(4) by (simp_all add: attr_ok_def value_ok_def StunXorAddressAttribute_def attr_size_def
        padded_def stun_types kStunAttributeHeaderSize_def)
  have m: "msg_ok ?m" "sm_attrs ?m = [?x]" "sm_type ?m = STUN_BINDING_RESPONSE"
    "sm_transaction_id ?m = sm_transaction_id request"
    unfolding unsigned_response_def
    using x empty_msg_ok[OF assms(3), of STUN_BINDING_RESPONSE]
    by (intro msg_ok_AddAttribute; simp add: STUN_BINDING_RESPONSE_def attrs_size_def StunMessage_def)
      (simp_all add: StunMessage_def)
  have "at_type ?x \<noteq> STUN_ATTR_MESSAGE_INTEGRITY" unfolding x(3) by (simp add: stun_types)
  then have "free_of STUN_ATTR_MESSAGE_INTEGRITY ?m" unfolding free_of_def m(2) by simp
  moreover have "attrs_size (sm_attrs ?m) + 32 < 65536" unfolding m(2) by (simp add: attrs_size_def x)
  ultimately obtain m2 buf r where c: "AddMessageIntegrity (wire I) ?key ?m = (True, signed (wire I) ?key ?m)"
    "AddFingerprint (wire I) (signed (wire I) ?key ?m) = (True, m2)" "Write (wire I) m2 = Some buf"
    "ValidateFingerprint (wire I) buf" "Read (wire I) buf StunMessage = Some (True, r, [])"
    "sm_type r = sm_type ?m" "sm_transaction_id r = sm_transaction_id ?m"
    "\<forall>key'. ValidateMessageIntegrity (wire I) key' r = Some (r\<lparr>sm_password := key', sm_integrity :=
      if signed_digest (wire I) ?key ?m = signed_digest (wire I) key' ?m then kIntegrityOk else kIntegrityBad\<rparr>)"
    using signed_chain[OF assms(1) m(1), of ?key] by blast
  have "binding_response I port remote request = Some buf"
    unfolding binding_response_unsigned[OF assms(2)] by (simp add: c(1-3))
  moreover have "GetStunMessage I sender buf = GsMessage r []"
    using c(4-6) m(3) by (simp add: GetStunMessage_def STUN_BINDING_REQUEST_def STUN_BINDING_RESPONSE_def)
  ultimately show ?thesis
    using c(6-8) m(3,4) by simp
qed

text \<open>
  A request from an IPv6 address is never answered: the XOR-mapped address cannot be
  serialised, so nothing is sent.
\<close>

theorem no_response_to_ipv6:
  assumes "sa_ip (ca_address remote) = IPv6 bs"
  shows "binding_response I port remote request = None"
proof -
  let ?x = "StunXorAddressAttribute STUN_ATTR_XOR_MAPPED_ADDRESS (ca_address remote)"
  have x: "write_attr W ?x = None" for W
    using assms by (simp add: StunXorAddressAttribute_def GetXoredIP_def)
  have first: "write_attrs W (?x # as) = None" for W as
    by (simp only: write_attrs.simps x option.case)
  have w: "Write W m = None" if "sm_attrs m = ?x # as" for W m as
    by (simp only: Write_def that first option.map)
  let ?m = "StunMessage\<lparr>sm_type := STUN_BINDING_RESPONSE, sm_transaction_id := sm_transaction_id request\<rparr>"
  have a1: "sm_attrs (AddAttribute ?x ?m) = [?x]" by (simp add: StunMessage_def)
  obtain b c where "sm_attrs (snd (AddFingerprint (wire I) (snd (AddMessageIntegrity (wire I)
      (ice_pwd (po_params port)) (AddAttribute ?x ?m))))) = [?x, b, c]"
    using a1 by (simp add: AddMessageIntegrity_def AddFingerprint_def Let_def w)
  then show ?thesis
    by (auto simp: binding_response_def Let_def w split: option.split)
qed

subsection \<open>Witnesses\<close>

lemma split_bytes_free [simp]: "d \<notin> set y \<Longrightarrow> split_bytes d y = [y]"
  by (induction y) auto

lemma split_bytes_one: "d \<notin> set x \<Longrightarrow> d \<notin> set y \<Longrightarrow> split_bytes d (x @ [d] @ y) = [x, y]"
  by (induction x) auto

lemma demo_ice_ok: "wire_ok (wire demo_ice)" "split_ok demo_ice"
  by (simp add: demo_ice_def network_order_ok) (simp add: split_ok_def demo_ice_def split_bytes_one del: append.simps)

definition demo_receiver :: udp_port where
  "demo_receiver = demo_port\<lparr>po_params := \<lparr>ice_ufrag = [1], ice_pwd = [2]\<rparr>\<rparr>"

theorem ping_accepted_witness:
  "\<exists>buf msg. Write network_order (Prepare demo_ice demo_port demo_candidate
      (StunMessage\<lparr>sm_transaction_id := replicate 12 48\<rparr>)) = Some buf \<and>
    GetStunMessage demo_ice demo_receiver buf = GsMessage msg [3]"
proof -
  have "\<exists>buf msg. Write (wire demo_ice) (Prepare demo_ice demo_port demo_candidate
        (StunMessage\<lparr>sm_transaction_id := replicate 12 48\<rparr>)) = Some buf \<and>
      GetStunMessage demo_ice demo_receiver buf = GsMessage msg (ice_ufrag (po_params demo_port)) \<and>
      sm_type msg = STUN_BINDING_REQUEST \<and> sm_transaction_id msg = replicate 12 48 \<and>
      GetUInt32 STUN_ATTR_PRIORITY msg = Some (StunUInt32Attribute STUN_ATTR_PRIORITY (ping_priority demo_port))"
    by (rule ping_accepted[OF demo_ice_ok])
      (simp_all add: demo_candidate_def demo_receiver_def demo_port_def)
  then show ?thesis by (auto simp: demo_port_def demo_ice_def)
qed

definition demo_ping :: stun_message where
  "demo_ping = StunMessage\<lparr>sm_transaction_id := replicate 12 48, sm_type := STUN_BINDING_REQUEST,
     sm_attrs := [StunByteStringAttribute STUN_ATTR_USERNAME [1, 58, 3]]\<rparr>"

theorem binding_response_accepted_witness:
  "\<exists>buf r. binding_response demo_ice demo_receiver demo_candidate demo_ping = Some buf \<and>
     GetStunMessage demo_ice demo_port buf = GsMessage r [] \<and> sm_transaction_id r = replicate 12 48"
  using binding_response_accepted[OF demo_ice_ok(1), where request = demo_ping and remote = demo_candidate and port = demo_receiver and sender = demo_port]
  by (auto simp: demo_ping_def demo_candidate_def demo_addr_def GetByteString_def)

theorem no_response_to_ipv6_witness:
  "binding_response demo_ice demo_receiver
     (demo_candidate\<lparr>ca_address := \<lparr>sa_ip = IPv6 (replicate 16 0), sa_port = 5000\<rparr>\<rparr>) demo_ping = None"
  by (rule no_response_to_ipv6[where bs = "replicate 16 0"]) simp

end
