(* ===== verification/IceLog.thy ===== *)
theory IceLog
  imports IceAuth
begin

text \<open>
  What a channel tells the agent: no operation changes the published ICE state without
  signalling it, so that replaying the signals of a call gives the state the channel ends in.
  Needed by the agent, which recomputes its own state on each signal.
\<close>

fun replay :: "ice_state \<Rightarrow> ice_out list \<Rightarrow> ice_state" where
  "replay s [] = s"
| "replay s (OutIceState t # es) = replay t es"
| "replay s (e # es) = replay s es"

lemma replay_append [simp]: "replay s (es @ fs) = replay (replay s es) fs"
  by (induction s es rule: replay.induct) simp_all

definition logged :: "channel \<Rightarrow> channel \<Rightarrow> bool" where
  "logged c d \<longleftrightarrow> (\<exists>es. ch_out d = ch_out c @ es \<and> ch_state d = replay (ch_state c) es) \<and>
     (ch_had_connection c \<longrightarrow> ch_had_connection d) \<and> ch_component d = ch_component c"

lemma logged_trans [trans]: "logged c d \<Longrightarrow> logged d e \<Longrightarrow> logged c e"
  unfolding logged_def by (elim conjE exE) (auto intro!: exI[of _ "_ @ _"])

lemma logged_same:
  "ch_out d = ch_out c \<Longrightarrow> ch_state d = ch_state c \<Longrightarrow> ch_had_connection d = ch_had_connection c \<Longrightarrow>
    ch_component d = ch_component c \<Longrightarrow> logged c d"
  by (simp add: logged_def)

lemma logged_refl [simp]: "logged c c"
  by (simp add: logged_same)

lemma logged_emit: "(\<And>s. e \<noteq> OutIceState s) \<Longrightarrow> logged c (emit e c)"
  by (cases e) (auto simp: logged_def emit_def)

text \<open>\<open>logs f\<close>: whatever the operation returns, it has logged its state changes.\<close>

definition logs :: "(channel \<Rightarrow> channel result) \<Rightarrow> bool" where
  "logs f \<longleftrightarrow> (\<forall>c d. f c = Inr d \<longrightarrow> logged c d)"

lemma logsI: "(\<And>c d. f c = Inr d \<Longrightarrow> logged c d) \<Longrightarrow> logs f"
  by (simp add: logs_def)

lemma logsD: "logs f \<Longrightarrow> f c = Inr d \<Longrightarrow> logged c d"
  by (simp add: logs_def)

lemma logs_then: "logs f \<Longrightarrow> logs g \<Longrightarrow> and_then (f c) g = Inr d \<Longrightarrow> logged c d"
  by (auto simp: and_then_Inr dest!: logsD intro: logged_trans)

lemma logs_each: "(\<And>x. logs (f x)) \<Longrightarrow> logs (each f xs)"
proof (induction xs)
  case (Cons x xs)
  then show ?case by (intro logsI) (simp, rule logs_then[of "f x" "each f xs"], auto)
qed (simp add: logs_def)

lemma logs_assign: "logs (assign p f)"
  by (rule logsI) (auto simp: assign_def and_then_Inr intro: logged_same)

lemma logged_SendTo: "logged c (SendTo port data addr c)"
  by (simp add: SendTo_def logged_emit)

lemma logged_send_error: "logged c (send_error port r addr c)"
  by (simp add: send_error_def logged_SendTo split: option.split)

subsection \<open>State changes\<close>

lemma logged_set_writable: "logged c (set_writable b c)"
  by (auto simp: set_writable_def logged_def emit_def)

lemma logged_set_receiving: "logged c (set_receiving b c)"
  by (auto simp: set_receiving_def logged_def emit_def)

lemma logs_UpdateState: "logs UpdateState"
proof (rule logsI)
  fix c d assume "UpdateState c = Inr d"
  then obtain w r s where d: "d = (let c2 = set_receiving r (set_writable w c) in
      if s \<noteq> ch_state c2 then emit (OutIceState s) (c2\<lparr>ch_state := s\<rparr>) else c2)"
    by (fastforce simp: UpdateState_def and_then_Inr Let_def split: if_splits)
  have "logged c (set_receiving r (set_writable w c))"
    using logged_set_writable logged_set_receiving by (rule logged_trans)
  moreover have "logged c2 (emit (OutIceState s) (c2\<lparr>ch_state := s\<rparr>))" for c2
    by (simp add: logged_def emit_def)
  ultimately show "logged c d" by (auto simp: d Let_def intro: logged_trans)
qed

lemma logs_Switch: "logs (SwitchSelectedConnection conn)"
  by (rule logsI)
    (auto simp: SwitchSelectedConnection_def Let_def and_then_Inr assign_def intro!: logged_same split: option.splits)

lemma SortAndSwitch_frame:
  assumes "SortAndSwitchConnection c = Inr (r, d)"
  shows "\<exists>ps. d = c\<lparr>ct_connections := ps\<rparr>"
  using assms
  by (auto simp: SortAndSwitchConnection_def Let_def and_then_Inr split: list.splits if_splits option.splits)

lemma logs_MaybeStartPinging: "logs (MaybeStartPinging now)"
  by (rule logsI) (auto simp: MaybeStartPinging_def and_then_Inr logged_def emit_def split: if_splits)

lemma logs_Sort: "logs (SortConnectionsAndUpdateState now)"
proof (rule logsI)
  fix c d assume "SortConnectionsAndUpdateState now c = Inr d"
  then obtain r c1 c2 where s: "SortAndSwitchConnection c = Inr (r, c1)"
    "MaybeSwitchSelectedConnection r c1 = Inr c2" "and_then (UpdateState c2) (MaybeStartPinging now) = Inr d"
    by (auto simp: SortConnectionsAndUpdateState_def and_then_Inr)
  have "logged c c1" using SortAndSwitch_frame[OF s(1)] by (auto intro: logged_same)
  also have "logged c1 c2"
    using s(2) logsD[OF logs_Switch] by (auto simp: MaybeSwitchSelectedConnection_def split: option.splits)
  also have "logged c2 d" by (rule logs_then[OF logs_UpdateState logs_MaybeStartPinging s(3)])
  finally show "logged c d" .
qed

lemma logs_change: "logs (OnConnectionStateChange now)"
  using logs_Sort by (simp add: OnConnectionStateChange_def logs_def)

lemma logs_assign_change:
  "and_then (assign p f c) (OnConnectionStateChange now) = Inr d \<Longrightarrow> logged c d"
  by (rule logs_then[OF logs_assign logs_change])

lemma logs_UpdateReceiving: "logs (UpdateReceiving now p)"
  by (rule logsI) (auto simp: UpdateReceiving_def and_then_Inr Let_def split: if_splits intro: logged_trans
      dest!: logsD[OF logs_assign] logsD[OF logs_change])

lemma logs_set_write_state: "logs (set_write_state now p s)"
  by (rule logsI) (auto simp: set_write_state_def and_then_Inr split: if_splits intro: logged_trans
      dest!: logsD[OF logs_assign] logsD[OF logs_change])

lemma logs_set_state: "logs (set_state p s)"
  by (simp add: set_state_def logs_assign)

lemma logs_Response: "logs (ReceivedPingResponse I now rtt p)"
  by (rule logsI) (auto simp: ReceivedPingResponse_def and_then_Inr intro: logged_trans
      dest!: logsD[OF logs_assign] logsD[OF logs_UpdateReceiving] logsD[OF logs_set_write_state] logsD[OF logs_set_state])

lemma logged_ctl_destroyed: "logged c (Ctl_OnConnectionDestroyed p c)"
  by (rule logged_same) (simp_all add: Ctl_OnConnectionDestroyed_def)

lemma logs_destroyed: "logs (OnConnectionDestroyed now p)"
proof (rule logsI)
  fix c d assume a: "OnConnectionDestroyed now p c = Inr d"
  have "logged (Ctl_OnConnectionDestroyed p c) d"
  proof (cases "ch_selected (Ctl_OnConnectionDestroyed p c) = Some p")
    case True
    then show ?thesis using a logs_then[OF logs_Switch logs_Sort] by (simp add: OnConnectionDestroyed_def Let_def)
  next
    case False
    then show ?thesis using a logsD[OF logs_UpdateState] by (simp add: OnConnectionDestroyed_def Let_def)
  qed
  with logged_ctl_destroyed show "logged c d" by (rule logged_trans)
qed

lemma logs_Destroy: "logs (Destroy now p)"
proof (rule logsI)
  fix c d assume "Destroy now p c = Inr d"
  then obtain c1 where "OnConnectionDestroyed now p c = Inr c1" "d = c1\<lparr>ch_heap := (ch_heap c1)(p := None)\<rparr>"
    by (auto simp: Destroy_def and_then_Inr)
  then show "logged c d" using logsD[OF logs_destroyed] by (auto simp: logged_def)
qed

lemma logs_FailAndDestroy: "logs (FailAndDestroy now p)"
  by (rule logsI) (auto simp: FailAndDestroy_def intro: logs_then[OF logs_set_state logs_Destroy])

lemma logs_if: "(P \<Longrightarrow> logged c d) \<Longrightarrow> (\<not> P \<Longrightarrow> c = d) \<Longrightarrow> logged c d"
  by (cases P) simp_all

lemma logs_ConnUpdateState: "logs (ConnUpdateState now p)"
proof (rule logsI)
  fix c d assume "ConnUpdateState now p c = Inr d"
  then obtain c1 c2 where "c = c1 \<or> set_write_state now p STATE_WRITE_UNRELIABLE c = Inr c1"
    "c1 = c2 \<or> and_then (set_write_state now p STATE_WRITE_TIMEOUT c1) (FailAndDestroy now p) = Inr c2"
    "UpdateReceiving now p c2 = Inr d"
    by (auto simp: ConnUpdateState_def and_then_Inr split: if_splits)
  then show "logged c d"
    using logsD[OF logs_set_write_state] logs_then[OF logs_set_write_state logs_FailAndDestroy]
      logsD[OF logs_UpdateReceiving] logged_trans logged_refl by metis
qed

subsection \<open>Handlers\<close>

lemma logs_Ping: "logs (Ping I now tid p)"
proof (rule logsI)
  fix c d assume "Ping I now tid p c = Inr d"
  then obtain f g c1 c2 where "assign p f c = Inr c1" "assign p g c2 = Inr d"
    "c1 = c2 \<or> (\<exists>port buf addr. c2 = SendTo port buf addr c1)"
    by (fastforce simp: Ping_def and_then_Inr Let_def split: option.splits)
  then show "logged c d"
    using logsD[OF logs_assign] logged_SendTo logged_trans by metis
qed

lemma logs_CheckResponse: "logs (CheckResponse I now msg p)"
proof -
  have del: "logs (delete_request tid q)" for tid q
    by (rule logsI) (auto simp: delete_request_def split: option.splits dest: logsD[OF logs_assign])
  have err: "logs (OnConnectionRequestErrorResponse now msg p)"
    by (rule logsI) (auto simp: OnConnectionRequestErrorResponse_def Let_def split: if_splits
        dest: logsD[OF logs_FailAndDestroy])
  have ok: "logs (OnConnectionRequestResponse I now r p)" for r
    by (rule logsI) (auto simp: OnConnectionRequestResponse_def dest: logsD[OF logs_Response])
  show ?thesis
    by (rule logsI) (auto simp: CheckResponse_def and_then_Inr Let_def split: option.splits if_splits
        dest!: logsD[OF del] logsD[OF err] logsD[OF ok] intro: logged_trans)
qed

lemma logs_Request: "logs (HandleStunBindingRequest I msg p)"
  by (rule logsI) (auto simp: HandleStunBindingRequest_def and_then_Inr logged_SendTo split: option.split)

lemma logged_emit_data: "logged c d \<Longrightarrow> logged c (emit (OutData data) d)"
  using logged_trans[OF _ logged_emit] by blast

lemma logs_ConnOnReadPacket: "logs (ConnOnReadPacket I now data p)"
proof (rule logsI)
  fix c d assume a: "ConnOnReadPacket I now data p c = Inr d"
  then obtain n where n: "deref c p = Inr n" by (auto simp: ConnOnReadPacket_def and_then_Inr)
  note a = a[unfolded ConnOnReadPacket_def n and_then.simps Let_def]
  note step = logsD[OF logs_assign] logsD[OF logs_CheckResponse] logsD[OF logs_Request]
  show "logged c d"
  proof (cases "GetStunMessage I (port_of c n) data")
    case (GsMessage msg ufrag)
    show ?thesis
      using a GsMessage
      by (auto simp: and_then_Inr logged_send_error split: if_splits option.splits dest!: step intro: logged_trans)
  qed (use a in \<open>auto simp: and_then_Inr logged_send_error dest!: step intro: logged_emit_data\<close>)
qed

lemma logged_set_port: "logged c (set_port i f c)"
  by (rule logged_same) (simp_all add: set_port_def)

lemma logs_CreateConnection: "logs (CreateConnection now i remote x)"
proof (rule logsI)
  fix c d assume a: "CreateConnection now i remote x c = Inr d"
  define c1 where "c1 = c\<lparr>ch_heap := (ch_heap c)(x \<mapsto> IceConnection i remote)\<rparr>"
  obtain f c2 where "c2 = c1 \<or> (\<exists>old. Destroy now old c1 = Inr c2)" "d = c2 \<or> d = set_port i f c2"
    using a by (auto simp: CreateConnection_def and_then_Inr Let_def c1_def[symmetric] split: option.splits if_splits)
  moreover have "logged c c1" by (rule logged_same) (simp_all add: c1_def)
  ultimately show "logged c d"
    using logsD[OF logs_Destroy] logged_set_port logged_trans by metis
qed

lemma logs_OnUnknownAddress: "logs (OnUnknownAddress I now x i addr msg ufrag)"
proof (rule logsI)
  fix c d assume a: "OnUnknownAddress I now x i addr msg ufrag c = Inr d"
  show "logged c d"
  proof (cases "GetUInt32 STUN_ATTR_PRIORITY msg")
    case None
    then show ?thesis using a logged_send_error by (auto simp: OnUnknownAddress_def)
  next
    case (Some attr)
    then obtain remote c1 c2 where "CreateConnection now i remote x c = Inr c1"
      "HandleStunBindingRequest I msg x (AddConnection x c1) = Inr c2" "SortConnectionsAndUpdateState now c2 = Inr d"
      using a by (auto simp: OnUnknownAddress_def and_then_Inr Let_def)
    moreover have "logged c1 (AddConnection x c1)"
      by (simp add: logged_def AddConnection_def Ctl_AddConnection_def)
    ultimately show ?thesis
      using logsD[OF logs_CreateConnection] logsD[OF logs_Request] logsD[OF logs_Sort] logged_trans by metis
  qed
qed

lemma logs_PortOnReadPacket: "logs (PortOnReadPacket I now x i addr data)"
  by (rule logsI) (auto simp: PortOnReadPacket_def logged_send_error
      split: gs_result.splits if_splits option.splits
      dest!: logsD[OF logs_ConnOnReadPacket] logsD[OF logs_OnUnknownAddress])

lemma logs_set_remote: "logs (set_remote_ice_params now ps)"
proof (rule logsI)
  fix c d assume "set_remote_ice_params now ps c = Inr d"
  then have "logged (c\<lparr>ch_remote_params := ps\<rparr>) d"
    unfolding set_remote_ice_params_def by (rule logs_then[OF logs_each[OF logs_assign] logs_Sort])
  moreover have "logged c (c\<lparr>ch_remote_params := ps\<rparr>)" by (rule logged_same) simp_all
  ultimately show "logged c d" by (blast intro: logged_trans)
qed

lemma logged_gather: "logged c (gather I ns c)"
proof (induction I ns c rule: gather.induct)
  case (2 I ip bound ns c)
  obtain port cand where p: "CreateIceCandidate I ip bound (UDPPort (ch_component c) (ch_params c)) = (port, cand)"
    by fastforce
  show ?case
    using "2.IH"[OF p[symmetric] refl] p by (auto simp: logged_def)
qed simp

lemma logged_Gathering: "logged c (GatheringCandidate I ns c)"
  using logged_trans[OF logged_gather logged_emit] by (auto simp: GatheringCandidate_def Let_def)

lemma logs_OnCheckAndPing: "logs (OnCheckAndPing I now tid)"
proof (rule logsI)
  fix c d assume "OnCheckAndPing I now tid c = Inr d"
  then obtain c1 conn ivl c2 c4 where s: "UpdateConnectionStates now c = Inr c1"
    "SelectConnectionToPing c1 (ch_last_ping_sent_ms c1 - 5) now = Inr (conn, ivl, c2)"
    "(case conn of None \<Rightarrow> Inr c2
       | Some p \<Rightarrow> and_then (PingConnection I now tid p c2) (\<lambda>c3. Inr (MarkConnectionPinged p c3))) = Inr c4"
    "d = c4 \<or> d = emit (OutStartTimer (ivl * 1000)) (emit OutStopTimer (c4\<lparr>ch_cur_ping_interval := ivl\<rparr>))"
    by (auto simp: OnCheckAndPing_def and_then_Inr split: if_splits)
  have "logged c c1"
    using s(1) logsD[OF logs_each[of "ConnUpdateState now"]] logs_ConnUpdateState
    by (simp add: UpdateConnectionStates_def)
  also have "logged c1 c2"
    using s(2) by (auto simp: SelectConnectionToPing_def FindNextPingableConnection_def and_then_Inr Let_def
        split: if_splits intro: logged_same)
  also have "logged c2 c4"
  proof (cases conn)
    case (Some p)
    then obtain c3 where c3: "Ping I now tid p (c2\<lparr>ch_last_ping_sent_ms := now\<rparr>) = Inr c3" "c4 = MarkConnectionPinged p c3"
      using s(3) by (auto simp: and_then_Inr PingConnection_def)
    have "logged c2 (c2\<lparr>ch_last_ping_sent_ms := now\<rparr>)" by (rule logged_same) simp_all
    also have "logged \<dots> c3" using c3(1) by (rule logsD[OF logs_Ping])
    also have "logged c3 c4" using c3(2) by (auto simp: MarkConnectionPinged_def intro: logged_same)
    finally show ?thesis .
  qed (use s(3) in simp)
  also have "logged c4 d" using s(4) by (auto simp: logged_def emit_def)
  finally show "logged c d" .
qed

lemma logs_chan_step: "logs (chan_step I e)"
proof (cases e)
  case (EvSend data)
  have "logged c d" if "SendPacket data c = Inr (b, d)" for b c d
    using that by (auto simp: SendPacket_def and_then_Inr logged_SendTo split: option.splits if_splits)
  then show ?thesis using EvSend by (auto simp: logs_def and_then_Inr)
next
  case (EvParams ps)
  then show ?thesis by (auto simp: logs_def set_ice_params_def intro: logged_same)
qed (simp_all add: logs_OnCheckAndPing logs_PortOnReadPacket logs_set_remote logged_Gathering logs_def
      logsD[OF logs_OnCheckAndPing] logsD[OF logs_PortOnReadPacket] logsD[OF logs_set_remote])

lemma logs_delete_channel: "logs (delete_channel now)"
proof (rule logsI)
  fix c d assume "delete_channel now c = Inr d"
  then obtain c1 where "each (Destroy now) (ct_connections c) c = Inr c1" "d = c1\<lparr>ch_ports := []\<rparr>"
    by (auto simp: delete_channel_def and_then_Inr)
  then show "logged c d" using logsD[OF logs_each[of "Destroy now"], OF logs_Destroy] by (auto simp: logged_def)
qed

end
