(* ===== verification/IceAgent.thy ===== *)
theory IceAgent
  imports IceLog
begin

text \<open>
  \<open>ice_agent.cpp\<close>: the channels of a peer connection and the state aggregated over them. A
  channel is named by its transport name and component; a pointer to a channel is its place in
  the list, which only grows. The signals a channel emits during a call are delivered in the
  order it emitted them, each with the state the channel had at that moment.
\<close>

datatype agent_out =
    AgCandidates string ice_component "candidate list"
  | AgIceState ice_state

record ice_agent =
  ag_channels :: "(string \<times> channel) list"
  ag_state :: ice_state
  ag_out :: "agent_out list"

definition IceAgent :: ice_agent where
  "IceAgent = \<lparr>ag_channels = [], ag_state = kNew, ag_out = []\<rparr>"

abbreviation ag_states :: "ice_agent \<Rightarrow> ice_state list" where
  "ag_states a \<equiv> map (ch_state \<circ> snd) (ag_channels a)"

fun find_channel :: "string \<Rightarrow> ice_component \<Rightarrow> (string \<times> channel) list \<Rightarrow> nat option" where
  "find_channel name component [] = None"
| "find_channel name component ((n, c) # cs) =
     (if name = n \<and> component = ch_component c then Some 0
      else map_option Suc (find_channel name component cs))"

definition GetChannel :: "string \<Rightarrow> ice_component \<Rightarrow> ice_agent \<Rightarrow> nat option" where
  "GetChannel name component a = find_channel name component (ag_channels a)"

definition CreateChannel :: "string \<Rightarrow> ice_component \<Rightarrow> ice_agent \<Rightarrow> ice_agent" where
  "CreateChannel name component a =
     (case GetChannel name component a of
        Some _ \<Rightarrow> a
      | None \<Rightarrow> a\<lparr>ag_channels := ag_channels a @ [(name, IceTransportChannel component)]\<rparr>)"

subsection \<open>The aggregated state\<close>

definition aggregate :: "ice_state list \<Rightarrow> ice_state" where
  "aggregate ss =
     (let total_ice_new = count_list ss kNew;
          total_ice_checking = count_list ss kChecking;
          total_ice_connected = count_list ss kConnected;
          total_ice_completed = count_list ss kCompleted;
          total_ice_failed = count_list ss kFailed;
          total_ice_disconnected = count_list ss kDisconnected;
          total_ice_closed = count_list ss kClosed;
          total_ice = length ss
      in if total_ice_failed > 0 then kFailed
         else if total_ice_disconnected > 0 then kDisconnected
         else if total_ice_new + total_ice_closed = total_ice then kNew
         else if total_ice_new + total_ice_checking > 0 then kChecking
         else if total_ice_completed + total_ice_closed = total_ice then kCompleted
         else if total_ice_connected + total_ice_completed + total_ice_closed = total_ice then kConnected
         else kNew)"

definition SignalIceState :: "ice_state \<Rightarrow> ice_agent \<Rightarrow> ice_agent" where
  "SignalIceState s a = a\<lparr>ag_out := ag_out a @ [AgIceState s]\<rparr>"

definition AgUpdateState :: "ice_agent \<Rightarrow> ice_agent" where
  "AgUpdateState a =
     (let s = aggregate (ag_states a) in
      if ag_state a = s then a
      else
        let a1 = (if ag_state a = kChecking \<and> s = kCompleted then SignalIceState kConnected a else a)
        in SignalIceState s (a1\<lparr>ag_state := s\<rparr>))"

definition OnCandidateAllocateDone :: "nat \<Rightarrow> candidate list \<Rightarrow> ice_agent \<Rightarrow> ice_agent" where
  "OnCandidateAllocateDone i cs a =
     (let (name, c) = ag_channels a ! i
      in a\<lparr>ag_out := ag_out a @ [AgCandidates name (ch_component c) cs]\<rparr>)"

subsection \<open>Signals and calls\<close>

definition set_channel :: "nat \<Rightarrow> channel \<Rightarrow> ice_agent \<Rightarrow> ice_agent" where
  "set_channel i c a = a\<lparr>ag_channels := (ag_channels a)[i := (fst (ag_channels a ! i), c)]\<rparr>"

fun OnSignal :: "nat \<Rightarrow> ice_out \<Rightarrow> ice_agent \<Rightarrow> ice_agent" where
  "OnSignal i (OutIceState s) a =
     AgUpdateState (set_channel i ((snd (ag_channels a ! i))\<lparr>ch_state := s\<rparr>) a)"
| "OnSignal i (OutWritable _) a = AgUpdateState a"
| "OnSignal i (OutReceiving _) a = AgUpdateState a"
| "OnSignal i (OutCandidates cs) a = OnCandidateAllocateDone i cs a"
| "OnSignal i _ a = a"

definition emitted :: "channel \<Rightarrow> channel \<Rightarrow> ice_out list" where
  "emitted c d = drop (length (ch_out c)) (ch_out d)"

definition ag_call :: "nat \<Rightarrow> (channel \<Rightarrow> channel result) \<Rightarrow> ice_agent \<Rightarrow> ice_agent result" where
  "ag_call i f a =
     (let c = snd (ag_channels a ! i) in
      and_then (f c) (\<lambda>d. Inr (set_channel i d (fold (OnSignal i) (emitted c d) a))))"

definition SetIceParams :: "string \<Rightarrow> ice_component \<Rightarrow> ice_params \<Rightarrow> ice_agent \<Rightarrow> ice_agent result" where
  "SetIceParams name component ps a =
     (case GetChannel name component a of
        None \<Rightarrow> Inr a
      | Some i \<Rightarrow> ag_call i (\<lambda>c. Inr (set_ice_params ps c)) a)"

definition SetRemoteIceParams :: "int \<Rightarrow> string \<Rightarrow> ice_component \<Rightarrow> ice_params \<Rightarrow> ice_agent \<Rightarrow> ice_agent result" where
  "SetRemoteIceParams now name component ps a =
     (case GetChannel name component a of
        None \<Rightarrow> Inr a
      | Some i \<Rightarrow> ag_call i (set_remote_ice_params now ps) a)"

text \<open>\<open>networks i\<close>: the outcome of the socket calls for the ports of channel \<open>i\<close>.\<close>

definition AgGatheringCandidate ::
    "'a ice_lib_scheme \<Rightarrow> (nat \<Rightarrow> (ip_addr \<times> u16 option) list) \<Rightarrow> ice_agent \<Rightarrow> ice_agent result" where
  "AgGatheringCandidate I networks a =
     each (\<lambda>i. ag_call i (\<lambda>c. Inr (GatheringCandidate I (networks i) c))) [0..<length (ag_channels a)] a"

subsection \<open>The destructor\<close>

text \<open>
  \<open>~IceAgent\<close> deletes the channels one by one and clears the list afterwards. A channel being
  deleted signals, and \<open>UpdateState\<close> then reads the state of every channel in the list,
  including those deleted before.
\<close>

datatype agent_fault = ChannelFault fault | ChannelUseAfterFree nat

definition updates :: "ice_out \<Rightarrow> bool" where
  "updates e = (case e of OutIceState _ \<Rightarrow> True | OutWritable _ \<Rightarrow> True | OutReceiving _ \<Rightarrow> True | _ \<Rightarrow> False)"

fun delete_channels :: "int \<Rightarrow> nat list \<Rightarrow> ice_agent \<Rightarrow> agent_fault + ice_agent" where
  "delete_channels now [] a = Inr (a\<lparr>ag_channels := []\<rparr>)"
| "delete_channels now (i # is) a =
     (let c = snd (ag_channels a ! i) in
      case delete_channel now c of
        Inl e \<Rightarrow> Inl (ChannelFault e)
      | Inr d \<Rightarrow>
          if i > 0 \<and> list_ex updates (emitted c d) then Inl (ChannelUseAfterFree 0)
          else delete_channels now is (set_channel i d (fold (OnSignal i) (emitted c d) a)))"

definition delete_agent :: "int \<Rightarrow> ice_agent \<Rightarrow> agent_fault + ice_agent" where
  "delete_agent now a = delete_channels now [0..<length (ag_channels a)] a"

subsection \<open>Events\<close>

datatype agent_event =
    AgCreate string ice_component
  | AgSetParams string ice_component ice_params
  | AgSetRemote int string ice_component ice_params
  | AgGather "nat \<Rightarrow> (ip_addr \<times> u16 option) list"
  | AgChannel nat chan_event

fun ag_step :: "'a ice_lib_scheme \<Rightarrow> agent_event \<Rightarrow> ice_agent \<Rightarrow> ice_agent result" where
  "ag_step I (AgCreate name component) a = Inr (CreateChannel name component a)"
| "ag_step I (AgSetParams name component ps) a = SetIceParams name component ps a"
| "ag_step I (AgSetRemote now name component ps) a = SetRemoteIceParams now name component ps a"
| "ag_step I (AgGather networks) a = AgGatheringCandidate I networks a"
| "ag_step I (AgChannel i e) a = ag_call i (chan_step I e) a"

fun ag_admitted :: "'a ice_lib_scheme \<Rightarrow> ice_agent \<Rightarrow> agent_event \<Rightarrow> bool" where
  "ag_admitted I a (AgChannel i e) \<longleftrightarrow> i < length (ag_channels a) \<and> admitted I (snd (ag_channels a ! i)) e"
| "ag_admitted I a e \<longleftrightarrow> True"

inductive ag_reachable :: "'a ice_lib_scheme \<Rightarrow> ice_agent \<Rightarrow> bool" for I where
  ag_init: "ag_reachable I IceAgent"
| ag_next: "ag_reachable I a \<Longrightarrow> ag_admitted I a e \<Longrightarrow> ag_step I e a = Inr b \<Longrightarrow> ag_reachable I b"

subsection \<open>The channels of an agent\<close>

abbreviation ag_names :: "ice_agent \<Rightarrow> (string \<times> ice_component) list" where
  "ag_names a \<equiv> map (\<lambda>(name, c). (name, ch_component c)) (ag_channels a)"

lemma find_channel_None:
  "find_channel name component cs = None \<longleftrightarrow> (name, component) \<notin> (\<lambda>(n, c). (n, ch_component c)) ` set cs"
  by (induction cs) (auto split: if_splits)

lemma find_channel_Some:
  "find_channel name component cs = Some i \<Longrightarrow> i < length cs \<and> fst (cs ! i) = name \<and> ch_component (snd (cs ! i)) = component"
  by (induction cs arbitrary: i) (auto split: if_splits)

definition ag_ok :: "ice_agent \<Rightarrow> bool" where
  "ag_ok a \<longleftrightarrow> (\<forall>(name, c)\<in>set (ag_channels a). chan_inv c) \<and> distinct (ag_names a)"

lemma SignalIceState_simps [simp]:
  "ag_channels (SignalIceState s a) = ag_channels a" "ag_state (SignalIceState s a) = ag_state a"
  "ag_out (SignalIceState s a) = ag_out a @ [AgIceState s]"
  by (simp_all add: SignalIceState_def)

lemma AgUpdateState_channels [simp]: "ag_channels (AgUpdateState a) = ag_channels a"
  by (simp add: AgUpdateState_def Let_def)

lemma AgUpdateState_state [simp]: "ag_state (AgUpdateState a) = aggregate (ag_states a)"
  by (simp add: AgUpdateState_def Let_def)

text \<open>Signals change nothing of the channels but the state one of them publishes.\<close>

lemma OnSignal_channels:
  "i < length (ag_channels a) \<Longrightarrow> ag_channels (OnSignal i e a) = (ag_channels a)[i := (fst (ag_channels a ! i),
     (snd (ag_channels a ! i))\<lparr>ch_state := replay (ch_state (snd (ag_channels a ! i))) [e]\<rparr>)]"
  by (cases e) (simp_all add: set_channel_def OnCandidateAllocateDone_def split_def Let_def)

lemma fold_OnSignal_channels:
  "i < length (ag_channels a) \<Longrightarrow> ag_channels (fold (OnSignal i) es a) = (ag_channels a)[i := (fst (ag_channels a ! i),
     (snd (ag_channels a ! i))\<lparr>ch_state := replay (ch_state (snd (ag_channels a ! i))) es\<rparr>)]"
proof (induction es arbitrary: a)
  case (Cons e es)
  then show ?case
    using replay_append[of _ "[e]" es, symmetric] by (simp add: OnSignal_channels)
qed simp

lemma emitted_logged: "logged c d \<Longrightarrow> ch_out d = ch_out c @ emitted c d \<and> ch_state d = replay (ch_state c) (emitted c d)"
  by (auto simp: logged_def emitted_def)

lemma ag_call_channels:
  assumes "logs f" "i < length (ag_channels a)" "ag_call i f a = Inr b"
  shows "\<exists>d. f (snd (ag_channels a ! i)) = Inr d \<and> logged (snd (ag_channels a ! i)) d \<and>
    ag_channels b = (ag_channels a)[i := (fst (ag_channels a ! i), d)]"
  using assms logsD[OF assms(1)]
  by (auto simp: ag_call_def Let_def and_then_Inr set_channel_def fold_OnSignal_channels)

lemma ag_call_ok:
  assumes "logs f" "i < length (ag_channels a)" "ag_call i f a = Inr b" "ag_ok a"
    and "\<And>c d. chan_inv c \<Longrightarrow> f c = Inr d \<Longrightarrow> c = snd (ag_channels a ! i) \<Longrightarrow> chan_inv d"
  shows "ag_ok b \<and> length (ag_channels b) = length (ag_channels a)"
proof -
  obtain d where d: "f (snd (ag_channels a ! i)) = Inr d" "logged (snd (ag_channels a ! i)) d"
    "ag_channels b = (ag_channels a)[i := (fst (ag_channels a ! i), d)]"
    using ag_call_channels[OF assms(1-3)] by blast
  have inv: "chan_inv (snd (ag_channels a ! i))"
    using assms(4) nth_mem[OF assms(2)] by (auto simp: ag_ok_def)
  have "ag_names b = (ag_names a)[i := (fst (ag_channels a ! i), ch_component d)]"
    by (simp add: d(3) map_update)
  also have "\<dots> = (ag_names a)[i := ag_names a ! i]"
    using d(2) assms(2) by (simp add: logged_def split_def)
  finally have names: "ag_names b = ag_names a" by simp
  have "set (ag_channels b) \<subseteq> insert (fst (ag_channels a ! i), d) (set (ag_channels a))"
    unfolding d(3) by (rule set_update_subset_insert)
  then show ?thesis
    using assms(4) assms(5)[OF inv d(1)] names d(3) by (fastforce simp: ag_ok_def)
qed

text \<open>A call is safe where the channel's operation is.\<close>

lemma ag_call_wp:
  assumes "logs f" "i < length (ag_channels a)" "ag_ok a"
    and "chan_inv (snd (ag_channels a ! i)) \<Longrightarrow> wp (f (snd (ag_channels a ! i))) chan_inv"
  shows "wp (ag_call i f a) (\<lambda>b. ag_ok b \<and> length (ag_channels b) = length (ag_channels a))"
proof -
  have inv: "chan_inv (snd (ag_channels a ! i))"
    using assms(3) nth_mem[OF assms(2)] by (auto simp: ag_ok_def)
  then obtain d where d: "f (snd (ag_channels a ! i)) = Inr d" "chan_inv d" using wpD[OF assms(4)] by blast
  then obtain b where b: "ag_call i f a = Inr b" by (simp add: ag_call_def Let_def)
  have "ag_ok b \<and> length (ag_channels b) = length (ag_channels a)"
    by (rule ag_call_ok[OF assms(1,2) b assms(3)]) (use d in auto)
  then show ?thesis by (simp add: b)
qed

lemma ag_step_wp:
  assumes "ag_ok a" "ag_admitted I a e"
  shows "wp (ag_step I e a) ag_ok"
proof -
  have inv: "chan_inv c \<Longrightarrow> chan_inv (set_ice_params ps c)" for c ps
    using step_wp[of c I "EvParams ps"] by simp
  have gat: "chan_inv c \<Longrightarrow> chan_inv (GatheringCandidate I ns c)" for c ns
    using step_wp[of c I "EvGather ns"] by simp
  have rem: "chan_inv c \<Longrightarrow> wp (set_remote_ice_params now ps c) chan_inv" for c now ps
    using step_wp[of c I "EvRemoteParams now ps"] by simp
  have logs: "logs (\<lambda>c. Inr (set_ice_params ps c))" "logs (\<lambda>c. Inr (GatheringCandidate I ns c))" for ps ns
    by (auto simp: logs_def logged_Gathering set_ice_params_def intro: logged_same)
  have at: "GetChannel name component a = Some i \<Longrightarrow> i < length (ag_channels a)" for name component i
    by (simp add: GetChannel_def find_channel_Some)
  show ?thesis
  proof (cases e)
    case (AgCreate name component)
    have "chan_inv (IceTransportChannel component)" using reachable_inv[OF reachable_init] .
    then show ?thesis
      using AgCreate assms(1)
      by (auto simp: CreateChannel_def GetChannel_def ag_ok_def find_channel_None IceTransportChannel_def split: option.split)
  next
    case (AgSetParams name component ps)
    then show ?thesis
      using assms(1) wp_mono[OF ag_call_wp[OF logs(1) at assms(1)]] inv
      by (auto simp: SetIceParams_def split: option.split)
  next
    case (AgSetRemote now name component ps)
    then show ?thesis
      using assms(1) wp_mono[OF ag_call_wp[OF logs_set_remote at assms(1)]] rem
      by (auto simp: SetRemoteIceParams_def split: option.split)
  next
    case (AgGather networks)
    have "wp (each (\<lambda>i. ag_call i (\<lambda>c. Inr (GatheringCandidate I (networks i) c))) [0..<length (ag_channels a)] a)
        (\<lambda>b. ag_ok b \<and> length (ag_channels b) = length (ag_channels a))"
    proof (rule wp_each)
      fix i b assume "i \<in> set [0..<length (ag_channels a)]" "ag_ok b \<and> length (ag_channels b) = length (ag_channels a)"
      then show "wp (ag_call i (\<lambda>c. Inr (GatheringCandidate I (networks i) c)) b)
          (\<lambda>b. ag_ok b \<and> length (ag_channels b) = length (ag_channels a))"
        using wp_mono[OF ag_call_wp[OF logs(2), of i b]] gat by fastforce
    qed (use assms(1) in simp)
    then show ?thesis using AgGather by (simp add: AgGatheringCandidate_def) (erule wp_mono, simp)
  next
    case (AgChannel i ev)
    then show ?thesis
      using assms(2) wp_mono[OF ag_call_wp[OF logs_chan_step _ assms(1)]] step_wp by fastforce
  qed
qed

lemma ag_reachable_ok: "ag_reachable I a \<Longrightarrow> ag_ok a"
proof (induction rule: ag_reachable.induct)
  case ag_init
  show ?case by (simp add: ag_ok_def IceAgent_def)
next
  case (ag_next a e b)
  then show ?case using ag_step_wp by (metis wp_Inr)
qed

text \<open>
  Whatever the agent is asked to do, and whatever admitted packets and ticks its channels
  get, no freed memory is touched, every channel keeps its invariant, and no two channels
  have the same transport name and component.
\<close>

theorem agent_safe:
  assumes "ag_reachable I a" "ag_admitted I a e"
  shows "\<exists>b. ag_step I e a = Inr b \<and> distinct (ag_names b) \<and> (\<forall>(name, c)\<in>set (ag_channels b). chan_inv c)"
  using ag_step_wp[OF ag_reachable_ok[OF assms(1)] assms(2)] by (auto simp: ag_ok_def dest!: wpD)

subsection \<open>The state follows the channels\<close>

definition follows :: "ice_agent \<Rightarrow> ice_agent \<Rightarrow> bool" where
  "follows a b \<longleftrightarrow> ag_state b = aggregate (ag_states b) \<or> ag_state b = ag_state a \<and> ag_states b = ag_states a"

lemma follows_trans: "follows a b \<Longrightarrow> follows b c \<Longrightarrow> follows a c"
  by (auto simp: follows_def)

lemma OnSignal_state:
  "updates e \<Longrightarrow> ag_state (OnSignal i e a) = aggregate (ag_states (OnSignal i e a))"
  by (cases e) (simp_all add: updates_def)

lemma OnSignal_other:
  "\<not> updates e \<Longrightarrow> ag_state (OnSignal i e a) = ag_state a \<and> ag_channels (OnSignal i e a) = ag_channels a"
  by (cases e) (simp_all add: updates_def OnCandidateAllocateDone_def split_def Let_def)

lemma fold_OnSignal_follows: "follows a (fold (OnSignal i) es a)"
proof (induction es arbitrary: a)
  case (Cons e es)
  have "follows a (OnSignal i e a)"
    using OnSignal_state[of e i a] OnSignal_other[of e i a] by (cases "updates e") (simp_all add: follows_def)
  then show ?case using Cons.IH follows_trans by simp
qed (simp add: follows_def)

lemma ag_call_follows:
  assumes "logs f" "i < length (ag_channels a)" "ag_call i f a = Inr b"
  shows "follows a b"
proof -
  let ?c = "snd (ag_channels a ! i)"
  obtain d where d: "f ?c = Inr d" "b = set_channel i d (fold (OnSignal i) (emitted ?c d) a)"
    using assms(3) by (auto simp: ag_call_def Let_def and_then_Inr)
  have st: "ch_state d = replay (ch_state ?c) (emitted ?c d)"
    using emitted_logged[OF logsD[OF assms(1) d(1)]] by simp
  have "ag_states b = ag_states (fold (OnSignal i) (emitted ?c d) a)" "ag_state b = ag_state (fold (OnSignal i) (emitted ?c d) a)"
    using assms(2) st by (simp_all add: d(2) set_channel_def fold_OnSignal_channels map_update)
  then show ?thesis using fold_OnSignal_follows[of a i "emitted ?c d"] by (simp add: follows_def)
qed


subsection \<open>The signals of the agent\<close>

fun signalled :: "agent_out list \<Rightarrow> ice_state list" where
  "signalled [] = []"
| "signalled (AgIceState s # es) = s # signalled es"
| "signalled (e # es) = signalled es"

lemma signalled_append [simp]: "signalled (es @ fs) = signalled es @ signalled fs"
  by (induction es rule: signalled.induct) simp_all

fun steps_ok :: "ice_state list \<Rightarrow> bool" where
  "steps_ok (s # t # ss) \<longleftrightarrow> s \<noteq> t \<and> \<not> (s = kChecking \<and> t = kCompleted) \<and> steps_ok (t # ss)"
| "steps_ok _ \<longleftrightarrow> True"

lemma steps_ok_snoc:
  "steps_ok (ss @ [s, t]) \<longleftrightarrow> steps_ok (ss @ [s]) \<and> s \<noteq> t \<and> \<not> (s = kChecking \<and> t = kCompleted)"
  by (induction ss rule: steps_ok.induct) auto

definition signals_ok :: "ice_agent \<Rightarrow> bool" where
  "signals_ok a \<longleftrightarrow> steps_ok (kNew # signalled (ag_out a)) \<and> last (kNew # signalled (ag_out a)) = ag_state a"

lemma signals_ok_channels [simp]: "signals_ok (a\<lparr>ag_channels := cs\<rparr>) = signals_ok a"
  by (simp add: signals_ok_def)

lemma steps_ok_extend:
  "ss \<noteq> [] \<Longrightarrow> steps_ok (ss @ [t]) \<longleftrightarrow> steps_ok ss \<and> last ss \<noteq> t \<and> \<not> (last ss = kChecking \<and> t = kCompleted)"
  using steps_ok_snoc[of "butlast ss" "last ss" t] append_butlast_last_id[of ss] by (metis append.assoc append_Cons append_Nil)

lemma signals_ok_update:
  assumes "signals_ok a"
  shows "signals_ok (AgUpdateState a)"
proof -
  let ?ss = "kNew # signalled (ag_out a)" and ?s = "aggregate (ag_states a)"
  have a: "steps_ok ?ss" "last ?ss = ag_state a" using assms by (simp_all add: signals_ok_def)
  consider "ag_state a = ?s" | "ag_state a = kChecking" "?s = kCompleted"
    | "ag_state a \<noteq> ?s" "\<not> (ag_state a = kChecking \<and> ?s = kCompleted)" by blast
  then show ?thesis
  proof cases
    case 1
    then show ?thesis using assms by (simp add: AgUpdateState_def)
  next
    case 2
    have "signalled (ag_out (AgUpdateState a)) = signalled (ag_out a) @ [kConnected, kCompleted]"
      using 2 by (simp add: AgUpdateState_def Let_def)
    moreover have "steps_ok ((?ss @ [kConnected]) @ [kCompleted])"
      using a 2 by (subst steps_ok_extend, simp, subst steps_ok_extend) simp_all
    ultimately show ?thesis using 2 by (simp add: signals_ok_def)
  next
    case 3
    have "signalled (ag_out (AgUpdateState a)) = signalled (ag_out a) @ [?s]"
      using 3 by (simp add: AgUpdateState_def Let_def)
    moreover have "steps_ok (?ss @ [?s])" using a 3 by (subst steps_ok_extend) simp_all
    ultimately show ?thesis by (simp add: signals_ok_def)
  qed
qed

lemma signals_ok_OnSignal: "signals_ok a \<Longrightarrow> signals_ok (OnSignal i e a)"
proof (cases e)
  case (OutIceState s)
  assume "signals_ok a"
  then have "signals_ok (set_channel i c a)" for c by (simp add: signals_ok_def set_channel_def)
  then show ?thesis using OutIceState signals_ok_update by simp
next
  case (OutCandidates cs)
  assume "signals_ok a"
  then show ?thesis using OutCandidates by (simp add: signals_ok_def OnCandidateAllocateDone_def split_def Let_def)
qed (simp_all add: signals_ok_update)

lemma signals_ok_call: "signals_ok a \<Longrightarrow> wp (ag_call i f a) signals_ok \<or> (\<exists>e. ag_call i f a = Inl e)"
proof -
  assume a: "signals_ok a"
  have "signals_ok (fold (OnSignal i) es a)" for es
    using a by (induction es arbitrary: a) (simp_all add: signals_ok_OnSignal)
  then have "signals_ok (set_channel i d (fold (OnSignal i) es a))" for d es
    by (simp add: signals_ok_def set_channel_def)
  then show ?thesis
    by (cases "f (snd (ag_channels a ! i))") (simp_all add: ag_call_def Let_def)
qed

lemma signals_ok_callD: "ag_call i f a = Inr b \<Longrightarrow> signals_ok a \<Longrightarrow> signals_ok b"
  using signals_ok_call[of a i f] by auto

text \<open>
  The states an agent signals, from the initial state new on, never repeat, never jump from
  checking to completed, and the last one is the state it is in.
\<close>

theorem agent_signals:
  assumes "ag_reachable I a"
  shows "steps_ok (kNew # signalled (ag_out a)) \<and> last (kNew # signalled (ag_out a)) = ag_state a"
proof -
  have gather: "each (\<lambda>i. ag_call i (\<lambda>c. Inr (GatheringCandidate I (networks i) c))) is x = Inr y \<Longrightarrow>
      signals_ok x \<Longrightarrow> signals_ok y" for networks "is" x y
    by (induction "is" arbitrary: x) (auto simp: and_then_Inr dest: signals_ok_callD)
  have "signals_ok a"
    using assms
  proof (induction rule: ag_reachable.induct)
    case ag_init
    show ?case by (simp add: signals_ok_def IceAgent_def)
  next
    case (ag_next a e b)
    then show ?case
      by (cases e) (auto simp: CreateChannel_def SetIceParams_def SetRemoteIceParams_def AgGatheringCandidate_def
          split: option.splits dest: signals_ok_callD gather)
  qed
  then show ?thesis by (simp add: signals_ok_def)
qed

subsection \<open>The end of an agent\<close>

lemma setters_had [simp]:
  "ch_had_connection (set_writable w c) = ch_had_connection c" "ch_had_connection (set_receiving r c) = ch_had_connection c"
  "ct_connections (set_writable w c) = ct_connections c" "ct_connections (set_receiving r c) = ct_connections c"
  by (simp_all add: set_writable_def set_receiving_def emit_def)

lemma UpdateState_empty:
  assumes "UpdateState c = Inr d" "ct_connections c = []" "ch_had_connection c"
  shows "ch_state d = kFailed"
proof -
  obtain w where "(let c2 = set_receiving False (set_writable w c) in
      if kFailed \<noteq> ch_state c2 then Inr (emit (OutIceState kFailed) (c2\<lparr>ch_state := kFailed\<rparr>)) else Inr c2) = (Inr d :: channel result)"
    using assms by (auto simp: UpdateState_def and_then_Inr Let_def ComputeIceTransportState_def)
  then show ?thesis by (auto simp: Let_def emit_def split: if_splits)
qed

lemma Sort_empty:
  assumes "SortConnectionsAndUpdateState now c = Inr d" "ct_connections c = []" "ch_had_connection c"
  shows "ch_state d = kFailed"
proof -
  have same: "c\<lparr>ct_connections := []\<rparr> = c" using assms(2) by (cases c) simp
  obtain e where e: "UpdateState c = Inr e" "MaybeStartPinging now e = Inr d"
    using assms(1,2)
    by (auto simp: SortConnectionsAndUpdateState_def SortAndSwitchConnection_def stable_sort_def and_then_Inr Let_def
        MaybeSwitchSelectedConnection_def same)
  have "ch_state d = ch_state e"
    using e(2) by (auto simp: MaybeStartPinging_def and_then_Inr emit_def split: if_splits)
  then show ?thesis using UpdateState_empty[OF e(1) assms(2,3)] by simp
qed

lemma Destroy_last:
  assumes "tear c" "dom (ch_heap c) = {p}" "ch_had_connection c" "Destroy now p c = Inr d"
  shows "ch_state d = kFailed"
proof -
  have "ct_connections c = [p]"
    using assms(1,2) distinct_card[of "ct_connections c"] by (cases "ct_connections c"; cases "tl (ct_connections c)") (auto simp: tear_def)
  then have c1: "ct_connections (Ctl_OnConnectionDestroyed p c) = []" "ch_had_connection (Ctl_OnConnectionDestroyed p c)"
    using assms(3) by (simp_all add: Ctl_OnConnectionDestroyed_def)
  obtain e where e: "OnConnectionDestroyed now p c = Inr e" "ch_state d = ch_state e"
    using assms(4) by (auto simp: Destroy_def and_then_Inr)
  have sw: "SwitchSelectedConnection None x = Inr y \<Longrightarrow>
      ct_connections y = ct_connections x \<and> ch_had_connection y = ch_had_connection x" for x y
    by (auto simp: SwitchSelectedConnection_def Let_def and_then_Inr assign_def split: option.splits)
  show ?thesis
    using e c1 UpdateState_empty Sort_empty
    by (auto simp: OnConnectionDestroyed_def Let_def and_then_Inr split: if_splits dest!: sw)
qed

lemma delete_channel_failed:
  assumes "chan_inv c" "ct_connections c \<noteq> []"
  shows "wp (delete_channel now c) (\<lambda>d. ch_state d = kFailed)"
proof -
  have gen: "tear c \<Longrightarrow> set ps = dom (ch_heap c) \<Longrightarrow> distinct ps \<Longrightarrow> ps \<noteq> [] \<Longrightarrow> ch_had_connection c \<Longrightarrow>
      wp (each (Destroy now) ps c) (\<lambda>d. ch_state d = kFailed)" for ps c
  proof (induction ps arbitrary: c)
    case (Cons p ps)
    obtain d where d: "Destroy now p c = Inr d" "tear d" "dom (ch_heap d) = dom (ch_heap c) - {p}"
      using Destroy_wp[OF Cons.prems(1), of p now] Cons.prems(2) by (auto dest!: wpD)
    show ?case
    proof (cases ps)
      case Nil
      then show ?thesis using Destroy_last[OF Cons.prems(1) _ Cons.prems(5) d(1)] Cons.prems(2) d(1) by simp
    next
      case (Cons q qs)
      have "ch_had_connection d" using logsD[OF logs_Destroy d(1)] Cons.prems(5) by (simp add: logged_def)
      moreover have "set ps = dom (ch_heap d)" using Cons.prems(2,3) d(3) by auto
      ultimately show ?thesis using Cons.IH[OF d(2)] Cons.prems(3) Cons d(1) by simp
    qed
  qed simp
  have "ch_had_connection c" "set (ct_connections c) = dom (ch_heap c)" "distinct (ct_connections c)"
    using assms by (simp_all add: chan_inv_def base_def)
  then show ?thesis
    using gen[OF inv_tear[OF assms(1)]] assms(2) by (simp add: delete_channel_def)
qed

lemma replay_updates: "replay s es \<noteq> s \<Longrightarrow> list_ex updates es"
  by (induction s es rule: replay.induct) (auto simp: updates_def)

lemma delete_channels_fault:
  assumes "k \<in> set is" "0 < k" "k < length (ag_channels a)" "distinct is"
    "\<forall>i\<in>set is. i < length (ag_channels a)"
    "ct_connections (snd (ag_channels a ! k)) \<noteq> []" "ch_state (snd (ag_channels a ! k)) \<noteq> kFailed"
    "\<forall>i\<in>set is. chan_inv (snd (ag_channels a ! i))"
  shows "delete_channels now is a = Inl (ChannelUseAfterFree 0)"
  using assms
proof (induction "is" arbitrary: a)
  case (Cons i "is")
  let ?c = "snd (ag_channels a ! i)"
  have inv: "chan_inv ?c" and i: "i < length (ag_channels a)" using Cons.prems(5,8) by simp_all
  have "wp (each (Destroy now) (ct_connections ?c) ?c) (\<lambda>d. dom (ch_heap d) = {})"
    using inv by (intro teardown inv_tear) (simp_all add: chan_inv_def base_def)
  then obtain d where d: "delete_channel now ?c = Inr d" by (auto simp: delete_channel_def dest!: wpD)
  have log: "ch_state d = replay (ch_state ?c) (emitted ?c d)"
    using emitted_logged[OF logsD[OF logs_delete_channel d]] by simp
  let ?b = "set_channel i d (fold (OnSignal i) (emitted ?c d) a)"
  have chans: "ag_channels ?b = (ag_channels a)[i := (fst (ag_channels a ! i), d)]"
    using i by (simp add: set_channel_def fold_OnSignal_channels)
  show ?case
  proof (cases "i > 0 \<and> list_ex updates (emitted ?c d)")
    case True
    then show ?thesis using d by (simp add: Let_def)
  next
    case False
    have "i \<noteq> k"
    proof
      assume "i = k"
      then have "ch_state d = kFailed" "ch_state ?c \<noteq> kFailed"
        using delete_channel_failed[OF inv, of now] Cons.prems(6,7) d by auto
      then have "list_ex updates (emitted ?c d)" using replay_updates log by metis
      then show False using False \<open>i = k\<close> Cons.prems(2) by simp
    qed
    then have "delete_channels now is ?b = Inl (ChannelUseAfterFree 0)"
      using Cons.prems by (intro Cons.IH) (auto simp: chans nth_list_update)
    then show ?thesis using False d by (simp add: Let_def)
  qed
qed simp

text \<open>
  An agent with a channel, other than the first, that still has a connection and has not
  failed reads a deleted channel when it is destroyed.
\<close>

theorem agent_destructor_reads_deleted_channel:
  assumes "\<forall>(name, c)\<in>set (ag_channels a). chan_inv c" "0 < k" "k < length (ag_channels a)"
    "ct_connections (snd (ag_channels a ! k)) \<noteq> []" "ch_state (snd (ag_channels a ! k)) \<noteq> kFailed"
  shows "delete_agent now a = Inl (ChannelUseAfterFree 0)"
proof -
  have "\<forall>i<length (ag_channels a). chan_inv (snd (ag_channels a ! i))"
    using assms(1) by (auto simp: split_def)
  then show ?thesis
    unfolding delete_agent_def using assms(2-5) by (intro delete_channels_fault[where k = k]) auto
qed

subsection \<open>Witnesses\<close>

theorem agent_safe_witness:
  "\<exists>b. ag_step demo_ice (AgCreate ''audio'' RTP) IceAgent = Inr b \<and> distinct (ag_names b)"
  using agent_safe[OF ag_init, of demo_ice "AgCreate ''audio'' RTP"] by auto


theorem agent_signals_witness: "ag_state IceAgent = kNew"
  using agent_signals[OF ag_init] by (simp add: IceAgent_def)

definition demo_agent :: ice_agent where
  "demo_agent = IceAgent\<lparr>ag_channels := [(''audio'', IceTransportChannel RTP), (''video'', demo_channel)]\<rparr>"

theorem agent_destructor_reads_deleted_channel_witness:
  "delete_agent 50 demo_agent = Inl (ChannelUseAfterFree 0)"
proof (rule agent_destructor_reads_deleted_channel[where k = 1])
  show "\<forall>(name, c)\<in>set (ag_channels demo_agent). chan_inv c"
    using demo_channel_inv reachable_inv[OF reachable_init] by (simp add: demo_agent_def)
qed (simp_all add: demo_agent_def demo_channel_def)

end
