(* ===== verification/PushStream.thy ===== *)
theory PushStream
  imports SeqNum
begin

text \<open>
  \<open>push_stream.cpp\<close>: the video packets of a publisher are forwarded in sequence-number order
  from a cache of 2048 slots, which also answers retransmission requests. A packet out of
  order waits in the cache; a complete key frame ahead of the forwarded packets restarts the
  forwarding. \<open>ps_out\<close> lists the packets handed to the listener.
\<close>

datatype media_type = AUDIO | VIDEO

record rtc_packet =
  pk_seq :: u16
  pk_media :: media_type
  pk_keyframe :: bool
  pk_ts :: int
  pk_buf :: bytes

definition kVideoPacketCacheSize :: nat where "kVideoPacketCacheSize = 2048"

record push_stream =
  video_data_buffer :: "rtc_packet option list"
  video_seq :: u16
  first_seq_time :: int
  ps_out :: "rtc_packet list"

definition PushStream :: push_stream where
  "PushStream = \<lparr>video_data_buffer = replicate kVideoPacketCacheSize None, video_seq = 0,
     first_seq_time = -1, ps_out = []\<rparr>"

definition slot :: "u16 \<Rightarrow> nat" where
  "slot seq_num = unat seq_num mod kVideoPacketCacheSize"

definition FindVideoPacket :: "push_stream \<Rightarrow> u16 \<Rightarrow> rtc_packet option" where
  "FindVideoPacket s seq_num =
     (case video_data_buffer s ! slot seq_num of
        Some p \<Rightarrow> if pk_seq p = seq_num then Some p else None
      | None \<Rightarrow> None)"

definition CacheVideoPacket :: "rtc_packet \<Rightarrow> push_stream \<Rightarrow> push_stream" where
  "CacheVideoPacket p s =
     (if FindVideoPacket s (pk_seq p) \<noteq> None then s
      else s\<lparr>video_data_buffer := (video_data_buffer s)[slot (pk_seq p) := Some p]\<rparr>)"

definition ps_emit :: "rtc_packet \<Rightarrow> push_stream \<Rightarrow> push_stream" where
  "ps_emit p s = s\<lparr>ps_out := ps_out s @ [p]\<rparr>"

text \<open>
  The loop that forwards cached packets from \<open>seq\<close> on, at most \<open>fuel\<close> of them; it returns
  the number it stopped at. The code's counter \<open>test_size\<close> allows 2049 rounds.
\<close>

fun forward_run :: "nat \<Rightarrow> u16 \<Rightarrow> push_stream \<Rightarrow> u16 \<times> push_stream" where
  "forward_run 0 seq s = (seq, s)"
| "forward_run (Suc fuel) seq s =
     (case FindVideoPacket s seq of
        None \<Rightarrow> (seq, s)
      | Some p \<Rightarrow> forward_run fuel (seq + 1) (ps_emit p s))"

definition ProcessVideoPacket :: "seq_lib \<Rightarrow> rtc_packet \<Rightarrow> push_stream \<Rightarrow> push_stream" where
  "ProcessVideoPacket L p s0 =
     (let s = CacheVideoPacket p s0 in
      if first_seq_time s = -1 then
        ps_emit p (s\<lparr>video_seq := pk_seq p, first_seq_time := pk_ts p\<rparr>)
      else if AheadOrAt L (video_seq s) (pk_seq p) then s
      else if pk_seq p \<noteq> video_seq s + 1 then s
      else let (seq, s1) = forward_run (kVideoPacketCacheSize + 1) (pk_seq p) s
           in s1\<lparr>video_seq := seq - 1\<rparr>)"

definition PsOnRtpPacket :: "seq_lib \<Rightarrow> rtc_packet \<Rightarrow> push_stream \<Rightarrow> push_stream" where
  "PsOnRtpPacket L p s =
     (if pk_media p = VIDEO then ProcessVideoPacket L p s else ps_emit p s)"

text \<open>At most 2049 slots are cleared; the counter starts at 0 here.\<close>

fun clear_run :: "seq_lib \<Rightarrow> nat \<Rightarrow> u16 \<Rightarrow> u16 \<Rightarrow> push_stream \<Rightarrow> push_stream" where
  "clear_run L 0 start_seq end_seq s = s"
| "clear_run L (Suc fuel) start_seq end_seq s =
     (if AheadOrAt L end_seq start_seq
      then clear_run L fuel (start_seq + 1) end_seq
        (s\<lparr>video_data_buffer := (video_data_buffer s)[slot start_seq := None]\<rparr>)
      else s)"

definition ClearVideoPacketCache :: "seq_lib \<Rightarrow> u16 \<Rightarrow> u16 \<Rightarrow> push_stream \<Rightarrow> push_stream" where
  "ClearVideoPacketCache L start_seq end_seq s = clear_run L (kVideoPacketCacheSize + 1) start_seq end_seq s"

text \<open>\<open>frame\<close> is the first sequence number of a complete frame and whether it is a key frame.\<close>

definition OnFrame :: "seq_lib \<Rightarrow> (u16 \<times> bool) option \<Rightarrow> push_stream \<Rightarrow> push_stream" where
  "OnFrame L frame s =
     (case frame of
        None \<Rightarrow> s
      | Some (start_seq_num, key) \<Rightarrow>
          if \<not> key then s
          else if AheadOf L start_seq_num (video_seq s) then
            let (cur_seq, s1) = forward_run (kVideoPacketCacheSize + 1) start_seq_num s;
                s2 = ClearVideoPacketCache L (video_seq s1 + 1) (start_seq_num - 1) s1
            in s2\<lparr>video_seq := cur_seq - 1\<rparr>
          else s)"

datatype push_event = PsPacket rtc_packet | PsFrame "(u16 \<times> bool) option"

fun push_step :: "seq_lib \<Rightarrow> push_stream \<Rightarrow> push_event \<Rightarrow> push_stream" where
  "push_step L s (PsPacket p) = PsOnRtpPacket L p s"
| "push_step L s (PsFrame f) = OnFrame L f s"

subsection \<open>The cache\<close>

lemma slot_less [simp]: "slot k < 2048"
  by (simp add: slot_def kVideoPacketCacheSize_def)

lemma slot_add: "slot (k + of_nat n) = (slot k + n) mod 2048"
proof -
  have "unat (k + of_nat n) mod 2048 = ((unat k + n mod 65536) mod 65536) mod 2048"
    by (simp add: unat_word_ariths unat_of_nat_u16)
  also have "\<dots> = (unat k + n mod 65536) mod 2048"
    by (rule mod_mod_cancel) simp
  also have "\<dots> = (unat k + n mod 65536 mod 2048) mod 2048"
    by (simp add: mod_add_right_eq)
  also have "n mod 65536 mod 2048 = n mod 2048"
    by (rule mod_mod_cancel) simp
  finally show ?thesis by (simp add: slot_def kVideoPacketCacheSize_def mod_simps)
qed

text \<open>A slot holds a packet whose number belongs there.\<close>

definition cache_ok :: "rtc_packet option list \<Rightarrow> bool" where
  "cache_ok b \<longleftrightarrow> length b = 2048 \<and> (\<forall>i<2048. \<forall>p. b ! i = Some p \<longrightarrow> slot (pk_seq p) = i \<and> pk_media p = VIDEO)"

lemma cache_ok_Some:
  "cache_ok b \<Longrightarrow> pk_media p = VIDEO \<Longrightarrow> cache_ok (b[slot (pk_seq p) := Some p])"
  by (auto simp: cache_ok_def nth_list_update)

lemma cache_ok_None: "cache_ok b \<Longrightarrow> cache_ok (b[i := None])"
  by (cases "i < length b") (auto simp: cache_ok_def nth_list_update)

lemma cache_ok_media: "cache_ok b \<Longrightarrow> b ! slot k = Some p \<Longrightarrow> pk_media p = VIDEO"
  unfolding cache_ok_def using slot_less by blast

lemma Find_SomeD: "FindVideoPacket s k = Some p \<Longrightarrow> pk_seq p = k \<and> video_data_buffer s ! slot k = Some p"
  by (auto simp: FindVideoPacket_def split: option.splits if_splits)

lemma Find_emit [simp]: "FindVideoPacket (ps_emit p s) = FindVideoPacket s"
  by (simp add: fun_eq_iff FindVideoPacket_def ps_emit_def)

lemma Find_frame [simp]:
  "FindVideoPacket (s\<lparr>video_seq := v\<rparr>) = FindVideoPacket s"
  "FindVideoPacket (s\<lparr>first_seq_time := t\<rparr>) = FindVideoPacket s"
  by (simp_all add: fun_eq_iff FindVideoPacket_def)

lemma emit_simps [simp]:
  "video_data_buffer (ps_emit p s) = video_data_buffer s" "video_seq (ps_emit p s) = video_seq s"
  "first_seq_time (ps_emit p s) = first_seq_time s" "ps_out (ps_emit p s) = ps_out s @ [p]"
  by (simp_all add: ps_emit_def)

text \<open>Two numbers of the same slot are not both cached.\<close>

lemma Find_same_slot:
  "FindVideoPacket s j = Some p \<Longrightarrow> slot k = slot j \<Longrightarrow> k \<noteq> j \<Longrightarrow> FindVideoPacket s k = None"
  by (auto simp: FindVideoPacket_def split: option.splits if_splits)

lemma Cache_Find:
  assumes "length (video_data_buffer s) = 2048"
  shows "FindVideoPacket (CacheVideoPacket p s) k =
    (if FindVideoPacket s (pk_seq p) \<noteq> None then FindVideoPacket s k
     else if k = pk_seq p then Some p
     else if slot k = slot (pk_seq p) then None else FindVideoPacket s k)"
  using assms by (auto simp: CacheVideoPacket_def FindVideoPacket_def nth_list_update kVideoPacketCacheSize_def)

lemma Cache_simps [simp]:
  "video_seq (CacheVideoPacket p s) = video_seq s" "first_seq_time (CacheVideoPacket p s) = first_seq_time s"
  "ps_out (CacheVideoPacket p s) = ps_out s"
  by (simp_all add: CacheVideoPacket_def)

subsection \<open>A run of the forwarding loop\<close>

text \<open>
  The loop forwards the longest run of cached packets, never more than 2048, so the bound
  of the code is never what stops it.
\<close>

lemma forward_run_spec:
  "\<exists>n \<le> fuel. forward_run fuel seq s =
      (seq + of_nat n, s\<lparr>ps_out := ps_out s @ map (\<lambda>i. the (FindVideoPacket s (seq + of_nat i))) [0..<n]\<rparr>) \<and>
    (\<forall>i<n. FindVideoPacket s (seq + of_nat i) \<noteq> None) \<and>
    (n < fuel \<longrightarrow> FindVideoPacket s (seq + of_nat n) = None)"
proof (induction fuel arbitrary: seq s)
  case (Suc fuel)
  show ?case
  proof (cases "FindVideoPacket s seq")
    case None
    then show ?thesis by (intro exI[of _ 0]) simp
  next
    case (Some p)
    let ?s = "ps_emit p s"
    obtain n where n: "n \<le> fuel" "forward_run fuel (seq + 1) ?s = (seq + 1 + of_nat n,
        ?s\<lparr>ps_out := ps_out ?s @ map (\<lambda>i. the (FindVideoPacket s (seq + 1 + of_nat i))) [0..<n]\<rparr>)"
      "\<forall>i<n. FindVideoPacket s (seq + 1 + of_nat i) \<noteq> None"
      "n < fuel \<longrightarrow> FindVideoPacket s (seq + 1 + of_nat n) = None"
      using Suc.IH[of "seq + 1" ?s] by auto
    have shift: "seq + 1 + of_nat i = seq + of_nat (Suc i)" for i by simp
    have map: "map (\<lambda>i. the (FindVideoPacket s (seq + of_nat i))) [0..<Suc n] =
        p # map (\<lambda>i. the (FindVideoPacket s (seq + of_nat (Suc i)))) [0..<n]"
      using Some by (simp add: upt_conv_Cons map_Suc_upt[symmetric] del: upt_Suc)
    have "forward_run (Suc fuel) seq s = (seq + of_nat (Suc n),
        s\<lparr>ps_out := ps_out s @ map (\<lambda>i. the (FindVideoPacket s (seq + of_nat i))) [0..<Suc n]\<rparr>)"
      unfolding map using Some n(2) by (simp add: shift ps_emit_def del: of_nat_Suc upt_Suc)
    moreover have "FindVideoPacket s (seq + of_nat i) \<noteq> None" if "i < Suc n" for i
      using that Some n(3) shift by (cases i) (auto simp del: of_nat_Suc)
    ultimately show ?thesis using n(1,4) shift by (intro exI[of _ "Suc n"]) (auto simp del: of_nat_Suc)
  qed
qed simp

declare forward_run.simps [simp del]

subsection \<open>Runs of events\<close>

definition push_run :: "seq_lib \<Rightarrow> push_event list \<Rightarrow> push_stream" where
  "push_run L es = run (push_step L) PushStream es"

definition received :: "push_event list \<Rightarrow> rtc_packet set" where
  "received es = {p. PsPacket p \<in> set es}"

definition key_starts :: "push_event list \<Rightarrow> u16 set" where
  "key_starts es = {k. PsFrame (Some (k, True)) \<in> set es}"

fun chain :: "('a \<Rightarrow> 'a \<Rightarrow> bool) \<Rightarrow> 'a list \<Rightarrow> bool" where
  "chain R (a # b # xs) \<longleftrightarrow> R a b \<and> chain R (b # xs)"
| "chain R _ \<longleftrightarrow> True"

lemma chain_snoc: "chain R (xs @ [a]) \<longleftrightarrow> chain R xs \<and> (xs \<noteq> [] \<longrightarrow> R (last xs) a)"
  by (induction R xs rule: chain.induct) auto

lemma chain_append: "chain R (xs @ ys) \<longleftrightarrow> chain R xs \<and> chain R ys \<and> (xs \<noteq> [] \<and> ys \<noteq> [] \<longrightarrow> R (last xs) (hd ys))"
proof (induction ys arbitrary: xs)
  case (Cons y ys)
  have "chain R ((xs @ [y]) @ ys) \<longleftrightarrow> chain R (xs @ [y]) \<and> chain R ys \<and> (ys \<noteq> [] \<longrightarrow> R y (hd ys))"
    using Cons.IH[of "xs @ [y]"] by simp
  moreover have "chain R (y # ys) \<longleftrightarrow> chain R ys \<and> (ys \<noteq> [] \<longrightarrow> R y (hd ys))"
    by (cases ys) auto
  ultimately show ?case by (auto simp: chain_snoc)
qed simp

lemma chain_mono: "chain R xs \<Longrightarrow> (\<And>a b. R a b \<Longrightarrow> S a b) \<Longrightarrow> chain S xs"
  by (induction R xs rule: chain.induct) auto

lemma chain_upt: "(\<And>i. R (f i) (f (Suc i))) \<Longrightarrow> chain R (map f [0..<n])"
  by (induction n) (simp_all add: chain_snoc last_map, metis Suc_pred)

definition forwarded :: "push_stream \<Rightarrow> u16 list" where
  "forwarded s = map pk_seq (filter (\<lambda>p. pk_media p = VIDEO) (ps_out s))"

text \<open>
  The invariant, over the packets \<open>P\<close> received and the key-frame starts \<open>K\<close> seen so far.
  \<open>ready\<close> is the last clause on its own: what could be forwarded has been.
\<close>

definition push_inv :: "rtc_packet set \<Rightarrow> u16 set \<Rightarrow> push_stream \<Rightarrow> bool" where
  "push_inv P K s \<longleftrightarrow> cache_ok (video_data_buffer s) \<and>
     (\<forall>k p. FindVideoPacket s k = Some p \<longrightarrow> p \<in> P) \<and> set (ps_out s) \<subseteq> P \<and>
     chain (\<lambda>a b. b = a + 1 \<or> b \<in> K) (forwarded s) \<and>
     (forwarded s = [] \<or> last (forwarded s) = video_seq s \<or> video_seq s + 1 \<in> K) \<and>
     (if first_seq_time s = -1 then forwarded s = [] \<and> (\<forall>k. FindVideoPacket s k = None)
      else FindVideoPacket s (video_seq s + 1) = None)"

lemma push_invI:
  assumes "cache_ok (video_data_buffer s)" "\<forall>k p. FindVideoPacket s k = Some p \<longrightarrow> p \<in> P" "set (ps_out s) \<subseteq> P"
    "chain (\<lambda>a b. b = a + 1 \<or> b \<in> K) (forwarded s)"
    "forwarded s = [] \<or> last (forwarded s) = video_seq s \<or> video_seq s + 1 \<in> K"
    "first_seq_time s \<noteq> -1" "FindVideoPacket s (video_seq s + 1) = None"
  shows "push_inv P K s"
  using assms by (auto simp: push_inv_def)

lemma forwarded_simps [simp]:
  "forwarded (s\<lparr>video_seq := v\<rparr>) = forwarded s" "forwarded (s\<lparr>first_seq_time := t\<rparr>) = forwarded s"
  "forwarded (s\<lparr>video_data_buffer := b\<rparr>) = forwarded s"
  "forwarded (ps_emit p s) = forwarded s @ (if pk_media p = VIDEO then [pk_seq p] else [])"
  "forwarded (CacheVideoPacket p s) = forwarded s"
  by (simp_all add: forwarded_def CacheVideoPacket_def)

text \<open>What a run of the forwarding loop adds to the output.\<close>

lemma forward_run_inv:
  assumes "cache_ok (video_data_buffer s)" "\<forall>k p. FindVideoPacket s k = Some p \<longrightarrow> p \<in> P" "set (ps_out s) \<subseteq> P"
    and "forward_run (kVideoPacketCacheSize + 1) seq s = (cur, s')"
  shows "\<exists>n. n \<le> 2048 \<and> cur = seq + of_nat n \<and> video_data_buffer s' = video_data_buffer s \<and>
    video_seq s' = video_seq s \<and> first_seq_time s' = first_seq_time s \<and> set (ps_out s') \<subseteq> P \<and>
    forwarded s' = forwarded s @ map (\<lambda>i. seq + of_nat i) [0..<n] \<and> FindVideoPacket s' cur = None \<and>
    (\<forall>i<n. FindVideoPacket s (seq + of_nat i) \<noteq> None)"
proof -
  let ?at = "\<lambda>i. the (FindVideoPacket s (seq + of_nat i))"
  obtain n where n: "n \<le> 2049" "cur = seq + of_nat n" "s' = s\<lparr>ps_out := ps_out s @ map ?at [0..<n]\<rparr>"
    "\<forall>i<n. FindVideoPacket s (seq + of_nat i) \<noteq> None" "n < 2049 \<longrightarrow> FindVideoPacket s (seq + of_nat n) = None"
    using forward_run_spec[of "kVideoPacketCacheSize + 1" seq s] assms(4) by (auto simp: kVideoPacketCacheSize_def)
  have le: "n \<le> 2048"
  proof (rule ccontr)
    assume "\<not> n \<le> 2048"
    then have a: "FindVideoPacket s (seq + of_nat 2048) \<noteq> None" "FindVideoPacket s (seq + of_nat 0) \<noteq> None"
      using \<open>\<not> n \<le> 2048\<close> by (intro n(4)[rule_format]; linarith)+
    have "slot (seq + of_nat 2048) = slot (seq + of_nat 0)" using slot_less[of seq] by (simp only: slot_add) simp
    moreover have "seq + of_nat 2048 \<noteq> seq + of_nat 0" by simp
    ultimately show False using a Find_same_slot by (metis not_Some_eq)
  qed
  have at: "pk_seq (?at i) = seq + of_nat i \<and> ?at i \<in> P \<and> pk_media (?at i) = VIDEO" if "i < n" for i
  proof -
    obtain p where p: "FindVideoPacket s (seq + of_nat i) = Some p" using n(4) \<open>i < n\<close> by blast
    moreover have "pk_media p = VIDEO" using Find_SomeD[OF p] cache_ok_media[OF assms(1)] by blast
    ultimately show ?thesis using Find_SomeD[OF p] assms(2) by simp
  qed
  have "filter (\<lambda>p. pk_media p = VIDEO) (map ?at [0..<n]) = map ?at [0..<n]"
    using at by (simp add: filter_id_conv)
  moreover have "map pk_seq (map ?at [0..<n]) = map (\<lambda>i. seq + of_nat i) [0..<n]" using at by simp
  ultimately have "forwarded s' = forwarded s @ map (\<lambda>i. seq + of_nat i) [0..<n]"
    by (simp add: n(3) forwarded_def del: map_map)
  moreover have "FindVideoPacket s' = FindVideoPacket s" by (simp add: n(3) fun_eq_iff FindVideoPacket_def)
  moreover have "set (ps_out s') \<subseteq> P" using at assms(3) by (auto simp: n(3))
  ultimately show ?thesis
    using n le by (intro exI[of _ n]) simp
qed

lemma run_inv_step:
  assumes inv: "cache_ok (video_data_buffer s)" "\<forall>k p. FindVideoPacket s k = Some p \<longrightarrow> p \<in> P" "set (ps_out s) \<subseteq> P"
      "chain (\<lambda>a b. b = a + 1 \<or> b \<in> K) (forwarded s)"
      "forwarded s \<noteq> [] \<Longrightarrow> last (forwarded s) + 1 = seq \<or> seq \<in> K" "first_seq_time s \<noteq> -1"
    and run: "forward_run (kVideoPacketCacheSize + 1) seq s = (cur, s')"
    and start: "FindVideoPacket s seq = None \<Longrightarrow> seq \<in> K"
  shows "push_inv P K (s'\<lparr>video_seq := cur - 1\<rparr>)"
proof -
  obtain n where n: "cur = seq + of_nat n" "video_data_buffer s' = video_data_buffer s"
    "first_seq_time s' = first_seq_time s" "set (ps_out s') \<subseteq> P"
    "forwarded s' = forwarded s @ map (\<lambda>i. seq + of_nat i) [0..<n]" "FindVideoPacket s' cur = None"
    using forward_run_inv[OF inv(1-3) run] by blast
  have find: "FindVideoPacket s' = FindVideoPacket s" using n(2) by (simp add: fun_eq_iff FindVideoPacket_def)
  have "chain (\<lambda>a b. b = a + 1 \<or> b \<in> K) (map (\<lambda>i. seq + of_nat i) [0..<n])"
    by (rule chain_upt) simp
  then have ch: "chain (\<lambda>a b. b = a + 1 \<or> b \<in> K) (forwarded s')"
    using inv(4,5) by (cases n) (auto simp: n(5) chain_append upt_conv_Cons simp del: upt_Suc)
  have la: "forwarded s' = [] \<or> last (forwarded s') = cur - 1 \<or> cur \<in> K"
  proof (cases n)
    case 0
    then show ?thesis using n(1,6) find start by simp
  next
    case (Suc m)
    then show ?thesis by (simp add: n(1,5) last_map)
  qed
  show ?thesis
    by (rule push_invI) (use inv n(2-4,6) ch la find in simp_all)
qed

lemma push_inv_mono: "push_inv P K s \<Longrightarrow> P \<subseteq> P' \<Longrightarrow> K \<subseteq> K' \<Longrightarrow> push_inv P' K' s"
  unfolding push_inv_def using chain_mono[of "\<lambda>a b. b = a + 1 \<or> b \<in> K" "forwarded s" "\<lambda>a b. b = a + 1 \<or> b \<in> K'"]
  by (auto dest: subsetD)

lemma not_ahead_next: "\<not> ahead_or_at_spec a (a + 1)"
proof -
  have d: "a - (a + 1) = - 1" by simp
  have u: "unat (- 1 :: u16) = 65535" by (simp add: unsigned_minus_1_eq_mask mask_eq_exp_minus_1)
  show ?thesis unfolding ahead_or_at_spec_def d u by simp
qed

lemma ProcessVideoPacket_inv:
  assumes "seq_lib_ok L" "push_inv P K s0" "pk_media p = VIDEO" "pk_ts p \<noteq> -1" "p \<in> P"
  shows "push_inv P K (ProcessVideoPacket L p s0)"
proof -
  let ?s = "CacheVideoPacket p s0"
  have len: "length (video_data_buffer s0) = 2048" using assms(2) by (simp add: push_inv_def cache_ok_def)
  have s: "cache_ok (video_data_buffer ?s)" "\<forall>k q. FindVideoPacket ?s k = Some q \<longrightarrow> q \<in> P" "set (ps_out ?s) \<subseteq> P"
  proof -
    have "cache_ok (video_data_buffer s0)" "\<forall>k q. FindVideoPacket s0 k = Some q \<longrightarrow> q \<in> P" "set (ps_out s0) \<subseteq> P"
      using assms(2) by (simp_all add: push_inv_def)
    then show "cache_ok (video_data_buffer ?s)" "\<forall>k q. FindVideoPacket ?s k = Some q \<longrightarrow> q \<in> P" "set (ps_out ?s) \<subseteq> P"
      using assms(3,5) by (simp_all add: Cache_Find[OF len]) (simp add: CacheVideoPacket_def cache_ok_Some)
  qed
  have ch: "chain (\<lambda>a b. b = a + 1 \<or> b \<in> K) (forwarded s0)"
    "forwarded s0 = [] \<or> last (forwarded s0) = video_seq s0 \<or> video_seq s0 + 1 \<in> K"
    using assms(2) by (simp_all add: push_inv_def)
  show ?thesis
  proof (cases "first_seq_time s0 = -1")
    case True
    then have "forwarded s0 = []" "\<And>k. FindVideoPacket s0 k = None" using assms(2) by (simp_all add: push_inv_def)
    then have "FindVideoPacket ?s (pk_seq p + 1) = None" "forwarded s0 = []"
      by (simp_all add: Cache_Find[OF len])
    then show ?thesis
      using True s assms(3-5) unfolding ProcessVideoPacket_def Let_def
      by (intro push_invI) (auto simp: assms(5))
  next
    case False
    then have none: "FindVideoPacket s0 (video_seq s0 + 1) = None" using assms(2) by (simp add: push_inv_def)
    show ?thesis
    proof (cases "AheadOrAt L (video_seq s0) (pk_seq p) \<or> pk_seq p \<noteq> video_seq s0 + 1")
      case True
      have "\<not> AheadOrAt L (video_seq s0) (video_seq s0 + 1)"
        by (simp add: seq_lib_okD(1)[OF assms(1)] not_ahead_next)
      then have "pk_seq p \<noteq> video_seq s0 + 1" using True by auto
      then have "FindVideoPacket ?s (video_seq s0 + 1) = None" using none by (simp add: Cache_Find[OF len])
      then have "push_inv P K ?s" using s ch False by (intro push_invI) auto
      then show ?thesis using True False by (auto simp: ProcessVideoPacket_def Let_def)
    next
      case eq: False
      obtain cur s' where r: "forward_run (kVideoPacketCacheSize + 1) (pk_seq p) ?s = (cur, s')" by fastforce
      have found: "FindVideoPacket ?s (pk_seq p) \<noteq> None" by (simp add: Cache_Find[OF len])
      have "push_inv P K (s'\<lparr>video_seq := cur - 1\<rparr>)"
        by (rule run_inv_step[OF s _ _ _ r]) (use ch eq False found in auto)
      moreover have "ProcessVideoPacket L p s0 = s'\<lparr>video_seq := cur - 1\<rparr>"
        using eq False r by (auto simp: ProcessVideoPacket_def Let_def)
      ultimately show ?thesis by simp
    qed
  qed
qed

subsection \<open>Clearing the cache\<close>

text \<open>The loop clears the slots of the first \<open>min fuel g\<close> of the \<open>g\<close> numbers of the range.\<close>

lemma clear_run_spec:
  assumes "seq_lib_ok L" "end_seq + 1 = start_seq + of_nat g" "g \<le> 32767" "length (video_data_buffer s) = 2048"
  shows "\<exists>b. clear_run L fuel start_seq end_seq s = s\<lparr>video_data_buffer := b\<rparr> \<and> length b = 2048 \<and>
    (\<forall>i<2048. b ! i = (if \<exists>j<min fuel g. slot (start_seq + of_nat j) = i then None else video_data_buffer s ! i))"
  using assms(2-)
proof (induction fuel arbitrary: start_seq g s)
  case (Suc fuel)
  show ?case
  proof (cases g)
    case 0
    then have "start_seq = end_seq + 1" using Suc.prems(1) by simp
    then have "\<not> AheadOrAt L end_seq start_seq" by (simp add: seq_lib_okD(1)[OF assms(1)] not_ahead_next)
    then show ?thesis using 0 Suc.prems(3) by (intro exI[of _ "video_data_buffer s"]) simp
  next
    case (Suc h)
    have "end_seq - start_seq = (end_seq + 1) - start_seq - 1" by simp
    also have "\<dots> = of_nat h" unfolding Suc.prems(1) Suc by simp
    finally have "unat (end_seq - start_seq) = h"
      using Suc Suc.prems(2) by (simp add: unat_of_nat_u16)
    then have ahead: "AheadOrAt L end_seq start_seq"
      using Suc Suc.prems(2) by (auto simp: seq_lib_okD(1)[OF assms(1)] ahead_or_at_spec_def)
    let ?s = "s\<lparr>video_data_buffer := (video_data_buffer s)[slot start_seq := None]\<rparr>"
    have "end_seq + 1 = start_seq + 1 + of_nat h" using Suc.prems(1) Suc by simp
    from Suc.IH[OF this, of ?s] obtain b where b: "clear_run L fuel (start_seq + 1) end_seq ?s = s\<lparr>video_data_buffer := b\<rparr>"
      "length b = 2048"
      "\<forall>i<2048. b ! i = (if \<exists>j<min fuel h. slot (start_seq + 1 + of_nat j) = i then None else video_data_buffer ?s ! i)"
      using Suc Suc.prems(2,3) by auto
    have ex: "(\<exists>j<min (Suc fuel) g. slot (start_seq + of_nat j) = i) \<longleftrightarrow>
        slot start_seq = i \<or> (\<exists>j<min fuel h. slot (start_seq + 1 + of_nat j) = i)" for i
      by (simp add: Suc Ex_less_Suc2 add.assoc)
    have "\<forall>i<2048. b ! i = (if \<exists>j<min (Suc fuel) g. slot (start_seq + of_nat j) = i then None else video_data_buffer s ! i)"
      unfolding ex using b(3) Suc.prems(3) by (auto simp: nth_list_update)
    then show ?thesis using b ahead by (intro exI[of _ b]) simp
  qed
next
  case 0
  then show ?case by (intro exI[of _ "video_data_buffer s"]) simp
qed

lemma Clear_spec:
  assumes "seq_lib_ok L" "AheadOf L start (video_seq s)" "length (video_data_buffer s) = 2048" "g = unat (start - video_seq s) - 1"
  shows "\<exists>b. ClearVideoPacketCache L (video_seq s + 1) (start - 1) s = s\<lparr>video_data_buffer := b\<rparr> \<and> length b = 2048 \<and>
    (\<forall>i<2048. b ! i = (if \<exists>j<min 2049 g. slot (video_seq s + 1 + of_nat j) = i then None else video_data_buffer s ! i))"
proof -
  have ne: "start \<noteq> video_seq s" and le: "unat (start - video_seq s) \<le> 32768"
    using assms(2) by (auto simp: seq_lib_okD(2)[OF assms(1)] ahead_or_at_spec_def split: if_splits)
  then have pos: "0 < unat (start - video_seq s)" by (simp add: unat_gt_0)
  have "(of_nat (Suc g) :: u16) = start - video_seq s"
    using assms(4) pos by (simp del: of_nat_Suc)
  then have "start - 1 + 1 = video_seq s + 1 + of_nat g" by (simp add: algebra_simps)
  from clear_run_spec[OF assms(1) this _ assms(3), of "kVideoPacketCacheSize + 1"] le assms(4)
  show ?thesis by (simp add: ClearVideoPacketCache_def kVideoPacketCacheSize_def)
qed

lemma OnFrame_inv:
  assumes "seq_lib_ok L" "push_inv P K s" "\<forall>start. frame = Some (start, True) \<longrightarrow> start \<in> K" "first_seq_time s \<noteq> -1"
  shows "push_inv P K (OnFrame L frame s)"
proof (cases "\<exists>start. frame = Some (start, True) \<and> AheadOf L start (video_seq s)")
  case False
  then show ?thesis using assms(2) by (auto simp: OnFrame_def split: option.split)
next
  case True
  then obtain start where st: "frame = Some (start, True)" "AheadOf L start (video_seq s)" "start \<in> K"
    using assms(3) by blast
  obtain cur s1 where r: "forward_run (kVideoPacketCacheSize + 1) start s = (cur, s1)" by fastforce
  have inv: "cache_ok (video_data_buffer s)" "\<forall>k p. FindVideoPacket s k = Some p \<longrightarrow> p \<in> P" "set (ps_out s) \<subseteq> P"
    "chain (\<lambda>a b. b = a + 1 \<or> b \<in> K) (forwarded s)"
    using assms(2) by (simp_all add: push_inv_def)
  have s1: "video_data_buffer s1 = video_data_buffer s" "video_seq s1 = video_seq s" "first_seq_time s1 = first_seq_time s"
    using forward_run_inv[OF inv(1-3) r] by blast+
  have i1: "push_inv P K (s1\<lparr>video_seq := cur - 1\<rparr>)"
    by (rule run_inv_step[OF inv _ assms(4) r]) (use st(3) in auto)
  have t1: "first_seq_time s1 \<noteq> -1" using s1(3) assms(4) by simp
  have "length (video_data_buffer s1) = 2048" using inv(1) s1(1) by (simp add: cache_ok_def)
  from Clear_spec[OF assms(1) _ this refl, of start] obtain b where
    b: "ClearVideoPacketCache L (video_seq s1 + 1) (start - 1) s1 = s1\<lparr>video_data_buffer := b\<rparr>" "length b = 2048"
      "\<forall>i<2048. b ! i = None \<or> b ! i = video_data_buffer s1 ! i"
    using st(2) s1(2) by auto
  let ?s2 = "s1\<lparr>video_data_buffer := b, video_seq := cur - 1\<rparr>"
  have find: "FindVideoPacket ?s2 k = Some q \<Longrightarrow> FindVideoPacket s1 k = Some q" for k q
  proof -
    have slot: "b ! slot k = None \<or> b ! slot k = video_data_buffer s1 ! slot k"
      using b(3) slot_less by blast
    assume "FindVideoPacket ?s2 k = Some q"
    with slot show "FindVideoPacket s1 k = Some q" by (elim disjE) (simp_all add: FindVideoPacket_def)
  qed
  have cache: "cache_ok b" using inv(1) b(2,3) s1(1) by (fastforce simp: cache_ok_def)
  have find1: "FindVideoPacket (s1\<lparr>video_seq := cur - 1\<rparr>) = FindVideoPacket s1" by simp
  have q: "\<forall>k p. FindVideoPacket s1 k = Some p \<longrightarrow> p \<in> P" "set (ps_out s1) \<subseteq> P"
    "chain (\<lambda>a b. b = a + 1 \<or> b \<in> K) (forwarded s1)"
    "forwarded s1 = [] \<or> last (forwarded s1) = cur - 1 \<or> cur \<in> K" "FindVideoPacket s1 cur = None"
    using i1 t1 unfolding push_inv_def find1 by simp_all
  have "push_inv P K ?s2"
  proof (rule push_invI)
    show "\<forall>k p. FindVideoPacket ?s2 k = Some p \<longrightarrow> p \<in> P" using q(1) find by blast
    show "FindVideoPacket ?s2 (video_seq ?s2 + 1) = None"
      using q(5) find[of cur] by (cases "FindVideoPacket ?s2 cur") simp_all
  qed (use q(2-4) t1 cache in simp_all)
  then show ?thesis using st r b(1) by (simp add: OnFrame_def Let_def)
qed

lemma push_run_snoc: "push_run L (es @ [e]) = push_step L (push_run L es) e"
  by (simp add: push_run_def run_append)

text \<open>
  The events the theorems are about: packets have an arrival time other than the sentinel -1,
  and a frame is assembled from packets, so it never comes before the first one.
\<close>

fun is_video :: "push_event \<Rightarrow> bool" where
  "is_video (PsPacket p) \<longleftrightarrow> pk_media p = VIDEO"
| "is_video (PsFrame f) \<longleftrightarrow> False"

fun push_ok :: "bool \<Rightarrow> push_event list \<Rightarrow> bool" where
  "push_ok started [] = True"
| "push_ok started (PsPacket p # es) \<longleftrightarrow> pk_ts p \<noteq> -1 \<and> push_ok (started \<or> pk_media p = VIDEO) es"
| "push_ok started (PsFrame f # es) \<longleftrightarrow> started \<and> push_ok started es"

lemma push_ok_snoc: "push_ok b (es @ [e]) \<longleftrightarrow> push_ok b es \<and>
    push_ok (b \<or> list_ex is_video es) [e]"
  by (induction b es rule: push_ok.induct) (auto simp: disj_assoc)

lemma ProcessVideoPacket_time:
  "pk_ts p \<noteq> -1 \<Longrightarrow> first_seq_time (ProcessVideoPacket L p s) \<noteq> -1"
proof -
  assume ts: "pk_ts p \<noteq> -1"
  have "first_seq_time (snd (forward_run f k s)) = first_seq_time s" for f k s
    using forward_run_spec[of f k s] by auto
  then show ?thesis using ts by (auto simp: ProcessVideoPacket_def Let_def split_def)
qed

lemma OnFrame_time: "first_seq_time (OnFrame L f s) = first_seq_time s"
proof -
  have r: "first_seq_time (snd (forward_run f k s)) = first_seq_time s" for f k s
    using forward_run_spec[of f k s] by auto
  have "first_seq_time (clear_run L f a b s) = first_seq_time s" for f a b s
    by (induction f arbitrary: a s) simp_all
  then show ?thesis using r by (auto simp: OnFrame_def ClearVideoPacketCache_def Let_def split_def split: option.split)
qed

lemma push_run_inv:
  assumes "seq_lib_ok L" "push_ok False es"
  shows "push_inv (received es) (key_starts es) (push_run L es) \<and>
    (list_ex is_video es \<longrightarrow> first_seq_time (push_run L es) \<noteq> -1)"
  using assms(2)
proof (induction es rule: rev_induct)
  case Nil
  show ?case
    by (simp add: push_run_def push_inv_def PushStream_def cache_ok_def forwarded_def FindVideoPacket_def kVideoPacketCacheSize_def)
next
  case (snoc e es)
  let ?P = "received (es @ [e])" and ?K = "key_starts (es @ [e])" and ?s = "push_run L es"
  have ok: "push_ok False es" "push_ok (list_ex is_video es) [e]"
    using snoc.prems by (simp_all add: push_ok_snoc)
  have time: "list_ex is_video es \<longrightarrow> first_seq_time ?s \<noteq> -1"
    using snoc.IH[OF ok(1)] by blast
  have inv: "push_inv ?P ?K ?s"
    by (rule push_inv_mono[of "received es" "key_starts es"])
      (use snoc.IH[OF ok(1)] in \<open>auto simp: received_def key_starts_def\<close>)
  show ?case
  proof (cases e)
    case (PsPacket p)
    then have p: "pk_ts p \<noteq> -1" "p \<in> ?P" using ok(2) by (simp_all add: received_def)
    show ?thesis
    proof (cases "pk_media p = VIDEO")
      case True
      then show ?thesis
        using PsPacket ProcessVideoPacket_inv[OF assms(1) inv True p] ProcessVideoPacket_time[OF p(1)]
        by (simp add: push_run_snoc PsOnRtpPacket_def)
    next
      case False
      then have "push_inv ?P ?K (ps_emit p ?s)" using inv p(2) by (simp add: push_inv_def)
      then show ?thesis using False PsPacket time by (auto simp: push_run_snoc PsOnRtpPacket_def)
    qed
  next
    case (PsFrame f)
    then have t: "first_seq_time ?s \<noteq> -1" using ok(2) time by simp
    have "push_inv ?P ?K (OnFrame L f ?s)"
      by (rule OnFrame_inv[OF assms(1) inv _ t]) (simp add: key_starts_def PsFrame)
    then show ?thesis using PsFrame t by (simp add: push_run_snoc OnFrame_time)
  qed
qed

end
