(* ===== verification/PushProps.thy ===== *)
theory PushProps
  imports PushStream
begin

text \<open>
  What a subscriber of a published video stream gets: packets in sequence order, as early as
  possible, restarted only at key frames, and what a retransmission request can still find
  after such a restart.
\<close>

text \<open>
  C3: the video packets handed to the subscribers carry consecutive sequence numbers, except
  where a complete key frame restarts the stream at its first packet; no packet is forwarded
  twice, late or reordered otherwise, and everything forwarded or kept for retransmission is
  a packet that was received, kept under its own number.
\<close>

theorem forwarded_in_order:
  assumes "seq_lib_ok L" "push_ok False es"
  shows "chain (\<lambda>a b. b = a + 1 \<or> b \<in> key_starts es) (forwarded (push_run L es)) \<and>
    set (ps_out (push_run L es)) \<subseteq> received es \<and>
    (\<forall>k p. FindVideoPacket (push_run L es) k = Some p \<longrightarrow> p \<in> received es \<and> pk_seq p = k)"
  using push_run_inv[OF assms] Find_SomeD by (auto simp: push_inv_def)

text \<open>
  Nothing that could be forwarded is held back: once a video packet has arrived, the packet
  after the last one forwarded is never in the cache.
\<close>

theorem nothing_held_back:
  assumes "seq_lib_ok L" "push_ok False es" "list_ex is_video es"
  shows "FindVideoPacket (push_run L es) (video_seq (push_run L es) + 1) = None"
  using push_run_inv[OF assms(1,2)] assms(3) by (simp add: push_inv_def)

subsection \<open>Restarts\<close>

lemma restart_spec:
  assumes L: "seq_lib_ok L" and inv: "push_inv P K s" and ahead: "AheadOf L start (video_seq s)"
    and g: "g = unat (start - video_seq s) - 1"
  shows "\<exists>n b. OnFrame L (Some (start, True)) s =
      (snd (forward_run (kVideoPacketCacheSize + 1) start s))\<lparr>video_data_buffer := b, video_seq := start + of_nat n - 1\<rparr> \<and>
    forwarded (OnFrame L (Some (start, True)) s) = forwarded s @ map (\<lambda>i. start + of_nat i) [0..<n] \<and>
    (\<forall>i<2048. b ! i = (if \<exists>j<min 2049 g. slot (video_seq s + 1 + of_nat j) = i then None else video_data_buffer s ! i)) \<and>
    (\<forall>i<n. FindVideoPacket s (start + of_nat i) \<noteq> None) \<and> FindVideoPacket s (start + of_nat n) = None \<and> n \<le> 2048"
proof -
  obtain cur s1 where r: "forward_run (kVideoPacketCacheSize + 1) start s = (cur, s1)" by fastforce
  have inv': "cache_ok (video_data_buffer s)" "\<forall>k p. FindVideoPacket s k = Some p \<longrightarrow> p \<in> P" "set (ps_out s) \<subseteq> P"
    using inv by (simp_all add: push_inv_def)
  obtain n where n: "n \<le> 2048" "cur = start + of_nat n" "video_data_buffer s1 = video_data_buffer s" "video_seq s1 = video_seq s"
    "forwarded s1 = forwarded s @ map (\<lambda>i. start + of_nat i) [0..<n]" "FindVideoPacket s1 cur = None"
    "\<forall>i<n. FindVideoPacket s (start + of_nat i) \<noteq> None"
    using forward_run_inv[OF inv' r] by blast
  have find: "FindVideoPacket s1 = FindVideoPacket s" using n(3) by (simp add: fun_eq_iff FindVideoPacket_def)
  have "length (video_data_buffer s1) = 2048" using inv'(1) n(3) by (simp add: cache_ok_def)
  from Clear_spec[OF L _ this, of start g] obtain b where
    b: "ClearVideoPacketCache L (video_seq s1 + 1) (start - 1) s1 = s1\<lparr>video_data_buffer := b\<rparr>"
      "\<forall>i<2048. b ! i = (if \<exists>j<min 2049 g. slot (video_seq s1 + 1 + of_nat j) = i then None else video_data_buffer s1 ! i)"
    using ahead g n(4) by auto
  have eq: "OnFrame L (Some (start, True)) s = s1\<lparr>video_data_buffer := b, video_seq := start + of_nat n - 1\<rparr>"
    using r b(1) ahead n(2) by (simp add: OnFrame_def Let_def)
  have b2: "\<forall>i<2048. b ! i = (if \<exists>j<min 2049 g. slot (video_seq s + 1 + of_nat j) = i then None else video_data_buffer s ! i)"
    using b(2) unfolding n(3,4) .
  have f: "forwarded (OnFrame L (Some (start, True)) s) = forwarded s @ map (\<lambda>i. start + of_nat i) [0..<n]"
    unfolding eq using n(5) by simp
  have "OnFrame L (Some (start, True)) s =
      (snd (forward_run (kVideoPacketCacheSize + 1) start s))\<lparr>video_data_buffer := b, video_seq := start + of_nat n - 1\<rparr>"
    unfolding eq r by simp
  then show ?thesis using f b2 n(1,2,6,7) find by metis
qed

lemma slot_eq_window:
  assumes "slot (k + of_nat i) = slot (k + of_nat j)" "i < 2048" "j < 2048"
  shows "i = j"
proof -
  have "(slot k + i) mod 2048 = (slot k + j) mod 2048" using assms(1) by (simp only: slot_add)
  then have "i mod 2048 = j mod 2048"
    using mod_add_cong[of "slot k + i" 2048 "slot k + j" "2048 - slot k" "2048 - slot k"] slot_less[of k] by simp
  then show ?thesis using assms(2,3) by simp
qed

text \<open>
  After a restart no number that was skipped can be retransmitted, and as long as the skipped
  range and the forwarded frame fit into the cache together, every packet forwarded by the
  restart can.
\<close>

theorem restart_keeps_frame:
  assumes "seq_lib_ok L" "push_ok False es" "s = push_run L es" "AheadOf L start (video_seq s)"
    and "g = unat (start - video_seq s) - 1"
  shows "\<exists>n. forwarded (OnFrame L (Some (start, True)) s) = forwarded s @ map (\<lambda>i. start + of_nat i) [0..<n] \<and>
    (\<forall>j<g. FindVideoPacket (OnFrame L (Some (start, True)) s) (video_seq s + 1 + of_nat j) = None) \<and>
    (g + n \<le> 2048 \<longrightarrow> (\<forall>i<n. FindVideoPacket (OnFrame L (Some (start, True)) s) (start + of_nat i) \<noteq> None))"
proof -
  have inv: "push_inv (received es) (key_starts es) s" using push_run_inv[OF assms(1,2)] assms(3) by simp
  let ?s' = "OnFrame L (Some (start, True)) s"
  obtain n b where nb: "?s' = (snd (forward_run (kVideoPacketCacheSize + 1) start s))
      \<lparr>video_data_buffer := b, video_seq := start + of_nat n - 1\<rparr>"
    "forwarded ?s' = forwarded s @ map (\<lambda>i. start + of_nat i) [0..<n]"
    "\<forall>i<2048. b ! i = (if \<exists>j<min 2049 g. slot (video_seq s + 1 + of_nat j) = i then None else video_data_buffer s ! i)"
    "\<forall>i<n. FindVideoPacket s (start + of_nat i) \<noteq> None"
    using restart_spec[OF assms(1) inv assms(4,5)] by blast
  have at: "b ! slot k = (if \<exists>j<min 2049 g. slot (video_seq s + 1 + of_nat j) = slot k then None else video_data_buffer s ! slot k)" for k
    using nb(3) slot_less by blast
  have buf: "video_data_buffer ?s' = b" unfolding nb(1) by simp
  have "FindVideoPacket ?s' (video_seq s + 1 + of_nat j) = None" if "j < g" for j
  proof -
    have "\<exists>i<min 2049 g. slot (video_seq s + 1 + of_nat i) = slot (video_seq s + 1 + of_nat j)"
      using that by (intro exI[of _ "j mod 2048"]) (auto simp: slot_add mod_simps less_trans[OF pos_mod_bound] intro: le_less_trans[OF mod_less_eq_dividend])
    then show ?thesis unfolding FindVideoPacket_def buf at by simp
  qed
  moreover have "FindVideoPacket ?s' (start + of_nat i) \<noteq> None" if "g + n \<le> 2048" "i < n" for i
  proof -
    have pos: "0 < unat (start - video_seq s)"
      using assms(4) by (simp add: seq_lib_okD(2)[OF assms(1)] unat_gt_0)
    then have "(of_nat (Suc g) :: u16) = start - video_seq s" using assms(5) by (simp del: of_nat_Suc)
    then have st: "start + of_nat i = video_seq s + 1 + of_nat (g + i)" by (simp add: algebra_simps)
    have neg: "\<not> (\<exists>j<min 2049 g. slot (video_seq s + 1 + of_nat j) = slot (start + of_nat i))"
      unfolding st using slot_eq_window[of "video_seq s + 1" _ "g + i"] that by force
    have "b ! slot (start + of_nat i) = video_data_buffer s ! slot (start + of_nat i)"
      unfolding at by (rule if_not_P[OF neg])
    then have "FindVideoPacket ?s' (start + of_nat i) = FindVideoPacket s (start + of_nat i)"
      unfolding FindVideoPacket_def buf by simp
    then show ?thesis using nb(4) that by simp
  qed
  ultimately show ?thesis using nb(2) by blast
qed

text \<open>
  A restart that skips 2048 numbers or more empties the whole cache, because slots are
  cleared without looking at the number they hold: none of the packets it has just forwarded
  can be retransmitted.
\<close>

theorem restart_empties_cache:
  assumes "seq_lib_ok L" "push_ok False es" "s = push_run L es" "AheadOf L start (video_seq s)"
    and "2048 < unat (start - video_seq s)"
  shows "FindVideoPacket (OnFrame L (Some (start, True)) s) k = None"
proof -
  have inv: "push_inv (received es) (key_starts es) s" using push_run_inv[OF assms(1,2)] assms(3) by simp
  let ?s' = "OnFrame L (Some (start, True)) s" and ?g = "unat (start - video_seq s) - 1"
  obtain n b where nb: "?s' = (snd (forward_run (kVideoPacketCacheSize + 1) start s))
      \<lparr>video_data_buffer := b, video_seq := start + of_nat n - 1\<rparr>"
    "\<forall>i<2048. b ! i = (if \<exists>j<min 2049 ?g. slot (video_seq s + 1 + of_nat j) = i then None else video_data_buffer s ! i)"
    using restart_spec[OF assms(1) inv assms(4) refl] by blast
  let ?j = "(slot k + 2048 - slot (video_seq s + 1)) mod 2048"
  have "(slot (video_seq s + 1) + ?j) mod 2048 = (slot (video_seq s + 1) + (slot k + 2048 - slot (video_seq s + 1))) mod 2048"
    by (rule mod_add_right_eq)
  also have "slot (video_seq s + 1) + (slot k + 2048 - slot (video_seq s + 1)) = slot k + 2048"
    using slot_less[of "video_seq s + 1"] by linarith
  also have "(slot k + 2048) mod 2048 = slot k" using slot_less[of k] by simp
  finally have "slot (video_seq s + 1 + of_nat ?j) = slot k" by (simp only: slot_add)
  moreover have "?j < 2048" by simp
  then have "?j < min 2049 ?g" using assms(5) by linarith
  ultimately have "\<exists>j<min 2049 ?g. slot (video_seq s + 1 + of_nat j) = slot k" by blast
  then have "b ! slot k = None" using nb(2) slot_less by simp
  moreover have "video_data_buffer ?s' = b" unfolding nb(1) by simp
  ultimately show ?thesis by (simp add: FindVideoPacket_def)
qed

subsection \<open>Witnesses\<close>

definition demo_rtp :: "u16 \<Rightarrow> rtc_packet" where
  "demo_rtp k = \<lparr>pk_seq = k, pk_media = VIDEO, pk_keyframe = False, pk_ts = 100, pk_buf = [1]\<rparr>"

definition demo_events :: "push_event list" where
  "demo_events = [PsPacket (demo_rtp 5)]"

lemma demo_events_ok: "push_ok False demo_events" "list_ex is_video demo_events"
  by (simp_all add: demo_events_def demo_rtp_def)

lemma demo_events_seq: "video_seq (push_run webrtc_seq demo_events) = 5"
  by (simp add: push_run_def demo_events_def demo_rtp_def PsOnRtpPacket_def ProcessVideoPacket_def PushStream_def
      CacheVideoPacket_def ps_emit_def Let_def)

theorem forwarded_in_order_witness:
  "chain (\<lambda>a b. b = a + 1) (forwarded (push_run webrtc_seq [PsPacket (demo_rtp 5), PsPacket (demo_rtp 7), PsPacket (demo_rtp 6)]))"
  using forwarded_in_order[OF webrtc_seq_ok, of "[PsPacket (demo_rtp 5), PsPacket (demo_rtp 7), PsPacket (demo_rtp 6)]"]
  by (simp add: demo_rtp_def key_starts_def)

theorem nothing_held_back_witness:
  "FindVideoPacket (push_run webrtc_seq demo_events) 6 = None"
  using nothing_held_back[OF webrtc_seq_ok demo_events_ok] by (simp add: demo_events_seq)

theorem restart_keeps_frame_witness:
  "FindVideoPacket (OnFrame webrtc_seq (Some (8, True)) (push_run webrtc_seq demo_events)) 6 = None"
proof -
  have "AheadOf webrtc_seq 8 (video_seq (push_run webrtc_seq demo_events))"
    unfolding demo_events_seq by (simp add: webrtc_seq_def ahead_or_at_spec_def)
  from restart_keeps_frame[OF webrtc_seq_ok demo_events_ok(1) refl this refl]
  have "\<forall>j<2. FindVideoPacket (OnFrame webrtc_seq (Some (8, True)) (push_run webrtc_seq demo_events)) (6 + of_nat j) = None"
    by (auto simp: demo_events_seq)
  then show ?thesis by (auto dest: spec[of _ 0])
qed

theorem restart_empties_cache_witness:
  "FindVideoPacket (OnFrame webrtc_seq (Some (3000, True)) (push_run webrtc_seq demo_events)) 3000 = None"
  by (rule restart_empties_cache[OF webrtc_seq_ok demo_events_ok(1) refl]; unfold demo_events_seq)
    (simp_all add: webrtc_seq_def ahead_or_at_spec_def)

end
