(* ===== verification/StreamManager.thy ===== *)
theory StreamManager
  imports PushProps
begin

text \<open>
  \<open>rtc_stream_manager.cpp\<close>, \<open>rtc_stream.cpp\<close> and \<open>pull_stream.cpp\<close>: the streams of a worker. A
  pointer to a stream is an address of the heap \<open>mg_heap\<close>; \<open>delete\<close> removes the entry, an
  access to a deleted stream is the value \<open>StreamUseAfterFree\<close>. What is asked of the peer
  connection of a stream is appended to \<open>mg_out\<close>. The description a peer connection makes of an
  answer and the RTP parser of libwebrtc are the parameter \<open>pc_lib\<close>; the tracks of a description
  are of the arbitrary type \<open>'s\<close> (\<open>None\<close>: the answer leaves the old description). An \<open>unordered_map\<close> from user to stream is a list of pairs whose
  order stands for the unspecified order of iteration.
\<close>

subsection \<open>State\<close>

datatype pc_state = pc_kNew | pc_kConnecting | pc_kConnected | pc_kDisconnected | pc_kFailed | pc_kClosed

datatype stream_type = kPush | kPull

record 's pc_lib =
  description_of :: "string \<Rightarrow> (string \<rightharpoonup> 's list) option"
  rtp_parses :: "bytes \<Rightarrow> bool"

record 's rtc_stream =
  rs_type :: stream_type
  rs_uid :: u64
  rs_name :: string
  rs_audio :: bool
  rs_video :: bool
  rs_transparent :: bool
  rs_pli :: bool
  rs_dtls :: bool
  rs_remote_desc :: "(string \<rightharpoonup> 's list) option"
  rs_audio_source :: "'s list"
  rs_video_source :: "'s list"
  rs_state :: pc_state
  rs_timer :: bool
  rs_push :: push_stream

record offer_options =
  send_audio :: bool
  send_video :: bool
  recv_audio :: bool
  recv_video :: bool

datatype mgr_out =
    MoOffer nat offer_options
  | MoPacket nat media_type rtc_packet bool
  | MoRtp nat bytes
  | MoRtcp nat bytes
  | MoSrInfo nat media_type u32 u64

datatype stream_fault = StreamUseAfterFree nat | StreamDoubleFree nat

record 's stream_manager =
  mg_heap :: "nat \<rightharpoonup> 's rtc_stream"
  mg_push :: "string \<rightharpoonup> nat"
  mg_pull :: "string \<rightharpoonup> nat"
  mg_multi :: "string \<rightharpoonup> (u64 \<times> nat) list"
  mg_out :: "mgr_out list"

type_synonym ('s, 'a) mresult = "stream_fault + 'a"

definition RtcStreamManager :: "'s stream_manager" where
  "RtcStreamManager = \<lparr>mg_heap = Map.empty, mg_push = Map.empty, mg_pull = Map.empty, mg_multi = Map.empty, mg_out = []\<rparr>"

definition stream_at :: "nat \<Rightarrow> 's stream_manager \<Rightarrow> ('s, 's rtc_stream) mresult" where
  "stream_at p m = (case mg_heap m p of None \<Rightarrow> Inl (StreamUseAfterFree p) | Some r \<Rightarrow> Inr r)"

definition put_stream :: "nat \<Rightarrow> 's rtc_stream \<Rightarrow> 's stream_manager \<Rightarrow> 's stream_manager" where
  "put_stream p r m = m\<lparr>mg_heap := (mg_heap m)(p \<mapsto> r)\<rparr>"

definition mg_emit :: "mgr_out \<Rightarrow> 's stream_manager \<Rightarrow> 's stream_manager" where
  "mg_emit e m = m\<lparr>mg_out := mg_out m @ [e]\<rparr>"

text \<open>\<open>~RtcStream\<close> deletes its timer and hands its peer connection to a deferred deletion.\<close>

definition delete_stream :: "nat \<Rightarrow> 's stream_manager \<Rightarrow> ('s, 's stream_manager) mresult" where
  "delete_stream p m =
     (case mg_heap m p of None \<Rightarrow> Inl (StreamDoubleFree p) | Some _ \<Rightarrow> Inr (m\<lparr>mg_heap := (mg_heap m)(p := None)\<rparr>))"

subsection \<open>A stream\<close>

definition RtcStream :: "stream_type \<Rightarrow> u64 \<Rightarrow> string \<Rightarrow> bool \<Rightarrow> bool \<Rightarrow> 's rtc_stream" where
  "RtcStream type uid name audio video =
     \<lparr>rs_type = type, rs_uid = uid, rs_name = name, rs_audio = audio, rs_video = video, rs_transparent = False,
      rs_pli = False, rs_dtls = True, rs_remote_desc = None, rs_audio_source = [], rs_video_source = [],
      rs_state = pc_kNew, rs_timer = False, rs_push = PushStream\<rparr>"

definition set_mode :: "string \<Rightarrow> 's rtc_stream \<Rightarrow> 's rtc_stream" where
  "set_mode mode r = r\<lparr>rs_transparent := (mode = ''transparent'')\<rparr>"

definition Start :: "bool \<Rightarrow> 's rtc_stream \<Rightarrow> 's rtc_stream" where
  "Start dtls r = r\<lparr>rs_timer := True, rs_dtls := dtls\<rparr>"

definition GetSource :: "string \<Rightarrow> 's rtc_stream \<Rightarrow> 's list" where
  "GetSource mid r =
     (case rs_remote_desc r of
        None \<Rightarrow> []
      | Some desc \<Rightarrow> (case desc mid of None \<Rightarrow> [] | Some streams \<Rightarrow> streams))"

definition PushOffer :: "'s rtc_stream \<Rightarrow> offer_options" where
  "PushOffer r = \<lparr>send_audio = False, send_video = False, recv_audio = rs_audio r, recv_video = rs_video r\<rparr>"

definition PullOffer :: "'s rtc_stream \<Rightarrow> offer_options" where
  "PullOffer r = \<lparr>send_audio = rs_audio r, send_video = rs_video r, recv_audio = False, recv_video = False\<rparr>"

definition SetRemoteSdp :: "('s, 'b) pc_lib_scheme \<Rightarrow> string \<Rightarrow> 's rtc_stream \<Rightarrow> 's rtc_stream" where
  "SetRemoteSdp P answer r =
     (case description_of P answer of None \<Rightarrow> r | Some desc \<Rightarrow> r\<lparr>rs_remote_desc := Some desc\<rparr>)"

text \<open>\<open>PullStream::SendPacket\<close>; the peer connection of a stream is never null.\<close>

definition PullSendPacket ::
    "('s, 'b) pc_lib_scheme \<Rightarrow> media_type \<Rightarrow> rtc_packet \<Rightarrow> bool \<Rightarrow> nat \<Rightarrow> 's stream_manager \<Rightarrow> ('s, 's stream_manager) mresult" where
  "PullSendPacket P media packet retransmit p m =
     and_then (stream_at p m) (\<lambda>r.
       if \<not> rtp_parses P (pk_buf packet) then Inr m
       else Inr (mg_emit (MoPacket p media packet retransmit) m))"

subsection \<open>The registry\<close>

definition FindPushStream :: "string \<Rightarrow> 's stream_manager \<Rightarrow> nat option" where
  "FindPushStream name m = mg_push m name"

definition FindPullStream :: "string \<Rightarrow> 's stream_manager \<Rightarrow> nat option" where
  "FindPullStream name m = mg_pull m name"

definition FindPullStreamM :: "u64 \<Rightarrow> string \<Rightarrow> 's stream_manager \<Rightarrow> nat option" where
  "FindPullStreamM uid name m = (case mg_multi m name of None \<Rightarrow> None | Some umap \<Rightarrow> map_of umap uid)"

definition RemovePushStream :: "u64 \<Rightarrow> string \<Rightarrow> 's stream_manager \<Rightarrow> ('s, 's stream_manager) mresult" where
  "RemovePushStream uid name m =
     (case FindPushStream name m of
        None \<Rightarrow> Inr m
      | Some p \<Rightarrow> and_then (stream_at p m) (\<lambda>r.
          if uid = rs_uid r then delete_stream p (m\<lparr>mg_push := (mg_push m)(name := None)\<rparr>) else Inr m))"

definition RemovePullStream :: "u64 \<Rightarrow> string \<Rightarrow> 's stream_manager \<Rightarrow> ('s, 's stream_manager) mresult" where
  "RemovePullStream uid name m =
     (case FindPullStream name m of
        None \<Rightarrow> Inr m
      | Some p \<Rightarrow> and_then (stream_at p m) (\<lambda>r.
          if uid = rs_uid r then delete_stream p (m\<lparr>mg_pull := (mg_pull m)(name := None)\<rparr>) else Inr m))"

definition AddPullStreamM :: "nat \<Rightarrow> 's stream_manager \<Rightarrow> ('s, 's stream_manager) mresult" where
  "AddPullStreamM p m =
     and_then (stream_at p m) (\<lambda>r.
       let umap = (case mg_multi m (rs_name r) of None \<Rightarrow> [] | Some umap \<Rightarrow> umap);
           umap' = (if map_of umap (rs_uid r) = None then (rs_uid r, p) # umap else umap)
       in Inr (m\<lparr>mg_multi := (mg_multi m)(rs_name r \<mapsto> umap')\<rparr>))"

definition RemovePullStreamM :: "u64 \<Rightarrow> string \<Rightarrow> 's stream_manager \<Rightarrow> ('s, 's stream_manager) mresult" where
  "RemovePullStreamM uid name m =
     (case mg_multi m name of
        None \<Rightarrow> Inr m
      | Some umap \<Rightarrow>
          and_then (case map_of umap uid of None \<Rightarrow> Inr m | Some p \<Rightarrow> delete_stream p m) (\<lambda>m1.
            let umap' = filter (\<lambda>(u, _). u \<noteq> uid) umap
            in Inr (m1\<lparr>mg_multi := (mg_multi m1)(name := (if umap' = [] then None else Some umap'))\<rparr>)))"

subsection \<open>Requests of the clients\<close>

definition CreatePushStream ::
    "nat \<Rightarrow> u64 \<Rightarrow> string \<Rightarrow> bool \<Rightarrow> bool \<Rightarrow> bool \<Rightarrow> bool \<Rightarrow> string \<Rightarrow> 's stream_manager \<Rightarrow> ('s, int \<times> 's stream_manager) mresult" where
  "CreatePushStream x uid name audio video is_dtls is_pli mode m =
     and_then (case FindPushStream name m of
         None \<Rightarrow> Inr m
       | Some p \<Rightarrow> delete_stream p (m\<lparr>mg_push := (mg_push m)(name := None)\<rparr>)) (\<lambda>m1.
       let stream = Start is_dtls ((set_mode mode (RtcStream kPush uid name audio video))\<lparr>rs_pli := is_pli\<rparr>);
           m2 = mg_emit (MoOffer x (PushOffer stream)) (put_stream x stream m1)
       in Inr (0, m2\<lparr>mg_push := (mg_push m2)(name \<mapsto> x)\<rparr>))"

definition CreatePullStream ::
    "nat \<Rightarrow> u64 \<Rightarrow> string \<Rightarrow> bool \<Rightarrow> bool \<Rightarrow> bool \<Rightarrow> string \<Rightarrow> 's stream_manager \<Rightarrow> ('s, int \<times> 's stream_manager) mresult" where
  "CreatePullStream x uid name audio video is_dtls mode m =
     (case FindPushStream name m of
        None \<Rightarrow> Inr (-1, m)
      | Some q \<Rightarrow>
          and_then (if mode = ''transparent'' then RemovePullStream uid name m else RemovePullStreamM uid name m) (\<lambda>m1.
          and_then (stream_at q m1) (\<lambda>push.
            let stream = Start is_dtls ((set_mode mode (RtcStream kPull uid name audio video))
                  \<lparr>rs_audio_source := GetSource ''audio'' push, rs_video_source := GetSource ''video'' push\<rparr>);
                m2 = mg_emit (MoOffer x (PullOffer stream)) (put_stream x stream m1)
            in if rs_transparent stream then Inr (0, m2\<lparr>mg_pull := (mg_pull m2)(name \<mapsto> x)\<rparr>)
               else and_then (AddPullStreamM x m2) (\<lambda>m3. Inr (0, m3)))))"

definition SetAnswer ::
    "('s, 'b) pc_lib_scheme \<Rightarrow> u64 \<Rightarrow> string \<Rightarrow> string \<Rightarrow> string \<Rightarrow> string \<Rightarrow> 's stream_manager \<Rightarrow> ('s, int \<times> 's stream_manager) mresult" where
  "SetAnswer P uid name answer stream_type mode m =
     (let answer_stream = (\<lambda>s. case s of
            None \<Rightarrow> Inr (-1, m)
          | Some p \<Rightarrow> and_then (stream_at p m) (\<lambda>r.
              if uid \<noteq> rs_uid r then Inr (-1, m) else Inr (0, put_stream p (SetRemoteSdp P answer r) m)))
      in if stream_type = ''push'' then answer_stream (FindPushStream name m)
         else if stream_type = ''pull'' then
           answer_stream (if mode = ''transparent'' then FindPullStream name m else FindPullStreamM uid name m)
         else Inr (0, m))"

definition StopPush :: "u64 \<Rightarrow> string \<Rightarrow> 's stream_manager \<Rightarrow> ('s, int \<times> 's stream_manager) mresult" where
  "StopPush uid name m = and_then (RemovePushStream uid name m) (\<lambda>m1. Inr (0, m1))"

definition StopPull :: "u64 \<Rightarrow> string \<Rightarrow> string \<Rightarrow> 's stream_manager \<Rightarrow> ('s, int \<times> 's stream_manager) mresult" where
  "StopPull uid name mode m =
     and_then (if mode = ''transparent'' then RemovePullStream uid name m else RemovePullStreamM uid name m) (\<lambda>m1. Inr (0, m1))"

subsection \<open>Callbacks of the streams\<close>

definition OnStreamException :: "nat \<Rightarrow> 's stream_manager \<Rightarrow> ('s, 's stream_manager) mresult" where
  "OnStreamException p m =
     and_then (stream_at p m) (\<lambda>r.
       case rs_type r of
         kPush \<Rightarrow> RemovePushStream (rs_uid r) (rs_name r) m
       | kPull \<Rightarrow> if rs_transparent r then RemovePullStream (rs_uid r) (rs_name r) m
                 else RemovePullStreamM (rs_uid r) (rs_name r) m)"

definition OnConnectionState :: "nat \<Rightarrow> pc_state \<Rightarrow> 's stream_manager \<Rightarrow> ('s, 's stream_manager) mresult" where
  "OnConnectionState p state m =
     (if state = pc_kFailed then
        and_then (stream_at p m) (\<lambda>r.
          case rs_type r of
            kPush \<Rightarrow> RemovePushStream (rs_uid r) (rs_name r) m
          | kPull \<Rightarrow> if rs_transparent r then RemovePullStream (rs_uid r) (rs_name r) m
                    else RemovePullStreamM (rs_uid r) (rs_name r) m)
      else Inr m)"

text \<open>\<open>RtcStream::OnConnectionState\<close> and the 30 s timer of a stream.\<close>

definition StreamConnectionState :: "nat \<Rightarrow> pc_state \<Rightarrow> 's stream_manager \<Rightarrow> ('s, 's stream_manager) mresult" where
  "StreamConnectionState p state m =
     and_then (stream_at p m) (\<lambda>r.
       if rs_state r = state then Inr m
       else
         let r' = r\<lparr>rs_state := state,
               rs_timer := (if state = pc_kConnected \<or> state = pc_kFailed then False else rs_timer r)\<rparr>
         in OnConnectionState p state (put_stream p r' m))"

definition IceTimeoutCb :: "nat \<Rightarrow> 's stream_manager \<Rightarrow> ('s, 's stream_manager) mresult" where
  "IceTimeoutCb p m =
     and_then (stream_at p m) (\<lambda>r. if rs_state r \<noteq> pc_kConnected then OnStreamException p m else Inr m)"

subsection \<open>Forwarding\<close>

text \<open>Live mode: a packet of a publisher to every subscriber of its name.\<close>

definition MgrOnRtpPacket ::
    "('s, 'b) pc_lib_scheme \<Rightarrow> nat \<Rightarrow> media_type \<Rightarrow> rtc_packet \<Rightarrow> 's stream_manager \<Rightarrow> ('s, 's stream_manager) mresult" where
  "MgrOnRtpPacket P p media packet m =
     and_then (stream_at p m) (\<lambda>r.
       if rs_type r \<noteq> kPush then Inr m
       else (case mg_multi m (rs_name r) of
          None \<Rightarrow> Inr m
        | Some umap \<Rightarrow> each (\<lambda>(_, q). PullSendPacket P media packet False q) umap m))"

text \<open>The packets a publisher's stream releases on an event, each handed to the manager in turn.\<close>

definition released :: "push_stream \<Rightarrow> push_stream \<Rightarrow> rtc_packet list" where
  "released s t = drop (length (ps_out s)) (ps_out t)"

definition PushEvent ::
    "seq_lib \<Rightarrow> ('s, 'b) pc_lib_scheme \<Rightarrow> nat \<Rightarrow> push_event \<Rightarrow> 's stream_manager \<Rightarrow> ('s, 's stream_manager) mresult" where
  "PushEvent L P p e m =
     and_then (stream_at p m) (\<lambda>r.
       let s' = push_step L (rs_push r) e
       in each (\<lambda>pkt. MgrOnRtpPacket P p (pk_media pkt) pkt) (released (rs_push r) s')
            (put_stream p (r\<lparr>rs_push := s'\<rparr>) m))"

text \<open>Transparent mode: bytes to the one partner stream of the name.\<close>

definition OnRtpPacketReceived :: "nat \<Rightarrow> bytes \<Rightarrow> 's stream_manager \<Rightarrow> ('s, 's stream_manager) mresult" where
  "OnRtpPacketReceived p data m =
     and_then (stream_at p m) (\<lambda>r.
       if rs_type r = kPush \<and> rs_transparent r then
         (case FindPullStream (rs_name r) m of
            None \<Rightarrow> Inr m
          | Some q \<Rightarrow> and_then (stream_at q m) (\<lambda>_. Inr (mg_emit (MoRtp q data) m)))
       else Inr m)"

definition OnRtcpPacketReceived :: "nat \<Rightarrow> bytes \<Rightarrow> 's stream_manager \<Rightarrow> ('s, 's stream_manager) mresult" where
  "OnRtcpPacketReceived p data m =
     and_then (stream_at p m) (\<lambda>r.
       if rs_transparent r then
         (case (case rs_type r of kPush \<Rightarrow> FindPullStream (rs_name r) m | kPull \<Rightarrow> FindPushStream (rs_name r) m) of
            None \<Rightarrow> Inr m
          | Some q \<Rightarrow> and_then (stream_at q m) (\<lambda>_. Inr (mg_emit (MoRtcp q data) m)))
       else Inr m)"

definition OnSrInfo :: "nat \<Rightarrow> media_type \<Rightarrow> u32 \<Rightarrow> u64 \<Rightarrow> 's stream_manager \<Rightarrow> ('s, 's stream_manager) mresult" where
  "OnSrInfo p media rtp_timestamp ntp m =
     and_then (stream_at p m) (\<lambda>r.
       if rs_transparent r then Inr m
       else if rs_type r = kPush then
         (case mg_multi m (rs_name r) of
            None \<Rightarrow> Inr m
          | Some umap \<Rightarrow> each (\<lambda>(_, q) m. and_then (stream_at q m) (\<lambda>_.
              Inr (mg_emit (MoSrInfo q media rtp_timestamp ntp) m))) umap m)
       else Inr m)"

definition OnNackReceived ::
    "('s, 'b) pc_lib_scheme \<Rightarrow> nat \<Rightarrow> media_type \<Rightarrow> u16 list \<Rightarrow> 's stream_manager \<Rightarrow> ('s, 's stream_manager) mresult" where
  "OnNackReceived P p media nack_list m =
     and_then (stream_at p m) (\<lambda>r.
       if rs_type r \<noteq> kPull then Inr m
       else (case FindPushStream (rs_name r) m of
          None \<Rightarrow> Inr m
        | Some q \<Rightarrow> and_then (stream_at q m) (\<lambda>push.
            each (\<lambda>k m. case FindVideoPacket (rs_push push) k of
                None \<Rightarrow> Inr m
              | Some packet \<Rightarrow> PullSendPacket P media packet True p m) nack_list m)))"

subsection \<open>Events\<close>

datatype mgr_event =
    MeCreatePush nat u64 string bool bool bool bool string
  | MeCreatePull nat u64 string bool bool bool string
  | MeSetAnswer u64 string string string string
  | MeStopPush u64 string
  | MeStopPull u64 string string
  | MeConnection nat pc_state
  | MeTimeout nat
  | MePush nat push_event
  | MeRtp nat bytes
  | MeRtcp nat bytes
  | MeSr nat media_type u32 u64
  | MeNack nat media_type "u16 list"

fun mgr_step :: "seq_lib \<Rightarrow> ('s, 'b) pc_lib_scheme \<Rightarrow> mgr_event \<Rightarrow> 's stream_manager \<Rightarrow> ('s, 's stream_manager) mresult" where
  "mgr_step L P (MeCreatePush x uid name audio video dtls pli mode) m =
     and_then (CreatePushStream x uid name audio video dtls pli mode m) (\<lambda>(_, m1). Inr m1)"
| "mgr_step L P (MeCreatePull x uid name audio video dtls mode) m =
     and_then (CreatePullStream x uid name audio video dtls mode m) (\<lambda>(_, m1). Inr m1)"
| "mgr_step L P (MeSetAnswer uid name answer type mode) m =
     and_then (SetAnswer P uid name answer type mode m) (\<lambda>(_, m1). Inr m1)"
| "mgr_step L P (MeStopPush uid name) m = and_then (StopPush uid name m) (\<lambda>(_, m1). Inr m1)"
| "mgr_step L P (MeStopPull uid name mode) m = and_then (StopPull uid name mode m) (\<lambda>(_, m1). Inr m1)"
| "mgr_step L P (MeConnection p state) m = StreamConnectionState p state m"
| "mgr_step L P (MeTimeout p) m = IceTimeoutCb p m"
| "mgr_step L P (MePush p e) m = PushEvent L P p e m"
| "mgr_step L P (MeRtp p data) m = OnRtpPacketReceived p data m"
| "mgr_step L P (MeRtcp p data) m = OnRtcpPacketReceived p data m"
| "mgr_step L P (MeSr p media ts ntp) m = OnSrInfo p media ts ntp m"
| "mgr_step L P (MeNack p media nacks) m = OnNackReceived P p media nacks m"

text \<open>
  A new stream gets an unused address; the callbacks come from the signals and the timer of a
  live stream, those of a publisher from a publisher.
\<close>

fun mgr_admitted :: "'s stream_manager \<Rightarrow> mgr_event \<Rightarrow> bool" where
  "mgr_admitted m (MeCreatePush x _ _ _ _ _ _ _) \<longleftrightarrow> mg_heap m x = None"
| "mgr_admitted m (MeCreatePull x _ _ _ _ _ _) \<longleftrightarrow> mg_heap m x = None"
| "mgr_admitted m (MeConnection p _) \<longleftrightarrow> p \<in> dom (mg_heap m)"
| "mgr_admitted m (MeTimeout p) \<longleftrightarrow> (case mg_heap m p of None \<Rightarrow> False | Some r \<Rightarrow> rs_timer r)"
| "mgr_admitted m (MePush p _) \<longleftrightarrow> (case mg_heap m p of None \<Rightarrow> False | Some r \<Rightarrow> rs_type r = kPush)"
| "mgr_admitted m (MeRtp p _) \<longleftrightarrow> p \<in> dom (mg_heap m)"
| "mgr_admitted m (MeRtcp p _) \<longleftrightarrow> p \<in> dom (mg_heap m)"
| "mgr_admitted m (MeSr p _ _ _) \<longleftrightarrow> p \<in> dom (mg_heap m)"
| "mgr_admitted m (MeNack p _ _) \<longleftrightarrow> (case mg_heap m p of None \<Rightarrow> False | Some r \<Rightarrow> rs_type r = kPull)"
| "mgr_admitted m _ \<longleftrightarrow> True"

inductive mgr_reachable :: "seq_lib \<Rightarrow> ('s, 'b) pc_lib_scheme \<Rightarrow> 's stream_manager \<Rightarrow> bool" for L P where
  mgr_init: "mgr_reachable L P RtcStreamManager"
| mgr_next: "mgr_reachable L P m \<Longrightarrow> mgr_admitted m e \<Longrightarrow> mgr_step L P e m = Inr m' \<Longrightarrow> mgr_reachable L P m'"

end
