(* ===== verification/StreamRegistry.thy ===== *)
theory StreamRegistry
  imports StreamManager
begin

text \<open>
  The registry of the stream manager as one abstract map from keys to streams: a publisher by
  its name, a transparent subscriber by its name, a live subscriber by name and user. The three
  maps of the code implement it, every registered pointer is live and registered under the key
  its stream has, and the callbacks never touch a deleted stream.
\<close>

datatype stream_key = KPush string | KPull string | KMulti string u64

fun lookup :: "'s stream_manager \<Rightarrow> stream_key \<rightharpoonup> nat" where
  "lookup m (KPush name) = FindPushStream name m"
| "lookup m (KPull name) = FindPullStream name m"
| "lookup m (KMulti name uid) = FindPullStreamM uid name m"

definition key_of :: "'s rtc_stream \<Rightarrow> stream_key" where
  "key_of r = (case rs_type r of kPush \<Rightarrow> KPush (rs_name r)
     | kPull \<Rightarrow> if rs_transparent r then KPull (rs_name r) else KMulti (rs_name r) (rs_uid r))"

lemma key_of_frame [simp]:
  "key_of (r\<lparr>rs_state := s, rs_timer := t\<rparr>) = key_of r" "key_of (r\<lparr>rs_push := ps\<rparr>) = key_of r"
  "key_of (r\<lparr>rs_remote_desc := d\<rparr>) = key_of r"
  by (simp_all add: key_of_def split: stream_type.split)

definition umaps_ok :: "'s stream_manager \<Rightarrow> bool" where
  "umaps_ok m \<longleftrightarrow> (\<forall>name umap. mg_multi m name = Some umap \<longrightarrow> umap \<noteq> [] \<and> distinct (map fst umap))"

definition reg_ok :: "'s stream_manager \<Rightarrow> bool" where
  "reg_ok m \<longleftrightarrow> umaps_ok m \<and> (\<forall>k p. lookup m k = Some p \<longrightarrow> (\<exists>r. mg_heap m p = Some r \<and> key_of r = k))"

definition registered :: "'s stream_manager \<Rightarrow> nat \<Rightarrow> bool" where
  "registered m p \<longleftrightarrow> (\<exists>r. mg_heap m p = Some r \<and> lookup m (key_of r) = Some p)"

definition all_registered :: "'s stream_manager \<Rightarrow> bool" where
  "all_registered m \<longleftrightarrow> (\<forall>p\<in>dom (mg_heap m). registered m p)"

lemma reg_okD: "reg_ok m \<Longrightarrow> lookup m k = Some p \<Longrightarrow> \<exists>r. mg_heap m p = Some r \<and> key_of r = k"
  by (simp add: reg_ok_def)

lemma reg_ok_umaps: "reg_ok m \<Longrightarrow> umaps_ok m"
  by (simp add: reg_ok_def)

lemma wp_stream_at [simp]: "wp (stream_at p m) Q \<longleftrightarrow> (\<exists>r. mg_heap m p = Some r \<and> Q r)"
  by (cases "mg_heap m p") (simp_all add: stream_at_def)

lemma stream_at_live: "mg_heap m p = Some r \<Longrightarrow> stream_at p m = Inr r"
  by (simp add: stream_at_def)

lemma wp_delete_stream [simp]:
  "wp (delete_stream p m) Q \<longleftrightarrow> p \<in> dom (mg_heap m) \<and> Q (m\<lparr>mg_heap := (mg_heap m)(p := None)\<rparr>)"
  by (cases "mg_heap m p") (auto simp: delete_stream_def)

subsection \<open>The maps as one\<close>

lemma lookup_frame [simp]:
  "lookup (m\<lparr>mg_heap := h\<rparr>) = lookup m" "lookup (m\<lparr>mg_out := out\<rparr>) = lookup m"
  "lookup (mg_emit e m) = lookup m" "lookup (put_stream p r m) = lookup m"
proof -
  have "lookup (m\<lparr>mg_heap := h\<rparr>) k = lookup m k" "lookup (m\<lparr>mg_out := out\<rparr>) k = lookup m k" for k h out
    by (cases k; simp add: FindPushStream_def FindPullStream_def FindPullStreamM_def)+
  then show "lookup (m\<lparr>mg_heap := h\<rparr>) = lookup m" "lookup (m\<lparr>mg_out := out\<rparr>) = lookup m"
    "lookup (mg_emit e m) = lookup m" "lookup (put_stream p r m) = lookup m"
    by (auto simp: fun_eq_iff mg_emit_def put_stream_def)
qed

lemma lookup_push [simp]: "lookup (m\<lparr>mg_push := (mg_push m)(name := v)\<rparr>) = (lookup m)(KPush name := v)"
proof
  fix k show "lookup (m\<lparr>mg_push := (mg_push m)(name := v)\<rparr>) k = ((lookup m)(KPush name := v)) k"
    by (cases k) (auto simp: FindPushStream_def FindPullStream_def FindPullStreamM_def)
qed

lemma lookup_pull [simp]: "lookup (m\<lparr>mg_pull := (mg_pull m)(name := v)\<rparr>) = (lookup m)(KPull name := v)"
proof
  fix k show "lookup (m\<lparr>mg_pull := (mg_pull m)(name := v)\<rparr>) k = ((lookup m)(KPull name := v)) k"
    by (cases k) (auto simp: FindPushStream_def FindPullStream_def FindPullStreamM_def)
qed

lemma map_of_filter_other: "map_of (filter (\<lambda>(u, _). u \<noteq> uid) umap) = (map_of umap)(uid := None)"
  by (induction umap) auto

lemma lookup_multi_remove:
  assumes "mg_multi m name = Some umap" "umap' = filter (\<lambda>(u, _). u \<noteq> uid) umap"
  shows "lookup (m\<lparr>mg_multi := (mg_multi m)(name := (if umap' = [] then None else Some umap'))\<rparr>)
    = (lookup m)(KMulti name uid := None)"
proof
  fix k
  have e: "map_of umap' = (map_of umap)(uid := None)" using map_of_filter_other assms(2) by simp
  then have "umap' = [] \<Longrightarrow> (map_of umap)(uid := None) = Map.empty" by simp
  then show "lookup (m\<lparr>mg_multi := (mg_multi m)(name := (if umap' = [] then None else Some umap'))\<rparr>) k
      = ((lookup m)(KMulti name uid := None)) k"
    using assms(1) e
    by (cases k) (auto simp: FindPushStream_def FindPullStream_def FindPullStreamM_def fun_eq_iff split: if_splits)
qed

lemma lookup_multi_add:
  assumes "umap = (case mg_multi m name of None \<Rightarrow> [] | Some umap \<Rightarrow> umap)"
  shows "lookup (m\<lparr>mg_multi := (mg_multi m)(name \<mapsto> (uid, p) # umap)\<rparr>) = (lookup m)(KMulti name uid \<mapsto> p)"
proof
  fix k show "lookup (m\<lparr>mg_multi := (mg_multi m)(name \<mapsto> (uid, p) # umap)\<rparr>) k = ((lookup m)(KMulti name uid \<mapsto> p)) k"
    using assms by (cases k) (auto simp: FindPushStream_def FindPullStream_def FindPullStreamM_def split: option.split)
qed

lemma umaps_frame [simp]:
  "umaps_ok (m\<lparr>mg_heap := h\<rparr>) = umaps_ok m" "umaps_ok (m\<lparr>mg_push := a\<rparr>) = umaps_ok m"
  "umaps_ok (m\<lparr>mg_pull := b\<rparr>) = umaps_ok m" "umaps_ok (mg_emit e m) = umaps_ok m"
  "umaps_ok (put_stream p r m) = umaps_ok m"
  by (simp_all add: umaps_ok_def mg_emit_def put_stream_def)

lemma heap_frame [simp]:
  "mg_heap (mg_emit e m) = mg_heap m" "mg_heap (put_stream p r m) = (mg_heap m)(p \<mapsto> r)"
  by (simp_all add: mg_emit_def put_stream_def)

subsection \<open>Removal\<close>

text \<open>What a removal under a key does: nothing, or the key and the stream behind it are gone.\<close>

definition removed :: "stream_key \<Rightarrow> 's stream_manager \<Rightarrow> 's stream_manager \<Rightarrow> bool" where
  "removed k m m' \<longleftrightarrow> umaps_ok m' \<and> mg_out m' = mg_out m \<and>
     (mg_heap m' = mg_heap m \<and> lookup m' = lookup m \<or>
      (\<exists>p. lookup m k = Some p \<and> mg_heap m' = (mg_heap m)(p := None) \<and> lookup m' = (lookup m)(k := None)))"

lemma RemovePushStream_wp:
  assumes "reg_ok m"
  shows "wp (RemovePushStream uid name m) (removed (KPush name) m)"
proof (cases "FindPushStream name m")
  case None
  then show ?thesis using assms by (simp add: RemovePushStream_def removed_def reg_ok_def)
next
  case (Some p)
  then obtain r where "mg_heap m p = Some r" using reg_okD[OF assms, of "KPush name" p] by auto
  then show ?thesis using assms Some by (auto simp: RemovePushStream_def removed_def reg_ok_def)
qed

lemma RemovePullStream_wp:
  assumes "reg_ok m"
  shows "wp (RemovePullStream uid name m) (removed (KPull name) m)"
proof (cases "FindPullStream name m")
  case None
  then show ?thesis using assms by (simp add: RemovePullStream_def removed_def reg_ok_def)
next
  case (Some p)
  then obtain r where "mg_heap m p = Some r" using reg_okD[OF assms, of "KPull name" p] by auto
  then show ?thesis using assms Some by (auto simp: RemovePullStream_def removed_def reg_ok_def)
qed

lemma filter_absent: "map_of umap uid = None \<Longrightarrow> filter (\<lambda>(u, _). u \<noteq> uid) umap = umap"
  by (force simp: map_of_eq_None_iff filter_id_conv)

lemma distinct_filter_fst: "distinct (map fst umap) \<Longrightarrow> distinct (map fst (filter P umap))"
  by (induction umap) auto

lemma RemovePullStreamM_wp:
  assumes "reg_ok m"
  shows "wp (RemovePullStreamM uid name m) (removed (KMulti name uid) m)"
proof (cases "mg_multi m name")
  case None
  then show ?thesis using assms by (simp add: RemovePullStreamM_def removed_def reg_ok_def)
next
  case (Some umap)
  let ?umap' = "filter (\<lambda>(u, _). u \<noteq> uid) umap"
  let ?m = "\<lambda>m. m\<lparr>mg_multi := (mg_multi m)(name := (if ?umap' = [] then None else Some ?umap'))\<rparr>"
  have um: "umap \<noteq> []" "distinct (map fst umap)"
    using reg_ok_umaps[OF assms] Some by (auto simp: umaps_ok_def)
  have ok: "umaps_ok (?m m1)" if "mg_multi m1 = mg_multi m" for m1 :: "'a stream_manager"
    using reg_ok_umaps[OF assms] that distinct_filter_fst[OF um(2)] by (auto simp: umaps_ok_def)
  show ?thesis
  proof (cases "map_of umap uid")
    case None
    then have "?m m = m" using um(1) Some by (simp add: filter_absent fun_upd_idem)
    then show ?thesis
      using Some None um(1) reg_ok_umaps[OF assms] by (simp add: RemovePullStreamM_def removed_def filter_absent)
  next
    case (Some p)
    then have l: "lookup m (KMulti name uid) = Some p" using \<open>mg_multi m name = Some umap\<close> by (simp add: FindPullStreamM_def)
    then obtain r where r: "mg_heap m p = Some r" using reg_okD[OF assms] by blast
    let ?m1 = "m\<lparr>mg_heap := (mg_heap m)(p := None)\<rparr>"
    have "lookup (?m ?m1) = (lookup ?m1)(KMulti name uid := None)"
      using \<open>mg_multi m name = Some umap\<close> by (intro lookup_multi_remove) simp_all
    then have "removed (KMulti name uid) m (?m ?m1)"
      using l ok[of ?m1] by (auto simp: removed_def)
    then show ?thesis using Some r \<open>mg_multi m name = Some umap\<close> by (auto simp: RemovePullStreamM_def Let_def)
  qed
qed

lemma removed_ok:
  assumes "reg_ok m" "removed k m m'"
  shows "reg_ok m'"
  using assms(2) unfolding removed_def
proof (elim conjE disjE exE)
  fix p assume u: "umaps_ok m'" and p: "lookup m k = Some p" "mg_heap m' = (mg_heap m)(p := None)" "lookup m' = (lookup m)(k := None)"
  obtain r where r: "mg_heap m p = Some r" "key_of r = k" using reg_okD[OF assms(1) p(1)] by blast
  have "\<exists>s. mg_heap m' q = Some s \<and> key_of s = j" if "lookup m' j = Some q" for j q
  proof -
    have j: "j \<noteq> k" "lookup m j = Some q" using that p(3) by (auto split: if_splits)
    then obtain s where "mg_heap m q = Some s" "key_of s = j" using reg_okD[OF assms(1)] by blast
    then show ?thesis using j(1) r p(2) by auto
  qed
  then show ?thesis using u by (simp add: reg_ok_def)
qed (use assms(1) in \<open>simp add: reg_ok_def\<close>)

lemma removed_all:
  assumes "reg_ok m" "removed k m m'" "all_registered m"
  shows "all_registered m'"
  using assms(2) unfolding removed_def
proof (elim conjE disjE exE)
  fix p assume p: "lookup m k = Some p" "mg_heap m' = (mg_heap m)(p := None)" "lookup m' = (lookup m)(k := None)"
  obtain r where r: "mg_heap m p = Some r" "key_of r = k" using reg_okD[OF assms(1) p(1)] by blast
  have "lookup m' (key_of s) = Some q" if "mg_heap m q = Some s" "q \<noteq> p" for q s
    using assms(3) that p by (auto simp: all_registered_def registered_def dom_def)
  then show ?thesis using p(2) by (auto simp: all_registered_def registered_def dom_def split: if_splits)
qed (use assms(3) in \<open>simp add: all_registered_def registered_def\<close>)

text \<open>A stream that is not registered survives every removal and stays unregistered.\<close>

definition stray :: "'s stream_manager \<Rightarrow> nat \<Rightarrow> bool" where
  "stray m p \<longleftrightarrow> p \<in> dom (mg_heap m) \<and> p \<notin> ran (lookup m)"

lemma removed_stray: "removed k m m' \<Longrightarrow> stray m p \<Longrightarrow> stray m' p"
  by (auto simp: removed_def stray_def ran_def dom_def split: if_splits)

subsection \<open>Every operation keeps the registry\<close>

definition keeps_reg :: "'s stream_manager \<Rightarrow> 's stream_manager \<Rightarrow> bool" where
  "keeps_reg m m' \<longleftrightarrow> reg_ok m' \<and> (all_registered m \<longrightarrow> all_registered m') \<and> (\<forall>p. stray m p \<longrightarrow> stray m' p)"

lemma keeps_reg_refl: "reg_ok m \<Longrightarrow> keeps_reg m m"
  by (simp add: keeps_reg_def)

lemma keeps_reg_trans: "keeps_reg m m1 \<Longrightarrow> keeps_reg m1 m2 \<Longrightarrow> keeps_reg m m2"
  by (simp add: keeps_reg_def)

lemma removed_keeps: "reg_ok m \<Longrightarrow> removed k m m' \<Longrightarrow> keeps_reg m m'"
  using removed_ok removed_all removed_stray by (simp add: keeps_reg_def) blast

lemma same_keeps:
  assumes "reg_ok m" "lookup m' = lookup m" "umaps_ok m' = umaps_ok m" "dom (mg_heap m') = dom (mg_heap m)"
    "\<And>p r r'. mg_heap m p = Some r \<Longrightarrow> mg_heap m' p = Some r' \<Longrightarrow> key_of r' = key_of r"
  shows "keeps_reg m m'"
proof -
  have reg: "\<exists>r'. mg_heap m' p = Some r' \<and> key_of r' = key_of r" if r: "mg_heap m p = Some r" for p r
  proof -
    have "p \<in> dom (mg_heap m')" using assms(4) r by blast
    then obtain r' where "mg_heap m' p = Some r'" by blast
    then show ?thesis using assms(5)[OF r] by blast
  qed
  have "reg_ok m'"
    using assms(1-3) reg unfolding reg_ok_def by metis
  moreover have "all_registered m'" if "all_registered m"
  proof -
    have "registered m' p" if p: "p \<in> dom (mg_heap m)" for p
    proof -
      obtain r where "mg_heap m p = Some r" "lookup m (key_of r) = Some p"
        using \<open>all_registered m\<close> p by (auto simp: all_registered_def registered_def)
      then show ?thesis using reg[of p r] assms(2) by (auto simp: registered_def)
    qed
    then show ?thesis by (simp add: all_registered_def assms(4))
  qed
  ultimately show ?thesis using assms(2,4) by (simp add: keeps_reg_def stray_def)
qed

lemma put_keeps:
  "reg_ok m \<Longrightarrow> mg_heap m p = Some r \<Longrightarrow> key_of r' = key_of r \<Longrightarrow> keeps_reg m (put_stream p r' m)"
  by (rule same_keeps) (auto split: if_splits)

lemma emit_keeps: "reg_ok m \<Longrightarrow> keeps_reg m (mg_emit e m)"
  by (rule same_keeps) auto

text \<open>A new stream under its own key.\<close>

definition added :: "stream_key \<Rightarrow> nat \<Rightarrow> 's stream_manager \<Rightarrow> 's stream_manager \<Rightarrow> bool" where
  "added k x m m' \<longleftrightarrow> umaps_ok m' \<and> lookup m' = (lookup m)(k \<mapsto> x) \<and>
     (\<exists>r. key_of r = k \<and> mg_heap m' = (mg_heap m)(x \<mapsto> r))"

lemma added_ok:
  assumes "reg_ok m" "added k x m m'" "mg_heap m x = None"
  shows "reg_ok m' \<and> (\<forall>p. stray m p \<longrightarrow> stray m' p)"
proof -
  obtain r where r: "umaps_ok m'" "lookup m' = (lookup m)(k \<mapsto> x)" "key_of r = k" "mg_heap m' = (mg_heap m)(x \<mapsto> r)"
    using assms(2) by (auto simp: added_def)
  have "\<exists>s. mg_heap m' q = Some s \<and> key_of s = j" if l: "lookup m' j = Some q" for j q
  proof (cases "j = k")
    case True
    then show ?thesis using l r by simp
  next
    case False
    then obtain s where "mg_heap m q = Some s" "key_of s = j" using l r(2) reg_okD[OF assms(1), of j q] by auto
    then show ?thesis using assms(3) r(4) by auto
  qed
  moreover have "stray m' p" if "stray m p" for p
    using that assms(3) r(2,4) by (auto simp: stray_def ran_def dom_def split: if_splits)
  ultimately show ?thesis using r(1) by (simp add: reg_ok_def)
qed

lemma added_all:
  assumes "added k x m m'" "mg_heap m x = None" "lookup m k = None" "all_registered m"
  shows "all_registered m'"
proof -
  obtain r where r: "lookup m' = (lookup m)(k \<mapsto> x)" "key_of r = k" "mg_heap m' = (mg_heap m)(x \<mapsto> r)"
    using assms(1) by (auto simp: added_def)
  have "registered m' p" if p: "p \<in> dom (mg_heap m')" for p
  proof (cases "p = x")
    case False
    then obtain s where s: "mg_heap m p = Some s" "lookup m (key_of s) = Some p"
      using p r(3) assms(4) by (auto simp: all_registered_def registered_def dom_def)
    then have "key_of s \<noteq> k" using assms(3) by auto
    then show ?thesis using s False r by (simp add: registered_def)
  qed (use r in \<open>simp add: registered_def\<close>)
  then show ?thesis by (simp add: all_registered_def)
qed

text \<open>A stream whose key is taken over by another one is stray.\<close>

lemma added_stray:
  assumes "reg_ok m" "added k x m m'" "mg_heap m x = None" "lookup m k = Some p"
  shows "stray m' p"
proof -
  obtain r where r: "mg_heap m p = Some r" "key_of r = k" using reg_okD[OF assms(1,4)] by blast
  have "lookup m j \<noteq> Some p" if "j \<noteq> k" for j
    using reg_okD[OF assms(1), of j p] r that by auto
  then show ?thesis using assms(2,3) r(1) by (auto simp: stray_def added_def ran_def split: if_splits)
qed

subsection \<open>The requests\<close>

lemma RemovePushStream_keeps: "reg_ok m \<Longrightarrow> wp (RemovePushStream uid name m) (keeps_reg m)"
  by (rule wp_mono[OF RemovePushStream_wp]) (simp_all add: removed_keeps)

lemma RemovePullStream_keeps: "reg_ok m \<Longrightarrow> wp (RemovePullStream uid name m) (keeps_reg m)"
  by (rule wp_mono[OF RemovePullStream_wp]) (simp_all add: removed_keeps)

lemma RemovePullStreamM_keeps: "reg_ok m \<Longrightarrow> wp (RemovePullStreamM uid name m) (keeps_reg m)"
  by (rule wp_mono[OF RemovePullStreamM_wp]) (simp_all add: removed_keeps)

lemmas remove_keeps = RemovePushStream_keeps RemovePullStream_keeps RemovePullStreamM_keeps

lemma OnStreamException_keeps:
  "reg_ok m \<Longrightarrow> p \<in> dom (mg_heap m) \<Longrightarrow> wp (OnStreamException p m) (keeps_reg m)"
  using remove_keeps[of m] by (auto simp: OnStreamException_def split: stream_type.split)

lemma OnConnectionState_keeps:
  "reg_ok m \<Longrightarrow> p \<in> dom (mg_heap m) \<Longrightarrow> wp (OnConnectionState p state m) (keeps_reg m)"
  using remove_keeps[of m] keeps_reg_refl[of m] by (auto simp: OnConnectionState_def split: stream_type.split)

lemma StreamConnectionState_keeps:
  assumes "reg_ok m" "p \<in> dom (mg_heap m)"
  shows "wp (StreamConnectionState p state m) (keeps_reg m)"
proof -
  obtain r where r: "mg_heap m p = Some r" using assms(2) by blast
  let ?r = "r\<lparr>rs_state := state, rs_timer := (if state = pc_kConnected \<or> state = pc_kFailed then False else rs_timer r)\<rparr>"
  have k: "keeps_reg m (put_stream p ?r m)" by (rule put_keeps[OF assms(1) r]) simp
  then have "wp (OnConnectionState p state (put_stream p ?r m)) (keeps_reg (put_stream p ?r m))"
    by (intro OnConnectionState_keeps) (simp_all add: keeps_reg_def)
  then have "wp (OnConnectionState p state (put_stream p ?r m)) (keeps_reg m)"
    by (rule wp_mono) (rule keeps_reg_trans[OF k])
  then show ?thesis
    using r keeps_reg_refl[OF assms(1)] by (simp add: StreamConnectionState_def Let_def stream_at_live)
qed

lemma CreatePushStream_keeps:
  assumes "reg_ok m" "mg_heap m x = None"
  shows "wp (CreatePushStream x uid name audio video dtls pli mode m) (\<lambda>(_, m'). keeps_reg m m')"
proof -
  define stream :: "'a rtc_stream" where "stream = Start dtls ((set_mode mode (RtcStream kPush uid name audio video))\<lparr>rs_pli := pli\<rparr>)"
  let ?new = "\<lambda>m. (mg_emit (MoOffer x (PushOffer stream)) (put_stream x stream m))"
  have key: "key_of stream = KPush name"
    by (simp add: stream_def key_of_def Start_def set_mode_def RtcStream_def)
  have new: "keeps_reg m1 ((?new m1)\<lparr>mg_push := (mg_push (?new m1))(name \<mapsto> x)\<rparr>)"
    if m1: "reg_ok m1" "mg_heap m1 x = None" "lookup m1 (KPush name) = None" for m1
  proof -
    have a: "added (KPush name) x m1 ((?new m1)\<lparr>mg_push := (mg_push (?new m1))(name \<mapsto> x)\<rparr>)"
      using m1(1) key by (auto simp: added_def reg_ok_def simp flip: fun_upd_def)
    show ?thesis using added_ok[OF m1(1) a m1(2)] added_all[OF a m1(2,3)] by (simp add: keeps_reg_def)
  qed
  show ?thesis
  proof (cases "FindPushStream name m")
    case None
    then show ?thesis using new[OF assms] by (simp add: CreatePushStream_def Let_def stream_def)
  next
    case (Some p)
    let ?m1 = "m\<lparr>mg_push := (mg_push m)(name := None), mg_heap := (mg_heap m)(p := None)\<rparr>"
    obtain r where r: "mg_heap m p = Some r" using reg_okD[OF assms(1), of "KPush name" p] Some by auto
    have "removed (KPush name) m ?m1"
      using Some reg_ok_umaps[OF assms(1)] by (auto simp: removed_def)
    then have k: "keeps_reg m ?m1" by (rule removed_keeps[OF assms(1)])
    have l: "lookup ?m1 (KPush name) = None" by simp
    have "mg_heap ?m1 x = None" using assms(2) by simp
    then have "keeps_reg m ((?new ?m1)\<lparr>mg_push := (mg_push (?new ?m1))(name \<mapsto> x)\<rparr>)"
      using new[of ?m1] l k keeps_reg_trans[OF k] by (simp add: keeps_reg_def)
    then show ?thesis using Some r by (simp add: CreatePushStream_def Let_def stream_def dom_def)
  qed
qed

text \<open>A transparent pull request that finds a subscriber of another user under its name.\<close>

fun overwrites :: "'s stream_manager \<Rightarrow> mgr_event \<Rightarrow> bool" where
  "overwrites m (MeCreatePull x uid name audio video dtls mode) \<longleftrightarrow>
     mode = ''transparent'' \<and> FindPushStream name m \<noteq> None \<and>
     (\<exists>p r. FindPullStream name m = Some p \<and> mg_heap m p = Some r \<and> rs_uid r \<noteq> uid)"
| "overwrites m _ \<longleftrightarrow> False"

lemma removed_heap: "removed k m m' \<Longrightarrow> mg_heap m x = None \<Longrightarrow> mg_heap m' x = None"
  by (auto simp: removed_def)

lemma removed_other: "reg_ok m \<Longrightarrow> removed k m m' \<Longrightarrow> j \<noteq> k \<Longrightarrow> lookup m' j = lookup m j"
  by (auto simp: removed_def)

lemma RemovePullStreamM_gone:
  assumes "reg_ok m"
  shows "wp (RemovePullStreamM uid name m) (\<lambda>m'. FindPullStreamM uid name m' = None)"
proof (cases "mg_multi m name")
  case (Some umap)
  have e: "map_of (filter (\<lambda>(u, _). u \<noteq> uid) umap) uid = None" by (simp add: map_of_filter_other)
  show ?thesis
  proof (cases "map_of umap uid")
    case (Some p)
    then have "lookup m (KMulti name uid) = Some p" using \<open>mg_multi m name = Some umap\<close> by (simp add: FindPullStreamM_def)
    then obtain r where "mg_heap m p = Some r" using reg_okD[OF assms] by blast
    then show ?thesis using \<open>mg_multi m name = Some umap\<close> Some e
      by (auto simp: RemovePullStreamM_def Let_def FindPullStreamM_def)
  qed (use \<open>mg_multi m name = Some umap\<close> e in \<open>auto simp: RemovePullStreamM_def Let_def FindPullStreamM_def\<close>)
qed (simp add: RemovePullStreamM_def FindPullStreamM_def)

lemma RemovePullStream_gone:
  assumes "reg_ok m" "\<And>p r. FindPullStream name m = Some p \<Longrightarrow> mg_heap m p = Some r \<Longrightarrow> rs_uid r = uid"
  shows "wp (RemovePullStream uid name m) (\<lambda>m'. FindPullStream name m' = None)"
proof (cases "FindPullStream name m")
  case (Some p)
  then obtain r where "mg_heap m p = Some r" using reg_okD[OF assms(1), of "KPull name" p] by auto
  then show ?thesis using assms(2)[OF Some] Some by (auto simp: RemovePullStream_def FindPullStream_def)
qed (simp add: RemovePullStream_def)

lemma CreatePullStream_keeps:
  assumes "reg_ok m" "mg_heap m x = None"
  shows "wp (CreatePullStream x uid name audio video dtls mode m) (\<lambda>(_, m'). reg_ok m' \<and>
    (\<forall>p. stray m p \<longrightarrow> stray m' p) \<and>
    (\<not> overwrites m (MeCreatePull x uid name audio video dtls mode) \<longrightarrow> all_registered m \<longrightarrow> all_registered m') \<and>
    (overwrites m (MeCreatePull x uid name audio video dtls mode) \<longrightarrow> stray m' (the (FindPullStream name m))))"
proof (cases "FindPushStream name m")
  case None
  then show ?thesis using assms(1) by (simp add: CreatePullStream_def)
next
  case (Some q)
  let ?ow = "overwrites m (MeCreatePull x uid name audio video dtls mode)"
  let ?key = "if mode = ''transparent'' then KPull name else KMulti name uid"
  let ?remove = "if mode = ''transparent'' then RemovePullStream uid name m else RemovePullStreamM uid name m"
  have gone: "wp ?remove (\<lambda>m1. \<not> ?ow \<longrightarrow> lookup m1 ?key = None)"
  proof (cases "mode = ''transparent''")
    case True
    then show ?thesis using RemovePullStream_gone[OF assms(1), of name uid] RemovePullStream_keeps[OF assms(1), of uid name] Some
      by (cases ?ow) (auto elim!: wp_mono)
  next
    case False
    then show ?thesis using RemovePullStreamM_gone[OF assms(1), of uid name] by (auto elim!: wp_mono)
  qed
  have rem: "wp ?remove (removed ?key m)"
    using RemovePullStream_wp[OF assms(1), of uid name] RemovePullStreamM_wp[OF assms(1), of uid name] by simp
  have live_gone: "wp ?remove (\<lambda>m1. mode \<noteq> ''transparent'' \<longrightarrow> lookup m1 ?key = None)"
    using RemovePullStreamM_gone[OF assms(1), of uid name] RemovePullStream_keeps[OF assms(1), of uid name]
    by (auto elim!: wp_mono)
  have over: "wp ?remove (\<lambda>m1. ?ow \<longrightarrow> lookup m1 ?key = FindPullStream name m)"
  proof (cases ?ow)
    case True
    then have "?remove = Inr m" by (auto simp: RemovePullStream_def stream_at_def)
    then show ?thesis using True by simp
  next
    case False
    then show ?thesis by (intro wp_mono[OF rem]) blast
  qed
  have "wp ?remove (\<lambda>m1. removed ?key m m1 \<and> (\<not> ?ow \<longrightarrow> lookup m1 ?key = None) \<and>
      (mode \<noteq> ''transparent'' \<longrightarrow> lookup m1 ?key = None) \<and> (?ow \<longrightarrow> lookup m1 ?key = FindPullStream name m))"
    using gone rem live_gone over by (simp add: wp_conj)
  from wpD[OF this] obtain m1 where m1: "?remove = Inr m1" "removed ?key m m1" "\<not> ?ow \<longrightarrow> lookup m1 ?key = None"
    "mode \<noteq> ''transparent'' \<longrightarrow> lookup m1 ?key = None" "?ow \<longrightarrow> lookup m1 ?key = FindPullStream name m"
    by blast
  have ok1: "reg_ok m1" "mg_heap m1 x = None"
    using removed_ok[OF assms(1) m1(2)] removed_heap[OF m1(2) assms(2)] by auto
  have "lookup m1 (KPush name) = Some q"
    using removed_other[OF assms(1) m1(2), of "KPush name"] Some by simp
  then obtain push where push: "mg_heap m1 q = Some push" using reg_okD[OF ok1(1)] by blast
  define stream :: "'a rtc_stream" where "stream = Start dtls ((set_mode mode (RtcStream kPull uid name audio video))
      \<lparr>rs_audio_source := GetSource ''audio'' push, rs_video_source := GetSource ''video'' push\<rparr>)"
  let ?m2 = "mg_emit (MoOffer x (PullOffer stream)) (put_stream x stream m1)"
  have stream: "key_of stream = ?key" "rs_transparent stream \<longleftrightarrow> mode = ''transparent''" "rs_name stream = name" "rs_uid stream = uid"
    by (simp_all add: stream_def key_of_def Start_def set_mode_def RtcStream_def)
  have run: "CreatePullStream x uid name audio video dtls mode m =
      (if rs_transparent stream then Inr (0, ?m2\<lparr>mg_pull := (mg_pull ?m2)(name \<mapsto> x)\<rparr>)
       else and_then (AddPullStreamM x ?m2) (\<lambda>m3. Inr (0, m3)))"
    unfolding CreatePullStream_def Some option.case m1(1) and_then.simps stream_at_live[OF push] stream_def[symmetric] Let_def
    by (rule refl)
  obtain m3 where m3: "CreatePullStream x uid name audio video dtls mode m = Inr (0, m3)" "added ?key x m1 m3"
  proof (cases "mode = ''transparent''")
    case True
    let ?m3 = "?m2\<lparr>mg_pull := (mg_pull ?m2)(name \<mapsto> x)\<rparr>"
    have "CreatePullStream x uid name audio video dtls mode m = Inr (0, ?m3)"
      unfolding run using stream(2) True by simp
    moreover have "added ?key x m1 ?m3"
      using True stream(1) ok1(1) by (auto simp: added_def reg_ok_def)
    ultimately show ?thesis using that by blast
  next
    case False
    let ?umap = "case mg_multi m1 name of None \<Rightarrow> [] | Some umap \<Rightarrow> umap"
    let ?m3 = "?m2\<lparr>mg_multi := (mg_multi ?m2)(name \<mapsto> (uid, x) # ?umap)\<rparr>"
    have multi: "mg_multi ?m2 = mg_multi m1" by (simp add: mg_emit_def put_stream_def)
    have none: "map_of ?umap uid = None"
      using m1(4) False by (auto simp: FindPullStreamM_def split: option.splits)
    have "CreatePullStream x uid name audio video dtls mode m = Inr (0, ?m3)"
      unfolding run using False stream(2-4) none multi
      by (simp add: AddPullStreamM_def Let_def stream_at_live)
    moreover have "lookup ?m3 = (lookup ?m2)(KMulti name uid \<mapsto> x)"
      by (rule lookup_multi_add) (simp add: multi)
    moreover have "umaps_ok ?m3"
      using reg_ok_umaps[OF ok1(1)] none
      by (auto simp: umaps_ok_def multi map_of_eq_None_iff split: option.splits)
    ultimately show ?thesis using that False stream(1) by (auto simp: added_def)
  qed
  have "stray m p \<Longrightarrow> stray m1 p" for p by (rule removed_stray[OF m1(2)])
  moreover have "all_registered m \<Longrightarrow> all_registered m1" by (rule removed_all[OF assms(1) m1(2)])
  moreover have "?ow \<Longrightarrow> stray m3 (the (FindPullStream name m))"
    using added_stray[OF ok1(1) m3(2) ok1(2)] m1(5) by auto
  ultimately show ?thesis
    using m3(1) added_ok[OF ok1(1) m3(2) ok1(2)] added_all[OF m3(2) ok1(2)] m1(3) by auto
qed

lemma SetAnswer_keeps:
  assumes "reg_ok m"
  shows "wp (SetAnswer P uid name answer type mode m) (\<lambda>(_, m'). keeps_reg m m')"
proof -
  have "wp (case s of None \<Rightarrow> Inr (-1 :: int, m)
      | Some p \<Rightarrow> and_then (stream_at p m) (\<lambda>r.
          if uid \<noteq> rs_uid r then Inr (-1, m) else Inr (0, put_stream p (SetRemoteSdp P answer r) m)))
      (\<lambda>(_, m'). keeps_reg m m')" if s: "s = lookup m k" for s and k
  proof (cases s)
    case (Some p)
    then obtain r where r: "mg_heap m p = Some r" using reg_okD[OF assms] s by metis
    have "keeps_reg m (put_stream p (SetRemoteSdp P answer r) m)"
      by (rule put_keeps[OF assms r]) (simp add: SetRemoteSdp_def split: option.split)
    then show ?thesis using Some r keeps_reg_refl[OF assms] by (simp add: stream_at_live)
  qed (use keeps_reg_refl[OF assms] in simp)
  from this[of "FindPushStream name m" "KPush name"] this[of "FindPullStream name m" "KPull name"]
    this[of "FindPullStreamM uid name m" "KMulti name uid"]
  show ?thesis using keeps_reg_refl[OF assms] by (simp add: SetAnswer_def Let_def)
qed

subsection \<open>Forwarding\<close>

definition quiet_step :: "'s stream_manager \<Rightarrow> 's stream_manager \<Rightarrow> bool" where
  "quiet_step m m' \<longleftrightarrow> keeps_reg m m' \<and> dom (mg_heap m') = dom (mg_heap m)"

lemma quiet_emit: "reg_ok m \<Longrightarrow> quiet_step m (mg_emit e m)"
  by (simp add: quiet_step_def emit_keeps)

lemma quiet_refl: "reg_ok m \<Longrightarrow> quiet_step m m"
  by (simp add: quiet_step_def keeps_reg_refl)

lemma quiet_trans: "quiet_step m m1 \<Longrightarrow> quiet_step m1 m2 \<Longrightarrow> quiet_step m m2"
  using keeps_reg_trans by (auto simp: quiet_step_def)

lemma quiet_each:
  assumes "reg_ok m" "\<And>x m'. x \<in> set xs \<Longrightarrow> quiet_step m m' \<Longrightarrow> wp (f x m') (quiet_step m')"
  shows "wp (each f xs m) (quiet_step m)"
proof (rule wp_each[where Q = "quiet_step m"])
  fix x b assume x: "x \<in> set xs" "quiet_step m b"
  show "wp (f x b) (quiet_step m)" by (rule wp_mono[OF assms(2)[OF x]]) (rule quiet_trans[OF x(2)])
qed (use quiet_refl[OF assms(1)] in simp)

lemma PullSendPacket_quiet:
  "reg_ok m \<Longrightarrow> p \<in> dom (mg_heap m) \<Longrightarrow> wp (PullSendPacket P media packet re p m) (quiet_step m)"
  by (auto simp: PullSendPacket_def quiet_refl quiet_emit)

lemma umap_live:
  assumes "reg_ok m" "mg_multi m name = Some umap" "(u, q) \<in> set umap"
  shows "\<exists>r. mg_heap m q = Some r \<and> key_of r = KMulti name u"
proof -
  have "distinct (map fst umap)" using reg_ok_umaps[OF assms(1)] assms(2) by (auto simp: umaps_ok_def)
  then have "lookup m (KMulti name u) = Some q" using assms(2,3) by (simp add: FindPullStreamM_def)
  then show ?thesis by (rule reg_okD[OF assms(1)])
qed

lemma quiet_umap:
  assumes "reg_ok m" "mg_multi m name = Some umap"
    "\<And>q m'. reg_ok m' \<Longrightarrow> q \<in> dom (mg_heap m') \<Longrightarrow> wp (f q m') (quiet_step m')"
  shows "wp (each (\<lambda>(_, q). f q) umap m) (quiet_step m)"
proof (rule quiet_each[OF assms(1)])
  fix x m' assume x: "x \<in> set umap" "quiet_step m m'"
  obtain u q where "x = (u, q)" by fastforce
  moreover have "q \<in> dom (mg_heap m')" using umap_live[OF assms(1,2)] x calculation by (fastforce simp: quiet_step_def)
  ultimately show "wp ((\<lambda>(_, q). f q) x m') (quiet_step m')"
    using assms(3)[of m' q] x(2) by (simp add: quiet_step_def keeps_reg_def)
qed

lemma MgrOnRtpPacket_quiet:
  assumes "reg_ok m" "p \<in> dom (mg_heap m)"
  shows "wp (MgrOnRtpPacket P p media packet m) (quiet_step m)"
proof -
  obtain r where r: "mg_heap m p = Some r" using assms(2) by blast
  have "mg_multi m (rs_name r) = Some umap \<Longrightarrow>
      wp (each (\<lambda>(_, q). PullSendPacket P media packet False q) umap m) (quiet_step m)" for umap
    using quiet_umap[OF assms(1), of _ _ "PullSendPacket P media packet False"] PullSendPacket_quiet by blast
  then show ?thesis
    using quiet_refl[OF assms(1)] by (simp add: MgrOnRtpPacket_def stream_at_live[OF r] split: option.split)
qed

lemma PushEvent_quiet:
  assumes "reg_ok m" "p \<in> dom (mg_heap m)"
  shows "wp (PushEvent L P p e m) (quiet_step m)"
proof -
  obtain r where r: "mg_heap m p = Some r" using assms(2) by blast
  let ?m = "put_stream p (r\<lparr>rs_push := push_step L (rs_push r) e\<rparr>) m"
  have q: "quiet_step m ?m"
    using put_keeps[OF assms(1) r, of "r\<lparr>rs_push := push_step L (rs_push r) e\<rparr>"] assms(2) by (auto simp: quiet_step_def)
  have "wp (each (\<lambda>pkt. MgrOnRtpPacket P p (pk_media pkt) pkt) (released (rs_push r) (push_step L (rs_push r) e)) ?m) (quiet_step ?m)"
  proof (rule quiet_each)
    fix x m' assume "quiet_step ?m m'"
    then show "wp (MgrOnRtpPacket P p (pk_media x) x m') (quiet_step m')"
      by (intro MgrOnRtpPacket_quiet) (auto simp: quiet_step_def keeps_reg_def)
  qed (use q in \<open>simp add: quiet_step_def keeps_reg_def\<close>)
  then have "wp (each (\<lambda>pkt. MgrOnRtpPacket P p (pk_media pkt) pkt) (released (rs_push r) (push_step L (rs_push r) e)) ?m) (quiet_step m)"
    by (rule wp_mono) (rule quiet_trans[OF q])
  then show ?thesis using r by (simp add: PushEvent_def Let_def)
qed

lemma OnSrInfo_quiet:
  assumes "reg_ok m" "p \<in> dom (mg_heap m)"
  shows "wp (OnSrInfo p media ts ntp m) (quiet_step m)"
proof -
  have "wp (each (\<lambda>(_, q) m. and_then (stream_at q m) (\<lambda>_. Inr (mg_emit (MoSrInfo q media ts ntp) m))) umap m) (quiet_step m)"
    if "mg_multi m name = Some umap" for name umap
    using quiet_umap[OF assms(1) that, of "\<lambda>q m. and_then (stream_at q m) (\<lambda>_. Inr (mg_emit (MoSrInfo q media ts ntp) m))"]
      quiet_emit by (auto simp: split_def)
  then show ?thesis using assms quiet_refl[OF assms(1)] by (auto simp: OnSrInfo_def split: option.split)
qed

lemma transparent_quiet:
  assumes "reg_ok m" "p \<in> dom (mg_heap m)"
  shows "wp (OnRtpPacketReceived p data m) (quiet_step m)" "wp (OnRtcpPacketReceived p data m) (quiet_step m)"
proof -
  have live: "q \<in> dom (mg_heap m)" if "lookup m k = Some q" for k q
    using reg_okD[OF assms(1) that] by blast
  show "wp (OnRtpPacketReceived p data m) (quiet_step m)" "wp (OnRtcpPacketReceived p data m) (quiet_step m)"
    using assms quiet_refl[OF assms(1)] quiet_emit[OF assms(1)] live[of "KPush _"] live[of "KPull _"]
    by (auto simp: OnRtpPacketReceived_def OnRtcpPacketReceived_def split: option.split stream_type.split) blast+
qed

lemma OnNackReceived_quiet:
  assumes "reg_ok m" "p \<in> dom (mg_heap m)"
  shows "wp (OnNackReceived P p media nacks m) (quiet_step m)"
proof -
  have send: "wp (case FindVideoPacket s k of None \<Rightarrow> Inr m'
      | Some packet \<Rightarrow> PullSendPacket P media packet True p m') (quiet_step m')" if "quiet_step m m'" for s k m'
  proof -
    have "reg_ok m'" "p \<in> dom (mg_heap m')" using that assms(2) by (auto simp: quiet_step_def keeps_reg_def)
    then show ?thesis using PullSendPacket_quiet[of m' p P] quiet_refl[of m'] by (simp split: option.split)
  qed
  have "wp (each (\<lambda>k m. case FindVideoPacket s k of None \<Rightarrow> Inr m
      | Some packet \<Rightarrow> PullSendPacket P media packet True p m) nacks m) (quiet_step m)" for s
    by (rule quiet_each[OF assms(1)]) (rule send)
  moreover have "q \<in> dom (mg_heap m)" if "lookup m k = Some q" for k q
    using reg_okD[OF assms(1) that] by blast
  then have "FindPushStream name m = Some q \<Longrightarrow> \<exists>r. mg_heap m q = Some r" for name q by (metis domD lookup.simps(1))
  moreover obtain r where "mg_heap m p = Some r" using assms(2) by blast
  ultimately show ?thesis
    using quiet_refl[OF assms(1)] by (auto simp: OnNackReceived_def stream_at_live split: option.split)
qed

subsection \<open>Reachable managers\<close>

lemma mgr_step_wp:
  assumes "reg_ok m" "mgr_admitted m e"
  shows "wp (mgr_step L P e m) (\<lambda>m'. reg_ok m' \<and> (\<forall>p. stray m p \<longrightarrow> stray m' p) \<and>
    (\<not> overwrites m e \<longrightarrow> all_registered m \<longrightarrow> all_registered m') \<and>
    (\<forall>x uid name audio video dtls mode. overwrites m e \<longrightarrow> e = MeCreatePull x uid name audio video dtls mode \<longrightarrow>
      stray m' (the (FindPullStream name m))))"
    (is "wp _ ?Q")
proof -
  have k: "wp r (keeps_reg m) \<Longrightarrow> \<not> overwrites m e \<Longrightarrow> wp r ?Q" for r :: "('a, 'a stream_manager) mresult"
    by (erule wp_mono) (simp add: keeps_reg_def)
  have q: "wp r (quiet_step m) \<Longrightarrow> \<not> overwrites m e \<Longrightarrow> wp r ?Q" for r :: "('a, 'a stream_manager) mresult"
    by (rule k) (erule wp_mono, simp add: quiet_step_def)
  have s: "wp r (\<lambda>(_, m'). keeps_reg m m') \<Longrightarrow> \<not> overwrites m e \<Longrightarrow> wp (and_then r (\<lambda>(_, m1). Inr m1)) ?Q"
    for r :: "('a, int \<times> 'a stream_manager) mresult"
    by (rule k) (auto elim!: wp_mono simp: split_def)
  show ?thesis
  proof (cases e)
    case (MeCreatePush x uid name audio video dtls pli mode)
    then show ?thesis using s[OF CreatePushStream_keeps[OF assms(1)]] assms(2) by simp
  next
    case (MeCreatePull x uid name audio video dtls mode)
    then have "mg_heap m x = None" using assms(2) by simp
    from CreatePullStream_keeps[OF assms(1) this, of uid name audio video dtls mode] show ?thesis
      unfolding MeCreatePull mgr_step.simps wp_and_then by (rule wp_mono) auto
  next
    case (MeSetAnswer uid name answer type mode)
    then show ?thesis using s[OF SetAnswer_keeps[OF assms(1)]] by simp
  next
    case (MeStopPush uid name)
    then show ?thesis using k[OF RemovePushStream_keeps[OF assms(1), of uid name]] by (simp add: StopPush_def)
  next
    case (MeStopPull uid name mode)
    have "wp (if mode = ''transparent'' then RemovePullStream uid name m else RemovePullStreamM uid name m) (keeps_reg m)"
      using remove_keeps[OF assms(1)] by simp
    from k[OF this] show ?thesis using MeStopPull by (simp add: StopPull_def)
  next
    case (MeConnection p state)
    then show ?thesis using k[OF StreamConnectionState_keeps[OF assms(1)]] assms(2) by simp
  next
    case (MeTimeout p)
    then obtain r where r: "mg_heap m p = Some r" using assms(2) by (auto split: option.splits)
    then have "wp (IceTimeoutCb p m) (keeps_reg m)"
      using OnStreamException_keeps[OF assms(1), of p] keeps_reg_refl[OF assms(1)] by (simp add: IceTimeoutCb_def stream_at_live dom_def)
    from k[OF this] show ?thesis using MeTimeout by simp
  next
    case (MePush p ev)
    then have "p \<in> dom (mg_heap m)" using assms(2) by (auto split: option.splits)
    from q[OF PushEvent_quiet[OF assms(1) this]] show ?thesis using MePush by simp
  next
    case (MeNack p media nacks)
    then have "p \<in> dom (mg_heap m)" using assms(2) by (auto split: option.splits)
    from q[OF OnNackReceived_quiet[OF assms(1) this]] show ?thesis using MeNack by simp
  next
    case (MeRtp p data)
    then show ?thesis using q[OF transparent_quiet(1)[OF assms(1)]] assms(2) by simp
  next
    case (MeRtcp p data)
    then show ?thesis using q[OF transparent_quiet(2)[OF assms(1)]] assms(2) by simp
  next
    case (MeSr p media ts ntp)
    then show ?thesis using q[OF OnSrInfo_quiet[OF assms(1)]] assms(2) by simp
  qed
qed

lemma lookup_init: "lookup RtcStreamManager k = None"
  by (cases k) (simp_all add: RtcStreamManager_def FindPushStream_def FindPullStream_def FindPullStreamM_def)

lemma mgr_reachable_ok: "mgr_reachable L P m \<Longrightarrow> reg_ok m"
proof (induction rule: mgr_reachable.induct)
  case mgr_init
  show ?case by (simp add: reg_ok_def umaps_ok_def lookup_init) (simp add: RtcStreamManager_def)
next
  case (mgr_next m e m')
  then show ?case using mgr_step_wp[OF mgr_next.IH mgr_next.hyps(2), of L P] by simp
qed

text \<open>
  C8: whatever clients, peer connections and timers do, no deleted stream is touched, and every
  name in the three maps leads to a live stream of that kind, name and user.
\<close>

theorem manager_safe:
  assumes "mgr_reachable L P m" "mgr_admitted m e"
  shows "\<exists>m'. mgr_step L P e m = Inr m' \<and>
    (\<forall>k p. lookup m' k = Some p \<longrightarrow> (\<exists>r. mg_heap m' p = Some r \<and> key_of r = k))"
  using wpD[OF mgr_step_wp[OF mgr_reachable_ok[OF assms(1)] assms(2), of L P]] by (auto simp: reg_ok_def)

text \<open>
  As long as no transparent pull request meets a subscriber of another user under its name,
  every live stream stays registered, so that a stop request, a failure or the ICE timeout finds
  it.
\<close>

theorem streams_stay_registered:
  assumes "mgr_reachable L P m" "mgr_admitted m e" "mgr_step L P e m = Inr m'"
    and "\<not> overwrites m e" "all_registered m"
  shows "all_registered m'"
  using mgr_step_wp[OF mgr_reachable_ok[OF assms(1)] assms(2), of L P] assms(3-5) by simp

text \<open>
  A transparent pull request that meets a subscriber of another user takes over its name and
  leaves the old stream behind: live, in no map, and so for ever after, whatever happens.
\<close>

theorem overwritten_subscriber_leaks:
  assumes "mgr_reachable L P m" "overwrites m (MeCreatePull x uid name audio video dtls mode)" "mg_heap m x = None"
    and "mgr_step L P (MeCreatePull x uid name audio video dtls mode) m = Inr m1"
    and "p = the (FindPullStream name m)"
  shows "stray m1 p \<and> (\<forall>e m2 m3. mgr_reachable L P m2 \<longrightarrow> stray m2 p \<longrightarrow> mgr_admitted m2 e \<longrightarrow>
    mgr_step L P e m2 = Inr m3 \<longrightarrow> stray m3 p)"
proof -
  have "stray m1 p"
    using mgr_step_wp[OF mgr_reachable_ok[OF assms(1)], of "MeCreatePull x uid name audio video dtls mode" L P] assms(2-5)
    by (auto simp del: mgr_step.simps overwrites.simps)
  moreover have "stray m3 p" if "mgr_reachable L P m2" "stray m2 p" "mgr_admitted m2 e" "mgr_step L P e m2 = Inr m3" for e m2 m3
    using mgr_step_wp[OF mgr_reachable_ok[OF that(1)] that(3), of L P] that(2,4) by simp
  ultimately show ?thesis by blast
qed

end
