(* ===== verification/StreamFanout.thy ===== *)
theory StreamFanout
  imports StreamRegistry
begin

text \<open>
  What the stream manager sends: a packet released by a live publisher goes exactly once to each
  live-mode subscriber of its name and to nobody else; a retransmission request is answered from
  the publisher's cache, to the requester only. At the end the instances that show the
  hypotheses of the registry's properties can hold.
\<close>

subsection \<open>One packet\<close>

definition copies :: "('s, 'b) pc_lib_scheme \<Rightarrow> nat list \<Rightarrow> rtc_packet \<Rightarrow> mgr_out list" where
  "copies P qs pkt = (if rtp_parses P (pk_buf pkt) then map (\<lambda>q. MoPacket q (pk_media pkt) pkt False) qs else [])"

definition subscribers :: "'s stream_manager \<Rightarrow> string \<Rightarrow> nat list" where
  "subscribers m name = map snd (case mg_multi m name of None \<Rightarrow> [] | Some umap \<Rightarrow> umap)"

lemma key_of_KMulti:
  "key_of r = KMulti name u \<longleftrightarrow> rs_type r = kPull \<and> \<not> rs_transparent r \<and> rs_name r = name \<and> rs_uid r = u"
  by (cases "rs_type r") (simp_all add: key_of_def)

lemma subscribers_live:
  assumes "reg_ok m" "q \<in> set (subscribers m name)"
  shows "\<exists>r. mg_heap m q = Some r \<and> rs_type r = kPull \<and> \<not> rs_transparent r \<and> rs_name r = name"
proof -
  obtain umap u where "mg_multi m name = Some umap" "(u, q) \<in> set umap"
    using assms(2) by (cases "mg_multi m name") (auto simp: subscribers_def)
  from umap_live[OF assms(1) this] show ?thesis by (auto simp: key_of_KMulti)
qed

lemma subscribers_distinct:
  assumes "reg_ok m"
  shows "distinct (subscribers m name)"
proof (cases "mg_multi m name")
  case (Some umap)
  have "distinct (map fst umap)" using reg_ok_umaps[OF assms] Some by (auto simp: umaps_ok_def)
  moreover have "u = v" if "(u, q) \<in> set umap" "(v, q) \<in> set umap" for u v q
    using umap_live[OF assms Some that(1)] umap_live[OF assms Some that(2)] by auto
  then have "inj_on snd (set umap)" by (auto simp: inj_on_def)
  ultimately have "distinct (map snd umap)" by (simp add: distinct_map)
  then show ?thesis using Some by (simp add: subscribers_def)
qed (simp add: subscribers_def)

lemma subscribers_complete:
  assumes "all_registered m" "mg_heap m q = Some r" "key_of r = KMulti name u"
  shows "q \<in> set (subscribers m name)"
proof -
  have "lookup m (KMulti name u) = Some q" using assms by (fastforce simp: all_registered_def registered_def dom_def)
  then show ?thesis
    by (force simp: FindPullStreamM_def subscribers_def split: option.splits dest: map_of_SomeD)
qed

lemma send_all:
  assumes "\<And>u q. (u, q) \<in> set umap \<Longrightarrow> q \<in> dom (mg_heap m)"
  shows "each (\<lambda>(_, q). PullSendPacket P (pk_media pkt) pkt False q) umap m
    = Inr (m\<lparr>mg_out := mg_out m @ copies P (map snd umap) pkt\<rparr>)"
  using assms
proof (induction umap arbitrary: m)
  case (Cons x umap)
  obtain u q where x: "x = (u, q)" by fastforce
  obtain r where "mg_heap m q = Some r" using Cons.prems[of u q] x by auto
  moreover have "v' \<in> dom (mg_heap (mg_emit e m))" if "(v, v') \<in> set umap" for v v' e
    using Cons.prems[of v v'] that by simp
  ultimately show ?case
    using Cons.IH[of m] Cons.IH[of "mg_emit (MoPacket q (pk_media pkt) pkt False) m"] Cons.prems x
    by (auto simp: PullSendPacket_def stream_at_live copies_def mg_emit_def)
qed (simp add: copies_def)

lemma OnRtpPacket_fan_out:
  assumes "reg_ok m" "mg_heap m p = Some r" "rs_type r = kPush"
  shows "MgrOnRtpPacket P p (pk_media pkt) pkt m = Inr (m\<lparr>mg_out := mg_out m @ copies P (subscribers m (rs_name r)) pkt\<rparr>)"
proof (cases "mg_multi m (rs_name r)")
  case (Some umap)
  have "q \<in> dom (mg_heap m)" if "(u, q) \<in> set umap" for u q
    using umap_live[OF assms(1) Some that] by blast
  then show ?thesis using assms(2,3) Some send_all[of umap m P pkt]
    by (simp add: MgrOnRtpPacket_def stream_at_live subscribers_def)
qed (simp add: MgrOnRtpPacket_def assms(2,3) stream_at_live subscribers_def copies_def)

subsection \<open>One event of a publisher\<close>

lemma reg_ok_out [simp]: "reg_ok (m\<lparr>mg_out := out\<rparr>) = reg_ok m"
  by (simp add: reg_ok_def umaps_ok_def)

lemma release_all:
  assumes "reg_ok m" "mg_heap m p = Some r" "rs_type r = kPush"
  shows "each (\<lambda>pkt. MgrOnRtpPacket P p (pk_media pkt) pkt) pkts m
    = Inr (m\<lparr>mg_out := mg_out m @ concat (map (copies P (subscribers m (rs_name r))) pkts)\<rparr>)"
  using assms
proof (induction pkts arbitrary: m)
  case (Cons pkt pkts)
  let ?m = "m\<lparr>mg_out := mg_out m @ copies P (subscribers m (rs_name r)) pkt\<rparr>"
  have "subscribers ?m (rs_name r) = subscribers m (rs_name r)" by (simp add: subscribers_def)
  then show ?case
    using OnRtpPacket_fan_out[OF Cons.prems, of P pkt] Cons.IH[of ?m] Cons.prems by simp
qed simp

text \<open>
  C4: an event of a live publisher (a packet, or a complete frame) sends the packets its stream
  releases, in that order, and each exactly once to each live-mode subscriber of the publisher's
  name; a packet the RTP parser refuses is sent to none.
\<close>

theorem live_fan_out:
  assumes "mgr_reachable L P m" "all_registered m" "mg_heap m p = Some r" "rs_type r = kPush"
  shows "\<exists>qs m'. PushEvent L P p e m = Inr m' \<and> distinct qs \<and>
    set qs = {q. \<exists>r'. mg_heap m q = Some r' \<and> rs_type r' = kPull \<and> \<not> rs_transparent r' \<and> rs_name r' = rs_name r} \<and>
    mg_out m' = mg_out m @ concat (map (\<lambda>pkt. if rtp_parses P (pk_buf pkt)
        then map (\<lambda>q. MoPacket q (pk_media pkt) pkt False) qs else [])
      (released (rs_push r) (push_step L (rs_push r) e)))"
proof -
  have ok: "reg_ok m" using mgr_reachable_ok assms(1) by blast
  let ?r = "r\<lparr>rs_push := push_step L (rs_push r) e\<rparr>"
  let ?m = "put_stream p ?r m" and ?qs = "subscribers m (rs_name r)"
  have "reg_ok ?m" using put_keeps[OF ok assms(3), of ?r] by (simp add: keeps_reg_def)
  moreover have "subscribers ?m (rs_name r) = ?qs" "mg_out ?m = mg_out m" by (simp_all add: subscribers_def put_stream_def)
  ultimately have "PushEvent L P p e m
      = Inr (?m\<lparr>mg_out := mg_out m @ concat (map (copies P ?qs) (released (rs_push r) (push_step L (rs_push r) e)))\<rparr>)"
    using release_all[of ?m p ?r P] assms(3,4) by (simp add: PushEvent_def stream_at_live Let_def)
  moreover have "set ?qs = {q. \<exists>r'. mg_heap m q = Some r' \<and> rs_type r' = kPull \<and> \<not> rs_transparent r' \<and> rs_name r' = rs_name r}"
  proof (intro set_eqI iffI)
    fix q assume "q \<in> {q. \<exists>r'. mg_heap m q = Some r' \<and> rs_type r' = kPull \<and> \<not> rs_transparent r' \<and> rs_name r' = rs_name r}"
    then obtain r' where "mg_heap m q = Some r'" "key_of r' = KMulti (rs_name r) (rs_uid r')" by (auto simp: key_of_def)
    then show "q \<in> set ?qs" by (rule subscribers_complete[OF assms(2)])
  qed (use subscribers_live[OF ok] in blast)
  ultimately show ?thesis
    using subscribers_distinct[OF ok, of "rs_name r"] unfolding copies_def
    by (intro exI[of _ ?qs] exI conjI) (assumption | simp)+
qed

subsection \<open>Retransmission\<close>

lemma nack_loop:
  assumes "mg_heap m p = Some r"
  shows "each (\<lambda>k m. case FindVideoPacket s k of None \<Rightarrow> Inr m
      | Some packet \<Rightarrow> PullSendPacket P media packet True p m) nacks m
    = Inr (m\<lparr>mg_out := mg_out m @ map (\<lambda>pkt. MoPacket p media pkt True)
        (filter (\<lambda>pkt. rtp_parses P (pk_buf pkt)) (List.map_filter (FindVideoPacket s) nacks))\<rparr>)"
  using assms
proof (induction nacks arbitrary: m)
  case (Cons k nacks)
  show ?case
  proof (cases "FindVideoPacket s k")
    case (Some pkt)
    then show ?thesis
      using Cons.IH[of m] Cons.IH[of "mg_emit (MoPacket p media pkt True) m"] Cons.prems
      by (auto simp: PullSendPacket_def stream_at_live map_filter_simps mg_emit_def)
  qed (use Cons in \<open>simp add: map_filter_simps\<close>)
qed (simp add: map_filter_simps)

text \<open>
  A retransmission request of a subscriber is answered by the packets the publisher of its
  name still has in its cache, in the order of the request, each with the number asked for; they
  go to the requester and to nobody else. Without a publisher nothing is sent.
\<close>

theorem nack_answered_from_cache:
  assumes "mgr_reachable L P m" "mg_heap m p = Some r" "rs_type r = kPull"
  shows "\<exists>pkts. OnNackReceived P p media nacks m = Inr (m\<lparr>mg_out := mg_out m @ map (\<lambda>pkt. MoPacket p media pkt True) pkts\<rparr>) \<and>
    (\<forall>pkt\<in>set pkts. pk_seq pkt \<in> set nacks) \<and>
    (\<forall>pkt. pkt \<in> set pkts \<longleftrightarrow> (\<exists>q push. FindPushStream (rs_name r) m = Some q \<and> mg_heap m q = Some push \<and>
      rs_type push = kPush \<and> FindVideoPacket (rs_push push) (pk_seq pkt) = Some pkt \<and> pk_seq pkt \<in> set nacks \<and>
      rtp_parses P (pk_buf pkt)))"
proof (cases "FindPushStream (rs_name r) m")
  case None
  then show ?thesis using assms(2,3) by (intro exI[of _ "[]"]) (simp add: OnNackReceived_def stream_at_live)
next
  case (Some q)
  have ok: "reg_ok m" using mgr_reachable_ok assms(1) by blast
  obtain push where push: "mg_heap m q = Some push" "key_of push = KPush (rs_name r)"
    using reg_okD[OF ok, of "KPush (rs_name r)" q] Some by auto
  then have "rs_type push = kPush" by (auto simp: key_of_def split: stream_type.splits if_splits)
  let ?pkts = "filter (\<lambda>pkt. rtp_parses P (pk_buf pkt)) (List.map_filter (FindVideoPacket (rs_push push)) nacks)"
  have "OnNackReceived P p media nacks m = Inr (m\<lparr>mg_out := mg_out m @ map (\<lambda>pkt. MoPacket p media pkt True) ?pkts\<rparr>)"
    using nack_loop[OF assms(2), where s = "rs_push push"] assms(2,3) Some push(1)
    by (simp add: OnNackReceived_def stream_at_live)
  moreover have "pkt \<in> set ?pkts \<longleftrightarrow> FindVideoPacket (rs_push push) (pk_seq pkt) = Some pkt \<and> pk_seq pkt \<in> set nacks \<and>
      rtp_parses P (pk_buf pkt)" for pkt
  proof -
    have "pkt \<in> set (List.map_filter (FindVideoPacket (rs_push push)) nacks) \<longleftrightarrow> (\<exists>k\<in>set nacks. FindVideoPacket (rs_push push) k = Some pkt)"
      by (force simp: List.map_filter_def)
    also have "\<dots> \<longleftrightarrow> FindVideoPacket (rs_push push) (pk_seq pkt) = Some pkt \<and> pk_seq pkt \<in> set nacks"
      using Find_SomeD[of "rs_push push" _ pkt] by blast
    finally show ?thesis by auto
  qed
  ultimately show ?thesis
    using Some push(1) \<open>rs_type push = kPush\<close> by (intro exI[of _ ?pkts] conjI) simp_all
qed

subsection \<open>Instances\<close>

text \<open>
  One publisher with a live subscriber, and one with a transparent subscriber; the parser
  accepts every packet and no answer has a description.
\<close>

definition demo_pc :: "nat pc_lib" where
  "demo_pc = \<lparr>description_of = (\<lambda>_. None), rtp_parses = (\<lambda>_. True)\<rparr>"

fun mgr_run :: "seq_lib \<Rightarrow> ('s, 'b) pc_lib_scheme \<Rightarrow> mgr_event list \<Rightarrow> 's stream_manager \<Rightarrow> ('s, 's stream_manager) mresult" where
  "mgr_run L P [] m = Inr m"
| "mgr_run L P (e # es) m = and_then (mgr_step L P e m) (mgr_run L P es)"

fun all_admitted :: "seq_lib \<Rightarrow> ('s, 'b) pc_lib_scheme \<Rightarrow> mgr_event list \<Rightarrow> 's stream_manager \<Rightarrow> bool" where
  "all_admitted L P [] m \<longleftrightarrow> True"
| "all_admitted L P (e # es) m \<longleftrightarrow> mgr_admitted m e \<and> (case mgr_step L P e m of Inl _ \<Rightarrow> False | Inr m' \<Rightarrow> all_admitted L P es m')"

lemma mgr_run_reachable:
  "mgr_reachable L P m \<Longrightarrow> all_admitted L P es m \<Longrightarrow> mgr_run L P es m = Inr m' \<Longrightarrow> mgr_reachable L P m'"
  by (induction es arbitrary: m) (auto simp: and_then_Inr split: sum.splits intro: mgr_next)

definition demo_push :: "nat rtc_stream" where
  "demo_push = Start True ((set_mode ''live'' (RtcStream kPush 1 ''s'' True True))\<lparr>rs_pli := False\<rparr>)"

definition demo_pull :: "string \<Rightarrow> nat rtc_stream" where
  "demo_pull mode = Start True (set_mode mode (RtcStream kPull 2 ''s'' True True))"

definition demo_live :: "nat stream_manager" where
  "demo_live = \<lparr>mg_heap = [0 \<mapsto> demo_push, 1 \<mapsto> demo_pull ''live''], mg_push = [''s'' \<mapsto> 0], mg_pull = Map.empty,
     mg_multi = [''s'' \<mapsto> [(2, 1)]], mg_out = [MoOffer 0 (PushOffer demo_push), MoOffer 1 (PullOffer (demo_pull ''live''))]\<rparr>"

definition demo_transparent :: "nat stream_manager" where
  "demo_transparent = \<lparr>mg_heap = [0 \<mapsto> demo_push, 1 \<mapsto> demo_pull ''transparent''], mg_push = [''s'' \<mapsto> 0], mg_pull = [''s'' \<mapsto> 1],
     mg_multi = Map.empty, mg_out = [MoOffer 0 (PushOffer demo_push), MoOffer 1 (PullOffer (demo_pull ''transparent''))]\<rparr>"

lemmas manager_code = CreatePushStream_def CreatePullStream_def FindPushStream_def FindPullStream_def FindPullStreamM_def
  RemovePullStream_def RemovePullStreamM_def RemovePushStream_def AddPullStreamM_def RtcStreamManager_def Let_def
  stream_at_def put_stream_def mg_emit_def set_mode_def Start_def RtcStream_def GetSource_def delete_stream_def

lemma demo_reachable:
  "mgr_reachable L demo_pc demo_live" "mgr_reachable L demo_pc demo_transparent"
  by (rule mgr_run_reachable[OF mgr_init, where es =
      "[MeCreatePush 0 1 ''s'' True True True False ''live'', MeCreatePull 1 2 ''s'' True True True ''live'']"],
    simp_all add: manager_code demo_live_def demo_push_def demo_pull_def PushOffer_def PullOffer_def)
   (rule mgr_run_reachable[OF mgr_init, where es =
      "[MeCreatePush 0 1 ''s'' True True True False ''live'', MeCreatePull 1 2 ''s'' True True True ''transparent'']"],
    simp_all add: manager_code demo_transparent_def demo_push_def demo_pull_def PushOffer_def PullOffer_def)

lemma demo_registered: "all_registered demo_live" "all_registered demo_transparent"
  by (auto simp: all_registered_def registered_def key_of_def demo_live_def demo_transparent_def demo_push_def demo_pull_def
      manager_code)

text \<open>The first manager after its publisher has sent one video packet.\<close>

definition demo_sent :: "nat stream_manager" where
  "demo_sent = demo_live\<lparr>mg_heap := [0 \<mapsto> demo_push\<lparr>rs_push := push_step webrtc_seq PushStream (PsPacket (demo_rtp 5))\<rparr>,
     1 \<mapsto> demo_pull ''live''], mg_out := mg_out demo_live @ [MoPacket 1 VIDEO (demo_rtp 5) False]\<rparr>"

lemma demo_released: "released PushStream (push_step L PushStream (PsPacket (demo_rtp 5))) = [demo_rtp 5]"
  by (simp add: released_def PushStream_def PsOnRtpPacket_def ProcessVideoPacket_def CacheVideoPacket_def ps_emit_def
      demo_rtp_def Let_def)

lemma demo_cached: "FindVideoPacket (push_step L PushStream (PsPacket (demo_rtp 5))) 5 = Some (demo_rtp 5)"
  by (simp add: FindVideoPacket_def PushStream_def PsOnRtpPacket_def ProcessVideoPacket_def CacheVideoPacket_def ps_emit_def
      demo_rtp_def Let_def slot_def kVideoPacketCacheSize_def)

lemma demo_push_stream: "rs_push demo_push = PushStream" "rs_type demo_push = kPush" "rs_name demo_push = ''s''"
  by (simp_all add: demo_push_def manager_code)

lemma demo_sent_reachable: "mgr_reachable webrtc_seq demo_pc demo_sent"
proof (rule mgr_next[OF demo_reachable(1)])
  show "mgr_admitted demo_live (MePush 0 (PsPacket (demo_rtp 5)))"
    by (simp add: demo_live_def demo_push_stream)
  have h: "mg_heap demo_live = [0 \<mapsto> demo_push, 1 \<mapsto> demo_pull ''live'']" "mg_multi demo_live = [''s'' \<mapsto> [(2, 1)]]"
    by (simp_all add: demo_live_def)
  have "rtp_parses demo_pc b" "pk_media (demo_rtp 5) = VIDEO" for b by (simp_all add: demo_pc_def demo_rtp_def)
  then show "mgr_step webrtc_seq demo_pc (MePush 0 (PsPacket (demo_rtp 5))) demo_live = Inr demo_sent"
    by (simp add: PushEvent_def Let_def demo_released stream_at_live h MgrOnRtpPacket_def put_stream_def PullSendPacket_def mg_emit_def demo_push_stream
        demo_sent_def del: push_step.simps) (simp add: demo_live_def fun_upd_twist)
qed

theorem manager_safe_witness:
  "\<exists>m'. mgr_step webrtc_seq demo_pc (MeConnection 1 pc_kFailed) demo_live = Inr m'"
  using manager_safe[OF demo_reachable(1), of "MeConnection 1 pc_kFailed" webrtc_seq] by (auto simp: demo_live_def)

theorem streams_stay_registered_witness:
  "\<exists>m'. mgr_step webrtc_seq demo_pc (MeStopPull 2 ''s'' ''live'') demo_live = Inr m' \<and> all_registered m' \<and> mg_heap m' 1 = None"
proof -
  let ?e = "MeStopPull 2 ''s'' ''live''"
  obtain m' where m': "mgr_step webrtc_seq demo_pc ?e demo_live = Inr m'" "mg_heap m' 1 = None"
    by (simp add: StopPull_def demo_live_def manager_code)
  from streams_stay_registered[OF demo_reachable(1) _ m'(1) _ demo_registered(1)] show ?thesis using m' by simp
qed

theorem overwritten_subscriber_leaks_witness:
  "\<exists>m'. mgr_step webrtc_seq demo_pc (MeCreatePull 2 3 ''s'' True True True ''transparent'') demo_transparent = Inr m' \<and> stray m' 1"
proof -
  let ?e = "MeCreatePull 2 3 ''s'' True True True ''transparent''"
  have o: "overwrites demo_transparent ?e" "mg_heap demo_transparent 2 = None" "the (FindPullStream ''s'' demo_transparent) = 1"
    by (simp_all add: demo_transparent_def demo_pull_def manager_code)
  obtain m' where m': "mgr_step webrtc_seq demo_pc ?e demo_transparent = Inr m'"
    by (simp add: demo_transparent_def demo_pull_def manager_code)
  from overwritten_subscriber_leaks[OF demo_reachable(2) o(1,2) m' refl] show ?thesis using m' o(3) by auto
qed

theorem live_fan_out_witness:
  "\<exists>m'. PushEvent webrtc_seq demo_pc 0 (PsPacket (demo_rtp 5)) demo_live = Inr m' \<and>
     mg_out m' = mg_out demo_live @ [MoPacket 1 VIDEO (demo_rtp 5) False]"
proof -
  have h: "mg_heap demo_live 0 = Some demo_push" by (simp add: demo_live_def)
  have s: "{q. \<exists>r'. mg_heap demo_live q = Some r' \<and> rs_type r' = kPull \<and> \<not> rs_transparent r' \<and> rs_name r' = rs_name demo_push} = {1}"
    by (auto simp: demo_live_def demo_push_def demo_pull_def manager_code split: if_splits)
  obtain qs m' where q: "PushEvent webrtc_seq demo_pc 0 (PsPacket (demo_rtp 5)) demo_live = Inr m'" "distinct qs" "set qs = {1}"
    "mg_out m' = mg_out demo_live @ concat (map (\<lambda>pkt. if rtp_parses demo_pc (pk_buf pkt)
        then map (\<lambda>q. MoPacket q (pk_media pkt) pkt False) qs else [])
      (released (rs_push demo_push) (push_step webrtc_seq (rs_push demo_push) (PsPacket (demo_rtp 5)))))"
    using live_fan_out[OF demo_reachable(1) demo_registered(1) h demo_push_stream(2), of webrtc_seq "PsPacket (demo_rtp 5)"]
    unfolding s by blast
  have "qs = [1]" using q(2,3) by (cases qs; cases "tl qs") auto
  then show ?thesis using q(1,4) unfolding demo_push_stream demo_released
    by (intro exI[of _ m']) (simp add: demo_pc_def demo_rtp_def)
qed

theorem nack_answered_from_cache_witness:
  "\<exists>m' out. OnNackReceived demo_pc 1 VIDEO [5] demo_sent = Inr (demo_sent\<lparr>mg_out := mg_out demo_sent @ out\<rparr>) \<and>
     MoPacket 1 VIDEO (demo_rtp 5) True \<in> set out"
proof -
  have p: "mg_heap demo_sent 1 = Some (demo_pull ''live'')" "rs_type (demo_pull ''live'') = kPull" "rs_name (demo_pull ''live'') = ''s''"
    by (simp_all add: demo_sent_def demo_live_def demo_pull_def manager_code)
  have "FindPushStream ''s'' demo_sent = Some 0"
    "mg_heap demo_sent 0 = Some (demo_push\<lparr>rs_push := push_step webrtc_seq PushStream (PsPacket (demo_rtp 5))\<rparr>)"
    by (simp_all add: demo_sent_def demo_live_def FindPushStream_def)
  moreover have "pk_seq (demo_rtp 5) = 5" "rtp_parses demo_pc b" for b by (simp_all add: demo_rtp_def demo_pc_def)
  ultimately show ?thesis
    using nack_answered_from_cache[OF demo_sent_reachable p(1,2), of VIDEO "[5]"] demo_cached[of webrtc_seq]
    unfolding p(3) by (fastforce simp: demo_push_stream simp del: push_step.simps)
qed

end
