(* ===== verification/Signaling.thy ===== *)
theory Signaling
  imports Prelude "HOL-Library.Monad_Syntax"
begin

text \<open>
  \<open>signaling_worker.cpp\<close>, \<open>tcp_connection.cpp\<close>, \<open>xhead.h\<close> and \<open>xrtcserver_def.h\<close>: a thread that
  reads framed JSON requests from TCP connections, hands them to the RTC server and writes the
  responses. A pointer to a connection is an address of \<open>sw_heap\<close>. What the sockets return is an
  argument of the operations; JSON is the parameter \<open>json_lib\<close>. The header struct is read in the
  byte order of the host, which is little endian. An operation yields \<open>None\<close> when it never
  returns and a fault when it touches memory it must not. A failing allocation is not modelled.
\<close>

subsection \<open>Frames\<close>

definition XHEAD_SIZE :: nat where "XHEAD_SIZE = 36"
definition XHEAD_MAGIC_NUM :: u32 where "XHEAD_MAGIC_NUM = 0xfb202202"
definition MAX_RES_BUF :: nat where "MAX_RES_BUF = 4096"

fun le_nat :: "bytes \<Rightarrow> nat" where
  "le_nat [] = 0"
| "le_nat (b # bs) = unat b + 256 * le_nat bs"

fun le_bytes :: "nat \<Rightarrow> nat \<Rightarrow> bytes" where
  "le_bytes 0 n = []"
| "le_bytes (Suc k) n = of_nat (n mod 256) # le_bytes k (n div 256)"

definition xh_log_id :: "bytes \<Rightarrow> u32" where
  "xh_log_id b = of_nat (le_nat (take 4 (drop 4 b)))"

definition xh_magic_num :: "bytes \<Rightarrow> u32" where
  "xh_magic_num b = of_nat (le_nat (take 4 (drop 24 b)))"

definition xh_body_len :: "bytes \<Rightarrow> u32" where
  "xh_body_len b = of_nat (le_nat (take 4 (drop 32 b)))"

definition set_body_len :: "u32 \<Rightarrow> bytes \<Rightarrow> bytes" where
  "set_body_len n b = take 32 b @ le_bytes 4 (unat n)"

text \<open>The conversion of a size to \<open>int\<close>.\<close>

definition c_int :: "nat \<Rightarrow> int" where
  "c_int n = sint (of_nat n :: u32)"

subsection \<open>State\<close>

record rtc_msg =
  rm_cmdno :: int
  rm_uid :: u64
  rm_stream_name :: string
  rm_stream_type :: string
  rm_audio :: int
  rm_video :: int
  rm_is_dtls :: int
  rm_is_pli :: int
  rm_mode :: string
  rm_log_id :: u32
  rm_worker :: "nat option"
  rm_conn :: "nat option"
  rm_fd :: int
  rm_sdp :: string
  rm_err_no :: int
  rm_certificate :: bool

definition RtcMsg :: rtc_msg where
  "RtcMsg = \<lparr>rm_cmdno = -1, rm_uid = 0, rm_stream_name = [], rm_stream_type = [], rm_audio = 0, rm_video = 0,
     rm_is_dtls = 1, rm_is_pli = 0, rm_mode = [], rm_log_id = 0, rm_worker = None, rm_conn = None, rm_fd = 0,
     rm_sdp = [], rm_err_no = 0, rm_certificate = False\<rparr>"

definition CMDNO_PUSH :: int where "CMDNO_PUSH = 1"
definition CMDNO_PULL :: int where "CMDNO_PULL = 2"
definition CMDNO_ANSWER :: int where "CMDNO_ANSWER = 3"
definition CMDNO_STOPPUSH :: int where "CMDNO_STOPPUSH = 4"
definition CMDNO_STOPPULL :: int where "CMDNO_STOPPULL = 5"

lemmas cmdno_defs = CMDNO_PUSH_def CMDNO_PULL_def CMDNO_ANSWER_def CMDNO_STOPPUSH_def CMDNO_STOPPULL_def

datatype conn_state = STATE_HEAD | STATE_BODY

text \<open>A reply: the bytes written into its buffer and the size of the slice to send.\<close>

record reply =
  rp_buf :: bytes
  rp_size :: nat

record tcp_conn =
  tc_fd :: int
  querybuf :: bytes
  bytes_expected :: nat
  bytes_processed :: nat
  current_state :: conn_state
  last_interaction :: u64
  reply_list :: "reply list"
  cur_resp_pos :: nat
  tc_write :: bool

definition TcpConnection :: "int \<Rightarrow> u64 \<Rightarrow> tcp_conn" where
  "TcpConnection fd now = \<lparr>tc_fd = fd, querybuf = [], bytes_expected = XHEAD_SIZE, bytes_processed = 0,
     current_state = STATE_HEAD, last_interaction = now, reply_list = [], cur_resp_pos = 0, tc_write = False\<rparr>"

datatype sig_fault =
    NullConnection int
  | ConnUseAfterFree nat
  | ConnIndex int
  | BadReadLength int
  | HeaderOverrun nat
  | ReplyOverrun int

datatype sig_out = SoSent int bytes | SoClosed int

record sig_worker =
  sw_id :: nat
  sw_timeout :: int
  sw_conns :: "nat option list"
  sw_heap :: "nat \<rightharpoonup> tcp_conn"
  sw_qconn :: "int list"
  sw_qmsg :: "rtc_msg list"
  sw_server :: "rtc_msg list"
  sw_out :: "sig_out list"

type_synonym sig_result = "sig_fault + sig_worker"

definition SignalingWorker :: "nat \<Rightarrow> int \<Rightarrow> sig_worker" where
  "SignalingWorker worker_id timeout = \<lparr>sw_id = worker_id, sw_timeout = timeout, sw_conns = [], sw_heap = Map.empty,
     sw_qconn = [], sw_qmsg = [], sw_server = [], sw_out = []\<rparr>"

definition put_conn :: "nat \<Rightarrow> tcp_conn \<Rightarrow> sig_worker \<Rightarrow> sig_worker" where
  "put_conn p c w = w\<lparr>sw_heap := (sw_heap w)(p \<mapsto> c)\<rparr>"

definition sw_emit :: "sig_out \<Rightarrow> sig_worker \<Rightarrow> sig_worker" where
  "sw_emit e w = w\<lparr>sw_out := sw_out w @ [e]\<rparr>"

subsection \<open>Requests\<close>

text \<open>
  \<open>None\<close> of \<open>json_parse\<close> is a parse error, \<open>None\<close> of the readers the exception of a field of the
  wrong type; \<open>json_response\<close> is the text of a response with an error number, a message and an offer.
\<close>

record 'j json_lib =
  json_parse :: "bytes \<Rightarrow> 'j option"
  json_int :: "'j \<Rightarrow> string \<Rightarrow> int option"
  json_u64 :: "'j \<Rightarrow> string \<Rightarrow> u64 option"
  json_str :: "'j \<Rightarrow> string \<Rightarrow> string option"
  json_member :: "'j \<Rightarrow> string \<Rightarrow> bool"
  json_response :: "int \<Rightarrow> string \<Rightarrow> string \<Rightarrow> bytes"

definition json_dtls :: "('j, 'a) json_lib_scheme \<Rightarrow> 'j \<Rightarrow> int option" where
  "json_dtls J obj = (if json_member J obj ''is_dtls'' then json_int J obj ''is_dtls'' else Some 1)"

definition push_msg :: "('j, 'a) json_lib_scheme \<Rightarrow> 'j \<Rightarrow> rtc_msg option" where
  "push_msg J obj = do {
     uid \<leftarrow> json_u64 J obj ''uid'';
     stream_name \<leftarrow> json_str J obj ''stream_name'';
     audio \<leftarrow> json_int J obj ''audio'';
     video \<leftarrow> json_int J obj ''video'';
     is_dtls \<leftarrow> json_dtls J obj;
     mode \<leftarrow> json_str J obj ''mode'';
     is_pli \<leftarrow> json_int J obj ''is_pli'';
     Some (RtcMsg\<lparr>rm_uid := uid, rm_stream_name := stream_name, rm_audio := audio, rm_video := video,
       rm_is_dtls := is_dtls, rm_is_pli := is_pli, rm_mode := mode\<rparr>)
   }"

definition pull_msg :: "('j, 'a) json_lib_scheme \<Rightarrow> 'j \<Rightarrow> rtc_msg option" where
  "pull_msg J obj = do {
     uid \<leftarrow> json_u64 J obj ''uid'';
     stream_name \<leftarrow> json_str J obj ''stream_name'';
     audio \<leftarrow> json_int J obj ''audio'';
     video \<leftarrow> json_int J obj ''video'';
     is_dtls \<leftarrow> json_dtls J obj;
     mode \<leftarrow> json_str J obj ''mode'';
     Some (RtcMsg\<lparr>rm_uid := uid, rm_stream_name := stream_name, rm_audio := audio, rm_video := video,
       rm_is_dtls := is_dtls, rm_mode := mode\<rparr>)
   }"

definition stop_msg :: "('j, 'a) json_lib_scheme \<Rightarrow> 'j \<Rightarrow> rtc_msg option" where
  "stop_msg J obj = do {
     uid \<leftarrow> json_u64 J obj ''uid'';
     stream_name \<leftarrow> json_str J obj ''stream_name'';
     mode \<leftarrow> json_str J obj ''mode'';
     Some (RtcMsg\<lparr>rm_uid := uid, rm_stream_name := stream_name, rm_mode := mode\<rparr>)
   }"

definition answer_msg :: "('j, 'a) json_lib_scheme \<Rightarrow> 'j \<Rightarrow> rtc_msg option" where
  "answer_msg J obj = do {
     uid \<leftarrow> json_u64 J obj ''uid'';
     stream_name \<leftarrow> json_str J obj ''stream_name'';
     answer \<leftarrow> json_str J obj ''answer'';
     stream_type \<leftarrow> json_str J obj ''type'';
     mode \<leftarrow> json_str J obj ''mode'';
     Some (RtcMsg\<lparr>rm_uid := uid, rm_stream_name := stream_name, rm_mode := mode, rm_sdp := answer,
       rm_stream_type := stream_type\<rparr>)
   }"

text \<open>The request in a body: its command and the message for the RTC server.\<close>

definition request_of :: "('j, 'a) json_lib_scheme \<Rightarrow> bytes \<Rightarrow> rtc_msg option" where
  "request_of J body = do {
     obj \<leftarrow> json_parse J body;
     cmdno \<leftarrow> json_int J obj ''cmdno'';
     msg \<leftarrow> (if cmdno = CMDNO_PUSH then push_msg J obj
            else if cmdno = CMDNO_PULL then pull_msg J obj
            else if cmdno = CMDNO_STOPPUSH then stop_msg J obj
            else if cmdno = CMDNO_STOPPULL then stop_msg J obj
            else if cmdno = CMDNO_ANSWER then answer_msg J obj
            else None);
     Some (msg\<lparr>rm_cmdno := cmdno\<rparr>)
   }"

text \<open>
  \<open>ok\<close>: the write to the notification pipe of the RTC server succeeds. The result is the return
  value and the messages put into the queue of the RTC server.
\<close>

definition ProcessRequest ::
    "('j, 'a) json_lib_scheme \<Rightarrow> bool \<Rightarrow> nat \<Rightarrow> nat \<Rightarrow> tcp_conn \<Rightarrow> bytes \<Rightarrow> bytes \<Rightarrow> int \<times> rtc_msg list" where
  "ProcessRequest J ok worker p c header body =
     (case request_of J body of
        None \<Rightarrow> (-1, [])
      | Some msg \<Rightarrow> (if ok then 0 else -1,
          [msg\<lparr>rm_log_id := xh_log_id header, rm_worker := Some worker, rm_conn := Some p, rm_fd := tc_fd c\<rparr>]))"

text \<open>The result is the return value, the connection and the messages for the RTC server.\<close>

partial_function (option) ProcessQueryBuffer ::
    "('j, 'a) json_lib_scheme \<Rightarrow> bool \<Rightarrow> nat \<Rightarrow> nat \<Rightarrow> tcp_conn \<Rightarrow> rtc_msg list \<Rightarrow> (int \<times> tcp_conn \<times> rtc_msg list) option" where
  "ProcessQueryBuffer J ok worker p c q =
     (if length (querybuf c) \<ge> bytes_processed c + bytes_expected c then
        if current_state c = STATE_HEAD then
          if XHEAD_MAGIC_NUM \<noteq> xh_magic_num (querybuf c) then Some (-1, c, q)
          else ProcessQueryBuffer J ok worker p
            (c\<lparr>current_state := STATE_BODY, bytes_processed := XHEAD_SIZE, bytes_expected := unat (xh_body_len (querybuf c))\<rparr>) q
        else
          let header = take XHEAD_SIZE (querybuf c);
              body = take (unat (xh_body_len (querybuf c))) (drop XHEAD_SIZE (querybuf c));
              (ret, msgs) = ProcessRequest J ok worker p c header body
          in if ret \<noteq> 0 then Some (-1, c, q @ msgs)
             else ProcessQueryBuffer J ok worker p (c\<lparr>bytes_processed := 65535\<rparr>) (q @ msgs)
      else Some (0, c, q))"

subsection \<open>Connections\<close>

definition RemoveConn :: "nat \<Rightarrow> tcp_conn \<Rightarrow> sig_worker \<Rightarrow> sig_result" where
  "RemoveConn p c w =
     (if 0 \<le> tc_fd c \<and> nat (tc_fd c) < length (sw_conns w)
      then Inr (w\<lparr>sw_conns := (sw_conns w)[nat (tc_fd c) := None], sw_heap := (sw_heap w)(p := None)\<rparr>)
      else Inl (ConnIndex (tc_fd c)))"

definition CloseConn :: "nat \<Rightarrow> sig_worker \<Rightarrow> sig_result" where
  "CloseConn p w =
     (case sw_heap w p of
        None \<Rightarrow> Inl (ConnUseAfterFree p)
      | Some c \<Rightarrow> RemoveConn p c (sw_emit (SoClosed (tc_fd c)) w))"

text \<open>\<open>p\<close> is the address of the new connection.\<close>

definition NewConn :: "u64 \<Rightarrow> nat \<Rightarrow> int \<Rightarrow> sig_worker \<Rightarrow> sig_result" where
  "NewConn now p fd w =
     (if fd < 0 then Inr w
      else
        let conns = (if nat fd \<ge> length (sw_conns w)
              then sw_conns w @ replicate (nat fd * 2 - length (sw_conns w)) None else sw_conns w)
        in if nat fd < length conns
           then Inr (put_conn p (TcpConnection fd now) (w\<lparr>sw_conns := conns[nat fd := Some p]\<rparr>))
           else Inl (ConnIndex fd))"

text \<open>What \<open>SockReadData\<close> yields: an error or the end of the stream, no data, or data.\<close>

datatype sock_read = SockError | SockAgain | SockData bytes

fun read_bytes :: "sock_read \<Rightarrow> bytes" where
  "read_bytes (SockData data) = data"
| "read_bytes _ = []"

definition ReadQuery ::
    "('j, 'a) json_lib_scheme \<Rightarrow> bool \<Rightarrow> u64 \<Rightarrow> int \<Rightarrow> sock_read \<Rightarrow> sig_worker \<Rightarrow> sig_result option" where
  "ReadQuery J ok now fd r w =
     (if fd < 0 \<or> nat fd \<ge> length (sw_conns w) then Some (Inr w)
      else case sw_conns w ! nat fd of
        None \<Rightarrow> Some (Inl (NullConnection fd))
      | Some p \<Rightarrow> (case sw_heap w p of
          None \<Rightarrow> Some (Inl (ConnUseAfterFree p))
        | Some c \<Rightarrow>
            if c_int (bytes_expected c) < 0 \<or> c_int (length (querybuf c)) < 0 then Some (Inl (BadReadLength fd))
            else
              let c1 = c\<lparr>last_interaction := now\<rparr> in
              if r = SockError then Some (CloseConn p (put_conn p c1 w))
              else case ProcessQueryBuffer J ok (sw_id w) p (c1\<lparr>querybuf := querybuf c1 @ read_bytes r\<rparr>) [] of
                None \<Rightarrow> None
              | Some (ret, c2, msgs) \<Rightarrow>
                  let w1 = put_conn p c2 (w\<lparr>sw_server := sw_server w @ msgs\<rparr>)
                  in if ret \<noteq> 0 then Some (CloseConn p w1) else Some (Inr w1)))"

definition ProcessTimeout :: "u64 \<Rightarrow> nat \<Rightarrow> sig_worker \<Rightarrow> sig_result" where
  "ProcessTimeout now p w =
     (case sw_heap w p of
        None \<Rightarrow> Inl (ConnUseAfterFree p)
      | Some c \<Rightarrow> if now - last_interaction c \<ge> word_of_int (sw_timeout w) then CloseConn p w else Inr w)"

subsection \<open>Responses\<close>

text \<open>
  \<open>snprintf\<close> copies at most 4095 bytes of the text and ends them with a zero; the slice has the
  size of the whole text.
\<close>

definition build_reply :: "bytes \<Rightarrow> bytes \<Rightarrow> reply" where
  "build_reply header json_data =
     (let body_len = of_nat (length json_data) :: u32
      in \<lparr>rp_buf = set_body_len body_len header @ take (MAX_RES_BUF - 1) (takeWhile (\<lambda>b. b \<noteq> 0) json_data) @ [0],
          rp_size = unat (of_nat XHEAD_SIZE + body_len)\<rparr>)"

definition AddReply :: "nat \<Rightarrow> tcp_conn \<Rightarrow> reply \<Rightarrow> sig_worker \<Rightarrow> sig_worker" where
  "AddReply p c reply w = put_conn p (c\<lparr>reply_list := reply_list c @ [reply], tc_write := True\<rparr>) w"

definition ResponseServerOffer :: "('j, 'a) json_lib_scheme \<Rightarrow> rtc_msg \<Rightarrow> sig_worker \<Rightarrow> sig_result" where
  "ResponseServerOffer J msg w =
     (case rm_conn msg of
        None \<Rightarrow> Inr w
      | Some p \<Rightarrow>
          if rm_fd msg \<le> 0 \<or> nat (rm_fd msg) \<ge> length (sw_conns w) then Inr w
          else if sw_conns w ! nat (rm_fd msg) \<noteq> Some p then Inr w
          else case sw_heap w p of
            None \<Rightarrow> Inl (ConnUseAfterFree p)
          | Some c \<Rightarrow>
              if length (querybuf c) < XHEAD_SIZE then Inl (HeaderOverrun p)
              else
                let json_data = (if rm_err_no msg \<noteq> 0 then json_response J (rm_err_no msg) ''process error'' []
                      else json_response J (rm_err_no msg) ''success'' (rm_sdp msg))
                in Inr (AddReply p c (build_reply (take XHEAD_SIZE (querybuf c)) json_data) w))"

text \<open>
  \<open>sock i n\<close> is the result of the \<open>i\<close>-th write, of \<open>n\<close> bytes: \<open>-1\<close> for an error, 0 when the
  socket takes nothing, else the number of bytes taken. The result of the loop is whether the
  connection stays open, the connection and the bytes sent.
\<close>

partial_function (option) write_loop ::
    "(nat \<Rightarrow> nat \<Rightarrow> int) \<Rightarrow> nat \<Rightarrow> tcp_conn \<Rightarrow> bytes \<Rightarrow> (sig_fault + bool \<times> tcp_conn \<times> bytes) option" where
  "write_loop sock i c sent =
     (case reply_list c of
        [] \<Rightarrow> Some (Inr (True, c, sent))
      | reply # replies \<Rightarrow>
          let nwritten = sock i (rp_size reply - cur_resp_pos c);
              data = take (nat nwritten) (drop (cur_resp_pos c) (rp_buf reply))
          in if nwritten = -1 then Some (Inr (False, c, sent))
             else if nwritten = 0 then write_loop sock (i + 1) c sent
             else if cur_resp_pos c + nat nwritten > length (rp_buf reply) then Some (Inl (ReplyOverrun (tc_fd c)))
             else if nat nwritten + cur_resp_pos c \<ge> rp_size reply
             then write_loop sock (i + 1) (c\<lparr>reply_list := replies, cur_resp_pos := 0\<rparr>) (sent @ data)
             else write_loop sock (i + 1) (c\<lparr>cur_resp_pos := cur_resp_pos c + nat nwritten\<rparr>) (sent @ data))"

definition WriteReply :: "u64 \<Rightarrow> int \<Rightarrow> (nat \<Rightarrow> nat \<Rightarrow> int) \<Rightarrow> sig_worker \<Rightarrow> sig_result option" where
  "WriteReply now fd sock w =
     (if fd \<le> 0 \<or> nat fd \<ge> length (sw_conns w) then Some (Inr w)
      else case sw_conns w ! nat fd of
        None \<Rightarrow> Some (Inr w)
      | Some p \<Rightarrow> (case sw_heap w p of
          None \<Rightarrow> Some (Inl (ConnUseAfterFree p))
        | Some c \<Rightarrow> (case write_loop sock 0 c [] of
            None \<Rightarrow> None
          | Some (Inl e) \<Rightarrow> Some (Inl e)
          | Some (Inr (alive, c1, sent)) \<Rightarrow>
              let w1 = sw_emit (SoSent fd sent) (put_conn p c1 w)
              in if alive then Some (Inr (put_conn p (c1\<lparr>last_interaction := now, tc_write := False\<rparr>) w1))
                 else Some (CloseConn p w1))))"

subsection \<open>Events\<close>

definition ProcessRtcMsg :: "('j, 'a) json_lib_scheme \<Rightarrow> sig_worker \<Rightarrow> sig_result" where
  "ProcessRtcMsg J w =
     (case sw_qmsg w of
        [] \<Rightarrow> Inr w
      | msg # msgs \<Rightarrow>
          if rm_cmdno msg \<in> {CMDNO_PUSH, CMDNO_PULL, CMDNO_STOPPUSH, CMDNO_STOPPULL, CMDNO_ANSWER}
          then ResponseServerOffer J msg (w\<lparr>sw_qmsg := msgs\<rparr>)
          else Inr (w\<lparr>sw_qmsg := msgs\<rparr>))"

datatype sig_notify = NEW_CONN | RTC_MSG

definition ProcessNotify :: "('j, 'a) json_lib_scheme \<Rightarrow> u64 \<Rightarrow> nat \<Rightarrow> sig_notify \<Rightarrow> sig_worker \<Rightarrow> sig_result" where
  "ProcessNotify J now p msg w =
     (case msg of
        NEW_CONN \<Rightarrow> (case sw_qconn w of [] \<Rightarrow> Inr w | fd # fds \<Rightarrow> NewConn now p fd (w\<lparr>sw_qconn := fds\<rparr>))
      | RTC_MSG \<Rightarrow> ProcessRtcMsg J w)"

definition ConnIOCb ::
    "('j, 'a) json_lib_scheme \<Rightarrow> bool \<Rightarrow> u64 \<Rightarrow> int \<Rightarrow> sock_read option \<Rightarrow> (nat \<Rightarrow> nat \<Rightarrow> int) option \<Rightarrow> sig_worker \<Rightarrow> sig_result option" where
  "ConnIOCb J ok now fd r sock w =
     (case (case r of None \<Rightarrow> Some (Inr w) | Some data \<Rightarrow> ReadQuery J ok now fd data w) of
        None \<Rightarrow> None
      | Some (Inl e) \<Rightarrow> Some (Inl e)
      | Some (Inr w1) \<Rightarrow> (case sock of None \<Rightarrow> Some (Inr w1) | Some k \<Rightarrow> WriteReply now fd k w1))"

end
