(* ===== verification/RtcServer.thy ===== *)
theory RtcServer
  imports StreamFanout Signaling
begin

text \<open>
  \<open>rtc_server.cpp\<close> and \<open>rtc_worker.cpp\<close>: the RTC server routes each request to one of its workers,
  by the checksum of the stream name or by the user, and the worker carries it out on its own
  stream manager and posts the result to the signaling worker. CRC32 of libwebrtc and the text of
  an offer are the parameters \<open>crc\<close> and \<open>offer\<close> (the offer of the stream at an address);
  \<open>cert_ok\<close> says whether there is a certificate. The pipes that wake the threads are not modelled:
  a notified thread takes one message.
\<close>

record 's server_lib = "'s pc_lib" +
  crc :: "string \<Rightarrow> u32"
  offer :: "nat \<Rightarrow> string"

record 's rtc_worker =
  rw_queue :: "rtc_msg list"
  rw_mgr :: "'s stream_manager"
  rw_posted :: "rtc_msg list"

record 's rtc_server =
  rv_worker_num :: int
  rv_workers :: "'s rtc_worker list"
  rv_queue :: "rtc_msg list"

definition RtcWorker :: "'s rtc_worker" where
  "RtcWorker = \<lparr>rw_queue = [], rw_mgr = RtcStreamManager, rw_posted = []\<rparr>"

text \<open>The server after \<open>Init\<close> has created its workers.\<close>

definition RtcServer :: "int \<Rightarrow> 's rtc_server" where
  "RtcServer worker_num = \<lparr>rv_worker_num = worker_num, rv_workers = replicate (nat worker_num) RtcWorker, rv_queue = []\<rparr>"

subsection \<open>A worker\<close>

definition RwSendRtcMsg :: "rtc_msg \<Rightarrow> 's rtc_worker \<Rightarrow> 's rtc_worker" where
  "RwSendRtcMsg msg w = w\<lparr>rw_queue := rw_queue w @ [msg]\<rparr>"

definition post_result :: "int \<Rightarrow> rtc_msg \<Rightarrow> 's rtc_worker \<Rightarrow> 's rtc_worker" where
  "post_result ret msg w =
     (let msg1 = (if ret \<noteq> 0 then msg\<lparr>rm_err_no := -1\<rparr> else msg)
      in if rm_worker msg1 = None then w else w\<lparr>rw_posted := rw_posted w @ [msg1]\<rparr>)"

text \<open>\<open>x\<close> is the address of the stream object that is created.\<close>

definition ProcessPush ::
    "('s, 'b) server_lib_scheme \<Rightarrow> nat \<Rightarrow> rtc_msg \<Rightarrow> 's rtc_worker \<Rightarrow> ('s, 's rtc_worker) mresult" where
  "ProcessPush E x msg w =
     and_then (CreatePushStream x (rm_uid msg) (rm_stream_name msg) (rm_audio msg \<noteq> 0) (rm_video msg \<noteq> 0)
         (rm_is_dtls msg \<noteq> 0) (rm_is_pli msg \<noteq> 0) (rm_mode msg) (rw_mgr w)) (\<lambda>(ret, m).
       Inr (post_result ret (msg\<lparr>rm_sdp := offer E x\<rparr>) (w\<lparr>rw_mgr := m\<rparr>)))"

definition ProcessPull ::
    "('s, 'b) server_lib_scheme \<Rightarrow> nat \<Rightarrow> rtc_msg \<Rightarrow> 's rtc_worker \<Rightarrow> ('s, 's rtc_worker) mresult" where
  "ProcessPull E x msg w =
     and_then (CreatePullStream x (rm_uid msg) (rm_stream_name msg) (rm_audio msg \<noteq> 0) (rm_video msg \<noteq> 0)
         (rm_is_dtls msg \<noteq> 0) (rm_mode msg) (rw_mgr w)) (\<lambda>(ret, m).
       Inr (post_result ret (msg\<lparr>rm_sdp := (if ret = 0 then offer E x else [])\<rparr>) (w\<lparr>rw_mgr := m\<rparr>)))"

definition ProcessAnswer ::
    "('s, 'b) server_lib_scheme \<Rightarrow> rtc_msg \<Rightarrow> 's rtc_worker \<Rightarrow> ('s, 's rtc_worker) mresult" where
  "ProcessAnswer E msg w =
     and_then (SetAnswer E (rm_uid msg) (rm_stream_name msg) (rm_sdp msg) (rm_stream_type msg) (rm_mode msg) (rw_mgr w)) (\<lambda>(ret, m).
       Inr (post_result ret msg (w\<lparr>rw_mgr := m\<rparr>)))"

definition ProcessStopPush :: "rtc_msg \<Rightarrow> 's rtc_worker \<Rightarrow> ('s, 's rtc_worker) mresult" where
  "ProcessStopPush msg w =
     and_then (StopPush (rm_uid msg) (rm_stream_name msg) (rw_mgr w)) (\<lambda>(ret, m).
       Inr (post_result ret msg (w\<lparr>rw_mgr := m\<rparr>)))"

definition ProcessStopPull :: "rtc_msg \<Rightarrow> 's rtc_worker \<Rightarrow> ('s, 's rtc_worker) mresult" where
  "ProcessStopPull msg w =
     and_then (StopPull (rm_uid msg) (rm_stream_name msg) (rm_mode msg) (rw_mgr w)) (\<lambda>(ret, m).
       Inr (post_result ret msg (w\<lparr>rw_mgr := m\<rparr>)))"

definition RwProcessRtcMsg ::
    "('s, 'b) server_lib_scheme \<Rightarrow> nat \<Rightarrow> 's rtc_worker \<Rightarrow> ('s, 's rtc_worker) mresult" where
  "RwProcessRtcMsg E x w0 =
     (case rw_queue w0 of
        [] \<Rightarrow> Inr w0
      | msg # msgs \<Rightarrow>
          let w = w0\<lparr>rw_queue := msgs\<rparr> in
          if rm_cmdno msg = CMDNO_PUSH then ProcessPush E x msg w
          else if rm_cmdno msg = CMDNO_PULL then ProcessPull E x msg w
          else if rm_cmdno msg = CMDNO_STOPPUSH then ProcessStopPush msg w
          else if rm_cmdno msg = CMDNO_STOPPULL then ProcessStopPull msg w
          else if rm_cmdno msg = CMDNO_ANSWER then ProcessAnswer E msg w
          else Inr w)"

subsection \<open>Routing\<close>

definition SendRtcMsg :: "rtc_msg \<Rightarrow> 's rtc_server \<Rightarrow> 's rtc_server" where
  "SendRtcMsg msg s = s\<lparr>rv_queue := rv_queue s @ [msg]\<rparr>"

definition GetWorkerByUid :: "u64 \<Rightarrow> 's rtc_server \<Rightarrow> nat option" where
  "GetWorkerByUid uid s =
     (if length (rv_workers s) = 0 \<or> int (length (rv_workers s)) \<noteq> rv_worker_num s then None
      else Some (unat uid mod nat (rv_worker_num s)))"

definition GetWorkerByName :: "('s, 'b) server_lib_scheme \<Rightarrow> string \<Rightarrow> 's rtc_server \<Rightarrow> nat option" where
  "GetWorkerByName E stream_name s =
     (if length (rv_workers s) = 0 \<or> int (length (rv_workers s)) \<noteq> rv_worker_num s then None
      else Some (unat (crc E stream_name) mod nat (rv_worker_num s)))"

definition route :: "('s, 'b) server_lib_scheme \<Rightarrow> rtc_msg \<Rightarrow> 's rtc_server \<Rightarrow> nat option" where
  "route E msg s =
     (if rm_cmdno msg = CMDNO_PULL \<or> rm_cmdno msg = CMDNO_STOPPULL \<or>
         (rm_cmdno msg = CMDNO_ANSWER \<and> rm_stream_type msg = ''pull'')
      then GetWorkerByUid (rm_uid msg) s
      else GetWorkerByName E (rm_stream_name msg) s)"

definition SvProcessRtcMsg :: "('s, 'b) server_lib_scheme \<Rightarrow> bool \<Rightarrow> 's rtc_server \<Rightarrow> 's rtc_server" where
  "SvProcessRtcMsg E cert_ok s0 =
     (case rv_queue s0 of
        [] \<Rightarrow> s0
      | msg # msgs \<Rightarrow>
          let s = s0\<lparr>rv_queue := msgs\<rparr> in
          if \<not> cert_ok then s
          else case route E msg s of
            None \<Rightarrow> s
          | Some i \<Rightarrow> s\<lparr>rv_workers := (rv_workers s)[i := RwSendRtcMsg (msg\<lparr>rm_certificate := True\<rparr>) (rv_workers s ! i)]\<rparr>)"

subsection \<open>The server as a machine\<close>

text \<open>
  A request comes in, the server routes one, a worker carries one out, or a callback reaches the
  stream manager of a worker.
\<close>

datatype rtc_event =
    RvSubmit rtc_msg
  | RvRoute bool
  | RvProcess nat nat
  | RvStream nat mgr_event

fun callback :: "mgr_event \<Rightarrow> bool" where
  "callback (MeConnection _ _) = True"
| "callback (MeTimeout _) = True"
| "callback (MePush _ _) = True"
| "callback (MeRtp _ _) = True"
| "callback (MeRtcp _ _) = True"
| "callback (MeSr _ _ _ _) = True"
| "callback (MeNack _ _ _) = True"
| "callback _ = False"

definition at_worker :: "nat \<Rightarrow> ('s rtc_worker \<Rightarrow> ('s, 's rtc_worker) mresult) \<Rightarrow> 's rtc_server \<Rightarrow> ('s, 's rtc_server) mresult" where
  "at_worker i f s = and_then (f (rv_workers s ! i)) (\<lambda>w. Inr (s\<lparr>rv_workers := (rv_workers s)[i := w]\<rparr>))"

fun rtc_step :: "seq_lib \<Rightarrow> ('s, 'b) server_lib_scheme \<Rightarrow> rtc_event \<Rightarrow> 's rtc_server \<Rightarrow> ('s, 's rtc_server) mresult" where
  "rtc_step L E (RvSubmit msg) s = Inr (SendRtcMsg msg s)"
| "rtc_step L E (RvRoute cert_ok) s = Inr (SvProcessRtcMsg E cert_ok s)"
| "rtc_step L E (RvProcess i x) s = at_worker i (RwProcessRtcMsg E x) s"
| "rtc_step L E (RvStream i e) s = at_worker i (\<lambda>w. and_then (mgr_step L E e (rw_mgr w)) (\<lambda>m. Inr (w\<lparr>rw_mgr := m\<rparr>))) s"

fun rtc_admitted :: "'s rtc_server \<Rightarrow> rtc_event \<Rightarrow> bool" where
  "rtc_admitted s (RvSubmit msg) \<longleftrightarrow> True"
| "rtc_admitted s (RvRoute _) \<longleftrightarrow> True"
| "rtc_admitted s (RvProcess i x) \<longleftrightarrow> i < length (rv_workers s) \<and> mg_heap (rw_mgr (rv_workers s ! i)) x = None"
| "rtc_admitted s (RvStream i e) \<longleftrightarrow> i < length (rv_workers s) \<and> callback e \<and> mgr_admitted (rw_mgr (rv_workers s ! i)) e"

inductive rtc_reachable :: "seq_lib \<Rightarrow> ('s, 'b) server_lib_scheme \<Rightarrow> int \<Rightarrow> 's rtc_server \<Rightarrow> bool" for L E n where
  rtc_init: "rtc_reachable L E n (RtcServer n)"
| rtc_next: "rtc_reachable L E n s \<Longrightarrow> rtc_admitted s e \<Longrightarrow> rtc_step L E e s = Inr s' \<Longrightarrow> rtc_reachable L E n s'"

end
