(* ===== verification/RtcServerProps.thy ===== *)
theory RtcServerProps
  imports RtcServer
begin

text \<open>
  The RTC server end to end: no request or callback makes a worker touch a deleted stream, every
  request is answered once, publishers live on the worker of their name, and so a pull request,
  which is routed by its user, finds its publisher only if both land on the same worker.
\<close>

subsection \<open>Who publishes where\<close>

text \<open>If the operation returns, all publishers have names in \<open>K\<close>.\<close>

definition pushes :: "string set \<Rightarrow> ('s, 's stream_manager) mresult \<Rightarrow> bool" where
  "pushes K r \<longleftrightarrow> (\<forall>m. r = Inr m \<longrightarrow> dom (mg_push m) \<subseteq> K)"

lemma pushes_simps [simp]:
  "pushes K (Inl f)" "pushes K (Inr m) \<longleftrightarrow> dom (mg_push m) \<subseteq> K"
  "pushes K (and_then (stream_at p m) g) \<longleftrightarrow> (\<forall>r. mg_heap m p = Some r \<longrightarrow> pushes K (g r))"
  "pushes K (if b then r1 else r2) \<longleftrightarrow> (if b then pushes K r1 else pushes K r2)"
  by (auto simp: pushes_def stream_at_def split: option.splits)

lemma pushes_bind:
  "pushes K r \<Longrightarrow> (\<And>m. dom (mg_push m) \<subseteq> K \<Longrightarrow> pushes K (f m)) \<Longrightarrow> pushes K (and_then r f)"
  by (cases r) (simp_all add: pushes_def)

lemma pushes_each:
  assumes "dom (mg_push m) \<subseteq> K" "\<And>x m. dom (mg_push m) \<subseteq> K \<Longrightarrow> pushes K (f x m)"
  shows "pushes K (each f xs m)"
  using assms(1)
proof (induction xs arbitrary: m)
  case (Cons x xs)
  show ?case unfolding each.simps by (rule pushes_bind[OF assms(2)[OF Cons.prems] Cons.IH])
qed simp

lemma mg_push_frame [simp]: "mg_push (mg_emit e m) = mg_push m" "mg_push (put_stream p r m) = mg_push m"
  by (simp_all add: mg_emit_def put_stream_def)

lemma pushes_send: "dom (mg_push m) \<subseteq> K \<Longrightarrow> pushes K (PullSendPacket P media packet re p m)"
  by (simp add: PullSendPacket_def)

lemma pushes_rtp: "dom (mg_push m) \<subseteq> K \<Longrightarrow> pushes K (MgrOnRtpPacket P p media packet m)"
  by (auto simp: MgrOnRtpPacket_def split_def intro!: pushes_each pushes_send split: option.split)

lemma pushes_media:
  assumes "dom (mg_push m) \<subseteq> K"
  shows "pushes K (PushEvent L P p ev m)" "pushes K (OnRtpPacketReceived p data m)" "pushes K (OnRtcpPacketReceived p data m)"
    "pushes K (OnSrInfo p media ts ntp m)" "pushes K (OnNackReceived P p media nacks m)"
proof -
  show "pushes K (PushEvent L P p ev m)"
    using assms by (auto simp: PushEvent_def Let_def intro!: pushes_each pushes_rtp)
  show "pushes K (OnRtpPacketReceived p data m)" "pushes K (OnRtcpPacketReceived p data m)"
    using assms by (simp_all add: OnRtpPacketReceived_def OnRtcpPacketReceived_def split: option.split stream_type.split)
  show "pushes K (OnSrInfo p media ts ntp m)"
    using assms by (auto simp: OnSrInfo_def split_def intro!: pushes_each split: option.split)
  show "pushes K (OnNackReceived P p media nacks m)"
    using assms by (auto simp: OnNackReceived_def intro!: pushes_each pushes_send split: option.split)
qed

lemma pushes_delete: "dom (mg_push m) \<subseteq> K \<Longrightarrow> pushes K (delete_stream p m)"
  by (simp add: delete_stream_def split: option.split)

lemma pushes_remove:
  assumes "dom (mg_push m) \<subseteq> K"
  shows "pushes K (RemovePushStream uid name m)" "pushes K (RemovePullStream uid name m)" "pushes K (RemovePullStreamM uid name m)"
    "pushes K (AddPullStreamM p m)"
proof -
  show "pushes K (RemovePushStream uid name m)"
    using assms by (auto simp: RemovePushStream_def intro!: pushes_delete split: option.split if_splits)
  show "pushes K (RemovePullStream uid name m)"
    using assms by (simp add: RemovePullStream_def pushes_delete split: option.split)
  show "pushes K (AddPullStreamM p m)"
    using assms by (simp add: AddPullStreamM_def Let_def)
  show "pushes K (RemovePullStreamM uid name m)"
  proof (cases "mg_multi m name")
    case (Some umap)
    have "pushes K (case map_of umap uid of None \<Rightarrow> Inr m | Some p \<Rightarrow> delete_stream p m)"
      using assms by (simp add: pushes_delete split: option.split)
    then show ?thesis using Some by (auto simp: RemovePullStreamM_def Let_def intro!: pushes_bind)
  qed (use assms in \<open>simp add: RemovePullStreamM_def\<close>)
qed

lemma pushes_state:
  assumes "dom (mg_push m) \<subseteq> K"
  shows "pushes K (OnConnectionState p state m)" "pushes K (OnStreamException p m)"
  using assms by (simp_all add: OnConnectionState_def OnStreamException_def pushes_remove split: stream_type.split)

lemma pushes_callback:
  assumes "callback e" "dom (mg_push m) \<subseteq> K"
  shows "pushes K (mgr_step L P e m)"
  using assms
  by (cases e) (simp_all add: pushes_media StreamConnectionState_def IceTimeoutCb_def Let_def pushes_state)

lemma CreatePushStream_keys:
  assumes "CreatePushStream x uid name audio video dtls pli mode m = Inr (ret, m')"
  shows "dom (mg_push m') \<subseteq> insert name (dom (mg_push m))"
proof -
  obtain m1 where m1: "(case FindPushStream name m of None \<Rightarrow> Inr m
      | Some p \<Rightarrow> delete_stream p (m\<lparr>mg_push := (mg_push m)(name := None)\<rparr>)) = Inr m1"
    using assms by (auto simp: CreatePushStream_def and_then_Inr)
  then have "dom (mg_push m1) \<subseteq> dom (mg_push m)" by (auto simp: delete_stream_def split: option.splits if_splits)
  moreover have "dom (mg_push m') = insert name (dom (mg_push m1))"
    using assms m1 by (auto simp: CreatePushStream_def Let_def)
  ultimately show ?thesis by blast
qed

lemma CreatePullStream_keys:
  assumes "CreatePullStream x uid name audio video dtls mode m = Inr (ret, m')"
  shows "dom (mg_push m') \<subseteq> dom (mg_push m)"
proof (cases "FindPushStream name m")
  case (Some q)
  let ?K = "dom (mg_push m)"
  obtain m1 where m1: "(if mode = ''transparent'' then RemovePullStream uid name m else RemovePullStreamM uid name m) = Inr m1"
    using assms Some by (auto simp: CreatePullStream_def and_then_Inr)
  have "pushes ?K (Inr m1)" unfolding m1[symmetric] by (simp add: pushes_remove)
  then have k: "dom (mg_push m1) \<subseteq> ?K" by simp
  have "dom (mg_push m3) \<subseteq> ?K" if "AddPullStreamM x m2 = Inr m3" "mg_push m2 = mg_push m1" for m2 m3
    using pushes_remove(4)[of m2 ?K x] that k by simp
  moreover have "mg_push m' = mg_push m1 \<or> (\<exists>m2. AddPullStreamM x m2 = Inr m' \<and> mg_push m2 = mg_push m1)"
    using assms Some m1 by (force simp: CreatePullStream_def and_then_Inr Let_def split: if_splits)
  ultimately show ?thesis using k by (metis (no_types))
qed (use assms in \<open>simp add: CreatePullStream_def\<close>)

lemma SetAnswer_keys: "SetAnswer P uid name answer type mode m = Inr (ret, m') \<Longrightarrow> mg_push m' = mg_push m"
  by (auto simp: SetAnswer_def and_then_Inr Let_def split: option.splits if_splits)

lemma Stop_keys:
  "StopPush uid name m = Inr (ret, m') \<Longrightarrow> dom (mg_push m') \<subseteq> dom (mg_push m)"
  "StopPull uid name mode m = Inr (ret, m') \<Longrightarrow> dom (mg_push m') \<subseteq> dom (mg_push m)"
  using pushes_remove(1-3)[of m "dom (mg_push m)" uid name]
  by (auto simp: StopPush_def StopPull_def and_then_Inr split: if_splits)

subsection \<open>One request\<close>

text \<open>What carrying out a request does to the worker: one step of its stream manager, and one message posted.\<close>

definition is_request :: "rtc_msg \<Rightarrow> bool" where
  "is_request msg \<longleftrightarrow> rm_cmdno msg \<in> {CMDNO_PUSH, CMDNO_PULL, CMDNO_STOPPUSH, CMDNO_STOPPULL, CMDNO_ANSWER}"

fun request_event :: "nat \<Rightarrow> rtc_msg \<Rightarrow> mgr_event" where
  "request_event x msg =
     (if rm_cmdno msg = CMDNO_PUSH then MeCreatePush x (rm_uid msg) (rm_stream_name msg) (rm_audio msg \<noteq> 0) (rm_video msg \<noteq> 0)
         (rm_is_dtls msg \<noteq> 0) (rm_is_pli msg \<noteq> 0) (rm_mode msg)
      else if rm_cmdno msg = CMDNO_PULL then MeCreatePull x (rm_uid msg) (rm_stream_name msg) (rm_audio msg \<noteq> 0)
         (rm_video msg \<noteq> 0) (rm_is_dtls msg \<noteq> 0) (rm_mode msg)
      else if rm_cmdno msg = CMDNO_STOPPUSH then MeStopPush (rm_uid msg) (rm_stream_name msg)
      else if rm_cmdno msg = CMDNO_STOPPULL then MeStopPull (rm_uid msg) (rm_stream_name msg) (rm_mode msg)
      else MeSetAnswer (rm_uid msg) (rm_stream_name msg) (rm_sdp msg) (rm_stream_type msg) (rm_mode msg))"

definition carried_out :: "('s, 'b) server_lib_scheme \<Rightarrow> nat \<Rightarrow> rtc_msg \<Rightarrow> 's rtc_worker \<Rightarrow> ('s, 's rtc_worker) mresult" where
  "carried_out E x msg w = RwProcessRtcMsg E x (w\<lparr>rw_queue := msg # rw_queue w\<rparr>)"

lemma post_result_simps:
  "rw_mgr (post_result ret msg w) = rw_mgr w" "rw_queue (post_result ret msg w) = rw_queue w"
  "rm_worker msg \<noteq> None \<Longrightarrow> rw_posted (post_result ret msg w) = rw_posted w @ [if ret \<noteq> 0 then msg\<lparr>rm_err_no := -1\<rparr> else msg]"
  by (simp_all add: post_result_def Let_def)

lemmas process_defs = ProcessPush_def ProcessPull_def ProcessAnswer_def ProcessStopPush_def ProcessStopPull_def

definition answered :: "rtc_msg \<Rightarrow> rtc_msg \<Rightarrow> bool" where
  "answered msg msg' \<longleftrightarrow> (\<exists>err sdp. err \<in> {rm_err_no msg, -1} \<and> msg' = msg\<lparr>rm_sdp := sdp, rm_err_no := err\<rparr>)"

lemma answered_simps [simp]:
  "answered msg msg" "answered msg (msg\<lparr>rm_sdp := sdp\<rparr>)" "answered msg (msg\<lparr>rm_sdp := sdp, rm_err_no := -1\<rparr>)"
  "answered msg (msg\<lparr>rm_err_no := -1\<rparr>)"
proof -
  have e: "msg = msg\<lparr>rm_sdp := rm_sdp msg, rm_err_no := rm_err_no msg\<rparr>" by simp
  show "answered msg msg" unfolding answered_def using e by blast
  have e: "msg\<lparr>rm_sdp := sdp\<rparr> = msg\<lparr>rm_sdp := sdp, rm_err_no := rm_err_no msg\<rparr>" by simp
  show "answered msg (msg\<lparr>rm_sdp := sdp\<rparr>)" unfolding answered_def using e by blast
  show "answered msg (msg\<lparr>rm_sdp := sdp, rm_err_no := -1\<rparr>)" unfolding answered_def by blast
  have e: "msg\<lparr>rm_err_no := -1\<rparr> = msg\<lparr>rm_sdp := rm_sdp msg, rm_err_no := -1\<rparr>" by simp
  show "answered msg (msg\<lparr>rm_err_no := -1\<rparr>)" unfolding answered_def using e by blast
qed

definition follows_step :: "rtc_msg \<Rightarrow> 's rtc_worker \<Rightarrow> ('s, 's stream_manager) mresult \<Rightarrow> ('s, 's rtc_worker) mresult \<Rightarrow> bool" where
  "follows_step msg w step r = (case r of
     Inl f \<Rightarrow> step = Inl f
   | Inr w' \<Rightarrow> step = Inr (rw_mgr w') \<and> rw_queue w' = rw_queue w \<and>
       (rm_worker msg \<noteq> None \<longrightarrow> (\<exists>msg'. answered msg msg' \<and> rw_posted w' = rw_posted w @ [msg'])))"

lemma follows_step_bind:
  assumes "\<And>ret m. answered msg (g ret m) \<and> (rm_worker (g ret m) = None \<longleftrightarrow> rm_worker msg = None) \<and>
      answered msg ((g ret m)\<lparr>rm_err_no := -1\<rparr>)"
  shows "follows_step msg w (and_then r (\<lambda>(_, m). Inr m))
    (and_then r (\<lambda>(ret, m). Inr (post_result ret (g ret m) (w\<lparr>rw_mgr := m\<rparr>))))"
proof (cases r)
  case (Inr b)
  obtain ret m where "b = (ret, m)" by (cases b)
  then show ?thesis using Inr assms[of ret m]
    by (cases "ret = 0") (auto simp: follows_step_def post_result_def Let_def)
qed (simp add: follows_step_def)

lemma carried_out_step:
  assumes "is_request msg"
  shows "follows_step msg w (mgr_step L E (request_event x msg) (rw_mgr w)) (carried_out E x msg w)"
proof -
  have q: "w\<lparr>rw_queue := msg # rw_queue w\<rparr>\<lparr>rw_queue := rw_queue w\<rparr> = w" by simp
  consider "rm_cmdno msg = CMDNO_PUSH" | "rm_cmdno msg = CMDNO_PULL" | "rm_cmdno msg = CMDNO_STOPPUSH"
    | "rm_cmdno msg = CMDNO_STOPPULL" | "rm_cmdno msg = CMDNO_ANSWER"
    using assms by (auto simp: is_request_def)
  then show ?thesis
  proof cases
    case 1
    have "carried_out E x msg w = ProcessPush E x msg w" using 1 by (simp add: carried_out_def RwProcessRtcMsg_def)
    then show ?thesis using 1 follows_step_bind[of msg "\<lambda>_ _. msg\<lparr>rm_sdp := offer E x\<rparr>" w] by (simp add: ProcessPush_def)
  next
    case 2
    have "carried_out E x msg w = ProcessPull E x msg w" using 2 by (simp add: carried_out_def RwProcessRtcMsg_def cmdno_defs)
    then show ?thesis using 2 follows_step_bind[of msg "\<lambda>ret _. msg\<lparr>rm_sdp := (if ret = 0 then offer E x else [])\<rparr>" w]
      by (simp add: ProcessPull_def cmdno_defs)
  next
    case 3
    have "carried_out E x msg w = ProcessStopPush msg w" using 3 by (simp add: carried_out_def RwProcessRtcMsg_def cmdno_defs)
    then show ?thesis using 3 follows_step_bind[of msg "\<lambda>_ _. msg" w] by (simp add: ProcessStopPush_def cmdno_defs)
  next
    case 4
    have "carried_out E x msg w = ProcessStopPull msg w" using 4 by (simp add: carried_out_def RwProcessRtcMsg_def cmdno_defs)
    then show ?thesis using 4 follows_step_bind[of msg "\<lambda>_ _. msg" w] by (simp add: ProcessStopPull_def cmdno_defs)
  next
    case 5
    have "carried_out E x msg w = ProcessAnswer E msg w" using 5 by (simp add: carried_out_def RwProcessRtcMsg_def cmdno_defs)
    then show ?thesis using 5 follows_step_bind[of msg "\<lambda>_ _. msg" w] by (simp add: ProcessAnswer_def cmdno_defs)
  qed
qed

lemma request_event_keys:
  assumes "is_request msg" "mgr_step L P (request_event x msg) m = Inr m'"
  shows "dom (mg_push m') \<subseteq> (if rm_cmdno msg = CMDNO_PUSH then insert (rm_stream_name msg) (dom (mg_push m)) else dom (mg_push m))"
proof -
  have sub: "dom (mg_push m') \<subseteq> dom (mg_push m) \<Longrightarrow> ?thesis" by auto
  consider "rm_cmdno msg = CMDNO_PUSH" | "rm_cmdno msg = CMDNO_PULL" | "rm_cmdno msg = CMDNO_STOPPUSH"
    | "rm_cmdno msg = CMDNO_STOPPULL" | "rm_cmdno msg = CMDNO_ANSWER"
    using assms by (auto simp: is_request_def)
  then show ?thesis
  proof cases
    case 1
    then show ?thesis using assms(2) by (auto simp: and_then_Inr simp del: domIff dest!: CreatePushStream_keys)
  next
    case 2
    then show ?thesis using assms(2) by (intro sub) (auto simp: and_then_Inr cmdno_defs dest!: CreatePullStream_keys; blast)
  next
    case 3
    then show ?thesis using assms(2) by (intro sub) (auto simp: and_then_Inr cmdno_defs dest!: Stop_keys(1); blast)
  next
    case 4
    then show ?thesis using assms(2) by (intro sub) (auto simp: and_then_Inr cmdno_defs dest!: Stop_keys(2); blast)
  next
    case 5
    then show ?thesis using assms(2) by (intro sub) (auto simp: and_then_Inr cmdno_defs dest!: SetAnswer_keys)
  qed
qed

lemma request_admitted: "mg_heap m x = None \<Longrightarrow> mgr_admitted m (request_event x msg)"
  by simp

subsection \<open>Reachable servers\<close>

text \<open>The worker a message goes to when there are \<open>n\<close> workers.\<close>

definition home :: "('s, 'b) server_lib_scheme \<Rightarrow> int \<Rightarrow> rtc_msg \<Rightarrow> nat" where
  "home E n msg = (if rm_cmdno msg = CMDNO_PULL \<or> rm_cmdno msg = CMDNO_STOPPULL \<or>
       (rm_cmdno msg = CMDNO_ANSWER \<and> rm_stream_type msg = ''pull'')
     then unat (rm_uid msg) mod nat n else unat (crc E (rm_stream_name msg)) mod nat n)"

definition worker_ok :: "seq_lib \<Rightarrow> ('s, 'b) server_lib_scheme \<Rightarrow> int \<Rightarrow> nat \<Rightarrow> 's rtc_worker \<Rightarrow> bool" where
  "worker_ok L E n i w \<longleftrightarrow> mgr_reachable L E (rw_mgr w) \<and>
     (\<forall>name\<in>dom (mg_push (rw_mgr w)). unat (crc E name) mod nat n = i) \<and> (\<forall>msg\<in>set (rw_queue w). home E n msg = i)"

definition server_ok :: "seq_lib \<Rightarrow> ('s, 'b) server_lib_scheme \<Rightarrow> int \<Rightarrow> 's rtc_server \<Rightarrow> bool" where
  "server_ok L E n s \<longleftrightarrow> rv_worker_num s = n \<and> length (rv_workers s) = nat n \<and>
     (\<forall>i<length (rv_workers s). worker_ok L E n i (rv_workers s ! i))"

lemma mgr_step_total:
  "mgr_reachable L P m \<Longrightarrow> mgr_admitted m e \<Longrightarrow> \<exists>m'. mgr_step L P e m = Inr m'"
  using wpD[OF mgr_step_wp[OF mgr_reachable_ok, of L P m e L P]] by blast

lemma carried_out_ok:
  assumes "worker_ok L E n i w0" "rw_queue w0 = msg # msgs" "mg_heap (rw_mgr w0) x = None"
  shows "\<exists>w'. RwProcessRtcMsg E x w0 = Inr w' \<and> worker_ok L E n i w' \<and> rw_queue w' = msgs \<and>
    (is_request msg \<and> rm_worker msg \<noteq> None \<longrightarrow> (\<exists>msg'. answered msg msg' \<and> rw_posted w' = rw_posted w0 @ [msg']))"
proof -
  let ?w = "w0\<lparr>rw_queue := msgs\<rparr>"
  have c: "RwProcessRtcMsg E x w0 = carried_out E x msg ?w"
    using assms(2) unfolding carried_out_def by (simp add: RwProcessRtcMsg_def)
  have h: "home E n msg = i" and q: "\<forall>msg\<in>set msgs. home E n msg = i" using assms(1,2) by (auto simp: worker_ok_def)
  show ?thesis
  proof (cases "is_request msg")
    case True
    obtain m' where m': "mgr_step L E (request_event x msg) (rw_mgr w0) = Inr m'"
      using mgr_step_total[of L E "rw_mgr w0" "request_event x msg"] assms(1,3) request_admitted
      by (auto simp: worker_ok_def simp del: request_event.simps)
    have "follows_step msg ?w (Inr m') (carried_out E x msg ?w)"
      using carried_out_step[OF True, of ?w L E x] m' by (simp del: request_event.simps)
    then obtain w' where w': "carried_out E x msg ?w = Inr w'" "rw_mgr w' = m'" "rw_queue w' = msgs"
      "rm_worker msg \<noteq> None \<longrightarrow> (\<exists>msg'. answered msg msg' \<and> rw_posted w' = rw_posted w0 @ [msg'])"
      by (auto simp: follows_step_def split: sum.splits)
    have reach: "mgr_reachable L E m'"
      using assms(1,3) m' request_admitted by (auto simp: worker_ok_def simp del: request_event.simps intro: mgr_next)
    from h have "rm_cmdno msg = CMDNO_PUSH \<Longrightarrow> unat (crc E (rm_stream_name msg)) mod nat n = i"
      by (simp add: home_def cmdno_defs)
    moreover have "name = rm_stream_name msg \<and> rm_cmdno msg = CMDNO_PUSH \<or> name \<in> dom (mg_push (rw_mgr w0))"
      if "name \<in> dom (mg_push m')" for name
      using subsetD[OF request_event_keys[OF True m'] that] by (simp split: if_splits)
    ultimately have "\<forall>name\<in>dom (mg_push m'). unat (crc E name) mod nat n = i"
      using assms(1) unfolding worker_ok_def by blast
    with reach have "worker_ok L E n i w'" using w' q by (simp add: worker_ok_def)
    then show ?thesis using c w' by simp
  next
    case False
    then have "carried_out E x msg ?w = Inr ?w" by (simp add: carried_out_def RwProcessRtcMsg_def is_request_def)
    then show ?thesis using c False assms(1) q by (auto simp: worker_ok_def)
  qed
qed

lemma server_ok_update:
  assumes "server_ok L E n s" "i < length (rv_workers s)" "worker_ok L E n i w"
  shows "server_ok L E n (s\<lparr>rv_workers := (rv_workers s)[i := w]\<rparr>)"
  using assms by (auto simp: server_ok_def nth_list_update)

lemma route_home:
  assumes "server_ok L E n s" "route E msg (s\<lparr>rv_queue := q\<rparr>) = Some i"
  shows "i = home E n msg \<and> i < length (rv_workers s)"
  using assms by (auto simp: server_ok_def route_def GetWorkerByUid_def GetWorkerByName_def home_def split: if_splits)

lemma rtc_step_ok:
  assumes "server_ok L E n s" "rtc_admitted s e"
  shows "\<exists>s'. rtc_step L E e s = Inr s' \<and> server_ok L E n s'"
proof (cases e)
  case (RvSubmit msg)
  then show ?thesis using assms(1) by (simp add: SendRtcMsg_def server_ok_def)
next
  case (RvRoute cert_ok)
  have frame: "server_ok L E n (s\<lparr>rv_queue := q\<rparr>)" for q using assms(1) by (simp add: server_ok_def)
  have "server_ok L E n (SvProcessRtcMsg E cert_ok s)"
  proof (cases "rv_queue s")
    case (Cons msg msgs)
    let ?s = "s\<lparr>rv_queue := msgs\<rparr>" and ?msg = "msg\<lparr>rm_certificate := True\<rparr>"
    show ?thesis
    proof (cases "cert_ok \<and> route E msg ?s \<noteq> None")
      case True
      then obtain i where r: "route E msg ?s = Some i" by auto
      note i = route_home[OF assms(1) r]
      have "home E n ?msg = home E n msg" by (simp add: home_def)
      then have "worker_ok L E n i (RwSendRtcMsg ?msg (rv_workers s ! i))"
        using assms(1) i by (auto simp: server_ok_def worker_ok_def RwSendRtcMsg_def)
      from server_ok_update[OF frame, of i msgs, OF _ this] show ?thesis
        using i True r Cons by (simp add: SvProcessRtcMsg_def Let_def)
    qed (use Cons frame in \<open>auto simp: SvProcessRtcMsg_def Let_def\<close>)
  qed (use assms(1) in \<open>simp add: SvProcessRtcMsg_def\<close>)
  then show ?thesis using RvRoute by simp
next
  case (RvProcess i x)
  then have i: "i < length (rv_workers s)" "mg_heap (rw_mgr (rv_workers s ! i)) x = None" using assms(2) by simp_all
  then have w: "worker_ok L E n i (rv_workers s ! i)" using assms(1) by (simp add: server_ok_def)
  have "\<exists>w'. RwProcessRtcMsg E x (rv_workers s ! i) = Inr w' \<and> worker_ok L E n i w'"
  proof (cases "rw_queue (rv_workers s ! i)")
    case Nil
    then show ?thesis using w by (simp add: RwProcessRtcMsg_def)
  next
    case (Cons msg msgs)
    then show ?thesis using carried_out_ok[OF w Cons i(2)] by blast
  qed
  then show ?thesis using RvProcess server_ok_update[OF assms(1) i(1)] by (auto simp: at_worker_def)
next
  case (RvStream i ev)
  then have i: "i < length (rv_workers s)" "callback ev" "mgr_admitted (rw_mgr (rv_workers s ! i)) ev" using assms(2) by simp_all
  then have w: "worker_ok L E n i (rv_workers s ! i)" using assms(1) by (simp add: server_ok_def)
  then obtain m' where m': "mgr_step L E ev (rw_mgr (rv_workers s ! i)) = Inr m'"
    using mgr_step_total[of L E "rw_mgr (rv_workers s ! i)" ev] i(3) unfolding worker_ok_def by blast
  have "dom (mg_push m') \<subseteq> dom (mg_push (rw_mgr (rv_workers s ! i)))"
    using pushes_callback[OF i(2) subset_refl, where L = L and P = E and m = "rw_mgr (rv_workers s ! i)"] m' by simp
  then have "worker_ok L E n i ((rv_workers s ! i)\<lparr>rw_mgr := m'\<rparr>)"
    using w m' i(3) by (auto simp: worker_ok_def intro: mgr_next)
  then show ?thesis using RvStream m' server_ok_update[OF assms(1) i(1)] by (auto simp: at_worker_def)
qed

lemma rtc_reachable_ok: "rtc_reachable L E n s \<Longrightarrow> server_ok L E n s"
proof (induction rule: rtc_reachable.induct)
  case rtc_init
  have "worker_ok L E n i RtcWorker" for i
    by (simp add: worker_ok_def RtcWorker_def mgr_init) (simp add: RtcStreamManager_def)
  then show ?case by (simp add: server_ok_def RtcServer_def)
next
  case (rtc_next s e s')
  then show ?case using rtc_step_ok[OF rtc_next.IH rtc_next.hyps(2)] by simp
qed

text \<open>
  C19: whatever requests and callbacks come, no worker touches a deleted stream, and a publisher is
  only ever found on the worker its name's checksum selects.
\<close>

theorem rtc_server_safe:
  assumes "rtc_reachable L E n s" "rtc_admitted s e"
  shows "\<exists>s'. rtc_step L E e s = Inr s' \<and>
    (\<forall>i<length (rv_workers s'). \<forall>name p. FindPushStream name (rw_mgr (rv_workers s' ! i)) = Some p \<longrightarrow>
      unat (crc E name) mod nat n = i)"
  using rtc_step_ok[OF rtc_reachable_ok[OF assms(1)] assms(2)]
  by (fastforce simp: server_ok_def worker_ok_def FindPushStream_def)


text \<open>
  A pull request is routed by its user, its publisher by the checksum of the name: the answer
  is a success exactly when the publisher lives on the worker that got the request, and that
  needs the checksum and the user to select the same worker.
\<close>

theorem pull_needs_same_worker:
  assumes "rtc_reachable L E n s" "rtc_admitted s (RvProcess i x)" "rw_queue (rv_workers s ! i) = msg # msgs"
    and "rm_cmdno msg = CMDNO_PULL" "rm_worker msg \<noteq> None" "rm_err_no msg = 0"
  shows "\<exists>s' msg'. rtc_step L E (RvProcess i x) s = Inr s' \<and>
    rw_posted (rv_workers s' ! i) = rw_posted (rv_workers s ! i) @ [msg'] \<and>
    (rm_err_no msg' = 0 \<longleftrightarrow> FindPushStream (rm_stream_name msg) (rw_mgr (rv_workers s ! i)) \<noteq> None) \<and>
    (rm_err_no msg' = 0 \<longrightarrow> unat (crc E (rm_stream_name msg)) mod nat n = unat (rm_uid msg) mod nat n)"
proof -
  let ?w = "rv_workers s ! i"
  have i: "i < length (rv_workers s)" "mg_heap (rw_mgr ?w) x = None" using assms(2) by simp_all
  have w: "worker_ok L E n i ?w" using rtc_reachable_ok[OF assms(1)] i(1) by (simp add: server_ok_def)
  obtain w' where w': "RwProcessRtcMsg E x ?w = Inr w'" using carried_out_ok[OF w assms(3) i(2)] by blast
  let ?create = "CreatePullStream x (rm_uid msg) (rm_stream_name msg) (rm_audio msg \<noteq> 0) (rm_video msg \<noteq> 0)
      (rm_is_dtls msg \<noteq> 0) (rm_mode msg) (rw_mgr ?w)"
  have "RwProcessRtcMsg E x ?w = ProcessPull E x msg (?w\<lparr>rw_queue := msgs\<rparr>)"
    using assms(3,4) by (simp add: RwProcessRtcMsg_def cmdno_defs)
  then have "ProcessPull E x msg (?w\<lparr>rw_queue := msgs\<rparr>) = Inr w'" using w' by simp
  then obtain ret m where create: "?create = Inr (ret, m)" and
    "w' = post_result ret (msg\<lparr>rm_sdp := (if ret = 0 then offer E x else [])\<rparr>) (?w\<lparr>rw_queue := msgs, rw_mgr := m\<rparr>)"
    by (auto simp: ProcessPull_def and_then_Inr)
  then have posted: "\<exists>msg'. rw_posted w' = rw_posted ?w @ [msg'] \<and> (rm_err_no msg' = 0 \<longleftrightarrow> ret = 0)"
    using assms(5,6) by (cases "ret = 0") (auto simp: post_result_def Let_def)
  have "ret = 0 \<longleftrightarrow> FindPushStream (rm_stream_name msg) (rw_mgr ?w) \<noteq> None"
    using create by (auto simp: CreatePullStream_def and_then_Inr Let_def split: option.splits if_splits)
  moreover have "unat (crc E (rm_stream_name msg)) mod nat n = unat (rm_uid msg) mod nat n"
    if "FindPushStream (rm_stream_name msg) (rw_mgr ?w) \<noteq> None"
    using w that assms(3,4) by (auto simp: worker_ok_def home_def FindPushStream_def cmdno_defs)
  ultimately show ?thesis using posted w' i(1) by (auto simp: at_worker_def)
qed

subsection \<open>Instances\<close>

text \<open>Two workers; the checksum sends the name to the first one, user 1 goes to the second.\<close>

definition demo_env :: "nat server_lib" where
  "demo_env = \<lparr>description_of = (\<lambda>_. None), rtp_parses = (\<lambda>_. True), crc = (\<lambda>_. 0), offer = (\<lambda>_. ''o'')\<rparr>"

definition demo_req :: "int \<Rightarrow> rtc_msg" where
  "demo_req cmd = RtcMsg\<lparr>rm_cmdno := cmd, rm_uid := 1, rm_stream_name := ''s'', rm_audio := 1, rm_video := 1,
     rm_mode := ''live'', rm_worker := Some 0, rm_conn := Some 0, rm_fd := 5\<rparr>"

definition demo_server :: "nat rtc_server" where
  "demo_server = \<lparr>rv_worker_num = 2,
     rv_workers = [
       \<lparr>rw_queue = [], rw_mgr = \<lparr>mg_heap = [0 \<mapsto> demo_push], mg_push = [''s'' \<mapsto> 0], mg_pull = Map.empty, mg_multi = Map.empty,
          mg_out = [MoOffer 0 (PushOffer demo_push)]\<rparr>, rw_posted = [demo_req 1\<lparr>rm_sdp := ''o'', rm_certificate := True\<rparr>]\<rparr>,
       \<lparr>rw_queue = [demo_req 2\<lparr>rm_certificate := True\<rparr>], rw_mgr = RtcStreamManager, rw_posted = []\<rparr>],
     rv_queue = []\<rparr>"

fun rtc_run :: "seq_lib \<Rightarrow> ('s, 'b) server_lib_scheme \<Rightarrow> rtc_event list \<Rightarrow> 's rtc_server \<Rightarrow> 's rtc_server option" where
  "rtc_run L E [] s = Some s"
| "rtc_run L E (e # es) s =
     (if rtc_admitted s e then case rtc_step L E e s of Inl _ \<Rightarrow> None | Inr s' \<Rightarrow> rtc_run L E es s' else None)"

lemma rtc_run_reachable: "rtc_run L E es s = Some s' \<Longrightarrow> rtc_reachable L E n s \<Longrightarrow> rtc_reachable L E n s'"
  by (induction es arbitrary: s) (auto split: if_splits sum.splits intro: rtc_next)

lemma demo_server_reachable: "rtc_reachable L demo_env 2 demo_server"
proof (rule rtc_run_reachable[OF _ rtc_init])
  show "rtc_run L demo_env [RvSubmit (demo_req 1), RvRoute True, RvProcess 0 0, RvSubmit (demo_req 2), RvRoute True] (RtcServer 2)
      = Some demo_server"
    by (simp add: RtcServer_def SendRtcMsg_def SvProcessRtcMsg_def route_def GetWorkerByName_def GetWorkerByUid_def demo_req_def
        RtcMsg_def cmdno_defs demo_env_def RwSendRtcMsg_def at_worker_def RwProcessRtcMsg_def ProcessPush_def post_result_def
        RtcWorker_def manager_code PushOffer_def demo_server_def demo_push_def numeral_2_eq_2)
qed

lemma demo_server_simps:
  "rtc_admitted demo_server (RvProcess 1 0)" "rw_queue (rv_workers demo_server ! 1) = [demo_req 2\<lparr>rm_certificate := True\<rparr>]"
  "rw_mgr (rv_workers demo_server ! 1) = RtcStreamManager" "rw_posted (rv_workers demo_server ! 1) = []"
  "is_request (demo_req 2\<lparr>rm_certificate := True\<rparr>)" "rm_worker (demo_req 2\<lparr>rm_certificate := True\<rparr>) \<noteq> None"
  "rm_cmdno (demo_req 2\<lparr>rm_certificate := True\<rparr>) = CMDNO_PULL" "rm_err_no (demo_req 2\<lparr>rm_certificate := True\<rparr>) = 0"
  by (simp_all add: demo_server_def RtcStreamManager_def is_request_def demo_req_def cmdno_defs RtcMsg_def)

theorem rtc_server_safe_witness: "\<exists>s'. rtc_step webrtc_seq demo_env (RvProcess 1 0) demo_server = Inr s'"
  using rtc_server_safe[OF demo_server_reachable demo_server_simps(1)] by blast


theorem pull_needs_same_worker_witness:
  "\<exists>s' msg. rtc_step webrtc_seq demo_env (RvProcess 1 0) demo_server = Inr s' \<and> rw_posted (rv_workers s' ! 1) = [msg] \<and> rm_err_no msg \<noteq> 0"
proof -
  have "FindPushStream name (rw_mgr (rv_workers demo_server ! 1)) = None" for name
    using demo_server_simps(3) by (simp add: FindPushStream_def RtcStreamManager_def)
  then show ?thesis
    using pull_needs_same_worker[OF demo_server_reachable demo_server_simps(1,2,7,6,8), of webrtc_seq] demo_server_simps(4) by fastforce
qed

end
