(* ===== verification/SignalingFrames.thy ===== *)
theory SignalingFrames
  imports Signaling
begin

text \<open>
  The framing of requests and replies: however TCP cuts the stream, a request is handed over
  exactly once; a client that goes on sending makes the reader spin for ever; a reply reaches
  the socket whole and in order once the socket takes it, and the writer spins while it does not.
\<close>

subsection \<open>The query buffer\<close>

abbreviation body_of :: "bytes \<Rightarrow> bytes" where
  "body_of b \<equiv> take (unat (xh_body_len b)) (drop XHEAD_SIZE b)"

abbreviation body_size :: "bytes \<Rightarrow> nat" where
  "body_size b \<equiv> unat (xh_body_len b)"

definition request_msg :: "rtc_msg \<Rightarrow> nat \<Rightarrow> nat \<Rightarrow> int \<Rightarrow> bytes \<Rightarrow> rtc_msg" where
  "request_msg m worker p fd b = m\<lparr>rm_log_id := xh_log_id b, rm_worker := Some worker, rm_conn := Some p, rm_fd := fd\<rparr>"

lemma xh_take [simp]: "xh_log_id (take XHEAD_SIZE b) = xh_log_id b"
  by (simp add: xh_log_id_def XHEAD_SIZE_def drop_take min_def)

lemma xh_append:
  assumes "XHEAD_SIZE \<le> length b"
  shows "xh_log_id (b @ d) = xh_log_id b" "xh_magic_num (b @ d) = xh_magic_num b" "xh_body_len (b @ d) = xh_body_len b"
  using assms by (simp_all add: xh_log_id_def xh_magic_num_def xh_body_len_def XHEAD_SIZE_def)

lemma pqb_short:
  "length (querybuf c) < bytes_processed c + bytes_expected c \<Longrightarrow> ProcessQueryBuffer J ok wid p c q = Some (0, c, q)"
  by (subst ProcessQueryBuffer.simps) simp

lemma pqb_head:
  assumes "current_state c = STATE_HEAD" "bytes_processed c + bytes_expected c \<le> length (querybuf c)"
  shows "ProcessQueryBuffer J ok wid p c q =
    (if xh_magic_num (querybuf c) \<noteq> XHEAD_MAGIC_NUM then Some (-1, c, q)
     else ProcessQueryBuffer J ok wid p (c\<lparr>current_state := STATE_BODY, bytes_processed := XHEAD_SIZE,
       bytes_expected := body_size (querybuf c)\<rparr>) q)"
  using assms by (subst ProcessQueryBuffer.simps) auto

lemma pqb_body:
  assumes "current_state c = STATE_BODY" "bytes_processed c + bytes_expected c \<le> length (querybuf c)"
  shows "ProcessQueryBuffer J ok wid p c q =
    (case request_of J (body_of (querybuf c)) of
       None \<Rightarrow> Some (-1, c, q)
     | Some m \<Rightarrow>
         if \<not> ok then Some (-1, c, q @ [request_msg m wid p (tc_fd c) (querybuf c)])
         else ProcessQueryBuffer J ok wid p (c\<lparr>bytes_processed := 65535\<rparr>)
           (q @ [request_msg m wid p (tc_fd c) (querybuf c)]))"
  using assms
  by (subst ProcessQueryBuffer.simps) (simp add: ProcessRequest_def request_msg_def Let_def split: option.split)

text \<open>A buffer the loop never leaves: the request is handed over again and again.\<close>

definition spins :: "('j, 'a) json_lib_scheme \<Rightarrow> bool \<Rightarrow> tcp_conn \<Rightarrow> bool" where
  "spins J ok c \<longleftrightarrow> ok \<and> current_state c = STATE_BODY \<and> bytes_expected c = body_size (querybuf c) \<and>
     bytes_processed c \<le> 65535 \<and> 65535 + body_size (querybuf c) \<le> length (querybuf c) \<and>
     request_of J (body_of (querybuf c)) \<noteq> None"

lemma pqb_returns: "ProcessQueryBuffer J ok wid p c q = Some y \<Longrightarrow> \<not> spins J ok c"
proof (erule ProcessQueryBuffer.raw_induct[where P = "\<lambda>J ok wid p c q y. \<not> spins J ok c", rotated])
  fix pqb J ok wid p c q y
  assume IH: "\<And>J ok wid p c q y. pqb J ok wid p c q = Some y \<Longrightarrow> \<not> spins J ok c"
    and eq: "(if bytes_processed c + bytes_expected c \<le> length (querybuf c)
      then if current_state c = STATE_HEAD
        then if XHEAD_MAGIC_NUM \<noteq> xh_magic_num (querybuf c) then Some (- 1, c, q)
          else pqb J ok wid p (c\<lparr>current_state := STATE_BODY, bytes_processed := XHEAD_SIZE,
            bytes_expected := body_size (querybuf c)\<rparr>) q
        else let header = take XHEAD_SIZE (querybuf c); body = body_of (querybuf c);
            (ret, msgs) = ProcessRequest J ok wid p c header body
          in if ret \<noteq> 0 then Some (- 1, c, q @ msgs) else pqb J ok wid p (c\<lparr>bytes_processed := 65535\<rparr>) (q @ msgs)
      else Some (0, c, q)) = Some y"
  show "\<not> spins J ok c"
  proof
    assume s: "spins J ok c"
    then obtain m where m: "request_of J (body_of (querybuf c)) = Some m" by (auto simp: spins_def)
    have "pqb J ok wid p (c\<lparr>bytes_processed := 65535\<rparr>) (q @ [request_msg m wid p (tc_fd c) (querybuf c)]) = Some y"
      using eq s m by (simp add: spins_def ProcessRequest_def request_msg_def Let_def)
    from IH[OF this] show False using s by (simp add: spins_def)
  qed
qed

lemma pqb_spins: "spins J ok c \<Longrightarrow> ProcessQueryBuffer J ok wid p c q = None"
  using pqb_returns by (cases "ProcessQueryBuffer J ok wid p c q") blast+

text \<open>The whole loop on a connection that has read its header.\<close>

lemma pqb_unhandled:
  assumes "current_state c = STATE_BODY" "bytes_processed c = XHEAD_SIZE" "bytes_expected c = body_size (querybuf c)"
  shows "ProcessQueryBuffer J ok wid p c q =
    (if length (querybuf c) < XHEAD_SIZE + body_size (querybuf c) then Some (0, c, q)
     else case request_of J (body_of (querybuf c)) of
       None \<Rightarrow> Some (-1, c, q)
     | Some m \<Rightarrow>
         let q' = q @ [request_msg m wid p (tc_fd c) (querybuf c)] in
         if \<not> ok then Some (-1, c, q')
         else if 65535 + body_size (querybuf c) \<le> length (querybuf c) then None
         else Some (0, c\<lparr>bytes_processed := 65535\<rparr>, q'))"
proof (cases "length (querybuf c) < XHEAD_SIZE + body_size (querybuf c)")
  case False
  let ?c = "c\<lparr>bytes_processed := 65535\<rparr>"
  have "ProcessQueryBuffer J ok wid p ?c q' = (if 65535 + body_size (querybuf c) \<le> length (querybuf c) then None
      else Some (0, ?c, q'))" if "ok" "request_of J (body_of (querybuf c)) = Some m" for m q'
    using pqb_spins[of J ok ?c] pqb_short[of ?c] that assms by (auto simp: spins_def)
  then show ?thesis using False assms pqb_body[OF assms(1), of J ok wid p q] by (auto simp: Let_def split: option.split)
qed (use assms pqb_short[of c] in simp)

lemma pqb_handled:
  assumes "current_state c = STATE_BODY" "bytes_processed c = 65535" "bytes_expected c = body_size (querybuf c)"
    and "request_of J (body_of (querybuf c)) = Some m"
  shows "ProcessQueryBuffer J ok wid p c q =
    (if length (querybuf c) < 65535 + body_size (querybuf c) then Some (0, c, q)
     else if ok then None else Some (-1, c, q @ [request_msg m wid p (tc_fd c) (querybuf c)]))"
  using assms pqb_short[of c] pqb_body[OF assms(1), of J ok wid p q] pqb_spins[of J ok c]
  by (auto simp: spins_def)

subsection \<open>A request in pieces\<close>

text \<open>The state of a connection that has received the bytes \<open>b\<close> of one request, and of whatever follows it.\<close>

definition whole :: "bytes \<Rightarrow> bool" where
  "whole b \<longleftrightarrow> XHEAD_SIZE \<le> length b \<and> XHEAD_SIZE + body_size b \<le> length b"

definition framed :: "tcp_conn \<Rightarrow> bytes \<Rightarrow> tcp_conn" where
  "framed c b = c\<lparr>current_state := (if length b < XHEAD_SIZE then STATE_HEAD else STATE_BODY),
     bytes_processed := (if length b < XHEAD_SIZE then 0 else if whole b then 65535 else XHEAD_SIZE),
     bytes_expected := (if length b < XHEAD_SIZE then XHEAD_SIZE else body_size b), querybuf := b\<rparr>"

lemma framed_simps [simp]:
  "querybuf (framed c b) = b" "tc_fd (framed c b) = tc_fd c" "framed c b\<lparr>last_interaction := t\<rparr> = framed (c\<lparr>last_interaction := t\<rparr>) b"
  by (simp_all add: framed_def)

lemma whole_append: "whole b \<Longrightarrow> whole (b @ d) \<and> body_of (b @ d) = body_of b"
  by (auto simp: whole_def xh_append XHEAD_SIZE_def)

definition acceptable :: "('j, 'a) json_lib_scheme \<Rightarrow> bytes \<Rightarrow> bool" where
  "acceptable J b \<longleftrightarrow> (XHEAD_SIZE \<le> length b \<longrightarrow> xh_magic_num b = XHEAD_MAGIC_NUM \<and> length b < 65535 + body_size b) \<and>
     (whole b \<longrightarrow> request_of J (body_of b) \<noteq> None)"

lemma pqb_framed_body:
  assumes "acceptable J b" "XHEAD_SIZE \<le> length b" "d = framed c b\<lparr>bytes_processed := XHEAD_SIZE\<rparr>"
  shows "ProcessQueryBuffer J True wid p d q = Some (0, framed c b,
    q @ (if whole b then [request_msg (the (request_of J (body_of b))) wid p (tc_fd c) b] else []))"
proof -
  have "current_state d = STATE_BODY" "bytes_processed d = XHEAD_SIZE" "bytes_expected d = body_size (querybuf d)" "querybuf d = b"
    "tc_fd d = tc_fd c"
    using assms(2,3) by (simp_all add: framed_def)
  moreover have "d = framed c b" if "\<not> whole b" using assms(2,3) that by (simp add: framed_def)
  moreover have "d\<lparr>bytes_processed := 65535\<rparr> = framed c b" if "whole b" using assms(2,3) that by (simp add: framed_def)
  ultimately show ?thesis
    using assms(1,2) pqb_unhandled[of d J True wid p q] by (auto simp: acceptable_def whole_def Let_def)
qed

lemma pqb_framed:
  assumes "acceptable J (b @ d)"
  shows "ProcessQueryBuffer J True wid p (framed c b\<lparr>querybuf := b @ d\<rparr>) q = Some (0, framed c (b @ d),
    q @ (if whole (b @ d) \<and> \<not> whole b then [request_msg (the (request_of J (body_of (b @ d)))) wid p (tc_fd c) (b @ d)] else []))"
proof (cases "length b < XHEAD_SIZE")
  case True
  let ?c = "framed c b\<lparr>querybuf := b @ d\<rparr>"
  have nb: "\<not> whole b" using True by (simp add: whole_def)
  show ?thesis
  proof (cases "length (b @ d) < XHEAD_SIZE")
    case True
    then have "\<not> whole (b @ d)" "?c = framed c (b @ d)" using nb by (simp_all add: whole_def framed_def)
    then show ?thesis using pqb_short[of ?c] True by (simp add: framed_def)
  next
    case False
    let ?d = "framed c (b @ d)\<lparr>bytes_processed := XHEAD_SIZE\<rparr>"
    have d: "?c\<lparr>current_state := STATE_BODY, bytes_processed := XHEAD_SIZE, bytes_expected := body_size (b @ d)\<rparr> = ?d"
      using False by (simp add: framed_def)
    have "current_state ?c = STATE_HEAD" "bytes_processed ?c + bytes_expected ?c \<le> length (querybuf ?c)"
      using True False by (simp_all add: framed_def)
    from pqb_head[OF this, of J True wid p q] d have "ProcessQueryBuffer J True wid p ?c q = ProcessQueryBuffer J True wid p ?d q"
      using assms False by (simp add: acceptable_def)
    also have "\<dots> = Some (0, framed c (b @ d),
        q @ (if whole (b @ d) then [request_msg (the (request_of J (body_of (b @ d)))) wid p (tc_fd c) (b @ d)] else []))"
      using pqb_framed_body[OF assms _ refl] False by simp
    finally show ?thesis using nb by simp
  qed
next
  case False
  let ?c = "framed c b\<lparr>querybuf := b @ d\<rparr>"
  have B: "body_size (b @ d) = body_size b" using False by (simp add: xh_append)
  show ?thesis
  proof (cases "whole b")
    case True
    then have c: "whole (b @ d)" using whole_append by blast
    then have "?c = framed c (b @ d)" using True False B by (simp add: framed_def)
    moreover have "bytes_processed ?c + bytes_expected ?c > length (querybuf ?c)"
      using assms False True B by (simp add: acceptable_def framed_def)
    ultimately show ?thesis using pqb_short[of ?c] True by simp
  next
    case nb: False
    then have "?c = framed c (b @ d)\<lparr>bytes_processed := XHEAD_SIZE\<rparr>" using False B by (simp add: framed_def)
    from pqb_framed_body[OF assms _ this] False nb show ?thesis by simp
  qed
qed

text \<open>Reads that all deliver data.\<close>

fun deliver :: "('j, 'a) json_lib_scheme \<Rightarrow> u64 \<Rightarrow> int \<Rightarrow> bytes list \<Rightarrow> sig_worker \<Rightarrow> sig_result option" where
  "deliver J now fd [] w = Some (Inr w)"
| "deliver J now fd (d # ds) w =
     (case ReadQuery J True now fd (SockData d) w of
        Some (Inr w1) \<Rightarrow> deliver J now fd ds w1
      | r \<Rightarrow> r)"

lemma acceptable_prefix: "acceptable J (b @ d) \<Longrightarrow> acceptable J b"
  using whole_append[of b d] by (auto simp: acceptable_def xh_append)

lemma c_int_small: "n < 2147483648 \<Longrightarrow> c_int n = int n"
  by (simp add: c_int_def signed_of_nat signed_take_bit_int_eq_self)

lemma deliver_framed:
  assumes "0 \<le> fd" "nat fd < length (sw_conns w)" "sw_conns w ! nat fd = Some p" "sw_heap w p = Some (framed c b)"
    and "acceptable J (b @ concat ds)" "length (b @ concat ds) < 2147483648" "XHEAD_SIZE \<le> length b \<longrightarrow> body_size b < 2147483648"
    and "XHEAD_SIZE \<le> length (b @ concat ds) \<longrightarrow> body_size (b @ concat ds) < 2147483648"
  shows "\<exists>w' c'. deliver J now fd ds w = Some (Inr w') \<and> sw_conns w' = sw_conns w \<and> sw_heap w' p = Some (framed c' (b @ concat ds)) \<and>
    sw_server w' = sw_server w @ (if whole (b @ concat ds) \<and> \<not> whole b
      then [request_msg (the (request_of J (body_of (b @ concat ds)))) (sw_id w) p (tc_fd c) (b @ concat ds)] else [])"
  using assms
proof (induction ds arbitrary: w b c)
  case Nil
  then show ?case by auto
next
  case (Cons d ds)
  let ?c = "c\<lparr>last_interaction := now\<rparr>"
  let ?new = "\<lambda>b d. if whole (b @ d) \<and> \<not> whole b
      then [request_msg (the (request_of J (body_of (b @ d)))) (sw_id w) p (tc_fd c) (b @ d)] else []"
  let ?w = "put_conn p (framed ?c (b @ d)) (w\<lparr>sw_server := sw_server w @ ?new b d\<rparr>)"
  have acc: "acceptable J (b @ d)" using Cons.prems(5) acceptable_prefix[of J "b @ d" "concat ds"] by simp
  have "bytes_expected (framed c b) < 2147483648"
    using Cons.prems(7) by (simp add: framed_def XHEAD_SIZE_def)
  then have "\<not> c_int (bytes_expected (framed c b)) < 0" "\<not> c_int (length b) < 0"
    using Cons.prems(6) by (simp_all add: c_int_small)
  moreover have "ProcessQueryBuffer J True (sw_id w) p ((framed c b)\<lparr>last_interaction := now, querybuf := b @ d\<rparr>) []
      = Some (0, framed ?c (b @ d), ?new b d)"
    using pqb_framed[OF acc, of "sw_id w" p ?c "[]"] by simp
  ultimately have step: "ReadQuery J True now fd (SockData d) w = Some (Inr ?w)"
    using Cons.prems(1-4) by (simp add: ReadQuery_def Let_def)
  have h: "XHEAD_SIZE \<le> length (b @ d) \<longrightarrow> body_size (b @ d) < 2147483648"
    using Cons.prems(8) xh_append(3)[of "b @ d" "concat ds"] by auto
  have "\<exists>w' c'. deliver J now fd ds ?w = Some (Inr w') \<and> sw_conns w' = sw_conns ?w \<and>
      sw_heap w' p = Some (framed c' ((b @ d) @ concat ds)) \<and>
      sw_server w' = sw_server ?w @ (if whole ((b @ d) @ concat ds) \<and> \<not> whole (b @ d)
        then [request_msg (the (request_of J (body_of ((b @ d) @ concat ds)))) (sw_id ?w) p (tc_fd ?c) ((b @ d) @ concat ds)] else [])"
    using Cons.prems h by (intro Cons.IH) (simp_all add: put_conn_def)
  then obtain w' c' where w': "deliver J now fd ds ?w = Some (Inr w')" "sw_conns w' = sw_conns w"
    "sw_heap w' p = Some (framed c' (b @ d @ concat ds))"
    "sw_server w' = sw_server w @ ?new b d @ (if whole (b @ d @ concat ds) \<and> \<not> whole (b @ d)
        then [request_msg (the (request_of J (body_of (b @ d @ concat ds)))) (sw_id w) p (tc_fd c) (b @ d @ concat ds)] else [])"
    by (auto simp: put_conn_def)
  have "xh_log_id (b @ d @ concat ds) = xh_log_id (b @ d)" "body_of (b @ d @ concat ds) = body_of (b @ d)" "whole (b @ d @ concat ds)"
    if "whole (b @ d)"
    using whole_append[OF that, of "concat ds"] xh_append(1)[of "b @ d" "concat ds"] that by (auto simp: whole_def)
  then have late: "whole (b @ d) \<Longrightarrow> ?new b d = ?new b (d @ concat ds)" by (simp add: request_msg_def)
  have early: "\<not> whole (b @ d) \<Longrightarrow> \<not> whole b" using whole_append by blast
  have "sw_server w' = sw_server w @ ?new b (d @ concat ds)"
  proof (cases "whole (b @ d)")
    case True
    then show ?thesis using w'(4) unfolding late[OF True, symmetric] by simp
  next
    case False
    then show ?thesis using w'(4) early by simp
  qed
  then show ?case using step w'(1-3) by auto
qed

lemma fresh_framed: "TcpConnection fd t = framed (TcpConnection fd t) []"
  by (simp add: TcpConnection_def framed_def XHEAD_SIZE_def)

lemma deliver_fresh:
  assumes "0 \<le> fd" "nat fd < length (sw_conns w)" "sw_conns w ! nat fd = Some p" "sw_heap w p = Some (TcpConnection fd t)"
    and "acceptable J b" "concat ds = b" "length b < 2147483648" "XHEAD_SIZE \<le> length b \<longrightarrow> body_size b < 2147483648"
  shows "\<exists>w' c'. deliver J now fd ds w = Some (Inr w') \<and> sw_conns w' = sw_conns w \<and> sw_heap w' p = Some (framed c' b) \<and>
    sw_server w' = sw_server w @ (if whole b then [request_msg (the (request_of J (body_of b))) (sw_id w) p fd b] else [])"
proof -
  have "\<not> whole []" "tc_fd (TcpConnection fd t) = fd" by (simp_all add: whole_def XHEAD_SIZE_def TcpConnection_def)
  moreover have "XHEAD_SIZE \<le> length ([] :: bytes) \<longrightarrow> body_size [] < 2147483648" by (simp add: XHEAD_SIZE_def)
  ultimately show ?thesis
    using deliver_framed[of fd w p "TcpConnection fd t" "[]" J ds now] assms
    unfolding fresh_framed[of fd t, symmetric] append_Nil assms(6) by (cases "whole b") simp_all
qed

text \<open>What a prefix \<open>b\<close> of a valid request with anything after it looks like.\<close>

lemma prefix_acceptable:
  assumes "length head = XHEAD_SIZE" "xh_magic_num head = XHEAD_MAGIC_NUM" "body_size head = length body" "request_of J body = Some m"
    and "b @ rest = head @ body @ extra" "length b < 65535 + length body"
  shows "acceptable J b" "whole b \<longleftrightarrow> XHEAD_SIZE + length body \<le> length b"
    "XHEAD_SIZE \<le> length b \<Longrightarrow> body_size b = length body \<and> xh_log_id b = xh_log_id head"
    "whole b \<Longrightarrow> body_of b = body"
proof -
  have head: "head = take XHEAD_SIZE b" if "XHEAD_SIZE \<le> length b"
    using arg_cong[OF assms(5), of "take XHEAD_SIZE"] assms(1) that by simp
  have b: "b = head @ drop XHEAD_SIZE b" if "XHEAD_SIZE \<le> length b" using head[OF that] by (metis append_take_drop_id)
  show h: "body_size b = length body \<and> xh_log_id b = xh_log_id head" if "XHEAD_SIZE \<le> length b"
    using b[OF that] xh_append[of head "drop XHEAD_SIZE b"] assms(1,3) by simp
  then show w: "whole b \<longleftrightarrow> XHEAD_SIZE + length body \<le> length b" by (auto simp: whole_def)
  have magic: "xh_magic_num b = XHEAD_MAGIC_NUM" if "XHEAD_SIZE \<le> length b"
    using b[OF that] xh_append(2)[of head "drop XHEAD_SIZE b"] assms(1,2) by simp
  show bo: "body_of b = body" if "whole b"
  proof -
    have l: "XHEAD_SIZE + length body \<le> length b" using that w by simp
    then have "drop XHEAD_SIZE b @ rest = body @ extra"
      using arg_cong[OF assms(5), of "drop XHEAD_SIZE"] assms(1) by simp
    from arg_cong[OF this, of "take (length body)"] have "take (length body) (drop XHEAD_SIZE b) = body" using l by simp
    then show ?thesis using h l by simp
  qed
  show "acceptable J b" using h bo magic assms(4,6) by (auto simp: acceptable_def)
qed

text \<open>
  C7: a client sends a valid request, and possibly more. However the stream is cut into reads,
  the request is handed to the RTC server when its last byte has arrived, once, and not again for
  up to 65498 further bytes.
\<close>

theorem request_framing:
  assumes "0 \<le> fd" "nat fd < length (sw_conns w)" "sw_conns w ! nat fd = Some p" "sw_heap w p = Some (TcpConnection fd t)"
    and "length head = XHEAD_SIZE" "xh_magic_num head = XHEAD_MAGIC_NUM" "body_size head = length body" "request_of J body = Some m"
    and "concat ds @ rest = head @ body @ extra" "length (concat ds) < 65535 + length body" "length body < 2147418113"
  shows "\<exists>w'. deliver J now fd ds w = Some (Inr w') \<and> sw_server w' = sw_server w @
    (if XHEAD_SIZE + length body \<le> length (concat ds) then [request_msg m (sw_id w) p fd head] else [])"
proof -
  let ?b = "concat ds"
  note pre = prefix_acceptable[OF assms(5-8), OF assms(9,10)]
  have "request_msg m (sw_id w) p fd ?b = request_msg m (sw_id w) p fd head" if "whole ?b"
    using pre(3) that by (simp add: request_msg_def whole_def)
  then show ?thesis
    using deliver_fresh[OF assms(1-4) pre(1) refl, of now] pre(2,3,4) assms(8,10,11) by auto
qed

text \<open>
  A client that goes on sending after a request that was handed over stops the worker: the
  read that brings the total to 65535 bytes beyond the body never returns.
\<close>

theorem flooded_reader_never_returns:
  assumes "0 \<le> fd" "nat fd < length (sw_conns w)" "sw_conns w ! nat fd = Some p" "sw_heap w p = Some (TcpConnection fd t)"
    and "length head = XHEAD_SIZE" "xh_magic_num head = XHEAD_MAGIC_NUM" "body_size head = length body" "request_of J body = Some m"
    and "concat ds = head @ body @ extra" "length extra < 65499" "length body < 2147418113"
    and "deliver J now fd ds w = Some (Inr w1)" "65535 \<le> XHEAD_SIZE + length extra + length d"
  shows "ReadQuery J True now1 fd (SockData d) w1 = None"
proof -
  let ?b = "head @ body @ extra"
  have l: "length ?b < 65535 + length body" using assms(5,10) by (simp add: XHEAD_SIZE_def)
  note pre = prefix_acceptable[OF assms(5-8), of ?b "[]" extra, OF _ l]
  have whole: "whole ?b" using pre(2) assms(5) by simp
  obtain c where w1: "sw_conns w1 = sw_conns w" "sw_heap w1 p = Some (framed c ?b)"
    using deliver_fresh[OF assms(1-4) pre(1) assms(9), of now] pre(3) l assms(11,12) by auto
  have B: "body_size ?b = length body" using pre(3) assms(5) by simp
  have s: "spins J True (framed c ?b\<lparr>last_interaction := now1, querybuf := ?b @ d\<rparr>)"
    using whole whole_append[OF whole, of d] B pre(4) assms(5,8,13) xh_append(3)[of ?b d]
    by (simp add: spins_def framed_def)
  have "\<not> c_int (bytes_expected (framed c ?b)) < 0" "\<not> c_int (length ?b) < 0"
    using B l assms(5,11) by (simp_all add: c_int_small framed_def)
  then show ?thesis using assms(1-3) w1 pqb_spins[OF s] by (simp add: ReadQuery_def Let_def)
qed

end
