(* ===== verification/SignalingReplies.thy ===== *)
theory SignalingReplies
  imports SignalingFrames
begin

text \<open>
  The replies of a connection: what reaches the socket is the queued replies in order, the
  writer returns once the socket takes them and spins while it does not, and a response longer
  than its buffer makes it send memory behind the text.
\<close>

subsection \<open>The write loop\<close>

definition rp_slice :: "reply \<Rightarrow> bytes" where
  "rp_slice r = take (rp_size r) (rp_buf r)"

fun pending :: "nat \<Rightarrow> reply list \<Rightarrow> bytes" where
  "pending pos [] = []"
| "pending pos (r # rs) = drop pos (rp_slice r) @ concat (map rp_slice rs)"

definition replies_ok :: "tcp_conn \<Rightarrow> bool" where
  "replies_ok c \<longleftrightarrow> (\<forall>r\<in>set (reply_list c). 0 < rp_size r \<and> rp_size r \<le> length (rp_buf r)) \<and>
     (case reply_list c of [] \<Rightarrow> cur_resp_pos c = 0 | r # _ \<Rightarrow> cur_resp_pos c < rp_size r)"

text \<open>A write takes at most what it is offered.\<close>

definition sock_ok :: "(nat \<Rightarrow> nat \<Rightarrow> int) \<Rightarrow> bool" where
  "sock_ok sock \<longleftrightarrow> (\<forall>i n. - 1 \<le> sock i n \<and> sock i n \<le> int n)"

lemma write_loop_Nil: "reply_list c = [] \<Longrightarrow> write_loop sock i c sent = Some (Inr (True, c, sent))"
  by (subst write_loop.simps) simp

text \<open>The body of the loop, \<open>f\<close> standing for the next round.\<close>

lemma write_round:
  assumes "reply_list c = r # rs" "replies_ok c" "sock_ok sock" "n = sock i (rp_size r - cur_resp_pos c)"
  shows "(case reply_list c of
      [] \<Rightarrow> Some (Inr (True, c, sent))
    | reply # replies \<Rightarrow>
        let nwritten = sock i (rp_size reply - cur_resp_pos c);
            data = take (nat nwritten) (drop (cur_resp_pos c) (rp_buf reply))
        in if nwritten = -1 then Some (Inr (False, c, sent))
           else if nwritten = 0 then f sock (i + 1) c sent
           else if cur_resp_pos c + nat nwritten > length (rp_buf reply) then Some (Inl (ReplyOverrun (tc_fd c)))
           else if nat nwritten + cur_resp_pos c \<ge> rp_size reply
           then f sock (i + 1) (c\<lparr>reply_list := replies, cur_resp_pos := 0\<rparr>) (sent @ data)
           else f sock (i + 1) (c\<lparr>cur_resp_pos := cur_resp_pos c + nat nwritten\<rparr>) (sent @ data)) =
    (if n = -1 then Some (Inr (False, c, sent))
     else if n = 0 then f sock (i + 1) c sent
     else if rp_size r \<le> nat n + cur_resp_pos c
     then f sock (i + 1) (c\<lparr>reply_list := rs, cur_resp_pos := 0\<rparr>) (sent @ drop (cur_resp_pos c) (rp_slice r))
     else f sock (i + 1) (c\<lparr>cur_resp_pos := cur_resp_pos c + nat n\<rparr>)
       (sent @ take (nat n) (drop (cur_resp_pos c) (rp_slice r))))"
proof -
  have "-1 \<le> n" "n \<le> int (rp_size r - cur_resp_pos c)" using assms(3,4) by (simp_all add: sock_ok_def)
  moreover have "cur_resp_pos c < rp_size r" "rp_size r \<le> length (rp_buf r)" using assms(1,2) by (auto simp: replies_ok_def)
  moreover from calculation have "take (nat n) (drop (cur_resp_pos c) (rp_buf r)) = take (nat n) (drop (cur_resp_pos c) (rp_slice r))"
    by (simp add: rp_slice_def drop_take min_def)
  moreover from calculation have "take (nat n) (drop (cur_resp_pos c) (rp_slice r)) = drop (cur_resp_pos c) (rp_slice r)"
    if "rp_size r \<le> nat n + cur_resp_pos c"
    using that by (simp add: rp_slice_def)
  ultimately show ?thesis
    using assms(1,4) by (auto simp: Let_def)
qed

lemma write_loop_Cons:
  assumes "reply_list c = r # rs" "replies_ok c" "sock_ok sock" "n = sock i (rp_size r - cur_resp_pos c)"
  shows "write_loop sock i c sent =
    (if n = -1 then Some (Inr (False, c, sent))
     else if n = 0 then write_loop sock (i + 1) c sent
     else if rp_size r \<le> nat n + cur_resp_pos c
     then write_loop sock (i + 1) (c\<lparr>reply_list := rs, cur_resp_pos := 0\<rparr>) (sent @ drop (cur_resp_pos c) (rp_slice r))
     else write_loop sock (i + 1) (c\<lparr>cur_resp_pos := cur_resp_pos c + nat n\<rparr>)
       (sent @ take (nat n) (drop (cur_resp_pos c) (rp_slice r))))"
  by (subst write_loop.simps) (rule write_round[OF assms])

lemma replies_ok_next:
  assumes "replies_ok c" "reply_list c = r # rs"
  shows "replies_ok (c\<lparr>reply_list := rs, cur_resp_pos := 0\<rparr>)"
    "cur_resp_pos c + k < rp_size r \<Longrightarrow> replies_ok (c\<lparr>cur_resp_pos := cur_resp_pos c + k\<rparr>)"
  using assms by (auto simp: replies_ok_def split: list.splits)

lemma pending_next:
  "pending 0 rs = concat (map rp_slice rs)"
  "k \<le> length (rp_slice r) - pos \<Longrightarrow> take k (drop pos (rp_slice r)) @ pending (pos + k) (r # rs) = pending pos (r # rs)"
proof -
  show "pending 0 rs = concat (map rp_slice rs)" by (cases rs) simp_all
  have "take k (drop pos (rp_slice r)) @ drop (pos + k) (rp_slice r) = drop pos (rp_slice r)"
    by (metis append_take_drop_id drop_drop add.commute)
  then show "take k (drop pos (rp_slice r)) @ pending (pos + k) (r # rs) = pending pos (r # rs)" by simp
qed

definition loop_result :: "tcp_conn \<Rightarrow> bytes \<Rightarrow> sig_fault + bool \<times> tcp_conn \<times> bytes \<Rightarrow> bool" where
  "loop_result c sent res \<longleftrightarrow> (\<exists>alive rs pos s. res = Inr (alive, c\<lparr>reply_list := rs, cur_resp_pos := pos\<rparr>, sent @ s) \<and>
     s @ pending pos rs = pending (cur_resp_pos c) (reply_list c) \<and> (alive \<longrightarrow> rs = [] \<and> pos = 0))"

lemma loop_result_step:
  assumes "loop_result (c\<lparr>reply_list := rs, cur_resp_pos := pos\<rparr>) (sent @ s) res" "s @ pending pos rs = pending (cur_resp_pos c) (reply_list c)"
  shows "loop_result c sent res"
proof -
  obtain alive rs' pos' s' where "res = Inr (alive, c\<lparr>reply_list := rs', cur_resp_pos := pos'\<rparr>, sent @ s @ s')"
    "s' @ pending pos' rs' = pending pos rs" "alive \<longrightarrow> rs' = [] \<and> pos' = 0"
    using assms(1) by (auto simp: loop_result_def)
  then show ?thesis using assms(2) unfolding loop_result_def
    by (intro exI[of _ alive] exI[of _ rs'] exI[of _ pos'] exI[of _ "s @ s'"]) auto
qed

lemma write_loop_sound:
  "write_loop sock i c sent = Some res \<Longrightarrow> replies_ok c \<longrightarrow> sock_ok sock \<longrightarrow> loop_result c sent res"
proof (erule write_loop.raw_induct[where P = "\<lambda>sock i c sent res. replies_ok c \<longrightarrow> sock_ok sock \<longrightarrow> loop_result c sent res", rotated], intro impI)
  fix f sock c sent res and i :: nat
  assume IH: "\<And>sock i c sent res. f sock i c sent = Some res \<Longrightarrow> replies_ok c \<longrightarrow> sock_ok sock \<longrightarrow> loop_result c sent res"
    and eq: "(case reply_list c of
      [] \<Rightarrow> Some (Inr (True, c, sent))
    | reply # replies \<Rightarrow>
        let nwritten = sock i (rp_size reply - cur_resp_pos c);
            data = take (nat nwritten) (drop (cur_resp_pos c) (rp_buf reply))
        in if nwritten = -1 then Some (Inr (False, c, sent))
           else if nwritten = 0 then f sock (i + 1) c sent
           else if cur_resp_pos c + nat nwritten > length (rp_buf reply) then Some (Inl (ReplyOverrun (tc_fd c)))
           else if nat nwritten + cur_resp_pos c \<ge> rp_size reply
           then f sock (i + 1) (c\<lparr>reply_list := replies, cur_resp_pos := 0\<rparr>) (sent @ data)
           else f sock (i + 1) (c\<lparr>cur_resp_pos := cur_resp_pos c + nat nwritten\<rparr>) (sent @ data)) = Some res"
    and ok: "replies_ok c" "sock_ok sock"
  have stay: "loop_result c sent (Inr (a, c, sent))" if "a \<longrightarrow> reply_list c = []" for a
    using that ok(1) unfolding loop_result_def
    by (intro exI[of _ a] exI[of _ "reply_list c"] exI[of _ "cur_resp_pos c"] exI[of _ "[]"]) (auto simp: replies_ok_def)
  show "loop_result c sent res"
  proof (cases "reply_list c")
    case Nil
    then have "res = Inr (True, c, sent)" using eq by simp
    then show ?thesis using stay[of True] Nil by simp
  next
    case (Cons r rs)
    define n where "n = sock i (rp_size r - cur_resp_pos c)"
    have pos: "cur_resp_pos c < rp_size r" "length (rp_slice r) = rp_size r" using ok(1) Cons by (simp_all add: replies_ok_def rp_slice_def)
    have eq': "(if n = -1 then Some (Inr (False, c, sent))
       else if n = 0 then f sock (i + 1) c sent
       else if rp_size r \<le> nat n + cur_resp_pos c
       then f sock (i + 1) (c\<lparr>reply_list := rs, cur_resp_pos := 0\<rparr>) (sent @ drop (cur_resp_pos c) (rp_slice r))
       else f sock (i + 1) (c\<lparr>cur_resp_pos := cur_resp_pos c + nat n\<rparr>)
         (sent @ take (nat n) (drop (cur_resp_pos c) (rp_slice r)))) = Some res"
      using eq unfolding write_round[OF Cons ok n_def] .
    consider "n = -1" | "n = 0" | "n \<noteq> -1" "n \<noteq> 0" "rp_size r \<le> nat n + cur_resp_pos c"
      | "n \<noteq> -1" "n \<noteq> 0" "nat n + cur_resp_pos c < rp_size r" by linarith
    then show ?thesis
    proof cases
      case 1
      then show ?thesis using eq' stay[of False] by auto
    next
      case 2
      then show ?thesis using eq' IH[of sock "i + 1" c sent res] ok by simp
    next
      case 3
      then have "f sock (i + 1) (c\<lparr>reply_list := rs, cur_resp_pos := 0\<rparr>) (sent @ drop (cur_resp_pos c) (rp_slice r)) = Some res"
        using eq' by simp
      from IH[OF this] have "loop_result (c\<lparr>reply_list := rs, cur_resp_pos := 0\<rparr>) (sent @ drop (cur_resp_pos c) (rp_slice r)) res"
        using ok(2) replies_ok_next(1)[OF ok(1) Cons] by simp
      then show ?thesis by (rule loop_result_step) (simp add: Cons pending_next(1))
    next
      case 4
      then have "f sock (i + 1) (c\<lparr>cur_resp_pos := cur_resp_pos c + nat n\<rparr>) (sent @ take (nat n) (drop (cur_resp_pos c) (rp_slice r))) = Some res"
        using eq' by simp
      from IH[OF this] have "loop_result (c\<lparr>reply_list := reply_list c, cur_resp_pos := cur_resp_pos c + nat n\<rparr>)
          (sent @ take (nat n) (drop (cur_resp_pos c) (rp_slice r))) res"
        using ok replies_ok_next(2)[OF ok(1) Cons, of "nat n"] 4(3) by simp
      then show ?thesis
        by (rule loop_result_step) (use pending_next(2)[of "nat n" r "cur_resp_pos c" rs] 4(3) pos Cons in simp)
    qed
  qed
qed

subsection \<open>Waiting for the socket\<close>

lemma write_loop_waiting:
  "write_loop sock i c sent = Some res \<Longrightarrow> reply_list c \<noteq> [] \<longrightarrow> \<not> (\<forall>j\<ge>i. \<forall>n. sock j n = 0)"
proof (erule write_loop.raw_induct[where P = "\<lambda>sock i c sent res. reply_list c \<noteq> [] \<longrightarrow> \<not> (\<forall>j\<ge>i. \<forall>n. sock j n = 0)", rotated], intro impI notI)
  fix f sock c sent res and i :: nat
  assume IH: "\<And>sock i c sent res. f sock i c sent = Some res \<Longrightarrow> reply_list c \<noteq> [] \<longrightarrow> \<not> (\<forall>j\<ge>i. \<forall>n. sock j n = 0)"
    and eq: "(case reply_list c of
      [] \<Rightarrow> Some (Inr (True, c, sent))
    | reply # replies \<Rightarrow>
        let nwritten = sock i (rp_size reply - cur_resp_pos c);
            data = take (nat nwritten) (drop (cur_resp_pos c) (rp_buf reply))
        in if nwritten = -1 then Some (Inr (False, c, sent))
           else if nwritten = 0 then f sock (i + 1) c sent
           else if cur_resp_pos c + nat nwritten > length (rp_buf reply) then Some (Inl (ReplyOverrun (tc_fd c)))
           else if nat nwritten + cur_resp_pos c \<ge> rp_size reply
           then f sock (i + 1) (c\<lparr>reply_list := replies, cur_resp_pos := 0\<rparr>) (sent @ data)
           else f sock (i + 1) (c\<lparr>cur_resp_pos := cur_resp_pos c + nat nwritten\<rparr>) (sent @ data)) = Some res"
    and c: "reply_list c \<noteq> []" and idle: "\<forall>j\<ge>i. \<forall>n. sock j n = 0"
  have "sock i n = 0" for n using idle by simp
  then have "f sock (i + 1) c sent = Some res"
    using eq c by (cases "reply_list c") (simp_all add: Let_def)
  from IH[OF this] show False using c idle by auto
qed

text \<open>A socket that again and again takes something, or fails.\<close>

definition moving :: "(nat \<Rightarrow> nat \<Rightarrow> int) \<Rightarrow> bool" where
  "moving sock \<longleftrightarrow> (\<forall>i. \<exists>j\<ge>i. \<forall>n>0. sock j n \<noteq> 0)"

lemma write_loop_moves:
  assumes "reply_list c = r # rs" "replies_ok c" "sock_ok sock" "moving sock"
  shows "\<exists>j\<ge>i. sock j (rp_size r - cur_resp_pos c) \<noteq> 0 \<and> write_loop sock i c sent = write_loop sock j c sent"
proof -
  obtain j where j: "j \<ge> i" "\<forall>n>0. sock j n \<noteq> 0" using assms(4) by (auto simp: moving_def)
  have "rp_size r - cur_resp_pos c > 0" using assms(1,2) by (simp add: replies_ok_def)
  then have n: "sock j (rp_size r - cur_resp_pos c) \<noteq> 0" using j(2) by blast
  from j(1) n show ?thesis
  proof (induction "j - i" arbitrary: i)
    case 0
    then show ?case by auto
  next
    case (Suc k)
    show ?case
    proof (cases "sock i (rp_size r - cur_resp_pos c) = 0")
      case True
      have "k = j - (i + 1)" "i + 1 \<le> j" using Suc.hyps(2) by simp_all
      from Suc.hyps(1)[OF this n] obtain l where "l \<ge> i + 1" "sock l (rp_size r - cur_resp_pos c) \<noteq> 0"
        "write_loop sock (i + 1) c sent = write_loop sock l c sent" by blast
      moreover have "write_loop sock i c sent = write_loop sock (i + 1) c sent"
        using write_loop_Cons[OF assms(1-3) refl, of i sent] True by simp
      ultimately show ?thesis by (intro exI[of _ l]) simp
    qed blast
  qed
qed

lemma write_loop_returns:
  assumes "replies_ok c" "sock_ok sock" "moving sock"
  shows "\<exists>res. write_loop sock i c sent = Some res"
  using assms(1)
proof (induction "length (pending (cur_resp_pos c) (reply_list c))" arbitrary: i c sent rule: less_induct)
  case less
  show ?case
  proof (cases "reply_list c")
    case Nil
    then show ?thesis by (simp add: write_loop_Nil)
  next
    case (Cons r rs)
    obtain j where j: "sock j (rp_size r - cur_resp_pos c) \<noteq> 0" "write_loop sock i c sent = write_loop sock j c sent"
      using write_loop_moves[OF Cons less.prems assms(2,3)] by blast
    define n where "n = sock j (rp_size r - cur_resp_pos c)"
    have pos: "cur_resp_pos c < rp_size r" "length (rp_slice r) = rp_size r"
      using less.prems Cons by (simp_all add: replies_ok_def rp_slice_def)
    note loop = write_loop_Cons[OF Cons less.prems assms(2) n_def, of sent]
    consider "n = -1" | "n > 0" "rp_size r \<le> nat n + cur_resp_pos c" | "n > 0" "nat n + cur_resp_pos c < rp_size r"
      using j(1) assms(2) n_def unfolding sock_ok_def by (metis linorder_neqE_linordered_idom linorder_not_less zle_diff1_eq zle_iff_zadd diff_0)
    then show ?thesis
    proof cases
      case 1
      then show ?thesis using loop j(2) by simp
    next
      case 2
      let ?c = "c\<lparr>reply_list := rs, cur_resp_pos := 0\<rparr>"
      have "length (pending (cur_resp_pos ?c) (reply_list ?c)) < length (pending (cur_resp_pos c) (reply_list c))"
        using pos Cons by (simp add: pending_next(1))
      from less.hyps[OF this replies_ok_next(1)[OF less.prems Cons]] show ?thesis using loop j(2) 2 by simp
    next
      case 3
      let ?c = "c\<lparr>cur_resp_pos := cur_resp_pos c + nat n\<rparr>"
      have "length (pending (cur_resp_pos ?c) (reply_list ?c)) < length (pending (cur_resp_pos c) (reply_list c))"
        using pos Cons 3 by simp
      moreover have "replies_ok ?c" using replies_ok_next(2)[OF less.prems Cons, of "nat n"] 3(2) by simp
      ultimately show ?thesis using less.hyps[of ?c] loop j(2) 3 by simp
    qed
  qed
qed

text \<open>
  A socket that again and again takes something gets the queued replies, whole and in order;
  only an error ends the writing earlier, after a prefix of them, and then the connection is
  closed.
\<close>

theorem replies_written:
  assumes "0 < fd" "nat fd < length (sw_conns w)" "sw_conns w ! nat fd = Some p" "sw_heap w p = Some c" "tc_fd c = fd"
    and "replies_ok c" "sock_ok sock" "moving sock"
  shows "\<exists>w' sent rest. WriteReply now fd sock w = Some (Inr w') \<and> sent @ rest = pending (cur_resp_pos c) (reply_list c) \<and>
    (rest = [] \<and> sw_out w' = sw_out w @ [SoSent fd sent] \<and> (\<exists>c'. sw_heap w' p = Some c' \<and> reply_list c' = [] \<and> \<not> tc_write c') \<or>
     sw_out w' = sw_out w @ [SoSent fd sent, SoClosed fd] \<and> sw_heap w' p = None \<and> sw_conns w' ! nat fd = None)"
proof -
  obtain res where res: "write_loop sock 0 c [] = Some res" using write_loop_returns[OF assms(6-8)] by blast
  then have "loop_result c [] res" using write_loop_sound assms(6,7) by blast
  then obtain alive rs pos s where r: "res = Inr (alive, c\<lparr>reply_list := rs, cur_resp_pos := pos\<rparr>, s)"
    "s @ pending pos rs = pending (cur_resp_pos c) (reply_list c)" "alive \<longrightarrow> rs = [] \<and> pos = 0"
    by (auto simp: loop_result_def)
  show ?thesis
  proof (cases alive)
    case True
    then show ?thesis using res r assms(1-5)
      by (intro exI[of _ "put_conn p (c\<lparr>reply_list := rs, cur_resp_pos := pos, last_interaction := now, tc_write := False\<rparr>)
          (sw_emit (SoSent fd s) (put_conn p (c\<lparr>reply_list := rs, cur_resp_pos := pos\<rparr>) w))"] exI[of _ s] exI[of _ "[]"])
        (simp add: WriteReply_def Let_def put_conn_def sw_emit_def)
  next
    case False
    then show ?thesis using res r assms(1-5)
      by (intro exI[of _ "w\<lparr>sw_out := sw_out w @ [SoSent fd s, SoClosed fd],
          sw_conns := (sw_conns w)[nat fd := None], sw_heap := (sw_heap w)(p := None)\<rparr>"] exI[of _ s] exI[of _ "pending pos rs"])
        (simp add: WriteReply_def Let_def put_conn_def sw_emit_def CloseConn_def RemoveConn_def)
  qed
qed

text \<open>
  While a client does not read, the writer spins: with a reply queued and a socket that takes
  nothing, \<open>WriteReply\<close> never returns.
\<close>

theorem slow_reader_stops_worker:
  assumes "0 < fd" "nat fd < length (sw_conns w)" "sw_conns w ! nat fd = Some p" "sw_heap w p = Some c"
    and "reply_list c \<noteq> []" "\<forall>i n. sock i n = 0"
  shows "WriteReply now fd sock w = None"
proof -
  have "write_loop sock 0 c [] = None"
    using write_loop_waiting[of sock 0 c "[]"] assms(5,6) by (cases "write_loop sock 0 c []") auto
  then show ?thesis using assms(1-4) by (simp add: WriteReply_def)
qed

subsection \<open>The text of a response\<close>

lemma le_nat_bytes: "le_nat (le_bytes k n) = n mod 256 ^ k"
proof (induction k arbitrary: n)
  case (Suc k)
  have "unat (of_nat (n mod 256) :: u8) = n mod 256" by (simp add: unat_of_nat)
  then show ?case using Suc by (simp add: mod_mult2_eq)
qed simp

lemma length_le_bytes [simp]: "length (le_bytes k n) = k"
  by (induction k arbitrary: n) simp_all

lemma build_reply_short:
  assumes "length header = XHEAD_SIZE" "0 \<notin> set json" "length json < MAX_RES_BUF"
  shows "rp_slice (build_reply header json) = take 32 header @ le_bytes 4 (length json) @ json"
    "rp_size (build_reply header json) = XHEAD_SIZE + length json"
    "length (rp_buf (build_reply header json)) = XHEAD_SIZE + length json + 1"
proof -
  have l: "unat (of_nat (length json) :: u32) = length json"
    "unat (36 + of_nat (length json) :: u32) = 36 + length json"
    using assms(3) by (simp_all add: unat_of_nat unat_word_ariths MAX_RES_BUF_def)
  have "takeWhile (\<lambda>b. b \<noteq> 0) json = json" using assms(2) by (intro takeWhile_all) auto
  moreover have "take (MAX_RES_BUF - 1) json = json" using assms(3) by (simp add: MAX_RES_BUF_def)
  ultimately have t: "take (MAX_RES_BUF - 1) (takeWhile (\<lambda>b. b \<noteq> 0) json) = json" by (simp only:)
  show "rp_slice (build_reply header json) = take 32 header @ le_bytes 4 (length json) @ json"
    "rp_size (build_reply header json) = XHEAD_SIZE + length json"
    "length (rp_buf (build_reply header json)) = XHEAD_SIZE + length json + 1"
    unfolding build_reply_def rp_slice_def t
    using assms(1) l by (simp_all add: set_body_len_def XHEAD_SIZE_def Let_def)
qed

text \<open>
  A response whose text has fewer than 4096 bytes fits its buffer, and the client reads from
  it a frame with the header of its request, the length of the text and the text.
\<close>

theorem response_frame:
  assumes "length header = XHEAD_SIZE" "0 \<notin> set json" "length json < MAX_RES_BUF" "b = rp_slice (build_reply header json)"
  shows "rp_size (build_reply header json) \<le> length (rp_buf (build_reply header json)) \<and>
    whole b \<and> length b = XHEAD_SIZE + length json \<and> body_of b = json \<and>
    xh_log_id b = xh_log_id header \<and> xh_magic_num b = xh_magic_num header"
proof -
  note r = build_reply_short[OF assms(1-3)]
  have b: "b = take 32 header @ le_bytes 4 (length json) @ json" using r(1) assms(4) by simp
  have s: "body_size b = length json"
    using assms(1,3) by (simp add: b xh_body_len_def XHEAD_SIZE_def le_nat_bytes MAX_RES_BUF_def unat_of_nat)
  have "xh_log_id b = xh_log_id header" "xh_magic_num b = xh_magic_num header" "length b = XHEAD_SIZE + length json"
    using assms(1) by (simp_all add: b xh_log_id_def xh_magic_num_def XHEAD_SIZE_def drop_take min_def)
  moreover have "body_of b = json" using assms(1) s by (simp add: b XHEAD_SIZE_def)
  ultimately show ?thesis using r(2,3) s by (simp add: whole_def)
qed

text \<open>
  A longer response is cut to 4095 bytes in its buffer, but its slice still has the length of
  the whole text: once the socket takes it, the bytes sent reach beyond what was written.
\<close>

theorem long_response_overruns:
  assumes "0 < fd" "nat fd < length (sw_conns w)" "sw_conns w ! nat fd = Some p" "sw_heap w p = Some c" "tc_fd c = fd"
    and "reply_list c = [build_reply header json]" "cur_resp_pos c = 0" "length header = XHEAD_SIZE"
    and "MAX_RES_BUF < length json" "length json < 4294967260" "\<forall>i n. sock i n = int n"
  shows "WriteReply now fd sock w = Some (Inl (ReplyOverrun fd))"
proof -
  let ?r = "build_reply header json"
  have "unat (36 + of_nat (length json) :: u32) = 36 + length json"
    using assms(10) by (simp add: unat_of_nat unat_word_ariths)
  then have size: "rp_size ?r = 36 + length json" by (simp add: build_reply_def XHEAD_SIZE_def Let_def)
  have "length (rp_buf ?r) \<le> XHEAD_SIZE + MAX_RES_BUF"
    using assms(8) by (simp add: build_reply_def set_body_len_def XHEAD_SIZE_def MAX_RES_BUF_def Let_def)
  then have "length (rp_buf ?r) < rp_size ?r" using size assms(9) by (simp add: XHEAD_SIZE_def)
  then have "write_loop sock 0 c [] = Some (Inl (ReplyOverrun fd))"
    using assms(5-7,11) size by (subst write_loop.simps) (simp add: Let_def nat_add_distrib)
  then show ?thesis using assms(1-4) by (simp add: WriteReply_def)
qed

end
