(* ===== verification/SignalingSafe.thy ===== *)
theory SignalingSafe
  imports SignalingReplies
begin

text \<open>
  A signaling worker as a machine: accepted sockets, notifications, socket events, timers and
  responses posted by the RTC workers. Its table of connections always agrees with the live
  connections, so no event follows a null or dangling pointer or leaves the table; what remains
  are the faults caused by the lengths a client or a response announces.
\<close>

datatype sig_event =
    SeAccept int
  | SeNotify u64 nat sig_notify
  | SeIO bool u64 int "sock_read option" "(nat \<Rightarrow> nat \<Rightarrow> int) option"
  | SeTimer u64 nat
  | SePost rtc_msg

text \<open>\<open>NotifyNewConn\<close> and \<open>PushMsg\<close> only put into the queues of the worker.\<close>

definition NotifyNewConn :: "int \<Rightarrow> sig_worker \<Rightarrow> sig_worker" where
  "NotifyNewConn fd w = w\<lparr>sw_qconn := sw_qconn w @ [fd]\<rparr>"

definition PushMsg :: "rtc_msg \<Rightarrow> sig_worker \<Rightarrow> sig_worker" where
  "PushMsg msg w = w\<lparr>sw_qmsg := sw_qmsg w @ [msg]\<rparr>"

fun sig_step :: "('j, 'a) json_lib_scheme \<Rightarrow> sig_event \<Rightarrow> sig_worker \<Rightarrow> sig_result option" where
  "sig_step J (SeAccept fd) w = Some (Inr (NotifyNewConn fd w))"
| "sig_step J (SeNotify now p n) w = Some (ProcessNotify J now p n w)"
| "sig_step J (SeIO ok now fd r sock) w = ConnIOCb J ok now fd r sock w"
| "sig_step J (SeTimer now p) w = Some (ProcessTimeout now p w)"
| "sig_step J (SePost msg) w = Some (Inr (PushMsg msg w))"

text \<open>
  An accepted socket is not open in the worker already (0 to 2 are the standard streams); a new
  connection gets an unused address; sockets and timers report only for live connections, a
  read returns at most what was asked for, and a write takes at most what it is offered.
\<close>

fun sig_admitted :: "sig_worker \<Rightarrow> sig_event \<Rightarrow> bool" where
  "sig_admitted w (SeAccept fd) \<longleftrightarrow> 0 < fd \<and> fd \<notin> set (sw_qconn w) \<and> (\<forall>p c. sw_heap w p = Some c \<longrightarrow> tc_fd c \<noteq> fd)"
| "sig_admitted w (SeNotify now p n) \<longleftrightarrow> sw_heap w p = None"
| "sig_admitted w (SeIO ok now fd r sock) \<longleftrightarrow> (\<exists>p c. sw_heap w p = Some c \<and> tc_fd c = fd \<and>
     (case r of Some (SockData d) \<Rightarrow> d \<noteq> [] \<and> length d \<le> bytes_expected c | _ \<Rightarrow> True) \<and>
     (case sock of Some s \<Rightarrow> sock_ok s \<and> tc_write c | None \<Rightarrow> True))"
| "sig_admitted w (SeTimer now p) \<longleftrightarrow> p \<in> dom (sw_heap w)"
| "sig_admitted w (SePost msg) \<longleftrightarrow> True"

inductive sig_reachable :: "('j, 'a) json_lib_scheme \<Rightarrow> nat \<Rightarrow> int \<Rightarrow> sig_worker \<Rightarrow> bool" for J wid timeout where
  sig_init: "sig_reachable J wid timeout (SignalingWorker wid timeout)"
| sig_next: "sig_reachable J wid timeout w \<Longrightarrow> sig_admitted w e \<Longrightarrow> sig_step J e w = Some (Inr w') \<Longrightarrow>
    sig_reachable J wid timeout w'"

subsection \<open>The table of connections\<close>

definition conns_ok :: "sig_worker \<Rightarrow> bool" where
  "conns_ok w \<longleftrightarrow>
     (\<forall>i p. i < length (sw_conns w) \<longrightarrow> sw_conns w ! i = Some p \<longrightarrow> (\<exists>c. sw_heap w p = Some c \<and> tc_fd c = int i)) \<and>
     (\<forall>p c. sw_heap w p = Some c \<longrightarrow> 0 < tc_fd c \<and> nat (tc_fd c) < length (sw_conns w) \<and> sw_conns w ! nat (tc_fd c) = Some p) \<and>
     distinct (sw_qconn w) \<and>
     (\<forall>fd\<in>set (sw_qconn w). 0 < fd \<and> (\<forall>p c. sw_heap w p = Some c \<longrightarrow> tc_fd c \<noteq> fd))"

lemma conns_ok_entry:
  "conns_ok w \<Longrightarrow> i < length (sw_conns w) \<Longrightarrow> sw_conns w ! i = Some p \<Longrightarrow> \<exists>c. sw_heap w p = Some c \<and> tc_fd c = int i"
  by (simp add: conns_ok_def)

lemma conns_ok_live:
  "conns_ok w \<Longrightarrow> sw_heap w p = Some c \<Longrightarrow> 0 < tc_fd c \<and> nat (tc_fd c) < length (sw_conns w) \<and> sw_conns w ! nat (tc_fd c) = Some p"
  by (simp add: conns_ok_def)

lemma conns_ok_put: "conns_ok w \<Longrightarrow> sw_heap w p = Some c \<Longrightarrow> tc_fd c' = tc_fd c \<Longrightarrow> conns_ok (put_conn p c' w)"
  unfolding conns_ok_def put_conn_def by auto

lemma conns_ok_frame [simp]:
  "conns_ok (sw_emit e w) = conns_ok w" "conns_ok (w\<lparr>sw_server := q\<rparr>) = conns_ok w" "conns_ok (w\<lparr>sw_qmsg := m\<rparr>) = conns_ok w"
  by (simp_all add: conns_ok_def sw_emit_def)

lemma CloseConn_ok:
  assumes "conns_ok w" "sw_heap w p = Some c"
  shows "\<exists>w'. CloseConn p w = Inr w' \<and> conns_ok w' \<and> sw_heap w' = (sw_heap w)(p := None)"
proof -
  let ?i = "nat (tc_fd c)"
  let ?w = "w\<lparr>sw_out := sw_out w @ [SoClosed (tc_fd c)], sw_conns := (sw_conns w)[?i := None], sw_heap := (sw_heap w)(p := None)\<rparr>"
  note l = conns_ok_live[OF assms]
  have "q \<noteq> p" if "i < length (sw_conns w)" "i \<noteq> ?i" "sw_conns w ! i = Some q" for i q
    using conns_ok_entry[OF assms(1) that(1,3)] assms(2) that(2) by auto
  moreover have "nat (tc_fd d) \<noteq> ?i" if "sw_heap w q = Some d" "q \<noteq> p" for q d
    using conns_ok_live[OF assms(1) that(1)] l that(2) by (metis option.inject)
  then have "nat (tc_fd c) = nat (tc_fd d) \<Longrightarrow> sw_heap w q = Some d \<Longrightarrow> q = p" for q d by metis
  moreover have "?i < length (sw_conns w)" using l by simp
  ultimately have "conns_ok ?w" using assms(1) unfolding conns_ok_def
    by (auto simp: nth_list_update split: if_splits; blast)
  then show ?thesis using l assms(2) by (auto simp: CloseConn_def RemoveConn_def sw_emit_def)
qed

lemma NewConn_ok:
  assumes "conns_ok w" "sw_heap w p = None" "sw_qconn w = fd # fds"
  shows "\<exists>w'. NewConn now p fd (w\<lparr>sw_qconn := fds\<rparr>) = Inr w' \<and> conns_ok w'"
proof -
  define conns where "conns = (if nat fd \<ge> length (sw_conns w)
      then sw_conns w @ replicate (nat fd * 2 - length (sw_conns w)) None else sw_conns w)"
  let ?w = "put_conn p (TcpConnection fd now) (w\<lparr>sw_qconn := fds, sw_conns := conns[nat fd := Some p]\<rparr>)"
  have fd: "0 < fd" "\<And>q c. sw_heap w q = Some c \<Longrightarrow> tc_fd c \<noteq> fd" "fd \<notin> set fds"
    using assms(1,3) by (auto simp: conns_ok_def)
  have len: "nat fd < length conns" "length (sw_conns w) \<le> length conns" using fd(1) by (auto simp: conns_def)
  have old: "i < length (sw_conns w) \<and> sw_conns w ! i = Some q" if "conns ! i = Some q" "i < length conns" for i q
    using that by (auto simp: conns_def nth_append split: if_splits)
  have same: "conns ! i = sw_conns w ! i" if "i < length (sw_conns w)" for i
    using that by (simp add: conns_def nth_append)
  have "conns_ok ?w"
    unfolding conns_ok_def
  proof (intro conjI allI impI ballI)
    fix i q assume i: "i < length (sw_conns ?w)" "sw_conns ?w ! i = Some q"
    show "\<exists>c. sw_heap ?w q = Some c \<and> tc_fd c = int i"
    proof (cases "i = nat fd")
      case True
      then show ?thesis using i len fd(1) by (auto simp: put_conn_def TcpConnection_def)
    next
      case False
      then have "conns ! i = Some q" "i < length conns" using i by (simp_all add: put_conn_def)
      then obtain c where "sw_heap w q = Some c" "tc_fd c = int i" using conns_ok_entry[OF assms(1)] old by blast
      then show ?thesis using assms(2) by (auto simp: put_conn_def)
    qed
  next
    fix q c assume q: "sw_heap ?w q = Some c"
    have *: "0 < tc_fd c \<and> nat (tc_fd c) < length conns \<and> conns[nat fd := Some p] ! nat (tc_fd c) = Some q"
    proof (cases "q = p")
      case True
      then show ?thesis using q len(1) fd(1) by (auto simp: put_conn_def TcpConnection_def)
    next
      case False
      then have h: "sw_heap w q = Some c" using q by (simp add: put_conn_def)
      note l = conns_ok_live[OF assms(1) h]
      have "nat (tc_fd c) \<noteq> nat fd" using fd(1) l fd(2)[OF h] by (simp add: eq_nat_nat_iff)
      then show ?thesis using l len(2) same by simp
    qed
    then show "0 < tc_fd c" "nat (tc_fd c) < length (sw_conns ?w)" "sw_conns ?w ! nat (tc_fd c) = Some q"
      by (simp_all add: put_conn_def)
  next
    show "distinct (sw_qconn ?w)" using assms(1,3) by (simp add: conns_ok_def put_conn_def)
  next
    fix fd' assume "fd' \<in> set (sw_qconn ?w)"
    then have "fd' \<in> set fds" by (simp add: put_conn_def)
    then show "0 < fd'" using assms(1,3) by (simp add: conns_ok_def)
    fix q c assume "sw_heap ?w q = Some c"
    then show "tc_fd c \<noteq> fd'"
      using assms(1,3) fd(3) \<open>fd' \<in> set fds\<close> by (auto simp: conns_ok_def put_conn_def TcpConnection_def split: if_splits)
  qed
  moreover have "NewConn now p fd (w\<lparr>sw_qconn := fds\<rparr>) = Inr ?w"
    using fd(1) len(1) unfolding conns_def by (simp add: NewConn_def Let_def)
  ultimately show ?thesis by blast
qed

subsection \<open>Reading and writing\<close>

lemma pqb_frame:
  "ProcessQueryBuffer J ok wid p c q = Some y \<Longrightarrow>
    tc_fd (fst (snd y)) = tc_fd c \<and> reply_list (fst (snd y)) = reply_list c"
proof (erule ProcessQueryBuffer.raw_induct[where P = "\<lambda>J ok wid p c q y. tc_fd (fst (snd y)) = tc_fd c \<and>
      reply_list (fst (snd y)) = reply_list c", rotated])
  fix pqb J ok wid p c q y
  assume IH: "\<And>J ok wid p c q y. pqb J ok wid p c q = Some y \<Longrightarrow>
      tc_fd (fst (snd y)) = tc_fd c \<and> reply_list (fst (snd y)) = reply_list c"
    and eq: "(if bytes_processed c + bytes_expected c \<le> length (querybuf c)
      then if current_state c = STATE_HEAD
        then if XHEAD_MAGIC_NUM \<noteq> xh_magic_num (querybuf c) then Some (- 1, c, q)
          else pqb J ok wid p (c\<lparr>current_state := STATE_BODY, bytes_processed := XHEAD_SIZE,
            bytes_expected := body_size (querybuf c)\<rparr>) q
        else let header = take XHEAD_SIZE (querybuf c); body = body_of (querybuf c);
            (ret, msgs) = ProcessRequest J ok wid p c header body
          in if ret \<noteq> 0 then Some (- 1, c, q @ msgs) else pqb J ok wid p (c\<lparr>bytes_processed := 65535\<rparr>) (q @ msgs)
      else Some (0, c, q)) = Some y"
  show "tc_fd (fst (snd y)) = tc_fd c \<and> reply_list (fst (snd y)) = reply_list c"
    using eq by (auto simp: Let_def split: if_splits prod.splits dest!: IH)
qed

definition written :: "tcp_conn \<Rightarrow> sig_fault + bool \<times> tcp_conn \<times> bytes \<Rightarrow> bool" where
  "written c res = (case res of
     Inl f \<Rightarrow> f = ReplyOverrun (tc_fd c) \<and> (\<exists>r\<in>set (reply_list c). length (rp_buf r) < rp_size r)
   | Inr (alive, c', s) \<Rightarrow> tc_fd c' = tc_fd c)"

lemma written_frame:
  "written (c\<lparr>cur_resp_pos := k\<rparr>) res = written c res"
  "reply_list c = r # rs \<Longrightarrow> written (c\<lparr>reply_list := rs, cur_resp_pos := k\<rparr>) res \<Longrightarrow> written c res"
  by (auto simp: written_def split: sum.splits)

lemma write_loop_frame: "write_loop sock i c sent = Some res \<Longrightarrow> sock_ok sock \<longrightarrow> written c res"
proof (erule write_loop.raw_induct[where P = "\<lambda>sock i c sent res. sock_ok sock \<longrightarrow> written c res", rotated], intro impI)
  fix f sock c sent res and i :: nat
  assume IH: "\<And>sock i c sent res. f sock i c sent = Some res \<Longrightarrow> sock_ok sock \<longrightarrow> written c res"
    and eq: "(case reply_list c of
      [] \<Rightarrow> Some (Inr (True, c, sent))
    | reply # replies \<Rightarrow>
        let nwritten = sock i (rp_size reply - cur_resp_pos c);
            data = take (nat nwritten) (drop (cur_resp_pos c) (rp_buf reply))
        in if nwritten = -1 then Some (Inr (False, c, sent))
           else if nwritten = 0 then f sock (i + 1) c sent
           else if cur_resp_pos c + nat nwritten > length (rp_buf reply) then Some (Inl (ReplyOverrun (tc_fd c)))
           else if nat nwritten + cur_resp_pos c \<ge> rp_size reply
           then f sock (i + 1) (c\<lparr>reply_list := replies, cur_resp_pos := 0\<rparr>) (sent @ data)
           else f sock (i + 1) (c\<lparr>cur_resp_pos := cur_resp_pos c + nat nwritten\<rparr>) (sent @ data)) = Some res"
    and ok: "sock_ok sock"
  show "written c res"
  proof (cases "reply_list c")
    case Nil
    then show ?thesis using eq by (auto simp: written_def)
  next
    case (Cons r rs)
    define n where "n = sock i (rp_size r - cur_resp_pos c)"
    have n: "- 1 \<le> n" "n \<le> int (rp_size r - cur_resp_pos c)" using ok by (simp_all add: sock_ok_def n_def)
    have "length (rp_buf r) < rp_size r" if "n \<noteq> -1" "n \<noteq> 0" "length (rp_buf r) < cur_resp_pos c + nat n"
      using n that by linarith
    then have "n \<noteq> -1 \<Longrightarrow> n \<noteq> 0 \<Longrightarrow> length (rp_buf r) < cur_resp_pos c + nat n \<Longrightarrow> written c (Inl (ReplyOverrun (tc_fd c)))"
      using Cons by (simp add: written_def)
    moreover have "written c (Inr (False, c, sent))" by (simp add: written_def)
    moreover have "f sock (i + 1) c' sent' = Some res \<Longrightarrow> written c' res" for c' sent' using IH ok by blast
    ultimately show ?thesis
      using eq Cons written_frame(1)[of _ c res] written_frame(2)[OF Cons, of _ res]
      by (auto simp: Let_def n_def[symmetric] split: if_splits simp del: bex_simps)
  qed
qed

subsection \<open>Every event\<close>

text \<open>The faults that are left, and what must be the case for them.\<close>

fun blamed :: "sig_worker \<Rightarrow> sig_fault \<Rightarrow> bool" where
  "blamed w (BadReadLength fd) \<longleftrightarrow> (\<exists>p c. sw_heap w p = Some c \<and> tc_fd c = fd \<and>
     (2147483648 \<le> bytes_expected c \<or> 2147483648 \<le> length (querybuf c)))"
| "blamed w (HeaderOverrun p) \<longleftrightarrow> (\<exists>c. sw_heap w p = Some c \<and> length (querybuf c) < XHEAD_SIZE)"
| "blamed w (ReplyOverrun fd) \<longleftrightarrow> (\<exists>p c. sw_heap w p = Some c \<and> tc_fd c = fd \<and>
     (\<exists>r\<in>set (reply_list c). length (rp_buf r) < rp_size r))"
| "blamed w _ \<longleftrightarrow> False"

definition harmless :: "sig_worker \<Rightarrow> sig_result \<Rightarrow> bool" where
  "harmless w r = (case r of Inl f \<Rightarrow> blamed w f | Inr w' \<Rightarrow> conns_ok w')"

lemma harmless_simps [simp]: "harmless w (Inl f) = blamed w f" "harmless w (Inr w') = conns_ok w'"
  by (simp_all add: harmless_def)

lemma CloseConn_harmless: "conns_ok w \<Longrightarrow> sw_heap w p = Some c \<Longrightarrow> harmless w' (CloseConn p w)"
  using CloseConn_ok[of w p c] by auto

lemma ProcessTimeout_harmless: "conns_ok w \<Longrightarrow> p \<in> dom (sw_heap w) \<Longrightarrow> harmless w (ProcessTimeout now p w)"
  using CloseConn_harmless by (auto simp: ProcessTimeout_def)

lemma ResponseServerOffer_harmless:
  assumes "conns_ok w"
  shows "harmless w (ResponseServerOffer J msg w)"
proof (cases "rm_conn msg")
  case (Some p)
  show ?thesis
  proof (cases "rm_fd msg \<le> 0 \<or> nat (rm_fd msg) \<ge> length (sw_conns w) \<or> sw_conns w ! nat (rm_fd msg) \<noteq> Some p")
    case False
    then obtain c where "sw_heap w p = Some c" using conns_ok_entry[OF assms, of "nat (rm_fd msg)" p] by auto
    then show ?thesis using assms Some
      by (auto simp: ResponseServerOffer_def AddReply_def Let_def intro!: conns_ok_put)
  qed (use assms Some in \<open>auto simp: ResponseServerOffer_def\<close>)
qed (use assms in \<open>simp add: ResponseServerOffer_def\<close>)

lemma ProcessNotify_harmless:
  assumes "conns_ok w" "sw_heap w p = None"
  shows "harmless w (ProcessNotify J now p n w)"
proof (cases n)
  case NEW_CONN
  show ?thesis
  proof (cases "sw_qconn w")
    case (Cons fd fds)
    then show ?thesis using NEW_CONN NewConn_ok[OF assms Cons, of now] by (auto simp: ProcessNotify_def)
  qed (use NEW_CONN assms in \<open>simp add: ProcessNotify_def\<close>)
next
  case RTC_MSG
  have "blamed (w\<lparr>sw_qmsg := q\<rparr>) f = blamed w f" for q f by (cases f) simp_all
  then have "harmless (w\<lparr>sw_qmsg := q\<rparr>) r = harmless w r" for q r by (simp add: harmless_def split: sum.split)
  then have "harmless w (ResponseServerOffer J msg (w\<lparr>sw_qmsg := q\<rparr>))" for msg q
    using ResponseServerOffer_harmless[of "w\<lparr>sw_qmsg := q\<rparr>" J msg] assms(1) by simp
  then show ?thesis
    using RTC_MSG assms(1) by (cases "sw_qmsg w") (simp_all add: ProcessNotify_def ProcessRtcMsg_def)
qed

lemma c_int_negative: "c_int n < 0 \<Longrightarrow> 2147483648 \<le> n"
  using c_int_small[of n] by linarith

text \<open>What a read that returns leaves for the write of the same event.\<close>

lemma ReadQuery_harmless:
  assumes "conns_ok w" "sw_heap w p = Some c" "tc_fd c = fd" "ReadQuery J ok now fd r w = Some res"
  shows "harmless w res \<and> (\<forall>w'. res = Inr w' \<longrightarrow> conns_ok w' \<and>
    (sw_heap w' p = None \<and> sw_conns w' ! nat fd = None \<or> (\<exists>c'. sw_heap w' p = Some c' \<and> tc_fd c' = fd \<and> reply_list c' = reply_list c)))"
proof -
  note l = conns_ok_live[OF assms(1,2), unfolded assms(3)]
  have close: "\<exists>w'. CloseConn p v = Inr w' \<and> conns_ok w' \<and> sw_heap w' p = None \<and> sw_conns w' ! nat fd = None"
    if v: "conns_ok v" "sw_heap v p = Some d" "tc_fd d = fd" for v d
  proof -
    obtain w' where w': "CloseConn p v = Inr w'" "conns_ok w'" "sw_heap w' = (sw_heap v)(p := None)"
      using CloseConn_ok[OF v(1,2)] by blast
    have "nat fd < length (sw_conns v)" using conns_ok_live[OF v(1,2)] v(3) by simp
    then have "sw_conns w' ! nat fd = None" using w'(1) v(2,3) by (auto simp: CloseConn_def RemoveConn_def sw_emit_def split: if_splits)
    then show ?thesis using w' by simp
  qed
  show ?thesis
  proof (cases "c_int (bytes_expected c) < 0 \<or> c_int (length (querybuf c)) < 0")
    case True
    then have "res = Inl (BadReadLength fd)" using assms(4) l assms(2) by (auto simp: ReadQuery_def)
    then show ?thesis using True assms(2,3) c_int_negative by auto
  next
    case False
    let ?c = "c\<lparr>last_interaction := now\<rparr>"
    have ok1: "conns_ok (put_conn p ?c w)" using conns_ok_put[OF assms(1,2)] by simp
    have h1: "sw_heap (put_conn p d v) p = Some d" for d v by (simp add: put_conn_def)
    show ?thesis
    proof (cases "r = SockError")
      case True
      then have "res = CloseConn p (put_conn p ?c w)" using assms(2,4) l False by (simp add: ReadQuery_def Let_def)
      then show ?thesis using close[OF ok1 h1] assms(3) by auto
    next
      case data: False
      let ?d = "?c\<lparr>querybuf := querybuf ?c @ read_bytes r\<rparr>"
      obtain ret c2 msgs where pqb: "ProcessQueryBuffer J ok (sw_id w) p ?d [] = Some (ret, c2, msgs)"
        using assms(2,4) l False data by (auto simp: ReadQuery_def Let_def split: option.splits)
      let ?w = "put_conn p c2 (w\<lparr>sw_server := sw_server w @ msgs\<rparr>)"
      have c2: "tc_fd c2 = fd" "reply_list c2 = reply_list c" using pqb_frame[OF pqb] assms(3) by simp_all
      have ok2: "conns_ok ?w" using conns_ok_put[of "w\<lparr>sw_server := sw_server w @ msgs\<rparr>" p c c2] assms(1-3) c2(1) by simp
      have "res = (if ret \<noteq> 0 then CloseConn p ?w else Inr ?w)"
        using assms(2,4) l False data pqb by (simp add: ReadQuery_def Let_def split: if_splits)
      then show ?thesis using close[OF ok2 h1 c2(1)] ok2 h1 c2 by auto
    qed
  qed
qed

lemma WriteReply_harmless:
  assumes "conns_ok w" "sock_ok sock" "WriteReply now fd sock w = Some res"
  shows "harmless w res \<and> (\<forall>f. res = Inl f \<longrightarrow> f = ReplyOverrun fd)"
proof (cases "fd \<le> 0 \<or> nat fd \<ge> length (sw_conns w) \<or> sw_conns w ! nat fd = None")
  case True
  then have "res = Inr w" using assms(3) by (auto simp: WriteReply_def split: if_splits)
  then show ?thesis using assms(1) by simp
next
  case False
  then obtain p where p: "sw_conns w ! nat fd = Some p" by auto
  then obtain c where c: "sw_heap w p = Some c" "tc_fd c = fd" using conns_ok_entry[OF assms(1), of "nat fd" p] False by auto
  obtain loop where loop: "write_loop sock 0 c [] = Some loop"
    using assms(3) False p c by (auto simp: WriteReply_def split: option.splits)
  have wr: "written c loop" using write_loop_frame[OF loop] assms(2) by blast
  show ?thesis
  proof (cases loop)
    case (Inl f)
    then have "f = ReplyOverrun fd" "\<exists>r\<in>set (reply_list c). length (rp_buf r) < rp_size r" "res = Inl f"
      using assms(3) False p c loop wr by (auto simp: WriteReply_def written_def)
    then show ?thesis using c by auto
  next
    case (Inr x)
    obtain alive c1 sent where x: "x = (alive, c1, sent)" by (cases x)
    have fd1: "tc_fd c1 = tc_fd c" using wr Inr x by (simp add: written_def)
    let ?w = "sw_emit (SoSent fd sent) (put_conn p c1 w)"
    have ok1: "conns_ok ?w" using conns_ok_put[OF assms(1) c(1) fd1] by simp
    have h1: "sw_heap ?w p = Some c1" by (simp add: sw_emit_def put_conn_def)
    have "res = (if alive then Inr (put_conn p (c1\<lparr>last_interaction := now, tc_write := False\<rparr>) ?w) else CloseConn p ?w)"
      using assms(3) False p c loop Inr x by (simp add: WriteReply_def Let_def split: if_splits)
    then show ?thesis using CloseConn_ok[OF ok1 h1] conns_ok_put[OF ok1 h1] by auto
  qed
qed

lemma ConnIOCb_harmless:
  assumes "conns_ok w" "sig_admitted w (SeIO ok now fd r sock)" "ConnIOCb J ok now fd r sock w = Some res"
  shows "harmless w res"
proof -
  obtain p c where pc: "sw_heap w p = Some c" "tc_fd c = fd" "\<forall>s. sock = Some s \<longrightarrow> sock_ok s"
    using assms(2) by (auto split: option.splits)
  have wr: "harmless w1 res" if "conns_ok w1" "(case sock of None \<Rightarrow> Some (Inr w1) | Some k \<Rightarrow> WriteReply now fd k w1) = Some res" for w1
    using that pc(3) WriteReply_harmless[OF that(1)] by (auto split: option.splits)
  show ?thesis
  proof (cases r)
    case None
    then show ?thesis using assms(1,3) wr by (simp add: ConnIOCb_def)
  next
    case (Some data)
    obtain r1 where r1: "ReadQuery J ok now fd data w = Some r1"
      using assms(3) Some by (auto simp: ConnIOCb_def split: option.splits)
    note rh = ReadQuery_harmless[OF assms(1) pc(1,2) r1]
    show ?thesis
    proof (cases r1)
      case (Inl f)
      then show ?thesis using assms(3) Some r1 rh by (auto simp: ConnIOCb_def)
    next
      case (Inr w1)
      then have eq: "(case sock of None \<Rightarrow> Some (Inr w1) | Some k \<Rightarrow> WriteReply now fd k w1) = Some res"
        using assms(3) Some r1 by (simp add: ConnIOCb_def)
      have ok1: "conns_ok w1" using rh Inr by simp
      show ?thesis
      proof (cases "sw_conns w1 ! nat fd")
        case None
        then show ?thesis using eq ok1 by (auto simp: WriteReply_def split: option.splits if_splits)
      next
        case (Some q)
        then obtain c1 where c1: "sw_heap w1 p = Some c1" "tc_fd c1 = fd" "reply_list c1 = reply_list c" using rh Inr by auto
        have "harmless w1 res" by (rule wr[OF ok1 eq])
        moreover have "blamed w f" if f: "res = Inl f" "blamed w1 f" for f
        proof -
          obtain k where "sock = Some k" "WriteReply now fd k w1 = Some (Inl f)" using eq f(1) by (auto split: option.splits)
          then have ro: "f = ReplyOverrun fd" using WriteReply_harmless[OF ok1] pc(3) by blast
          then obtain q d where q: "sw_heap w1 q = Some d" "tc_fd d = fd" "\<exists>r\<in>set (reply_list d). length (rp_buf r) < rp_size r"
            using f(2) by auto
          have "q = p" using conns_ok_live[OF ok1 q(1)] conns_ok_live[OF ok1 c1(1)] q(2) c1(2) by simp
          then show ?thesis using q(1,3) c1(1,3) pc(1,2) ro by auto
        qed
        ultimately show ?thesis by (cases res) auto
      qed
    qed
  qed
qed

lemma SignalingWorker_ok: "conns_ok (SignalingWorker wid timeout)"
  by (simp add: conns_ok_def SignalingWorker_def)

lemma sig_step_harmless:
  assumes "conns_ok w" "sig_admitted w e" "sig_step J e w = Some res"
  shows "harmless w res"
proof (cases e)
  case (SeAccept fd)
  then show ?thesis using assms by (auto simp: NotifyNewConn_def conns_ok_def)
next
  case (SeNotify now p n)
  then show ?thesis using assms ProcessNotify_harmless[of w p J now n] by auto
next
  case (SeIO ok now fd r sock)
  then show ?thesis using assms ConnIOCb_harmless[of w ok now fd r sock J res] by simp
next
  case (SeTimer now p)
  then show ?thesis using assms ProcessTimeout_harmless[of w p now] by auto
next
  case (SePost msg)
  then show ?thesis using assms by (auto simp: PushMsg_def)
qed

lemma sig_reachable_ok: "sig_reachable J wid timeout w \<Longrightarrow> conns_ok w"
proof (induction rule: sig_reachable.induct)
  case sig_init
  show ?case by (rule SignalingWorker_ok)
next
  case (sig_next w e w')
  then show ?case using sig_step_harmless[of w e J "Inr w'"] by simp
qed

text \<open>
  C27: in a reachable worker an admitted event that returns leaves the table and the live
  connections in agreement, or stops at a length nobody checked: a body announced with 2^31 bytes
  or more, a response for a connection that has not sent its header, a response longer than its
  buffer. No event follows a null or a dangling pointer or leaves the table.
\<close>

theorem signaling_worker_safe:
  assumes "sig_reachable J wid timeout w" "sig_admitted w e" "sig_step J e w = Some res"
  shows "case res of Inl f \<Rightarrow> blamed w f
    | Inr w' \<Rightarrow> (\<forall>p c. sw_heap w' p = Some c \<longrightarrow> sw_conns w' ! nat (tc_fd c) = Some p) \<and>
        (\<forall>i p. i < length (sw_conns w') \<longrightarrow> sw_conns w' ! i = Some p \<longrightarrow> (\<exists>c. sw_heap w' p = Some c \<and> tc_fd c = int i))"
proof -
  have "harmless w res" using sig_step_harmless[OF sig_reachable_ok[OF assms(1)] assms(2,3)] .
  then show ?thesis using conns_ok_live conns_ok_entry by (auto split: sum.split)
qed

text \<open>
  A response goes to the connection its request came from or nowhere: only a connection that
  still has the same socket and the same address gets it, and nothing else changes.
\<close>

theorem response_to_requester:
  assumes "sig_reachable J wid timeout w" "ResponseServerOffer J msg w = Inr w'"
  shows "w' = w \<or> (\<exists>p c. rm_conn msg = Some p \<and> sw_heap w p = Some c \<and> tc_fd c = rm_fd msg \<and>
    w' = w\<lparr>sw_heap := (sw_heap w)(p \<mapsto> c\<lparr>reply_list := reply_list c @ [build_reply (take XHEAD_SIZE (querybuf c))
      (json_response J (rm_err_no msg) (if rm_err_no msg = 0 then ''success'' else ''process error'')
        (if rm_err_no msg = 0 then rm_sdp msg else []))], tc_write := True\<rparr>)\<rparr>)"
proof -
  have ok: "conns_ok w" using sig_reachable_ok[OF assms(1)] .
  show ?thesis
  proof (cases "rm_conn msg")
    case None
    then show ?thesis using assms(2) by (simp add: ResponseServerOffer_def)
  next
    case (Some p)
    show ?thesis
    proof (cases "rm_fd msg \<le> 0 \<or> nat (rm_fd msg) \<ge> length (sw_conns w) \<or> sw_conns w ! nat (rm_fd msg) \<noteq> Some p")
      case True
      then show ?thesis using Some assms(2) by (auto simp: ResponseServerOffer_def split: if_splits)
    next
      case False
      then obtain c where c: "sw_heap w p = Some c" "tc_fd c = rm_fd msg"
        using conns_ok_entry[OF ok, of "nat (rm_fd msg)" p] by auto
      let ?json = "json_response J (rm_err_no msg) (if rm_err_no msg = 0 then ''success'' else ''process error'')
        (if rm_err_no msg = 0 then rm_sdp msg else [])"
      have "w' = AddReply p c (build_reply (take XHEAD_SIZE (querybuf c)) ?json) w"
        using False Some c assms(2) by (auto simp: ResponseServerOffer_def Let_def split: if_splits)
      then show ?thesis using Some c unfolding AddReply_def put_conn_def by blast
    qed
  qed
qed

lemma sint_high:
  assumes "2147483648 \<le> unat (n :: u32)"
  shows "sint n = int (unat n) - 4294967296"
proof -
  have u: "uint n = int (unat n)" by simp
  have k: "2147483648 \<le> uint n" "uint n < 4294967296"
    using assms unat_u32_less[of n] unfolding u by linarith+
  have "uint n div 2147483648 = 1" using k by linarith
  then have "bit (uint n) 31" unfolding bit_iff_odd by simp
  then show ?thesis using k unfolding u[symmetric]
    by (simp add: sint_uint signed_take_bit_eq_take_bit_minus take_bit_int_eq_self del: uint_nat)
qed

text \<open>
  The length a client announces is not checked: after a header announcing 2^31 bytes or more
  the next read asks for a negative number of bytes.
\<close>

theorem announced_length_unchecked:
  assumes "0 \<le> fd" "nat fd < length (sw_conns w)" "sw_conns w ! nat fd = Some p" "sw_heap w p = Some (TcpConnection fd t)"
    and "length head = XHEAD_SIZE" "xh_magic_num head = XHEAD_MAGIC_NUM" "2147483648 \<le> body_size head"
  shows "\<exists>w'. ReadQuery J True now fd (SockData head) w = Some (Inr w') \<and>
    (\<forall>ok now1 r. ReadQuery J ok now1 fd r w' = Some (Inl (BadReadLength fd)))"
proof -
  let ?c = "TcpConnection fd t\<lparr>last_interaction := now\<rparr>"
  have whole: "\<not> whole head" using assms(5,7) by (simp add: whole_def)
  have "acceptable J ([] @ head)" using assms(5-7) whole by (simp add: acceptable_def XHEAD_SIZE_def)
  from pqb_framed[OF this, of "sw_id w" p ?c "[]"] have pqb:
    "ProcessQueryBuffer J True (sw_id w) p (framed ?c []\<lparr>querybuf := head\<rparr>) [] = Some (0, framed ?c head, [])"
    using whole by simp
  have fr: "TcpConnection fd t\<lparr>last_interaction := now, querybuf := head\<rparr> = framed ?c []\<lparr>querybuf := head\<rparr>"
    by (simp add: TcpConnection_def framed_def XHEAD_SIZE_def)
  have "\<not> c_int (bytes_expected (TcpConnection fd t)) < 0" "\<not> c_int (length (querybuf (TcpConnection fd t))) < 0"
    "querybuf (TcpConnection fd t) = []"
    by (simp_all add: TcpConnection_def XHEAD_SIZE_def c_int_small)
  then have "ReadQuery J True now fd (SockData head) w = Some (Inr (put_conn p (framed ?c head) (w\<lparr>sw_server := sw_server w @ []\<rparr>)))"
    using assms(1-4) pqb fr by (simp add: ReadQuery_def Let_def)
  moreover have "c_int (bytes_expected (framed ?c head)) < 0"
  proof -
    let ?n = "xh_body_len head"
    have "c_int (body_size head) = sint ?n" by (simp add: c_int_def)
    also have "\<dots> < 0" using sint_high[OF assms(7)] unat_u32_less[of ?n] by linarith
    finally show ?thesis using assms(5) by (simp add: framed_def)
  qed
  ultimately show ?thesis using assms(1-3) by (intro exI conjI) (assumption, simp add: ReadQuery_def put_conn_def)
qed

end
