(* ===== verification/SignalingDemo.thy ===== *)
theory SignalingDemo
  imports SignalingSafe
begin

text \<open>
  One connection of a signaling worker, at address 0 on socket 5, and a JSON library that reads
  every body as a request to stop publishing: the instances that show the hypotheses of the
  properties of the worker can hold.
\<close>

definition demo_json :: "unit json_lib" where
  "demo_json = \<lparr>json_parse = (\<lambda>_. Some ()), json_int = (\<lambda>_ _. Some 4), json_u64 = (\<lambda>_ _. Some 1),
     json_str = (\<lambda>_ _. Some ''s''), json_member = (\<lambda>_ _. False), json_response = (\<lambda>_ _ _. [123, 125])\<rparr>"

definition demo_msg :: rtc_msg where
  "demo_msg = RtcMsg\<lparr>rm_uid := 1, rm_stream_name := ''s'', rm_mode := ''s'', rm_cmdno := 4\<rparr>"

lemma demo_request: "request_of demo_json body = Some demo_msg"
  by (simp add: request_of_def demo_json_def cmdno_defs stop_msg_def demo_msg_def)

definition demo_head :: "nat \<Rightarrow> bytes" where
  "demo_head n = replicate 24 0 @ [2, 34, 32, 251] @ replicate 4 0 @ le_bytes 4 n"

lemma demo_head_simps:
  "length (demo_head n) = XHEAD_SIZE" "xh_magic_num (demo_head n) = XHEAD_MAGIC_NUM"
  "n < 4294967296 \<Longrightarrow> body_size (demo_head n) = n"
  by (simp_all add: demo_head_def XHEAD_SIZE_def xh_magic_num_def XHEAD_MAGIC_NUM_def xh_body_len_def le_nat_bytes unat_of_nat)

definition demo_worker :: sig_worker where
  "demo_worker = put_conn 0 (TcpConnection 5 0) ((SignalingWorker 0 5000000)\<lparr>sw_conns := (replicate 10 None)[5 := Some 0]\<rparr>)"

lemma demo_worker_simps:
  "nat 5 < length (sw_conns demo_worker)" "sw_conns demo_worker ! nat 5 = Some 0" "sw_heap demo_worker 0 = Some (TcpConnection 5 0)"
  "sw_server demo_worker = []" "sw_id demo_worker = 0"
  by (simp_all add: demo_worker_def put_conn_def SignalingWorker_def)

lemma demo_worker_reachable: "sig_reachable J 0 5000000 demo_worker"
proof -
  have "sig_reachable J 0 5000000 (NotifyNewConn 5 (SignalingWorker 0 5000000))"
    by (rule sig_next[OF sig_init, where e = "SeAccept 5"]) (simp_all add: SignalingWorker_def)
  then show ?thesis
  proof (rule sig_next)
    show "sig_admitted (NotifyNewConn 5 (SignalingWorker 0 5000000)) (SeNotify 0 0 NEW_CONN)"
      by (simp add: NotifyNewConn_def SignalingWorker_def)
    show "sig_step J (SeNotify 0 0 NEW_CONN) (NotifyNewConn 5 (SignalingWorker 0 5000000)) = Some (Inr demo_worker)"
    by (simp add: ProcessNotify_def NewConn_def NotifyNewConn_def SignalingWorker_def demo_worker_def Let_def)
  qed
qed

text \<open>The connection with one reply to send.\<close>

definition demo_conn :: tcp_conn where
  "demo_conn = TcpConnection 5 0\<lparr>reply_list := [build_reply (demo_head 2) [123, 125]], tc_write := True\<rparr>"

definition demo_replying :: sig_worker where
  "demo_replying = put_conn 0 demo_conn demo_worker"

lemma demo_replying_simps:
  "nat 5 < length (sw_conns demo_replying)" "sw_conns demo_replying ! nat 5 = Some 0" "sw_heap demo_replying 0 = Some demo_conn"
  "tc_fd demo_conn = 5" "reply_list demo_conn \<noteq> []"
  by (simp_all add: demo_replying_def demo_worker_def put_conn_def SignalingWorker_def demo_conn_def TcpConnection_def)

theorem request_framing_witness:
  "\<exists>w'. deliver demo_json 0 5 [demo_head 2, [1], [2]] demo_worker = Some (Inr w') \<and>
     sw_server w' = [request_msg demo_msg 0 0 5 (demo_head 2)]"
  using request_framing[of 5 demo_worker 0 0 "demo_head 2" "[1, 2]" demo_json demo_msg "[demo_head 2, [1], [2]]" "[]" "[]" 0]
    demo_worker_simps demo_head_simps[of 2] demo_request by (simp add: XHEAD_SIZE_def del: deliver.simps)

theorem flooded_reader_never_returns_witness:
  "\<exists>w1. deliver demo_json 0 5 [demo_head 40000, replicate 40000 0, replicate 40000 0] demo_worker = Some (Inr w1) \<and>
     ReadQuery demo_json True 0 5 (SockData (replicate 25499 0)) w1 = None"
proof -
  let ?body = "replicate 40000 0" and ?ds = "[demo_head 40000, replicate 40000 0, replicate 40000 0]"
  let ?b = "demo_head 40000 @ ?body @ ?body"
  have s: "body_size (demo_head 40000) = length ?body" using demo_head_simps(3)[of 40000] by simp
  have "length ?b < 65535 + length ?body" using demo_head_simps(1)[of 40000] by (simp add: XHEAD_SIZE_def)
  note pre = prefix_acceptable[OF demo_head_simps(1,2) s demo_request[of ?body], of ?b "[]" ?body, OF _ this, simplified append_Nil2, OF refl]
  have c: "concat ?ds = ?b" by simp
  have l: "length ?b < 2147483648" "XHEAD_SIZE \<le> length ?b \<longrightarrow> body_size ?b < 2147483648"
    using pre(3) demo_head_simps(1)[of 40000] by (simp_all add: XHEAD_SIZE_def)
  obtain w1 where w1: "deliver demo_json 0 5 ?ds demo_worker = Some (Inr w1)"
    using deliver_fresh[OF _ demo_worker_simps(1-3) pre(1) c l, of 0] by auto
  from flooded_reader_never_returns[OF _ demo_worker_simps(1-3) demo_head_simps(1,2) s demo_request c _ _ w1, of "replicate 25499 0" 0]
  have "ReadQuery demo_json True 0 5 (SockData (replicate 25499 0)) w1 = None" by (simp add: XHEAD_SIZE_def)
  then show ?thesis using w1 by blast
qed

theorem announced_length_unchecked_witness:
  "\<exists>w'. ReadQuery demo_json True 0 5 (SockData (demo_head 2147483648)) demo_worker = Some (Inr w') \<and>
     ReadQuery demo_json True 1 5 SockAgain w' = Some (Inl (BadReadLength 5))"
  using announced_length_unchecked[OF _ demo_worker_simps(1-3) demo_head_simps(1,2), of 2147483648 demo_json 0]
    demo_head_simps(3)[of 2147483648] by auto

lemma demo_replies_ok: "replies_ok demo_conn"
proof -
  have "length (demo_head 2) = XHEAD_SIZE" "(0 :: u8) \<notin> set [123, 125]" "length [123 :: u8, 125] < MAX_RES_BUF"
    by (simp_all add: demo_head_simps MAX_RES_BUF_def)
  note r = build_reply_short[OF this]
  show ?thesis using r(2,3) by (simp add: replies_ok_def demo_conn_def TcpConnection_def XHEAD_SIZE_def)
qed

theorem replies_written_witness:
  "\<exists>w'. WriteReply 0 5 (\<lambda>i n. if even i then 0 else int (min n 10)) demo_replying = Some (Inr w')"
proof -
  let ?sock = "\<lambda>i n. if even i then 0 else int (min n 10)"
  have "sock_ok ?sock" by (simp add: sock_ok_def)
  moreover have "moving ?sock" unfolding moving_def
  proof
    fix i :: nat show "\<exists>j\<ge>i. \<forall>n>0. ?sock j n \<noteq> 0" by (rule exI[of _ "2 * i + 1"]) simp
  qed
  ultimately show ?thesis
    using replies_written[OF _ demo_replying_simps(1-4) demo_replies_ok, of ?sock 0] by auto
qed

theorem slow_reader_stops_worker_witness: "WriteReply 0 5 (\<lambda>i n. 0) demo_replying = None"
  using slow_reader_stops_worker[OF _ demo_replying_simps(1-3,5)] by simp

theorem response_frame_witness:
  "body_of (rp_slice (build_reply (demo_head 2) [123, 125])) = [123, 125]"
  using response_frame[of "demo_head 2" "[123, 125]", OF _ _ _ refl] by (simp add: demo_head_simps MAX_RES_BUF_def)

definition demo_long :: tcp_conn where
  "demo_long = TcpConnection 5 0\<lparr>reply_list := [build_reply (demo_head 2) (replicate 5000 32)]\<rparr>"

theorem long_response_overruns_witness:
  "WriteReply 0 5 (\<lambda>i n. int n) (put_conn 0 demo_long demo_worker) = Some (Inl (ReplyOverrun 5))"
  using long_response_overruns[of 5 "put_conn 0 demo_long demo_worker" 0 demo_long "demo_head 2" "replicate 5000 32" "\<lambda>i n. int n" 0]
    demo_worker_simps demo_head_simps(1)[of 2]
  by (simp add: put_conn_def demo_long_def TcpConnection_def MAX_RES_BUF_def)

theorem signaling_worker_safe_witness:
  "\<exists>w'. sig_step demo_json (SeTimer 5000000 0) demo_worker = Some (Inr w') \<and> (\<forall>p c. sw_heap w' p = Some c \<longrightarrow> sw_conns w' ! nat (tc_fd c) = Some p)"
proof -
  have "sig_step demo_json (SeTimer 5000000 0) demo_worker = Some (CloseConn 0 demo_worker)"
    by (simp add: ProcessTimeout_def demo_worker_def put_conn_def TcpConnection_def SignalingWorker_def)
  moreover obtain w' where "CloseConn 0 demo_worker = Inr w'"
    by (simp add: CloseConn_def RemoveConn_def demo_worker_def put_conn_def TcpConnection_def SignalingWorker_def sw_emit_def)
  ultimately show ?thesis
    using signaling_worker_safe[OF demo_worker_reachable[of demo_json], of "SeTimer 5000000 0" "Inr w'"] demo_worker_simps(3) by auto
qed

theorem response_to_requester_witness:
  "\<exists>w'. ResponseServerOffer demo_json (demo_msg\<lparr>rm_conn := Some 3, rm_fd := 5\<rparr>) demo_worker = Inr w' \<and> w' = demo_worker"
proof -
  have "ResponseServerOffer demo_json (demo_msg\<lparr>rm_conn := Some 3, rm_fd := 5\<rparr>) demo_worker = Inr demo_worker"
    using demo_worker_simps(1,2) by (simp add: ResponseServerOffer_def)
  with response_to_requester[OF demo_worker_reachable this] show ?thesis by blast
qed

end
