(* ===== verification/LockFreeQueue.thy ===== *)
theory LockFreeQueue
  imports Prelude
begin

text \<open>
  \<open>lock_free_queue.h\<close>: a queue between one producer and one consumer thread. Each access to a
  shared pointer is a step of its own, the two threads interleave in any order, and memory is
  sequentially consistent (the comment of the code takes pointer operations to be atomic). Nodes
  live in the heap \<open>q_heap\<close>; an access to a deleted node or through a null pointer is a fault.
\<close>

datatype queue_fault = NodeUseAfterFree nat | NullNode nat

text \<open>
  The producer: idle, after \<open>last->next = new Node(t)\<close>, after \<open>last = last->next\<close>, in the loop that
  deletes consumed nodes. The consumer: idle, after \<open>divider != last\<close>, after reading the value,
  after moving \<open>divider\<close>.
\<close>

datatype prod_pc = PIdle | PLinked | PMoved | PClean

datatype 'a cons_pc = CIdle | CChecked | CRead 'a | CMoved 'a

record 'a lock_free_queue =
  q_heap :: "nat \<rightharpoonup> 'a \<times> nat option"
  q_first :: nat
  q_divider :: nat
  q_last :: nat
  q_size :: int
  q_prod :: prod_pc
  q_cons :: "'a cons_pc"
  q_put :: "'a list"
  q_got :: "'a list"

text \<open>\<open>q_put\<close> and \<open>q_got\<close> record the values given to \<open>Produce\<close> and those \<open>Consume\<close> has returned.\<close>

definition LockFreeQueue :: "nat \<Rightarrow> 'a \<Rightarrow> 'a lock_free_queue" where
  "LockFreeQueue n v = \<lparr>q_heap = [n \<mapsto> (v, None)], q_first = n, q_divider = n, q_last = n, q_size = 0,
     q_prod = PIdle, q_cons = CIdle, q_put = [], q_got = []\<rparr>"

definition node_at :: "nat \<Rightarrow> 'a lock_free_queue \<Rightarrow> queue_fault + 'a \<times> nat option" where
  "node_at p q = (case q_heap q p of None \<Rightarrow> Inl (NodeUseAfterFree p) | Some n \<Rightarrow> Inr n)"

definition next_of :: "nat \<Rightarrow> 'a lock_free_queue \<Rightarrow> queue_fault + nat" where
  "next_of p q = and_then (node_at p q) (\<lambda>(v, n). case n of None \<Rightarrow> Inl (NullNode p) | Some m \<Rightarrow> Inr m)"

text \<open>\<open>Produce(t)\<close> begins: the new node, at the unused address \<open>n\<close>, is linked behind the last one.\<close>

definition produce_begin :: "nat \<Rightarrow> 'a \<Rightarrow> 'a lock_free_queue \<Rightarrow> queue_fault + 'a lock_free_queue" where
  "produce_begin n t q =
     and_then (node_at (q_last q) q) (\<lambda>(v, _).
       Inr (q\<lparr>q_heap := (q_heap q)(n \<mapsto> (t, None), q_last q \<mapsto> (v, Some n)), q_prod := PLinked, q_put := q_put q @ [t]\<rparr>))"

definition produce_step :: "'a lock_free_queue \<Rightarrow> queue_fault + 'a lock_free_queue" where
  "produce_step q =
     (case q_prod q of
        PIdle \<Rightarrow> Inr q
      | PLinked \<Rightarrow> and_then (next_of (q_last q) q) (\<lambda>n. Inr (q\<lparr>q_last := n, q_prod := PMoved\<rparr>))
      | PMoved \<Rightarrow> Inr (q\<lparr>q_size := q_size q + 1, q_prod := PClean\<rparr>)
      | PClean \<Rightarrow>
          if q_divider q \<noteq> q_first q
          then and_then (next_of (q_first q) q) (\<lambda>n. Inr (q\<lparr>q_heap := (q_heap q)(q_first q := None), q_first := n\<rparr>))
          else Inr (q\<lparr>q_prod := PIdle\<rparr>))"

definition consume_step :: "'a lock_free_queue \<Rightarrow> queue_fault + 'a lock_free_queue" where
  "consume_step q =
     (case q_cons q of
        CIdle \<Rightarrow> Inr (if q_divider q \<noteq> q_last q then q\<lparr>q_cons := CChecked\<rparr> else q)
      | CChecked \<Rightarrow> and_then (next_of (q_divider q) q) (\<lambda>n. and_then (node_at n q) (\<lambda>(v, _). Inr (q\<lparr>q_cons := CRead v\<rparr>)))
      | CRead v \<Rightarrow> and_then (next_of (q_divider q) q) (\<lambda>n. Inr (q\<lparr>q_divider := n, q_cons := CMoved v\<rparr>))
      | CMoved v \<Rightarrow> Inr (q\<lparr>q_size := q_size q - 1, q_got := q_got q @ [v], q_cons := CIdle\<rparr>))"

text \<open>\<open>empty\<close>, \<open>size\<close>, and the loop of the destructor, which walks from \<open>first\<close> to the null pointer.\<close>

definition queue_empty :: "'a lock_free_queue \<Rightarrow> bool" where
  "queue_empty q \<longleftrightarrow> q_size q = 0"

partial_function (option) free_nodes :: "nat option \<Rightarrow> (nat \<rightharpoonup> 'a \<times> nat option) \<Rightarrow> (queue_fault + (nat \<rightharpoonup> 'a \<times> nat option)) option" where
  "free_nodes p h = (case p of None \<Rightarrow> Some (Inr h)
     | Some a \<Rightarrow> (case h a of None \<Rightarrow> Some (Inl (NodeUseAfterFree a)) | Some (_, n) \<Rightarrow> free_nodes n (h(a := None))))"

datatype 'a queue_event = QProduce nat 'a | QProd | QCons

fun queue_step :: "'a queue_event \<Rightarrow> 'a lock_free_queue \<Rightarrow> queue_fault + 'a lock_free_queue" where
  "queue_step (QProduce n t) q = produce_begin n t q"
| "queue_step QProd q = produce_step q"
| "queue_step QCons q = consume_step q"

fun queue_admitted :: "'a lock_free_queue \<Rightarrow> 'a queue_event \<Rightarrow> bool" where
  "queue_admitted q (QProduce n t) \<longleftrightarrow> q_prod q = PIdle \<and> q_heap q n = None"
| "queue_admitted q _ \<longleftrightarrow> True"

inductive queue_reachable :: "'a lock_free_queue \<Rightarrow> bool" where
  queue_init: "queue_reachable (LockFreeQueue n v)"
| queue_next: "queue_reachable q \<Longrightarrow> queue_admitted q e \<Longrightarrow> queue_step e q = Inr q' \<Longrightarrow> queue_reachable q'"

subsection \<open>The chain of nodes\<close>

text \<open>
  \<open>ns\<close> lists the nodes from \<open>first\<close> to \<open>last\<close>, \<open>vs\<close> their values; \<open>tl\<close> is where the last one points:
  nowhere, or to the node that was linked but not yet reached by \<open>last\<close>.
\<close>

fun linked :: "(nat \<rightharpoonup> 'a \<times> nat option) \<Rightarrow> (nat \<times> 'a) list \<Rightarrow> nat option \<Rightarrow> bool" where
  "linked h [] nx = True"
| "linked h [(p, v)] nx \<longleftrightarrow> h p = Some (v, nx)"
| "linked h ((p, v) # (p', v') # ns) nx \<longleftrightarrow> h p = Some (v, Some p') \<and> linked h ((p', v') # ns) nx"

lemma linked_Cons:
  "linked h ((p, v) # ns) nx \<longleftrightarrow> h p = Some (v, case ns of [] \<Rightarrow> nx | n # _ \<Rightarrow> Some (fst n)) \<and> linked h ns nx"
  by (cases ns) auto

lemma linked_append:
  "linked h (ns @ (p, v) # ms) nx \<longleftrightarrow> linked h ns (Some p) \<and> linked h ((p, v) # ms) nx"
proof (induction ns)
  case (Cons n ns)
  obtain p' v' where "n = (p', v')" by fastforce
  then show ?case using Cons by (cases ns) (auto simp: linked_Cons simp del: linked.simps(2,3))
qed simp

lemma linked_frame: "linked h ns nx \<Longrightarrow> (\<And>p. p \<in> fst ` set ns \<Longrightarrow> h' p = h p) \<Longrightarrow> linked h' ns nx"
proof (induction ns)
  case (Cons n ns)
  obtain p v where "n = (p, v)" by fastforce
  then show ?case using Cons by (auto simp: linked_Cons simp del: linked.simps(2,3))
qed simp

text \<open>
  Consumed nodes \<open>as\<close>, the divider \<open>d\<close> and the nodes \<open>bs\<close> still to be consumed; \<open>extra\<close> is the
  node linked behind them.
\<close>

definition extra_node :: "'a lock_free_queue \<Rightarrow> (nat \<times> 'a) option \<Rightarrow> bool" where
  "extra_node q extra \<longleftrightarrow> (if q_prod q = PLinked then \<exists>n t. extra = Some (n, t) \<and> q_heap q n = Some (t, None) else extra = None)"

definition shape :: "'a lock_free_queue \<Rightarrow> (nat \<times> 'a) list \<Rightarrow> nat \<times> 'a \<Rightarrow> (nat \<times> 'a) list \<Rightarrow> (nat \<times> 'a) option \<Rightarrow> bool" where
  "shape q as d bs extra \<longleftrightarrow>
     q_first q = fst (hd (as @ [d])) \<and> q_divider q = fst d \<and> q_last q = fst (last (d # bs)) \<and>
     linked (q_heap q) (as @ d # bs) (map_option fst extra) \<and> extra_node q extra \<and>
     distinct (map fst (as @ d # bs @ (case extra of None \<Rightarrow> [] | Some e \<Rightarrow> [e]))) \<and>
     dom (q_heap q) = fst ` set (as @ d # bs @ (case extra of None \<Rightarrow> [] | Some e \<Rightarrow> [e]))"

text \<open>
  The values still in the queue, the linked one included, are those put and not yet taken; a
  consumer that has read or moved on holds the next value to return.
\<close>

definition pending_value :: "'a lock_free_queue \<Rightarrow> 'a list" where
  "pending_value q = (case q_cons q of CMoved v \<Rightarrow> [v] | _ \<Rightarrow> [])"

definition queue_inv :: "'a lock_free_queue \<Rightarrow> bool" where
  "queue_inv q \<longleftrightarrow> (\<exists>as d bs extra. shape q as d bs extra \<and>
     q_put q = q_got q @ pending_value q @ map snd bs @ (case extra of None \<Rightarrow> [] | Some e \<Rightarrow> [snd e]) \<and>
     (q_cons q = CChecked \<longrightarrow> bs \<noteq> []) \<and> (\<forall>v. q_cons q = CRead v \<longrightarrow> bs \<noteq> [] \<and> snd (hd bs) = v) \<and>
     q_size q = int (length (q_put q)) - int (length (q_got q)) - (if q_prod q = PLinked \<or> q_prod q = PMoved then 1 else 0))"

lemma queue_init_inv: "queue_inv (LockFreeQueue n v)"
  unfolding queue_inv_def
  by (intro exI[of _ "[]"] exI[of _ "(n, v)"] exI[of _ None])
    (auto simp: shape_def LockFreeQueue_def extra_node_def pending_value_def)

subsection \<open>The nodes the threads look at\<close>

lemma linked_last: "linked h (xs @ [l]) nx \<longleftrightarrow> linked h xs (Some (fst l)) \<and> h (fst l) = Some (snd l, nx)"
  by (cases l) (simp add: linked_append)

lemma distinct_snoc: "distinct (map fst (xs @ [l])) \<Longrightarrow> p \<in> fst ` set xs \<Longrightarrow> p \<noteq> fst l"
  by (metis distinct_append disjoint_insert(1) list.map(2) list.set(2) map_append set_map insertI1 IntI empty_iff)

lemma linked_set_last:
  assumes "linked h (xs @ [l]) nx0" "distinct (map fst (xs @ [l]))" "\<And>p. p \<in> fst ` set xs \<Longrightarrow> h' p = h p" "h' (fst l) = Some (snd l, nx)"
  shows "linked h' (xs @ [l]) nx"
  using assms linked_frame[of h xs "Some (fst l)" h'] by (simp add: linked_last)

lemma linked_mid:
  "linked h (as @ d # bs) nx \<Longrightarrow> h (fst d) = Some (snd d, case bs of [] \<Rightarrow> nx | b # _ \<Rightarrow> Some (fst b))"
  by (cases d) (simp add: linked_append linked_Cons del: linked.simps(2,3))

lemma shape_last:
  assumes "shape q as d bs extra"
  shows "\<exists>xs. as @ d # bs = xs @ [last (d # bs)] \<and> linked (q_heap q) (xs @ [last (d # bs)]) (map_option fst extra) \<and>
    q_heap q (q_last q) = Some (snd (last (d # bs)), map_option fst extra)"
proof -
  let ?xs = "as @ butlast (d # bs)"
  have e: "as @ d # bs = ?xs @ [last (d # bs)]" by simp
  then have l: "linked (q_heap q) (?xs @ [last (d # bs)]) (map_option fst extra)" using assms by (simp only: shape_def)
  then have "q_heap q (fst (last (d # bs))) = Some (snd (last (d # bs)), map_option fst extra)" using linked_last by blast
  then show ?thesis using e l assms unfolding shape_def by metis
qed

lemma shape_divider:
  "shape q as d bs extra \<Longrightarrow> q_heap q (q_divider q) =
    Some (snd d, case bs of [] \<Rightarrow> map_option fst extra | b # _ \<Rightarrow> Some (fst b))"
  using linked_mid[of "q_heap q" as d bs] by (simp add: shape_def)

lemma shape_first:
  "shape q (a # as) d bs extra \<Longrightarrow> q_heap q (q_first q) = Some (snd a, Some (fst (hd (as @ [d]))))"
proof -
  assume sh: "shape q (a # as) d bs extra"
  then have "linked (q_heap q) ([] @ a # (as @ d # bs)) (map_option fst extra)" and f: "q_first q = fst a" by (simp_all add: shape_def)
  from linked_mid[OF this(1)] show ?thesis unfolding f by (cases as) simp_all
qed

lemma shape_moved: "shape q as d bs extra \<Longrightarrow> q_divider q \<noteq> q_last q \<longleftrightarrow> bs \<noteq> []"
  by (cases bs rule: rev_cases) (auto simp: shape_def)

lemma shape_consumed: "shape q as d bs extra \<Longrightarrow> q_divider q \<noteq> q_first q \<longleftrightarrow> as \<noteq> []"
  by (cases as) (auto simp: shape_def)

subsection \<open>The producer\<close>

lemma produce_begin_inv:
  assumes "queue_inv q" "q_prod q = PIdle" "q_heap q n = None"
  shows "wp (produce_begin n t q) queue_inv"
proof -
  obtain as d bs extra where sh: "shape q as d bs extra"
    and put: "q_put q = q_got q @ pending_value q @ map snd bs @ (case extra of None \<Rightarrow> [] | Some e \<Rightarrow> [snd e])"
    and co: "q_cons q = CChecked \<longrightarrow> bs \<noteq> []" "\<forall>v. q_cons q = CRead v \<longrightarrow> bs \<noteq> [] \<and> snd (hd bs) = v"
    and size: "q_size q = int (length (q_put q)) - int (length (q_got q))"
    using assms(1,2) by (auto simp: queue_inv_def)
  have ex: "extra = None" using sh assms(2) by (simp add: shape_def extra_node_def)
  define l where "l = last (d # bs)"
  obtain xs where xs: "as @ d # bs = xs @ [l]" "linked (q_heap q) (xs @ [l]) None" "q_heap q (q_last q) = Some (snd l, None)"
    using shape_last[OF sh] ex unfolding l_def by auto
  let ?h = "(q_heap q)(n \<mapsto> (t, None), q_last q \<mapsto> (snd l, Some n))"
  let ?q = "q\<lparr>q_heap := ?h, q_prod := PLinked, q_put := q_put q @ [t]\<rparr>"
  have dm: "dom (q_heap q) = fst ` set (as @ d # bs)" and ds: "distinct (map fst (as @ d # bs))"
    using sh unfolding shape_def ex by simp_all
  have last: "q_last q = fst l" using sh unfolding shape_def l_def by blast
  have n: "n \<notin> fst ` set (as @ d # bs)" using assms(3) dm by (metis domIff)
  have nl: "n \<noteq> q_last q" using assms(3) xs(3) by auto
  have "linked ?h (xs @ [l]) (Some n)"
  proof (rule linked_set_last[OF xs(2)])
    show dxs: "distinct (map fst (xs @ [l]))" using ds unfolding xs(1) .
    show "?h p = q_heap q p" if "p \<in> fst ` set xs" for p
    proof -
      have "p \<noteq> q_last q" using distinct_snoc[OF dxs that] last by simp
      moreover have "p \<in> fst ` set (as @ d # bs)" using that unfolding xs(1) by auto
      with n have "p \<noteq> n" by blast
      ultimately show ?thesis by simp
    qed
    show "?h (fst l) = Some (snd l, Some n)" using last by simp
  qed
  then have li: "linked ?h (as @ d # bs) (Some n)" unfolding xs(1) .
  have "q_last q \<in> dom (q_heap q)" using xs(3) by auto
  then have "dom ?h = insert n (dom (q_heap q))" by auto
  then have "dom ?h = fst ` set (as @ d # bs @ [(n, t)])" unfolding dm by auto
  moreover have "distinct (map fst (as @ d # bs @ [(n, t)]))" using ds n by (simp add: image_Un)
  moreover have "?h n = Some (t, None)" using nl by simp
  ultimately have "shape ?q as d bs (Some (n, t))"
    using sh li unfolding shape_def extra_node_def by simp
  moreover have "q_put ?q = q_got ?q @ pending_value ?q @ map snd bs @ [t]" using put ex by (simp add: pending_value_def)
  ultimately have "queue_inv ?q" using co size unfolding queue_inv_def
    by (intro exI[of _ as] exI[of _ d] exI[of _ bs] exI[of _ "Some (n, t)"]) simp
  then show ?thesis using xs(3) by (simp add: produce_begin_def node_at_def)
qed

lemma produce_step_inv:
  assumes "queue_inv q"
  shows "wp (produce_step q) queue_inv"
proof -
  obtain as d bs extra where sh: "shape q as d bs extra"
    and put: "q_put q = q_got q @ pending_value q @ map snd bs @ (case extra of None \<Rightarrow> [] | Some e \<Rightarrow> [snd e])"
    and co: "q_cons q = CChecked \<longrightarrow> bs \<noteq> []" "\<forall>v. q_cons q = CRead v \<longrightarrow> bs \<noteq> [] \<and> snd (hd bs) = v"
    and size: "q_size q = int (length (q_put q)) - int (length (q_got q)) - (if q_prod q = PLinked \<or> q_prod q = PMoved then 1 else 0)"
    using assms unfolding queue_inv_def by blast
  show ?thesis
  proof (cases "q_prod q")
    case PIdle
    then show ?thesis using assms by (simp add: produce_step_def)
  next
    case PLinked
    then obtain n t where ex: "extra = Some (n, t)" "q_heap q n = Some (t, None)" using sh by (auto simp: shape_def extra_node_def)
    let ?q = "q\<lparr>q_last := n, q_prod := PMoved\<rparr>"
    have "linked (q_heap q) (as @ d # bs) (Some n)" using sh ex by (simp add: shape_def)
    then have "linked (q_heap q) ((as @ d # bs) @ [(n, t)]) None" using ex unfolding linked_last by simp
    then have "shape ?q as d (bs @ [(n, t)]) None"
      using sh ex by (auto simp: shape_def extra_node_def)
    then have "queue_inv ?q" using put co size PLinked ex unfolding queue_inv_def
      by (intro exI[of _ as] exI[of _ d] exI[of _ "bs @ [(n, t)]"] exI[of _ None]) (auto simp: pending_value_def hd_append)
    then show ?thesis using PLinked shape_last[OF sh] ex by (auto simp: produce_step_def next_of_def node_at_def)
  next
    case PMoved
    then have "extra = None" using sh by (simp add: shape_def extra_node_def)
    with PMoved have "shape (q\<lparr>q_size := q_size q + 1, q_prod := PClean\<rparr>) as d bs extra" using sh by (simp add: shape_def extra_node_def)
    then have "queue_inv (q\<lparr>q_size := q_size q + 1, q_prod := PClean\<rparr>)" using put co size PMoved unfolding queue_inv_def
      by (intro exI[of _ as] exI[of _ d] exI[of _ bs] exI[of _ extra]) (simp add: pending_value_def)
    then show ?thesis using PMoved by (simp add: produce_step_def)
  next
    case PClean
    show ?thesis
    proof (cases as)
      case Nil
      then have "q_divider q = q_first q" using shape_consumed[OF sh] by simp
      moreover have "extra = None" using sh PClean by (simp add: shape_def extra_node_def)
      with PClean have "shape (q\<lparr>q_prod := PIdle\<rparr>) as d bs extra" using sh by (simp add: shape_def extra_node_def)
      then have "queue_inv (q\<lparr>q_prod := PIdle\<rparr>)" using put co size PClean unfolding queue_inv_def
        by (intro exI[of _ as] exI[of _ d] exI[of _ bs] exI[of _ extra]) (simp add: pending_value_def)
      ultimately show ?thesis using PClean by (simp add: produce_step_def)
    next
      case (Cons a as')
      let ?h = "(q_heap q)(q_first q := None)" and ?n = "fst (hd (as' @ [d]))"
      let ?q = "q\<lparr>q_heap := ?h, q_first := ?n\<rparr>"
      have fa: "q_first q = fst a" using sh Cons by (simp add: shape_def)
      have tail: "linked (q_heap q) (as' @ d # bs) (map_option fst extra)"
        using sh Cons linked_append[of "q_heap q" "[]" "fst a" "snd a" "as' @ d # bs"] linked_Cons[of "q_heap q" "fst a" "snd a"]
        by (simp add: shape_def del: linked.simps(2,3))
      have ex: "extra = None" using sh PClean by (simp add: shape_def extra_node_def)
      have out: "fst a \<notin> fst ` set (as' @ d # bs)" and dm: "dom (q_heap q) = insert (fst a) (fst ` set (as' @ d # bs))"
        using sh Cons ex by (simp_all add: shape_def image_Un)
      have "linked ?h (as' @ d # bs) (map_option fst extra)"
      proof (rule linked_frame[OF tail])
        show "?h p = q_heap q p" if "p \<in> fst ` set (as' @ d # bs)" for p
        proof -
          have "p \<noteq> fst a" using out that by metis
          then show ?thesis using fa by simp
        qed
      qed
      moreover have "dom ?h = fst ` set (as' @ d # bs)" using dm out fa by auto
      ultimately have "shape ?q as' d bs extra" using sh Cons PClean ex by (simp add: shape_def extra_node_def)
      then have "queue_inv ?q" using put co size PClean unfolding queue_inv_def
        by (intro exI[of _ as'] exI[of _ d] exI[of _ bs] exI[of _ extra]) (simp add: pending_value_def)
      moreover have "q_heap q (q_first q) = Some (snd a, Some ?n)" using shape_first sh Cons by blast
      moreover have "q_divider q \<noteq> q_first q" using shape_consumed[OF sh] Cons by simp
      ultimately show ?thesis using PClean by (simp add: produce_step_def next_of_def node_at_def)
    qed
  qed
qed

subsection \<open>The consumer\<close>

lemma consume_step_inv:
  assumes "queue_inv q"
  shows "wp (consume_step q) queue_inv"
proof -
  obtain as d bs extra where sh: "shape q as d bs extra"
    and put: "q_put q = q_got q @ pending_value q @ map snd bs @ (case extra of None \<Rightarrow> [] | Some e \<Rightarrow> [snd e])"
    and co: "q_cons q = CChecked \<longrightarrow> bs \<noteq> []" "\<forall>v. q_cons q = CRead v \<longrightarrow> bs \<noteq> [] \<and> snd (hd bs) = v"
    and size: "q_size q = int (length (q_put q)) - int (length (q_got q)) -
      (if q_prod q = PLinked \<or> q_prod q = PMoved then 1 else 0)"
    using assms unfolding queue_inv_def by blast
  have keep: "shape (q\<lparr>q_cons := c\<rparr>) as d bs extra" for c using sh by (simp add: shape_def extra_node_def)
  have read: "q_heap q (q_divider q) = Some (snd d, Some (fst b)) \<and> q_heap q (fst b) = Some (snd b, case bs' of [] \<Rightarrow> map_option fst extra | c # _ \<Rightarrow> Some (fst c))"
    if "bs = b # bs'" for b bs'
    using shape_divider[OF sh] sh that linked_mid[of "q_heap q" "as @ [d]" b bs'] by (simp add: shape_def)
  show ?thesis
  proof (cases "q_cons q")
    case CIdle
    have "queue_inv (q\<lparr>q_cons := CChecked\<rparr>)" if "bs \<noteq> []" using keep[of CChecked] put size CIdle that unfolding queue_inv_def
      by (intro exI[of _ as] exI[of _ d] exI[of _ bs] exI[of _ extra]) (simp add: pending_value_def)
    then show ?thesis using CIdle assms shape_moved[OF sh] by (simp add: consume_step_def)
  next
    case CChecked
    then obtain b bs' where bs: "bs = b # bs'" using co by (cases bs) auto
    have "queue_inv (q\<lparr>q_cons := CRead (snd b)\<rparr>)" using keep[of "CRead (snd b)"] put size CChecked bs unfolding queue_inv_def
      by (intro exI[of _ as] exI[of _ d] exI[of _ bs] exI[of _ extra]) (simp add: pending_value_def)
    then show ?thesis using CChecked read[OF bs] by (simp add: consume_step_def next_of_def node_at_def)
  next
    case (CRead v)
    then obtain b bs' where bs: "bs = b # bs'" "snd b = v" using co by (cases bs) auto
    let ?q = "q\<lparr>q_divider := fst b, q_cons := CMoved v\<rparr>"
    have "shape ?q (as @ [d]) b bs' extra" using sh bs by (cases as) (simp_all add: shape_def extra_node_def)
    then have "queue_inv ?q" using put size CRead bs unfolding queue_inv_def
      by (intro exI[of _ "as @ [d]"] exI[of _ b] exI[of _ bs'] exI[of _ extra]) (simp add: pending_value_def)
    then show ?thesis using CRead read[OF bs(1)] by (simp add: consume_step_def next_of_def node_at_def)
  next
    case (CMoved v)
    let ?q = "q\<lparr>q_size := q_size q - 1, q_got := q_got q @ [v], q_cons := CIdle\<rparr>"
    have "shape ?q as d bs extra" using sh by (simp add: shape_def extra_node_def)
    then have "queue_inv ?q" using put size CMoved unfolding queue_inv_def
      by (intro exI[of _ as] exI[of _ d] exI[of _ bs] exI[of _ extra]) (simp add: pending_value_def)
    then show ?thesis using CMoved by (simp add: consume_step_def)
  qed
qed

lemma queue_step_inv: "queue_inv q \<Longrightarrow> queue_admitted q e \<Longrightarrow> wp (queue_step e q) queue_inv"
  by (cases e) (simp_all add: produce_begin_inv produce_step_inv consume_step_inv)

lemma queue_reachable_inv: "queue_reachable q \<Longrightarrow> queue_inv q"
proof (induction rule: queue_reachable.induct)
  case (queue_next q e q')
  then show ?case using wpD[OF queue_step_inv] by fastforce
qed (rule queue_init_inv)

subsection \<open>The content of the queue, read off the heap\<close>

fun values_after :: "nat \<Rightarrow> (nat \<rightharpoonup> 'a \<times> nat option) \<Rightarrow> nat \<Rightarrow> 'a list" where
  "values_after 0 h p = []"
| "values_after (Suc k) h p =
     (case h p of Some (_, Some p') \<Rightarrow> (case h p' of Some (v, _) \<Rightarrow> v # values_after k h p' | None \<Rightarrow> []) | _ \<Rightarrow> [])"

text \<open>The value a consumer has taken but not yet returned comes first; no chain is longer than the heap.\<close>

definition queue_content :: "'a lock_free_queue \<Rightarrow> 'a list" where
  "queue_content q = pending_value q @ values_after (card (dom (q_heap q))) (q_heap q) (q_divider q)"

lemma values_after_linked:
  "linked h (d # ns) None \<Longrightarrow> length ns \<le> k \<Longrightarrow> values_after k h (fst d) = map snd ns"
proof (induction ns arbitrary: d k)
  case Nil
  then show ?case by (cases d; cases k) auto
next
  case (Cons n ns)
  obtain p v where n: "n = (p, v)" by fastforce
  obtain k' where k: "k = Suc k'" using Cons.prems by (cases k) auto
  show ?case using Cons.IH[of n k'] Cons.prems unfolding n k by (cases d; cases ns) auto
qed

lemma shape_chain:
  assumes "shape q as d bs extra"
  shows "linked (q_heap q) (as @ d # bs @ (case extra of None \<Rightarrow> [] | Some e \<Rightarrow> [e])) None"
proof (cases extra)
  case None
  then show ?thesis using assms by (simp add: shape_def)
next
  case (Some e)
  then have "linked (q_heap q) ((as @ d # bs) @ [e]) None" using assms
    unfolding linked_last by (auto simp: shape_def extra_node_def split: if_splits)
  then show ?thesis using Some by simp
qed

lemma linked_suffix: "linked h (as @ d # ns) nx \<Longrightarrow> linked h (d # ns) nx"
  by (cases d) (simp add: linked_append)

lemma queue_content_eq:
  assumes "queue_inv q"
  shows "q_put q = q_got q @ queue_content q"
proof -
  obtain as d bs extra where sh: "shape q as d bs extra"
    and put: "q_put q = q_got q @ pending_value q @ map snd bs @ (case extra of None \<Rightarrow> [] | Some e \<Rightarrow> [snd e])"
    using assms unfolding queue_inv_def by blast
  let ?ns = "bs @ (case extra of None \<Rightarrow> [] | Some e \<Rightarrow> [e])"
  have "card (dom (q_heap q)) = length (as @ d # ?ns)" using sh unfolding shape_def
    by (metis distinct_card length_map list.set_map)
  then have "length ?ns \<le> card (dom (q_heap q))" by (metis length_append le_add2 le_trans length_Cons le_SucI order_refl)
  moreover have "q_divider q = fst d" using sh unfolding shape_def by blast
  ultimately have "values_after (card (dom (q_heap q))) (q_heap q) (q_divider q) = map snd ?ns"
    using values_after_linked[OF linked_suffix[OF shape_chain[OF sh]]] by metis
  then show ?thesis using put by (cases extra) (simp_all add: queue_content_def)
qed

lemma free_nodes_linked:
  "linked h ns None \<Longrightarrow> distinct (map fst ns) \<Longrightarrow> ns \<noteq> [] \<Longrightarrow>
    free_nodes (Some (fst (hd ns))) h = Some (Inr (h |` (- fst ` set ns)))"
proof (induction ns arbitrary: h)
  case (Cons n ns)
  obtain p v where n: "n = (p, v)" by fastforce
  let ?h = "h(p := None)"
  have fr: "free_nodes (Some p) h = free_nodes (case ns of [] \<Rightarrow> None | m # _ \<Rightarrow> Some (fst m)) ?h"
    using Cons.prems(1) unfolding n linked_Cons by (subst free_nodes.simps) simp
  have "linked h ns None" "p \<notin> fst ` set ns" using Cons.prems unfolding n linked_Cons by auto
  then have li: "linked ?h ns None" using linked_frame[of h ns None ?h] by (metis fun_upd_other)
  have "distinct (map fst ns)" using Cons.prems(2) by simp
  note ih = Cons.IH[OF li this]
  have re: "?h |` (- fst ` set ns) = h |` (- fst ` set (n # ns))" by (auto simp: n restrict_map_def fun_eq_iff)
  show ?case
  proof (cases ns)
    case Nil
    then show ?thesis using fr by (simp add: n free_nodes.simps restrict_map_def fun_eq_iff)
  next
    case (Cons m ms)
    then have "free_nodes (Some (fst m)) ?h = Some (Inr (?h |` (- fst ` set ns)))"
      using ih by (metis list.sel(1) list.distinct(1))
    moreover have "free_nodes (Some p) h = free_nodes (Some (fst m)) ?h" using fr unfolding Cons by (simp only: list.case)
    ultimately have "free_nodes (Some p) h = Some (Inr (?h |` (- fst ` set ns)))" by (simp only:)
    then show ?thesis unfolding re by (simp only: n list.sel fst_conv)
  qed
qed simp

lemma queue_size_eq: "queue_inv q \<Longrightarrow>
  q_size q = int (length (queue_content q)) - (if q_prod q = PLinked \<or> q_prod q = PMoved then 1 else 0)"
  using queue_content_eq[of q] unfolding queue_inv_def by auto

subsection \<open>Properties\<close>

text \<open>C20: Whatever the interleaving of the producer and the consumer, no thread follows a null pointer or
  reads a freed node, and the queue is a FIFO: only the link of a new node appends to its content, only
  the consumer's return takes the head, the steps in between and the cleaning of nodes leave it as it is.\<close>

theorem queue_refines_fifo:
  assumes "queue_reachable q" "queue_admitted q e"
  shows "\<exists>q'. queue_step e q = Inr q' \<and>
    (case e of QProduce n t \<Rightarrow> queue_content q' = queue_content q @ [t] \<and> q_got q' = q_got q
     | QProd \<Rightarrow> queue_content q' = queue_content q \<and> q_got q' = q_got q
     | QCons \<Rightarrow> (case q_cons q of CMoved v \<Rightarrow> queue_content q = v # queue_content q' \<and> q_got q' = q_got q @ [v]
               | _ \<Rightarrow> queue_content q' = queue_content q \<and> q_got q' = q_got q))"
proof -
  have inv: "queue_inv q" using assms(1) by (rule queue_reachable_inv)
  obtain q' where q': "queue_step e q = Inr q'" "queue_inv q'" using wpD[OF queue_step_inv[OF inv assms(2)]] by blast
  note eqs = queue_content_eq[OF inv] queue_content_eq[OF q'(2)]
  show ?thesis
  proof (cases e)
    case (QProduce n t)
    then have "q_put q' = q_put q @ [t]" "q_got q' = q_got q" using q'(1) by (auto simp: produce_begin_def simp: and_then_Inr)
    then show ?thesis using QProduce q'(1) eqs by auto
  next
    case QProd
    then have "q_put q' = q_put q" "q_got q' = q_got q"
      using q'(1) by (auto simp: produce_step_def split: prod_pc.splits if_splits simp: and_then_Inr)
    then show ?thesis using QProd q'(1) eqs by auto
  next
    case QCons
    then have "q_put q' = q_put q" "q_got q' = (case q_cons q of CMoved v \<Rightarrow> q_got q @ [v] | _ \<Rightarrow> q_got q)"
      using q'(1) by (auto simp: consume_step_def split: cons_pc.splits if_splits simp: and_then_Inr)
    then show ?thesis using QCons q'(1) eqs by (auto split: cons_pc.splits)
  qed
qed

text \<open>Between two calls of \<open>Produce\<close> the size is the number of values still in the queue, so
  \<open>empty\<close> tells the truth; while \<open>Produce\<close> runs it lags by one and may read \<open>-1\<close>.\<close>

theorem queue_size_tracks_content:
  assumes "queue_reachable q"
  shows "q_size q = int (length (queue_content q)) - (if q_prod q = PLinked \<or> q_prod q = PMoved then 1 else 0)"
  using queue_size_eq[OF queue_reachable_inv[OF assms]] .

text \<open>The destructor frees every node the queue ever kept, each one once, and ends.\<close>

theorem queue_destructor_frees_all:
  assumes "queue_reachable q"
  shows "free_nodes (Some (q_first q)) (q_heap q) = Some (Inr Map.empty)"
proof -
  obtain as d bs extra where sh: "shape q as d bs extra"
    using queue_reachable_inv[OF assms] unfolding queue_inv_def by blast
  let ?ns = "as @ d # bs @ (case extra of None \<Rightarrow> [] | Some e \<Rightarrow> [e])"
  have "distinct (map fst ?ns)" and dm: "dom (q_heap q) = fst ` set ?ns" and "q_first q = fst (hd (as @ [d]))"
    using sh unfolding shape_def by blast+
  moreover have "hd ?ns = hd (as @ [d])" by (cases as) simp_all
  ultimately have "free_nodes (Some (q_first q)) (q_heap q) = Some (Inr (q_heap q |` (- fst ` set ?ns)))"
    using free_nodes_linked[OF shape_chain[OF sh]] by simp
  moreover have "q_heap q |` (- fst ` set ?ns) = Map.empty"
    unfolding dm[symmetric] by (auto simp: restrict_map_def fun_eq_iff)
  ultimately show ?thesis by simp
qed

subsection \<open>A run\<close>

text \<open>The producer links a second value while the consumer is in the middle of taking the first.\<close>

definition demo_schedule :: "nat queue_event list" where
  "demo_schedule = [QProduce 1 10, QCons, QProd, QCons, QCons, QProd, QProd, QProduce 2 20, QCons, QCons]"

fun queue_run :: "'a queue_event list \<Rightarrow> 'a lock_free_queue \<Rightarrow> 'a lock_free_queue option" where
  "queue_run [] q = Some q"
| "queue_run (e # es) q = (if queue_admitted q e then (case queue_step e q of Inl _ \<Rightarrow> None | Inr q' \<Rightarrow> queue_run es q') else None)"

lemma queue_run_reachable: "queue_reachable q \<Longrightarrow> queue_run es q = Some q' \<Longrightarrow> queue_reachable q'"
proof (induction es arbitrary: q)
  case (Cons e es)
  then obtain q1 where "queue_admitted q e" "queue_step e q = Inr q1" "queue_run es q1 = Some q'"
    by (auto split: if_splits sum.splits)
  then show ?case using Cons queue_reachable.queue_next by blast
qed simp

definition demo_queue :: "nat lock_free_queue" where
  "demo_queue = \<lparr>q_heap = [0 \<mapsto> (0, Some 1), 1 \<mapsto> (10, Some 2), 2 \<mapsto> (20, None)], q_first = 0, q_divider = 1, q_last = 1,
     q_size = 0, q_prod = PLinked, q_cons = CIdle, q_put = [10, 20], q_got = [10]\<rparr>"

lemma demo_queue_run: "queue_run demo_schedule (LockFreeQueue 0 0) = Some demo_queue"
  by (simp add: demo_schedule_def LockFreeQueue_def produce_begin_def produce_step_def consume_step_def node_at_def next_of_def
      demo_queue_def fun_eq_iff)

lemma demo_queue_reachable: "queue_reachable demo_queue"
  using queue_run_reachable[OF queue_init demo_queue_run] .

theorem queue_refines_fifo_witness:
  "\<exists>q'. queue_step QCons demo_queue = Inr q' \<and> queue_content q' = queue_content demo_queue \<and> q_got q' = q_got demo_queue"
  using queue_refines_fifo[OF demo_queue_reachable, of QCons] by (simp add: demo_queue_def)

theorem queue_size_tracks_content_witness: "q_size demo_queue = int (length (queue_content demo_queue)) - 1"
  using queue_size_tracks_content[OF demo_queue_reachable] by (simp add: demo_queue_def)

theorem queue_destructor_frees_all_witness: "free_nodes (Some 0) (q_heap demo_queue) = Some (Inr Map.empty)"
  using queue_destructor_frees_all[OF demo_queue_reachable] by (simp add: demo_queue_def)

end
