(* ===== verification/RtpUtils.thy ===== *)
theory RtpUtils
  imports Prelude
begin

text \<open>
  \<open>rtp_utils.cpp\<close>: telling RTP from RTCP by the first bytes of a packet, and the fields read from
  a packet at fixed places. A read behind the end of the packet is \<open>None\<close>.
\<close>

definition kRtpVersion :: u8 where "kRtpVersion = 2"
definition kMinRtpPacketLen :: nat where "kMinRtpPacketLen = 12"
definition kMinRtcpPacketLen :: nat where "kMinRtcpPacketLen = 4"

datatype rtp_packet_type = kRtp | kRtcp | kUnknown

definition HasCorrectRtpVersion :: "bytes \<Rightarrow> bool" where
  "HasCorrectRtpVersion packet \<longleftrightarrow> drop_bit 6 (packet ! 0) = kRtpVersion"

definition PayloadTypeIsReservedForRtcp :: "u8 \<Rightarrow> bool" where
  "PayloadTypeIsReservedForRtcp payload_type \<longleftrightarrow> 64 \<le> payload_type \<and> payload_type < 96"

definition IsRtpPacket :: "bytes \<Rightarrow> bool" where
  "IsRtpPacket packet \<longleftrightarrow> kMinRtpPacketLen \<le> length packet \<and> HasCorrectRtpVersion packet \<and>
     \<not> PayloadTypeIsReservedForRtcp (packet ! 1 AND 0x7F)"

definition IsRtcpPacket :: "bytes \<Rightarrow> bool" where
  "IsRtcpPacket packet \<longleftrightarrow> kMinRtcpPacketLen \<le> length packet \<and> HasCorrectRtpVersion packet \<and>
     PayloadTypeIsReservedForRtcp (packet ! 1 AND 0x7F)"

definition InferRtpPacketType :: "bytes \<Rightarrow> rtp_packet_type" where
  "InferRtpPacketType packet = (if IsRtpPacket packet then kRtp else if IsRtcpPacket packet then kRtcp else kUnknown)"

definition big_endian :: "bytes \<Rightarrow> nat" where
  "big_endian bs = foldl (\<lambda>n b. n * 256 + unat b) 0 bs"

definition ParseRtpSequenceNumber :: "bytes \<Rightarrow> u16 option" where
  "ParseRtpSequenceNumber packet = (if 4 \<le> length packet then Some (of_nat (big_endian (take 2 (drop 2 packet)))) else None)"

definition ParseRtpSsrc :: "bytes \<Rightarrow> u32 option" where
  "ParseRtpSsrc packet = (if 12 \<le> length packet then Some (of_nat (big_endian (take 4 (drop 8 packet)))) else None)"

definition GetRtcpType :: "bytes \<Rightarrow> u8 option" where
  "GetRtcpType packet = (if length packet < kMinRtcpPacketLen then None else Some (packet ! 1))"

text \<open>A packet of either kind has the version in its first byte, so it starts with 128 to 191.\<close>

lemma div_64: "n div 64 = 2 \<longleftrightarrow> 128 \<le> n \<and> n < (192 :: nat)"
proof
  show "128 \<le> n \<and> n < 192" if "n div 64 = 2"
    using that div_mult_mod_eq[of n 64] mod_less_divisor[of 64 n] by linarith
qed (auto intro: div_nat_eqI)

lemma version_range: "drop_bit 6 (b :: u8) = 2 \<longleftrightarrow> 128 \<le> b \<and> b < 192"
  using div_64[of "unat b"] by (simp add: word_le_nat_alt word_less_nat_alt word_unat_eq_iff drop_bit_eq_div unat_div)

lemma version_bits: "(b :: u8) AND 0xC0 = push_bit 6 (drop_bit 6 b)"
proof (rule bit_word_eqI)
  fix n assume "n < LENGTH(8)"
  then have "n \<in> {0, 1, 2, 3, 4, 5, 6, 7}" by auto
  then show "bit (b AND 0xC0) n = bit (push_bit 6 (drop_bit 6 b)) n" by (auto simp: bit_simps)
qed

lemma version_bits_dropped: "drop_bit 6 ((b :: u8) AND 0xC0) = drop_bit 6 b"
proof (rule bit_word_eqI)
  fix n assume "n < LENGTH(8)"
  then consider "n = 0" | "n = 1" | "2 \<le> n" by linarith
  then show "bit (drop_bit 6 (b AND 0xC0)) n = bit (drop_bit 6 b) n"
    by cases (auto simp: bit_simps dest: bit_imp_le_length)
qed

lemma version_mask: "(b :: u8) AND 0xC0 = 0x80 \<longleftrightarrow> drop_bit 6 b = 2"
proof
  show "b AND 0xC0 = 0x80" if "drop_bit 6 b = 2" using that by (simp add: version_bits)
  assume "b AND 0xC0 = 0x80"
  then have "drop_bit 6 (b AND 0xC0) = drop_bit 6 0x80" by simp
  then show "drop_bit 6 b = 2" unfolding version_bits_dropped by simp
qed

lemma parsed_when_rtp: "InferRtpPacketType packet = kRtp \<Longrightarrow>
  ParseRtpSequenceNumber packet \<noteq> None \<and> ParseRtpSsrc packet \<noteq> None"
  by (auto simp: InferRtpPacketType_def IsRtpPacket_def kMinRtpPacketLen_def ParseRtpSequenceNumber_def ParseRtpSsrc_def split: if_splits)

lemma typed_when_rtcp: "InferRtpPacketType packet = kRtcp \<Longrightarrow> GetRtcpType packet \<noteq> None"
  by (auto simp: InferRtpPacketType_def IsRtcpPacket_def kMinRtcpPacketLen_def GetRtcpType_def split: if_splits)

end
