(* ===== verification/DtlsTransport.thy ===== *)
theory DtlsTransport
  imports RtpUtils
begin

text \<open>
  \<open>dtls_transport.cpp\<close>: the DTLS layer between an ICE channel and the SRTP transport. The SSL
  adapter of libwebrtc is not part of the repository: what its calls answer and which events it
  fires while it is given a packet is the argument \<open>ssl_env\<close> of the operations, which also holds
  whether the ICE channel is writable. Whether there is an adapter object is the field
  \<open>dt_dtls\<close>; the pointer \<open>downward_\<close> is valid exactly while there is one.
\<close>

definition kDtlsRecordHeaderLen :: nat where "kDtlsRecordHeaderLen = 13"
definition kMaxDtlsPacketLen :: nat where "kMaxDtlsPacketLen = 2048"

definition IsDtlsPacket :: "bytes \<Rightarrow> bool" where
  "IsDtlsPacket buf \<longleftrightarrow> kDtlsRecordHeaderLen \<le> length buf \<and> buf ! 0 > 19 \<and> buf ! 0 < 64"

definition IsDtlsClientHelloPacket :: "bytes \<Rightarrow> bool" where
  "IsDtlsClientHelloPacket buf \<longleftrightarrow> IsDtlsPacket buf \<and> length buf > 17 \<and> buf ! 0 = 22 \<and> buf ! 13 = 1"

definition DtlsIsRtpPacket :: "bytes \<Rightarrow> bool" where
  "DtlsIsRtpPacket buf \<longleftrightarrow> kMinRtpPacketLen \<le> length buf \<and> buf ! 0 AND 0xC0 = 0x80"

datatype dtls_state = DkNew | DkConnecting | DkConnected | DkClosed | DkFailed

datatype stream_result = SR_SUCCESS | SR_BLOCK | SR_EOS | SR_ERROR

text \<open>An event of the adapter: its signal bits, the error, and what the reads return one by one.\<close>

record dtls_event =
  ev_open :: bool
  ev_read :: bool
  ev_close :: bool
  ev_error :: int
  ev_reads :: "stream_result list"

record ssl_env =
  ice_writable :: bool
  ssl_create :: bool
  ssl_digest_ok :: "string \<Rightarrow> bytes \<Rightarrow> bool"
  ssl_verification_failed :: bool
  ssl_suites_ok :: "int list \<Rightarrow> bool"
  ssl_start :: int
  ssl_events :: "bytes \<Rightarrow> dtls_event list"

text \<open>What the receiver of a state signal reads of the transport at that moment.\<close>

record dtls_view =
  vw_state :: dtls_state
  vw_writable :: bool
  vw_active :: bool
  vw_dtls :: bool

datatype dtls_out =
    OutDtlsState dtls_view
  | OutDtlsWritable bool
  | OutDtlsReceiving bool
  | OutDtlsPacket bytes int
  | OutDtlsClosed
  | OutDtlsFed bytes

datatype dtls_fault = DanglingDownward | NullCertificate

record dtls_transport =
  dt_state :: dtls_state
  dt_receiving :: bool
  dt_writable :: bool
  dt_dtls :: bool
  dt_cached_hello :: bytes
  dt_cert :: "nat option"
  dt_fp_value :: bytes
  dt_fp_alg :: string
  dt_active :: bool
  dt_ciphers :: "int list"
  dt_out :: "dtls_out list"

type_synonym dt_result = "dtls_fault + dtls_transport"

definition DtlsTransport :: "int list \<Rightarrow> dtls_transport" where
  "DtlsTransport ciphers = \<lparr>dt_state = DkNew, dt_receiving = False, dt_writable = False, dt_dtls = False,
     dt_cached_hello = [], dt_cert = None, dt_fp_value = [], dt_fp_alg = [], dt_active = False,
     dt_ciphers = ciphers, dt_out = []\<rparr>"

definition dt_emit :: "dtls_out \<Rightarrow> dtls_transport \<Rightarrow> dtls_transport" where
  "dt_emit e t = t\<lparr>dt_out := dt_out t @ [e]\<rparr>"

definition view_of :: "dtls_transport \<Rightarrow> dtls_view" where
  "view_of t = \<lparr>vw_state = dt_state t, vw_writable = dt_writable t, vw_active = dt_active t, vw_dtls = dt_dtls t\<rparr>"

definition set_dtls_state :: "dtls_state \<Rightarrow> dtls_transport \<Rightarrow> dtls_transport" where
  "set_dtls_state s t =
     (if dt_state t = s then t
      else let t1 = t\<lparr>dt_state := s\<rparr> in dt_emit (OutDtlsState (view_of t1)) t1)"

definition set_writable_state :: "bool \<Rightarrow> dtls_transport \<Rightarrow> dtls_transport" where
  "set_writable_state w t = (if dt_writable t = w then t else dt_emit (OutDtlsWritable w) (t\<lparr>dt_writable := w\<rparr>))"

definition dt_set_receiving :: "bool \<Rightarrow> dtls_transport \<Rightarrow> dtls_transport" where
  "dt_set_receiving r t = (if dt_receiving t = r then t else dt_emit (OutDtlsReceiving r) (t\<lparr>dt_receiving := r\<rparr>))"

subsection \<open>Events of the adapter\<close>

text \<open>The loop reads until a read does not succeed; a list that ends is a read that blocks.\<close>

fun read_loop :: "stream_result list \<Rightarrow> dtls_transport \<Rightarrow> dtls_transport" where
  "read_loop [] t = t"
| "read_loop (SR_SUCCESS # rs) t = read_loop rs t"
| "read_loop (SR_BLOCK # rs) t = t"
| "read_loop (SR_EOS # rs) t = dt_emit OutDtlsClosed (set_dtls_state DkClosed (set_writable_state False t))"
| "read_loop (SR_ERROR # rs) t = dt_emit OutDtlsClosed (set_dtls_state DkFailed (set_writable_state False t))"

definition OnDtlsEvent :: "dtls_event \<Rightarrow> dtls_transport \<Rightarrow> dtls_transport" where
  "OnDtlsEvent e t =
     (let t1 = (if ev_open e then set_dtls_state DkConnected (set_writable_state True t) else t);
          t2 = (if ev_read e then read_loop (ev_reads e) t1 else t1)
      in if ev_close e
         then set_dtls_state (if ev_error e = 0 then DkClosed else DkFailed) (set_writable_state False t2)
         else t2)"

text \<open>The records of a DTLS packet: a header of 13 bytes that ends with the length of the rest.\<close>

definition record_len :: "bytes \<Rightarrow> nat" where
  "record_len d = unat (d ! 11) * 256 + unat (d ! 12)"

function records_whole :: "bytes \<Rightarrow> bool" where
  "records_whole d =
     (if length d = 0 then True
      else if length d < kDtlsRecordHeaderLen then False
      else if record_len d + kDtlsRecordHeaderLen > length d then False
      else records_whole (drop (kDtlsRecordHeaderLen + record_len d) d))"
  by pat_completeness auto
termination by (relation "measure length") (auto simp: kDtlsRecordHeaderLen_def)

declare records_whole.simps [simp del]

definition HandleDtlsPacket :: "ssl_env \<Rightarrow> bytes \<Rightarrow> dtls_transport \<Rightarrow> dtls_fault + bool \<times> dtls_transport" where
  "HandleDtlsPacket E d t =
     (if \<not> records_whole d then Inr (False, t)
      else if \<not> dt_dtls t then Inl DanglingDownward
      else Inr (True, fold OnDtlsEvent (ssl_events E d) (dt_emit (OutDtlsFed d) t)))"

subsection \<open>Starting the handshake\<close>

definition MaybeStartDtls :: "ssl_env \<Rightarrow> dtls_transport \<Rightarrow> dt_result" where
  "MaybeStartDtls E t =
     (if \<not> (dt_dtls t \<and> ice_writable E) then Inr t
      else if ssl_start E \<noteq> 0 then Inr (set_dtls_state DkFailed t)
      else
        let t1 = set_dtls_state DkConnecting t in
        if dt_cached_hello t1 = [] then Inr t1
        else and_then (HandleDtlsPacket E (dt_cached_hello t1) t1) (\<lambda>(ok, t2).
          Inr ((if ok then t2 else set_dtls_state DkFailed t2)\<lparr>dt_cached_hello := []\<rparr>)))"

definition SetupDtls :: "ssl_env \<Rightarrow> dtls_transport \<Rightarrow> dtls_fault + bool \<times> dtls_transport" where
  "SetupDtls E t =
     (if \<not> ssl_create E then Inr (False, t\<lparr>dt_dtls := False\<rparr>)
      else
        let t1 = t\<lparr>dt_dtls := True\<rparr> in
        if dt_cert t1 = None then Inl NullCertificate
        else if dt_fp_value t1 \<noteq> [] \<and> \<not> ssl_digest_ok E (dt_fp_alg t1) (dt_fp_value t1) then Inr (False, t1)
        else if dt_ciphers t1 \<noteq> [] \<and> \<not> ssl_suites_ok E (dt_ciphers t1) then Inr (False, t1)
        else and_then (MaybeStartDtls E t1) (\<lambda>t2. Inr (True, t2)))"

definition SetLocalCertificate :: "nat option \<Rightarrow> dtls_transport \<Rightarrow> bool \<times> dtls_transport" where
  "SetLocalCertificate cert t =
     (if dt_active t then (cert = dt_cert t, t)
      else if cert \<noteq> None then (True, t\<lparr>dt_cert := cert, dt_active := True\<rparr>)
      else (True, t))"

definition SetRemoteFingerprint ::
    "ssl_env \<Rightarrow> string \<Rightarrow> bytes \<Rightarrow> dtls_transport \<Rightarrow> dtls_fault + bool \<times> dtls_transport" where
  "SetRemoteFingerprint E alg digest t =
     (if dt_active t \<and> dt_fp_value t = digest \<and> alg \<noteq> [] then Inr (True, t)
      else if alg = [] then Inr (False, t\<lparr>dt_active := False\<rparr>)
      else if \<not> dt_active t then Inr (False, t)
      else
        let fingerprint_change = (dt_fp_value t \<noteq> []);
            t1 = t\<lparr>dt_fp_value := digest, dt_fp_alg := alg\<rparr>
        in if dt_dtls t1 \<and> \<not> fingerprint_change then
             (if ssl_digest_ok E alg digest then Inr (True, t1)
              else Inr (ssl_verification_failed E, set_dtls_state DkFailed t1))
           else
             let t2 = (if dt_dtls t1 \<and> fingerprint_change
                       then set_writable_state False (set_dtls_state DkNew (t1\<lparr>dt_dtls := False\<rparr>)) else t1)
             in and_then (SetupDtls E t2) (\<lambda>(ok, t3). if ok then Inr (True, t3) else Inr (False, set_dtls_state DkFailed t3)))"

subsection \<open>Signals of the ICE channel\<close>

definition DtOnReadPacket :: "ssl_env \<Rightarrow> bytes \<Rightarrow> int \<Rightarrow> dtls_transport \<Rightarrow> dt_result" where
  "DtOnReadPacket E buf ts t =
     (case dt_state t of
        DkNew \<Rightarrow>
          if IsDtlsClientHelloPacket buf then
            let t1 = t\<lparr>dt_cached_hello := buf\<rparr> in
            if \<not> dt_dtls t1 \<and> dt_cert t1 \<noteq> None then and_then (SetupDtls E t1) (\<lambda>(_, t2). Inr t2) else Inr t1
          else Inr t
      | DkConnecting \<Rightarrow>
          if IsDtlsPacket buf then and_then (HandleDtlsPacket E buf t) (\<lambda>(_, t1). Inr t1) else Inr t
      | DkConnected \<Rightarrow>
          if IsDtlsPacket buf then and_then (HandleDtlsPacket E buf t) (\<lambda>(_, t1). Inr t1)
          else if DtlsIsRtpPacket buf then Inr (dt_emit (OutDtlsPacket buf ts) t)
          else Inr t
      | _ \<Rightarrow> Inr t)"

definition DtOnWritableState :: "ssl_env \<Rightarrow> dtls_transport \<Rightarrow> dt_result" where
  "DtOnWritableState E t =
     (if \<not> dt_active t then Inr (set_writable_state (ice_writable E) t)
      else case dt_state t of
        DkNew \<Rightarrow> MaybeStartDtls E t
      | DkConnected \<Rightarrow> Inr (set_writable_state (ice_writable E) t)
      | _ \<Rightarrow> Inr t)"

definition DtOnReceivingState :: "bool \<Rightarrow> dtls_transport \<Rightarrow> dtls_transport" where
  "DtOnReceivingState receiving t = dt_set_receiving receiving t"

definition GetSrtpCryptoSuite :: "int option \<Rightarrow> dtls_view \<Rightarrow> int option" where
  "GetSrtpCryptoSuite adapter_suite v = (if vw_state v \<noteq> DkConnected then None else adapter_suite)"

definition ExportKeyingMaterial :: "(nat \<Rightarrow> bytes option) \<Rightarrow> nat \<Rightarrow> dtls_view \<Rightarrow> bytes option" where
  "ExportKeyingMaterial adapter_export len v = (if vw_dtls v then adapter_export len else None)"

text \<open>\<open>ToString\<close>: the flags as the log shows them.\<close>

definition dtls_flags :: "dtls_transport \<Rightarrow> string" where
  "dtls_flags t = (if dt_receiving t then ''R'' else ''-'') @ ''|'' @ (if dt_writable t then ''W'' else ''-'')"

subsection \<open>The transport as a machine\<close>

datatype dt_event =
    DtCertificate "nat option"
  | DtFingerprint ssl_env string bytes
  | DtPacket ssl_env bytes int
  | DtWritable ssl_env
  | DtReceiving bool
  | DtAdapter dtls_event

fun dt_step :: "dt_event \<Rightarrow> dtls_transport \<Rightarrow> dt_result" where
  "dt_step (DtCertificate c) t = Inr (snd (SetLocalCertificate c t))"
| "dt_step (DtFingerprint E alg digest) t = and_then (SetRemoteFingerprint E alg digest t) (\<lambda>(_, t1). Inr t1)"
| "dt_step (DtPacket E buf ts) t = DtOnReadPacket E buf ts t"
| "dt_step (DtWritable E) t = DtOnWritableState E t"
| "dt_step (DtReceiving r) t = Inr (DtOnReceivingState r t)"
| "dt_step (DtAdapter e) t = Inr (OnDtlsEvent e t)"

fun dt_admitted :: "dtls_transport \<Rightarrow> dt_event \<Rightarrow> bool" where
  "dt_admitted t (DtAdapter e) \<longleftrightarrow> dt_dtls t"
| "dt_admitted t _ \<longleftrightarrow> True"

inductive dt_reachable :: "int list \<Rightarrow> dtls_transport \<Rightarrow> bool" for ciphers where
  dt_init: "dt_reachable ciphers (DtlsTransport ciphers)"
| dt_next: "dt_reachable ciphers t \<Longrightarrow> dt_admitted t e \<Longrightarrow> dt_step e t = Inr t' \<Longrightarrow> dt_reachable ciphers t'"

end
