(* ===== verification/DtlsProps.thy ===== *)
theory DtlsProps
  imports DtlsTransport
begin

text \<open>
  What the DTLS layer keeps: an adapter while a handshake runs or is complete, a certificate while
  it is active; which packets it hands up and down; and what the records of a packet are.
\<close>

lemma dt_emit_simps [simp]:
  "dt_state (dt_emit e t) = dt_state t" "dt_writable (dt_emit e t) = dt_writable t" "dt_dtls (dt_emit e t) = dt_dtls t"
  "dt_cert (dt_emit e t) = dt_cert t" "dt_active (dt_emit e t) = dt_active t" "dt_out (dt_emit e t) = dt_out t @ [e]"
  "dt_cached_hello (dt_emit e t) = dt_cached_hello t" "dt_receiving (dt_emit e t) = dt_receiving t"
  by (simp_all add: dt_emit_def)

lemma set_dtls_state_simps [simp]:
  "dt_state (set_dtls_state s t) = s" "dt_writable (set_dtls_state s t) = dt_writable t" "dt_dtls (set_dtls_state s t) = dt_dtls t"
  "dt_cert (set_dtls_state s t) = dt_cert t" "dt_active (set_dtls_state s t) = dt_active t"
  "dt_cached_hello (set_dtls_state s t) = dt_cached_hello t" "dt_receiving (set_dtls_state s t) = dt_receiving t"
  by (simp_all add: set_dtls_state_def Let_def)

lemma set_writable_state_simps [simp]:
  "dt_state (set_writable_state w t) = dt_state t" "dt_writable (set_writable_state w t) = w" "dt_dtls (set_writable_state w t) = dt_dtls t"
  "dt_cert (set_writable_state w t) = dt_cert t" "dt_active (set_writable_state w t) = dt_active t"
  "dt_cached_hello (set_writable_state w t) = dt_cached_hello t" "dt_receiving (set_writable_state w t) = dt_receiving t"
  by (simp_all add: set_writable_state_def)

lemma dt_set_receiving_simps [simp]:
  "dt_state (dt_set_receiving r t) = dt_state t" "dt_writable (dt_set_receiving r t) = dt_writable t" "dt_dtls (dt_set_receiving r t) = dt_dtls t"
  "dt_cert (dt_set_receiving r t) = dt_cert t" "dt_active (dt_set_receiving r t) = dt_active t"
  by (simp_all add: dt_set_receiving_def)

text \<open>
  \<open>keeps_dt P t t'\<close>: the adapter, the certificate and the activity are the same, and everything
  that was put out satisfies \<open>P\<close>.
\<close>

definition puts_out :: "(dtls_out \<Rightarrow> bool) \<Rightarrow> dtls_transport \<Rightarrow> dtls_transport \<Rightarrow> bool" where
  "puts_out P t t' \<longleftrightarrow> (\<exists>es. dt_out t' = dt_out t @ es \<and> list_all P es)"

definition same_setup :: "dtls_transport \<Rightarrow> dtls_transport \<Rightarrow> bool" where
  "same_setup t t' \<longleftrightarrow> dt_dtls t' = dt_dtls t \<and> dt_cert t' = dt_cert t \<and> dt_active t' = dt_active t \<and> dt_cached_hello t' = dt_cached_hello t"

lemma puts_out_refl [simp]: "puts_out P t t"
  by (simp add: puts_out_def)

lemma puts_out_trans: "puts_out P t t' \<Longrightarrow> puts_out P t' t'' \<Longrightarrow> puts_out P t t''"
  by (auto simp: puts_out_def)

lemma puts_out_same: "dt_out t' = dt_out t \<Longrightarrow> puts_out P t t'"
  by (simp add: puts_out_def)

lemma puts_out_emit: "P e \<Longrightarrow> puts_out P t (dt_emit e t)"
  by (simp add: puts_out_def)

fun quiet :: "dtls_out \<Rightarrow> bool" where
  "quiet (OutDtlsPacket _ _) = False"
| "quiet (OutDtlsFed d) = records_whole d"
| "quiet _ = True"

lemma puts_out_state: "puts_out quiet t (set_dtls_state s t)"
  by (simp add: set_dtls_state_def puts_out_def Let_def)

lemma puts_out_writable: "puts_out quiet t (set_writable_state w t)"
  by (simp add: set_writable_state_def puts_out_def)

lemma puts_out_receiving: "puts_out quiet t (dt_set_receiving r t)"
  by (simp add: dt_set_receiving_def puts_out_def)

lemmas out_rules = puts_out_state puts_out_writable puts_out_receiving

lemma same_setup_refl [simp]: "same_setup t t"
  by (simp add: same_setup_def)

lemma same_setup_trans: "same_setup t t' \<Longrightarrow> same_setup t' t'' \<Longrightarrow> same_setup t t''"
  by (simp add: same_setup_def)

lemma read_loop_keeps: "same_setup t (read_loop rs t) \<and> puts_out quiet t (read_loop rs t)"
proof (induction rs t rule: read_loop.induct)
  case (4 rs t)
  then show ?case using puts_out_trans[OF puts_out_trans[OF puts_out_writable puts_out_state] puts_out_emit]
    by (simp add: same_setup_def)
next
  case (5 rs t)
  then show ?case using puts_out_trans[OF puts_out_trans[OF puts_out_writable puts_out_state] puts_out_emit]
    by (simp add: same_setup_def)
qed simp_all

lemma OnDtlsEvent_keeps: "same_setup t (OnDtlsEvent e t) \<and> puts_out quiet t (OnDtlsEvent e t)"
proof -
  let ?t1 = "if ev_open e then set_dtls_state DkConnected (set_writable_state True t) else t"
  let ?t2 = "if ev_read e then read_loop (ev_reads e) ?t1 else ?t1"
  have 1: "same_setup t ?t1 \<and> puts_out quiet t ?t1"
    using puts_out_trans[OF puts_out_writable puts_out_state] by (simp add: same_setup_def)
  have 2: "same_setup ?t1 ?t2 \<and> puts_out quiet ?t1 ?t2" using read_loop_keeps by simp
  have "same_setup ?t2 (OnDtlsEvent e t) \<and> puts_out quiet ?t2 (OnDtlsEvent e t)"
    using puts_out_trans[OF puts_out_writable puts_out_state] by (simp add: OnDtlsEvent_def Let_def same_setup_def)
  with 1 2 show ?thesis using same_setup_trans puts_out_trans by blast
qed

lemma fold_events_keeps: "same_setup t (fold OnDtlsEvent es t) \<and> puts_out quiet t (fold OnDtlsEvent es t)"
proof (induction es arbitrary: t)
  case (Cons e es)
  then show ?case using OnDtlsEvent_keeps[of t e] same_setup_trans puts_out_trans by (simp, blast)
qed simp

text \<open>The invariant.\<close>

definition dt_inv :: "dtls_transport \<Rightarrow> bool" where
  "dt_inv t \<longleftrightarrow> (dt_state t \<in> {DkConnecting, DkConnected} \<longrightarrow> dt_dtls t) \<and> (dt_active t \<longrightarrow> dt_cert t \<noteq> None)"

lemma dt_inv_same: "dt_inv t \<Longrightarrow> dt_dtls t \<Longrightarrow> same_setup t t' \<Longrightarrow> dt_inv t'"
  by (simp add: dt_inv_def same_setup_def)

lemma handle_wp:
  assumes "dt_inv t" "dt_dtls t"
  shows "wp (HandleDtlsPacket E d t) (\<lambda>(ok, t'). dt_inv t' \<and> same_setup t t' \<and> puts_out quiet t t' \<and> (ok \<longleftrightarrow> records_whole d))"
proof -
  let ?t = "fold OnDtlsEvent (ssl_events E d) (dt_emit (OutDtlsFed d) t)"
  have "same_setup t (dt_emit (OutDtlsFed d) t)" by (simp add: same_setup_def)
  then have s: "same_setup t ?t" using fold_events_keeps same_setup_trans by blast
  have "puts_out quiet t ?t" if "records_whole d"
    using puts_out_trans[OF puts_out_emit, of quiet "OutDtlsFed d"] fold_events_keeps that by simp
  then show ?thesis using assms dt_inv_same[OF assms s] s by (simp add: HandleDtlsPacket_def)
qed

lemma start_wp:
  assumes "dt_inv t"
  shows "wp (MaybeStartDtls E t) (\<lambda>t'. dt_inv t' \<and> dt_cert t' = dt_cert t \<and> dt_active t' = dt_active t \<and> puts_out quiet t t')"
proof (cases "dt_dtls t \<and> ice_writable E \<and> ssl_start E = 0")
  case False
  then show ?thesis using assms puts_out_state by (auto simp: MaybeStartDtls_def dt_inv_def)
next
  case True
  let ?t1 = "set_dtls_state DkConnecting t"
  have inv: "dt_inv ?t1" using True assms by (simp add: dt_inv_def)
  show ?thesis
  proof (cases "dt_cached_hello t = []")
    case True
    then show ?thesis using \<open>dt_dtls t \<and> _\<close> inv puts_out_state by (simp add: MaybeStartDtls_def)
  next
    case False
    obtain ok t2 where h: "HandleDtlsPacket E (dt_cached_hello t) ?t1 = Inr (ok, t2)" "dt_inv t2" "same_setup ?t1 t2" "puts_out quiet ?t1 t2"
      using handle_wp[OF inv, of E "dt_cached_hello t"] True by (auto dest: wpD)
    let ?t3 = "(if ok then t2 else set_dtls_state DkFailed t2)\<lparr>dt_cached_hello := []\<rparr>"
    have "puts_out quiet t2 ?t3" by (cases ok) (use puts_out_state[of t2 DkFailed] in \<open>simp_all add: puts_out_def\<close>)
    then have "puts_out quiet t ?t3" using puts_out_trans[OF puts_out_trans[OF puts_out_state h(4)]] by simp
    moreover have "dt_inv ?t3 \<and> dt_cert ?t3 = dt_cert t \<and> dt_active ?t3 = dt_active t"
      using h(2,3) by (auto simp: dt_inv_def same_setup_def)
    ultimately show ?thesis using True False h(1) by (simp add: MaybeStartDtls_def)
  qed
qed

lemma setup_wp:
  assumes "dt_inv t" "dt_cert t \<noteq> None" "\<not> dt_dtls t"
  shows "wp (SetupDtls E t) (\<lambda>(ok, t'). dt_inv t' \<and> dt_cert t' = dt_cert t \<and> dt_active t' = dt_active t \<and> puts_out quiet t t')"
proof -
  let ?t1 = "t\<lparr>dt_dtls := True\<rparr>"
  have i: "dt_inv ?t1" "dt_inv (t\<lparr>dt_dtls := False\<rparr>)" using assms by (auto simp: dt_inv_def)
  have "wp (MaybeStartDtls E ?t1) (\<lambda>t'. dt_inv t' \<and> dt_cert t' = dt_cert t \<and> dt_active t' = dt_active t \<and> puts_out quiet t t')"
    using start_wp[OF i(1), of E] by (rule wp_mono) (auto simp: puts_out_def)
  then show ?thesis using i assms(2) by (auto simp: SetupDtls_def puts_out_def Let_def)
qed

lemma fingerprint_wp:
  assumes "dt_inv t"
  shows "wp (SetRemoteFingerprint E alg digest t) (\<lambda>(_, t'). dt_inv t' \<and> puts_out quiet t t')"
proof (cases "alg = [] \<or> \<not> dt_active t \<or> dt_fp_value t = digest")
  case True
  then show ?thesis using assms by (auto simp: SetRemoteFingerprint_def dt_inv_def puts_out_def)
next
  case False
  let ?t1 = "t\<lparr>dt_fp_value := digest, dt_fp_alg := alg\<rparr>" and ?change = "dt_fp_value t \<noteq> []"
  let ?t2 = "if dt_dtls ?t1 \<and> ?change then set_writable_state False (set_dtls_state DkNew (?t1\<lparr>dt_dtls := False\<rparr>)) else ?t1"
  have i1: "dt_inv ?t1" "puts_out quiet t ?t1" using assms by (auto simp: dt_inv_def puts_out_def)
  show ?thesis
  proof (cases "dt_dtls t \<and> \<not> ?change")
    case True
    have "dt_inv (set_dtls_state DkFailed ?t1)" using i1 by (simp add: dt_inv_def)
    then show ?thesis using True False i1 puts_out_trans[OF i1(2) puts_out_state]
      by (auto simp: SetRemoteFingerprint_def Let_def)
  next
    case keep: False
    have "puts_out quiet ?t1 (?t1\<lparr>dt_dtls := False\<rparr>)" by (simp add: puts_out_def)
    then have out2: "puts_out quiet t ?t2"
      using puts_out_trans[OF i1(2)] puts_out_trans[OF _ puts_out_trans[OF puts_out_state puts_out_writable]] i1(2) by auto
    have "dt_inv ?t2" "dt_cert ?t2 \<noteq> None" "\<not> dt_dtls ?t2" using i1 keep False assms by (auto simp: dt_inv_def)
    then obtain ok t3 where s: "SetupDtls E ?t2 = Inr (ok, t3)" "dt_inv t3" "puts_out quiet ?t2 t3"
      using setup_wp[of ?t2 E] by (auto dest: wpD)
    have "dt_inv (set_dtls_state DkFailed t3)" using s(2) by (simp add: dt_inv_def)
    then show ?thesis using s keep False puts_out_trans[OF out2 s(3)] puts_out_trans[OF puts_out_trans[OF out2 s(3)] puts_out_state]
      by (cases ok) (auto simp: SetRemoteFingerprint_def Let_def split del: if_split)
  qed
qed

subsection \<open>A step\<close>

text \<open>
  \<open>passes e t out\<close>: the packet of the event may go up, an RTP or RTCP packet on a connected
  transport.
\<close>

fun passes :: "dt_event \<Rightarrow> dtls_transport \<Rightarrow> dtls_out \<Rightarrow> bool" where
  "passes (DtPacket E buf ts) t (OutDtlsPacket b s) \<longleftrightarrow> b = buf \<and> s = ts \<and> dt_state t = DkConnected \<and>
     kMinRtpPacketLen \<le> length buf \<and> 128 \<le> buf ! 0 \<and> buf ! 0 < 192"
| "passes e t out \<longleftrightarrow> quiet out"

lemma quiet_passes: "puts_out quiet t t' \<Longrightarrow> puts_out (passes e t) t t'"
proof -
  have "passes e t out" if "quiet out" for out using that by (cases "(e, t, out)" rule: passes.cases) auto
  then show "puts_out quiet t t' \<Longrightarrow> puts_out (passes e t) t t'" by (auto simp: puts_out_def list_all_iff)
qed

lemma packet_wp:
  assumes "dt_inv t"
  shows "wp (DtOnReadPacket E buf ts t) (\<lambda>t'. dt_inv t' \<and> puts_out (passes (DtPacket E buf ts) t) t t')"
proof -
  let ?t1 = "t\<lparr>dt_cached_hello := buf\<rparr>"
  have i1: "dt_inv ?t1" using assms by (simp add: dt_inv_def)
  have up: "puts_out (passes (DtPacket E buf ts) t) t (dt_emit (OutDtlsPacket buf ts) t)" if "dt_state t = DkConnected" "DtlsIsRtpPacket buf"
    using that version_mask[of "buf ! 0"] version_range[of "buf ! 0"] by (simp add: puts_out_def DtlsIsRtpPacket_def)
  have i2: "dt_inv (dt_emit (OutDtlsPacket buf ts) t)" using assms by (simp add: dt_inv_def)
  have down: "wp (and_then (HandleDtlsPacket E buf t) (\<lambda>(_, t1). Inr t1)) (\<lambda>t'. dt_inv t' \<and> puts_out quiet t t')"
    if "dt_state t \<in> {DkConnecting, DkConnected}"
    using handle_wp[OF assms, of E buf] that assms by (auto simp: dt_inv_def dest!: wpD)
  have stp: "wp (SetupDtls E ?t1) (\<lambda>(_, t'). dt_inv t' \<and> puts_out quiet t t')" if "dt_cert t \<noteq> None" "\<not> dt_dtls t"
    using setup_wp[OF i1, of E] that by (auto simp: puts_out_def dest!: wpD)
  have "puts_out quiet t ?t1" by (simp add: puts_out_def)
  then show ?thesis
    using assms i1 i2 up stp down
    by (cases "dt_state t") (auto simp: DtOnReadPacket_def Let_def split_def intro: quiet_passes wp_mono elim!: wp_mono)
qed

lemma writable_wp:
  assumes "dt_inv t"
  shows "wp (DtOnWritableState E t) (\<lambda>t'. dt_inv t' \<and> puts_out quiet t t')"
proof -
  have "dt_inv (set_writable_state w t)" for w using assms by (simp add: dt_inv_def)
  moreover have "wp (MaybeStartDtls E t) (\<lambda>t'. dt_inv t' \<and> puts_out quiet t t')"
    using start_wp[OF assms] by (rule wp_mono) simp
  ultimately show ?thesis using assms puts_out_writable by (cases "dt_state t") (auto simp: DtOnWritableState_def)
qed

lemma dt_step_wp:
  assumes "dt_inv t" "dt_admitted t e"
  shows "wp (dt_step e t) (\<lambda>t'. dt_inv t' \<and> puts_out (passes e t) t t')"
proof (cases e)
  case (DtCertificate c)
  then show ?thesis using assms by (auto simp: SetLocalCertificate_def dt_inv_def puts_out_def)
next
  case (DtFingerprint E alg digest)
  have "wp (SetRemoteFingerprint E alg digest t) (\<lambda>(_, t'). dt_inv t' \<and> puts_out (passes e t) t t')"
    using fingerprint_wp[OF assms(1)] by (rule wp_mono) (auto intro: quiet_passes)
  then show ?thesis by (simp add: DtFingerprint split_def)
next
  case (DtPacket E buf ts)
  then show ?thesis using packet_wp[OF assms(1)] by simp
next
  case (DtWritable E)
  have "wp (DtOnWritableState E t) (\<lambda>t'. dt_inv t' \<and> puts_out (passes e t) t t')"
    using writable_wp[OF assms(1)] by (rule wp_mono) (auto intro: quiet_passes)
  then show ?thesis by (simp add: DtWritable)
next
  case (DtReceiving r)
  have "dt_inv (dt_set_receiving r t)" using assms(1) by (simp add: dt_inv_def)
  then show ?thesis using quiet_passes[OF puts_out_receiving] by (simp add: DtReceiving DtOnReceivingState_def)
next
  case (DtAdapter ev)
  have "dt_inv (OnDtlsEvent ev t)" using dt_inv_same[OF assms(1)] OnDtlsEvent_keeps assms(2) DtAdapter by simp
  then show ?thesis using quiet_passes OnDtlsEvent_keeps by (simp add: DtAdapter)
qed

lemma dt_reachable_inv: "dt_reachable ciphers t \<Longrightarrow> dt_inv t"
proof (induction rule: dt_reachable.induct)
  case dt_init
  then show ?case by (simp add: dt_inv_def DtlsTransport_def)
next
  case (dt_next t e t')
  then show ?case using wpD[OF dt_step_wp] by fastforce
qed

text \<open>C26: No admitted event makes the transport hand a packet to an adapter that is gone or use a missing
  certificate; a packet goes up to SRTP only when the handshake is complete and its first byte has the
  RTP version, and only whole DTLS records are handed to the adapter.\<close>

theorem dtls_transport_safe:
  assumes "dt_reachable ciphers t" "dt_admitted t e"
  shows "\<exists>t' es. dt_step e t = Inr t' \<and> dt_out t' = dt_out t @ es \<and> list_all (passes e t) es \<and>
    (dt_state t' \<in> {DkConnecting, DkConnected} \<longrightarrow> dt_dtls t')"
  using wpD[OF dt_step_wp[OF dt_reachable_inv[OF assms(1)] assms(2)]] by (auto simp: puts_out_def dt_inv_def)

subsection \<open>Records\<close>

definition record_ok :: "bytes \<Rightarrow> bool" where
  "record_ok r \<longleftrightarrow> kDtlsRecordHeaderLen \<le> length r \<and> length r = kDtlsRecordHeaderLen + record_len r"

lemma record_len_append: "kDtlsRecordHeaderLen \<le> length r \<Longrightarrow> record_len (r @ s) = record_len r"
  by (simp add: record_len_def kDtlsRecordHeaderLen_def nth_append)

lemma records_whole_concat: "\<forall>r\<in>set rs. record_ok r \<Longrightarrow> records_whole (concat rs)"
proof (induction rs)
  case Nil
  then show ?case by (simp add: records_whole.simps)
next
  case (Cons r rs)
  then have r: "kDtlsRecordHeaderLen \<le> length r" "length r = kDtlsRecordHeaderLen + record_len r" by (auto simp: record_ok_def)
  then have "drop (kDtlsRecordHeaderLen + record_len r) (r @ concat rs) = concat rs" by simp
  then show ?case using Cons r record_len_append[of r "concat rs"]
    by (subst records_whole.simps) (auto simp: kDtlsRecordHeaderLen_def)
qed

text \<open>The loop of \<open>HandleDtlsPacket\<close> accepts exactly the packets that are a sequence of whole records.\<close>

theorem records_whole_iff: "records_whole d \<longleftrightarrow> (\<exists>rs. d = concat rs \<and> (\<forall>r\<in>set rs. record_ok r))"
proof
  show "records_whole d \<Longrightarrow> \<exists>rs. d = concat rs \<and> (\<forall>r\<in>set rs. record_ok r)"
  proof (induction d rule: records_whole.induct)
    case (1 d)
    let ?n = "kDtlsRecordHeaderLen + record_len d"
    show ?case
    proof (cases "length d = 0")
      case True
      then show ?thesis by (intro exI[of _ "[]"]) simp
    next
      case False
      have c: "kDtlsRecordHeaderLen \<le> length d" "?n \<le> length d" "records_whole (drop ?n d)"
        using 1(2) False by (subst (asm) records_whole.simps, auto split: if_splits)+
      then obtain rs where "drop ?n d = concat rs" "\<forall>r\<in>set rs. record_ok r" using 1(1) False by (auto simp: not_less)
      moreover have "record_len (take ?n d) = record_len d"
        using c record_len_append[of "take ?n d" "drop ?n d"] by (simp add: kDtlsRecordHeaderLen_def)
      then have "record_ok (take ?n d)" using c(2) by (simp add: record_ok_def)
      ultimately show ?thesis by (intro exI[of _ "take ?n d # rs"]) (auto, metis append_take_drop_id)
    qed
  qed
qed (use records_whole_concat in blast)

subsection \<open>The signals\<close>

fun state_signals :: "dtls_out list \<Rightarrow> dtls_state list" where
  "state_signals [] = []"
| "state_signals (OutDtlsState v # es) = vw_state v # state_signals es"
| "state_signals (_ # es) = state_signals es"

fun flag_signals :: "dtls_out list \<Rightarrow> bool list" where
  "flag_signals [] = []"
| "flag_signals (OutDtlsWritable w # es) = w # flag_signals es"
| "flag_signals (_ # es) = flag_signals es"

lemma state_signals_append [simp]: "state_signals (es @ fs) = state_signals es @ state_signals fs"
  by (induction es rule: state_signals.induct) auto

lemma flag_signals_append [simp]: "flag_signals (es @ fs) = flag_signals es @ flag_signals fs"
  by (induction es rule: flag_signals.induct) auto

definition announces :: "dtls_transport \<Rightarrow> bool" where
  "announces t \<longleftrightarrow> distinct_adj (DkNew # state_signals (dt_out t)) \<and> last (DkNew # state_signals (dt_out t)) = dt_state t \<and>
     distinct_adj (False # flag_signals (dt_out t)) \<and> last (False # flag_signals (dt_out t)) = dt_writable t"

lemma distinct_adj_snoc: "distinct_adj (x # xs) \<Longrightarrow> last (x # xs) \<noteq> y \<Longrightarrow> distinct_adj (x # xs @ [y])"
  by (induction xs arbitrary: x) auto

lemma announces_state: "announces t \<Longrightarrow> announces (set_dtls_state s t)"
  using distinct_adj_snoc[of DkNew "state_signals (dt_out t)" s] by (auto simp: announces_def set_dtls_state_def view_of_def Let_def split: if_splits)

lemma announces_writable: "announces t \<Longrightarrow> announces (set_writable_state w t)"
  using distinct_adj_snoc[of False "flag_signals (dt_out t)" w] by (auto simp: announces_def set_writable_state_def split: if_splits)

lemma announces_emit: "announces t \<Longrightarrow> state_signals [e] = [] \<Longrightarrow> flag_signals [e] = [] \<Longrightarrow> announces (dt_emit e t)"
  by (simp add: announces_def)

lemma announces_frame:
  "dt_out t' = dt_out t \<Longrightarrow> dt_state t' = dt_state t \<Longrightarrow> dt_writable t' = dt_writable t \<Longrightarrow> announces t \<Longrightarrow> announces t'"
  by (simp add: announces_def)

lemma announces_fields [simp]:
  "announces (t\<lparr>dt_dtls := d\<rparr>) = announces t" "announces (t\<lparr>dt_cached_hello := b\<rparr>) = announces t"
  "announces (t\<lparr>dt_fp_value := v, dt_fp_alg := a\<rparr>) = announces t" "announces (t\<lparr>dt_active := c\<rparr>) = announces t"
  "announces (t\<lparr>dt_cert := p, dt_active := c\<rparr>) = announces t" "announces (t\<lparr>dt_fp_value := v, dt_fp_alg := a, dt_dtls := d\<rparr>) = announces t"
  by (simp_all add: announces_def)

lemma announces_receiving: "announces t \<Longrightarrow> announces (dt_set_receiving r t)"
  by (cases "dt_receiving t = r") (auto simp: dt_set_receiving_def announces_def split: if_splits)

lemmas announces_rules = announces_state announces_writable announces_emit

lemma announces_read_loop: "announces t \<Longrightarrow> announces (read_loop rs t)"
  by (induction rs t rule: read_loop.induct) (simp_all add: announces_rules)

lemma announces_event: "announces t \<Longrightarrow> announces (OnDtlsEvent e t)"
  by (auto simp: OnDtlsEvent_def Let_def announces_rules announces_read_loop)

lemma announces_handle: "announces t \<Longrightarrow> HandleDtlsPacket E d t = Inr (ok, t') \<Longrightarrow> announces t'"
proof -
  have "announces s \<Longrightarrow> announces (fold OnDtlsEvent es s)" for es s by (induction es arbitrary: s) (simp_all add: announces_event)
  then show "announces t \<Longrightarrow> HandleDtlsPacket E d t = Inr (ok, t') \<Longrightarrow> announces t'"
    by (auto simp: HandleDtlsPacket_def announces_rules split: if_splits)
qed

lemma announces_start: "announces t \<Longrightarrow> MaybeStartDtls E t = Inr t' \<Longrightarrow> announces t'"
  by (auto simp: MaybeStartDtls_def Let_def and_then_Inr announces_rules split: if_splits dest!: announces_handle[rotated])

lemma announces_setup: "announces t \<Longrightarrow> SetupDtls E t = Inr (ok, t') \<Longrightarrow> announces t'"
  using announces_start[of "t\<lparr>dt_dtls := True\<rparr>" E] by (auto simp: SetupDtls_def Let_def and_then_Inr split: if_splits)

lemma announces_step:
  assumes "announces t" "dt_step e t = Inr t'"
  shows "announces t'"
proof (cases e)
  case (DtCertificate c)
  then show ?thesis using assms by (auto simp: SetLocalCertificate_def announces_def split: if_splits)
next
  case (DtFingerprint E alg digest)
  then show ?thesis using assms
    by (auto simp: SetRemoteFingerprint_def Let_def and_then_Inr announces_rules split: if_splits dest!: announces_setup[rotated])
next
  case (DtPacket E buf ts)
  then show ?thesis using assms
    by (auto simp: DtOnReadPacket_def Let_def and_then_Inr announces_rules split: if_splits dtls_state.splits
        dest!: announces_setup[rotated] announces_handle[rotated])
next
  case (DtWritable E)
  then show ?thesis using assms
    by (auto simp: DtOnWritableState_def announces_rules split: if_splits dtls_state.splits dest!: announces_start[rotated])
next
  case (DtReceiving r)
  then show ?thesis using assms announces_receiving by (auto simp: DtOnReceivingState_def)
next
  case (DtAdapter ev)
  then show ?thesis using assms by (auto simp: announces_event)
qed

lemma announces_reachable: "dt_reachable ciphers t \<Longrightarrow> announces t"
proof (induction rule: dt_reachable.induct)
  case dt_init
  then show ?case by (simp add: announces_def DtlsTransport_def)
qed (use announces_step in blast)

text \<open>The states the transport signals never repeat and end in its current state, and so do its
  changes of writability: who follows the signals knows the state.\<close>

theorem dtls_signals_follow_state:
  assumes "dt_reachable ciphers t"
  shows "distinct_adj (DkNew # state_signals (dt_out t)) \<and> last (DkNew # state_signals (dt_out t)) = dt_state t \<and>
    distinct_adj (False # flag_signals (dt_out t)) \<and> last (False # flag_signals (dt_out t)) = dt_writable t"
  using announces_reachable[OF assms] unfolding announces_def .

text \<open>A ClientHello that comes before the channel is writable is kept, and is the first packet the
  adapter gets when the handshake starts.\<close>

theorem early_hello_replayed:
  assumes "dt_reachable ciphers t" "dt_state t = DkNew" "dt_active t" "\<not> dt_dtls t" "dt_fp_value t = []"
    and "IsDtlsClientHelloPacket hello" "records_whole hello"
    and "ssl_create E" "ssl_suites_ok E ciphers'" "dt_ciphers t = ciphers'" "\<not> ice_writable E"
    and "ice_writable E'" "ssl_start E' = 0"
  shows "\<exists>t1 t2 es. DtOnReadPacket E hello ts t = Inr t1 \<and> dt_state t1 = DkNew \<and> DtOnWritableState E' t1 = Inr t2 \<and>
    dt_out t2 = dt_out t @ [OutDtlsState \<lparr>vw_state = DkConnecting, vw_writable = dt_writable t, vw_active = True, vw_dtls = True\<rparr>, OutDtlsFed hello] @ es \<and>
    dt_cached_hello t2 = []"
proof -
  let ?t1 = "t\<lparr>dt_cached_hello := hello, dt_dtls := True\<rparr>"
  have cert: "dt_cert t \<noteq> None" using dt_reachable_inv[OF assms(1)] assms(3) by (simp add: dt_inv_def)
  have 1: "DtOnReadPacket E hello ts t = Inr ?t1" using assms cert
    by (auto simp: DtOnReadPacket_def SetupDtls_def MaybeStartDtls_def Let_def)
  have ne: "hello \<noteq> []" using assms(6) by (auto simp: IsDtlsClientHelloPacket_def)
  let ?t = "set_dtls_state DkConnecting ?t1"
  let ?t2 = "fold OnDtlsEvent (ssl_events E' hello) (dt_emit (OutDtlsFed hello) ?t)"
  have h: "HandleDtlsPacket E' hello ?t = Inr (True, ?t2)" using assms by (simp add: HandleDtlsPacket_def)
  have 2: "DtOnWritableState E' ?t1 = Inr (?t2\<lparr>dt_cached_hello := []\<rparr>)" using assms ne h
    by (simp add: DtOnWritableState_def MaybeStartDtls_def)
  obtain es where "dt_out ?t2 = dt_out (dt_emit (OutDtlsFed hello) ?t) @ es"
    using fold_events_keeps by (metis puts_out_def)
  then have "dt_out ?t2 = dt_out t @ [OutDtlsState \<lparr>vw_state = DkConnecting, vw_writable = dt_writable t, vw_active = True, vw_dtls = True\<rparr>,
      OutDtlsFed hello] @ es"
    using assms(2,3) by (simp add: set_dtls_state_def view_of_def Let_def)
  then show ?thesis using 1 2 assms(2) by (intro exI[of _ ?t1] exI[of _ "?t2\<lparr>dt_cached_hello := []\<rparr>"] exI[of _ es]) simp
qed

subsection \<open>A run\<close>

definition demo_hello :: bytes where
  "demo_hello = [22, 254, 253, 0, 0, 0, 0, 0, 0, 0, 0, 0, 5, 1, 0, 0, 0, 0]"

definition demo_ssl :: "bool \<Rightarrow> ssl_env" where
  "demo_ssl w = \<lparr>ice_writable = w, ssl_create = True, ssl_digest_ok = (\<lambda>_ _. True), ssl_verification_failed = False,
     ssl_suites_ok = (\<lambda>_. True), ssl_start = 0, ssl_events = (\<lambda>_. [])\<rparr>"

definition demo_dtls :: dtls_transport where
  "demo_dtls = (DtlsTransport [1])\<lparr>dt_cert := Some 7, dt_active := True\<rparr>"

definition demo_open :: dtls_event where
  "demo_open = \<lparr>ev_open = True, ev_read = False, ev_close = False, ev_error = 0, ev_reads = []\<rparr>"

lemma demo_dtls_reachable: "dt_reachable [1] demo_dtls"
  using dt_next[OF dt_init, of "[1]" "DtCertificate (Some 7)" demo_dtls]
  by (simp add: demo_dtls_def SetLocalCertificate_def DtlsTransport_def)

lemma demo_hello_ok: "IsDtlsClientHelloPacket demo_hello" "records_whole demo_hello"
  by (simp_all add: demo_hello_def IsDtlsClientHelloPacket_def IsDtlsPacket_def kDtlsRecordHeaderLen_def records_whole.simps record_len_def)

theorem dtls_transport_safe_witness:
  "\<exists>t' es. dt_step (DtPacket (demo_ssl True) demo_hello 5) demo_dtls = Inr t' \<and> dt_out t' = dt_out demo_dtls @ es \<and>
    list_all (passes (DtPacket (demo_ssl True) demo_hello 5) demo_dtls) es \<and> (dt_state t' \<in> {DkConnecting, DkConnected} \<longrightarrow> dt_dtls t')"
  by (rule dtls_transport_safe[OF demo_dtls_reachable]) simp

theorem dtls_signals_follow_state_witness: "last (DkNew # state_signals (dt_out demo_dtls)) = DkNew"
  using dtls_signals_follow_state[OF demo_dtls_reachable] by (simp add: demo_dtls_def DtlsTransport_def)

theorem early_hello_replayed_witness:
  "\<exists>t1 t2 es. DtOnReadPacket (demo_ssl False) demo_hello 5 demo_dtls = Inr t1 \<and> dt_state t1 = DkNew \<and>
    DtOnWritableState (demo_ssl True) t1 = Inr t2 \<and>
    dt_out t2 = dt_out demo_dtls @ [OutDtlsState \<lparr>vw_state = DkConnecting, vw_writable = dt_writable demo_dtls, vw_active = True, vw_dtls = True\<rparr>,
      OutDtlsFed demo_hello] @ es \<and> dt_cached_hello t2 = []"
  by (rule early_hello_replayed[OF demo_dtls_reachable _ _ _ _ demo_hello_ok, where ciphers' = "[1]"])
    (simp_all add: demo_dtls_def demo_ssl_def DtlsTransport_def)

theorem records_whole_iff_witness: "\<exists>rs. demo_hello = concat rs \<and> (\<forall>r\<in>set rs. record_ok r)"
  using demo_hello_ok(2) unfolding records_whole_iff .

end
