(* ===== verification/Srtp.thy ===== *)
theory Srtp
  imports DtlsProps
begin

text \<open>
  \<open>srtp_session.cpp\<close>, \<open>srtp_transport.cpp\<close> and \<open>dtls_srtp_transport.cpp\<close>: the SRTP sessions of a
  transport, keyed from the DTLS handshake. libsrtp is the parameter \<open>srtp_lib\<close>: the policy of a
  crypto suite (key length and tag lengths), creating and updating a session, protecting and
  unprotecting a packet. The count of sessions that share the initialised library is the global
  state \<open>usage\<close>; the code guards it by a mutex, so each change of it is one step.
\<close>

datatype ssrc_type = ssrc_any_inbound | ssrc_any_outbound

record srtp_policy =
  cipher_key_len :: nat
  rtp_tag_len :: nat
  rtcp_tag_len :: nat

record 's srtp_lib =
  srtp_init_ok :: bool
  srtp_policy_of :: "int \<Rightarrow> srtp_policy option"
  srtp_create :: "ssrc_type \<Rightarrow> int \<Rightarrow> bytes \<Rightarrow> 's option"
  srtp_update :: "ssrc_type \<Rightarrow> int \<Rightarrow> bytes \<Rightarrow> 's \<Rightarrow> 's option"
  srtp_protect :: "'s \<Rightarrow> bytes \<Rightarrow> 's \<times> bytes option"
  srtp_protect_rtcp :: "'s \<Rightarrow> bytes \<Rightarrow> 's \<times> bytes option"
  srtp_unprotect :: "'s \<Rightarrow> bytes \<Rightarrow> 's \<times> bytes option"
  srtp_unprotect_rtcp :: "'s \<Rightarrow> bytes \<Rightarrow> 's \<times> bytes option"
  key_and_salt_lengths :: "int \<Rightarrow> (nat \<times> nat) option"

subsection \<open>A session\<close>

record 's srtp_session =
  ss_session :: "'s option"
  ss_inited :: bool
  ss_rtp_auth_tag_len :: nat
  ss_rtcp_auth_tag_len :: nat

definition SrtpSession :: "'s srtp_session" where
  "SrtpSession = \<lparr>ss_session = None, ss_inited = False, ss_rtp_auth_tag_len = 0, ss_rtcp_auth_tag_len = 0\<rparr>"

text \<open>\<open>usage\<close>: the count, and whether the library is initialised.\<close>

type_synonym usage = "int \<times> bool"

definition IncrementLibsrtpUsage :: "('s, 'b) srtp_lib_scheme \<Rightarrow> usage \<Rightarrow> bool \<times> usage" where
  "IncrementLibsrtpUsage L u =
     (if fst u = 0 \<and> \<not> srtp_init_ok L then (False, u) else (True, fst u + 1, True))"

definition DecrementLibsrtpUsage :: "usage \<Rightarrow> usage" where
  "DecrementLibsrtpUsage u = (fst u - 1, if fst u - 1 = 0 then False else snd u)"

definition delete_session :: "'s srtp_session \<Rightarrow> usage \<Rightarrow> usage" where
  "delete_session s u = (if ss_inited s then DecrementLibsrtpUsage u else u)"

definition DoSetKey ::
    "('s, 'b) srtp_lib_scheme \<Rightarrow> ssrc_type \<Rightarrow> int \<Rightarrow> bytes \<Rightarrow> 's srtp_session \<Rightarrow> bool \<times> 's srtp_session" where
  "DoSetKey L type cs key s =
     (case srtp_policy_of L cs of
        None \<Rightarrow> (False, s)
      | Some policy \<Rightarrow>
          if length key \<noteq> cipher_key_len policy then (False, s)
          else case (case ss_session s of None \<Rightarrow> srtp_create L type cs key | Some c \<Rightarrow> srtp_update L type cs key c) of
            None \<Rightarrow> (False, s)
          | Some c \<Rightarrow> (True, s\<lparr>ss_session := Some c, ss_rtp_auth_tag_len := rtp_tag_len policy, ss_rtcp_auth_tag_len := rtcp_tag_len policy\<rparr>))"

definition SetKey ::
    "('s, 'b) srtp_lib_scheme \<Rightarrow> ssrc_type \<Rightarrow> int \<Rightarrow> bytes \<Rightarrow> 's srtp_session \<Rightarrow> usage \<Rightarrow> bool \<times> 's srtp_session \<times> usage" where
  "SetKey L type cs key s u =
     (if ss_session s \<noteq> None then (False, s, u)
      else case IncrementLibsrtpUsage L u of
        (False, u1) \<Rightarrow> (False, s, u1)
      | (True, u1) \<Rightarrow> (case DoSetKey L type cs key (s\<lparr>ss_inited := True\<rparr>) of (ok, s1) \<Rightarrow> (ok, s1, u1)))"

definition UpdateKey ::
    "('s, 'b) srtp_lib_scheme \<Rightarrow> ssrc_type \<Rightarrow> int \<Rightarrow> bytes \<Rightarrow> 's srtp_session \<Rightarrow> bool \<times> 's srtp_session" where
  "UpdateKey L type cs key s = (if ss_session s = None then (False, s) else DoSetKey L type cs key s)"

definition SetSend :: "('s, 'b) srtp_lib_scheme \<Rightarrow> int \<Rightarrow> bytes \<Rightarrow> 's srtp_session \<Rightarrow> usage \<Rightarrow> bool \<times> 's srtp_session \<times> usage" where
  "SetSend L = SetKey L ssrc_any_outbound"

definition SetRecv :: "('s, 'b) srtp_lib_scheme \<Rightarrow> int \<Rightarrow> bytes \<Rightarrow> 's srtp_session \<Rightarrow> usage \<Rightarrow> bool \<times> 's srtp_session \<times> usage" where
  "SetRecv L = SetKey L ssrc_any_inbound"

definition UpdateSend :: "('s, 'b) srtp_lib_scheme \<Rightarrow> int \<Rightarrow> bytes \<Rightarrow> 's srtp_session \<Rightarrow> bool \<times> 's srtp_session" where
  "UpdateSend L = UpdateKey L ssrc_any_outbound"

definition UpdateRecv :: "('s, 'b) srtp_lib_scheme \<Rightarrow> int \<Rightarrow> bytes \<Rightarrow> 's srtp_session \<Rightarrow> bool \<times> 's srtp_session" where
  "UpdateRecv L = UpdateKey L ssrc_any_inbound"

text \<open>The tag lengths, where there is a session; the caller's variables keep their values otherwise.\<close>

definition SsGetAuthTagLen :: "'s srtp_session \<Rightarrow> (nat \<times> nat) option" where
  "SsGetAuthTagLen s = (if ss_session s = None then None else Some (ss_rtp_auth_tag_len s, ss_rtcp_auth_tag_len s))"

definition with_session :: "('s \<Rightarrow> 's \<times> bytes option) \<Rightarrow> 's srtp_session \<Rightarrow> 's srtp_session \<times> bytes option" where
  "with_session f s = (case ss_session s of None \<Rightarrow> (s, None) | Some c \<Rightarrow> (case f c of (c1, r) \<Rightarrow> (s\<lparr>ss_session := Some c1\<rparr>, r)))"

definition SsUnprotectRtp :: "('s, 'b) srtp_lib_scheme \<Rightarrow> bytes \<Rightarrow> 's srtp_session \<Rightarrow> 's srtp_session \<times> bytes option" where
  "SsUnprotectRtp L p s = with_session (\<lambda>c. srtp_unprotect L c p) s"

definition SsUnprotectRtcp :: "('s, 'b) srtp_lib_scheme \<Rightarrow> bytes \<Rightarrow> 's srtp_session \<Rightarrow> 's srtp_session \<times> bytes option" where
  "SsUnprotectRtcp L p s = with_session (\<lambda>c. srtp_unprotect_rtcp L c p) s"

definition SsProtectRtp :: "('s, 'b) srtp_lib_scheme \<Rightarrow> bytes \<Rightarrow> nat \<Rightarrow> 's srtp_session \<Rightarrow> 's srtp_session \<times> bytes option" where
  "SsProtectRtp L p max_len s =
     (if ss_session s = None then (s, None)
      else if max_len < length p + ss_rtp_auth_tag_len s then (s, None)
      else with_session (\<lambda>c. srtp_protect L c p) s)"

definition SsProtectRtcp :: "('s, 'b) srtp_lib_scheme \<Rightarrow> bytes \<Rightarrow> nat \<Rightarrow> 's srtp_session \<Rightarrow> 's srtp_session \<times> bytes option" where
  "SsProtectRtcp L p max_len s =
     (if ss_session s = None then (s, None)
      else if max_len < length p + ss_rtcp_auth_tag_len s + 4 then (s, None)
      else with_session (\<lambda>c. srtp_protect_rtcp L c p) s)"

subsection \<open>The two sessions of a transport\<close>

record 's srtp_transport =
  st_rtcp_mux :: bool
  st_send :: "'s srtp_session option"
  st_recv :: "'s srtp_session option"

definition SrtpTransport :: "bool \<Rightarrow> 's srtp_transport" where
  "SrtpTransport rtcp_mux = \<lparr>st_rtcp_mux = rtcp_mux, st_send = None, st_recv = None\<rparr>"

definition IsSrtpActive :: "('s, 'b) srtp_transport_scheme \<Rightarrow> bool" where
  "IsSrtpActive t \<longleftrightarrow> st_send t \<noteq> None \<and> st_recv t \<noteq> None"

definition delete_held :: "'s srtp_session option \<Rightarrow> usage \<Rightarrow> usage" where
  "delete_held s u = (case s of None \<Rightarrow> u | Some x \<Rightarrow> delete_session x u)"

definition ResetParams :: "('s, 'b) srtp_transport_scheme \<Rightarrow> usage \<Rightarrow> ('s, 'b) srtp_transport_scheme \<times> usage" where
  "ResetParams t u = (t\<lparr>st_send := None, st_recv := None\<rparr>, delete_held (st_recv t) (delete_held (st_send t) u))"

definition CreateSrtpSession :: "('s, 'b) srtp_transport_scheme \<Rightarrow> usage \<Rightarrow> ('s, 'b) srtp_transport_scheme \<times> usage" where
  "CreateSrtpSession t u =
     (t\<lparr>st_send := Some SrtpSession, st_recv := Some SrtpSession\<rparr>, delete_held (st_recv t) (delete_held (st_send t) u))"

definition SetRtpParams ::
    "('s, 'c) srtp_lib_scheme \<Rightarrow> int \<Rightarrow> bytes \<Rightarrow> int \<Rightarrow> bytes \<Rightarrow> ('s, 'b) srtp_transport_scheme \<Rightarrow> usage \<Rightarrow>
     bool \<times> ('s, 'b) srtp_transport_scheme \<times> usage" where
  "SetRtpParams L send_cs send_key recv_cs recv_key t0 u0 =
     (let new_session = (st_send t0 = None);
          (t, u) = (if new_session then CreateSrtpSession t0 u0 else (t0, u0));
          (ok1, s1, u1) = (if new_session then SetSend L send_cs send_key (the (st_send t)) u
                           else case UpdateSend L send_cs send_key (the (st_send t)) of (ok, s) \<Rightarrow> (ok, s, u));
          t1 = t\<lparr>st_send := Some s1\<rparr>
      in if \<not> ok1 then (False, ResetParams t1 u1)
         else
           let (ok2, r2, u2) = (if new_session then SetRecv L recv_cs recv_key (the (st_recv t1)) u1
                                else case UpdateRecv L recv_cs recv_key (the (st_recv t1)) of (ok, s) \<Rightarrow> (ok, s, u1));
               t2 = t1\<lparr>st_recv := Some r2\<rparr>
           in if \<not> ok2 then (False, ResetParams t2 u2) else (True, t2, u2))"

definition GetSendAuthTagLen :: "('s, 'b) srtp_transport_scheme \<Rightarrow> (nat \<times> nat) option" where
  "GetSendAuthTagLen t = (case st_send t of None \<Rightarrow> None | Some s \<Rightarrow> SsGetAuthTagLen s)"

definition UnprotectRtp :: "('s, 'c) srtp_lib_scheme \<Rightarrow> bytes \<Rightarrow> ('s, 'b) srtp_transport_scheme \<Rightarrow> ('s, 'b) srtp_transport_scheme \<times> bytes option" where
  "UnprotectRtp L p t =
     (if \<not> IsSrtpActive t then (t, None)
      else case SsUnprotectRtp L p (the (st_recv t)) of (s, r) \<Rightarrow> (t\<lparr>st_recv := Some s\<rparr>, r))"

definition UnprotectRtcp :: "('s, 'c) srtp_lib_scheme \<Rightarrow> bytes \<Rightarrow> ('s, 'b) srtp_transport_scheme \<Rightarrow> ('s, 'b) srtp_transport_scheme \<times> bytes option" where
  "UnprotectRtcp L p t =
     (if \<not> IsSrtpActive t then (t, None)
      else case SsUnprotectRtcp L p (the (st_recv t)) of (s, r) \<Rightarrow> (t\<lparr>st_recv := Some s\<rparr>, r))"

definition ProtectRtp ::
    "('s, 'c) srtp_lib_scheme \<Rightarrow> bytes \<Rightarrow> nat \<Rightarrow> ('s, 'b) srtp_transport_scheme \<Rightarrow> ('s, 'b) srtp_transport_scheme \<times> bytes option" where
  "ProtectRtp L p max_len t =
     (if \<not> IsSrtpActive t then (t, None)
      else case SsProtectRtp L p max_len (the (st_send t)) of (s, r) \<Rightarrow> (t\<lparr>st_send := Some s\<rparr>, r))"

definition ProtectRtcp ::
    "('s, 'c) srtp_lib_scheme \<Rightarrow> bytes \<Rightarrow> nat \<Rightarrow> ('s, 'b) srtp_transport_scheme \<Rightarrow> ('s, 'b) srtp_transport_scheme \<times> bytes option" where
  "ProtectRtcp L p max_len t =
     (if \<not> IsSrtpActive t then (t, None)
      else case SsProtectRtcp L p max_len (the (st_send t)) of (s, r) \<Rightarrow> (t\<lparr>st_send := Some s\<rparr>, r))"

subsection \<open>The transport keyed by DTLS\<close>

text \<open>
  The RTP transport is read through the view its signal carries. \<open>ds_rtcp_writable\<close>: the writability of the separate RTCP transport,
  if one is set. \<open>ds_out\<close> collects the packets handed up (\<open>True\<close>: RTCP) with their times.
\<close>

record 's dtls_srtp = "'s srtp_transport" +
  ds_name :: string
  ds_rtcp_writable :: "bool option"
  ds_unprotect_fail_count :: nat
  ds_last_send_seq_num :: u16
  ds_out :: "(bool \<times> bytes \<times> int) list"

record 's dtls_srtp_lib = "'s srtp_lib" +
  ssl_suite :: "int option"
  ssl_export :: "nat \<Rightarrow> bytes option"

definition DtlsSrtpTransport :: "string \<Rightarrow> bool \<Rightarrow> 's dtls_srtp" where
  "DtlsSrtpTransport name rtcp_mux = \<lparr>st_rtcp_mux = rtcp_mux, st_send = None, st_recv = None, ds_name = name, ds_rtcp_writable = None,
     ds_unprotect_fail_count = 0, ds_last_send_seq_num = 0, ds_out = []\<rparr>"

definition IsDtlsWritable :: "dtls_view \<Rightarrow> 's dtls_srtp \<Rightarrow> bool" where
  "IsDtlsWritable v t \<longleftrightarrow> vw_writable v \<and> (st_rtcp_mux t \<or> ds_rtcp_writable t \<noteq> Some False)"

text \<open>
  The exported material holds the client's key, the server's key, the client's salt and the
  server's salt; this end is the server. The result is the pair of the send and the receive key.
\<close>

definition split_keys :: "nat \<Rightarrow> nat \<Rightarrow> bytes \<Rightarrow> bytes \<times> bytes" where
  "split_keys key_len salt_len b =
     (let client_key = take key_len b;
          server_key = take key_len (drop key_len b);
          client_salt = take salt_len (drop (2 * key_len) b);
          server_salt = take salt_len (drop (2 * key_len + salt_len) b)
      in (server_key @ server_salt, client_key @ client_salt))"

definition ExtractParams :: "('s, 'b) dtls_srtp_lib_scheme \<Rightarrow> dtls_view \<Rightarrow> (int \<times> bytes \<times> bytes) option" where
  "ExtractParams L v =
     (if \<not> vw_active v then None
      else case GetSrtpCryptoSuite (ssl_suite L) v of
        None \<Rightarrow> None
      | Some cs \<Rightarrow> (case key_and_salt_lengths L cs of
            None \<Rightarrow> None
          | Some (key_len, salt_len) \<Rightarrow> (case ExportKeyingMaterial (ssl_export L) (key_len * 2 + salt_len * 2) v of
                None \<Rightarrow> None
              | Some b \<Rightarrow> Some (cs, split_keys key_len salt_len b))))"

definition SetupDtlsSrtp :: "('s, 'b) dtls_srtp_lib_scheme \<Rightarrow> dtls_view \<Rightarrow> 's dtls_srtp \<Rightarrow> usage \<Rightarrow> 's dtls_srtp \<times> usage" where
  "SetupDtlsSrtp L v t u =
     (case ExtractParams L v of
        None \<Rightarrow> (t, u)
      | Some (cs, send_key, recv_key) \<Rightarrow> snd (SetRtpParams L cs send_key cs recv_key t u))"

definition MaybeSetupDtlsSrtp :: "('s, 'b) dtls_srtp_lib_scheme \<Rightarrow> dtls_view \<Rightarrow> 's dtls_srtp \<Rightarrow> usage \<Rightarrow> 's dtls_srtp \<times> usage" where
  "MaybeSetupDtlsSrtp L v t u = (if IsSrtpActive t \<or> \<not> IsDtlsWritable v t then (t, u) else SetupDtlsSrtp L v t u)"

text \<open>\<open>set_dtls_transports\<close> connects the signals and tries to set up at once.\<close>

definition set_dtls_transports ::
    "('s, 'b) dtls_srtp_lib_scheme \<Rightarrow> dtls_view \<Rightarrow> bool option \<Rightarrow> 's dtls_srtp \<Rightarrow> usage \<Rightarrow> 's dtls_srtp \<times> usage" where
  "set_dtls_transports L v rtcp t u = MaybeSetupDtlsSrtp L v (t\<lparr>ds_rtcp_writable := rtcp\<rparr>) u"

definition DsOnDtlsState :: "('s, 'b) dtls_srtp_lib_scheme \<Rightarrow> dtls_view \<Rightarrow> 's dtls_srtp \<Rightarrow> usage \<Rightarrow> 's dtls_srtp \<times> usage" where
  "DsOnDtlsState L v t u = (if vw_state v \<noteq> DkConnected then ResetParams t u else MaybeSetupDtlsSrtp L v t u)"

subsection \<open>Packets\<close>

datatype srtp_fault = PacketTooShort

text \<open>After a failure the log reads the sequence number and the source of the packet, every hundredth time.\<close>

definition DsOnRtpPacketReceived :: "('s, 'b) dtls_srtp_lib_scheme \<Rightarrow> bytes \<Rightarrow> int \<Rightarrow> 's dtls_srtp \<Rightarrow> srtp_fault + 's dtls_srtp" where
  "DsOnRtpPacketReceived L packet ts t =
     (if \<not> IsSrtpActive t then Inr t
      else case UnprotectRtp L packet t of
        (t1, None) \<Rightarrow>
          if ds_unprotect_fail_count t1 mod 100 = 0 \<and> (ParseRtpSequenceNumber packet = None \<or> ParseRtpSsrc packet = None)
          then Inl PacketTooShort
          else Inr (t1\<lparr>ds_unprotect_fail_count := ds_unprotect_fail_count t1 + 1\<rparr>)
      | (t1, Some p) \<Rightarrow> Inr (t1\<lparr>ds_out := ds_out t1 @ [(False, p, ts)]\<rparr>))"

definition DsOnRtcpPacketReceived :: "('s, 'b) dtls_srtp_lib_scheme \<Rightarrow> bytes \<Rightarrow> int \<Rightarrow> 's dtls_srtp \<Rightarrow> srtp_fault + 's dtls_srtp" where
  "DsOnRtcpPacketReceived L packet ts t =
     (if \<not> IsSrtpActive t then Inr t
      else case UnprotectRtcp L packet t of
        (t1, None) \<Rightarrow> Inr t1
      | (t1, Some p) \<Rightarrow> Inr (t1\<lparr>ds_out := ds_out t1 @ [(True, p, ts)]\<rparr>))"

definition DsOnReadPacket :: "('s, 'b) dtls_srtp_lib_scheme \<Rightarrow> bytes \<Rightarrow> int \<Rightarrow> 's dtls_srtp \<Rightarrow> srtp_fault + 's dtls_srtp" where
  "DsOnReadPacket L packet ts t =
     (case InferRtpPacketType packet of
        kUnknown \<Rightarrow> Inr t
      | kRtcp \<Rightarrow> DsOnRtcpPacketReceived L packet ts t
      | kRtp \<Rightarrow> DsOnRtpPacketReceived L packet ts t)"

text \<open>The result is the packet handed to the DTLS transport, \<open>None\<close> the code's \<open>-1\<close>.\<close>

definition DsSendRtp :: "('s, 'b) dtls_srtp_lib_scheme \<Rightarrow> bytes \<Rightarrow> 's dtls_srtp \<Rightarrow> srtp_fault + bytes option \<times> 's dtls_srtp" where
  "DsSendRtp L buf t =
     (if \<not> IsSrtpActive t then Inr (None, t)
      else
        let tag = (case GetSendAuthTagLen t of None \<Rightarrow> 0 | Some (rtp, _) \<Rightarrow> rtp) in
        case ParseRtpSequenceNumber buf of
          None \<Rightarrow> Inl PacketTooShort
        | Some seq_num \<Rightarrow>
            (case ProtectRtp L buf (length buf + tag) t of
               (t1, None) \<Rightarrow> if ParseRtpSsrc buf = None then Inl PacketTooShort else Inr (None, t1)
             | (t1, Some p) \<Rightarrow> Inr (Some p, t1\<lparr>ds_last_send_seq_num := seq_num\<rparr>)))"

definition DsSendRtcp :: "('s, 'b) dtls_srtp_lib_scheme \<Rightarrow> bytes \<Rightarrow> 's dtls_srtp \<Rightarrow> srtp_fault + bytes option \<times> 's dtls_srtp" where
  "DsSendRtcp L buf t =
     (if \<not> IsSrtpActive t then Inr (None, t)
      else
        let tag = (case GetSendAuthTagLen t of None \<Rightarrow> 0 | Some (_, rtcp) \<Rightarrow> rtcp) in
        case ProtectRtcp L buf (length buf + tag + 4) t of (t1, r) \<Rightarrow> Inr (r, t1))"

end
