(* ===== verification/SrtpProps.thy ===== *)
theory SrtpProps
  imports Srtp
begin

text \<open>
  The sessions of a transport come and go together, the count of the shared library is the number
  of sessions that use it, and packets are protected only between the end of the handshake and
  the end of the connection.
\<close>

subsection \<open>The count of library users\<close>

definition uses_lib :: "'s srtp_session option \<Rightarrow> int" where
  "uses_lib s = (case s of None \<Rightarrow> 0 | Some x \<Rightarrow> if ss_inited x then 1 else 0)"

definition held :: "('s, 'b) srtp_transport_scheme \<Rightarrow> int" where
  "held t = uses_lib (st_send t) + uses_lib (st_recv t)"

definition usage_ok :: "int \<Rightarrow> usage \<Rightarrow> bool" where
  "usage_ok n u \<longleftrightarrow> fst u = n \<and> 0 \<le> n \<and> (snd u \<longleftrightarrow> 0 < n)"

lemma uses_lib_range: "0 \<le> uses_lib s \<and> uses_lib s \<le> 1"
  by (simp add: uses_lib_def split: option.splits)

lemma held_nonneg: "0 \<le> held t"
  using uses_lib_range[of "st_send t"] uses_lib_range[of "st_recv t"] by (simp add: held_def)

lemma delete_held_ok: "usage_ok (n + uses_lib s) u \<Longrightarrow> 0 \<le> n \<Longrightarrow> usage_ok n (delete_held s u)"
  by (auto simp: usage_ok_def delete_held_def delete_session_def DecrementLibsrtpUsage_def uses_lib_def split: option.splits if_splits)

lemma delete_both:
  assumes "usage_ok (n + held t) u" "0 \<le> n"
  shows "usage_ok n (delete_held (st_recv t) (delete_held (st_send t) u))"
proof -
  have "usage_ok (n + uses_lib (st_recv t) + uses_lib (st_send t)) u" using assms(1) by (simp add: held_def ac_simps)
  then have "usage_ok (n + uses_lib (st_recv t)) (delete_held (st_send t) u)"
    using assms(2) uses_lib_range[of "st_recv t"] by (intro delete_held_ok) simp_all
  then show ?thesis using assms(2) by (rule delete_held_ok)
qed

lemma held_fresh [simp]:
  "held (t\<lparr>st_send := None, st_recv := None\<rparr>) = 0" "held (t\<lparr>st_send := Some SrtpSession, st_recv := Some SrtpSession\<rparr>) = 0"
  by (simp_all add: held_def uses_lib_def SrtpSession_def)

lemma ResetParams_ok: "usage_ok (n + held t) u \<Longrightarrow> 0 \<le> n \<Longrightarrow> ResetParams t u = (t', u') \<Longrightarrow> usage_ok (n + held t') u'"
  using delete_both[of n t u] by (auto simp: ResetParams_def)

lemma CreateSrtpSession_ok:
  "usage_ok (n + held t) u \<Longrightarrow> 0 \<le> n \<Longrightarrow> CreateSrtpSession t u = (t', u') \<Longrightarrow>
    usage_ok (n + held t') u' \<and> st_send t' = Some SrtpSession \<and> st_recv t' = Some SrtpSession"
  using delete_both[of n t u] by (auto simp: CreateSrtpSession_def)

lemma DoSetKey_inited: "DoSetKey L type cs key s = (ok, s') \<Longrightarrow> ss_inited s' = ss_inited s \<and> (ok \<longrightarrow> ss_session s' \<noteq> None)"
  by (auto simp: DoSetKey_def split: option.splits if_splits)

lemma SetKey_ok:
  assumes "usage_ok n u" "ss_session s = None" "\<not> ss_inited s" "SetKey L type cs key s u = (ok, s', u')"
  shows "usage_ok (n + uses_lib (Some s')) u' \<and> (ok \<longrightarrow> ss_session s' \<noteq> None)"
  using assms DoSetKey_inited[of L type cs key "s\<lparr>ss_inited := True\<rparr>"]
  by (auto simp: SetKey_def IncrementLibsrtpUsage_def usage_ok_def uses_lib_def split: if_splits prod.splits bool.splits)

lemma UpdateKey_ok: "UpdateKey L type cs key s = (ok, s') \<Longrightarrow> ss_inited s' = ss_inited s \<and> (ok \<longrightarrow> ss_session s' \<noteq> None)"
  using DoSetKey_inited[of L type cs key s ok s'] by (auto simp: UpdateKey_def split: if_splits)

text \<open>
  \<open>paired\<close>: both sessions exist, created in the library, or neither.
\<close>

definition live_session :: "'s srtp_session option \<Rightarrow> bool" where
  "live_session s \<longleftrightarrow> (\<exists>x. s = Some x \<and> ss_session x \<noteq> None)"

definition paired :: "('s, 'b) srtp_transport_scheme \<Rightarrow> bool" where
  "paired t \<longleftrightarrow> (st_send t = None \<and> st_recv t = None) \<or> (live_session (st_send t) \<and> live_session (st_recv t))"

lemma ResetParams_paired: "ResetParams t u = (t', u') \<Longrightarrow> paired t' \<and> \<not> IsSrtpActive t'"
  by (auto simp: ResetParams_def paired_def IsSrtpActive_def)

text \<open>A set-up on an inactive transport, as the code does it.\<close>

lemma SetRtpParams_new:
  assumes "usage_ok (n + held t) u" "0 \<le> n" "st_send t = None" "SetRtpParams L cs1 k1 cs2 k2 t u = (ok, t', u')"
  shows "usage_ok (n + held t') u' \<and> paired t'"
proof -
  obtain ta ua where c: "CreateSrtpSession t u = (ta, ua)" by (cases "CreateSrtpSession t u")
  have a: "usage_ok n ua" "st_send ta = Some SrtpSession" "st_recv ta = Some SrtpSession"
    using CreateSrtpSession_ok[OF assms(1,2) c] by (auto simp: held_def uses_lib_def SrtpSession_def)
  obtain ok1 s1 u1 where s: "SetSend L cs1 k1 SrtpSession ua = (ok1, s1, u1)" by (cases "SetSend L cs1 k1 SrtpSession ua")
  let ?t1 = "ta\<lparr>st_send := Some s1\<rparr>"
  have b: "usage_ok (n + uses_lib (Some s1)) u1" "ok1 \<longrightarrow> ss_session s1 \<noteq> None"
    using SetKey_ok[OF a(1) _ _ s[unfolded SetSend_def]] by (auto simp: SrtpSession_def)
  have held1: "held ?t1 = uses_lib (Some s1)" using a(3) by (simp add: held_def uses_lib_def SrtpSession_def)
  show ?thesis
  proof (cases ok1)
    case False
    then have "ResetParams ?t1 u1 = (t', u')" using assms(3,4) c a s by (auto simp: SetRtpParams_def Let_def)
    then show ?thesis using ResetParams_ok[of n ?t1 u1] ResetParams_paired[of ?t1 u1] b held1 assms(2) by auto
  next
    case True
    obtain ok2 r2 u2 where r: "SetRecv L cs2 k2 SrtpSession u1 = (ok2, r2, u2)" by (cases "SetRecv L cs2 k2 SrtpSession u1")
    have d: "usage_ok (n + uses_lib (Some s1) + uses_lib (Some r2)) u2" "ok2 \<longrightarrow> ss_session r2 \<noteq> None"
      using SetKey_ok[OF b(1) _ _ r[unfolded SetRecv_def]] by (auto simp: SrtpSession_def)
    let ?t2 = "?t1\<lparr>st_recv := Some r2\<rparr>"
    have u2: "usage_ok (n + held ?t2) u2" using d(1) by (simp add: held_def ac_simps)
    have res: "(ok, t', u') = (if \<not> ok2 then (False, ResetParams ?t2 u2) else (True, ?t2, u2))"
      using assms(3,4) c a s r True by (auto simp: SetRtpParams_def Let_def)
    show ?thesis
    proof (cases ok2)
      case False
      then have "ResetParams ?t2 u2 = (t', u')" using res by simp
      then show ?thesis using ResetParams_ok[of n ?t2 u2] ResetParams_paired[of ?t2 u2] u2 assms(2) by auto
    next
      case ok: True
      then show ?thesis using res u2 b d True by (simp add: paired_def live_session_def)
    qed
  qed
qed

definition srtp_ok :: "int \<Rightarrow> ('s, 'b) srtp_transport_scheme \<Rightarrow> usage \<Rightarrow> bool" where
  "srtp_ok n t u \<longleftrightarrow> usage_ok (n + held t) u \<and> paired t"

lemma MaybeSetup_ok:
  assumes "srtp_ok n t u" "0 \<le> n" "MaybeSetupDtlsSrtp L v t u = (t', u')"
  shows "srtp_ok n t' u'"
proof (cases "IsSrtpActive t \<or> \<not> IsDtlsWritable v t \<or> ExtractParams L v = None")
  case True
  then show ?thesis using assms by (auto simp: MaybeSetupDtlsSrtp_def SetupDtlsSrtp_def split: if_splits)
next
  case False
  then obtain cs k1 k2 where x: "ExtractParams L v = Some (cs, k1, k2)" by auto
  obtain ok where p: "SetRtpParams L cs k1 cs k2 t u = (ok, t', u')"
    using assms(3) False x by (cases "SetRtpParams L cs k1 cs k2 t u") (auto simp: MaybeSetupDtlsSrtp_def SetupDtlsSrtp_def)
  have "st_send t = None" using False assms(1) by (auto simp: srtp_ok_def paired_def IsSrtpActive_def live_session_def)
  then show ?thesis using SetRtpParams_new[OF _ assms(2) _ p] assms(1) by (simp add: srtp_ok_def)
qed

lemma DsOnDtlsState_ok:
  assumes "srtp_ok n t u" "0 \<le> n" "DsOnDtlsState L v t u = (t', u')"
  shows "srtp_ok n t' u' \<and> (IsSrtpActive t' \<longrightarrow> vw_state v = DkConnected)"
proof (cases "vw_state v = DkConnected")
  case True
  then show ?thesis using MaybeSetup_ok[OF assms(1,2)] assms(3) by (simp add: DsOnDtlsState_def)
next
  case False
  then have "ResetParams t u = (t', u')" using assms(3) by (simp add: DsOnDtlsState_def)
  then show ?thesis using ResetParams_ok[OF _ assms(2)] ResetParams_paired assms(1) unfolding srtp_ok_def by blast
qed

subsection \<open>Packets keep the sessions\<close>

lemma with_session_keeps: "with_session f s = (s', r) \<Longrightarrow> ss_inited s' = ss_inited s \<and> (ss_session s' = None \<longleftrightarrow> ss_session s = None)"
  by (auto simp: with_session_def split: option.splits prod.splits)

definition same_sessions :: "('s, 'b) srtp_transport_scheme \<Rightarrow> ('s, 'b) srtp_transport_scheme \<Rightarrow> bool" where
  "same_sessions t t' \<longleftrightarrow> held t' = held t \<and> (paired t \<longrightarrow> paired t') \<and> IsSrtpActive t' = IsSrtpActive t"

lemma same_sessions_ok: "same_sessions t t' \<Longrightarrow> srtp_ok n t u \<Longrightarrow> srtp_ok n t' u"
  by (simp add: same_sessions_def srtp_ok_def)

lemma same_sessions_refl [simp]: "same_sessions t t"
  by (simp add: same_sessions_def)

lemma recv_same: "with_session f s = (s', r) \<Longrightarrow> st_recv t = Some s \<Longrightarrow> same_sessions t (t\<lparr>st_recv := Some s'\<rparr>)"
  using with_session_keeps[of f s s' r]
  by (auto simp: same_sessions_def held_def uses_lib_def paired_def live_session_def IsSrtpActive_def)

lemma send_same: "with_session f s = (s', r) \<Longrightarrow> st_send t = Some s \<Longrightarrow> same_sessions t (t\<lparr>st_send := Some s'\<rparr>)"
  using with_session_keeps[of f s s' r]
  by (auto simp: same_sessions_def held_def uses_lib_def paired_def live_session_def IsSrtpActive_def)

lemma same_unchanged: "st_send t = Some s \<Longrightarrow> same_sessions t (t\<lparr>st_send := Some s\<rparr>)"
  by (simp add: same_sessions_def held_def paired_def IsSrtpActive_def)

lemma UnprotectRtp_same: "UnprotectRtp L p t = (t', r) \<Longrightarrow> same_sessions t t'"
  by (auto simp: UnprotectRtp_def SsUnprotectRtp_def IsSrtpActive_def split: if_splits prod.splits intro: recv_same)

lemma UnprotectRtcp_same: "UnprotectRtcp L p t = (t', r) \<Longrightarrow> same_sessions t t'"
  by (auto simp: UnprotectRtcp_def SsUnprotectRtcp_def IsSrtpActive_def split: if_splits prod.splits intro: recv_same)

lemma ProtectRtp_same: "ProtectRtp L p m t = (t', r) \<Longrightarrow> same_sessions t t'"
  by (auto simp: ProtectRtp_def SsProtectRtp_def IsSrtpActive_def split: if_splits prod.splits intro: send_same same_unchanged)

lemma ProtectRtcp_same: "ProtectRtcp L p m t = (t', r) \<Longrightarrow> same_sessions t t'"
  by (auto simp: ProtectRtcp_def SsProtectRtcp_def IsSrtpActive_def split: if_splits prod.splits intro: send_same same_unchanged)

end
