(* ===== verification/SecureTransport.thy ===== *)
theory SecureTransport
  imports SrtpProps
begin

text \<open>
  The DTLS transport and the SRTP transport connected to its signals
  (\<open>DtlsSrtpTransport::set_dtls_transports\<close>): every signal of a DTLS step is delivered to the SRTP
  side in order, with the view it carries. The answers of the libraries may differ from event to
  event.
\<close>

record 's secure =
  se_dtls :: dtls_transport
  se_srtp :: "'s dtls_srtp"
  se_usage :: usage

datatype secure_fault = DtlsFault dtls_fault | SrtpFault srtp_fault

fun fault_of :: "('e \<Rightarrow> 'f) \<Rightarrow> 'e + 'a \<Rightarrow> 'f + 'a" where
  "fault_of f (Inl e) = Inl (f e)"
| "fault_of f (Inr a) = Inr a"

fun deliver :: "'s dtls_srtp_lib \<Rightarrow> dtls_out \<Rightarrow> 's dtls_srtp \<times> usage \<Rightarrow> srtp_fault + 's dtls_srtp \<times> usage" where
  "deliver L (OutDtlsState v) (t, u) = Inr (DsOnDtlsState L v t u)"
| "deliver L (OutDtlsPacket buf ts) (t, u) = and_then (DsOnReadPacket L buf ts t) (\<lambda>t1. Inr (t1, u))"
| "deliver L _ (t, u) = Inr (t, u)"

datatype 's secure_event =
    SeDtls "'s dtls_srtp_lib" dt_event
  | SeSendRtp "'s dtls_srtp_lib" bytes
  | SeSendRtcp "'s dtls_srtp_lib" bytes

fun secure_step :: "'s secure_event \<Rightarrow> 's secure \<Rightarrow> secure_fault + 's secure" where
  "secure_step (SeDtls L e) s =
     and_then (fault_of DtlsFault (dt_step e (se_dtls s))) (\<lambda>d.
     and_then (fault_of SrtpFault (each (deliver L) (drop (length (dt_out (se_dtls s))) (dt_out d)) (se_srtp s, se_usage s))) (\<lambda>(t, u).
       Inr (s\<lparr>se_dtls := d, se_srtp := t, se_usage := u\<rparr>)))"
| "secure_step (SeSendRtp L buf) s = and_then (fault_of SrtpFault (DsSendRtp L buf (se_srtp s))) (\<lambda>(_, t). Inr (s\<lparr>se_srtp := t\<rparr>))"
| "secure_step (SeSendRtcp L buf) s = and_then (fault_of SrtpFault (DsSendRtcp L buf (se_srtp s))) (\<lambda>(_, t). Inr (s\<lparr>se_srtp := t\<rparr>))"

fun secure_admitted :: "'s secure \<Rightarrow> 's secure_event \<Rightarrow> bool" where
  "secure_admitted s (SeDtls L e) \<longleftrightarrow> dt_admitted (se_dtls s) e"
| "secure_admitted s (SeSendRtp L buf) \<longleftrightarrow> kMinRtpPacketLen \<le> length buf"
| "secure_admitted s (SeSendRtcp L buf) \<longleftrightarrow> True"

text \<open>A new pair of transports; \<open>u\<close> is the count the other transports have reached.\<close>

definition new_secure :: "int list \<Rightarrow> string \<Rightarrow> usage \<Rightarrow> 's secure" where
  "new_secure ciphers name u = \<lparr>se_dtls = DtlsTransport ciphers, se_srtp = DtlsSrtpTransport name True, se_usage = u\<rparr>"

inductive secure_reachable :: "int \<Rightarrow> 's secure \<Rightarrow> bool" for n where
  se_init: "usage_ok n u \<Longrightarrow> secure_reachable n (new_secure ciphers name u)"
| se_next: "secure_reachable n s \<Longrightarrow> secure_admitted s e \<Longrightarrow> secure_step e s = Inr s' \<Longrightarrow> secure_reachable n s'"

subsection \<open>The invariant\<close>

definition secure_inv :: "int \<Rightarrow> 's secure \<Rightarrow> bool" where
  "secure_inv n s \<longleftrightarrow> dt_inv (se_dtls s) \<and> announces (se_dtls s) \<and> srtp_ok n (se_srtp s) (se_usage s) \<and> 0 \<le> n \<and>
     (IsSrtpActive (se_srtp s) \<longrightarrow> dt_state (se_dtls s) = DkConnected)"

lemma same_sessions_fields [simp]:
  "same_sessions t (t1\<lparr>ds_unprotect_fail_count := c\<rparr>) = same_sessions t t1" "same_sessions t (t1\<lparr>ds_out := es\<rparr>) = same_sessions t t1"
  "same_sessions t (t1\<lparr>ds_last_send_seq_num := q\<rparr>) = same_sessions t t1"
  by (simp_all add: same_sessions_def held_def paired_def IsSrtpActive_def)

lemma rtp_received_same: "InferRtpPacketType buf = kRtp \<Longrightarrow> wp (DsOnRtpPacketReceived L buf ts t) (same_sessions t)"
  using parsed_when_rtp[of buf] UnprotectRtp_same
  by (fastforce simp: DsOnRtpPacketReceived_def split: prod.splits option.splits)

lemma rtcp_received_same: "wp (DsOnRtcpPacketReceived L buf ts t) (same_sessions t)"
  using UnprotectRtcp_same by (fastforce simp: DsOnRtcpPacketReceived_def split: prod.splits option.splits)

lemma read_same: "wp (DsOnReadPacket L buf ts t) (same_sessions t)"
  using rtp_received_same rtcp_received_same by (cases "InferRtpPacketType buf") (auto simp: DsOnReadPacket_def)

lemma deliver_wp:
  assumes "srtp_ok n t u" "0 \<le> n" "IsSrtpActive t \<longrightarrow> st = DkConnected"
  shows "wp (deliver L e (t, u)) (\<lambda>(t', u'). srtp_ok n t' u' \<and> (IsSrtpActive t' \<longrightarrow> last (st # state_signals [e]) = DkConnected))"
proof (cases e)
  case (OutDtlsState v)
  obtain t' u' where d: "DsOnDtlsState L v t u = (t', u')" by (cases "DsOnDtlsState L v t u")
  show ?thesis using DsOnDtlsState_ok[OF assms(1,2) d] d OutDtlsState by simp
next
  case (OutDtlsPacket buf ts)
  obtain t' where t': "DsOnReadPacket L buf ts t = Inr t'" "same_sessions t t'" using read_same wpD by blast
  show ?thesis using t' assms(3) same_sessions_ok[OF t'(2) assms(1)] OutDtlsPacket by (simp add: same_sessions_def)
qed (use assms in simp_all)

lemma deliver_all_wp:
  assumes "srtp_ok n t u" "0 \<le> n" "IsSrtpActive t \<longrightarrow> st = DkConnected"
  shows "wp (each (deliver L) es (t, u)) (\<lambda>(t', u'). srtp_ok n t' u' \<and> (IsSrtpActive t' \<longrightarrow> last (st # state_signals es) = DkConnected))"
  using assms
proof (induction es arbitrary: t u st)
  case (Cons e es)
  obtain t1 u1 where d: "deliver L e (t, u) = Inr (t1, u1)" "srtp_ok n t1 u1"
    "IsSrtpActive t1 \<longrightarrow> last (st # state_signals [e]) = DkConnected"
    using deliver_wp[OF Cons.prems, of L e] by (auto dest: wpD)
  have l: "last (last (st # state_signals [e]) # state_signals es) = last (st # state_signals (e # es))"
    by (cases e) auto
  have "wp (each (deliver L) es (t1, u1)) (\<lambda>(t', u'). srtp_ok n t' u' \<and> (IsSrtpActive t' \<longrightarrow> last (st # state_signals (e # es)) = DkConnected))"
    using Cons.IH[OF d(2) Cons.prems(2) d(3)] unfolding l .
  then show ?case using d(1) by simp
qed simp

lemma send_same_sessions:
  "kMinRtpPacketLen \<le> length buf \<Longrightarrow> wp (DsSendRtp L buf t) (\<lambda>(r, t'). same_sessions t t')"
  "wp (DsSendRtcp L buf t) (\<lambda>(r, t'). same_sessions t t')"
  using ProtectRtp_same ProtectRtcp_same
  by (fastforce simp: DsSendRtp_def DsSendRtcp_def Let_def ParseRtpSequenceNumber_def ParseRtpSsrc_def kMinRtpPacketLen_def
      split: prod.splits option.splits)+

lemma fault_of_wp [simp]: "wp (fault_of f r) Q = wp r Q"
  by (cases r) simp_all

lemma secure_step_wp:
  assumes "secure_inv n s" "secure_admitted s e"
  shows "wp (secure_step e s) (secure_inv n)"
proof (cases e)
  case (SeDtls L e')
  have inv: "dt_inv (se_dtls s)" "announces (se_dtls s)" "srtp_ok n (se_srtp s) (se_usage s)" "0 \<le> n"
    "IsSrtpActive (se_srtp s) \<longrightarrow> dt_state (se_dtls s) = DkConnected"
    using assms(1) by (simp_all add: secure_inv_def)
  obtain d es where d: "dt_step e' (se_dtls s) = Inr d" "dt_inv d" "dt_out d = dt_out (se_dtls s) @ es"
    using wpD[OF dt_step_wp[OF inv(1)]] assms(2) SeDtls by (fastforce simp: puts_out_def)
  have an: "announces d" using announces_step[OF inv(2) d(1)] .
  then have "last (dt_state (se_dtls s) # state_signals es) = dt_state d"
    using inv(2) d(3) by (cases "state_signals es = []") (auto simp: announces_def split: if_splits)
  moreover obtain t u where "each (deliver L) es (se_srtp s, se_usage s) = Inr (t, u)" "srtp_ok n t u"
    "IsSrtpActive t \<longrightarrow> last (dt_state (se_dtls s) # state_signals es) = DkConnected"
    using deliver_all_wp[OF inv(3,4,5), of L es] by (auto dest: wpD)
  ultimately show ?thesis using SeDtls d an inv(4) by (simp add: secure_inv_def)
next
  case (SeSendRtp L buf)
  obtain r t where t: "DsSendRtp L buf (se_srtp s) = Inr (r, t)" "same_sessions (se_srtp s) t"
    using send_same_sessions(1)[of buf L "se_srtp s"] assms(2) SeSendRtp by (auto dest: wpD)
  have "srtp_ok n t (se_usage s)" using same_sessions_ok[OF t(2)] assms(1) by (simp add: secure_inv_def)
  then show ?thesis using assms(1) t SeSendRtp by (simp add: secure_inv_def same_sessions_def)
next
  case (SeSendRtcp L buf)
  obtain r t where t: "DsSendRtcp L buf (se_srtp s) = Inr (r, t)" "same_sessions (se_srtp s) t"
    using send_same_sessions(2)[of L buf "se_srtp s"] by (auto dest: wpD)
  have "srtp_ok n t (se_usage s)" using same_sessions_ok[OF t(2)] assms(1) by (simp add: secure_inv_def)
  then show ?thesis using assms(1) t SeSendRtcp by (simp add: secure_inv_def same_sessions_def)
qed

lemma secure_reachable_inv: "secure_reachable n s \<Longrightarrow> secure_inv n s"
proof (induction rule: secure_reachable.induct)
  case (se_init u ciphers name)
  then show ?case
    by (auto simp: secure_inv_def new_secure_def dt_inv_def announces_def DtlsTransport_def DtlsSrtpTransport_def srtp_ok_def
        usage_ok_def held_def uses_lib_def paired_def IsSrtpActive_def)
next
  case (se_next s e s')
  then show ?case using wpD[OF secure_step_wp] by fastforce
qed

text \<open>C5: No admitted event is a fault, packets are protected and unprotected only while the DTLS
  transport is connected, and the shared library is initialised exactly while some session uses it.\<close>

theorem srtp_only_while_connected:
  assumes "secure_reachable n s" "secure_admitted s e"
  shows "\<exists>s'. secure_step e s = Inr s' \<and> (IsSrtpActive (se_srtp s') \<longrightarrow> dt_state (se_dtls s') = DkConnected) \<and>
    fst (se_usage s') = n + held (se_srtp s') \<and> (snd (se_usage s') \<longleftrightarrow> 0 < n + held (se_srtp s'))"
  using wpD[OF secure_step_wp[OF secure_reachable_inv[OF assms(1)] assms(2)]]
  by (auto simp: secure_inv_def srtp_ok_def usage_ok_def)

text \<open>On an active transport sending an RTP packet always reaches libsrtp: the buffer has room for the
  tag, and the result is what libsrtp returns.\<close>

theorem send_has_room:
  assumes "secure_reachable n s" "IsSrtpActive (se_srtp s)" "kMinRtpPacketLen \<le> length buf"
  shows "\<exists>x c t'. st_send (se_srtp s) = Some x \<and> ss_session x = Some c \<and>
    DsSendRtp L buf (se_srtp s) = Inr (snd (srtp_protect L c buf), t')"
proof -
  have "paired (se_srtp s)" using secure_reachable_inv[OF assms(1)] by (simp add: secure_inv_def srtp_ok_def)
  then obtain x c where x: "st_send (se_srtp s) = Some x" "ss_session x = Some c"
    using assms(2) by (auto simp: paired_def live_session_def IsSrtpActive_def)
  obtain c' r where "srtp_protect L c buf = (c', r)" by fastforce
  then show ?thesis using x assms(2,3)
    by (auto simp: DsSendRtp_def Let_def ParseRtpSequenceNumber_def ParseRtpSsrc_def kMinRtpPacketLen_def ProtectRtp_def SsProtectRtp_def
        GetSendAuthTagLen_def SsGetAuthTagLen_def with_session_def split: option.splits)
qed

subsection \<open>Keys\<close>

text \<open>The block a handshake exports: client key, server key, client salt, server salt.\<close>

lemma split_keys_block:
  "length ck = k \<Longrightarrow> length sk = k \<Longrightarrow> length cs = l \<Longrightarrow> length ss = l \<Longrightarrow>
    split_keys k l (ck @ sk @ cs @ ss) = (sk @ ss, ck @ cs)"
  by (simp add: split_keys_def)

definition installs :: "'s dtls_srtp_lib \<Rightarrow> int \<Rightarrow> bytes \<Rightarrow> bytes \<Rightarrow> 's \<Rightarrow> 's \<Rightarrow> bool" where
  "installs L cs send_key recv_key c1 c2 \<longleftrightarrow> srtp_init_ok L \<and>
     (\<exists>p. srtp_policy_of L cs = Some p \<and> length send_key = cipher_key_len p \<and> length recv_key = cipher_key_len p) \<and>
     srtp_create L ssrc_any_outbound cs send_key = Some c1 \<and> srtp_create L ssrc_any_inbound cs recv_key = Some c2"

lemma set_params_installs:
  assumes "st_send t = None" "0 \<le> fst u" "st_recv t = None" "installs L cs send_key recv_key c1 c2"
  shows "\<exists>x y u'. SetRtpParams L cs send_key cs recv_key t u = (True, t\<lparr>st_send := Some x, st_recv := Some y\<rparr>, u') \<and>
    ss_session x = Some c1 \<and> ss_session y = Some c2"
proof -
  obtain p where p: "srtp_policy_of L cs = Some p" "length send_key = cipher_key_len p" "length recv_key = cipher_key_len p"
    using assms(4) by (auto simp: installs_def)
  have inc: "IncrementLibsrtpUsage L v = (True, fst v + 1, True)" for v
    using assms(4) by (simp add: IncrementLibsrtpUsage_def installs_def)
  define x where "x = SrtpSession\<lparr>ss_session := Some c1, ss_inited := True, ss_rtp_auth_tag_len := rtp_tag_len p, ss_rtcp_auth_tag_len := rtcp_tag_len p\<rparr>"
  define y where "y = SrtpSession\<lparr>ss_session := Some c2, ss_inited := True, ss_rtp_auth_tag_len := rtp_tag_len p, ss_rtcp_auth_tag_len := rtcp_tag_len p\<rparr>"
  have s: "SetSend L cs send_key SrtpSession v = (True, x, fst v + 1, True)" for v
    using p assms(4) inc by (simp add: SetSend_def SetKey_def DoSetKey_def SrtpSession_def installs_def x_def)
  have r: "SetRecv L cs recv_key SrtpSession v = (True, y, fst v + 1, True)" for v
    using p assms(4) inc by (simp add: SetRecv_def SetKey_def DoSetKey_def SrtpSession_def installs_def y_def)
  have "SetRtpParams L cs send_key cs recv_key t u = (True, t\<lparr>st_send := Some x, st_recv := Some y\<rparr>, fst u + 1 + 1, True)"
    using assms(1,3) s r by (simp add: SetRtpParams_def CreateSrtpSession_def Let_def delete_held_def)
  moreover have "ss_session x = Some c1" "ss_session y = Some c2" by (simp_all add: x_def y_def)
  ultimately show ?thesis by blast
qed

text \<open>C6: When the handshake completes, SRTP starts with the exported keys: this end sends with the
  server's key and salt and receives with the client's.\<close>

theorem handshake_installs_keys:
  assumes "secure_reachable n s" "dt_state (se_dtls s) = DkConnecting" "dt_active (se_dtls s)"
    and "ssl_suite L = Some cs" "key_and_salt_lengths L cs = Some (k, l)" "ssl_export L (k * 2 + l * 2) = Some (ck @ sk @ cs' @ ss)"
    and "length ck = k" "length sk = k" "length cs' = l" "length ss = l" "installs L cs (sk @ ss) (ck @ cs') c1 c2"
    and "ev_open e" "\<not> ev_read e" "\<not> ev_close e" "st_rtcp_mux (se_srtp s)"
  shows "\<exists>s' x y. secure_step (SeDtls L (DtAdapter e)) s = Inr s' \<and> dt_state (se_dtls s') = DkConnected \<and>
    st_send (se_srtp s') = Some x \<and> ss_session x = Some c1 \<and> st_recv (se_srtp s') = Some y \<and> ss_session y = Some c2"
proof -
  have inv: "secure_inv n s" by (rule secure_reachable_inv[OF assms(1)])
  let ?d = "se_dtls s" and ?w = "set_writable_state True (se_dtls s)"
  let ?v = "\<lparr>vw_state = DkConnected, vw_writable = True, vw_active = True, vw_dtls = True\<rparr>"
  have dtls: "dt_dtls ?d" using inv assms(2) by (simp add: secure_inv_def dt_inv_def)
  have off: "\<not> IsSrtpActive (se_srtp s)" using inv assms(2) by (auto simp: secure_inv_def)
  then have none: "st_send (se_srtp s) = None" "st_recv (se_srtp s) = None"
    using inv by (auto simp: secure_inv_def srtp_ok_def paired_def live_session_def IsSrtpActive_def)
  have cnt: "0 \<le> fst (se_usage s)" using inv held_nonneg[of "se_srtp s"] by (simp add: secure_inv_def srtp_ok_def usage_ok_def)
  have x: "ExtractParams L ?v = Some (cs, sk @ ss, ck @ cs')"
    using assms(4-10) split_keys_block[of ck k sk cs' l ss] by (simp add: ExtractParams_def GetSrtpCryptoSuite_def ExportKeyingMaterial_def)
  obtain a b u where ab: "SetRtpParams L cs (sk @ ss) cs (ck @ cs') (se_srtp s) (se_usage s) =
      (True, (se_srtp s)\<lparr>st_send := Some a, st_recv := Some b\<rparr>, u)" "ss_session a = Some c1" "ss_session b = Some c2"
    using set_params_installs[OF none(1) cnt none(2) assms(11)] by blast
  let ?t = "(se_srtp s)\<lparr>st_send := Some a, st_recv := Some b\<rparr>"
  have on: "DsOnDtlsState L ?v (se_srtp s) (se_usage s) = (?t, u)"
    using off x ab(1) assms(15) by (simp add: DsOnDtlsState_def MaybeSetupDtlsSrtp_def SetupDtlsSrtp_def IsDtlsWritable_def)
  have d: "OnDtlsEvent e ?d = set_dtls_state DkConnected ?w" using assms(12-14) by (simp add: OnDtlsEvent_def Let_def)
  have "\<exists>es. dt_out (set_dtls_state DkConnected ?w) = dt_out ?d @ es @ [OutDtlsState ?v] \<and> es \<in> {[], [OutDtlsWritable True]}"
    using dtls assms(2,3) by (auto simp: set_dtls_state_def set_writable_state_def view_of_def Let_def)
  then obtain es where es: "dt_out (set_dtls_state DkConnected ?w) = dt_out ?d @ es @ [OutDtlsState ?v]" "es \<in> {[], [OutDtlsWritable True]}"
    by blast
  then have "each (deliver L) (es @ [OutDtlsState ?v]) (se_srtp s, se_usage s) = Inr (?t, u)" using on by auto
  then show ?thesis using d es(1) ab(2,3) by (simp add: off)
qed

subsection \<open>A run\<close>

definition demo_srtp :: "bytes dtls_srtp_lib" where
  "demo_srtp = \<lparr>srtp_init_ok = True, srtp_policy_of = (\<lambda>cs. if cs = 1 then Some \<lparr>cipher_key_len = 2, rtp_tag_len = 10, rtcp_tag_len = 10\<rparr> else None),
     srtp_create = (\<lambda>_ _ key. Some key), srtp_update = (\<lambda>_ _ key _. Some key),
     srtp_protect = (\<lambda>c p. (c, Some (p @ c))), srtp_protect_rtcp = (\<lambda>c p. (c, Some (p @ c))),
     srtp_unprotect = (\<lambda>c p. (c, Some p)), srtp_unprotect_rtcp = (\<lambda>c p. (c, Some p)),
     key_and_salt_lengths = (\<lambda>_. Some (1, 1)), ssl_suite = Some 1, ssl_export = (\<lambda>_. Some ([11] @ [12] @ [13] @ [14]))\<rparr>"

definition demo_connecting :: "bytes secure" where
  "demo_connecting =
     (new_secure [1] ''audio'' (0, False))\<lparr>se_dtls := \<lparr>dt_state = DkConnecting, dt_receiving = False, dt_writable = False, dt_dtls = True,
       dt_cached_hello = [], dt_cert = Some 7, dt_fp_value = [9], dt_fp_alg = ''sha-256'', dt_active = True, dt_ciphers = [1],
       dt_out = [OutDtlsState \<lparr>vw_state = DkConnecting, vw_writable = False, vw_active = True, vw_dtls = True\<rparr>]\<rparr>\<rparr>"

lemma demo_connecting_reachable: "secure_reachable 0 demo_connecting"
proof -
  let ?s0 = "new_secure [1] ''audio'' (0, False) :: bytes secure"
  let ?s1 = "?s0\<lparr>se_dtls := (DtlsTransport [1])\<lparr>dt_cert := Some 7, dt_active := True\<rparr>\<rparr>"
  have "secure_reachable 0 ?s0" by (rule se_init) (simp add: usage_ok_def)
  then have "secure_reachable 0 ?s1"
    by (rule se_next[where e = "SeDtls demo_srtp (DtCertificate (Some 7))"])
      (simp_all add: new_secure_def DtlsTransport_def SetLocalCertificate_def)
  then show ?thesis
    by (rule se_next[where e = "SeDtls demo_srtp (DtFingerprint (demo_ssl True) ''sha-256'' [9])"])
      (simp_all add: new_secure_def DtlsTransport_def SetRemoteFingerprint_def SetupDtls_def MaybeStartDtls_def demo_ssl_def
        set_dtls_state_def dt_emit_def view_of_def demo_connecting_def DsOnDtlsState_def ResetParams_def DtlsSrtpTransport_def delete_held_def)
qed

lemma demo_installs: "installs demo_srtp 1 ([12] @ [14]) ([11] @ [13]) [12, 14] [11, 13]"
  by (simp add: installs_def demo_srtp_def)

theorem srtp_only_while_connected_witness:
  "\<exists>s'. secure_step (SeDtls demo_srtp (DtAdapter demo_open)) demo_connecting = Inr s' \<and>
    (IsSrtpActive (se_srtp s') \<longrightarrow> dt_state (se_dtls s') = DkConnected) \<and>
    fst (se_usage s') = 0 + held (se_srtp s') \<and> (snd (se_usage s') \<longleftrightarrow> 0 < 0 + held (se_srtp s'))"
  by (rule srtp_only_while_connected[OF demo_connecting_reachable]) (simp add: demo_connecting_def)

theorem handshake_installs_keys_witness:
  "\<exists>s' x y. secure_step (SeDtls demo_srtp (DtAdapter demo_open)) demo_connecting = Inr s' \<and> dt_state (se_dtls s') = DkConnected \<and>
    st_send (se_srtp s') = Some x \<and> ss_session x = Some [12, 14] \<and> st_recv (se_srtp s') = Some y \<and> ss_session y = Some [11, 13]"
  by (rule handshake_installs_keys[OF demo_connecting_reachable _ _ _ _ _ _ _ _ _ demo_installs, where k = 1 and l = 1])
    (simp_all add: demo_connecting_def demo_srtp_def demo_open_def new_secure_def DtlsSrtpTransport_def)

definition demo_connected :: "bytes secure" where
  "demo_connected = (case secure_step (SeDtls demo_srtp (DtAdapter demo_open)) demo_connecting of Inr s \<Rightarrow> s)"

lemma demo_connected_step: "secure_step (SeDtls demo_srtp (DtAdapter demo_open)) demo_connecting = Inr demo_connected"
  by (simp add: demo_connected_def demo_connecting_def demo_open_def OnDtlsEvent_def set_dtls_state_def set_writable_state_def dt_emit_def
      view_of_def DsOnDtlsState_def MaybeSetupDtlsSrtp_def new_secure_def split: prod.split)

lemma demo_connected_active: "IsSrtpActive (se_srtp demo_connected)"
  by (simp add: demo_connected_def demo_connecting_def demo_open_def OnDtlsEvent_def set_dtls_state_def set_writable_state_def dt_emit_def
      view_of_def DsOnDtlsState_def MaybeSetupDtlsSrtp_def new_secure_def DtlsSrtpTransport_def IsSrtpActive_def IsDtlsWritable_def SetupDtlsSrtp_def
      ExtractParams_def GetSrtpCryptoSuite_def ExportKeyingMaterial_def demo_srtp_def split_keys_def SetRtpParams_def CreateSrtpSession_def delete_held_def
      SetSend_def SetRecv_def SetKey_def IncrementLibsrtpUsage_def SrtpSession_def DoSetKey_def numeral_2_eq_2 Let_def)

theorem send_has_room_witness:
  "\<exists>x c t'. st_send (se_srtp demo_connected) = Some x \<and> ss_session x = Some c \<and>
    DsSendRtp demo_srtp (replicate 12 128) (se_srtp demo_connected) = Inr (snd (srtp_protect demo_srtp c (replicate 12 128)), t')"
  by (rule send_has_room[OF se_next[OF demo_connecting_reachable _ demo_connected_step] demo_connected_active])
    (simp_all add: demo_connecting_def kMinRtpPacketLen_def)

end
