(* ===== verification/SessionDescription.thy ===== *)
theory SessionDescription
  imports IceAgent
begin

text \<open>
  \<open>session_description.cpp\<close>, \<open>codec_info.h\<close> and \<open>stream_params.h\<close>: the description of a session
  and its text. Strings are lists of characters; the credentials of the ICE layer are byte lists
  and are converted. A fingerprint and the text of an address are made by libwebrtc (the parameter
  \<open>sdp_lib\<close>). A candidate's port is that of its address, as \<open>CreateIceCandidate\<close> sets it.
\<close>

record fingerprint =
  fp_algorithm :: string
  fp_digest :: bytes

record sdp_lib =
  cert_fingerprint :: "nat \<Rightarrow> fingerprint option"
  rfc4572 :: "fingerprint \<Rightarrow> string"
  host_uri :: "sock_addr \<Rightarrow> string"

definition chars_of :: "bytes \<Rightarrow> string" where
  "chars_of b = map (\<lambda>x. char_of (unat x)) b"

definition bytes_of :: "string \<Rightarrow> bytes" where
  "bytes_of s = map (\<lambda>c. of_char c) s"

text \<open>Decimal numbers as a stream prints them.\<close>

definition digit :: "nat \<Rightarrow> char" where
  "digit d = char_of (48 + d)"

fun show_nat :: "nat \<Rightarrow> string" where
  "show_nat n = (if n < 10 then [digit n] else show_nat (n div 10) @ [digit (n mod 10)])"

declare show_nat.simps [simp del]

definition crlf :: string where "crlf = [CHR 0x0D, CHR 0x0A]"

subsection \<open>Data\<close>

datatype sdp_type = kOffer | kAnswer

datatype media_kind = MEDIA_TYPE_AUDIO | MEDIA_TYPE_VIDEO

datatype rtp_direction = kSendRecv | kSendOnly | kRecvOnly | kInactive

datatype connection_role = NONE | ACTIVE | PASSIVE | ACTPASS | HOLDCONN

record codec_info =
  co_id :: nat
  co_name :: string
  co_clockrate :: nat
  co_channels :: "nat option"
  co_feedback_param :: "(string \<times> string) list"
  co_param :: "(string \<times> string) list"

text \<open>The parameters of a codec are a map, listed in the order of its keys.\<close>

record ssrc_group =
  sg_semantics :: string
  sg_ssrcs :: "u32 list"

record stream_params =
  sp_id :: string
  sp_ssrcs :: "u32 list"
  sp_ssrc_groups :: "ssrc_group list"
  sp_cname :: string
  sp_stream_id :: string

definition StreamParams :: stream_params where
  "StreamParams = \<lparr>sp_id = [], sp_ssrcs = [], sp_ssrc_groups = [], sp_cname = [], sp_stream_id = []\<rparr>"

definition HasSsrc :: "u32 \<Rightarrow> stream_params \<Rightarrow> bool" where
  "HasSsrc ssrc s = list_ex (\<lambda>item. item = ssrc) (sp_ssrcs s)"

definition FirstSsrc :: "stream_params \<Rightarrow> u32" where
  "FirstSsrc s = (case sp_ssrcs s of [] \<Rightarrow> 0 | x # _ \<Rightarrow> x)"

record media_content =
  mc_kind :: media_kind
  mc_codecs :: "codec_info list"
  mc_direction :: rtp_direction
  mc_rtcp_mux :: bool
  mc_candidates :: "candidate list"
  mc_streams :: "stream_params list"

fun mid_of :: "media_kind \<Rightarrow> string" where
  "mid_of MEDIA_TYPE_AUDIO = ''audio''"
| "mid_of MEDIA_TYPE_VIDEO = ''video''"

abbreviation mid :: "media_content \<Rightarrow> string" where
  "mid c \<equiv> mid_of (mc_kind c)"

definition opus :: codec_info where
  "opus = \<lparr>co_id = 111, co_name = ''opus'', co_clockrate = 48000, co_channels = Some 2,
     co_feedback_param = [(''transport-cc'', [])], co_param = [(''minptime'', ''10''), (''useinbandfec'', ''1'')]\<rparr>"

definition h264 :: codec_info where
  "h264 = \<lparr>co_id = 107, co_name = ''H264'', co_clockrate = 90000, co_channels = None,
     co_feedback_param = [(''goog-remb'', []), (''transport-cc'', []), (''ccm'', ''fir''), (''nack'', []), (''nack'', ''pli'')],
     co_param = [(''level-asymmetry-allowed'', ''1''), (''packetization-mode'', ''1''), (''profile-level-id'', ''42e01f'')]\<rparr>"

definition rtx :: codec_info where
  "rtx = \<lparr>co_id = 99, co_name = ''rtx'', co_clockrate = 90000, co_channels = None, co_feedback_param = [],
     co_param = [(''apt'', show_nat (co_id h264))]\<rparr>"

text \<open>The direction of a new content is not initialised; \<open>junk\<close> is what the field holds.\<close>

definition AudioContentDescription :: "rtp_direction \<Rightarrow> media_content" where
  "AudioContentDescription junk = \<lparr>mc_kind = MEDIA_TYPE_AUDIO, mc_codecs = [opus], mc_direction = junk, mc_rtcp_mux = True,
     mc_candidates = [], mc_streams = []\<rparr>"

definition VideoContentDescription :: "rtp_direction \<Rightarrow> media_content" where
  "VideoContentDescription junk = \<lparr>mc_kind = MEDIA_TYPE_VIDEO, mc_codecs = [h264, rtx], mc_direction = junk, mc_rtcp_mux = True,
     mc_candidates = [], mc_streams = []\<rparr>"

definition add_stream :: "stream_params \<Rightarrow> media_content \<Rightarrow> media_content" where
  "add_stream s c = c\<lparr>mc_streams := mc_streams c @ [s]\<rparr>"

definition add_candidates :: "candidate list \<Rightarrow> media_content \<Rightarrow> media_content" where
  "add_candidates cs c = c\<lparr>mc_candidates := cs\<rparr>"

record content_group =
  cg_semantics :: string
  cg_content_names :: "string list"

definition HasContentName :: "string \<Rightarrow> content_group \<Rightarrow> bool" where
  "HasContentName n g = list_ex (\<lambda>name. name = n) (cg_content_names g)"

definition AddContentName :: "string \<Rightarrow> content_group \<Rightarrow> content_group" where
  "AddContentName n g = (if \<not> HasContentName n g then g\<lparr>cg_content_names := cg_content_names g @ [n]\<rparr> else g)"

record transport_desc =
  td_mid :: string
  td_ice_ufrag :: string
  td_ice_pwd :: string
  td_fingerprint :: "fingerprint option"
  td_role :: connection_role

definition TransportDescription :: transport_desc where
  "TransportDescription = \<lparr>td_mid = [], td_ice_ufrag = [], td_ice_pwd = [], td_fingerprint = None, td_role = NONE\<rparr>"

record session_desc =
  sd_type :: sdp_type
  sd_contents :: "media_content list"
  sd_groups :: "content_group list"
  sd_transports :: "transport_desc list"

definition SessionDescription :: "sdp_type \<Rightarrow> session_desc" where
  "SessionDescription type = \<lparr>sd_type = type, sd_contents = [], sd_groups = [], sd_transports = []\<rparr>"

subsection \<open>Operations\<close>

definition GetContent :: "string \<Rightarrow> session_desc \<Rightarrow> media_content option" where
  "GetContent m d = find (\<lambda>c. m = mid c) (sd_contents d)"

definition AddContent :: "media_content \<Rightarrow> session_desc \<Rightarrow> session_desc" where
  "AddContent c d = d\<lparr>sd_contents := sd_contents d @ [c]\<rparr>"

definition AddGroup :: "content_group \<Rightarrow> session_desc \<Rightarrow> session_desc" where
  "AddGroup g d = d\<lparr>sd_groups := sd_groups d @ [g]\<rparr>"

definition GetGroupByName :: "string \<Rightarrow> session_desc \<Rightarrow> content_group list" where
  "GetGroupByName n d = filter (\<lambda>g. cg_semantics g = n) (sd_groups d)"

definition AddTransportInfo :: "sdp_lib \<Rightarrow> string \<Rightarrow> ice_params \<Rightarrow> nat option \<Rightarrow> session_desc \<Rightarrow> bool \<times> session_desc" where
  "AddTransportInfo S m ps cert d =
     (let fp = (case cert of None \<Rightarrow> None | Some c \<Rightarrow> cert_fingerprint S c) in
      if cert \<noteq> None \<and> fp = None then (False, d)
      else (True, d\<lparr>sd_transports := sd_transports d @
        [\<lparr>td_mid = m, td_ice_ufrag = chars_of (ice_ufrag ps), td_ice_pwd = chars_of (ice_pwd ps), td_fingerprint = fp,
          td_role = (if sd_type d = kOffer then ACTPASS else ACTIVE)\<rparr>]\<rparr>))"

definition AddTransportDesc :: "transport_desc \<Rightarrow> session_desc \<Rightarrow> session_desc" where
  "AddTransportDesc td d = d\<lparr>sd_transports := sd_transports d @ [td]\<rparr>"

definition GetTransportInfo :: "string \<Rightarrow> session_desc \<Rightarrow> transport_desc option" where
  "GetTransportInfo m d = find (\<lambda>td. td_mid td = m) (sd_transports d)"

definition IsBundle :: "string \<Rightarrow> session_desc \<Rightarrow> bool" where
  "IsBundle m d = list_ex (\<lambda>g. list_ex (\<lambda>name. name = m) (cg_content_names g)) (GetGroupByName ''BUNDLE'' d)"

text \<open>\<open>None\<close>: the first group is there but has no name, and the code reads past its end.\<close>

definition GetFirstBundleMid :: "session_desc \<Rightarrow> string option" where
  "GetFirstBundleMid d =
     (case GetGroupByName ''BUNDLE'' d of
        [] \<Rightarrow> Some []
      | g # _ \<Rightarrow> (case cg_content_names g of [] \<Rightarrow> None | n # _ \<Rightarrow> Some n))"

subsection \<open>The text\<close>

fun ConnectionRoleToString :: "connection_role \<Rightarrow> string" where
  "ConnectionRoleToString ACTIVE = ''active''"
| "ConnectionRoleToString PASSIVE = ''passive''"
| "ConnectionRoleToString ACTPASS = ''actpass''"
| "ConnectionRoleToString HOLDCONN = ''holdconn''"
| "ConnectionRoleToString NONE = ''none''"

text \<open>The text is a list of lines; each is ended by the two characters the code writes.\<close>

definition AddRtcpFbLine :: "codec_info \<Rightarrow> string list" where
  "AddRtcpFbLine codec =
     map (\<lambda>(i, p). ''a=rtcp-fb:'' @ show_nat (co_id codec) @ '' '' @ i @ (if p \<noteq> [] then '' '' @ p else [])) (co_feedback_param codec)"

definition AddFmtpLine :: "codec_info \<Rightarrow> string list" where
  "AddFmtpLine codec =
     (if co_param codec \<noteq> []
      then [''a=fmtp:'' @ show_nat (co_id codec) @ '' '' @ drop 1 (concat (map (\<lambda>(k, v). '';'' @ k @ ''='' @ v) (co_param codec)))]
      else [])"

definition BuildRtpMap :: "media_content \<Rightarrow> string list" where
  "BuildRtpMap c =
     concat (map (\<lambda>codec.
       [''a=rtpmap:'' @ show_nat (co_id codec) @ '' '' @ co_name codec @ ''/'' @ show_nat (co_clockrate codec) @
          (if mc_kind c = MEDIA_TYPE_AUDIO then ''/'' @ show_nat (case co_channels codec of Some n \<Rightarrow> n | None \<Rightarrow> 0) else [])]
       @ AddRtcpFbLine codec @ AddFmtpLine codec) (mc_codecs c))"

fun BuildRtpDirection :: "rtp_direction \<Rightarrow> string" where
  "BuildRtpDirection kSendRecv = ''a=sendrecv''"
| "BuildRtpDirection kSendOnly = ''a=sendonly''"
| "BuildRtpDirection kRecvOnly = ''a=recvonly''"
| "BuildRtpDirection kInactive = ''a=inactive''"

definition BuildCandidates :: "sdp_lib \<Rightarrow> media_content \<Rightarrow> string list" where
  "BuildCandidates S c =
     map (\<lambda>x. ''a=candidate:'' @ chars_of (ca_foundation x) @ '' '' @ show_nat (nat (component_id (ca_component x))) @ '' '' @ ca_protocol x
       @ '' '' @ show_nat (unat (ca_priority x)) @ '' '' @ host_uri S (ca_address x) @ '' '' @ show_nat (unat (sa_port (ca_address x)))
       @ '' typ '' @ ca_type x) (mc_candidates c)"

definition AddSsrcLine :: "u32 \<Rightarrow> string \<Rightarrow> string \<Rightarrow> string" where
  "AddSsrcLine ssrc attribute v = ''a=ssrc:'' @ show_nat (unat ssrc) @ '' '' @ attribute @ '':'' @ v"

definition ssrc_group_line :: "ssrc_group \<Rightarrow> string" where
  "ssrc_group_line g = ''a=ssrc-group:'' @ sg_semantics g @ concat (map (\<lambda>ssrc. '' '' @ show_nat (unat ssrc)) (sg_ssrcs g))"

definition ssrc_lines :: "stream_params \<Rightarrow> u32 \<Rightarrow> string list" where
  "ssrc_lines track ssrc =
     [AddSsrcLine ssrc ''cname'' (sp_cname track), AddSsrcLine ssrc ''msid'' (sp_stream_id track @ '' '' @ sp_id track),
      AddSsrcLine ssrc ''mslabel'' (sp_stream_id track), AddSsrcLine ssrc ''lable'' (sp_id track)]"

definition BuildSsrc :: "media_content \<Rightarrow> string list" where
  "BuildSsrc c =
     concat (map (\<lambda>track. map ssrc_group_line (filter (\<lambda>g. sg_ssrcs g \<noteq> []) (sp_ssrc_groups track))
       @ concat (map (ssrc_lines track) (sp_ssrcs track))) (mc_streams c))"

definition m_line :: "bool \<Rightarrow> media_content \<Rightarrow> string" where
  "m_line dtls c = ''m='' @ mid c @ '' 9 '' @ (if dtls then ''UDP/TLS/RTP/SAVPF'' else ''RTP/SAVPF'')
     @ concat (map (\<lambda>codec. '' '' @ show_nat (co_id codec)) (mc_codecs c))"

definition transport_lines :: "sdp_lib \<Rightarrow> transport_desc \<Rightarrow> string list" where
  "transport_lines S td =
     [''a=ice-ufrag:'' @ td_ice_ufrag td, ''a=ice-pwd:'' @ td_ice_pwd td] @
     (case td_fingerprint td of
        None \<Rightarrow> []
      | Some fp \<Rightarrow> [''a=fingerprint:'' @ fp_algorithm fp @ '' '' @ rfc4572 S fp, ''a=setup:'' @ ConnectionRoleToString (td_role td)])"

definition media_lines :: "sdp_lib \<Rightarrow> session_desc \<Rightarrow> media_content \<Rightarrow> string list" where
  "media_lines S d c =
     (let ti = GetTransportInfo (mid c) d in
      [m_line (case ti of None \<Rightarrow> False | Some td \<Rightarrow> td_fingerprint td \<noteq> None) c, ''c=IN IP4 0.0.0.0'', ''a=rtcp:9 IN IP4 0.0.0.0'']
      @ BuildCandidates S c
      @ (case ti of None \<Rightarrow> [] | Some td \<Rightarrow> transport_lines S td)
      @ [''a=mid:'' @ mid c, BuildRtpDirection (mc_direction c)]
      @ (if mc_rtcp_mux c then [''a=rtcp-mux''] else [])
      @ BuildRtpMap c @ BuildSsrc c)"

definition session_lines :: "session_desc \<Rightarrow> string list" where
  "session_lines d =
     [''v=0'', ''o=- 0 2 IN IP4 127.0.0.1'', ''s=-'', ''t=0 0'']
     @ (let gs = GetGroupByName ''BUNDLE'' d in
        if gs \<noteq> [] then [''a=group:BUNDLE'' @ concat (map (\<lambda>g. concat (map (\<lambda>n. '' '' @ n) (cg_content_names g))) gs)] else [])
     @ [''a=msid-semantic: WMS'']"

definition SdpToString :: "sdp_lib \<Rightarrow> session_desc \<Rightarrow> string" where
  "SdpToString S d = concat (map (\<lambda>l. l @ crlf) (session_lines d @ concat (map (media_lines S d) (sd_contents d))))"

end
