(* ===== verification/TransportController.thy ===== *)
theory TransportController
  imports SecureTransport SessionDescription StreamManager
begin

text \<open>
  \<open>transport_controller.cpp\<close>: one ICE agent and, with DTLS, a DTLS and an SRTP transport per media
  section that is not bundled with another. The signals of an ICE channel are delivered in the
  order it emits them: to the agent, whose state signals reach the controller, and then to the
  DTLS transport on the channel, whose signals reach the controller and the SRTP transport.
\<close>

datatype tc_out =
    TcState pc_state
  | TcCandidates string ice_component "candidate list"
  | TcRtp bytes int
  | TcRtcp bytes int

datatype tc_fault = TcIce fault | TcDtls dtls_fault | TcSrtp srtp_fault | NullFingerprint | EmptyBundle

text \<open>The transports of a media section, and the ICE channel (its place in the agent) they run on.\<close>

record 's transport_pair =
  tp_name :: string
  tp_channel :: nat
  tp_dtls :: dtls_transport
  tp_srtp :: "'s dtls_srtp"

record 's transport_controller =
  tc_agent :: ice_agent
  tc_transports :: "'s transport_pair list"
  tc_plain :: "nat list"
  tc_ice_connected :: bool
  tc_cert :: "nat option"
  tc_is_dtls :: bool
  tc_state :: pc_state
  tc_usage :: usage
  tc_out :: "tc_out list"

text \<open>The libraries, the answers of the SSL adapter and the time of the packet during an event.\<close>

record 's tc_env =
  te_ice :: ice_lib
  te_ssl :: ssl_env
  te_srtp :: "'s dtls_srtp_lib"
  te_ciphers :: "int list"
  te_ts :: int

type_synonym ('s, 'a) tc_result = "tc_fault + 'a"

definition TransportController :: "usage \<Rightarrow> 's transport_controller" where
  "TransportController u = \<lparr>tc_agent = IceAgent, tc_transports = [], tc_plain = [], tc_ice_connected = False, tc_cert = None,
     tc_is_dtls = True, tc_state = pc_kNew, tc_usage = u, tc_out = []\<rparr>"

definition tc_emit :: "tc_out \<Rightarrow> 's transport_controller \<Rightarrow> 's transport_controller" where
  "tc_emit e c = c\<lparr>tc_out := tc_out c @ [e]\<rparr>"

definition tc_set_state :: "pc_state \<Rightarrow> 's transport_controller \<Rightarrow> 's transport_controller" where
  "tc_set_state s c = (if tc_state c \<noteq> s then tc_emit (TcState s) (c\<lparr>tc_state := s\<rparr>) else c)"

subsection \<open>The state\<close>

definition pc_aggregate :: "dtls_state list \<Rightarrow> ice_state list \<Rightarrow> pc_state" where
  "pc_aggregate ds is =
     (let total_connected = count_list is kConnected + count_list ds DkConnected;
          total_dtls_connecting = count_list ds DkConnecting;
          total_failed = count_list is kFailed + count_list ds DkFailed;
          total_closed = count_list is kClosed + count_list ds DkClosed;
          total_new = count_list is kNew + count_list ds DkNew;
          total_ice_checking = count_list is kChecking;
          total_ice_disconnected = count_list is kDisconnected;
          total_ice_completed = count_list is kCompleted;
          total_transports = length ds * 2
      in if total_failed > 0 then pc_kFailed
         else if total_ice_disconnected > 0 then pc_kDisconnected
         else if total_new + total_closed = total_transports then pc_kNew
         else if total_ice_checking + total_dtls_connecting + total_new > 0 then pc_kConnecting
         else if total_connected + total_ice_completed + total_closed = total_transports then pc_kConnected
         else pc_kNew)"

definition channel_state :: "'s transport_controller \<Rightarrow> nat \<Rightarrow> ice_state" where
  "channel_state c i = ch_state (snd (ag_channels (tc_agent c) ! i))"

definition TcUpdateState :: "'s transport_controller \<Rightarrow> 's transport_controller" where
  "TcUpdateState c =
     tc_set_state (pc_aggregate (map (dt_state \<circ> tp_dtls) (tc_transports c)) (map (channel_state c \<circ> tp_channel) (tc_transports c))) c"

fun plain_state :: "ice_state \<Rightarrow> pc_state" where
  "plain_state kNew = pc_kNew"
| "plain_state kChecking = pc_kConnecting"
| "plain_state kConnected = pc_kConnected"
| "plain_state kCompleted = pc_kConnected"
| "plain_state kDisconnected = pc_kDisconnected"
| "plain_state kFailed = pc_kFailed"
| "plain_state kClosed = pc_kClosed"

definition TcOnIceState :: "ice_state \<Rightarrow> 's transport_controller \<Rightarrow> 's transport_controller" where
  "TcOnIceState s c = (if tc_is_dtls c then TcUpdateState c else tc_set_state (plain_state s) c)"

definition TcOnReadPacket :: "bytes \<Rightarrow> int \<Rightarrow> 's transport_controller \<Rightarrow> 's transport_controller" where
  "TcOnReadPacket buf ts c =
     (case InferRtpPacketType buf of
        kUnknown \<Rightarrow> c
      | kRtcp \<Rightarrow> tc_emit (TcRtcp buf ts) c
      | kRtp \<Rightarrow> tc_emit (TcRtp buf ts) c)"

subsection \<open>Signals of a DTLS transport\<close>

definition set_pair :: "nat \<Rightarrow> 's transport_pair \<Rightarrow> 's transport_controller \<Rightarrow> 's transport_controller" where
  "set_pair k p c = c\<lparr>tc_transports := (tc_transports c)[k := p]\<rparr>"

text \<open>What the SRTP transport hands up while it handles a packet.\<close>

definition srtp_up :: "'s dtls_srtp \<Rightarrow> 's dtls_srtp \<Rightarrow> tc_out list" where
  "srtp_up t t' = map (\<lambda>(rtcp, p, ts). if rtcp then TcRtcp p ts else TcRtp p ts) (drop (length (ds_out t)) (ds_out t'))"

fun TcOnDtlsSignal :: "'s tc_env \<Rightarrow> nat \<Rightarrow> dtls_out \<Rightarrow> 's transport_controller \<Rightarrow> tc_fault + 's transport_controller" where
  "TcOnDtlsSignal E k (OutDtlsState v) c =
     (let p = tc_transports c ! k;
          c1 = TcUpdateState (set_pair k (p\<lparr>tp_dtls := (tp_dtls p)\<lparr>dt_state := vw_state v\<rparr>\<rparr>) c);
          p1 = tc_transports c1 ! k
      in case DsOnDtlsState (te_srtp E) v (tp_srtp p1) (tc_usage c1) of (t, u) \<Rightarrow>
           Inr (set_pair k (p1\<lparr>tp_srtp := t\<rparr>) (c1\<lparr>tc_usage := u\<rparr>)))"
| "TcOnDtlsSignal E k (OutDtlsReceiving _) c = Inr (TcUpdateState c)"
| "TcOnDtlsSignal E k (OutDtlsPacket buf ts) c =
     (let p = tc_transports c ! k in
      and_then (fault_of TcSrtp (DsOnReadPacket (te_srtp E) buf ts (tp_srtp p))) (\<lambda>t.
        Inr (set_pair k (p\<lparr>tp_srtp := t\<rparr>) (c\<lparr>tc_out := tc_out c @ srtp_up (tp_srtp p) t\<rparr>))))"
| "TcOnDtlsSignal E k _ c = Inr c"

text \<open>
  An operation of the DTLS transport \<open>k\<close>: while its signals are delivered the transport shows the
  state each of them carries.
\<close>

definition dtls_call :: "'s tc_env \<Rightarrow> nat \<Rightarrow> dt_event \<Rightarrow> 's transport_controller \<Rightarrow> tc_fault + 's transport_controller" where
  "dtls_call E k e c =
     (let p = tc_transports c ! k; d = tp_dtls p in
      and_then (fault_of TcDtls (dt_step e d)) (\<lambda>d1.
        each (TcOnDtlsSignal E k) (drop (length (dt_out d)) (dt_out d1))
          (set_pair k (p\<lparr>tp_dtls := d1\<lparr>dt_state := dt_state d\<rparr>\<rparr>) c)))"

subsection \<open>Signals of an ICE channel\<close>

definition channel_env :: "'s tc_env \<Rightarrow> nat \<Rightarrow> 's transport_controller \<Rightarrow> ssl_env" where
  "channel_env E i c = (te_ssl E)\<lparr>ice_writable := ch_writable (snd (ag_channels (tc_agent c) ! i))\<rparr>"

fun agent_signal :: "agent_out \<Rightarrow> 's transport_controller \<Rightarrow> 's transport_controller" where
  "agent_signal (AgIceState s) c = (if tc_ice_connected c then TcOnIceState s c else c)"
| "agent_signal (AgCandidates name component cs) c = tc_emit (TcCandidates name component cs) c"

fun shows_writable :: "ice_out \<Rightarrow> channel \<Rightarrow> channel" where
  "shows_writable (OutWritable w) ch = ch\<lparr>ch_writable := w\<rparr>"
| "shows_writable _ ch = ch"

definition to_agent :: "nat \<Rightarrow> ice_out \<Rightarrow> 's transport_controller \<Rightarrow> 's transport_controller" where
  "to_agent i e c =
     (let a = tc_agent c;
          b = OnSignal i e (set_channel i (shows_writable e (snd (ag_channels a ! i))) a)
      in fold agent_signal (drop (length (ag_out a)) (ag_out b)) (c\<lparr>tc_agent := b\<rparr>))"

fun dtls_event_of :: "'s tc_env \<Rightarrow> nat \<Rightarrow> ice_out \<Rightarrow> 's transport_controller \<Rightarrow> dt_event option" where
  "dtls_event_of E i (OutData buf) c = Some (DtPacket (channel_env E i c) buf (te_ts E))"
| "dtls_event_of E i (OutWritable _) c = Some (DtWritable (channel_env E i c))"
| "dtls_event_of E i (OutReceiving r) c = Some (DtReceiving r)"
| "dtls_event_of E i _ c = None"

definition pairs_on :: "nat \<Rightarrow> 's transport_controller \<Rightarrow> nat list" where
  "pairs_on i c = filter (\<lambda>k. tp_channel (tc_transports c ! k) = i) [0..<length (tc_transports c)]"

definition OnIceOut :: "'s tc_env \<Rightarrow> nat \<Rightarrow> ice_out \<Rightarrow> 's transport_controller \<Rightarrow> tc_fault + 's transport_controller" where
  "OnIceOut E i e c0 =
     (let c = to_agent i e c0 in
      and_then
        (case dtls_event_of E i e c of
           None \<Rightarrow> Inr c
         | Some ev \<Rightarrow> each (\<lambda>k. dtls_call E k ev) (pairs_on i c) c)
        (\<lambda>c1. Inr (case e of OutData buf \<Rightarrow> fold (\<lambda>_. TcOnReadPacket buf (te_ts E)) (filter (\<lambda>j. j = i) (tc_plain c1)) c1 | _ \<Rightarrow> c1)))"

definition ice_call :: "'s tc_env \<Rightarrow> nat \<Rightarrow> (channel \<Rightarrow> channel result) \<Rightarrow> 's transport_controller \<Rightarrow> tc_fault + 's transport_controller" where
  "ice_call E i f c =
     (let ch = snd (ag_channels (tc_agent c) ! i) in
      and_then (fault_of TcIce (f ch)) (\<lambda>d.
      and_then (each (OnIceOut E i) (emitted ch d) c) (\<lambda>c1.
        Inr (c1\<lparr>tc_agent := set_channel i d (tc_agent c1)\<rparr>))))"

subsection \<open>Descriptions\<close>

definition TcSetLocalCertificate :: "nat option \<Rightarrow> 's transport_controller \<Rightarrow> 's transport_controller" where
  "TcSetLocalCertificate cert c = c\<lparr>tc_cert := cert\<rparr>"

definition set_dtls :: "bool \<Rightarrow> 's transport_controller \<Rightarrow> 's transport_controller" where
  "set_dtls b c = c\<lparr>tc_is_dtls := b\<rparr>"

definition find_pair :: "string \<Rightarrow> 's transport_controller \<Rightarrow> nat option" where
  "find_pair name c = find (\<lambda>k. tp_name (tc_transports c ! k) = name) [0..<length (tc_transports c)]"

text \<open>A transport of the same name is deleted and replaced.\<close>

definition AddPair :: "'s transport_pair \<Rightarrow> 's transport_controller \<Rightarrow> 's transport_controller" where
  "AddPair p c =
     (case find_pair (tp_name p) c of
        None \<Rightarrow> c\<lparr>tc_transports := tc_transports c @ [p]\<rparr>
      | Some k \<Rightarrow> let t = tp_srtp (tc_transports c ! k) in
          (set_pair k p c)\<lparr>tc_usage := delete_held (st_recv t) (delete_held (st_send t) (tc_usage c))\<rparr>)"

text \<open>Skipped: a section bundled with an earlier one.\<close>

definition skipped :: "string \<Rightarrow> session_desc \<Rightarrow> tc_fault + bool" where
  "skipped m d =
     (if IsBundle m d then (case GetFirstBundleMid d of None \<Rightarrow> Inl EmptyBundle | Some f \<Rightarrow> Inr (m \<noteq> f)) else Inr False)"

definition add_section :: "'s tc_env \<Rightarrow> session_desc \<Rightarrow> media_content \<Rightarrow> 's transport_controller \<Rightarrow> tc_fault + 's transport_controller" where
  "add_section E d m c0 =
     (let name = mid m; c = c0\<lparr>tc_agent := CreateChannel name RTP (tc_agent c0)\<rparr> in
      case GetChannel name RTP (tc_agent c) of
        None \<Rightarrow> Inr c
      | Some i \<Rightarrow>
          and_then (case GetTransportInfo name d of
              None \<Rightarrow> Inr c
            | Some td \<Rightarrow> ice_call E i (\<lambda>ch. Inr (set_ice_params \<lparr>ice_ufrag = bytes_of (td_ice_ufrag td), ice_pwd = bytes_of (td_ice_pwd td)\<rparr> ch)) c) (\<lambda>c1.
            if tc_is_dtls c1 then
              let dtls = snd (SetLocalCertificate (tc_cert c1) (DtlsTransport (te_ciphers E)));
                  c2 = c1\<lparr>tc_ice_connected := True\<rparr>
              in case set_dtls_transports (te_srtp E) (view_of dtls) None (DtlsSrtpTransport name True) (tc_usage c2) of
                   (t, u) \<Rightarrow> Inr (AddPair \<lparr>tp_name = name, tp_channel = i, tp_dtls = dtls, tp_srtp = t\<rparr> (c2\<lparr>tc_usage := u\<rparr>))
            else Inr (c1\<lparr>tc_ice_connected := True, tc_plain := tc_plain c1 @ [i]\<rparr>)))"

definition SetLocalDescription ::
    "'s tc_env \<Rightarrow> (nat \<Rightarrow> (ip_addr \<times> u16 option) list) \<Rightarrow> session_desc \<Rightarrow> 's transport_controller \<Rightarrow> tc_fault + 's transport_controller" where
  "SetLocalDescription E networks d c =
     and_then (each (\<lambda>m c. and_then (skipped (mid m) d) (\<lambda>sk. if sk then Inr c else add_section E d m c)) (sd_contents d) c) (\<lambda>c1.
       each (\<lambda>i. ice_call E i (\<lambda>ch. Inr (GatheringCandidate (te_ice E) (networks i) ch))) [0..<length (ag_channels (tc_agent c1))] c1)"

definition remote_section :: "'s tc_env \<Rightarrow> int \<Rightarrow> session_desc \<Rightarrow> media_content \<Rightarrow> 's transport_controller \<Rightarrow> tc_fault + 's transport_controller" where
  "remote_section E now d m c =
     (case GetTransportInfo (mid m) d of
        None \<Rightarrow> Inr c
      | Some td \<Rightarrow>
          and_then (case GetChannel (mid m) RTP (tc_agent c) of
              None \<Rightarrow> Inr c
            | Some i \<Rightarrow> ice_call E i (set_remote_ice_params now \<lparr>ice_ufrag = bytes_of (td_ice_ufrag td), ice_pwd = bytes_of (td_ice_pwd td)\<rparr>) c) (\<lambda>c1.
            case find_pair (mid m) c1 of
              None \<Rightarrow> Inr c1
            | Some k \<Rightarrow> (case td_fingerprint td of
                  None \<Rightarrow> Inl NullFingerprint
                | Some fp \<Rightarrow> dtls_call E k (DtFingerprint (channel_env E (tp_channel (tc_transports c1 ! k)) c1) (fp_algorithm fp) (fp_digest fp)) c1)))"

definition SetRemoteDescription :: "'s tc_env \<Rightarrow> int \<Rightarrow> session_desc \<Rightarrow> 's transport_controller \<Rightarrow> tc_fault + 's transport_controller" where
  "SetRemoteDescription E now d c =
     each (\<lambda>m c. and_then (skipped (mid m) d) (\<lambda>sk. if sk then Inr c else remote_section E now d m c)) (sd_contents d) c"

subsection \<open>Sending\<close>

definition channel_send :: "'s tc_env \<Rightarrow> nat \<Rightarrow> bytes \<Rightarrow> 's transport_controller \<Rightarrow> tc_fault + 's transport_controller" where
  "channel_send E i buf c = ice_call E i (\<lambda>ch. and_then (SendPacket buf ch) (\<lambda>(_, ch1). Inr ch1)) c"

text \<open>The result's boolean is \<open>False\<close> where the code returns \<open>-1\<close>.\<close>

definition TcSendRtp :: "'s tc_env \<Rightarrow> string \<Rightarrow> bytes \<Rightarrow> 's transport_controller \<Rightarrow> tc_fault + bool \<times> 's transport_controller" where
  "TcSendRtp E name buf c =
     (if tc_is_dtls c then
        (case find_pair name c of
           None \<Rightarrow> Inr (False, c)
         | Some k \<Rightarrow> let p = tc_transports c ! k in
             and_then (fault_of TcSrtp (DsSendRtp (te_srtp E) buf (tp_srtp p))) (\<lambda>(r, t).
               let c1 = set_pair k (p\<lparr>tp_srtp := t\<rparr>) c in
               case r of
                 None \<Rightarrow> Inr (False, c1)
               | Some pkt \<Rightarrow> and_then (fault_of TcIce (SendPacket pkt (snd (ag_channels (tc_agent c1) ! tp_channel p)))) (\<lambda>(ok, _).
                   and_then (channel_send E (tp_channel p) pkt c1) (\<lambda>c2. Inr (ok, c2)))))
      else
        (case GetChannel name RTP (tc_agent c) of
           None \<Rightarrow> Inr (False, c)
         | Some i \<Rightarrow> and_then (channel_send E i buf c) (\<lambda>c1. Inr (False, c1))))"

definition TcSendRtcp :: "'s tc_env \<Rightarrow> string \<Rightarrow> bytes \<Rightarrow> 's transport_controller \<Rightarrow> tc_fault + bool \<times> 's transport_controller" where
  "TcSendRtcp E name buf c =
     (if tc_is_dtls c then
        (case find_pair name c of
           None \<Rightarrow> Inr (False, c)
         | Some k \<Rightarrow> let p = tc_transports c ! k in
             and_then (fault_of TcSrtp (DsSendRtcp (te_srtp E) buf (tp_srtp p))) (\<lambda>(r, t).
               let c1 = set_pair k (p\<lparr>tp_srtp := t\<rparr>) c in
               case r of
                 None \<Rightarrow> Inr (False, c1)
               | Some pkt \<Rightarrow> and_then (fault_of TcIce (SendPacket pkt (snd (ag_channels (tc_agent c1) ! tp_channel p)))) (\<lambda>(ok, _).
                   and_then (channel_send E (tp_channel p) pkt c1) (\<lambda>c2. Inr (ok, c2)))))
      else
        (case GetChannel name RTP (tc_agent c) of
           None \<Rightarrow> Inr (False, c)
         | Some i \<Rightarrow> and_then (channel_send E i buf c) (\<lambda>c1. Inr (False, c1))))"

subsection \<open>Destruction\<close>

text \<open>The transports go first, so what the agent still signals finds none.\<close>

definition delete_controller :: "int \<Rightarrow> 's transport_controller \<Rightarrow> agent_fault + 's transport_controller" where
  "delete_controller now c =
     (let c1 = c\<lparr>tc_transports := [],
             tc_usage := fold (\<lambda>p u. delete_held (st_recv (tp_srtp p)) (delete_held (st_send (tp_srtp p)) u)) (tc_transports c) (tc_usage c)\<rparr>;
          a = tc_agent c1
      in case delete_agent now a of
           Inl f \<Rightarrow> Inl f
         | Inr b \<Rightarrow> Inr (fold agent_signal (drop (length (ag_out a)) (ag_out b)) (c1\<lparr>tc_agent := b\<rparr>)))"

subsection \<open>The controller as a machine\<close>

datatype 's tc_event =
    TeLocal "'s tc_env" "nat \<Rightarrow> (ip_addr \<times> u16 option) list" session_desc
  | TeRemote "'s tc_env" int session_desc
  | TeChannel "'s tc_env" nat chan_event
  | TeAdapter "'s tc_env" nat dtls_event
  | TeSendRtp "'s tc_env" string bytes
  | TeSendRtcp "'s tc_env" string bytes

fun tc_step :: "'s tc_event \<Rightarrow> 's transport_controller \<Rightarrow> tc_fault + 's transport_controller" where
  "tc_step (TeLocal E networks d) c = SetLocalDescription E networks d c"
| "tc_step (TeRemote E now d) c = SetRemoteDescription E now d c"
| "tc_step (TeChannel E i e) c = ice_call E i (chan_step (te_ice E) e) c"
| "tc_step (TeAdapter E k e) c = dtls_call E k (DtAdapter e) c"
| "tc_step (TeSendRtp E name buf) c = and_then (TcSendRtp E name buf c) (\<lambda>(_, c1). Inr c1)"
| "tc_step (TeSendRtcp E name buf) c = and_then (TcSendRtcp E name buf c) (\<lambda>(_, c1). Inr c1)"

end
