(* ===== verification/TransportProps.thy ===== *)
theory TransportProps
  imports TransportController
begin

text \<open>
  The state a controller publishes: what it says of the transports, and that its signals follow
  it; and what the controller relies on in a remote description.
\<close>

subsection \<open>The aggregated state\<close>

lemma count_ice_states:
  "count_list is kNew + count_list is kChecking + count_list is kConnected + count_list is kCompleted + count_list is kFailed +
    count_list is kDisconnected + count_list is kClosed = length is"
proof (induction "is")
  case (Cons s "is")
  then show ?case by (cases s) simp_all
qed simp

lemma count_dtls_states:
  "count_list ds DkNew + count_list ds DkConnecting + count_list ds DkConnected + count_list ds DkClosed + count_list ds DkFailed = length ds"
proof (induction ds)
  case (Cons s ds)
  then show ?case by (cases s) simp_all
qed simp

lemma count_pos: "0 < count_list xs x \<longleftrightarrow> x \<in> set xs"
  by (metis count_list_0_iff gr0I less_not_refl)

lemma all_new_or_closed:
  "count_list is kNew + count_list is kClosed = length is \<longleftrightarrow> set is \<subseteq> {kNew, kClosed}"
  "count_list ds DkNew + count_list ds DkClosed = length ds \<longleftrightarrow> set ds \<subseteq> {DkNew, DkClosed}"
proof -
  have "count_list is kNew + count_list is kClosed = length is \<longleftrightarrow> (\<forall>s\<in>{kChecking, kConnected, kCompleted, kFailed, kDisconnected}. s \<notin> set is)"
    using count_ice_states[of "is"] by (auto simp: count_list_0_iff[symmetric])
  also have "\<dots> \<longleftrightarrow> set is \<subseteq> {kNew, kClosed}" by (auto, metis ice_state.exhaust)
  finally show "count_list is kNew + count_list is kClosed = length is \<longleftrightarrow> set is \<subseteq> {kNew, kClosed}" .
  have "count_list ds DkNew + count_list ds DkClosed = length ds \<longleftrightarrow> (\<forall>s\<in>{DkConnecting, DkConnected, DkFailed}. s \<notin> set ds)"
    using count_dtls_states[of ds] by (auto simp: count_list_0_iff[symmetric])
  also have "\<dots> \<longleftrightarrow> set ds \<subseteq> {DkNew, DkClosed}" by (auto, metis dtls_state.exhaust)
  finally show "count_list ds DkNew + count_list ds DkClosed = length ds \<longleftrightarrow> set ds \<subseteq> {DkNew, DkClosed}" .
qed

lemma pc_aggregate_cases_lemma:
  assumes "length is = length ds"
  shows "pc_aggregate ds is =
    (if kFailed \<in> set is \<or> DkFailed \<in> set ds then pc_kFailed
     else if kDisconnected \<in> set is then pc_kDisconnected
     else if set is \<subseteq> {kNew, kClosed} \<and> set ds \<subseteq> {DkNew, DkClosed} then pc_kNew
     else if kChecking \<in> set is \<or> DkConnecting \<in> set ds \<or> kNew \<in> set is \<or> DkNew \<in> set ds then pc_kConnecting
     else pc_kConnected)"
proof -
  note sums = count_ice_states[of "is"] count_dtls_states[of ds]
  have new: "count_list is kNew + count_list ds DkNew + (count_list is kClosed + count_list ds DkClosed) = length ds * 2 \<longleftrightarrow>
      set is \<subseteq> {kNew, kClosed} \<and> set ds \<subseteq> {DkNew, DkClosed}"
    unfolding all_new_or_closed[symmetric] using sums assms by linarith
  have failed: "0 < count_list is kFailed + count_list ds DkFailed \<longleftrightarrow> kFailed \<in> set is \<or> DkFailed \<in> set ds"
    by (simp add: count_pos[symmetric])
  have connecting: "0 < count_list is kChecking + count_list ds DkConnecting + (count_list is kNew + count_list ds DkNew) \<longleftrightarrow>
      kChecking \<in> set is \<or> DkConnecting \<in> set ds \<or> kNew \<in> set is \<or> DkNew \<in> set ds"
    by (auto simp: count_pos[symmetric])
  have connected: "count_list is kConnected + count_list ds DkConnected + count_list is kCompleted + (count_list is kClosed + count_list ds DkClosed) = length ds * 2"
    if "\<not> (0 < count_list is kFailed + count_list ds DkFailed)" "\<not> 0 < count_list is kDisconnected"
      "\<not> (0 < count_list is kChecking + count_list ds DkConnecting + (count_list is kNew + count_list ds DkNew))"
    using sums assms that by linarith
  show ?thesis
    using new failed connecting connected count_pos[of "is" kDisconnected] unfolding pc_aggregate_def Let_def by presburger
qed

text \<open>The counting of \<open>UpdateState\<close> decides by which states occur, and every combination is decided:
  the final \<open>kNew\<close> of the cascade is never reached.\<close>

theorem pc_aggregate_cases:
  assumes "length is = length ds"
  shows "pc_aggregate ds is =
    (if kFailed \<in> set is \<or> DkFailed \<in> set ds then pc_kFailed
     else if kDisconnected \<in> set is then pc_kDisconnected
     else if set is \<subseteq> {kNew, kClosed} \<and> set ds \<subseteq> {DkNew, DkClosed} then pc_kNew
     else if kChecking \<in> set is \<or> DkConnecting \<in> set ds \<or> kNew \<in> set is \<or> DkNew \<in> set ds then pc_kConnecting
     else pc_kConnected)"
  using pc_aggregate_cases_lemma[OF assms] .

text \<open>A DTLS transport that the peer has closed still counts as connected while ICE is up.\<close>

theorem closed_dtls_reported_connected:
  assumes "set is \<subseteq> {kConnected, kCompleted}" "set ds \<subseteq> {DkClosed}" "length is = length ds" "ds \<noteq> []"
  shows "pc_aggregate ds is = pc_kConnected"
proof -
  have "is \<noteq> []" using assms(3,4) by auto
  then have "\<not> set is \<subseteq> {kNew, kClosed}" using assms(1) by (cases "is") auto
  moreover have "kFailed \<notin> set is" "DkFailed \<notin> set ds" "kDisconnected \<notin> set is" "kChecking \<notin> set is" "DkConnecting \<notin> set ds"
    "kNew \<notin> set is" "DkNew \<notin> set ds" using assms(1,2) by auto
  ultimately show ?thesis using pc_aggregate_cases_lemma[OF assms(3)] by simp
qed

subsection \<open>The state signals of the controller\<close>

fun pc_signals :: "tc_out list \<Rightarrow> pc_state list" where
  "pc_signals [] = []"
| "pc_signals (TcState s # es) = s # pc_signals es"
| "pc_signals (_ # es) = pc_signals es"

lemma pc_signals_append [simp]: "pc_signals (es @ fs) = pc_signals es @ pc_signals fs"
  by (induction es rule: pc_signals.induct) auto

definition tc_announces :: "'s transport_controller \<Rightarrow> bool" where
  "tc_announces c \<longleftrightarrow> distinct_adj (pc_kNew # pc_signals (tc_out c)) \<and> last (pc_kNew # pc_signals (tc_out c)) = tc_state c"

text \<open>\<open>tc_keeps c c'\<close>: what every step but a local description leaves alone.\<close>

definition tc_keeps :: "'s transport_controller \<Rightarrow> 's transport_controller \<Rightarrow> bool" where
  "tc_keeps c c' \<longleftrightarrow> (tc_announces c \<longrightarrow> tc_announces c') \<and> map tp_name (tc_transports c') = map tp_name (tc_transports c) \<and>
     map tp_channel (tc_transports c') = map tp_channel (tc_transports c) \<and> tc_is_dtls c' = tc_is_dtls c"

lemma tc_keeps_refl [simp]: "tc_keeps c c"
  by (simp add: tc_keeps_def)

lemma tc_keeps_trans: "tc_keeps c c' \<Longrightarrow> tc_keeps c' c'' \<Longrightarrow> tc_keeps c c''"
  by (simp add: tc_keeps_def)

lemma tc_keeps_frame: "tc_out c' = tc_out c \<Longrightarrow> tc_state c' = tc_state c \<Longrightarrow> tc_transports c' = tc_transports c \<Longrightarrow>
    tc_is_dtls c' = tc_is_dtls c \<Longrightarrow> tc_keeps c c'"
  by (simp add: tc_keeps_def tc_announces_def)

lemma tc_keeps_emit: "pc_signals [e] = [] \<Longrightarrow> tc_keeps c (tc_emit e c)"
  by (simp add: tc_keeps_def tc_announces_def tc_emit_def)

lemma tc_keeps_set_state: "tc_keeps c (tc_set_state s c)"
  using distinct_adj_snoc[of pc_kNew "pc_signals (tc_out c)" s]
  by (auto simp: tc_keeps_def tc_announces_def tc_set_state_def tc_emit_def split: if_splits)

lemma map_same: "f p = f (xs ! k) \<Longrightarrow> map f (xs[k := p]) = map f xs"
  by (cases "k < length xs") (simp_all add: map_update list_update_same_conv not_less list_update_beyond)

lemma tc_keeps_set_pair:
  "tp_name p = tp_name (tc_transports c ! k) \<Longrightarrow> tp_channel p = tp_channel (tc_transports c ! k) \<Longrightarrow> tc_keeps c (set_pair k p c)"
  by (simp add: tc_keeps_def tc_announces_def set_pair_def map_same)

lemma tc_keeps_update: "tc_keeps c (TcUpdateState c)"
  by (simp add: TcUpdateState_def tc_keeps_set_state)

lemma tc_keeps_ice_state: "tc_keeps c (TcOnIceState s c)"
  by (simp add: TcOnIceState_def tc_keeps_update tc_keeps_set_state)

lemma tc_keeps_read: "tc_keeps c (TcOnReadPacket buf ts c)"
  by (cases "InferRtpPacketType buf") (simp_all add: TcOnReadPacket_def tc_keeps_emit)

lemma tc_keeps_each:
  assumes "\<And>x c c'. f x c = Inr c' \<Longrightarrow> tc_keeps c c'" "each f xs c = Inr c'"
  shows "tc_keeps c c'"
  using assms(2)
proof (induction xs arbitrary: c)
  case (Cons x xs)
  then show ?case by (auto simp: and_then_Inr intro: tc_keeps_trans[OF assms(1)])
qed simp

lemma tc_keeps_fold: "(\<And>x c. tc_keeps c (f x c)) \<Longrightarrow> tc_keeps c (fold f xs c)"
  by (induction xs arbitrary: c) (auto intro: tc_keeps_trans)

lemma tp_nth: "map tp_name ts' = map tp_name ts \<Longrightarrow> map tp_channel ts' = map tp_channel ts \<Longrightarrow> k < length ts \<Longrightarrow>
    tp_name (ts' ! k) = tp_name (ts ! k) \<and> tp_channel (ts' ! k) = tp_channel (ts ! k)"
  by (metis length_map nth_map)

lemma tc_keeps_dtls_signal: "TcOnDtlsSignal E k e c = Inr c' \<Longrightarrow> tc_keeps c c'"
proof (cases e)
  case (OutDtlsState v)
  let ?p = "tc_transports c ! k"
  let ?c0 = "set_pair k (?p\<lparr>tp_dtls := (tp_dtls ?p)\<lparr>dt_state := vw_state v\<rparr>\<rparr>) c"
  let ?c1 = "TcUpdateState ?c0"
  assume "TcOnDtlsSignal E k e c = Inr c'"
  moreover obtain t u where "DsOnDtlsState (te_srtp E) v (tp_srtp (tc_transports ?c1 ! k)) (tc_usage ?c1) = (t, u)"
    by (cases "DsOnDtlsState (te_srtp E) v (tp_srtp (tc_transports ?c1 ! k)) (tc_usage ?c1)")
  ultimately have c': "c' = set_pair k ((tc_transports ?c1 ! k)\<lparr>tp_srtp := t\<rparr>) (?c1\<lparr>tc_usage := u\<rparr>)"
    by (simp add: OutDtlsState Let_def)
  have "tc_keeps c ?c1" by (rule tc_keeps_trans[OF tc_keeps_set_pair tc_keeps_update]) simp_all
  moreover have "tc_keeps ?c1 (?c1\<lparr>tc_usage := u\<rparr>)" by (simp add: tc_keeps_frame)
  moreover have "tc_keeps (?c1\<lparr>tc_usage := u\<rparr>) c'" unfolding c' by (rule tc_keeps_set_pair) simp_all
  ultimately show ?thesis using tc_keeps_trans by blast
next
  case (OutDtlsPacket buf ts)
  assume "TcOnDtlsSignal E k e c = Inr c'"
  then obtain t where c': "c' = set_pair k ((tc_transports c ! k)\<lparr>tp_srtp := t\<rparr>) (c\<lparr>tc_out := tc_out c @ srtp_up (tp_srtp (tc_transports c ! k)) t\<rparr>)"
    by (auto simp: OutDtlsPacket Let_def and_then_Inr)
  have "pc_signals (srtp_up t0 t) = []" for t0 :: "'a dtls_srtp"
  proof -
    have "pc_signals (map (\<lambda>(rtcp, p, ts). if rtcp then TcRtcp p ts else TcRtp p ts) es) = []" for es
      by (induction es) auto
    then show ?thesis by (simp add: srtp_up_def)
  qed
  then have "tc_keeps c (c\<lparr>tc_out := tc_out c @ srtp_up (tp_srtp (tc_transports c ! k)) t\<rparr>)" by (simp add: tc_keeps_def tc_announces_def)
  moreover have "tc_keeps (c\<lparr>tc_out := tc_out c @ srtp_up (tp_srtp (tc_transports c ! k)) t\<rparr>) c'" unfolding c' by (rule tc_keeps_set_pair) simp_all
  ultimately show ?thesis using tc_keeps_trans by blast
qed (auto simp: tc_keeps_update)

lemma tc_keeps_dtls_call: "dtls_call E k e c = Inr c' \<Longrightarrow> tc_keeps c c'"
proof -
  assume "dtls_call E k e c = Inr c'"
  then obtain d1 where d: "each (TcOnDtlsSignal E k) (drop (length (dt_out (tp_dtls (tc_transports c ! k)))) (dt_out d1))
      (set_pair k ((tc_transports c ! k)\<lparr>tp_dtls := d1\<lparr>dt_state := dt_state (tp_dtls (tc_transports c ! k))\<rparr>\<rparr>) c) = Inr c'"
    by (auto simp: dtls_call_def Let_def and_then_Inr)
  show ?thesis by (rule tc_keeps_trans[OF tc_keeps_set_pair tc_keeps_each[OF tc_keeps_dtls_signal d]]) simp_all
qed

lemma tc_keeps_to_agent: "tc_keeps c (to_agent i e c)"
proof -
  have "tc_keeps c (agent_signal s c)" for s and c :: "'a transport_controller"
    by (cases s) (auto simp: tc_keeps_ice_state tc_keeps_emit)
  then show ?thesis unfolding to_agent_def Let_def
    by (intro tc_keeps_trans[OF tc_keeps_frame tc_keeps_fold]) simp_all
qed

lemma tc_keeps_ice_out: "OnIceOut E i e c = Inr c' \<Longrightarrow> tc_keeps c c'"
proof -
  let ?c = "to_agent i e c"
  assume "OnIceOut E i e c = Inr c'"
  then obtain c1 where c1: "(case dtls_event_of E i e ?c of None \<Rightarrow> Inr ?c | Some ev \<Rightarrow> each (\<lambda>k. dtls_call E k ev) (pairs_on i ?c) ?c) = Inr c1"
    "c' = (case e of OutData buf \<Rightarrow> fold (\<lambda>_. TcOnReadPacket buf (te_ts E)) (filter (\<lambda>j. j = i) (tc_plain c1)) c1 | _ \<Rightarrow> c1)"
    by (auto simp: OnIceOut_def Let_def and_then_Inr)
  have "tc_keeps ?c c1" using c1(1) tc_keeps_each[OF tc_keeps_dtls_call] by (auto split: option.splits)
  moreover have "tc_keeps c1 c'" unfolding c1(2) by (auto split: ice_out.splits intro: tc_keeps_fold tc_keeps_read)
  ultimately show ?thesis using tc_keeps_to_agent tc_keeps_trans by blast
qed

lemma tc_keeps_ice_call: "ice_call E i f c = Inr c' \<Longrightarrow> tc_keeps c c'"
proof -
  assume "ice_call E i f c = Inr c'"
  then obtain d c1 where c1: "each (OnIceOut E i) (emitted (snd (ag_channels (tc_agent c) ! i)) d) c = Inr c1"
    "c' = c1\<lparr>tc_agent := set_channel i d (tc_agent c1)\<rparr>"
    by (auto simp: ice_call_def Let_def and_then_Inr)
  have "tc_keeps c1 c'" unfolding c1(2) by (rule tc_keeps_frame) simp_all
  then show ?thesis using tc_keeps_each[OF _ c1(1)] tc_keeps_ice_out tc_keeps_trans by blast
qed

lemma tc_keeps_remote_section: "remote_section E now d m c = Inr c' \<Longrightarrow> tc_keeps c c'"
  by (auto simp: remote_section_def and_then_Inr split: option.splits intro: tc_keeps_trans dest!: tc_keeps_ice_call tc_keeps_dtls_call)

lemma tc_keeps_from_pair: "tc_keeps (set_pair k ((tc_transports c ! k)\<lparr>tp_srtp := t\<rparr>) c) c' \<Longrightarrow> tc_keeps c c'"
  using tc_keeps_trans[OF tc_keeps_set_pair[of "(tc_transports c ! k)\<lparr>tp_srtp := t\<rparr>"]] by simp

lemma tc_keeps_send: "TcSendRtp E name buf c = Inr (ok, c') \<Longrightarrow> tc_keeps c c'" "TcSendRtcp E name buf c = Inr (ok, c') \<Longrightarrow> tc_keeps c c'"
  by (auto simp: TcSendRtp_def TcSendRtcp_def channel_send_def and_then_Inr Let_def split: if_splits option.splits
      intro: tc_keeps_from_pair tc_keeps_set_pair dest!: tc_keeps_ice_call)

subsection \<open>Every step\<close>

lemma announces_add_pair: "tc_announces c \<Longrightarrow> tc_announces (AddPair p c)"
  by (auto simp: AddPair_def tc_announces_def set_pair_def Let_def split: option.split)

lemma announces_tc_frame: "tc_out c' = tc_out c \<Longrightarrow> tc_state c' = tc_state c \<Longrightarrow> tc_announces c \<Longrightarrow> tc_announces c'"
  by (simp add: tc_announces_def)

lemma keeps_announces: "tc_keeps c c' \<Longrightarrow> tc_announces c \<Longrightarrow> tc_announces c'"
  by (simp add: tc_keeps_def)

lemma announces_add_section:
  assumes "add_section E d m c0 = Inr c'" "tc_announces c0"
  shows "tc_announces c'"
proof -
  let ?c = "c0\<lparr>tc_agent := CreateChannel (mid m) RTP (tc_agent c0)\<rparr>"
  have a: "tc_announces ?c" using assms(2) by (simp add: tc_announces_def)
  show ?thesis
  proof (cases "GetChannel (mid m) RTP (tc_agent ?c)")
    case None
    then show ?thesis using assms(1) a by (simp add: add_section_def Let_def)
  next
    case (Some i)
    then obtain c1 where c1: "tc_announces c1" "(if tc_is_dtls c1 then
          let dtls = snd (SetLocalCertificate (tc_cert c1) (DtlsTransport (te_ciphers E))); c2 = c1\<lparr>tc_ice_connected := True\<rparr>
          in case set_dtls_transports (te_srtp E) (view_of dtls) None (DtlsSrtpTransport (mid m) True) (tc_usage c2) of
               (t, u) \<Rightarrow> Inr (AddPair \<lparr>tp_name = mid m, tp_channel = i, tp_dtls = dtls, tp_srtp = t\<rparr> (c2\<lparr>tc_usage := u\<rparr>))
        else Inr (c1\<lparr>tc_ice_connected := True, tc_plain := tc_plain c1 @ [i]\<rparr>)) = (Inr c' :: tc_fault + 'a transport_controller)"
      using assms(1) a by (auto simp: add_section_def Let_def and_then_Inr split: option.splits dest!: tc_keeps_ice_call keeps_announces)
    have f: "tc_announces (c1\<lparr>tc_ice_connected := True, tc_usage := u\<rparr>)" "tc_announces (c1\<lparr>tc_ice_connected := True, tc_plain := is\<rparr>)" for u "is"
      using c1(1) by (simp_all add: tc_announces_def)
    show ?thesis
    proof (cases "tc_is_dtls c1")
      case True
      let ?dtls = "snd (SetLocalCertificate (tc_cert c1) (DtlsTransport (te_ciphers E)))"
      obtain t u where "set_dtls_transports (te_srtp E) (view_of ?dtls) None (DtlsSrtpTransport (mid m) True) (tc_usage c1) = (t, u)"
        by (cases "set_dtls_transports (te_srtp E) (view_of ?dtls) None (DtlsSrtpTransport (mid m) True) (tc_usage c1)")
      then have "c' = AddPair \<lparr>tp_name = mid m, tp_channel = i, tp_dtls = ?dtls, tp_srtp = t\<rparr> (c1\<lparr>tc_ice_connected := True, tc_usage := u\<rparr>)"
        using c1(2) True by (simp add: Let_def)
      then show ?thesis using announces_add_pair[OF f(1)] by simp
    next
      case False
      then show ?thesis using c1(2) f(2) by auto
    qed
  qed
qed

lemma each_announces:
  assumes "\<And>x c c'. f x c = Inr c' \<Longrightarrow> tc_announces c \<Longrightarrow> tc_announces c'" "each f xs c = Inr c'" "tc_announces c"
  shows "tc_announces c'"
  using assms(2,3) by (induction xs arbitrary: c) (auto simp: and_then_Inr dest: assms(1))

lemma tc_step_announces:
  assumes "tc_step e c = Inr c'" "tc_announces c"
  shows "tc_announces c'"
proof (cases e)
  case (TeLocal E networks d)
  then obtain c1 where c1: "each (\<lambda>m c. and_then (skipped (mid m) d) (\<lambda>sk. if sk then Inr c else add_section E d m c)) (sd_contents d) c = Inr c1"
    "each (\<lambda>i. ice_call E i (\<lambda>ch. Inr (GatheringCandidate (te_ice E) (networks i) ch))) [0..<length (ag_channels (tc_agent c1))] c1 = Inr c'"
    using assms(1) by (auto simp: SetLocalDescription_def and_then_Inr)
  have "tc_announces c1" by (rule each_announces[OF _ c1(1) assms(2)]) (auto simp: and_then_Inr split: if_splits dest: announces_add_section)
  then show ?thesis using each_announces[OF _ c1(2)] tc_keeps_ice_call keeps_announces by blast
next
  case (TeRemote E now d)
  then have r: "each (\<lambda>m c. and_then (skipped (mid m) d) (\<lambda>sk. if sk then Inr c else remote_section E now d m c)) (sd_contents d) c = Inr c'"
    using assms(1) by (simp add: SetRemoteDescription_def)
  show ?thesis by (rule each_announces[OF _ r assms(2)])
      (auto simp: and_then_Inr split: if_splits dest: keeps_announces[OF tc_keeps_remote_section])
next
  case (TeChannel E i ev)
  then show ?thesis using assms tc_keeps_ice_call keeps_announces by fastforce
next
  case (TeAdapter E k ev)
  then show ?thesis using assms tc_keeps_dtls_call keeps_announces by fastforce
next
  case (TeSendRtp E name buf)
  then show ?thesis using assms tc_keeps_send(1) keeps_announces by (fastforce simp: and_then_Inr)
next
  case (TeSendRtcp E name buf)
  then show ?thesis using assms tc_keeps_send(2) keeps_announces by (fastforce simp: and_then_Inr)
qed

inductive tc_reachable :: "'s transport_controller \<Rightarrow> bool" where
  tc_init: "tc_reachable ((TransportController u)\<lparr>tc_cert := cert, tc_is_dtls := b\<rparr>)"
| tc_next: "tc_reachable c \<Longrightarrow> tc_step e c = Inr c' \<Longrightarrow> tc_reachable c'"

lemma tc_reachable_announces: "tc_reachable c \<Longrightarrow> tc_announces c"
proof (induction rule: tc_reachable.induct)
  case (tc_init u cert b)
  then show ?case by (simp add: tc_announces_def TransportController_def)
qed (use tc_step_announces in blast)

text \<open>C23: Whatever descriptions, packets and handshakes come, the connection states a controller signals
  never repeat and end in its current one.\<close>

theorem controller_signals_follow_state:
  assumes "tc_reachable c"
  shows "distinct_adj (pc_kNew # pc_signals (tc_out c)) \<and> last (pc_kNew # pc_signals (tc_out c)) = tc_state c"
  using tc_reachable_announces[OF assms] unfolding tc_announces_def .

subsection \<open>The remote description\<close>

lemma find_pair_names: "find_pair name c \<noteq> None \<longleftrightarrow> name \<in> set (map tp_name (tc_transports c))"
  unfolding find_pair_def list.set_map by (auto simp: find_None_iff image_iff in_set_conv_nth) (metis nth_mem)

text \<open>
  C25: an answer is only applied when each of its media sections that runs on a DTLS transport has a
  fingerprint; otherwise the call stops with a fault, and if nothing else is wrong it is the null pointer.
\<close>

theorem answer_needs_fingerprint:
  assumes "SetRemoteDescription E now d c = Inr c'" "m \<in> set (sd_contents d)" "skipped (mid m) d = Inr False"
    and "GetTransportInfo (mid m) d = Some td" "mid m \<in> set (map tp_name (tc_transports c))"
  shows "td_fingerprint td \<noteq> None"
proof -
  have "\<exists>c1 c2. map tp_name (tc_transports c1) = map tp_name (tc_transports c) \<and> remote_section E now d m c1 = Inr c2"
    if "each (\<lambda>m c. and_then (skipped (mid m) d) (\<lambda>sk. if sk then Inr c else remote_section E now d m c)) ms x = Inr y" "m \<in> set ms"
      "map tp_name (tc_transports x) = map tp_name (tc_transports c)" for ms x y
    using that
  proof (induction ms arbitrary: x)
    case (Cons n ms)
    then obtain z where z: "and_then (skipped (mid n) d) (\<lambda>sk. if sk then Inr x else remote_section E now d n x) = Inr z"
      "each (\<lambda>m c. and_then (skipped (mid m) d) (\<lambda>sk. if sk then Inr c else remote_section E now d m c)) ms z = Inr y"
      by (auto simp: and_then_Inr)
    have "tc_keeps x z" using z(1) tc_keeps_remote_section by (auto simp: and_then_Inr split: if_splits)
    then show ?case using Cons z assms(3) by (cases "n = m") (auto simp: tc_keeps_def and_then_Inr)
  qed simp
  then obtain c1 c2 where r: "map tp_name (tc_transports c1) = map tp_name (tc_transports c)" "remote_section E now d m c1 = Inr c2"
    using assms(1,2) unfolding SetRemoteDescription_def by blast
  have names: "tc_keeps c1 c3 \<Longrightarrow> find_pair (mid m) c3 \<noteq> None" for c3
    using r(1) assms(5) find_pair_names[of "mid m" c3] by (simp add: tc_keeps_def)
  have "and_then (case GetChannel (mid m) RTP (tc_agent c1) of None \<Rightarrow> Inr c1
      | Some i \<Rightarrow> ice_call E i (set_remote_ice_params now \<lparr>ice_ufrag = bytes_of (td_ice_ufrag td), ice_pwd = bytes_of (td_ice_pwd td)\<rparr>) c1) (\<lambda>c3. (case find_pair (mid m) c3 of None \<Rightarrow> Inr c3
      | Some k \<Rightarrow> (case td_fingerprint td of None \<Rightarrow> Inl NullFingerprint
          | Some fp \<Rightarrow> dtls_call E k (DtFingerprint (channel_env E (tp_channel (tc_transports c3 ! k)) c3) (fp_algorithm fp) (fp_digest fp)) c3))) = Inr c2"
    using r(2) assms(4) by (simp add: remote_section_def)
  then obtain c3 where c3: "(case GetChannel (mid m) RTP (tc_agent c1) of None \<Rightarrow> Inr c1
      | Some i \<Rightarrow> ice_call E i (set_remote_ice_params now \<lparr>ice_ufrag = bytes_of (td_ice_ufrag td), ice_pwd = bytes_of (td_ice_pwd td)\<rparr>) c1) = Inr c3" "(case find_pair (mid m) c3 of None \<Rightarrow> Inr c3
      | Some k \<Rightarrow> (case td_fingerprint td of None \<Rightarrow> Inl NullFingerprint
          | Some fp \<Rightarrow> dtls_call E k (DtFingerprint (channel_env E (tp_channel (tc_transports c3 ! k)) c3) (fp_algorithm fp) (fp_digest fp)) c3)) = Inr c2"
    unfolding and_then_Inr by blast
  have "tc_keeps c1 c3" using c3(1) by (auto split: option.splits dest: tc_keeps_ice_call)
  then obtain k where "find_pair (mid m) c3 = Some k" using names[of c3] by auto
  then show ?thesis using c3(2) by (auto split: option.splits)
qed

subsection \<open>A run\<close>

definition demo_te :: "bytes tc_env" where
  "demo_te = \<lparr>te_ice = demo_ice, te_ssl = demo_ssl False, te_srtp = demo_srtp, te_ciphers = [1], te_ts = 5\<rparr>"

definition demo_sections :: "session_desc" where
  "demo_sections = (SessionDescription kAnswer)\<lparr>sd_contents := [AudioContentDescription kSendRecv],
     sd_transports := [\<lparr>td_mid = ''audio'', td_ice_ufrag = ''abcd'', td_ice_pwd = ''secret'',
       td_fingerprint = Some \<lparr>fp_algorithm = ''sha-256'', fp_digest = [9]\<rparr>, td_role = ACTIVE\<rparr>]\<rparr>"

definition demo_new_controller :: "bytes transport_controller" where
  "demo_new_controller = (TransportController (0, False))\<lparr>tc_cert := Some 7, tc_is_dtls := True\<rparr>"

definition demo_fresh :: dtls_transport where
  "demo_fresh = snd (SetLocalCertificate (Some 7) (DtlsTransport [1]))"

definition demo_controller :: "bytes transport_controller" where
  "demo_controller = demo_new_controller\<lparr>
     tc_agent := IceAgent\<lparr>ag_channels := [(''audio'', set_ice_params \<lparr>ice_ufrag = bytes_of ''abcd'', ice_pwd = bytes_of ''secret''\<rparr> (IceTransportChannel RTP))]\<rparr>,
     tc_transports := [\<lparr>tp_name = ''audio'', tp_channel = 0, tp_dtls = demo_fresh, tp_srtp = (DtlsSrtpTransport ''audio'' True)\<lparr>ds_rtcp_writable := None\<rparr>\<rparr>],
     tc_ice_connected := True\<rparr>"

lemma demo_sections_eval:
  "sd_contents demo_sections = [AudioContentDescription kSendRecv]" "skipped ''audio'' demo_sections = Inr False"
  "GetTransportInfo ''audio'' demo_sections = Some \<lparr>td_mid = ''audio'', td_ice_ufrag = ''abcd'', td_ice_pwd = ''secret'',
       td_fingerprint = Some \<lparr>fp_algorithm = ''sha-256'', fp_digest = [9]\<rparr>, td_role = ACTIVE\<rparr>"
  by (simp_all add: demo_sections_def SessionDescription_def skipped_def IsBundle_def GetGroupByName_def GetTransportInfo_def)

lemmas demo_eval = demo_te_def demo_new_controller_def TransportController_def IceAgent_def AudioContentDescription_def GetChannel_def
  ice_call_def Let_def emitted_def set_ice_params_def IceTransportChannel_def find_pair_def set_channel_def demo_sections_eval

lemmas demo_dtls_eval = demo_fresh_def SetLocalCertificate_def DtlsTransport_def DtlsSrtpTransport_def view_of_def

lemma demo_local: "tc_step (TeLocal demo_te (\<lambda>_. []) demo_sections) demo_new_controller = Inr demo_controller"
  by (simp add: demo_eval demo_dtls_eval SetLocalDescription_def add_section_def CreateChannel_def GatheringCandidate_def demo_controller_def
      AddPair_def set_dtls_transports_def MaybeSetupDtlsSrtp_def IsDtlsWritable_def IsSrtpActive_def)

lemma demo_controller_reachable: "tc_reachable demo_controller"
  by (rule tc_next[OF tc_init demo_local[unfolded demo_new_controller_def]])

theorem controller_signals_follow_state_witness:
  "distinct_adj (pc_kNew # pc_signals (tc_out demo_controller)) \<and> last (pc_kNew # pc_signals (tc_out demo_controller)) = tc_state demo_controller"
  by (rule controller_signals_follow_state[OF demo_controller_reachable])

lemma fresh_channel_update:
  assumes "ct_connections c = []" "ch_selected c = None" "\<not> ch_writable c" "\<not> ch_receiving c" "ch_state c = kNew"
    "\<not> ch_had_connection c" "\<not> ch_has_been_connection c"
  shows "set_remote_ice_params now ps c = Inr (c\<lparr>ch_remote_params := ps\<rparr>)"
proof -
  have "c\<lparr>ch_remote_params := ps, ct_connections := []\<rparr> = c\<lparr>ch_remote_params := ps\<rparr>" using assms(1) by simp
  then show ?thesis using assms by (simp add: set_remote_ice_params_def SortConnectionsAndUpdateState_def SortAndSwitchConnection_def stable_sort_def MaybeSwitchSelectedConnection_def
      UpdateState_def selected_writable_def set_writable_def set_receiving_def ComputeIceTransportState_def MaybeStartPinging_def HasPingableConnection_def Let_def)
qed

text \<open>The remote description starts the handshake.\<close>

lemma demo_ice: "ice_call demo_te 0 (set_remote_ice_params 0 ps) demo_controller = Inr (demo_controller\<lparr>tc_agent :=
    set_channel 0 ((snd (ag_channels (tc_agent demo_controller) ! 0))\<lparr>ch_remote_params := ps\<rparr>) (tc_agent demo_controller)\<rparr>)"
  by (simp add: demo_controller_def demo_eval fresh_channel_update)

lemma demo_channel: "GetChannel ''audio'' RTP (tc_agent demo_controller) = Some 0"
  by (simp add: demo_controller_def demo_eval)

lemma demo_remote: "\<exists>c. SetRemoteDescription demo_te 0 demo_sections demo_controller = Inr c"
  by (simp add: SetRemoteDescription_def demo_sections_eval AudioContentDescription_def remote_section_def demo_ice demo_channel)
    (simp add: demo_controller_def demo_eval demo_dtls_eval dtls_call_def channel_env_def SetRemoteFingerprint_def
      SetupDtls_def MaybeStartDtls_def demo_ssl_def set_dtls_state_def dt_emit_def set_pair_def TcUpdateState_def tc_set_state_def tc_emit_def
      DsOnDtlsState_def ResetParams_def delete_held_def)

lemma demo_names: "''audio'' \<in> set (map tp_name (tc_transports demo_controller))"
  by (simp add: demo_controller_def)

theorem answer_needs_fingerprint_witness: "td_fingerprint (the (GetTransportInfo ''audio'' demo_sections)) \<noteq> None"
proof -
  obtain c where "SetRemoteDescription demo_te 0 demo_sections demo_controller = Inr c" using demo_remote by auto
  then show ?thesis
    by (rule answer_needs_fingerprint[where m = "AudioContentDescription kSendRecv"])
      (use demo_names in \<open>simp_all add: demo_sections_eval AudioContentDescription_def\<close>)
qed

theorem pc_aggregate_cases_witness: "pc_aggregate [DkNew] [kChecking] = pc_kConnecting"
  using pc_aggregate_cases[of "[kChecking]" "[DkNew]"] by simp

theorem closed_dtls_reported_connected_witness: "pc_aggregate [DkClosed] [kCompleted] = pc_kConnected"
  using closed_dtls_reported_connected[of "[kCompleted]" "[DkClosed]"] by simp

end
