(* ===== verification/SdpAnswer.thy ===== *)
theory SdpAnswer
  imports SessionDescription "HOL-Library.Sublist"
begin

text \<open>
  The parser of a remote description in \<open>peer_connection.cpp\<close>: \<open>SetRemoteSdp\<close> up to the point
  where the description is handed on. The string helpers of libwebrtc are the parameter \<open>sdp_text\<close>.
\<close>

record sdp_text =
  st_tokenize :: "string \<Rightarrow> char \<Rightarrow> string list"
  st_split :: "string \<Rightarrow> char \<Rightarrow> string list"
  st_tokenize_first :: "string \<Rightarrow> char \<Rightarrow> (string \<times> string) option"
  st_u32 :: "string \<Rightarrow> u32 option"
  st_fingerprint :: "string \<Rightarrow> string \<Rightarrow> fingerprint option"

text \<open>\<open>Rejected\<close>: the code returns \<open>-1\<close>. \<open>OutOfRange\<close>: \<open>substr\<close> throws and nothing catches it.\<close>

datatype sdp_stop = Rejected | OutOfRange

text \<open>\<open>std::string::find\<close> of a text other than \<open>npos\<close>, and \<open>substr\<close> from a position to the end.\<close>

fun contains :: "string \<Rightarrow> string \<Rightarrow> bool" where
  "contains p [] = (p = [])"
| "contains p (c # s) = (prefix p (c # s) \<or> contains p s)"

definition substr :: "nat \<Rightarrow> string \<Rightarrow> sdp_stop + string" where
  "substr n s = (if length s < n then Inl OutOfRange else Inr (drop n s))"

definition to_lower :: "char \<Rightarrow> char" where
  "to_lower c = (let n = of_char c :: nat in if 65 \<le> n \<and> n \<le> 90 then char_of (n + 32) else c)"

subsection \<open>Lines\<close>

definition GetAttributeText :: "sdp_text \<Rightarrow> string \<Rightarrow> string" where
  "GetAttributeText X line = (case st_tokenize X line CHR '':'' of [_, v] \<Rightarrow> v | _ \<Rightarrow> [])"

definition ParseTransportInfo :: "sdp_text \<Rightarrow> string \<Rightarrow> transport_desc \<Rightarrow> sdp_stop + transport_desc" where
  "ParseTransportInfo X line td =
     (if contains ''a=ice-ufrag'' line then
        let v = GetAttributeText X line in if v = [] then Inl Rejected else Inr (td\<lparr>td_ice_ufrag := v\<rparr>)
      else if contains ''a=ice-pwd'' line then
        let v = GetAttributeText X line in if v = [] then Inl Rejected else Inr (td\<lparr>td_ice_pwd := v\<rparr>)
      else if contains ''a=fingerprint'' line then
        (case st_tokenize X line CHR '' '' of
           [item, content] \<Rightarrow>
             and_then (substr 14 item) (\<lambda>alg.
               case st_fingerprint X (map to_lower alg) content of
                 None \<Rightarrow> Inl Rejected
               | Some fp \<Rightarrow> Inr (td\<lparr>td_fingerprint := Some fp\<rparr>))
         | _ \<Rightarrow> Inl Rejected)
      else Inr td)"

record ssrc_info =
  si_ssrc_id :: u32
  si_cname :: string
  si_stream_id :: string
  si_track_id :: string

text \<open>The entry of a source, added at the end when there is none yet.\<close>

fun with_ssrc :: "u32 \<Rightarrow> (ssrc_info \<Rightarrow> ssrc_info) \<Rightarrow> ssrc_info list \<Rightarrow> ssrc_info list" where
  "with_ssrc ssrc f [] = [f \<lparr>si_ssrc_id = ssrc, si_cname = [], si_stream_id = [], si_track_id = []\<rparr>]"
| "with_ssrc ssrc f (i # is) = (if si_ssrc_id i = ssrc then f i # is else i # with_ssrc ssrc f is)"

definition ParseSsrcInfo :: "sdp_text \<Rightarrow> string \<Rightarrow> ssrc_info list \<Rightarrow> sdp_stop + ssrc_info list" where
  "ParseSsrcInfo X line infos =
     (if \<not> contains ''a=ssrc:'' line then Inr infos
      else and_then (substr 2 line) (\<lambda>rest.
        case st_tokenize_first X rest CHR '' '' of
          None \<Rightarrow> Inl Rejected
        | Some (field1, field2) \<Rightarrow> and_then (substr 5 field1) (\<lambda>ssrc_id_s.
            case st_u32 X ssrc_id_s of
              None \<Rightarrow> Inl Rejected
            | Some ssrc \<Rightarrow>
                (case st_tokenize_first X field2 CHR '':'' of
                   None \<Rightarrow> Inl Rejected
                 | Some (attribute, v) \<Rightarrow>
                     if attribute = ''cname'' then Inr (with_ssrc ssrc (\<lambda>i. i\<lparr>si_cname := v\<rparr>) infos)
                     else if attribute = ''msid'' then
                       (case st_split X v CHR '' '' of
                          [s] \<Rightarrow> Inr (with_ssrc ssrc (\<lambda>i. i\<lparr>si_stream_id := s\<rparr>) infos)
                        | [s, t] \<Rightarrow> Inr (with_ssrc ssrc (\<lambda>i. i\<lparr>si_stream_id := s, si_track_id := t\<rparr>) infos)
                        | _ \<Rightarrow> Inl Rejected)
                     else Inr (with_ssrc ssrc id infos)))))"

fun read_u32s :: "sdp_text \<Rightarrow> string list \<Rightarrow> u32 list option" where
  "read_u32s X [] = Some []"
| "read_u32s X (f # fs) =
     (case st_u32 X f of None \<Rightarrow> None | Some x \<Rightarrow> (case read_u32s X fs of None \<Rightarrow> None | Some xs \<Rightarrow> Some (x # xs)))"

definition ParseSsrcGroupInfo :: "sdp_text \<Rightarrow> string \<Rightarrow> ssrc_group list \<Rightarrow> sdp_stop + ssrc_group list" where
  "ParseSsrcGroupInfo X line groups =
     (if \<not> contains ''a=ssrc-group:'' line then Inr groups
      else and_then (substr 2 line) (\<lambda>rest.
        case st_split X rest CHR '' '' of
          f # g # fs \<Rightarrow>
            (let semantics = GetAttributeText X f in
             if semantics = [] then Inl Rejected
             else case read_u32s X (g # fs) of
                 None \<Rightarrow> Inl Rejected
               | Some ssrcs \<Rightarrow> Inr (groups @ [\<lparr>sg_semantics = semantics, sg_ssrcs = ssrcs\<rparr>]))
        | _ \<Rightarrow> Inl Rejected))"

subsection \<open>Tracks\<close>

fun with_track :: "ssrc_info \<Rightarrow> stream_params list \<Rightarrow> stream_params list" where
  "with_track i [] = [StreamParams\<lparr>sp_id := si_track_id i, sp_cname := si_cname i, sp_stream_id := si_stream_id i, sp_ssrcs := [si_ssrc_id i]\<rparr>]"
| "with_track i (t # ts) =
     (if sp_id t = si_track_id i
      then t\<lparr>sp_cname := si_cname i, sp_stream_id := si_stream_id i, sp_ssrcs := sp_ssrcs t @ [si_ssrc_id i]\<rparr> # ts
      else t # with_track i ts)"

definition CreateTrackFromSsrcInfo :: "ssrc_info list \<Rightarrow> stream_params list" where
  "CreateTrackFromSsrcInfo infos = fold with_track infos []"

definition add_group :: "ssrc_group \<Rightarrow> stream_params list \<Rightarrow> stream_params list" where
  "add_group g tracks =
     (case sg_ssrcs g of
        [] \<Rightarrow> tracks
      | ssrc # _ \<Rightarrow> map (\<lambda>t. if HasSsrc ssrc t then t\<lparr>sp_ssrc_groups := sp_ssrc_groups t @ [g]\<rparr> else t) tracks)"

subsection \<open>The text\<close>

record sdp_parse =
  pr_media_type :: string
  pr_contents :: "media_kind list"
  pr_groups :: "content_group list"
  pr_audio_td :: transport_desc
  pr_video_td :: transport_desc
  pr_audio_ssrc :: "ssrc_info list"
  pr_video_ssrc :: "ssrc_info list"
  pr_video_groups :: "ssrc_group list"

definition new_parse :: sdp_parse where
  "new_parse = \<lparr>pr_media_type = [], pr_contents = [], pr_groups = [], pr_audio_td = TransportDescription, pr_video_td = TransportDescription,
     pr_audio_ssrc = [], pr_video_ssrc = [], pr_video_groups = []\<rparr>"

text \<open>The lines that open a section and the list of bundled sections.\<close>

definition parse_section :: "sdp_text \<Rightarrow> string \<Rightarrow> sdp_parse \<Rightarrow> sdp_stop + sdp_parse" where
  "parse_section X field p =
     (if contains ''m=group:BUNDLE'' field then
        (case st_split X field CHR '' '' of
           _ # n # ns \<Rightarrow> Inr (p\<lparr>pr_groups := pr_groups p @ [fold AddContentName (n # ns) \<lparr>cg_semantics = ''BUNDLE'', cg_content_names = []\<rparr>]\<rparr>)
         | _ \<Rightarrow> Inr p)
      else if contains ''m='' field then
        (case st_split X field CHR '' '' of
           item # _ # _ # _ \<Rightarrow> and_then (substr 2 item) (\<lambda>media_type.
             let q = p\<lparr>pr_media_type := media_type\<rparr> in
             if media_type = ''audio'' then
               Inr (q\<lparr>pr_contents := pr_contents q @ [MEDIA_TYPE_AUDIO], pr_audio_td := (pr_audio_td q)\<lparr>td_mid := ''audio''\<rparr>\<rparr>)
             else if media_type = ''video'' then
               Inr (q\<lparr>pr_contents := pr_contents q @ [MEDIA_TYPE_VIDEO], pr_video_td := (pr_video_td q)\<lparr>td_mid := ''video''\<rparr>\<rparr>)
             else Inr q)
         | _ \<Rightarrow> Inl Rejected)
      else Inr p)"

definition parse_attribute :: "sdp_text \<Rightarrow> string \<Rightarrow> sdp_parse \<Rightarrow> sdp_stop + sdp_parse" where
  "parse_attribute X field p =
     (if pr_media_type p = ''audio'' then
        and_then (ParseTransportInfo X field (pr_audio_td p)) (\<lambda>td.
        and_then (ParseSsrcInfo X field (pr_audio_ssrc p)) (\<lambda>infos.
          Inr (p\<lparr>pr_audio_td := td, pr_audio_ssrc := infos\<rparr>)))
      else if pr_media_type p = ''video'' then
        and_then (ParseTransportInfo X field (pr_video_td p)) (\<lambda>td.
        and_then (ParseSsrcGroupInfo X field (pr_video_groups p)) (\<lambda>groups.
        and_then (ParseSsrcInfo X field (pr_video_ssrc p)) (\<lambda>infos.
          Inr (p\<lparr>pr_video_td := td, pr_video_groups := groups, pr_video_ssrc := infos\<rparr>))))
      else Inr p)"

text \<open>
  A description that is rejected half way stays behind: the sections and groups found so far are the
  left part of the result, with the way the call ends.
\<close>

type_synonym 'a parsed = "(sdp_stop \<times> sdp_parse) + 'a"

definition parse_field :: "sdp_text \<Rightarrow> bool \<Rightarrow> string \<Rightarrow> sdp_parse \<Rightarrow> sdp_parse parsed" where
  "parse_field X is_rn line p =
     (let field = (if is_rn then butlast line else line) in
      and_then (case parse_section X field p of Inl s \<Rightarrow> Inl (s, p) | Inr q \<Rightarrow> Inr q) (\<lambda>q.
        case parse_attribute X field q of Inl s \<Rightarrow> Inl (s, q) | Inr r \<Rightarrow> Inr r))"

definition content_of :: "rtp_direction \<Rightarrow> sdp_parse \<Rightarrow> media_kind \<Rightarrow> media_content" where
  "content_of junk p k =
     (case k of
        MEDIA_TYPE_AUDIO \<Rightarrow> fold add_stream (CreateTrackFromSsrcInfo (pr_audio_ssrc p)) (AudioContentDescription junk)
      | MEDIA_TYPE_VIDEO \<Rightarrow> fold add_stream (fold add_group (pr_video_groups p) (CreateTrackFromSsrcInfo (pr_video_ssrc p))) (VideoContentDescription junk))"

definition parsed_desc :: "rtp_direction \<Rightarrow> sdp_parse \<Rightarrow> session_desc" where
  "parsed_desc junk p =
     \<lparr>sd_type = kAnswer, sd_contents = map (content_of junk p) (pr_contents p), sd_groups = pr_groups p,
      sd_transports = [pr_audio_td p, pr_video_td p]\<rparr>"

text \<open>What is left when the call ends early: the sections without their streams.\<close>

definition partial_desc :: "rtp_direction \<Rightarrow> sdp_parse \<Rightarrow> session_desc" where
  "partial_desc junk p =
     \<lparr>sd_type = kAnswer, sd_contents = map (content_of junk (p\<lparr>pr_audio_ssrc := [], pr_video_ssrc := [], pr_video_groups := []\<rparr>)) (pr_contents p),
      sd_groups = pr_groups p, sd_transports = []\<rparr>"

text \<open>\<open>None\<close>: the text has no line and the old description stays.\<close>

definition parse_sdp :: "sdp_text \<Rightarrow> string \<Rightarrow> sdp_parse parsed option" where
  "parse_sdp X sdp =
     (let fields = st_tokenize X sdp (CHR 0x0A); is_rn = contains crlf sdp
      in if fields = [] then None else Some (each (parse_field X is_rn) fields new_parse))"

end
