(* ===== verification/Rtcp.thy ===== *)
theory Rtcp
  imports RecvStat PushStream
begin

text \<open>
  \<open>modules/rtp_rtcp\<close>: the RTCP sender (\<open>rtcp_sender.cpp\<close>), the RTCP receiver (\<open>rtcp_receiver.cpp\<close>),
  the packet counters (\<open>rtp_sender.cpp\<close>) and the module that joins them (\<open>rtp_rtcp_impl.cpp\<close>). The
  RTCP classes, the NTP clock and the random numbers of libwebrtc are the parameter \<open>rtcp_lib\<close>.
\<close>

text \<open>An NTP time by its seconds and fractions.\<close>

type_synonym ntp_time = "u32 \<times> u32"

datatype rtcp_packet =
    SenderReport u32 u32 ntp_time u32 u32
  | ReceiverReport u32 "report_block list"
  | Nack u32 u32 "u16 list"
  | Pli u32 u32
  | ExtendedReports u32 "ntp_time option"

record rtcp_block =
  bk_type :: nat
  bk_fmt :: nat
  bk_payload :: bytes

text \<open>The fields of the parsed reports that the code reads.\<close>

record sr_info =
  sr_sender_ssrc :: u32
  sr_ntp :: ntp_time
  sr_rtp_timestamp :: u32
  sr_packet_count :: u32
  sr_octet_count :: u32

record receive_time_info =
  rti_ssrc :: u32
  rti_last_rr :: u32
  rti_delay_since_last_rr :: u32

record ('c, 'g) rtcp_lib =
  rl_stat :: "'c stat_lib"
  rl_rand :: "'g \<Rightarrow> u32 \<Rightarrow> u32 \<Rightarrow> u32 \<times> 'g"
  rl_seed :: "int \<Rightarrow> 'g"
  kRtcpReport :: u32
  kRtcpSr :: u32
  kRtcpRr :: u32
  kRtcpPli :: u32
  kRtcpNack :: u32
  kRtcpXrReceiverReferenceTime :: u32
  kRtcpXrDlrrReportBlock :: u32
  RTCP_MAX_REPORT_BLOCKS :: nat
  ntp_valid :: "ntp_time \<Rightarrow> bool"
  CompactNtp :: "ntp_time \<Rightarrow> u32"
  CompactNtpRttToMs :: "u32 \<Rightarrow> int"
  rtcp_create :: "rtcp_packet \<Rightarrow> nat \<Rightarrow> bytes \<Rightarrow> bytes list \<times> bytes"
  parse_header :: "bytes \<Rightarrow> (rtcp_block \<times> nat) option"
  sr_type :: nat
  rr_type :: nat
  xr_type :: nat
  rtpfb_type :: nat
  nack_fmt :: nat
  parse_sr :: "rtcp_block \<Rightarrow> sr_info option"
  parse_dlrr :: "rtcp_block \<Rightarrow> receive_time_info list option"
  parse_nack :: "rtcp_block \<Rightarrow> (u32 \<times> u16 list) option"

text \<open>The clock at a call: milliseconds, NTP, and the NTP time the clock gives for \<open>CurrentTime\<close>.\<close>

record rtcp_now =
  now_ms :: int
  now_ntp :: ntp_time
  now_ntp_time :: ntp_time

datatype rtcp_mode = kOff | kCompound | kReducedSize

record rtp_rtcp_config =
  cf_audio :: bool
  cf_local_media_ssrc :: u32
  cf_rtx_send_ssrc :: u32
  cf_receive_stat :: bool
  cf_rtcp_report_interval_ms :: "u32 option"
  cf_request_pli_interval_ms :: int
  cf_enable_xr :: bool

definition RtpRtcpConfig :: rtp_rtcp_config where
  "RtpRtcpConfig = \<lparr>cf_audio = False, cf_local_media_ssrc = 0, cf_rtx_send_ssrc = 0, cf_receive_stat = False,
     cf_rtcp_report_interval_ms = None, cf_request_pli_interval_ms = 0, cf_enable_xr = False\<rparr>"

subsection \<open>The sender\<close>

definition IP_PACKET_SIZE :: nat where "IP_PACKET_SIZE = 1500"
definition kDefaultAudioReportInterval :: u32 where "kDefaultAudioReportInterval = 5000"
definition kDefaultVideoReportInterval :: u32 where "kDefaultVideoReportInterval = 1000"

definition kRtcpAnyExtendedReports :: "('c, 'g, 'b) rtcp_lib_scheme \<Rightarrow> u32" where
  "kRtcpAnyExtendedReports L = or (kRtcpXrReceiverReferenceTime L) (kRtcpXrDlrrReportBlock L)"

record feedback_state =
  packets_sent :: u32
  media_bytes_sent :: u64
  last_rr_ntp_secs :: u32
  last_rr_ntp_frac :: u32
  remote_sr :: u32

record 'g rtcp_sender =
  rs_audio :: bool
  rs_ssrc :: u32
  rs_remote_ssrc :: u32
  rs_receive_stat :: bool
  rs_method :: rtcp_mode
  rs_sending :: bool
  rs_max_packet_size :: nat
  rs_report_interval_ms :: u32
  rs_cur_report_interval_ms :: u32
  rs_random :: 'g
  rs_report_flags :: "(u32 \<times> bool) list"
  rs_latest_rtp_timestamp :: u32
  rs_latest_ntp :: ntp_time
  rs_enable_xr :: bool

definition RTCPSender :: "('c, 'g, 'b) rtcp_lib_scheme \<Rightarrow> int \<Rightarrow> rtp_rtcp_config \<Rightarrow> 'g rtcp_sender" where
  "RTCPSender L now_us cf =
     (let interval = (case cf_rtcp_report_interval_ms cf of Some i \<Rightarrow> i
            | None \<Rightarrow> if cf_audio cf then kDefaultAudioReportInterval else kDefaultVideoReportInterval)
      in \<lparr>rs_audio = cf_audio cf, rs_ssrc = cf_local_media_ssrc cf, rs_remote_ssrc = 0, rs_receive_stat = cf_receive_stat cf,
          rs_method = kOff, rs_sending = False, rs_max_packet_size = IP_PACKET_SIZE - 28, rs_report_interval_ms = interval,
          rs_cur_report_interval_ms = interval div 2, rs_random = rl_seed L now_us, rs_report_flags = [],
          rs_latest_rtp_timestamp = 0, rs_latest_ntp = (0, 0), rs_enable_xr = cf_enable_xr cf\<rparr>)"

text \<open>The set of flags is ordered by type; a type that is there already keeps its flag.\<close>

fun insert_flag :: "u32 \<Rightarrow> bool \<Rightarrow> (u32 \<times> bool) list \<Rightarrow> (u32 \<times> bool) list" where
  "insert_flag t v [] = [(t, v)]"
| "insert_flag t v ((u, w) # fs) = (if t < u then (t, v) # (u, w) # fs else if t = u then (u, w) # fs else (u, w) # insert_flag t v fs)"

definition SetFlag :: "u32 \<Rightarrow> bool \<Rightarrow> 'g rtcp_sender \<Rightarrow> 'g rtcp_sender" where
  "SetFlag t v s = s\<lparr>rs_report_flags := insert_flag t v (rs_report_flags s)\<rparr>"

definition IsFlagPresent :: "u32 \<Rightarrow> 'g rtcp_sender \<Rightarrow> bool" where
  "IsFlagPresent t s = list_ex (\<lambda>(u, _). u = t) (rs_report_flags s)"

definition ConsumeFlag :: "u32 \<Rightarrow> bool \<Rightarrow> 'g rtcp_sender \<Rightarrow> bool \<times> 'g rtcp_sender" where
  "ConsumeFlag t force s =
     (case find (\<lambda>(u, _). u = t) (rs_report_flags s) of
        None \<Rightarrow> (False, s)
      | Some (_, v) \<Rightarrow> (True, if v \<or> force then s\<lparr>rs_report_flags := filter (\<lambda>(u, _). u \<noteq> t) (rs_report_flags s)\<rparr> else s))"

definition SetRtcpStatus :: "rtcp_mode \<Rightarrow> 'g rtcp_sender \<Rightarrow> 'g rtcp_sender" where
  "SetRtcpStatus m s = s\<lparr>rs_method := m\<rparr>"

definition SetSrInfo :: "u32 \<Rightarrow> ntp_time \<Rightarrow> 'g rtcp_sender \<Rightarrow> 'g rtcp_sender" where
  "SetSrInfo ts ntp s = s\<lparr>rs_latest_rtp_timestamp := ts, rs_latest_ntp := ntp\<rparr>"

definition PrepareReport :: "('c, 'g, 'b) rtcp_lib_scheme \<Rightarrow> 'g rtcp_sender \<Rightarrow> 'g rtcp_sender" where
  "PrepareReport L s =
     (let (generate_report, s1) =
            (if IsFlagPresent (kRtcpSr L) s \<or> IsFlagPresent (kRtcpRr L) s then (True, s)
             else let (c, s0) = ConsumeFlag (kRtcpReport L) False s;
                      g = (c \<and> rs_method s0 = kReducedSize \<or> rs_method s0 = kCompound)
                  in (g, if g then SetFlag (if rs_sending s0 then kRtcpSr L else kRtcpRr L) True s0 else s0));
          s2 = (if generate_report \<and> \<not> rs_sending s1 \<and> rs_enable_xr s1 then SetFlag (kRtcpAnyExtendedReports L) True s1 else s1);
          m = rs_report_interval_ms s2;
          (i, g) = rl_rand L (rs_random s2) (m * 1 div 2) (m * 3 div 2)
      in s2\<lparr>rs_cur_report_interval_ms := i, rs_random := g\<rparr>)"

text \<open>The compound packet being filled and the packets already handed to the callback.\<close>

record packet_sender =
  px_buffer :: bytes
  px_sent :: "bytes list"

definition AppendPacket :: "('c, 'g, 'b) rtcp_lib_scheme \<Rightarrow> nat \<Rightarrow> rtcp_packet \<Rightarrow> packet_sender \<Rightarrow> packet_sender" where
  "AppendPacket L max_packet_size pkt x =
     (let (sent, buffer) = rtcp_create L pkt max_packet_size (px_buffer x) in \<lparr>px_buffer = buffer, px_sent = px_sent x @ sent\<rparr>)"

definition PxSend :: "packet_sender \<Rightarrow> packet_sender" where
  "PxSend x = (if px_buffer x \<noteq> [] then \<lparr>px_buffer = [], px_sent = px_sent x @ [px_buffer x]\<rparr> else x)"

text \<open>The statistics read past the end of their map (\<open>RtcpReportBlocks\<close>).\<close>

datatype rtcp_fault = StatEnd

text \<open>
  The delay is computed on \<open>int32_t\<close>; the words below are what two's complement gives, also where the
  difference does not fit.
\<close>

definition with_last_sr :: "('c, 'g, 'b) rtcp_lib_scheme \<Rightarrow> rtcp_now \<Rightarrow> feedback_state \<Rightarrow> report_block \<Rightarrow> report_block" where
  "with_last_sr L now fb b =
     (let receive_time = push_bit 16 (and (last_rr_ntp_secs fb) 0x0000FFFF) + drop_bit 16 (and (last_rr_ntp_frac fb) 0xFFFF0000)
      in b\<lparr>rb_last_sr := remote_sr fb, rb_delay_last_sr := CompactNtp L (now_ntp now) - receive_time\<rparr>)"

definition CreateRtcpReportBlocks ::
    "('c, 'g, 'b) rtcp_lib_scheme \<Rightarrow> rtcp_now \<Rightarrow> feedback_state \<Rightarrow> 'g rtcp_sender \<Rightarrow> 'c receive_stat \<Rightarrow>
     rtcp_fault + report_block list \<times> 'c receive_stat" where
  "CreateRtcpReportBlocks L now fb s stat =
     (if \<not> rs_receive_stat s then Inr ([], stat)
      else case RtcpReportBlocks (now_ms now) (RTCP_MAX_REPORT_BLOCKS L) stat of
          None \<Rightarrow> Inl StatEnd
        | Some (stat', blocks) \<Rightarrow>
            Inr (if last_rr_ntp_secs fb > 0 \<or> last_rr_ntp_frac fb > 0 then map (with_last_sr L now fb) blocks else blocks, stat'))"

definition BuildSR :: "('c, 'g, 'b) rtcp_lib_scheme \<Rightarrow> feedback_state \<Rightarrow> 'g rtcp_sender \<Rightarrow> packet_sender \<Rightarrow> packet_sender" where
  "BuildSR L fb s x =
     (if rs_latest_rtp_timestamp s = 0 \<or> \<not> ntp_valid L (rs_latest_ntp s) then x
      else AppendPacket L (rs_max_packet_size s)
        (SenderReport (rs_ssrc s) (rs_latest_rtp_timestamp s) (rs_latest_ntp s) (packets_sent fb) (ucast (media_bytes_sent fb))) x)"

definition BuildRR ::
    "('c, 'g, 'b) rtcp_lib_scheme \<Rightarrow> rtcp_now \<Rightarrow> feedback_state \<Rightarrow> 'g rtcp_sender \<Rightarrow> packet_sender \<Rightarrow> 'c receive_stat \<Rightarrow>
     rtcp_fault + packet_sender \<times> 'c receive_stat" where
  "BuildRR L now fb s x stat =
     and_then (CreateRtcpReportBlocks L now fb s stat) (\<lambda>(blocks, stat').
       Inr (AppendPacket L (rs_max_packet_size s) (ReceiverReport (rs_ssrc s) blocks) x, stat'))"

definition BuildNack :: "('c, 'g, 'b) rtcp_lib_scheme \<Rightarrow> u16 list \<Rightarrow> 'g rtcp_sender \<Rightarrow> packet_sender \<Rightarrow> packet_sender" where
  "BuildNack L nack_list s x = AppendPacket L (rs_max_packet_size s) (Nack (rs_ssrc s) (rs_remote_ssrc s) nack_list) x"

definition BuildPli :: "('c, 'g, 'b) rtcp_lib_scheme \<Rightarrow> 'g rtcp_sender \<Rightarrow> packet_sender \<Rightarrow> packet_sender" where
  "BuildPli L s x = AppendPacket L (rs_max_packet_size s) (Pli (rs_ssrc s) (rs_remote_ssrc s)) x"

definition BuildXr :: "('c, 'g, 'b) rtcp_lib_scheme \<Rightarrow> rtcp_now \<Rightarrow> 'g rtcp_sender \<Rightarrow> packet_sender \<Rightarrow> packet_sender" where
  "BuildXr L now s x =
     (if rs_audio s then x
      else AppendPacket L (rs_max_packet_size s)
        (ExtendedReports (rs_ssrc s) (if \<not> rs_sending s \<and> rs_enable_xr s then Some (now_ntp_time now) else None)) x)"

text \<open>The table of builders: of two equal types the one registered last counts.\<close>

definition build ::
    "('c, 'g, 'b) rtcp_lib_scheme \<Rightarrow> rtcp_now \<Rightarrow> feedback_state \<Rightarrow> u16 list \<Rightarrow> 'g rtcp_sender \<Rightarrow> u32 \<Rightarrow>
     packet_sender \<times> 'c receive_stat \<Rightarrow> rtcp_fault + packet_sender \<times> 'c receive_stat" where
  "build L now fb nack_list s t xs =
     (case xs of (x, stat) \<Rightarrow>
        if t = kRtcpAnyExtendedReports L then Inr (BuildXr L now s x, stat)
        else if t = kRtcpPli L then Inr (BuildPli L s x, stat)
        else if t = kRtcpNack L then Inr (BuildNack L nack_list s x, stat)
        else if t = kRtcpRr L then BuildRR L now fb s x stat
        else if t = kRtcpSr L then Inr (BuildSR L fb s x, stat)
        else Inr (x, stat))"

definition ComputeCompoundRTCPPacket ::
    "('c, 'g, 'b) rtcp_lib_scheme \<Rightarrow> rtcp_now \<Rightarrow> feedback_state \<Rightarrow> u16 list \<Rightarrow> u32 \<Rightarrow> 'g rtcp_sender \<Rightarrow> 'c receive_stat \<Rightarrow>
     rtcp_fault + bool \<times> packet_sender \<times> 'g rtcp_sender \<times> 'c receive_stat" where
  "ComputeCompoundRTCPPacket L now fb nack_list packet_type s stat =
     (let x0 = \<lparr>px_buffer = [], px_sent = []\<rparr> in
      if rs_method s = kOff then Inr (False, x0, s, stat)
      else
        let s1 = PrepareReport L (SetFlag packet_type True s) in
        and_then (each (\<lambda>(t, _). build L now fb nack_list s1 t) (rs_report_flags s1) (x0, stat)) (\<lambda>(x, stat').
          Inr (True, x, s1\<lparr>rs_report_flags := filter (\<lambda>(_, v). \<not> v) (rs_report_flags s1)\<rparr>, stat')))"

text \<open>The result: whether the call returns 0, and the packets handed to \<open>OnLocalRtcpPacket\<close>.\<close>

definition SendRTCP ::
    "('c, 'g, 'b) rtcp_lib_scheme \<Rightarrow> rtcp_now \<Rightarrow> feedback_state \<Rightarrow> u32 \<Rightarrow> u16 list \<Rightarrow> 'g rtcp_sender \<Rightarrow> 'c receive_stat \<Rightarrow>
     rtcp_fault + bool \<times> bytes list \<times> 'g rtcp_sender \<times> 'c receive_stat" where
  "SendRTCP L now fb packet_type nack_list s stat =
     and_then (ComputeCompoundRTCPPacket L now fb nack_list packet_type s stat) (\<lambda>(ok, x, s', stat').
       Inr (ok, if ok then px_sent (PxSend x) else px_sent x, s', stat'))"

subsection \<open>The receiver\<close>

record rtcp_receiver =
  rr_audio :: bool
  rr_num_skipped_packet :: int
  rr_remote_ssrc :: u32
  rr_main_ssrc :: u32
  rr_remote_sender_ntp_time :: ntp_time
  rr_remote_sender_rtp_time :: u32
  rr_last_received_sr_ntp :: ntp_time
  rr_remote_sender_packet_count :: u32
  rr_remote_sender_octet_count :: u32
  rr_enable_xr :: bool
  rr_xr_rr_rtt_ms :: int
  rr_register_ssrcs :: "u32 list"

definition RTCPReceiver :: "rtp_rtcp_config \<Rightarrow> rtcp_receiver" where
  "RTCPReceiver cf = \<lparr>rr_audio = cf_audio cf, rr_num_skipped_packet = 0, rr_remote_ssrc = 0, rr_main_ssrc = cf_local_media_ssrc cf,
     rr_remote_sender_ntp_time = (0, 0), rr_remote_sender_rtp_time = 0, rr_last_received_sr_ntp = (0, 0), rr_remote_sender_packet_count = 0,
     rr_remote_sender_octet_count = 0, rr_enable_xr = cf_enable_xr cf, rr_xr_rr_rtt_ms = -1,
     rr_register_ssrcs = cf_local_media_ssrc cf # (if cf_rtx_send_ssrc cf > 0 then [cf_rtx_send_ssrc cf] else [])\<rparr>"

text \<open>What the receiver tells the observer.\<close>

datatype rtcp_event =
    OnSr media_type u32 ntp_time
  | OnNackList media_type "u16 list"
  | OnRtt int

definition media_of :: "bool \<Rightarrow> media_type" where
  "media_of audio = (if audio then AUDIO else VIDEO)"

type_synonym rtcp_handled = "rtcp_receiver \<times> rtcp_event list"

definition skip :: "rtcp_receiver \<Rightarrow> rtcp_receiver" where
  "skip r = r\<lparr>rr_num_skipped_packet := rr_num_skipped_packet r + 1\<rparr>"

definition HandleSr :: "('c, 'g, 'b) rtcp_lib_scheme \<Rightarrow> rtcp_now \<Rightarrow> rtcp_block \<Rightarrow> rtcp_receiver \<Rightarrow> rtcp_handled" where
  "HandleSr L now b r =
     (case parse_sr L b of
        None \<Rightarrow> (skip r, [])
      | Some sr \<Rightarrow>
          if sr_sender_ssrc sr = rr_remote_ssrc r then
            (r\<lparr>rr_remote_sender_ntp_time := sr_ntp sr, rr_remote_sender_rtp_time := sr_rtp_timestamp sr, rr_last_received_sr_ntp := now_ntp now,
               rr_remote_sender_packet_count := sr_packet_count sr, rr_remote_sender_octet_count := sr_octet_count sr\<rparr>,
             [OnSr (media_of (rr_audio r)) (sr_rtp_timestamp sr) (sr_ntp sr)])
          else (r, []))"

definition HandleXrDlrrReport :: "('c, 'g, 'b) rtcp_lib_scheme \<Rightarrow> rtcp_now \<Rightarrow> receive_time_info \<Rightarrow> rtcp_receiver \<Rightarrow> rtcp_handled" where
  "HandleXrDlrrReport L now rti r =
     (if rti_ssrc rti \<notin> set (rr_register_ssrcs r) then (r, [])
      else if \<not> rr_enable_xr r then (r, [])
      else if rti_last_rr rti = 0 then (r, [])
      else
        let rtt_ntp = CompactNtp L (now_ntp now) - rti_delay_since_last_rr rti - rti_last_rr rti;
            rtt = CompactNtpRttToMs L rtt_ntp
        in (r\<lparr>rr_xr_rr_rtt_ms := rtt\<rparr>, [OnRtt rtt]))"

fun handle_dlrr :: "('c, 'g, 'b) rtcp_lib_scheme \<Rightarrow> rtcp_now \<Rightarrow> receive_time_info list \<Rightarrow> rtcp_receiver \<Rightarrow> rtcp_handled" where
  "handle_dlrr L now [] r = (r, [])"
| "handle_dlrr L now (i # is) r =
     (let (r1, es) = HandleXrDlrrReport L now i r; (r2, fs) = handle_dlrr L now is r1 in (r2, es @ fs))"

definition HandleXr :: "('c, 'g, 'b) rtcp_lib_scheme \<Rightarrow> rtcp_now \<Rightarrow> rtcp_block \<Rightarrow> rtcp_receiver \<Rightarrow> rtcp_handled" where
  "HandleXr L now b r = (case parse_dlrr L b of None \<Rightarrow> (skip r, []) | Some is \<Rightarrow> handle_dlrr L now is r)"

definition HandleNack :: "('c, 'g, 'b) rtcp_lib_scheme \<Rightarrow> rtcp_block \<Rightarrow> rtcp_receiver \<Rightarrow> rtcp_handled" where
  "HandleNack L b r =
     (case parse_nack L b of
        None \<Rightarrow> (skip r, [])
      | Some (media_ssrc, ids) \<Rightarrow> if rr_main_ssrc r \<noteq> media_ssrc then (r, []) else (r, [OnNackList (media_of (rr_audio r)) ids]))"

text \<open>The case of the feedback packets; an extended report runs into it as well.\<close>

definition HandleRtpfb :: "('c, 'g, 'b) rtcp_lib_scheme \<Rightarrow> rtcp_block \<Rightarrow> rtcp_receiver \<Rightarrow> rtcp_handled" where
  "HandleRtpfb L b r = (if bk_fmt b = nack_fmt L then HandleNack L b r else (skip r, []))"

definition handle_block :: "('c, 'g, 'b) rtcp_lib_scheme \<Rightarrow> rtcp_now \<Rightarrow> rtcp_block \<Rightarrow> rtcp_receiver \<Rightarrow> rtcp_handled" where
  "handle_block L now b r =
     (if bk_type b = sr_type L then HandleSr L now b r
      else if bk_type b = rr_type L then (r, [])
      else if bk_type b = xr_type L then
        (let (r1, es) = HandleXr L now b r; (r2, fs) = HandleRtpfb L b r1 in (r2, es @ fs))
      else if bk_type b = rtpfb_type L then HandleRtpfb L b r
      else (skip r, []))"

text \<open>\<open>None\<close>: the loop does not end. \<open>first\<close>: no block has been parsed yet. The result's boolean is the return value.\<close>

partial_function (option) ParseCompoundPacket ::
    "('c, 'g, 'b) rtcp_lib_scheme \<Rightarrow> rtcp_now \<Rightarrow> bool \<Rightarrow> bytes \<Rightarrow> rtcp_receiver \<Rightarrow> (bool \<times> rtcp_handled) option" where
  "ParseCompoundPacket L now first d r =
     (if d = [] then Some (True, r, [])
      else let h = parse_header L d in
        if h = None then Some (if first then (False, r, []) else (True, skip r, []))
        else let x = handle_block L now (fst (the h)) r in
          Option.bind (ParseCompoundPacket L now False (drop (snd (the h)) d) (fst x)) (\<lambda>y.
            Some (fst y, fst (snd y), snd x @ snd (snd y))))"

definition IncomingRtcpPacket :: "('c, 'g, 'b) rtcp_lib_scheme \<Rightarrow> rtcp_now \<Rightarrow> bytes \<Rightarrow> rtcp_receiver \<Rightarrow> rtcp_handled option" where
  "IncomingRtcpPacket L now d r = (if d = [] then Some (r, []) else map_option snd (ParseCompoundPacket L now True d r))"

text \<open>\<open>NTP\<close>: the time in the last sender report and the time it arrived.\<close>

definition NTP :: "('c, 'g, 'b) rtcp_lib_scheme \<Rightarrow> rtcp_receiver \<Rightarrow> (ntp_time \<times> ntp_time \<times> u32) option" where
  "NTP L r =
     (if \<not> ntp_valid L (rr_last_received_sr_ntp r) then None
      else Some (rr_remote_sender_ntp_time r, rr_last_received_sr_ntp r, rr_remote_sender_rtp_time r))"

subsection \<open>The module\<close>

record data_counters =
  first_packet_time_ms :: int
  dc_packets :: u64
  dc_payload_bytes :: u64

datatype rtcp_timer = RtcpReportTimer | RequestPliTimer

text \<open>Timer calls, in microseconds.\<close>

datatype timer_call = StartTimer rtcp_timer int | DeleteTimer rtcp_timer

record 'g rtp_rtcp =
  md_sender :: "'g rtcp_sender"
  md_receiver :: rtcp_receiver
  md_rtx_send_ssrc :: u32
  md_rtp_stats :: data_counters
  md_rtx_rtp_stats :: data_counters
  md_report_timer :: bool
  md_pli_timer :: bool

definition RtpRtcpImpl :: "('c, 'g, 'b) rtcp_lib_scheme \<Rightarrow> int \<Rightarrow> rtp_rtcp_config \<Rightarrow> 'g rtp_rtcp \<times> timer_call list" where
  "RtpRtcpImpl L now_us cf =
     (let zero = \<lparr>first_packet_time_ms = -1, dc_packets = 0, dc_payload_bytes = 0\<rparr>; pli = (cf_request_pli_interval_ms cf > 0)
      in (\<lparr>md_sender = RTCPSender L now_us cf, md_receiver = RTCPReceiver cf, md_rtx_send_ssrc = cf_rtx_send_ssrc cf,
           md_rtp_stats = zero, md_rtx_rtp_stats = zero, md_report_timer = False, md_pli_timer = pli\<rparr>,
          if pli then [StartTimer RequestPliTimer (cf_request_pli_interval_ms cf * 1000)] else []))"

definition delete_rtp_rtcp :: "'g rtp_rtcp \<Rightarrow> timer_call list" where
  "delete_rtp_rtcp m = (if md_report_timer m then [DeleteTimer RtcpReportTimer] else []) @ (if md_pli_timer m then [DeleteTimer RequestPliTimer] else [])"

definition MdSetRtcpStatus :: "int \<Rightarrow> rtcp_mode \<Rightarrow> 'g rtp_rtcp \<Rightarrow> 'g rtp_rtcp \<times> timer_call list" where
  "MdSetRtcpStatus interval_ms method m =
     (let (on, calls) =
            (if method = kOff then (False, if md_report_timer m then [DeleteTimer RtcpReportTimer] else [])
             else (True, if md_report_timer m then [] else [StartTimer RtcpReportTimer (interval_ms * 1000)]))
      in (m\<lparr>md_report_timer := on, md_sender := SetRtcpStatus method (md_sender m)\<rparr>, calls))"

definition MdSetRemoteSsrc :: "u32 \<Rightarrow> 'g rtp_rtcp \<Rightarrow> 'g rtp_rtcp" where
  "MdSetRemoteSsrc ssrc m = m\<lparr>md_sender := (md_sender m)\<lparr>rs_remote_ssrc := ssrc\<rparr>, md_receiver := (md_receiver m)\<lparr>rr_remote_ssrc := ssrc\<rparr>\<rparr>"

definition SetSendingStatus :: "bool \<Rightarrow> 'g rtp_rtcp \<Rightarrow> 'g rtp_rtcp" where
  "SetSendingStatus sending m = m\<lparr>md_sender := (md_sender m)\<lparr>rs_sending := sending\<rparr>\<rparr>"

definition MdSetSrInfo :: "u32 \<Rightarrow> ntp_time \<Rightarrow> 'g rtp_rtcp \<Rightarrow> 'g rtp_rtcp" where
  "MdSetSrInfo ts ntp m = m\<lparr>md_sender := SetSrInfo ts ntp (md_sender m)\<rparr>"

definition MdIncomingRtcpPacket :: "('c, 'g, 'b) rtcp_lib_scheme \<Rightarrow> rtcp_now \<Rightarrow> bytes \<Rightarrow> 'g rtp_rtcp \<Rightarrow> ('g rtp_rtcp \<times> rtcp_event list) option" where
  "MdIncomingRtcpPacket L now d m =
     map_option (\<lambda>(r, es). (m\<lparr>md_receiver := r\<rparr>, es)) (IncomingRtcpPacket L now d (md_receiver m))"

definition count_packet :: "int \<Rightarrow> nat \<Rightarrow> data_counters \<Rightarrow> data_counters" where
  "count_packet now payload_size c =
     \<lparr>first_packet_time_ms = (if first_packet_time_ms c = -1 then now else first_packet_time_ms c),
      dc_packets = dc_packets c + 1, dc_payload_bytes = dc_payload_bytes c + of_nat payload_size\<rparr>"

definition UpdateRtpStat :: "int \<Rightarrow> u32 \<Rightarrow> nat \<Rightarrow> 'g rtp_rtcp \<Rightarrow> 'g rtp_rtcp" where
  "UpdateRtpStat now ssrc payload_size m =
     (if ssrc = md_rtx_send_ssrc m then m\<lparr>md_rtx_rtp_stats := count_packet now payload_size (md_rtx_rtp_stats m)\<rparr>
      else m\<lparr>md_rtp_stats := count_packet now payload_size (md_rtp_stats m)\<rparr>)"

definition GetFeedbackState :: "('c, 'g, 'b) rtcp_lib_scheme \<Rightarrow> 'g rtp_rtcp \<Rightarrow> feedback_state" where
  "GetFeedbackState L m =
     (let sent = ucast (dc_packets (md_rtp_stats m) + dc_packets (md_rtx_rtp_stats m));
          bytes = dc_payload_bytes (md_rtp_stats m) + dc_payload_bytes (md_rtx_rtp_stats m)
      in case NTP L (md_receiver m) of
           None \<Rightarrow> \<lparr>packets_sent = sent, media_bytes_sent = bytes, last_rr_ntp_secs = 0, last_rr_ntp_frac = 0, remote_sr = 0\<rparr>
         | Some ((secs, fraction), (arrival_secs, arrival_fraction), _) \<Rightarrow>
             \<lparr>packets_sent = sent, media_bytes_sent = bytes, last_rr_ntp_secs = arrival_secs, last_rr_ntp_frac = arrival_fraction,
              remote_sr = push_bit 16 (and secs 0x0000FFFF) + drop_bit 16 (and fraction 0xFFFF0000)\<rparr>)"

definition MdSendRTCP ::
    "('c, 'g, 'b) rtcp_lib_scheme \<Rightarrow> rtcp_now \<Rightarrow> u32 \<Rightarrow> u16 list \<Rightarrow> 'g rtp_rtcp \<Rightarrow> 'c receive_stat \<Rightarrow>
     rtcp_fault + bytes list \<times> 'g rtp_rtcp \<times> 'c receive_stat" where
  "MdSendRTCP L now packet_type nack_list m stat =
     and_then (SendRTCP L now (GetFeedbackState L m) packet_type nack_list (md_sender m) stat) (\<lambda>(_, sent, s, stat').
       Inr (sent, m\<lparr>md_sender := s\<rparr>, stat'))"

definition SendNack ::
    "('c, 'g, 'b) rtcp_lib_scheme \<Rightarrow> rtcp_now \<Rightarrow> u16 list \<Rightarrow> 'g rtp_rtcp \<Rightarrow> 'c receive_stat \<Rightarrow>
     rtcp_fault + bytes list \<times> 'g rtp_rtcp \<times> 'c receive_stat" where
  "SendNack L now nack_list m stat = MdSendRTCP L now (kRtcpNack L) nack_list m stat"

definition RequestPli ::
    "('c, 'g, 'b) rtcp_lib_scheme \<Rightarrow> rtcp_now \<Rightarrow> 'g rtp_rtcp \<Rightarrow> 'c receive_stat \<Rightarrow> rtcp_fault + bytes list \<times> 'g rtp_rtcp \<times> 'c receive_stat" where
  "RequestPli L now m stat = MdSendRTCP L now (kRtcpPli L) [] m stat"

definition TimeToSendRTCP ::
    "('c, 'g, 'b) rtcp_lib_scheme \<Rightarrow> rtcp_now \<Rightarrow> 'g rtp_rtcp \<Rightarrow> 'c receive_stat \<Rightarrow>
     rtcp_fault + bytes list \<times> timer_call \<times> 'g rtp_rtcp \<times> 'c receive_stat" where
  "TimeToSendRTCP L now m stat =
     and_then (MdSendRTCP L now (kRtcpReport L) [] m stat) (\<lambda>(sent, m', stat').
       Inr (sent, StartTimer RtcpReportTimer (uint (rs_cur_report_interval_ms (md_sender m') * 1000)), m', stat'))"

end
