(* ===== verification/MediaStreams.thy ===== *)
theory MediaStreams
  imports Rtcp NackInv
begin

text \<open>
  \<open>video/\<close> and \<open>audio/\<close>: the streams a live peer connection sends and receives, each around one RTCP
  module. The H264 depacketizer, the frame buffer and the memory of packets are libwebrtc's and
  are the parameter \<open>media_lib\<close>.
\<close>

subsection \<open>Packets\<close>

record media_packet =
  mp_marker :: bool
  mp_payload_type :: u8
  mp_sequence_number :: u16
  mp_timestamp :: u32
  mp_ssrc :: u32
  mp_csrcs :: "u32 list"
  mp_extensions :: bytes
  mp_payload :: bytes
  mp_recovered :: bool
  mp_arrival_time :: int
  mp_payload_type_frequency :: int

definition empty_packet :: media_packet where
  "empty_packet = \<lparr>mp_marker = False, mp_payload_type = 0, mp_sequence_number = 0, mp_timestamp = 0, mp_ssrc = 0, mp_csrcs = [],
     mp_extensions = [], mp_payload = [], mp_recovered = False, mp_arrival_time = 0, mp_payload_type_frequency = 0\<rparr>"

definition CopyHeaderFrom :: "media_packet \<Rightarrow> media_packet \<Rightarrow> media_packet" where
  "CopyHeaderFrom p q = q\<lparr>mp_marker := mp_marker p, mp_payload_type := mp_payload_type p, mp_sequence_number := mp_sequence_number p,
     mp_timestamp := mp_timestamp p, mp_ssrc := mp_ssrc p, mp_csrcs := mp_csrcs p, mp_extensions := mp_extensions p\<rparr>"

definition stat_packet :: "media_packet \<Rightarrow> rtp_packet" where
  "stat_packet p = \<lparr>rp_ssrc = mp_ssrc p, rp_sequence_number = mp_sequence_number p, rp_timestamp = mp_timestamp p,
     rp_payload_type_frequency = mp_payload_type_frequency p\<rparr>"

record video_header =
  is_first_packet_in_frame :: bool
  is_last_packet_in_frame :: bool
  vh_key :: bool

record buffered =
  bf_seq_num :: u16
  bf_header :: video_header

text \<open>\<open>alloc_send\<close>, \<open>alloc_recv\<close>: whether \<open>AllocatePayload\<close> has room for a payload of this size.\<close>

record 'p media_lib =
  ml_seq :: seq_lib
  depacketize :: "bytes \<Rightarrow> video_header option"
  new_buffer :: "nat \<Rightarrow> nat \<Rightarrow> 'p"
  insert_packet :: "'p \<Rightarrow> buffered \<Rightarrow> buffered list \<times> 'p"
  kRtxHeaderSize :: nat
  write_be16 :: "u16 \<Rightarrow> bytes"
  alloc_send :: "nat \<Rightarrow> bool"
  alloc_recv :: "nat \<Rightarrow> bool"

text \<open>What a stream tells its observer, the peer connection.\<close>

datatype media_out =
    OutRtp media_type media_packet
  | OutFrame u16 u16 bool
  | OutLocalRtcp media_type bytes
  | OutRtcpEvent rtcp_event

datatype media_fault = StatRead | NullFirstPacket | NullPayload | RtcpLoop

type_synonym 'a media_result = "media_fault + 'a"

definition rtcp_sent :: "media_type \<Rightarrow> bytes list \<Rightarrow> media_out list" where
  "rtcp_sent m sent = map (OutLocalRtcp m) sent"

text \<open>An operation of the RTCP module that sends.\<close>

definition module_send ::
    "media_type \<Rightarrow> rtcp_fault + bytes list \<times> 'g rtp_rtcp \<times> 'c receive_stat \<Rightarrow> (media_out list \<times> 'g rtp_rtcp \<times> 'c receive_stat) media_result" where
  "module_send m r = (case r of Inl StatEnd \<Rightarrow> Inl StatRead | Inr (sent, md, stat) \<Rightarrow> Inr (rtcp_sent m sent, md, stat))"

definition module_receive :: "('g rtp_rtcp \<times> rtcp_event list) option \<Rightarrow> (media_out list \<times> 'g rtp_rtcp) media_result" where
  "module_receive r = (case r of None \<Rightarrow> Inl RtcpLoop | Some (md, es) \<Rightarrow> Inr (map OutRtcpEvent es, md))"

subsection \<open>Video that is sent\<close>

record send_packet = media_packet +
  sd_capture_time_ms :: int
  sd_additional_data :: bytes
  sd_retransmitted_sequence_number :: "u16 option"
  sd_retransmission :: bool

record 'g video_send =
  vs_rtx_payload_type :: int
  vs_local_rtx_ssrc :: u32
  vs_rtcp :: "'g rtp_rtcp"
  vs_rtx_seq :: u16

definition VideoSendStream :: "('c, 'g, 'b) rtcp_lib_scheme \<Rightarrow> int \<Rightarrow> int \<Rightarrow> u32 \<Rightarrow> u32 \<Rightarrow> int \<Rightarrow> 'g video_send \<times> timer_call list" where
  "VideoSendStream L now_us timer_ms local_ssrc rtx_ssrc rtx_payload_type =
     (let (m0, c0) = RtpRtcpImpl L now_us (RtpRtcpConfig\<lparr>cf_local_media_ssrc := local_ssrc, cf_rtx_send_ssrc := rtx_ssrc\<rparr>);
          (m1, c1) = MdSetRtcpStatus timer_ms kCompound m0
      in (\<lparr>vs_rtx_payload_type = rtx_payload_type, vs_local_rtx_ssrc = rtx_ssrc, vs_rtcp = SetSendingStatus True m1, vs_rtx_seq = 1000\<rparr>, c0 @ c1))"

definition VsDeliverRtcp :: "('c, 'g, 'b) rtcp_lib_scheme \<Rightarrow> rtcp_now \<Rightarrow> bytes \<Rightarrow> 'g video_send \<Rightarrow> (media_out list \<times> 'g video_send) media_result" where
  "VsDeliverRtcp L now d v = and_then (module_receive (MdIncomingRtcpPacket L now d (vs_rtcp v))) (\<lambda>(es, md). Inr (es, v\<lparr>vs_rtcp := md\<rparr>))"

definition VsUpdateRtpStat :: "int \<Rightarrow> ('a media_packet_scheme) \<Rightarrow> 'g video_send \<Rightarrow> 'g video_send" where
  "VsUpdateRtpStat now p v = v\<lparr>vs_rtcp := UpdateRtpStat now (mp_ssrc p) (length (mp_payload p)) (vs_rtcp v)\<rparr>"

definition VsSetSrInfo :: "u32 \<Rightarrow> ntp_time \<Rightarrow> 'g video_send \<Rightarrow> 'g video_send" where
  "VsSetSrInfo ts ntp v = v\<lparr>vs_rtcp := MdSetSrInfo ts ntp (vs_rtcp v)\<rparr>"

definition new_send_packet :: send_packet where
  "new_send_packet = media_packet.extend empty_packet
     \<lparr>sd_capture_time_ms = 0, sd_additional_data = [], sd_retransmitted_sequence_number = None, sd_retransmission = False\<rparr>"

text \<open>The packet in retransmission format; the bytes of its header the code does not write are zero here.\<close>

definition BuildRtxPacket :: "('p, 'z) media_lib_scheme \<Rightarrow> send_packet \<Rightarrow> 'g video_send \<Rightarrow> send_packet option \<times> 'g video_send" where
  "BuildRtxPacket M p v =
     (let n = kRtxHeaderSize M;
          head = new_send_packet\<lparr>mp_payload_type := word_of_int (vs_rtx_payload_type v), mp_ssrc := vs_local_rtx_ssrc v, mp_marker := mp_marker p,
            mp_timestamp := mp_timestamp p, mp_sequence_number := vs_rtx_seq v, mp_csrcs := mp_csrcs p\<rparr>;
          v1 = v\<lparr>vs_rtx_seq := vs_rtx_seq v + 1\<rparr>
      in if \<not> alloc_send M (length (mp_payload p) + n) then (None, v1)
         else (Some (head\<lparr>mp_payload := take n (write_be16 M (mp_sequence_number p) @ replicate n 0) @ mp_payload p,
            sd_additional_data := sd_additional_data p, sd_capture_time_ms := sd_capture_time_ms p,
            sd_retransmitted_sequence_number := Some (mp_sequence_number p)\<rparr>), v1))"

subsection \<open>Audio that is sent\<close>

definition AudioSendStream :: "('c, 'g, 'b) rtcp_lib_scheme \<Rightarrow> int \<Rightarrow> int \<Rightarrow> u32 \<Rightarrow> 'g rtp_rtcp \<times> timer_call list" where
  "AudioSendStream L now_us timer_ms local_ssrc =
     (let (m0, c0) = RtpRtcpImpl L now_us (RtpRtcpConfig\<lparr>cf_local_media_ssrc := local_ssrc, cf_audio := True\<rparr>);
          (m1, c1) = MdSetRtcpStatus timer_ms kCompound m0
      in (SetSendingStatus True m1, c0 @ c1))"

definition AsUpdateRtpStat :: "int \<Rightarrow> ('a media_packet_scheme) \<Rightarrow> 'g rtp_rtcp \<Rightarrow> 'g rtp_rtcp" where
  "AsUpdateRtpStat now p m = UpdateRtpStat now (mp_ssrc p) (length (mp_payload p)) m"

definition AsSetSrInfo :: "u32 \<Rightarrow> ntp_time \<Rightarrow> 'g rtp_rtcp \<Rightarrow> 'g rtp_rtcp" where
  "AsSetSrInfo ts ntp m = MdSetSrInfo ts ntp m"

subsection \<open>Video that is received\<close>

record video_config =
  vc_local_ssrc :: u32
  vc_remote_ssrc :: u32
  vc_rtx_ssrc :: u32
  vc_rtx_associated_payload_types :: "int \<rightharpoonup> int"
  vc_enable_xr :: bool
  vc_request_pli_interval_ms :: int

record ('c, 'g, 'p) video_receive =
  vr_config :: video_config
  vr_stat :: "'c receive_stat"
  vr_rtcp :: "'g rtp_rtcp"
  vr_packet_buffer :: 'p
  vr_nack :: nack_requester

definition kPacketBufferStartSize :: nat where "kPacketBufferStartSize = 512"
definition kPacketBufferMaxSize :: nat where "kPacketBufferMaxSize = 2048"

definition CreateRtpRtcpModule :: "('c, 'g, 'b) rtcp_lib_scheme \<Rightarrow> int \<Rightarrow> int \<Rightarrow> video_config \<Rightarrow> 'g rtp_rtcp \<times> timer_call list" where
  "CreateRtpRtcpModule L now_us timer_ms cf =
     (let (m0, c0) = RtpRtcpImpl L now_us (RtpRtcpConfig\<lparr>cf_local_media_ssrc := vc_local_ssrc cf, cf_receive_stat := True,
            cf_request_pli_interval_ms := vc_request_pli_interval_ms cf, cf_enable_xr := vc_enable_xr cf\<rparr>);
          (m1, c1) = MdSetRtcpStatus timer_ms kCompound m0
      in (m1, c0 @ c1))"

definition VideoReceiveStream ::
    "('c, 'g, 'b) rtcp_lib_scheme \<Rightarrow> ('p, 'z) media_lib_scheme \<Rightarrow> int \<Rightarrow> int \<Rightarrow> video_config \<Rightarrow> ('c, 'g, 'p) video_receive \<times> timer_call list" where
  "VideoReceiveStream L M now_us timer_ms cf =
     (let (m, calls) = CreateRtpRtcpModule L now_us timer_ms cf
      in (\<lparr>vr_config = cf, vr_stat = ReceiveStat, vr_rtcp = MdSetRemoteSsrc (vc_remote_ssrc cf) m,
           vr_packet_buffer = new_buffer M kPacketBufferStartSize kPacketBufferMaxSize, vr_nack = NackRequester\<rparr>, calls))"

definition OnNackSend ::
    "('c, 'g, 'b) rtcp_lib_scheme \<Rightarrow> rtcp_now \<Rightarrow> u16 list \<Rightarrow> media_out list \<times> ('c, 'g, 'p) video_receive \<Rightarrow>
     (media_out list \<times> ('c, 'g, 'p) video_receive) media_result" where
  "OnNackSend L now nacks ov =
     (case ov of (out, v) \<Rightarrow>
        and_then (module_send VIDEO (SendNack L now nacks (vr_rtcp v) (vr_stat v))) (\<lambda>(es, md, stat).
          Inr (out @ es, v\<lparr>vr_rtcp := md, vr_stat := stat\<rparr>)))"

text \<open>The frames in the packets an insertion completed; \<open>first\<close>: the first packet of the current frame.\<close>

fun OnInsertedPacket :: "buffered option \<Rightarrow> buffered list \<Rightarrow> media_out list media_result" where
  "OnInsertedPacket first [] = Inr []"
| "OnInsertedPacket first (p # ps) =
     (let first' = (if is_first_packet_in_frame (bf_header p) then Some p else first) in
      if is_last_packet_in_frame (bf_header p) then
        (case first' of
           None \<Rightarrow> Inl NullFirstPacket
         | Some f \<Rightarrow> and_then (OnInsertedPacket first' ps) (\<lambda>es. Inr (OutFrame (bf_seq_num f) (bf_seq_num p) (vh_key (bf_header f)) # es)))
      else OnInsertedPacket first' ps)"

definition OnReceivedPayloadData ::
    "('c, 'g, 'b) rtcp_lib_scheme \<Rightarrow> ('p, 'z) media_lib_scheme \<Rightarrow> rtcp_now \<Rightarrow> media_packet \<Rightarrow> video_header \<Rightarrow> ('c, 'g, 'p) video_receive \<Rightarrow>
     (media_out list \<times> ('c, 'g, 'p) video_receive) media_result" where
  "OnReceivedPayloadData L M now p video v =
     (let header = video\<lparr>is_last_packet_in_frame := is_last_packet_in_frame video \<or> mp_marker p\<rparr>;
          is_keyframe = (is_first_packet_in_frame header \<and> vh_key header);
          (nack, _, batches) = OnReceivedPacket (ml_seq M) (now_ms now) (mp_sequence_number p) is_keyframe (mp_recovered p) (vr_nack v)
      in and_then (each (OnNackSend L now) batches ([], v\<lparr>vr_nack := nack\<rparr>)) (\<lambda>(out, v1).
         case insert_packet M (vr_packet_buffer v1) \<lparr>bf_seq_num = mp_sequence_number p, bf_header = header\<rparr> of (packets, buffer) \<Rightarrow>
           and_then (OnInsertedPacket None packets) (\<lambda>frames. Inr (out @ frames, v1\<lparr>vr_packet_buffer := buffer\<rparr>))))"

definition ReceivePacket ::
    "('c, 'g, 'b) rtcp_lib_scheme \<Rightarrow> ('p, 'z) media_lib_scheme \<Rightarrow> rtcp_now \<Rightarrow> media_packet \<Rightarrow> ('c, 'g, 'p) video_receive \<Rightarrow>
     (media_out list \<times> ('c, 'g, 'p) video_receive) media_result" where
  "ReceivePacket L M now p v =
     (if mp_payload p = [] then Inr ([], v)
      else case depacketize M (mp_payload p) of
          None \<Rightarrow> Inr ([], v)
        | Some video \<Rightarrow> OnReceivedPayloadData L M now p video v)"

definition RvOnRtpPacket ::
    "('c, 'g, 'b) rtcp_lib_scheme \<Rightarrow> ('p, 'z) media_lib_scheme \<Rightarrow> rtcp_now \<Rightarrow> media_packet \<Rightarrow> ('c, 'g, 'p) video_receive \<Rightarrow>
     (media_out list \<times> ('c, 'g, 'p) video_receive) media_result" where
  "RvOnRtpPacket L M now p v =
     and_then (ReceivePacket L M now p v) (\<lambda>(es, v1).
       Inr (OutRtp VIDEO p # es,
            if mp_recovered p then v1 else v1\<lparr>vr_stat := OnRtpPacket (rl_stat L) (now_ms now) (stat_packet p) (vr_stat v1)\<rparr>))"

definition RtxOnRtpPacket ::
    "('c, 'g, 'b) rtcp_lib_scheme \<Rightarrow> ('p, 'z) media_lib_scheme \<Rightarrow> rtcp_now \<Rightarrow> media_packet \<Rightarrow> ('c, 'g, 'p) video_receive \<Rightarrow>
     (media_out list \<times> ('c, 'g, 'p) video_receive) media_result" where
  "RtxOnRtpPacket L M now p v =
     (let v1 = v\<lparr>vr_stat := OnRtpPacket (rl_stat L) (now_ms now) (stat_packet p) (vr_stat v)\<rparr>; payload = mp_payload p in
      if length payload < kRtxHeaderSize M then Inr ([], v1)
      else case vc_rtx_associated_payload_types (vr_config v) (uint (mp_payload_type p)) of
          None \<Rightarrow> Inr ([], v1)
        | Some pt \<Rightarrow>
            let rest = drop (kRtxHeaderSize M) payload;
                media = (CopyHeaderFrom p empty_packet)\<lparr>mp_ssrc := vc_remote_ssrc (vr_config v),
                  mp_sequence_number := word_of_int (uint (payload ! 0) * 256 + uint (payload ! 1)), mp_payload_type := word_of_int pt,
                  mp_recovered := True, mp_arrival_time := mp_arrival_time p, mp_payload := rest\<rparr>
            in if \<not> alloc_recv M (length rest) then Inl NullPayload else RvOnRtpPacket L M now media v1)"

definition VrOnRtpPacket ::
    "('c, 'g, 'b) rtcp_lib_scheme \<Rightarrow> ('p, 'z) media_lib_scheme \<Rightarrow> rtcp_now \<Rightarrow> media_packet \<Rightarrow> ('c, 'g, 'p) video_receive \<Rightarrow>
     (media_out list \<times> ('c, 'g, 'p) video_receive) media_result" where
  "VrOnRtpPacket L M now p v =
     (if mp_ssrc p = vc_rtx_ssrc (vr_config v) then
        (if vc_rtx_ssrc (vr_config v) \<noteq> 0 then RtxOnRtpPacket L M now p v else Inr ([], v))
      else RvOnRtpPacket L M now p v)"

definition VrDeliverRtcp ::
    "('c, 'g, 'b) rtcp_lib_scheme \<Rightarrow> rtcp_now \<Rightarrow> bytes \<Rightarrow> ('c, 'g, 'p) video_receive \<Rightarrow> (media_out list \<times> ('c, 'g, 'p) video_receive) media_result" where
  "VrDeliverRtcp L now d v = and_then (module_receive (MdIncomingRtcpPacket L now d (vr_rtcp v))) (\<lambda>(es, md). Inr (es, v\<lparr>vr_rtcp := md\<rparr>))"

definition VrOnRttUpdate :: "int \<Rightarrow> ('c, 'g, 'p) video_receive \<Rightarrow> ('c, 'g, 'p) video_receive" where
  "VrOnRttUpdate max_rtt v = v\<lparr>vr_nack := UpdateRtt max_rtt (vr_nack v)\<rparr>"

text \<open>The timers: the periodic report, the key frame request and the retransmission requests.\<close>

definition VrReportTimer ::
    "('c, 'g, 'b) rtcp_lib_scheme \<Rightarrow> rtcp_now \<Rightarrow> ('c, 'g, 'p) video_receive \<Rightarrow> (media_out list \<times> ('c, 'g, 'p) video_receive) media_result" where
  "VrReportTimer L now v =
     and_then (module_send VIDEO (and_then (TimeToSendRTCP L now (vr_rtcp v) (vr_stat v)) (\<lambda>(sent, _, md, stat). Inr (sent, md, stat)))) (\<lambda>(es, md, stat).
       Inr (es, v\<lparr>vr_rtcp := md, vr_stat := stat\<rparr>))"

definition VrPliTimer ::
    "('c, 'g, 'b) rtcp_lib_scheme \<Rightarrow> rtcp_now \<Rightarrow> ('c, 'g, 'p) video_receive \<Rightarrow> (media_out list \<times> ('c, 'g, 'p) video_receive) media_result" where
  "VrPliTimer L now v =
     and_then (module_send VIDEO (RequestPli L now (vr_rtcp v) (vr_stat v))) (\<lambda>(es, md, stat). Inr (es, v\<lparr>vr_rtcp := md, vr_stat := stat\<rparr>))"

definition VrNackTimer ::
    "('c, 'g, 'b) rtcp_lib_scheme \<Rightarrow> ('p, 'z) media_lib_scheme \<Rightarrow> rtcp_now \<Rightarrow> ('c, 'g, 'p) video_receive \<Rightarrow>
     (media_out list \<times> ('c, 'g, 'p) video_receive) media_result" where
  "VrNackTimer L M now v =
     (let (nack, batches) = ProcessNacks (ml_seq M) (now_ms now) (vr_nack v) in each (OnNackSend L now) batches ([], v\<lparr>vr_nack := nack\<rparr>))"

subsection \<open>Audio that is received\<close>

record ('c, 'g) audio_receive =
  ar_stat :: "'c receive_stat"
  ar_rtcp :: "'g rtp_rtcp"

definition AudioReceiveStream :: "('c, 'g, 'b) rtcp_lib_scheme \<Rightarrow> int \<Rightarrow> int \<Rightarrow> u32 \<Rightarrow> u32 \<Rightarrow> ('c, 'g) audio_receive \<times> timer_call list" where
  "AudioReceiveStream L now_us timer_ms local_ssrc remote_ssrc =
     (let (m0, c0) = RtpRtcpImpl L now_us (RtpRtcpConfig\<lparr>cf_audio := True, cf_local_media_ssrc := local_ssrc, cf_receive_stat := True\<rparr>);
          (m1, c1) = MdSetRtcpStatus timer_ms kCompound (MdSetRemoteSsrc remote_ssrc m0)
      in (\<lparr>ar_stat = ReceiveStat, ar_rtcp = m1\<rparr>, c0 @ c1))"

definition ArOnRtpPacket :: "('c, 'g, 'b) rtcp_lib_scheme \<Rightarrow> rtcp_now \<Rightarrow> media_packet \<Rightarrow> ('c, 'g) audio_receive \<Rightarrow> media_out list \<times> ('c, 'g) audio_receive" where
  "ArOnRtpPacket L now p a = ([OutRtp AUDIO p], a\<lparr>ar_stat := OnRtpPacket (rl_stat L) (now_ms now) (stat_packet p) (ar_stat a)\<rparr>)"

definition ArDeliverRtcp :: "('c, 'g, 'b) rtcp_lib_scheme \<Rightarrow> rtcp_now \<Rightarrow> bytes \<Rightarrow> ('c, 'g) audio_receive \<Rightarrow> (media_out list \<times> ('c, 'g) audio_receive) media_result" where
  "ArDeliverRtcp L now d a = and_then (module_receive (MdIncomingRtcpPacket L now d (ar_rtcp a))) (\<lambda>(es, md). Inr (es, a\<lparr>ar_rtcp := md\<rparr>))"

definition ArReportTimer ::
    "('c, 'g, 'b) rtcp_lib_scheme \<Rightarrow> rtcp_now \<Rightarrow> ('c, 'g) audio_receive \<Rightarrow> (media_out list \<times> ('c, 'g) audio_receive) media_result" where
  "ArReportTimer L now a =
     and_then (module_send AUDIO (and_then (TimeToSendRTCP L now (ar_rtcp a) (ar_stat a)) (\<lambda>(sent, _, md, stat). Inr (sent, md, stat)))) (\<lambda>(es, md, stat).
       Inr (es, a\<lparr>ar_rtcp := md, ar_stat := stat\<rparr>))"

end
