(* ===== verification/PeerConnection.thy ===== *)
theory PeerConnection
  imports TransportController SdpAnswer MediaStreams
begin

text \<open>
  \<open>pc/peer_connection.cpp\<close>: one peer connection, which joins its transport controller, the two
  descriptions and the media streams. The signals of the controller and the calls of the streams
  to their observer are handled in order when the operation that makes them is over: each is the
  last thing its operation does with what a handler changes. The RTP parser, the bytes of a packet and the
  random credentials are libwebrtc's and are part of the environment \<open>pc_env\<close>, as are the
  configuration file and the clock.
\<close>

subsection \<open>State\<close>

datatype transport_mode = kTransparent | kLive

datatype stream_slot = AudioReceiveSlot | AudioSendSlot | VideoReceiveSlot | VideoSendSlot

text \<open>The signals of a connection, and the timers of its streams.\<close>

datatype pc_out =
    PcState pc_state
  | PcRtpRaw bytes int
  | PcRtcpRaw bytes int
  | PcRtp media_type media_packet
  | PcFrame u16 u16 bool
  | PcSr media_type u32 ntp_time
  | PcNack media_type "u16 list"
  | PcTimer stream_slot timer_call

record rtt_time =
  rt_time :: int
  rt_rtt_ms :: int

record ('s, 'c, 'g, 'p) peer_connection =
  pc_is_dtls :: bool
  pc_is_pli :: bool
  pc_transport_mode :: transport_mode
  pc_local_desc :: "session_desc option"
  pc_remote_desc :: "session_desc option"
  pc_certificate :: "nat option"
  pc_controller :: "'s transport_controller"
  pc_destroy_timer :: bool
  pc_audio_source :: "stream_params list"
  pc_video_source :: "stream_params list"
  pc_remote_audio_ssrc :: u32
  pc_remote_video_ssrc :: u32
  pc_remote_video_rtx_ssrc :: u32
  pc_audio_clockrate :: int
  pc_local_audio_ssrc :: u32
  pc_local_video_ssrc :: u32
  pc_local_video_rtx_ssrc :: u32
  pc_audio_receive :: "('c, 'g) audio_receive option"
  pc_audio_send :: "'g rtp_rtcp option"
  pc_video_receive :: "('c, 'g, 'p) video_receive option"
  pc_video_send :: "'g video_send option"
  pc_rtt_reports :: "rtt_time list"
  pc_out :: "pc_out list"

record ('s, 'c, 'g, 'p) pc_env =
  pe_transport :: "'s tc_env"
  pe_networks :: "nat \<Rightarrow> (ip_addr \<times> u16 option) list"
  pe_rtcp :: "('c, 'g) rtcp_lib"
  pe_media :: "'p media_lib"
  pe_sdp :: sdp_lib
  pe_text :: sdp_text
  pe_now :: rtcp_now
  pe_now_us :: int
  pe_ice_params :: ice_params
  pe_junk :: rtp_direction
  pe_parse :: "bytes \<Rightarrow> media_packet option"
  pe_data :: "send_packet \<Rightarrow> bytes"
  pe_video_frequency :: int
  pe_rtcp_report_timer_interval :: int
  pe_enable_xr :: bool
  pe_request_pli_interval_ms :: int

text \<open>\<open>UncaughtException\<close>: a standard function throws and nothing catches it.\<close>

datatype pc_fault = PcTransport tc_fault | PcMedia media_fault | UncaughtException

definition kDefaultAudioSsrc :: u32 where "kDefaultAudioSsrc = 0xFA17FA17"
definition kDefaultVideoSsrc :: u32 where "kDefaultVideoSsrc = 1"
definition kRttTimeoutMs :: int where "kRttTimeoutMs = 1500"

definition PeerConnection :: "usage \<Rightarrow> ('s, 'c, 'g, 'p) peer_connection" where
  "PeerConnection u = \<lparr>pc_is_dtls = True, pc_is_pli = False, pc_transport_mode = kLive, pc_local_desc = None, pc_remote_desc = None,
     pc_certificate = None, pc_controller = TransportController u, pc_destroy_timer = False, pc_audio_source = [], pc_video_source = [],
     pc_remote_audio_ssrc = 0, pc_remote_video_ssrc = 0, pc_remote_video_rtx_ssrc = 0, pc_audio_clockrate = 0,
     pc_local_audio_ssrc = 0, pc_local_video_ssrc = 0, pc_local_video_rtx_ssrc = 0,
     pc_audio_receive = None, pc_audio_send = None, pc_video_receive = None, pc_video_send = None, pc_rtt_reports = [], pc_out = []\<rparr>"

definition pc_emit :: "pc_out list \<Rightarrow> ('s, 'c, 'g, 'p) peer_connection \<Rightarrow> ('s, 'c, 'g, 'p) peer_connection" where
  "pc_emit es pc = pc\<lparr>pc_out := pc_out pc @ es\<rparr>"

definition IsLive :: "('s, 'c, 'g, 'p) peer_connection \<Rightarrow> bool" where
  "IsLive pc = (pc_transport_mode pc = kLive)"

definition set_mode :: "string \<Rightarrow> ('s, 'c, 'g, 'p) peer_connection \<Rightarrow> ('s, 'c, 'g, 'p) peer_connection" where
  "set_mode mode pc = pc\<lparr>pc_transport_mode := if ''transparent'' = mode then kTransparent else kLive\<rparr>"

definition PcInit :: "nat option \<Rightarrow> ('s, 'c, 'g, 'p) peer_connection \<Rightarrow> ('s, 'c, 'g, 'p) peer_connection" where
  "PcInit certificate pc =
     (case certificate of
        Some _ \<Rightarrow> pc\<lparr>pc_certificate := certificate, pc_controller := TcSetLocalCertificate certificate (pc_controller pc)\<rparr>
      | None \<Rightarrow> pc\<lparr>pc_is_dtls := False, pc_controller := set_dtls False (pc_controller pc)\<rparr>)"

fun GetDirection :: "bool \<Rightarrow> bool \<Rightarrow> rtp_direction" where
  "GetDirection True True = kSendRecv"
| "GetDirection True False = kSendOnly"
| "GetDirection False True = kRecvOnly"
| "GetDirection False False = kInactive"

text \<open>\<open>None\<close> is \<open>MediaType::ANY\<close>.\<close>

definition GetMediaType :: "u32 \<Rightarrow> ('s, 'c, 'g, 'p) peer_connection \<Rightarrow> media_type option" where
  "GetMediaType ssrc pc =
     (if ssrc = pc_remote_video_ssrc pc \<or> ssrc = pc_remote_video_rtx_ssrc pc then Some VIDEO
      else if ssrc = pc_remote_audio_ssrc pc then Some AUDIO
      else None)"

subsection \<open>The round trip time\<close>

definition RemoveOldReport :: "int \<Rightarrow> rtt_time list \<Rightarrow> rtt_time list" where
  "RemoveOldReport now reports = filter (\<lambda>i. \<not> now - rt_time i > kRttTimeoutMs) reports"

definition GetMaxRttTimeMs :: "rtt_time list \<Rightarrow> int" where
  "GetMaxRttTimeMs reports = fold (\<lambda>i m. if rt_rtt_ms i > m then rt_rtt_ms i else m) reports (-1)"

definition PcOnRttUpdate :: "int \<Rightarrow> int \<Rightarrow> ('s, 'c, 'g, 'p) peer_connection \<Rightarrow> ('s, 'c, 'g, 'p) peer_connection" where
  "PcOnRttUpdate now rtt_ms pc =
     (let reports = RemoveOldReport now (pc_rtt_reports pc @ [\<lparr>rt_time = now, rt_rtt_ms = rtt_ms\<rparr>]);
          max_rtt = GetMaxRttTimeMs reports
      in pc\<lparr>pc_rtt_reports := reports, pc_video_receive := map_option (VrOnRttUpdate max_rtt) (pc_video_receive pc)\<rparr>)"

subsection \<open>Sending\<close>

definition PcSendRtp ::
    "('s, 'c, 'g, 'p) pc_env \<Rightarrow> bytes \<Rightarrow> ('s, 'c, 'g, 'p) peer_connection \<Rightarrow> pc_fault + bool \<times> ('s, 'c, 'g, 'p) peer_connection" where
  "PcSendRtp E data pc =
     and_then (fault_of PcTransport (TcSendRtp (pe_transport E) ''audio'' data (pc_controller pc))) (\<lambda>(ok, c). Inr (ok, pc\<lparr>pc_controller := c\<rparr>))"

definition PcSendRtcp ::
    "('s, 'c, 'g, 'p) pc_env \<Rightarrow> bytes \<Rightarrow> ('s, 'c, 'g, 'p) peer_connection \<Rightarrow> pc_fault + bool \<times> ('s, 'c, 'g, 'p) peer_connection" where
  "PcSendRtcp E data pc =
     and_then (fault_of PcTransport (TcSendRtcp (pe_transport E) ''audio'' data (pc_controller pc))) (\<lambda>(ok, c). Inr (ok, pc\<lparr>pc_controller := c\<rparr>))"

text \<open>The result's boolean is \<open>False\<close> where the code returns \<open>-1\<close>.\<close>

definition PcSendPacket ::
    "('s, 'c, 'g, 'p) pc_env \<Rightarrow> media_type \<Rightarrow> send_packet \<Rightarrow> ('s, 'c, 'g, 'p) peer_connection \<Rightarrow> pc_fault + bool \<times> ('s, 'c, 'g, 'p) peer_connection" where
  "PcSendPacket E media_type packet pc =
     (case media_type of
        VIDEO \<Rightarrow>
          (case pc_video_send pc of
             None \<Rightarrow> Inr (False, pc)
           | Some v \<Rightarrow>
               if sd_retransmission packet then
                 (case BuildRtxPacket (pe_media E) packet v of
                    (None, v1) \<Rightarrow> Inr (False, pc\<lparr>pc_video_send := Some v1\<rparr>)
                  | (Some rtx_packet, v1) \<Rightarrow>
                      and_then (PcSendRtp E (pe_data E rtx_packet) pc) (\<lambda>(ok, pc1).
                        Inr (ok, pc1\<lparr>pc_video_send := Some (VsUpdateRtpStat (now_ms (pe_now E)) rtx_packet v1)\<rparr>)))
               else
                 and_then (PcSendRtp E (pe_data E packet) pc) (\<lambda>(ok, pc1).
                   Inr (ok, pc1\<lparr>pc_video_send := Some (VsUpdateRtpStat (now_ms (pe_now E)) packet v)\<rparr>)))
      | AUDIO \<Rightarrow>
          (case pc_audio_send pc of
             None \<Rightarrow> Inr (False, pc)
           | Some a \<Rightarrow> and_then (PcSendRtp E (pe_data E packet) pc) (\<lambda>(ok, pc1).
               Inr (ok, pc1\<lparr>pc_audio_send := Some (AsUpdateRtpStat (now_ms (pe_now E)) packet a)\<rparr>))))"

definition PcSetSrInfo :: "media_type \<Rightarrow> u32 \<Rightarrow> ntp_time \<Rightarrow> ('s, 'c, 'g, 'p) peer_connection \<Rightarrow> ('s, 'c, 'g, 'p) peer_connection" where
  "PcSetSrInfo media_type ts ntp pc =
     (case media_type of
        VIDEO \<Rightarrow> pc\<lparr>pc_video_send := map_option (VsSetSrInfo ts ntp) (pc_video_send pc)\<rparr>
      | AUDIO \<Rightarrow> pc\<lparr>pc_audio_send := map_option (AsSetSrInfo ts ntp) (pc_audio_send pc)\<rparr>)"

subsection \<open>What the streams say\<close>

fun OnMediaOut :: "('s, 'c, 'g, 'p) pc_env \<Rightarrow> media_out \<Rightarrow> ('s, 'c, 'g, 'p) peer_connection \<Rightarrow> pc_fault + ('s, 'c, 'g, 'p) peer_connection" where
  "OnMediaOut E (OutRtp m packet) pc = Inr (pc_emit [PcRtp m packet] pc)"
| "OnMediaOut E (OutFrame a b key) pc = Inr (pc_emit [PcFrame a b key] pc)"
| "OnMediaOut E (OutLocalRtcp _ data) pc = and_then (PcSendRtcp E data pc) (\<lambda>(_, pc1). Inr pc1)"
| "OnMediaOut E (OutRtcpEvent (OnSr m ts ntp)) pc = Inr (pc_emit [PcSr m ts ntp] pc)"
| "OnMediaOut E (OutRtcpEvent (OnNackList m ids)) pc = Inr (pc_emit [PcNack m ids] pc)"
| "OnMediaOut E (OutRtcpEvent (OnRtt rtt_ms)) pc = Inr (PcOnRttUpdate (now_ms (pe_now E)) rtt_ms pc)"

text \<open>An operation of one of the streams, when there is one.\<close>

definition on_video_receive ::
    "('s, 'c, 'g, 'p) pc_env \<Rightarrow> (('c, 'g, 'p) video_receive \<Rightarrow> (media_out list \<times> ('c, 'g, 'p) video_receive) media_result) \<Rightarrow>
     ('s, 'c, 'g, 'p) peer_connection \<Rightarrow> pc_fault + ('s, 'c, 'g, 'p) peer_connection" where
  "on_video_receive E f pc =
     (case pc_video_receive pc of
        None \<Rightarrow> Inr pc
      | Some v \<Rightarrow> and_then (fault_of PcMedia (f v)) (\<lambda>(es, v1). each (OnMediaOut E) es (pc\<lparr>pc_video_receive := Some v1\<rparr>)))"

definition on_audio_receive ::
    "('s, 'c, 'g, 'p) pc_env \<Rightarrow> (('c, 'g) audio_receive \<Rightarrow> (media_out list \<times> ('c, 'g) audio_receive) media_result) \<Rightarrow>
     ('s, 'c, 'g, 'p) peer_connection \<Rightarrow> pc_fault + ('s, 'c, 'g, 'p) peer_connection" where
  "on_audio_receive E f pc =
     (case pc_audio_receive pc of
        None \<Rightarrow> Inr pc
      | Some a \<Rightarrow> and_then (fault_of PcMedia (f a)) (\<lambda>(es, a1). each (OnMediaOut E) es (pc\<lparr>pc_audio_receive := Some a1\<rparr>)))"

definition on_video_send ::
    "('s, 'c, 'g, 'p) pc_env \<Rightarrow> ('g video_send \<Rightarrow> (media_out list \<times> 'g video_send) media_result) \<Rightarrow>
     ('s, 'c, 'g, 'p) peer_connection \<Rightarrow> pc_fault + ('s, 'c, 'g, 'p) peer_connection" where
  "on_video_send E f pc =
     (case pc_video_send pc of
        None \<Rightarrow> Inr pc
      | Some v \<Rightarrow> and_then (fault_of PcMedia (f v)) (\<lambda>(es, v1). each (OnMediaOut E) es (pc\<lparr>pc_video_send := Some v1\<rparr>)))"

definition on_audio_send ::
    "('s, 'c, 'g, 'p) pc_env \<Rightarrow> ('g rtp_rtcp \<Rightarrow> (media_out list \<times> 'g rtp_rtcp) media_result) \<Rightarrow>
     ('s, 'c, 'g, 'p) peer_connection \<Rightarrow> pc_fault + ('s, 'c, 'g, 'p) peer_connection" where
  "on_audio_send E f pc =
     (case pc_audio_send pc of
        None \<Rightarrow> Inr pc
      | Some a \<Rightarrow> and_then (fault_of PcMedia (f a)) (\<lambda>(es, a1). each (OnMediaOut E) es (pc\<lparr>pc_audio_send := Some a1\<rparr>)))"

text \<open>The report timer of a module that has no reception statistics.\<close>

definition send_report :: "media_type \<Rightarrow> ('c, 'g) rtcp_lib \<Rightarrow> rtcp_now \<Rightarrow> 'g rtp_rtcp \<Rightarrow> (media_out list \<times> 'g rtp_rtcp) media_result" where
  "send_report m L now md =
     and_then (module_send m (and_then (TimeToSendRTCP L now md ReceiveStat) (\<lambda>(sent, _, md1, stat). Inr (sent, md1, stat)))) (\<lambda>(es, md1, _). Inr (es, md1))"

subsection \<open>What the controller says\<close>

definition arrival_time :: "('s, 'c, 'g, 'p) pc_env \<Rightarrow> int \<Rightarrow> int" where
  "arrival_time E ts = (if ts > 0 then ts else pe_now_us E)"

definition PcOnRtpPacketReceived ::
    "('s, 'c, 'g, 'p) pc_env \<Rightarrow> bytes \<Rightarrow> int \<Rightarrow> ('s, 'c, 'g, 'p) peer_connection \<Rightarrow> pc_fault + ('s, 'c, 'g, 'p) peer_connection" where
  "PcOnRtpPacketReceived E packet ts pc =
     (if IsLive pc then
        (case pe_parse E packet of
           None \<Rightarrow> Inr pc
         | Some parsed \<Rightarrow>
             let p = parsed\<lparr>mp_arrival_time := arrival_time E ts\<rparr> in
             case GetMediaType (mp_ssrc p) pc of
               Some VIDEO \<Rightarrow> on_video_receive E (VrOnRtpPacket (pe_rtcp E) (pe_media E) (pe_now E) (p\<lparr>mp_payload_type_frequency := pe_video_frequency E\<rparr>)) pc
             | Some AUDIO \<Rightarrow> on_audio_receive E (\<lambda>a. Inr (ArOnRtpPacket (pe_rtcp E) (pe_now E) (p\<lparr>mp_payload_type_frequency := pc_audio_clockrate pc\<rparr>) a)) pc
             | None \<Rightarrow> Inr pc)
      else Inr (pc_emit [PcRtpRaw packet ts] pc))"

definition PcOnRtcpPacketReceived ::
    "('s, 'c, 'g, 'p) pc_env \<Rightarrow> bytes \<Rightarrow> int \<Rightarrow> ('s, 'c, 'g, 'p) peer_connection \<Rightarrow> pc_fault + ('s, 'c, 'g, 'p) peer_connection" where
  "PcOnRtcpPacketReceived E packet ts pc =
     (if IsLive pc then
        and_then (on_audio_receive E (ArDeliverRtcp (pe_rtcp E) (pe_now E) packet) pc) (\<lambda>pc1.
        and_then (on_video_receive E (VrDeliverRtcp (pe_rtcp E) (pe_now E) packet) pc1) (\<lambda>pc2.
          on_video_send E (VsDeliverRtcp (pe_rtcp E) (pe_now E) packet) pc2))
      else Inr (pc_emit [PcRtcpRaw packet ts] pc))"

fun update_content :: "string \<Rightarrow> (media_content \<Rightarrow> media_content) \<Rightarrow> media_content list \<Rightarrow> media_content list" where
  "update_content m f [] = []"
| "update_content m f (c # cs) = (if m = mid c then f c # cs else c # update_content m f cs)"

definition PcOnCandidateAllocateDone ::
    "string \<Rightarrow> candidate list \<Rightarrow> ('s, 'c, 'g, 'p) peer_connection \<Rightarrow> ('s, 'c, 'g, 'p) peer_connection" where
  "PcOnCandidateAllocateDone transport_name candidates pc =
     pc\<lparr>pc_local_desc := map_option (\<lambda>d. d\<lparr>sd_contents := update_content transport_name (add_candidates candidates) (sd_contents d)\<rparr>) (pc_local_desc pc)\<rparr>"

fun OnTcOut :: "('s, 'c, 'g, 'p) pc_env \<Rightarrow> tc_out \<Rightarrow> ('s, 'c, 'g, 'p) peer_connection \<Rightarrow> pc_fault + ('s, 'c, 'g, 'p) peer_connection" where
  "OnTcOut E (TcState s) pc = Inr (pc_emit [PcState s] pc)"
| "OnTcOut E (TcCandidates name _ cs) pc = Inr (PcOnCandidateAllocateDone name cs pc)"
| "OnTcOut E (TcRtp packet ts) pc = PcOnRtpPacketReceived E packet ts pc"
| "OnTcOut E (TcRtcp packet ts) pc = PcOnRtcpPacketReceived E packet ts pc"

text \<open>An operation of the controller and the handling of what it signals.\<close>

definition on_controller ::
    "('s, 'c, 'g, 'p) pc_env \<Rightarrow> ('s transport_controller \<Rightarrow> tc_fault + 's transport_controller) \<Rightarrow>
     ('s, 'c, 'g, 'p) peer_connection \<Rightarrow> pc_fault + ('s, 'c, 'g, 'p) peer_connection" where
  "on_controller E f pc =
     and_then (fault_of PcTransport (f (pc_controller pc))) (\<lambda>c.
       each (OnTcOut E) (drop (length (tc_out (pc_controller pc))) (tc_out c)) (pc\<lparr>pc_controller := c\<rparr>))"

subsection \<open>Streams\<close>

text \<open>\<open>std::stoi\<close>: \<open>None\<close> where it throws.\<close>

definition is_digit :: "char \<Rightarrow> bool" where
  "is_digit c = (let n = of_char c :: nat in 48 \<le> n \<and> n \<le> 57)"

definition digits_value :: "string \<Rightarrow> int" where
  "digits_value s = fold (\<lambda>c n. n * 10 + (of_char c - 48)) s 0"

definition stoi :: "string \<Rightarrow> int option" where
  "stoi s =
     (let t = dropWhile (\<lambda>c. c \<in> {CHR '' '', CHR 0x09, CHR 0x0A, CHR 0x0B, CHR 0x0C, CHR 0x0D}) s;
          (negative, u) = (case t of c # r \<Rightarrow> if c = CHR ''-'' then (True, r) else if c = CHR ''+'' then (False, r) else (False, t) | [] \<Rightarrow> (False, t));
          d = takeWhile is_digit u;
          n = (if negative then - digits_value d else digits_value d)
      in if d = [] \<or> n < - (2 ^ 31) \<or> n \<ge> 2 ^ 31 then None else Some n)"

text \<open>The payload types of the codecs that repeat another one.\<close>

fun associated_types :: "codec_info list \<Rightarrow> (int \<rightharpoonup> int) \<Rightarrow> pc_fault + (int \<rightharpoonup> int)" where
  "associated_types [] m = Inr m"
| "associated_types (c # cs) m =
     (case map_of (co_param c) ''apt'' of
        None \<Rightarrow> associated_types cs m
      | Some v \<Rightarrow> (case stoi v of None \<Rightarrow> Inl UncaughtException | Some n \<Rightarrow> associated_types cs (m(int (co_id c) \<mapsto> n))))"

text \<open>The timers of a stream that is made, and of the one it takes the place of.\<close>

definition replace_timers :: "stream_slot \<Rightarrow> timer_call list \<Rightarrow> 'g rtp_rtcp option \<Rightarrow> pc_out list" where
  "replace_timers role started old = map (PcTimer role) (started @ (case old of None \<Rightarrow> [] | Some m \<Rightarrow> delete_rtp_rtcp m))"

definition CreateAudioReceiveStream ::
    "('s, 'c, 'g, 'p) pc_env \<Rightarrow> media_content \<Rightarrow> ('s, 'c, 'g, 'p) peer_connection \<Rightarrow> ('s, 'c, 'g, 'p) peer_connection" where
  "CreateAudioReceiveStream E content pc =
     (case mc_streams content of
        [] \<Rightarrow> pc
      | st # _ \<Rightarrow>
          let ssrc = FirstSsrc st in
          if ssrc = 0 then pc
          else
            let (a, calls) = AudioReceiveStream (pe_rtcp E) (pe_now_us E) (pe_rtcp_report_timer_interval E) kDefaultAudioSsrc ssrc
            in pc_emit (replace_timers AudioReceiveSlot calls (map_option ar_rtcp (pc_audio_receive pc)))
                 (pc\<lparr>pc_remote_audio_ssrc := ssrc,
                    pc_audio_clockrate := (case mc_codecs content of [] \<Rightarrow> pc_audio_clockrate pc | codec # _ \<Rightarrow> int (co_clockrate codec)),
                    pc_audio_receive := Some a\<rparr>))"

definition CreateVideoReceiveStream ::
    "('s, 'c, 'g, 'p) pc_env \<Rightarrow> media_content \<Rightarrow> ('s, 'c, 'g, 'p) peer_connection \<Rightarrow> pc_fault + ('s, 'c, 'g, 'p) peer_connection" where
  "CreateVideoReceiveStream E content pc =
     (case mc_streams content of
        [] \<Rightarrow> Inr pc
      | st # _ \<Rightarrow>
          let ssrc = FirstSsrc st in
          if ssrc = 0 then Inr pc
          else
            let rtx_ssrc = (case sp_ssrcs st of _ # s # _ \<Rightarrow> s | _ \<Rightarrow> pc_remote_video_rtx_ssrc pc)
            in and_then (associated_types (mc_codecs content) Map.empty) (\<lambda>types.
                 let (v, calls) = VideoReceiveStream (pe_rtcp E) (pe_media E) (pe_now_us E) (pe_rtcp_report_timer_interval E)
                       \<lparr>vc_local_ssrc = kDefaultVideoSsrc, vc_remote_ssrc = ssrc, vc_rtx_ssrc = rtx_ssrc, vc_rtx_associated_payload_types = types,
                        vc_enable_xr = pe_enable_xr E, vc_request_pli_interval_ms = (if pc_is_pli pc then pe_request_pli_interval_ms E else 0)\<rparr>
                 in Inr (pc_emit (replace_timers VideoReceiveSlot calls (map_option vr_rtcp (pc_video_receive pc)))
                      (pc\<lparr>pc_remote_video_ssrc := ssrc, pc_remote_video_rtx_ssrc := rtx_ssrc, pc_video_receive := Some v\<rparr>))))"

definition create_audio_send ::
    "('s, 'c, 'g, 'p) pc_env \<Rightarrow> stream_params \<Rightarrow> ('s, 'c, 'g, 'p) peer_connection \<Rightarrow> ('s, 'c, 'g, 'p) peer_connection" where
  "create_audio_send E st pc =
     (let ssrc = FirstSsrc st in
      if ssrc = 0 then pc
      else
        let (a, calls) = AudioSendStream (pe_rtcp E) (pe_now_us E) (pe_rtcp_report_timer_interval E) ssrc
        in pc_emit (replace_timers AudioSendSlot calls (pc_audio_send pc)) (pc\<lparr>pc_local_audio_ssrc := ssrc, pc_audio_send := Some a\<rparr>))"

definition CreateAudioSendStream ::
    "('s, 'c, 'g, 'p) pc_env \<Rightarrow> media_content \<Rightarrow> ('s, 'c, 'g, 'p) peer_connection \<Rightarrow> ('s, 'c, 'g, 'p) peer_connection" where
  "CreateAudioSendStream E content pc = fold (create_audio_send E) (mc_streams content) pc"

definition rtx_type :: "codec_info list \<Rightarrow> int" where
  "rtx_type codecs = (case find (\<lambda>c. ''rtx'' = co_name c) codecs of None \<Rightarrow> 0 | Some c \<Rightarrow> int (co_id c))"

definition create_video_send ::
    "('s, 'c, 'g, 'p) pc_env \<Rightarrow> codec_info list \<Rightarrow> stream_params \<Rightarrow> ('s, 'c, 'g, 'p) peer_connection \<Rightarrow> ('s, 'c, 'g, 'p) peer_connection" where
  "create_video_send E codecs st pc =
     (let ssrc = FirstSsrc st in
      if ssrc = 0 then pc
      else
        let rtx_ssrc = (case sp_ssrcs st of _ # s # _ \<Rightarrow> s | _ \<Rightarrow> pc_local_video_rtx_ssrc pc);
            (v, calls) = VideoSendStream (pe_rtcp E) (pe_now_us E) (pe_rtcp_report_timer_interval E) ssrc rtx_ssrc (rtx_type codecs)
        in pc_emit (replace_timers VideoSendSlot calls (map_option vs_rtcp (pc_video_send pc)))
             (pc\<lparr>pc_local_video_ssrc := ssrc, pc_local_video_rtx_ssrc := rtx_ssrc, pc_video_send := Some v\<rparr>))"

definition CreateVideoSendStream ::
    "('s, 'c, 'g, 'p) pc_env \<Rightarrow> media_content \<Rightarrow> ('s, 'c, 'g, 'p) peer_connection \<Rightarrow> ('s, 'c, 'g, 'p) peer_connection" where
  "CreateVideoSendStream E content pc = fold (create_video_send E (mc_codecs content)) (mc_streams content) pc"

subsection \<open>Descriptions\<close>

record pc_options = offer_options +
  use_rtp_mux :: bool
  use_rtcp_mux :: bool

text \<open>The sections the options ask for, and the streams in them.\<close>

definition offer_content :: "media_content \<Rightarrow> bool \<Rightarrow> bool \<Rightarrow> bool \<Rightarrow> stream_params list \<Rightarrow> media_content" where
  "offer_content content send recv rtcp_mux source =
     fold add_stream (if send then source else []) (content\<lparr>mc_direction := GetDirection send recv, mc_rtcp_mux := rtcp_mux\<rparr>)"

definition add_offer ::
    "('s, 'c, 'g, 'p) pc_env \<Rightarrow> nat option \<Rightarrow> bool \<Rightarrow> media_content \<Rightarrow> session_desc \<Rightarrow> session_desc" where
  "add_offer E cert wanted content d =
     (if wanted then snd (AddTransportInfo (pe_sdp E) (mid content) (pe_ice_params E) cert (AddContent content d)) else d)"

definition offer_bundle :: "bool \<Rightarrow> session_desc \<Rightarrow> session_desc" where
  "offer_bundle mux d =
     (if mux then
        let g = fold (\<lambda>c. AddContentName (mid c)) (sd_contents d) \<lparr>cg_semantics = ''BUNDLE'', cg_content_names = []\<rparr>
        in if cg_content_names g \<noteq> [] then AddGroup g d else d
      else d)"

definition offer_audio :: "('s, 'c, 'g, 'p) pc_env \<Rightarrow> pc_options \<Rightarrow> ('s, 'c, 'g, 'p) peer_connection \<Rightarrow> media_content" where
  "offer_audio E options pc =
     offer_content (AudioContentDescription (pe_junk E)) (send_audio options) (recv_audio options) (use_rtcp_mux options) (pc_audio_source pc)"

definition offer_video :: "('s, 'c, 'g, 'p) pc_env \<Rightarrow> pc_options \<Rightarrow> ('s, 'c, 'g, 'p) peer_connection \<Rightarrow> media_content" where
  "offer_video E options pc =
     offer_content (VideoContentDescription (pe_junk E)) (send_video options) (recv_video options) (use_rtcp_mux options) (pc_video_source pc)"

definition offer_desc :: "('s, 'c, 'g, 'p) pc_env \<Rightarrow> pc_options \<Rightarrow> ('s, 'c, 'g, 'p) peer_connection \<Rightarrow> session_desc" where
  "offer_desc E options pc =
     (let d1 = add_offer E (pc_certificate pc) (recv_audio options \<or> send_audio options) (offer_audio E options pc) (SessionDescription kOffer);
          d2 = add_offer E (pc_certificate pc) (recv_video options \<or> send_video options) (offer_video E options pc) d1
      in offer_bundle (use_rtp_mux options) d2)"

definition offer_streams :: "('s, 'c, 'g, 'p) pc_env \<Rightarrow> pc_options \<Rightarrow> ('s, 'c, 'g, 'p) peer_connection \<Rightarrow> ('s, 'c, 'g, 'p) peer_connection" where
  "offer_streams E options pc =
     (let pc1 = (if send_audio options then CreateAudioSendStream E (offer_audio E options pc) pc else pc)
      in if send_video options then CreateVideoSendStream E (offer_video E options pc) pc1 else pc1)"

text \<open>The text of the offer; without a certificate where one is needed, the empty text.\<close>

definition PcCreateOffer ::
    "('s, 'c, 'g, 'p) pc_env \<Rightarrow> pc_options \<Rightarrow> ('s, 'c, 'g, 'p) peer_connection \<Rightarrow> pc_fault + string \<times> ('s, 'c, 'g, 'p) peer_connection" where
  "PcCreateOffer E options pc =
     (if pc_is_dtls pc \<and> pc_certificate pc = None then Inr ([], pc)
      else
        let d = offer_desc E options pc in
        and_then (on_controller E (SetLocalDescription (pe_transport E) (pe_networks E) d) ((offer_streams E options pc)\<lparr>pc_local_desc := Some d\<rparr>)) (\<lambda>pc1.
          Inr (case pc_local_desc pc1 of None \<Rightarrow> [] | Some e \<Rightarrow> SdpToString (pe_sdp E) e, pc1)))"

definition answer_streams :: "('s, 'c, 'g, 'p) pc_env \<Rightarrow> sdp_parse \<Rightarrow> ('s, 'c, 'g, 'p) peer_connection \<Rightarrow> pc_fault + ('s, 'c, 'g, 'p) peer_connection" where
  "answer_streams E p pc =
     (if IsLive pc then
        and_then (CreateVideoReceiveStream E (content_of (pe_junk E) p MEDIA_TYPE_VIDEO) pc) (\<lambda>pc1.
          Inr (CreateAudioReceiveStream E (content_of (pe_junk E) p MEDIA_TYPE_AUDIO) pc1))
      else Inr pc)"

definition PcSetRemoteSdp ::
    "('s, 'c, 'g, 'p) pc_env \<Rightarrow> string \<Rightarrow> ('s, 'c, 'g, 'p) peer_connection \<Rightarrow> pc_fault + bool \<times> ('s, 'c, 'g, 'p) peer_connection" where
  "PcSetRemoteSdp E sdp pc =
     (case parse_sdp (pe_text E) sdp of
        None \<Rightarrow> Inr (False, pc)
      | Some (Inl (Rejected, p)) \<Rightarrow> Inr (False, pc\<lparr>pc_remote_desc := Some (partial_desc (pe_junk E) p)\<rparr>)
      | Some (Inl (OutOfRange, p)) \<Rightarrow> Inl UncaughtException
      | Some (Inr p) \<Rightarrow>
          let d = parsed_desc (pe_junk E) p in
          and_then (answer_streams E p (pc\<lparr>pc_remote_desc := Some d\<rparr>)) (\<lambda>pc1.
          and_then (on_controller E (SetRemoteDescription (pe_transport E) (now_ms (pe_now E)) d) pc1) (\<lambda>pc2. Inr (True, pc2))))"

subsection \<open>Destruction\<close>

text \<open>\<open>Destroy\<close> starts a timer of 10 ms that deletes the connection.\<close>

definition PcDestroy :: "('s, 'c, 'g, 'p) peer_connection \<Rightarrow> ('s, 'c, 'g, 'p) peer_connection" where
  "PcDestroy pc = pc\<lparr>pc_destroy_timer := True\<rparr>"

text \<open>The members go in the reverse order of their declaration, the streams first, then the controller.\<close>

definition delete_streams :: "('s, 'c, 'g, 'p) peer_connection \<Rightarrow> ('s, 'c, 'g, 'p) peer_connection" where
  "delete_streams pc =
     pc_emit (replace_timers VideoSendSlot [] (map_option vs_rtcp (pc_video_send pc)) @ replace_timers VideoReceiveSlot [] (map_option vr_rtcp (pc_video_receive pc))
         @ replace_timers AudioSendSlot [] (pc_audio_send pc) @ replace_timers AudioReceiveSlot [] (map_option ar_rtcp (pc_audio_receive pc)))
       (pc\<lparr>pc_destroy_timer := False, pc_rtt_reports := [], pc_video_send := None, pc_video_receive := None, pc_audio_send := None, pc_audio_receive := None\<rparr>)"

definition delete_pc ::
    "('s, 'c, 'g, 'p) pc_env \<Rightarrow> ('s, 'c, 'g, 'p) peer_connection \<Rightarrow> (agent_fault + pc_fault) + ('s, 'c, 'g, 'p) peer_connection" where
  "delete_pc E pc =
     (let pc1 = delete_streams pc in
      and_then (fault_of Inl (delete_controller (now_ms (pe_now E)) (pc_controller pc1))) (\<lambda>c.
        fault_of Inr (each (OnTcOut E) (drop (length (tc_out (pc_controller pc1))) (tc_out c)) (pc1\<lparr>pc_controller := c\<rparr>))))"

subsection \<open>The connection as a machine\<close>

datatype ('s, 'c, 'g, 'p) pc_event =
    PeSource media_type "stream_params list"
  | PeMode string
  | PePli bool
  | PeOffer "('s, 'c, 'g, 'p) pc_env" pc_options
  | PeAnswer "('s, 'c, 'g, 'p) pc_env" string
  | PeTransport "('s, 'c, 'g, 'p) pc_env" nat chan_event
  | PeAdapter "('s, 'c, 'g, 'p) pc_env" nat dtls_event
  | PeSend "('s, 'c, 'g, 'p) pc_env" media_type send_packet
  | PeSendRaw "('s, 'c, 'g, 'p) pc_env" bool bytes
  | PeSrInfo media_type u32 ntp_time
  | PeReportTimer "('s, 'c, 'g, 'p) pc_env" stream_slot
  | PePliTimer "('s, 'c, 'g, 'p) pc_env"
  | PeNackTimer "('s, 'c, 'g, 'p) pc_env"
  | PeDestroy

fun pc_step :: "('s, 'c, 'g, 'p) pc_event \<Rightarrow> ('s, 'c, 'g, 'p) peer_connection \<Rightarrow> pc_fault + ('s, 'c, 'g, 'p) peer_connection" where
  "pc_step (PeSource AUDIO source) pc = Inr (pc\<lparr>pc_audio_source := source\<rparr>)"
| "pc_step (PeSource VIDEO source) pc = Inr (pc\<lparr>pc_video_source := source\<rparr>)"
| "pc_step (PeMode mode) pc = Inr (set_mode mode pc)"
| "pc_step (PePli b) pc = Inr (pc\<lparr>pc_is_pli := b\<rparr>)"
| "pc_step (PeOffer E options) pc = and_then (PcCreateOffer E options pc) (\<lambda>(_, pc1). Inr pc1)"
| "pc_step (PeAnswer E sdp) pc = and_then (PcSetRemoteSdp E sdp pc) (\<lambda>(_, pc1). Inr pc1)"
| "pc_step (PeTransport E i e) pc = on_controller E (tc_step (TeChannel (pe_transport E) i e)) pc"
| "pc_step (PeAdapter E k e) pc = on_controller E (tc_step (TeAdapter (pe_transport E) k e)) pc"
| "pc_step (PeSend E m packet) pc = and_then (PcSendPacket E m packet pc) (\<lambda>(_, pc1). Inr pc1)"
| "pc_step (PeSendRaw E rtcp data) pc = and_then (if rtcp then PcSendRtcp E data pc else PcSendRtp E data pc) (\<lambda>(_, pc1). Inr pc1)"
| "pc_step (PeSrInfo m ts ntp) pc = Inr (PcSetSrInfo m ts ntp pc)"
| "pc_step (PeReportTimer E role) pc =
     (case role of
        VideoReceiveSlot \<Rightarrow> on_video_receive E (VrReportTimer (pe_rtcp E) (pe_now E)) pc
      | AudioReceiveSlot \<Rightarrow> on_audio_receive E (ArReportTimer (pe_rtcp E) (pe_now E)) pc
      | VideoSendSlot \<Rightarrow> on_video_send E (\<lambda>v. and_then (send_report VIDEO (pe_rtcp E) (pe_now E) (vs_rtcp v)) (\<lambda>(es, m). Inr (es, v\<lparr>vs_rtcp := m\<rparr>))) pc
      | AudioSendSlot \<Rightarrow> on_audio_send E (send_report AUDIO (pe_rtcp E) (pe_now E)) pc)"
| "pc_step (PePliTimer E) pc = on_video_receive E (VrPliTimer (pe_rtcp E) (pe_now E)) pc"
| "pc_step (PeNackTimer E) pc = on_video_receive E (VrNackTimer (pe_rtcp E) (pe_media E) (pe_now E)) pc"
| "pc_step PeDestroy pc = Inr (PcDestroy pc)"

inductive pc_reachable :: "nat option \<Rightarrow> ('s, 'c, 'g, 'p) peer_connection \<Rightarrow> bool" for cert where
  pc_init: "pc_reachable cert (PcInit cert (PeerConnection u))"
| pc_next: "pc_reachable cert pc \<Longrightarrow> pc_step e pc = Inr pc' \<Longrightarrow> pc_reachable cert pc'"

end
