(* ===== verification/RtcpProps.thy ===== *)
theory RtcpProps
  imports Rtcp
begin

text \<open>
  What a compound packet holds, how one is taken apart, and the times the reports carry.
\<close>

subsection \<open>Sending\<close>

text \<open>The packet types are distinct bits, in the order of \<open>RTCPPacketType\<close>.\<close>

definition rtcp_types_ok :: "('c, 'g, 'b) rtcp_lib_scheme \<Rightarrow> bool" where
  "rtcp_types_ok L \<longleftrightarrow> kRtcpReport L < kRtcpSr L \<and> kRtcpSr L < kRtcpRr L \<and> kRtcpRr L < kRtcpPli L \<and> kRtcpPli L < kRtcpNack L \<and>
     kRtcpNack L < kRtcpAnyExtendedReports L"

text \<open>A packet that fits is appended to the buffer.\<close>

definition create_ok :: "('c, 'g, 'b) rtcp_lib_scheme \<Rightarrow> (rtcp_packet \<Rightarrow> bytes) \<Rightarrow> bool" where
  "create_ok L enc \<longleftrightarrow> (\<forall>pkt buffer n. length buffer + length (enc pkt) \<le> n \<longrightarrow> rtcp_create L pkt n buffer = ([], buffer @ enc pkt))"

text \<open>The packets of a report: the statistics, the feedback asked for, the extended report.\<close>

definition report_packets :: "('c, 'g, 'b) rtcp_lib_scheme \<Rightarrow> feedback_state \<Rightarrow> report_block list \<Rightarrow> 'g rtcp_sender \<Rightarrow> rtcp_packet list" where
  "report_packets L fb blocks s =
     (if rs_sending s then
        (if rs_latest_rtp_timestamp s = 0 \<or> \<not> ntp_valid L (rs_latest_ntp s) then []
         else [SenderReport (rs_ssrc s) (rs_latest_rtp_timestamp s) (rs_latest_ntp s) (packets_sent fb) (ucast (media_bytes_sent fb))])
      else [ReceiverReport (rs_ssrc s) blocks])"

definition feedback_packets :: "('c, 'g, 'b) rtcp_lib_scheme \<Rightarrow> u32 \<Rightarrow> u16 list \<Rightarrow> 'g rtcp_sender \<Rightarrow> rtcp_packet list" where
  "feedback_packets L t nack_list s =
     (if t = kRtcpPli L then [Pli (rs_ssrc s) (rs_remote_ssrc s)]
      else if t = kRtcpNack L then [Nack (rs_ssrc s) (rs_remote_ssrc s) nack_list] else [])"

definition extended_packets :: "rtcp_now \<Rightarrow> 'g rtcp_sender \<Rightarrow> rtcp_packet list" where
  "extended_packets now s =
     (if \<not> rs_sending s \<and> rs_enable_xr s \<and> \<not> rs_audio s then [ExtendedReports (rs_ssrc s) (Some (now_ntp_time now))] else [])"

lemma prepare_compound:
  assumes "rtcp_types_ok L" "rs_method s = kCompound" "rs_report_flags s = []" "t \<in> {kRtcpReport L, kRtcpPli L, kRtcpNack L}"
  obtains i g where "PrepareReport L (SetFlag t True s) =
    s\<lparr>rs_report_flags := ((if rs_sending s then kRtcpSr L else kRtcpRr L), True) #
        (if t = kRtcpReport L then [] else [(t, True)]) @ (if \<not> rs_sending s \<and> rs_enable_xr s then [(kRtcpAnyExtendedReports L, True)] else []),
      rs_cur_report_interval_ms := i, rs_random := g\<rparr>"
proof -
  let ?m = "rs_report_interval_ms s"
  obtain i g where ig: "rl_rand L (rs_random s) (?m * 1 div 2) (?m * 3 div 2) = (i, g)" by (cases "rl_rand L (rs_random s) (?m * 1 div 2) (?m * 3 div 2)")
  have o: "kRtcpReport L < kRtcpSr L" "kRtcpSr L < kRtcpRr L" "kRtcpRr L < kRtcpPli L" "kRtcpPli L < kRtcpNack L" "kRtcpNack L < kRtcpAnyExtendedReports L"
    using assms(1) by (auto simp: rtcp_types_ok_def)
  then have "kRtcpReport L < kRtcpRr L" "kRtcpReport L < kRtcpPli L" "kRtcpReport L < kRtcpNack L" "kRtcpSr L < kRtcpPli L" "kRtcpSr L < kRtcpNack L"
    "kRtcpSr L < kRtcpAnyExtendedReports L" "kRtcpRr L < kRtcpNack L" "kRtcpRr L < kRtcpAnyExtendedReports L" "kRtcpPli L < kRtcpAnyExtendedReports L"
    by simp_all
  note o = o this
  have ne: "(x = y) = False \<and> (y = x) = False \<and> (x < y) = True \<and> (y < x) = False" if "x < y" for x y :: u32 using that by auto
  note cmp = o[THEN ne]
  have consume: "(if IsFlagPresent (kRtcpSr L) (SetFlag t True s) \<or> IsFlagPresent (kRtcpRr L) (SetFlag t True s) then x
      else let (c, s0) = ConsumeFlag (kRtcpReport L) False (SetFlag t True s) in f c s0) =
      f (t = kRtcpReport L) (s\<lparr>rs_report_flags := if t = kRtcpReport L then [] else [(t, True)]\<rparr>)" for x :: "bool \<times> 'b rtcp_sender" and f
    using assms(3,4) by (elim insertE) (simp_all add: SetFlag_def IsFlagPresent_def ConsumeFlag_def cmp)
  have "PrepareReport L (SetFlag t True s) =
    s\<lparr>rs_report_flags := ((if rs_sending s then kRtcpSr L else kRtcpRr L), True) #
        (if t = kRtcpReport L then [] else [(t, True)]) @ (if \<not> rs_sending s \<and> rs_enable_xr s then [(kRtcpAnyExtendedReports L, True)] else []),
      rs_cur_report_interval_ms := i, rs_random := g\<rparr>"
    unfolding PrepareReport_def consume using assms(2,4) ig
    by (elim insertE emptyE; cases "rs_sending s"; cases "rs_enable_xr s"; simp add: SetFlag_def cmp Let_def)
  then show thesis using that by blast
qed

lemma append_fits:
  assumes "create_ok L enc" "length (px_buffer x) + length (enc pkt) \<le> n" "px_sent x = []"
  shows "AppendPacket L n pkt x = \<lparr>px_buffer = px_buffer x @ enc pkt, px_sent = []\<rparr>"
  using assms by (simp add: AppendPacket_def create_ok_def)

definition fits :: "nat \<Rightarrow> (rtcp_packet \<Rightarrow> bytes) \<Rightarrow> rtcp_packet list \<Rightarrow> bool" where
  "fits n enc pkts \<longleftrightarrow> length (concat (map enc pkts)) \<le> n"

abbreviation holding :: "(rtcp_packet \<Rightarrow> bytes) \<Rightarrow> rtcp_packet list \<Rightarrow> packet_sender" where
  "holding enc pkts \<equiv> \<lparr>px_buffer = concat (map enc pkts), px_sent = []\<rparr>"

lemma append_holding: "create_ok L enc \<Longrightarrow> fits n enc (pkts @ [pkt]) \<Longrightarrow> AppendPacket L n pkt (holding enc pkts) = holding enc (pkts @ [pkt])"
  by (subst append_fits) (simp_all add: fits_def)

lemma fits_prefix: "fits n enc (xs @ ys) \<Longrightarrow> fits n enc xs"
  by (simp add: fits_def)

lemma compound_sent:
  assumes "rtcp_types_ok L" "create_ok L enc" "rs_method s = kCompound" "rs_report_flags s = []"
    and "t \<in> {kRtcpReport L, kRtcpPli L, kRtcpNack L}"
    and "CreateRtcpReportBlocks L now fb s stat = Inr (blocks, stat1)"
    and "pkts = report_packets L fb blocks s @ feedback_packets L t nack_list s @ extended_packets now s"
    and "fits (rs_max_packet_size s) enc pkts"
  shows "\<exists>s' stat'. SendRTCP L now fb t nack_list s stat = Inr (True, if concat (map enc pkts) = [] then [] else [concat (map enc pkts)], s', stat') \<and>
    rs_report_flags s' = [] \<and> stat' = (if rs_sending s then stat else stat1)"
proof -
  let ?r = "if rs_sending s then kRtcpSr L else kRtcpRr L" and ?xr = "kRtcpAnyExtendedReports L"
  let ?flags = "(?r, True) # (if t = kRtcpReport L then [] else [(t, True)]) @ (if \<not> rs_sending s \<and> rs_enable_xr s then [(?xr, True)] else [])"
  obtain i g where prep: "PrepareReport L (SetFlag t True s) = s\<lparr>rs_report_flags := ?flags, rs_cur_report_interval_ms := i, rs_random := g\<rparr>"
    using prepare_compound[OF assms(1,3,4,5)] .
  let ?s = "s\<lparr>rs_report_flags := ?flags, rs_cur_report_interval_ms := i, rs_random := g\<rparr>"
  let ?R = "report_packets L fb blocks s" and ?F = "feedback_packets L t nack_list s" and ?E = "extended_packets now s"
  let ?stat = "if rs_sending s then stat else stat1"
  have ne: "(x = y) = False \<and> (y = x) = False" if "x < y" for x y :: u32 using that by auto
  have lt: "kRtcpReport L < kRtcpSr L" "kRtcpSr L < kRtcpRr L" "kRtcpRr L < kRtcpPli L" "kRtcpPli L < kRtcpNack L" "kRtcpNack L < ?xr"
    "kRtcpReport L < kRtcpPli L" "kRtcpReport L < kRtcpNack L" "kRtcpSr L < kRtcpPli L" "kRtcpSr L < kRtcpNack L" "kRtcpSr L < ?xr"
    "kRtcpRr L < kRtcpNack L" "kRtcpRr L < ?xr" "kRtcpPli L < ?xr"
    using assms(1) by (auto simp: rtcp_types_ok_def)
  note cmp = lt[THEN ne]
  have fit: "fits (rs_max_packet_size s) enc ?R" "fits (rs_max_packet_size s) enc (?R @ ?F)" "fits (rs_max_packet_size s) enc ((?R @ ?F) @ ?E)"
    using assms(7,8) fits_prefix[of _ enc "?R" "?F @ ?E"] fits_prefix[of _ enc "?R @ ?F" "?E"] by simp_all
  have report: "build L now fb nack_list ?s ?r (holding enc [], stat) = Inr (holding enc ?R, ?stat)"
  proof (cases "rs_sending s")
    case True
    then show ?thesis using fit(1) append_holding[OF assms(2), of "rs_max_packet_size s" "[]"]
      by (auto simp: build_def cmp BuildSR_def report_packets_def)
  next
    case False
    have "CreateRtcpReportBlocks L now fb ?s stat = Inr (blocks, stat1)" using assms(6) by (simp add: CreateRtcpReportBlocks_def)
    then show ?thesis using False fit(1) append_holding[OF assms(2), of "rs_max_packet_size s" "[]"]
      by (auto simp: build_def cmp BuildRR_def report_packets_def)
  qed
  have feedback: "each (\<lambda>(t, _). build L now fb nack_list ?s t) (if t = kRtcpReport L then [] else [(t, True)]) (holding enc ?R, ?stat) =
      Inr (holding enc (?R @ ?F), ?stat)"
    using assms(5) fit(2) append_holding[OF assms(2), of "rs_max_packet_size s" ?R]
    by (elim insertE emptyE) (auto simp: build_def cmp BuildPli_def BuildNack_def feedback_packets_def)
  have extended: "each (\<lambda>(t, _). build L now fb nack_list ?s t) (if \<not> rs_sending s \<and> rs_enable_xr s then [(?xr, True)] else []) (holding enc (?R @ ?F), ?stat) =
      Inr (holding enc ((?R @ ?F) @ ?E), ?stat)"
    using fit(3) append_holding[OF assms(2), of "rs_max_packet_size s" "?R @ ?F"]
    by (auto simp: build_def BuildXr_def extended_packets_def)
  have "each (\<lambda>(t, _). build L now fb nack_list ?s t) ?flags (holding enc [], stat) = Inr (holding enc ((?R @ ?F) @ ?E), ?stat)"
    using report each_then[OF feedback extended] by simp
  then have "ComputeCompoundRTCPPacket L now fb nack_list t s stat = Inr (True, holding enc pkts, ?s\<lparr>rs_report_flags := []\<rparr>, ?stat)"
    using assms(3,7) by (simp add: ComputeCompoundRTCPPacket_def prep Let_def)
  then show ?thesis by (auto simp: SendRTCP_def PxSend_def)
qed


subsection \<open>Receiving\<close>

text \<open>A parsed block has a header and ends inside the packet.\<close>

definition header_ok :: "('c, 'g, 'b) rtcp_lib_scheme \<Rightarrow> bool" where
  "header_ok L \<longleftrightarrow> (\<forall>d b n. parse_header L d = Some (b, n) \<longrightarrow> 4 \<le> n \<and> n \<le> length d)"

text \<open>The blocks of a packet, and whether they end with the packet.\<close>

inductive block_chain :: "('c, 'g, 'b) rtcp_lib_scheme \<Rightarrow> bytes \<Rightarrow> rtcp_block list \<Rightarrow> bool \<Rightarrow> bool" for L where
  chain_end: "block_chain L [] [] True"
| chain_bad: "d \<noteq> [] \<Longrightarrow> parse_header L d = None \<Longrightarrow> block_chain L d [] False"
| chain_next: "d \<noteq> [] \<Longrightarrow> parse_header L d = Some (b, n) \<Longrightarrow> block_chain L (drop n d) bs whole \<Longrightarrow> block_chain L d (b # bs) whole"

fun handle_blocks :: "('c, 'g, 'b) rtcp_lib_scheme \<Rightarrow> rtcp_now \<Rightarrow> rtcp_block list \<Rightarrow> rtcp_receiver \<Rightarrow> rtcp_handled" where
  "handle_blocks L now [] r = (r, [])"
| "handle_blocks L now (b # bs) r =
     (case handle_block L now b r of (r1, es) \<Rightarrow> case handle_blocks L now bs r1 of (r2, fs) \<Rightarrow> (r2, es @ fs))"

lemma block_chain_exists: "header_ok L \<Longrightarrow> \<exists>bs whole. block_chain L d bs whole"
proof (induction d rule: measure_induct_rule[where f = length])
  case (less d)
  show ?case
  proof (cases "d = [] \<or> parse_header L d = None")
    case True
    then show ?thesis using block_chain.intros(1,2) by (cases "d = []") blast+
  next
    case False
    then obtain b n where p: "parse_header L d = Some (b, n)" by auto
    then have "4 \<le> n" using less.prems by (auto simp: header_ok_def)
    then have "length (drop n d) < length d" using False by auto
    then obtain bs whole where "block_chain L (drop n d) bs whole" using less by blast
    then show ?thesis using chain_next[OF _ p] False by blast
  qed
qed

lemma parse_chain:
  "block_chain L d bs whole \<Longrightarrow> ParseCompoundPacket L now first d r =
    Some (if bs = [] \<and> \<not> whole \<and> first then (False, r, [])
      else (True, (if whole then fst (handle_blocks L now bs r) else skip (fst (handle_blocks L now bs r))), snd (handle_blocks L now bs r)))"
proof (induction arbitrary: first r rule: block_chain.induct)
  case (chain_next d b n bs whole)
  obtain r1 es where h: "handle_block L now b r = (r1, es)" by (cases "handle_block L now b r")
  show ?case
    by (subst ParseCompoundPacket.simps) (use chain_next h in \<open>auto simp: Let_def split: prod.splits\<close>)
qed (subst ParseCompoundPacket.simps, simp)+

text \<open>
  C24: The parser of compound packets always returns. It handles the blocks of the packet one after the
  other, each once, and a tail that is no block is only counted; a packet that does not begin with a
  block changes nothing.
\<close>

theorem compound_packet_parsed:
  assumes "header_ok L"
  shows "\<exists>bs whole. block_chain L d bs whole \<and>
    IncomingRtcpPacket L now d r = Some (if bs = [] then (r, [])
      else ((if whole then fst (handle_blocks L now bs r) else skip (fst (handle_blocks L now bs r))), snd (handle_blocks L now bs r)))"
proof -
  obtain bs whole where c: "block_chain L d bs whole" using block_chain_exists[OF assms] by blast
  have "IncomingRtcpPacket L now d r = Some (if bs = [] then (r, [])
      else ((if whole then fst (handle_blocks L now bs r) else skip (fst (handle_blocks L now bs r))), snd (handle_blocks L now bs r)))"
  proof (cases "d = []")
    case True
    then have "bs = []" using c by (auto elim: block_chain.cases)
    then show ?thesis using True by (simp add: IncomingRtcpPacket_def)
  next
    case False
    then have "bs = [] \<Longrightarrow> \<not> whole" using c by (auto elim: block_chain.cases)
    then show ?thesis using False parse_chain[OF c, of now True r] by (auto simp: IncomingRtcpPacket_def)
  qed
  then show ?thesis using c by blast
qed

subsection \<open>The times in the reports\<close>

text \<open>The middle 32 bits of an NTP time; the time zero is the invalid one.\<close>

definition ntp_ok :: "('c, 'g, 'b) rtcp_lib_scheme \<Rightarrow> bool" where
  "ntp_ok L \<longleftrightarrow> (\<forall>secs fraction. CompactNtp L (secs, fraction) = push_bit 16 (and secs 0x0000FFFF) + drop_bit 16 (and fraction 0xFFFF0000)) \<and>
     (\<forall>t. ntp_valid L t \<longleftrightarrow> t \<noteq> (0, 0))"

text \<open>
  Once a sender report of the remote stream has come, every block of a receiver report carries the
  report's own time and the time passed since it arrived, modulo \<open>2^32\<close> in units of 2^-16 seconds.
\<close>

theorem receiver_report_times:
  assumes "ntp_ok L" "parse_sr L b = Some sr" "bk_type b = sr_type L" "sr_sender_ssrc sr = rr_remote_ssrc (md_receiver m)" "now_ntp t0 \<noteq> (0, 0)"
    and "m' = m\<lparr>md_receiver := fst (handle_block L t0 b (md_receiver m))\<rparr>"
    and "rs_receive_stat s" "CreateRtcpReportBlocks L t1 (GetFeedbackState L m') s stat = Inr (blocks, stat')"
  shows "\<forall>rb\<in>set blocks. rb_last_sr rb = CompactNtp L (sr_ntp sr) \<and> rb_delay_last_sr rb = CompactNtp L (now_ntp t1) - CompactNtp L (now_ntp t0)"
proof -
  obtain s1 f1 where a: "sr_ntp sr = (s1, f1)" by (cases "sr_ntp sr")
  obtain s2 f2 where n: "now_ntp t0 = (s2, f2)" by (cases "now_ntp t0")
  have r: "rr_remote_sender_ntp_time (md_receiver m') = (s1, f1)" "rr_last_received_sr_ntp (md_receiver m') = (s2, f2)"
    using assms(2-4,6) a n by (simp_all add: handle_block_def HandleSr_def)
  then have fb: "remote_sr (GetFeedbackState L m') = CompactNtp L (sr_ntp sr)" "last_rr_ntp_secs (GetFeedbackState L m') = s2"
    "last_rr_ntp_frac (GetFeedbackState L m') = f2"
    using assms(1,5) a n by (simp_all add: GetFeedbackState_def NTP_def ntp_ok_def)
  have "s2 > 0 \<or> f2 > 0" using assms(5) n by (auto simp: word_gt_0)
  then obtain raw where "blocks = map (with_last_sr L t1 (GetFeedbackState L m')) raw"
    using assms(7,8) fb by (auto simp: CreateRtcpReportBlocks_def split: option.splits)
  then show ?thesis using fb assms(1) n by (auto simp: with_last_sr_def ntp_ok_def)
qed

text \<open>
  The round trip time of an extended report is the time between sending the reference time and the
  answer less the delay at the peer, also when the 32-bit clock wraps in between. The report is
  then counted as skipped as well, because its case runs into that of the feedback packets.
\<close>

theorem round_trip_time:
  assumes "bk_type b = xr_type L" "sr_type L \<noteq> xr_type L" "rr_type L \<noteq> xr_type L" "bk_fmt b \<noteq> nack_fmt L"
    and "parse_dlrr L b = Some [\<lparr>rti_ssrc = rr_main_ssrc r, rti_last_rr = CompactNtp L sent, rti_delay_since_last_rr = delay\<rparr>]"
    and "rr_register_ssrcs r = rr_main_ssrc r # ssrcs" "rr_enable_xr r" "CompactNtp L sent \<noteq> 0"
    and "CompactNtp L (now_ntp now) = CompactNtp L sent + delay + rtt"
  shows "handle_block L now b r =
    (r\<lparr>rr_xr_rr_rtt_ms := CompactNtpRttToMs L rtt, rr_num_skipped_packet := rr_num_skipped_packet r + 1\<rparr>, [OnRtt (CompactNtpRttToMs L rtt)])"
proof -
  have "CompactNtp L (now_ntp now) - delay - CompactNtp L sent = rtt" using assms(9) by simp
  then show ?thesis using assms(1-8)
    by (simp add: handle_block_def HandleXr_def HandleXrDlrrReport_def HandleRtpfb_def skip_def Let_def)
qed

subsection \<open>A run\<close>

text \<open>
  A library with one byte per field where that is enough: a block is a type, a format, a length and
  a filler, then its payload.
\<close>

definition demo_header :: "bytes \<Rightarrow> (rtcp_block \<times> nat) option" where
  "demo_header d = (case d of
     t # f # n # _ # rest \<Rightarrow> if unat n \<le> length rest
       then Some (\<lparr>bk_type = unat t, bk_fmt = unat f, bk_payload = take (unat n) rest\<rparr>, 4 + unat n) else None
   | _ \<Rightarrow> None)"

definition demo_sr :: sr_info where
  "demo_sr = \<lparr>sr_sender_ssrc = 7, sr_ntp = (5, 0x80000000), sr_rtp_timestamp = 90, sr_packet_count = 3, sr_octet_count = 300\<rparr>"

fun demo_enc :: "rtcp_packet \<Rightarrow> bytes" where
  "demo_enc (SenderReport _ _ _ _ _) = [200]"
| "demo_enc (ReceiverReport _ _) = [201]"
| "demo_enc (Nack _ _ _) = [205]"
| "demo_enc (Pli _ _) = [206]"
| "demo_enc (ExtendedReports _ _) = [207]"

definition demo_rtcp :: "(unit, unit) rtcp_lib" where
  "demo_rtcp = \<lparr>rl_stat = \<lparr>UnwrapWithoutUpdate = (\<lambda>_ n. uint n), CountersEmpty = (), CountersAddPacket = (\<lambda>_ c. c), TransmittedPackets = (\<lambda>_. 0),
       RetransmittedPackets = (\<lambda>_. 0)\<rparr>,
     rl_rand = (\<lambda>g lo hi. (lo, g)), rl_seed = (\<lambda>_. ()), kRtcpReport = 1, kRtcpSr = 2, kRtcpRr = 4, kRtcpPli = 32, kRtcpNack = 64,
     kRtcpXrReceiverReferenceTime = 0x40000, kRtcpXrDlrrReportBlock = 0x80000, RTCP_MAX_REPORT_BLOCKS = 31, ntp_valid = (\<lambda>t. t \<noteq> (0, 0)),
     CompactNtp = (\<lambda>(secs, fraction). push_bit 16 (and secs 0x0000FFFF) + drop_bit 16 (and fraction 0xFFFF0000)), CompactNtpRttToMs = (\<lambda>n. uint n * 1000 div 65536),
     rtcp_create = (\<lambda>pkt n buffer. if length buffer + length (demo_enc pkt) \<le> n then ([], buffer @ demo_enc pkt) else ([buffer], demo_enc pkt)),
     parse_header = demo_header, sr_type = 200, rr_type = 201, xr_type = 207, rtpfb_type = 205, nack_fmt = 1,
     parse_sr = (\<lambda>_. Some demo_sr), parse_dlrr = (\<lambda>_. Some [\<lparr>rti_ssrc = 1, rti_last_rr = 0xFFFF0000, rti_delay_since_last_rr = 0x10000\<rparr>]),
     parse_nack = (\<lambda>_. None)\<rparr>"

lemma demo_rtcp_ok: "rtcp_types_ok demo_rtcp" "create_ok demo_rtcp demo_enc" "header_ok demo_rtcp" "ntp_ok demo_rtcp"
  by (simp_all add: demo_rtcp_def rtcp_types_ok_def kRtcpAnyExtendedReports_def create_ok_def header_ok_def ntp_ok_def demo_header_def
      split: list.splits if_splits)

definition demo_now :: rtcp_now where
  "demo_now = \<lparr>now_ms = 1000, now_ntp = (7, 0), now_ntp_time = (7, 0)\<rparr>"

definition demo_rtcp_sender :: "unit rtcp_sender" where
  "demo_rtcp_sender = SetRtcpStatus kCompound ((RTCPSender demo_rtcp 0 (RtpRtcpConfig\<lparr>cf_local_media_ssrc := 1, cf_receive_stat := True, cf_enable_xr := True\<rparr>))\<lparr>rs_remote_ssrc := 7\<rparr>)"

definition demo_received :: "unit receive_stat" where
  "demo_received = OnRtpPacket (rl_stat demo_rtcp) 900 \<lparr>rp_ssrc = 7, rp_sequence_number = 30, rp_timestamp = 90, rp_payload_type_frequency = 90000\<rparr> ReceiveStat"

lemmas demo_rtcp_eval = demo_rtcp_sender_def RTCPSender_def RtpRtcpConfig_def SetRtcpStatus_def IP_PACKET_SIZE_def

lemma demo_blocks: "\<exists>blocks stat'. CreateRtcpReportBlocks demo_rtcp demo_now fb demo_rtcp_sender demo_received = Inr (blocks, stat') \<and> blocks \<noteq> []"
  by (simp add: CreateRtcpReportBlocks_def demo_rtcp_eval RtcpReportBlocks_def demo_received_def OnRtpPacket_def GetOrCreateStat_def ReceiveStat_def
      MaybeAppendReportBlockAndReset_def Let_def hm_put_def demo_now_def UpdateCounters_def StreamStat_def ReceivedRtpPacket_def demo_rtcp_def kStreamStatTimeoutMs_def
      split: prod.splits)


theorem compound_packet_parsed_witness:
  "\<exists>bs whole. block_chain demo_rtcp [200, 0, 0, 0, 99] bs whole \<and>
    IncomingRtcpPacket demo_rtcp demo_now [200, 0, 0, 0, 99] (RTCPReceiver RtpRtcpConfig) = Some (if bs = [] then (RTCPReceiver RtpRtcpConfig, [])
      else ((if whole then fst (handle_blocks demo_rtcp demo_now bs (RTCPReceiver RtpRtcpConfig))
          else skip (fst (handle_blocks demo_rtcp demo_now bs (RTCPReceiver RtpRtcpConfig)))), snd (handle_blocks demo_rtcp demo_now bs (RTCPReceiver RtpRtcpConfig))))"
  by (rule compound_packet_parsed[OF demo_rtcp_ok(3)])

theorem receiver_report_times_witness:
  "\<exists>blocks stat' m'. CreateRtcpReportBlocks demo_rtcp demo_now (GetFeedbackState demo_rtcp m') demo_rtcp_sender demo_received = Inr (blocks, stat') \<and> blocks \<noteq> [] \<and>
    (\<forall>rb\<in>set blocks. rb_last_sr rb = 0x58000 \<and> rb_delay_last_sr rb = 0x10000)"
proof -
  let ?b = "\<lparr>bk_type = 200, bk_fmt = 0, bk_payload = []\<rparr>"
  let ?m = "MdSetRemoteSsrc 7 (fst (RtpRtcpImpl demo_rtcp 0 RtpRtcpConfig))" and ?t0 = "demo_now\<lparr>now_ntp := (6, 0)\<rparr>"
  let ?m' = "?m\<lparr>md_receiver := fst (handle_block demo_rtcp ?t0 ?b (md_receiver ?m))\<rparr>"
  obtain blocks stat' where b: "CreateRtcpReportBlocks demo_rtcp demo_now (GetFeedbackState demo_rtcp ?m') demo_rtcp_sender demo_received = Inr (blocks, stat')" "blocks \<noteq> []"
    using demo_blocks by blast
  have "\<forall>rb\<in>set blocks. rb_last_sr rb = CompactNtp demo_rtcp (sr_ntp demo_sr) \<and>
      rb_delay_last_sr rb = CompactNtp demo_rtcp (now_ntp demo_now) - CompactNtp demo_rtcp (now_ntp ?t0)"
    by (rule receiver_report_times[OF demo_rtcp_ok(4) _ _ _ _ refl _ b(1)])
      (simp_all add: demo_rtcp_eval demo_now_def demo_sr_def MdSetRemoteSsrc_def RtpRtcpImpl_def Let_def, simp_all add: demo_rtcp_def demo_sr_def)
  then have "\<forall>rb\<in>set blocks. rb_last_sr rb = 0x58000 \<and> rb_delay_last_sr rb = 0x10000"
    by (simp add: demo_rtcp_def demo_sr_def demo_now_def)
  then show ?thesis using b by blast
qed

theorem round_trip_time_witness:
  "snd (handle_block demo_rtcp (demo_now\<lparr>now_ntp := (0, 0x80000000)\<rparr>) \<lparr>bk_type = 207, bk_fmt = 0, bk_payload = []\<rparr>
     (RTCPReceiver (RtpRtcpConfig\<lparr>cf_local_media_ssrc := 1, cf_enable_xr := True\<rparr>))) = [OnRtt 500]"
  by (subst round_trip_time[where sent = "(0xFFFF, 0)" and delay = "0x10000" and rtt = "0x8000" and ssrcs = "[]"])
    (simp_all add: demo_rtcp_def RTCPReceiver_def RtpRtcpConfig_def demo_now_def)

end
