(* ===== verification/PcFrame.thy ===== *)
theory PcFrame
  imports PeerConnection RtcpProps TransportProps
begin

text \<open>
  What the handlers of a peer connection leave alone: a relation between the connection before and
  after, built from one for its streams and one for their RTCP modules.
\<close>

locale frame_rel =
  fixes R :: "'a \<Rightarrow> 'a \<Rightarrow> bool"
  assumes refl [simp]: "R a a"
    and trans: "R a b \<Longrightarrow> R b c \<Longrightarrow> R a c"
begin

lemma each_keeps:
  assumes "each f xs a = Inr b" "\<And>x a b. f x a = Inr b \<Longrightarrow> R a b"
  shows "R a b"
  using assms(1)
proof (induction xs arbitrary: a)
  case (Cons x xs)
  then obtain c where "f x a = Inr c" "each f xs c = Inr b" by (auto simp: and_then_Inr)
  then show ?case using assms(2) Cons.IH trans by blast
qed simp

lemma fold_keeps: "(\<And>x a. R a (f x a)) \<Longrightarrow> R a (fold f xs a)"
  by (induction xs arbitrary: a) (auto intro: trans)

end

lemma fault_of_Inr [simp]: "fault_of f r = Inr a \<longleftrightarrow> r = Inr a"
  by (cases r) simp_all

subsection \<open>Modules\<close>

definition sender_keeps :: "'g rtcp_sender \<Rightarrow> 'g rtcp_sender \<Rightarrow> bool" where
  "sender_keeps s s' \<longleftrightarrow> rs_audio s' = rs_audio s \<and> rs_ssrc s' = rs_ssrc s \<and> rs_remote_ssrc s' = rs_remote_ssrc s \<and>
     rs_receive_stat s' = rs_receive_stat s \<and> rs_method s' = rs_method s \<and> rs_sending s' = rs_sending s \<and> rs_enable_xr s' = rs_enable_xr s \<and>
     rs_max_packet_size s' = rs_max_packet_size s \<and> (list_all snd (rs_report_flags s) \<longrightarrow> list_all snd (rs_report_flags s'))"

definition md_keeps :: "'g rtp_rtcp \<Rightarrow> 'g rtp_rtcp \<Rightarrow> bool" where
  "md_keeps m m' \<longleftrightarrow> md_report_timer m' = md_report_timer m \<and> md_pli_timer m' = md_pli_timer m \<and> md_rtx_send_ssrc m' = md_rtx_send_ssrc m \<and>
     sender_keeps (md_sender m) (md_sender m') \<and> (rs_report_flags (md_sender m) = [] \<longrightarrow> rs_report_flags (md_sender m') = [])"

interpretation sk: frame_rel sender_keeps
  by unfold_locales (auto simp: sender_keeps_def)

interpretation mk: frame_rel md_keeps
  by unfold_locales (auto simp: md_keeps_def sender_keeps_def)

lemma insert_flag_volatile: "list_all snd fs \<Longrightarrow> list_all snd (insert_flag t True fs)"
  by (induction fs) auto

lemma set_flag_keeps: "sender_keeps s (SetFlag t True s)"
  by (simp add: sender_keeps_def SetFlag_def insert_flag_volatile)

lemma consume_keeps: "sender_keeps s (snd (ConsumeFlag t force s))"
  by (auto simp: sender_keeps_def ConsumeFlag_def list_all_iff split: option.splits)

lemma prepare_keeps: "sender_keeps s (PrepareReport L s)"
proof -
  let ?first = "if IsFlagPresent (kRtcpSr L) s \<or> IsFlagPresent (kRtcpRr L) s then (True, s)
             else let (c, s0) = ConsumeFlag (kRtcpReport L) False s; g = (c \<and> rs_method s0 = kReducedSize \<or> rs_method s0 = kCompound)
                  in (g, if g then SetFlag (if rs_sending s0 then kRtcpSr L else kRtcpRr L) True s0 else s0)"
  obtain b s1 where p: "?first = (b, s1)" by (cases "?first")
  obtain c s0 where q: "ConsumeFlag (kRtcpReport L) False s = (c, s0)" by (cases "ConsumeFlag (kRtcpReport L) False s")
  have "sender_keeps s s0" using consume_keeps[of s "kRtcpReport L" False] q by simp
  then have 1: "sender_keeps s s1" using p q sk.trans[OF _ set_flag_keeps] by (auto simp: Let_def split: if_splits)
  let ?s2 = "if b \<and> \<not> rs_sending s1 \<and> rs_enable_xr s1 then SetFlag (kRtcpAnyExtendedReports L) True s1 else s1"
  have 2: "sender_keeps s1 ?s2" by (simp add: set_flag_keeps)
  obtain i g where r: "rl_rand L (rs_random ?s2) (rs_report_interval_ms ?s2 * 1 div 2) (rs_report_interval_ms ?s2 * 3 div 2) = (i, g)"
    by (cases "rl_rand L (rs_random ?s2) (rs_report_interval_ms ?s2 * 1 div 2) (rs_report_interval_ms ?s2 * 3 div 2)")
  have "PrepareReport L s = ?s2\<lparr>rs_cur_report_interval_ms := i, rs_random := g\<rparr>"
    unfolding PrepareReport_def p using r by (simp only: Let_def prod.case)
  moreover have "sender_keeps ?s2 (?s2\<lparr>rs_cur_report_interval_ms := i, rs_random := g\<rparr>)" by (simp add: sender_keeps_def)
  ultimately show ?thesis using sk.trans[OF sk.trans[OF 1 2]] by simp
qed

lemma send_rtcp_keeps:
  assumes "SendRTCP L now fb t ids s stat = Inr (ok, sent, s', stat')"
  shows "sender_keeps s s' \<and> (rs_report_flags s = [] \<longrightarrow> rs_report_flags s' = [])"
proof -
  let ?s = "PrepareReport L (SetFlag t True s)"
  have k: "sender_keeps s ?s" using sk.trans set_flag_keeps prepare_keeps by blast
  have "s' = s \<or> s' = ?s\<lparr>rs_report_flags := filter (\<lambda>(_, v). \<not> v) (rs_report_flags ?s)\<rparr>"
    using assms by (auto simp: SendRTCP_def ComputeCompoundRTCPPacket_def and_then_Inr Let_def split: if_splits)
  moreover have "sender_keeps s (?s\<lparr>rs_report_flags := filter (\<lambda>(_, v). \<not> v) (rs_report_flags ?s)\<rparr>)"
    using k by (auto simp: sender_keeps_def list_all_iff)
  moreover have "rs_report_flags s = [] \<Longrightarrow> filter (\<lambda>(_, v). \<not> v) (rs_report_flags ?s) = []"
    using k by (auto simp: sender_keeps_def list_all_iff filter_empty_conv)
  ultimately show ?thesis by auto
qed

lemma md_send_keeps: "MdSendRTCP L now t ids m stat = Inr (sent, m', stat') \<Longrightarrow> md_keeps m m'"
  using send_rtcp_keeps by (fastforce simp: MdSendRTCP_def md_keeps_def and_then_Inr)

lemma md_receive_keeps: "MdIncomingRtcpPacket L now d m = Some (m', es) \<Longrightarrow> md_keeps m m'"
  by (auto simp: MdIncomingRtcpPacket_def md_keeps_def)

lemma md_count_keeps: "md_keeps m (UpdateRtpStat now ssrc n m)"
  by (simp add: UpdateRtpStat_def md_keeps_def)

lemma md_sr_keeps: "md_keeps m (MdSetSrInfo ts ntp m)"
  by (simp add: MdSetSrInfo_def SetSrInfo_def md_keeps_def sender_keeps_def)

lemma module_send_keeps:
  assumes "module_send k r = Inr (es, m', stat')" "\<And>sent m' stat'. r = Inr (sent, m', stat') \<Longrightarrow> md_keeps m m'"
  shows "md_keeps m m' \<and> (\<exists>sent. es = map (OutLocalRtcp k) sent)"
  using assms by (auto simp: module_send_def rtcp_sent_def split: sum.splits rtcp_fault.splits)

lemma report_keeps:
  "and_then (TimeToSendRTCP L now m stat) (\<lambda>(sent, _, md, stat). Inr (sent, md, stat)) = Inr (sent, m', stat') \<Longrightarrow> md_keeps m m'"
  by (auto simp: TimeToSendRTCP_def and_then_Inr dest: md_send_keeps)

subsection \<open>Streams\<close>

definition vr_keeps :: "('c, 'g, 'p) video_receive \<Rightarrow> ('c, 'g, 'p) video_receive \<Rightarrow> bool" where
  "vr_keeps v v' \<longleftrightarrow> vr_config v' = vr_config v \<and> md_keeps (vr_rtcp v) (vr_rtcp v')"

definition vs_keeps :: "'g video_send \<Rightarrow> 'g video_send \<Rightarrow> bool" where
  "vs_keeps v v' \<longleftrightarrow> vs_rtx_payload_type v' = vs_rtx_payload_type v \<and> vs_local_rtx_ssrc v' = vs_local_rtx_ssrc v \<and> md_keeps (vs_rtcp v) (vs_rtcp v')"

definition ar_keeps :: "('c, 'g) audio_receive \<Rightarrow> ('c, 'g) audio_receive \<Rightarrow> bool" where
  "ar_keeps a a' \<longleftrightarrow> md_keeps (ar_rtcp a) (ar_rtcp a')"

interpretation vrk: frame_rel vr_keeps
  by unfold_locales (auto simp: vr_keeps_def intro: mk.trans)

interpretation vsk: frame_rel vs_keeps
  by unfold_locales (auto simp: vs_keeps_def intro: mk.trans)

interpretation ark: frame_rel ar_keeps
  by unfold_locales (auto simp: ar_keeps_def intro: mk.trans)

text \<open>The state of a stream beside the list of what it has said.\<close>

interpretation vrp: frame_rel "\<lambda>a b. vr_keeps (snd a) (snd b)"
  by unfold_locales (auto intro: vrk.trans)

lemma nack_send_keeps: "OnNackSend L now ids a = Inr b \<Longrightarrow> vr_keeps (snd a) (snd b)"
  by (cases a) (auto simp: OnNackSend_def SendNack_def and_then_Inr vr_keeps_def dest!: module_send_keeps md_send_keeps)

lemma nack_batches_keep: "each (OnNackSend L now) batches (es, v) = Inr (es', v') \<Longrightarrow> vr_keeps v v'"
  using vrp.each_keeps[of "OnNackSend L now" batches "(es, v)" "(es', v')"] nack_send_keeps by fastforce

lemma payload_cases:
  assumes "OnReceivedPayloadData L M now p h v = Inr (es, v')"
  obtains nack batches out v1 packets buffer frames where "each (OnNackSend L now) batches ([], v\<lparr>vr_nack := nack\<rparr>) = Inr (out, v1)"
    "OnInsertedPacket None packets = Inr frames" "es = out @ frames" "v' = v1\<lparr>vr_packet_buffer := buffer\<rparr>"
proof -
  let ?h = "h\<lparr>is_last_packet_in_frame := is_last_packet_in_frame h \<or> mp_marker p\<rparr>"
  obtain nack w batches where n: "OnReceivedPacket (ml_seq M) (now_ms now) (mp_sequence_number p) (is_first_packet_in_frame ?h \<and> vh_key ?h) (mp_recovered p) (vr_nack v) =
      (nack, w, batches)" by (metis prod_cases3)
  then obtain out v1 where 1: "each (OnNackSend L now) batches ([], v\<lparr>vr_nack := nack\<rparr>) = Inr (out, v1)"
    "(case insert_packet M (vr_packet_buffer v1) \<lparr>bf_seq_num = mp_sequence_number p, bf_header = ?h\<rparr> of (packets, buffer) \<Rightarrow>
       and_then (OnInsertedPacket None packets) (\<lambda>frames. Inr (out @ frames, v1\<lparr>vr_packet_buffer := buffer\<rparr>))) = Inr (es, v')"
    using assms by (auto simp: OnReceivedPayloadData_def and_then_Inr Let_def)
  obtain packets buffer where "insert_packet M (vr_packet_buffer v1) \<lparr>bf_seq_num = mp_sequence_number p, bf_header = ?h\<rparr> = (packets, buffer)"
    by (cases "insert_packet M (vr_packet_buffer v1) \<lparr>bf_seq_num = mp_sequence_number p, bf_header = ?h\<rparr>")
  then show ?thesis using that 1 by (auto simp: and_then_Inr)
qed

lemma payload_keeps: "OnReceivedPayloadData L M now p h v = Inr (es, v') \<Longrightarrow> vr_keeps v v'"
  by (elim payload_cases) (auto simp: vr_keeps_def dest!: nack_batches_keep)

lemma rv_packet_keeps: "RvOnRtpPacket L M now p v = Inr (es, v') \<Longrightarrow> vr_keeps v v'"
  by (auto simp: RvOnRtpPacket_def ReceivePacket_def and_then_Inr vr_keeps_def split: if_splits option.splits dest!: payload_keeps)

lemma vr_packet_keeps: "VrOnRtpPacket L M now p v = Inr (es, v') \<Longrightarrow> vr_keeps v v'"
  by (auto simp: VrOnRtpPacket_def RtxOnRtpPacket_def Let_def vr_keeps_def split: if_splits option.splits dest!: rv_packet_keeps)

lemma module_receive_keeps: "module_receive (MdIncomingRtcpPacket L now d m) = Inr (es, m') \<Longrightarrow> md_keeps m m'"
  by (auto simp: module_receive_def split: option.splits dest: md_receive_keeps)

lemma vr_rtcp_keeps: "VrDeliverRtcp L now d v = Inr (es, v') \<Longrightarrow> vr_keeps v v'"
  by (auto simp: VrDeliverRtcp_def and_then_Inr vr_keeps_def dest: module_receive_keeps)

lemma vs_rtcp_keeps: "VsDeliverRtcp L now d v = Inr (es, v') \<Longrightarrow> vs_keeps v v'"
  by (auto simp: VsDeliverRtcp_def and_then_Inr vs_keeps_def dest: module_receive_keeps)

lemma ar_rtcp_keeps: "ArDeliverRtcp L now d a = Inr (es, a') \<Longrightarrow> ar_keeps a a'"
  by (auto simp: ArDeliverRtcp_def and_then_Inr ar_keeps_def dest: module_receive_keeps)

lemma vr_timers_keep:
  "VrReportTimer L now v = Inr (es, v') \<Longrightarrow> vr_keeps v v'"
  "VrPliTimer L now v = Inr (es, v') \<Longrightarrow> vr_keeps v v'"
  "VrNackTimer L M now v = Inr (es, v') \<Longrightarrow> vr_keeps v v'"
proof -
  show "VrReportTimer L now v = Inr (es, v') \<Longrightarrow> vr_keeps v v'"
    unfolding VrReportTimer_def and_then_Inr by (auto simp: vr_keeps_def dest!: module_send_keeps[OF _ report_keeps])
  show "VrPliTimer L now v = Inr (es, v') \<Longrightarrow> vr_keeps v v'"
    unfolding VrPliTimer_def RequestPli_def and_then_Inr by (auto simp: vr_keeps_def dest!: module_send_keeps[OF _ md_send_keeps])
  show "VrNackTimer L M now v = Inr (es, v') \<Longrightarrow> vr_keeps v v'"
    by (auto simp: VrNackTimer_def Let_def vr_keeps_def split: prod.splits dest!: nack_batches_keep)
qed

lemma ar_timer_keeps: "ArReportTimer L now a = Inr (es, a') \<Longrightarrow> ar_keeps a a'"
  unfolding ArReportTimer_def and_then_Inr by (auto simp: ar_keeps_def dest!: module_send_keeps[OF _ report_keeps])

lemma send_report_keeps: "send_report k L now m = Inr (es, m') \<Longrightarrow> md_keeps m m'"
  unfolding send_report_def and_then_Inr by (auto dest!: module_send_keeps[OF _ report_keeps])

lemma rtt_keeps: "vr_keeps v (VrOnRttUpdate t v)"
  by (simp add: VrOnRttUpdate_def vr_keeps_def)

lemma rtx_keeps: "BuildRtxPacket M p v = (r, v') \<Longrightarrow> vs_keeps v v'"
  by (auto simp: BuildRtxPacket_def Let_def vs_keeps_def split: if_splits)

lemma vs_count_keeps: "vs_keeps v (VsUpdateRtpStat now p v)"
  by (simp add: VsUpdateRtpStat_def vs_keeps_def md_count_keeps)

subsection \<open>The connection\<close>

text \<open>Two descriptions that differ in the candidates of their sections only.\<close>

definition same_desc :: "session_desc \<Rightarrow> session_desc \<Rightarrow> bool" where
  "same_desc d d' \<longleftrightarrow> sd_type d' = sd_type d \<and> sd_groups d' = sd_groups d \<and> sd_transports d' = sd_transports d \<and>
     map (add_candidates []) (sd_contents d') = map (add_candidates []) (sd_contents d)"

fun is_timer :: "pc_out \<Rightarrow> bool" where
  "is_timer (PcTimer _ _) = True"
| "is_timer _ = False"

definition pc_static :: "('s, 'c, 'g, 'p) peer_connection \<Rightarrow> ('s, 'c, 'g, 'p) peer_connection \<Rightarrow> bool" where
  "pc_static p q \<longleftrightarrow> pc_is_dtls q = pc_is_dtls p \<and> pc_is_pli q = pc_is_pli p \<and> pc_transport_mode q = pc_transport_mode p \<and>
     pc_remote_desc q = pc_remote_desc p \<and> pc_certificate q = pc_certificate p \<and> pc_destroy_timer q = pc_destroy_timer p \<and>
     pc_audio_source q = pc_audio_source p \<and> pc_video_source q = pc_video_source p \<and> pc_remote_audio_ssrc q = pc_remote_audio_ssrc p \<and>
     pc_remote_video_ssrc q = pc_remote_video_ssrc p \<and> pc_remote_video_rtx_ssrc q = pc_remote_video_rtx_ssrc p \<and>
     pc_audio_clockrate q = pc_audio_clockrate p \<and> pc_local_audio_ssrc q = pc_local_audio_ssrc p \<and>
     pc_local_video_ssrc q = pc_local_video_ssrc p \<and> pc_local_video_rtx_ssrc q = pc_local_video_rtx_ssrc p"

definition pc_streams_keep :: "('s, 'c, 'g, 'p) peer_connection \<Rightarrow> ('s, 'c, 'g, 'p) peer_connection \<Rightarrow> bool" where
  "pc_streams_keep p q \<longleftrightarrow> rel_option ar_keeps (pc_audio_receive p) (pc_audio_receive q) \<and> rel_option md_keeps (pc_audio_send p) (pc_audio_send q) \<and>
     rel_option vr_keeps (pc_video_receive p) (pc_video_receive q) \<and> rel_option vs_keeps (pc_video_send p) (pc_video_send q)"

definition pc_keeps :: "('s, 'c, 'g, 'p) peer_connection \<Rightarrow> ('s, 'c, 'g, 'p) peer_connection \<Rightarrow> bool" where
  "pc_keeps p q \<longleftrightarrow> pc_static p q \<and> pc_streams_keep p q \<and> rel_option same_desc (pc_local_desc p) (pc_local_desc q) \<and>
     tc_keeps (pc_controller p) (pc_controller q) \<and> (\<exists>es. pc_out q = pc_out p @ es \<and> list_all (\<lambda>e. \<not> is_timer e) es)"

lemma rel_option_trans:
  assumes "\<And>a b c. R a b \<Longrightarrow> R b c \<Longrightarrow> R a c" "rel_option R x y" "rel_option R y z"
  shows "rel_option R x z"
  using assms(2,3) by (cases x; cases y; cases z) (auto intro: assms(1))

lemma same_desc_trans: "same_desc a b \<Longrightarrow> same_desc b c \<Longrightarrow> same_desc a c"
  by (simp add: same_desc_def)

lemmas stream_trans = rel_option_trans[of ar_keeps, OF ark.trans] rel_option_trans[of md_keeps, OF mk.trans]
  rel_option_trans[of vr_keeps, OF vrk.trans] rel_option_trans[of vs_keeps, OF vsk.trans]

lemma pc_streams_trans:
  assumes "pc_streams_keep p q" "pc_streams_keep q r"
  shows "pc_streams_keep p r"
proof -
  have "rel_option ar_keeps (pc_audio_receive p) (pc_audio_receive r)"
    by (rule stream_trans(1)[where y = "pc_audio_receive q"]) (use assms in \<open>simp_all add: pc_streams_keep_def\<close>)
  moreover have "rel_option md_keeps (pc_audio_send p) (pc_audio_send r)"
    by (rule stream_trans(2)[where y = "pc_audio_send q"]) (use assms in \<open>simp_all add: pc_streams_keep_def\<close>)
  moreover have "rel_option vr_keeps (pc_video_receive p) (pc_video_receive r)"
    by (rule stream_trans(3)[where y = "pc_video_receive q"]) (use assms in \<open>simp_all add: pc_streams_keep_def\<close>)
  moreover have "rel_option vs_keeps (pc_video_send p) (pc_video_send r)"
    by (rule stream_trans(4)[where y = "pc_video_send q"]) (use assms in \<open>simp_all add: pc_streams_keep_def\<close>)
  ultimately show ?thesis by (simp add: pc_streams_keep_def)
qed

interpretation pk: frame_rel pc_keeps
proof
  show "pc_keeps p p" for p
    by (auto simp: pc_keeps_def pc_static_def pc_streams_keep_def same_desc_def intro!: option.rel_refl)
  show "pc_keeps p q \<Longrightarrow> pc_keeps q r \<Longrightarrow> pc_keeps p r" for p q r
  proof -
    assume a: "pc_keeps p q" "pc_keeps q r"
    have "pc_static p r" using a by (simp add: pc_keeps_def pc_static_def)
    moreover have "pc_streams_keep p r" using a by (auto simp: pc_keeps_def intro: pc_streams_trans)
    moreover have "rel_option same_desc (pc_local_desc p) (pc_local_desc r)"
      using a rel_option_trans[OF same_desc_trans] by (auto simp: pc_keeps_def)
    moreover have "tc_keeps (pc_controller p) (pc_controller r)" using a by (auto simp: pc_keeps_def intro: tc_keeps_trans)
    moreover have "\<exists>es. pc_out r = pc_out p @ es \<and> list_all (\<lambda>e. \<not> is_timer e) es" using a by (auto simp: pc_keeps_def)
    ultimately show "pc_keeps p r" by (simp add: pc_keeps_def)
  qed
qed

text \<open>The reflexive parts, for the updates of single fields.\<close>

lemma parts_keep_refl:
  "same_desc d d" "rel_option same_desc ld ld" "rel_option ar_keeps ar ar" "rel_option md_keeps as as" "rel_option vr_keeps vr vr" "rel_option vs_keeps vs vs"
  by (auto simp: same_desc_def intro!: option.rel_refl)

lemmas pc_update = pc_keeps_def pc_static_def pc_streams_keep_def parts_keep_refl

lemma pc_emit_keeps: "list_all (\<lambda>e. \<not> is_timer e) es \<Longrightarrow> pc_keeps pc (pc_emit es pc)"
  by (simp add: pc_update pc_emit_def)

lemma pc_rtt_keeps: "pc_keeps pc (PcOnRttUpdate now t pc)"
  by (simp add: pc_update PcOnRttUpdate_def Let_def) (simp add: option.rel_map rtt_keeps option.rel_refl)

lemma controller_keeps: "tc_keeps (pc_controller pc) c \<Longrightarrow> pc_keeps pc (pc\<lparr>pc_controller := c\<rparr>)"
  by (simp add: pc_update)

lemma pc_send_keeps:
  "PcSendRtp E data pc = Inr (ok, pc') \<Longrightarrow> pc_keeps pc pc'" "PcSendRtcp E data pc = Inr (ok, pc') \<Longrightarrow> pc_keeps pc pc'"
  using tc_keeps_send controller_keeps
  by (fastforce simp: PcSendRtp_def PcSendRtcp_def and_then_Inr)+

lemma media_out_keeps: "OnMediaOut E e pc = Inr pc' \<Longrightarrow> pc_keeps pc pc'"
  by (induction E e pc rule: OnMediaOut.induct) (auto simp: and_then_Inr intro: pc_emit_keeps pc_rtt_keeps pc_send_keeps)

lemma media_outs_keep: "each (OnMediaOut E) es pc = Inr pc' \<Longrightarrow> pc_keeps pc pc'"
  by (rule pk.each_keeps) (auto intro: media_out_keeps)

lemma stream_keeps:
  "pc_video_receive pc = Some v \<Longrightarrow> vr_keeps v v' \<Longrightarrow> pc_keeps pc (pc\<lparr>pc_video_receive := Some v'\<rparr>)"
  "pc_audio_receive pc = Some a \<Longrightarrow> ar_keeps a a' \<Longrightarrow> pc_keeps pc (pc\<lparr>pc_audio_receive := Some a'\<rparr>)"
  "pc_video_send pc = Some u \<Longrightarrow> vs_keeps u u' \<Longrightarrow> pc_keeps pc (pc\<lparr>pc_video_send := Some u'\<rparr>)"
  "pc_audio_send pc = Some m \<Longrightarrow> md_keeps m m' \<Longrightarrow> pc_keeps pc (pc\<lparr>pc_audio_send := Some m'\<rparr>)"
  by (simp_all add: pc_update)

lemma on_stream_keeps:
  "on_video_receive E f pc = Inr pc' \<Longrightarrow> (\<And>v es v'. f v = Inr (es, v') \<Longrightarrow> vr_keeps v v') \<Longrightarrow> pc_keeps pc pc'"
  "on_audio_receive E g pc = Inr pc' \<Longrightarrow> (\<And>v es v'. g v = Inr (es, v') \<Longrightarrow> ar_keeps v v') \<Longrightarrow> pc_keeps pc pc'"
  "on_video_send E h pc = Inr pc' \<Longrightarrow> (\<And>v es v'. h v = Inr (es, v') \<Longrightarrow> vs_keeps v v') \<Longrightarrow> pc_keeps pc pc'"
  "on_audio_send E k pc = Inr pc' \<Longrightarrow> (\<And>v es v'. k v = Inr (es, v') \<Longrightarrow> md_keeps v v') \<Longrightarrow> pc_keeps pc pc'"
  by (auto simp: on_video_receive_def on_audio_receive_def on_video_send_def on_audio_send_def and_then_Inr split: option.splits
      intro: pk.trans[OF stream_keeps(1) media_outs_keep] pk.trans[OF stream_keeps(2) media_outs_keep]
        pk.trans[OF stream_keeps(3) media_outs_keep] pk.trans[OF stream_keeps(4) media_outs_keep])

lemma pc_rtp_keeps: "PcOnRtpPacketReceived E packet ts pc = Inr pc' \<Longrightarrow> pc_keeps pc pc'"
  by (auto simp: PcOnRtpPacketReceived_def Let_def ArOnRtpPacket_def ar_keeps_def split: if_splits option.splits media_type.splits
      intro: pc_emit_keeps elim!: on_stream_keeps dest: vr_packet_keeps)

lemma pc_rtcp_keeps:
  assumes "PcOnRtcpPacketReceived E packet ts pc = Inr pc'"
  shows "pc_keeps pc pc'"
proof (cases "IsLive pc")
  case True
  then obtain p q where "on_audio_receive E (ArDeliverRtcp (pe_rtcp E) (pe_now E) packet) pc = Inr p"
    "on_video_receive E (VrDeliverRtcp (pe_rtcp E) (pe_now E) packet) p = Inr q"
    "on_video_send E (VsDeliverRtcp (pe_rtcp E) (pe_now E) packet) q = Inr pc'"
    using assms by (auto simp: PcOnRtcpPacketReceived_def and_then_Inr)
  then have "pc_keeps pc p" "pc_keeps p q" "pc_keeps q pc'"
    by (auto elim!: on_stream_keeps dest: ar_rtcp_keeps vr_rtcp_keeps vs_rtcp_keeps)
  then show ?thesis using pk.trans by blast
qed (use assms in \<open>auto simp: PcOnRtcpPacketReceived_def intro: pc_emit_keeps\<close>)

lemma update_content_same: "map (add_candidates []) (update_content m (add_candidates cs) contents) = map (add_candidates []) contents"
  by (induction contents) (auto simp: add_candidates_def)

lemma pc_candidates_keep: "pc_keeps pc (PcOnCandidateAllocateDone name cs pc)"
  by (simp add: pc_update PcOnCandidateAllocateDone_def)
    (simp add: option.rel_map same_desc_def update_content_same option.rel_refl)

lemma tc_out_keeps: "OnTcOut E e pc = Inr pc' \<Longrightarrow> pc_keeps pc pc'"
  by (cases e) (auto intro: pc_emit_keeps pc_candidates_keep pc_rtp_keeps pc_rtcp_keeps)

lemma on_controller_keeps:
  assumes "on_controller E f pc = Inr pc'"
  obtains c where "f (pc_controller pc) = Inr c" "pc_keeps (pc\<lparr>pc_controller := c\<rparr>) pc'"
proof -
  obtain c where "f (pc_controller pc) = Inr c"
    "each (OnTcOut E) (drop (length (tc_out (pc_controller pc))) (tc_out c)) (pc\<lparr>pc_controller := c\<rparr>) = Inr pc'"
    using assms by (auto simp: on_controller_def and_then_Inr)
  then show ?thesis using that pk.each_keeps tc_out_keeps by blast
qed

end
