(* ===== verification/MediaProps.thy ===== *)
theory MediaProps
  imports MediaStreams RtcpProps
begin

text \<open>
  Retransmission both ways, the frames cut out of the packet buffer, and the requests that reach the
  network.
\<close>

subsection \<open>Frames\<close>

text \<open>The packets of one frame: the first opens it, only the last closes it.\<close>

definition is_frame :: "buffered list \<Rightarrow> bool" where
  "is_frame ps \<longleftrightarrow> ps \<noteq> [] \<and> is_first_packet_in_frame (bf_header (hd ps)) \<and> is_last_packet_in_frame (bf_header (last ps)) \<and>
     (\<forall>p\<in>set (tl ps). \<not> is_first_packet_in_frame (bf_header p)) \<and> (\<forall>p\<in>set (butlast ps). \<not> is_last_packet_in_frame (bf_header p))"

lemma frame_inside:
  "\<forall>p\<in>set ps. \<not> is_first_packet_in_frame (bf_header p) \<and> \<not> is_last_packet_in_frame (bf_header p) \<Longrightarrow>
    OnInsertedPacket first (ps @ qs) = OnInsertedPacket first qs"
  by (induction ps) (simp_all add: Let_def)

lemma one_frame:
  assumes "is_frame ps"
  shows "OnInsertedPacket first (ps @ qs) =
    and_then (OnInsertedPacket (Some (hd ps)) qs) (\<lambda>es. Inr (OutFrame (bf_seq_num (hd ps)) (bf_seq_num (last ps)) (vh_key (bf_header (hd ps))) # es))"
proof -
  obtain p rest where p: "ps = p # rest" "is_first_packet_in_frame (bf_header p)" using assms by (cases ps) (auto simp: is_frame_def)
  show ?thesis
  proof (cases "rest = []")
    case True
    then show ?thesis using assms p by (simp add: is_frame_def Let_def)
  next
    case False
    then obtain mid q where q: "rest = mid @ [q]" by (cases rest rule: rev_cases) auto
    have "\<forall>x\<in>set mid. \<not> is_first_packet_in_frame (bf_header x) \<and> \<not> is_last_packet_in_frame (bf_header x)"
      "\<not> is_last_packet_in_frame (bf_header p)" "\<not> is_first_packet_in_frame (bf_header q)" "is_last_packet_in_frame (bf_header q)"
      using assms p q by (auto simp: is_frame_def butlast_append)
    then show ?thesis using p q frame_inside[of mid "Some p" "q # qs"] by (simp add: Let_def)
  qed
qed

text \<open>
  When the buffer hands out whole frames, the observer is told of each of them, in order and once,
  with the sequence numbers of its first and of its last packet.
\<close>

theorem frames_announced:
  assumes "\<forall>f\<in>set fs. is_frame f"
  shows "OnInsertedPacket first (concat fs) = Inr (map (\<lambda>f. OutFrame (bf_seq_num (hd f)) (bf_seq_num (last f)) (vh_key (bf_header (hd f)))) fs)"
  using assms by (induction fs arbitrary: first) (simp_all add: one_frame)

text \<open>A frame that is closed before any was opened makes the receiver use a null pointer, and nothing else does.\<close>

theorem frame_without_start:
  "OnInsertedPacket None ps = Inl NullFirstPacket \<longleftrightarrow>
    list_ex (\<lambda>p. is_last_packet_in_frame (bf_header p)) (takeWhile (\<lambda>p. \<not> is_first_packet_in_frame (bf_header p)) ps)"
proof -
  have some: "\<exists>es. OnInsertedPacket (Some f) qs = Inr es" for f qs
  proof (induction qs arbitrary: f)
    case (Cons q qs)
    obtain es es' where "OnInsertedPacket (Some q) qs = Inr es" "OnInsertedPacket (Some f) qs = Inr es'" using Cons.IH by blast
    then show ?case by (simp add: Let_def)
  qed simp
  show ?thesis
  proof (induction ps)
    case (Cons p ps)
    show ?case
    proof (cases "is_first_packet_in_frame (bf_header p)")
      case True
      obtain es where "OnInsertedPacket (Some p) ps = Inr es" using some by blast
      then show ?thesis using True by (auto simp: Let_def)
    qed (use Cons in \<open>auto simp: Let_def\<close>)
  qed simp
qed

subsection \<open>Retransmission\<close>

text \<open>A sent packet as the other end receives it.\<close>

definition arrives :: "int \<Rightarrow> int \<Rightarrow> send_packet \<Rightarrow> media_packet" where
  "arrives t frequency p = (media_packet.truncate p)\<lparr>mp_arrival_time := t, mp_payload_type_frequency := frequency\<rparr>"

definition writes_big_endian :: "(u16 \<Rightarrow> bytes) \<Rightarrow> bool" where
  "writes_big_endian w \<longleftrightarrow> (\<forall>n. w n = [word_of_int (uint n div 256), word_of_int (uint n mod 256)])"

lemma be16_high: "0 \<le> (n :: int) \<Longrightarrow> n < 65536 \<Longrightarrow> n div 256 mod 256 = n div 256"
  by (simp add: mod_pos_pos_trivial)

lemma be16_read: "word_of_int (uint (word_of_int (uint n div 256) :: u8) * 256 + uint (word_of_int (uint n mod 256) :: u8)) = (n :: u16)"
proof -
  have "uint n div 256 mod 256 = uint n div 256" using uint_bounded[of n] by (intro be16_high) simp_all
  then have "uint (word_of_int (uint n div 256) :: u8) = uint n div 256" "uint (word_of_int (uint n mod 256) :: u8) = uint n mod 256"
    by (simp_all add: uint_word_of_int)
  then have "uint (word_of_int (uint n div 256) :: u8) * 256 + uint (word_of_int (uint n mod 256) :: u8) = uint n" by simp
  then show ?thesis by simp
qed

text \<open>
  C18: A packet sent in retransmission format comes out of a receiving stream with the same payload,
  sequence number, timestamp, marker, sources and payload type, and is treated as recovered: only
  the retransmission stream enters the reception statistics. Its header extensions are lost.
\<close>

theorem rtx_roundtrip:
  assumes "kRtxHeaderSize M = 2" "writes_big_endian (write_be16 M)" "BuildRtxPacket M p s = (Some q, s')"
    and "vc_rtx_ssrc (vr_config v) = vs_local_rtx_ssrc s" "vs_local_rtx_ssrc s \<noteq> 0" "vc_remote_ssrc (vr_config v) = mp_ssrc p"
    and "0 \<le> vs_rtx_payload_type s" "vs_rtx_payload_type s < 128"
    and "vc_rtx_associated_payload_types (vr_config v) (vs_rtx_payload_type s) = Some (uint (mp_payload_type p))" "alloc_recv M (length (mp_payload p))"
  shows "VrOnRtpPacket L M now (arrives t f q) v =
    RvOnRtpPacket L M now ((arrives t 0 p)\<lparr>mp_recovered := True, mp_extensions := []\<rparr>)
      (v\<lparr>vr_stat := OnRtpPacket (rl_stat L) (now_ms now) (stat_packet (arrives t f q)) (vr_stat v)\<rparr>)"
proof -
  let ?a = "arrives t f q" and ?n = "mp_sequence_number p"
  have q: "q = new_send_packet\<lparr>mp_payload_type := word_of_int (vs_rtx_payload_type s), mp_ssrc := vs_local_rtx_ssrc s, mp_marker := mp_marker p,
      mp_timestamp := mp_timestamp p, mp_sequence_number := vs_rtx_seq s, mp_csrcs := mp_csrcs p,
      mp_payload := write_be16 M ?n @ mp_payload p, sd_additional_data := sd_additional_data p, sd_capture_time_ms := sd_capture_time_ms p,
      sd_retransmitted_sequence_number := Some ?n\<rparr>"
    using assms(1-3) by (auto simp: BuildRtxPacket_def Let_def writes_big_endian_def split: if_splits)
  have head: "mp_payload ?a = [word_of_int (uint ?n div 256), word_of_int (uint ?n mod 256)] @ mp_payload p"
    using assms(2) by (simp add: q arrives_def media_packet.defs new_send_packet_def writes_big_endian_def)
  have "(uint (word_of_int (vs_rtx_payload_type s) :: u8)) = vs_rtx_payload_type s"
    using assms(7,8) by (simp add: uint_word_of_int)
  then have pt: "uint (mp_payload_type ?a) = vs_rtx_payload_type s" by (simp add: q arrives_def media_packet.defs)
  have "VrOnRtpPacket L M now ?a v = RtxOnRtpPacket L M now ?a v"
    using assms(4,5) by (simp add: VrOnRtpPacket_def q arrives_def media_packet.defs)
  also have "\<dots> = RvOnRtpPacket L M now ((CopyHeaderFrom ?a empty_packet)\<lparr>mp_ssrc := mp_ssrc p, mp_sequence_number := ?n,
      mp_payload_type := mp_payload_type p, mp_recovered := True, mp_arrival_time := t, mp_payload := mp_payload p\<rparr>)
      (v\<lparr>vr_stat := OnRtpPacket (rl_stat L) (now_ms now) (stat_packet ?a) (vr_stat v)\<rparr>)"
    using assms(1,6,9,10) head pt be16_read[of ?n] by (simp add: RtxOnRtpPacket_def Let_def) (simp add: arrives_def)
  also have "(CopyHeaderFrom ?a empty_packet)\<lparr>mp_ssrc := mp_ssrc p, mp_sequence_number := ?n, mp_payload_type := mp_payload_type p,
      mp_recovered := True, mp_arrival_time := t, mp_payload := mp_payload p\<rparr> = (arrives t 0 p)\<lparr>mp_recovered := True, mp_extensions := []\<rparr>"
    by (simp add: q arrives_def media_packet.defs CopyHeaderFrom_def empty_packet_def new_send_packet_def)
  finally show ?thesis .
qed

subsection \<open>Requests\<close>

lemma nack_timer_sends:
  assumes "rtcp_types_ok L" "create_ok L enc" "ProcessNacks (ml_seq M) (now_ms now) (vr_nack v) = (nack, [batch])"
    and "s = md_sender (vr_rtcp v)" "rs_method s = kCompound" "rs_report_flags s = []" "\<not> rs_sending s"
    and "CreateRtcpReportBlocks L now (GetFeedbackState L (vr_rtcp v)) s (vr_stat v) = Inr (blocks, stat')"
    and "pkts = [ReceiverReport (rs_ssrc s) blocks, Nack (rs_ssrc s) (rs_remote_ssrc s) batch] @ extended_packets now s"
    and "fits (rs_max_packet_size s) enc pkts" "concat (map enc pkts) \<noteq> []"
  shows "\<exists>v'. VrNackTimer L M now v = Inr ([OutLocalRtcp VIDEO (concat (map enc pkts))], v') \<and> vr_nack v' = nack \<and> vr_stat v' = stat'"
proof -
  let ?fb = "GetFeedbackState L (vr_rtcp v)"
  have "kRtcpNack L \<noteq> kRtcpPli L" using assms(1) by (auto simp: rtcp_types_ok_def)
  then have p: "pkts = report_packets L ?fb blocks s @ feedback_packets L (kRtcpNack L) batch s @ extended_packets now s"
    using assms(7,9) by (simp add: report_packets_def feedback_packets_def)
  obtain s' where "SendRTCP L now ?fb (kRtcpNack L) batch s (vr_stat v) = Inr (True, [concat (map enc pkts)], s', stat')"
    using compound_sent[OF assms(1,2,5,6) _ assms(8) p assms(10)] assms(7,11) by (simp only: if_False not_False_eq_True) blast
  then have "VrNackTimer L M now v = Inr ([OutLocalRtcp VIDEO (concat (map enc pkts))],
      v\<lparr>vr_nack := nack, vr_rtcp := (vr_rtcp v)\<lparr>md_sender := s'\<rparr>, vr_stat := stat'\<rparr>)"
    using assms(3,4) by (simp add: VrNackTimer_def OnNackSend_def SendNack_def MdSendRTCP_def module_send_def rtcp_sent_def)
  then show ?thesis by simp
qed

text \<open>
  What the requester of retransmissions asks for on its timer leaves the stream as one packet: a
  receiver report, the request for exactly these sequence numbers, and the extended report.
\<close>

theorem retransmission_requested:
  assumes "rtcp_types_ok L" "create_ok L enc" "ProcessNacks (ml_seq M) (now_ms now) (vr_nack v) = (nack, [batch])"
    and "s = md_sender (vr_rtcp v)" "rs_method s = kCompound" "rs_report_flags s = []" "\<not> rs_sending s"
    and "CreateRtcpReportBlocks L now (GetFeedbackState L (vr_rtcp v)) s (vr_stat v) = Inr (blocks, stat')"
    and "pkts = [ReceiverReport (rs_ssrc s) blocks, Nack (rs_ssrc s) (rs_remote_ssrc s) batch] @ extended_packets now s"
    and "fits (rs_max_packet_size s) enc pkts" "concat (map enc pkts) \<noteq> []"
  shows "\<exists>v'. VrNackTimer L M now v = Inr ([OutLocalRtcp VIDEO (concat (map enc pkts))], v') \<and> vr_nack v' = nack \<and> vr_stat v' = stat'"
  by (rule nack_timer_sends[OF assms])

subsection \<open>A run\<close>

definition demo_media :: "unit media_lib" where
  "demo_media = \<lparr>ml_seq = webrtc_seq,
     depacketize = (\<lambda>d. case d of [] \<Rightarrow> None | b # _ \<Rightarrow> Some \<lparr>is_first_packet_in_frame = (b = 1), is_last_packet_in_frame = False, vh_key = True\<rparr>),
     new_buffer = (\<lambda>_ _. ()), insert_packet = (\<lambda>_ b. ([b], ())), kRtxHeaderSize = 2,
     write_be16 = (\<lambda>n. [word_of_int (uint n div 256), word_of_int (uint n mod 256)]), alloc_send = (\<lambda>n. n \<le> 1400), alloc_recv = (\<lambda>n. n \<le> 1500)\<rparr>"

definition demo_video :: "(unit, unit, unit) video_receive" where
  "demo_video = fst (VideoReceiveStream demo_rtcp demo_media 0 0
     \<lparr>vc_local_ssrc = 1, vc_remote_ssrc = 7, vc_rtx_ssrc = 8, vc_rtx_associated_payload_types = [99 \<mapsto> 107], vc_enable_xr = True,
      vc_request_pli_interval_ms = 3000\<rparr>)"

definition demo_stream :: "unit video_send" where
  "demo_stream = fst (VideoSendStream demo_rtcp 0 0 7 8 99)"

definition demo_packet :: send_packet where
  "demo_packet = new_send_packet\<lparr>mp_ssrc := 7, mp_sequence_number := 300, mp_payload_type := 107, mp_marker := True, mp_payload := [1, 2, 3]\<rparr>"

lemmas demo_media_eval = demo_video_def VideoReceiveStream_def CreateRtpRtcpModule_def MdSetRtcpStatus_def MdSetRemoteSsrc_def RtpRtcpImpl_def
  demo_stream_def VideoSendStream_def SetSendingStatus_def Let_def

definition demo_frame :: "u16 \<Rightarrow> bool \<Rightarrow> bool \<Rightarrow> buffered" where
  "demo_frame n b e = \<lparr>bf_seq_num = n, bf_header = \<lparr>is_first_packet_in_frame = b, is_last_packet_in_frame = e, vh_key = True\<rparr>\<rparr>"

theorem frames_announced_witness:
  "OnInsertedPacket None [demo_frame 65535 True False, demo_frame 0 False True, demo_frame 1 True True] =
    Inr [OutFrame 65535 0 True, OutFrame 1 1 True]"
  using frames_announced[of "[[demo_frame 65535 True False, demo_frame 0 False True], [demo_frame 1 True True]]" None]
  by (simp add: is_frame_def demo_frame_def)

theorem rtx_roundtrip_witness:
  "\<exists>q s'. BuildRtxPacket demo_media demo_packet demo_stream = (Some q, s') \<and> mp_payload q = [1, 44, 1, 2, 3] \<and>
    VrOnRtpPacket demo_rtcp demo_media demo_now (arrives 900 90000 q) demo_video =
      RvOnRtpPacket demo_rtcp demo_media demo_now ((arrives 900 0 demo_packet)\<lparr>mp_recovered := True, mp_extensions := []\<rparr>)
        (demo_video\<lparr>vr_stat := OnRtpPacket (rl_stat demo_rtcp) 1000 (stat_packet (arrives 900 90000 q)) (vr_stat demo_video)\<rparr>)"
proof -
  obtain q s' where q: "BuildRtxPacket demo_media demo_packet demo_stream = (Some q, s')" "mp_payload q = [1, 44, 1, 2, 3]"
    by (simp add: BuildRtxPacket_def demo_media_def demo_packet_def new_send_packet_def empty_packet_def media_packet.defs Let_def)
  then have "VrOnRtpPacket demo_rtcp demo_media demo_now (arrives 900 90000 q) demo_video =
      RvOnRtpPacket demo_rtcp demo_media demo_now ((arrives 900 0 demo_packet)\<lparr>mp_recovered := True, mp_extensions := []\<rparr>)
        (demo_video\<lparr>vr_stat := OnRtpPacket (rl_stat demo_rtcp) (now_ms demo_now) (stat_packet (arrives 900 90000 q)) (vr_stat demo_video)\<rparr>)"
    by (intro rtx_roundtrip[OF _ _ q(1)])
      (simp_all add: demo_media_eval prod.case_eq_if, simp_all add: demo_media_def demo_packet_def new_send_packet_def empty_packet_def
        media_packet.defs writes_big_endian_def)
  then show ?thesis using q by (auto simp: demo_now_def)
qed

definition demo_late :: "(unit, unit, unit) video_receive" where
  "demo_late = demo_video\<lparr>vr_nack := NackRequester\<lparr>nk_initialized := True, nk_newest_seq_num := 6, nack_list := [(5, NackInfo 5 6 0), (4, NackInfo 4 6 0)]\<rparr>\<rparr>"

theorem retransmission_requested_witness:
  "\<exists>v'. VrNackTimer demo_rtcp demo_media demo_now demo_late = Inr ([OutLocalRtcp VIDEO [201, 205, 207]], v') \<and>
    map (\<lambda>(n, i). (n, ni_retries i)) (nack_list (vr_nack v')) = [(5, 1), (4, 1)]"
proof -
  let ?s = "md_sender (vr_rtcp demo_late)"
  have n: "ProcessNacks (ml_seq demo_media) (now_ms demo_now) (vr_nack demo_late) =
      ((vr_nack demo_late)\<lparr>nack_list := map (\<lambda>(n, i). (n, i\<lparr>ni_retries := 1, ni_send_at_time := 1000\<rparr>)) (nack_list (vr_nack demo_late))\<rparr>, [[5, 4]])"
    by (simp add: ProcessNacks_def GetNackBatch_def demo_late_def demo_now_def nack_due_def NackInfo_def NackRequester_def kDefaultRttMs_def
        kMaxNackRetries_def Let_def)
  have m: "vr_stat demo_late = ReceiveStat" "rs_method ?s = kCompound" "rs_report_flags ?s = []" "\<not> rs_sending ?s" "rs_max_packet_size ?s = 1472"
    "rs_enable_xr ?s" "\<not> rs_audio ?s"
    by (simp_all add: demo_late_def demo_media_eval prod.case_eq_if, simp_all add: demo_rtcp_eval RtpRtcpImpl_def Let_def)
  obtain blocks stat' where b: "CreateRtcpReportBlocks demo_rtcp demo_now (GetFeedbackState demo_rtcp (vr_rtcp demo_late)) ?s (vr_stat demo_late) = Inr (blocks, stat')"
    by (cases "rs_receive_stat ?s") (simp_all add: CreateRtcpReportBlocks_def RtcpReportBlocks_def m(1) ReceiveStat_def)
  let ?pkts = "[ReceiverReport (rs_ssrc ?s) blocks, Nack (rs_ssrc ?s) (rs_remote_ssrc ?s) [5, 4]] @ extended_packets demo_now ?s"
  have e: "concat (map demo_enc ?pkts) = [201, 205, 207]" using m by (simp add: extended_packets_def)
  have "fits (rs_max_packet_size ?s) demo_enc ?pkts" "concat (map demo_enc ?pkts) \<noteq> []" using e m(5) by (simp_all add: fits_def)
  then obtain v' where "VrNackTimer demo_rtcp demo_media demo_now demo_late = Inr ([OutLocalRtcp VIDEO [201, 205, 207]], v')"
    "vr_nack v' = (vr_nack demo_late)\<lparr>nack_list := map (\<lambda>(n, i). (n, i\<lparr>ni_retries := 1, ni_send_at_time := 1000\<rparr>)) (nack_list (vr_nack demo_late))\<rparr>"
    using retransmission_requested[OF demo_rtcp_ok(1,2) n refl m(2,3,4) b refl] e by auto
  then show ?thesis by (simp add: demo_late_def NackInfo_def)
qed

end
