(* ===== verification/SdpProps.thy ===== *)
theory SdpProps
  imports SdpAnswer
begin

text \<open>
  The text of a description is read back by the parser of answers, and what a malformed text does.
\<close>

subsection \<open>The string helpers\<close>

text \<open>The fields between the delimiters, empty ones included.\<close>

fun fields_of :: "char \<Rightarrow> string \<Rightarrow> string list" where
  "fields_of d [] = [[]]"
| "fields_of d (c # s) = (if c = d then [] # fields_of d s else (c # hd (fields_of d s)) # tl (fields_of d s))"

text \<open>
  \<open>split\<close> gives every field, \<open>tokenize\<close> leaves out the empty ones, \<open>tokenize_first\<close> cuts at the first
  run of delimiters, and \<open>FromString\<close> reads a decimal number.
\<close>

definition sdp_text_ok :: "sdp_text \<Rightarrow> bool" where
  "sdp_text_ok X \<longleftrightarrow>
     (\<forall>s d. st_split X s d = fields_of d s) \<and>
     (\<forall>s d. st_tokenize X s d = filter (\<lambda>f. f \<noteq> []) (fields_of d s)) \<and>
     (\<forall>s d. st_tokenize_first X s d =
        (if d \<in> set s then Some (takeWhile (\<lambda>c. c \<noteq> d) s, dropWhile (\<lambda>c. c = d) (dropWhile (\<lambda>c. c \<noteq> d) s)) else None)) \<and>
     (\<forall>n < 2 ^ 32. st_u32 X (show_nat n) = Some (of_nat n))"

lemma sdp_text_okD:
  assumes "sdp_text_ok X"
  shows "st_split X s d = fields_of d s" "st_tokenize X s d = filter (\<lambda>f. f \<noteq> []) (fields_of d s)"
    "st_tokenize_first X s d =
        (if d \<in> set s then Some (takeWhile (\<lambda>c. c \<noteq> d) s, dropWhile (\<lambda>c. c = d) (dropWhile (\<lambda>c. c \<noteq> d) s)) else None)"
    "st_u32 X (show_nat (unat (w :: u32))) = Some w"
  using assms unsigned_less[of w] by (auto simp: sdp_text_ok_def)

lemma fields_of_word [simp]: "d \<notin> set f \<Longrightarrow> fields_of d f = [f]"
  by (induction f) auto

lemma fields_of_append: "d \<notin> set f \<Longrightarrow> fields_of d (f @ d # s) = f # fields_of d s"
  by (induction f) auto

lemma fields_of_Cons: "fields_of d s = hd (fields_of d s) # tl (fields_of d s)"
  by (cases s) auto

lemma show_nat_digits: "c \<in> set (show_nat n) \<Longrightarrow> \<exists>d<10. c = char_of (48 + d :: nat)"
proof (induction n rule: show_nat.induct)
  case (1 n)
  show ?case
  proof (cases "n < 10")
    case True
    then show ?thesis using 1(2) by (subst (asm) show_nat.simps) (auto simp: digit_def)
  next
    case False
    then have "c \<in> set (show_nat (n div 10)) \<or> c = digit (n mod 10)" using 1(2) by (subst (asm) show_nat.simps) auto
    then show ?thesis
    proof
      assume "c = digit (n mod 10)"
      then show ?thesis by (intro exI[of _ "n mod 10"]) (simp add: digit_def)
    qed (use 1(1)[OF False] in simp)
  qed
qed

lemma show_nat_nonempty [simp]: "show_nat n \<noteq> []"
  by (subst show_nat.simps) auto

lemma show_nat_plain [simp]:
  "CHR '' '' \<notin> set (show_nat n)" "CHR '':'' \<notin> set (show_nat n)" "CHR ''='' \<notin> set (show_nat n)" "CHR 0x0A \<notin> set (show_nat n)"
proof -
  have "of_char c \<in> {48 ..< 58 :: nat}" if "c \<in> set (show_nat n)" for c
    using show_nat_digits[OF that] by (auto simp: of_char_of)
  then show "CHR '' '' \<notin> set (show_nat n)" "CHR '':'' \<notin> set (show_nat n)" "CHR ''='' \<notin> set (show_nat n)" "CHR 0x0A \<notin> set (show_nat n)"
    by force+
qed

subsection \<open>Looking for a text\<close>

lemma contains_sublist: "contains p s \<longleftrightarrow> (\<exists>u v. s = u @ p @ v)"
proof (induction s)
  case (Cons c s)
  note IH = Cons
  show ?case
  proof
    assume "contains p (c # s)"
    then consider v where "c # s = p @ v" | u v where "s = u @ p @ v" using Cons by (auto simp: prefix_def)
    then show "\<exists>u v. c # s = u @ p @ v"
    proof cases
      case (1 v)
      then show ?thesis by (intro exI[of _ "[]"] exI[of _ v]) auto
    next
      case (2 u v)
      then show ?thesis by (intro exI[of _ "c # u"] exI[of _ v]) auto
    qed
  next
    assume "\<exists>u v. c # s = u @ p @ v"
    then obtain u v where u: "c # s = u @ p @ v" by blast
    show "contains p (c # s)"
    proof (cases u)
      case Nil
      then have "prefix p (c # s)" using u by simp
      then show ?thesis by simp
    next
      case (Cons d w)
      then have "s = w @ p @ v" using u by simp
      then show ?thesis using IH by auto
    qed
  qed
qed auto

text \<open>A text that no attribute can begin in.\<close>

definition silent :: "string \<Rightarrow> bool" where
  "silent s \<longleftrightarrow> \<not> contains ''a='' s \<and> \<not> contains ''m='' s"

lemma silent_no_eq: "CHR ''='' \<notin> set s \<Longrightarrow> silent s"
  by (auto simp: silent_def contains_sublist)

lemma contains_line:
  assumes "silent rest" "x \<in> {CHR ''a'', CHR ''m''}"
  shows "contains (x # CHR ''='' # p) (c # CHR ''='' # rest) \<longleftrightarrow> x = c \<and> prefix p rest"
proof -
  have "\<not> contains (x # CHR ''='' # p) rest"
  proof
    assume "contains (x # CHR ''='' # p) rest"
    then obtain u v where "rest = u @ [x, CHR ''=''] @ (p @ v)" by (auto simp: contains_sublist)
    then have "contains [x, CHR ''=''] rest" unfolding contains_sublist by blast
    then show False using assms by (auto simp: silent_def)
  qed
  then show ?thesis using assms(2) by auto
qed

subsection \<open>A line of a section\<close>

text \<open>What the lines of a section set: the transport, the sources and the source groups.\<close>

type_synonym section_part = "transport_desc \<times> ssrc_info list \<times> ssrc_group list"

fun attr :: "sdp_text \<Rightarrow> media_kind \<Rightarrow> string \<Rightarrow> section_part \<Rightarrow> sdp_stop + section_part" where
  "attr X k l (td, is, gs) =
     and_then (ParseTransportInfo X l td) (\<lambda>td'.
     and_then (if k = MEDIA_TYPE_VIDEO then ParseSsrcGroupInfo X l gs else Inr gs) (\<lambda>gs'.
     and_then (ParseSsrcInfo X l is) (\<lambda>is'. Inr (td', is', gs'))))"

fun put :: "media_kind \<Rightarrow> section_part \<Rightarrow> sdp_parse \<Rightarrow> sdp_parse" where
  "put MEDIA_TYPE_AUDIO (td, is, gs) p = p\<lparr>pr_audio_td := td, pr_audio_ssrc := is\<rparr>"
| "put MEDIA_TYPE_VIDEO (td, is, gs) p = p\<lparr>pr_video_td := td, pr_video_ssrc := is, pr_video_groups := gs\<rparr>"

lemma parse_attribute_put:
  assumes "pr_media_type p = mid_of k" "attr X k l t = Inr t'"
  shows "parse_attribute X l (put k t p) = Inr (put k t' p)"
proof (cases k)
  case MEDIA_TYPE_AUDIO
  then show ?thesis using assms by (cases t; cases t') (auto simp: parse_attribute_def and_then_Inr)
next
  case MEDIA_TYPE_VIDEO
  then show ?thesis using assms by (cases t; cases t') (auto simp: parse_attribute_def and_then_Inr)
qed

lemma parse_field_put:
  assumes "\<not> contains ''m='' l" "pr_media_type p = mid_of k" "attr X k l t = Inr t'"
  shows "parse_field X False l (put k t p) = Inr (put k t' p)"
proof -
  have "\<not> contains ''m=group:BUNDLE'' l"
  proof
    assume "contains ''m=group:BUNDLE'' l"
    then obtain u v where "l = u @ ''m='' @ (''group:BUNDLE'' @ v)" by (auto simp: contains_sublist)
    then have "contains ''m='' l" unfolding contains_sublist by blast
    then show False using assms(1) by simp
  qed
  then show ?thesis using assms(1) parse_attribute_put[OF assms(2,3)] by (simp add: parse_field_def parse_section_def Let_def)
qed

lemma parse_fields_put:
  assumes "\<forall>l\<in>set ls. \<not> contains ''m='' l" "pr_media_type p = mid_of k" "each (attr X k) ls t = Inr t'"
  shows "each (parse_field X False) ls (put k t p) = Inr (put k t' p)"
  using assms(1,3)
proof (induction ls arbitrary: t)
  case (Cons l ls)
  then obtain s where s: "attr X k l t = Inr s" "each (attr X k) ls s = Inr t'" by (auto simp: and_then_Inr)
  then show ?case using Cons parse_field_put[OF _ assms(2) s(1)] by simp
qed simp

definition idle :: "string \<Rightarrow> bool" where
  "idle rest \<longleftrightarrow> \<not> prefix ''ice-ufrag'' rest \<and> \<not> prefix ''ice-pwd'' rest \<and> \<not> prefix ''fingerprint'' rest \<and>
     \<not> prefix ''ssrc:'' rest \<and> \<not> prefix ''ssrc-group:'' rest"

lemma attr_idle:
  assumes "silent rest" "c = CHR ''a'' \<longrightarrow> idle rest"
  shows "attr X k (c # CHR ''='' # rest) t = Inr t"
proof (cases "c = CHR ''a''")
  case True
  then have "idle rest" using assms(2) by simp
  then show ?thesis
    by (cases t) (simp add: ParseTransportInfo_def ParseSsrcGroupInfo_def ParseSsrcInfo_def idle_def True contains_line[OF assms(1)] del: contains.simps)
next
  case False
  then have "(CHR ''a'' = c) = False" by auto
  then show ?thesis
    by (cases t) (simp add: ParseTransportInfo_def ParseSsrcGroupInfo_def ParseSsrcInfo_def contains_line[OF assms(1)] del: contains.simps)
qed

subsection \<open>The printed lines\<close>

definition plain :: "string \<Rightarrow> bool" where
  "plain s \<longleftrightarrow> CHR '' '' \<notin> set s \<and> CHR '':'' \<notin> set s \<and> CHR ''='' \<notin> set s \<and> CHR 0x0A \<notin> set s"

lemma tokenize_two:
  assumes "sdp_text_ok X" "d \<notin> set a" "d \<notin> set b" "a \<noteq> []" "b \<noteq> []"
  shows "st_tokenize X (a @ d # b) d = [a, b]"
  using assms by (simp add: sdp_text_okD fields_of_append)

lemma first_two:
  assumes "sdp_text_ok X" "d \<notin> set a" "b = [] \<or> hd b \<noteq> d"
  shows "st_tokenize_first X (a @ d # b) d = Some (a, b)"
proof -
  have "takeWhile (\<lambda>c. c \<noteq> d) (a @ d # b) = a" "dropWhile (\<lambda>c. c \<noteq> d) (a @ d # b) = d # b"
    using assms(2) by (induction a) auto
  moreover have "dropWhile (\<lambda>c. c = d) (d # b) = b" using assms(3) by (cases b) auto
  ultimately show ?thesis by (simp add: sdp_text_okD[OF assms(1)])
qed

lemma GetAttributeText_eq:
  assumes "sdp_text_ok X" "CHR '':'' \<notin> set name" "CHR '':'' \<notin> set v" "name \<noteq> []" "v \<noteq> []"
  shows "GetAttributeText X (name @ CHR '':'' # v) = v"
  using tokenize_two[OF assms] by (simp add: GetAttributeText_def)

lemma attr_ufrag:
  assumes "sdp_text_ok X" "plain u" "u \<noteq> []"
  shows "attr X k (''a=ice-ufrag:'' @ u) (td, is, gs) = Inr (td\<lparr>td_ice_ufrag := u\<rparr>, is, gs)"
proof -
  have s: "silent (''ice-ufrag:'' @ u)" using assms(2) by (intro silent_no_eq) (simp add: plain_def)
  have "GetAttributeText X (''a=ice-ufrag:'' @ u) = u"
    using GetAttributeText_eq[OF assms(1), of "''a=ice-ufrag''" u] assms(2,3) by (simp add: plain_def)
  then show ?thesis using contains_line[OF s] assms(3)
    by (simp add: ParseTransportInfo_def ParseSsrcGroupInfo_def ParseSsrcInfo_def Let_def del: contains.simps)
qed

lemma attr_pwd:
  assumes "sdp_text_ok X" "plain u" "u \<noteq> []"
  shows "attr X k (''a=ice-pwd:'' @ u) (td, is, gs) = Inr (td\<lparr>td_ice_pwd := u\<rparr>, is, gs)"
proof -
  have s: "silent (''ice-pwd:'' @ u)" using assms(2) by (intro silent_no_eq) (simp add: plain_def)
  have "GetAttributeText X (''a=ice-pwd:'' @ u) = u"
    using GetAttributeText_eq[OF assms(1), of "''a=ice-pwd''" u] assms(2,3) by (simp add: plain_def)
  then show ?thesis using contains_line[OF s] assms(3)
    by (simp add: ParseTransportInfo_def ParseSsrcGroupInfo_def ParseSsrcInfo_def Let_def del: contains.simps)
qed

lemma attr_fingerprint:
  assumes "sdp_text_ok X" "plain alg" "CHR '' '' \<notin> set v" "CHR ''='' \<notin> set v" "v \<noteq> []" "st_fingerprint X (map to_lower alg) v = Some fp"
  shows "attr X k (''a=fingerprint:'' @ alg @ '' '' @ v) (td, is, gs) = Inr (td\<lparr>td_fingerprint := Some fp\<rparr>, is, gs)"
proof -
  have s: "silent (''fingerprint:'' @ alg @ '' '' @ v)" using assms(2,4) by (intro silent_no_eq) (simp add: plain_def)
  have "st_tokenize X (''a=fingerprint:'' @ alg @ '' '' @ v) CHR '' '' = [''a=fingerprint:'' @ alg, v]"
    using assms(2,3,5) tokenize_two[OF assms(1), of "CHR '' ''" "''a=fingerprint:'' @ alg" v] by (simp add: plain_def)
  then show ?thesis using contains_line[OF s] assms(6)
    by (simp add: ParseTransportInfo_def ParseSsrcGroupInfo_def ParseSsrcInfo_def substr_def Let_def del: contains.simps)
qed

lemma with_ssrc_fresh: "ssrc \<notin> si_ssrc_id ` set is \<Longrightarrow>
    with_ssrc ssrc f is = is @ [f \<lparr>si_ssrc_id = ssrc, si_cname = [], si_stream_id = [], si_track_id = []\<rparr>]"
  by (induction "is") auto

lemma with_ssrc_last: "ssrc \<notin> si_ssrc_id ` set is \<Longrightarrow> si_ssrc_id x = ssrc \<Longrightarrow> with_ssrc ssrc f (is @ [x]) = is @ [f x]"
  by (induction "is") auto

definition set_source :: "sdp_text \<Rightarrow> string \<Rightarrow> string \<Rightarrow> u32 \<Rightarrow> ssrc_info list \<Rightarrow> sdp_stop + ssrc_info list" where
  "set_source X attribute v ssrc is =
     (if attribute = ''cname'' then Inr (with_ssrc ssrc (\<lambda>i. i\<lparr>si_cname := v\<rparr>) is)
      else if attribute = ''msid'' then
        (case st_split X v CHR '' '' of
           [s] \<Rightarrow> Inr (with_ssrc ssrc (\<lambda>i. i\<lparr>si_stream_id := s\<rparr>) is)
         | [s, t] \<Rightarrow> Inr (with_ssrc ssrc (\<lambda>i. i\<lparr>si_stream_id := s, si_track_id := t\<rparr>) is)
         | _ \<Rightarrow> Inl Rejected)
      else Inr (with_ssrc ssrc id is))"

lemma attr_source:
  assumes "sdp_text_ok X" "plain attribute" "CHR ''='' \<notin> set v" "v = [] \<or> hd v \<noteq> CHR '':''" "set_source X attribute v ssrc is = Inr is'"
  shows "attr X k (AddSsrcLine ssrc attribute v) (td, is, gs) = Inr (td, is', gs)"
proof -
  let ?n = "show_nat (unat ssrc)"
  let ?rest = "''ssrc:'' @ ?n @ '' '' @ attribute @ '':'' @ v"
  have s: "silent ?rest" using assms(2,3) by (intro silent_no_eq) (simp add: plain_def)
  have first: "st_tokenize_first X ?rest CHR '' '' = Some (''ssrc:'' @ ?n, attribute @ '':'' @ v)"
    using first_two[OF assms(1), of "CHR '' ''" "''ssrc:'' @ ?n" "attribute @ '':'' @ v"] assms(2) by (cases attribute) (auto simp: plain_def)
  have second: "st_tokenize_first X (attribute @ '':'' @ v) CHR '':'' = Some (attribute, v)"
    using first_two[OF assms(1), of "CHR '':''" attribute v] assms(2,4) by (simp add: plain_def)
  have "st_u32 X ?n = Some ssrc" by (rule sdp_text_okD(4)[OF assms(1)])
  then have "ParseSsrcInfo X (''a='' @ ?rest) is = Inr is'"
    using first second assms(5) contains_line[OF s, of "CHR ''a''" "''ssrc:''"]
    by (simp add: ParseSsrcInfo_def substr_def set_source_def Let_def del: contains.simps)
  then show ?thesis using contains_line[OF s]
    by (simp add: AddSsrcLine_def ParseTransportInfo_def ParseSsrcGroupInfo_def del: contains.simps)
qed

subsection \<open>Sources\<close>

lemma fields_of_concat:
  assumes "d \<notin> set f" "\<forall>x\<in>set xs. d \<notin> set (h x)"
  shows "fields_of d (f @ concat (map (\<lambda>x. [d] @ h x) xs)) = f # map h xs"
  using assms
proof (induction xs arbitrary: f)
  case (Cons x xs)
  then show ?case using fields_of_append[of d f "h x @ concat (map (\<lambda>x. [d] @ h x) xs)"] by simp
qed simp

lemma read_u32s_show: "sdp_text_ok X \<Longrightarrow> read_u32s X (map (\<lambda>x. show_nat (unat x)) xs) = Some xs"
  by (induction xs) (simp_all add: sdp_text_okD)

lemma attr_group:
  assumes "sdp_text_ok X" "plain (sg_semantics g)" "sg_semantics g \<noteq> []" "sg_ssrcs g \<noteq> []"
  shows "attr X k (ssrc_group_line g) (td, is, gs) = Inr (td, is, gs @ (if k = MEDIA_TYPE_VIDEO then [g] else []))"
    "\<not> contains ''m='' (ssrc_group_line g)"
proof -
  let ?f = "''ssrc-group:'' @ sg_semantics g" and ?h = "\<lambda>x. show_nat (unat x)"
  let ?rest = "?f @ concat (map (\<lambda>x. '' '' @ ?h x) (sg_ssrcs g))"
  have line: "ssrc_group_line g = ''a='' @ ?rest" by (simp add: ssrc_group_line_def)
  have s: "silent ?rest" using assms(2) by (intro silent_no_eq) (auto simp: plain_def)
  have split: "st_split X ?rest CHR '' '' = ?f # map ?h (sg_ssrcs g)"
    unfolding sdp_text_okD(1)[OF assms(1)] using assms(2) by (intro fields_of_concat) (auto simp: plain_def)
  have "GetAttributeText X ?f = sg_semantics g"
    using GetAttributeText_eq[OF assms(1), of "''ssrc-group''" "sg_semantics g"] assms(2,3) by (simp add: plain_def)
  moreover obtain x xs where xs: "sg_ssrcs g = x # xs" using assms(4) by (cases "sg_ssrcs g") auto
  ultimately have "ParseSsrcGroupInfo X (''a='' @ ?rest) gs = Inr (gs @ [g])"
    using split contains_line[OF s, of "CHR ''a''" "''ssrc-group:''"] read_u32s_show[OF assms(1), of "sg_ssrcs g"] assms(3)
    by (simp add: ParseSsrcGroupInfo_def substr_def Let_def del: contains.simps read_u32s.simps)
  then show "attr X k (ssrc_group_line g) (td, is, gs) = Inr (td, is, gs @ (if k = MEDIA_TYPE_VIDEO then [g] else []))"
    using contains_line[OF s] unfolding line by (simp add: ParseTransportInfo_def ParseSsrcInfo_def del: contains.simps)
  show "\<not> contains ''m='' (ssrc_group_line g)"
    unfolding line using contains_line[OF s, of "CHR ''m''" "[]"] by (simp del: contains.simps)
qed

definition info :: "stream_params \<Rightarrow> u32 \<Rightarrow> ssrc_info" where
  "info t ssrc = \<lparr>si_ssrc_id = ssrc, si_cname = sp_cname t, si_stream_id = sp_stream_id t, si_track_id = sp_id t\<rparr>"

definition stream_plain :: "stream_params \<Rightarrow> bool" where
  "stream_plain t \<longleftrightarrow> plain (sp_id t) \<and> plain (sp_cname t) \<and> plain (sp_stream_id t) \<and>
     (\<forall>g\<in>set (sp_ssrc_groups t). plain (sg_semantics g) \<and> sg_semantics g \<noteq> [])"

lemma plain_hd: "plain v \<Longrightarrow> v = [] \<or> hd v \<noteq> CHR '':''"
  by (cases v) (auto simp: plain_def)

lemma attr_sources:
  assumes "sdp_text_ok X" "stream_plain t" "ssrc \<notin> si_ssrc_id ` set is"
  shows "each (attr X k) (ssrc_lines t ssrc) (td, is, gs) = Inr (td, is @ [info t ssrc], gs)"
proof -
  let ?x = "\<lparr>si_ssrc_id = ssrc, si_cname = sp_cname t, si_stream_id = [], si_track_id = []\<rparr>"
  let ?msid = "sp_stream_id t @ '' '' @ sp_id t"
  have p: "plain (sp_id t)" "plain (sp_cname t)" "plain (sp_stream_id t)" using assms(2) by (auto simp: stream_plain_def)
  have names: "plain ''cname''" "plain ''msid''" "plain ''mslabel''" "plain ''lable''" by (simp_all add: plain_def)
  have split: "st_split X ?msid CHR '' '' = [sp_stream_id t, sp_id t]"
    using p fields_of_append[of "CHR '' ''" "sp_stream_id t" "sp_id t"] by (simp add: sdp_text_okD[OF assms(1)] plain_def)
  have "attr X k (AddSsrcLine ssrc ''cname'' (sp_cname t)) (td, is, gs) = Inr (td, is @ [?x], gs)"
    using p(2) with_ssrc_fresh[OF assms(3)] by (intro attr_source[OF assms(1) names(1)] plain_hd) (auto simp: plain_def set_source_def)
  moreover have "attr X k (AddSsrcLine ssrc ''msid'' ?msid) (td, is @ [?x], gs) = Inr (td, is @ [info t ssrc], gs)"
    using p plain_hd[OF p(3)] split with_ssrc_last[OF assms(3), of ?x]
    by (intro attr_source[OF assms(1) names(2)]) (auto simp: plain_def set_source_def info_def hd_append)
  moreover have "attr X k (AddSsrcLine ssrc ''mslabel'' (sp_stream_id t)) (td, is @ [info t ssrc], gs) = Inr (td, is @ [info t ssrc], gs)"
    using p(3) with_ssrc_last[OF assms(3), of "info t ssrc" id]
    by (intro attr_source[OF assms(1) names(3)] plain_hd) (auto simp: plain_def set_source_def info_def)
  moreover have "attr X k (AddSsrcLine ssrc ''lable'' (sp_id t)) (td, is @ [info t ssrc], gs) = Inr (td, is @ [info t ssrc], gs)"
    using p(1) with_ssrc_last[OF assms(3), of "info t ssrc" id]
    by (intro attr_source[OF assms(1) names(4)] plain_hd) (auto simp: plain_def set_source_def info_def)
  ultimately show ?thesis by (simp add: ssrc_lines_def del: attr.simps)
qed

lemma attr_all_sources:
  assumes "sdp_text_ok X" "stream_plain t" "distinct xs" "set xs \<inter> si_ssrc_id ` set is = {}"
  shows "each (attr X k) (concat (map (ssrc_lines t) xs)) (td, is, gs) = Inr (td, is @ map (info t) xs, gs)"
  using assms(3,4)
proof (induction xs arbitrary: "is")
  case (Cons x xs)
  then have "each (attr X k) (ssrc_lines t x) (td, is, gs) = Inr (td, is @ [info t x], gs)" by (intro attr_sources[OF assms(1,2)]) auto
  moreover have "set xs \<inter> si_ssrc_id ` set (is @ [info t x]) = {}" using Cons.prems by (auto simp: info_def)
  ultimately show ?case using Cons by (simp add: each_append del: attr.simps)
qed simp

lemma attr_groups:
  assumes "sdp_text_ok X" "\<forall>g\<in>set hs. plain (sg_semantics g) \<and> sg_semantics g \<noteq> [] \<and> sg_ssrcs g \<noteq> []"
  shows "each (attr X k) (map ssrc_group_line hs) (td, is, gs) = Inr (td, is, gs @ (if k = MEDIA_TYPE_VIDEO then hs else []))"
  using assms(2)
proof (induction hs arbitrary: gs)
  case (Cons h hs)
  then show ?case using attr_group(1)[OF assms(1), of h k td "is" gs] by (simp del: attr.simps)
qed simp

abbreviation shown_groups :: "stream_params \<Rightarrow> ssrc_group list" where
  "shown_groups t \<equiv> filter (\<lambda>g. sg_ssrcs g \<noteq> []) (sp_ssrc_groups t)"

definition source_lines :: "stream_params list \<Rightarrow> string list" where
  "source_lines ts = concat (map (\<lambda>t. map ssrc_group_line (shown_groups t) @ concat (map (ssrc_lines t) (sp_ssrcs t))) ts)"

lemma attr_streams:
  assumes "sdp_text_ok X" "\<forall>t\<in>set ts. stream_plain t" "distinct (concat (map sp_ssrcs ts))"
    "set (concat (map sp_ssrcs ts)) \<inter> si_ssrc_id ` set is = {}"
  shows "each (attr X k) (source_lines ts) (td, is, gs) =
    Inr (td, is @ concat (map (\<lambda>t. map (info t) (sp_ssrcs t)) ts), gs @ (if k = MEDIA_TYPE_VIDEO then concat (map shown_groups ts) else []))"
  using assms(2-4)
proof (induction ts arbitrary: "is" gs)
  case (Cons t ts)
  have g: "each (attr X k) (map ssrc_group_line (shown_groups t)) (td, is, gs) = Inr (td, is, gs @ (if k = MEDIA_TYPE_VIDEO then shown_groups t else []))"
    using Cons.prems(1) by (intro attr_groups[OF assms(1)]) (auto simp: stream_plain_def)
  have a: "each (attr X k) (concat (map (ssrc_lines t) (sp_ssrcs t))) (td, is, gs') = Inr (td, is @ map (info t) (sp_ssrcs t), gs')" for gs'
    using Cons.prems by (intro attr_all_sources[OF assms(1)]) auto
  have "set (concat (map sp_ssrcs ts)) \<inter> si_ssrc_id ` set (is @ map (info t) (sp_ssrcs t)) = {}"
    using Cons.prems(2,3) by (fastforce simp: info_def)
  then show ?case using Cons g a by (auto simp: source_lines_def each_append)
qed (simp add: source_lines_def)

subsection \<open>Tracks\<close>

abbreviation strip :: "stream_params \<Rightarrow> stream_params" where
  "strip t \<equiv> t\<lparr>sp_ssrc_groups := []\<rparr>"

lemma with_track_fresh: "si_track_id i \<notin> sp_id ` set ts \<Longrightarrow>
    with_track i ts = ts @ [StreamParams\<lparr>sp_id := si_track_id i, sp_cname := si_cname i, sp_stream_id := si_stream_id i, sp_ssrcs := [si_ssrc_id i]\<rparr>]"
  by (induction ts) auto

lemma with_track_last: "si_track_id i \<notin> sp_id ` set ts \<Longrightarrow> sp_id x = si_track_id i \<Longrightarrow>
    with_track i (ts @ [x]) = ts @ [x\<lparr>sp_cname := si_cname i, sp_stream_id := si_stream_id i, sp_ssrcs := sp_ssrcs x @ [si_ssrc_id i]\<rparr>]"
  by (induction ts) auto

lemma track_rest:
  assumes "sp_id t \<notin> sp_id ` set ts"
  shows "fold with_track (map (info t) ys) (ts @ [(strip t)\<lparr>sp_ssrcs := zs\<rparr>]) = ts @ [(strip t)\<lparr>sp_ssrcs := zs @ ys\<rparr>]"
proof (induction ys arbitrary: zs)
  case (Cons y ys)
  have "with_track (info t y) (ts @ [(strip t)\<lparr>sp_ssrcs := zs\<rparr>]) = ts @ [(strip t)\<lparr>sp_ssrcs := zs @ [y]\<rparr>]"
    using assms with_track_last[of "info t y" ts "(strip t)\<lparr>sp_ssrcs := zs\<rparr>"] by (simp add: info_def)
  then show ?case using Cons[of "zs @ [y]"] by simp
qed simp

lemma track_all:
  assumes "sp_id t \<notin> sp_id ` set ts" "sp_ssrcs t \<noteq> []"
  shows "fold with_track (map (info t) (sp_ssrcs t)) ts = ts @ [strip t]"
proof -
  obtain y ys where y: "sp_ssrcs t = y # ys" using assms(2) by (cases "sp_ssrcs t") auto
  have "with_track (info t y) ts = ts @ [(strip t)\<lparr>sp_ssrcs := [y]\<rparr>]"
    using assms(1) with_track_fresh[of "info t y" ts] by (simp add: info_def StreamParams_def)
  then have "fold with_track (map (info t) (sp_ssrcs t)) ts = ts @ [(strip t)\<lparr>sp_ssrcs := y # ys\<rparr>]"
    using track_rest[OF assms(1), of ys "[y]"] y by simp
  moreover have "(strip t)\<lparr>sp_ssrcs := y # ys\<rparr> = strip t" using y by simp
  ultimately show ?thesis by simp
qed

lemma tracks_read:
  assumes "distinct (map sp_id ts)" "\<forall>t\<in>set ts. sp_ssrcs t \<noteq> []" "set (map sp_id ts) \<inter> sp_id ` set us = {}"
  shows "fold with_track (concat (map (\<lambda>t. map (info t) (sp_ssrcs t)) ts)) us = us @ map strip ts"
  using assms
proof (induction ts arbitrary: us)
  case (Cons t ts)
  have "fold with_track (map (info t) (sp_ssrcs t)) us = us @ [strip t]" using Cons.prems by (intro track_all) auto
  moreover have "set (map sp_id ts) \<inter> sp_id ` set (us @ [strip t]) = {}" using Cons.prems by auto
  ultimately show ?case using Cons.IH[of "us @ [strip t]"] Cons.prems(1,2) by simp
qed simp

lemma groups_read:
  assumes "\<forall>g\<in>set gs. sg_ssrcs g \<noteq> []"
  shows "fold add_group gs ts = map (\<lambda>t. t\<lparr>sp_ssrc_groups := sp_ssrc_groups t @ filter (\<lambda>g. HasSsrc (hd (sg_ssrcs g)) t) gs\<rparr>) ts"
  using assms
proof (induction gs arbitrary: ts)
  case (Cons g gs)
  obtain x xs where "sg_ssrcs g = x # xs" using Cons.prems by (cases "sg_ssrcs g") auto
  then show ?case using Cons by (simp add: add_group_def HasSsrc_def)
qed simp

lemma own_groups:
  assumes "distinct (concat (map sp_ssrcs ts))" "\<forall>t\<in>set ts. \<forall>g\<in>set (shown_groups t). hd (sg_ssrcs g) \<in> set (sp_ssrcs t)" "u \<in> set ts"
  shows "filter (\<lambda>g. HasSsrc (hd (sg_ssrcs g)) u) (concat (map shown_groups ts)) = shown_groups u"
  using assms
proof (induction ts)
  case (Cons t ts)
  have own: "filter (\<lambda>g. HasSsrc (hd (sg_ssrcs g)) u) (shown_groups t) = (if t = u then shown_groups u else [])"
  proof (cases "t = u")
    case True
    then have "\<forall>g\<in>set (shown_groups t). HasSsrc (hd (sg_ssrcs g)) u" using Cons.prems(2) by (auto simp: HasSsrc_def list_ex_iff)
    then show ?thesis using True by (simp add: filter_id_conv del: filter_filter)
  next
    case False
    then have "set (sp_ssrcs t) \<inter> set (sp_ssrcs u) = {}" using Cons.prems(1,3) by auto
    then have "\<forall>g\<in>set (shown_groups t). \<not> HasSsrc (hd (sg_ssrcs g)) u" using Cons.prems(2) by (fastforce simp: HasSsrc_def list_ex_iff)
    then show ?thesis using False by (simp add: filter_empty_conv del: filter_filter)
  qed
  show ?case
  proof (cases "u \<in> set ts")
    case True
    then have "t \<noteq> u \<or> sp_ssrcs t = []" using Cons.prems(1) by (cases "sp_ssrcs t") auto
    moreover have "sp_ssrcs u = [] \<Longrightarrow> shown_groups u = []" using Cons.prems(2,3) by (fastforce simp: filter_empty_conv)
    ultimately show ?thesis using own Cons True by auto
  next
    case False
    have "\<forall>g\<in>set (concat (map shown_groups ts)). \<not> HasSsrc (hd (sg_ssrcs g)) u"
    proof
      fix g assume "g \<in> set (concat (map shown_groups ts))"
      then obtain v where v: "v \<in> set ts" "g \<in> set (shown_groups v)" by auto
      then have "hd (sg_ssrcs g) \<in> set (sp_ssrcs v)" using Cons.prems(2) by auto
      moreover have "set (sp_ssrcs u) \<inter> set (sp_ssrcs v) = {}" using Cons.prems(1,3) False v by auto
      ultimately show "\<not> HasSsrc (hd (sg_ssrcs g)) u" by (auto simp: HasSsrc_def list_ex_iff)
    qed
    then have "filter (\<lambda>g. HasSsrc (hd (sg_ssrcs g)) u) (concat (map shown_groups ts)) = []" unfolding filter_empty_conv .
    then show ?thesis using own False Cons.prems(3) by simp
  qed
qed simp

lemma add_streams: "fold add_stream ts c = c\<lparr>mc_streams := mc_streams c @ ts\<rparr>"
  by (induction ts arbitrary: c) (simp_all add: add_stream_def)

text \<open>What comes back of the streams: the source groups only of a video section.\<close>

definition read_back :: "media_kind \<Rightarrow> stream_params list \<Rightarrow> stream_params list" where
  "read_back k ts = map (\<lambda>t. t\<lparr>sp_ssrc_groups := (if k = MEDIA_TYPE_VIDEO then shown_groups t else [])\<rparr>) ts"

definition streams_ok :: "stream_params list \<Rightarrow> bool" where
  "streams_ok ts \<longleftrightarrow> (\<forall>t\<in>set ts. stream_plain t \<and> sp_ssrcs t \<noteq> [] \<and> (\<forall>g\<in>set (shown_groups t). hd (sg_ssrcs g) \<in> set (sp_ssrcs t))) \<and>
     distinct (concat (map sp_ssrcs ts)) \<and> distinct (map sp_id ts)"

lemma streams_read:
  assumes "streams_ok ts" "is = concat (map (\<lambda>t. map (info t) (sp_ssrcs t)) ts)"
  shows "CreateTrackFromSsrcInfo is = read_back MEDIA_TYPE_AUDIO ts"
    "fold add_group (concat (map shown_groups ts)) (CreateTrackFromSsrcInfo is) = read_back MEDIA_TYPE_VIDEO ts"
proof -
  have t: "CreateTrackFromSsrcInfo is = map strip ts"
    using tracks_read[of ts "[]"] assms by (simp add: CreateTrackFromSsrcInfo_def streams_ok_def)
  then show "CreateTrackFromSsrcInfo is = read_back MEDIA_TYPE_AUDIO ts" by (simp add: read_back_def)
  have "filter (\<lambda>g. HasSsrc (hd (sg_ssrcs g)) u) (concat (map shown_groups ts)) = shown_groups u" if "u \<in> set ts" for u
    using assms(1) that by (intro own_groups) (auto simp: streams_ok_def)
  then show "fold add_group (concat (map shown_groups ts)) (CreateTrackFromSsrcInfo is) = read_back MEDIA_TYPE_VIDEO ts"
    unfolding t by (subst groups_read) (auto simp: read_back_def HasSsrc_def)
qed

subsection \<open>A section\<close>

definition quiet_line :: "string \<Rightarrow> bool" where
  "quiet_line l = (case l of
     c # e # rest \<Rightarrow> e = CHR ''='' \<and> c \<noteq> CHR ''m'' \<and> silent rest \<and> (c = CHR ''a'' \<longrightarrow> idle rest) \<and> CHR 0x0A \<notin> set l
   | _ \<Rightarrow> False)"

lemma quiet_line_cases:
  assumes "quiet_line l"
  obtains c rest where "l = c # CHR ''='' # rest" "c \<noteq> CHR ''m''" "silent rest" "c = CHR ''a'' \<longrightarrow> idle rest"
  using assms by (auto simp: quiet_line_def split: list.splits)

lemma quiet_attr: "quiet_line l \<Longrightarrow> attr X k l t = Inr t"
  by (erule quiet_line_cases) (simp add: attr_idle del: attr.simps)

lemma quiet_not_m: "quiet_line l \<Longrightarrow> \<not> contains ''m='' l"
  by (erule quiet_line_cases) (simp add: contains_line del: contains.simps)

lemma quiet_lf: "quiet_line l \<Longrightarrow> CHR 0x0A \<notin> set l"
  by (auto simp: quiet_line_def split: list.splits)

lemma quiet_attrs: "\<forall>l\<in>set ls. quiet_line l \<Longrightarrow> each (attr X k) ls t = Inr t"
  by (induction ls) (auto simp: quiet_attr simp del: attr.simps)

lemma quiet_literal: "CHR ''='' \<notin> set rest \<Longrightarrow> c \<noteq> CHR ''m'' \<Longrightarrow> c \<noteq> CHR 0x0A \<Longrightarrow> CHR 0x0A \<notin> set rest \<Longrightarrow> (c = CHR ''a'' \<longrightarrow> idle rest) \<Longrightarrow>
    quiet_line (c # CHR ''='' # rest)"
  by (simp add: quiet_line_def silent_no_eq)

abbreviation inert :: "string \<Rightarrow> bool" where
  "inert s \<equiv> CHR ''='' \<notin> set s \<and> CHR 0x0A \<notin> set s"

definition transport_ok :: "sdp_text \<Rightarrow> sdp_lib \<Rightarrow> transport_desc \<Rightarrow> bool" where
  "transport_ok X S td \<longleftrightarrow> plain (td_ice_ufrag td) \<and> td_ice_ufrag td \<noteq> [] \<and> plain (td_ice_pwd td) \<and> td_ice_pwd td \<noteq> [] \<and>
     (\<forall>fp. td_fingerprint td = Some fp \<longrightarrow> plain (fp_algorithm fp) \<and> inert (rfc4572 S fp) \<and> CHR '' '' \<notin> set (rfc4572 S fp) \<and> rfc4572 S fp \<noteq> [] \<and>
        st_fingerprint X (map to_lower (fp_algorithm fp)) (rfc4572 S fp) = Some fp)"

definition candidate_ok :: "sdp_lib \<Rightarrow> candidate \<Rightarrow> bool" where
  "candidate_ok S x \<longleftrightarrow> inert (chars_of (ca_foundation x)) \<and> inert (ca_protocol x) \<and> inert (host_uri S (ca_address x)) \<and> inert (ca_type x)"

definition section_ok :: "sdp_text \<Rightarrow> sdp_lib \<Rightarrow> session_desc \<Rightarrow> media_content \<Rightarrow> bool" where
  "section_ok X S d c \<longleftrightarrow>
     mc_codecs c = (case mc_kind c of MEDIA_TYPE_AUDIO \<Rightarrow> [opus] | MEDIA_TYPE_VIDEO \<Rightarrow> [h264, rtx]) \<and>
     (\<forall>x\<in>set (mc_candidates c). candidate_ok S x) \<and> streams_ok (mc_streams c) \<and>
     (\<exists>td. GetTransportInfo (mid c) d = Some td \<and> transport_ok X S td)"

lemma digit_chars: "digit 0 = CHR ''0''" "digit (Suc 0) = CHR ''1''" "digit 2 = CHR ''2''" "digit 4 = CHR ''4''" "digit 7 = CHR ''7''" "digit 8 = CHR ''8''" "digit 9 = CHR ''9''"
  by code_simp+

lemma show_codec: "show_nat 111 = ''111''" "show_nat 107 = ''107''" "show_nat 99 = ''99''" "show_nat 48000 = ''48000''" "show_nat 90000 = ''90000''" "show_nat 2 = ''2''"
  by (simp_all add: show_nat.simps digit_chars)

lemma rtpmap_lines:
  "mc_kind c = MEDIA_TYPE_AUDIO \<Longrightarrow> mc_codecs c = [opus] \<Longrightarrow>
    BuildRtpMap c = [''a=rtpmap:111 opus/48000/2'', ''a=rtcp-fb:111 transport-cc'', ''a=fmtp:111 minptime=10;useinbandfec=1'']"
  "mc_kind c = MEDIA_TYPE_VIDEO \<Longrightarrow> mc_codecs c = [h264, rtx] \<Longrightarrow>
    BuildRtpMap c = [''a=rtpmap:107 H264/90000'', ''a=rtcp-fb:107 goog-remb'', ''a=rtcp-fb:107 transport-cc'', ''a=rtcp-fb:107 ccm fir'',
     ''a=rtcp-fb:107 nack'', ''a=rtcp-fb:107 nack pli'',
     ''a=fmtp:107 level-asymmetry-allowed=1;packetization-mode=1;profile-level-id=42e01f'', ''a=rtpmap:99 rtx/90000'', ''a=fmtp:99 apt=107'']"
  by (simp_all add: BuildRtpMap_def opus_def h264_def rtx_def AddRtcpFbLine_def AddFmtpLine_def show_codec)

lemma quiet_codecs: "section_ok X S d c \<Longrightarrow> l \<in> set (BuildRtpMap c) \<Longrightarrow> quiet_line l"
  by (cases "mc_kind c") (auto simp: section_ok_def rtpmap_lines quiet_line_def silent_def idle_def)

lemma quiet_candidates: "section_ok X S d c \<Longrightarrow> l \<in> set (BuildCandidates S c) \<Longrightarrow> quiet_line l"
  by (auto simp: section_ok_def candidate_ok_def BuildCandidates_def idle_def intro!: quiet_literal)

fun fresh :: "media_kind \<Rightarrow> sdp_parse \<Rightarrow> bool" where
  "fresh MEDIA_TYPE_AUDIO p \<longleftrightarrow> pr_audio_td p = TransportDescription \<and> pr_audio_ssrc p = []"
| "fresh MEDIA_TYPE_VIDEO p \<longleftrightarrow> pr_video_td p = TransportDescription \<and> pr_video_ssrc p = [] \<and> pr_video_groups p = []"

abbreviation enter :: "media_kind \<Rightarrow> sdp_parse \<Rightarrow> sdp_parse" where
  "enter k p \<equiv> p\<lparr>pr_media_type := mid_of k, pr_contents := pr_contents p @ [k]\<rparr>"

lemma inert_mid [simp]: "inert (mid_of k)" "CHR '' '' \<notin> set (mid_of k)"
  by (cases k; simp)+

lemma m_line_shape:
  obtains rest where "m_line b c = ''m='' @ rest" "inert rest" "\<not> prefix ''group:BUNDLE'' rest"
    "\<exists>f fs. fields_of CHR '' '' (m_line b c) = (''m='' @ mid c) # ''9'' # f # fs"
proof
  let ?tail = "(if b then ''UDP/TLS/RTP/SAVPF'' else ''RTP/SAVPF'') @ concat (map (\<lambda>codec. '' '' @ show_nat (co_id codec)) (mc_codecs c))"
  show "m_line b c = ''m='' @ mid c @ '' 9 '' @ ?tail" by (simp add: m_line_def)
  show "inert (mid c @ '' 9 '' @ ?tail)" by auto
  show "\<not> prefix ''group:BUNDLE'' (mid c @ '' 9 '' @ ?tail)" by (cases "mc_kind c") auto
  have "m_line b c = (''m='' @ mid c) @ CHR '' '' # ''9'' @ CHR '' '' # ?tail" by (simp add: m_line_def)
  moreover have "fields_of CHR '' '' ((''m='' @ mid c) @ CHR '' '' # ''9'' @ CHR '' '' # ?tail) = (''m='' @ mid c) # ''9'' # fields_of CHR '' '' ?tail"
    by (subst fields_of_append, simp)+ simp
  ultimately show "\<exists>f fs. fields_of CHR '' '' (m_line b c) = (''m='' @ mid c) # ''9'' # f # fs"
    using fields_of_Cons[of "CHR '' ''" ?tail] by metis
qed

lemma parse_m_line:
  assumes "sdp_text_ok X" "fresh (mc_kind c) p"
  shows "parse_field X False (m_line b c) p =
    Inr (put (mc_kind c) (TransportDescription\<lparr>td_mid := mid c\<rparr>, [], []) (enter (mc_kind c) p))"
proof -
  let ?k = "mc_kind c" and ?t = "(TransportDescription\<lparr>td_mid := mid c\<rparr>, [], []) :: section_part"
  obtain rest f fs where r: "m_line b c = ''m='' @ rest" "inert rest" "\<not> prefix ''group:BUNDLE'' rest"
    "fields_of CHR '' '' (m_line b c) = (''m='' @ mid c) # ''9'' # f # fs"
    using m_line_shape[of b c] by metis
  note c = contains_line[OF silent_no_eq[OF conjunct1[OF r(2)]]]
  have "contains ''m='' (m_line b c)" "\<not> contains ''m=group:BUNDLE'' (m_line b c)"
    using r(1,3) c[of "CHR ''m''" "[]"] c[of "CHR ''m''" "''group:BUNDLE''"] by (simp_all del: contains.simps)
  then have "parse_section X (m_line b c) p = Inr (put ?k ?t (enter ?k p))"
    using r(4) assms(2) unfolding parse_section_def sdp_text_okD(1)[OF assms(1)]
    by (cases ?k) (simp_all add: substr_def Let_def)
  moreover have "attr X ?k (m_line b c) ?t = Inr ?t"
    unfolding r(1) using attr_idle[OF silent_no_eq[OF conjunct1[OF r(2)]], of "CHR ''m''" X ?k ?t] by simp
  then have "parse_attribute X (m_line b c) (put ?k ?t (enter ?k p)) = Inr (put ?k ?t (enter ?k p))"
    by (intro parse_attribute_put) simp_all
  ultimately show ?thesis by (simp add: parse_field_def Let_def)
qed

text \<open>What a section sets.\<close>

definition transport_read :: "session_desc \<Rightarrow> media_content \<Rightarrow> transport_desc" where
  "transport_read d c = (let td = the (GetTransportInfo (mid c) d) in
     TransportDescription\<lparr>td_mid := mid c, td_ice_ufrag := td_ice_ufrag td, td_ice_pwd := td_ice_pwd td, td_fingerprint := td_fingerprint td\<rparr>)"

definition section_read :: "session_desc \<Rightarrow> media_content \<Rightarrow> section_part" where
  "section_read d c = (transport_read d c, concat (map (\<lambda>t. map (info t) (sp_ssrcs t)) (mc_streams c)),
     if mc_kind c = MEDIA_TYPE_VIDEO then concat (map shown_groups (mc_streams c)) else [])"

lemma transport_lines_read:
  assumes "sdp_text_ok X" "transport_ok X S td"
  shows "each (attr X k) (transport_lines S td) (x, is, gs) =
    Inr (x\<lparr>td_ice_ufrag := td_ice_ufrag td, td_ice_pwd := td_ice_pwd td,
      td_fingerprint := (case td_fingerprint td of None \<Rightarrow> td_fingerprint x | Some fp \<Rightarrow> Some fp)\<rparr>, is, gs)"
proof -
  have u: "attr X k (''a=ice-ufrag:'' @ td_ice_ufrag td) (x, is, gs) = Inr (x\<lparr>td_ice_ufrag := td_ice_ufrag td\<rparr>, is, gs)" for x
    using assms by (intro attr_ufrag) (auto simp: transport_ok_def)
  have w: "attr X k (''a=ice-pwd:'' @ td_ice_pwd td) (x, is, gs) = Inr (x\<lparr>td_ice_pwd := td_ice_pwd td\<rparr>, is, gs)" for x
    using assms by (intro attr_pwd) (auto simp: transport_ok_def)
  show ?thesis
  proof (cases "td_fingerprint td")
    case None
    then show ?thesis using u w by (simp add: transport_lines_def del: attr.simps)
  next
    case (Some fp)
    have f: "attr X k (''a=fingerprint:'' @ fp_algorithm fp @ '' '' @ rfc4572 S fp) (x, is, gs) = Inr (x\<lparr>td_fingerprint := Some fp\<rparr>, is, gs)" for x
      using assms Some by (intro attr_fingerprint) (auto simp: transport_ok_def)
    have "quiet_line (''a='' @ ''setup:'' @ ConnectionRoleToString (td_role td))"
      by (cases "td_role td") (simp_all add: quiet_line_def silent_def idle_def)
    then have "attr X k (''a=setup:'' @ ConnectionRoleToString (td_role td)) t = Inr t" for t using quiet_attr by simp
    then show ?thesis using u w f Some by (simp add: transport_lines_def del: attr.simps)
  qed
qed

definition line_ok :: "string \<Rightarrow> bool" where
  "line_ok l \<longleftrightarrow> \<not> contains ''m='' l \<and> CHR 0x0A \<notin> set l"

lemma line_ok_quiet: "quiet_line l \<Longrightarrow> line_ok l"
  by (simp add: line_ok_def quiet_not_m quiet_lf)

lemma line_ok_inert: "inert rest \<Longrightarrow> line_ok (''a='' @ rest)"
  using contains_line[OF silent_no_eq, of rest "CHR ''m''" "[]" "CHR ''a''"] by (simp add: line_ok_def del: contains.simps)

lemma plain_inert: "plain s \<Longrightarrow> inert s"
  by (simp add: plain_def)

lemma line_ok_transport: "transport_ok X S td \<Longrightarrow> l \<in> set (transport_lines S td) \<Longrightarrow> line_ok l"
proof -
  assume a: "transport_ok X S td" "l \<in> set (transport_lines S td)"
  have "inert (ConnectionRoleToString r)" for r by (cases r) simp_all
  then have "\<exists>rest. l = ''a='' @ rest \<and> inert rest"
    using a by (auto simp: transport_lines_def transport_ok_def plain_def split: option.splits)
  then show "line_ok l" using line_ok_inert by blast
qed

lemma line_ok_sources: "streams_ok ts \<Longrightarrow> l \<in> set (source_lines ts) \<Longrightarrow> line_ok l"
proof -
  assume a: "streams_ok ts" "l \<in> set (source_lines ts)"
  then obtain t where t: "t \<in> set ts" "l \<in> ssrc_group_line ` set (shown_groups t) \<or> (\<exists>x. l \<in> set (ssrc_lines t x))"
    by (auto simp: source_lines_def)
  then have p: "plain (sp_id t)" "plain (sp_cname t)" "plain (sp_stream_id t)" "\<forall>g\<in>set (sp_ssrc_groups t). plain (sg_semantics g)"
    using a(1) by (auto simp: streams_ok_def stream_plain_def)
  have "\<exists>rest. l = ''a='' @ rest \<and> inert rest"
    using t(2) p by (auto simp: ssrc_group_line_def ssrc_lines_def AddSsrcLine_def plain_def)
  then show "line_ok l" using line_ok_inert by blast
qed

lemma quiet_frame:
  "quiet_line ''c=IN IP4 0.0.0.0''" "quiet_line ''a=rtcp:9 IN IP4 0.0.0.0''" "quiet_line (''a=mid:'' @ mid_of k)" "quiet_line (BuildRtpDirection dir)" "quiet_line ''a=rtcp-mux''"
  by ((cases k; cases dir), simp_all add: quiet_line_def silent_def idle_def)+

lemma section_parsed:
  assumes "sdp_text_ok X" "section_ok X S d c" "fresh (mc_kind c) p"
  shows "each (parse_field X False) (media_lines S d c) p = Inr (put (mc_kind c) (section_read d c) (enter (mc_kind c) p))"
    "l \<in> set (media_lines S d c) \<Longrightarrow> CHR 0x0A \<notin> set l"
proof -
  let ?k = "mc_kind c"
  obtain td where td: "GetTransportInfo (mid c) d = Some td" "transport_ok X S td" using assms(2) by (auto simp: section_ok_def)
  let ?head = "[''c=IN IP4 0.0.0.0'', ''a=rtcp:9 IN IP4 0.0.0.0''] @ BuildCandidates S c"
  let ?mid = "[''a=mid:'' @ mid c, BuildRtpDirection (mc_direction c)] @ (if mc_rtcp_mux c then [''a=rtcp-mux''] else []) @ BuildRtpMap c"
  let ?rest = "?head @ transport_lines S td @ ?mid @ source_lines (mc_streams c)"
  have lines: "media_lines S d c = m_line (td_fingerprint td \<noteq> None) c # ?rest"
    using td(1) by (simp add: media_lines_def BuildSsrc_def source_lines_def Let_def)
  have quiet: "\<forall>l\<in>set ?head. quiet_line l" "\<forall>l\<in>set ?mid. quiet_line l"
    using quiet_candidates[OF assms(2)] quiet_codecs[OF assms(2)] quiet_frame by (auto simp del: append_Cons)
  have streams: "streams_ok (mc_streams c)" using assms(2) by (simp add: section_ok_def)
  have ok: "\<forall>l\<in>set ?rest. line_ok l"
    using quiet line_ok_quiet line_ok_transport[OF td(2)] line_ok_sources[OF streams] by auto
  let ?x = "TransportDescription\<lparr>td_mid := mid c\<rparr>"
  have "each (attr X ?k) ?rest (?x, [], []) = Inr (section_read d c)"
  proof -
    have s: "each (attr X ?k) (source_lines (mc_streams c)) (transport_read d c, [], []) = Inr (section_read d c)"
      using attr_streams[OF assms(1), of "mc_streams c" "[]" ?k] streams by (simp add: streams_ok_def section_read_def)
    have t: "each (attr X ?k) (transport_lines S td) (?x, [], []) = Inr (transport_read d c, [], [])"
      using transport_lines_read[OF assms(1) td(2), of ?k ?x "[]" "[]"] td(1)
      by (simp add: transport_read_def TransportDescription_def split: option.splits)
    show ?thesis by (rule each_then[OF quiet_attrs[OF quiet(1)] each_then[OF t each_then[OF quiet_attrs[OF quiet(2)] s]]])
  qed
  then have "each (parse_field X False) ?rest (put ?k (?x, [], []) (enter ?k p)) = Inr (put ?k (section_read d c) (enter ?k p))"
    using ok by (intro parse_fields_put) (auto simp: line_ok_def)
  then show "each (parse_field X False) (media_lines S d c) p = Inr (put ?k (section_read d c) (enter ?k p))"
    unfolding lines using parse_m_line[OF assms(1,3)] by simp
  have "CHR 0x0A \<notin> set (m_line b c)" for b
  proof -
    obtain rest where "m_line b c = ''m='' @ rest" "inert rest" using m_line_shape[of b c] by metis
    then show ?thesis by simp
  qed
  then show "l \<in> set (media_lines S d c) \<Longrightarrow> CHR 0x0A \<notin> set l" unfolding lines using ok by (auto simp: line_ok_def)
qed

subsection \<open>The whole text\<close>

definition read_section :: "session_desc \<Rightarrow> media_content \<Rightarrow> sdp_parse \<Rightarrow> sdp_parse" where
  "read_section d c p = put (mc_kind c) (section_read d c) (enter (mc_kind c) p)"

fun get :: "media_kind \<Rightarrow> sdp_parse \<Rightarrow> section_part" where
  "get MEDIA_TYPE_AUDIO p = (pr_audio_td p, pr_audio_ssrc p, [])"
| "get MEDIA_TYPE_VIDEO p = (pr_video_td p, pr_video_ssrc p, pr_video_groups p)"

lemma read_section_simps:
  "pr_contents (read_section d c p) = pr_contents p @ [mc_kind c]" "pr_groups (read_section d c p) = pr_groups p"
  "get (mc_kind c) (read_section d c p) = section_read d c"
  "k \<noteq> mc_kind c \<Longrightarrow> get k (read_section d c p) = get k p" "k \<noteq> mc_kind c \<Longrightarrow> fresh k p \<Longrightarrow> fresh k (read_section d c p)"
  by (cases "mc_kind c"; cases k; simp add: read_section_def section_read_def)+

lemma sections_parsed:
  assumes "sdp_text_ok X" "\<forall>c\<in>set cs. section_ok X S d c \<and> fresh (mc_kind c) p" "distinct (map mc_kind cs)"
  shows "each (parse_field X False) (concat (map (media_lines S d) cs)) p = Inr (fold (read_section d) cs p)"
  using assms(2,3)
proof (induction cs arbitrary: p)
  case (Cons c cs)
  have "each (parse_field X False) (media_lines S d c) p = Inr (read_section d c p)"
    using section_parsed(1)[OF assms(1)] Cons.prems by (simp add: read_section_def)
  moreover have "\<forall>e\<in>set cs. section_ok X S d e \<and> fresh (mc_kind e) (read_section d c p)"
  proof
    fix e assume e: "e \<in> set cs"
    then have "mc_kind e \<noteq> mc_kind c" using Cons.prems(2) by (auto simp: image_iff)
    then show "section_ok X S d e \<and> fresh (mc_kind e) (read_section d c p)" using e Cons.prems(1) read_section_simps(5) by auto
  qed
  ultimately show ?case using Cons.IH Cons.prems(2) by (simp add: each_append)
qed simp

lemma sections_read:
  assumes "distinct (map mc_kind cs)"
  shows "pr_contents (fold (read_section d) cs p) = pr_contents p @ map mc_kind cs" "pr_groups (fold (read_section d) cs p) = pr_groups p"
    "k \<notin> mc_kind ` set cs \<Longrightarrow> get k (fold (read_section d) cs p) = get k p"
    "c \<in> set cs \<Longrightarrow> get (mc_kind c) (fold (read_section d) cs p) = section_read d c"
proof -
  show "pr_contents (fold (read_section d) cs p) = pr_contents p @ map mc_kind cs" "pr_groups (fold (read_section d) cs p) = pr_groups p"
    by (induction cs arbitrary: p) (simp_all add: read_section_simps)
  have other: "k \<notin> mc_kind ` set es \<Longrightarrow> get k (fold (read_section d) es p) = get k p" for k es p
    by (induction es arbitrary: p) (auto simp: read_section_simps)
  then show "k \<notin> mc_kind ` set cs \<Longrightarrow> get k (fold (read_section d) cs p) = get k p" .
  show "c \<in> set cs \<Longrightarrow> get (mc_kind c) (fold (read_section d) cs p) = section_read d c"
    using assms
  proof (induction cs arbitrary: p)
    case (Cons e es)
    show ?case
    proof (cases "c = e")
      case True
      then show ?thesis using Cons.prems other[of "mc_kind e" es] by (simp add: read_section_simps)
    qed (use Cons in auto)
  qed simp
qed

lemma quiet_line_parsed: "quiet_line l \<Longrightarrow> pr_media_type p = [] \<Longrightarrow> parse_field X False l p = Inr p"
proof -
  assume l: "quiet_line l" and p: "pr_media_type p = []"
  from l obtain c rest where "l = c # CHR ''='' # rest" "c \<noteq> CHR ''m''" "silent rest" by (rule quiet_line_cases)
  then have "\<not> contains ''m='' l" "\<not> contains ''m=group:BUNDLE'' l" by (simp_all add: contains_line del: contains.simps)
  then show "parse_field X False l p = Inr p" using p by (simp add: parse_field_def parse_section_def parse_attribute_def Let_def)
qed

definition sdp_printable :: "sdp_text \<Rightarrow> sdp_lib \<Rightarrow> session_desc \<Rightarrow> bool" where
  "sdp_printable X S d \<longleftrightarrow> distinct (map mc_kind (sd_contents d)) \<and> (\<forall>c\<in>set (sd_contents d). section_ok X S d c) \<and>
     (\<forall>g\<in>set (GetGroupByName ''BUNDLE'' d). \<forall>n\<in>set (cg_content_names g). inert n)"

lemma append_one: "(@) [c] = (#) c"
  by (rule ext) simp

lemma session_lines_quiet:
  assumes "sdp_printable X S d" "l \<in> set (session_lines d)"
  shows "quiet_line l"
proof -
  let ?names = "concat (map (\<lambda>g. concat (map (\<lambda>n. '' '' @ n) (cg_content_names g))) (GetGroupByName ''BUNDLE'' d))"
  have "inert (''group:BUNDLE'' @ ?names)" using assms(1) by (auto simp: sdp_printable_def)
  then have "quiet_line (''a='' @ ''group:BUNDLE'' @ ?names)" by (simp add: quiet_line_def silent_no_eq idle_def)
  moreover have "quiet_line ''v=0''" "quiet_line ''o=- 0 2 IN IP4 127.0.0.1''" "quiet_line ''s=-''" "quiet_line ''t=0 0''" "quiet_line ''a=msid-semantic: WMS''"
    by (simp_all add: quiet_line_def silent_def idle_def)
  ultimately show ?thesis using assms(2) by (auto simp: session_lines_def append_one Let_def split: if_splits)
qed

lemma fields_of_text:
  "\<forall>l\<in>set ls. CHR 0x0A \<notin> set l \<Longrightarrow> fields_of (CHR 0x0A) (concat (map (\<lambda>l. l @ crlf) ls)) = map (\<lambda>l. l @ [CHR 0x0D]) ls @ [[]]"
proof (induction ls)
  case (Cons l ls)
  have "fields_of (CHR 0x0A) ((l @ [CHR 0x0D]) @ CHR 0x0A # concat (map (\<lambda>l. l @ crlf) ls)) =
      (l @ [CHR 0x0D]) # fields_of (CHR 0x0A) (concat (map (\<lambda>l. l @ crlf) ls))"
    using Cons.prems by (intro fields_of_append) simp
  then show ?case using Cons by (simp add: crlf_def)
qed simp

lemma parse_crlf_lines: "each (parse_field X True) (map (\<lambda>l. l @ [CHR 0x0D]) ls) p = each (parse_field X False) ls p"
proof (induction ls arbitrary: p)
  case (Cons l ls)
  have "parse_field X True (l @ [CHR 0x0D]) p = parse_field X False l p" by (simp add: parse_field_def)
  moreover have "each (parse_field X True) (map (\<lambda>l. l @ [CHR 0x0D]) ls) = each (parse_field X False) ls" using Cons by (intro ext)
  ultimately show ?case by simp
qed simp

lemma parse_lines:
  assumes "sdp_text_ok X" "ls \<noteq> []" "\<forall>l\<in>set ls. CHR 0x0A \<notin> set l"
  shows "parse_sdp X (concat (map (\<lambda>l. l @ crlf) ls)) = Some (each (parse_field X False) ls new_parse)"
proof -
  let ?t = "concat (map (\<lambda>l. l @ crlf) ls)"
  have tok: "st_tokenize X ?t (CHR 0x0A) = map (\<lambda>l. l @ [CHR 0x0D]) ls"
    unfolding sdp_text_okD(2)[OF assms(1)] fields_of_text[OF assms(3)] by (auto simp: filter_id_conv)
  obtain l ls' where "ls = l # ls'" using assms(2) by (cases ls) auto
  then have "?t = l @ crlf @ concat (map (\<lambda>l. l @ crlf) ls')" by simp
  then have "contains crlf ?t" unfolding contains_sublist by blast
  then show ?thesis using tok assms(2) by (simp add: parse_sdp_def Let_def parse_crlf_lines)
qed

lemma fresh_new: "fresh k new_parse"
  by (cases k) (simp_all add: new_parse_def)

lemma mid_of_inject [simp]: "mid_of k = mid_of l \<longleftrightarrow> k = l"
  by (cases k; cases l) simp_all

lemma content_of_kind [simp]: "mc_kind (content_of junk p k) = k"
  by (cases k) (simp_all add: content_of_def add_streams AudioContentDescription_def VideoContentDescription_def)

lemma find_content: "k \<in> set ks \<Longrightarrow> find (\<lambda>c. mid_of k = mid c) (map (content_of junk p) ks) = Some (content_of junk p k)"
  by (induction ks) auto

lemma session_lines_parsed:
  assumes "sdp_printable X S d"
  shows "each (parse_field X False) (session_lines d) new_parse = Inr new_parse"
proof -
  have "\<forall>l\<in>set ls. quiet_line l \<Longrightarrow> each (parse_field X False) ls new_parse = Inr new_parse" for ls
    by (induction ls) (simp_all add: quiet_line_parsed new_parse_def)
  then show ?thesis using session_lines_quiet[OF assms] by blast
qed

lemma text_parsed:
  assumes "sdp_text_ok X" "sdp_printable X S d"
  shows "parse_sdp X (SdpToString S d) = Some (Inr (fold (read_section d) (sd_contents d) new_parse))"
proof -
  let ?ls = "session_lines d @ concat (map (media_lines S d) (sd_contents d))"
  have ok: "\<forall>c\<in>set (sd_contents d). section_ok X S d c \<and> fresh (mc_kind c) new_parse" "distinct (map mc_kind (sd_contents d))"
    using assms(2) by (auto simp: sdp_printable_def fresh_new)
  have "\<forall>l\<in>set ?ls. CHR 0x0A \<notin> set l"
    using session_lines_quiet[OF assms(2)] quiet_lf section_parsed(2)[OF assms(1)] ok(1) by fastforce
  then have "parse_sdp X (SdpToString S d) = Some (each (parse_field X False) ?ls new_parse)"
    unfolding SdpToString_def by (intro parse_lines[OF assms(1)]) (simp_all add: session_lines_def)
  also have "each (parse_field X False) ?ls new_parse = Inr (fold (read_section d) (sd_contents d) new_parse)"
    by (rule each_then[OF session_lines_parsed[OF assms(2)] sections_parsed[OF assms(1) ok]])
  finally show ?thesis .
qed

lemma transports_read:
  assumes "distinct (map mc_kind cs)" "c \<in> set cs"
  shows "GetTransportInfo (mid c) (parsed_desc junk (fold (read_section d) cs new_parse)) = Some (transport_read d c)"
proof -
  let ?p = "fold (read_section d) cs new_parse"
  have mids: "td_mid (transport_read d e) = mid e" for e by (simp add: transport_read_def Let_def TransportDescription_def)
  note read = sections_read(4)[OF assms(1), of _ d new_parse]
  show ?thesis
  proof (cases "mc_kind c")
    case MEDIA_TYPE_AUDIO
    then have "pr_audio_td ?p = transport_read d c" using read[OF assms(2)] by (simp add: section_read_def)
    then show ?thesis using mids[of c] by (simp add: GetTransportInfo_def parsed_desc_def)
  next
    case MEDIA_TYPE_VIDEO
    then have v: "pr_video_td ?p = transport_read d c" using read[OF assms(2)] by (simp add: section_read_def)
    have "td_mid (pr_audio_td ?p) \<noteq> ''video''"
    proof (cases "MEDIA_TYPE_AUDIO \<in> mc_kind ` set cs")
      case True
      then obtain e where "e \<in> set cs" "mc_kind e = MEDIA_TYPE_AUDIO" by auto
      then have "pr_audio_td ?p = transport_read d e" using read[of e] by (simp add: section_read_def)
      then show ?thesis using mids[of e] \<open>mc_kind e = MEDIA_TYPE_AUDIO\<close> by simp
    next
      case False
      then show ?thesis using sections_read(3)[OF assms(1) False, of d new_parse] by (simp add: new_parse_def TransportDescription_def)
    qed
    then show ?thesis using v mids[of c] MEDIA_TYPE_VIDEO by (simp add: GetTransportInfo_def parsed_desc_def)
  qed
qed

lemma contents_read:
  assumes "distinct (map mc_kind cs)" "c \<in> set cs" "streams_ok (mc_streams c)"
  shows "\<exists>c'. GetContent (mid c) (parsed_desc junk (fold (read_section d) cs new_parse)) = Some c' \<and> mc_streams c' = read_back (mc_kind c) (mc_streams c)"
proof -
  let ?p = "fold (read_section d) cs new_parse"
  have "mc_kind c \<in> set (pr_contents ?p)" using sections_read(1)[OF assms(1), of d new_parse] assms(2) by (simp add: new_parse_def)
  then have "GetContent (mid c) (parsed_desc junk ?p) = Some (content_of junk ?p (mc_kind c))"
    unfolding GetContent_def parsed_desc_def by (simp add: find_content del: mid_of_inject)
  moreover have "mc_streams (content_of junk ?p (mc_kind c)) = read_back (mc_kind c) (mc_streams c)"
    using sections_read(4)[OF assms(1,2), of d new_parse] streams_read[OF assms(3) refl]
    by (cases "mc_kind c") (auto simp: content_of_def add_streams AudioContentDescription_def VideoContentDescription_def section_read_def)
  ultimately show ?thesis by blast
qed


subsection \<open>A malformed line\<close>

lemma bad_fingerprint_line:
  assumes "sdp_text_ok X" "plain v" "v \<noteq> []" "pr_media_type p = mid_of k"
  shows "parse_field X False (''a=fingerprint '' @ v) p = Inl (OutOfRange, p)"
proof -
  have s: "silent (''fingerprint '' @ v)" using assms(2) by (intro silent_no_eq) (simp add: plain_def)
  have "st_tokenize X (''a=fingerprint '' @ v) CHR '' '' = [''a=fingerprint'', v]"
    using tokenize_two[OF assms(1), of "CHR '' ''" "''a=fingerprint''" v] assms(2,3) by (simp add: plain_def)
  then have "ParseTransportInfo X (''a=fingerprint '' @ v) td = Inl OutOfRange" for td
    using contains_line[OF s] by (simp add: ParseTransportInfo_def substr_def del: contains.simps)
  moreover have "parse_section X (''a=fingerprint '' @ v) p = Inr p"
    using contains_line[OF s] by (simp add: parse_section_def del: contains.simps)
  ultimately show ?thesis using assms(4) by (cases k) (simp_all add: parse_field_def parse_attribute_def Let_def)
qed

lemma last_section: "cs \<noteq> [] \<Longrightarrow> pr_media_type (fold (read_section d) cs p) = mid (last cs)"
proof (induction cs arbitrary: p)
  case (Cons c cs)
  have "pr_media_type (read_section d c p) = mid c" by (cases "mc_kind c") (simp_all add: read_section_def section_read_def)
  then show ?case using Cons by (cases "cs = []") simp_all
qed simp

text \<open>
  One line \<open>a=fingerprint\<close> whose name is not followed by a colon, at the end of an otherwise
  well-formed answer, makes \<open>substr\<close> throw, and nothing catches it.
\<close>

theorem short_fingerprint_throws:
  assumes "sdp_text_ok X" "sdp_printable X S d" "sd_contents d \<noteq> []" "plain v" "v \<noteq> []"
  shows "\<exists>p. parse_sdp X (SdpToString S d @ ''a=fingerprint '' @ v @ crlf) = Some (Inl (OutOfRange, p))"
proof -
  let ?ls = "session_lines d @ concat (map (media_lines S d) (sd_contents d))" and ?bad = "''a=fingerprint '' @ v"
  let ?p = "fold (read_section d) (sd_contents d) new_parse"
  have ok: "\<forall>c\<in>set (sd_contents d). section_ok X S d c \<and> fresh (mc_kind c) new_parse" "distinct (map mc_kind (sd_contents d))"
    using assms(2) by (auto simp: sdp_printable_def fresh_new)
  have lf: "\<forall>l\<in>set (?ls @ [?bad]). CHR 0x0A \<notin> set l"
    using session_lines_quiet[OF assms(2)] quiet_lf section_parsed(2)[OF assms(1)] ok(1) assms(4) by (fastforce simp: plain_def)
  have "SdpToString S d @ ?bad @ crlf = concat (map (\<lambda>l. l @ crlf) (?ls @ [?bad]))" by (simp add: SdpToString_def)
  then have "parse_sdp X (SdpToString S d @ ?bad @ crlf) = Some (each (parse_field X False) (?ls @ [?bad]) new_parse)"
    using parse_lines[OF assms(1) _ lf] by simp
  also have "each (parse_field X False) (?ls @ [?bad]) new_parse = each (parse_field X False) [?bad] ?p"
    by (rule each_then[OF each_then[OF session_lines_parsed[OF assms(2)] sections_parsed[OF assms(1) ok]] refl])
  also have "\<dots> = Inl (OutOfRange, ?p)"
    using bad_fingerprint_line[OF assms(1,4,5) last_section[OF assms(3)]] by simp
  finally show ?thesis by (intro exI[of _ ?p]) (simp only: append_assoc)
qed

subsection \<open>A run\<close>

definition read_nat :: "string \<Rightarrow> nat" where
  "read_nat s = foldl (\<lambda>n c. n * 10 + (of_char c - 48)) 0 s"

lemma read_show_nat: "read_nat (show_nat n) = n"
proof (induction n rule: show_nat.induct)
  case (1 n)
  have "of_char (digit d) = 48 + d" if "d < 10" for d using that by (simp add: digit_def)
  then show ?case using 1 by (subst show_nat.simps) (auto simp: read_nat_def)
qed

definition demo_text :: sdp_text where
  "demo_text = \<lparr>st_tokenize = (\<lambda>s d. filter (\<lambda>f. f \<noteq> []) (fields_of d s)), st_split = (\<lambda>s d. fields_of d s),
     st_tokenize_first = (\<lambda>s d. if d \<in> set s then Some (takeWhile (\<lambda>c. c \<noteq> d) s, dropWhile (\<lambda>c. c = d) (dropWhile (\<lambda>c. c \<noteq> d) s)) else None),
     st_u32 = (\<lambda>s. Some (of_nat (read_nat s))), st_fingerprint = (\<lambda>alg v. Some \<lparr>fp_algorithm = alg, fp_digest = [171, 205]\<rparr>)\<rparr>"

lemma demo_text_ok: "sdp_text_ok demo_text"
  by (simp add: sdp_text_ok_def demo_text_def read_show_nat)

definition demo_sdp :: sdp_lib where
  "demo_sdp = \<lparr>cert_fingerprint = (\<lambda>_. None), rfc4572 = (\<lambda>_. ''AB:CD''), host_uri = (\<lambda>_. ''10.0.0.1'')\<rparr>"

definition demo_answer :: session_desc where
  "demo_answer = (SessionDescription kAnswer)\<lparr>
     sd_contents := [AudioContentDescription kRecvOnly,
       (VideoContentDescription kRecvOnly)\<lparr>mc_streams := [\<lparr>sp_id = ''cam'', sp_ssrcs = [7, 8], sp_ssrc_groups = [\<lparr>sg_semantics = ''FID'', sg_ssrcs = [7, 8]\<rparr>],
         sp_cname = ''host'', sp_stream_id = ''live''\<rparr>]\<rparr>],
     sd_transports := map (\<lambda>m. \<lparr>td_mid = m, td_ice_ufrag = ''abcd'', td_ice_pwd = ''secret'',
       td_fingerprint = Some \<lparr>fp_algorithm = ''sha-256'', fp_digest = [171, 205]\<rparr>, td_role = ACTIVE\<rparr>) [''audio'', ''video'']\<rparr>"

lemma to_lower_demo: "map to_lower ''sha-256'' = ''sha-256''"
  by code_simp

lemma demo_answer_printable: "sdp_printable demo_text demo_sdp demo_answer"
proof -
  have "plain ''abcd''" "plain ''secret''" "plain ''sha-256''" "plain ''cam''" "plain ''host''" "plain ''live''" "plain ''FID''"
    by (simp_all add: plain_def)
  then show ?thesis
    by (simp add: sdp_printable_def demo_answer_def SessionDescription_def AudioContentDescription_def VideoContentDescription_def section_ok_def
        streams_ok_def stream_plain_def transport_ok_def GetTransportInfo_def GetGroupByName_def demo_text_def demo_sdp_def to_lower_demo[simplified])
qed


theorem short_fingerprint_throws_witness:
  "\<exists>p. parse_sdp demo_text (SdpToString demo_sdp demo_answer @ ''a=fingerprint '' @ ''AB'' @ crlf) = Some (Inl (OutOfRange, p))"
  by (rule short_fingerprint_throws[OF demo_text_ok demo_answer_printable]) (simp_all add: demo_answer_def SessionDescription_def plain_def)

end
