(* ===== verification/PcInv.thy ===== *)
theory PcInv
  imports PcFrame MediaProps SdpProps
begin

text \<open>
  Invariants of a peer connection: what has to be shown of the operations that make a stream, so that
  every step keeps one.
\<close>

subsection \<open>The codecs\<close>

lemma known_codecs:
  "associated_types [h264, rtx] Map.empty = Inr [99 \<mapsto> 107]" "rtx_type [h264, rtx] = 99"
  by (simp_all add: h264_def rtx_def show_codec stoi_def is_digit_def digits_value_def rtx_type_def)

lemma content_codecs:
  "mc_codecs (content_of junk p MEDIA_TYPE_VIDEO) = [h264, rtx]" "mc_codecs (content_of junk p MEDIA_TYPE_AUDIO) = [opus]"
proof -
  have "mc_codecs (fold add_stream ts c) = mc_codecs c" for ts c by (induction ts arbitrary: c) (simp_all add: add_stream_def)
  then show "mc_codecs (content_of junk p MEDIA_TYPE_VIDEO) = [h264, rtx]" "mc_codecs (content_of junk p MEDIA_TYPE_AUDIO) = [opus]"
    by (simp_all add: content_of_def VideoContentDescription_def AudioContentDescription_def)
qed

text \<open>What is said does not matter for the streams, nor do the descriptions, the controller and the settings.\<close>

lemma offer_codecs: "mc_codecs (offer_content c send recv rtcp_mux source) = mc_codecs c"
proof -
  have "mc_codecs (fold add_stream ts c) = mc_codecs c" for ts c by (induction ts arbitrary: c) (simp_all add: add_stream_def)
  then show ?thesis by (simp add: offer_content_def)
qed


subsection \<open>Steps that keep the frame\<close>

lemma stream_step_keeps:
  "pc_step (PeReportTimer E role) pc = Inr pc' \<Longrightarrow> pc_keeps pc pc'" "pc_step (PePliTimer E) pc = Inr pc' \<Longrightarrow> pc_keeps pc pc'"
  "pc_step (PeNackTimer E) pc = Inr pc' \<Longrightarrow> pc_keeps pc pc'"
proof -
  have report: "vs_keeps v v'" if "and_then (send_report VIDEO L now (vs_rtcp v)) (\<lambda>(es, m). Inr (es, v\<lparr>vs_rtcp := m\<rparr>)) = Inr (es, v')" for L now es and v v' :: "'c video_send"
    using that send_report_keeps by (fastforce simp: and_then_Inr vs_keeps_def)
  show "pc_step (PeReportTimer E role) pc = Inr pc' \<Longrightarrow> pc_keeps pc pc'"
    by (cases role) (auto elim!: on_stream_keeps dest: vr_timers_keep(1) ar_timer_keeps send_report_keeps report)
  show "pc_step (PePliTimer E) pc = Inr pc' \<Longrightarrow> pc_keeps pc pc'" "pc_step (PeNackTimer E) pc = Inr pc' \<Longrightarrow> pc_keeps pc pc'"
    by (auto elim!: on_stream_keeps dest: vr_timers_keep)
qed

lemma sr_keeps: "pc_keeps pc (PcSetSrInfo m ts ntp pc)"
proof -
  have "vs_keeps v (VsSetSrInfo ts ntp v)" for v :: "'c video_send" by (simp add: VsSetSrInfo_def vs_keeps_def md_sr_keeps)
  then show ?thesis
    by (cases m) (simp_all add: pc_update PcSetSrInfo_def option.rel_map AsSetSrInfo_def md_sr_keeps option.rel_refl)
qed

lemma pc_send_packet_keeps:
  assumes "PcSendPacket E m packet pc = Inr (ok, pc')"
  shows "pc_keeps pc pc'"
proof (cases m)
  case VIDEO
  have step: "pc_keeps pc (q\<lparr>pc_video_send := Some v'\<rparr>)"
    if "PcSendRtp E d pc = Inr (ok, q)" "pc_video_send pc = Some v" "vs_keeps v u" "v' = VsUpdateRtpStat now p u" for d ok q v u v' now and p :: send_packet
  proof -
    have "pc_video_send q = Some v" "vs_keeps v v'" using that vsk.trans[OF that(3) vs_count_keeps] by (auto simp: PcSendRtp_def and_then_Inr)
    then show ?thesis using pc_send_keeps(1)[OF that(1)] stream_keeps(3) pk.trans by blast
  qed
  then show ?thesis using VIDEO assms
    by (auto simp: PcSendPacket_def and_then_Inr split: option.splits if_splits prod.splits
        dest: rtx_keeps intro: stream_keeps step[OF _ _ rtx_keeps refl] step[OF _ _ vsk.refl refl])
next
  case AUDIO
  show ?thesis
  proof (cases "pc_audio_send pc")
    case (Some a)
    then obtain q where q: "PcSendRtp E (pe_data E packet) pc = Inr (ok, q)"
      "pc' = q\<lparr>pc_audio_send := Some (AsUpdateRtpStat (now_ms (pe_now E)) packet a)\<rparr>"
      using assms AUDIO by (auto simp: PcSendPacket_def and_then_Inr)
    then have "pc_audio_send q = Some a" using Some by (auto simp: PcSendRtp_def and_then_Inr)
    then have "pc_keeps q pc'" unfolding q(2) AsUpdateRtpStat_def by (rule stream_keeps(4)[OF _ md_count_keeps])
    then show ?thesis using pc_send_keeps(1)[OF q(1)] pk.trans by blast
  qed (use assms AUDIO in \<open>simp add: PcSendPacket_def\<close>)
qed

subsection \<open>Invariants\<close>

locale pc_invariant =
  fixes I :: "('s, 'c, 'g, 'p) peer_connection \<Rightarrow> bool"
  assumes keeps: "pc_keeps p q \<Longrightarrow> I p \<Longrightarrow> I q"
    and set_controller: "I p \<Longrightarrow> I (p\<lparr>pc_controller := c\<rparr>)"
    and set_descs: "I p \<Longrightarrow> I (p\<lparr>pc_local_desc := d\<rparr>)" "I p \<Longrightarrow> I (p\<lparr>pc_remote_desc := d\<rparr>)"
    and set_sources: "I p \<Longrightarrow> I (p\<lparr>pc_audio_source := ss\<rparr>)" "I p \<Longrightarrow> I (p\<lparr>pc_video_source := ss\<rparr>)"
    and set_flags: "I p \<Longrightarrow> I (p\<lparr>pc_is_pli := b\<rparr>)" "I p \<Longrightarrow> I (p\<lparr>pc_is_dtls := b\<rparr>)" "I p \<Longrightarrow> I (p\<lparr>pc_certificate := cert\<rparr>)"
      "I p \<Longrightarrow> I (p\<lparr>pc_transport_mode := tm\<rparr>)" "I p \<Longrightarrow> I (p\<lparr>pc_destroy_timer := b\<rparr>)"
    and start: "I (PeerConnection u)"
    and audio_receive: "I p \<Longrightarrow> mc_codecs content = [opus] \<Longrightarrow> I (CreateAudioReceiveStream E content p)"
    and video_receive: "I p \<Longrightarrow> mc_codecs content = [h264, rtx] \<Longrightarrow> CreateVideoReceiveStream E content p = Inr q \<Longrightarrow> I q"
    and audio_send: "I p \<Longrightarrow> I (create_audio_send E st p)"
    and video_send: "I p \<Longrightarrow> rtx_type codecs = 99 \<Longrightarrow> I (create_video_send E codecs st p)"
begin

lemma fold_inv: "(\<And>x p. I p \<Longrightarrow> I (f x p)) \<Longrightarrow> I p \<Longrightarrow> I (fold f xs p)"
  by (induction xs arbitrary: p) auto

lemma create_send: "I pc \<Longrightarrow> I (CreateAudioSendStream E content pc)"
  "I pc \<Longrightarrow> rtx_type (mc_codecs content) = 99 \<Longrightarrow> I (CreateVideoSendStream E content pc)"
  by (auto simp: CreateAudioSendStream_def CreateVideoSendStream_def intro: fold_inv audio_send video_send)

lemma controller: "on_controller E f pc = Inr pc' \<Longrightarrow> I pc \<Longrightarrow> I pc'"
  using on_controller_keeps keeps set_controller by metis

lemma offer:
  assumes "PcCreateOffer E options pc = Inr (text, pc')" "I pc"
  shows "I pc'"
proof -
  have codecs: "rtx_type (mc_codecs (offer_video E options pc)) = 99"
    using known_codecs(2) by (simp add: offer_video_def offer_codecs VideoContentDescription_def)
  have "I (if send_audio options then CreateAudioSendStream E (offer_audio E options pc) pc else pc)"
    using assms(2) by (simp add: create_send(1))
  then have "I (offer_streams E options pc)" using codecs by (simp add: offer_streams_def Let_def create_send(2))
  then show ?thesis using assms
    by (auto simp: PcCreateOffer_def Let_def and_then_Inr set_descs split: if_splits dest!: controller)
qed

lemma answer_streams_inv:
  assumes "answer_streams E p pc = Inr pc'" "I pc"
  shows "I pc'"
proof (cases "IsLive pc")
  case True
  then obtain q where q: "CreateVideoReceiveStream E (content_of (pe_junk E) p MEDIA_TYPE_VIDEO) pc = Inr q"
    "pc' = CreateAudioReceiveStream E (content_of (pe_junk E) p MEDIA_TYPE_AUDIO) q" using assms(1) by (auto simp: answer_streams_def and_then_Inr)
  show ?thesis unfolding q(2)
    by (rule audio_receive[OF video_receive[OF assms(2) content_codecs(1) q(1)] content_codecs(2)])
qed (use assms in \<open>simp add: answer_streams_def\<close>)

lemma answer:
  assumes "PcSetRemoteSdp E sdp pc = Inr (ok, pc')" "I pc"
  shows "I pc'"
proof -
  have "I q" if "answer_streams E p (pc\<lparr>pc_remote_desc := d\<rparr>) = Inr q" for p d q
    using answer_streams_inv[OF that] assms(2) by (simp add: set_descs)
  then show ?thesis using assms
    by (auto simp: PcSetRemoteSdp_def Let_def and_then_Inr set_descs split: option.splits sum.splits sdp_stop.splits dest!: controller)
qed

lemma step:
  assumes "pc_step e pc = Inr pc'" "I pc"
  shows "I pc'"
proof (cases e)
  case (PeSource m source)
  then show ?thesis using assms by (cases m) (auto simp: set_sources)
next
  case (PeSendRaw E rtcp data)
  then show ?thesis using assms by (auto simp: and_then_Inr split: if_splits dest: pc_send_keeps intro: keeps)
next
  case (PeReportTimer E role)
  then show ?thesis using assms keeps stream_step_keeps(1) by blast
next
  case (PePliTimer E)
  then show ?thesis using assms keeps stream_step_keeps(2) by blast
next
  case (PeNackTimer E)
  then show ?thesis using assms keeps stream_step_keeps(3) by blast
qed (use assms in \<open>auto simp: and_then_Inr set_mode_def PcDestroy_def intro: offer answer controller set_flags keeps[OF pc_send_packet_keeps] keeps[OF sr_keeps]\<close>)

lemma reachable: "pc_reachable cert pc \<Longrightarrow> I pc"
proof (induction rule: pc_reachable.induct)
  case (pc_init u)
  show ?case by (cases cert) (simp_all add: PcInit_def start set_controller set_flags)
qed (rule step)

end

end
