(* ===== verification/PcProps.thy ===== *)
theory PcProps
  imports PcInv
begin

text \<open>
  The peer connection: its streams and the fields it keeps about them, the timers it starts, the round
  trip time, the dispatch of packets, and the offer.
\<close>

subsection \<open>Streams\<close>

text \<open>A module as the streams set it up, for \<open>ssrc\<close> and the source it hears.\<close>

definition md_ready :: "bool \<Rightarrow> bool \<Rightarrow> u32 \<Rightarrow> u32 \<Rightarrow> 'g rtp_rtcp \<Rightarrow> bool" where
  "md_ready audio sending ssrc remote m \<longleftrightarrow> md_report_timer m \<and> rs_method (md_sender m) = kCompound \<and> rs_report_flags (md_sender m) = [] \<and>
     rs_audio (md_sender m) = audio \<and> rs_sending (md_sender m) = sending \<and> rs_receive_stat (md_sender m) = (\<not> sending) \<and>
     rs_ssrc (md_sender m) = ssrc \<and> rs_remote_ssrc (md_sender m) = remote"

definition receives_video :: "('s, 'c, 'g, 'p) peer_connection \<Rightarrow> ('c, 'g, 'p) video_receive \<Rightarrow> bool" where
  "receives_video pc v \<longleftrightarrow> vc_remote_ssrc (vr_config v) = pc_remote_video_ssrc pc \<and> vc_rtx_ssrc (vr_config v) = pc_remote_video_rtx_ssrc pc \<and>
     vc_rtx_associated_payload_types (vr_config v) = [99 \<mapsto> 107] \<and> md_ready False False kDefaultVideoSsrc (pc_remote_video_ssrc pc) (vr_rtcp v)"

definition receives_audio :: "('s, 'c, 'g, 'p) peer_connection \<Rightarrow> ('c, 'g) audio_receive \<Rightarrow> bool" where
  "receives_audio pc a \<longleftrightarrow> pc_audio_clockrate pc = 48000 \<and> md_ready True False kDefaultAudioSsrc (pc_remote_audio_ssrc pc) (ar_rtcp a)"

definition sends_video :: "('s, 'c, 'g, 'p) peer_connection \<Rightarrow> 'g video_send \<Rightarrow> bool" where
  "sends_video pc v \<longleftrightarrow> vs_rtx_payload_type v = 99 \<and> vs_local_rtx_ssrc v = pc_local_video_rtx_ssrc pc \<and>
     md_rtx_send_ssrc (vs_rtcp v) = pc_local_video_rtx_ssrc pc \<and> md_ready False True (pc_local_video_ssrc pc) 0 (vs_rtcp v)"

definition has_stream :: "'a option \<Rightarrow> u32 \<Rightarrow> ('a \<Rightarrow> bool) \<Rightarrow> bool" where
  "has_stream s ssrc ok \<longleftrightarrow> (case s of None \<Rightarrow> ssrc = 0 | Some x \<Rightarrow> ssrc \<noteq> 0 \<and> ok x)"

definition streams_match :: "('s, 'c, 'g, 'p) peer_connection \<Rightarrow> bool" where
  "streams_match pc \<longleftrightarrow> has_stream (pc_video_receive pc) (pc_remote_video_ssrc pc) (receives_video pc) \<and>
     has_stream (pc_audio_receive pc) (pc_remote_audio_ssrc pc) (receives_audio pc) \<and>
     has_stream (pc_video_send pc) (pc_local_video_ssrc pc) (sends_video pc) \<and>
     has_stream (pc_audio_send pc) (pc_local_audio_ssrc pc) (md_ready True True (pc_local_audio_ssrc pc) 0)"

lemma ready_keeps: "md_keeps m m' \<Longrightarrow> md_ready audio sending ssrc remote m \<Longrightarrow> md_ready audio sending ssrc remote m'"
  by (simp add: md_keeps_def sender_keeps_def md_ready_def)

lemma has_stream_keeps:
  assumes "rel_option R s s'" "has_stream s ssrc ok" "\<And>x y. R x y \<Longrightarrow> ok x \<Longrightarrow> ok' y"
  shows "has_stream s' ssrc ok'"
  using assms(1,2) by (cases s; cases s') (auto simp: has_stream_def intro: assms(3))

lemma stream_kept:
  assumes "pc_static p q"
  shows "vr_keeps v v' \<Longrightarrow> receives_video p v \<Longrightarrow> receives_video q v'"
    and "ar_keeps a a' \<Longrightarrow> receives_audio p a \<Longrightarrow> receives_audio q a'"
    and "vs_keeps u u' \<Longrightarrow> sends_video p u \<Longrightarrow> sends_video q u'"
proof -
  show "vs_keeps u u' \<Longrightarrow> sends_video p u \<Longrightarrow> sends_video q u'"
    using assms ready_keeps[of "vs_rtcp u" "vs_rtcp u'"] by (simp add: vs_keeps_def sends_video_def pc_static_def) (simp add: md_keeps_def)
  show "vr_keeps v v' \<Longrightarrow> receives_video p v \<Longrightarrow> receives_video q v'"
    using assms ready_keeps[of "vr_rtcp v" "vr_rtcp v'"] by (simp add: vr_keeps_def receives_video_def pc_static_def)
  show "ar_keeps a a' \<Longrightarrow> receives_audio p a \<Longrightarrow> receives_audio q a'"
    using assms ready_keeps[of "ar_rtcp a" "ar_rtcp a'"] by (simp add: ar_keeps_def receives_audio_def pc_static_def)
qed

lemma match_keeps:
  assumes "pc_keeps p q" "streams_match p"
  shows "streams_match q"
proof -
  have s: "pc_static p q" and r: "pc_streams_keep p q" using assms(1) by (auto simp: pc_keeps_def)
  note m = assms(2)[unfolded streams_match_def] and r' = r[unfolded pc_streams_keep_def]
  have "has_stream (pc_video_receive q) (pc_remote_video_ssrc p) (receives_video q)"
    by (rule has_stream_keeps[of vr_keeps "pc_video_receive p" _ _ "receives_video p"]) (use m r' stream_kept(1)[OF s] in auto)
  moreover have "has_stream (pc_audio_receive q) (pc_remote_audio_ssrc p) (receives_audio q)"
    by (rule has_stream_keeps[of ar_keeps "pc_audio_receive p" _ _ "receives_audio p"]) (use m r' stream_kept(2)[OF s] in auto)
  moreover have "has_stream (pc_video_send q) (pc_local_video_ssrc p) (sends_video q)"
    by (rule has_stream_keeps[of vs_keeps "pc_video_send p" _ _ "sends_video p"]) (use m r' stream_kept(3)[OF s] in auto)
  moreover have "has_stream (pc_audio_send q) (pc_local_audio_ssrc p) (md_ready True True (pc_local_audio_ssrc p) 0)"
    by (rule has_stream_keeps[of md_keeps "pc_audio_send p" _ _ "md_ready True True (pc_local_audio_ssrc p) 0"]) (use m r' ready_keeps in auto)
  ultimately show ?thesis using s by (simp add: streams_match_def pc_static_def)
qed

lemmas new_stream = RtpRtcpImpl_def RTCPSender_def RTCPReceiver_def RtpRtcpConfig_def MdSetRtcpStatus_def SetRtcpStatus_def MdSetRemoteSsrc_def SetSendingStatus_def
  AudioReceiveStream_def AudioSendStream_def VideoReceiveStream_def CreateRtpRtcpModule_def VideoSendStream_def Let_def

lemma new_ready:
  "AudioReceiveStream L us t ssrc remote = (a, calls) \<Longrightarrow> md_ready True False ssrc remote (ar_rtcp a)"
  "AudioSendStream L us t ssrc = (m, calls) \<Longrightarrow> md_ready True True ssrc 0 m"
  "VideoReceiveStream L M us t cf = (v, calls) \<Longrightarrow> vr_config v = cf \<and> md_ready False False (vc_local_ssrc cf) (vc_remote_ssrc cf) (vr_rtcp v)"
  "VideoSendStream L us t ssrc rtx_ssrc pt = (u, calls) \<Longrightarrow> vs_rtx_payload_type u = pt \<and> vs_local_rtx_ssrc u = rtx_ssrc \<and>
     md_rtx_send_ssrc (vs_rtcp u) = rtx_ssrc \<and> md_ready False True ssrc 0 (vs_rtcp u)"
  by (auto simp: new_stream md_ready_def split: prod.splits if_splits)

lemma match_frame:
  "streams_match (pc_emit es pc) = streams_match pc" "streams_match (pc\<lparr>pc_controller := c\<rparr>) = streams_match pc"
  "streams_match (pc\<lparr>pc_remote_desc := d\<rparr>) = streams_match pc" "streams_match (pc\<lparr>pc_local_desc := d\<rparr>) = streams_match pc"
  "streams_match (pc\<lparr>pc_audio_source := ss\<rparr>) = streams_match pc" "streams_match (pc\<lparr>pc_video_source := ss\<rparr>) = streams_match pc"
  "streams_match (pc\<lparr>pc_is_pli := b\<rparr>) = streams_match pc" "streams_match (pc\<lparr>pc_is_dtls := b\<rparr>) = streams_match pc"
  "streams_match (pc\<lparr>pc_certificate := cert\<rparr>) = streams_match pc" "streams_match (pc\<lparr>pc_transport_mode := tm\<rparr>) = streams_match pc"
  "streams_match (pc\<lparr>pc_destroy_timer := b\<rparr>) = streams_match pc" "streams_match (PeerConnection u)"
  by (simp_all add: streams_match_def receives_video_def receives_audio_def sends_video_def has_stream_def pc_emit_def PeerConnection_def split: option.splits)

lemmas match_defs = streams_match_def receives_video_def receives_audio_def sends_video_def has_stream_def

lemma create_audio_receive_match:
  assumes "streams_match pc" "mc_codecs content = [opus]"
  shows "streams_match (CreateAudioReceiveStream E content pc)"
proof (cases "mc_streams content = [] \<or> FirstSsrc (hd (mc_streams content)) = 0")
  case False
  then obtain st ss where st: "mc_streams content = st # ss" "FirstSsrc st \<noteq> 0" by (cases "mc_streams content") auto
  let ?n = "AudioReceiveStream (pe_rtcp E) (pe_now_us E) (pe_rtcp_report_timer_interval E) kDefaultAudioSsrc (FirstSsrc st)"
  obtain a calls where n: "?n = (a, calls)" by (cases ?n)
  then show ?thesis using assms st new_ready(1)[OF n]
    by (simp add: CreateAudioReceiveStream_def match_frame) (simp add: match_defs opus_def cong: option.case_cong)
qed (use assms in \<open>auto simp: CreateAudioReceiveStream_def split: list.splits\<close>)

lemma create_video_receive_cases:
  assumes "CreateVideoReceiveStream E content pc = Inr pc'" "mc_streams content = st # ss" "FirstSsrc st \<noteq> 0"
  obtains types rtx_ssrc v calls where "associated_types (mc_codecs content) Map.empty = Inr types"
    and "VideoReceiveStream (pe_rtcp E) (pe_media E) (pe_now_us E) (pe_rtcp_report_timer_interval E)
       \<lparr>vc_local_ssrc = kDefaultVideoSsrc, vc_remote_ssrc = FirstSsrc st, vc_rtx_ssrc = rtx_ssrc, vc_rtx_associated_payload_types = types,
        vc_enable_xr = pe_enable_xr E, vc_request_pli_interval_ms = (if pc_is_pli pc then pe_request_pli_interval_ms E else 0)\<rparr> = (v, calls)"
    and "pc' = pc_emit (replace_timers VideoReceiveSlot calls (map_option vr_rtcp (pc_video_receive pc)))
        (pc\<lparr>pc_remote_video_ssrc := FirstSsrc st, pc_remote_video_rtx_ssrc := rtx_ssrc, pc_video_receive := Some v\<rparr>)"
proof -
  let ?rtx = "case sp_ssrcs st of _ # s # _ \<Rightarrow> s | _ \<Rightarrow> pc_remote_video_rtx_ssrc pc"
  obtain types where t: "associated_types (mc_codecs content) Map.empty = Inr types"
    using assms by (auto simp: CreateVideoReceiveStream_def and_then_Inr Let_def)
  let ?n = "VideoReceiveStream (pe_rtcp E) (pe_media E) (pe_now_us E) (pe_rtcp_report_timer_interval E)
       \<lparr>vc_local_ssrc = kDefaultVideoSsrc, vc_remote_ssrc = FirstSsrc st, vc_rtx_ssrc = ?rtx, vc_rtx_associated_payload_types = types,
        vc_enable_xr = pe_enable_xr E, vc_request_pli_interval_ms = (if pc_is_pli pc then pe_request_pli_interval_ms E else 0)\<rparr>"
  obtain v calls where n: "?n = (v, calls)" by (cases ?n)
  have "pc' = pc_emit (replace_timers VideoReceiveSlot calls (map_option vr_rtcp (pc_video_receive pc)))
        (pc\<lparr>pc_remote_video_ssrc := FirstSsrc st, pc_remote_video_rtx_ssrc := ?rtx, pc_video_receive := Some v\<rparr>)"
    using assms n unfolding CreateVideoReceiveStream_def t by (simp add: Let_def)
  then show thesis by (rule that[OF t n])
qed

lemma create_video_receive_match:
  assumes "streams_match pc" "mc_codecs content = [h264, rtx]" "CreateVideoReceiveStream E content pc = Inr pc'"
  shows "streams_match pc'"
proof (cases "mc_streams content = [] \<or> FirstSsrc (hd (mc_streams content)) = 0")
  case False
  then obtain st ss where st: "mc_streams content = st # ss" "FirstSsrc st \<noteq> 0" by (cases "mc_streams content") auto
  from assms(3) st show ?thesis
  proof (rule create_video_receive_cases)
    fix types rtx_ssrc v calls
    assume "associated_types (mc_codecs content) Map.empty = Inr types"
      and n: "VideoReceiveStream (pe_rtcp E) (pe_media E) (pe_now_us E) (pe_rtcp_report_timer_interval E)
       \<lparr>vc_local_ssrc = kDefaultVideoSsrc, vc_remote_ssrc = FirstSsrc st, vc_rtx_ssrc = rtx_ssrc, vc_rtx_associated_payload_types = types,
        vc_enable_xr = pe_enable_xr E, vc_request_pli_interval_ms = (if pc_is_pli pc then pe_request_pli_interval_ms E else 0)\<rparr> = (v, calls)"
      and pc': "pc' = pc_emit (replace_timers VideoReceiveSlot calls (map_option vr_rtcp (pc_video_receive pc)))
        (pc\<lparr>pc_remote_video_ssrc := FirstSsrc st, pc_remote_video_rtx_ssrc := rtx_ssrc, pc_video_receive := Some v\<rparr>)"
    then have "types = [99 \<mapsto> 107]" unfolding assms(2) known_codecs(1) by simp
    then show ?thesis using assms(1) st new_ready(3)[OF n] unfolding pc'
      by (simp add: match_frame) (simp add: match_defs cong: option.case_cong)
  qed
qed (use assms in \<open>auto simp: CreateVideoReceiveStream_def split: list.splits\<close>)

lemma create_audio_send_match:
  assumes "streams_match pc"
  shows "streams_match (create_audio_send E st pc)"
proof (cases "FirstSsrc st = 0")
  case False
  let ?n = "AudioSendStream (pe_rtcp E) (pe_now_us E) (pe_rtcp_report_timer_interval E) (FirstSsrc st)"
  obtain a calls where n: "?n = (a, calls)" by (cases ?n)
  then show ?thesis using assms False new_ready(2)[OF n]
    by (simp add: create_audio_send_def match_frame) (simp add: match_defs cong: option.case_cong)
qed (use assms in \<open>simp add: create_audio_send_def\<close>)

lemma create_video_send_match:
  assumes "streams_match pc" "rtx_type codecs = 99"
  shows "streams_match (create_video_send E codecs st pc)"
proof (cases "FirstSsrc st = 0")
  case False
  let ?rtx = "case sp_ssrcs st of _ # s # _ \<Rightarrow> s | _ \<Rightarrow> pc_local_video_rtx_ssrc pc"
  let ?n = "VideoSendStream (pe_rtcp E) (pe_now_us E) (pe_rtcp_report_timer_interval E) (FirstSsrc st) ?rtx 99"
  obtain v calls where n: "?n = (v, calls)" by (cases ?n)
  have "create_video_send E codecs st pc = pc_emit (replace_timers VideoSendSlot calls (map_option vs_rtcp (pc_video_send pc)))
      (pc\<lparr>pc_local_video_ssrc := FirstSsrc st, pc_local_video_rtx_ssrc := ?rtx, pc_video_send := Some v\<rparr>)"
    using assms(2) False n by (simp add: create_video_send_def Let_def)
  then show ?thesis using assms(1) False new_ready(4)[OF n]
    by (simp add: match_frame) (simp add: match_defs cong: option.case_cong)
qed (use assms in \<open>simp add: create_video_send_def\<close>)

interpretation pcm: pc_invariant streams_match
  by unfold_locales (auto simp: match_frame intro: match_keeps create_audio_receive_match create_video_receive_match
      create_audio_send_match create_video_send_match)

text \<open>
  C9: In every reachable connection the streams agree with what the connection keeps about them: a
  stream is there exactly when its source is known, it has that source, hears the remote one, repeats
  payload type 107 as 99, and its RTCP module is on, sends compound packets and owes none.
\<close>

theorem reachable_streams_match:
  assumes "pc_reachable cert pc"
  shows "streams_match pc"
  by (rule pcm.reachable[OF assms])

subsection \<open>Timers\<close>

definition timer_weight :: "stream_slot \<Rightarrow> rtcp_timer \<Rightarrow> pc_out \<Rightarrow> int" where
  "timer_weight r k e = (case e of
     PcTimer r' (StartTimer k' _) \<Rightarrow> of_bool (r' = r \<and> k' = k)
   | PcTimer r' (DeleteTimer k') \<Rightarrow> - of_bool (r' = r \<and> k' = k)
   | _ \<Rightarrow> 0)"

text \<open>How many timers of a kind the streams of a slot have made and not deleted.\<close>

definition timers_left :: "stream_slot \<Rightarrow> rtcp_timer \<Rightarrow> pc_out list \<Rightarrow> int" where
  "timers_left r k es = sum_list (map (timer_weight r k) es)"

fun runs_timer :: "rtcp_timer \<Rightarrow> 'g rtp_rtcp \<Rightarrow> bool" where
  "runs_timer RtcpReportTimer m = md_report_timer m"
| "runs_timer RequestPliTimer m = md_pli_timer m"

fun module_of :: "stream_slot \<Rightarrow> ('s, 'c, 'g, 'p) peer_connection \<Rightarrow> 'g rtp_rtcp option" where
  "module_of AudioReceiveSlot pc = map_option ar_rtcp (pc_audio_receive pc)"
| "module_of AudioSendSlot pc = pc_audio_send pc"
| "module_of VideoReceiveSlot pc = map_option vr_rtcp (pc_video_receive pc)"
| "module_of VideoSendSlot pc = map_option vs_rtcp (pc_video_send pc)"

definition timers_of :: "rtcp_timer \<Rightarrow> 'g rtp_rtcp option \<Rightarrow> int" where
  "timers_of k m = (case m of None \<Rightarrow> 0 | Some m \<Rightarrow> of_bool (runs_timer k m))"

definition timers_match :: "('s, 'c, 'g, 'p) peer_connection \<Rightarrow> bool" where
  "timers_match pc \<longleftrightarrow> (\<forall>r k. timers_left r k (pc_out pc) = timers_of k (module_of r pc))"

lemma timers_left_append [simp]: "timers_left r k (es @ fs) = timers_left r k es + timers_left r k fs"
  by (simp add: timers_left_def)

lemma timers_left_none: "list_all (\<lambda>e. \<not> is_timer e) es \<Longrightarrow> timers_left r k es = 0"
  by (induction es) (auto simp: timers_left_def timer_weight_def split: pc_out.splits)

lemma deleted_timers: "timers_left r k (map (PcTimer role) (delete_rtp_rtcp m)) = - (of_bool (role = r) * of_bool (runs_timer k m))"
  by (cases k) (auto simp: delete_rtp_rtcp_def timers_left_def timer_weight_def)

lemma replaced_timers:
  "timers_left r k (replace_timers role calls old) = timers_left r k (map (PcTimer role) calls) - of_bool (role = r) * timers_of k old"
  by (cases old) (simp_all add: replace_timers_def timers_of_def deleted_timers)

lemma new_timers:
  "AudioReceiveStream L us t ssrc remote = (a, calls) \<Longrightarrow> timers_left r k (map (PcTimer role) calls) = of_bool (role = r) * timers_of k (Some (ar_rtcp a))"
  "AudioSendStream L us t ssrc = (m, calls) \<Longrightarrow> timers_left r k (map (PcTimer role) calls) = of_bool (role = r) * timers_of k (Some m)"
  "VideoReceiveStream L M us t cf = (v, calls) \<Longrightarrow> timers_left r k (map (PcTimer role) calls) = of_bool (role = r) * timers_of k (Some (vr_rtcp v))"
  "VideoSendStream L us t ssrc rtx_ssrc pt = (u, calls) \<Longrightarrow> timers_left r k (map (PcTimer role) calls) = of_bool (role = r) * timers_of k (Some (vs_rtcp u))"
  by (cases k; force simp: new_stream timers_left_def timer_weight_def timers_of_def split: prod.splits if_splits)+

text \<open>A stream takes the place of the one in its slot.\<close>

lemma replace_match:
  assumes "timers_match pc" "pc_out pc' = pc_out pc @ replace_timers role calls (module_of role pc)"
    and "\<And>r k. timers_left r k (map (PcTimer role) calls) = of_bool (role = r) * timers_of k (Some m)"
    and "\<And>r. module_of r pc' = (if r = role then Some m else module_of r pc)"
  shows "timers_match pc'"
  unfolding timers_match_def
proof (intro allI)
  fix r k
  have "timers_left r k (pc_out pc) = timers_of k (module_of r pc)" using assms(1) by (simp add: timers_match_def)
  then show "timers_left r k (pc_out pc') = timers_of k (module_of r pc')"
    using assms(2-4) by (cases "role = r") (simp_all add: replaced_timers)
qed

lemma modules_kept:
  assumes "pc_streams_keep p q"
  shows "timers_of k (module_of r q) = timers_of k (module_of r p)"
proof -
  have "runs_timer k m' = runs_timer k m" if "md_keeps m m'" for m m' :: "'c rtp_rtcp" using that by (cases k) (simp_all add: md_keeps_def)
  then show ?thesis using assms
    by (cases r) (auto simp: pc_streams_keep_def timers_of_def ar_keeps_def vr_keeps_def vs_keeps_def rel_option_iff split: option.splits)
qed

lemma timers_kept: "pc_keeps p q \<Longrightarrow> timers_match p \<Longrightarrow> timers_match q"
  using modules_kept[of p q] by (auto simp: pc_keeps_def timers_match_def timers_left_none)

lemma timers_fields:
  "timers_match (pc\<lparr>pc_controller := c\<rparr>) = timers_match pc" "timers_match (pc\<lparr>pc_remote_desc := d\<rparr>) = timers_match pc"
  "timers_match (pc\<lparr>pc_local_desc := d\<rparr>) = timers_match pc" "timers_match (pc\<lparr>pc_audio_source := ss\<rparr>) = timers_match pc"
  "timers_match (pc\<lparr>pc_video_source := ss\<rparr>) = timers_match pc" "timers_match (pc\<lparr>pc_is_pli := b\<rparr>) = timers_match pc"
  "timers_match (pc\<lparr>pc_is_dtls := b\<rparr>) = timers_match pc" "timers_match (pc\<lparr>pc_certificate := cert\<rparr>) = timers_match pc"
  "timers_match (pc\<lparr>pc_transport_mode := tm\<rparr>) = timers_match pc" "timers_match (pc\<lparr>pc_destroy_timer := b\<rparr>) = timers_match pc"
proof -
  have "module_of r (pc\<lparr>pc_controller := c\<rparr>) = module_of r pc" "module_of r (pc\<lparr>pc_remote_desc := d\<rparr>) = module_of r pc"
    "module_of r (pc\<lparr>pc_local_desc := d\<rparr>) = module_of r pc" "module_of r (pc\<lparr>pc_audio_source := ss\<rparr>) = module_of r pc"
    "module_of r (pc\<lparr>pc_video_source := ss\<rparr>) = module_of r pc" "module_of r (pc\<lparr>pc_is_pli := b\<rparr>) = module_of r pc"
    "module_of r (pc\<lparr>pc_is_dtls := b\<rparr>) = module_of r pc" "module_of r (pc\<lparr>pc_certificate := cert\<rparr>) = module_of r pc"
    "module_of r (pc\<lparr>pc_transport_mode := tm\<rparr>) = module_of r pc" "module_of r (pc\<lparr>pc_destroy_timer := b\<rparr>) = module_of r pc" for r c d ss b cert tm
    by (cases r; simp)+
  then show "timers_match (pc\<lparr>pc_controller := c\<rparr>) = timers_match pc" "timers_match (pc\<lparr>pc_remote_desc := d\<rparr>) = timers_match pc"
    "timers_match (pc\<lparr>pc_local_desc := d\<rparr>) = timers_match pc" "timers_match (pc\<lparr>pc_audio_source := ss\<rparr>) = timers_match pc"
    "timers_match (pc\<lparr>pc_video_source := ss\<rparr>) = timers_match pc" "timers_match (pc\<lparr>pc_is_pli := b\<rparr>) = timers_match pc"
    "timers_match (pc\<lparr>pc_is_dtls := b\<rparr>) = timers_match pc" "timers_match (pc\<lparr>pc_certificate := cert\<rparr>) = timers_match pc"
    "timers_match (pc\<lparr>pc_transport_mode := tm\<rparr>) = timers_match pc" "timers_match (pc\<lparr>pc_destroy_timer := b\<rparr>) = timers_match pc"
    by (simp_all add: timers_match_def)
qed

lemma timers_start: "timers_match (PeerConnection u :: ('s, 'c, 'g, 'p) peer_connection)"
proof -
  let ?p = "PeerConnection u :: ('s, 'c, 'g, 'p) peer_connection"
  have "module_of r ?p = None" for r by (cases r) (simp_all add: PeerConnection_def)
  moreover have "pc_out ?p = []" by (simp add: PeerConnection_def)
  ultimately show ?thesis by (simp add: timers_match_def timers_left_def timers_of_def)
qed

lemma create_audio_receive_timers:
  assumes "timers_match pc"
  shows "timers_match (CreateAudioReceiveStream E content pc)"
proof (cases "mc_streams content = [] \<or> FirstSsrc (hd (mc_streams content)) = 0")
  case False
  then obtain st ss where st: "mc_streams content = st # ss" "FirstSsrc st \<noteq> 0" by (cases "mc_streams content") auto
  let ?n = "AudioReceiveStream (pe_rtcp E) (pe_now_us E) (pe_rtcp_report_timer_interval E) kDefaultAudioSsrc (FirstSsrc st)"
  obtain a calls where n: "?n = (a, calls)" by (cases ?n)
  have "module_of r (CreateAudioReceiveStream E content pc) = (if r = AudioReceiveSlot then Some (ar_rtcp a) else module_of r pc)" for r
    using st n by (cases r) (simp_all add: CreateAudioReceiveStream_def pc_emit_def)
  then show ?thesis
    by (rule replace_match[OF assms _ new_timers(1)[OF n], rotated]) (use st n in \<open>simp add: CreateAudioReceiveStream_def pc_emit_def\<close>)
qed (use assms in \<open>auto simp: CreateAudioReceiveStream_def split: list.splits\<close>)

lemma create_video_receive_timers:
  assumes "timers_match pc" "CreateVideoReceiveStream E content pc = Inr pc'"
  shows "timers_match pc'"
proof (cases "mc_streams content = [] \<or> FirstSsrc (hd (mc_streams content)) = 0")
  case False
  then obtain st ss where st: "mc_streams content = st # ss" "FirstSsrc st \<noteq> 0" by (cases "mc_streams content") auto
  show ?thesis
  proof (rule create_video_receive_cases[OF assms(2) st])
    fix types rtx_ssrc v calls
    assume n: "VideoReceiveStream (pe_rtcp E) (pe_media E) (pe_now_us E) (pe_rtcp_report_timer_interval E)
       \<lparr>vc_local_ssrc = kDefaultVideoSsrc, vc_remote_ssrc = FirstSsrc st, vc_rtx_ssrc = rtx_ssrc, vc_rtx_associated_payload_types = types,
        vc_enable_xr = pe_enable_xr E, vc_request_pli_interval_ms = (if pc_is_pli pc then pe_request_pli_interval_ms E else 0)\<rparr> = (v, calls)"
      and pc': "pc' = pc_emit (replace_timers VideoReceiveSlot calls (map_option vr_rtcp (pc_video_receive pc)))
        (pc\<lparr>pc_remote_video_ssrc := FirstSsrc st, pc_remote_video_rtx_ssrc := rtx_ssrc, pc_video_receive := Some v\<rparr>)"
    have "module_of r pc' = (if r = VideoReceiveSlot then Some (vr_rtcp v) else module_of r pc)" for r
      by (cases r) (simp_all add: pc' pc_emit_def)
    then show ?thesis by (rule replace_match[OF assms(1) _ new_timers(3)[OF n], rotated]) (simp add: pc' pc_emit_def)
  qed
qed (use assms in \<open>auto simp: CreateVideoReceiveStream_def split: list.splits\<close>)

lemma create_audio_send_timers:
  assumes "timers_match pc"
  shows "timers_match (create_audio_send E st pc)"
proof (cases "FirstSsrc st = 0")
  case False
  let ?n = "AudioSendStream (pe_rtcp E) (pe_now_us E) (pe_rtcp_report_timer_interval E) (FirstSsrc st)"
  obtain m calls where n: "?n = (m, calls)" by (cases ?n)
  have "module_of r (create_audio_send E st pc) = (if r = AudioSendSlot then Some m else module_of r pc)" for r
    using False n by (cases r) (simp_all add: create_audio_send_def pc_emit_def)
  then show ?thesis
    by (rule replace_match[OF assms _ new_timers(2)[OF n], rotated]) (use False n in \<open>simp add: create_audio_send_def pc_emit_def\<close>)
qed (use assms in \<open>simp add: create_audio_send_def\<close>)

lemma create_video_send_timers:
  assumes "timers_match pc"
  shows "timers_match (create_video_send E codecs st pc)"
proof (cases "FirstSsrc st = 0")
  case False
  let ?rtx = "case sp_ssrcs st of _ # s # _ \<Rightarrow> s | _ \<Rightarrow> pc_local_video_rtx_ssrc pc"
  let ?n = "VideoSendStream (pe_rtcp E) (pe_now_us E) (pe_rtcp_report_timer_interval E) (FirstSsrc st) ?rtx (rtx_type codecs)"
  obtain v calls where n: "?n = (v, calls)" by (cases ?n)
  have "module_of r (create_video_send E codecs st pc) = (if r = VideoSendSlot then Some (vs_rtcp v) else module_of r pc)" for r
    using False n by (cases r) (simp_all add: create_video_send_def pc_emit_def Let_def)
  then show ?thesis
    by (rule replace_match[OF assms _ new_timers(4)[OF n], rotated]) (use False n in \<open>simp add: create_video_send_def pc_emit_def Let_def\<close>)
qed (use assms in \<open>simp add: create_video_send_def\<close>)

interpretation pct: pc_invariant timers_match
  by unfold_locales (auto simp: timers_fields timers_start
      intro: timers_kept create_audio_receive_timers create_video_receive_timers create_audio_send_timers create_video_send_timers)


end
