(* ===== verification/PcCalls.thy ===== *)
theory PcCalls
  imports PcProps
begin

text \<open>
  What a peer connection does with the packets, reports and requests of its streams, and the offer
  it makes.
\<close>

subsection \<open>The round trip time\<close>

definition within_window :: "int \<Rightarrow> (int \<times> int) \<Rightarrow> bool" where
  "within_window now u \<longleftrightarrow> now - fst u \<le> kRttTimeoutMs"

definition rtt_updates :: "(int \<times> int) list \<Rightarrow> ('s, 'c, 'g, 'p) peer_connection \<Rightarrow> ('s, 'c, 'g, 'p) peer_connection" where
  "rtt_updates us pc = fold (\<lambda>(t, rtt). PcOnRttUpdate t rtt) us pc"

lemma reports_in_window:
  assumes "sorted (map fst us)" "us \<noteq> []" "pc_rtt_reports pc = []"
  shows "pc_rtt_reports (rtt_updates us pc) = map (\<lambda>(t, rtt). \<lparr>rt_time = t, rt_rtt_ms = rtt\<rparr>) (filter (within_window (fst (last us))) us)"
  using assms(1,2)
proof (induction us rule: rev_induct)
  case (snoc u us)
  obtain t rtt where u: "u = (t, rtt)" by (cases u)
  have step: "pc_rtt_reports (rtt_updates (us @ [u]) pc) = RemoveOldReport t (pc_rtt_reports (rtt_updates us pc) @ [\<lparr>rt_time = t, rt_rtt_ms = rtt\<rparr>])"
    by (simp add: rtt_updates_def u PcOnRttUpdate_def Let_def)
  show ?case
  proof (cases "us = []")
    case True
    then show ?thesis unfolding step using assms(3) by (simp add: rtt_updates_def u RemoveOldReport_def within_window_def kRttTimeoutMs_def)
  next
    case False
    have le: "fst (last us) \<le> t" using snoc.prems False by (simp add: u sorted_append)
    have "filter (\<lambda>i. \<not> t - rt_time i > kRttTimeoutMs) (map (\<lambda>(t, rtt). \<lparr>rt_time = t, rt_rtt_ms = rtt\<rparr>) (filter (within_window (fst (last us))) us)) =
        map (\<lambda>(t, rtt). \<lparr>rt_time = t, rt_rtt_ms = rtt\<rparr>) (filter (within_window t) us)"
    proof -
      have "within_window (fst (last us)) v" if "within_window t v" for v using that le by (simp add: within_window_def)
      then show ?thesis by (induction us) (auto simp: within_window_def)
    qed
    moreover have "pc_rtt_reports (rtt_updates us pc) = map (\<lambda>(t, rtt). \<lparr>rt_time = t, rt_rtt_ms = rtt\<rparr>) (filter (within_window (fst (last us))) us)"
      using snoc.IH snoc.prems False by (simp add: sorted_append)
    ultimately show ?thesis unfolding step by (simp add: RemoveOldReport_def u within_window_def[abs_def] kRttTimeoutMs_def)
  qed
qed simp

lemma max_rtt: "\<forall>i\<in>set reports. 0 \<le> rt_rtt_ms i \<Longrightarrow> reports \<noteq> [] \<Longrightarrow> GetMaxRttTimeMs reports = Max (rt_rtt_ms ` set reports)"
proof -
  have f: "fold (\<lambda>i m. if rt_rtt_ms i > m then rt_rtt_ms i else m) reports a = Max (insert a (rt_rtt_ms ` set reports))" for a
  proof (induction reports arbitrary: a)
    case (Cons i rs)
    have "Max (insert (max a b) S) = Max (insert a (insert b S))" if "finite S" for b :: int and S
      using that by (cases "S = {}") (simp_all add: max.assoc)
    then have "Max (insert (max a (rt_rtt_ms i)) (rt_rtt_ms ` set rs)) = Max (insert a (rt_rtt_ms ` set (i # rs)))" by simp
    moreover have "(if rt_rtt_ms i > a then rt_rtt_ms i else a) = max a (rt_rtt_ms i)" by simp
    ultimately show ?case using Cons.IH[of "max a (rt_rtt_ms i)"] by (simp only: fold_Cons comp_def)
  qed simp
  assume a: "\<forall>i\<in>set reports. 0 \<le> rt_rtt_ms i" "reports \<noteq> []"
  then have "-1 \<le> Max (rt_rtt_ms ` set reports)" by (cases reports) (auto simp: Max_ge_iff)
  then show ?thesis using a by (simp add: GetMaxRttTimeMs_def f)
qed

text \<open>
  C14: The requester of retransmissions of a live connection waits for the largest round trip time
  reported in the last 1500 milliseconds, whatever was reported before.
\<close>

theorem rtt_is_window_maximum:
  assumes "sorted (map fst us)" "us \<noteq> []" "\<forall>u\<in>set us. 0 \<le> snd u" "pc_rtt_reports pc = []"
  shows "map_option (nk_rtt_ms \<circ> vr_nack) (pc_video_receive (rtt_updates us pc)) =
    map_option (\<lambda>_. Max (snd ` {u \<in> set us. fst (last us) - fst u \<le> kRttTimeoutMs})) (pc_video_receive pc)"
proof -
  obtain vs t rtt where us: "us = vs @ [(t, rtt)]" using assms(2) by (cases us rule: rev_cases) auto
  let ?q = "rtt_updates vs pc"
  have same: "map_option (\<lambda>_. c) (pc_video_receive (rtt_updates ws pc)) = map_option (\<lambda>_. c) (pc_video_receive pc)" for ws and c :: int
    by (induction ws rule: rev_induct) (auto simp: rtt_updates_def PcOnRttUpdate_def Let_def option.map_comp comp_def)
  let ?r = "pc_rtt_reports (rtt_updates us pc)"
  have r: "?r = map (\<lambda>(t, rtt). \<lparr>rt_time = t, rt_rtt_ms = rtt\<rparr>) (filter (within_window (fst (last us))) us)"
    using reports_in_window assms(1,2,4) by blast
  have "rt_rtt_ms ` set ?r = snd ` {u \<in> set us. fst (last us) - fst u \<le> kRttTimeoutMs}"
    unfolding r by (force simp: within_window_def)
  moreover have "\<forall>i\<in>set ?r. 0 \<le> rt_rtt_ms i" "?r \<noteq> []"
    using assms(3) unfolding r by (auto simp: us within_window_def kRttTimeoutMs_def)
  ultimately have m: "GetMaxRttTimeMs ?r = Max (snd ` {u \<in> set us. fst (last us) - fst u \<le> kRttTimeoutMs})" using max_rtt by metis
  have "pc_video_receive (rtt_updates us pc) = map_option (VrOnRttUpdate (GetMaxRttTimeMs ?r)) (pc_video_receive ?q)"
    by (simp add: us rtt_updates_def PcOnRttUpdate_def Let_def)
  then show ?thesis using same[where ws = vs] by (simp add: m option.map_comp comp_def VrOnRttUpdate_def UpdateRtt_def)
qed

subsection \<open>Dispatch\<close>

text \<open>The signals that come of what a stream says.\<close>

fun signals_of :: "media_out \<Rightarrow> pc_out list" where
  "signals_of (OutRtp m p) = [PcRtp m p]"
| "signals_of (OutFrame a b key) = [PcFrame a b key]"
| "signals_of (OutLocalRtcp m data) = []"
| "signals_of (OutRtcpEvent (OnSr m ts ntp)) = [PcSr m ts ntp]"
| "signals_of (OutRtcpEvent (OnNackList m ids)) = [PcNack m ids]"
| "signals_of (OutRtcpEvent (OnRtt rtt)) = []"

lemma media_out_signals: "OnMediaOut E e pc = Inr pc' \<Longrightarrow> pc_out pc' = pc_out pc @ signals_of e"
  by (induction E e pc rule: OnMediaOut.induct)
    (auto simp: pc_emit_def and_then_Inr PcSendRtcp_def PcOnRttUpdate_def Let_def)

lemma media_outs_signals: "each (OnMediaOut E) es pc = Inr pc' \<Longrightarrow> pc_out pc' = pc_out pc @ concat (map signals_of es)"
proof (induction es arbitrary: pc)
  case (Cons e es)
  then obtain q where "OnMediaOut E e pc = Inr q" "each (OnMediaOut E) es q = Inr pc'" by (auto simp: and_then_Inr)
  then show ?case using Cons.IH media_out_signals by fastforce
qed simp

text \<open>What a video stream says beside the packet itself.\<close>

fun is_aside :: "media_out \<Rightarrow> bool" where
  "is_aside (OutFrame _ _ _) = True"
| "is_aside (OutLocalRtcp _ _) = True"
| "is_aside _ = False"

fun is_frame_signal :: "pc_out \<Rightarrow> bool" where
  "is_frame_signal (PcFrame _ _ _) = True"
| "is_frame_signal _ = False"

lemma aside_signals: "list_all is_aside es \<Longrightarrow> list_all is_frame_signal (concat (map signals_of es))"
proof (induction es)
  case (Cons e es)
  then show ?case by (cases e) auto
qed simp

lemma inserted_aside: "OnInsertedPacket first ps = Inr es \<Longrightarrow> list_all is_aside es"
  by (induction first ps arbitrary: es rule: OnInsertedPacket.induct) (auto simp: Let_def and_then_Inr split: if_splits option.splits)

lemma nacks_aside:
  assumes "each (OnNackSend L now) batches (out, v) = Inr (out', v')" "list_all is_aside out"
  shows "list_all is_aside out'"
  using assms
proof (induction batches arbitrary: out v)
  case (Cons b bs)
  obtain es md stat where m: "module_send VIDEO (SendNack L now b (vr_rtcp v) (vr_stat v)) = Inr (es, md, stat)"
    "each (OnNackSend L now) bs (out @ es, v\<lparr>vr_rtcp := md, vr_stat := stat\<rparr>) = Inr (out', v')"
  proof -
    obtain x where x: "OnNackSend L now b (out, v) = Inr x" "each (OnNackSend L now) bs x = Inr (out', v')"
      using Cons.prems(1) by (auto simp: and_then_Inr)
    then obtain es md stat where "module_send VIDEO (SendNack L now b (vr_rtcp v) (vr_stat v)) = Inr (es, md, stat)"
      "x = (out @ es, v\<lparr>vr_rtcp := md, vr_stat := stat\<rparr>)"
      by (auto simp: OnNackSend_def and_then_Inr)
    then show thesis using that x(2) by blast
  qed
  have "list_all is_aside es"
    using m(1) by (auto simp: module_send_def rtcp_sent_def list_all_iff split: sum.splits rtcp_fault.splits)
  then show ?case using Cons.IH[OF m(2)] Cons.prems(2) by simp
qed simp

lemma receive_aside:
  assumes "ReceivePacket L M now p v = Inr (es, v')"
  shows "list_all is_aside es"
proof (cases "mp_payload p = [] \<or> depacketize M (mp_payload p) = None")
  case False
  then obtain h where "OnReceivedPayloadData L M now p h v = Inr (es, v')" using assms by (auto simp: ReceivePacket_def)
  then show ?thesis by (rule payload_cases) (auto dest: nacks_aside inserted_aside)
qed (use assms in \<open>auto simp: ReceivePacket_def split: if_splits\<close>)

lemma rv_packet_said:
  assumes "RvOnRtpPacket L M now p v = Inr (es, v')"
  obtains asides where "es = OutRtp VIDEO p # asides" "list_all is_aside asides"
  using assms receive_aside by (fastforce simp: RvOnRtpPacket_def and_then_Inr split: if_splits)

text \<open>
  C10: A live connection hands every media packet it can parse on exactly once and unchanged but for its
  arrival time and clock rate: as video or audio by its source, and not at all when it is of neither. The
  only other signals are the frames it completes.
\<close>

theorem packets_dispatched_by_source:
  assumes "pc_reachable cert pc" "IsLive pc" "pe_parse E packet = Some p" "mp_ssrc p \<notin> {0, pc_remote_video_rtx_ssrc pc}"
    and "PcOnRtpPacketReceived E packet ts pc = Inr pc'"
  shows "\<exists>frames. list_all is_frame_signal frames \<and> pc_out pc' = pc_out pc @
    (if mp_ssrc p = pc_remote_video_ssrc pc
     then [PcRtp VIDEO (p\<lparr>mp_arrival_time := arrival_time E ts, mp_payload_type_frequency := pe_video_frequency E\<rparr>)]
     else if mp_ssrc p = pc_remote_audio_ssrc pc
     then [PcRtp AUDIO (p\<lparr>mp_arrival_time := arrival_time E ts, mp_payload_type_frequency := 48000\<rparr>)] else []) @ frames"
proof -
  have m: "streams_match pc" by (rule pcm.reachable[OF assms(1)])
  let ?q = "p\<lparr>mp_arrival_time := arrival_time E ts, mp_payload_type_frequency := pe_video_frequency E\<rparr>"
  show ?thesis
  proof (cases "mp_ssrc p = pc_remote_video_ssrc pc")
    case True
    then obtain v where v: "pc_video_receive pc = Some v" "receives_video pc v"
      using m assms(4) by (auto simp: streams_match_def has_stream_def split: option.splits)
    then obtain es v' where r: "VrOnRtpPacket (pe_rtcp E) (pe_media E) (pe_now E) ?q v = Inr (es, v')"
      "each (OnMediaOut E) es (pc\<lparr>pc_video_receive := Some v'\<rparr>) = Inr pc'"
      using assms True by (auto simp: PcOnRtpPacketReceived_def Let_def GetMediaType_def on_video_receive_def and_then_Inr)
    have "RvOnRtpPacket (pe_rtcp E) (pe_media E) (pe_now E) ?q v = Inr (es, v')"
      using r(1) v(2) assms(4) by (simp add: VrOnRtpPacket_def receives_video_def)
    then obtain asides where a: "es = OutRtp VIDEO ?q # asides" "list_all is_aside asides" by (rule rv_packet_said)
    show ?thesis using media_outs_signals[OF r(2)] aside_signals[OF a(2)] True by (auto simp: a(1))
  next
    case video: False
    show ?thesis
    proof (cases "mp_ssrc p = pc_remote_audio_ssrc pc")
      case True
      then obtain a where a: "pc_audio_receive pc = Some a" "pc_audio_clockrate pc = 48000"
        using m assms(4) by (auto simp: streams_match_def has_stream_def receives_audio_def split: option.splits)
      then show ?thesis using assms True video
        by (intro exI[of _ "[]"]) (auto simp: PcOnRtpPacketReceived_def Let_def GetMediaType_def on_audio_receive_def and_then_Inr ArOnRtpPacket_def pc_emit_def)
    qed (use assms video in \<open>auto simp: PcOnRtpPacketReceived_def Let_def GetMediaType_def intro!: exI[of _ "[]"]\<close>)
  qed
qed

subsection \<open>Requests for retransmission\<close>


subsection \<open>The offer\<close>

lemma added_streams: "mc_streams (fold add_stream ss c) = mc_streams c @ ss" "mc_kind (fold add_stream ss c) = mc_kind c"
  "mc_direction (fold add_stream ss c) = mc_direction c" "mc_rtcp_mux (fold add_stream ss c) = mc_rtcp_mux c"
  by (induction ss arbitrary: c) (simp_all add: add_stream_def)

text \<open>A section as the options ask for it.\<close>

definition asked :: "media_kind \<Rightarrow> bool \<Rightarrow> bool \<Rightarrow> bool \<Rightarrow> stream_params list \<Rightarrow> (media_kind \<times> rtp_direction \<times> bool \<times> stream_params list) list" where
  "asked k send recv mux source = (if recv \<or> send then [(k, GetDirection send recv, mux, if send then source else [])] else [])"

definition asked_sections :: "pc_options \<Rightarrow> ('s, 'c, 'g, 'p) peer_connection \<Rightarrow> (media_kind \<times> rtp_direction \<times> bool \<times> stream_params list) list" where
  "asked_sections options pc =
     asked MEDIA_TYPE_AUDIO (send_audio options) (recv_audio options) (use_rtcp_mux options) (pc_audio_source pc) @
     asked MEDIA_TYPE_VIDEO (send_video options) (recv_video options) (use_rtcp_mux options) (pc_video_source pc)"

definition shown :: "media_content \<Rightarrow> media_kind \<times> rtp_direction \<times> bool \<times> stream_params list" where
  "shown c = (mc_kind c, mc_direction c, mc_rtcp_mux c, mc_streams c)"

lemma offered_section:
  "shown (offer_audio E options pc) = (MEDIA_TYPE_AUDIO, GetDirection (send_audio options) (recv_audio options), use_rtcp_mux options, if send_audio options then pc_audio_source pc else [])"
  "shown (offer_video E options pc) = (MEDIA_TYPE_VIDEO, GetDirection (send_video options) (recv_video options), use_rtcp_mux options, if send_video options then pc_video_source pc else [])"
  by (simp_all add: shown_def offer_audio_def offer_video_def offer_content_def added_streams AudioContentDescription_def VideoContentDescription_def)

lemma added_offer:
  "map shown (sd_contents (add_offer E cert wanted c d)) = map shown (sd_contents d) @ (if wanted then [shown c] else [])"
  "sd_groups (add_offer E cert wanted c d) = sd_groups d"
  "cert = None \<or> (\<exists>fp. cert_fingerprint (pe_sdp E) (the cert) = Some fp) \<Longrightarrow>
    map td_mid (sd_transports (add_offer E cert wanted c d)) = map td_mid (sd_transports d) @ (if wanted then [mid c] else [])"
  by (auto simp: add_offer_def AddTransportInfo_def AddContent_def Let_def split: option.splits)

lemma bundled: "map shown (sd_contents (offer_bundle mux d)) = map shown (sd_contents d)" "sd_transports (offer_bundle mux d) = sd_transports d"
  by (simp_all add: offer_bundle_def AddGroup_def Let_def)

lemma same_shown: "same_desc d d' \<Longrightarrow> map shown (sd_contents d') = map shown (sd_contents d)"
proof -
  have s: "shown (add_candidates [] c) = shown c" for c by (simp add: add_candidates_def shown_def)
  assume "same_desc d d'"
  then have "map shown (map (add_candidates []) (sd_contents d')) = map shown (map (add_candidates []) (sd_contents d))" by (simp add: same_desc_def)
  then show ?thesis by (simp add: s comp_def)
qed

text \<open>
  C12: The text of an offer is the printed local description the connection keeps, with the candidates
  gathered while the offer was made: a section for audio and one for video when they are sent or received, in
  this order, each with the direction and the sources asked for, and one transport for each section.
\<close>

theorem offer_describes:
  assumes "PcCreateOffer E options pc = Inr (text, pc')" "pc_is_dtls pc \<longrightarrow> pc_certificate pc \<noteq> None"
    and "pc_certificate pc = None \<or> (\<exists>fp. cert_fingerprint (pe_sdp E) (the (pc_certificate pc)) = Some fp)"
  shows "\<exists>d. pc_local_desc pc' = Some d \<and> text = SdpToString (pe_sdp E) d \<and> map shown (sd_contents d) = asked_sections options pc \<and>
    map td_mid (sd_transports d) = map (mid_of \<circ> fst) (asked_sections options pc)"
proof -
  let ?d = "offer_desc E options pc" and ?q = "(offer_streams E options pc)\<lparr>pc_local_desc := Some (offer_desc E options pc)\<rparr>"
  obtain pc1 where o: "on_controller E (SetLocalDescription (pe_transport E) (pe_networks E) ?d) ?q = Inr pc1" "pc' = pc1"
    "text = (case pc_local_desc pc1 of None \<Rightarrow> [] | Some e \<Rightarrow> SdpToString (pe_sdp E) e)"
    using assms(1,2) by (auto simp: PcCreateOffer_def Let_def and_then_Inr split: if_splits)
  obtain c where "pc_keeps (?q\<lparr>pc_controller := c\<rparr>) pc1" using on_controller_keeps[OF o(1)] by blast
  then obtain d where d: "pc_local_desc pc' = Some d" "same_desc ?d d" by (auto simp: pc_keeps_def o(2) option_rel_Some1)
  have "map shown (sd_contents ?d) = asked_sections options pc"
    by (simp add: offer_desc_def Let_def bundled added_offer(1) offered_section asked_sections_def asked_def SessionDescription_def)
  moreover have "map td_mid (sd_transports ?d) = map (mid_of \<circ> fst) (asked_sections options pc)"
  proof -
    have "mid c = mid_of (fst (shown c))" for c by (simp add: shown_def)
    then show ?thesis
      by (simp add: offer_desc_def Let_def bundled added_offer(3)[OF assms(3)] offered_section asked_sections_def asked_def SessionDescription_def)
  qed
  ultimately show ?thesis using d same_shown[OF d(2)] o by (auto simp: same_desc_def)
qed

end
