(* ===== verification/PcDemo.thy ===== *)
theory PcDemo
  imports PcCalls
begin

definition demo_pe :: "(bytes, unit, unit, unit) pc_env" where
  "demo_pe = \<lparr>pe_transport = demo_te, pe_networks = (\<lambda>_. []), pe_rtcp = demo_rtcp, pe_media = demo_media, pe_sdp = demo_sdp\<lparr>cert_fingerprint := (\<lambda>_. Some \<lparr>fp_algorithm = ''sha-256'', fp_digest = [171, 205]\<rparr>)\<rparr>, pe_text = demo_text,
     pe_now = demo_now, pe_now_us = 0, pe_ice_params = \<lparr>ice_ufrag = bytes_of ''abcd'', ice_pwd = bytes_of ''secret''\<rparr>, pe_junk = kSendRecv,
     pe_parse = (\<lambda>d. case d of [] \<Rightarrow> None | b # r \<Rightarrow> Some (empty_packet\<lparr>mp_ssrc := ucast b, mp_payload := r\<rparr>)), pe_data = mp_payload,
     pe_video_frequency = 90000, pe_rtcp_report_timer_interval = 0, pe_enable_xr = True, pe_request_pli_interval_ms = 3000\<rparr>"

definition demo_publish :: string where
  "demo_publish = concat (map (\<lambda>l. l @ crlf) [''m=video 9 X'', ''a=ssrc:7 cname:h'', ''a=ssrc:8 cname:h''])"



lemma demo_text_reads: "st_tokenize demo_text s d = filter (\<lambda>f. f \<noteq> []) (fields_of d s)" "st_split demo_text s d = fields_of d s"
  "st_tokenize_first demo_text s d = (if d \<in> set s then Some (takeWhile (\<lambda>c. c \<noteq> d) s, dropWhile (\<lambda>c. c = d) (dropWhile (\<lambda>c. c \<noteq> d) s)) else None)"
  "st_u32 demo_text s = Some (of_nat (read_nat s))"
  by (simp_all add: demo_text_def)

definition demo_parsed :: sdp_parse where
  "demo_parsed = new_parse\<lparr>pr_media_type := ''video'', pr_contents := [MEDIA_TYPE_VIDEO], pr_video_td := TransportDescription\<lparr>td_mid := ''video''\<rparr>,
     pr_video_ssrc := [\<lparr>si_ssrc_id = 7, si_cname = ''h'', si_stream_id = [], si_track_id = []\<rparr>, \<lparr>si_ssrc_id = 8, si_cname = ''h'', si_stream_id = [], si_track_id = []\<rparr>]\<rparr>"


definition demo_section :: sdp_parse where
  "demo_section = new_parse\<lparr>pr_media_type := ''video'', pr_contents := [MEDIA_TYPE_VIDEO], pr_video_td := TransportDescription\<lparr>td_mid := ''video''\<rparr>\<rparr>"

lemma demo_line1: "parse_field demo_text False ''m=video 9 X'' new_parse = Inr demo_section"
  by (simp add: parse_field_def parse_section_def parse_attribute_def new_parse_def ParseTransportInfo_def ParseSsrcInfo_def ParseSsrcGroupInfo_def
      demo_text_reads substr_def demo_section_def)

lemma demo_line2: "parse_field demo_text False (''a=ssrc:'' @ [c] @ '' cname:h'') p = Inr (p\<lparr>pr_video_ssrc := with_ssrc (of_nat (of_char c - 48)) (\<lambda>i. i\<lparr>si_cname := ''h''\<rparr>) (pr_video_ssrc p)\<rparr>)"
   if "pr_media_type p = ''video''" "c \<in> set ''78''"
  using that by (auto simp add: parse_field_def parse_section_def parse_attribute_def ParseTransportInfo_def ParseSsrcInfo_def ParseSsrcGroupInfo_def
      demo_text_reads substr_def read_nat_def)

lemma demo_parse: "parse_sdp demo_text demo_publish = Some (Inr demo_parsed)"
  using demo_line1 demo_line2[where c = "CHR ''7''"] demo_line2[where c = "CHR ''8''"]
    parse_lines[OF demo_text_ok, of "[''m=video 9 X'', ''a=ssrc:7 cname:h'', ''a=ssrc:8 cname:h'']"]
  by (simp add: demo_publish_def demo_section_def demo_parsed_def new_parse_def)

definition demo_start :: "(bytes, unit, unit, unit) peer_connection" where
  "demo_start = PcInit (Some 7) (PeerConnection (0, False))"

lemma demo_streams:
  "mc_streams (content_of kSendRecv demo_parsed MEDIA_TYPE_VIDEO) = [StreamParams\<lparr>sp_cname := ''h'', sp_ssrcs := [7, 8]\<rparr>]"
  "mc_streams (content_of kSendRecv demo_parsed MEDIA_TYPE_AUDIO) = []"
  by (simp_all add: content_of_def demo_parsed_def new_parse_def CreateTrackFromSsrcInfo_def add_stream_def VideoContentDescription_def
      AudioContentDescription_def StreamParams_def)

lemma no_transports:
  assumes "ag_channels (tc_agent c) = []" "tc_transports c = []" "sd_groups d = []"
  shows "SetRemoteDescription E now d c = Inr c"
proof -
  have "remote_section E now d m c = Inr c" "skipped (mid m) d = Inr False" for m
    using assms by (simp_all add: remote_section_def GetChannel_def find_pair_def skipped_def IsBundle_def GetGroupByName_def split: option.splits)
  then have "each (\<lambda>m c. and_then (skipped (mid m) d) (\<lambda>sk. if sk then Inr c else remote_section E now d m c)) ms c = Inr c" for ms
    by (induction ms) simp_all
  then show ?thesis by (simp add: SetRemoteDescription_def)
qed

definition demo_receiver :: "(unit, unit, unit) video_receive \<times> timer_call list" where
  "demo_receiver = VideoReceiveStream demo_rtcp demo_media 0 0 \<lparr>vc_local_ssrc = 1, vc_remote_ssrc = 7, vc_rtx_ssrc = 8,
      vc_rtx_associated_payload_types = [99 \<mapsto> 107], vc_enable_xr = True, vc_request_pli_interval_ms = 0\<rparr>"

definition demo_live :: "(bytes, unit, unit, unit) peer_connection" where
  "demo_live = demo_start\<lparr>pc_remote_desc := Some (parsed_desc kSendRecv demo_parsed), pc_remote_video_ssrc := 7, pc_remote_video_rtx_ssrc := 8,
     pc_video_receive := Some (fst demo_receiver), pc_out := map (PcTimer VideoReceiveSlot) (snd demo_receiver)\<rparr>"

lemma demo_answered: "pc_step (PeAnswer demo_pe demo_publish) demo_start = Inr demo_live"
proof -
  let ?q = "demo_start\<lparr>pc_remote_desc := Some (parsed_desc kSendRecv demo_parsed)\<rparr>"
  have "CreateVideoReceiveStream demo_pe (content_of kSendRecv demo_parsed MEDIA_TYPE_VIDEO) ?q = Inr demo_live"
    using known_codecs(1)
    by (simp add: CreateVideoReceiveStream_def demo_streams content_codecs StreamParams_def FirstSsrc_def demo_pe_def demo_start_def PcInit_def PeerConnection_def
      prod.case_eq_if replace_timers_def pc_emit_def demo_live_def kDefaultVideoSsrc_def flip: demo_receiver_def)
  then have a: "answer_streams demo_pe demo_parsed ?q = Inr demo_live"
    by (simp add: answer_streams_def IsLive_def demo_start_def PcInit_def PeerConnection_def CreateAudioReceiveStream_def demo_streams)
       (simp add: demo_pe_def CreateAudioReceiveStream_def demo_streams)
  have "SetRemoteDescription E now (parsed_desc kSendRecv demo_parsed) (pc_controller demo_live) = Inr (pc_controller demo_live)" for E now
    by (rule no_transports) (simp_all add: demo_live_def demo_start_def PcInit_def PeerConnection_def TransportController_def IceAgent_def TcSetLocalCertificate_def
      parsed_desc_def demo_parsed_def new_parse_def)
  then have "on_controller demo_pe (SetRemoteDescription (pe_transport demo_pe) (now_ms (pe_now demo_pe)) (parsed_desc kSendRecv demo_parsed)) demo_live = Inr demo_live"
    by (simp add: on_controller_def)
  then show ?thesis using a by (simp add: PcSetRemoteSdp_def demo_parse) (simp add: demo_pe_def demo_parse)
qed

lemma demo_live_reachable: "pc_reachable (Some 7) demo_live"
  by (rule pc_next[OF pc_init demo_answered[unfolded demo_start_def]])

theorem reachable_streams_match_witness: "has_stream (pc_video_receive demo_live) 7 (receives_video demo_live)"
  using reachable_streams_match[OF demo_live_reachable] by (simp add: streams_match_def demo_live_def)

theorem rtt_is_window_maximum_witness:
  "map_option (nk_rtt_ms \<circ> vr_nack) (pc_video_receive (rtt_updates [(0, 900), (1000, 40), (1501, 60)] demo_live)) = Some 60"
proof -
  have "{u \<in> {(0, 900), (1000, 40), (1501, 60)}. 1501 - fst u \<le> kRttTimeoutMs} = {(1000, 40), (1501, 60 :: int)}" by (auto simp: kRttTimeoutMs_def)
  then show ?thesis using rtt_is_window_maximum[of "[(0, 900), (1000, 40), (1501, 60)]" demo_live]
    by (simp add: demo_live_def demo_start_def PcInit_def PeerConnection_def)
qed


definition demo_arrived :: media_packet where
  "demo_arrived = empty_packet\<lparr>mp_ssrc := 7, mp_payload := [1]\<rparr>"

lemma demo_packet_handled: "\<exists>pc'. PcOnRtpPacketReceived demo_pe [7, 1] 900 demo_live = Inr pc'"
proof -
  let ?p = "demo_arrived\<lparr>mp_arrival_time := 900, mp_payload_type_frequency := 90000\<rparr>"
  have "\<exists>v'. RvOnRtpPacket demo_rtcp demo_media demo_now ?p (fst demo_receiver) = Inr ([OutRtp VIDEO ?p], v')"
    by (simp add: RvOnRtpPacket_def ReceivePacket_def OnReceivedPayloadData_def demo_receiver_def demo_media_eval prod.case_eq_if demo_arrived_def
        empty_packet_def demo_media_def NackRequester_def OnReceivedPacket_def)
  then have "\<exists>v'. VrOnRtpPacket demo_rtcp demo_media demo_now ?p (fst demo_receiver) = Inr ([OutRtp VIDEO ?p], v')"
    by (simp add: VrOnRtpPacket_def demo_arrived_def demo_receiver_def demo_media_eval prod.case_eq_if)
  then show ?thesis
    by (auto simp: PcOnRtpPacketReceived_def demo_pe_def IsLive_def demo_live_def demo_start_def PcInit_def PeerConnection_def arrival_time_def GetMediaType_def
        on_video_receive_def pc_emit_def demo_arrived_def)
qed

theorem packets_dispatched_by_source_witness:
  "\<exists>pc' frames. PcOnRtpPacketReceived demo_pe [7, 1] 900 demo_live = Inr pc' \<and> list_all is_frame_signal frames \<and>
    pc_out pc' = pc_out demo_live @ PcRtp VIDEO (demo_arrived\<lparr>mp_arrival_time := 900, mp_payload_type_frequency := 90000\<rparr>) # frames"
proof -
  obtain pc' where h: "PcOnRtpPacketReceived demo_pe [7, 1] 900 demo_live = Inr pc'" using demo_packet_handled by blast
  have l: "IsLive demo_live" "pc_remote_video_ssrc demo_live = 7" "pc_remote_video_rtx_ssrc demo_live = 8"
    by (simp_all add: IsLive_def demo_live_def demo_start_def PcInit_def PeerConnection_def)
  have p: "pe_parse demo_pe [7, 1] = Some demo_arrived" by (simp add: demo_pe_def demo_arrived_def)
  have "mp_ssrc demo_arrived = 7" "arrival_time demo_pe 900 = 900" "pe_video_frequency demo_pe = 90000"
    by (simp_all add: demo_arrived_def arrival_time_def demo_pe_def)
  then show ?thesis using packets_dispatched_by_source[OF demo_live_reachable l(1) p _ h] h l by auto
qed

subsection \<open>Witnesses\<close>

definition demo_asking :: "(bytes, unit, unit, unit) peer_connection" where
  "demo_asking = demo_live\<lparr>pc_video_receive := Some ((fst demo_receiver)\<lparr>vr_nack := vr_nack demo_late\<rparr>)\<rparr>"


definition demo_options :: pc_options where
  "demo_options = \<lparr>send_audio = False, send_video = False, recv_audio = True, recv_video = False, use_rtp_mux = False, use_rtcp_mux = True\<rparr>"

lemma demo_offered: "\<exists>text pc'. PcCreateOffer demo_pe demo_options demo_start = Inr (text, pc')"
proof -
  let ?d = "offer_desc demo_pe demo_options demo_start"
  have d: "sd_contents ?d = [offer_audio demo_pe demo_options demo_start]" "sd_groups ?d = []"
    "sd_transports ?d = [\<lparr>td_mid = ''audio'', td_ice_ufrag = chars_of (bytes_of ''abcd''), td_ice_pwd = chars_of (bytes_of ''secret''),
       td_fingerprint = Some \<lparr>fp_algorithm = ''sha-256'', fp_digest = [171, 205]\<rparr>, td_role = ACTPASS\<rparr>]"
    "mc_kind (offer_audio demo_pe demo_options demo_start) = MEDIA_TYPE_AUDIO"
    by (simp_all add: offer_desc_def demo_options_def add_offer_def offer_bundle_def AddTransportInfo_def AddContent_def demo_start_def PcInit_def PeerConnection_def
        SessionDescription_def Let_def offer_audio_def offer_content_def AudioContentDescription_def, simp add: demo_pe_def)
  have g: "GetTransportInfo ''audio'' ?d = Some \<lparr>td_mid = ''audio'', td_ice_ufrag = chars_of (bytes_of ''abcd''), td_ice_pwd = chars_of (bytes_of ''secret''),
       td_fingerprint = Some \<lparr>fp_algorithm = ''sha-256'', fp_digest = [171, 205]\<rparr>, td_role = ACTPASS\<rparr>"
    "skipped ''audio'' ?d = Inr False"
    by (simp_all add: GetTransportInfo_def d skipped_def IsBundle_def GetGroupByName_def)
  have c: "pc_controller demo_start = demo_new_controller" "pc_controller (offer_streams demo_pe demo_options demo_start) = demo_new_controller"
    by (simp_all add: demo_start_def PcInit_def PeerConnection_def demo_new_controller_def TcSetLocalCertificate_def TransportController_def offer_streams_def demo_options_def)
  have "\<exists>c. SetLocalDescription demo_te (\<lambda>_. []) ?d demo_new_controller = Inr c \<and> tc_out c = []"
    using d(1,4) g by (simp add: demo_eval demo_dtls_eval SetLocalDescription_def add_section_def CreateChannel_def GatheringCandidate_def
      AddPair_def set_dtls_transports_def MaybeSetupDtlsSrtp_def IsDtlsWritable_def IsSrtpActive_def)
  then obtain c' where l: "SetLocalDescription demo_te (\<lambda>_. []) ?d demo_new_controller = Inr c'" "tc_out c' = []" by blast
  have "pe_transport demo_pe = demo_te" "pe_networks demo_pe = (\<lambda>_. [])" by (simp_all add: demo_pe_def)
  moreover have "pc_certificate demo_start = Some 7" by (simp add: demo_start_def PcInit_def)
  ultimately show ?thesis by (simp add: PcCreateOffer_def Let_def on_controller_def c l)
qed

theorem offer_describes_witness:
  "\<exists>text pc' d. PcCreateOffer demo_pe demo_options demo_start = Inr (text, pc') \<and> pc_local_desc pc' = Some d \<and>
    text = SdpToString (pe_sdp demo_pe) d \<and> map shown (sd_contents d) = [(MEDIA_TYPE_AUDIO, kRecvOnly, True, [])] \<and> map td_mid (sd_transports d) = [''audio'']"
proof -
  obtain t pc' where o: "PcCreateOffer demo_pe demo_options demo_start = Inr (t, pc')" using demo_offered by blast
  have "pc_certificate demo_start = Some 7" "asked_sections demo_options demo_start = [(MEDIA_TYPE_AUDIO, kRecvOnly, True, [])]"
    by (simp_all add: demo_start_def PcInit_def asked_sections_def asked_def demo_options_def)
  moreover have "cert_fingerprint (pe_sdp demo_pe) 7 \<noteq> None" by (simp add: demo_pe_def)
  ultimately show ?thesis using offer_describes[OF o] o by auto
qed

end
