(* ===== verification/Socket.thy ===== *)
theory Socket
  imports Prelude Stun "HOL-Library.State_Monad"
begin

text \<open>
  \<open>base/socket.cpp\<close>: the wrappers of the socket calls. The operating system is the parameter \<open>os\<close>: a
  call changes its state and returns \<open>-1\<close> (or a count) as documented, and \<open>errno\<close> is read from the state
  after it. The constants are those of Linux. The log lines are left out.
\<close>

subsection \<open>The operating system\<close>

record 'o os =
  os_socket :: "int \<Rightarrow> int \<Rightarrow> ('o, int) state"
  os_setsockopt :: "int \<Rightarrow> int \<Rightarrow> int \<Rightarrow> int \<Rightarrow> ('o, int) state"
  os_bind :: "int \<Rightarrow> sock_addr \<Rightarrow> ('o, int) state"
  os_listen :: "int \<Rightarrow> int \<Rightarrow> ('o, int) state"
  os_accept :: "int \<Rightarrow> ('o, int \<times> sock_addr) state"
  os_close :: "int \<Rightarrow> ('o, int) state"
  os_getfl :: "int \<Rightarrow> ('o, int) state"
  os_setfl :: "int \<Rightarrow> u32 \<Rightarrow> ('o, int) state"
  os_getpeername :: "int \<Rightarrow> ('o, int \<times> sock_addr) state"
  os_getsockname :: "int \<Rightarrow> ('o, int \<times> sock_addr) state"
  os_read :: "int \<Rightarrow> nat \<Rightarrow> ('o, int \<times> bytes) state"
  os_write :: "int \<Rightarrow> bytes \<Rightarrow> ('o, int) state"
  os_recvfrom :: "int \<Rightarrow> nat \<Rightarrow> ('o, int \<times> bytes \<times> sock_addr) state"
  os_sendto :: "int \<Rightarrow> bytes \<Rightarrow> int \<Rightarrow> sock_addr \<Rightarrow> ('o, int) state"
  os_stamp :: "int \<Rightarrow> ('o, (int \<times> int) option) state"
  os_pipe :: "('o, (int \<times> int) option) state"
  os_errno :: "'o \<Rightarrow> int"
  inet_aton :: "string \<Rightarrow> ip_addr option"

definition EINTR :: int where "EINTR = 4"
definition EAGAIN :: int where "EAGAIN = 11"
definition AF_INET :: int where "AF_INET = 2"
definition SOCK_STREAM :: int where "SOCK_STREAM = 1"
definition SOCK_DGRAM :: int where "SOCK_DGRAM = 2"
definition SOL_SOCKET :: int where "SOL_SOCKET = 1"
definition SO_REUSEADDR :: int where "SO_REUSEADDR = 2"
definition IPPROTO_TCP :: int where "IPPROTO_TCP = 6"
definition TCP_NODELAY :: int where "TCP_NODELAY = 1"
definition O_NONBLOCK :: u32 where "O_NONBLOCK = 0x800"
definition MSG_NOSIGNAL :: int where "MSG_NOSIGNAL = 0x4000"

text \<open>The value of \<open>errno\<close>, and \<open>htons\<close> of a port, which keeps the low 16 bits.\<close>

definition errno :: "('o, 'b) os_scheme \<Rightarrow> ('o, int) state" where
  "errno K = State (\<lambda>s. (os_errno K s, s))"

definition htons :: "int \<Rightarrow> u16" where
  "htons port = word_of_int port"

subsection \<open>Servers\<close>

definition close_fail :: "('o, 'b) os_scheme \<Rightarrow> int \<Rightarrow> ('o, int) state" where
  "close_fail K sock = do { _ \<leftarrow> os_close K sock; State_Monad.return (-1) }"

definition CreateTcpServer :: "('o, 'b) os_scheme \<Rightarrow> string option \<Rightarrow> int \<Rightarrow> ('o, int) state" where
  "CreateTcpServer K addr port = do {
     sock \<leftarrow> os_socket K AF_INET SOCK_STREAM;
     if sock = -1 then State_Monad.return (-1)
     else do {
       ret \<leftarrow> os_setsockopt K sock SOL_SOCKET SO_REUSEADDR 1;
       if ret = -1 then close_fail K sock
       else case (case addr of None \<Rightarrow> Some (IPv4 0) | Some a \<Rightarrow> inet_aton K a) of
           None \<Rightarrow> close_fail K sock
         | Some ip \<Rightarrow> do {
             ret \<leftarrow> os_bind K sock \<lparr>sa_ip = ip, sa_port = htons port\<rparr>;
             if ret = -1 then close_fail K sock
             else do {
               ret \<leftarrow> os_listen K sock 4095;
               if ret = -1 then close_fail K sock else State_Monad.return sock
             }
           }
     }
   }"

definition CreateUdpSocket :: "('o, 'b) os_scheme \<Rightarrow> int \<Rightarrow> ('o, int) state" where
  "CreateUdpSocket K family = do {
     sock \<leftarrow> os_socket K family SOCK_DGRAM;
     if sock = -1 then State_Monad.return (-1) else State_Monad.return sock
   }"

text \<open>The loop goes round as long as the call is interrupted: \<open>None\<close> if that never ends.\<close>

partial_function (option) GenericAccept :: "('o, 'b) os_scheme \<Rightarrow> int \<Rightarrow> 'o \<Rightarrow> ((int \<times> sock_addr) \<times> 'o) option" where
  "GenericAccept K sock s =
     (case run_state (os_accept K sock) s of
        ((fd, sa), s1) \<Rightarrow>
          if fd = -1 then (if EINTR = os_errno K s1 then GenericAccept K sock s1 else Some ((-1, sa), s1))
          else Some ((fd, sa), s1))"

text \<open>The descriptor with the address of the peer, which is written only when there is one.\<close>

definition TcpAccept :: "('o, 'b) os_scheme \<Rightarrow> int \<Rightarrow> 'o \<Rightarrow> ((int \<times> sock_addr option) \<times> 'o) option" where
  "TcpAccept K sock s =
     map_option (\<lambda>((fd, sa), s1). ((fd, if fd = -1 then None else Some sa), s1)) (GenericAccept K sock s)"

subsection \<open>Options and addresses\<close>

definition SockSetnonblock :: "('o, 'b) os_scheme \<Rightarrow> int \<Rightarrow> ('o, int) state" where
  "SockSetnonblock K sock = do {
     flags \<leftarrow> os_getfl K sock;
     if flags = -1 then State_Monad.return (-1)
     else do {
       ret \<leftarrow> os_setfl K sock (or (word_of_int flags) O_NONBLOCK);
       if ret = -1 then State_Monad.return (-1) else State_Monad.return 0
     }
   }"

definition SockSetnodelay :: "('o, 'b) os_scheme \<Rightarrow> int \<Rightarrow> ('o, int) state" where
  "SockSetnodelay K sock = do {
     ret \<leftarrow> os_setsockopt K sock IPPROTO_TCP TCP_NODELAY 1;
     if ret = -1 then State_Monad.return (-1) else State_Monad.return 0
   }"

text \<open>\<open>None\<close> for the address written for an unknown peer, \<open>?\<close> and port 0.\<close>

definition SockPeerToStr :: "('o, 'b) os_scheme \<Rightarrow> int \<Rightarrow> ('o, int \<times> sock_addr option) state" where
  "SockPeerToStr K sock = do {
     (ret, sa) \<leftarrow> os_getpeername K sock;
     State_Monad.return (if ret = -1 then (-1, None) else (0, Some sa))
   }"

fun bind_ports :: "('o, 'b) os_scheme \<Rightarrow> int \<Rightarrow> ip_addr \<Rightarrow> int list \<Rightarrow> int \<Rightarrow> ('o, int) state" where
  "bind_ports K sock ip [] ret = State_Monad.return ret"
| "bind_ports K sock ip (port # ports) ret =
     (if ret = 0 then State_Monad.return ret
      else do { ret1 \<leftarrow> os_bind K sock \<lparr>sa_ip = ip, sa_port = htons port\<rparr>; bind_ports K sock ip ports ret1 })"

definition SockBind :: "('o, 'b) os_scheme \<Rightarrow> int \<Rightarrow> sock_addr \<Rightarrow> int \<Rightarrow> int \<Rightarrow> ('o, int) state" where
  "SockBind K sock addr min_port max_port =
     (if min_port = 0 \<and> max_port = 0 then os_bind K sock addr
      else bind_ports K sock (sa_ip addr) [min_port..max_port] (-1))"

definition SockGetAddress :: "('o, 'b) os_scheme \<Rightarrow> int \<Rightarrow> ('o, int \<times> sock_addr option) state" where
  "SockGetAddress K sock = do {
     (ret, sa) \<leftarrow> os_getsockname K sock;
     State_Monad.return (if ret \<noteq> 0 then (-1, None) else (0, Some sa))
   }"

subsection \<open>Data\<close>

definition SockReadData :: "('o, 'b) os_scheme \<Rightarrow> int \<Rightarrow> nat \<Rightarrow> ('o, int \<times> bytes) state" where
  "SockReadData K sock len = do {
     (nread, buf) \<leftarrow> os_read K sock len;
     e \<leftarrow> errno K;
     State_Monad.return
       (if nread = -1 then (if EAGAIN = e then 0 else -1, [])
        else if nread = 0 then (-1, [])
        else (nread, buf))
   }"

definition SockWriteData :: "('o, 'b) os_scheme \<Rightarrow> int \<Rightarrow> bytes \<Rightarrow> ('o, int) state" where
  "SockWriteData K sock buf = do {
     nwritten \<leftarrow> os_write K sock buf;
     e \<leftarrow> errno K;
     State_Monad.return (if nwritten = -1 then (if EAGAIN = e then 0 else -1) else nwritten)
   }"

definition SockRecvFrom :: "('o, 'b) os_scheme \<Rightarrow> int \<Rightarrow> nat \<Rightarrow> ('o, int \<times> bytes \<times> sock_addr) state" where
  "SockRecvFrom K sock n = do {
     (received, buf, addr) \<leftarrow> os_recvfrom K sock n;
     e \<leftarrow> errno K;
     State_Monad.return
       (if received < 0 then (if EAGAIN = e then 0 else -1, [], addr)
        else if received = 0 then (-1, [], addr)
        else (received, buf, addr))
   }"

definition SockGetRecvTimestamp :: "('o, 'b) os_scheme \<Rightarrow> int \<Rightarrow> ('o, int) state" where
  "SockGetRecvTimestamp K sock = do {
     time \<leftarrow> os_stamp K sock;
     State_Monad.return (case time of None \<Rightarrow> -1 | Some (tv_sec, tv_usec) \<Rightarrow> tv_sec * 1000000 + tv_usec)
   }"

definition SockSendTo :: "('o, 'b) os_scheme \<Rightarrow> int \<Rightarrow> bytes \<Rightarrow> int \<Rightarrow> sock_addr \<Rightarrow> ('o, int) state" where
  "SockSendTo K sock buf flag addr = do {
     sent \<leftarrow> os_sendto K sock buf flag addr;
     e \<leftarrow> errno K;
     State_Monad.return (if sent < 0 then (if EAGAIN = e then 0 else -1) else if sent = 0 then -1 else sent)
   }"

subsection \<open>What the system keeps\<close>

text \<open>
  \<open>opens\<close>: the open descriptors. Making one gives a new one, closing takes it away, and no other call
  opens or closes any.
\<close>

definition gives_fd :: "('o \<Rightarrow> int set) \<Rightarrow> 'o \<Rightarrow> int \<Rightarrow> 'o \<Rightarrow> bool" where
  "gives_fd opens s fd s' \<longleftrightarrow> (if fd = -1 then opens s' = opens s else 0 \<le> fd \<and> fd \<notin> opens s \<and> opens s' = insert fd (opens s))"

text \<open>\<open>after m Q s\<close>: the call started in \<open>s\<close> ends with \<open>Q\<close>.\<close>

definition after :: "('o, 'a) state \<Rightarrow> ('a \<Rightarrow> 'o \<Rightarrow> bool) \<Rightarrow> 'o \<Rightarrow> bool" where
  "after m Q s = (case run_state m s of (a, s') \<Rightarrow> Q a s')"

lemma after_bind [simp]: "after (State_Monad.bind m f) Q s = after m (\<lambda>a. after (f a) Q) s"
  by (simp add: after_def split: prod.split)

lemma after_return [simp]: "after (State_Monad.return a) Q s = Q a s"
  by (simp add: after_def)

lemma after_errno [simp]: "after (errno K) Q s = Q (os_errno K s) s"
  by (simp add: after_def errno_def)

lemma after_if [simp]: "after (if b then m else n) Q s = (if b then after m Q s else after n Q s)"
  by simp

lemma after_option [simp]: "after (case x of None \<Rightarrow> m | Some a \<Rightarrow> f a) Q s = (case x of None \<Rightarrow> after m Q s | Some a \<Rightarrow> after (f a) Q s)"
  by (cases x) simp_all

lemma after_mono: "after m P s \<Longrightarrow> (\<And>a s'. P a s' \<Longrightarrow> Q a s') \<Longrightarrow> after m Q s"
  by (auto simp: after_def split: prod.splits)

lemma after_any: "(\<And>a s'. Q a s') \<Longrightarrow> after m Q s"
  by (simp add: after_def split: prod.split)

lemma after_pair [simp]: "after (case p of (a, b) \<Rightarrow> f a b) Q s = after (f (fst p) (snd p)) Q s"
  by (simp add: case_prod_beta)

lemma afterD: "after m Q s \<Longrightarrow> run_state m s = (a, s') \<Longrightarrow> Q a s'"
  by (simp add: after_def)

definition fds_ok :: "('o, 'b) os_scheme \<Rightarrow> ('o \<Rightarrow> int set) \<Rightarrow> bool" where
  "fds_ok K opens \<longleftrightarrow> (\<forall>s.
     (\<forall>family type. after (os_socket K family type) (gives_fd opens s) s) \<and>
     (\<forall>fd. after (os_accept K fd) (\<lambda>(r, _). gives_fd opens s r) s) \<and>
     after (os_pipe K) (\<lambda>r s'. case r of None \<Rightarrow> opens s' = opens s
         | Some (a, b) \<Rightarrow> 0 \<le> a \<and> 0 \<le> b \<and> a \<noteq> b \<and> a \<notin> opens s \<and> b \<notin> opens s \<and> opens s' = {a, b} \<union> opens s) s \<and>
     (\<forall>fd. after (os_close K fd) (\<lambda>_ s'. opens s' = opens s - {fd}) s) \<and>
     (\<forall>fd level opt v. after (os_setsockopt K fd level opt v) (\<lambda>_ s'. opens s' = opens s) s) \<and>
     (\<forall>fd addr. after (os_bind K fd addr) (\<lambda>_ s'. opens s' = opens s) s) \<and>
     (\<forall>fd n. after (os_listen K fd n) (\<lambda>_ s'. opens s' = opens s) s))"

lemma fds_okD:
  assumes "fds_ok K opens"
  shows "after (os_socket K family type) (gives_fd opens s) s" "after (os_accept K fd) (\<lambda>(r, _). gives_fd opens s r) s"
    "after (os_close K fd) (\<lambda>_ s'. opens s' = opens s - {fd}) s" "after (os_setsockopt K fd level opt v) (\<lambda>_ s'. opens s' = opens s) s"
    "after (os_bind K fd addr) (\<lambda>_ s'. opens s' = opens s) s" "after (os_listen K fd n) (\<lambda>_ s'. opens s' = opens s) s"
    "after (os_pipe K) (\<lambda>r s'. case r of None \<Rightarrow> opens s' = opens s
         | Some (a, b) \<Rightarrow> 0 \<le> a \<and> 0 \<le> b \<and> a \<noteq> b \<and> a \<notin> opens s \<and> b \<notin> opens s \<and> opens s' = {a, b} \<union> opens s) s"
  using assms unfolding fds_ok_def by blast+

lemma server_descriptors:
  assumes "fds_ok K opens"
  shows "after (CreateTcpServer K addr port) (gives_fd opens s) s"
proof -
  have "after (if sock = -1 then State_Monad.return (-1) else do {
       ret \<leftarrow> os_setsockopt K sock SOL_SOCKET SO_REUSEADDR 1;
       if ret = -1 then close_fail K sock
       else case (case addr of None \<Rightarrow> Some (IPv4 0) | Some a \<Rightarrow> inet_aton K a) of
           None \<Rightarrow> close_fail K sock
         | Some ip \<Rightarrow> do {
             ret \<leftarrow> os_bind K sock \<lparr>sa_ip = ip, sa_port = htons port\<rparr>;
             if ret = -1 then close_fail K sock
             else do { ret \<leftarrow> os_listen K sock 4095; if ret = -1 then close_fail K sock else State_Monad.return sock } } }) (gives_fd opens s) s1"
    if g: "gives_fd opens s sock s1" for sock s1
  proof (cases "sock = -1")
    case False
    have fail: "after (close_fail K sock) (gives_fd opens s) t" if "opens t = opens s1" for t
      unfolding close_fail_def after_bind after_return by (rule after_mono[OF fds_okD(3)[OF assms]]) (use that g False in \<open>auto simp: gives_fd_def\<close>)
    have ok: "gives_fd opens s sock t" if "opens t = opens s1" for t using that g by (simp add: gives_fd_def)
    have l: "after (do { ret \<leftarrow> os_listen K sock 4095; if ret = -1 then close_fail K sock else State_Monad.return sock }) (gives_fd opens s) t"
      if "opens t = opens s1" for t
      unfolding after_bind by (rule after_mono[OF fds_okD(6)[OF assms]]) (use that in \<open>simp add: fail ok\<close>)
    have b: "after (do { ret \<leftarrow> os_bind K sock a; if ret = -1 then close_fail K sock
        else do { ret \<leftarrow> os_listen K sock 4095; if ret = -1 then close_fail K sock else State_Monad.return sock } }) (gives_fd opens s) t"
      if "opens t = opens s1" for a t
      unfolding after_bind
      by (rule after_mono[OF fds_okD(5)[OF assms]]) (use that in \<open>simp add: fail l[simplified]\<close>)
    show ?thesis
      by (simp add: False, rule after_mono[OF fds_okD(4)[OF assms]]) (auto simp: fail b[simplified] split: option.splits)
  qed (use g in simp)
  then show ?thesis unfolding CreateTcpServer_def after_bind by (rule after_mono[OF fds_okD(1)[OF assms]])
qed

text \<open>
  Making the server's socket leaves one descriptor open when it works, the one it returns, and none
  when any of its calls fails.
\<close>

theorem tcp_server_descriptors:
  assumes "fds_ok K opens" "run_state (CreateTcpServer K addr port) s = (r, s')"
  shows "gives_fd opens s r s'"
  by (rule afterD[OF server_descriptors[OF assms(1)] assms(2)])

subsection \<open>Accepting\<close>

definition attempt :: "('o, 'b) os_scheme \<Rightarrow> int \<Rightarrow> nat \<Rightarrow> 'o \<Rightarrow> 'o" where
  "attempt K sock n = (\<lambda>s. snd (run_state (os_accept K sock) s)) ^^ n"

definition interrupted :: "('o, 'b) os_scheme \<Rightarrow> int \<Rightarrow> 'o \<Rightarrow> bool" where
  "interrupted K sock s \<longleftrightarrow> (case run_state (os_accept K sock) s of ((fd, _), s1) \<Rightarrow> fd = -1 \<and> os_errno K s1 = EINTR)"

lemma attempt_next: "attempt K sock k (attempt K sock 1 s) = attempt K sock (Suc k) s"
  by (simp add: attempt_def funpow_Suc_right del: funpow.simps)

lemma accept_step:
  "interrupted K sock s \<Longrightarrow> GenericAccept K sock s = GenericAccept K sock (attempt K sock 1 s)"
  "\<not> interrupted K sock s \<Longrightarrow> GenericAccept K sock s = Some (run_state (os_accept K sock) s)"
  by (subst GenericAccept.simps, auto simp: interrupted_def attempt_def split: prod.splits if_splits)+

lemma accept_returns:
  "(\<forall>k<n. interrupted K sock (attempt K sock k s)) \<Longrightarrow> \<not> interrupted K sock (attempt K sock n s) \<Longrightarrow>
    GenericAccept K sock s = Some (run_state (os_accept K sock) (attempt K sock n s))"
proof (induction n arbitrary: s)
  case (Suc n)
  have "interrupted K sock (attempt K sock k (attempt K sock 1 s))" if "k < n" for k unfolding attempt_next using Suc.prems(1) that by blast
  then have "GenericAccept K sock (attempt K sock 1 s) = Some (run_state (os_accept K sock) (attempt K sock (Suc n) s))"
    using Suc.IH[of "attempt K sock 1 s"] Suc.prems(2) unfolding attempt_next by blast
  moreover have "interrupted K sock s" using Suc.prems(1) by (auto simp: attempt_def dest: spec[of _ 0])
  ultimately show ?case using accept_step(1) by metis
qed (simp add: accept_step(2) attempt_def)

lemma accept_ends:
  assumes "GenericAccept K sock s = Some r"
  shows "\<exists>n. (\<forall>k<n. interrupted K sock (attempt K sock k s)) \<and> \<not> interrupted K sock (attempt K sock n s)"
proof (rule GenericAccept.raw_induct[of "\<lambda>K sock s r. \<exists>n. (\<forall>k<n. interrupted K sock (attempt K sock k s)) \<and> \<not> interrupted K sock (attempt K sock n s)", OF _ assms])
  fix GA and K :: "('a, 'b) os_scheme" and sock s r
  assume IH: "\<And>K sock s r. GA K sock s = Some r \<Longrightarrow> \<exists>n. (\<forall>k<n. interrupted K sock (attempt K sock k s)) \<and> \<not> interrupted K sock (attempt K sock n s)"
    and body: "(case run_state (os_accept K sock) s of ((fd, sa), s1) \<Rightarrow>
          if fd = -1 then (if EINTR = os_errno K s1 then GA K sock s1 else Some ((-1, sa), s1)) else Some ((fd, sa), s1)) = Some r"
  show "\<exists>n. (\<forall>k<n. interrupted K sock (attempt K sock k s)) \<and> \<not> interrupted K sock (attempt K sock n s)"
  proof (cases "interrupted K sock s")
    case True
    then have "GA K sock (attempt K sock 1 s) = Some r" using body by (auto simp: interrupted_def attempt_def split: prod.splits)
    then obtain n where n: "\<forall>k<n. interrupted K sock (attempt K sock (Suc k) s)" "\<not> interrupted K sock (attempt K sock (Suc n) s)"
      using IH unfolding attempt_next[symmetric] by blast
    have "interrupted K sock (attempt K sock k s)" if "k < Suc n" for k
      using n(1) that True by (cases k) (auto simp: attempt_def)
    then show ?thesis using n(2) by blast
  qed (auto simp: attempt_def intro!: exI[of _ 0])
qed

text \<open>
  C38: Accepting a connection returns exactly when some attempt is not interrupted, with the result of the
  first such attempt; while every attempt is interrupted it does not return.
\<close>

theorem accept_retries_interrupted:
  "GenericAccept K sock s = Some r \<longleftrightarrow> (\<exists>n. (\<forall>k<n. interrupted K sock (attempt K sock k s)) \<and>
    \<not> interrupted K sock (attempt K sock n s) \<and> r = run_state (os_accept K sock) (attempt K sock n s))"
  using accept_ends[of K sock s r] accept_returns[of _ K sock s] by (metis option.inject)

subsection \<open>Binding\<close>

text \<open>\<open>bound\<close>: the addresses sockets have. Port 0 asks the system for one, any other port is taken or refused.\<close>

definition bind_ok :: "('o, 'b) os_scheme \<Rightarrow> ('o \<Rightarrow> int \<Rightarrow> sock_addr option) \<Rightarrow> bool" where
  "bind_ok K bound \<longleftrightarrow> (\<forall>s fd.
     (\<forall>addr. after (os_bind K fd addr) (\<lambda>r s'. if r = 0
        then \<exists>p. p \<noteq> 0 \<and> (sa_port addr \<noteq> 0 \<longrightarrow> p = sa_port addr) \<and> bound s' = (bound s)(fd \<mapsto> addr\<lparr>sa_port := p\<rparr>) else bound s' = bound s) s) \<and>
     after (os_getsockname K fd) (\<lambda>(r, sa) s'. bound s' = bound s \<and> (r = 0 \<longrightarrow> bound s fd = Some sa)) s)"

lemma bind_okD:
  assumes "bind_ok K bound"
  shows "after (os_bind K fd addr) (\<lambda>r s'. if r = 0
        then \<exists>p. p \<noteq> 0 \<and> (sa_port addr \<noteq> 0 \<longrightarrow> p = sa_port addr) \<and> bound s' = (bound s)(fd \<mapsto> addr\<lparr>sa_port := p\<rparr>) else bound s' = bound s) s"
    "after (os_getsockname K fd) (\<lambda>(r, sa) s'. bound s' = bound s \<and> (r = 0 \<longrightarrow> bound s fd = Some sa)) s"
  using assms unfolding bind_ok_def by blast+

lemma ports_done: "bind_ports K sock ip ports 0 = State_Monad.return 0"
  by (cases ports) simp_all

lemma ports_bound:
  assumes "bind_ok K bound" "\<forall>p\<in>set ports. htons p \<noteq> 0" "ret \<noteq> 0"
  shows "after (bind_ports K sock ip ports ret) (\<lambda>r s'. r = 0 \<longrightarrow> (\<exists>p\<in>set ports. bound s' sock = Some \<lparr>sa_ip = ip, sa_port = htons p\<rparr>)) s"
  using assms(2,3)
proof (induction ports arbitrary: ret s)
  case (Cons p ps ret s)
  have step: "after (bind_ports K sock ip ps r) (\<lambda>r' s'. r' = 0 \<longrightarrow> (\<exists>q\<in>set (p # ps). bound s' sock = Some \<lparr>sa_ip = ip, sa_port = htons q\<rparr>)) s1"
    if "if r = 0 then \<exists>q. q \<noteq> 0 \<and> (htons p \<noteq> 0 \<longrightarrow> q = htons p) \<and> bound s1 = (bound s)(sock \<mapsto> \<lparr>sa_ip = ip, sa_port = q\<rparr>) else bound s1 = bound s" for r s1
  proof (cases "r = 0")
    case True
    then show ?thesis using that Cons.prems(1) by (auto simp: ports_done)
  next
    case False
    show ?thesis by (rule after_mono[OF Cons.IH]) (use Cons.prems(1) False in auto)
  qed
  show ?case using Cons.prems(2) by (simp, intro after_mono[OF bind_okD(1)[OF assms(1)]]) (rule step[simplified], simp split: if_splits)
qed simp

subsection \<open>A system\<close>

text \<open>
  A small system: descriptors, addresses (ports below 10027 are taken), signals that interrupt and room for
  some datagrams.
\<close>

record demo_os =
  do_fds :: "int list"
  do_bound :: "int \<Rightarrow> sock_addr option"
  do_errno :: int
  do_signals :: nat
  do_room :: nat
  do_sent :: "(bytes \<times> sock_addr) list"

definition demo_fd :: "demo_os \<Rightarrow> int" where
  "demo_fd s = Max (insert (-1) (set (do_fds s))) + 1"

definition demo_nowhere :: sock_addr where
  "demo_nowhere = \<lparr>sa_ip = IPv4 0, sa_port = 0\<rparr>"

definition demo_bind :: "int \<Rightarrow> sock_addr \<Rightarrow> demo_os \<Rightarrow> int \<times> demo_os" where
  "demo_bind fd addr s =
     (if sa_port addr = 0 then (0, s\<lparr>do_bound := (do_bound s)(fd \<mapsto> addr\<lparr>sa_port := 40000\<rparr>)\<rparr>)
      else if sa_port addr < 10027 then (-1, s\<lparr>do_errno := 98\<rparr>)
      else (0, s\<lparr>do_bound := (do_bound s)(fd \<mapsto> addr)\<rparr>))"

definition demo_sendto :: "bytes \<Rightarrow> sock_addr \<Rightarrow> demo_os \<Rightarrow> int \<times> demo_os" where
  "demo_sendto data addr s =
     (if length data > 1000 then (-1, s\<lparr>do_errno := 90\<rparr>)
      else if do_room s = 0 then (-1, s\<lparr>do_errno := EAGAIN\<rparr>)
      else (int (length data), s\<lparr>do_room := do_room s - 1, do_sent := do_sent s @ [(data, addr)]\<rparr>))"

definition demo_kernel :: "demo_os os" where
  "demo_kernel = \<lparr>os_socket = (\<lambda>_ _. State (\<lambda>s. (demo_fd s, s\<lparr>do_fds := demo_fd s # do_fds s\<rparr>))),
     os_setsockopt = (\<lambda>_ _ _ _. State (\<lambda>s. (0, s))), os_bind = (\<lambda>fd addr. State (demo_bind fd addr)),
     os_listen = (\<lambda>_ _. State (\<lambda>s. (0, s))),
     os_accept = (\<lambda>_. State (\<lambda>s. if do_signals s > 0 then ((-1, demo_nowhere), s\<lparr>do_signals := do_signals s - 1, do_errno := EINTR\<rparr>)
        else ((demo_fd s, demo_nowhere), s\<lparr>do_fds := demo_fd s # do_fds s\<rparr>))),
     os_close = (\<lambda>fd. State (\<lambda>s. (0, s\<lparr>do_fds := removeAll fd (do_fds s)\<rparr>))),
     os_getfl = (\<lambda>_. State (\<lambda>s. (0, s))), os_setfl = (\<lambda>_ _. State (\<lambda>s. (0, s))),
     os_getpeername = (\<lambda>_. State (\<lambda>s. ((0, demo_nowhere), s))),
     os_getsockname = (\<lambda>fd. State (\<lambda>s. (case do_bound s fd of None \<Rightarrow> (-1, demo_nowhere) | Some a \<Rightarrow> (0, a), s))),
     os_read = (\<lambda>_ _. State (\<lambda>s. ((-1, []), s\<lparr>do_errno := EAGAIN\<rparr>))), os_write = (\<lambda>_ b. State (\<lambda>s. (int (length b), s))),
     os_recvfrom = (\<lambda>_ _. State (\<lambda>s. ((-1, [], demo_nowhere), s\<lparr>do_errno := EAGAIN\<rparr>))),
     os_sendto = (\<lambda>_ data _ addr. State (demo_sendto data addr)), os_stamp = (\<lambda>_. State (\<lambda>s. (None, s))),
     os_pipe = State (\<lambda>s. (Some (demo_fd s, demo_fd s + 1), s\<lparr>do_fds := [demo_fd s, demo_fd s + 1] @ do_fds s\<rparr>)),
     os_errno = do_errno, inet_aton = (\<lambda>a. if a = [] then None else Some (IPv4 0x7F000001))\<rparr>"

lemma demo_fd_fresh: "0 \<le> demo_fd s" "demo_fd s \<notin> set (do_fds s)" "demo_fd s + 1 \<notin> set (do_fds s)" "demo_fd s \<noteq> -1"
proof -
  let ?M = "Max (insert (-1) (set (do_fds s)))"
  have m: "-1 \<le> ?M" "x \<in> set (do_fds s) \<Longrightarrow> x \<le> ?M" for x by (rule Max_ge; simp)+
  show "0 \<le> demo_fd s" "demo_fd s \<noteq> -1" using m(1) unfolding demo_fd_def by linarith+
  show "demo_fd s \<notin> set (do_fds s)" "demo_fd s + 1 \<notin> set (do_fds s)" using m(2)[of "?M + 1"] m(2)[of "?M + 1 + 1"] by (auto simp: demo_fd_def)
qed

lemma demo_fds_ok: "fds_ok demo_kernel (\<lambda>s. set (do_fds s))"
  using demo_fd_fresh by (auto simp: fds_ok_def demo_kernel_def after_def gives_fd_def demo_bind_def)

lemma demo_bind_ok: "bind_ok demo_kernel do_bound"
proof -
  have "\<exists>p :: u16. p \<noteq> 0 \<and> (b :: int \<Rightarrow> sock_addr option)(fd \<mapsto> addr\<lparr>sa_port := 40000\<rparr>) = b(fd \<mapsto> addr\<lparr>sa_port := p\<rparr>)" for b fd and addr :: sock_addr
    by (rule exI[of _ 40000]) simp
  then show ?thesis by (simp add: bind_ok_def demo_kernel_def after_def demo_bind_def split: option.splits)
qed

definition demo_boot :: demo_os where
  "demo_boot = \<lparr>do_fds = [], do_bound = (\<lambda>_. None), do_errno = 0, do_signals = 2, do_room = 1, do_sent = []\<rparr>"

lemma all_less_two: "(\<forall>k<(2::nat). P k) \<longleftrightarrow> P 0 \<and> P 1"
  by (auto simp: less_2_cases_iff)

theorem tcp_server_descriptors_witness: "\<exists>s'. run_state (CreateTcpServer demo_kernel (Some ''a'') 8080) demo_boot = (-1, s') \<and> do_fds s' = []"
proof -
  obtain r s' where r: "run_state (CreateTcpServer demo_kernel (Some ''a'') 8080) demo_boot = (r, s')"
    by (cases "run_state (CreateTcpServer demo_kernel (Some ''a'') 8080) demo_boot")
  then have "gives_fd (\<lambda>s. set (do_fds s)) demo_boot r s'" by (rule tcp_server_descriptors[OF demo_fds_ok])
  moreover have "r = -1" using r
    by (simp add: CreateTcpServer_def close_fail_def demo_kernel_def demo_fd_def demo_boot_def demo_bind_def htons_def)
  ultimately show ?thesis using r by (simp add: gives_fd_def demo_boot_def)
qed

theorem accept_retries_interrupted_witness:
  "\<exists>s'. GenericAccept demo_kernel 3 demo_boot = Some ((0, demo_nowhere), s') \<and> do_signals s' = 0"
proof -
  let ?run = "run_state (os_accept demo_kernel 3) (attempt demo_kernel 3 2 demo_boot)"
  have "(\<forall>k<2. interrupted demo_kernel 3 (attempt demo_kernel 3 k demo_boot)) \<and> \<not> interrupted demo_kernel 3 (attempt demo_kernel 3 2 demo_boot)"
    unfolding all_less_two
    by (simp add: interrupted_def attempt_def numeral_2_eq_2 demo_kernel_def demo_boot_def demo_fd_def)
  then have "GenericAccept demo_kernel 3 demo_boot = Some ?run"
    using accept_retries_interrupted[of demo_kernel 3 demo_boot ?run] by blast
  moreover have "fst ?run = (0, demo_nowhere) \<and> do_signals (snd ?run) = 0"
    by (simp add: attempt_def numeral_2_eq_2 demo_kernel_def demo_boot_def demo_fd_def)
  ultimately show ?thesis by (metis prod.collapse)
qed

end
