(* ===== verification/EventLoop.thy ===== *)
theory EventLoop
  imports Prelude Histogram
begin

unbundle bit_operations_syntax

text \<open>
  \<open>base/event_loop.cpp\<close>: the watchers of files and timers around those of libev, whose structures
  and calls are the parameter \<open>ev_lib\<close>, with what its manual says of them in \<open>ev_ok\<close>. The callbacks
  and their data belong to the components that make the watchers.
\<close>

record ('w, 't) ev_lib =
  EV_READ :: u32
  EV_WRITE :: u32
  new_ev_io :: 'w
  ev_is_active :: "'w \<Rightarrow> bool"
  ev_io_events :: "'w \<Rightarrow> u32"
  ev_io_fd :: "'w \<Rightarrow> int"
  ev_io_set :: "int \<Rightarrow> u32 \<Rightarrow> 'w \<Rightarrow> 'w"
  ev_io_start :: "'w \<Rightarrow> 'w"
  ev_io_stop :: "'w \<Rightarrow> 'w"
  new_ev_timer :: 't
  ev_timer_stop :: "'t \<Rightarrow> 't"
  ev_timer_set :: "rat \<Rightarrow> rat \<Rightarrow> 't \<Rightarrow> 't"
  ev_timer_start :: "'t \<Rightarrow> 't"
  ev_timer_repeat :: "rat \<Rightarrow> 't \<Rightarrow> 't"
  ev_timer_again :: "'t \<Rightarrow> 't"

definition EL_READ :: u32 where "EL_READ = 1"
definition EL_WRITE :: u32 where "EL_WRITE = 2"

definition TRANS_TO_EV_MASK :: "('w, 't, 'b) ev_lib_scheme \<Rightarrow> u32 \<Rightarrow> u32" where
  "TRANS_TO_EV_MASK V evs = (if evs AND EL_READ \<noteq> 0 then EV_READ V else 0) OR (if evs AND EL_WRITE \<noteq> 0 then EV_WRITE V else 0)"

definition TRANS_FROM_EV_MASK :: "('w, 't, 'b) ev_lib_scheme \<Rightarrow> u32 \<Rightarrow> u32" where
  "TRANS_FROM_EV_MASK V evs = (if evs AND EV_READ V \<noteq> 0 then EL_READ else 0) OR (if evs AND EV_WRITE V \<noteq> 0 then EL_WRITE else 0)"

subsection \<open>Files\<close>

definition CreateIOEvent :: "('w, 't, 'b) ev_lib_scheme \<Rightarrow> 'w" where
  "CreateIOEvent V = new_ev_io V"

definition StartIOEvent :: "('w, 't, 'b) ev_lib_scheme \<Rightarrow> int \<Rightarrow> u32 \<Rightarrow> 'w \<Rightarrow> 'w" where
  "StartIOEvent V fd evs io =
     (if ev_is_active V io then
        let active_events = TRANS_FROM_EV_MASK V (ev_io_events V io);
            events = active_events OR evs
        in if events = active_events then io
           else ev_io_start V (ev_io_set V fd (TRANS_TO_EV_MASK V events) (ev_io_stop V io))
      else ev_io_start V (ev_io_set V fd (TRANS_TO_EV_MASK V evs) io))"

definition StopIOEvent :: "('w, 't, 'b) ev_lib_scheme \<Rightarrow> int \<Rightarrow> u32 \<Rightarrow> 'w \<Rightarrow> 'w" where
  "StopIOEvent V fd evs io =
     (let active_events = TRANS_FROM_EV_MASK V (ev_io_events V io);
          events = active_events AND NOT evs
      in if events = active_events then io
         else let ev_events = TRANS_TO_EV_MASK V events; io1 = ev_io_stop V io
           in if ev_events \<noteq> 0 then ev_io_start V (ev_io_set V fd ev_events io1) else io1)"

text \<open>What libev's callback hands on: the file and the events, in the names of the loop.\<close>

definition GenericIOCb :: "('w, 't, 'b) ev_lib_scheme \<Rightarrow> 'w \<Rightarrow> u32 \<Rightarrow> int \<times> u32" where
  "GenericIOCb V io events = (ev_io_fd V io, TRANS_FROM_EV_MASK V events)"

text \<open>What is left of the watcher when its memory is freed.\<close>

definition DeleteIOEvent :: "('w, 't, 'b) ev_lib_scheme \<Rightarrow> 'w \<Rightarrow> 'w" where
  "DeleteIOEvent V io = ev_io_stop V io"

subsection \<open>Timers\<close>

record 't timer_watcher =
  tw_timer :: 't
  tw_need_repeat :: bool

definition CreateTimer :: "('w, 't, 'b) ev_lib_scheme \<Rightarrow> bool \<Rightarrow> 't timer_watcher" where
  "CreateTimer V need_repeat = \<lparr>tw_timer = new_ev_timer V, tw_need_repeat = need_repeat\<rparr>"

text \<open>\<open>float(usec) / 1000000\<close>, in binary32.\<close>

definition usec_to_sec :: "u32 \<Rightarrow> rat" where
  "usec_to_sec usec = f32 (f32 (of_int (uint usec)) / 1000000)"

definition StartTimer :: "('w, 't, 'b) ev_lib_scheme \<Rightarrow> u32 \<Rightarrow> 't timer_watcher \<Rightarrow> 't timer_watcher" where
  "StartTimer V usec w =
     (let sec = usec_to_sec usec in
      if \<not> tw_need_repeat w then w\<lparr>tw_timer := ev_timer_start V (ev_timer_set V sec 0 (ev_timer_stop V (tw_timer w)))\<rparr>
      else w\<lparr>tw_timer := ev_timer_again V (ev_timer_repeat V sec (tw_timer w))\<rparr>)"

definition StopTimer :: "('w, 't, 'b) ev_lib_scheme \<Rightarrow> 't timer_watcher \<Rightarrow> 't timer_watcher" where
  "StopTimer V w = w\<lparr>tw_timer := ev_timer_stop V (tw_timer w)\<rparr>"

definition DeleteTimer :: "('w, 't, 'b) ev_lib_scheme \<Rightarrow> 't timer_watcher \<Rightarrow> 't timer_watcher" where
  "DeleteTimer V w = StopTimer V w"

subsection \<open>The events a watcher waits for\<close>

text \<open>
  What the manual of libev says: the two events are different bits, \<open>set\<close> stores the events (possibly
  with flags of its own), \<open>start\<close> and \<open>stop\<close> change only whether the watcher is active.
\<close>

definition ev_ok :: "('w, 't, 'b) ev_lib_scheme \<Rightarrow> bool" where
  "ev_ok V \<longleftrightarrow> EV_READ V AND EV_WRITE V = 0 \<and> EV_READ V \<noteq> 0 \<and> EV_WRITE V \<noteq> 0 \<and> \<not> ev_is_active V (new_ev_io V) \<and>
     (\<forall>io. ev_is_active V (ev_io_start V io) \<and> ev_io_events V (ev_io_start V io) = ev_io_events V io) \<and>
     (\<forall>io. \<not> ev_is_active V (ev_io_stop V io) \<and> ev_io_events V (ev_io_stop V io) = ev_io_events V io) \<and>
     (\<forall>fd m io. ev_io_events V (ev_io_set V fd m io) AND (EV_READ V OR EV_WRITE V) = m AND (EV_READ V OR EV_WRITE V))"

definition watched :: "('w, 't, 'b) ev_lib_scheme \<Rightarrow> 'w \<Rightarrow> u32" where
  "watched V io = (if ev_is_active V io then TRANS_FROM_EV_MASK V (ev_io_events V io) else 0)"

lemma one_bit: "(if m AND 2 ^ k \<noteq> 0 then 2 ^ k else 0) = m AND (2 ^ k :: u32)"
proof -
  have "m AND 2 ^ k = (if bit m k then 2 ^ k else 0)"
    by (rule bit_word_eqI) (auto simp: bit_and_iff bit_exp_iff)
  then show ?thesis by simp
qed

lemma masks_back:
  assumes "ev_ok V" "e AND (EV_READ V OR EV_WRITE V) = TRANS_TO_EV_MASK V m AND (EV_READ V OR EV_WRITE V)"
  shows "TRANS_FROM_EV_MASK V e = m AND (EL_READ OR EL_WRITE)"
proof -
  let ?R = "EV_READ V" and ?W = "EV_WRITE V"
  have d: "?R AND ?W = 0" "?W AND ?R = 0" "?R \<noteq> 0" "?W \<noteq> 0" using assms(1) by (simp_all add: ev_ok_def and.commute)
  have a: "x AND ?R = (x AND (?R OR ?W)) AND ?R" "x AND ?W = (x AND (?R OR ?W)) AND ?W" for x
    by (auto intro!: bit_word_eqI simp: bit_and_iff bit_or_iff)
  have "e AND ?R = TRANS_TO_EV_MASK V m AND ?R" "e AND ?W = TRANS_TO_EV_MASK V m AND ?W"
    using a[of e] a[of "TRANS_TO_EV_MASK V m"] assms(2) by metis+
  then have "e AND ?R = (if m AND EL_READ \<noteq> 0 then ?R else 0)" "e AND ?W = (if m AND EL_WRITE \<noteq> 0 then ?W else 0)"
    using d by (simp_all add: TRANS_TO_EV_MASK_def bit.conj_disj_distrib2)
  then have f: "TRANS_FROM_EV_MASK V e = (if m AND EL_READ \<noteq> 0 then EL_READ else 0) OR (if m AND EL_WRITE \<noteq> 0 then EL_WRITE else 0)"
    using d by (simp add: TRANS_FROM_EV_MASK_def)
  have "(if m AND EL_READ \<noteq> 0 then EL_READ else 0) = m AND EL_READ" "(if m AND EL_WRITE \<noteq> 0 then EL_WRITE else 0) = m AND EL_WRITE"
    using one_bit[of m 0] one_bit[of m 1] by (simp_all only: EL_READ_def EL_WRITE_def power_0 power_one_right)
  then show ?thesis unfolding f by (simp add: bit.conj_disj_distrib)
qed


lemma masks_of:
  "TRANS_FROM_EV_MASK V e AND (EL_READ OR EL_WRITE) = TRANS_FROM_EV_MASK V e"
  by (simp add: TRANS_FROM_EV_MASK_def EL_READ_def EL_WRITE_def)

lemma start_set:
  assumes "ev_ok V"
  shows "watched V (ev_io_start V (ev_io_set V fd (TRANS_TO_EV_MASK V m) io)) = m AND (EL_READ OR EL_WRITE)"
proof -
  have "ev_io_events V (ev_io_start V (ev_io_set V fd (TRANS_TO_EV_MASK V m) io)) AND (EV_READ V OR EV_WRITE V) =
      TRANS_TO_EV_MASK V m AND (EV_READ V OR EV_WRITE V)"
    using assms by (simp add: ev_ok_def)
  then show ?thesis using assms masks_back[OF assms] by (simp add: watched_def ev_ok_def)
qed

lemma or_part: "a OR m = a \<Longrightarrow> a OR (m AND c) = (a :: u32)" "a AND NOT m = a \<Longrightarrow> a AND NOT (m AND c) = a"
  by (rule bit_word_eqI, metis bit_and_iff bit_or_iff bit_not_iff)+

lemma start_watched:
  assumes "ev_ok V"
  shows "watched V (StartIOEvent V fd m io) = watched V io OR (m AND (EL_READ OR EL_WRITE))"
proof (cases "ev_is_active V io")
  case True
  let ?a = "TRANS_FROM_EV_MASK V (ev_io_events V io)"
  have w: "watched V io = ?a" using True by (simp add: watched_def)
  show ?thesis
  proof (cases "?a OR m = ?a")
    case False
    then have "StartIOEvent V fd m io = ev_io_start V (ev_io_set V fd (TRANS_TO_EV_MASK V (?a OR m)) (ev_io_stop V io))"
      using True by (simp add: StartIOEvent_def Let_def)
    then show ?thesis unfolding w using masks_of[of V "ev_io_events V io"] by (simp only: start_set[OF assms] bit.conj_disj_distrib2)
  qed (use True in \<open>simp add: w StartIOEvent_def or_part\<close>)
qed (use start_set[OF assms] in \<open>simp add: StartIOEvent_def watched_def\<close>)

lemma no_events_left: "ev_ok V \<Longrightarrow> TRANS_TO_EV_MASK V m = 0 \<Longrightarrow> m AND (EL_READ OR EL_WRITE) = 0"
  using masks_back[of V 0 m] by (simp add: TRANS_FROM_EV_MASK_def)

lemma stop_events:
  assumes "ev_ok V" "a = TRANS_FROM_EV_MASK V (ev_io_events V io)"
  shows "watched V (StopIOEvent V fd m io) = (if a AND NOT m = a then watched V io else a AND NOT m)"
proof (cases "a AND NOT m = a")
  case False
  have "a AND (EL_READ OR EL_WRITE) = a" using masks_of assms(2) by simp
  then have r: "(a AND NOT m) AND (EL_READ OR EL_WRITE) = a AND NOT m" by (metis and.assoc and.commute)
  show ?thesis
  proof (cases "TRANS_TO_EV_MASK V (a AND NOT m) = 0")
    case True
    then have "StopIOEvent V fd m io = ev_io_stop V io" "a AND NOT m = 0"
      using False assms(2) no_events_left[OF assms(1) True] r by (simp_all add: StopIOEvent_def Let_def)
    then show ?thesis using False assms(1) by (simp add: watched_def ev_ok_def)
  next
    case left: False
    then have "StopIOEvent V fd m io = ev_io_start V (ev_io_set V fd (TRANS_TO_EV_MASK V (a AND NOT m)) (ev_io_stop V io))"
      using False assms(2) by (simp add: StopIOEvent_def Let_def)
    then show ?thesis using False r by (simp only: start_set[OF assms(1)] if_False)
  qed
qed (use assms(2) in \<open>simp add: StopIOEvent_def\<close>)

text \<open>
  A watcher waits for exactly the events that were started and not stopped: starting adds events,
  stopping an active watcher takes events away, and deleting leaves it waiting for nothing.
\<close>

theorem watched_events:
  assumes "ev_ok V"
  shows "watched V (CreateIOEvent V) = 0 \<and> watched V (StartIOEvent V fd m io) = watched V io OR (m AND (EL_READ OR EL_WRITE)) \<and>
    (ev_is_active V io \<longrightarrow> watched V (StopIOEvent V fd m io) = watched V io AND NOT m) \<and> watched V (DeleteIOEvent V io) = 0"
  using assms stop_events[OF assms refl, of fd m io]
  by (auto simp: start_watched[OF assms]) (auto simp: watched_def CreateIOEvent_def DeleteIOEvent_def ev_ok_def)

text \<open>
  Stopping one event of a watcher that is stopped already starts it again for the other events it last
  waited for.
\<close>

theorem stop_restarts_stopped:
  assumes "ev_ok V" "watched V io = EL_READ OR EL_WRITE"
  shows "watched V (StopIOEvent V fd (EL_READ OR EL_WRITE) io) = 0 \<and>
    watched V (StopIOEvent V fd EL_READ (StopIOEvent V fd (EL_READ OR EL_WRITE) io)) = EL_WRITE"
proof -
  let ?s = "StopIOEvent V fd (EL_READ OR EL_WRITE) io"
  have a: "TRANS_FROM_EV_MASK V (ev_io_events V io) = EL_READ OR EL_WRITE" using assms(2) by (auto simp: watched_def EL_READ_def EL_WRITE_def split: if_splits)
  then have s: "?s = ev_io_stop V io" by (simp add: StopIOEvent_def Let_def EL_READ_def EL_WRITE_def TRANS_TO_EV_MASK_def)
  then have "TRANS_FROM_EV_MASK V (ev_io_events V ?s) = EL_READ OR EL_WRITE" using a assms(1) by (simp add: ev_ok_def)
  then have "watched V (StopIOEvent V fd EL_READ ?s) = EL_WRITE"
    using stop_events[OF assms(1) refl, of fd EL_READ ?s] by (simp add: EL_READ_def EL_WRITE_def)
  moreover have "watched V ?s = 0" using s assms(1) by (simp add: watched_def ev_ok_def)
  ultimately show ?thesis by simp
qed

subsection \<open>A watcher\<close>

text \<open>A watcher as the manual describes it: its file, its events and whether it is active.\<close>

record demo_ev_io =
  di_fd :: int
  di_events :: u32
  di_active :: bool

definition demo_ev :: "(demo_ev_io, bool) ev_lib" where
  "demo_ev = \<lparr>EV_READ = 1, EV_WRITE = 2, new_ev_io = \<lparr>di_fd = -1, di_events = 0, di_active = False\<rparr>, ev_is_active = di_active, ev_io_events = di_events,
     ev_io_fd = di_fd, ev_io_set = (\<lambda>fd m io. io\<lparr>di_fd := fd, di_events := m OR 128\<rparr>), ev_io_start = (\<lambda>io. io\<lparr>di_active := True\<rparr>),
     ev_io_stop = (\<lambda>io. io\<lparr>di_active := False\<rparr>), new_ev_timer = False, ev_timer_stop = (\<lambda>_. False), ev_timer_set = (\<lambda>_ _ t. t),
     ev_timer_start = (\<lambda>_. True), ev_timer_repeat = (\<lambda>_ t. t), ev_timer_again = (\<lambda>_. True)\<rparr>"

lemma demo_ev_ok: "ev_ok demo_ev"
  by (simp add: ev_ok_def demo_ev_def bit.conj_disj_distrib2)

theorem watched_events_witness:
  "watched demo_ev (StopIOEvent demo_ev 5 EL_WRITE (StartIOEvent demo_ev 5 EL_WRITE (StartIOEvent demo_ev 5 EL_READ (CreateIOEvent demo_ev)))) = EL_READ"
proof -
  let ?r = "StartIOEvent demo_ev 5 EL_READ (CreateIOEvent demo_ev)"
  have "watched demo_ev (StartIOEvent demo_ev 5 EL_WRITE ?r) = EL_READ OR EL_WRITE"
    using watched_events[OF demo_ev_ok, of 5 EL_READ "CreateIOEvent demo_ev"] watched_events[OF demo_ev_ok, of 5 EL_WRITE ?r]
    by (simp add: EL_READ_def EL_WRITE_def)
  then show ?thesis using watched_events[OF demo_ev_ok, of 5 EL_WRITE "StartIOEvent demo_ev 5 EL_WRITE ?r"]
    by (auto simp: watched_def EL_READ_def EL_WRITE_def split: if_splits)
qed

theorem stop_restarts_stopped_witness:
  "watched demo_ev (StopIOEvent demo_ev 5 EL_READ (StopIOEvent demo_ev 5 (EL_READ OR EL_WRITE) \<lparr>di_fd = 5, di_events = 3, di_active = True\<rparr>)) = EL_WRITE"
  using stop_restarts_stopped[OF demo_ev_ok, of "\<lparr>di_fd = 5, di_events = 3, di_active = True\<rparr>" 5]
  by (simp add: watched_def demo_ev_def TRANS_FROM_EV_MASK_def EL_READ_def EL_WRITE_def)

end
