(* ===== verification/AsyncUdp.thy ===== *)
theory AsyncUdp
  imports Socket EventLoop IceDestroy "HOL-Library.Sublist"
begin

text \<open>
  \<open>base/async_udp_socket.cpp\<close> over the socket calls and the event loop: datagrams leave at once or wait in
  a list for the socket to take them. Also the socket of \<open>UDPPort::CreateIceCandidate\<close> and
  \<open>ice/port_allocator.cpp\<close>, which gives its range of ports.
\<close>

subsection \<open>State\<close>

record udp_packet =
  ud_data :: bytes
  ud_addr :: sock_addr

datatype udp_read = UdpRead bytes sock_addr int

record 'w async_udp =
  au_socket :: int
  au_watcher :: 'w
  au_size :: nat
  au_list :: "udp_packet list"

definition MAX_BUF_SIZE :: nat where "MAX_BUF_SIZE = 1500"

definition AsyncUdpSocket :: "('w, 't, 'e) ev_lib_scheme \<Rightarrow> int \<Rightarrow> 'w async_udp" where
  "AsyncUdpSocket V sock = \<lparr>au_socket = sock, au_watcher = StartIOEvent V sock EL_READ (CreateIOEvent V), au_size = MAX_BUF_SIZE, au_list = []\<rparr>"

subsection \<open>Reading\<close>

text \<open>
  \<open>RecvData\<close> reads until the socket has nothing more or fails; the result is what it signals, \<open>None\<close> when
  datagrams never stop coming.
\<close>

partial_function (option) RecvData ::
    "('o, 'b) os_scheme \<Rightarrow> 'w async_udp \<Rightarrow> udp_read list \<Rightarrow> 'o \<Rightarrow> (udp_read list \<times> 'o) option" where
  "RecvData K u out s =
     (case run_state (SockRecvFrom K (au_socket u) (au_size u)) s of
        ((len, buf, addr), s1) \<Rightarrow>
          if len \<le> 0 then Some (out, s1)
          else case run_state (SockGetRecvTimestamp K (au_socket u)) s1 of
            (ts, s2) \<Rightarrow> RecvData K u (out @ [UdpRead buf addr ts]) s2)"

subsection \<open>Sending\<close>

text \<open>How the loop over the list ends: it failed, the socket takes no more, or the list is empty.\<close>

datatype flushed = Failed | Blocked | Empty

fun flush :: "('o, 'b) os_scheme \<Rightarrow> int \<Rightarrow> udp_packet list \<Rightarrow> ('o, flushed \<times> udp_packet list) state" where
  "flush K sock [] = State_Monad.return (Empty, [])"
| "flush K sock (p # ps) = do {
     sent \<leftarrow> SockSendTo K sock (ud_data p) MSG_NOSIGNAL (ud_addr p);
     if sent < 0 then State_Monad.return (Failed, ps)
     else if sent = 0 then State_Monad.return (Blocked, p # ps)
     else flush K sock ps
   }"

definition SendData :: "('o, 'b) os_scheme \<Rightarrow> ('w, 't, 'e) ev_lib_scheme \<Rightarrow> 'w async_udp \<Rightarrow> ('o, 'w async_udp) state" where
  "SendData K V u = do {
     (fin, ps) \<leftarrow> flush K (au_socket u) (au_list u);
     let u1 = u\<lparr>au_list := ps\<rparr> in
     State_Monad.return (if fin = Empty then u1\<lparr>au_watcher := StopIOEvent V (au_socket u) EL_WRITE (au_watcher u)\<rparr> else u1)
   }"

definition send_again :: "('w, 't, 'e) ev_lib_scheme \<Rightarrow> udp_packet \<Rightarrow> 'w async_udp \<Rightarrow> 'w async_udp" where
  "send_again V p u = u\<lparr>au_list := au_list u @ [p], au_watcher := StartIOEvent V (au_socket u) EL_WRITE (au_watcher u)\<rparr>"

definition AddUdpPacket ::
    "('o, 'b) os_scheme \<Rightarrow> ('w, 't, 'e) ev_lib_scheme \<Rightarrow> udp_packet \<Rightarrow> 'w async_udp \<Rightarrow> ('o, int \<times> 'w async_udp) state" where
  "AddUdpPacket K V p u = do {
     (fin, ps) \<leftarrow> flush K (au_socket u) (au_list u);
     let u1 = u\<lparr>au_list := ps\<rparr> in
     case fin of
       Failed \<Rightarrow> State_Monad.return (-1, u1)
     | Blocked \<Rightarrow> State_Monad.return (int (length (ud_data p)), send_again V p u1)
     | Empty \<Rightarrow> do {
         sent \<leftarrow> SockSendTo K (au_socket u) (ud_data p) MSG_NOSIGNAL (ud_addr p);
         State_Monad.return
           (if sent < 0 then (-1, u1)
            else if sent = 0 then (int (length (ud_data p)), send_again V p u1)
            else (sent, u1))
       }
   }"

definition AuSendTo ::
    "('o, 'b) os_scheme \<Rightarrow> ('w, 't, 'e) ev_lib_scheme \<Rightarrow> bytes \<Rightarrow> sock_addr \<Rightarrow> 'w async_udp \<Rightarrow> ('o, int \<times> 'w async_udp) state" where
  "AuSendTo K V data addr u = AddUdpPacket K V \<lparr>ud_data = data, ud_addr = addr\<rparr> u"

text \<open>The callback of the watcher: what is read, then what is sent.\<close>

definition AsyncUdpSocketIOCb ::
    "('o, 'b) os_scheme \<Rightarrow> ('w, 't, 'e) ev_lib_scheme \<Rightarrow> u32 \<Rightarrow> 'w async_udp \<Rightarrow> 'o \<Rightarrow> (udp_read list \<times> 'w async_udp \<times> 'o) option" where
  "AsyncUdpSocketIOCb K V events u s =
     (case (if and EL_READ events \<noteq> 0 then RecvData K u [] s else Some ([], s)) of
        None \<Rightarrow> None
      | Some (out, s1) \<Rightarrow>
          Some (if and EL_WRITE events \<noteq> 0 then (case run_state (SendData K V u) s1 of (u1, s2) \<Rightarrow> (out, u1, s2)) else (out, u, s1)))"

definition delete_async_udp :: "('w, 't, 'e) ev_lib_scheme \<Rightarrow> 'w async_udp \<Rightarrow> 'w async_udp" where
  "delete_async_udp V u = u\<lparr>au_watcher := DeleteIOEvent V (au_watcher u)\<rparr>"

subsection \<open>The socket of a port\<close>

record port_allocator =
  pa_min_port :: int
  pa_max_port :: int

definition PortAllocator :: port_allocator where
  "PortAllocator = \<lparr>pa_min_port = 0, pa_max_port = 0\<rparr>"

definition SetPortRange :: "int \<Rightarrow> int \<Rightarrow> port_allocator \<Rightarrow> port_allocator" where
  "SetPortRange min_port max_port a =
     (let a1 = (if min_port > 0 then a\<lparr>pa_min_port := min_port\<rparr> else a)
      in if max_port > 0 then a1\<lparr>pa_max_port := max_port\<rparr> else a1)"

text \<open>
  The socket \<open>CreateIceCandidate\<close> makes and the port it is bound to, \<open>None\<close> where it returns \<open>-1\<close>. The
  port of the address it binds is never set: \<open>junk\<close> is what it holds.
\<close>

definition open_port :: "('o, 'b) os_scheme \<Rightarrow> int \<Rightarrow> u16 \<Rightarrow> int \<Rightarrow> int \<Rightarrow> ('o, int \<times> u16 option) state" where
  "open_port K family junk min_port max_port = do {
     sock \<leftarrow> CreateUdpSocket K family;
     if sock < 0 then State_Monad.return (sock, None)
     else do {
       ret \<leftarrow> SockSetnonblock K sock;
       if ret \<noteq> 0 then State_Monad.return (sock, None)
       else do {
         ret \<leftarrow> SockBind K sock \<lparr>sa_ip = IPv4 0, sa_port = junk\<rparr> min_port max_port;
         if ret \<noteq> 0 then State_Monad.return (sock, None)
         else do {
           (ret, addr) \<leftarrow> SockGetAddress K sock;
           State_Monad.return (sock, if ret \<noteq> 0 then None else map_option sa_port addr)
         }
       }
     }
   }"

lemma port_range: "0 < lo \<Longrightarrow> hi < 65536 \<Longrightarrow> p \<in> set [lo..hi] \<Longrightarrow> htons p \<noteq> 0 \<and> uint (htons p) = p"
  by (auto simp: htons_def uint_word_of_int word_of_int_eq_0_iff take_bit_int_eq_self dest: zdvd_imp_le)

text \<open>
  C37: The candidate a port announces has a port number of the configured range, and it is the one the
  port's socket is bound to.
\<close>

theorem candidate_port_in_range:
  assumes "bind_ok K bound" "0 < lo" "lo \<le> hi" "hi < 65536" "a = SetPortRange lo hi PortAllocator"
    and "run_state (open_port K family junk (pa_min_port a) (pa_max_port a)) s = ((sock, port), s')"
    and "CreateIceCandidate I ip port p = (p', Some c)"
  shows "lo \<le> uint (sa_port (ca_address c)) \<and> uint (sa_port (ca_address c)) \<le> hi \<and>
    bound s' sock = Some \<lparr>sa_ip = IPv4 0, sa_port = sa_port (ca_address c)\<rparr>"
proof -
  have r: "pa_min_port a = lo" "pa_max_port a = hi" using assms(2,3) by (simp_all add: assms(5) SetPortRange_def PortAllocator_def)
  obtain n where n: "port = Some n" "sa_port (ca_address c) = n"
    using assms(7) by (auto simp: CreateIceCandidate_def Let_def GetPriority_def split: option.splits)
  have "after (open_port K family junk lo hi) (\<lambda>(sock, port) s'. \<forall>n. port = Some n \<longrightarrow>
      lo \<le> uint n \<and> uint n \<le> hi \<and> bound s' sock = Some \<lparr>sa_ip = IPv4 0, sa_port = n\<rparr>) s"
  proof -
    let ?ports = "[lo..hi]"
    have h: "\<forall>p\<in>set ?ports. htons p \<noteq> 0" using port_range[OF assms(2,4)] by blast
    have "after (bind_ports K sock (IPv4 0) ?ports (-1)) (\<lambda>ret. after (if ret \<noteq> 0 then State_Monad.return (sock, None)
         else do { (ret, addr) \<leftarrow> SockGetAddress K sock; State_Monad.return (sock, if ret \<noteq> 0 then None else map_option sa_port addr) })
        (\<lambda>(sock, port) s'. \<forall>n. port = Some n \<longrightarrow> lo \<le> uint n \<and> uint n \<le> hi \<and> bound s' sock = Some \<lparr>sa_ip = IPv4 0, sa_port = n\<rparr>)) t" for sock t
    proof (rule after_mono[OF ports_bound[OF assms(1) h]], simp, goal_cases)
      case (1 ret s1)
      show ?case
      proof (cases "ret = 0")
        case True
        then obtain p where p: "lo \<le> p" "p \<le> hi" "bound s1 sock = Some \<lparr>sa_ip = IPv4 0, sa_port = htons p\<rparr>" using 1 by auto
        have "uint (htons p) = p" using port_range[OF assms(2,4), of p] p by simp
        then show ?thesis using True p
          by (simp add: SockGetAddress_def) (rule after_mono[OF bind_okD(2)[OF assms(1)]], auto split: if_splits)
      qed simp
    qed
    note b = this
    show ?thesis unfolding open_port_def after_bind
    proof (rule after_any, goal_cases)
      case (1 sock t)
      show ?case by (cases "sock < 0", simp, simp, rule after_any) (use b[simplified] assms(2) in \<open>simp add: SockBind_def\<close>)
    qed
  qed
  then show ?thesis using afterD[OF _ assms(6)[unfolded r]] n by fastforce
qed

lemma three_ports: "lo + 2 \<le> hi \<Longrightarrow> [lo..hi] = lo # (lo + 1) # (lo + 2) # [lo + 3..hi :: int]"
  by (simp add: upto_rec1 add.commute)

theorem candidate_port_in_range_witness:
  "\<exists>port s' p' c. run_state (open_port demo_kernel AF_INET 5 10025 65535) demo_boot = ((0, port), s') \<and>
    CreateIceCandidate demo_ice (IPv4 7) port (UDPPort RTP \<lparr>ice_ufrag = [], ice_pwd = []\<rparr>) = (p', Some c) \<and>
    10025 \<le> uint (sa_port (ca_address c)) \<and> sa_port (ca_address c) = 10027"
proof -
  let ?a = "SetPortRange 10025 65535 PortAllocator" and ?P = "UDPPort RTP \<lparr>ice_ufrag = [], ice_pwd = []\<rparr>"
  obtain ports where e: "[10025..65535 :: int] = 10025 # 10026 # 10027 # ports"
    using three_ports[of 10025 65535] by (simp del: upto_rec_numeral)
  obtain s' where o: "run_state (open_port demo_kernel AF_INET 5 (pa_min_port ?a) (pa_max_port ?a)) demo_boot = ((0, Some 10027), s')"
    by (simp add: open_port_def SetPortRange_def PortAllocator_def CreateUdpSocket_def SockSetnonblock_def SockBind_def SockGetAddress_def ports_done
        demo_kernel_def demo_fd_def demo_boot_def demo_bind_def htons_def e del: upto_rec_numeral)
  obtain p' c where c: "CreateIceCandidate demo_ice (IPv4 7) (Some 10027) ?P = (p', Some c)" by (simp add: CreateIceCandidate_def Let_def)
  then have "sa_port (ca_address c) = 10027" by (auto simp: CreateIceCandidate_def Let_def)
  then show ?thesis using candidate_port_in_range[OF demo_bind_ok _ _ _ refl o c] o c
    by (auto simp: SetPortRange_def PortAllocator_def)
qed

text \<open>
  With a largest port but no smallest one the range is not looked at: the first port tried is 0, for
  which the system gives any port.
\<close>

theorem unset_minimum_ignores_range:
  assumes "lo \<le> 0" "0 < hi" "a = SetPortRange lo hi PortAllocator" "run_state (os_bind K sock \<lparr>sa_ip = sa_ip addr, sa_port = 0\<rparr>) s = (0, s1)"
  shows "run_state (SockBind K sock addr (pa_min_port a) (pa_max_port a)) s = (0, s1)"
proof -
  have "[0..hi] = 0 # [1..hi]" using assms(2) by (simp add: upto_rec1)
  then show ?thesis using assms by (simp add: SetPortRange_def PortAllocator_def SockBind_def htons_def ports_done)
qed

theorem unset_minimum_ignores_range_witness:
  "\<exists>s1. run_state (SockBind demo_kernel 3 demo_nowhere 0 20000) demo_boot = (0, s1) \<and> do_bound s1 3 = Some \<lparr>sa_ip = IPv4 0, sa_port = 40000\<rparr>"
proof -
  obtain s1 where b: "run_state (os_bind demo_kernel 3 \<lparr>sa_ip = sa_ip demo_nowhere, sa_port = 0\<rparr>) demo_boot = (0, s1)"
    "do_bound s1 3 = Some \<lparr>sa_ip = IPv4 0, sa_port = 40000\<rparr>"
    by (simp add: demo_kernel_def demo_bind_def demo_nowhere_def)
  show ?thesis using unset_minimum_ignores_range[OF _ _ refl b(1), of 0 20000] b by (simp add: SetPortRange_def PortAllocator_def)
qed

subsection \<open>The socket as a machine\<close>

text \<open>
  \<open>sent\<close>: the datagrams the system has taken, in order. One it has taken is counted, and a call that
  fails takes none; the other calls of the socket do not send.
\<close>

definition send_ok :: "('o, 'b) os_scheme \<Rightarrow> ('o \<Rightarrow> udp_packet list) \<Rightarrow> bool" where
  "send_ok K sent \<longleftrightarrow> (\<forall>s fd.
     (\<forall>data flag addr. after (os_sendto K fd data flag addr) (\<lambda>r s'. sent s' = (if r < 0 then sent s else sent s @ [\<lparr>ud_data = data, ud_addr = addr\<rparr>])) s) \<and>
     (\<forall>n. after (os_recvfrom K fd n) (\<lambda>_ s'. sent s' = sent s) s) \<and> after (os_stamp K fd) (\<lambda>_ s'. sent s' = sent s) s)"

text \<open>A run: the socket, the system and the datagrams given to the socket so far.\<close>

inductive udp_run :: "('o, 'b) os_scheme \<Rightarrow> ('w, 't, 'e) ev_lib_scheme \<Rightarrow> ('o \<Rightarrow> udp_packet list) \<Rightarrow> 'w async_udp \<Rightarrow> 'o \<Rightarrow> udp_packet list \<Rightarrow> bool" for K V sent where
  ur_start: "sent s = [] \<Longrightarrow> udp_run K V sent (AsyncUdpSocket V sock) s []"
| ur_send: "udp_run K V sent u s given \<Longrightarrow> run_state (AuSendTo K V (ud_data p) (ud_addr p) u) s = ((r, u'), s') \<Longrightarrow> udp_run K V sent u' s' (given @ [p])"
| ur_event: "udp_run K V sent u s given \<Longrightarrow> AsyncUdpSocketIOCb K V events u s = Some (out, u', s') \<Longrightarrow> udp_run K V sent u' s' given"

definition udp_inv :: "('w, 't, 'e) ev_lib_scheme \<Rightarrow> udp_packet list \<Rightarrow> udp_packet list \<Rightarrow> 'w async_udp \<Rightarrow> bool" where
  "udp_inv V given out u \<longleftrightarrow> subseq (out @ au_list u) given \<and> (au_list u \<noteq> [] \<longrightarrow> and (watched V (au_watcher u)) EL_WRITE \<noteq> 0)"

lemma send_kept:
  assumes "send_ok K sent"
  shows "after (SockSendTo K fd (ud_data p) flag (ud_addr p)) (\<lambda>r s'. (sent s' = sent s \<or> sent s' = sent s @ [p]) \<and> (r > 0 \<longrightarrow> sent s' = sent s @ [p]) \<and> (r = 0 \<longrightarrow> sent s' = sent s)) s"
proof -
  have p: "\<lparr>ud_data = ud_data p, ud_addr = ud_addr p\<rparr> = p" by simp
  have "after (os_sendto K fd (ud_data p) flag (ud_addr p))
      (\<lambda>r s'. sent s' = (if r < 0 then sent s else sent s @ [\<lparr>ud_data = ud_data p, ud_addr = ud_addr p\<rparr>])) s"
    using assms unfolding send_ok_def by blast
  then have "after (os_sendto K fd (ud_data p) flag (ud_addr p)) (\<lambda>r s'. sent s' = (if r < 0 then sent s else sent s @ [p])) s"
    unfolding p .
  then show ?thesis by (simp add: SockSendTo_def) (erule after_mono, auto)
qed

text \<open>What flushing the list leaves: the rest of it, and what went is what the rest follows.\<close>

lemma flush_kept:
  assumes "send_ok K sent"
  shows "after (flush K fd ps) (\<lambda>(fin, qs) s'. subseq (sent s' @ qs) (sent s @ ps) \<and> (fin = Empty \<longrightarrow> qs = []) \<and> (fin = Blocked \<longrightarrow> qs \<noteq> []) \<and> (qs \<noteq> [] \<longrightarrow> ps \<noteq> [])) s"
proof (induction ps arbitrary: s)
  case (Cons p ps)
  show ?case
  proof (simp, rule after_mono[OF send_kept[OF assms]], goal_cases)
    case (1 r s1)
    have rest: "subseq (sent s1 @ ps) (sent s @ p # ps)" using 1 by (auto intro: list_emb_append_mono list_emb_Cons)
    have "after (flush K fd ps) (\<lambda>(fin, qs) s'. subseq (sent s' @ qs) (sent s @ p # ps) \<and> (fin = Empty \<longrightarrow> qs = []) \<and> (fin = Blocked \<longrightarrow> qs \<noteq> [])) s1"
      by (rule after_mono[OF Cons.IH]) (use rest subseq_order.order_trans in auto)
    then show ?case using 1 rest by auto
  qed
qed simp

lemma write_watched:
  assumes "ev_ok V"
  shows "and (watched V (StartIOEvent V fd EL_WRITE io)) EL_WRITE \<noteq> 0"
proof -
  have "and (watched V (StartIOEvent V fd EL_WRITE io)) EL_WRITE = EL_WRITE"
    unfolding start_watched[OF assms] by (rule bit_word_eqI) (auto simp: bit_and_iff bit_or_iff EL_READ_def EL_WRITE_def)
  then show ?thesis by (simp add: EL_WRITE_def)
qed

lemma send_inv:
  assumes "ev_ok V" "send_ok K sent" "udp_inv V given (sent s) u" "run_state (AuSendTo K V (ud_data p) (ud_addr p) u) s = ((r, u'), s')"
  shows "udp_inv V (given @ [p]) (sent s') u'"
proof -
  have p: "\<lparr>ud_data = ud_data p, ud_addr = ud_addr p\<rparr> = p" by simp
  have sub: "subseq (sent s @ au_list u) given" using assms(3) by (simp add: udp_inv_def)
  have all: "subseq xs (given @ [p])" if "subseq xs (sent s @ au_list u)" for xs
    using subseq_order.order_trans[OF that sub] by (simp add: subseq_rev_drop_many)
  have all': "subseq (xs @ [p]) (given @ [p])" if "subseq xs (sent s @ au_list u)" for xs
    using subseq_order.order_trans[OF that sub] by (simp add: list_emb_append_mono)
  have "after (AuSendTo K V (ud_data p) (ud_addr p) u) (\<lambda>(r, u') s'. udp_inv V (given @ [p]) (sent s') u') s"
    unfolding AuSendTo_def AddUdpPacket_def p
  proof (simp, rule after_mono[OF flush_kept[OF assms(2)]], goal_cases)
    case (1 x s1)
    obtain fin qs where x: "x = (fin, qs)" by (cases x)
    have q: "subseq (sent s1 @ qs) (sent s @ au_list u)" "fin = Empty \<Longrightarrow> qs = []" "qs \<noteq> [] \<Longrightarrow> au_list u \<noteq> []" using 1 by (auto simp: x)
    have again: "udp_inv V (given @ [p]) (sent s1) (send_again V p (u\<lparr>au_list := qs\<rparr>))"
      using all'[OF q(1)] write_watched[OF assms(1)] by (simp add: udp_inv_def send_again_def)
    have last: "after (SockSendTo K (au_socket u) (ud_data p) MSG_NOSIGNAL (ud_addr p))
        (\<lambda>r s'. udp_inv V (given @ [p]) (sent s') (if r = 0 then send_again V p (u\<lparr>au_list := qs\<rparr>) else u\<lparr>au_list := qs\<rparr>)) s1" if "fin = Empty"
    proof (rule after_mono[OF send_kept[OF assms(2)]], goal_cases)
      case (1 r s2)
      have "subseq (sent s2) (given @ [p])" if "r \<noteq> 0"
        using 1 all[OF q(1)] all'[OF q(1)] q(2)[OF \<open>fin = Empty\<close>] by auto
      then show ?case using again 1 q(2)[OF that] by (auto simp: udp_inv_def send_again_def)
    qed
    show ?case
    proof (cases "fin")
      case Empty
      show ?thesis by (simp add: x Empty Let_def p) (rule after_mono[OF last[OF Empty]], auto simp: p split: if_splits)
    next
      case Failed
      then show ?thesis using all[OF q(1)] q(3) assms(3) by (simp add: x udp_inv_def)
    next
      case Blocked
      then show ?thesis using again by (simp add: x p)
    qed
  qed
  then show ?thesis using afterD[OF _ assms(4)] by fastforce
qed

lemma read_inv:
  assumes "send_ok K sent" "RecvData K u out s = Some (out', s')"
  shows "sent s' = sent s"
proof -
  have "send_ok K sent \<longrightarrow> sent (snd r) = sent s" if "RecvData K u out s = Some r" for r
    using that
  proof (rule RecvData.raw_induct[where P = "\<lambda>K u out s r. send_ok K sent \<longrightarrow> sent (snd r) = sent s", rotated], intro impI)
    fix RD and K :: "('a, 'b) os_scheme" and u out s r
    assume IH: "\<And>K u out s r. RD K u out s = Some r \<Longrightarrow> send_ok K sent \<longrightarrow> sent (snd r) = sent s" and K: "send_ok K sent"
      and body: "(case run_state (SockRecvFrom K (au_socket u) (au_size u)) s of ((len, buf, addr), s1) \<Rightarrow>
          if len \<le> 0 then Some (out, s1) else case run_state (SockGetRecvTimestamp K (au_socket u)) s1 of
            (ts, s2) \<Rightarrow> RD K u (out @ [UdpRead buf addr ts]) s2) = Some r"
    obtain len buf addr s1 where r: "run_state (SockRecvFrom K (au_socket u) (au_size u)) s = ((len, buf, addr), s1)"
      by (cases "run_state (SockRecvFrom K (au_socket u) (au_size u)) s") auto
    obtain ts s2 where t: "run_state (SockGetRecvTimestamp K (au_socket u)) s1 = (ts, s2)" by (cases "run_state (SockGetRecvTimestamp K (au_socket u)) s1")
    have a: "after (os_recvfrom K (au_socket u) (au_size u)) (\<lambda>_ s'. sent s' = sent s) s" "after (os_stamp K (au_socket u)) (\<lambda>_ s'. sent s' = sent s1) s1"
      using K unfolding send_ok_def by blast+
    have "after (SockRecvFrom K (au_socket u) (au_size u)) (\<lambda>_ s'. sent s' = sent s) s"
      by (simp add: SockRecvFrom_def) (rule after_mono[OF a(1)], auto)
    moreover have "after (SockGetRecvTimestamp K (au_socket u)) (\<lambda>_ s'. sent s' = sent s1) s1"
      by (simp add: SockGetRecvTimestamp_def) (rule after_mono[OF a(2)], auto)
    ultimately have "sent s1 = sent s" "sent s2 = sent s1" by (simp_all add: after_def r t)
    then show "sent (snd r) = sent s" using body IH K by (auto simp: r t split: if_splits)
  qed
  then show ?thesis using assms by force
qed

lemma write_inv:
  assumes "ev_ok V" "send_ok K sent" "udp_inv V given (sent s) u" "run_state (SendData K V u) s = (u', s')"
  shows "udp_inv V given (sent s') u'"
proof -
  have sub: "subseq (sent s @ au_list u) given" using assms(3) by (simp add: udp_inv_def)
  have "after (SendData K V u) (\<lambda>u' s'. udp_inv V given (sent s') u') s"
    unfolding SendData_def
  proof (simp, rule after_mono[OF flush_kept[OF assms(2)]], goal_cases)
    case (1 x s1)
    obtain fin qs where x: "x = (fin, qs)" by (cases x)
    have "subseq (sent s1 @ qs) given" using 1 subseq_order.order_trans[OF _ sub] by (auto simp: x)
    then show ?case using assms(3) 1 by (auto simp: x Let_def udp_inv_def)
  qed
  then show ?thesis using afterD[OF _ assms(4)] by fastforce
qed

lemma run_inv:
  assumes "ev_ok V" "send_ok K sent" "udp_run K V sent u s given"
  shows "udp_inv V given (sent s) u"
  using assms(3)
proof induction
  case (ur_start s sock)
  then show ?case by (simp add: udp_inv_def AsyncUdpSocket_def)
next
  case (ur_send u s given p r u' s')
  then show ?case using send_inv[OF assms(1,2)] by blast
next
  case (ur_event u s given events out u' s')
  then obtain s1 where "sent s1 = sent s" "u' = u \<and> s' = s1 \<or> run_state (SendData K V u) s1 = (u', s')"
    by (auto simp: AsyncUdpSocketIOCb_def split: option.splits if_splits prod.splits dest: read_inv[OF assms(2)])
  then show ?case using ur_event.IH write_inv[OF assms(1,2)] by metis
qed

text \<open>
  C36: Datagrams leave a socket in the order they are given to it, none twice, whatever the system accepts
  and when; and while some wait the socket watches for room, so that none is left behind.
\<close>

theorem datagrams_in_order:
  assumes "ev_ok V" "send_ok K sent" "udp_run K V sent u s given"
  shows "subseq (sent s @ au_list u) given \<and> (au_list u \<noteq> [] \<longrightarrow> and (watched V (au_watcher u)) EL_WRITE \<noteq> 0)"
  using run_inv[OF assms] by (simp add: udp_inv_def)

text \<open>
  When a datagram that waits is refused, the next one given to the socket is dropped with it: it is
  neither handed to the system nor kept.
\<close>

theorem refused_datagram_takes_next:
  assumes "au_list u = q # qs" "run_state (os_sendto K (au_socket u) (ud_data q) MSG_NOSIGNAL (ud_addr q)) s = (n, s1)" "n \<le> 0"
    and "n = 0 \<or> os_errno K s1 \<noteq> EAGAIN"
  shows "run_state (AuSendTo K V data addr u) s = ((-1, u\<lparr>au_list := qs\<rparr>), s1)"
  using assms by (auto simp: AuSendTo_def AddUdpPacket_def SockSendTo_def errno_def)

subsection \<open>A run\<close>

definition demo_sent :: "demo_os \<Rightarrow> udp_packet list" where
  "demo_sent s = map (\<lambda>(d, a). \<lparr>ud_data = d, ud_addr = a\<rparr>) (do_sent s)"

lemma demo_send_ok: "send_ok demo_kernel demo_sent"
  by (simp add: send_ok_def demo_kernel_def after_def demo_sendto_def demo_sent_def)

lemmas demo_send_eval = AuSendTo_def AddUdpPacket_def SockSendTo_def demo_kernel_def demo_sendto_def demo_boot_def send_again_def AsyncUdpSocket_def
  demo_sent_def demo_nowhere_def

theorem datagrams_in_order_witness:
  "\<exists>u s. udp_run demo_kernel demo_ev demo_sent u s [\<lparr>ud_data = [1], ud_addr = demo_nowhere\<rparr>, \<lparr>ud_data = [2], ud_addr = demo_nowhere\<rparr>] \<and>
    demo_sent s = [\<lparr>ud_data = [1], ud_addr = demo_nowhere\<rparr>] \<and> au_list u = [\<lparr>ud_data = [2], ud_addr = demo_nowhere\<rparr>] \<and>
    and (watched demo_ev (au_watcher u)) EL_WRITE \<noteq> 0"
proof -
  let ?p = "\<lparr>ud_data = [1], ud_addr = demo_nowhere\<rparr>" and ?q = "\<lparr>ud_data = [2], ud_addr = demo_nowhere\<rparr>"
  let ?u0 = "AsyncUdpSocket demo_ev 3"
  have r0: "udp_run demo_kernel demo_ev demo_sent ?u0 demo_boot []" by (rule ur_start) (simp add: demo_sent_def demo_boot_def)
  have "\<exists>s1. run_state (AuSendTo demo_kernel demo_ev (ud_data ?p) (ud_addr ?p) ?u0) demo_boot = ((1, ?u0), s1) \<and> do_room s1 = 0 \<and> demo_sent s1 = [?p]"
    by (simp add: demo_send_eval errno_def Let_def)
  then obtain s1 where s1: "run_state (AuSendTo demo_kernel demo_ev (ud_data ?p) (ud_addr ?p) ?u0) demo_boot = ((1, ?u0), s1)" "do_room s1 = 0" "demo_sent s1 = [?p]"
    by blast
  have "\<exists>u s2. run_state (AuSendTo demo_kernel demo_ev (ud_data ?q) (ud_addr ?q) ?u0) s1 = ((1, u), s2) \<and> au_list u = [?q] \<and> demo_sent s2 = demo_sent s1"
    using s1(2) by (simp add: demo_send_eval errno_def Let_def EAGAIN_def)
  then obtain u s2 where s2: "run_state (AuSendTo demo_kernel demo_ev (ud_data ?q) (ud_addr ?q) ?u0) s1 = ((1, u), s2)" "au_list u = [?q]" "demo_sent s2 = demo_sent s1"
    by blast
  have r: "udp_run demo_kernel demo_ev demo_sent u s2 [?p, ?q]" using ur_send[OF ur_send[OF r0 s1(1)] s2(1)] by simp
  then show ?thesis using datagrams_in_order[OF demo_ev_ok demo_send_ok r] s1(3) s2(2,3) by auto
qed

theorem refused_datagram_takes_next_witness:
  "\<exists>s1. run_state (AuSendTo demo_kernel demo_ev [1] demo_nowhere ((AsyncUdpSocket demo_ev 3)\<lparr>au_list := [\<lparr>ud_data = replicate 1001 0, ud_addr = demo_nowhere\<rparr>]\<rparr>)) demo_boot =
    ((-1, (AsyncUdpSocket demo_ev 3)\<lparr>au_list := []\<rparr>), s1) \<and> do_sent s1 = []"
proof -
  let ?u = "(AsyncUdpSocket demo_ev 3)\<lparr>au_list := [\<lparr>ud_data = replicate 1001 0, ud_addr = demo_nowhere\<rparr>]\<rparr>" and ?q = "\<lparr>ud_data = replicate 1001 0, ud_addr = demo_nowhere\<rparr>"
  have "\<exists>s1. run_state (os_sendto demo_kernel (au_socket ?u) (ud_data ?q) MSG_NOSIGNAL (ud_addr ?q)) demo_boot = (-1, s1) \<and> os_errno demo_kernel s1 = 90 \<and> do_sent s1 = []"
    by (simp add: demo_kernel_def demo_sendto_def demo_boot_def)
  then obtain s1 where s: "run_state (os_sendto demo_kernel (au_socket ?u) (ud_data ?q) MSG_NOSIGNAL (ud_addr ?q)) demo_boot = (-1, s1)"
    "os_errno demo_kernel s1 = 90" "do_sent s1 = []" by blast
  then show ?thesis using refused_datagram_takes_next[OF _ s(1), where V = demo_ev and data = "[1]" and addr = demo_nowhere and qs = "[]"] by (simp add: EAGAIN_def)
qed

end
