(* ===== verification/Config.thy ===== *)
theory Config
  imports Socket AsyncUdp
begin

text \<open>
  \<open>base/conf.cpp\<close> and \<open>base/network.cpp\<close>: the configuration read from a YAML file, and the addresses
  candidates are made for. yaml-cpp is the parameter \<open>yaml\<close>, where \<open>None\<close> is an exception; what the system
  lists as interfaces and libwebrtc's test for a loopback address are arguments.
\<close>

subsection \<open>Configuration\<close>

record 'n yaml =
  LoadFile :: "string \<Rightarrow> 'n option"
  node_at :: "'n \<Rightarrow> string \<Rightarrow> 'n option"
  as_string :: "'n \<Rightarrow> string option"
  as_int :: "'n \<Rightarrow> int option"
  as_bool :: "'n \<Rightarrow> bool option"

record general_conf =
  gc_log_dir :: string
  gc_log_name :: string
  gc_log_level :: string
  gc_log_to_stderr :: bool
  gc_ice_min_port :: int
  gc_ice_max_port :: int
  gc_netcard :: string
  gc_ipv4_addr :: string
  gc_rtcp_report_timer_interval :: int
  gc_enable_xr :: bool
  gc_request_pli_interval_ms :: int

text \<open>A new configuration; \<open>junk\<close> is what the field without a default holds.\<close>

definition GeneralConf :: "bool \<Rightarrow> general_conf" where
  "GeneralConf junk = \<lparr>gc_log_dir = [], gc_log_name = [], gc_log_level = [], gc_log_to_stderr = junk, gc_ice_min_port = 0, gc_ice_max_port = 0,
     gc_netcard = [], gc_ipv4_addr = [], gc_rtcp_report_timer_interval = 100, gc_enable_xr = False, gc_request_pli_interval_ms = 2000\<rparr>"

text \<open>\<open>config[a][b]\<close>, and the value of it in a type: with a fallback only the subscripts can throw.\<close>

definition entry :: "('n, 'b) yaml_scheme \<Rightarrow> 'n \<Rightarrow> string \<Rightarrow> string \<Rightarrow> 'n option" where
  "entry Y config a b = Option.bind (node_at Y config a) (\<lambda>n. node_at Y n b)"

definition value_of :: "('n \<Rightarrow> 'v option) \<Rightarrow> 'n option \<Rightarrow> 'v option" where
  "value_of get x = Option.bind x get"

definition value_or :: "'v \<Rightarrow> ('n \<Rightarrow> 'v option) \<Rightarrow> 'n option \<Rightarrow> 'v option" where
  "value_or fallback get x = map_option (\<lambda>n. case get n of None \<Rightarrow> fallback | Some v \<Rightarrow> v) x"

text \<open>The assignments of the \<open>try\<close> block, one after the other, until one of them throws.\<close>

definition conf_lines :: "('n, 'b) yaml_scheme \<Rightarrow> 'n \<Rightarrow> (general_conf \<Rightarrow> general_conf option) list" where
  "conf_lines Y config =
     [\<lambda>c. map_option (\<lambda>v. c\<lparr>gc_log_dir := v\<rparr>) (value_of (as_string Y) (entry Y config ''log'' ''log_dir'')),
      \<lambda>c. map_option (\<lambda>v. c\<lparr>gc_log_name := v\<rparr>) (value_of (as_string Y) (entry Y config ''log'' ''log_name'')),
      \<lambda>c. map_option (\<lambda>v. c\<lparr>gc_log_level := v\<rparr>) (value_of (as_string Y) (entry Y config ''log'' ''log_level'')),
      \<lambda>c. map_option (\<lambda>v. c\<lparr>gc_log_to_stderr := v\<rparr>) (value_of (as_bool Y) (entry Y config ''log'' ''log_to_stderr'')),
      \<lambda>c. map_option (\<lambda>v. c\<lparr>gc_ice_min_port := v\<rparr>) (value_of (as_int Y) (entry Y config ''ice'' ''min_port'')),
      \<lambda>c. map_option (\<lambda>v. c\<lparr>gc_ice_max_port := v\<rparr>) (value_of (as_int Y) (entry Y config ''ice'' ''max_port'')),
      \<lambda>c. map_option (\<lambda>v. c\<lparr>gc_netcard := v\<rparr>) (value_of (as_string Y) (entry Y config ''ice'' ''netcard'')),
      \<lambda>c. map_option (\<lambda>v. c\<lparr>gc_ipv4_addr := v\<rparr>) (value_of (as_string Y) (entry Y config ''ice'' ''ipv4_addr'')),
      \<lambda>c. map_option (\<lambda>v. c\<lparr>gc_rtcp_report_timer_interval := v\<rparr>) (value_of (as_int Y) (entry Y config ''rtp_rtcp'' ''rtcp_report_timer_interval'')),
      \<lambda>c. map_option (\<lambda>v. c\<lparr>gc_enable_xr := v\<rparr>) (value_or False (as_bool Y) (entry Y config ''rtp_rtcp'' ''enable_xr'')),
      \<lambda>c. map_option (\<lambda>v. c\<lparr>gc_request_pli_interval_ms := v\<rparr>) (value_or 2000 (as_int Y) (entry Y config ''rtp_rtcp'' ''request_pli_interval_ms''))]"

fun run_lines :: "('c \<Rightarrow> 'c option) list \<Rightarrow> 'c \<Rightarrow> int \<times> 'c" where
  "run_lines [] c = (0, c)"
| "run_lines (f # fs) c = (case f c of None \<Rightarrow> (-1, c) | Some c' \<Rightarrow> run_lines fs c')"

text \<open>\<open>None\<close>: loading the file throws, outside the \<open>try\<close> block, which ends the program.\<close>

definition LoadGeneralConf ::
    "('n, 'b) yaml_scheme \<Rightarrow> string option \<Rightarrow> general_conf option \<Rightarrow> (int \<times> general_conf option) option" where
  "LoadGeneralConf Y filename conf =
     (case (filename, conf) of
        (Some file, Some c) \<Rightarrow>
          let c1 = c\<lparr>gc_log_dir := ''./log'', gc_log_name := ''undefined'', gc_log_level := ''info'', gc_log_to_stderr := False\<rparr> in
          (case LoadFile Y file of
             None \<Rightarrow> None
           | Some config \<Rightarrow> (case run_lines (conf_lines Y config) c1 of (ret, c2) \<Rightarrow> Some (ret, Some c2)))
      | _ \<Rightarrow> Some (-1, conf))"

lemma load_conf:
  "LoadGeneralConf Y (Some file) (Some c0) = Some (0, Some c) \<longleftrightarrow> (\<exists>config. LoadFile Y file = Some config \<and>
     value_of (as_string Y) (entry Y config ''log'' ''log_dir'') = Some (gc_log_dir c) \<and>
     value_of (as_string Y) (entry Y config ''log'' ''log_name'') = Some (gc_log_name c) \<and>
     value_of (as_string Y) (entry Y config ''log'' ''log_level'') = Some (gc_log_level c) \<and>
     value_of (as_bool Y) (entry Y config ''log'' ''log_to_stderr'') = Some (gc_log_to_stderr c) \<and>
     value_of (as_int Y) (entry Y config ''ice'' ''min_port'') = Some (gc_ice_min_port c) \<and>
     value_of (as_int Y) (entry Y config ''ice'' ''max_port'') = Some (gc_ice_max_port c) \<and>
     value_of (as_string Y) (entry Y config ''ice'' ''netcard'') = Some (gc_netcard c) \<and>
     value_of (as_string Y) (entry Y config ''ice'' ''ipv4_addr'') = Some (gc_ipv4_addr c) \<and>
     value_of (as_int Y) (entry Y config ''rtp_rtcp'' ''rtcp_report_timer_interval'') = Some (gc_rtcp_report_timer_interval c) \<and>
     value_or False (as_bool Y) (entry Y config ''rtp_rtcp'' ''enable_xr'') = Some (gc_enable_xr c) \<and>
     value_or 2000 (as_int Y) (entry Y config ''rtp_rtcp'' ''request_pli_interval_ms'') = Some (gc_request_pli_interval_ms c))"
  by (cases c0, cases c) (auto simp: LoadGeneralConf_def conf_lines_def split: option.splits)

text \<open>
  The configuration is accepted exactly when the file can be read and every entry but the last two has a
  value of its type; then each field is the value of its own entry, the last two with their defaults.
\<close>

theorem configuration_read:
  "LoadGeneralConf Y (Some file) (Some c0) = Some (0, Some c) \<longleftrightarrow> (\<exists>config. LoadFile Y file = Some config \<and>
     map (\<lambda>(a, b). value_of (as_string Y) (entry Y config a b))
       [(''log'', ''log_dir''), (''log'', ''log_name''), (''log'', ''log_level''), (''ice'', ''netcard''), (''ice'', ''ipv4_addr'')] =
     map Some [gc_log_dir c, gc_log_name c, gc_log_level c, gc_netcard c, gc_ipv4_addr c] \<and>
     map (\<lambda>(a, b). value_of (as_int Y) (entry Y config a b))
       [(''ice'', ''min_port''), (''ice'', ''max_port''), (''rtp_rtcp'', ''rtcp_report_timer_interval'')] =
     map Some [gc_ice_min_port c, gc_ice_max_port c, gc_rtcp_report_timer_interval c] \<and>
     value_of (as_bool Y) (entry Y config ''log'' ''log_to_stderr'') = Some (gc_log_to_stderr c) \<and>
     value_or False (as_bool Y) (entry Y config ''rtp_rtcp'' ''enable_xr'') = Some (gc_enable_xr c) \<and>
     value_or 2000 (as_int Y) (entry Y config ''rtp_rtcp'' ''request_pli_interval_ms'') = Some (gc_request_pli_interval_ms c))"
  by (auto simp: load_conf)

subsection \<open>Networks\<close>

record network =
  nw_name :: string
  nw_ip :: ip_addr

text \<open>One interface as the system lists it: its name and its address, which it may not have.\<close>

datatype if_addr = IfInet u32 | IfOther

definition Network :: "string \<Rightarrow> ip_addr \<Rightarrow> network" where
  "Network name ip = \<lparr>nw_name = name, nw_ip = ip\<rparr>"

text \<open>The loop over the interfaces: \<open>None\<close> when it follows the null pointer of one without an address.\<close>

fun gather_networks :: "(ip_addr \<Rightarrow> bool) \<Rightarrow> (string \<times> if_addr option) list \<Rightarrow> network list \<Rightarrow> network list option" where
  "gather_networks loopback [] networks = Some networks"
| "gather_networks loopback ((name, None) # ifs) networks = None"
| "gather_networks loopback ((name, Some IfOther) # ifs) networks = gather_networks loopback ifs networks"
| "gather_networks loopback ((name, Some (IfInet a)) # ifs) networks =
     (if loopback (IPv4 a) then gather_networks loopback ifs networks else gather_networks loopback ifs (networks @ [Network name (IPv4 a)]))"

text \<open>\<open>junk\<close> is what \<open>addr\<close> holds when \<open>inet_aton\<close> does not write it; \<open>None\<close> for the interfaces: \<open>getifaddrs\<close> fails.\<close>

definition scan_interfaces :: "(ip_addr \<Rightarrow> bool) \<Rightarrow> (string \<times> if_addr option) list option \<Rightarrow> network list \<Rightarrow> (int \<times> network list) option" where
  "scan_interfaces loopback interfaces networks =
     (case interfaces of None \<Rightarrow> Some (-1, networks) | Some ifs \<Rightarrow> map_option (Pair 0) (gather_networks loopback ifs networks))"

definition CreateNetworks ::
    "('o, 'b) os_scheme \<Rightarrow> (ip_addr \<Rightarrow> bool) \<Rightarrow> ip_addr \<Rightarrow> general_conf option \<Rightarrow> (string \<times> if_addr option) list option \<Rightarrow> network list
      \<Rightarrow> (int \<times> network list) option" where
  "CreateNetworks K loopback junk conf interfaces networks =
     (case conf of
        Some c \<Rightarrow>
          if gc_netcard c \<noteq> [] \<and> gc_ipv4_addr c \<noteq> []
          then Some (0, networks @ [Network (gc_netcard c) (case inet_aton K (gc_ipv4_addr c) of None \<Rightarrow> junk | Some ip \<Rightarrow> ip)])
          else scan_interfaces loopback interfaces networks
      | None \<Rightarrow> scan_interfaces loopback interfaces networks)"

text \<open>The allocator of a worker, whose constructor lists the networks; the outcome of that is not looked at.\<close>

definition new_port_allocator ::
    "('o, 'b) os_scheme \<Rightarrow> (ip_addr \<Rightarrow> bool) \<Rightarrow> ip_addr \<Rightarrow> general_conf option \<Rightarrow> (string \<times> if_addr option) list option
      \<Rightarrow> (port_allocator \<times> network list) option" where
  "new_port_allocator K loopback junk conf interfaces =
     map_option (\<lambda>(_, networks). (PortAllocator, networks)) (CreateNetworks K loopback junk conf interfaces [])"

lemma networks_of:
  "gather_networks loopback ifs ns = (if list_ex (\<lambda>x. snd x = None) ifs then None
    else Some (ns @ [Network name (IPv4 a). (name, Some (IfInet a)) \<leftarrow> ifs, \<not> loopback (IPv4 a)]))"
  by (induction loopback ifs ns rule: gather_networks.induct) (auto split: if_splits)

text \<open>
  Candidates are made for the configured address alone if there is one, and otherwise for each IPv4 address
  of the interfaces that is not a loopback address, in their order; one interface without any address (which the
  system may list) ends the program.
\<close>

theorem networks_gathered:
  "new_port_allocator K loopback junk (Some c) (Some ifs) =
     (if gc_netcard c \<noteq> [] \<and> gc_ipv4_addr c \<noteq> []
      then Some (PortAllocator, [Network (gc_netcard c) (case inet_aton K (gc_ipv4_addr c) of None \<Rightarrow> junk | Some ip \<Rightarrow> ip)])
      else if list_ex (\<lambda>x. snd x = None) ifs then None
      else Some (PortAllocator, [Network name (IPv4 a). (name, Some (IfInet a)) \<leftarrow> ifs, \<not> loopback (IPv4 a)]))"
  by (simp add: new_port_allocator_def CreateNetworks_def scan_interfaces_def networks_of split: option.split)

end
