(* ===== verification/Servers.thy ===== *)
theory Servers
  imports Socket EventLoop SignalingSafe Config
begin

text \<open>
  How the threads of the program start, talk and stop: \<open>server/signaling_server.cpp\<close> and the same parts of
  \<open>signaling_worker.cpp\<close>, \<open>rtc_server.cpp\<close> and \<open>rtc_worker.cpp\<close>. Each of these classes has an event loop in
  a thread of its own and a pipe on which others send it the number of what to do. The system is the parameter
  \<open>os\<close>, libev \<open>ev_lib\<close>; what a thread does for the other notifications is the argument \<open>work\<close>, modelled in
  \<open>Signaling\<close> and \<open>RtcServer\<close>. \<open>None\<close> for an object: the code uses a watcher that is deleted or a worker
  that does not exist.
\<close>

subsection \<open>A thread with a pipe\<close>

datatype thread_state = NoThread | Started | Joined

record 'w loop_thread =
  lt_recv_fd :: int
  lt_send_fd :: int
  lt_watcher :: "'w option"
  lt_thread :: thread_state
  lt_running :: bool

definition QUIT :: int where "QUIT = 0"
definition SW_NEW_CONN :: int where "SW_NEW_CONN = 1"
definition SW_RTC_MSG :: int where "SW_RTC_MSG = 2"
definition RTC_MSG_NOTE :: int where "RTC_MSG_NOTE = 1"

text \<open>An \<open>int\<close> as the four bytes of the host.\<close>

definition int_bytes :: "int \<Rightarrow> bytes" where
  "int_bytes msg = le_bytes 4 (nat (msg mod 2 ^ 32))"

definition bytes_int :: "bytes \<Rightarrow> int" where
  "bytes_int b = c_int (le_nat b)"

definition open_pipe ::
    "('o, 'b) os_scheme \<Rightarrow> ('w, 't, 'e) ev_lib_scheme \<Rightarrow> ('w, 'x) loop_thread_scheme \<Rightarrow> ('o, int \<times> ('w, 'x) loop_thread_scheme) state" where
  "open_pipe K V w = do {
     fds \<leftarrow> os_pipe K;
     State_Monad.return (case fds of
         None \<Rightarrow> (-1, w)
       | Some (r, t) \<Rightarrow> (0, w\<lparr>lt_recv_fd := r, lt_send_fd := t, lt_watcher := Some (StartIOEvent V r EL_READ (CreateIOEvent V))\<rparr>))
   }"

definition start_thread :: "('w, 'x) loop_thread_scheme \<Rightarrow> bool \<times> ('w, 'x) loop_thread_scheme" where
  "start_thread w = (if lt_thread w \<noteq> NoThread then (False, w) else (True, w\<lparr>lt_thread := Started, lt_running := True\<rparr>))"

definition send_note :: "('o, 'b) os_scheme \<Rightarrow> ('w, 'x) loop_thread_scheme \<Rightarrow> int \<Rightarrow> ('o, int) state" where
  "send_note K w msg = do {
     written \<leftarrow> os_write K (lt_send_fd w) (int_bytes msg);
     State_Monad.return (if written = 4 then 0 else -1)
   }"

text \<open>What the callback of the pipe reads, \<open>None\<close> when it is not a whole number.\<close>

definition read_note :: "('o, 'b) os_scheme \<Rightarrow> ('w, 'x) loop_thread_scheme \<Rightarrow> ('o, int option) state" where
  "read_note K w = do {
     (n, buf) \<leftarrow> os_read K (lt_recv_fd w) 4;
     State_Monad.return (if n \<noteq> 4 then None else Some (bytes_int buf))
   }"

definition close_pipe :: "('o, 'b) os_scheme \<Rightarrow> ('w, 'x) loop_thread_scheme \<Rightarrow> ('o, ('w, 'x) loop_thread_scheme option) state" where
  "close_pipe K w =
     (case lt_watcher w of
        None \<Rightarrow> State_Monad.return None
      | Some _ \<Rightarrow> do {
          _ \<leftarrow> os_close K (lt_recv_fd w);
          _ \<leftarrow> os_close K (lt_send_fd w);
          State_Monad.return (Some (w\<lparr>lt_watcher := None, lt_running := False\<rparr>))
        })"

text \<open>
  The loop of a thread: it runs the callbacks until one of them stops it. \<open>None\<close> if that never happens.
\<close>

partial_function (option) thread_run :: "('a \<Rightarrow> 'o \<Rightarrow> ('a option \<times> 'o) option) \<Rightarrow> ('a \<Rightarrow> bool) \<Rightarrow> 'a \<Rightarrow> 'o \<Rightarrow> ('a option \<times> 'o) option" where
  "thread_run step running w s =
     (if \<not> running w then Some (Some w, s)
      else Option.bind (step w s) (\<lambda>(r, s1). case r of None \<Rightarrow> Some (None, s1) | Some w1 \<Rightarrow> thread_run step running w1 s1))"

subsection \<open>The workers\<close>

text \<open>The numbers of the connections a signaling worker is given wait in \<open>wt_q_conn\<close>.\<close>

record 'w worker_thread = "'w loop_thread" +
  wt_q_conn :: "int list"

definition new_worker :: "'w worker_thread" where
  "new_worker = \<lparr>lt_recv_fd = -1, lt_send_fd = -1, lt_watcher = None, lt_thread = NoThread, lt_running = False, wt_q_conn = []\<rparr>"

definition SwInit ::
    "('o, 'b) os_scheme \<Rightarrow> ('w, 't, 'e) ev_lib_scheme \<Rightarrow> 'w worker_thread \<Rightarrow> ('o, int \<times> 'w worker_thread) state" where
  "SwInit K V w = open_pipe K V w"

definition SwStart :: "'w worker_thread \<Rightarrow> bool \<times> 'w worker_thread" where
  "SwStart w = start_thread w"

definition SwNotify :: "('o, 'b) os_scheme \<Rightarrow> 'w worker_thread \<Rightarrow> int \<Rightarrow> ('o, int) state" where
  "SwNotify K w msg = send_note K w msg"

definition SwStop :: "('o, 'b) os_scheme \<Rightarrow> 'w worker_thread \<Rightarrow> ('o, int) state" where
  "SwStop K w = SwNotify K w QUIT"

definition SwInnerStop :: "('o, 'b) os_scheme \<Rightarrow> 'w worker_thread \<Rightarrow> ('o, 'w worker_thread option) state" where
  "SwInnerStop K w = (if lt_thread w = NoThread then State_Monad.return (Some w) else close_pipe K w)"

definition SwProcessNotify ::
    "('o, 'b) os_scheme \<Rightarrow> (int \<Rightarrow> ('o, unit) state) \<Rightarrow> int \<Rightarrow> 'w worker_thread \<Rightarrow> ('o, 'w worker_thread option) state" where
  "SwProcessNotify K work msg w =
     (if msg = QUIT then SwInnerStop K w
      else if msg = SW_NEW_CONN \<or> msg = SW_RTC_MSG then do { _ \<leftarrow> work msg; State_Monad.return (Some w) }
      else State_Monad.return (Some w))"

definition SignalingWorkerRecvNotify ::
    "('o, 'b) os_scheme \<Rightarrow> (int \<Rightarrow> ('o, unit) state) \<Rightarrow> 'w worker_thread \<Rightarrow> ('o, 'w worker_thread option) state" where
  "SignalingWorkerRecvNotify K work w = do {
     note \<leftarrow> read_note K w;
     case note of None \<Rightarrow> State_Monad.return (Some w) | Some msg \<Rightarrow> SwProcessNotify K work msg w
   }"

text \<open>The RTC worker: the same, with numbers of its own.\<close>

definition RwInit ::
    "('o, 'b) os_scheme \<Rightarrow> ('w, 't, 'e) ev_lib_scheme \<Rightarrow> 'w worker_thread \<Rightarrow> ('o, int \<times> 'w worker_thread) state" where
  "RwInit K V w = open_pipe K V w"

definition RwStart :: "'w worker_thread \<Rightarrow> bool \<times> 'w worker_thread" where
  "RwStart w = start_thread w"

definition RwNotify :: "('o, 'b) os_scheme \<Rightarrow> 'w worker_thread \<Rightarrow> int \<Rightarrow> ('o, int) state" where
  "RwNotify K w msg = send_note K w msg"

definition RwStop :: "('o, 'b) os_scheme \<Rightarrow> 'w worker_thread \<Rightarrow> ('o, int) state" where
  "RwStop K w = RwNotify K w QUIT"

definition RwInnerStop :: "('o, 'b) os_scheme \<Rightarrow> 'w worker_thread \<Rightarrow> ('o, 'w worker_thread option) state" where
  "RwInnerStop K w = (if lt_thread w = NoThread then State_Monad.return (Some w) else close_pipe K w)"

definition RwProcessNotify ::
    "('o, 'b) os_scheme \<Rightarrow> (int \<Rightarrow> ('o, unit) state) \<Rightarrow> int \<Rightarrow> 'w worker_thread \<Rightarrow> ('o, 'w worker_thread option) state" where
  "RwProcessNotify K work msg w =
     (if msg = QUIT then RwInnerStop K w
      else if msg = RTC_MSG_NOTE then do { _ \<leftarrow> work msg; State_Monad.return (Some w) }
      else State_Monad.return (Some w))"

definition RtcWorkerRecvNotify ::
    "('o, 'b) os_scheme \<Rightarrow> (int \<Rightarrow> ('o, unit) state) \<Rightarrow> 'w worker_thread \<Rightarrow> ('o, 'w worker_thread option) state" where
  "RtcWorkerRecvNotify K work w = do {
     note \<leftarrow> read_note K w;
     case note of None \<Rightarrow> State_Monad.return (Some w) | Some msg \<Rightarrow> RwProcessNotify K work msg w
   }"

text \<open>Waiting for a thread, which runs its callbacks \<open>recv\<close> until its loop stops; a thread is waited for once.\<close>

definition join_thread :: "('w worker_thread \<Rightarrow> ('o, 'w worker_thread option) state) \<Rightarrow> 'w worker_thread \<Rightarrow> 'o \<Rightarrow> ('w worker_thread option \<times> 'o) option" where
  "join_thread recv w s =
     (if lt_thread w \<noteq> Started then Some (Some w, s)
      else Option.bind (thread_run (\<lambda>w s. Some (run_state (recv w) s)) lt_running w s)
        (\<lambda>(r, s1). Some (map_option (\<lambda>w. w\<lparr>lt_thread := Joined\<rparr>) r, s1)))"

text \<open>The end of a server: each worker is told to stop and waited for before the next.\<close>

fun stop_workers ::
    "('w worker_thread \<Rightarrow> ('o, int) state) \<Rightarrow> ('w worker_thread \<Rightarrow> ('o, 'w worker_thread option) state) \<Rightarrow> 'w worker_thread list \<Rightarrow> 'o
      \<Rightarrow> ('w worker_thread list option \<times> 'o) option" where
  "stop_workers stop recv [] s = Some (Some [], s)"
| "stop_workers stop recv (w # ws) s =
     Option.bind (join_thread recv w (snd (run_state (stop w) s))) (\<lambda>(r, s1). case r of
         None \<Rightarrow> Some (None, s1)
       | Some w1 \<Rightarrow> Option.bind (stop_workers stop recv ws s1) (\<lambda>(rs, s2). Some (map_option ((#) w1) rs, s2)))"

subsection \<open>The signaling server\<close>

record signaling_options =
  so_host :: string
  so_port :: int
  so_worker_num :: int
  so_connection_timeout :: int

record 'w signaling_server = "'w loop_thread" +
  ss_options :: signaling_options
  ss_io_watcher :: "'w option"
  ss_listen_fd :: int
  ss_workers :: "'w worker_thread list"
  ss_next_worker_index :: nat

text \<open>The options are not initialised: \<open>junk\<close>.\<close>

definition SignalingServer :: "signaling_options \<Rightarrow> 'w signaling_server" where
  "SignalingServer junk = \<lparr>lt_recv_fd = -1, lt_send_fd = -1, lt_watcher = None, lt_thread = NoThread, lt_running = False,
     ss_options = junk, ss_io_watcher = None, ss_listen_fd = -1, ss_workers = [], ss_next_worker_index = 0\<rparr>"

definition option_lines :: "('n, 'b) yaml_scheme \<Rightarrow> 'n \<Rightarrow> (signaling_options \<Rightarrow> signaling_options option) list" where
  "option_lines Y config =
     [\<lambda>c. map_option (\<lambda>v. c\<lparr>so_host := v\<rparr>) (value_of (as_string Y) (node_at Y config ''host'')),
      \<lambda>c. map_option (\<lambda>v. c\<lparr>so_port := v\<rparr>) (value_of (as_int Y) (node_at Y config ''port'')),
      \<lambda>c. map_option (\<lambda>v. c\<lparr>so_worker_num := v\<rparr>) (value_of (as_int Y) (node_at Y config ''worker_num'')),
      \<lambda>c. map_option (\<lambda>v. c\<lparr>so_connection_timeout := v\<rparr>) (value_of (as_int Y) (node_at Y config ''connection_timeout''))]"

definition SsCreateWorker ::
    "('o, 'b) os_scheme \<Rightarrow> ('w, 't, 'e) ev_lib_scheme \<Rightarrow> 'w signaling_server \<Rightarrow> ('o, int \<times> 'w signaling_server) state" where
  "SsCreateWorker K V s = do {
     (ret, w) \<leftarrow> SwInit K V new_worker;
     State_Monad.return
       (if ret \<noteq> 0 then (-1, s)
        else case SwStart w of
          (False, _) \<Rightarrow> (-1, s)
        | (True, w1) \<Rightarrow> (0, s\<lparr>ss_workers := ss_workers s @ [w1]\<rparr>))
   }"

fun create_workers :: "('s \<Rightarrow> ('o, int \<times> 's) state) \<Rightarrow> nat \<Rightarrow> 's \<Rightarrow> ('o, int \<times> 's) state" where
  "create_workers create 0 s = State_Monad.return (0, s)"
| "create_workers create (Suc n) s = do {
     (ret, s1) \<leftarrow> create s;
     if ret \<noteq> 0 then State_Monad.return (-1, s1) else create_workers create n s1
   }"

definition SsInit ::
    "('n, 'y) yaml_scheme \<Rightarrow> ('o, 'b) os_scheme \<Rightarrow> ('w, 't, 'e) ev_lib_scheme \<Rightarrow> string option \<Rightarrow> 'w signaling_server
      \<Rightarrow> ('o, int \<times> 'w signaling_server) state" where
  "SsInit Y K V conf_file s =
     (case Option.bind conf_file (LoadFile Y) of
        None \<Rightarrow> State_Monad.return (-1, s)
      | Some config \<Rightarrow> (case run_lines (option_lines Y config) (ss_options s) of (ret, opts) \<Rightarrow>
          let s1 = s\<lparr>ss_options := opts\<rparr> in
          if ret \<noteq> 0 then State_Monad.return (-1, s1)
          else do {
            (ret, s2) \<leftarrow> open_pipe K V s1;
            if ret \<noteq> 0 then State_Monad.return (-1, s2)
            else do {
              fd \<leftarrow> CreateTcpServer K (Some (so_host opts)) (so_port opts);
              let s3 = s2\<lparr>ss_listen_fd := fd\<rparr> in
              if fd = -1 then State_Monad.return (-1, s3)
              else create_workers (SsCreateWorker K V) (nat (so_worker_num opts))
                     (s3\<lparr>ss_io_watcher := Some (StartIOEvent V fd EL_READ (CreateIOEvent V))\<rparr>)
            }
          }))"

definition SsStart :: "'w signaling_server \<Rightarrow> bool \<times> 'w signaling_server" where
  "SsStart s = start_thread s"

definition SwNotifyNewConn :: "('o, 'b) os_scheme \<Rightarrow> int \<Rightarrow> 'w worker_thread \<Rightarrow> ('o, int \<times> 'w worker_thread) state" where
  "SwNotifyNewConn K fd w = do {
     let w1 = w\<lparr>wt_q_conn := wt_q_conn w @ [fd]\<rparr> in do {
     ret \<leftarrow> SwNotify K w1 SW_NEW_CONN;
     State_Monad.return (ret, w1) }
   }"

text \<open>\<open>None\<close>: the worker is looked up outside the vector.\<close>

definition DispatchNewConn :: "('o, 'b) os_scheme \<Rightarrow> int \<Rightarrow> 'w signaling_server \<Rightarrow> ('o, 'w signaling_server option) state" where
  "DispatchNewConn K fd s =
     (let index = ss_next_worker_index s;
          s1 = s\<lparr>ss_next_worker_index := (if index + 1 \<ge> length (ss_workers s) then 0 else index + 1)\<rparr>
      in if index \<ge> length (ss_workers s) then State_Monad.return None
         else do {
           (ret, w) \<leftarrow> SwNotifyNewConn K fd (ss_workers s ! index);
           State_Monad.return (Some (s1\<lparr>ss_workers := (ss_workers s)[index := w]\<rparr>))
         })"

definition AcceptNewConn :: "('o, 'b) os_scheme \<Rightarrow> 'w signaling_server \<Rightarrow> 'o \<Rightarrow> ('w signaling_server option \<times> 'o) option" where
  "AcceptNewConn K s o0 =
     Option.bind (TcpAccept K (ss_listen_fd s) o0) (\<lambda>((cfd, _), o1).
       Some (if cfd = -1 then (Some s, o1) else run_state (DispatchNewConn K cfd s) o1))"

definition SsNotify :: "('o, 'b) os_scheme \<Rightarrow> 'w signaling_server \<Rightarrow> int \<Rightarrow> ('o, int) state" where
  "SsNotify K s msg = send_note K s msg"

definition SsStop :: "('o, 'b) os_scheme \<Rightarrow> 'w signaling_server \<Rightarrow> ('o, int) state" where
  "SsStop K s = SsNotify K s QUIT"

text \<open>\<open>work\<close>: what the workers do for notifications other than the one to stop.\<close>

definition SsInnerStop ::
    "('o, 'b) os_scheme \<Rightarrow> (int \<Rightarrow> ('o, unit) state) \<Rightarrow> 'w signaling_server \<Rightarrow> 'o \<Rightarrow> ('w signaling_server option \<times> 'o) option" where
  "SsInnerStop K work s o0 =
     (if lt_thread s = NoThread then Some (Some s, o0)
      else if ss_io_watcher s = None then Some (None, o0)
      else case run_state (close_pipe K s) o0 of
        (None, o1) \<Rightarrow> Some (None, o1)
      | (Some s1, o1) \<Rightarrow> (case run_state (os_close K (ss_listen_fd s)) o1 of (_, o2) \<Rightarrow>
          Option.bind (stop_workers (SwStop K) (SignalingWorkerRecvNotify K work) (ss_workers s) o2) (\<lambda>(ws, o3).
            Some (map_option (\<lambda>ws. s1\<lparr>ss_io_watcher := None, ss_workers := ws\<rparr>) ws, o3))))"

definition SsProcessNotify ::
    "('o, 'b) os_scheme \<Rightarrow> (int \<Rightarrow> ('o, unit) state) \<Rightarrow> int \<Rightarrow> 'w signaling_server \<Rightarrow> 'o \<Rightarrow> ('w signaling_server option \<times> 'o) option" where
  "SsProcessNotify K work msg s o0 = (if msg = QUIT then SsInnerStop K work s o0 else Some (Some s, o0))"

definition SignalingServerRecvNotify ::
    "('o, 'b) os_scheme \<Rightarrow> (int \<Rightarrow> ('o, unit) state) \<Rightarrow> 'w signaling_server \<Rightarrow> 'o \<Rightarrow> ('w signaling_server option \<times> 'o) option" where
  "SignalingServerRecvNotify K work s o0 =
     (case run_state (read_note K s) o0 of
        (None, o1) \<Rightarrow> Some (Some s, o1)
      | (Some msg, o1) \<Rightarrow> SsProcessNotify K work msg s o1)"

subsection \<open>The RTC server\<close>

text \<open>\<open>rs_certificate\<close>: the certificate, if there is one.\<close>

record ('w, 'c) rtc_server_thread = "'w loop_thread" +
  rs_worker_num :: int
  rs_workers :: "'w worker_thread list"
  rs_certificate :: "'c option"

definition new_rtc_server :: "int \<Rightarrow> ('w, 'c) rtc_server_thread" where
  "new_rtc_server junk = \<lparr>lt_recv_fd = -1, lt_send_fd = -1, lt_watcher = None, lt_thread = NoThread, lt_running = False,
     rs_worker_num = junk, rs_workers = [], rs_certificate = None\<rparr>"

text \<open>\<open>expired\<close>: \<open>HasExpired\<close> now; \<open>fresh\<close>: what \<open>GenerateCertificate\<close> returns.\<close>

definition GenerateAndCheckCertificate :: "('c \<Rightarrow> bool) \<Rightarrow> 'c option \<Rightarrow> ('w, 'c) rtc_server_thread \<Rightarrow> int \<times> ('w, 'c) rtc_server_thread" where
  "GenerateAndCheckCertificate expired fresh s =
     (let s1 = (case rs_certificate s of
                  None \<Rightarrow> s\<lparr>rs_certificate := fresh\<rparr>
                | Some c \<Rightarrow> if expired c then s\<lparr>rs_certificate := fresh\<rparr> else s)
      in if rs_certificate s1 = None then (-1, s1) else (0, s1))"

definition RsCreateWorker ::
    "('o, 'b) os_scheme \<Rightarrow> ('w, 't, 'e) ev_lib_scheme \<Rightarrow> ('w, 'c) rtc_server_thread \<Rightarrow> ('o, int \<times> ('w, 'c) rtc_server_thread) state" where
  "RsCreateWorker K V s = do {
     (ret, w) \<leftarrow> RwInit K V new_worker;
     State_Monad.return
       (if ret \<noteq> 0 then (-1, s)
        else case RwStart w of
          (False, _) \<Rightarrow> (-1, s)
        | (True, w1) \<Rightarrow> (0, s\<lparr>rs_workers := rs_workers s @ [w1]\<rparr>))
   }"

definition RsInit ::
    "('n, 'y) yaml_scheme \<Rightarrow> ('o, 'b) os_scheme \<Rightarrow> ('w, 't, 'e) ev_lib_scheme \<Rightarrow> ('c \<Rightarrow> bool) \<Rightarrow> 'c option \<Rightarrow> string option
      \<Rightarrow> ('w, 'c) rtc_server_thread \<Rightarrow> ('o, int \<times> ('w, 'c) rtc_server_thread) state" where
  "RsInit Y K V expired fresh conf_file s =
     (case Option.bind conf_file (LoadFile Y) of
        None \<Rightarrow> State_Monad.return (-1, s)
      | Some config \<Rightarrow> (case value_of (as_int Y) (node_at Y config ''worker_num'') of
          None \<Rightarrow> State_Monad.return (-1, s)
        | Some n \<Rightarrow> (case GenerateAndCheckCertificate expired fresh (s\<lparr>rs_worker_num := n\<rparr>) of (ret, s1) \<Rightarrow>
            if ret \<noteq> 0 then State_Monad.return (-1, s1)
            else do {
              (ret, s2) \<leftarrow> open_pipe K V s1;
              if ret \<noteq> 0 then State_Monad.return (-1, s2) else create_workers (RsCreateWorker K V) (nat n) s2
            })))"

definition RsStart :: "('w, 'c) rtc_server_thread \<Rightarrow> bool \<times> ('w, 'c) rtc_server_thread" where
  "RsStart s = start_thread s"

definition RsNotify :: "('o, 'b) os_scheme \<Rightarrow> ('w, 'c) rtc_server_thread \<Rightarrow> int \<Rightarrow> ('o, int) state" where
  "RsNotify K s msg = send_note K s msg"

definition RsStop :: "('o, 'b) os_scheme \<Rightarrow> ('w, 'c) rtc_server_thread \<Rightarrow> ('o, int) state" where
  "RsStop K s = RsNotify K s QUIT"

definition RsInnerStop ::
    "('o, 'b) os_scheme \<Rightarrow> (int \<Rightarrow> ('o, unit) state) \<Rightarrow> ('w, 'c) rtc_server_thread \<Rightarrow> 'o \<Rightarrow> (('w, 'c) rtc_server_thread option \<times> 'o) option" where
  "RsInnerStop K work s o0 =
     (case run_state (close_pipe K s) o0 of
        (None, o1) \<Rightarrow> Some (None, o1)
      | (Some s1, o1) \<Rightarrow> Option.bind (stop_workers (RwStop K) (RtcWorkerRecvNotify K work) (rs_workers s) o1) (\<lambda>(ws, o2).
          Some (map_option (\<lambda>ws. s1\<lparr>rs_workers := ws\<rparr>) ws, o2)))"

text \<open>\<open>route\<close>: what the server does for a message, \<open>ProcessRtcMsg\<close>.\<close>

definition RsProcessNotify ::
    "('o, 'b) os_scheme \<Rightarrow> (int \<Rightarrow> ('o, unit) state) \<Rightarrow> ('o, unit) state \<Rightarrow> int \<Rightarrow> ('w, 'c) rtc_server_thread \<Rightarrow> 'o
      \<Rightarrow> (('w, 'c) rtc_server_thread option \<times> 'o) option" where
  "RsProcessNotify K work route msg s o0 =
     (if msg = QUIT then RsInnerStop K work s o0
      else if msg = RTC_MSG_NOTE then Some (Some s, snd (run_state route o0))
      else Some (Some s, o0))"

definition RtcServerRecvNotify ::
    "('o, 'b) os_scheme \<Rightarrow> (int \<Rightarrow> ('o, unit) state) \<Rightarrow> ('o, unit) state \<Rightarrow> ('w, 'c) rtc_server_thread \<Rightarrow> 'o
      \<Rightarrow> (('w, 'c) rtc_server_thread option \<times> 'o) option" where
  "RtcServerRecvNotify K work route s o0 =
     (case run_state (read_note K s) o0 of
        (None, o1) \<Rightarrow> Some (Some s, o1)
      | (Some msg, o1) \<Rightarrow> RsProcessNotify K work route msg s o1)"

text \<open>The handler of the signals of \<open>main\<close>.\<close>

definition SIGINT :: int where "SIGINT = 2"
definition SIGTERM :: int where "SIGTERM = 15"

definition ProcessSignal ::
    "('o, 'b) os_scheme \<Rightarrow> 'w signaling_server option \<Rightarrow> ('w, 'c) rtc_server_thread option \<Rightarrow> int \<Rightarrow> ('o, unit) state" where
  "ProcessSignal K signaling rtc sig =
     (if SIGINT = sig \<or> SIGTERM = sig then do {
        _ \<leftarrow> (case signaling of None \<Rightarrow> State_Monad.return 0 | Some s \<Rightarrow> SsStop K s);
        _ \<leftarrow> (case rtc of None \<Rightarrow> State_Monad.return 0 | Some s \<Rightarrow> RsStop K s);
        State_Monad.return ()
      } else State_Monad.return ())"

end
