(* ===== verification/ServerProps.thy ===== *)
theory ServerProps
  imports Servers
begin

text \<open>
  The threads of the program end when they are told to, and connections are dealt out evenly. What the system
  keeps of pipes is \<open>pipes_ok\<close>; the interface of a thread that can be stopped is the locale \<open>stoppable\<close>,
  interpreted for the workers and the servers.
\<close>

subsection \<open>Pipes\<close>

text \<open>The open descriptors, the reading end for each writing end, and the numbers that wait in a pipe.\<close>

record 'o pipe_view =
  opens :: "'o \<Rightarrow> int set"
  peer :: "'o \<Rightarrow> int \<Rightarrow> int option"
  pend :: "'o \<Rightarrow> int \<Rightarrow> int list"

definition same_pipes :: "'o pipe_view \<Rightarrow> 'o \<Rightarrow> 'o \<Rightarrow> bool" where
  "same_pipes P s s' \<longleftrightarrow> peer P s' = peer P s \<and> pend P s' = pend P s"

definition pipes_ok :: "('o, 'b) os_scheme \<Rightarrow> 'o pipe_view \<Rightarrow> bool" where
  "pipes_ok K P \<longleftrightarrow> fds_ok K (opens P) \<and> (\<forall>s.
     after (os_pipe K) (\<lambda>r s'. case r of None \<Rightarrow> same_pipes P s s'
       | Some (a, b) \<Rightarrow> peer P s' = (peer P s)(b \<mapsto> a) \<and> pend P s' = (pend P s)(a := [])) s \<and>
     (\<forall>fd a m. fd \<in> opens P s \<longrightarrow> peer P s fd = Some a \<longrightarrow> after (os_write K fd (int_bytes m))
       (\<lambda>n s'. n = 4 \<and> opens P s' = opens P s \<and> peer P s' = peer P s \<and> pend P s' = (pend P s)(a := pend P s a @ [bytes_int (int_bytes m)])) s) \<and>
     (\<forall>a m ms. a \<in> opens P s \<longrightarrow> pend P s a = m # ms \<longrightarrow> after (os_read K a 4)
       (\<lambda>(n, buf) s'. n = 4 \<and> buf = int_bytes m \<and> opens P s' = opens P s \<and> peer P s' = peer P s \<and> pend P s' = (pend P s)(a := ms)) s) \<and>
     (\<forall>fd. after (os_close K fd)
       (\<lambda>_ s'. peer P s' = (\<lambda>b. if b = fd \<or> peer P s b = Some fd then None else peer P s b) \<and> pend P s' = pend P s) s) \<and>
     (\<forall>family type. after (os_socket K family type) (\<lambda>_. same_pipes P s) s) \<and>
     (\<forall>fd level opt v. after (os_setsockopt K fd level opt v) (\<lambda>_. same_pipes P s) s) \<and>
     (\<forall>fd addr. after (os_bind K fd addr) (\<lambda>_. same_pipes P s) s) \<and>
     (\<forall>fd n. after (os_listen K fd n) (\<lambda>_. same_pipes P s) s) \<and>
     (\<forall>fd. after (os_accept K fd) (\<lambda>_. same_pipes P s) s))"

lemma pipes_okD:
  assumes "pipes_ok K P"
  shows "fds_ok K (opens P)"
    "fd \<in> opens P s \<Longrightarrow> peer P s fd = Some a \<Longrightarrow> after (os_write K fd (int_bytes m))
       (\<lambda>n s'. n = 4 \<and> opens P s' = opens P s \<and> peer P s' = peer P s \<and> pend P s' = (pend P s)(a := pend P s a @ [bytes_int (int_bytes m)])) s"
    "a \<in> opens P s \<Longrightarrow> pend P s a = m # ms \<Longrightarrow> after (os_read K a 4)
       (\<lambda>(n, buf) s'. n = 4 \<and> buf = int_bytes m \<and> opens P s' = opens P s \<and> peer P s' = peer P s \<and> pend P s' = (pend P s)(a := ms)) s"
    "after (os_close K fd) (\<lambda>_ s'. peer P s' = (\<lambda>b. if b = fd \<or> peer P s b = Some fd then None else peer P s b) \<and> pend P s' = pend P s) s"
    "after (os_socket K family type) (\<lambda>_. same_pipes P s) s" "after (os_setsockopt K fd level opt v) (\<lambda>_. same_pipes P s) s"
    "after (os_bind K fd addr) (\<lambda>_. same_pipes P s) s" "after (os_listen K fd n) (\<lambda>_. same_pipes P s) s" "after (os_accept K fd) (\<lambda>_. same_pipes P s) s"
    "after (os_pipe K) (\<lambda>r s'. case r of None \<Rightarrow> same_pipes P s s'
       | Some (a, b) \<Rightarrow> peer P s' = (peer P s)(b \<mapsto> a) \<and> pend P s' = (pend P s)(a := [])) s"
  using assms unfolding pipes_ok_def by blast+

text \<open>
  \<open>pipes_kept P c D s s'\<close>: the pipes with no end in \<open>D\<close> are as before, but for numbers written since, and with \<open>c\<close>
  nothing has been opened. \<open>shut\<close>: with \<open>c\<close>, what is in \<open>D\<close> is closed.
\<close>

definition pipes_kept :: "'o pipe_view \<Rightarrow> bool \<Rightarrow> int set \<Rightarrow> 'o \<Rightarrow> 'o \<Rightarrow> bool" where
  "pipes_kept P c D s s' \<longleftrightarrow> (\<forall>b a. peer P s b = Some a \<longrightarrow> a \<notin> D \<longrightarrow> b \<notin> D \<longrightarrow> a \<in> opens P s \<longrightarrow> b \<in> opens P s \<longrightarrow>
       peer P s' b = Some a \<and> a \<in> opens P s' \<and> b \<in> opens P s' \<and> prefix (pend P s a) (pend P s' a)) \<and>
     (c \<longrightarrow> opens P s' \<subseteq> opens P s)"

definition shut :: "'o pipe_view \<Rightarrow> bool \<Rightarrow> int set \<Rightarrow> 'o \<Rightarrow> 'o \<Rightarrow> bool" where
  "shut P c D s s' \<longleftrightarrow> pipes_kept P c D s s' \<and> (c \<longrightarrow> opens P s' \<inter> D = {})"

lemma pipes_kept_refl [simp]: "pipes_kept P c D s s" "shut P c {} s s"
  by (simp_all add: shut_def pipes_kept_def)

lemma pipes_keptD:
  assumes "pipes_kept P c D s s'" "peer P s b = Some a" "a \<notin> D" "b \<notin> D" "a \<in> opens P s" "b \<in> opens P s"
  shows "peer P s' b = Some a" "a \<in> opens P s'" "b \<in> opens P s'" "prefix (pend P s a) (pend P s' a)"
  using assms unfolding pipes_kept_def by blast+

lemma pipes_kept_trans:
  assumes "pipes_kept P c D s s1" "pipes_kept P c E s1 s2"
  shows "pipes_kept P c (D \<union> E) s s2"
proof -
  have "peer P s2 b = Some a \<and> a \<in> opens P s2 \<and> b \<in> opens P s2 \<and> prefix (pend P s a) (pend P s2 a)"
    if "peer P s b = Some a" "a \<notin> D \<union> E" "b \<notin> D \<union> E" "a \<in> opens P s" "b \<in> opens P s" for a b
    using pipes_keptD[OF assms(1) that(1)] pipes_keptD[OF assms(2), of b a] that prefix_order.trans by auto
  moreover have "opens P s2 \<subseteq> opens P s" if c using assms that by (auto simp: pipes_kept_def)
  ultimately show ?thesis by (simp add: pipes_kept_def)
qed

lemma pipes_kept_mono: "pipes_kept P c D s s' \<Longrightarrow> D \<subseteq> E \<Longrightarrow> pipes_kept P c E s s'"
  unfolding pipes_kept_def by blast

lemma shut_trans:
  assumes "shut P c D s s1" "shut P c E s1 s2"
  shows "shut P c (D \<union> E) s s2"
  using assms pipes_kept_trans[of P c D s s1 E s2] by (auto simp: shut_def pipes_kept_def)

lemma pipes_kept_shut: "pipes_kept P c D s s1 \<Longrightarrow> shut P c D s1 s2 \<Longrightarrow> shut P c D s s2"
  using pipes_kept_trans[of P c D s s1 D s2] by (simp add: shut_def)

text \<open>What the handling of a notification may do: write to pipes and, unless \<open>c\<close>, open descriptors.\<close>

definition work_ok :: "'o pipe_view \<Rightarrow> bool \<Rightarrow> (int \<Rightarrow> ('o, unit) state) \<Rightarrow> bool" where
  "work_ok P c work \<longleftrightarrow> (\<forall>msg s. after (work msg) (\<lambda>_. pipes_kept P c {} s) s)"

lemma work_done:
  "work_ok P c work \<Longrightarrow> after (do { _ \<leftarrow> work msg; State_Monad.return (Some w) }) (\<lambda>r s'. r = Some w \<and> pipes_kept P c {} s s') s"
  unfolding work_ok_def after_bind after_return by simp

lemma quit_number: "bytes_int (int_bytes QUIT) = QUIT"
  by (simp add: QUIT_def int_bytes_def bytes_int_def c_int_def le_nat_bytes)

subsection \<open>A thread that stops when told to\<close>

locale stoppable =
  fixes step :: "'a \<Rightarrow> 'o \<Rightarrow> ('a option \<times> 'o) option"
    and running :: "'a \<Rightarrow> bool"
    and ready :: "'a \<Rightarrow> 'o \<Rightarrow> bool"
    and waiting :: "'a \<Rightarrow> 'o \<Rightarrow> int list"
    and effect :: "'a \<Rightarrow> 'o \<Rightarrow> 'o \<Rightarrow> bool"
    and ended :: "'a \<Rightarrow> 'o \<Rightarrow> 'a \<Rightarrow> 'o \<Rightarrow> bool"
  assumes other: "ready w s \<Longrightarrow> waiting w s = m # ms \<Longrightarrow> bytes_int (int_bytes m) \<noteq> QUIT \<Longrightarrow>
      \<exists>s' more. step w s = Some (Some w, s') \<and> ready w s' \<and> waiting w s' = ms @ more \<and> effect w s s'"
    and quit: "ready w s \<Longrightarrow> waiting w s = m # ms \<Longrightarrow> bytes_int (int_bytes m) = QUIT \<Longrightarrow>
      \<exists>w' s'. step w s = Some (Some w', s') \<and> ended w s w' s'"
    and ready_runs: "ready w s \<Longrightarrow> running w"
    and ended_stops: "ended w s w' s' \<Longrightarrow> \<not> running w'"
    and before_end: "effect w s s1 \<Longrightarrow> ended w s1 w' s' \<Longrightarrow> ended w s w' s'"
begin

lemma run_other: "running w \<Longrightarrow> step w s = Some (Some w, s1) \<Longrightarrow> thread_run step running w s = thread_run step running w s1"
  by (subst thread_run.simps) simp

lemma run_last: "running w \<Longrightarrow> step w s = Some (Some w', s') \<Longrightarrow> \<not> running w' \<Longrightarrow> thread_run step running w s = Some (Some w', s')"
  by (subst thread_run.simps, simp, subst thread_run.simps, simp)

lemma stops:
  assumes "ready w s" "waiting w s = before @ QUIT # later"
  shows "\<exists>w' s'. thread_run step running w s = Some (Some w', s') \<and> ended w s w' s'"
  using assms
proof (induction before arbitrary: s later)
  case Nil
  then obtain w' s' where "step w s = Some (Some w', s')" "ended w s w' s'" using quit[OF Nil(1)] Nil(2) quit_number by fastforce
  then show ?case using run_last[OF ready_runs[OF Nil(1)]] ended_stops by blast
next
  case (Cons m before)
  show ?case
  proof (cases "bytes_int (int_bytes m) = QUIT")
    case True
    then obtain w' s' where "step w s = Some (Some w', s')" "ended w s w' s'" using quit[OF Cons.prems(1)] Cons.prems(2) by fastforce
    then show ?thesis using run_last[OF ready_runs[OF Cons.prems(1)]] ended_stops by blast
  next
    case False
    then obtain s1 more where s1: "step w s = Some (Some w, s1)" "ready w s1" "waiting w s1 = before @ QUIT # later @ more" "effect w s s1"
      using other[OF Cons.prems(1)] Cons.prems(2) by fastforce
    then obtain w' s' where "thread_run step running w s1 = Some (Some w', s')" "ended w s1 w' s'" using Cons.IH by blast
    then show ?thesis using run_other[OF ready_runs[OF Cons.prems(1)] s1(1)] before_end[OF s1(4)] by auto
  qed
qed

end

subsection \<open>Workers\<close>

lemma after_both: "after m P s \<Longrightarrow> after m Q s \<Longrightarrow> after m (\<lambda>a s'. P a s' \<and> Q a s') s"
  by (auto simp: after_def split: prod.splits)

definition ends :: "('w, 'x) loop_thread_scheme \<Rightarrow> int set" where
  "ends w = {lt_recv_fd w, lt_send_fd w}"

definition thread_ready :: "'o pipe_view \<Rightarrow> ('w, 'x) loop_thread_scheme \<Rightarrow> 'o \<Rightarrow> bool" where
  "thread_ready P w s \<longleftrightarrow> lt_thread w = Started \<and> lt_running w \<and> lt_watcher w \<noteq> None \<and> lt_recv_fd w \<noteq> lt_send_fd w \<and>
     ends w \<subseteq> opens P s \<and> peer P s (lt_send_fd w) = Some (lt_recv_fd w)"

lemma closed:
  assumes "pipes_ok K P"
  shows "after (os_close K fd) (\<lambda>_. shut P c {fd} s) s"
  by (rule after_mono[OF after_both[OF pipes_okD(4)[OF assms] fds_okD(3)[OF pipes_okD(1)[OF assms]]]]) (auto simp: shut_def pipes_kept_def)

lemma pipe_closed:
  assumes "pipes_ok K P" "lt_watcher w \<noteq> None"
  shows "after (close_pipe K w) (\<lambda>r s'. r = Some (w\<lparr>lt_watcher := None, lt_running := False\<rparr>) \<and> shut P c (ends w) s s') s"
proof -
  obtain x where "lt_watcher w = Some x" using assms(2) by auto
  then show ?thesis unfolding close_pipe_def
  proof (simp, intro after_mono[OF closed[OF assms(1), where c = c]], goal_cases)
    case (1 r s1)
    show ?case by (simp, rule after_mono[OF closed[OF assms(1), where c = c]]) (use shut_trans[OF 1(3)] in \<open>auto simp: ends_def insert_commute\<close>)
  qed
qed

lemma note_read:
  assumes "pipes_ok K P" "thread_ready P w s" "pend P s (lt_recv_fd w) = m # ms"
  shows "after (read_note K w) (\<lambda>r s'. r = Some (bytes_int (int_bytes m)) \<and> pipes_kept P c (ends w) s s' \<and> thread_ready P w s' \<and> pend P s' (lt_recv_fd w) = ms) s"
  unfolding read_note_def using assms(2,3)
  by (simp, intro after_mono[OF pipes_okD(3)[OF assms(1)]]) (auto simp: thread_ready_def ends_def pipes_kept_def)

lemma ready_kept: "thread_ready P w s \<Longrightarrow> pipes_kept P c D s s' \<Longrightarrow> ends w \<inter> D = {} \<Longrightarrow> thread_ready P w s'"
  using pipes_keptD[of P c D s s' "lt_send_fd w" "lt_recv_fd w"] by (auto simp: thread_ready_def ends_def)

lemma waiting_kept: "thread_ready P w s \<Longrightarrow> pipes_kept P c D s s' \<Longrightarrow> ends w \<inter> D = {} \<Longrightarrow> prefix (pend P s (lt_recv_fd w)) (pend P s' (lt_recv_fd w))"
  using pipes_keptD[of P c D s s' "lt_send_fd w" "lt_recv_fd w"] by (auto simp: thread_ready_def ends_def)

text \<open>The common part of a worker's callback: it reads a number and handles it.\<close>

definition worker_ended :: "'o pipe_view \<Rightarrow> bool \<Rightarrow> ('w, 'x) loop_thread_scheme \<Rightarrow> 'o \<Rightarrow> ('w, 'x) loop_thread_scheme \<Rightarrow> 'o \<Rightarrow> bool" where
  "worker_ended P c w s w' s' \<longleftrightarrow> w' = w\<lparr>lt_watcher := None, lt_running := False\<rparr> \<and> shut P c (ends w) s s'"

definition worker_env :: "('o, 'b) os_scheme \<Rightarrow> 'o pipe_view \<Rightarrow> bool \<Rightarrow> (int \<Rightarrow> ('o, unit) state) \<Rightarrow> 'w worker_thread \<Rightarrow> 'o \<Rightarrow> bool" where
  "worker_env K P c work w s \<longleftrightarrow> pipes_ok K P \<and> work_ok P c work \<and> thread_ready P w s"

lemma callback_other:
  assumes "worker_env K P c work w s" "pend P s (lt_recv_fd w) = m # ms"
    and "\<And>s1. after (handle (bytes_int (int_bytes m))) (\<lambda>r s'. r = Some w \<and> pipes_kept P c {} s1 s') s1"
  shows "\<exists>s' more. run_state (do { note \<leftarrow> read_note K w; case note of None \<Rightarrow> State_Monad.return (Some w) | Some msg \<Rightarrow> handle msg }) s = (Some w, s') \<and>
    worker_env K P c work w s' \<and> pend P s' (lt_recv_fd w) = ms @ more \<and> pipes_kept P c (ends w) s s'"
proof -
  have "after (do { note \<leftarrow> read_note K w; case note of None \<Rightarrow> State_Monad.return (Some w) | Some msg \<Rightarrow> handle msg })
      (\<lambda>r s'. r = Some w \<and> thread_ready P w s' \<and> prefix ms (pend P s' (lt_recv_fd w)) \<and> pipes_kept P c (ends w) s s') s"
  proof (simp, intro after_mono[OF note_read[of K P w s m ms c]], goal_cases)
    case (4 r s1)
    show ?case
    proof (simp add: 4, rule after_mono[OF assms(3)], goal_cases)
      case (1 r' s2)
      then show ?case using 4 ready_kept[of P w s1 c "{}" s2] waiting_kept[of P w s1 c "{}" s2] pipes_kept_trans[of P c "ends w" s s1 "{}" s2] by simp
    qed
  qed (use assms(1,2) in \<open>simp_all add: worker_env_def\<close>)
  then show ?thesis using assms(1) by (auto simp: after_def worker_env_def prefix_def split: prod.splits)
qed

lemma callback_quit:
  assumes "worker_env K P c work w s" "pend P s (lt_recv_fd w) = m # ms"
    and "\<And>s1. after (handle (bytes_int (int_bytes m))) (\<lambda>r s'. r = Some w' \<and> shut P c (ends w) s1 s') s1"
  shows "\<exists>s'. run_state (do { note \<leftarrow> read_note K w; case note of None \<Rightarrow> State_Monad.return (Some w) | Some msg \<Rightarrow> handle msg }) s = (Some w', s') \<and>
    shut P c (ends w) s s'"
proof -
  have "after (do { note \<leftarrow> read_note K w; case note of None \<Rightarrow> State_Monad.return (Some w) | Some msg \<Rightarrow> handle msg })
      (\<lambda>r s'. r = Some w' \<and> shut P c (ends w) s s') s"
  proof (simp, intro after_mono[OF note_read[of K P w s m ms c]], goal_cases)
    case (4 r s1)
    show ?case by (simp add: 4, rule after_mono[OF assms(3)]) (use 4 pipes_kept_shut[of P c "ends w" s s1] in auto)
  qed (use assms(1,2) in \<open>simp_all add: worker_env_def\<close>)
  then show ?thesis by (auto simp: after_def split: prod.splits)
qed

interpretation sw: stoppable "\<lambda>w s. Some (run_state (SignalingWorkerRecvNotify K work w) s)" lt_running "worker_env K P c work"
  "\<lambda>w s. pend P s (lt_recv_fd w)" "\<lambda>w. pipes_kept P c (ends w)" "worker_ended P c" for K P c work
proof (unfold_locales, goal_cases)
  case (1 w s m ms)
  have h: "after (SwProcessNotify K work (bytes_int (int_bytes m)) w) (\<lambda>r s'. r = Some w \<and> pipes_kept P c {} s1 s') s1" for s1
    using 1(1,3) by (simp add: SwProcessNotify_def worker_env_def work_done del: after_bind)
  show ?case unfolding SignalingWorkerRecvNotify_def using callback_other[OF 1(1,2), where handle = "\<lambda>msg. SwProcessNotify K work msg w", OF h] by auto
next
  case (2 w s m ms)
  have "lt_watcher w \<noteq> None" "lt_thread w \<noteq> NoThread" "pipes_ok K P" using 2(1) by (auto simp: worker_env_def thread_ready_def)
  then have h: "after (SwProcessNotify K work (bytes_int (int_bytes m)) w)
      (\<lambda>r s'. r = Some (w\<lparr>lt_watcher := None, lt_running := False\<rparr>) \<and> shut P c (ends w) s1 s') s1" for s1
    using pipe_closed[of K P w c s1] 2(3) by (simp add: SwProcessNotify_def SwInnerStop_def)
  show ?case unfolding SignalingWorkerRecvNotify_def worker_ended_def using callback_quit[OF 2(1,2), where handle = "\<lambda>msg. SwProcessNotify K work msg w", OF h] by auto
qed (auto simp: worker_env_def thread_ready_def worker_ended_def intro: pipes_kept_shut)

interpretation rw: stoppable "\<lambda>w s. Some (run_state (RtcWorkerRecvNotify K work w) s)" lt_running "worker_env K P c work"
  "\<lambda>w s. pend P s (lt_recv_fd w)" "\<lambda>w. pipes_kept P c (ends w)" "worker_ended P c" for K P c work
proof (unfold_locales, goal_cases)
  case (1 w s m ms)
  have h: "after (RwProcessNotify K work (bytes_int (int_bytes m)) w) (\<lambda>r s'. r = Some w \<and> pipes_kept P c {} s1 s') s1" for s1
    using 1(1,3) by (simp add: RwProcessNotify_def worker_env_def work_done del: after_bind)
  show ?case unfolding RtcWorkerRecvNotify_def using callback_other[OF 1(1,2), where handle = "\<lambda>msg. RwProcessNotify K work msg w", OF h] by auto
next
  case (2 w s m ms)
  have "lt_watcher w \<noteq> None" "lt_thread w \<noteq> NoThread" "pipes_ok K P" using 2(1) by (auto simp: worker_env_def thread_ready_def)
  then have h: "after (RwProcessNotify K work (bytes_int (int_bytes m)) w)
      (\<lambda>r s'. r = Some (w\<lparr>lt_watcher := None, lt_running := False\<rparr>) \<and> shut P c (ends w) s1 s') s1" for s1
    using pipe_closed[of K P w c s1] 2(3) by (simp add: RwProcessNotify_def RwInnerStop_def)
  show ?case unfolding RtcWorkerRecvNotify_def worker_ended_def using callback_quit[OF 2(1,2), where handle = "\<lambda>msg. RwProcessNotify K work msg w", OF h] by auto
qed (auto simp: worker_env_def thread_ready_def worker_ended_def intro: pipes_kept_shut)

text \<open>Telling a thread to stop, and waiting for it.\<close>

definition halted :: "'w worker_thread \<Rightarrow> 'w worker_thread" where
  "halted w = w\<lparr>lt_watcher := None, lt_running := False, lt_thread := Joined\<rparr>"

lemma told:
  assumes "pipes_ok K P" "thread_ready P w s"
  shows "after (send_note K w msg) (\<lambda>_ s'. pipes_kept P c (ends w) s s' \<and> thread_ready P w s' \<and> pend P s' (lt_recv_fd w) = pend P s (lt_recv_fd w) @ [bytes_int (int_bytes msg)]) s"
  unfolding send_note_def using assms(2)
  by (simp, intro after_mono[OF pipes_okD(2)[OF assms(1), where a = "lt_recv_fd w"]]) (auto simp: thread_ready_def ends_def pipes_kept_def)

lemma joined:
  assumes "worker_env K P c work w s"
    and run: "\<And>s1. worker_env K P c work w s1 \<Longrightarrow> pend P s1 (lt_recv_fd w) = pend P s (lt_recv_fd w) @ QUIT # [] \<Longrightarrow>
      \<exists>w' s'. thread_run (\<lambda>w s. Some (run_state (recv w) s)) lt_running w s1 = Some (Some w', s') \<and> worker_ended P c w s1 w' s'"
  shows "\<exists>s'. join_thread recv w (snd (run_state (send_note K w QUIT) s)) = Some (Some (halted w), s') \<and> shut P c (ends w) s s'"
proof -
  let ?s1 = "snd (run_state (send_note K w QUIT) s)"
  have env: "pipes_ok K P" "work_ok P c work" "thread_ready P w s" using assms(1) by (simp_all add: worker_env_def)
  have t: "pipes_kept P c (ends w) s ?s1" "thread_ready P w ?s1" "pend P ?s1 (lt_recv_fd w) = pend P s (lt_recv_fd w) @ [QUIT]"
    using told[OF env(1,3), of QUIT c] by (auto simp: after_def quit_number split: prod.splits)
  then obtain w' s' where r: "thread_run (\<lambda>w s. Some (run_state (recv w) s)) lt_running w ?s1 = Some (Some w', s')" "worker_ended P c w ?s1 w' s'"
    using run[of ?s1] env by (auto simp: worker_env_def)
  have "lt_thread w = Started" using env(3) by (simp add: thread_ready_def)
  then show ?thesis using r pipes_kept_shut[OF t(1)] by (auto simp: join_thread_def worker_ended_def halted_def)
qed

lemma sw_joined:
  "worker_env K P c work w s \<Longrightarrow>
    \<exists>s'. join_thread (SignalingWorkerRecvNotify K work) w (snd (run_state (SwStop K w) s)) = Some (Some (halted w), s') \<and> shut P c (ends w) s s'"
  unfolding SwStop_def SwNotify_def by (rule joined) (auto intro: sw.stops)

lemma rw_joined:
  "worker_env K P c work w s \<Longrightarrow>
    \<exists>s'. join_thread (RtcWorkerRecvNotify K work) w (snd (run_state (RwStop K w) s)) = Some (Some (halted w), s') \<and> shut P c (ends w) s s'"
  unfolding RwStop_def RwNotify_def by (rule joined) (auto intro: rw.stops)

definition all_ends :: "('w, 'x) loop_thread_scheme list \<Rightarrow> int set" where
  "all_ends ws = (\<Union>w\<in>set ws. ends w)"

text \<open>The workers of a server: each is ready, and no two share a descriptor.\<close>

definition workers_env :: "('o, 'b) os_scheme \<Rightarrow> 'o pipe_view \<Rightarrow> bool \<Rightarrow> (int \<Rightarrow> ('o, unit) state) \<Rightarrow> 'w worker_thread list \<Rightarrow> 'o \<Rightarrow> bool" where
  "workers_env K P c work ws s \<longleftrightarrow> (\<forall>w\<in>set ws. worker_env K P c work w s) \<and> sorted_wrt (\<lambda>v w. ends v \<inter> ends w = {}) ws"

lemma worker_env_kept: "worker_env K P c work w s \<Longrightarrow> pipes_kept P c D s s' \<Longrightarrow> ends w \<inter> D = {} \<Longrightarrow> worker_env K P c work w s'"
  using ready_kept by (auto simp: worker_env_def)

lemma workers_env_kept: "workers_env K P c work ws s \<Longrightarrow> pipes_kept P c D s s' \<Longrightarrow> all_ends ws \<inter> D = {} \<Longrightarrow> workers_env K P c work ws s'"
  using worker_env_kept[of K P c work _ s D s'] by (force simp: workers_env_def all_ends_def)

lemma workers_joined:
  assumes "workers_env K P c work ws s"
    and "\<And>w s. worker_env K P c work w s \<Longrightarrow> \<exists>s'. join_thread recv w (snd (run_state (stop w) s)) = Some (Some (halted w), s') \<and> shut P c (ends w) s s'"
  shows "\<exists>s'. stop_workers stop recv ws s = Some (Some (map halted ws), s') \<and> shut P c (all_ends ws) s s'"
  using assms(1)
proof (induction ws arbitrary: s)
  case (Cons w ws)
  obtain s1 where s1: "join_thread recv w (snd (run_state (stop w) s)) = Some (Some (halted w), s1)" "shut P c (ends w) s s1"
    using assms(2)[of w s] Cons.prems by (fastforce simp: workers_env_def)
  have "workers_env K P c work ws s1"
    using Cons.prems s1(2) worker_env_kept[of K P c work _ s "ends w" s1] by (force simp: workers_env_def shut_def)
  then obtain s2 where s2: "stop_workers stop recv ws s1 = Some (Some (map halted ws), s2)" "shut P c (all_ends ws) s1 s2" using Cons.IH by blast
  then show ?case using s1 shut_trans[OF s1(2) s2(2)] by (simp add: all_ends_def)
qed (simp add: all_ends_def)

subsection \<open>Servers\<close>

definition server_env :: "('o, 'b) os_scheme \<Rightarrow> 'o pipe_view \<Rightarrow> bool \<Rightarrow> (int \<Rightarrow> ('o, unit) state) \<Rightarrow> 'w worker_thread list \<Rightarrow> ('w, 'x) loop_thread_scheme \<Rightarrow> 'o \<Rightarrow> bool" where
  "server_env K P c work ws srv s \<longleftrightarrow> pipes_ok K P \<and> thread_ready P srv s \<and> workers_env K P c work ws s \<and> ends srv \<inter> all_ends ws = {}"

lemma server_read:
  assumes "server_env K P c work ws srv s" "pend P s (lt_recv_fd srv) = m # ms"
  shows "\<exists>s1. run_state (read_note K srv) s = (Some (bytes_int (int_bytes m)), s1) \<and> server_env K P c work ws srv s1 \<and>
    pend P s1 (lt_recv_fd srv) = ms \<and> pipes_kept P c (ends srv) s s1"
proof -
  obtain r s1 where r: "run_state (read_note K srv) s = (r, s1)" by (cases "run_state (read_note K srv) s")
  have e: "pipes_ok K P" "thread_ready P srv s" "workers_env K P c work ws s" "all_ends ws \<inter> ends srv = {}"
    using assms(1) by (auto simp: server_env_def)
  have "r = Some (bytes_int (int_bytes m)) \<and> pipes_kept P c (ends srv) s s1 \<and> thread_ready P srv s1 \<and> pend P s1 (lt_recv_fd srv) = ms"
    using afterD[OF note_read[OF e(1,2) assms(2)] r] by simp
  then show ?thesis using workers_env_kept[OF e(3) _ e(4), of s1] e r by (auto simp: server_env_def)
qed

lemma server_pipe_closed:
  assumes "server_env K P c work ws srv s"
  shows "\<exists>s1. run_state (close_pipe K srv) s = (Some (srv\<lparr>lt_watcher := None, lt_running := False\<rparr>), s1) \<and> workers_env K P c work ws s1 \<and>
    shut P c (ends srv) s s1"
proof -
  obtain r s1 where r: "run_state (close_pipe K srv) s = (r, s1)" by (cases "run_state (close_pipe K srv) s")
  have e: "pipes_ok K P" "lt_watcher srv \<noteq> None" "workers_env K P c work ws s" "all_ends ws \<inter> ends srv = {}"
    using assms by (auto simp: server_env_def thread_ready_def)
  have "r = Some (srv\<lparr>lt_watcher := None, lt_running := False\<rparr>) \<and> shut P c (ends srv) s s1"
    using afterD[OF pipe_closed[OF e(1,2)] r] .
  then show ?thesis using workers_env_kept[OF e(3) _ e(4), of s1] r by (auto simp: shut_def)
qed

text \<open>The signaling server.\<close>

definition signaling_env :: "('o, 'b) os_scheme \<Rightarrow> 'o pipe_view \<Rightarrow> bool \<Rightarrow> (int \<Rightarrow> ('o, unit) state) \<Rightarrow> 'w signaling_server \<Rightarrow> 'o \<Rightarrow> bool" where
  "signaling_env K P c work srv s \<longleftrightarrow> server_env K P c work (ss_workers srv) srv s \<and> ss_io_watcher srv \<noteq> None \<and> ss_listen_fd srv \<notin> all_ends (ss_workers srv)"

definition signaling_fds :: "'w signaling_server \<Rightarrow> int set" where
  "signaling_fds srv = ends srv \<union> {ss_listen_fd srv} \<union> all_ends (ss_workers srv)"

definition signaling_stopped :: "'w signaling_server \<Rightarrow> 'w signaling_server" where
  "signaling_stopped srv = srv\<lparr>lt_watcher := None, lt_running := False, ss_io_watcher := None, ss_workers := map halted (ss_workers srv)\<rparr>"

definition signaling_ended :: "'o pipe_view \<Rightarrow> bool \<Rightarrow> 'w signaling_server \<Rightarrow> 'o \<Rightarrow> 'w signaling_server \<Rightarrow> 'o \<Rightarrow> bool" where
  "signaling_ended P c srv s srv' s' \<longleftrightarrow> srv' = signaling_stopped srv \<and> shut P c (signaling_fds srv) s s'"

lemma signaling_inner_stop:
  assumes "signaling_env K P c work srv s"
  shows "\<exists>s'. SsInnerStop K work srv s = Some (Some (signaling_stopped srv), s') \<and> shut P c (signaling_fds srv) s s'"
proof -
  have e: "server_env K P c work (ss_workers srv) srv s" "ss_io_watcher srv \<noteq> None" "lt_thread srv \<noteq> NoThread" "pipes_ok K P"
    "all_ends (ss_workers srv) \<inter> {ss_listen_fd srv} = {}"
    using assms by (auto simp: signaling_env_def server_env_def thread_ready_def)
  obtain s1 where s1: "run_state (close_pipe K srv) s = (Some (srv\<lparr>lt_watcher := None, lt_running := False\<rparr>), s1)"
    "workers_env K P c work (ss_workers srv) s1" "shut P c (ends srv) s s1"
    using server_pipe_closed[OF e(1)] by blast
  obtain x s2 where s2: "run_state (os_close K (ss_listen_fd srv)) s1 = (x, s2)" by (cases "run_state (os_close K (ss_listen_fd srv)) s1")
  have c2: "shut P c {ss_listen_fd srv} s1 s2" using afterD[OF closed[OF e(4)] s2] .
  then have "workers_env K P c work (ss_workers srv) s2" using workers_env_kept[OF s1(2) _ e(5)] by (simp add: shut_def)
  then obtain s3 where s3: "stop_workers (SwStop K) (SignalingWorkerRecvNotify K work) (ss_workers srv) s2 = Some (Some (map halted (ss_workers srv)), s3)"
    "shut P c (all_ends (ss_workers srv)) s2 s3"
    using workers_joined[of K P c work _ s2, OF _ sw_joined] by blast
  then show ?thesis using s1(1) s2 e(2,3) shut_trans[OF shut_trans[OF s1(3) c2] s3(2)]
    by (simp add: SsInnerStop_def signaling_stopped_def signaling_fds_def)
qed

interpretation ss: stoppable "SignalingServerRecvNotify K work" lt_running "signaling_env K P c work"
  "\<lambda>srv s. pend P s (lt_recv_fd srv)" "\<lambda>srv. pipes_kept P c (ends srv)" "signaling_ended P c" for K P c work
proof (unfold_locales, goal_cases)
  case (1 srv s m ms)
  then show ?case using server_read[of K P c work "ss_workers srv" srv s m ms]
    by (auto simp: SignalingServerRecvNotify_def SsProcessNotify_def signaling_env_def)
next
  case (2 srv s m ms)
  then obtain s1 where s1: "run_state (read_note K srv) s = (Some QUIT, s1)" "signaling_env K P c work srv s1" "pipes_kept P c (ends srv) s s1"
    using server_read[of K P c work "ss_workers srv" srv s m ms] by (auto simp: signaling_env_def)
  obtain s2 where s2: "SsInnerStop K work srv s1 = Some (Some (signaling_stopped srv), s2)" "shut P c (signaling_fds srv) s1 s2"
    using signaling_inner_stop[OF s1(2)] by blast
  have "pipes_kept P c (signaling_fds srv) s s1" by (rule pipes_kept_mono[OF s1(3)]) (auto simp: signaling_fds_def)
  then show ?case using s1(1) s2 pipes_kept_shut by (fastforce simp: SignalingServerRecvNotify_def SsProcessNotify_def signaling_ended_def)
next
  case (5 srv s s1 srv' s')
  have "pipes_kept P c (signaling_fds srv) s s1" by (rule pipes_kept_mono[OF 5(1)]) (auto simp: signaling_fds_def)
  then show ?case using 5(2) pipes_kept_shut by (fastforce simp: signaling_ended_def)
qed (auto simp: signaling_env_def server_env_def thread_ready_def signaling_ended_def signaling_stopped_def)

text \<open>The RTC server; its routing is like the work of a worker.\<close>

definition rtc_env ::
    "('o, 'b) os_scheme \<Rightarrow> 'o pipe_view \<Rightarrow> bool \<Rightarrow> (int \<Rightarrow> ('o, unit) state) \<Rightarrow> ('o, unit) state \<Rightarrow> ('w, 'c) rtc_server_thread \<Rightarrow> 'o \<Rightarrow> bool" where
  "rtc_env K P c work route srv s \<longleftrightarrow> server_env K P c work (rs_workers srv) srv s \<and> work_ok P c (\<lambda>_. route)"

definition rtc_fds :: "('w, 'c) rtc_server_thread \<Rightarrow> int set" where
  "rtc_fds srv = ends srv \<union> all_ends (rs_workers srv)"

definition rtc_stopped :: "('w, 'c) rtc_server_thread \<Rightarrow> ('w, 'c) rtc_server_thread" where
  "rtc_stopped srv = srv\<lparr>lt_watcher := None, lt_running := False, rs_workers := map halted (rs_workers srv)\<rparr>"

definition rtc_ended :: "'o pipe_view \<Rightarrow> bool \<Rightarrow> ('w, 'c) rtc_server_thread \<Rightarrow> 'o \<Rightarrow> ('w, 'c) rtc_server_thread \<Rightarrow> 'o \<Rightarrow> bool" where
  "rtc_ended P c srv s srv' s' \<longleftrightarrow> srv' = rtc_stopped srv \<and> shut P c (rtc_fds srv) s s'"

lemma rtc_inner_stop:
  assumes "rtc_env K P c work route srv s"
  shows "\<exists>s'. RsInnerStop K work srv s = Some (Some (rtc_stopped srv), s') \<and> shut P c (rtc_fds srv) s s'"
proof -
  obtain s1 where s1: "run_state (close_pipe K srv) s = (Some (srv\<lparr>lt_watcher := None, lt_running := False\<rparr>), s1)"
    "workers_env K P c work (rs_workers srv) s1" "shut P c (ends srv) s s1"
    using server_pipe_closed[of K P c work "rs_workers srv" srv s] assms unfolding rtc_env_def by blast
  obtain s2 where s2: "stop_workers (RwStop K) (RtcWorkerRecvNotify K work) (rs_workers srv) s1 = Some (Some (map halted (rs_workers srv)), s2)"
    "shut P c (all_ends (rs_workers srv)) s1 s2"
    using workers_joined[OF s1(2) rw_joined] by blast
  then show ?thesis using s1(1) shut_trans[OF s1(3) s2(2)] by (simp add: RsInnerStop_def rtc_stopped_def rtc_fds_def)
qed

interpretation rs: stoppable "RtcServerRecvNotify K work route" lt_running "rtc_env K P c work route"
  "\<lambda>srv s. pend P s (lt_recv_fd srv)" "\<lambda>srv. pipes_kept P c (ends srv)" "rtc_ended P c" for K P c work route
proof (unfold_locales, goal_cases)
  case (1 srv s m ms)
  then obtain s1 where s1: "run_state (read_note K srv) s = (Some (bytes_int (int_bytes m)), s1)" "server_env K P c work (rs_workers srv) srv s1"
    "pend P s1 (lt_recv_fd srv) = ms" "pipes_kept P c (ends srv) s s1"
    using server_read[of K P c work "rs_workers srv" srv s m ms] by (auto simp: rtc_env_def)
  let ?s2 = "if bytes_int (int_bytes m) = RTC_MSG_NOTE then snd (run_state route s1) else s1"
  have "after route (\<lambda>_. pipes_kept P c {} s1) s1" using 1(1) unfolding rtc_env_def work_ok_def by blast
  then have k: "pipes_kept P c {} s1 ?s2" by (simp add: after_def split: prod.splits)
  have t: "thread_ready P srv s1" "workers_env K P c work (rs_workers srv) s1" using s1(2) by (simp_all add: server_env_def)
  have "server_env K P c work (rs_workers srv) srv ?s2"
    using s1(2) ready_kept[OF t(1) k] workers_env_kept[OF t(2) k] by (simp add: server_env_def)
  moreover have "prefix ms (pend P ?s2 (lt_recv_fd srv))" using waiting_kept[OF t(1) k] s1(3) by simp
  moreover have "pipes_kept P c (ends srv) s ?s2" using pipes_kept_trans[OF s1(4) k] by simp
  moreover have "RtcServerRecvNotify K work route srv s = Some (Some srv, ?s2)"
    using s1(1) 1(3) by (simp add: RtcServerRecvNotify_def RsProcessNotify_def)
  ultimately show ?case using 1(1) unfolding rtc_env_def prefix_def by blast
next
  case (2 srv s m ms)
  then obtain s1 where s1: "run_state (read_note K srv) s = (Some QUIT, s1)" "rtc_env K P c work route srv s1" "pipes_kept P c (ends srv) s s1"
    using server_read[of K P c work "rs_workers srv" srv s m ms] by (auto simp: rtc_env_def)
  obtain s2 where s2: "RsInnerStop K work srv s1 = Some (Some (rtc_stopped srv), s2)" "shut P c (rtc_fds srv) s1 s2"
    using rtc_inner_stop[OF s1(2)] by blast
  have "pipes_kept P c (rtc_fds srv) s s1" by (rule pipes_kept_mono[OF s1(3)]) (auto simp: rtc_fds_def)
  then show ?case using s1(1) s2 pipes_kept_shut by (fastforce simp: RtcServerRecvNotify_def RsProcessNotify_def rtc_ended_def)
next
  case (5 srv s s1 srv' s')
  have "pipes_kept P c (rtc_fds srv) s s1" by (rule pipes_kept_mono[OF 5(1)]) (auto simp: rtc_fds_def)
  then show ?case using 5(2) pipes_kept_shut by (fastforce simp: rtc_ended_def)
qed (auto simp: rtc_env_def server_env_def thread_ready_def rtc_ended_def rtc_stopped_def)

end
