(* ===== verification/ServerRuns.thy ===== *)
theory ServerRuns
  imports ServerProps
begin

text \<open>
  The servers from their start to their end: after \<open>Init\<close> and \<open>Start\<close> every thread has a pipe of its own and can
  be stopped; connections are dealt out in turn; a signal ends all threads.
\<close>

subsection \<open>Dealing out connections\<close>

fun dispatch_all :: "('o, 'b) os_scheme \<Rightarrow> int list \<Rightarrow> 'w signaling_server \<Rightarrow> ('o, 'w signaling_server option) state" where
  "dispatch_all K [] srv = State_Monad.return (Some srv)"
| "dispatch_all K (fd # fds) srv = do {
     r \<leftarrow> DispatchNewConn K fd srv;
     case r of None \<Rightarrow> State_Monad.return None | Some srv1 \<Rightarrow> dispatch_all K fds srv1
   }"

definition queues :: "'w signaling_server \<Rightarrow> int list list" where
  "queues srv = map wt_q_conn (ss_workers srv)"

lemma dispatched:
  assumes "ss_next_worker_index srv < length (ss_workers srv)"
  shows "after (DispatchNewConn K fd srv) (\<lambda>r _. \<exists>srv'. r = Some srv' \<and>
    queues srv' = (queues srv)[ss_next_worker_index srv := queues srv ! ss_next_worker_index srv @ [fd]] \<and>
    ss_next_worker_index srv' = (ss_next_worker_index srv + 1) mod length (ss_workers srv)) s"
proof -
  let ?n = "length (ss_workers srv)" and ?i = "ss_next_worker_index srv"
  have "(if ?i + 1 \<ge> ?n then 0 else ?i + 1) = (?i + 1) mod ?n" using assms by (cases "?i + 1 = ?n") auto
  then show ?thesis using assms
    by (auto simp: DispatchNewConn_def SwNotifyNewConn_def Let_def queues_def map_update intro: after_any)
qed

lemma dealt:
  "ss_next_worker_index srv < length (ss_workers srv) \<Longrightarrow>
    after (dispatch_all K fds srv) (\<lambda>r _. \<exists>srv'. r = Some srv' \<and> length (ss_workers srv') = length (ss_workers srv) \<and>
      (\<forall>i<length (ss_workers srv). queues srv' ! i = queues srv ! i @ nths fds {j. (ss_next_worker_index srv + j) mod length (ss_workers srv) = i})) s"
proof (induction fds arbitrary: srv s)
  case (Cons fd fds)
  let ?n = "length (ss_workers srv)" and ?k = "ss_next_worker_index srv"
  show ?case
  proof (simp, rule after_mono[OF dispatched[OF Cons.prems]], goal_cases)
    case (1 r s1)
    then obtain srv1 where r: "r = Some srv1" and q: "queues srv1 = (queues srv)[?k := queues srv ! ?k @ [fd]]"
      and k: "ss_next_worker_index srv1 = (?k + 1) mod ?n" by blast
    have n: "length (ss_workers srv1) = ?n" using arg_cong[OF q, of length] by (simp add: queues_def)
    then have "ss_next_worker_index srv1 < length (ss_workers srv1)" using k Cons.prems mod_less_divisor[of ?n "?k + 1"] by linarith
    note IH = Cons.IH[OF this, of s1, unfolded n k]
    have set: "{j. (Suc ?k mod ?n + j) mod ?n = i} = {j. Suc (?k + j) mod ?n = i}" for i by (simp add: mod_add_left_eq)
    have "wt_q_conn (ss_workers srv1 ! i) = (if i = ?k then wt_q_conn (ss_workers srv ! i) @ [fd] else wt_q_conn (ss_workers srv ! i))" if "i < ?n" for i
      using arg_cong[OF q, of "\<lambda>xs. xs ! i"] that n Cons.prems by (simp add: queues_def nth_list_update)
    then show ?case
      by (simp add: r, intro after_mono[OF IH])
        (use Cons.prems n in \<open>auto simp: set nths_Cons queues_def\<close>)
  qed
qed simp

text \<open>
  C32: Connections are dealt out in turn: with \<open>n\<close> workers the worker \<open>i\<close> is given the connections \<open>i\<close>, \<open>i + n\<close>,
  \<open>i + 2 n\<close> and so on, in their order, and no other.
\<close>

theorem connections_dealt_in_turn:
  assumes "ss_workers srv \<noteq> []" "ss_next_worker_index srv = 0" "concat (queues srv) = []"
    and "run_state (dispatch_all K fds srv) s = (r, s')"
  shows "\<exists>srv'. r = Some srv' \<and> queues srv' = map (\<lambda>i. nths fds {j. j mod length (ss_workers srv) = i}) [0..<length (ss_workers srv)]"
proof -
  let ?n = "length (ss_workers srv)"
  have i: "ss_next_worker_index srv < ?n" using assms(1,2) by simp
  obtain srv' where r: "r = Some srv'" "length (ss_workers srv') = ?n"
    and q: "\<And>i. i < ?n \<Longrightarrow> queues srv' ! i = queues srv ! i @ nths fds {j. j mod ?n = i}"
    using afterD[OF dealt[OF i] assms(4)] assms(2) by auto
  have "queues srv ! i = []" if "i < ?n" for i using assms(3) that by (auto simp: queues_def)
  then have "queues srv' = map (\<lambda>i. nths fds {j. j mod ?n = i}) [0..<?n]"
    using q r(2) by (intro nth_equalityI) (auto simp: queues_def)
  then show ?thesis using r(1) by blast
qed

subsection \<open>Starting\<close>

text \<open>\<open>grown\<close>: the descriptors \<open>D\<close> are new, and the pipes that were there are as before.\<close>

definition grown :: "'o pipe_view \<Rightarrow> int set \<Rightarrow> 'o \<Rightarrow> 'o \<Rightarrow> bool" where
  "grown P D s s' \<longleftrightarrow> D \<inter> opens P s = {} \<and> opens P s' = opens P s \<union> D \<and> pipes_kept P False {} s s'"

lemma grown_trans: "grown P D s s1 \<Longrightarrow> grown P E s1 s2 \<Longrightarrow> grown P (D \<union> E) s s2 \<and> D \<inter> E = {}"
  using pipes_kept_trans[of P False "{}" s s1 "{}" s2] by (auto simp: grown_def)

lemma same_pipes_trans: "same_pipes P s s1 \<Longrightarrow> same_pipes P s1 s2 \<Longrightarrow> same_pipes P s s2"
  by (simp add: same_pipes_def)

lemma same_grown: "same_pipes P s s' \<Longrightarrow> opens P s' = opens P s \<Longrightarrow> grown P {} s s'"
  by (simp add: grown_def pipes_kept_def same_pipes_def)

text \<open>A thread with a new pipe that is empty.\<close>

definition with_pipe :: "'o pipe_view \<Rightarrow> ('w, 'x) loop_thread_scheme \<Rightarrow> 'o \<Rightarrow> bool" where
  "with_pipe P w s \<longleftrightarrow> lt_watcher w \<noteq> None \<and> lt_recv_fd w \<noteq> lt_send_fd w \<and> ends w \<subseteq> opens P s \<and> peer P s (lt_send_fd w) = Some (lt_recv_fd w)"

lemma with_pipe_kept: "with_pipe P w s \<Longrightarrow> pipes_kept P False {} s s' \<Longrightarrow> with_pipe P w s'"
  using pipes_keptD[of P False "{}" s s' "lt_send_fd w" "lt_recv_fd w"] by (auto simp: with_pipe_def ends_def)

lemma pipe_opened:
  assumes "pipes_ok K P"
  shows "after (open_pipe K V w) (\<lambda>(ret, w') s'. ret = 0 \<longrightarrow> with_pipe P w' s' \<and> grown P (ends w') s s' \<and>
    (\<exists>r t x. w' = w\<lparr>lt_recv_fd := r, lt_send_fd := t, lt_watcher := Some x\<rparr>)) s"
  unfolding open_pipe_def
  by (simp, rule after_mono[OF after_both[OF fds_okD(7)[OF pipes_okD(1)[OF assms]] pipes_okD(10)[OF assms]]])
    (auto simp: with_pipe_def grown_def ends_def pipes_kept_def split: option.splits)

text \<open>Workers that have just been made.\<close>

definition made :: "'o pipe_view \<Rightarrow> 'w worker_thread list \<Rightarrow> 'o \<Rightarrow> 'o \<Rightarrow> bool" where
  "made P ws s s' \<longleftrightarrow> (\<forall>w\<in>set ws. thread_ready P w s' \<and> wt_q_conn w = []) \<and> sorted_wrt (\<lambda>v w. ends v \<inter> ends w = {}) ws \<and> grown P (all_ends ws) s s'"

lemma made_more:
  assumes "made P [w] s s1" "made P ws s1 s2"
  shows "made P (w # ws) s s2"
proof -
  have g: "grown P (all_ends (w # ws)) s s2" "ends w \<inter> all_ends ws = {}"
    using grown_trans[of P "ends w" s s1 "all_ends ws" s2] assms by (auto simp: made_def all_ends_def)
  have "thread_ready P w s2" using assms ready_kept[of P w s1 False "{}" s2] by (simp add: made_def grown_def)
  then show ?thesis using assms g by (auto simp: made_def all_ends_def)
qed

lemma worker_made:
  assumes "pipes_ok K P"
  shows "after (open_pipe K V new_worker) (\<lambda>(ret, w) s'. ret = 0 \<longrightarrow> (\<exists>w1. start_thread w = (True, w1) \<and> made P [w1] s s')) s"
  by (rule after_mono[OF pipe_opened[OF assms]])
    (auto simp: start_thread_def new_worker_def made_def with_pipe_def thread_ready_def all_ends_def ends_def)

lemma workers_made:
  assumes "\<And>srv s. after (create srv) (\<lambda>(ret, srv') s'. ret = 0 \<longrightarrow> (\<exists>w. srv' = add w srv \<and> made P [w] s s')) s"
  shows "after (create_workers create n srv) (\<lambda>(ret, srv') s'. ret = 0 \<longrightarrow> (\<exists>ws. length ws = n \<and> srv' = fold add ws srv \<and> made P ws s s')) s"
proof (induction n arbitrary: srv s)
  case 0
  have "made P [] s s" by (simp add: made_def all_ends_def grown_def)
  then show ?case by simp
next
  case (Suc n)
  show ?case
  proof (simp, rule after_mono[OF assms], goal_cases)
    case (1 x s1)
    obtain ret srv1 where x: "x = (ret, srv1)" by (cases x)
    show ?case
    proof (cases "ret = 0")
      case True
      then obtain w where w: "srv1 = add w srv" "made P [w] s s1" using 1 by (auto simp: x)
      show ?thesis
      proof (simp add: x True, rule after_mono[OF Suc.IH], goal_cases)
        case (1 y s2)
        have "\<exists>ws'. length ws' = Suc n \<and> fold add ws srv1 = fold add ws' srv \<and> made P ws' s s2" if "length ws = n" "made P ws s1 s2" for ws
          using w made_more[OF w(2) that(2)] that(1) by (intro exI[of _ "w # ws"]) simp
        then show ?case using 1 by (auto split: prod.splits)
      qed
    qed (simp add: x)
  qed
qed

text \<open>Making the server's socket touches no pipe when it works.\<close>

lemma server_socket:
  assumes "pipes_ok K P"
  shows "after (CreateTcpServer K addr port) (\<lambda>fd s'. fd \<noteq> -1 \<longrightarrow> grown P {fd} s s') s"
proof -
  let ?R = "\<lambda>fd s'. fd \<noteq> -1 \<longrightarrow> same_pipes P s s'"
  have fail: "after (close_fail K sock) ?R t" for sock t by (simp add: close_fail_def after_any)
  have l: "after (do { ret \<leftarrow> os_listen K sock 4095; if ret = -1 then close_fail K sock else State_Monad.return sock }) ?R t"
    if "same_pipes P s t" for sock t
    unfolding after_bind by (rule after_mono[OF pipes_okD(8)[OF assms]]) (use same_pipes_trans[OF that] in \<open>auto simp: fail\<close>)
  have b: "after (do { ret \<leftarrow> os_bind K sock a; if ret = -1 then close_fail K sock
      else do { ret \<leftarrow> os_listen K sock 4095; if ret = -1 then close_fail K sock else State_Monad.return sock } }) ?R t"
    if "same_pipes P s t" for sock a t
    unfolding after_bind by (rule after_mono[OF pipes_okD(7)[OF assms]]) (use same_pipes_trans[OF that] in \<open>auto simp: fail l[simplified]\<close>)
  have o: "after (do { ret \<leftarrow> os_setsockopt K sock SOL_SOCKET SO_REUSEADDR 1;
       if ret = -1 then close_fail K sock
       else case (case addr of None \<Rightarrow> Some (IPv4 0) | Some a \<Rightarrow> inet_aton K a) of
           None \<Rightarrow> close_fail K sock
         | Some ip \<Rightarrow> do {
             ret \<leftarrow> os_bind K sock \<lparr>sa_ip = ip, sa_port = htons port\<rparr>;
             if ret = -1 then close_fail K sock
             else do { ret \<leftarrow> os_listen K sock 4095; if ret = -1 then close_fail K sock else State_Monad.return sock } } }) ?R t"
    if "same_pipes P s t" for sock t
    by (simp, rule after_mono[OF pipes_okD(6)[OF assms]]) (use same_pipes_trans[OF that] in \<open>auto simp: fail b[simplified] split: option.splits\<close>)
  have "after (CreateTcpServer K addr port) ?R s"
    unfolding CreateTcpServer_def after_bind by (rule after_mono[OF pipes_okD(5)[OF assms]]) (use o in simp)
  then show ?thesis
    by (rule after_mono[OF after_both[OF _ server_descriptors[OF pipes_okD(1)[OF assms]]]])
      (auto simp: gives_fd_def grown_def same_pipes_def pipes_kept_def split: if_splits)
qed

subsection \<open>Servers that are up\<close>

lemma add_workers:
  "fold (\<lambda>w srv. srv\<lparr>ss_workers := ss_workers srv @ [w]\<rparr>) ws srv = srv\<lparr>ss_workers := ss_workers srv @ ws\<rparr>"
  "fold (\<lambda>w srv. srv\<lparr>rs_workers := rs_workers srv @ [w]\<rparr>) ws rtc = rtc\<lparr>rs_workers := rs_workers rtc @ ws\<rparr>"
  by (induction ws arbitrary: srv rtc) simp_all

lemma made_workers:
  fixes V :: "('w, 't, 'e) ev_lib_scheme" and srv :: "'w signaling_server" and rtc :: "('w, 'f) rtc_server_thread"
  assumes "pipes_ok K P"
  shows "after (create_workers (SsCreateWorker K V) n srv)
      (\<lambda>(ret, srv') s'. ret = 0 \<longrightarrow> (\<exists>ws. length ws = n \<and> srv' = srv\<lparr>ss_workers := ss_workers srv @ ws\<rparr> \<and> made P ws s s')) s"
    "after (create_workers (RsCreateWorker K V) n rtc)
      (\<lambda>(ret, srv') s'. ret = 0 \<longrightarrow> (\<exists>ws. length ws = n \<and> srv' = rtc\<lparr>rs_workers := rs_workers rtc @ ws\<rparr> \<and> made P ws s s')) s"
proof -
  have "after (SsCreateWorker K V srv) (\<lambda>(ret, srv') s'. ret = 0 \<longrightarrow> (\<exists>w. srv' = srv\<lparr>ss_workers := ss_workers srv @ [w]\<rparr> \<and> made P [w] s s')) s" for srv s
    by (simp add: SsCreateWorker_def SwInit_def, rule after_mono[OF worker_made[OF assms]]) (auto simp: SwStart_def)
  from workers_made[of "SsCreateWorker K V" "\<lambda>w srv. srv\<lparr>ss_workers := ss_workers srv @ [w]\<rparr>", OF this]
  show "after (create_workers (SsCreateWorker K V) n srv)
      (\<lambda>(ret, srv') s'. ret = 0 \<longrightarrow> (\<exists>ws. length ws = n \<and> srv' = srv\<lparr>ss_workers := ss_workers srv @ ws\<rparr> \<and> made P ws s s')) s"
    unfolding add_workers .
  have "after (RsCreateWorker K V srv) (\<lambda>(ret, srv') s'. ret = 0 \<longrightarrow> (\<exists>w. srv' = srv\<lparr>rs_workers := rs_workers srv @ [w]\<rparr> \<and> made P [w] s s')) s"
    for srv :: "('w, 'f) rtc_server_thread" and s
    by (simp add: RsCreateWorker_def RwInit_def, rule after_mono[OF worker_made[OF assms]]) (auto simp: RwStart_def)
  from workers_made[of "RsCreateWorker K V" "\<lambda>w srv. srv\<lparr>rs_workers := rs_workers srv @ [w]\<rparr>", OF this]
  show "after (create_workers (RsCreateWorker K V) n rtc)
      (\<lambda>(ret, srv') s'. ret = 0 \<longrightarrow> (\<exists>ws. length ws = n \<and> srv' = rtc\<lparr>rs_workers := rs_workers rtc @ ws\<rparr> \<and> made P ws s s')) s"
    unfolding add_workers .
qed

text \<open>A server with a pipe and its new workers.\<close>

definition fresh_server :: "'o pipe_view \<Rightarrow> 'w worker_thread list \<Rightarrow> int set \<Rightarrow> ('w, 'x) loop_thread_scheme \<Rightarrow> 'o \<Rightarrow> 'o \<Rightarrow> bool" where
  "fresh_server P ws D srv s s' \<longleftrightarrow> lt_thread srv = NoThread \<and> with_pipe P srv s' \<and>
     (\<forall>w\<in>set ws. thread_ready P w s' \<and> wt_q_conn w = []) \<and> sorted_wrt (\<lambda>v w. ends v \<inter> ends w = {}) ws \<and>
     ends srv \<inter> all_ends ws = {} \<and> D \<inter> all_ends ws = {} \<and> grown P (ends srv \<union> D \<union> all_ends ws) s s'"

lemma server_grown:
  assumes "lt_thread srv = NoThread" "with_pipe P srv s1" "grown P (ends srv) s s1" "grown P D s1 s2" "made P ws s2 s3"
  shows "fresh_server P ws D srv s s3"
proof -
  have m: "grown P (all_ends ws) s2 s3" using assms(5) by (simp add: made_def)
  have 1: "grown P (ends srv \<union> D) s s2" "ends srv \<inter> D = {}" using grown_trans[OF assms(3,4)] by auto
  have 2: "grown P (ends srv \<union> D \<union> all_ends ws) s s3" "(ends srv \<union> D) \<inter> all_ends ws = {}" using grown_trans[OF 1(1) m] by auto
  have "pipes_kept P False {} s1 s3" using pipes_kept_trans[of P False "{}" s1 s2 "{}" s3] assms(4) m by (simp add: grown_def)
  then have "with_pipe P srv s3" by (rule with_pipe_kept[OF assms(2)])
  then show ?thesis using assms(1,5) 2 by (auto simp: fresh_server_def made_def)
qed

lemma signaling_made:
  assumes "pipes_ok K P"
  shows "after (SsInit Y K V file (SignalingServer junk)) (\<lambda>(ret, srv) s'. ret = 0 \<longrightarrow> fresh_server P (ss_workers srv) {ss_listen_fd srv} srv s s' \<and>
      ss_io_watcher srv \<noteq> None \<and> ss_next_worker_index srv = 0 \<and> length (ss_workers srv) = nat (so_worker_num (ss_options srv))) s"
proof (cases "Option.bind file (LoadFile Y)")
  case (Some config)
  obtain ret opts where o: "run_lines (option_lines Y config) junk = (ret, opts)" by (cases "run_lines (option_lines Y config) junk")
  show ?thesis
  proof (cases "ret = 0")
    case True
    show ?thesis
    proof (simp add: SsInit_def Some o True SignalingServer_def, rule after_mono[OF pipe_opened[OF assms]], clarsimp, goal_cases)
      case (1 s1 r t x)
      note pipe = this
      show ?case
      proof (rule after_mono[OF server_socket[OF assms]], clarsimp simp: Let_def, goal_cases)
        case (1 fd s2)
        note socket = this
        show ?case
          by (rule after_mono[OF made_workers(1)[OF assms]])
            (use pipe socket server_grown[OF _ pipe(1,2), of "{fd}"] in \<open>auto simp: with_pipe_def ends_def fresh_server_def insert_commute\<close>)
      qed
    qed
  qed (simp add: SsInit_def Some o SignalingServer_def)
qed (simp add: SsInit_def)

lemma rtc_made:
  assumes "pipes_ok K P"
  shows "after (RsInit Y K V expired fresh file (new_rtc_server junk)) (\<lambda>(ret, srv) s'. ret = 0 \<longrightarrow> fresh_server P (rs_workers srv) {} srv s s' \<and>
      length (rs_workers srv) = nat (rs_worker_num srv) \<and> rs_certificate srv \<noteq> None) s"
proof (cases "Option.bind file (LoadFile Y)")
  case (Some config)
  show ?thesis
  proof (cases "value_of (as_int Y) (node_at Y config ''worker_num'')")
    case n: (Some n)
    show ?thesis
    proof (cases fresh)
      case c: (Some c)
      show ?thesis
      proof (simp add: RsInit_def Some n c GenerateAndCheckCertificate_def new_rtc_server_def, rule after_mono[OF pipe_opened[OF assms]], clarsimp, goal_cases)
        case (1 s1 r t x)
        note pipe = this
        have "grown P {} s1 s1" by (simp add: grown_def)
        then show ?case
          by (intro after_mono[OF made_workers(2)[OF assms]])
            (use pipe server_grown[OF _ pipe(1,2), of "{}"] in \<open>auto simp: with_pipe_def ends_def fresh_server_def insert_commute\<close>)
      qed
    qed (simp add: RsInit_def Some n GenerateAndCheckCertificate_def new_rtc_server_def)
  qed (simp add: RsInit_def Some)
qed (simp add: RsInit_def)

lemma fresh_env:
  assumes "fresh_server P ws D srv s s'" "pipes_ok K P" "work_ok P c work" "start_thread srv = (True, srv1)"
  shows "server_env K P c work ws srv1 s'" "ends srv1 = ends srv"
proof -
  have srv1: "srv1 = srv\<lparr>lt_thread := Started, lt_running := True\<rparr>" using assms(4) by (simp add: start_thread_def split: if_splits)
  then show "ends srv1 = ends srv" by (simp add: ends_def)
  show "server_env K P c work ws srv1 s'" using assms(1-3) srv1
    by (auto simp: fresh_server_def server_env_def workers_env_def worker_env_def with_pipe_def thread_ready_def ends_def)
qed

text \<open>
  The signaling server from its start on: whatever other threads do to other descriptors, and connections that
  are accepted. The RTC server likewise.
\<close>

inductive signaling_up ::
    "('n, 'y) yaml_scheme \<Rightarrow> ('o, 'b) os_scheme \<Rightarrow> ('w, 't, 'e) ev_lib_scheme \<Rightarrow> 'o pipe_view \<Rightarrow> 'w signaling_server \<Rightarrow> 'o \<Rightarrow> bool" for Y K V P where
  su_start: "run_state (SsInit Y K V file (SignalingServer junk)) s0 = ((0, srv), s) \<Longrightarrow> SsStart srv = (True, srv1) \<Longrightarrow> signaling_up Y K V P srv1 s"
| su_accept: "signaling_up Y K V P srv s \<Longrightarrow> AcceptNewConn K srv s = Some (Some srv', s') \<Longrightarrow> signaling_up Y K V P srv' s'"
| su_other: "signaling_up Y K V P srv s \<Longrightarrow> pipes_kept P False {} s s' \<Longrightarrow> signaling_up Y K V P srv s'"

inductive rtc_up ::
    "('n, 'y) yaml_scheme \<Rightarrow> ('o, 'b) os_scheme \<Rightarrow> ('w, 't, 'e) ev_lib_scheme \<Rightarrow> 'o pipe_view \<Rightarrow> ('w, 'c) rtc_server_thread \<Rightarrow> 'o \<Rightarrow> bool" for Y K V P where
  ru_start: "run_state (RsInit Y K V expired fresh file (new_rtc_server junk)) s0 = ((0, srv), s) \<Longrightarrow> RsStart srv = (True, srv1) \<Longrightarrow> rtc_up Y K V P srv1 s"
| ru_other: "rtc_up Y K V P srv s \<Longrightarrow> pipes_kept P False {} s s' \<Longrightarrow> rtc_up Y K V P srv s'"

lemma server_env_kept:
  assumes "server_env K P c work ws srv s" "pipes_kept P b D s s'" "(ends srv \<union> all_ends ws) \<inter> D = {}"
  shows "server_env K P c work ws srv s'"
proof -
  have "pipes_kept P False D s s'" using assms(2) by (simp add: pipes_kept_def)
  then have "thread_ready P srv s'" "\<forall>w\<in>set ws. thread_ready P w s'"
    using assms ready_kept[of P _ s False D s'] by (force simp: server_env_def workers_env_def worker_env_def all_ends_def)+
  then show ?thesis using assms(1) by (simp add: server_env_def workers_env_def worker_env_def)
qed

lemma accept_kept:
  assumes "pipes_ok K P" "GenericAccept K sock s = Some (r, s')"
  shows "pipes_kept P False {} s s'"
proof -
  have a: "pipes_kept P False {} t (snd (run_state (os_accept K sock) t))" for t
  proof -
    have "after (os_accept K sock) (\<lambda>_. pipes_kept P False {} t) t"
      by (rule after_mono[OF after_both[OF pipes_okD(9)[OF assms(1)] fds_okD(2)[OF pipes_okD(1)[OF assms(1)]]]])
        (auto simp: same_pipes_def pipes_kept_def gives_fd_def split: if_splits)
    then show ?thesis by (simp add: after_def split: prod.splits)
  qed
  have n: "pipes_kept P False {} s (attempt K sock n s)" for n
  proof (induction n)
    case (Suc n)
    then show ?case using pipes_kept_trans[OF Suc a[of "attempt K sock n s"]] by (simp add: attempt_def)
  qed (simp add: attempt_def)
  obtain n where "(r, s') = run_state (os_accept K sock) (attempt K sock n s)"
    using accept_ends[OF assms(2)] accept_returns[of _ K sock s] assms(2) by auto
  then show ?thesis using pipes_kept_trans[OF n[of n] a[of "attempt K sock n s"]] by (metis Un_empty snd_conv)
qed

lemma workers_env_update:
  assumes "workers_env K P c work ws s" "i < length ws"
  shows "workers_env K P c work (ws[i := (ws ! i)\<lparr>wt_q_conn := q\<rparr>]) s" "all_ends (ws[i := (ws ! i)\<lparr>wt_q_conn := q\<rparr>]) = all_ends ws"
proof -
  let ?ws = "ws[i := (ws ! i)\<lparr>wt_q_conn := q\<rparr>]"
  have e: "ends (?ws ! j) = ends (ws ! j)" if "j < length ws" for j using that by (cases "i = j") (simp_all add: ends_def)
  have "map ends ?ws = map ends ws" by (rule nth_equalityI) (use e in auto)
  then show "all_ends ?ws = all_ends ws" unfolding all_ends_def by (metis set_map)
  have "worker_env K P c work (ws ! i) s" using assms nth_mem by (auto simp: workers_env_def)
  then have "worker_env K P c work ((ws ! i)\<lparr>wt_q_conn := q\<rparr>) s" by (simp add: worker_env_def thread_ready_def ends_def)
  then have "worker_env K P c work w s" if "w \<in> set ?ws" for w
    using that assms(1) set_update_subset_insert[of ws i "(ws ! i)\<lparr>wt_q_conn := q\<rparr>"] by (auto simp: workers_env_def)
  moreover have "sorted_wrt (\<lambda>v w. ends v \<inter> ends w = {}) ?ws"
    using assms(1) e by (simp add: workers_env_def sorted_wrt_iff_nth_less)
  ultimately show "workers_env K P c work ?ws s" by (simp add: workers_env_def)
qed

text \<open>Sending a number takes nothing from any pipe.\<close>

lemma note_kept:
  assumes "pipes_ok K P" "thread_ready P w s"
  shows "after (send_note K w msg) (\<lambda>_. pipes_kept P c {} s) s"
  unfolding send_note_def using assms(2)
  by (simp, intro after_mono[OF pipes_okD(2)[OF assms(1), where a = "lt_recv_fd w"]]) (auto simp: thread_ready_def ends_def pipes_kept_def)

lemma dispatch_env:
  assumes "signaling_env K P c work srv s" "run_state (DispatchNewConn K fd srv) s = (Some srv', s')"
  shows "signaling_env K P c work srv' s'"
proof -
  let ?i = "ss_next_worker_index srv" and ?ws = "ss_workers srv"
  let ?w = "(?ws ! ?i)\<lparr>wt_q_conn := wt_q_conn (?ws ! ?i) @ [fd]\<rparr>"
  have i: "?i < length ?ws" using assms(2) by (auto simp: DispatchNewConn_def Let_def split: if_splits)
  have e: "pipes_ok K P" "workers_env K P c work ?ws s" "server_env K P c work ?ws srv s"
    using assms(1) by (auto simp: signaling_env_def server_env_def)
  have "thread_ready P ?w s" using e(2) nth_mem[OF i] by (auto simp: workers_env_def worker_env_def thread_ready_def ends_def)
  then have "after (send_note K ?w SW_NEW_CONN) (\<lambda>_. pipes_kept P c {} s) s" by (rule note_kept[OF e(1)])
  then have k: "pipes_kept P c {} s s'" and srv': "\<exists>k. srv' = srv\<lparr>ss_next_worker_index := k, ss_workers := ?ws[?i := ?w]\<rparr>"
    using assms(2) i by (auto simp: DispatchNewConn_def SwNotifyNewConn_def SwNotify_def Let_def after_def split: prod.splits if_splits)
  obtain k where srv': "srv' = srv\<lparr>ss_next_worker_index := k, ss_workers := ?ws[?i := ?w]\<rparr>" using srv' by blast
  have e': "server_env K P c work ?ws srv s'" using server_env_kept[OF e(3) k] by simp
  have "workers_env K P c work ?ws s'" using e' by (simp add: server_env_def)
  note u = workers_env_update[OF this i, of "wt_q_conn (?ws ! ?i) @ [fd]"]
  have "thread_ready P srv' s'" "ends srv' = ends srv" using e' srv' by (simp_all add: server_env_def thread_ready_def ends_def)
  then show ?thesis using e' u assms(1) srv' by (simp add: signaling_env_def server_env_def)
qed

lemma signaling_up_env:
  assumes "signaling_up Y K V P srv s" "pipes_ok K P" "work_ok P c work"
  shows "signaling_env K P c work srv s"
  using assms(1)
proof induction
  case (su_start cfg junk s0 srv s srv1)
  have f: "fresh_server P (ss_workers srv) {ss_listen_fd srv} srv s0 s" "ss_io_watcher srv \<noteq> None"
    using afterD[OF signaling_made[OF assms(2)] su_start(1)] by auto
  have e: "server_env K P c work (ss_workers srv) srv1 s" using fresh_env(1)[OF f(1) assms(2,3)] su_start(2) by (simp add: SsStart_def)
  have "ss_workers srv1 = ss_workers srv" "ss_io_watcher srv1 = ss_io_watcher srv" "ss_listen_fd srv1 = ss_listen_fd srv"
    using su_start(2) by (auto simp: SsStart_def start_thread_def split: if_splits)
  then show ?case using e f by (simp add: signaling_env_def fresh_server_def)
next
  case (su_accept srv s srv' s')
  then obtain cfd sa s1 where a: "GenericAccept K (ss_listen_fd srv) s = Some ((cfd, sa), s1)"
    and d: "(Some srv', s') = (if cfd = -1 then (Some srv, s1) else run_state (DispatchNewConn K cfd srv) s1)"
    by (auto simp: AcceptNewConn_def TcpAccept_def split: Option.bind_splits)
  have "server_env K P c work (ss_workers srv) srv s1"
    using su_accept.IH server_env_kept[OF _ accept_kept[OF assms(2) a]] by (auto simp: signaling_env_def)
  then have "signaling_env K P c work srv s1" using su_accept.IH by (simp add: signaling_env_def)
  then show ?case using d dispatch_env[of K P c work srv s1 cfd srv' s'] by (auto split: if_splits)
next
  case (su_other srv s s')
  then show ?case using server_env_kept[OF _ su_other(2)] by (auto simp: signaling_env_def)
qed

lemma rtc_up_env:
  assumes "rtc_up Y K V P srv s" "pipes_ok K P" "work_ok P c work" "work_ok P c (\<lambda>_. route)"
  shows "rtc_env K P c work route srv s"
  using assms(1)
proof induction
  case (ru_start expired fresh cfg junk s0 srv s srv1)
  have f: "fresh_server P (rs_workers srv) {} srv s0 s" using afterD[OF rtc_made[OF assms(2)] ru_start(1)] by auto
  have "server_env K P c work (rs_workers srv) srv1 s" using fresh_env(1)[OF f assms(2,3)] ru_start(2) by (simp add: RsStart_def)
  moreover have "rs_workers srv1 = rs_workers srv" using ru_start(2) by (auto simp: RsStart_def start_thread_def split: if_splits)
  ultimately show ?case using assms(4) by (simp add: rtc_env_def)
next
  case (ru_other srv s s')
  then show ?case using server_env_kept[OF _ ru_other(2)] by (auto simp: rtc_env_def)
qed

subsection \<open>The end\<close>

lemma rtc_env_kept: "rtc_env K P c work route rtc s \<Longrightarrow> pipes_kept P b D s s' \<Longrightarrow> rtc_fds rtc \<inter> D = {} \<Longrightarrow> rtc_env K P c work route rtc s'"
  using server_env_kept[of K P c work "rs_workers rtc" rtc s b D s'] by (auto simp: rtc_env_def rtc_fds_def)

lemma told_waits:
  assumes "pipes_ok K P" "thread_ready P w s" "run_state (send_note K w QUIT) s = (r, s')"
  shows "QUIT \<in> set (pend P s' (lt_recv_fd w))"
  using afterD[OF told[OF assms(1,2)] assms(3)] by (simp add: quit_number)

text \<open>
  C31: A signal ends the program: the loop of the signaling server stops after it has stopped and waited for each
  of its workers, then that of the RTC server with its workers, whatever numbers wait in the pipes and whatever
  the threads do for them; if that work opens no descriptors, all those of the servers are closed at the end.
\<close>

theorem signal_ends_servers:
  assumes "pipes_ok K P" "work_ok P c work" "work_ok P c work'" "work_ok P c (\<lambda>_. route)"
    and "signaling_up Y K V P srv s" "rtc_up Y K V P rtc s" "signaling_fds srv \<inter> rtc_fds rtc = {}"
    and "sig = SIGINT \<or> sig = SIGTERM" "run_state (ProcessSignal K (Some srv) (Some rtc) sig) s = (r, s1)"
  shows "\<exists>srv' s2 rtc' s3. thread_run (SignalingServerRecvNotify K work) lt_running srv s1 = Some (Some srv', s2) \<and>
    thread_run (RtcServerRecvNotify K work' route) lt_running rtc s2 = Some (Some rtc', s3) \<and> \<not> lt_running srv' \<and> \<not> lt_running rtc' \<and>
    (\<forall>w\<in>set (ss_workers srv' @ rs_workers rtc'). lt_thread w = Joined \<and> \<not> lt_running w) \<and>
    (c \<longrightarrow> opens P s3 \<inter> (signaling_fds srv \<union> rtc_fds rtc) = {})"
proof -
  have e: "signaling_env K P c work srv s" "rtc_env K P c work' route rtc s"
    using signaling_up_env[OF assms(5,1,2)] rtc_up_env[OF assms(6,1,3,4)] .
  then have t: "thread_ready P srv s" "thread_ready P rtc s" by (simp_all add: signaling_env_def rtc_env_def server_env_def)
  obtain r1 sa where a: "run_state (send_note K srv QUIT) s = (r1, sa)" by (cases "run_state (send_note K srv QUIT) s")
  have ka: "pipes_kept P c {} s sa" using afterD[OF note_kept[OF assms(1) t(1)] a] .
  have ta: "thread_ready P rtc sa" using ready_kept[OF t(2) ka] by simp
  obtain r2 where b: "run_state (send_note K rtc QUIT) sa = (r2, s1)"
    using assms(8,9) a by (auto simp: ProcessSignal_def SsStop_def SsNotify_def RsStop_def RsNotify_def split: prod.splits)
  have kb: "pipes_kept P c {} sa s1" using afterD[OF note_kept[OF assms(1) ta] b] .
  have k: "pipes_kept P c {} s s1" using pipes_kept_trans[OF ka kb] by simp
  have w: "QUIT \<in> set (pend P s1 (lt_recv_fd srv))" "QUIT \<in> set (pend P s1 (lt_recv_fd rtc))"
    using told_waits[OF assms(1) t(1) a] waiting_kept[OF ready_kept[OF t(1) ka] kb] set_mono_prefix told_waits[OF assms(1) ta b] by auto
  have e1: "signaling_env K P c work srv s1" "rtc_env K P c work' route rtc s1"
    using e server_env_kept[OF _ k] by (auto simp: signaling_env_def rtc_env_def)
  obtain srv' s2 where s2: "thread_run (SignalingServerRecvNotify K work) lt_running srv s1 = Some (Some srv', s2)" "signaling_ended P c srv s1 srv' s2"
    using ss.stops[OF e1(1)] split_list[OF w(1)] by blast
  have k2: "pipes_kept P c (signaling_fds srv) s1 s2" using s2(2) by (simp add: signaling_ended_def shut_def)
  have e2: "rtc_env K P c work' route rtc s2" using rtc_env_kept[OF e1(2) k2] assms(7) by blast
  have "QUIT \<in> set (pend P s2 (lt_recv_fd rtc))"
    using waiting_kept[OF _ k2, of rtc] e1(2) assms(7) w(2) set_mono_prefix by (fastforce simp: rtc_env_def server_env_def rtc_fds_def)
  then obtain rtc' s3 where s3: "thread_run (RtcServerRecvNotify K work' route) lt_running rtc s2 = Some (Some rtc', s3)" "rtc_ended P c rtc s2 rtc' s3"
    using rs.stops[OF e2] split_list by meson
  have "c \<longrightarrow> opens P s3 \<inter> (signaling_fds srv \<union> rtc_fds rtc) = {}"
    using shut_trans[of P c "signaling_fds srv" s1 s2 "rtc_fds rtc" s3] s2(2) s3(2) by (auto simp: signaling_ended_def rtc_ended_def shut_def)
  then show ?thesis using s2 s3
    by (auto simp: signaling_ended_def rtc_ended_def signaling_stopped_def rtc_stopped_def halted_def)
qed

text \<open>A configuration without workers is accepted, and the first connection is given to a worker that does not exist.\<close>

lemma no_worker_no_service:
  assumes "pipes_ok K P" "run_state (SsInit Y K V file (SignalingServer junk)) s0 = ((0, srv), s)" "so_worker_num (ss_options srv) \<le> 0"
  shows "run_state (DispatchNewConn K fd srv) s = (None, s)"
  using afterD[OF signaling_made[OF assms(1)] assms(2)] assms(3) by (simp add: DispatchNewConn_def Let_def)

text \<open>A request is carried out under a certificate that has not expired, if one just made has not.\<close>

lemma certificate_current:
  assumes "GenerateAndCheckCertificate expired fresh s = (0, s')" "pred_option (\<lambda>c. \<not> expired c) fresh"
  shows "\<exists>c. rs_certificate s' = Some c \<and> \<not> expired c"
  using assms by (auto simp: GenerateAndCheckCertificate_def Let_def split: option.splits if_splits)

end
