(* ===== verification/ServerDemo.thy ===== *)
theory ServerDemo
  imports ServerRuns
begin

text \<open>
  A system with descriptors and pipes, a configuration of one worker for each server, and both servers started
  on it and stopped by a signal.
\<close>

record pipe_os =
  po_fds :: "int list"
  po_peer :: "int \<Rightarrow> int option"
  po_pend :: "int \<Rightarrow> int list"

definition po_fresh :: "pipe_os \<Rightarrow> int" where
  "po_fresh s = Max (insert 2 (set (po_fds s))) + 1"

definition po_new :: "pipe_os \<Rightarrow> int \<times> pipe_os" where
  "po_new s = (po_fresh s, s\<lparr>po_fds := po_fresh s # po_fds s\<rparr>)"

definition pipe_kernel :: "pipe_os os" where
  "pipe_kernel = \<lparr>os_socket = (\<lambda>_ _. State po_new), os_setsockopt = (\<lambda>_ _ _ _. State (\<lambda>s. (0, s))), os_bind = (\<lambda>_ _. State (\<lambda>s. (0, s))),
     os_listen = (\<lambda>_ _. State (\<lambda>s. (0, s))), os_accept = (\<lambda>_. State (\<lambda>s. case po_new s of (fd, s') \<Rightarrow> ((fd, demo_nowhere), s'))),
     os_close = (\<lambda>fd. State (\<lambda>s. (0, s\<lparr>po_fds := removeAll fd (po_fds s), po_peer := (\<lambda>b. if b = fd \<or> po_peer s b = Some fd then None else po_peer s b)\<rparr>))),
     os_getfl = (\<lambda>_. State (\<lambda>s. (0, s))), os_setfl = (\<lambda>_ _. State (\<lambda>s. (0, s))),
     os_getpeername = (\<lambda>_. State (\<lambda>s. ((0, demo_nowhere), s))), os_getsockname = (\<lambda>_. State (\<lambda>s. ((0, demo_nowhere), s))),
     os_read = (\<lambda>a _. State (\<lambda>s. case po_pend s a of [] \<Rightarrow> ((-1, []), s) | m # ms \<Rightarrow> ((4, int_bytes m), s\<lparr>po_pend := (po_pend s)(a := ms)\<rparr>))),
     os_write = (\<lambda>fd b. State (\<lambda>s. case po_peer s fd of None \<Rightarrow> (int (length b), s)
       | Some a \<Rightarrow> (4, s\<lparr>po_pend := (po_pend s)(a := po_pend s a @ [bytes_int b])\<rparr>))),
     os_recvfrom = (\<lambda>_ _. State (\<lambda>s. ((-1, [], demo_nowhere), s))), os_sendto = (\<lambda>_ data _ _. State (\<lambda>s. (int (length data), s))),
     os_stamp = (\<lambda>_. State (\<lambda>s. (None, s))),
     os_pipe = State (\<lambda>s. let a = po_fresh s in (Some (a, a + 1),
       s\<lparr>po_fds := [a, a + 1] @ po_fds s, po_peer := (po_peer s)(a + 1 \<mapsto> a), po_pend := (po_pend s)(a := [])\<rparr>)),
     os_errno = (\<lambda>_. EAGAIN), inet_aton = (\<lambda>_. Some (IPv4 0x7F000001))\<rparr>"

definition pipe_view_of :: "pipe_os pipe_view" where
  "pipe_view_of = \<lparr>opens = (\<lambda>s. set (po_fds s)), peer = po_peer, pend = po_pend\<rparr>"

lemma po_fresh_new: "2 < po_fresh s" "po_fresh s \<notin> set (po_fds s)" "po_fresh s + 1 \<notin> set (po_fds s)"
proof -
  let ?M = "Max (insert 2 (set (po_fds s)))"
  have m: "2 \<le> ?M" "x \<in> set (po_fds s) \<Longrightarrow> x \<le> ?M" for x by (rule Max_ge; simp)+
  show "2 < po_fresh s" using m(1) unfolding po_fresh_def by linarith
  show "po_fresh s \<notin> set (po_fds s)" "po_fresh s + 1 \<notin> set (po_fds s)" using m(2)[of "?M + 1"] m(2)[of "?M + 1 + 1"] by (auto simp: po_fresh_def)
qed

lemma pipe_kernel_ok: "pipes_ok pipe_kernel pipe_view_of"
proof -
  have "po_fresh s \<noteq> -1" for s using po_fresh_new(1)[of s] by simp
  moreover have "0 \<le> po_fresh s" "0 \<le> po_fresh s + 1" for s using po_fresh_new(1)[of s] by simp_all
  ultimately have "fds_ok pipe_kernel (opens pipe_view_of)"
    using po_fresh_new(2,3) by (auto simp: fds_ok_def pipe_kernel_def pipe_view_of_def after_def gives_fd_def po_new_def Let_def)
  then show ?thesis
    by (simp add: pipes_ok_def) (auto simp: pipe_kernel_def pipe_view_of_def after_def same_pipes_def po_new_def Let_def)
qed

definition demo_yaml :: "string yaml" where
  "demo_yaml = \<lparr>LoadFile = (\<lambda>f. Some f), node_at = (\<lambda>_ k. Some k), as_string = (\<lambda>n. Some n),
     as_int = (\<lambda>n. Some (if n = ''worker_num'' then 1 else 9000)), as_bool = (\<lambda>_. Some False)\<rparr>"

definition pipe_boot :: pipe_os where
  "pipe_boot = \<lparr>po_fds = [], po_peer = (\<lambda>_. None), po_pend = (\<lambda>_. [])\<rparr>"

definition demo_server_options :: signaling_options where
  "demo_server_options = \<lparr>so_host = [], so_port = 0, so_worker_num = 0, so_connection_timeout = 0\<rparr>"

lemmas server_eval = SsInit_def RsInit_def demo_yaml_def option_lines_def value_of_def open_pipe_def CreateTcpServer_def SsCreateWorker_def
  RsCreateWorker_def SwInit_def RwInit_def SwStart_def RwStart_def start_thread_def new_worker_def pipe_kernel_def po_new_def Let_def
  GenerateAndCheckCertificate_def new_rtc_server_def SignalingServer_def demo_server_options_def

lemma rtc_starts: "\<exists>rtc s'. run_state (RsInit demo_yaml pipe_kernel demo_ev (\<lambda>_ :: unit. False) (Some ()) (Some f) (new_rtc_server 0)) s = ((0, rtc), s') \<and>
    rs_worker_num rtc = 1"
  by (simp add: server_eval)

lemma signaling_starts: "\<exists>srv s'. run_state (SsInit demo_yaml pipe_kernel demo_ev (Some f) (SignalingServer demo_server_options)) s = ((0, srv), s') \<and>
    so_worker_num (ss_options srv) = 1"
proof -
  have "po_fresh s \<noteq> -1" for s using po_fresh_new(1)[of s] by simp
  then show ?thesis by (simp add: server_eval)
qed

text \<open>Both servers, one after the other, as \<open>main\<close> starts them.\<close>

lemma both_up:
  assumes "pipes_ok K P" "run_state (SsInit Y K V file (SignalingServer junk)) s0 = ((0, srv), s)" "SsStart srv = (True, srv1)"
    and "run_state (RsInit Y K V expired fresh file' (new_rtc_server junk')) s = ((0, rtc), s')" "RsStart rtc = (True, rtc1)"
  shows "signaling_up Y K V P srv1 s'" "rtc_up Y K V P rtc1 s'" "signaling_fds srv1 \<inter> rtc_fds rtc1 = {}"
proof -
  have f: "fresh_server P (ss_workers srv) {ss_listen_fd srv} srv s0 s" using afterD[OF signaling_made[OF assms(1)] assms(2)] by simp
  have g: "fresh_server P (rs_workers rtc) {} rtc s s'" using afterD[OF rtc_made[OF assms(1)] assms(4)] by simp
  show "rtc_up Y K V P rtc1 s'" by (rule ru_start[OF assms(4,5)])
  have "pipes_kept P False {} s s'" using g by (simp add: fresh_server_def grown_def)
  then show "signaling_up Y K V P srv1 s'" by (rule su_other[OF su_start[OF assms(2,3)]])
  have "signaling_fds srv1 = signaling_fds srv" "rtc_fds rtc1 = rtc_fds rtc"
    using assms(3,5) by (auto simp: SsStart_def RsStart_def start_thread_def signaling_fds_def rtc_fds_def ends_def split: if_splits)
  moreover have "signaling_fds srv \<subseteq> opens P s" "rtc_fds rtc \<inter> opens P s = {}"
    using f g by (auto simp: fresh_server_def grown_def signaling_fds_def rtc_fds_def)
  ultimately show "signaling_fds srv1 \<inter> rtc_fds rtc1 = {}" by blast
qed

theorem signal_ends_servers_witness:
  "\<exists>srv rtc s s1 srv' s2 rtc' s3. signaling_up demo_yaml pipe_kernel demo_ev pipe_view_of srv s \<and> length (ss_workers srv) = 1 \<and>
    run_state (ProcessSignal pipe_kernel (Some srv) (Some (rtc :: (demo_ev_io, unit) rtc_server_thread)) SIGINT) s = ((), s1) \<and>
    thread_run (SignalingServerRecvNotify pipe_kernel (\<lambda>_. State_Monad.return ())) lt_running srv s1 = Some (Some srv', s2) \<and>
    thread_run (RtcServerRecvNotify pipe_kernel (\<lambda>_. State_Monad.return ()) (State_Monad.return ())) lt_running rtc s2 = Some (Some rtc', s3) \<and>
    \<not> lt_running srv' \<and> \<not> lt_running rtc' \<and> set (po_fds s3) \<inter> signaling_fds srv = {}"
proof -
  let ?work = "\<lambda>_ :: int. State_Monad.return () :: (pipe_os, unit) state"
  obtain srv s where i: "run_state (SsInit demo_yaml pipe_kernel demo_ev (Some ''c'') (SignalingServer demo_server_options)) pipe_boot = ((0, srv), s)"
    "so_worker_num (ss_options srv) = 1"
    using signaling_starts by blast
  obtain rtc s' where j: "run_state (RsInit demo_yaml pipe_kernel demo_ev (\<lambda>_ :: unit. False) (Some ()) (Some ''c'') (new_rtc_server 0)) s = ((0, rtc), s')"
    using rtc_starts by blast
  have f: "fresh_server pipe_view_of (ss_workers srv) {ss_listen_fd srv} srv pipe_boot s" "length (ss_workers srv) = 1"
    using afterD[OF signaling_made[OF pipe_kernel_ok] i(1)] i(2) by simp_all
  have g: "fresh_server pipe_view_of (rs_workers rtc) {} rtc s s'" using afterD[OF rtc_made[OF pipe_kernel_ok] j] by simp
  obtain srv1 rtc1 where st: "SsStart srv = (True, srv1)" "RsStart rtc = (True, rtc1)"
    using f(1) g by (auto simp: SsStart_def RsStart_def start_thread_def fresh_server_def)
  then have n: "length (ss_workers srv1) = 1" using f(2) by (auto simp: SsStart_def start_thread_def split: if_splits)
  obtain r s1 where sig: "run_state (ProcessSignal pipe_kernel (Some srv1) (Some rtc1) SIGINT) s' = (r, s1)"
    by (cases "run_state (ProcessSignal pipe_kernel (Some srv1) (Some rtc1) SIGINT) s'")
  have w: "work_ok pipe_view_of True ?work" by (simp add: work_ok_def)
  note u = both_up[OF pipe_kernel_ok i(1) st(1) j st(2)]
  obtain srv' s2 rtc' s3 where e: "thread_run (SignalingServerRecvNotify pipe_kernel ?work) lt_running srv1 s1 = Some (Some srv', s2)"
    "thread_run (RtcServerRecvNotify pipe_kernel ?work (State_Monad.return ())) lt_running rtc1 s2 = Some (Some rtc', s3)"
    "\<not> lt_running srv'" "\<not> lt_running rtc'" "opens pipe_view_of s3 \<inter> (signaling_fds srv1 \<union> rtc_fds rtc1) = {}"
    using signal_ends_servers[OF pipe_kernel_ok w w w u(1,2,3) disjI1[OF refl] sig] by blast
  have "set (po_fds s3) \<inter> signaling_fds srv1 = {}" using e(5) by (auto simp: pipe_view_of_def)
  moreover have "run_state (ProcessSignal pipe_kernel (Some srv1) (Some rtc1) SIGINT) s' = ((), s1)" using sig by simp
  ultimately show ?thesis using u(1) n e(1-4) by blast
qed

theorem connections_dealt_in_turn_witness:
  "\<exists>srv s'. run_state (dispatch_all pipe_kernel [10, 11, 12] ((SignalingServer demo_server_options :: demo_ev_io signaling_server)\<lparr>ss_workers := [new_worker, new_worker]\<rparr>)) pipe_boot =
    (Some srv, s') \<and> queues srv = [[10, 12], [11]]"
proof -
  let ?srv = "(SignalingServer demo_server_options :: demo_ev_io signaling_server)\<lparr>ss_workers := [new_worker, new_worker]\<rparr>"
  obtain r s' where r: "run_state (dispatch_all pipe_kernel [10, 11, 12] ?srv) pipe_boot = (r, s')"
    by (cases "run_state (dispatch_all pipe_kernel [10, 11, 12] ?srv) pipe_boot")
  have "\<exists>srv'. r = Some srv' \<and> queues srv' = map (\<lambda>i. nths [10, 11, 12] {j. j mod length (ss_workers ?srv) = i}) [0..<length (ss_workers ?srv)]"
    by (rule connections_dealt_in_turn[OF _ _ _ r]) (simp_all add: SignalingServer_def queues_def new_worker_def)
  then show ?thesis using r by (auto simp: SignalingServer_def nths_Cons)
qed

end
