(* ===== verification/Log.thy ===== *)
theory Log
  imports Prelude
begin

text \<open>
  \<open>base/log.cpp\<close>: messages wait in two queues, warnings and errors apart, and a thread writes them to two
  files. What the file system answers is an argument: whether a file is still there, whether it can be opened.
  Text given to a stream that is not open is lost. The filter by severity is that of libwebrtc's log, which
  passes a sink the messages from its own severity on.
\<close>

subsection \<open>State\<close>

datatype log_severity = LS_VERBOSE | LS_INFO | LS_WARNING | LS_ERROR | LS_NONE

fun severity_code :: "log_severity \<Rightarrow> nat" where
  "severity_code LS_VERBOSE = 0"
| "severity_code LS_INFO = 1"
| "severity_code LS_WARNING = 2"
| "severity_code LS_ERROR = 3"
| "severity_code LS_NONE = 4"

lemma severity_code_inj: "severity_code a = severity_code b \<Longrightarrow> a = b"
  by (cases a; cases b) simp_all

instantiation log_severity :: linorder
begin

definition less_eq_log_severity :: "log_severity \<Rightarrow> log_severity \<Rightarrow> bool" where
  "less_eq_log_severity a b \<longleftrightarrow> severity_code a \<le> severity_code b"

definition less_log_severity :: "log_severity \<Rightarrow> log_severity \<Rightarrow> bool" where
  "less_log_severity a b \<longleftrightarrow> severity_code a < severity_code b"

instance
  by standard (auto simp: less_eq_log_severity_def less_log_severity_def dest: severity_code_inj)

end

text \<open>An \<open>ofstream\<close>: whether it is open, and all the text that went through it to a file.\<close>

record out_stream =
  st_open :: bool
  st_text :: string

record xrtc_log =
  xl_log_dir :: string
  xl_log_name :: string
  xl_log_level :: string
  xl_log_file :: string
  xl_log_file_wf :: string
  xl_out_file :: out_stream
  xl_out_file_wf :: out_stream
  xl_log_queue :: "string list"
  xl_log_queue_wf :: "string list"
  xl_thread :: bool
  xl_running :: bool
  xl_sink :: "log_severity option"

definition XrtcLog :: "string \<Rightarrow> string \<Rightarrow> string \<Rightarrow> xrtc_log" where
  "XrtcLog log_dir log_name log_level =
     \<lparr>xl_log_dir = log_dir, xl_log_name = log_name, xl_log_level = log_level, xl_log_file = log_dir @ ''/'' @ log_name @ ''.log'',
      xl_log_file_wf = log_dir @ ''/'' @ log_name @ ''.log.wf'', xl_out_file = \<lparr>st_open = False, st_text = []\<rparr>,
      xl_out_file_wf = \<lparr>st_open = False, st_text = []\<rparr>, xl_log_queue = [], xl_log_queue_wf = [], xl_thread = False, xl_running = False,
      xl_sink = None\<rparr>"

subsection \<open>Messages\<close>

definition OnLogMessage :: "string \<Rightarrow> log_severity \<Rightarrow> xrtc_log \<Rightarrow> xrtc_log" where
  "OnLogMessage message severity l =
     (if severity \<ge> LS_WARNING then l\<lparr>xl_log_queue_wf := xl_log_queue_wf l @ [message]\<rparr>
      else l\<lparr>xl_log_queue := xl_log_queue l @ [message]\<rparr>)"

definition GetLogSeverity :: "string \<Rightarrow> log_severity" where
  "GetLogSeverity level =
     (if level = ''verbose'' then LS_VERBOSE
      else if level = ''info'' then LS_INFO
      else if level = ''warning'' then LS_WARNING
      else if level = ''error'' then LS_ERROR
      else if level = ''none'' then LS_NONE
      else LS_NONE)"

text \<open>libwebrtc's log: a message reaches the sink that is registered from its severity on.\<close>

definition log_message :: "string \<Rightarrow> log_severity \<Rightarrow> xrtc_log \<Rightarrow> xrtc_log" where
  "log_message message severity l =
     (case xl_sink l of None \<Rightarrow> l | Some least \<Rightarrow> if severity \<ge> least then OnLogMessage message severity l else l)"

subsection \<open>Files\<close>

definition open_stream :: "bool \<Rightarrow> out_stream \<Rightarrow> out_stream" where
  "open_stream ok f = f\<lparr>st_open := ok\<rparr>"

definition close_stream :: "out_stream \<Rightarrow> out_stream" where
  "close_stream f = f\<lparr>st_open := False\<rparr>"

definition write_stream :: "string \<Rightarrow> out_stream \<Rightarrow> out_stream" where
  "write_stream s f = (if st_open f then f\<lparr>st_text := st_text f @ s\<rparr> else f)"

text \<open>\<open>dir_ok\<close>: the directory can be made or is there; \<open>opens\<close>, \<open>opens_wf\<close>: the files can be opened.\<close>

definition XlInit :: "bool \<Rightarrow> bool \<Rightarrow> bool \<Rightarrow> xrtc_log \<Rightarrow> int \<times> xrtc_log" where
  "XlInit dir_ok opens opens_wf l =
     (let l1 = l\<lparr>xl_sink := Some (GetLogSeverity (xl_log_level l))\<rparr> in
      if \<not> dir_ok then (-1, l1)
      else let l2 = l1\<lparr>xl_out_file := open_stream opens (xl_out_file l1)\<rparr> in
      if \<not> st_open (xl_out_file l2) then (-1, l2)
      else let l3 = l2\<lparr>xl_out_file_wf := open_stream opens_wf (xl_out_file_wf l2)\<rparr> in
      if \<not> st_open (xl_out_file_wf l3) then (-1, l3) else (0, l3))"

definition XlStart :: "xrtc_log \<Rightarrow> bool \<times> xrtc_log" where
  "XlStart l = (if xl_running l then (False, l) else (True, l\<lparr>xl_running := True, xl_thread := True\<rparr>))"

text \<open>
  A round of the thread: a file that is gone is made again, then each queue is emptied and its text written.
  Messages may come in between the three parts.
\<close>

definition check_files :: "bool \<Rightarrow> bool \<Rightarrow> bool \<Rightarrow> bool \<Rightarrow> xrtc_log \<Rightarrow> xrtc_log" where
  "check_files there there_wf opens opens_wf l =
     (let l1 = (if \<not> there then l\<lparr>xl_out_file := open_stream opens (close_stream (xl_out_file l))\<rparr> else l)
      in if \<not> there_wf then l1\<lparr>xl_out_file_wf := open_stream opens_wf (close_stream (xl_out_file_wf l1))\<rparr> else l1)"

definition write_log :: "xrtc_log \<Rightarrow> xrtc_log" where
  "write_log l =
     (if xl_log_queue l \<noteq> []
      then l\<lparr>xl_log_queue := [], xl_out_file := write_stream (concat (xl_log_queue l)) (xl_out_file l)\<rparr> else l)"

definition write_log_wf :: "xrtc_log \<Rightarrow> xrtc_log" where
  "write_log_wf l =
     (if xl_log_queue_wf l \<noteq> []
      then l\<lparr>xl_log_queue_wf := [], xl_out_file_wf := write_stream (concat (xl_log_queue_wf l)) (xl_out_file_wf l)\<rparr> else l)"

text \<open>Stopping waits for the round that is under way; the destructor then closes the files.\<close>

definition XlStop :: "xrtc_log \<Rightarrow> xrtc_log" where
  "XlStop l = l\<lparr>xl_running := False, xl_thread := False\<rparr>"

definition delete_log :: "xrtc_log \<Rightarrow> xrtc_log" where
  "delete_log l =
     (let l1 = XlStop l in l1\<lparr>xl_out_file := close_stream (xl_out_file l1), xl_out_file_wf := close_stream (xl_out_file_wf l1)\<rparr>)"

subsection \<open>The log as a machine\<close>

datatype log_event =
    LogMessage string log_severity
  | CheckFiles bool bool bool bool
  | WriteLog
  | WriteLogWf

text \<open>The thread makes its steps only while it runs.\<close>

fun log_step :: "log_event \<Rightarrow> xrtc_log \<Rightarrow> xrtc_log" where
  "log_step (LogMessage message severity) l = log_message message severity l"
| "log_step (CheckFiles there there_wf opens opens_wf) l = (if xl_running l then check_files there there_wf opens opens_wf l else l)"
| "log_step WriteLog l = (if xl_running l then write_log l else l)"
| "log_step WriteLogWf l = (if xl_running l then write_log_wf l else l)"

fun opens_files :: "log_event \<Rightarrow> bool" where
  "opens_files (CheckFiles there there_wf opens opens_wf) \<longleftrightarrow> (there \<or> opens) \<and> (there_wf \<or> opens_wf)"
| "opens_files _ \<longleftrightarrow> True"

text \<open>The text of the messages of a run with a severity in \<open>S\<close>.\<close>

definition logged_text :: "(log_severity \<Rightarrow> bool) \<Rightarrow> log_event list \<Rightarrow> string" where
  "logged_text S es = concat [message. LogMessage message severity \<leftarrow> es, S severity]"

lemma logged_text_simps [simp]:
  "logged_text S [] = []"
  "logged_text S (LogMessage m v # es) = (if S v then m else []) @ logged_text S es"
  "logged_text S (CheckFiles a b c d # es) = logged_text S es"
  "logged_text S (WriteLog # es) = logged_text S es"
  "logged_text S (WriteLogWf # es) = logged_text S es"
  by (simp_all add: logged_text_def)

definition files_open :: "xrtc_log \<Rightarrow> bool" where
  "files_open l \<longleftrightarrow> st_open (xl_out_file l) \<and> st_open (xl_out_file_wf l)"

lemma log_step_keeps:
  "xl_sink (log_step e l) = xl_sink l" "xl_running (log_step e l) = xl_running l"
  "files_open l \<Longrightarrow> opens_files e \<Longrightarrow> files_open (log_step e l)"
  by (cases e; auto simp: files_open_def log_message_def OnLogMessage_def check_files_def write_log_def write_log_wf_def write_stream_def
      open_stream_def close_stream_def Let_def split: option.splits)+

lemma log_step_text:
  assumes "files_open l" "opens_files e" "xl_sink l = Some least"
  shows "st_text (xl_out_file (log_step e l)) @ concat (xl_log_queue (log_step e l)) =
      (st_text (xl_out_file l) @ concat (xl_log_queue l)) @ logged_text (\<lambda>v. least \<le> v \<and> v < LS_WARNING) [e]"
    "st_text (xl_out_file_wf (log_step e l)) @ concat (xl_log_queue_wf (log_step e l)) =
      (st_text (xl_out_file_wf l) @ concat (xl_log_queue_wf l)) @ logged_text (\<lambda>v. least \<le> v \<and> LS_WARNING \<le> v) [e]"
  using assms by (cases e; auto simp: files_open_def log_message_def OnLogMessage_def check_files_def write_log_def write_log_wf_def
      write_stream_def open_stream_def close_stream_def Let_def)+

lemma logged_text_Cons: "logged_text S (e # es) = logged_text S [e] @ logged_text S es"
  by (simp add: logged_text_def)

lemma log_run:
  assumes "list_all opens_files es" "files_open l" "xl_sink l = Some least"
  shows "st_text (xl_out_file (fold log_step es l)) @ concat (xl_log_queue (fold log_step es l)) =
      (st_text (xl_out_file l) @ concat (xl_log_queue l)) @ logged_text (\<lambda>v. least \<le> v \<and> v < LS_WARNING) es"
    "st_text (xl_out_file_wf (fold log_step es l)) @ concat (xl_log_queue_wf (fold log_step es l)) =
      (st_text (xl_out_file_wf l) @ concat (xl_log_queue_wf l)) @ logged_text (\<lambda>v. least \<le> v \<and> LS_WARNING \<le> v) es"
  using assms
proof (induction es arbitrary: l)
  case (Cons e es)
  { case 1
    then show ?case using Cons.IH(1)[of "log_step e l"] log_step_text(1)[of l e least] log_step_keeps[where e = e and l = l]
      by (simp add: logged_text_Cons[of _ e es])
  next
    case 2
    then show ?case using Cons.IH(2)[of "log_step e l"] log_step_text(2)[of l e least] log_step_keeps[where e = e and l = l]
      by (simp add: logged_text_Cons[of _ e es])
  }
qed simp_all



end
