(* ===== verification/Program.thy ===== *)
theory Program
  imports ServerDemo Log
begin

text \<open>
  \<open>main.cpp\<close>: the configuration, the log and the two servers are set up one after the other, the servers are
  started and \<open>main\<close> waits for them. What the program has set up is the record \<open>program\<close>.
\<close>

record ('w, 'c) program =
  g_conf :: general_conf
  g_log :: xrtc_log
  g_signaling_server :: "'w signaling_server"
  g_rtc_server :: "('w, 'c) rtc_server_thread"

text \<open>What the environment answers while the program starts, beside the system: files of the log, certificate, memory not yet written.\<close>

record 'c start_env =
  st_dir_ok :: bool
  st_opens :: bool
  st_opens_wf :: bool
  st_expired :: "'c \<Rightarrow> bool"
  st_fresh :: "'c option"
  st_junk_bool :: bool
  st_junk_options :: signaling_options
  st_junk_int :: int

text \<open>\<open>None\<close>: an exception that nothing catches.\<close>

definition InitGeneralConf :: "('n, 'y) yaml_scheme \<Rightarrow> bool \<Rightarrow> string option \<Rightarrow> (int \<times> general_conf option) option" where
  "InitGeneralConf Y junk filename =
     (case filename of
        None \<Rightarrow> Some (-1, None)
      | Some f \<Rightarrow> map_option (\<lambda>(ret, conf). (if ret \<noteq> 0 then -1 else 0, conf)) (LoadGeneralConf Y (Some f) (Some (GeneralConf junk))))"

definition InitLog :: "'c start_env \<Rightarrow> string \<Rightarrow> string \<Rightarrow> string \<Rightarrow> int \<times> xrtc_log" where
  "InitLog S log_dir log_name log_level =
     (case XlInit (st_dir_ok S) (st_opens S) (st_opens_wf S) (XrtcLog log_dir log_name log_level) of
        (ret, l) \<Rightarrow> if ret \<noteq> 0 then (-1, l) else (0, snd (XlStart l)))"

definition InitSignalingServer ::
    "('n, 'y) yaml_scheme \<Rightarrow> ('o, 'b) os_scheme \<Rightarrow> ('w, 't, 'e) ev_lib_scheme \<Rightarrow> 'c start_env \<Rightarrow> ('o, int \<times> 'w signaling_server) state" where
  "InitSignalingServer Y K V S = do {
     (ret, srv) \<leftarrow> SsInit Y K V (Some ''./conf/signaling_server.yaml'') (SignalingServer (st_junk_options S));
     State_Monad.return (if ret \<noteq> 0 then -1 else 0, srv)
   }"

definition InitRtcServer ::
    "('n, 'y) yaml_scheme \<Rightarrow> ('o, 'b) os_scheme \<Rightarrow> ('w, 't, 'e) ev_lib_scheme \<Rightarrow> 'c start_env \<Rightarrow> ('o, int \<times> ('w, 'c) rtc_server_thread) state" where
  "InitRtcServer Y K V S = do {
     (ret, rtc) \<leftarrow> RsInit Y K V (st_expired S) (st_fresh S) (Some ''./conf/rtc_server.yaml'') (new_rtc_server (st_junk_int S));
     State_Monad.return (if ret \<noteq> 0 then -1 else 0, rtc)
   }"

text \<open>\<open>main\<close> up to the first \<open>Join\<close>: \<open>Inl\<close> is the exit code where it returns.\<close>

definition main_start ::
    "('n, 'y) yaml_scheme \<Rightarrow> ('o, 'b) os_scheme \<Rightarrow> ('w, 't, 'e) ev_lib_scheme \<Rightarrow> 'c start_env \<Rightarrow> 'o \<Rightarrow> ((int + ('w, 'c) program) \<times> 'o) option" where
  "main_start Y K V S s =
     (case InitGeneralConf Y (st_junk_bool S) (Some ''./conf/general.yaml'') of
        Some (ret, Some conf) \<Rightarrow>
          if ret \<noteq> 0 then Some (Inl (-1), s)
          else (case InitLog S (gc_log_dir conf) (gc_log_name conf) (gc_log_level conf) of (ret, lg) \<Rightarrow>
            if ret \<noteq> 0 then Some (Inl (-1), s)
            else (case run_state (InitSignalingServer Y K V S) s of ((ret, srv), s1) \<Rightarrow>
              if ret \<noteq> 0 then Some (Inl (-1), s1)
              else (case run_state (InitRtcServer Y K V S) s1 of ((ret, rtc), s2) \<Rightarrow>
                if ret \<noteq> 0 then Some (Inl (-1), s2)
                else Some (Inr \<lparr>g_conf = conf, g_log = lg, g_signaling_server = snd (SsStart srv), g_rtc_server = snd (RsStart rtc)\<rparr>, s2))))
      | Some (ret, None) \<Rightarrow> Some (Inl (-1), s)
      | None \<Rightarrow> None)"

text \<open>
  C33: A program that has started is one that a signal can end: both servers are up, with threads of their own,
  and share no descriptor; its log runs, with the severity of the configuration, and the options of both servers
  were read.
\<close>

theorem started_program_is_up:
  assumes "pipes_ok K P" "main_start Y K V S s = Some (Inr p, s')"
  shows "signaling_up Y K V P (g_signaling_server p) s' \<and> rtc_up Y K V P (g_rtc_server p) s' \<and>
    signaling_fds (g_signaling_server p) \<inter> rtc_fds (g_rtc_server p) = {} \<and>
    xl_running (g_log p) \<and> xl_sink (g_log p) = Some (GetLogSeverity (gc_log_level (g_conf p))) \<and>
    length (ss_workers (g_signaling_server p)) = nat (so_worker_num (ss_options (g_signaling_server p))) \<and> rs_certificate (g_rtc_server p) \<noteq> None"
proof -
  obtain conf where c: "InitGeneralConf Y (st_junk_bool S) (Some ''./conf/general.yaml'') = Some (0, Some conf)"
    using assms(2) by (auto simp: main_start_def split: option.splits if_splits)
  obtain lg where l: "InitLog S (gc_log_dir conf) (gc_log_name conf) (gc_log_level conf) = (0, lg)"
    using assms(2) c by (auto simp: main_start_def split: prod.splits if_splits)
  obtain srv s1 where a: "run_state (SsInit Y K V (Some ''./conf/signaling_server.yaml'') (SignalingServer (st_junk_options S))) s = ((0, srv), s1)"
    using assms(2) c l by (auto simp: main_start_def InitSignalingServer_def split: prod.splits if_splits)
  obtain rtc where b: "run_state (RsInit Y K V (st_expired S) (st_fresh S) (Some ''./conf/rtc_server.yaml'') (new_rtc_server (st_junk_int S))) s1 = ((0, rtc), s')"
    and p: "p = \<lparr>g_conf = conf, g_log = lg, g_signaling_server = snd (SsStart srv), g_rtc_server = snd (RsStart rtc)\<rparr>"
    using assms(2) c l a by (auto simp: main_start_def InitSignalingServer_def InitRtcServer_def split: prod.splits if_splits)
  have f: "lt_thread srv = NoThread" "length (ss_workers srv) = nat (so_worker_num (ss_options srv))" "lt_thread rtc = NoThread" "rs_certificate rtc \<noteq> None"
    using afterD[OF signaling_made[OF assms(1)] a] afterD[OF rtc_made[OF assms(1)] b] by (auto simp: fresh_server_def)
  then have st: "SsStart srv = (True, snd (SsStart srv))" "RsStart rtc = (True, snd (RsStart rtc))"
    "ss_workers (snd (SsStart srv)) = ss_workers srv" "ss_options (snd (SsStart srv)) = ss_options srv" "rs_certificate (snd (RsStart rtc)) = rs_certificate rtc"
    by (simp_all add: SsStart_def RsStart_def start_thread_def)
  have "xl_running lg" "xl_sink lg = Some (GetLogSeverity (gc_log_level conf))"
    using l by (auto simp: InitLog_def XlInit_def XlStart_def XrtcLog_def Let_def split: if_splits prod.splits)
  then show ?thesis using both_up[OF assms(1) a st(1) b st(2)] f st(3-) by (simp add: p)
qed

definition demo_start :: "unit start_env" where
  "demo_start = \<lparr>st_dir_ok = True, st_opens = True, st_opens_wf = True, st_expired = (\<lambda>_. False), st_fresh = Some (), st_junk_bool = True,
     st_junk_options = demo_server_options, st_junk_int = 0\<rparr>"

theorem started_program_is_up_witness:
  "\<exists>p s'. main_start demo_yaml pipe_kernel demo_ev demo_start pipe_boot = Some (Inr p, s') \<and> length (ss_workers (g_signaling_server p)) = 1 \<and>
    signaling_up demo_yaml pipe_kernel demo_ev pipe_view_of (g_signaling_server p) s'"
proof -
  obtain srv s where i: "run_state (SsInit demo_yaml pipe_kernel demo_ev (Some ''./conf/signaling_server.yaml'') (SignalingServer demo_server_options)) pipe_boot = ((0, srv), s)"
    "so_worker_num (ss_options srv) = 1"
    using signaling_starts by blast
  obtain rtc s' where j: "run_state (RsInit demo_yaml pipe_kernel demo_ev (\<lambda>_ :: unit. False) (Some ()) (Some ''./conf/rtc_server.yaml'') (new_rtc_server 0)) s = ((0, rtc), s')"
    using rtc_starts by blast
  obtain conf where c: "InitGeneralConf demo_yaml True (Some ''./conf/general.yaml'') = Some (0, Some conf)"
    by (simp add: InitGeneralConf_def LoadGeneralConf_def conf_lines_def demo_yaml_def value_of_def value_or_def entry_def)
  obtain lg where l: "InitLog demo_start (gc_log_dir conf) (gc_log_name conf) (gc_log_level conf) = (0, lg)"
    by (simp add: InitLog_def XlInit_def open_stream_def Let_def demo_start_def)
  let ?p = "\<lparr>g_conf = conf, g_log = lg, g_signaling_server = snd (SsStart srv), g_rtc_server = snd (RsStart rtc)\<rparr>"
  have m: "main_start demo_yaml pipe_kernel demo_ev demo_start pipe_boot = Some (Inr ?p, s')"
    using c l i(1) j by (simp add: main_start_def InitSignalingServer_def InitRtcServer_def demo_start_def)
  have "so_worker_num (ss_options (snd (SsStart srv))) = 1" using i(2) by (simp add: SsStart_def start_thread_def)
  then show ?thesis using started_program_is_up[OF pipe_kernel_ok m] m by (intro exI[of _ ?p] exI[of _ s']) simp
qed

end
