(* ===== verification/DtlsStream.thy ===== *)
theory DtlsStream
  imports DtlsTransport IceBase "HOL-Library.Sublist"
begin

text \<open>
  The stream between the SSL adapter and an ICE channel (\<open>StreamInterfaceChannel\<close> in \<open>pc/dtls_transport.cpp\<close>):
  packets that arrive wait in a bounded queue until the adapter reads them, what the adapter writes is sent at
  once. The queue is libwebrtc's \<open>BufferQueue\<close>, the parameter \<open>buffer_queue\<close>. Also the random credentials of
  \<open>ice/ice_credentials.cpp\<close>.
\<close>

record 'q buffer_queue =
  bq_new :: "nat \<Rightarrow> nat \<Rightarrow> 'q"
  bq_size :: "'q \<Rightarrow> nat"
  WriteBack :: "bytes \<Rightarrow> 'q \<Rightarrow> bool \<times> 'q"
  ReadFront :: "nat \<Rightarrow> 'q \<Rightarrow> bytes option \<times> 'q"
  bq_clear :: "'q \<Rightarrow> 'q"

datatype stream_state = SS_CLOSED | SS_OPENING | SS_OPEN

text \<open>What the stream says: an event for the adapter, and a packet for the ICE channel.\<close>

datatype stream_out = SignalRead | StreamSend bytes

record 'q stream_channel =
  sc_packets :: 'q
  sc_state :: stream_state
  sc_out :: "stream_out list"

definition kMaxPendingPackets :: nat where "kMaxPendingPackets = 2"

definition StreamInterfaceChannel :: "('q, 'b) buffer_queue_scheme \<Rightarrow> 'q stream_channel" where
  "StreamInterfaceChannel B = \<lparr>sc_packets = bq_new B kMaxPendingPackets kMaxDtlsPacketLen, sc_state = SS_OPEN, sc_out = []\<rparr>"

text \<open>A packet that the queue does not take is lost, and the result is the same.\<close>

definition ScOnReceivedPacket :: "('q, 'b) buffer_queue_scheme \<Rightarrow> bytes \<Rightarrow> 'q stream_channel \<Rightarrow> bool \<times> 'q stream_channel" where
  "ScOnReceivedPacket B data c = (True, c\<lparr>sc_packets := snd (WriteBack B data (sc_packets c)), sc_out := sc_out c @ [SignalRead]\<rparr>)"

definition ScRead :: "('q, 'b) buffer_queue_scheme \<Rightarrow> nat \<Rightarrow> 'q stream_channel \<Rightarrow> (stream_result \<times> bytes) \<times> 'q stream_channel" where
  "ScRead B buffer_len c =
     (if sc_state c = SS_CLOSED then ((SR_EOS, []), c)
      else if sc_state c = SS_OPENING then ((SR_BLOCK, []), c)
      else case ReadFront B buffer_len (sc_packets c) of
          (None, q) \<Rightarrow> ((SR_BLOCK, []), c\<lparr>sc_packets := q\<rparr>)
        | (Some data, q) \<Rightarrow> ((SR_SUCCESS, data), c\<lparr>sc_packets := q\<rparr>))"

definition ScWrite :: "bytes \<Rightarrow> 'q stream_channel \<Rightarrow> (stream_result \<times> nat) \<times> 'q stream_channel" where
  "ScWrite data c = ((SR_SUCCESS, length data), c\<lparr>sc_out := sc_out c @ [StreamSend data]\<rparr>)"

definition ScClose :: "('q, 'b) buffer_queue_scheme \<Rightarrow> 'q stream_channel \<Rightarrow> 'q stream_channel" where
  "ScClose B c = c\<lparr>sc_state := SS_CLOSED, sc_packets := bq_clear B (sc_packets c)\<rparr>"

subsection \<open>The stream as a bounded queue\<close>

text \<open>
  The documentation of the queue: \<open>content\<close> is what waits, at most the capacity; a packet is taken when there is
  room, and reading gives the first one, cut to the buffer.
\<close>

definition queue_ok :: "('q, 'b) buffer_queue_scheme \<Rightarrow> ('q \<Rightarrow> bytes list) \<Rightarrow> ('q \<Rightarrow> nat) \<Rightarrow> bool" where
  "queue_ok B content capacity \<longleftrightarrow>
     (\<forall>n k. content (bq_new B n k) = [] \<and> capacity (bq_new B n k) = n) \<and>
     (\<forall>data q. WriteBack B data q = (length (content q) < capacity q, snd (WriteBack B data q)) \<and> capacity (snd (WriteBack B data q)) = capacity q \<and>
        content (snd (WriteBack B data q)) = (if length (content q) < capacity q then content q @ [data] else content q)) \<and>
     (\<forall>n q. capacity (snd (ReadFront B n q)) = capacity q \<and>
        (case content q of [] \<Rightarrow> fst (ReadFront B n q) = None \<and> content (snd (ReadFront B n q)) = []
         | p # ps \<Rightarrow> fst (ReadFront B n q) = Some (take n p) \<and> content (snd (ReadFront B n q)) = ps)) \<and>
     (\<forall>q. content (bq_clear B q) = [] \<and> capacity (bq_clear B q) = capacity q)"

datatype stream_event = StreamReceive bytes | StreamRead nat | StreamWrite bytes | StreamClose

text \<open>An event, and what it reads.\<close>

fun stream_step :: "('q, 'b) buffer_queue_scheme \<Rightarrow> stream_event \<Rightarrow> 'q stream_channel \<Rightarrow> bytes list \<times> 'q stream_channel" where
  "stream_step B (StreamReceive data) c = ([], snd (ScOnReceivedPacket B data c))"
| "stream_step B (StreamRead n) c = (case ScRead B n c of ((r, data), c') \<Rightarrow> (if r = SR_SUCCESS then [data] else [], c'))"
| "stream_step B (StreamWrite data) c = ([], snd (ScWrite data c))"
| "stream_step B StreamClose c = ([], ScClose B c)"

fun stream_run :: "('q, 'b) buffer_queue_scheme \<Rightarrow> stream_event list \<Rightarrow> 'q stream_channel \<Rightarrow> bytes list \<times> 'q stream_channel" where
  "stream_run B [] c = ([], c)"
| "stream_run B (e # es) c = (case stream_step B e c of (out, c1) \<Rightarrow> case stream_run B es c1 of (outs, c2) \<Rightarrow> (out @ outs, c2))"

text \<open>The specification: a list of at most two packets, that is closed or not.\<close>

fun spec_step :: "stream_event \<Rightarrow> bool \<times> bytes list \<Rightarrow> bytes list \<times> bool \<times> bytes list" where
  "spec_step (StreamReceive data) (ended, ps) = ([], ended, if length ps < 2 then ps @ [data] else ps)"
| "spec_step (StreamRead n) (ended, ps) = (if ended then ([], ended, ps) else case ps of [] \<Rightarrow> ([], ended, []) | p # qs \<Rightarrow> ([take n p], ended, qs))"
| "spec_step (StreamWrite data) (ended, ps) = ([], ended, ps)"
| "spec_step StreamClose (ended, ps) = ([], True, [])"

fun spec_run :: "stream_event list \<Rightarrow> bool \<times> bytes list \<Rightarrow> bytes list \<times> bool \<times> bytes list" where
  "spec_run [] s = ([], s)"
| "spec_run (e # es) s = (case spec_step e s of (out, s1) \<Rightarrow> case spec_run es s1 of (outs, s2) \<Rightarrow> (out @ outs, s2))"

definition stream_abs :: "('q \<Rightarrow> bytes list) \<Rightarrow> 'q stream_channel \<Rightarrow> bool \<times> bytes list" where
  "stream_abs content c = (sc_state c = SS_CLOSED, content (sc_packets c))"

definition stream_inv :: "('q \<Rightarrow> nat) \<Rightarrow> 'q stream_channel \<Rightarrow> bool" where
  "stream_inv capacity c \<longleftrightarrow> sc_state c \<noteq> SS_OPENING \<and> capacity (sc_packets c) = 2"

lemma step_refines:
  assumes "queue_ok B content capacity" "stream_inv capacity c" "stream_step B e c = (out, c')"
  shows "spec_step e (stream_abs content c) = (out, stream_abs content c') \<and> stream_inv capacity c'"
proof (cases e)
  case (StreamRead n)
  show ?thesis
  proof (cases "sc_state c = SS_CLOSED")
    case False
    obtain r q where r: "ReadFront B n (sc_packets c) = (r, q)" by (cases "ReadFront B n (sc_packets c)")
    have "capacity (snd (ReadFront B n (sc_packets c))) = capacity (sc_packets c) \<and>
        (case content (sc_packets c) of [] \<Rightarrow> fst (ReadFront B n (sc_packets c)) = None \<and> content (snd (ReadFront B n (sc_packets c))) = []
         | p # ps \<Rightarrow> fst (ReadFront B n (sc_packets c)) = Some (take n p) \<and> content (snd (ReadFront B n (sc_packets c))) = ps)"
      using assms(1) unfolding queue_ok_def by blast
    then show ?thesis using StreamRead False r assms(2,3)
      by (auto simp: ScRead_def stream_abs_def stream_inv_def split: list.splits)
  qed (use StreamRead assms(2,3) in \<open>auto simp: ScRead_def stream_abs_def stream_inv_def\<close>)
qed (use assms in \<open>auto simp: queue_ok_def ScOnReceivedPacket_def ScWrite_def ScClose_def stream_abs_def stream_inv_def\<close>)

lemma run_refines:
  assumes "queue_ok B content capacity" "stream_inv capacity c" "stream_run B es c = (out, c')"
  shows "spec_run es (stream_abs content c) = (out, stream_abs content c')"
  using assms(2,3)
proof (induction es arbitrary: c out)
  case (Cons e es)
  obtain out1 c1 out2 where s: "stream_step B e c = (out1, c1)" "stream_run B es c1 = (out2, c')" "out = out1 @ out2"
    using Cons.prems(2) by (auto split: prod.splits)
  then show ?case using step_refines[OF assms(1) Cons.prems(1) s(1)] Cons.IH[of c1 out2] by simp
qed simp

text \<open>
  C34: The stream an SSL adapter reads from is a queue of at most two packets: it reads the packets in the order
  they arrived, each once, a third one that arrives before a read is lost, and nothing is read after the end.
\<close>

theorem stream_refines_queue:
  assumes "queue_ok B content capacity" "stream_run B es (StreamInterfaceChannel B) = (out, c)"
  shows "spec_run es (False, []) = (out, sc_state c = SS_CLOSED, content (sc_packets c))"
proof -
  have "stream_inv capacity (StreamInterfaceChannel B)" "stream_abs content (StreamInterfaceChannel B) = (False, [])"
    using assms(1) by (simp_all add: queue_ok_def stream_inv_def stream_abs_def StreamInterfaceChannel_def kMaxPendingPackets_def)
  then show ?thesis using run_refines[OF assms(1) _ assms(2)] by (simp add: stream_abs_def)
qed

text \<open>A queue as the documentation describes it.\<close>

definition list_queue :: "(nat \<times> bytes list) buffer_queue" where
  "list_queue = \<lparr>bq_new = (\<lambda>n _. (n, [])), bq_size = length \<circ> snd,
     WriteBack = (\<lambda>data (n, ps). if length ps < n then (True, n, ps @ [data]) else (False, n, ps)),
     ReadFront = (\<lambda>k (n, ps). case ps of [] \<Rightarrow> (None, n, []) | p # qs \<Rightarrow> (Some (take k p), n, qs)), bq_clear = (\<lambda>(n, ps). (n, []))\<rparr>"

lemma list_queue_ok: "queue_ok list_queue snd fst"
  by (auto simp: queue_ok_def list_queue_def split: list.splits)

theorem stream_refines_queue_witness:
  "\<exists>c. stream_run list_queue [StreamReceive [1], StreamReceive [2], StreamReceive [3], StreamRead 10, StreamReceive [4, 5], StreamRead 10, StreamRead 1]
      (StreamInterfaceChannel list_queue) = ([[1], [2], [4]], c) \<and> snd (sc_packets c) = []"
proof -
  let ?es = "[StreamReceive [1], StreamReceive [2], StreamReceive [3], StreamRead 10, StreamReceive [4, 5], StreamRead 10, StreamRead 1]"
  obtain out c where r: "stream_run list_queue ?es (StreamInterfaceChannel list_queue) = (out, c)"
    by (cases "stream_run list_queue ?es (StreamInterfaceChannel list_queue)")
  have "spec_run ?es (False, []) = (out, sc_state c = SS_CLOSED, snd (sc_packets c))" by (rule stream_refines_queue[OF list_queue_ok r])
  then have "out = [[1], [2], [4]]" "snd (sc_packets c) = []" by (simp_all add: numeral_eq_Suc)
  then show ?thesis using r by simp
qed

subsection \<open>Credentials\<close>

text \<open>\<open>rnd\<close>: libwebrtc's random string of a length, from the state of its generator.\<close>

definition ICE_UFRAG_LENGTH :: nat where "ICE_UFRAG_LENGTH = 4"
definition ICE_PWD_LENGTH :: nat where "ICE_PWD_LENGTH = 24"

definition CreateRandomIceCredentials :: "(nat \<Rightarrow> 'g \<Rightarrow> bytes \<times> 'g) \<Rightarrow> 'g \<Rightarrow> ice_params \<times> 'g" where
  "CreateRandomIceCredentials rnd g =
     (let (ufrag, g1) = rnd ICE_UFRAG_LENGTH g; (pwd, g2) = rnd ICE_PWD_LENGTH g1 in (\<lparr>ice_ufrag = ufrag, ice_pwd = pwd\<rparr>, g2))"

end
